(* ===== verification/MRR_Prelude.thy ===== *)
theory MRR_Prelude
  imports Main "HOL-Library.AList" "HOL-Library.Char_ord" "HOL-Library.Sublist" "HOL-Library.List_Lexorder"
begin

text \<open>
  What every component of the model shares: JSON values and Python dictionaries, the
  exceptions the modelled code raises (\<^verbatim>\<open>packages/domain/mrr/domain/exceptions.py\<close>,
  \<^verbatim>\<open>packages/crypto/mrr/crypto/exceptions.py\<close>, \<^verbatim>\<open>packages/provenance/mrr/provenance/exceptions.py\<close>),
  the state-and-exception programs the services are written in, sorted renderings of sets of
  strings, the ISO rendering of an instant, and the collections of facts the component proofs
  draw on.

  Strings are lists of 8-bit characters ordered by \<^theory_text>\<open>Char_ord\<close> and
  \<^theory_text>\<open>List_Lexorder\<close>, which is Python's order on strings of such characters. An instant
  (an aware \<^verbatim>\<open>datetime\<close>) is the number of microseconds since the Unix epoch, an
  \<^verbatim>\<open>int\<close>; Python's integers are \<^typ>\<open>int\<close>.
\<close>

named_theorems prog_simps "unfolding rules of programs with state and exceptions"
named_theorems dict_simps "lookup after update in a Python dictionary"

section \<open>Values\<close>

type_synonym urn = string
type_synonym instant = int

text \<open>
  JSON values without floating-point numbers. Only the source verifier compares arbitrary JSON
  values; the model covers the documents that hold none.
\<close>

datatype json =
    JNull
  | JBool bool
  | JInt int
  | JStr string
  | JArr "json list"
  | JObj "(string \<times> json) list"

text \<open>A Python dictionary keeps insertion order; assignment to a present key keeps its place.\<close>

type_synonym dict = "(string \<times> json) list"

section \<open>Exceptions\<close>

text \<open>
  The exceptions of the modelled code. Those that only the services of the control plane raise
  stand in two datatypes of their own, one for the work on objects and one for governance and
  release; the names of the classes are abbreviations for their values.
\<close>

datatype (plugins only: code) service_exn =
    ClaimNotFound string
  | MissingSupportEdge string "string list"
  | ClaimCeilingExceeded string string
  | GatedEdgeType string
  | InvalidKillDecision string string "json option"
  | ObligationSourceTransferNotFound string
  | TransferNotAccepted string "string option"
  | ObligationNotFound string
  | ObligationsAlreadyMaterialized string "string list"
  | MissingResolutionEvidence string
  | ScoreNotFound string
  | ScoreNotApproved string string
  | ApprovalRequired string
  | ArtifactNotFound string
  | ArtifactIntegrity string string
  | NodeManifestNotFound string
  | NodeManifestValidity string instant instant instant
  | TaskBundleNotFound string
  | NodeAuthority string string string
  | CapabilityNotDeclared string string string
  | UntrustedIsolationNotAvailable
  | CorrectionNotFound string
  | SelfVerification string string "string option" string
  | TransferContractNotFound string
  | ParticipantIdentifiableTransfer string
  | CorrectionNotificationNotWithinValidityWindow string instant instant instant
  | CorrectionNotificationAlreadyProcessed string
  | CorrectionResponseAlreadyRecorded string

datatype (plugins only: code) governance_exn =
    MethodProfileNotFound string
  | UnknownCapability string
  | SyntheticFixtureNotEvidence "string option"
  | ProtocolNotLocked string string
  | ProtocolLockViolation string string string
  | SensitivityVariationDeclarationMismatch string "string list" "string list"
  | EvidenceMatrixNotFound string
  | MethodRulingNotFound string
  | QuestionModelNotFound string
  | ConceptCharterNotFound string
  | MethodProtocolNotFound string
  | NonPersonApprover string
  | EmptyApprovalStatement
  | DualApprovalNotSupported string
  | ReleaseCrateKind string string
  | BundleRootHashMismatch string string
  | ReleaseRecordKind string string
  | AlreadySuperseded string
  | SelfSupersession string
  | SupersedingReleaseNotReleased string string

datatype (plugins only: code) exn =
    ValueError
  | KeyError string
  | TypeErr
  | RuntimeErr
  | PydanticValidationError
  | CanonicalizationError
  | UnsupportedAlgorithmError string
  | SignatureVerificationError
  | InvalidPublicKeyError
  | IntegrityErr
  | InvalidUrnError string
  | InvalidEntityError string
  | InvalidTransitionError string string string
  | RevisionConflictError string "int option" "int option"
  | UnknownEdgeTypeError string
  | ObjectNotFoundError string "int option"
  | EventAppendError string
  | ChainVerificationError int
  | PendingDeliveryNotFoundError string string
  | UnknownKeyIdError string
  | SignerMismatchError string string string
  | KeyNotValidError string string instant
  | ManifestKeyNotDeclaredError string
  | EnvelopeRecipientMismatchError string string string
  | EnvelopeNotWithinValidityWindowError string instant instant instant
  | EnvelopePayloadContentHashMismatchError string string "json option"
  | EnvelopeAlreadyProcessedError string
  | EnvelopePayloadMissingContentHashError string
  | BundleRecipientMismatchError string string string
  | BundleNotWithinValidityWindowError string instant instant instant
  | BundleAlreadyProcessedError string
  | BundleEntryHashMismatchError string string string string
  | ReleaseBundleFinalizationError string int exn
  | SupersessionIntermediateStateError string string exn
  | AssertionErr
  | ServiceExn service_exn
  | GovernanceExn governance_exn

abbreviation ClaimNotFoundError where "ClaimNotFoundError \<equiv> \<lambda>a. ServiceExn (ClaimNotFound a)"
abbreviation MissingSupportEdgeError where "MissingSupportEdgeError \<equiv> \<lambda>a b. ServiceExn (MissingSupportEdge a b)"
abbreviation ClaimCeilingExceededError where "ClaimCeilingExceededError \<equiv> \<lambda>a b. ServiceExn (ClaimCeilingExceeded a b)"
abbreviation GatedEdgeTypeError where "GatedEdgeTypeError \<equiv> \<lambda>a. ServiceExn (GatedEdgeType a)"
abbreviation InvalidKillDecisionError where "InvalidKillDecisionError \<equiv> \<lambda>a b c. ServiceExn (InvalidKillDecision a b c)"
abbreviation ObligationSourceTransferNotFoundError where "ObligationSourceTransferNotFoundError \<equiv> \<lambda>a. ServiceExn (ObligationSourceTransferNotFound a)"
abbreviation TransferNotAcceptedError where "TransferNotAcceptedError \<equiv> \<lambda>a b. ServiceExn (TransferNotAccepted a b)"
abbreviation ObligationNotFoundError where "ObligationNotFoundError \<equiv> \<lambda>a. ServiceExn (ObligationNotFound a)"
abbreviation ObligationsAlreadyMaterializedError where "ObligationsAlreadyMaterializedError \<equiv> \<lambda>a b. ServiceExn (ObligationsAlreadyMaterialized a b)"
abbreviation MissingResolutionEvidenceError where "MissingResolutionEvidenceError \<equiv> \<lambda>a. ServiceExn (MissingResolutionEvidence a)"
abbreviation ScoreNotFoundError where "ScoreNotFoundError \<equiv> \<lambda>a. ServiceExn (ScoreNotFound a)"
abbreviation ScoreNotApprovedError where "ScoreNotApprovedError \<equiv> \<lambda>a b. ServiceExn (ScoreNotApproved a b)"
abbreviation ApprovalRequiredError where "ApprovalRequiredError \<equiv> \<lambda>a. ServiceExn (ApprovalRequired a)"
abbreviation ArtifactNotFoundError where "ArtifactNotFoundError \<equiv> \<lambda>a. ServiceExn (ArtifactNotFound a)"
abbreviation ArtifactIntegrityError where "ArtifactIntegrityError \<equiv> \<lambda>a b. ServiceExn (ArtifactIntegrity a b)"
abbreviation NodeManifestNotFoundError where "NodeManifestNotFoundError \<equiv> \<lambda>a. ServiceExn (NodeManifestNotFound a)"
abbreviation NodeManifestValidityError where "NodeManifestValidityError \<equiv> \<lambda>a b c d. ServiceExn (NodeManifestValidity a b c d)"
abbreviation TaskBundleNotFoundError where "TaskBundleNotFoundError \<equiv> \<lambda>a. ServiceExn (TaskBundleNotFound a)"
abbreviation NodeAuthorityError where "NodeAuthorityError \<equiv> \<lambda>a b c. ServiceExn (NodeAuthority a b c)"
abbreviation CapabilityNotDeclaredError where "CapabilityNotDeclaredError \<equiv> \<lambda>a b c. ServiceExn (CapabilityNotDeclared a b c)"
abbreviation UntrustedIsolationNotAvailableError where "UntrustedIsolationNotAvailableError \<equiv> ServiceExn UntrustedIsolationNotAvailable"
abbreviation CorrectionNotFoundError where "CorrectionNotFoundError \<equiv> \<lambda>a. ServiceExn (CorrectionNotFound a)"
abbreviation SelfVerificationError where "SelfVerificationError \<equiv> \<lambda>a b c d. ServiceExn (SelfVerification a b c d)"
abbreviation TransferContractNotFoundError where "TransferContractNotFoundError \<equiv> \<lambda>a. ServiceExn (TransferContractNotFound a)"
abbreviation ParticipantIdentifiableTransferError where "ParticipantIdentifiableTransferError \<equiv> \<lambda>a. ServiceExn (ParticipantIdentifiableTransfer a)"
abbreviation CorrectionNotificationNotWithinValidityWindowError where "CorrectionNotificationNotWithinValidityWindowError \<equiv> \<lambda>a b c d. ServiceExn (CorrectionNotificationNotWithinValidityWindow a b c d)"
abbreviation CorrectionNotificationAlreadyProcessedError where "CorrectionNotificationAlreadyProcessedError \<equiv> \<lambda>a. ServiceExn (CorrectionNotificationAlreadyProcessed a)"
abbreviation CorrectionResponseAlreadyRecordedError where "CorrectionResponseAlreadyRecordedError \<equiv> \<lambda>a. ServiceExn (CorrectionResponseAlreadyRecorded a)"

abbreviation MethodProfileNotFoundError where "MethodProfileNotFoundError \<equiv> \<lambda>a. GovernanceExn (MethodProfileNotFound a)"
abbreviation UnknownCapabilityError where "UnknownCapabilityError \<equiv> \<lambda>a. GovernanceExn (UnknownCapability a)"
abbreviation SyntheticFixtureNotEvidenceError where "SyntheticFixtureNotEvidenceError \<equiv> \<lambda>a. GovernanceExn (SyntheticFixtureNotEvidence a)"
abbreviation ProtocolNotLockedError where "ProtocolNotLockedError \<equiv> \<lambda>a b. GovernanceExn (ProtocolNotLocked a b)"
abbreviation ProtocolLockViolationError where "ProtocolLockViolationError \<equiv> \<lambda>a b c. GovernanceExn (ProtocolLockViolation a b c)"
abbreviation SensitivityVariationDeclarationMismatchError where "SensitivityVariationDeclarationMismatchError \<equiv> \<lambda>a b c. GovernanceExn (SensitivityVariationDeclarationMismatch a b c)"
abbreviation EvidenceMatrixNotFoundError where "EvidenceMatrixNotFoundError \<equiv> \<lambda>a. GovernanceExn (EvidenceMatrixNotFound a)"
abbreviation MethodRulingNotFoundError where "MethodRulingNotFoundError \<equiv> \<lambda>a. GovernanceExn (MethodRulingNotFound a)"
abbreviation QuestionModelNotFoundError where "QuestionModelNotFoundError \<equiv> \<lambda>a. GovernanceExn (QuestionModelNotFound a)"
abbreviation ConceptCharterNotFoundError where "ConceptCharterNotFoundError \<equiv> \<lambda>a. GovernanceExn (ConceptCharterNotFound a)"
abbreviation MethodProtocolNotFoundError where "MethodProtocolNotFoundError \<equiv> \<lambda>a. GovernanceExn (MethodProtocolNotFound a)"
abbreviation NonPersonApproverError where "NonPersonApproverError \<equiv> \<lambda>a. GovernanceExn (NonPersonApprover a)"
abbreviation EmptyApprovalStatementError where "EmptyApprovalStatementError \<equiv> GovernanceExn EmptyApprovalStatement"
abbreviation DualApprovalNotSupportedError where "DualApprovalNotSupportedError \<equiv> \<lambda>a. GovernanceExn (DualApprovalNotSupported a)"
abbreviation ReleaseCrateKindError where "ReleaseCrateKindError \<equiv> \<lambda>a b. GovernanceExn (ReleaseCrateKind a b)"
abbreviation BundleRootHashMismatchError where "BundleRootHashMismatchError \<equiv> \<lambda>a b. GovernanceExn (BundleRootHashMismatch a b)"
abbreviation ReleaseRecordKindError where "ReleaseRecordKindError \<equiv> \<lambda>a b. GovernanceExn (ReleaseRecordKind a b)"
abbreviation AlreadySupersededError where "AlreadySupersededError \<equiv> \<lambda>a. GovernanceExn (AlreadySuperseded a)"
abbreviation SelfSupersessionError where "SelfSupersessionError \<equiv> \<lambda>a. GovernanceExn (SelfSupersession a)"
abbreviation SupersedingReleaseNotReleasedError where "SupersedingReleaseNotReleasedError \<equiv> \<lambda>a b. GovernanceExn (SupersedingReleaseNotReleased a b)"

type_synonym 'a outcome = "exn + 'a"

section \<open>Programs: a state, and a result that may be an exception\<close>

text \<open>
  A method of the code takes the world and gives its result with the world it leaves. An
  exception does not undo what was written before it; only a database transaction does
  (theory \<open>Database\<close>).
\<close>

type_synonym ('w, 'a) prog = "'w \<Rightarrow> 'a outcome \<times> 'w"

definition ret :: "'a \<Rightarrow> ('w, 'a) prog" where
  "ret x = (\<lambda>w. (Inr x, w))"

definition raise :: "exn \<Rightarrow> ('w, 'a) prog" where
  "raise e = (\<lambda>w. (Inl e, w))"

definition bindp :: "('w, 'a) prog \<Rightarrow> ('a \<Rightarrow> ('w, 'b) prog) \<Rightarrow> ('w, 'b) prog" where
  "bindp m f = (\<lambda>w. case m w of (Inl e, w') \<Rightarrow> (Inl e, w') | (Inr x, w') \<Rightarrow> f x w')"

definition guardp :: "bool \<Rightarrow> exn \<Rightarrow> ('w, unit) prog" where
  "guardp b e = (if b then ret () else raise e)"

definition lift :: "'a outcome \<Rightarrow> ('w, 'a) prog" where
  "lift r = (\<lambda>w. (r, w))"

definition asks :: "('w \<Rightarrow> 'a) \<Rightarrow> ('w, 'a) prog" where
  "asks f = (\<lambda>w. (Inr (f w), w))"

text \<open>\<^verbatim>\<open>try: m except E: h\<close>, where the handler looks at the exception.\<close>

definition catchp :: "('w, 'a) prog \<Rightarrow> (exn \<Rightarrow> ('w, 'a) prog) \<Rightarrow> ('w, 'a) prog" where
  "catchp m h = (\<lambda>w. case m w of (Inl e, w') \<Rightarrow> h e w' | (Inr x, w') \<Rightarrow> (Inr x, w'))"

text \<open>A \<^verbatim>\<open>for\<close> loop that collects one result per element and stops at the first exception.\<close>

fun mapp :: "('a \<Rightarrow> ('w, 'b) prog) \<Rightarrow> 'a list \<Rightarrow> ('w, 'b list) prog" where
  "mapp f [] = ret []"
| "mapp f (x # xs) = bindp (f x) (\<lambda>y. bindp (mapp f xs) (\<lambda>ys. ret (y # ys)))"

lemma ret_run [prog_simps]: "ret x w = (Inr x, w)"
  by (simp add: ret_def)

lemma raise_run [prog_simps]: "raise e w = (Inl e, w)"
  by (simp add: raise_def)

lemma guardp_run [prog_simps]: "guardp b e w = (if b then (Inr (), w) else (Inl e, w))"
  by (simp add: guardp_def ret_def raise_def)

lemma lift_run [prog_simps]: "lift r w = (r, w)"
  by (simp add: lift_def)

lemma asks_run [prog_simps]: "asks f w = (Inr (f w), w)"
  by (simp add: asks_def)

text \<open>
  Inversion: a program that returned took the returning branch at every step. These are the
  elimination rules by which the service proofs read a successful run backwards.
\<close>

lemma bindp_InrE [elim!]:
  assumes "bindp m f w = (Inr y, w2)"
  obtains x w1 where "m w = (Inr x, w1)" and "f x w1 = (Inr y, w2)"
  using assms by (auto simp: bindp_def split: prod.splits sum.splits)

lemma guardp_InrE [elim!]:
  assumes "guardp b e w = (Inr y, w2)"
  obtains "b" and "w2 = w"
  using assms by (auto simp: guardp_run split: if_splits)

lemma lift_InrE [elim!]:
  assumes "lift r w = (Inr y, w2)"
  obtains "r = Inr y" and "w2 = w"
  using assms by (auto simp: lift_def)

lemma ret_InrE [elim!]:
  assumes "ret x w = (Inr y, w2)"
  obtains "y = x" and "w2 = w"
  using assms by (auto simp: ret_def)

lemma asks_InrE [elim!]:
  assumes "asks f w = (Inr y, w2)"
  obtains "y = f w" and "w2 = w"
proof (rule that)
  have e: "asks f w = (Inr (f w), w)" by (rule asks_run)
  show "y = f w" using assms e by (metis prod.inject sum.inject(2))
  show "w2 = w" using assms e by (metis prod.inject)
qed

lemma raise_InrE [elim!]: "raise e w = (Inr y, w2) \<Longrightarrow> P"
  by (simp add: raise_def)

lemma bindp_Inr [prog_simps]: "m w = (Inr x, w1) \<Longrightarrow> bindp m f w = f x w1"
  by (simp add: bindp_def)

lemma bindp_Inl [prog_simps]: "m w = (Inl e, w1) \<Longrightarrow> bindp m f w = (Inl e, w1)"
  by (simp add: bindp_def)

text \<open>
  A relation between the worlds before and after that every step keeps, whatever the
  outcome: a program built from such steps keeps it. Used for the facts that hold on the
  error paths too.
\<close>

definition keeps :: "('w \<Rightarrow> 'w \<Rightarrow> bool) \<Rightarrow> ('w, 'a) prog \<Rightarrow> bool" where
  "keeps R m \<longleftrightarrow> (\<forall>w. R w (snd (m w)))"

lemma keepsI: "(\<And>w. R w (snd (m w))) \<Longrightarrow> keeps R m"
  by (simp add: keeps_def)

lemma keepsD: "keeps R m \<Longrightarrow> m w = (r, w') \<Longrightarrow> R w w'"
  by (metis keeps_def snd_conv)

lemma keeps_bindp:
  assumes "transp R" and "keeps R m" and "\<And>x. keeps R (f x)"
  shows "keeps R (bindp m f)"
proof (rule keepsI)
  fix w
  obtain r w1 where mw: "m w = (r, w1)" by fastforce
  with assms(2) have 1: "R w w1" by (blast dest: keepsD)
  show "R w (snd (bindp m f w))"
  proof (cases r)
    case (Inl e)
    with mw 1 show ?thesis by (simp add: bindp_def)
  next
    case (Inr x)
    have "R w1 (snd (f x w1))" using assms(3) by (simp add: keeps_def)
    with 1 have "R w (snd (f x w1))" by (rule transpD [OF assms(1)])
    with mw Inr show ?thesis by (simp add: bindp_def)
  qed
qed

lemma keeps_pure:
  assumes "reflp R"
  shows "keeps R (ret x)" and "keeps R (raise e)" and "keeps R (guardp b e)"
    and "keeps R (lift r)" and "keeps R (asks g)"
  using assms by (auto simp: keeps_def prog_simps reflp_def)

lemma keeps_catchp:
  assumes "transp R" and "keeps R m" and "\<And>e. keeps R (h e)"
  shows "keeps R (catchp m h)"
proof (rule keepsI)
  fix w
  obtain r w1 where mw: "m w = (r, w1)" by fastforce
  with assms(2) have 1: "R w w1" by (blast dest: keepsD)
  have 2: "R w1 (snd (h e w1))" for e using assms(3) by (simp add: keeps_def)
  have 3: "R w (snd (h e w1))" for e by (rule transpD [OF assms(1) 1 2])
  show "R w (snd (catchp m h w))"
    using mw 1 3 by (cases r) (auto simp: catchp_def)
qed

lemma keeps_mapp:
  assumes "transp R" and "reflp R" and "\<And>x. keeps R (f x)"
  shows "keeps R (mapp f xs)"
  by (induction xs) (auto intro!: keeps_bindp keeps_pure assms)

text \<open>Running one operation on each argument in turn, whatever the outcomes.\<close>

fun run_all :: "('a \<Rightarrow> 'w \<Rightarrow> 'r \<times> 'w) \<Rightarrow> 'a list \<Rightarrow> 'w \<Rightarrow> 'w" where
  "run_all f [] w = w"
| "run_all f (x # xs) w = run_all f xs (snd (f x w))"

section \<open>Dictionaries\<close>

text \<open>\<^verbatim>\<open>d[k]\<close>, \<^verbatim>\<open>d.get(k)\<close>, \<^verbatim>\<open>d[k] = v\<close> and \<^verbatim>\<open>d.update(e)\<close>.\<close>

definition dget :: "dict \<Rightarrow> string \<Rightarrow> json outcome" where
  "dget d k = (case map_of d k of None \<Rightarrow> Inl (KeyError k) | Some v \<Rightarrow> Inr v)"

abbreviation dlookup :: "dict \<Rightarrow> string \<Rightarrow> json option" where
  "dlookup d k \<equiv> map_of d k"

definition dset :: "string \<Rightarrow> json \<Rightarrow> dict \<Rightarrow> dict" where
  "dset k v d = AList.update k v d"

definition dupdate :: "dict \<Rightarrow> dict \<Rightarrow> dict" where
  "dupdate d e = foldl (\<lambda>d kv. dset (fst kv) (snd kv) d) d e"

lemma dlookup_dset [dict_simps, simp]:
  "map_of (dset k v d) j = (if j = k then Some v else map_of d j)"
  by (simp add: dset_def update_conv')

lemma dset_keys: "set (map fst (dset k v d)) = insert k (set (map fst d))"
  by (simp add: dset_def AList.dom_update)

lemma dupdate_Nil [dict_simps, simp]: "dupdate d [] = d"
  by (simp add: dupdate_def)

lemma dupdate_Cons [dict_simps, simp]: "dupdate d ((k, v) # e) = dupdate (dset k v d) e"
  by (simp add: dupdate_def)

lemma dget_Inr [simp]: "dget d k = Inr v \<longleftrightarrow> map_of d k = Some v"
  by (auto simp: dget_def split: option.splits)

lemma dget_Inl: "dget d k = Inl e \<longleftrightarrow> map_of d k = None \<and> e = KeyError k"
  by (auto simp: dget_def split: option.splits)

text \<open>
  Reading a JSON value at a type. The code reads these fields from bodies that passed schema
  validation; where one has another type, Python goes on with that value and fails at its
  first use, which the model renders as \<^const>\<open>TypeErr\<close> at the read.
\<close>

fun as_str :: "json \<Rightarrow> string outcome" where
  "as_str (JStr s) = Inr s"
| "as_str _ = Inl TypeErr"

fun strs_of :: "json list \<Rightarrow> string list outcome" where
  "strs_of [] = Inr []"
| "strs_of (JStr s # js) = (case strs_of js of Inl e \<Rightarrow> Inl e | Inr ss \<Rightarrow> Inr (s # ss))"
| "strs_of _ = Inl TypeErr"

fun as_strs :: "json \<Rightarrow> string list outcome" where
  "as_strs (JArr js) = strs_of js"
| "as_strs _ = Inl TypeErr"

definition dget_str :: "dict \<Rightarrow> string \<Rightarrow> string outcome" where
  "dget_str d k = (case dget d k of Inl e \<Rightarrow> Inl e | Inr v \<Rightarrow> as_str v)"

definition dget_strs :: "dict \<Rightarrow> string \<Rightarrow> string list outcome" where
  "dget_strs d k = (case dget d k of Inl e \<Rightarrow> Inl e | Inr v \<Rightarrow> as_strs v)"

lemma as_str_Inr [simp]: "as_str j = Inr s \<longleftrightarrow> j = JStr s"
  by (cases j) auto

lemma dget_str_Inr [simp]: "dget_str d k = Inr s \<longleftrightarrow> map_of d k = Some (JStr s)"
  by (auto simp: dget_str_def dget_Inl split: sum.splits)

lemma strs_of_map [simp]: "strs_of (map JStr ss) = Inr ss"
  by (induction ss) auto

lemma strs_of_Inr [simp]: "strs_of js = Inr ss \<longleftrightarrow> js = map JStr ss"
proof (induction js arbitrary: ss rule: strs_of.induct)
  case (2 s js)
  show ?case
    by (cases "strs_of js"; cases ss) (use "2.IH" in auto)
qed auto

lemma as_strs_Inr [simp]: "as_strs j = Inr ss \<longleftrightarrow> j = JArr (map JStr ss)"
  by (cases j) auto

lemma dget_strs_Inr [simp]: "dget_strs d k = Inr ss \<longleftrightarrow> map_of d k = Some (JArr (map JStr ss))"
  by (auto simp: dget_strs_def dget_Inl split: sum.splits)

section \<open>Sets of strings, rendered sorted\<close>

text \<open>\<^verbatim>\<open>sorted(s)\<close> for a set given by a list of its elements in any order.\<close>

definition sorted_set :: "string list \<Rightarrow> string list" where
  "sorted_set xs = sort (remdups xs)"

lemma set_sorted_set [simp]: "set (sorted_set xs) = set xs"
  by (simp add: sorted_set_def)

lemma distinct_sorted_set [simp]: "distinct (sorted_set xs)"
  by (simp add: sorted_set_def)

lemma sorted_sorted_set [simp]: "sorted (sorted_set xs)"
  by (simp add: sorted_set_def)

lemma sorted_set_cong: "set xs = set ys \<Longrightarrow> sorted_set xs = sorted_set ys"
  by (rule sorted_distinct_set_unique) simp_all

lemma sorted_set_eq_Nil [simp]: "sorted_set xs = [] \<longleftrightarrow> xs = []"
  by (metis set_empty set_sorted_set)

section \<open>Lists\<close>

lemma distinct_filter_eq_singleton: "distinct xs \<Longrightarrow> a \<in> set xs \<Longrightarrow> filter (\<lambda>b. b = a) xs = [a]"
  by (induction xs) (auto simp: filter_empty_conv)

lemma distinct_mapI: "distinct (map f xs) \<Longrightarrow> distinct xs"
  by (simp add: distinct_map)

section \<open>The last element of a filtered journal\<close>

definition last_opt :: "'a list \<Rightarrow> 'a option" where
  "last_opt xs = (if xs = [] then None else Some (last xs))"

lemma last_opt_snoc [simp]: "last_opt (xs @ [x]) = Some x"
  by (simp add: last_opt_def)

lemma last_opt_Nil [simp]: "last_opt [] = None"
  by (simp add: last_opt_def)

lemma last_opt_Some_mem: "last_opt xs = Some x \<Longrightarrow> x \<in> set xs"
  by (auto simp: last_opt_def split: if_splits)

section \<open>The ISO rendering of an instant\<close>

text \<open>
  \<^verbatim>\<open>datetime.isoformat()\<close> of an instant in UTC: the proleptic Gregorian date from the day
  number, then the time of day, with the microseconds only where they are not zero.
\<close>

fun digits10 :: "nat \<Rightarrow> string" where
  "digits10 n = (if n < 10 then [char_of (48 + n)]
                 else digits10 (n div 10) @ [char_of (48 + n mod 10)])"

declare digits10.simps [simp del]

definition zpad :: "nat \<Rightarrow> string \<Rightarrow> string" where
  "zpad k s = replicate (k - length s) (CHR ''0'') @ s"

definition civil_of_days :: "int \<Rightarrow> int \<times> int \<times> int" where
  "civil_of_days n =
     (let z = n + 719468;
          era = z div 146097;
          doe = z mod 146097;
          yoe = (doe - doe div 1460 + doe div 36524 - doe div 146096) div 365;
          doy = doe - (365 * yoe + yoe div 4 - yoe div 100);
          mp = (5 * doy + 2) div 153;
          d = doy - (153 * mp + 2) div 5 + 1;
          m = (if mp < 10 then mp + 3 else mp - 9);
          y = yoe + era * 400 + (if m \<le> 2 then 1 else 0)
      in (y, m, d))"

definition num :: "nat \<Rightarrow> int \<Rightarrow> string" where
  "num k i = zpad k (digits10 (nat i))"

definition isoformat :: "instant \<Rightarrow> string" where
  "isoformat t =
     (let day = 86400000000;
          (y, m, d) = civil_of_days (t div day);
          us = t mod day;
          s = us div 1000000;
          f = us mod 1000000
      in num 4 y @ ''-'' @ num 2 m @ ''-'' @ num 2 d @ ''T''
         @ num 2 (s div 3600) @ '':'' @ num 2 (s div 60 mod 60) @ '':'' @ num 2 (s mod 60)
         @ (if f = 0 then [] else ''.'' @ num 6 f) @ ''+00:00'')"

end
