(* ===== verification/Lifecycles.thy ===== *)
theory Lifecycles
  imports MRR_Prelude
begin

text \<open>
  The lifecycle library, \<^verbatim>\<open>packages/domain/mrr/domain/lifecycles.py\<close>: the class
  \<^verbatim>\<open>StateMachine\<close> with its construction-time checks, the two queries the services call, and
  the declared machines, state names and edges as the source spells them. The locale
  \<open>lifecycle\<close> is the contract of a constructed machine; every declared machine
  interprets it.
\<close>

named_theorems machine_defs "the declared machines and their tables"

section \<open>StateMachine\<close>

record state_machine =
  sm_name :: string
  sm_states :: "string set"
  sm_transitions :: "(string \<times> string) set"
  sm_initial :: string

text \<open>\<^verbatim>\<open>__post_init__\<close>: every failing check raises \<^verbatim>\<open>ValueError\<close>.\<close>

definition new_state_machine ::
  "string \<Rightarrow> string set \<Rightarrow> (string \<times> string) set \<Rightarrow> string \<Rightarrow> state_machine outcome" where
  "new_state_machine name states transitions initial =
     (if initial \<notin> states then Inl ValueError
      else if \<exists>(a, b) \<in> transitions. a = b \<or> a \<notin> states \<or> b \<notin> states then Inl ValueError
      else Inr \<lparr>sm_name = name, sm_states = states, sm_transitions = transitions,
                sm_initial = initial\<rparr>)"

definition can_transition :: "state_machine \<Rightarrow> string \<Rightarrow> string \<Rightarrow> bool" where
  "can_transition m a b \<longleftrightarrow> (a, b) \<in> sm_transitions m"

definition assert_transition :: "state_machine \<Rightarrow> string \<Rightarrow> string \<Rightarrow> unit outcome" where
  "assert_transition m a b =
     (if can_transition m a b then Inr () else Inl (InvalidTransitionError (sm_name m) a b))"

lemma assert_transition_Inr [simp]: "assert_transition m a b = Inr u \<longleftrightarrow> can_transition m a b"
  by (simp add: assert_transition_def)

lemma assert_transition_Inl:
  "assert_transition m a b = Inl e \<longleftrightarrow>
     \<not> can_transition m a b \<and> e = InvalidTransitionError (sm_name m) a b"
  by (auto simp: assert_transition_def)

section \<open>The declared machines\<close>

definition research_score_states :: "string set" where [machine_defs]:
  "research_score_states =
     {''DRAFT'', ''IN_REVIEW'', ''APPROVED'', ''ACTIVE'', ''REJECTED'', ''SUSPENDED'',
      ''SUPERSEDED'', ''ARCHIVED''}"

definition research_score_transitions :: "(string \<times> string) set" where [machine_defs]:
  "research_score_transitions =
     {(''DRAFT'', ''IN_REVIEW''), (''IN_REVIEW'', ''APPROVED''), (''IN_REVIEW'', ''REJECTED''),
      (''APPROVED'', ''ACTIVE''), (''APPROVED'', ''SUSPENDED''), (''ACTIVE'', ''SUPERSEDED''),
      (''SUPERSEDED'', ''ARCHIVED'')}"

definition RESEARCH_SCORE_LIFECYCLE :: state_machine where [machine_defs]:
  "RESEARCH_SCORE_LIFECYCLE =
     \<lparr>sm_name = ''ResearchScore'', sm_states = research_score_states,
      sm_transitions = research_score_transitions, sm_initial = ''DRAFT''\<rparr>"

definition task_bundle_states :: "string set" where [machine_defs]:
  "task_bundle_states =
     {''CREATED'', ''OFFERED'', ''ACCEPTED'', ''MODIFICATION_PROPOSED'', ''DEFERRED'',
      ''REJECTED'', ''QUEUED'', ''EXPIRED'', ''CANCELLED'', ''RUNNING'', ''FAILED'',
      ''COMPLETED'', ''SEALED'', ''INVALID_RESULT''}"

definition task_bundle_transitions :: "(string \<times> string) set" where [machine_defs]:
  "task_bundle_transitions =
     {(''CREATED'', ''OFFERED''), (''OFFERED'', ''ACCEPTED''),
      (''OFFERED'', ''MODIFICATION_PROPOSED''), (''MODIFICATION_PROPOSED'', ''OFFERED''),
      (''OFFERED'', ''DEFERRED''), (''OFFERED'', ''REJECTED''), (''ACCEPTED'', ''QUEUED''),
      (''ACCEPTED'', ''EXPIRED''), (''QUEUED'', ''RUNNING''), (''QUEUED'', ''CANCELLED''),
      (''RUNNING'', ''COMPLETED''), (''RUNNING'', ''FAILED''), (''COMPLETED'', ''SEALED''),
      (''COMPLETED'', ''INVALID_RESULT'')}"

definition TASK_BUNDLE_LIFECYCLE :: state_machine where [machine_defs]:
  "TASK_BUNDLE_LIFECYCLE =
     \<lparr>sm_name = ''TaskBundle'', sm_states = task_bundle_states,
      sm_transitions = task_bundle_transitions, sm_initial = ''CREATED''\<rparr>"

definition claim_states :: "string set" where [machine_defs]:
  "claim_states =
     {''draft'', ''under_review'', ''supported'', ''contested'', ''contradicted'',
      ''unresolved'', ''unsupported'', ''review_required'', ''withdrawn'', ''superseded'',
      ''legacy_unverified''}"

definition claim_terminal_states :: "string set" where [machine_defs]:
  "claim_terminal_states = {''withdrawn'', ''superseded''}"

definition claim_nonterminal_states :: "string set" where [machine_defs]:
  "claim_nonterminal_states = claim_states - claim_terminal_states"

definition claim_transitions :: "(string \<times> string) set" where [machine_defs]:
  "claim_transitions =
     {(''draft'', ''under_review''), (''under_review'', ''supported''),
      (''under_review'', ''contested''), (''under_review'', ''contradicted''),
      (''under_review'', ''unresolved''), (''under_review'', ''unsupported'')}
     \<union> (\<lambda>s. (s, ''review_required'')) ` (claim_nonterminal_states - {''review_required''})
     \<union> (\<lambda>s. (s, ''withdrawn'')) ` (claim_nonterminal_states - {''withdrawn''})
     \<union> (\<lambda>s. (s, ''superseded'')) ` (claim_nonterminal_states - {''superseded''})"

definition CLAIM_LIFECYCLE :: state_machine where [machine_defs]:
  "CLAIM_LIFECYCLE =
     \<lparr>sm_name = ''Claim'', sm_states = claim_states, sm_transitions = claim_transitions,
      sm_initial = ''draft''\<rparr>"

definition correction_states :: "string set" where [machine_defs]:
  "correction_states =
     {''OPEN'', ''IMPACT_ANALYSIS'', ''NOTIFYING'', ''AWAITING_RESPONSES'',
      ''DELIVERY_PENDING'', ''RESOLVED'', ''PARTIALLY_RESOLVED'', ''REJECTED_BY_RECIPIENT''}"

definition correction_transitions :: "(string \<times> string) set" where [machine_defs]:
  "correction_transitions =
     {(''OPEN'', ''IMPACT_ANALYSIS''), (''IMPACT_ANALYSIS'', ''NOTIFYING''),
      (''NOTIFYING'', ''AWAITING_RESPONSES''), (''AWAITING_RESPONSES'', ''RESOLVED''),
      (''AWAITING_RESPONSES'', ''PARTIALLY_RESOLVED''),
      (''AWAITING_RESPONSES'', ''REJECTED_BY_RECIPIENT''),
      (''AWAITING_RESPONSES'', ''DELIVERY_PENDING'')}"

definition CORRECTION_LIFECYCLE :: state_machine where [machine_defs]:
  "CORRECTION_LIFECYCLE =
     \<lparr>sm_name = ''CorrectionEvent'', sm_states = correction_states,
      sm_transitions = correction_transitions, sm_initial = ''OPEN''\<rparr>"

definition TRANSFER_LIFECYCLE :: state_machine where [machine_defs]:
  "TRANSFER_LIFECYCLE =
     \<lparr>sm_name = ''TransferContract'',
      sm_states = {''created'', ''offered'', ''accepted'', ''adapted'', ''rejected'',
                   ''deferred'', ''unresolved''},
      sm_transitions =
        {(''created'', ''offered''), (''offered'', ''accepted''), (''offered'', ''adapted''),
         (''offered'', ''rejected''), (''offered'', ''deferred''), (''offered'', ''unresolved'')},
      sm_initial = ''created''\<rparr>"

definition OBLIGATION_LIFECYCLE :: state_machine where [machine_defs]:
  "OBLIGATION_LIFECYCLE =
     \<lparr>sm_name = ''Obligation'', sm_states = {''open'', ''resolved'', ''deferred''},
      sm_transitions = {(''open'', ''resolved''), (''open'', ''deferred'')},
      sm_initial = ''open''\<rparr>"

definition METHOD_PROFILE_LIFECYCLE :: state_machine where [machine_defs]:
  "METHOD_PROFILE_LIFECYCLE =
     \<lparr>sm_name = ''MethodProfile'', sm_states = {''draft'', ''accepted'', ''superseded''},
      sm_transitions = {(''draft'', ''accepted''), (''accepted'', ''superseded'')},
      sm_initial = ''draft''\<rparr>"

definition QUESTION_MODEL_LIFECYCLE :: state_machine where [machine_defs]:
  "QUESTION_MODEL_LIFECYCLE =
     \<lparr>sm_name = ''QuestionModel'', sm_states = {''draft'', ''accepted'', ''superseded''},
      sm_transitions = {(''draft'', ''accepted''), (''accepted'', ''superseded'')},
      sm_initial = ''draft''\<rparr>"

definition CONCEPT_CHARTER_LIFECYCLE :: state_machine where [machine_defs]:
  "CONCEPT_CHARTER_LIFECYCLE =
     \<lparr>sm_name = ''ConceptCharter'', sm_states = {''draft'', ''accepted'', ''superseded''},
      sm_transitions = {(''draft'', ''accepted''), (''accepted'', ''superseded'')},
      sm_initial = ''draft''\<rparr>"

definition METHOD_PROTOCOL_LIFECYCLE :: state_machine where [machine_defs]:
  "METHOD_PROTOCOL_LIFECYCLE =
     \<lparr>sm_name = ''MethodProtocol'',
      sm_states = {''draft'', ''reviewed'', ''locked'', ''amended'', ''executed''},
      sm_transitions =
        {(''draft'', ''reviewed''), (''reviewed'', ''locked''), (''locked'', ''amended''),
         (''locked'', ''executed''), (''amended'', ''reviewed'')},
      sm_initial = ''draft''\<rparr>"

definition EVIDENCE_MATRIX_LIFECYCLE :: state_machine where [machine_defs]:
  "EVIDENCE_MATRIX_LIFECYCLE =
     \<lparr>sm_name = ''EvidenceMatrix'', sm_states = {''draft'', ''active'', ''frozen'', ''superseded''},
      sm_transitions = {(''draft'', ''active''), (''active'', ''frozen''), (''frozen'', ''superseded'')},
      sm_initial = ''draft''\<rparr>"

definition METHOD_RULING_LIFECYCLE :: state_machine where [machine_defs]:
  "METHOD_RULING_LIFECYCLE =
     \<lparr>sm_name = ''MethodRuling'', sm_states = {''pending'', ''issued'', ''superseded''},
      sm_transitions = {(''pending'', ''issued''), (''issued'', ''superseded'')},
      sm_initial = ''pending''\<rparr>"

definition RESEARCH_DECISION_LIFECYCLE :: state_machine where [machine_defs]:
  "RESEARCH_DECISION_LIFECYCLE =
     \<lparr>sm_name = ''ResearchDecision'', sm_states = {''issued''}, sm_transitions = {},
      sm_initial = ''issued''\<rparr>"

definition RELEASE_RECORD_LIFECYCLE :: state_machine where [machine_defs]:
  "RELEASE_RECORD_LIFECYCLE =
     \<lparr>sm_name = ''ReleaseRecord'', sm_states = {''released'', ''superseded''},
      sm_transitions = {(''released'', ''superseded'')}, sm_initial = ''released''\<rparr>"

text \<open>
  The machine of \<^verbatim>\<open>packages/domain/mrr/domain/delivery_retry.py\<close>, built from the same class.
\<close>

definition DELIVERY_RETRY_LIFECYCLE :: state_machine where [machine_defs]:
  "DELIVERY_RETRY_LIFECYCLE =
     \<lparr>sm_name = ''DeliveryRetry'', sm_states = {''pending'', ''delivered'', ''exhausted''},
      sm_transitions = {(''pending'', ''delivered''), (''pending'', ''exhausted'')},
      sm_initial = ''pending''\<rparr>"

definition all_lifecycles :: "state_machine list" where
  "all_lifecycles =
     [RESEARCH_SCORE_LIFECYCLE, TASK_BUNDLE_LIFECYCLE, CLAIM_LIFECYCLE, CORRECTION_LIFECYCLE,
      TRANSFER_LIFECYCLE, OBLIGATION_LIFECYCLE, METHOD_PROFILE_LIFECYCLE,
      QUESTION_MODEL_LIFECYCLE, CONCEPT_CHARTER_LIFECYCLE, METHOD_PROTOCOL_LIFECYCLE,
      EVIDENCE_MATRIX_LIFECYCLE, METHOD_RULING_LIFECYCLE, RESEARCH_DECISION_LIFECYCLE,
      RELEASE_RECORD_LIFECYCLE, DELIVERY_RETRY_LIFECYCLE]"

section \<open>Histories\<close>

text \<open>
  A history is the sequence of statuses an object takes when every change is checked with
  \<^const>\<open>assert_transition\<close>, as every service does before it writes.
\<close>

fun enforced :: "state_machine \<Rightarrow> string list \<Rightarrow> bool" where
  "enforced m (a # b # xs) \<longleftrightarrow> assert_transition m a b = Inr () \<and> enforced m (b # xs)"
| "enforced m _ \<longleftrightarrow> True"

definition history :: "state_machine \<Rightarrow> string list \<Rightarrow> bool" where
  "history m xs \<longleftrightarrow> xs \<noteq> [] \<and> hd xs = sm_initial m \<and> enforced m xs"

lemma enforced_nth:
  "enforced m xs \<Longrightarrow> Suc i < length xs \<Longrightarrow> can_transition m (xs ! i) (xs ! Suc i)"
proof (induction m xs arbitrary: i rule: enforced.induct)
  case (1 m a b xs)
  then show ?case by (cases i) auto
qed auto

lemma enforced_take: "enforced m xs \<Longrightarrow> enforced m (take n xs)"
proof (induction m xs arbitrary: n rule: enforced.induct)
  case (1 m a b xs)
  show ?case
  proof (cases n)
    case (Suc k)
    with 1 have "enforced m (take k (b # xs))" by simp
    with 1 Suc show ?thesis by (cases k) auto
  qed simp
qed (auto simp: take_Cons' split: if_splits)

lemma history_step:
  "history m xs \<Longrightarrow> Suc i < length xs \<Longrightarrow> can_transition m (xs ! i) (xs ! Suc i)"
  by (simp add: history_def enforced_nth)

lemma history_start: "history m xs \<Longrightarrow> xs ! 0 = sm_initial m"
  by (auto simp: history_def hd_conv_nth)

lemma enforced_snoc:
  "enforced m xs \<Longrightarrow> xs \<noteq> [] \<Longrightarrow> can_transition m (last xs) b \<Longrightarrow> enforced m (xs @ [b])"
  by (induction m xs rule: enforced.induct) auto

lemma history_single [simp]: "history m [a] \<longleftrightarrow> a = sm_initial m"
  by (auto simp: history_def)

lemma history_snoc:
  "history m xs \<Longrightarrow> can_transition m (last xs) b \<Longrightarrow> history m (xs @ [b])"
  by (auto simp: history_def enforced_snoc)

text \<open>
  What the laws of a constructed machine give every service that enforces it.
\<close>

locale lifecycle =
  fixes m :: state_machine
  assumes constructed:
    "new_state_machine (sm_name m) (sm_states m) (sm_transitions m) (sm_initial m) = Inr m"
begin

lemma initial_declared: "sm_initial m \<in> sm_states m"
  using constructed by (auto simp: new_state_machine_def split: if_splits)

lemma edge_declared: "can_transition m a b \<Longrightarrow> a \<noteq> b \<and> a \<in> sm_states m \<and> b \<in> sm_states m"
  using constructed by (auto simp: new_state_machine_def can_transition_def split: if_splits)

lemma unknown_rejected:
  "a \<notin> sm_states m \<or> b \<notin> sm_states m \<Longrightarrow>
     assert_transition m a b = Inl (InvalidTransitionError (sm_name m) a b)"
  using edge_declared by (auto simp: assert_transition_Inl)

lemma history_declared: "history m xs \<Longrightarrow> i < length xs \<Longrightarrow> xs ! i \<in> sm_states m"
proof (induction i)
  case 0
  then show ?case using history_start initial_declared by metis
next
  case (Suc i)
  then show ?case using history_step edge_declared by metis
qed

text \<open>Walking a history backwards: a state other than the initial one has a predecessor.\<close>

lemma history_before:
  assumes "history m xs" and "i < length xs" and "xs ! i \<noteq> sm_initial m"
  obtains j where "i = Suc j" and "can_transition m (xs ! j) (xs ! i)"
proof (cases i)
  case 0
  with assms show ?thesis using history_start by metis
next
  case (Suc j)
  with assms history_step [of m xs j] that show ?thesis by blast
qed

lemma only_predecessor:
  assumes "history m xs" and "i < length xs" and "xs ! i = s" and "s \<noteq> sm_initial m"
    and "\<And>a. can_transition m a s \<Longrightarrow> P a"
  obtains j where "i = Suc j" and "j < length xs" and "P (xs ! j)"
  using assms by (metis history_before Suc_lessD)

text \<open>A state without outgoing edges ends its history.\<close>

lemma terminal_last:
  assumes "history m xs" and "i < length xs" and "\<And>b. \<not> can_transition m (xs ! i) b"
  shows "Suc i = length xs"
  using assms history_step [of m xs i] by (cases "Suc i < length xs") auto

end

lemmas table_simps = machine_defs new_state_machine_def can_transition_def

lemma claim_nonterminal_table:
  "claim_nonterminal_states =
     {''draft'', ''under_review'', ''supported'', ''contested'', ''contradicted'',
      ''unresolved'', ''unsupported'', ''review_required'', ''legacy_unverified''}"
  by (simp add: claim_nonterminal_states_def claim_states_def claim_terminal_states_def
      insert_Diff_if)

lemma claim_edge:
  "(a, b) \<in> claim_transitions \<longleftrightarrow>
     a = ''draft'' \<and> b = ''under_review''
     \<or> a = ''under_review'' \<and>
       b \<in> {''supported'', ''contested'', ''contradicted'', ''unresolved'', ''unsupported''}
     \<or> a \<in> claim_nonterminal_states \<and> a \<noteq> b \<and> b \<in> {''review_required'', ''withdrawn'', ''superseded''}"
proof -
  have im: "(a, b) \<in> (\<lambda>s. (s, t)) ` (N - {t}) \<longleftrightarrow> a \<in> N \<and> a \<noteq> b \<and> b = t" for t :: string and N
    by blast
  show ?thesis
    unfolding claim_transitions_def Un_iff insert_iff empty_iff im prod.inject by (rule iffI; elim disjE conjE; simp)
qed

lemma claim_constructed:
  "new_state_machine ''Claim'' claim_states claim_transitions ''draft'' = Inr CLAIM_LIFECYCLE"
proof -
  have sub: "claim_nonterminal_states \<subseteq> claim_states" by (auto simp: claim_nonterminal_states_def)
  have mem: "''draft'' \<in> claim_states" "''under_review'' \<in> claim_states"
    "{''supported'', ''contested'', ''contradicted'', ''unresolved'', ''unsupported''} \<subseteq> claim_states"
    "{''review_required'', ''withdrawn'', ''superseded''} \<subseteq> claim_states"
    by (simp_all add: claim_states_def)
  have "a \<noteq> b \<and> a \<in> claim_states \<and> b \<in> claim_states" if "(a, b) \<in> claim_transitions" for a b
    using that sub mem unfolding claim_edge
    by (elim disjE conjE insertE emptyE) (simp_all add: subset_iff)
  with mem(1) show ?thesis
    by (auto simp: new_state_machine_def CLAIM_LIFECYCLE_def)
qed

interpretation research_score: lifecycle RESEARCH_SCORE_LIFECYCLE
  by unfold_locales (simp add: table_simps)

interpretation task_bundle: lifecycle TASK_BUNDLE_LIFECYCLE
  by unfold_locales (simp add: table_simps)

interpretation claim: lifecycle CLAIM_LIFECYCLE
  using claim_constructed by unfold_locales (simp add: CLAIM_LIFECYCLE_def)

interpretation correction: lifecycle CORRECTION_LIFECYCLE
  by unfold_locales (simp add: table_simps)

interpretation transfer: lifecycle TRANSFER_LIFECYCLE
  by unfold_locales (simp add: table_simps)

interpretation obligation: lifecycle OBLIGATION_LIFECYCLE
  by unfold_locales (simp add: table_simps)

interpretation method_profile: lifecycle METHOD_PROFILE_LIFECYCLE
  by unfold_locales (simp add: table_simps)

interpretation question_model: lifecycle QUESTION_MODEL_LIFECYCLE
  by unfold_locales (simp add: table_simps)

interpretation concept_charter: lifecycle CONCEPT_CHARTER_LIFECYCLE
  by unfold_locales (simp add: table_simps)

interpretation method_protocol: lifecycle METHOD_PROTOCOL_LIFECYCLE
  by unfold_locales (simp add: table_simps)

interpretation evidence_matrix: lifecycle EVIDENCE_MATRIX_LIFECYCLE
  by unfold_locales (simp add: table_simps)

interpretation method_ruling: lifecycle METHOD_RULING_LIFECYCLE
  by unfold_locales (simp add: table_simps)

interpretation research_decision: lifecycle RESEARCH_DECISION_LIFECYCLE
  by unfold_locales (simp add: table_simps)

interpretation release_record: lifecycle RELEASE_RECORD_LIFECYCLE
  by unfold_locales (simp add: table_simps)

interpretation delivery_retry: lifecycle DELIVERY_RETRY_LIFECYCLE
  by unfold_locales (simp add: table_simps)

lemma all_lifecycles_constructed:
  "m \<in> set all_lifecycles \<Longrightarrow>
     new_state_machine (sm_name m) (sm_states m) (sm_transitions m) (sm_initial m) = Inr m"
  unfolding all_lifecycles_def list.set
  using research_score.constructed task_bundle.constructed claim.constructed
    correction.constructed transfer.constructed obligation.constructed
    method_profile.constructed question_model.constructed concept_charter.constructed
    method_protocol.constructed evidence_matrix.constructed method_ruling.constructed
    research_decision.constructed release_record.constructed delivery_retry.constructed
  by blast

section \<open>The edges of single machines\<close>

lemma task_bundle_into_RUNNING: "can_transition TASK_BUNDLE_LIFECYCLE a ''RUNNING'' \<longleftrightarrow> a = ''QUEUED''"
  and task_bundle_into_QUEUED: "can_transition TASK_BUNDLE_LIFECYCLE a ''QUEUED'' \<longleftrightarrow> a = ''ACCEPTED''"
  and task_bundle_into_ACCEPTED: "can_transition TASK_BUNDLE_LIFECYCLE a ''ACCEPTED'' \<longleftrightarrow> a = ''OFFERED''"
  and task_bundle_into_COMPLETED: "can_transition TASK_BUNDLE_LIFECYCLE a ''COMPLETED'' \<longleftrightarrow> a = ''RUNNING''"
  and task_bundle_into_SEALED: "can_transition TASK_BUNDLE_LIFECYCLE a ''SEALED'' \<longleftrightarrow> a = ''COMPLETED''"
  by (auto simp: table_simps)

lemma protocol_into_executed: "can_transition METHOD_PROTOCOL_LIFECYCLE a ''executed'' \<longleftrightarrow> a = ''locked''"
  and protocol_into_locked: "can_transition METHOD_PROTOCOL_LIFECYCLE a ''locked'' \<longleftrightarrow> a = ''reviewed''"
  and protocol_into_reviewed:
    "can_transition METHOD_PROTOCOL_LIFECYCLE a ''reviewed'' \<longleftrightarrow> a = ''draft'' \<or> a = ''amended''"
  and protocol_from_executed: "\<not> can_transition METHOD_PROTOCOL_LIFECYCLE ''executed'' b"
  by (auto simp: table_simps)

lemma claim_can_transition: "can_transition CLAIM_LIFECYCLE a b \<longleftrightarrow> (a, b) \<in> claim_transitions"
  by (simp add: can_transition_def CLAIM_LIFECYCLE_def)

lemma claim_into_supported: "can_transition CLAIM_LIFECYCLE a ''supported'' \<longleftrightarrow> a = ''under_review''"
  and claim_into_legacy: "\<not> can_transition CLAIM_LIFECYCLE a ''legacy_unverified''"
  by (simp_all add: claim_can_transition claim_edge claim_nonterminal_table)

lemma claim_from_terminal: "a \<in> claim_terminal_states \<Longrightarrow> \<not> can_transition CLAIM_LIFECYCLE a b"
  unfolding claim_terminal_states_def
  by (elim insertE emptyE) (simp_all add: claim_can_transition claim_edge claim_nonterminal_table)

lemma claim_to_terminal:
  "a \<in> claim_states \<Longrightarrow> a \<notin> claim_terminal_states \<Longrightarrow> t \<in> claim_terminal_states \<Longrightarrow>
     can_transition CLAIM_LIFECYCLE a t"
  unfolding claim_can_transition claim_edge claim_nonterminal_states_def
  by (auto simp: claim_terminal_states_def)

lemma initial_states:
  "sm_initial TASK_BUNDLE_LIFECYCLE = ''CREATED''"
  "sm_initial METHOD_PROTOCOL_LIFECYCLE = ''draft''"
  "sm_initial CLAIM_LIFECYCLE = ''draft''"
  by (simp_all add: machine_defs)

lemma bundle_before_running:
  assumes h: "history TASK_BUNDLE_LIFECYCLE xs" and i: "i < length xs" and r: "xs ! i = ''RUNNING''"
  shows "\<exists>ys. take i xs = ys @ [''OFFERED'', ''ACCEPTED'', ''QUEUED'']"
proof -
  note before = task_bundle.only_predecessor [OF h]
  obtain j where j: "i = Suc j" "j < length xs" "xs ! j = ''QUEUED''"
    by (rule before [OF i r, of "\<lambda>a. a = ''QUEUED''"])
      (simp_all add: initial_states task_bundle_into_RUNNING)
  obtain k where k: "j = Suc k" "k < length xs" "xs ! k = ''ACCEPTED''"
    by (rule before [OF j(2,3), of "\<lambda>a. a = ''ACCEPTED''"])
      (simp_all add: initial_states task_bundle_into_QUEUED)
  obtain l where l: "k = Suc l" "l < length xs" "xs ! l = ''OFFERED''"
    by (rule before [OF k(2,3), of "\<lambda>a. a = ''OFFERED''"])
      (simp_all add: initial_states task_bundle_into_ACCEPTED)
  with j k show ?thesis by (simp add: take_Suc_conv_app_nth)
qed

section \<open>Properties\<close>

text \<open>
  Every machine the source declares passes its own construction checks, so the checks
  never stop the module from loading; and each of them accepts exactly its declared edges:
  every other change, in particular every self-transition and every change from or to an
  unknown state name, is refused with the typed error that names the machine and both states.
\<close>

lemma lifecycles_fail_closed:
  assumes "m \<in> set all_lifecycles"
  shows "new_state_machine (sm_name m) (sm_states m) (sm_transitions m) (sm_initial m) = Inr m \<and>
         (\<forall>a b. assert_transition m a b =
            (if (a, b) \<in> sm_transitions m then Inr ()
             else Inl (InvalidTransitionError (sm_name m) a b))) \<and>
         (\<forall>a b. a = b \<or> a \<notin> sm_states m \<or> b \<notin> sm_states m \<longrightarrow> (a, b) \<notin> sm_transitions m)"
proof -
  have c: "new_state_machine (sm_name m) (sm_states m) (sm_transitions m) (sm_initial m) = Inr m"
    by (rule all_lifecycles_constructed [OF assms])
  then have lc: "lifecycle m" by (rule lifecycle.intro)
  have "(a, b) \<notin> sm_transitions m" if "a = b \<or> a \<notin> sm_states m \<or> b \<notin> sm_states m" for a b
    using lifecycle.edge_declared [OF lc, of a b] that by (auto simp: can_transition_def)
  with c show ?thesis by (auto simp: assert_transition_def can_transition_def)
qed

lemma lifecycles_fail_closed_witness:
  "assert_transition OBLIGATION_LIFECYCLE ''deferred'' ''deferred'' =
     Inl (InvalidTransitionError ''Obligation'' ''deferred'' ''deferred'')
   \<and> assert_transition OBLIGATION_LIFECYCLE ''open'' ''resolved'' = Inr ()"
proof -
  have mem: "OBLIGATION_LIFECYCLE \<in> set all_lifecycles" by (simp add: all_lifecycles_def)
  show ?thesis using lifecycles_fail_closed [OF mem] by (auto simp: OBLIGATION_LIFECYCLE_def)
qed

text \<open>
  No protocol is executed without a fresh review and lock: in every enforced history of
  a MethodProtocol that reaches \<^verbatim>\<open>executed\<close>, that state is the last one, and the three states
  before it are a draft or an amendment, then \<^verbatim>\<open>reviewed\<close>, then \<^verbatim>\<open>locked\<close>. So an amendment
  always goes through review and lock again.
\<close>

lemma protocol_executed_after_fresh_lock:
  assumes h: "history METHOD_PROTOCOL_LIFECYCLE xs" and i: "i < length xs"
    and ex: "xs ! i = ''executed''"
  shows "Suc i = length xs \<and> 3 \<le> i \<and> xs ! (i - 1) = ''locked'' \<and> xs ! (i - 2) = ''reviewed'' \<and>
         xs ! (i - 3) \<in> {''draft'', ''amended''}"
proof -
  note before = method_protocol.only_predecessor [OF h]
  obtain j where j: "i = Suc j" "j < length xs" "xs ! j = ''locked''"
    by (rule before [OF i ex, of "\<lambda>a. a = ''locked''"])
      (simp_all add: initial_states protocol_into_executed)
  obtain k where k: "j = Suc k" "k < length xs" "xs ! k = ''reviewed''"
    by (rule before [OF j(2,3), of "\<lambda>a. a = ''reviewed''"])
      (simp_all add: initial_states protocol_into_locked)
  obtain l where l: "k = Suc l" "xs ! l \<in> {''draft'', ''amended''}"
    by (rule before [OF k(2,3), of "\<lambda>a. a \<in> {''draft'', ''amended''}"])
      (simp_all add: initial_states protocol_into_reviewed)
  have "Suc i = length xs"
    using method_protocol.terminal_last [OF h i] ex by (simp add: protocol_from_executed)
  with j k l show ?thesis by (simp add: numeral_3_eq_3 numeral_2_eq_2)
qed

lemma protocol_executed_after_fresh_lock_witness:
  "let xs = [''draft'', ''reviewed'', ''locked'', ''amended'', ''reviewed'', ''locked'', ''executed'']
   in history METHOD_PROTOCOL_LIFECYCLE xs \<and> xs ! (6 - 3) \<in> {''draft'', ''amended''}"
proof -
  let ?xs = "[''draft'', ''reviewed'', ''locked'', ''amended'', ''reviewed'', ''locked'', ''executed'']"
  have h: "history METHOD_PROTOCOL_LIFECYCLE ?xs" by (simp add: history_def table_simps)
  have "?xs ! (6 - 3) \<in> {''draft'', ''amended''}"
    using protocol_executed_after_fresh_lock [OF h, of 6] by simp
  with h show ?thesis unfolding Let_def by blast
qed

text \<open>
  No task bundle runs, completes or is sealed without the deciding node's acceptance: in
  every enforced history of a TaskBundle, \<^verbatim>\<open>RUNNING\<close> comes right after \<^verbatim>\<open>OFFERED\<close>,
  \<^verbatim>\<open>ACCEPTED\<close>, \<^verbatim>\<open>QUEUED\<close> in this order, and \<^verbatim>\<open>SEALED\<close> comes right after these followed
  by \<^verbatim>\<open>RUNNING\<close> and \<^verbatim>\<open>COMPLETED\<close>.
\<close>

lemma bundle_runs_only_after_acceptance:
  assumes h: "history TASK_BUNDLE_LIFECYCLE xs" and i: "i < length xs"
  shows "(xs ! i = ''RUNNING'' \<longrightarrow> (\<exists>ys. take i xs = ys @ [''OFFERED'', ''ACCEPTED'', ''QUEUED''])) \<and>
         (xs ! i = ''SEALED'' \<longrightarrow> (\<exists>ys. take i xs =
            ys @ [''OFFERED'', ''ACCEPTED'', ''QUEUED'', ''RUNNING'', ''COMPLETED'']))"
proof (intro conjI impI)
  show "\<exists>ys. take i xs = ys @ [''OFFERED'', ''ACCEPTED'', ''QUEUED'']" if "xs ! i = ''RUNNING''"
    by (rule bundle_before_running [OF h i that])
  assume s: "xs ! i = ''SEALED''"
  note before = task_bundle.only_predecessor [OF h]
  obtain j where j: "i = Suc j" "j < length xs" "xs ! j = ''COMPLETED''"
    by (rule before [OF i s, of "\<lambda>a. a = ''COMPLETED''"])
      (simp_all add: initial_states task_bundle_into_SEALED)
  obtain k where k: "j = Suc k" "k < length xs" "xs ! k = ''RUNNING''"
    by (rule before [OF j(2,3), of "\<lambda>a. a = ''RUNNING''"])
      (simp_all add: initial_states task_bundle_into_COMPLETED)
  from bundle_before_running [OF h k(2,3)] j k
  show "\<exists>ys. take i xs = ys @ [''OFFERED'', ''ACCEPTED'', ''QUEUED'', ''RUNNING'', ''COMPLETED'']"
    by (auto simp: take_Suc_conv_app_nth)
qed

lemma bundle_runs_only_after_acceptance_witness:
  "let xs = [''CREATED'', ''OFFERED'', ''MODIFICATION_PROPOSED'', ''OFFERED'', ''ACCEPTED'',
             ''QUEUED'', ''RUNNING'', ''COMPLETED'', ''SEALED'']
   in history TASK_BUNDLE_LIFECYCLE xs \<and>
      (\<exists>ys. take 6 xs = ys @ [''OFFERED'', ''ACCEPTED'', ''QUEUED''])"
proof -
  let ?xs = "[''CREATED'', ''OFFERED'', ''MODIFICATION_PROPOSED'', ''OFFERED'', ''ACCEPTED'',
              ''QUEUED'', ''RUNNING'', ''COMPLETED'', ''SEALED'']"
  have h: "history TASK_BUNDLE_LIFECYCLE ?xs" by (simp add: history_def table_simps)
  have l: "6 < length ?xs" and r: "?xs ! 6 = ''RUNNING''" by simp_all
  from bundle_runs_only_after_acceptance [OF h l] r
  have "\<exists>ys. take 6 ?xs = ys @ [''OFFERED'', ''ACCEPTED'', ''QUEUED'']" by blast
  with h show ?thesis unfolding Let_def by blast
qed

text \<open>
  Withdrawal and supersession of a Claim are always possible and always final: at every
  point of an enforced Claim history the state is declared and is never
  \<^verbatim>\<open>legacy_unverified\<close>; if it is terminal the history ends there, otherwise both terminal
  states are legal next.
\<close>

lemma claim_history_terminals:
  assumes h: "history CLAIM_LIFECYCLE xs" and i: "i < length xs"
  shows "xs ! i \<in> claim_states - {''legacy_unverified''} \<and>
         (xs ! i \<in> claim_terminal_states \<longrightarrow> Suc i = length xs) \<and>
         (xs ! i \<notin> claim_terminal_states \<longrightarrow>
            (\<forall>t \<in> claim_terminal_states. assert_transition CLAIM_LIFECYCLE (xs ! i) t = Inr ()))"
proof -
  have st: "xs ! i \<in> claim_states"
    using claim.history_declared [OF h i] by (simp add: CLAIM_LIFECYCLE_def)
  have "xs ! i \<noteq> ''legacy_unverified''"
  proof
    assume "xs ! i = ''legacy_unverified''"
    from claim.only_predecessor [OF h i this, of "\<lambda>_. False"] show False
      by (simp add: initial_states claim_into_legacy)
  qed
  moreover have "Suc i = length xs" if "xs ! i \<in> claim_terminal_states"
    using claim.terminal_last [OF h i] claim_from_terminal [OF that] by blast
  moreover have "assert_transition CLAIM_LIFECYCLE (xs ! i) t = Inr ()"
    if "xs ! i \<notin> claim_terminal_states" "t \<in> claim_terminal_states" for t
    using claim_to_terminal [OF st that] by simp
  ultimately show ?thesis using st by blast
qed

lemma claim_history_terminals_witness:
  "history CLAIM_LIFECYCLE [''draft'', ''under_review'', ''supported'', ''review_required'', ''withdrawn'']
   \<and> assert_transition CLAIM_LIFECYCLE ''review_required'' ''superseded'' = Inr ()"
proof -
  let ?xs = "[''draft'', ''under_review'', ''supported'', ''review_required'', ''withdrawn'']"
  have h: "history CLAIM_LIFECYCLE ?xs" by (simp add: history_def table_simps)
  have "assert_transition CLAIM_LIFECYCLE ''review_required'' ''superseded'' = Inr ()"
    using claim_history_terminals [OF h, of 3] by (simp add: claim_terminal_states_def)
  with h show ?thesis by blast
qed

end
