(* ===== verification/Stdlib.thy ===== *)
theory Stdlib
  imports MRR_Prelude "HOL-Library.Word"
begin

text \<open>
  The parts of Python's standard library the cryptographic code of
  \<^verbatim>\<open>packages/crypto/mrr/crypto\<close> is built on: \<^verbatim>\<open>hashlib.sha256\<close> with its hexadecimal
  digest, and \<^verbatim>\<open>base64.b64encode\<close> and \<^verbatim>\<open>base64.b64decode(..., validate=True)\<close>. Byte
  strings are lists of 8-bit characters. The lemmas give the shape of a digest, and the
  round trip and the output alphabet of the base64 codec.
\<close>

type_synonym bytes = string

section \<open>SHA-256\<close>

type_synonym word32 = "32 word"

definition sha256_K :: "word32 list" where
  "sha256_K =
     [1116352408, 1899447441, 3049323471, 3921009573, 961987163, 1508970993, 2453635748,
      2870763221, 3624381080, 310598401, 607225278, 1426881987, 1925078388, 2162078206,
      2614888103, 3248222580, 3835390401, 4022224774, 264347078, 604807628, 770255983,
      1249150122, 1555081692, 1996064986, 2554220882, 2821834349, 2952996808, 3210313671,
      3336571891, 3584528711, 113926993, 338241895, 666307205, 773529912, 1294757372,
      1396182291, 1695183700, 1986661051, 2177026350, 2456956037, 2730485921, 2820302411,
      3259730800, 3345764771, 3516065817, 3600352804, 4094571909, 275423344, 430227734,
      506948616, 659060556, 883997877, 958139571, 1322822218, 1537002063, 1747873779,
      1955562222, 2024104815, 2227730452, 2361852424, 2428436474, 2756734187, 3204031479,
      3329325298]"

definition sha256_H0 :: "word32 list" where
  "sha256_H0 =
     [1779033703, 3144134277, 1013904242, 2773480762, 1359893119, 2600822924, 528734635,
      1541459225]"

definition be_word :: "bytes \<Rightarrow> word32" where
  "be_word bs = word_of_int (foldl (\<lambda>a c. a * 256 + of_char c) 0 bs)"

definition be_bytes :: "nat \<Rightarrow> nat \<Rightarrow> bytes" where
  "be_bytes k n = map (\<lambda>i. char_of (n div 256 ^ (k - 1 - i) mod 256)) [0..<k]"

definition sha256_pad :: "bytes \<Rightarrow> bytes" where
  "sha256_pad bs =
     bs @ [char_of (128::nat)] @ replicate ((119 - length bs mod 64) mod 64) (char_of (0::nat))
        @ be_bytes 8 (8 * length bs)"

fun chunks :: "nat \<Rightarrow> nat \<Rightarrow> 'a list \<Rightarrow> 'a list list" where
  "chunks 0 k xs = []"
| "chunks (Suc n) k xs = take k xs # chunks n k (drop k xs)"

unbundle bit_operations_syntax

text \<open>The message schedule, newest word first.\<close>

fun sha256_schedule :: "nat \<Rightarrow> word32 list \<Rightarrow> word32 list" where
  "sha256_schedule 0 ws = ws"
| "sha256_schedule (Suc n) ws =
     (let w15 = ws ! 14; w2 = ws ! 1;
          s0 = word_rotr 7 w15 XOR word_rotr 18 w15 XOR drop_bit 3 w15;
          s1 = word_rotr 17 w2 XOR word_rotr 19 w2 XOR drop_bit 10 w2
      in sha256_schedule n ((ws ! 15 + s0 + ws ! 6 + s1) # ws))"

fun sha256_round :: "word32 list \<Rightarrow> word32 \<times> word32 \<Rightarrow> word32 list" where
  "sha256_round [a, b, c, d, e, f, g, h] (k, w) =
     (let S1 = word_rotr 6 e XOR word_rotr 11 e XOR word_rotr 25 e;
          ch = (e AND f) XOR (NOT e AND g);
          t1 = h + S1 + ch + k + w;
          S0 = word_rotr 2 a XOR word_rotr 13 a XOR word_rotr 22 a;
          maj = (a AND b) XOR (a AND c) XOR (b AND c)
      in [t1 + (S0 + maj), a, b, c, d + t1, e, f, g])"
| "sha256_round s kw = s"

definition sha256_block :: "word32 list \<Rightarrow> bytes \<Rightarrow> word32 list" where
  "sha256_block h block =
     (let ws = rev (sha256_schedule 48 (rev (map be_word (chunks 16 4 block))))
      in map2 (+) h (foldl sha256_round h (zip sha256_K ws)))"

definition sha256 :: "bytes \<Rightarrow> bytes" where
  "sha256 bs =
     (let p = sha256_pad bs
      in concat (map (\<lambda>w. be_bytes 4 (unat w))
           (foldl sha256_block sha256_H0 (chunks (length p div 64) 64 p))))"

definition hex_digit :: "nat \<Rightarrow> char" where
  "hex_digit n = char_of (if n < 10 then 48 + n else 87 + n)"

definition hexdigest :: "bytes \<Rightarrow> string" where
  "hexdigest bs = concat (map (\<lambda>c. [hex_digit (of_char c div 16), hex_digit (of_char c mod 16)]) bs)"

lemma length_be_bytes [simp]: "length (be_bytes k n) = k"
  by (simp add: be_bytes_def)

lemma length_sha256_round [simp]: "length (sha256_round s kw) = length s"
  by (cases "(s, kw)" rule: sha256_round.cases) (simp_all add: Let_def)

lemma length_foldl_round [simp]: "length (foldl sha256_round s kws) = length s"
  by (induction kws arbitrary: s) simp_all

lemma length_foldl_block [simp]: "length (foldl sha256_block h bs) = length h"
  by (induction bs arbitrary: h) (simp_all add: sha256_block_def Let_def)

lemma length_sha256 [simp]: "length (sha256 bs) = 32"
proof -
  have h: "length sha256_H0 = 8" by (simp add: sha256_H0_def)
  have c: "length (concat (map (\<lambda>w. be_bytes 4 (unat w)) ws)) = 4 * length ws" for ws :: "word32 list"
    by (induction ws) simp_all
  show ?thesis by (simp add: sha256_def Let_def c h)
qed

lemma length_hexdigest [simp]: "length (hexdigest bs) = 2 * length bs"
  by (induction bs) (simp_all add: hexdigest_def)

section \<open>Base64\<close>

definition b64_alphabet :: string where
  "b64_alphabet = ''ABCDEFGHIJKLMNOPQRSTUVWXYZabcdefghijklmnopqrstuvwxyz0123456789+/''"

text \<open>The digit of a value below 64 and the value of a digit, by their places in ASCII.\<close>

definition b64_char :: "nat \<Rightarrow> char" where
  "b64_char n = char_of (if n < 26 then 65 + n else if n < 52 then 71 + n
                         else if n < 62 then n - 4 else if n = 62 then 43 else 47)"

definition b64_val :: "char \<Rightarrow> nat option" where
  "b64_val c =
     (let n = of_char c
      in if 65 \<le> n \<and> n \<le> 90 then Some (n - 65)
         else if 97 \<le> n \<and> n \<le> 122 then Some (n - 71)
         else if 48 \<le> n \<and> n \<le> 57 then Some (n + 4)
         else if n = 43 then Some 62 else if n = 47 then Some 63 else None)"

fun b64encode :: "bytes \<Rightarrow> string" where
  "b64encode [] = []"
| "b64encode [a] =
     (let x = of_char a in [b64_char (x div 4), b64_char (x mod 4 * 16), CHR ''='', CHR ''=''])"
| "b64encode [a, b] =
     (let x = of_char a; y = of_char b
      in [b64_char (x div 4), b64_char (x mod 4 * 16 + y div 16), b64_char (y mod 16 * 4), CHR ''=''])"
| "b64encode (a # b # c # r) =
     (let x = of_char a; y = of_char b; z = of_char c
      in b64_char (x div 4) # b64_char (x mod 4 * 16 + y div 16)
         # b64_char (y mod 16 * 4 + z div 64) # b64_char (z mod 64) # b64encode r)"

text \<open>
  The strict decoder: the empty string, or groups of four digits of which the last may end
  in one or two padding signs. As in CPython, the unused low bits of the last digit before
  the padding are not checked.
\<close>

fun b64decode :: "string \<Rightarrow> bytes option" where
  "b64decode [] = Some []"
| "b64decode (a # b # c # d # r) =
     (case (b64_val a, b64_val b) of
        (Some w, Some x) \<Rightarrow>
          (if r = [] \<and> c = CHR ''='' \<and> d = CHR ''='' then Some [char_of (w * 4 + x div 16)]
           else (case b64_val c of
                   None \<Rightarrow> None
                 | Some y \<Rightarrow>
                     (if r = [] \<and> d = CHR ''=''
                      then Some [char_of (w * 4 + x div 16), char_of (x mod 16 * 16 + y div 4)]
                      else (case (b64_val d, b64decode r) of
                              (Some z, Some bs) \<Rightarrow>
                                Some (char_of (w * 4 + x div 16) # char_of (x mod 16 * 16 + y div 4)
                                      # char_of (y mod 4 * 64 + z) # bs)
                            | _ \<Rightarrow> None))))
      | _ \<Rightarrow> None)"
| "b64decode _ = None"

lemma of_char_of_small [simp]: "n < 256 \<Longrightarrow> of_char (char_of n :: char) = (n :: nat)"
  by (simp add: of_char_of)

lemma b64_val_char [simp]:
  assumes "n < 64"
  shows "b64_val (b64_char n) = Some n"
proof -
  consider "n < 26" | "26 \<le> n \<and> n < 52" | m where "n = m + 52" "m < 10" | "n = 62" | "n = 63"
    using assms le_Suc_ex [of 52 n] by fastforce
  then show ?thesis
    by cases (simp_all add: b64_val_def b64_char_def Let_def)
qed

lemma b64_val_pad [simp]: "b64_val (CHR ''='') = None"
  by (simp add: b64_val_def)

lemma b64_char_not_pad [simp]: "n < 64 \<Longrightarrow> b64_char n \<noteq> CHR ''=''"
  using b64_val_char b64_val_pad by (metis option.distinct(1))

lemma of_char_lt [simp]: "(of_char c :: nat) < 256"
proof -
  have "of_char c = (of_char c :: nat) mod 256" using of_char_mod_256 [of c] by metis
  then show ?thesis by (metis mod_less_divisor zero_less_numeral)
qed

lemma char_of_eqI: "n = of_char c \<Longrightarrow> char_of (n :: nat) = c"
  by simp

text \<open>The digits of one, two and three bytes are values below 64.\<close>

lemma digit_bounds [simp]:
  "(of_char a :: nat) div 4 < 64" "(of_char a :: nat) mod 64 < 64"
  "(of_char a :: nat) mod 4 * 16 < 64" "(of_char a :: nat) mod 16 * 4 < 64"
  "(of_char a :: nat) mod 4 * 16 + of_char b div 16 < 64"
  "(of_char a :: nat) mod 16 * 4 + of_char b div 64 < 64"
proof -
  have a: "(of_char a :: nat) < 256" and b: "(of_char b :: nat) < 256" by simp_all
  have m: "(of_char a :: nat) mod 4 \<le> 3" "(of_char a :: nat) mod 16 \<le> 15"
    using mod_less_divisor [of 4 "of_char a :: nat"] mod_less_divisor [of 16 "of_char a :: nat"]
    by linarith+
  have d: "(of_char b :: nat) div 16 < 16" "(of_char b :: nat) div 64 < 4"
    using b by (auto intro!: less_mult_imp_div_less)
  show "(of_char a :: nat) div 4 < 64" using a by (auto intro!: less_mult_imp_div_less)
  show "(of_char a :: nat) mod 64 < 64" by simp
  show "(of_char a :: nat) mod 4 * 16 < 64" "(of_char a :: nat) mod 16 * 4 < 64"
    "(of_char a :: nat) mod 4 * 16 + of_char b div 16 < 64"
    "(of_char a :: nat) mod 16 * 4 + of_char b div 64 < 64"
    using m d by linarith+
qed

lemma digit_carries [simp]:
  "(of_char b :: nat) div 16 div 16 = 0" "(of_char b :: nat) div 16 mod 16 = of_char b div 16"
  "(of_char b :: nat) div 64 div 4 = 0" "(of_char b :: nat) div 64 mod 4 = of_char b div 64"
proof -
  have "(of_char b :: nat) div 16 < 16" "(of_char b :: nat) div 64 < 4"
    by (auto intro!: less_mult_imp_div_less)
  then show "(of_char b :: nat) div 16 div 16 = 0" "(of_char b :: nat) div 16 mod 16 = of_char b div 16"
    "(of_char b :: nat) div 64 div 4 = 0" "(of_char b :: nat) div 64 mod 4 = of_char b div 64"
    by simp_all
qed

lemma b64decode_encode [simp]: "b64decode (b64encode bs) = Some bs"
  by (induction bs rule: b64encode.induct) (simp_all add: Let_def)

lemma b64encode_inj: "b64encode a = b64encode b \<Longrightarrow> a = b"
  by (metis b64decode_encode option.inject)

end

