(* ===== verification/Identity.thy ===== *)
theory Identity
  imports MRR_Prelude
begin

text \<open>
  MRR object names, \<^verbatim>\<open>packages/domain/mrr/domain/identity.py\<close>: building, recognising and
  parsing URNs of the shape \<^verbatim>\<open>urn:mrr:<entity>:<ulid>\<close>. The patterns are matched with
  \<^verbatim>\<open>re.match\<close>, whose final \<^verbatim>\<open>$\<close> also matches before one trailing newline. The ULID itself
  comes from a third-party package and is an argument.
\<close>

definition entity_char :: "char \<Rightarrow> bool" where
  "entity_char c \<longleftrightarrow> (CHR ''a'' \<le> c \<and> c \<le> CHR ''z'') \<or> (CHR ''0'' \<le> c \<and> c \<le> CHR ''9'') \<or> c = CHR ''-''"

definition ulid_char :: "char \<Rightarrow> bool" where
  "ulid_char c \<longleftrightarrow> (CHR ''0'' \<le> c \<and> c \<le> CHR ''9'') \<or> (CHR ''A'' \<le> c \<and> c \<le> CHR ''H'')
     \<or> c = CHR ''J'' \<or> c = CHR ''K'' \<or> c = CHR ''M'' \<or> c = CHR ''N''
     \<or> (CHR ''P'' \<le> c \<and> c \<le> CHR ''T'') \<or> (CHR ''V'' \<le> c \<and> c \<le> CHR ''Z'')"

definition entity_ok :: "string \<Rightarrow> bool" where
  "entity_ok e \<longleftrightarrow> e \<noteq> [] \<and> list_all entity_char e"

definition ulid_ok :: "string \<Rightarrow> bool" where
  "ulid_ok u \<longleftrightarrow> length u = 26 \<and> list_all ulid_char u"

definition newline :: char where
  "newline = CHR 0x0A"

text \<open>\<^verbatim>\<open>$\<close>: the end of the string, or the place before a newline that ends it.\<close>

definition before_dollar :: "string \<Rightarrow> string" where
  "before_dollar s = (if s \<noteq> [] \<and> last s = newline then butlast s else s)"

text \<open>\<^verbatim>\<open>_ENTITY_PATTERN\<close> and \<^verbatim>\<open>URN_PATTERN\<close>; the latter gives its two groups.\<close>

definition entity_pattern_match :: "string \<Rightarrow> bool" where
  "entity_pattern_match s \<longleftrightarrow> entity_ok (before_dollar s)"

definition urn_groups :: "string \<Rightarrow> (string \<times> string) option" where
  "urn_groups s =
     (if take 8 s = ''urn:mrr:'' then
        (let r = drop 8 s; e = takeWhile entity_char r; t = drop (length e) r; u = tl t
         in if e \<noteq> [] \<and> t \<noteq> [] \<and> hd t = CHR '':'' \<and> ulid_ok u then Some (e, u) else None)
      else None)"

definition urn_pattern_match :: "string \<Rightarrow> (string \<times> string) option" where
  "urn_pattern_match s = urn_groups (before_dollar s)"

definition urn_text :: "string \<Rightarrow> string \<Rightarrow> urn" where
  "urn_text e u = ''urn:mrr:'' @ e @ '':'' @ u"

definition require_valid_entity :: "string \<Rightarrow> unit outcome" where
  "require_valid_entity e = (if entity_pattern_match e then Inr () else Inl (InvalidEntityError e))"

text \<open>\<^verbatim>\<open>new_urn\<close>, given the ULID the third-party package returned.\<close>

definition new_urn_with :: "string \<Rightarrow> string \<Rightarrow> urn outcome" where
  "new_urn_with u e = (case require_valid_entity e of Inl x \<Rightarrow> Inl x | Inr _ \<Rightarrow> Inr (urn_text e u))"

definition is_valid_urn :: "string \<Rightarrow> bool" where
  "is_valid_urn v \<longleftrightarrow> urn_pattern_match v \<noteq> None"

definition parse_urn :: "string \<Rightarrow> (string \<times> string) outcome" where
  "parse_urn v = (case urn_pattern_match v of None \<Rightarrow> Inl (InvalidUrnError v) | Some g \<Rightarrow> Inr g)"

lemma not_entity_colon [simp]: "\<not> entity_char (CHR '':'')"
  by (simp add: entity_char_def less_eq_char_def)

lemma not_ulid_newline [simp]: "\<not> ulid_char newline"
  by (simp add: ulid_char_def less_eq_char_def newline_def)

lemma ulid_ok_last: "ulid_ok u \<Longrightarrow> u \<noteq> [] \<and> last u \<noteq> newline"
proof -
  assume u: "ulid_ok u"
  then have n: "u \<noteq> []" by (auto simp: ulid_ok_def)
  with u have "ulid_char (last u)" by (simp add: ulid_ok_def list_all_iff)
  with n show ?thesis by auto
qed

lemma urn_groups_text: "urn_groups s = Some (e, u) \<longleftrightarrow> entity_ok e \<and> ulid_ok u \<and> s = urn_text e u"
proof
  assume g: "urn_groups s = Some (e, u)"
  define r where "r = drop 8 s"
  have t: "take 8 s = ''urn:mrr:''" using g by (auto simp: urn_groups_def split: if_splits)
  then have s: "s = ''urn:mrr:'' @ r" unfolding r_def by (metis append_take_drop_id)
  from g t have e: "e = takeWhile entity_char r" "e \<noteq> []"
    and u: "drop (length e) r \<noteq> []" "hd (drop (length e) r) = CHR '':''" "u = tl (drop (length e) r)"
      "ulid_ok u"
    by (auto simp: urn_groups_def r_def Let_def split: if_splits)
  have "r = e @ drop (length e) r"
    unfolding e(1) by (metis dropWhile_eq_drop takeWhile_dropWhile_id)
  also have "drop (length e) r = CHR '':'' # u" using u(1-3) by (metis list.collapse)
  finally have "s = urn_text e u" by (simp add: s urn_text_def)
  moreover have "entity_ok e" unfolding entity_ok_def list_all_iff
    using e by (auto dest: set_takeWhileD)
  ultimately show "entity_ok e \<and> ulid_ok u \<and> s = urn_text e u" using u by simp
next
  assume a: "entity_ok e \<and> ulid_ok u \<and> s = urn_text e u"
  have "takeWhile entity_char (e @ CHR '':'' # u) = e"
    using a by (auto simp: entity_ok_def list_all_iff takeWhile_tail)
  with a show "urn_groups s = Some (e, u)"
    by (simp add: urn_groups_def urn_text_def entity_ok_def Let_def)
qed

lemma before_dollar_eq:
  "t \<noteq> [] \<Longrightarrow> last t \<noteq> newline \<Longrightarrow> before_dollar v = t \<longleftrightarrow> v = t \<or> v = t @ [newline]"
  by (auto simp: before_dollar_def) (metis append_butlast_last_id)+

lemma urn_text_last: "ulid_ok u \<Longrightarrow> urn_text e u \<noteq> [] \<and> last (urn_text e u) \<noteq> newline"
  using ulid_ok_last [of u] by (simp add: urn_text_def)

lemma urn_pattern_match_iff:
  "urn_pattern_match v = Some (e, u) \<longleftrightarrow>
     entity_ok e \<and> ulid_ok u \<and> (v = urn_text e u \<or> v = urn_text e u @ [newline])"
  unfolding urn_pattern_match_def urn_groups_text
  using before_dollar_eq urn_text_last by blast

lemma entity_ok_last: "entity_ok e \<Longrightarrow> e \<noteq> [] \<and> last e \<noteq> newline"
  by (auto simp: entity_ok_def list_all_iff entity_char_def less_eq_char_def newline_def
      dest!: last_in_set)

lemma entity_pattern_match_ok [simp]: "entity_ok e \<Longrightarrow> entity_pattern_match e"
  using entity_ok_last [of e] by (simp add: entity_pattern_match_def before_dollar_def)

lemma is_valid_urn_text [simp]: "entity_ok e \<Longrightarrow> ulid_ok u \<Longrightarrow> is_valid_urn (urn_text e u)"
  unfolding is_valid_urn_def using urn_pattern_match_iff by blast

lemma new_urn_with_ok [simp]: "entity_ok e \<Longrightarrow> new_urn_with u e = Inr (urn_text e u)"
  by (simp add: new_urn_with_def require_valid_entity_def)

lemma urn_text_inj:
  assumes "entity_ok e" "entity_ok e'" "ulid_ok u" "ulid_ok u'" "urn_text e u = urn_text e' u'"
  shows "e = e' \<and> u = u'"
  using assms urn_groups_text by (metis option.inject prod.inject)

section \<open>Properties\<close>

text \<open>
  URN parsing is exact: \<^verbatim>\<open>parse_urn\<close> succeeds with an entity and a ULID precisely on the
  text built from a well-formed entity and a well-formed ULID, and on that text followed by
  one newline (the \<^verbatim>\<open>$\<close> of \<^verbatim>\<open>re.match\<close>); on everything else it raises
  \<^verbatim>\<open>InvalidUrnError\<close>, and \<^verbatim>\<open>is_valid_urn\<close> says which of the two happens. So every name
  \<^verbatim>\<open>new_urn\<close> builds from a well-formed entity parses back to that entity and its ULID.
\<close>

lemma parse_urn_exact:
  "(parse_urn v = Inr (e, u) \<longleftrightarrow>
      entity_ok e \<and> ulid_ok u \<and> (v = urn_text e u \<or> v = urn_text e u @ [newline])) \<and>
   is_valid_urn v = (parse_urn v \<noteq> Inl (InvalidUrnError v)) \<and>
   (parse_urn v = Inl x \<longrightarrow> x = InvalidUrnError v) \<and>
   (entity_ok e \<and> ulid_ok u \<longrightarrow>
      (\<exists>t. new_urn_with u e = Inr t \<and> is_valid_urn t \<and> parse_urn t = Inr (e, u)))"
proof -
  have "parse_urn v = Inr (e, u) \<longleftrightarrow> urn_pattern_match v = Some (e, u)" for v
    by (simp add: parse_urn_def split: option.splits)
  then have p: "parse_urn v = Inr (e, u) \<longleftrightarrow>
      entity_ok e \<and> ulid_ok u \<and> (v = urn_text e u \<or> v = urn_text e u @ [newline])" for v
    unfolding urn_pattern_match_iff .
  moreover have "is_valid_urn v = (parse_urn v \<noteq> Inl (InvalidUrnError v))"
    "parse_urn v = Inl x \<longrightarrow> x = InvalidUrnError v"
    by (auto simp: is_valid_urn_def parse_urn_def split: option.splits)
  ultimately show ?thesis by simp
qed

lemma parse_urn_exact_witness:
  "parse_urn (urn_text ''claim'' ''01HZY3J8Q4V5W6X7Y8Z9ABCDEF'') =
     Inr (''claim'', ''01HZY3J8Q4V5W6X7Y8Z9ABCDEF'')"
proof -
  have "entity_ok ''claim'' \<and> ulid_ok ''01HZY3J8Q4V5W6X7Y8Z9ABCDEF''"
    by (simp add: entity_ok_def ulid_ok_def entity_char_def ulid_char_def less_eq_char_def)
  with parse_urn_exact [of "urn_text ''claim'' ''01HZY3J8Q4V5W6X7Y8Z9ABCDEF''" "''claim''"]
  show ?thesis by blast
qed

text \<open>The finding: a trailing newline is accepted and lost, so parsing is not injective.\<close>

lemma urn_trailing_newline:
  assumes "entity_ok e" and "ulid_ok u"
  shows "is_valid_urn (urn_text e u @ [newline])"
    and "parse_urn (urn_text e u @ [newline]) = parse_urn (urn_text e u)"
  using assms urn_pattern_match_iff [of "urn_text e u @ [newline]" e u]
    urn_pattern_match_iff [of "urn_text e u" e u]
  by (simp_all add: is_valid_urn_def parse_urn_def)

end
