(* ===== verification/Hashing.thy ===== *)
theory Hashing
  imports Stdlib
begin

text \<open>
  Content hashes and signatures: \<^verbatim>\<open>packages/crypto/mrr/crypto/\<close> (\<^verbatim>\<open>canonical.py\<close>,
  \<^verbatim>\<open>hashing.py\<close>, \<^verbatim>\<open>signatures.py\<close>, \<^verbatim>\<open>keys.py\<close>) and the field policy of
  \<^verbatim>\<open>packages/domain/mrr/domain/hashing_policy.py\<close>. The record \<open>env\<close> gathers what the model
  takes from outside the repository: the clock, the ULID generator, the RFC 8785
  canonicalizer, the schema checks pydantic derives from the field declarations, the
  Ed25519 operations, and pydantic's JSON rendering of an instant.
\<close>

named_theorems crypto_simps "outcomes of hashing and signature checking"

section \<open>The environment\<close>

text \<open>
  \<^verbatim>\<open>env_now\<close> and \<^verbatim>\<open>env_ulid\<close> are read with a running counter, so two readings need not
  agree. \<^verbatim>\<open>env_canon\<close> gives None where the third-party canonicalizer raises;
  \<^verbatim>\<open>env_schema\<close> takes the model class's name and the body; \<^verbatim>\<open>env_ed_sign\<close> takes a private
  key and the bytes to sign.
\<close>

record env =
  env_now :: "nat \<Rightarrow> instant"
  env_ulid :: "nat \<Rightarrow> string"
  env_canon :: "json \<Rightarrow> bytes option"
  env_schema :: "string \<Rightarrow> dict \<Rightarrow> bool"
  env_key_ok :: "bytes \<Rightarrow> bool"
  env_ed_verify :: "bytes \<Rightarrow> bytes \<Rightarrow> bytes \<Rightarrow> bool"
  env_ed_sign :: "bytes \<Rightarrow> bytes \<Rightarrow> bytes"
  env_json_time :: "instant \<Rightarrow> string"

section \<open>Canonical bytes and content hashes\<close>

definition canonicalize :: "env \<Rightarrow> json \<Rightarrow> bytes outcome" where
  "canonicalize E j = (case env_canon E j of None \<Rightarrow> Inl CanonicalizationError | Some b \<Rightarrow> Inr b)"

definition content_hash :: "bytes \<Rightarrow> string" where
  "content_hash data = ''sha256:'' @ hexdigest (sha256 data)"

definition hash_excluded_fields :: "string list" where
  "hash_excluded_fields = [''content_hash'', ''signature'']"

definition signature_excluded_fields :: "string list" where
  "signature_excluded_fields = [''signature'']"

definition prepare_for_hash :: "dict \<Rightarrow> dict" where
  "prepare_for_hash d = filter (\<lambda>(k, v). k \<notin> set hash_excluded_fields) d"

definition prepare_for_signature :: "dict \<Rightarrow> dict" where
  "prepare_for_signature d = filter (\<lambda>(k, v). k \<notin> set signature_excluded_fields) d"

definition compute_content_hash :: "env \<Rightarrow> dict \<Rightarrow> string outcome" where
  "compute_content_hash E d =
     (case canonicalize E (JObj (prepare_for_hash d)) of
        Inl e \<Rightarrow> Inl e
      | Inr b \<Rightarrow> Inr (content_hash b))"

section \<open>Signatures\<close>

text \<open>A decoded public key is its 32 raw bytes.\<close>

type_synonym public_key = bytes

definition supported_algorithms :: "string list" where
  "supported_algorithms = [''Ed25519'']"

definition require_supported_algorithm :: "string \<Rightarrow> unit outcome" where
  "require_supported_algorithm a =
     (if a \<in> set supported_algorithms then Inr () else Inl (UnsupportedAlgorithmError a))"

definition verify :: "env \<Rightarrow> public_key \<Rightarrow> bytes \<Rightarrow> string \<Rightarrow> string \<Rightarrow> unit outcome" where
  "verify E pk payload sig algorithm =
     (case require_supported_algorithm algorithm of
        Inl e \<Rightarrow> Inl e
      | Inr _ \<Rightarrow>
          (case b64decode sig of
             None \<Rightarrow> Inl SignatureVerificationError
           | Some raw \<Rightarrow>
               (if env_ed_verify E pk raw payload then Inr () else Inl SignatureVerificationError)))"

definition verify_object_signature ::
  "env \<Rightarrow> public_key \<Rightarrow> dict \<Rightarrow> string \<Rightarrow> string \<Rightarrow> unit outcome" where
  "verify_object_signature E pk obj sig algorithm =
     (case canonicalize E (JObj (prepare_for_signature obj)) of
        Inl e \<Rightarrow> Inl e
      | Inr b \<Rightarrow> verify E pk b sig algorithm)"

definition sign :: "env \<Rightarrow> bytes \<Rightarrow> bytes \<Rightarrow> string \<Rightarrow> string outcome" where
  "sign E private_key payload algorithm =
     (case require_supported_algorithm algorithm of
        Inl e \<Rightarrow> Inl e
      | Inr _ \<Rightarrow> Inr (b64encode (env_ed_sign E private_key payload)))"

definition sign_object :: "env \<Rightarrow> bytes \<Rightarrow> dict \<Rightarrow> string \<Rightarrow> string outcome" where
  "sign_object E private_key obj algorithm =
     (case canonicalize E (JObj (prepare_for_signature obj)) of
        Inl e \<Rightarrow> Inl e
      | Inr b \<Rightarrow> sign E private_key b algorithm)"

section \<open>Keys\<close>

definition encode_public_key :: "public_key \<Rightarrow> string" where
  "encode_public_key pk = b64encode pk"

definition decode_public_key :: "env \<Rightarrow> string \<Rightarrow> public_key outcome" where
  "decode_public_key E s =
     (case b64decode s of
        None \<Rightarrow> Inl InvalidPublicKeyError
      | Some raw \<Rightarrow> (if env_key_ok E raw then Inr raw else Inl InvalidPublicKeyError))"

definition derive_key_id :: "public_key \<Rightarrow> string" where
  "derive_key_id pk = ''kid:'' @ b64encode (sha256 pk)"

section \<open>Facts\<close>

lemma prepare_for_hash_lookup [dict_simps, simp]:
  "map_of (prepare_for_hash d) k = (if k \<in> set hash_excluded_fields then None else map_of d k)"
  by (induction d) (auto simp: prepare_for_hash_def)

lemma prepare_for_hash_id:
  "set (map fst d) \<inter> set hash_excluded_fields = {} \<Longrightarrow> prepare_for_hash d = d"
  unfolding prepare_for_hash_def by (rule filter_True) (auto simp: disjoint_iff)

lemma prepare_for_hash_filter:
  "prepare_for_hash d = filter (\<lambda>kv. fst kv \<notin> set hash_excluded_fields) d"
  unfolding prepare_for_hash_def by (rule filter_cong) auto

lemma prepare_for_hash_update:
  "k \<in> set hash_excluded_fields \<Longrightarrow> prepare_for_hash (dset k v d) = prepare_for_hash d"
  unfolding prepare_for_hash_filter dset_def by (induction d) auto

text \<open>Writing the hash of a body into the body does not change the hash.\<close>

lemma compute_content_hash_self:
  "compute_content_hash E (dset ''content_hash'' v d) = compute_content_hash E d"
  "compute_content_hash E (dset ''signature'' v d) = compute_content_hash E d"
  by (simp_all add: compute_content_hash_def prepare_for_hash_update hash_excluded_fields_def)

lemma compute_content_hash_Inr:
  "compute_content_hash E d = Inr h \<longleftrightarrow>
     (\<exists>b. env_canon E (JObj (prepare_for_hash d)) = Some b \<and> h = content_hash b)"
  by (auto simp: compute_content_hash_def canonicalize_def split: option.splits)

lemma canonicalize_Inr [simp]: "canonicalize E j = Inr b \<longleftrightarrow> env_canon E j = Some b"
  by (auto simp: canonicalize_def split: option.splits)

lemma verify_Inr [crypto_simps]:
  "verify E pk payload sig alg = Inr u \<longleftrightarrow>
     alg = ''Ed25519'' \<and> (\<exists>raw. b64decode sig = Some raw \<and> env_ed_verify E pk raw payload)"
  by (auto simp: verify_def require_supported_algorithm_def supported_algorithms_def
      split: option.splits)

lemma verify_object_signature_Inr [crypto_simps]:
  "verify_object_signature E pk obj sig alg = Inr u \<longleftrightarrow>
     alg = ''Ed25519'' \<and>
     (\<exists>b raw. env_canon E (JObj (prepare_for_signature obj)) = Some b \<and>
              b64decode sig = Some raw \<and> env_ed_verify E pk raw b)"
  by (auto simp: verify_object_signature_def canonicalize_def verify_Inr split: option.splits)

lemma content_hash_inj_or_collision:
  "content_hash a = content_hash b \<Longrightarrow> hexdigest (sha256 a) = hexdigest (sha256 b)"
  by (simp add: content_hash_def)

lemma length_content_hash: "length (content_hash d) = 71"
  by (simp add: content_hash_def)

lemma derive_key_id_collision: "derive_key_id a = derive_key_id b \<longleftrightarrow> sha256 a = sha256 b"
  by (auto simp: derive_key_id_def dest: b64encode_inj)

lemma decode_encode_public_key [crypto_simps]:
  "decode_public_key E (encode_public_key pk) = (if env_key_ok E pk then Inr pk else Inl InvalidPublicKeyError)"
  by (simp add: decode_public_key_def encode_public_key_def)

end
