(* ===== verification/Repositories.thy ===== *)
theory Repositories
  imports Identity Hashing
begin

text \<open>
  The domain's value types that cross the persistence boundary:
  \<^verbatim>\<open>packages/domain/mrr/domain/repositories.py\<close> (\<^verbatim>\<open>StoredObject\<close>, \<^verbatim>\<open>TypedEdge\<close>, the edge
  vocabulary), \<^verbatim>\<open>packages/provenance/mrr/provenance/events.py\<close> (\<^verbatim>\<open>DomainEvent\<close> with its
  construction checks and its hash) and \<^verbatim>\<open>packages/provenance/mrr/provenance/log.py\<close>
  (\<^verbatim>\<open>AppendedEvent\<close>, \<^verbatim>\<open>OutboxEntry\<close> and the chain verification).
\<close>

section \<open>Objects and edges\<close>

definition EDGE_VOCABULARY :: "string set" where
  "EDGE_VOCABULARY =
     {''supports'', ''contradicts'', ''qualifies'', ''contextualizes'', ''derived_from'',
      ''depends_on'', ''replicates'', ''fails_to_replicate'', ''supersedes'', ''corrects'',
      ''transferred_from'', ''adapted_from'', ''reviews'', ''verifies'', ''invalidates'',
      ''uses_source'', ''member_of_source_family'', ''subject_to_obligation'',
      ''projected_into'', ''operationalizes'', ''governed_by_protocol'', ''ruled_by'',
      ''decided_by''}"

record stored_object =
  so_id :: string
  so_api_version :: string
  so_kind :: string
  so_practice_id :: string
  so_revision :: int
  so_created_at :: instant
  so_created_by :: string
  so_content_hash :: string
  so_supersedes :: "string option"
  so_labels :: "dict option"
  so_body :: dict

record typed_edge =
  te_id :: string
  te_source_id :: string
  te_target_id :: string
  te_edge_type :: string
  te_created_at :: instant
  te_created_by :: string
  te_scope :: "dict option"
  te_status :: string
  te_practice_id :: "string option"

section \<open>Domain events\<close>

record domain_event =
  de_id :: string
  de_event_type :: string
  de_occurred_at :: instant
  de_actor :: string
  de_policy_version :: string
  de_causation_id :: "string option"
  de_correlation_id :: string
  de_object_id :: string
  de_object_revision :: int
  de_payload :: dict

text \<open>\<^verbatim>\<open>str.isspace\<close> on 8-bit characters; \<^verbatim>\<open>not value.strip()\<close> is "all characters are space".\<close>

definition is_space :: "char \<Rightarrow> bool" where
  "is_space c = (let n = of_char c :: nat
                 in (9 \<le> n \<and> n \<le> 13) \<or> (28 \<le> n \<and> n \<le> 32) \<or> n = 133 \<or> n = 160)"

definition non_empty :: "string \<Rightarrow> bool" where
  "non_empty s \<longleftrightarrow> \<not> list_all is_space s"

text \<open>\<^verbatim>\<open>__post_init__\<close>: every failing check raises \<^verbatim>\<open>ValueError\<close>.\<close>

definition event_ok :: "domain_event \<Rightarrow> bool" where
  "event_ok e \<longleftrightarrow>
     is_valid_urn (de_id e) \<and> non_empty (de_event_type e) \<and> is_valid_urn (de_actor e) \<and>
     non_empty (de_policy_version e) \<and>
     (case de_causation_id e of None \<Rightarrow> True | Some c \<Rightarrow> is_valid_urn c) \<and>
     is_valid_urn (de_correlation_id e) \<and> is_valid_urn (de_object_id e) \<and>
     1 \<le> de_object_revision e"

definition new_domain_event :: "domain_event \<Rightarrow> domain_event outcome" where
  "new_domain_event e = (if event_ok e then Inr e else Inl ValueError)"

lemma new_domain_event_Inr [simp]: "new_domain_event e = Inr e' \<longleftrightarrow> event_ok e \<and> e' = e"
  by (auto simp: new_domain_event_def)

definition opt_str :: "string option \<Rightarrow> json" where
  "opt_str s = (case s of None \<Rightarrow> JNull | Some t \<Rightarrow> JStr t)"

definition event_to_hashable_dict :: "domain_event \<Rightarrow> string option \<Rightarrow> dict" where
  "event_to_hashable_dict e prev =
     [(''id'', JStr (de_id e)), (''event_type'', JStr (de_event_type e)),
      (''occurred_at'', JStr (isoformat (de_occurred_at e))), (''actor'', JStr (de_actor e)),
      (''policy_version'', JStr (de_policy_version e)),
      (''causation_id'', opt_str (de_causation_id e)),
      (''correlation_id'', JStr (de_correlation_id e)), (''object_id'', JStr (de_object_id e)),
      (''object_revision'', JInt (de_object_revision e)), (''payload'', JObj (de_payload e)),
      (''prev_hash'', opt_str prev)]"

definition compute_event_hash :: "env \<Rightarrow> domain_event \<Rightarrow> string option \<Rightarrow> string outcome" where
  "compute_event_hash E e prev = compute_content_hash E (event_to_hashable_dict e prev)"

lemma opt_str_inj [simp]: "opt_str a = opt_str b \<longleftrightarrow> a = b"
  by (cases a; cases b) (simp_all add: opt_str_def)

lemma prepare_hashable_dict [simp]:
  "prepare_for_hash (event_to_hashable_dict e p) = event_to_hashable_dict e p"
  by (rule prepare_for_hash_id) (simp add: event_to_hashable_dict_def hash_excluded_fields_def)

lemma compute_event_hash_Inr:
  "compute_event_hash E e p = Inr h \<longleftrightarrow>
     (\<exists>b. env_canon E (JObj (event_to_hashable_dict e p)) = Some b \<and> h = content_hash b)"
  by (simp add: compute_event_hash_def compute_content_hash_Inr)

section \<open>The event chain\<close>

record appended_event =
  ae_event :: domain_event
  ae_sequence :: int
  ae_content_hash :: string
  ae_prev_hash :: "string option"

record outbox_entry =
  ox_event_id :: string
  ox_status :: string
  ox_created_at :: instant
  ox_dispatched_at :: "instant option"
  ox_attempts :: int

definition OUTBOX_STATUSES :: "string set" where
  "OUTBOX_STATUSES = {''pending'', ''dispatched''}"

text \<open>The loop of \<^verbatim>\<open>verify_appended_events\<close>, with the running \<^verbatim>\<open>prev_hash\<close> as an argument.\<close>

fun verify_from :: "env \<Rightarrow> string option \<Rightarrow> appended_event list \<Rightarrow> unit outcome" where
  "verify_from E prev [] = Inr ()"
| "verify_from E prev (a # as) =
     (if ae_prev_hash a \<noteq> prev then Inl (ChainVerificationError (ae_sequence a))
      else case compute_event_hash E (ae_event a) prev of
             Inl e \<Rightarrow> Inl e
           | Inr h \<Rightarrow> (if h \<noteq> ae_content_hash a then Inl (ChainVerificationError (ae_sequence a))
                      else verify_from E (Some (ae_content_hash a)) as))"

definition verify_appended_events :: "env \<Rightarrow> appended_event list \<Rightarrow> unit outcome" where
  "verify_appended_events E as = verify_from E None as"

text \<open>The hash that ends a chain starting from \<open>p\<close>.\<close>

definition end_hash :: "string option \<Rightarrow> appended_event list \<Rightarrow> string option" where
  "end_hash p as = (if as = [] then p else Some (ae_content_hash (last as)))"

lemma end_hash_simps [simp]:
  "end_hash p [] = p" "end_hash p (a # as) = end_hash (Some (ae_content_hash a)) as"
  "end_hash p (as @ [a]) = Some (ae_content_hash a)"
  by (simp_all add: end_hash_def)

lemma verify_from_append:
  "verify_from E p (as @ bs) = Inr () \<longleftrightarrow>
     verify_from E p as = Inr () \<and> verify_from E (end_hash p as) bs = Inr ()"
  by (induction as arbitrary: p) (auto split: sum.splits)

lemma verify_from_snoc:
  "verify_from E p (as @ [a]) = Inr () \<longleftrightarrow>
     verify_from E p as = Inr () \<and> ae_prev_hash a = end_hash p as \<and>
     compute_event_hash E (ae_event a) (end_hash p as) = Inr (ae_content_hash a)"
  by (auto simp: verify_from_append split: sum.splits)

text \<open>The canonical bytes a verified chain hashes, in order.\<close>

fun chain_bytes :: "env \<Rightarrow> string option \<Rightarrow> appended_event list \<Rightarrow> bytes list" where
  "chain_bytes E p [] = []"
| "chain_bytes E p (a # as) =
     (case env_canon E (JObj (event_to_hashable_dict (ae_event a) p)) of
        None \<Rightarrow> []
      | Some b \<Rightarrow> b # chain_bytes E (Some (ae_content_hash a)) as)"

section \<open>Sample values\<close>

text \<open>Concrete values on which the witnesses evaluate the properties.\<close>

definition sample_urn :: "string \<Rightarrow> urn" where
  "sample_urn entity = urn_text entity ''01HZY3J8Q4V5W6X7Y8Z9ABCDEF''"

text \<open>Sixty-four different ULIDs, in turn.\<close>

definition sample_ulid :: "nat \<Rightarrow> string" where
  "sample_ulid n = ''000000000000000000000000'' @ [char_of (48 + n div 8 mod 8), char_of (48 + n mod 8)]"

definition sample_env :: env where
  "sample_env = \<lparr>env_now = (\<lambda>n. 1700000000000000 + int n), env_ulid = sample_ulid,
     env_canon = (\<lambda>j. Some ''{}''), env_schema = (\<lambda>k d. True), env_key_ok = (\<lambda>b. length b = 32),
     env_ed_verify = (\<lambda>pk sig payload. sig = pk @ payload),
     env_ed_sign = (\<lambda>sk payload. sk @ payload), env_json_time = isoformat\<rparr>"

definition sample_event :: domain_event where
  "sample_event = \<lparr>de_id = sample_urn ''domain-event'', de_event_type = ''claim.created'',
     de_occurred_at = 1700000000000000, de_actor = sample_urn ''human'', de_policy_version = ''v1'',
     de_causation_id = None, de_correlation_id = sample_urn ''correlation'',
     de_object_id = sample_urn ''claim'', de_object_revision = 1, de_payload = []\<rparr>"

lemma ulid_ok_sample [simp]: "ulid_ok ''01HZY3J8Q4V5W6X7Y8Z9ABCDEF''"
  by (simp add: ulid_ok_def ulid_char_def less_eq_char_def)

lemma is_valid_sample_urn [simp]: "entity_ok e \<Longrightarrow> is_valid_urn (sample_urn e)"
  by (simp add: sample_urn_def)

lemma entity_ok_samples [simp]:
  "entity_ok ''domain-event''" "entity_ok ''human''" "entity_ok ''correlation''" "entity_ok ''claim''"
  "entity_ok ''edge''" "entity_ok ''obligation''"
  by (simp_all add: entity_ok_def entity_char_def less_eq_char_def)

lemma ulid_ok_sample_ulid [simp]: "ulid_ok (sample_ulid n)"
proof -
  have c: "ulid_char (char_of (48 + k))" if "k < 8" for k :: nat
  proof -
    from that consider "k = 0" | "k = 1" | "k = 2" | "k = 3" | "k = 4" | "k = 5" | "k = 6" | "k = 7"
      by linarith
    then show ?thesis by cases (simp_all add: ulid_char_def less_eq_char_def)
  qed
  have "ulid_char (CHR ''0'')" by (simp add: ulid_char_def less_eq_char_def)
  then show ?thesis using c by (simp add: ulid_ok_def sample_ulid_def)
qed

lemma sample_ulid_eq: "sample_ulid m = sample_ulid n \<longleftrightarrow> m mod 64 = n mod 64"
proof -
  have e: "char_of (48 + a) = char_of (48 + b) \<longleftrightarrow> a = b" if "a < 8" "b < 8" for a b :: nat
  proof
    assume "char_of (48 + a) = (char_of (48 + b) :: char)"
    then have "of_char (char_of (48 + a) :: char) = (of_char (char_of (48 + b) :: char) :: nat)" by (rule arg_cong)
    then show "a = b" using that by simp
  qed simp
  have "m mod 64 = n mod 64 \<longleftrightarrow> m div 8 mod 8 = n div 8 mod 8 \<and> m mod 8 = n mod 8"
  proof -
    have d: "k mod 64 = 8 * (k div 8 mod 8) + k mod 8" for k :: nat
      using mod_mult2_eq [of k 8 8] by simp
    have l: "8 * a + c = 8 * b + e \<longleftrightarrow> a = b \<and> c = e" if "c < 8" "e < 8" for a b c e :: nat
      using that by presburger
    show ?thesis unfolding d using l [of "m mod 8" "n mod 8"] by simp
  qed
  then show ?thesis by (simp add: sample_ulid_def e)
qed

lemma event_ok_sample [simp]: "event_ok sample_event"
  by (simp add: event_ok_def sample_event_def non_empty_def is_space_def)

lemma canon_sample [simp]: "env_canon sample_env j = Some ''{}''"
  by (simp add: sample_env_def)

end
