(* ===== verification/Database.thy ===== *)
theory Database
  imports Repositories
begin

text \<open>
  The PostgreSQL database behind the repositories, as the code uses it: the tables of
  \<^verbatim>\<open>packages/persistence/mrr/persistence/tables.py\<close> with their primary keys, unique and check
  constraints, the identity column of \<^verbatim>\<open>domain_events\<close>, and a transaction that takes its
  row changes back when an exception leaves it, but not the numbers it drew from the identity
  column nor the readings of the clock. Rows are kept in the order of their insertion; one
  transaction runs at a time, except where the source has an explicit hook for another one.
\<close>

named_theorems db_simps "effects of the SQL statements on the tables"

section \<open>Rows and tables\<close>

record processed_row =
  pr_id :: string
  pr_id_kind :: string
  pr_recipient_node_id :: string
  pr_processed_at :: instant
  pr_expires_at :: instant

record revocation_record =
  rv_kid :: string
  rv_practice_id :: string
  rv_revoked_at :: instant
  rv_reason :: "string option"

record delivery_pending_record =
  pd_recipient_node_id :: string
  pd_notification_id :: string
  pd_correction_id :: string
  pd_status :: string
  pd_attempt_count :: int
  pd_opened_at :: instant
  pd_last_attempted_at :: instant
  pd_next_retry_at :: "instant option"
  pd_notification_expires_at :: instant
  pd_resolved_at :: "instant option"
  pd_exhausted_reason :: "string option"

record db =
  objects_tbl :: "stored_object list"
  edges_tbl :: "typed_edge list"
  domain_events_tbl :: "appended_event list"
  outbox_tbl :: "outbox_entry list"
  processed_ids_tbl :: "processed_row list"
  key_revocations_tbl :: "revocation_record list"
  pending_deliveries_tbl :: "delivery_pending_record list"

text \<open>\<open>w_next_seq\<close> is the identity column's counter, \<open>w_ticks\<close> counts environment readings.\<close>

record world =
  w_db :: db
  w_next_seq :: int
  w_ticks :: nat

definition empty_db :: db where
  "empty_db = \<lparr>objects_tbl = [], edges_tbl = [], domain_events_tbl = [], outbox_tbl = [],
     processed_ids_tbl = [], key_revocations_tbl = [], pending_deliveries_tbl = []\<rparr>"

definition empty_world :: world where
  "empty_world = \<lparr>w_db = empty_db, w_next_seq = 1, w_ticks = 0\<rparr>"

section \<open>The environment, read by a program\<close>

definition tick :: "(world, nat) prog" where
  "tick = (\<lambda>w. (Inr (w_ticks w), w\<lparr>w_ticks := Suc (w_ticks w)\<rparr>))"

definition now :: "env \<Rightarrow> (world, instant) prog" where
  "now E = bindp tick (\<lambda>n. ret (env_now E n))"

definition new_urn :: "env \<Rightarrow> string \<Rightarrow> (world, urn) prog" where
  "new_urn E entity =
     bindp (lift (require_valid_entity entity)) (\<lambda>_.
     bindp tick (\<lambda>n. lift (new_urn_with (env_ulid E n) entity)))"

section \<open>Transactions\<close>

text \<open>\<^verbatim>\<open>with engine.begin() as conn\<close>: commit on return, roll back on an exception.\<close>

definition tx :: "(world, 'a) prog \<Rightarrow> (world, 'a) prog" where
  "tx m = (\<lambda>w. case m w of
       (Inl e, w') \<Rightarrow> (Inl e, w'\<lparr>w_db := w_db w\<rparr>)
     | (Inr x, w') \<Rightarrow> (Inr x, w'))"

section \<open>Statements\<close>

definition upd_db :: "(db \<Rightarrow> db) \<Rightarrow> (world, unit) prog" where
  "upd_db f = (\<lambda>w. (Inr (), w\<lparr>w_db := f (w_db w)\<rparr>))"

definition insert_when :: "(db \<Rightarrow> bool) \<Rightarrow> (db \<Rightarrow> db) \<Rightarrow> (world, unit) prog" where
  "insert_when c f = bindp (asks (\<lambda>w. c (w_db w))) (\<lambda>b. bindp (guardp b IntegrityErr) (\<lambda>_. upd_db f))"

definition insert_object_row :: "stored_object \<Rightarrow> (world, unit) prog" where
  "insert_object_row r =
     insert_when
       (\<lambda>d. \<forall>s \<in> set (objects_tbl d). \<not> (so_id s = so_id r \<and> so_revision s = so_revision r))
       (\<lambda>d. d\<lparr>objects_tbl := objects_tbl d @ [r]\<rparr>)"

definition insert_edge_row :: "typed_edge \<Rightarrow> (world, unit) prog" where
  "insert_edge_row r =
     insert_when
       (\<lambda>d. te_edge_type r \<in> EDGE_VOCABULARY \<and> (\<forall>s \<in> set (edges_tbl d). te_id s \<noteq> te_id r))
       (\<lambda>d. d\<lparr>edges_tbl := edges_tbl d @ [r]\<rparr>)"

text \<open>The identity column gives the next number before the unique constraint is checked.\<close>

definition next_sequence :: "(world, int) prog" where
  "next_sequence = (\<lambda>w. (Inr (w_next_seq w), w\<lparr>w_next_seq := w_next_seq w + 1\<rparr>))"

definition insert_event_row :: "domain_event \<Rightarrow> string \<Rightarrow> string option \<Rightarrow> (world, int) prog" where
  "insert_event_row e h p =
     bindp next_sequence (\<lambda>n.
     bindp (insert_when
       (\<lambda>d. \<forall>s \<in> set (domain_events_tbl d). de_id (ae_event s) \<noteq> de_id e \<and> ae_sequence s \<noteq> n)
       (\<lambda>d. d\<lparr>domain_events_tbl := domain_events_tbl d @
                [\<lparr>ae_event = e, ae_sequence = n, ae_content_hash = h, ae_prev_hash = p\<rparr>]\<rparr>)) (\<lambda>_.
     ret n))"

definition insert_outbox_row :: "outbox_entry \<Rightarrow> (world, unit) prog" where
  "insert_outbox_row r =
     insert_when
       (\<lambda>d. (\<forall>s \<in> set (outbox_tbl d). ox_event_id s \<noteq> ox_event_id r) \<and>
            (\<exists>a \<in> set (domain_events_tbl d). de_id (ae_event a) = ox_event_id r) \<and>
            ox_status r \<in> OUTBOX_STATUSES)
       (\<lambda>d. d\<lparr>outbox_tbl := outbox_tbl d @ [r]\<rparr>)"

section \<open>Running a statement\<close>

lemma tx_Inr [simp]: "tx m w = (Inr x, w') \<longleftrightarrow> m w = (Inr x, w')"
  by (auto simp: tx_def split: prod.splits sum.splits)

lemma tx_Inl: "tx m w = (Inl e, w') \<Longrightarrow> w_db w' = w_db w"
  by (auto simp: tx_def split: prod.splits sum.splits)

lemma tx_run [prog_simps]:
  "m w = (Inr x, w1) \<Longrightarrow> tx m w = (Inr x, w1)"
  "m w = (Inl e, w1) \<Longrightarrow> tx m w = (Inl e, w1\<lparr>w_db := w_db w\<rparr>)"
  by (simp_all add: tx_def)

lemma tick_run [prog_simps]: "tick w = (Inr (w_ticks w), w\<lparr>w_ticks := Suc (w_ticks w)\<rparr>)"
  by (simp add: tick_def)

lemma now_run [prog_simps]:
  "now E w = (Inr (env_now E (w_ticks w)), w\<lparr>w_ticks := Suc (w_ticks w)\<rparr>)"
  by (simp add: now_def bindp_def prog_simps)

lemma new_urn_run [prog_simps]:
  "entity_ok entity \<Longrightarrow> new_urn E entity w =
     (Inr (urn_text entity (env_ulid E (w_ticks w))), w\<lparr>w_ticks := Suc (w_ticks w)\<rparr>)"
  by (simp add: new_urn_def require_valid_entity_def bindp_def prog_simps)

lemma upd_db_run [prog_simps]: "upd_db f w = (Inr (), w\<lparr>w_db := f (w_db w)\<rparr>)"
  by (simp add: upd_db_def)

lemma insert_when_run [prog_simps]:
  "insert_when c f w =
     (if c (w_db w) then (Inr (), w\<lparr>w_db := f (w_db w)\<rparr>) else (Inl IntegrityErr, w))"
  by (simp add: insert_when_def bindp_def prog_simps)

lemma insert_object_row_run [prog_simps]:
  "insert_object_row r w =
     (if \<forall>s \<in> set (objects_tbl (w_db w)). \<not> (so_id s = so_id r \<and> so_revision s = so_revision r)
      then (Inr (), w\<lparr>w_db := (w_db w)\<lparr>objects_tbl := objects_tbl (w_db w) @ [r]\<rparr>\<rparr>)
      else (Inl IntegrityErr, w))"
  by (simp add: insert_object_row_def insert_when_run)

lemma insert_edge_row_run [prog_simps]:
  "insert_edge_row r w =
     (if te_edge_type r \<in> EDGE_VOCABULARY \<and> (\<forall>s \<in> set (edges_tbl (w_db w)). te_id s \<noteq> te_id r)
      then (Inr (), w\<lparr>w_db := (w_db w)\<lparr>edges_tbl := edges_tbl (w_db w) @ [r]\<rparr>\<rparr>)
      else (Inl IntegrityErr, w))"
  by (simp add: insert_edge_row_def insert_when_run)

lemma insert_event_row_run [prog_simps]:
  "insert_event_row e h p w =
     (let w1 = w\<lparr>w_next_seq := w_next_seq w + 1\<rparr>; d = w_db w; n = w_next_seq w in
      if \<forall>s \<in> set (domain_events_tbl d). de_id (ae_event s) \<noteq> de_id e \<and> ae_sequence s \<noteq> n
      then (Inr n, w1\<lparr>w_db := d\<lparr>domain_events_tbl := domain_events_tbl d @
              [\<lparr>ae_event = e, ae_sequence = n, ae_content_hash = h, ae_prev_hash = p\<rparr>]\<rparr>\<rparr>)
      else (Inl IntegrityErr, w1))"
  by (simp add: insert_event_row_def next_sequence_def bindp_def insert_when_run ret_run Let_def)

lemma insert_outbox_row_run [prog_simps]:
  "insert_outbox_row r w =
     (if (\<forall>s \<in> set (outbox_tbl (w_db w)). ox_event_id s \<noteq> ox_event_id r) \<and>
         (\<exists>a \<in> set (domain_events_tbl (w_db w)). de_id (ae_event a) = ox_event_id r) \<and>
         ox_status r \<in> OUTBOX_STATUSES
      then (Inr (), w\<lparr>w_db := (w_db w)\<lparr>outbox_tbl := outbox_tbl (w_db w) @ [r]\<rparr>\<rparr>)
      else (Inl IntegrityErr, w))"
  by (simp add: insert_outbox_row_def insert_when_run)

text \<open>Reading a successful environment call backwards.\<close>

lemma tick_InrE [elim!]:
  assumes "tick w = (Inr n, w')"
  obtains "n = w_ticks w" and "w' = w\<lparr>w_ticks := Suc (w_ticks w)\<rparr>"
  using assms by (auto simp: tick_def)

lemma now_InrE [elim!]:
  assumes "now E w = (Inr t, w')"
  obtains "t = env_now E (w_ticks w)" and "w' = w\<lparr>w_ticks := Suc (w_ticks w)\<rparr>"
  using assms by (auto simp: now_run)

lemma new_urn_InrE [elim!]:
  assumes "new_urn E entity w = (Inr t, w')"
  obtains "t = urn_text entity (env_ulid E (w_ticks w))"
    and "w' = w\<lparr>w_ticks := Suc (w_ticks w)\<rparr>"
  using assms
  by (auto simp: new_urn_def new_urn_with_def require_valid_entity_def split: if_splits)

section \<open>What a program may do to the tables\<close>

text \<open>Two worlds with the same tables; the identity counter only grows.\<close>

definition same_db :: "world \<Rightarrow> world \<Rightarrow> bool" where
  "same_db w w' \<longleftrightarrow> w_db w' = w_db w \<and> w_next_seq w \<le> w_next_seq w'"

lemma same_db_refl [simp]: "same_db w w"
  by (simp add: same_db_def)

lemma reflp_same_db [simp]: "reflp same_db"
  by (simp add: reflp_def)

lemma transp_same_db [simp]: "transp same_db"
  by (auto simp: transp_def same_db_def)

lemma same_db_ticks [simp]: "same_db w (w\<lparr>w_ticks := n\<rparr>)"
  by (simp add: same_db_def)

lemma tx_Inl_same_db:
  assumes "keeps (\<lambda>w w'. w_next_seq w \<le> w_next_seq w') m" and "tx m w = (Inl e, w')"
  shows "same_db w w'"
proof -
  obtain r w1 where m: "m w = (r, w1)" by fastforce
  with assms(1) have "w_next_seq w \<le> w_next_seq w1" by (blast dest: keepsD)
  with m assms(2) show ?thesis by (auto simp: tx_def same_db_def split: sum.splits)
qed

end
