(* ===== verification/Durable_Stores.thy ===== *)
theory Durable_Stores
  imports Database Lifecycles
begin

text \<open>
  The three stores of \<^verbatim>\<open>packages/persistence/mrr/persistence/repositories.py\<close> that keep plain
  rows instead of revisions: the processed message ids, the key revocations and the pending
  deliveries, with the pure rules they apply (\<^verbatim>\<open>replay_retention.py\<close>,
  \<^verbatim>\<open>trust_revocation.py\<close>, \<^verbatim>\<open>delivery_retry.py\<close>). All three insert with
  \<^verbatim>\<open>on_conflict_do_nothing\<close>; the locale \<open>first_write\<close> states what their callers rely
  on, and each store interprets it.
\<close>

section \<open>Insert, or leave the row that is there\<close>

text \<open>
  PostgreSQL checks the row's constraints first; then a row with the same key makes the
  statement insert nothing and return no row.
\<close>

definition insert_on_conflict_do_nothing ::
  "('r \<Rightarrow> bool) \<Rightarrow> ('r \<Rightarrow> 'k) \<Rightarrow> (db \<Rightarrow> 'r list) \<Rightarrow> ('r list \<Rightarrow> db \<Rightarrow> db) \<Rightarrow> 'r \<Rightarrow> (world, bool) prog" where
  "insert_on_conflict_do_nothing check key tbl put r =
     (\<lambda>w. if \<not> check r then (Inl IntegrityErr, w)
          else if key r \<in> key ` set (tbl (w_db w)) then (Inr False, w)
          else (Inr True, w\<lparr>w_db := put (tbl (w_db w) @ [r]) (w_db w)\<rparr>))"

section \<open>Processed message ids\<close>

definition PROCESSED_ID_KINDS :: "string set" where
  "PROCESSED_ID_KINDS = {''bundle'', ''envelope''}"

definition processed_id_retention_horizon :: "instant \<Rightarrow> int \<Rightarrow> instant outcome" where
  "processed_id_retention_horizon expires_at grace =
     (if grace < 0 then Inl ValueError else Inr (expires_at + grace))"

definition new_processed_id_store :: "int \<Rightarrow> int outcome" where
  "new_processed_id_store grace = (if grace < 0 then Inl ValueError else Inr grace)"

definition processed_key :: "processed_row \<Rightarrow> string \<times> string" where
  "processed_key r = (pr_recipient_node_id r, pr_id r)"

definition is_processed :: "string \<Rightarrow> string \<Rightarrow> (world, bool) prog" where
  "is_processed recipient_node_id i =
     asks (\<lambda>w. \<exists>r \<in> set (processed_ids_tbl (w_db w)).
       pr_recipient_node_id r = recipient_node_id \<and> pr_id r = i)"

definition already_processed :: "string \<Rightarrow> string \<Rightarrow> (world, bool) prog" where
  "already_processed recipient_node_id = (\<lambda>i. is_processed recipient_node_id i)"

definition record_processed_core :: "processed_row \<Rightarrow> (world, bool) prog" where
  "record_processed_core r =
     insert_on_conflict_do_nothing (\<lambda>r. pr_id_kind r \<in> PROCESSED_ID_KINDS) processed_key
       processed_ids_tbl (\<lambda>rs d. d\<lparr>processed_ids_tbl := rs\<rparr>) r"

definition record_processed_with_connection ::
  "string \<Rightarrow> string \<Rightarrow> string \<Rightarrow> instant \<Rightarrow> instant \<Rightarrow> (world, bool) prog" where
  "record_processed_with_connection i id_kind recipient_node_id expires_at at =
     record_processed_core \<lparr>pr_id = i, pr_id_kind = id_kind, pr_recipient_node_id = recipient_node_id,
       pr_processed_at = at, pr_expires_at = expires_at\<rparr>"

definition record_processed ::
  "string \<Rightarrow> string \<Rightarrow> string \<Rightarrow> instant \<Rightarrow> instant \<Rightarrow> (world, bool) prog" where
  "record_processed i id_kind recipient_node_id expires_at at =
     tx (record_processed_core \<lparr>pr_id = i, pr_id_kind = id_kind, pr_recipient_node_id = recipient_node_id,
       pr_processed_at = at, pr_expires_at = expires_at\<rparr>)"

text \<open>\<^verbatim>\<open>prune_expired\<close> selects the expired rows and keeps those still within the grace.\<close>

definition horizon_reached :: "int \<Rightarrow> instant \<Rightarrow> processed_row \<Rightarrow> (world, bool) prog" where
  "horizon_reached grace at r =
     bindp (lift (processed_id_retention_horizon (pr_expires_at r) grace)) (\<lambda>h. ret (h \<le> at))"

definition prune_expired :: "int \<Rightarrow> instant \<Rightarrow> (world, int) prog" where
  "prune_expired grace at =
     tx (bindp (asks (\<lambda>w. filter (\<lambda>r. pr_expires_at r \<le> at) (processed_ids_tbl (w_db w)))) (\<lambda>candidates.
         bindp (mapp (horizon_reached grace at) candidates) (\<lambda>reached.
         let prunable_keys = map (\<lambda>(r, b). processed_key r) (filter snd (zip candidates reached))
         in if prunable_keys = [] then ret 0
            else bindp (asks (\<lambda>w. int (length (filter (\<lambda>r. processed_key r \<in> set prunable_keys)
                                                 (processed_ids_tbl (w_db w)))))) (\<lambda>rowcount.
                 bindp (upd_db (\<lambda>d. d\<lparr>processed_ids_tbl :=
                     filter (\<lambda>r. processed_key r \<notin> set prunable_keys) (processed_ids_tbl d)\<rparr>)) (\<lambda>_.
                 ret rowcount)))))"

section \<open>Key revocations\<close>

text \<open>\<^verbatim>\<open>RevocationRecord.__post_init__\<close>; an instant of the model is always aware.\<close>

definition new_revocation_record :: "revocation_record \<Rightarrow> revocation_record outcome" where
  "new_revocation_record r =
     (if rv_kid r = '''' then Inl ValueError
      else if rv_practice_id r = '''' then Inl ValueError
      else Inr r)"

definition trust_revoked_after_creation :: "instant \<Rightarrow> revocation_record option \<Rightarrow> bool" where
  "trust_revoked_after_creation signed_at rec =
     (case rec of None \<Rightarrow> False | Some r \<Rightarrow> signed_at < rv_revoked_at r)"

definition record_revocation_core :: "revocation_record \<Rightarrow> (world, bool) prog" where
  "record_revocation_core r =
     insert_on_conflict_do_nothing (\<lambda>r. True) rv_kid
       key_revocations_tbl (\<lambda>rs d. d\<lparr>key_revocations_tbl := rs\<rparr>) r"

definition record_revocation_with_connection ::
  "string \<Rightarrow> string \<Rightarrow> instant \<Rightarrow> string option \<Rightarrow> (world, bool) prog" where
  "record_revocation_with_connection kid practice_id revoked_at reason =
     record_revocation_core \<lparr>rv_kid = kid, rv_practice_id = practice_id, rv_revoked_at = revoked_at,
       rv_reason = reason\<rparr>"

definition record_revocation :: "string \<Rightarrow> string \<Rightarrow> instant \<Rightarrow> string option \<Rightarrow> (world, bool) prog" where
  "record_revocation kid practice_id revoked_at reason =
     tx (record_revocation_core \<lparr>rv_kid = kid, rv_practice_id = practice_id, rv_revoked_at = revoked_at,
       rv_reason = reason\<rparr>)"

definition get_revocation :: "string \<Rightarrow> (world, revocation_record option) prog" where
  "get_revocation kid =
     bindp (asks (\<lambda>w. find (\<lambda>r. rv_kid r = kid) (key_revocations_tbl (w_db w)))) (\<lambda>row.
       case row of
         None \<Rightarrow> ret None
       | Some r \<Rightarrow> bindp (lift (new_revocation_record r)) (\<lambda>rec. ret (Some rec)))"

section \<open>Pending deliveries\<close>

definition DELIVERY_RECORD_STATUSES :: "string set" where
  "DELIVERY_RECORD_STATUSES = {''delivered'', ''exhausted'', ''pending''}"

text \<open>\<^verbatim>\<open>backoff\<close> is a caller's function from the attempt count to a duration.\<close>

definition next_retry_at :: "instant \<Rightarrow> int \<Rightarrow> (int \<Rightarrow> int) \<Rightarrow> instant \<Rightarrow> instant outcome" where
  "next_retry_at last_attempted_at attempt_count backoff expires_at =
     (if attempt_count < 1 then Inl ValueError
      else if backoff attempt_count < 0 then Inl ValueError
      else Inr (min (last_attempted_at + backoff attempt_count) expires_at))"

definition is_retry_exhausted :: "int \<Rightarrow> int \<Rightarrow> instant \<Rightarrow> instant \<Rightarrow> bool outcome" where
  "is_retry_exhausted attempt_count max_attempts expires_at at =
     (if attempt_count < 0 then Inl ValueError
      else if max_attempts < 1 then Inl ValueError
      else Inr (max_attempts \<le> attempt_count \<or> expires_at \<le> at))"

text \<open>The store: \<^verbatim>\<open>__init__\<close> refuses a bound below one.\<close>

record delivery_store =
  ds_max_attempts :: int
  ds_backoff :: "int \<Rightarrow> int"

definition new_delivery_store :: "int \<Rightarrow> (int \<Rightarrow> int) \<Rightarrow> delivery_store outcome" where
  "new_delivery_store max_attempts backoff =
     (if max_attempts < 1 then Inl ValueError
      else Inr \<lparr>ds_max_attempts = max_attempts, ds_backoff = backoff\<rparr>)"

definition int_text :: "int \<Rightarrow> string" where
  "int_text n = (if n < 0 then ''-'' @ digits10 (nat (- n)) else digits10 (nat n))"

definition delivery_exhaustion_reason :: "int \<Rightarrow> int \<Rightarrow> instant \<Rightarrow> instant \<Rightarrow> string" where
  "delivery_exhaustion_reason attempt_count max_attempts expires_at at =
     (let a = (if max_attempts \<le> attempt_count
               then [''max_attempts ('' @ int_text max_attempts @ '') reached at attempt_count='' @
                     int_text attempt_count] else []);
          b = (if expires_at \<le> at
               then [''notification validity window closed at '' @ isoformat expires_at @
                     '' (evaluated at '' @ isoformat at @ '')''] else [])
      in concat (case a @ b of [x, y] \<Rightarrow> [x, ''; '', y] | xs \<Rightarrow> xs))"

definition delivery_key :: "delivery_pending_record \<Rightarrow> string \<times> string" where
  "delivery_key r = (pd_recipient_node_id r, pd_notification_id r)"

text \<open>The checks of \<^verbatim>\<open>pending_deliveries_table\<close>; \<^verbatim>\<open>attempt_count\<close> is a 32-bit column.\<close>

definition delivery_row_ok :: "delivery_pending_record \<Rightarrow> bool" where
  "delivery_row_ok r \<longleftrightarrow>
     pd_status r \<in> DELIVERY_RECORD_STATUSES \<and>
     (pd_status r = ''exhausted'' \<longrightarrow> pd_exhausted_reason r \<noteq> None) \<and>
     - (2 ^ 31) \<le> pd_attempt_count r \<and> pd_attempt_count r < 2 ^ 31"

definition open_pending_delivery ::
  "delivery_store \<Rightarrow> string \<Rightarrow> string \<Rightarrow> string \<Rightarrow> instant \<Rightarrow> instant \<Rightarrow> (world, bool) prog" where
  "open_pending_delivery S recipient_node_id notification_id correction_id notification_expires_at at =
     bindp (lift (next_retry_at at 1 (ds_backoff S) notification_expires_at)) (\<lambda>scheduled.
     tx (insert_on_conflict_do_nothing delivery_row_ok delivery_key pending_deliveries_tbl
       (\<lambda>rs d. d\<lparr>pending_deliveries_tbl := rs\<rparr>)
       \<lparr>pd_recipient_node_id = recipient_node_id, pd_notification_id = notification_id,
        pd_correction_id = correction_id, pd_status = ''pending'', pd_attempt_count = 1,
        pd_opened_at = at, pd_last_attempted_at = at, pd_next_retry_at = Some scheduled,
        pd_notification_expires_at = notification_expires_at, pd_resolved_at = None,
        pd_exhausted_reason = None\<rparr>))"

definition find_delivery :: "string \<Rightarrow> string \<Rightarrow> db \<Rightarrow> delivery_pending_record option" where
  "find_delivery recipient_node_id notification_id d =
     find (\<lambda>r. pd_recipient_node_id r = recipient_node_id \<and> pd_notification_id r = notification_id)
       (pending_deliveries_tbl d)"

definition locked_row :: "string \<Rightarrow> string \<Rightarrow> (world, delivery_pending_record) prog" where
  "locked_row recipient_node_id notification_id =
     bindp (asks (\<lambda>w. find_delivery recipient_node_id notification_id (w_db w))) (\<lambda>row.
       case row of
         None \<Rightarrow> raise (PendingDeliveryNotFoundError recipient_node_id notification_id)
       | Some r \<Rightarrow> ret r)"

text \<open>\<^verbatim>\<open>UPDATE ... WHERE key ... RETURNING *\<close>\<close>

definition update_delivery ::
  "string \<Rightarrow> string \<Rightarrow> (delivery_pending_record \<Rightarrow> delivery_pending_record) \<Rightarrow>
   (world, delivery_pending_record) prog" where
  "update_delivery recipient_node_id notification_id f =
     bindp (asks (\<lambda>w. find_delivery recipient_node_id notification_id (w_db w))) (\<lambda>row.
       case row of
         None \<Rightarrow> raise RuntimeErr
       | Some r \<Rightarrow>
           bindp (guardp (delivery_row_ok (f r)) IntegrityErr) (\<lambda>_.
           bindp (upd_db (\<lambda>d. d\<lparr>pending_deliveries_tbl :=
               map (\<lambda>s. if delivery_key s = (recipient_node_id, notification_id) then f s else s)
                 (pending_deliveries_tbl d)\<rparr>)) (\<lambda>_.
           ret (f r))))"

definition attempt_update ::
  "delivery_store \<Rightarrow> delivery_pending_record \<Rightarrow> string \<Rightarrow> instant \<Rightarrow>
   (delivery_pending_record \<Rightarrow> delivery_pending_record) outcome" where
  "attempt_update S row result at =
     (let n = pd_attempt_count row + 1 in
      if result = ''delivered''
      then (case assert_transition DELIVERY_RETRY_LIFECYCLE (pd_status row) ''delivered'' of
              Inl e \<Rightarrow> Inl e
            | Inr _ \<Rightarrow> Inr (\<lambda>r. r\<lparr>pd_attempt_count := n, pd_last_attempted_at := at, pd_next_retry_at := None,
                pd_resolved_at := Some at, pd_status := ''delivered''\<rparr>))
      else (case is_retry_exhausted n (ds_max_attempts S) (pd_notification_expires_at row) at of
              Inl e \<Rightarrow> Inl e
            | Inr True \<Rightarrow>
                (case assert_transition DELIVERY_RETRY_LIFECYCLE (pd_status row) ''exhausted'' of
                   Inl e \<Rightarrow> Inl e
                 | Inr _ \<Rightarrow> Inr (\<lambda>r. r\<lparr>pd_attempt_count := n, pd_last_attempted_at := at,
                     pd_next_retry_at := None, pd_resolved_at := Some at, pd_status := ''exhausted'',
                     pd_exhausted_reason := Some (delivery_exhaustion_reason n (ds_max_attempts S)
                       (pd_notification_expires_at row) at)\<rparr>))
            | Inr False \<Rightarrow>
                (if pd_status row \<noteq> ''pending''
                 then Inl (InvalidTransitionError (sm_name DELIVERY_RETRY_LIFECYCLE) (pd_status row) ''pending'')
                 else (case next_retry_at at n (ds_backoff S) (pd_notification_expires_at row) of
                         Inl e \<Rightarrow> Inl e
                       | Inr t \<Rightarrow> Inr (\<lambda>r. r\<lparr>pd_attempt_count := n, pd_last_attempted_at := at,
                           pd_next_retry_at := Some t\<rparr>)))))"

definition record_retry_attempt ::
  "delivery_store \<Rightarrow> string \<Rightarrow> string \<Rightarrow> string \<Rightarrow> instant \<Rightarrow> (world, delivery_pending_record) prog" where
  "record_retry_attempt S recipient_node_id notification_id result at =
     tx (bindp (locked_row recipient_node_id notification_id) (\<lambda>row.
         bindp (lift (attempt_update S row result at)) (\<lambda>f.
         update_delivery recipient_node_id notification_id f)))"

definition mark_exhausted ::
  "string \<Rightarrow> string \<Rightarrow> string \<Rightarrow> instant \<Rightarrow> (world, delivery_pending_record) prog" where
  "mark_exhausted recipient_node_id notification_id reason at =
     bindp (guardp (reason \<noteq> '''') ValueError) (\<lambda>_.
     tx (bindp (locked_row recipient_node_id notification_id) (\<lambda>row.
         bindp (lift (assert_transition DELIVERY_RETRY_LIFECYCLE (pd_status row) ''exhausted'')) (\<lambda>_.
         update_delivery recipient_node_id notification_id
           (\<lambda>r. r\<lparr>pd_status := ''exhausted'', pd_resolved_at := Some at, pd_next_retry_at := None,
                  pd_exhausted_reason := Some reason\<rparr>)))))"

definition get_pending_delivery ::
  "string \<Rightarrow> string \<Rightarrow> (world, delivery_pending_record option) prog" where
  "get_pending_delivery recipient_node_id notification_id =
     asks (\<lambda>w. find_delivery recipient_node_id notification_id (w_db w))"

text \<open>The query has no order; the model lists the rows in the order of their insertion.\<close>

definition list_due_for_retry :: "instant \<Rightarrow> (world, delivery_pending_record list) prog" where
  "list_due_for_retry at =
     asks (\<lambda>w. filter (\<lambda>r. pd_status r = ''pending'' \<and>
       (case pd_next_retry_at r of None \<Rightarrow> False | Some t \<Rightarrow> t \<le> at)) (pending_deliveries_tbl (w_db w)))"

section \<open>First write wins\<close>

text \<open>The outcomes of one operation on each argument in turn.\<close>

fun outcomes :: "('a \<Rightarrow> 'w \<Rightarrow> 'r \<times> 'w) \<Rightarrow> 'a list \<Rightarrow> 'w \<Rightarrow> 'r list" where
  "outcomes f [] w = []"
| "outcomes f (x # xs) w = fst (f x w) # outcomes f xs (snd (f x w))"

lemma length_outcomes [simp]: "length (outcomes f xs w) = length xs"
  by (induction xs arbitrary: w) auto

lemma find_append_Some: "find P xs = Some r \<Longrightarrow> find P (xs @ ys) = Some r"
  by (induction xs) auto

text \<open>How often an operation tells that it was the first for a key.\<close>

definition wins :: "('r \<Rightarrow> (world, bool) prog) \<Rightarrow> ('r \<Rightarrow> 'k) \<Rightarrow> 'k \<Rightarrow> 'r list \<Rightarrow> world \<Rightarrow> nat" where
  "wins ins key k rs w = length (filter (\<lambda>(r, q). key r = k \<and> q = Inr True) (zip rs (outcomes ins rs w)))"

text \<open>
  What the users of a store rely on: an insert says whether it was the first of its key and
  then the row is there; otherwise, or when it raises, no row changes.
\<close>

locale first_write =
  fixes ins :: "'r \<Rightarrow> (world, bool) prog" and key :: "'r \<Rightarrow> 'k" and rows :: "db \<Rightarrow> 'r list"
  assumes ins_Inr: "ins r w = (Inr b, w') \<Longrightarrow>
      (b \<longleftrightarrow> key r \<notin> key ` set (rows (w_db w))) \<and>
      rows (w_db w') = rows (w_db w) @ (if b then [r] else [])"
    and ins_Inl: "ins r w = (Inl x, w') \<Longrightarrow> rows (w_db w') = rows (w_db w)"
begin

lemma ins_rows:
  "rows (w_db (snd (ins r w))) = rows (w_db w) @ (if fst (ins r w) = Inr True then [r] else [])"
proof (cases "ins r w")
  case (Pair q w')
  show ?thesis
  proof (cases q)
    case (Inl x)
    then show ?thesis using Pair ins_Inl by simp
  next
    case (Inr b)
    then show ?thesis using ins_Inr [of r w b w'] Pair by (cases b) simp_all
  qed
qed

lemma ins_first: "fst (ins r w) = Inr True \<Longrightarrow> key r \<notin> key ` set (rows (w_db w))"
  using ins_Inr [of r w True "snd (ins r w)"] by (cases "ins r w") simp

lemma keys_stay: "k \<in> key ` set (rows (w_db w)) \<Longrightarrow> k \<in> key ` set (rows (w_db (snd (ins r w))))"
  by (auto simp: ins_rows)

lemma rows_grow: "\<exists>new. rows (w_db (run_all ins rs w)) = rows (w_db w) @ new"
proof (induction rs arbitrary: w)
  case (Cons r rs)
  from Cons.IH [of "snd (ins r w)"] show ?case unfolding run_all.simps ins_rows by auto
qed simp

lemma distinct_keys:
  "distinct (map key (rows (w_db w))) \<Longrightarrow> distinct (map key (rows (w_db (run_all ins rs w))))"
proof (induction rs arbitrary: w)
  case (Cons r rs)
  have "distinct (map key (rows (w_db (snd (ins r w)))))"
    using Cons.prems ins_first [of r w] unfolding ins_rows by auto
  from Cons.IH [OF this] show ?case by simp
qed simp

text \<open>The row of a present key is never replaced.\<close>

lemma first_row_stays:
  "find (\<lambda>s. key s = k) (rows (w_db w)) = Some r \<Longrightarrow>
     find (\<lambda>s. key s = k) (rows (w_db (run_all ins rs w))) = Some r"
proof -
  assume f: "find (\<lambda>s. key s = k) (rows (w_db w)) = Some r"
  obtain new where "rows (w_db (run_all ins rs w)) = rows (w_db w) @ new" using rows_grow by blast
  then show ?thesis using f by (simp add: find_append_Some)
qed

text \<open>Among any inserts of one key at most one is told that it was the first.\<close>

lemma wins_exact:
  "wins ins key k rs w =
     (if k \<notin> key ` set (rows (w_db w)) \<and> k \<in> key ` set (rows (w_db (run_all ins rs w))) then 1 else 0)"
proof (induction rs arbitrary: w)
  case Nil
  then show ?case by (simp add: wins_def)
next
  case (Cons r rs)
  let ?w1 = "snd (ins r w)"
  have step: "wins ins key k (r # rs) w = (if key r = k \<and> fst (ins r w) = Inr True then 1 else 0) + wins ins key k rs ?w1"
    by (simp add: wins_def)
  obtain new where new: "rows (w_db (run_all ins rs ?w1)) = rows (w_db ?w1) @ new" using rows_grow by blast
  show ?case
    unfolding step Cons.IH using ins_first [of r w] new by (auto simp: ins_rows)
qed

end

lemma insert_on_conflict_first:
  assumes "\<And>rs d. tbl (put rs d) = rs"
  shows "first_write (\<lambda>r. tx (insert_on_conflict_do_nothing check key tbl put r)) key tbl"
proof
  fix r b x and w w' :: world
  show "(b \<longleftrightarrow> key r \<notin> key ` set (tbl (w_db w))) \<and> tbl (w_db w') = tbl (w_db w) @ (if b then [r] else [])"
    if "tx (insert_on_conflict_do_nothing check key tbl put r) w = (Inr b, w')"
    using that assms by (auto simp: insert_on_conflict_do_nothing_def split: if_splits)
  show "tbl (w_db w') = tbl (w_db w)"
    if "tx (insert_on_conflict_do_nothing check key tbl put r) w = (Inl x, w')"
    using tx_Inl [OF that] by simp
qed

interpretation processed: first_write "\<lambda>r. tx (record_processed_core r)" processed_key processed_ids_tbl
  unfolding record_processed_core_def by (rule insert_on_conflict_first) simp

interpretation revocations: first_write "\<lambda>r. tx (record_revocation_core r)" rv_kid key_revocations_tbl
  unfolding record_revocation_core_def by (rule insert_on_conflict_first) simp

interpretation deliveries: first_write
  "\<lambda>r. tx (insert_on_conflict_do_nothing delivery_row_ok delivery_key pending_deliveries_tbl
     (\<lambda>rs d. d\<lparr>pending_deliveries_tbl := rs\<rparr>) r)" delivery_key pending_deliveries_tbl
  by (rule insert_on_conflict_first) simp

section \<open>Pruning\<close>

definition prunable :: "int \<Rightarrow> instant \<Rightarrow> processed_row \<Rightarrow> bool" where
  "prunable grace at r \<longleftrightarrow> pr_expires_at r + grace \<le> at"

lemma mapp_horizon:
  "0 \<le> grace \<Longrightarrow> mapp (horizon_reached grace at) rs w = (Inr (map (prunable grace at) rs), w)"
proof (induction rs)
  case (Cons r rs)
  then show ?case
    by (simp add: horizon_reached_def processed_id_retention_horizon_def bindp_def lift_run ret_run prunable_def)
qed (simp add: ret_run)

lemma filter_zip_map: "map fst (filter snd (zip xs (map f xs))) = filter f xs"
  by (induction xs) auto

lemma filter_key:
  assumes "distinct (map f xs)"
  shows "filter (\<lambda>x. f x \<in> f ` set (filter P xs)) xs = filter P xs"
    and "filter (\<lambda>x. f x \<notin> f ` set (filter P xs)) xs = filter (\<lambda>x. \<not> P x) xs"
proof -
  have "f x \<in> f ` set (filter P xs) \<longleftrightarrow> P x" if "x \<in> set xs" for x
    using that assms by (auto simp: distinct_map inj_on_def)
  then show "filter (\<lambda>x. f x \<in> f ` set (filter P xs)) xs = filter P xs"
    "filter (\<lambda>x. f x \<notin> f ` set (filter P xs)) xs = filter (\<lambda>x. \<not> P x) xs"
    by (auto intro: filter_cong)
qed

lemma prune_expired_run:
  assumes g: "0 \<le> grace" and d: "distinct (map processed_key (processed_ids_tbl (w_db w)))"
  shows "prune_expired grace at w =
    (Inr (int (length (filter (prunable grace at) (processed_ids_tbl (w_db w))))),
     w\<lparr>w_db := (w_db w)\<lparr>processed_ids_tbl :=
       filter (\<lambda>r. \<not> prunable grace at r) (processed_ids_tbl (w_db w))\<rparr>\<rparr>)"
proof -
  let ?t = "processed_ids_tbl (w_db w)" and ?c = "\<lambda>r. pr_expires_at r \<le> at"
  have two: "filter (prunable grace at) (filter ?c ?t) = filter (prunable grace at) ?t"
    using g by (auto simp: prunable_def intro: filter_cong)
  have keys: "map (\<lambda>(r, b). processed_key r) (filter snd (zip (filter ?c ?t) (map (prunable grace at) (filter ?c ?t))))
      = map processed_key (filter (prunable grace at) ?t)" (is "?k = _")
    unfolding two [symmetric] filter_zip_map [of "filter ?c ?t", symmetric] by (simp add: case_prod_beta)
  have nil: "filter snd (zip (filter ?c ?t) (map (prunable grace at) (filter ?c ?t))) = [] \<longleftrightarrow>
      filter (prunable grace at) ?t = []"
    using arg_cong [OF keys, of "\<lambda>xs. xs = []"] unfolding map_is_Nil_conv .
  note fk = filter_key [OF d, of "prunable grace at"]
  show ?thesis
  proof (cases "filter (prunable grace at) ?t = []")
    case True
    then have "filter (\<lambda>r. \<not> prunable grace at r) ?t = ?t" by (simp add: filter_empty_conv)
    with True nil show ?thesis
      by (simp add: prune_expired_def tx_def bindp_def asks_run mapp_horizon [OF g] ret_run Let_def)
  next
    case False
    with keys fk nil show ?thesis
      by (simp add: prune_expired_def tx_def bindp_def asks_run mapp_horizon [OF g] ret_run Let_def upd_db_run)
  qed
qed

section \<open>Deliveries\<close>

lemma find_delivery_key: "find_delivery n i d = find (\<lambda>s. delivery_key s = (n, i)) (pending_deliveries_tbl d)"
  unfolding find_delivery_def by (rule arg_cong2 [where f = find]) (auto simp: delivery_key_def)

lemma find_map_update:
  assumes "\<And>s. key s = k \<Longrightarrow> key (f s) = k"
  shows "find (\<lambda>s. key s = k) (map (\<lambda>s. if key s = k then f s else s) xs) =
    map_option f (find (\<lambda>s. key s = k) xs)"
  using assms by (induction xs) auto

lemma find_map_other:
  assumes "\<And>s. key s = k \<Longrightarrow> key (f s) = k" and "j \<noteq> k"
  shows "find (\<lambda>s. key s = j) (map (\<lambda>s. if key s = k then f s else s) xs) = find (\<lambda>s. key s = j) xs"
  using assms by (induction xs) auto

text \<open>What an update keeps: the key of the row.\<close>

definition keeps_key :: "(delivery_pending_record \<Rightarrow> delivery_pending_record) \<Rightarrow> bool" where
  "keeps_key f \<longleftrightarrow> (\<forall>s. delivery_key (f s) = delivery_key s)"

lemma update_delivery_run:
  assumes f: "keeps_key f" and r: "find_delivery n i (w_db w) = Some r" and ok: "delivery_row_ok (f r)"
  obtains w' where "update_delivery n i f w = (Inr (f r), w')"
    and "find_delivery n i (w_db w') = Some (f r)"
    and "\<forall>m j. (m, j) \<noteq> (n, i) \<longrightarrow> find_delivery m j (w_db w') = find_delivery m j (w_db w)"
    and "pending_deliveries_tbl (w_db w') =
      map (\<lambda>s. if delivery_key s = (n, i) then f s else s) (pending_deliveries_tbl (w_db w))"
proof (rule that)
  let ?w' = "w\<lparr>w_db := (w_db w)\<lparr>pending_deliveries_tbl :=
      map (\<lambda>s. if delivery_key s = (n, i) then f s else s) (pending_deliveries_tbl (w_db w))\<rparr>\<rparr>"
  show "update_delivery n i f w = (Inr (f r), ?w')"
    using r ok by (simp add: update_delivery_def bindp_def asks_run guardp_run upd_db_run ret_run)
  have k: "delivery_key (f s) = k" if "delivery_key s = k" for s k
    using f that by (simp add: keeps_key_def)
  show "find_delivery n i (w_db ?w') = Some (f r)"
    using r find_map_update [of delivery_key "(n, i)" f] k by (simp add: find_delivery_key)
  show "\<forall>m j. (m, j) \<noteq> (n, i) \<longrightarrow> find_delivery m j (w_db ?w') = find_delivery m j (w_db w)"
    using find_map_other [of delivery_key "(n, i)" f] k by (simp add: find_delivery_key)
qed simp

lemma attempt_update_keeps_key: "attempt_update S row q at = Inr f \<Longrightarrow> keeps_key f"
  by (auto simp: attempt_update_def keeps_key_def delivery_key_def Let_def split: sum.splits bool.splits if_splits)

lemma locked_row_run:
  "locked_row n i w = (case find_delivery n i (w_db w) of
     None \<Rightarrow> (Inl (PendingDeliveryNotFoundError n i), w) | Some r \<Rightarrow> (Inr r, w))"
  by (simp add: locked_row_def bindp_def asks_run ret_run raise_run split: option.splits)

text \<open>A retry, read backwards: the row it found, the update it computed.\<close>

lemma record_retry_attempt_cases:
  assumes "record_retry_attempt S n i q at w = (z, w')"
  obtains (error) x where "z = Inl x" and "w_db w' = w_db w"
  | (updated) r f where "find_delivery n i (w_db w) = Some r" and "attempt_update S r q at = Inr f"
      and "z = Inr (f r)" and "delivery_row_ok (f r)" and "update_delivery n i f w = (z, w')"
proof (cases z)
  case (Inl x)
  then show thesis using assms tx_Inl error by (metis record_retry_attempt_def)
next
  case (Inr y)
  with assms have t: "bindp (locked_row n i) (\<lambda>row. bindp (lift (attempt_update S row q at))
      (\<lambda>f. update_delivery n i f)) w = (Inr y, w')"
    by (simp add: record_retry_attempt_def)
  then obtain r f where r: "locked_row n i w = (Inr r, w)" "attempt_update S r q at = Inr f"
    and u: "update_delivery n i f w = (Inr y, w')"
    by (elim bindp_InrE lift_InrE) (auto simp: locked_row_run split: option.splits)
  have r': "find_delivery n i (w_db w) = Some r" using r(1) by (auto simp: locked_row_run split: option.splits)
  have "delivery_row_ok (f r) \<and> y = f r"
    using u r' by (auto simp: update_delivery_def)
  then show thesis using updated r' r(2) u Inr by blast
qed

lemma mark_exhausted_cases:
  assumes "mark_exhausted n i reason at w = (z, w')"
  obtains (error) x where "z = Inl x" and "w_db w' = w_db w"
  | (updated) r where "find_delivery n i (w_db w) = Some r" and "pd_status r = ''pending''" and "reason \<noteq> []"
      and "update_delivery n i (\<lambda>r. r\<lparr>pd_status := ''exhausted'', pd_resolved_at := Some at,
         pd_next_retry_at := None, pd_exhausted_reason := Some reason\<rparr>) w = (z, w')"
proof (cases "reason = []")
  case True
  with assms have "z = Inl ValueError" "w' = w" by (simp_all add: mark_exhausted_def bindp_def guardp_run)
  then show thesis using error by simp
next
  case False
  let ?f = "\<lambda>r. r\<lparr>pd_status := ''exhausted'', pd_resolved_at := Some at,
         pd_next_retry_at := None, pd_exhausted_reason := Some reason\<rparr>"
  let ?m = "bindp (locked_row n i) (\<lambda>row.
         bindp (lift (assert_transition DELIVERY_RETRY_LIFECYCLE (pd_status row) ''exhausted'')) (\<lambda>_.
         update_delivery n i ?f))"
  have t: "tx ?m w = (z, w')" using assms False by (simp add: mark_exhausted_def bindp_def guardp_run)
  show thesis
  proof (cases z)
    case (Inl x)
    with t show thesis using tx_Inl error by metis
  next
    case (Inr y)
    with t have "?m w = (Inr y, w')" by simp
    then obtain r where r: "locked_row n i w = (Inr r, w)"
      "assert_transition DELIVERY_RETRY_LIFECYCLE (pd_status r) ''exhausted'' = Inr ()"
      and u: "update_delivery n i ?f w = (Inr y, w')"
      by (elim bindp_InrE lift_InrE) (auto simp: locked_row_run split: option.splits)
    have r': "find_delivery n i (w_db w) = Some r" using r(1) by (auto simp: locked_row_run split: option.splits)
    have "pd_status r = ''pending''"
      using r(2) by (auto simp: DELIVERY_RETRY_LIFECYCLE_def can_transition_def)
    with updated r' False u Inr show thesis by blast
  qed
qed

text \<open>The calls of the store, and what every row satisfies.\<close>

datatype delivery_call =
    OpenDelivery string string string instant instant
  | RetryDelivery string string string instant
  | MarkExhausted string string string instant

fun run_delivery :: "delivery_store \<Rightarrow> delivery_call \<Rightarrow> world \<Rightarrow> unit \<times> world" where
  "run_delivery S (OpenDelivery n i c e t) w = ((), snd (open_pending_delivery S n i c e t w))"
| "run_delivery S (RetryDelivery n i q t) w = ((), snd (record_retry_attempt S n i q t w))"
| "run_delivery S (MarkExhausted n i reason t) w = ((), snd (mark_exhausted n i reason t w))"

definition delivery_ok :: "delivery_store \<Rightarrow> delivery_pending_record \<Rightarrow> bool" where
  "delivery_ok S r \<longleftrightarrow>
     1 \<le> pd_attempt_count r \<and>
     (pd_status r = ''pending'' \<and> pd_resolved_at r = None \<and> pd_exhausted_reason r = None \<and>
        (\<exists>t. pd_next_retry_at r = Some t \<and> t \<le> pd_notification_expires_at r) \<and>
        (pd_attempt_count r = 1 \<or> pd_attempt_count r < ds_max_attempts S) \<or>
      pd_status r = ''delivered'' \<and> pd_resolved_at r \<noteq> None \<and> pd_next_retry_at r = None \<or>
      pd_status r = ''exhausted'' \<and> pd_resolved_at r \<noteq> None \<and> pd_next_retry_at r = None \<and>
        pd_exhausted_reason r \<notin> {None, Some []})"

definition deliveries_ok :: "delivery_store \<Rightarrow> world \<Rightarrow> bool" where
  "deliveries_ok S w \<longleftrightarrow>
     distinct (map delivery_key (pending_deliveries_tbl (w_db w))) \<and>
     (\<forall>r \<in> set (pending_deliveries_tbl (w_db w)). delivery_ok S r)"

lemma next_retry_at_Inr:
  "next_retry_at l n b e = Inr t \<Longrightarrow> 1 \<le> n \<and> 0 \<le> b n \<and> t = min (l + b n) e"
  by (auto simp: next_retry_at_def split: if_splits)

lemma is_retry_exhausted_Inr:
  "is_retry_exhausted n m e t = Inr b \<Longrightarrow> b = (m \<le> n \<or> e \<le> t) \<and> 0 \<le> n \<and> 1 \<le> m"
  by (auto simp: is_retry_exhausted_def split: if_splits)

lemma exhaustion_reason_given:
  "m \<le> n \<or> e \<le> t \<Longrightarrow> delivery_exhaustion_reason n m e t \<noteq> []"
  by (auto simp: delivery_exhaustion_reason_def Let_def)

lemma retry_moves:
  "assert_transition DELIVERY_RETRY_LIFECYCLE a b = Inr () \<longleftrightarrow> a = ''pending'' \<and> b \<in> {''delivered'', ''exhausted''}"
  by (auto simp: DELIVERY_RETRY_LIFECYCLE_def can_transition_def)

lemma not_Inr_unit: "x \<noteq> Inr () \<Longrightarrow> \<exists>e. x = Inl e"
  by (cases x) auto

lemma attempt_needs_pending:
  assumes f: "attempt_update S r q at = Inr f"
  shows "pd_status r = ''pending''"
proof (rule ccontr)
  assume np: "pd_status r \<noteq> ''pending''"
  then have n: "assert_transition DELIVERY_RETRY_LIFECYCLE (pd_status r) b \<noteq> Inr ()" for b
    by (simp only: retry_moves) simp
  obtain x y where d: "assert_transition DELIVERY_RETRY_LIFECYCLE (pd_status r) ''delivered'' = Inl x"
    and e: "assert_transition DELIVERY_RETRY_LIFECYCLE (pd_status r) ''exhausted'' = Inl y"
    using not_Inr_unit [OF n] by blast
  show False
  proof (cases "q = ''delivered''")
    case True
    with f d show False unfolding attempt_update_def Let_def by simp
  next
    case False
    note f' = f [unfolded attempt_update_def Let_def if_not_P [OF False] if_P [OF np]]
    show False
    proof (cases "is_retry_exhausted (pd_attempt_count r + 1) (ds_max_attempts S) (pd_notification_expires_at r) at")
      case (Inl z)
      with f' show False by simp
    next
      case (Inr b)
      with f' e show False by (cases b) simp_all
    qed
  qed
qed

text \<open>An attempt moves a pending row only, and to a row that is in order.\<close>

lemma attempt_update_ok:
  assumes f: "attempt_update S r q at = Inr f" and r: "delivery_ok S r"
  shows "pd_status r = ''pending'' \<and> delivery_ok S (f r) \<and> pd_attempt_count (f r) = pd_attempt_count r + 1 \<and>
    pd_notification_expires_at (f r) = pd_notification_expires_at r"
proof (cases "q = ''delivered''")
  case True
  with f obtain u where "assert_transition DELIVERY_RETRY_LIFECYCLE (pd_status r) ''delivered'' = Inr u"
    and e: "f = (\<lambda>s. s\<lparr>pd_attempt_count := pd_attempt_count r + 1, pd_last_attempted_at := at,
        pd_next_retry_at := None, pd_resolved_at := Some at, pd_status := ''delivered''\<rparr>)"
    by (auto simp: attempt_update_def Let_def simp del: assert_transition_Inr split: sum.splits)
  then have "pd_status r = ''pending''" by (simp add: retry_moves unit_eq del: assert_transition_Inr)
  with r show ?thesis by (simp add: e delivery_ok_def)
next
  case False
  let ?n = "pd_attempt_count r + 1"
  from f False obtain b where b: "is_retry_exhausted ?n (ds_max_attempts S) (pd_notification_expires_at r) at = Inr b"
    by (auto simp: attempt_update_def Let_def split: sum.splits)
  note ex = is_retry_exhausted_Inr [OF b]
  show ?thesis
  proof (cases b)
    case True
    with f False b obtain u where "assert_transition DELIVERY_RETRY_LIFECYCLE (pd_status r) ''exhausted'' = Inr u"
      and e: "f = (\<lambda>s. s\<lparr>pd_attempt_count := ?n, pd_last_attempted_at := at, pd_next_retry_at := None,
          pd_resolved_at := Some at, pd_status := ''exhausted'', pd_exhausted_reason :=
          Some (delivery_exhaustion_reason ?n (ds_max_attempts S) (pd_notification_expires_at r) at)\<rparr>)"
      by (auto simp: attempt_update_def Let_def simp del: assert_transition_Inr split: sum.splits)
    then have "pd_status r = ''pending''" by (simp add: retry_moves unit_eq del: assert_transition_Inr)
    with r ex True show ?thesis by (simp add: e delivery_ok_def exhaustion_reason_given)
  next
    case no: False
    with f False b obtain t where p: "pd_status r = ''pending''"
      and t: "next_retry_at at ?n (ds_backoff S) (pd_notification_expires_at r) = Inr t"
      and e: "f = (\<lambda>s. s\<lparr>pd_attempt_count := ?n, pd_last_attempted_at := at, pd_next_retry_at := Some t\<rparr>)"
      by (auto simp: attempt_update_def Let_def split: sum.splits if_splits)
    from next_retry_at_Inr [OF t] have "t \<le> pd_notification_expires_at r" by simp
    with r p ex no show ?thesis by (simp add: e delivery_ok_def)
  qed
qed

lemma delivery_found:
  "deliveries_ok S w \<Longrightarrow> find_delivery n i (w_db w) = Some r \<Longrightarrow> delivery_ok S r"
  unfolding find_delivery_def deliveries_ok_def by (auto simp: find_Some_iff)

lemma deliveries_ok_update:
  assumes ok: "deliveries_ok S w" and r: "find_delivery n i (w_db w) = Some r"
    and f: "keeps_key f" and fr: "delivery_row_ok (f r)" "delivery_ok S (f r)"
    and u: "update_delivery n i f w = (z, w')"
  shows "deliveries_ok S w'"
proof -
  obtain w'' where "update_delivery n i f w = (Inr (f r), w'')"
    and t: "pending_deliveries_tbl (w_db w'') =
      map (\<lambda>s. if delivery_key s = (n, i) then f s else s) (pending_deliveries_tbl (w_db w))"
    by (rule update_delivery_run [OF f r fr(1)])
  with u have w: "w'' = w'" by simp
  let ?t = "pending_deliveries_tbl (w_db w)"
  have d: "distinct (map delivery_key ?t)" using ok by (simp add: deliveries_ok_def)
  have rk: "r \<in> set ?t" "delivery_key r = (n, i)" using r unfolding find_delivery_key by (auto simp: find_Some_iff)
  have one: "s = r" if "s \<in> set ?t" "delivery_key s = (n, i)" for s
    using that rk d by (auto simp: distinct_map inj_on_def)
  let ?t' = "map (\<lambda>s. if delivery_key s = (n, i) then f s else s) ?t"
  have "map delivery_key ?t' = map delivery_key ?t" using f by (auto simp: keeps_key_def)
  with d have d': "distinct (map delivery_key ?t')" by (simp only:)
  have "delivery_ok S s" if "s \<in> set ?t'" for s
    using that ok one fr(2) by (auto simp: deliveries_ok_def split: if_splits)
  with d' show ?thesis unfolding deliveries_ok_def w [symmetric] t by blast
qed

lemma insert_or_leave:
  assumes "tx (insert_on_conflict_do_nothing check key tbl put r) w = (z, w')" and "\<And>rs d. tbl (put rs d) = rs"
  shows "tbl (w_db w') = tbl (w_db w) \<or> (check r \<and> key r \<notin> key ` set (tbl (w_db w)) \<and>
    tbl (w_db w') = tbl (w_db w) @ [r])"
proof (cases z)
  case (Inl x)
  with assms tx_Inl show ?thesis by metis
next
  case (Inr b)
  with assms show ?thesis by (cases b) (auto simp: insert_on_conflict_do_nothing_def split: if_splits)
qed

lemma run_delivery_ok:
  assumes S: "1 \<le> ds_max_attempts S" and ok: "deliveries_ok S w"
  shows "deliveries_ok S (snd (run_delivery S c w))"
proof (cases c)
  case (OpenDelivery n i cid e t)
  obtain z w' where run: "open_pending_delivery S n i cid e t w = (z, w')" by fastforce
  have "deliveries_ok S w'"
  proof (cases "next_retry_at t 1 (ds_backoff S) e")
    case (Inl x)
    with run ok show ?thesis by (simp add: open_pending_delivery_def bindp_def lift_run)
  next
    case (Inr s)
    from next_retry_at_Inr [OF this] have s: "s \<le> e" by simp
    let ?r = "\<lparr>pd_recipient_node_id = n, pd_notification_id = i, pd_correction_id = cid,
      pd_status = ''pending'', pd_attempt_count = 1, pd_opened_at = t, pd_last_attempted_at = t,
      pd_next_retry_at = Some s, pd_notification_expires_at = e, pd_resolved_at = None,
      pd_exhausted_reason = None\<rparr>"
    have r: "delivery_ok S ?r" using s by (simp add: delivery_ok_def)
    have "tx (insert_on_conflict_do_nothing delivery_row_ok delivery_key pending_deliveries_tbl
       (\<lambda>rs d. d\<lparr>pending_deliveries_tbl := rs\<rparr>) ?r) w = (z, w')"
      using run Inr by (simp add: open_pending_delivery_def bindp_def lift_run)
    note run' = this
    have put: "pending_deliveries_tbl (d\<lparr>pending_deliveries_tbl := rs\<rparr>) = rs" for d :: db and rs by simp
    show ?thesis using insert_or_leave [OF run' put]
    proof (elim disjE conjE)
      assume "pending_deliveries_tbl (w_db w') = pending_deliveries_tbl (w_db w)"
      with ok show ?thesis by (simp add: deliveries_ok_def)
    next
      assume "delivery_key ?r \<notin> delivery_key ` set (pending_deliveries_tbl (w_db w))"
        and "pending_deliveries_tbl (w_db w') = pending_deliveries_tbl (w_db w) @ [?r]"
      with ok r show ?thesis by (simp add: deliveries_ok_def)
    qed
  qed
  with OpenDelivery run show ?thesis by simp
next
  case (RetryDelivery n i q t)
  obtain z w' where run: "record_retry_attempt S n i q t w = (z, w')" by fastforce
  have "deliveries_ok S w'"
    using run
  proof (cases rule: record_retry_attempt_cases)
    case (error x)
    with ok show ?thesis by (simp add: deliveries_ok_def)
  next
    case (updated r f)
    from attempt_update_ok [OF updated(2) delivery_found [OF ok updated(1)]]
    show ?thesis
      using deliveries_ok_update [OF ok updated(1) attempt_update_keeps_key [OF updated(2)] updated(4) _ updated(5)]
      by blast
  qed
  with RetryDelivery run show ?thesis by simp
next
  case (MarkExhausted n i reason t)
  obtain z w' where run: "mark_exhausted n i reason t w = (z, w')" by fastforce
  have "deliveries_ok S w'"
    using run
  proof (cases rule: mark_exhausted_cases)
    case (error x)
    with ok show ?thesis by (simp add: deliveries_ok_def)
  next
    case (updated r)
    let ?f = "\<lambda>r. r\<lparr>pd_status := ''exhausted'', pd_resolved_at := Some t, pd_next_retry_at := None,
       pd_exhausted_reason := Some reason\<rparr>"
    have r: "delivery_ok S r" by (rule delivery_found [OF ok updated(1)])
    have k: "keeps_key ?f" by (simp add: keeps_key_def delivery_key_def)
    have "delivery_ok S (?f r)" using r updated(3) by (auto simp: delivery_ok_def)
    moreover have "delivery_row_ok (?f r)" if "w' \<noteq> w"
      using that updated(1,4) by (auto simp: update_delivery_def bindp_def asks_run guardp_run raise_run split: if_splits)
    ultimately show ?thesis
      using deliveries_ok_update [OF ok updated(1) k _ _ updated(4)] ok by (cases "w' = w") auto
  qed
  with MarkExhausted run show ?thesis by simp
qed

lemma deliveries_ok_run:
  "1 \<le> ds_max_attempts S \<Longrightarrow> deliveries_ok S w \<Longrightarrow> deliveries_ok S (run_all (run_delivery S) cs w)"
  by (induction cs arbitrary: w) (simp_all add: run_delivery_ok)

lemma deliveries_ok_empty: "deliveries_ok S empty_world"
  by (simp add: deliveries_ok_def empty_world_def empty_db_def)

text \<open>A row that left the pending state is not touched by any call.\<close>

lemma run_delivery_final:
  assumes r: "find_delivery n i (w_db w) = Some r" and s: "pd_status r \<noteq> ''pending''"
  shows "find_delivery n i (w_db (snd (run_delivery S c w))) = Some r"
proof (cases c)
  case (OpenDelivery m j cid e t)
  obtain z w' where run: "open_pending_delivery S m j cid e t w = (z, w')" by fastforce
  have "find_delivery n i (w_db w') = Some r"
  proof (cases "next_retry_at t 1 (ds_backoff S) e")
    case (Inl x)
    with run r show ?thesis by (simp add: open_pending_delivery_def bindp_def lift_run)
  next
    case (Inr a)
    let ?r = "\<lparr>pd_recipient_node_id = m, pd_notification_id = j, pd_correction_id = cid,
      pd_status = ''pending'', pd_attempt_count = 1, pd_opened_at = t, pd_last_attempted_at = t,
      pd_next_retry_at = Some a, pd_notification_expires_at = e, pd_resolved_at = None,
      pd_exhausted_reason = None\<rparr>"
    have run': "tx (insert_on_conflict_do_nothing delivery_row_ok delivery_key pending_deliveries_tbl
       (\<lambda>rs d. d\<lparr>pending_deliveries_tbl := rs\<rparr>) ?r) w = (z, w')"
      using run Inr by (simp add: open_pending_delivery_def bindp_def lift_run)
    have "find (\<lambda>s. delivery_key s = (n, i)) (pending_deliveries_tbl (w_db w)) = Some r"
      using r by (simp add: find_delivery_key)
    from deliveries.first_row_stays [OF this, of "[?r]"] run' show ?thesis by (simp add: find_delivery_key)
  qed
  with OpenDelivery run show ?thesis by simp
next
  case (RetryDelivery m j q t)
  obtain z w' where run: "record_retry_attempt S m j q t w = (z, w')" by fastforce
  have "find_delivery n i (w_db w') = Some r"
    using run
  proof (cases rule: record_retry_attempt_cases)
    case (error x)
    with r show ?thesis by simp
  next
    case (updated r2 f)
    have "(n, i) \<noteq> (m, j)"
    proof
      assume "(n, i) = (m, j)"
      with r updated have "attempt_update S r q t = Inr f" by simp
      with s show False using attempt_needs_pending by blast
    qed
    note ne = this
    obtain w2 where u: "update_delivery m j f w = (Inr (f r2), w2)"
      and o: "\<forall>a b. (a, b) \<noteq> (m, j) \<longrightarrow> find_delivery a b (w_db w2) = find_delivery a b (w_db w)"
      by (rule update_delivery_run [OF attempt_update_keeps_key [OF updated(2)] updated(1,4)])
    have "w' = w2" using u updated(5) by simp
    from o ne have "find_delivery n i (w_db w2) = find_delivery n i (w_db w)" by simp
    with r \<open>w' = w2\<close> show ?thesis by simp
  qed
  with RetryDelivery run show ?thesis by simp
next
  case (MarkExhausted m j reason t)
  obtain z w' where run: "mark_exhausted m j reason t w = (z, w')" by fastforce
  have "find_delivery n i (w_db w') = Some r"
    using run
  proof (cases rule: mark_exhausted_cases)
    case (error x)
    with r show ?thesis by simp
  next
    case (updated r2)
    let ?f = "\<lambda>r. r\<lparr>pd_status := ''exhausted'', pd_resolved_at := Some t, pd_next_retry_at := None,
       pd_exhausted_reason := Some reason\<rparr>"
    have ne: "(n, i) \<noteq> (m, j)" using r s updated(1,2) by auto
    have k: "keeps_key ?f" by (simp add: keeps_key_def delivery_key_def)
    show ?thesis
    proof (cases "delivery_row_ok (?f r2)")
      case True
      obtain w2 where u: "update_delivery m j ?f w = (Inr (?f r2), w2)"
        and o: "\<forall>a b. (a, b) \<noteq> (m, j) \<longrightarrow> find_delivery a b (w_db w2) = find_delivery a b (w_db w)"
        by (rule update_delivery_run [OF k updated(1) True])
      have "w' = w2" using u updated(4) by simp
      from o ne have "find_delivery n i (w_db w2) = find_delivery n i (w_db w)" by simp
    with r \<open>w' = w2\<close> show ?thesis by simp
    next
      case False
      with updated(1,4) have "w' = w" by (auto simp: update_delivery_def bindp_def asks_run guardp_run)
      with r show ?thesis by simp
    qed
  qed
  with MarkExhausted run show ?thesis by simp
qed

lemma run_deliveries_final:
  "find_delivery n i (w_db w) = Some r \<Longrightarrow> pd_status r \<noteq> ''pending'' \<Longrightarrow>
     find_delivery n i (w_db (run_all (run_delivery S) cs w)) = Some r"
  by (induction cs arbitrary: w) (simp_all add: run_delivery_final)

text \<open>One failed retry of a pending row.\<close>

lemma failed_retry_run:
  assumes S: "1 \<le> ds_max_attempts S" "\<And>n. 0 \<le> ds_backoff S n"
    and r: "find_delivery n i (w_db w) = Some r" "pd_status r = ''pending''"
    and c: "1 \<le> pd_attempt_count r" "pd_attempt_count r + 1 < 2 ^ 31"
  obtains r' where "find_delivery n i (w_db (snd (record_retry_attempt S n i ''failed'' at w))) = Some r'"
    and "pd_attempt_count r' = pd_attempt_count r + 1"
    and "pd_status r' = ''exhausted'' \<or> pd_status r' = ''pending'' \<and> pd_attempt_count r' < ds_max_attempts S"
proof -
  let ?n = "pd_attempt_count r + 1"
  have can: "assert_transition DELIVERY_RETRY_LIFECYCLE ''pending'' ''exhausted'' = Inr ()"
    by (simp only: retry_moves) simp
  obtain f where f: "attempt_update S r ''failed'' at = Inr f" and ok: "delivery_row_ok (f r)"
    and fr: "pd_attempt_count (f r) = ?n"
      "pd_status (f r) = ''exhausted'' \<or> pd_status (f r) = ''pending'' \<and> ?n < ds_max_attempts S"
  proof (cases "ds_max_attempts S \<le> ?n \<or> pd_notification_expires_at r \<le> at")
    case True
    with S c have b: "is_retry_exhausted ?n (ds_max_attempts S) (pd_notification_expires_at r) at = Inr True"
      by (simp add: is_retry_exhausted_def)
    have "attempt_update S r ''failed'' at = Inr (\<lambda>s. s\<lparr>pd_attempt_count := ?n, pd_last_attempted_at := at,
        pd_next_retry_at := None, pd_resolved_at := Some at, pd_status := ''exhausted'', pd_exhausted_reason :=
        Some (delivery_exhaustion_reason ?n (ds_max_attempts S) (pd_notification_expires_at r) at)\<rparr>)"
      using b can r(2) by (simp add: attempt_update_def Let_def del: assert_transition_Inr)
    then show thesis by (rule that) (use c in \<open>simp_all add: delivery_row_ok_def DELIVERY_RECORD_STATUSES_def\<close>)
  next
    case False
    with S c have b: "is_retry_exhausted ?n (ds_max_attempts S) (pd_notification_expires_at r) at = Inr False"
      by (simp add: is_retry_exhausted_def)
    obtain t where t: "next_retry_at at ?n (ds_backoff S) (pd_notification_expires_at r) = Inr t"
      using S(2) [of ?n] c by (simp add: next_retry_at_def)
    have "attempt_update S r ''failed'' at = Inr (\<lambda>s. s\<lparr>pd_attempt_count := ?n, pd_last_attempted_at := at,
        pd_next_retry_at := Some t\<rparr>)"
      using b t r(2) by (simp add: attempt_update_def Let_def)
    then show thesis
      by (rule that) (use c r False in \<open>simp_all add: delivery_row_ok_def DELIVERY_RECORD_STATUSES_def\<close>)
  qed
  obtain w' where u: "update_delivery n i f w = (Inr (f r), w')" and u': "find_delivery n i (w_db w') = Some (f r)"
    by (rule update_delivery_run [OF attempt_update_keeps_key [OF f] r(1) ok])
  have "record_retry_attempt S n i ''failed'' at w = (Inr (f r), w')"
    using r f u by (simp add: record_retry_attempt_def tx_def bindp_def locked_row_run lift_run)
  with u' fr that show thesis by simp
qed

section \<open>Properties\<close>

text \<open>
  A message id is processed at most once: of any calls of \<^verbatim>\<open>record_processed\<close>, in any
  order and for any nodes, those for one node and id tell "first" exactly once if the id was
  not there before and some call for it was accepted, and never otherwise; so the calls of two
  concurrent consumers cannot both win.
\<close>

definition record_processed_row :: "processed_row \<Rightarrow> (world, bool) prog" where
  "record_processed_row r =
     record_processed (pr_id r) (pr_id_kind r) (pr_recipient_node_id r) (pr_expires_at r) (pr_processed_at r)"

lemma record_processed_row_core: "record_processed_row = (\<lambda>r. tx (record_processed_core r))"
proof
  show "record_processed_row r = tx (record_processed_core r)" for r
    by (cases r) (simp add: record_processed_row_def record_processed_def)
qed

lemma processed_at_most_once:
  "wins record_processed_row processed_key (node, i) calls w =
     (if fst (already_processed node i w) = Inr False \<and>
         fst (already_processed node i (run_all record_processed_row calls w)) = Inr True
      then 1 else 0)"
proof -
  have a: "fst (already_processed node i w) = Inr b \<longleftrightarrow>
      b = ((node, i) \<in> processed_key ` set (processed_ids_tbl (w_db w)))" for w :: world and b
    by (auto simp: already_processed_def is_processed_def asks_run processed_key_def image_iff)
  show ?thesis
    unfolding a record_processed_row_core processed.wins_exact by simp
qed

text \<open>
  A revocation cannot be moved: once \<^verbatim>\<open>get_revocation\<close> gives a record for a key, it gives
  the same record after any further calls of \<^verbatim>\<open>record_revocation\<close>, whatever instants and
  reasons they carry.
\<close>

definition record_revocation_row :: "revocation_record \<Rightarrow> (world, bool) prog" where
  "record_revocation_row r = record_revocation (rv_kid r) (rv_practice_id r) (rv_revoked_at r) (rv_reason r)"

lemma revocation_is_permanent:
  assumes "fst (get_revocation kid w) = Inr (Some r)"
  shows "fst (get_revocation kid (run_all record_revocation_row calls w)) = Inr (Some r)"
proof -
  have core: "record_revocation_row = (\<lambda>r. tx (record_revocation_core r))"
  proof
    show "record_revocation_row r = tx (record_revocation_core r)" for r
      by (cases r) (simp add: record_revocation_row_def record_revocation_def)
  qed
  have g: "fst (get_revocation kid w) = Inr (Some r) \<longleftrightarrow>
      find (\<lambda>s. rv_kid s = kid) (key_revocations_tbl (w_db w)) = Some r \<and> new_revocation_record r = Inr r"
    for w :: world
    by (auto simp: get_revocation_def bindp_def asks_run lift_run ret_run new_revocation_record_def
        split: option.splits)
  show ?thesis
    using assms unfolding g core by (blast intro: revocations.first_row_stays)
qed

lemma revocation_is_permanent_witness:
  "fst (get_revocation ''kid:a'' (run_all record_revocation_row
      [\<lparr>rv_kid = ''kid:a'', rv_practice_id = ''p'', rv_revoked_at = 9, rv_reason = None\<rparr>]
      (snd (record_revocation ''kid:a'' ''p'' 5 None empty_world)))) =
    Inr (Some \<lparr>rv_kid = ''kid:a'', rv_practice_id = ''p'', rv_revoked_at = 5, rv_reason = None\<rparr>)"
proof (rule revocation_is_permanent)
  show "fst (get_revocation ''kid:a'' (snd (record_revocation ''kid:a'' ''p'' 5 None empty_world))) =
    Inr (Some \<lparr>rv_kid = ''kid:a'', rv_practice_id = ''p'', rv_revoked_at = 5, rv_reason = None\<rparr>)"
    by (simp add: record_revocation_def record_revocation_core_def insert_on_conflict_do_nothing_def tx_def
        empty_world_def empty_db_def get_revocation_def bindp_def asks_run lift_run ret_run
        new_revocation_record_def)
qed

text \<open>
  Deliveries are in order in every state of the store: whatever calls are made on a store
  that its constructor accepted, every row has a status of the retry machine; a pending row has
  a next retry no later than the notification's expiry and an attempt count below the bound (or
  is on its first attempt); a delivered or exhausted row has its resolution instant and no next
  retry, and an exhausted row a reason; no two rows share a key; and a row that is not pending
  is never changed by any further call.
\<close>

lemma deliveries_in_order:
  assumes "new_delivery_store max_attempts backoff = Inr S"
  shows "deliveries_ok S (run_all (run_delivery S) calls empty_world) \<and>
    (\<forall>n i r more. find_delivery n i (w_db (run_all (run_delivery S) calls empty_world)) = Some r \<and>
       pd_status r \<noteq> ''pending'' \<longrightarrow>
       find_delivery n i (w_db (run_all (run_delivery S) more (run_all (run_delivery S) calls empty_world))) = Some r)"
proof -
  have "1 \<le> ds_max_attempts S" using assms by (auto simp: new_delivery_store_def split: if_splits)
  from deliveries_ok_run [OF this deliveries_ok_empty] run_deliveries_final show ?thesis by blast
qed

lemma deliveries_in_order_witness:
  "deliveries_ok \<lparr>ds_max_attempts = 2, ds_backoff = (\<lambda>n. n)\<rparr>
     (run_all (run_delivery \<lparr>ds_max_attempts = 2, ds_backoff = (\<lambda>n. n)\<rparr>)
        [OpenDelivery ''n'' ''i'' ''c'' 100 10, RetryDelivery ''n'' ''i'' ''failed'' 20] empty_world)"
proof -
  have "new_delivery_store 2 (\<lambda>n. n) = Inr \<lparr>ds_max_attempts = 2, ds_backoff = (\<lambda>n. n)\<rparr>"
    by (simp add: new_delivery_store_def)
  from deliveries_in_order [OF this] show ?thesis by blast
qed

text \<open>
  Retrying ends: for a store with a bound that fits the column and a backoff that is never
  negative, a pending row that fails as often as the bound allows is exhausted, whatever the
  instants of the attempts.
\<close>

lemma failed_retries_end:
  assumes "1 \<le> ds_max_attempts S" "ds_max_attempts S < 2 ^ 31" and "\<And>n. 0 \<le> ds_backoff S n"
    and "find_delivery n i (w_db w) = Some r" "pd_status r = ''pending''"
    and "1 \<le> pd_attempt_count r" "pd_attempt_count r + 1 < 2 ^ 31"
    and "ats \<noteq> []" "ds_max_attempts S - pd_attempt_count r \<le> int (length ats)"
  shows "\<exists>r'. find_delivery n i (w_db (run_all (\<lambda>at. record_retry_attempt S n i ''failed'' at) ats w)) = Some r' \<and>
    pd_status r' = ''exhausted''"
  using assms(4-)
proof (induction ats arbitrary: w r)
  case (Cons at ats)
  let ?f = "\<lambda>at. record_retry_attempt S n i ''failed'' at" and ?w = "snd (record_retry_attempt S n i ''failed'' at w)"
  obtain r' where r': "find_delivery n i (w_db ?w) = Some r'" "pd_attempt_count r' = pd_attempt_count r + 1"
    and st: "pd_status r' = ''exhausted'' \<or> pd_status r' = ''pending'' \<and> pd_attempt_count r' < ds_max_attempts S"
    using failed_retry_run [OF assms(1,3) Cons.prems(1-4)] .
  from st show ?case
  proof (elim disjE conjE)
    assume ex: "pd_status r' = ''exhausted''"
    have same: "run_all ?f ats v = run_all (run_delivery S) (map (RetryDelivery n i ''failed'') ats) v" for v
      by (induction ats arbitrary: v) simp_all
    from ex run_deliveries_final [OF r'(1)] show ?thesis by (simp add: same)
  next
    assume p: "pd_status r' = ''pending''" and b: "pd_attempt_count r' < ds_max_attempts S"
    have "ats \<noteq> []" using Cons.prems(6) r'(2) b by auto
    with Cons.IH [OF r'(1) p] Cons.prems r'(2) b assms(2) show ?thesis by simp
  qed
qed simp

lemma failed_retries_end_witness:
  "\<exists>r'. find_delivery ''n'' ''i'' (w_db (run_all
      (\<lambda>at. record_retry_attempt \<lparr>ds_max_attempts = 3, ds_backoff = (\<lambda>n. 5)\<rparr> ''n'' ''i'' ''failed'' at) [20, 30]
      (snd (open_pending_delivery \<lparr>ds_max_attempts = 3, ds_backoff = (\<lambda>n. 5)\<rparr> ''n'' ''i'' ''c'' 100 10 empty_world)))) =
    Some r' \<and> pd_status r' = ''exhausted''"
proof -
  let ?S = "\<lparr>ds_max_attempts = 3, ds_backoff = (\<lambda>n. 5)\<rparr>"
  let ?r = "\<lparr>pd_recipient_node_id = ''n'', pd_notification_id = ''i'', pd_correction_id = ''c'',
      pd_status = ''pending'', pd_attempt_count = 1, pd_opened_at = 10, pd_last_attempted_at = 10,
      pd_next_retry_at = Some 15, pd_notification_expires_at = 100, pd_resolved_at = None,
      pd_exhausted_reason = None\<rparr>"
  have "find_delivery ''n'' ''i'' (w_db (snd (open_pending_delivery ?S ''n'' ''i'' ''c'' 100 10 empty_world))) = Some ?r"
    by (simp add: open_pending_delivery_def next_retry_at_def bindp_def lift_run tx_def
        insert_on_conflict_do_nothing_def delivery_row_ok_def DELIVERY_RECORD_STATUSES_def
        empty_world_def empty_db_def find_delivery_def)
  from failed_retries_end [OF _ _ _ this, where ats = "[20, 30]"] show ?thesis by simp
qed

end
