(* ===== verification/Key_Ring.thy ===== *)
theory Key_Ring
  imports Database
begin

text \<open>
  Keys and trust: \<^verbatim>\<open>packages/domain/mrr/domain/key_management.py\<close> (descriptors, rings, rotation
  and revocation), \<^verbatim>\<open>trust_resolution.py\<close> (whose key verifies a signed object) and its six
  users \<^verbatim>\<open>manifest_trust.py\<close>, \<^verbatim>\<open>task_trust.py\<close>, \<^verbatim>\<open>crate_trust.py\<close>, \<^verbatim>\<open>transfer_trust.py\<close>
  and \<^verbatim>\<open>correction_notification.py\<close>.
\<close>

section \<open>Descriptors and rings\<close>

record key_descriptor =
  kd_kid :: string
  kd_algorithm :: string
  kd_encoded_public_key :: string
  kd_valid_from :: instant
  kd_valid_until :: instant
  kd_state :: string

text \<open>\<^verbatim>\<open>PublicKeyDescriptor.__post_init__\<close>; an instant of the model is always aware.\<close>

definition make_descriptor :: "env \<Rightarrow> key_descriptor \<Rightarrow> key_descriptor outcome" where
  "make_descriptor E d =
     (if kd_algorithm d \<notin> set supported_algorithms then Inl ValueError
      else case decode_public_key E (kd_encoded_public_key d) of
             Inl _ \<Rightarrow> Inl ValueError
           | Inr pk \<Rightarrow>
               (if kd_kid d \<noteq> derive_key_id pk then Inl ValueError
                else if \<not> kd_valid_from d < kd_valid_until d then Inl ValueError
                else Inr d))"

definition new_descriptor ::
  "env \<Rightarrow> public_key \<Rightarrow> instant \<Rightarrow> instant \<Rightarrow> string \<Rightarrow> string \<Rightarrow> key_descriptor outcome" where
  "new_descriptor E public_key valid_from valid_until state algorithm =
     make_descriptor E \<lparr>kd_kid = derive_key_id public_key, kd_algorithm = algorithm,
       kd_encoded_public_key = encode_public_key public_key, kd_valid_from = valid_from,
       kd_valid_until = valid_until, kd_state = state\<rparr>"

text \<open>A ring is a dictionary from key ids to descriptors.\<close>

type_synonym key_ring = "(string \<times> key_descriptor) list"

definition new_key_ring :: "key_ring \<Rightarrow> key_ring outcome" where
  "new_key_ring ds = (if \<forall>(kid, d) \<in> set ds. kd_kid d = kid then Inr ds else Inl ValueError)"

definition ring_get :: "key_ring \<Rightarrow> string \<Rightarrow> key_descriptor option" where
  "ring_get ring kid = map_of ring kid"

definition ring_is_valid_at :: "key_ring \<Rightarrow> instant \<Rightarrow> string \<Rightarrow> bool" where
  "ring_is_valid_at ring at kid =
     (case map_of ring kid of
        None \<Rightarrow> False
      | Some d \<Rightarrow> if kd_state d \<noteq> ''active'' then False
                  else kd_valid_from d \<le> at \<and> at < kd_valid_until d)"

definition with_descriptor :: "key_ring \<Rightarrow> key_descriptor \<Rightarrow> key_ring outcome" where
  "with_descriptor ring d = new_key_ring (AList.update (kd_kid d) d ring)"

definition set_state :: "env \<Rightarrow> key_descriptor \<Rightarrow> string \<Rightarrow> key_descriptor outcome" where
  "set_state E d state = make_descriptor E (d\<lparr>kd_state := state\<rparr>)"

definition rotate_key ::
  "env \<Rightarrow> key_ring \<Rightarrow> string \<Rightarrow> public_key \<Rightarrow> instant \<Rightarrow> instant \<Rightarrow> string \<Rightarrow> key_ring outcome" where
  "rotate_key E ring prior_kid successor valid_from valid_until algorithm =
     (case ring_get ring prior_kid of
        None \<Rightarrow> Inl (UnknownKeyIdError prior_kid)
      | Some prior \<Rightarrow>
          (case new_descriptor E successor valid_from valid_until ''active'' algorithm of
             Inl e \<Rightarrow> Inl e
           | Inr new \<Rightarrow>
               (case set_state E prior ''rotated'' of
                  Inl e \<Rightarrow> Inl e
                | Inr rotated \<Rightarrow>
                    (case with_descriptor ring rotated of
                       Inl e \<Rightarrow> Inl e
                     | Inr ring1 \<Rightarrow> with_descriptor ring1 new))))"

definition revoke_key :: "env \<Rightarrow> key_ring \<Rightarrow> string \<Rightarrow> key_ring outcome" where
  "revoke_key E ring kid =
     (case ring_get ring kid of
        None \<Rightarrow> Inl (UnknownKeyIdError kid)
      | Some d \<Rightarrow>
          (case set_state E d ''revoked'' of
             Inl e \<Rightarrow> Inl e
           | Inr revoked \<Rightarrow> with_descriptor ring revoked))"

section \<open>Whose key verifies a signed object\<close>

text \<open>
  A signed object: the fields of its signature, and its
  \<^verbatim>\<open>json.loads(obj.model_dump_json(exclude_none=True))\<close>.
\<close>

record signed_object =
  sg_signer_practice_id :: urn
  sg_key_id :: string
  sg_algorithm :: string
  sg_value :: string
  sg_dump :: dict

definition instant_or_now :: "env \<Rightarrow> instant option \<Rightarrow> (world, instant) prog" where
  "instant_or_now E at = (case at of Some t \<Rightarrow> ret t | None \<Rightarrow> now E)"

definition resolve_trusted_signer_key ::
  "env \<Rightarrow> 'a signed_object_scheme \<Rightarrow> string \<Rightarrow> key_ring \<Rightarrow> instant option \<Rightarrow>
   (string \<Rightarrow> string \<Rightarrow> exn) \<Rightarrow> (string \<Rightarrow> instant \<Rightarrow> exn) \<Rightarrow> (world, public_key) prog" where
  "resolve_trusted_signer_key E obj trusted_practice_id ring at signer_mismatch_error key_not_valid_error =
     bindp (guardp (sg_signer_practice_id obj = trusted_practice_id)
       (signer_mismatch_error (sg_signer_practice_id obj) trusted_practice_id)) (\<lambda>_.
     bindp (lift (case ring_get ring (sg_key_id obj) of
         None \<Rightarrow> Inl (UnknownKeyIdError (sg_key_id obj)) | Some d \<Rightarrow> Inr d)) (\<lambda>descriptor.
     bindp (instant_or_now E at) (\<lambda>t.
     bindp (guardp (ring_is_valid_at ring t (sg_key_id obj)) (key_not_valid_error (sg_key_id obj) t)) (\<lambda>_.
     lift (decode_public_key E (kd_encoded_public_key descriptor))))))"

definition verify_trusted_signature ::
  "env \<Rightarrow> 'a signed_object_scheme \<Rightarrow> public_key \<Rightarrow> (world, unit) prog" where
  "verify_trusted_signature E obj verifying_key =
     lift (verify_object_signature E verifying_key (sg_dump obj) (sg_value obj) (sg_algorithm obj))"

text \<open>The wrappers differ in the errors they raise; the model tags the errors by the kind of object.\<close>

definition resolve_trusted_task_key ::
  "env \<Rightarrow> signed_object \<Rightarrow> string \<Rightarrow> key_ring \<Rightarrow> instant option \<Rightarrow> (world, public_key) prog" where
  "resolve_trusted_task_key E bundle trusted ring at =
     bindp (resolve_trusted_signer_key E bundle trusted ring at
       (SignerMismatchError ''Task'') (KeyNotValidError ''Task'')) (\<lambda>verifying_key.
     bindp (verify_trusted_signature E bundle verifying_key) (\<lambda>_.
     ret verifying_key))"

definition resolve_trusted_crate_key ::
  "env \<Rightarrow> signed_object \<Rightarrow> string \<Rightarrow> key_ring \<Rightarrow> instant option \<Rightarrow> (world, public_key) prog" where
  "resolve_trusted_crate_key E crate trusted ring at =
     bindp (resolve_trusted_signer_key E crate trusted ring at
       (SignerMismatchError ''Crate'') (KeyNotValidError ''Crate'')) (\<lambda>verifying_key.
     bindp (verify_trusted_signature E crate verifying_key) (\<lambda>_.
     ret verifying_key))"

definition resolve_trusted_transfer_key ::
  "env \<Rightarrow> signed_object \<Rightarrow> string \<Rightarrow> key_ring \<Rightarrow> instant option \<Rightarrow> (world, public_key) prog" where
  "resolve_trusted_transfer_key E contract trusted ring at =
     bindp (resolve_trusted_signer_key E contract trusted ring at
       (SignerMismatchError ''Transfer'') (KeyNotValidError ''Transfer'')) (\<lambda>verifying_key.
     bindp (verify_trusted_signature E contract verifying_key) (\<lambda>_.
     ret verifying_key))"

definition resolve_trusted_correction_notification_key ::
  "env \<Rightarrow> signed_object \<Rightarrow> string \<Rightarrow> key_ring \<Rightarrow> instant option \<Rightarrow> (world, public_key) prog" where
  "resolve_trusted_correction_notification_key E notification trusted ring at =
     bindp (resolve_trusted_signer_key E notification trusted ring at
       (SignerMismatchError ''CorrectionNotification'') (KeyNotValidError ''CorrectionNotification''))
       (\<lambda>verifying_key.
     bindp (verify_trusted_signature E notification verifying_key) (\<lambda>_.
     ret verifying_key))"

text \<open>\<^verbatim>\<open>practice_key_ring\<close>: a comprehension, so a later key with the same id replaces an earlier.\<close>

fun practice_descriptors :: "env \<Rightarrow> key_descriptor list \<Rightarrow> key_ring \<Rightarrow> key_ring outcome" where
  "practice_descriptors E [] ds = Inr ds"
| "practice_descriptors E (key # keys) ds =
     (case make_descriptor E key of
        Inl e \<Rightarrow> Inl e
      | Inr d \<Rightarrow> practice_descriptors E keys (AList.update (kd_kid key) d ds))"

definition practice_key_ring :: "env \<Rightarrow> key_descriptor list \<Rightarrow> key_ring outcome" where
  "practice_key_ring E keys =
     (case practice_descriptors E keys [] of Inl e \<Rightarrow> Inl e | Inr ds \<Rightarrow> new_key_ring ds)"

text \<open>A node manifest also declares public keys, and the resolved key must be one of them.\<close>

record node_manifest = signed_object +
  nm_public_keys :: "string list"

fun key_declared :: "env \<Rightarrow> public_key \<Rightarrow> string list \<Rightarrow> bool" where
  "key_declared E pk [] = False"
| "key_declared E pk (candidate # rest) =
     (case decode_public_key E candidate of
        Inl _ \<Rightarrow> key_declared E pk rest
      | Inr raw \<Rightarrow> if raw = pk then True else key_declared E pk rest)"

definition resolve_trusted_manifest_key ::
  "env \<Rightarrow> node_manifest \<Rightarrow> string \<Rightarrow> key_ring \<Rightarrow> instant option \<Rightarrow> (world, public_key) prog" where
  "resolve_trusted_manifest_key E manifest trusted ring at =
     bindp (resolve_trusted_signer_key E manifest trusted ring at
       (SignerMismatchError ''Manifest'') (KeyNotValidError ''Manifest'')) (\<lambda>verifying_key.
     bindp (guardp (key_declared E verifying_key (nm_public_keys manifest))
       (ManifestKeyNotDeclaredError (sg_key_id manifest))) (\<lambda>_.
     bindp (verify_trusted_signature E manifest verifying_key) (\<lambda>_.
     ret verifying_key)))"

section \<open>Rings in order\<close>

definition descriptor_ok :: "env \<Rightarrow> key_descriptor \<Rightarrow> bool" where
  "descriptor_ok E d \<longleftrightarrow> make_descriptor E d = Inr d"

definition ring_ok :: "env \<Rightarrow> key_ring \<Rightarrow> bool" where
  "ring_ok E ring \<longleftrightarrow> (\<forall>(kid, d) \<in> set ring. kd_kid d = kid \<and> descriptor_ok E d)"

lemma make_descriptor_Inr:
  "make_descriptor E d = Inr x \<longleftrightarrow>
     x = d \<and> kd_algorithm d = ''Ed25519'' \<and> kd_valid_from d < kd_valid_until d \<and>
     (\<exists>pk. decode_public_key E (kd_encoded_public_key d) = Inr pk \<and> kd_kid d = derive_key_id pk)"
  by (auto simp: make_descriptor_def supported_algorithms_def split: sum.splits)

lemma descriptor_okI: "make_descriptor E d = Inr x \<Longrightarrow> x = d \<and> descriptor_ok E d"
  by (simp add: descriptor_ok_def make_descriptor_Inr)

lemma set_state_ok: "descriptor_ok E d \<Longrightarrow> set_state E d s = Inr (d\<lparr>kd_state := s\<rparr>) \<and> descriptor_ok E (d\<lparr>kd_state := s\<rparr>)"
  by (auto simp: set_state_def descriptor_ok_def make_descriptor_Inr)

lemma ring_ok_get: "ring_ok E ring \<Longrightarrow> ring_get ring kid = Some d \<Longrightarrow> kd_kid d = kid \<and> descriptor_ok E d"
  unfolding ring_ok_def ring_get_def by (blast dest: map_of_SomeD)

lemma update_subset: "set (AList.update k v xs) \<subseteq> insert (k, v) (set xs)"
  by (induction xs) auto

lemma with_descriptor_ok:
  assumes "ring_ok E ring" and "descriptor_ok E d"
  shows "with_descriptor ring d = Inr (AList.update (kd_kid d) d ring) \<and> ring_ok E (AList.update (kd_kid d) d ring)"
proof -
  have "ring_ok E (AList.update (kd_kid d) d ring)"
    using assms update_subset [of "kd_kid d" d ring] unfolding ring_ok_def by blast
  then show ?thesis by (auto simp: with_descriptor_def new_key_ring_def ring_ok_def)
qed

lemma ring_get_update [simp]:
  "ring_get (AList.update k d ring) j = (if j = k then Some d else ring_get ring j)"
  by (simp add: ring_get_def update_conv')

lemma ring_valid_iff:
  "ring_is_valid_at ring t kid \<longleftrightarrow>
     (\<exists>d. ring_get ring kid = Some d \<and> kd_state d = ''active'' \<and> kd_valid_from d \<le> t \<and> t < kd_valid_until d)"
  by (auto simp: ring_is_valid_at_def ring_get_def split: option.splits)

text \<open>Rotation and revocation on a ring in order.\<close>

lemma rotate_key_Inr:
  assumes ok: "ring_ok E ring" and run: "rotate_key E ring prior pk vf vu alg = Inr ring'"
  obtains d new where "ring_get ring prior = Some d" and "new_descriptor E pk vf vu ''active'' alg = Inr new"
    and "ring' = AList.update (kd_kid new) new (AList.update prior (d\<lparr>kd_state := ''rotated''\<rparr>) ring)"
    and "ring_ok E ring'" and "kd_kid new = derive_key_id pk"
proof -
  obtain d new where d: "ring_get ring prior = Some d" and n: "new_descriptor E pk vf vu ''active'' alg = Inr new"
    using run by (auto simp: rotate_key_def split: option.splits sum.splits)
  have dk: "kd_kid d = prior" "descriptor_ok E d" using ring_ok_get [OF ok d] by auto
  note s = set_state_ok [OF dk(2), of "''rotated''"]
  have nk: "kd_kid new = derive_key_id pk" "descriptor_ok E new"
    using n descriptor_okI unfolding new_descriptor_def by (auto simp: make_descriptor_Inr)
  note w1 = with_descriptor_ok [OF ok conjunct2 [OF s]]
  note w2 = with_descriptor_ok [OF conjunct2 [OF w1] nk(2)]
  have "ring' = AList.update (kd_kid new) new (AList.update prior (d\<lparr>kd_state := ''rotated''\<rparr>) ring)"
    using run d n s w1 w2 dk(1) by (simp add: rotate_key_def)
  with that d n w2 nk(1) dk(1) show thesis by simp
qed

lemma revoke_key_Inr:
  assumes ok: "ring_ok E ring" and run: "revoke_key E ring kid = Inr ring'"
  obtains d where "ring_get ring kid = Some d" and "ring' = AList.update kid (d\<lparr>kd_state := ''revoked''\<rparr>) ring"
    and "ring_ok E ring'"
proof -
  obtain d where d: "ring_get ring kid = Some d"
    using run by (auto simp: revoke_key_def split: option.splits)
  have dk: "kd_kid d = kid" "descriptor_ok E d" using ring_ok_get [OF ok d] by auto
  note s = set_state_ok [OF dk(2), of "''revoked''"]
  note w1 = with_descriptor_ok [OF ok conjunct2 [OF s]]
  have "ring' = AList.update kid (d\<lparr>kd_state := ''revoked''\<rparr>) ring"
    using run d s w1 dk(1) by (simp add: revoke_key_def)
  with that d w1 dk(1) show thesis by simp
qed

text \<open>Any sequence of rotations and revocations; a call that raises leaves the ring.\<close>

datatype key_op = Rotate string public_key instant instant string | Revoke string

fun run_key_op :: "env \<Rightarrow> key_op \<Rightarrow> key_ring \<Rightarrow> key_ring" where
  "run_key_op E (Rotate prior pk vf vu alg) ring =
     (case rotate_key E ring prior pk vf vu alg of Inl _ \<Rightarrow> ring | Inr ring' \<Rightarrow> ring')"
| "run_key_op E (Revoke kid) ring = (case revoke_key E ring kid of Inl _ \<Rightarrow> ring | Inr ring' \<Rightarrow> ring')"

definition run_key_ops :: "env \<Rightarrow> key_op list \<Rightarrow> key_ring \<Rightarrow> key_ring" where
  "run_key_ops E ops ring = fold (run_key_op E) ops ring"

text \<open>The rotations that bring in a key.\<close>

definition brings_in :: "key_op \<Rightarrow> string \<Rightarrow> bool" where
  "brings_in p kid \<longleftrightarrow> (case p of Rotate prior pk vf vu alg \<Rightarrow> derive_key_id pk = kid | Revoke _ \<Rightarrow> False)"

definition retired :: "key_ring \<Rightarrow> string \<Rightarrow> bool" where
  "retired ring kid \<longleftrightarrow> (case ring_get ring kid of None \<Rightarrow> True | Some d \<Rightarrow> kd_state d \<noteq> ''active'')"

lemma run_key_op_step:
  assumes ok: "ring_ok E ring"
  shows "ring_ok E (run_key_op E p ring) \<and>
    (retired ring kid \<longrightarrow> \<not> brings_in p kid \<longrightarrow> retired (run_key_op E p ring) kid)"
proof (cases p)
  case (Rotate prior pk vf vu alg)
  show ?thesis
  proof (cases "rotate_key E ring prior pk vf vu alg")
    case (Inl e)
    with ok Rotate show ?thesis by simp
  next
    case (Inr ring')
    obtain d new where "ring' = AList.update (kd_kid new) new (AList.update prior (d\<lparr>kd_state := ''rotated''\<rparr>) ring)"
      and "ring_ok E ring'" and "kd_kid new = derive_key_id pk"
      by (rule rotate_key_Inr [OF ok Inr])
    with Rotate Inr show ?thesis by (simp add: brings_in_def retired_def)
  qed
next
  case (Revoke j)
  show ?thesis
  proof (cases "revoke_key E ring j")
    case (Inl e)
    with ok Revoke show ?thesis by simp
  next
    case (Inr ring')
    obtain d where "ring' = AList.update j (d\<lparr>kd_state := ''revoked''\<rparr>) ring" and "ring_ok E ring'"
      by (rule revoke_key_Inr [OF ok Inr])
    with Revoke Inr show ?thesis by (simp add: brings_in_def retired_def)
  qed
qed

lemma run_key_ops_ok: "ring_ok E ring \<Longrightarrow> ring_ok E (run_key_ops E ops ring)"
  unfolding run_key_ops_def
proof (induction ops arbitrary: ring)
  case (Cons p ops)
  from run_key_op_step [OF Cons.prems, of p] have "ring_ok E (run_key_op E p ring)" by blast
  from Cons.IH [OF this] show ?case by simp
qed simp

lemma run_key_ops_retired:
  "ring_ok E ring \<Longrightarrow> retired ring kid \<Longrightarrow> \<forall>p \<in> set ops. \<not> brings_in p kid \<Longrightarrow>
     retired (run_key_ops E ops ring) kid"
  unfolding run_key_ops_def
proof (induction ops arbitrary: ring)
  case (Cons p ops)
  have "ring_ok E (run_key_op E p ring)" "retired (run_key_op E p ring) kid"
    using run_key_op_step [OF Cons.prems(1), of p kid] Cons.prems(2,3) by auto
  from Cons.IH [OF this] Cons.prems(3) show ?case by simp
qed simp

section \<open>What a resolved key guarantees\<close>

definition instant_of :: "env \<Rightarrow> instant option \<Rightarrow> world \<Rightarrow> instant" where
  "instant_of E at w = (case at of Some t \<Rightarrow> t | None \<Rightarrow> env_now E (w_ticks w))"

definition trusted_by ::
  "env \<Rightarrow> key_ring \<Rightarrow> string \<Rightarrow> instant \<Rightarrow> 'a signed_object_scheme \<Rightarrow> public_key \<Rightarrow> bool" where
  "trusted_by E ring trusted t obj pk \<longleftrightarrow>
     sg_signer_practice_id obj = trusted \<and> sg_algorithm obj = ''Ed25519'' \<and>
     (\<exists>d. ring_get ring (sg_key_id obj) = Some d \<and> kd_state d = ''active'' \<and>
        kd_valid_from d \<le> t \<and> t < kd_valid_until d \<and> decode_public_key E (kd_encoded_public_key d) = Inr pk) \<and>
     (\<exists>payload raw. env_canon E (JObj (prepare_for_signature (sg_dump obj))) = Some payload \<and>
        b64decode (sg_value obj) = Some raw \<and> env_ed_verify E pk raw payload)"

lemma instant_or_now_run:
  "\<exists>w'. instant_or_now E at w = (Inr (instant_of E at w), w') \<and> same_db w w'"
  by (cases at) (simp_all add: instant_or_now_def instant_of_def ret_run now_run)

lemma resolve_then_verify:
  assumes a: "resolve_trusted_signer_key E obj trusted ring at m v w = (Inr pk, w1)"
    and b: "verify_trusted_signature E obj pk w2 = (Inr u, w3)"
  shows "trusted_by E ring trusted (instant_of E at w) obj pk"
proof -
  from a [unfolded resolve_trusted_signer_key_def] obtain d t w4 where
    s: "sg_signer_practice_id obj = trusted" and d: "ring_get ring (sg_key_id obj) = Some d"
    and t: "instant_or_now E at w = (Inr t, w4)" and v: "ring_is_valid_at ring t (sg_key_id obj)"
    and k: "decode_public_key E (kd_encoded_public_key d) = Inr pk"
    by (elim bindp_InrE guardp_InrE lift_InrE) (auto split: option.splits)
  have "t = instant_of E at w" using t instant_or_now_run [of E at w] by auto
  with v d have "kd_state d = ''active''" "kd_valid_from d \<le> instant_of E at w" "instant_of E at w < kd_valid_until d"
    by (auto simp: ring_valid_iff)
  moreover from b have "verify_object_signature E pk (sg_dump obj) (sg_value obj) (sg_algorithm obj) = Inr u"
    unfolding verify_trusted_signature_def by blast
  ultimately show ?thesis
    unfolding trusted_by_def using s d k by (auto simp: crypto_simps)
qed

lemma trusted_key_id:
  "ring_ok E ring \<Longrightarrow> trusted_by E ring trusted t obj pk \<Longrightarrow> sg_key_id obj = derive_key_id pk"
  unfolding trusted_by_def by (auto dest!: ring_ok_get simp: descriptor_ok_def make_descriptor_Inr)

lemma key_declared_iff: "key_declared E pk ks \<longleftrightarrow> (\<exists>k \<in> set ks. decode_public_key E k = Inr pk)"
  by (induction ks) (auto split: sum.splits)

section \<open>A sample ring\<close>

definition sample_key :: public_key where
  "sample_key = replicate 32 (CHR ''k'')"

definition sample_descriptor :: key_descriptor where
  "sample_descriptor = \<lparr>kd_kid = derive_key_id sample_key, kd_algorithm = ''Ed25519'',
     kd_encoded_public_key = encode_public_key sample_key, kd_valid_from = 0, kd_valid_until = 2000000000000000,
     kd_state = ''active''\<rparr>"

definition sample_ring :: key_ring where
  "sample_ring = [(derive_key_id sample_key, sample_descriptor)]"

lemma decode_sample_key [simp]: "decode_public_key sample_env (encode_public_key sample_key) = Inr sample_key"
  by (simp add: crypto_simps sample_env_def sample_key_def)

lemma ring_ok_sample [simp]: "ring_ok sample_env sample_ring"
  by (simp add: ring_ok_def sample_ring_def descriptor_ok_def make_descriptor_Inr sample_descriptor_def)

text \<open>An object signed with the sample key.\<close>

definition sample_signed :: signed_object where
  "sample_signed = \<lparr>sg_signer_practice_id = sample_urn ''practice'', sg_key_id = derive_key_id sample_key,
     sg_algorithm = ''Ed25519'', sg_value = b64encode (sample_key @ ''{}''), sg_dump = []\<rparr>"

lemma resolve_sample:
  "resolve_trusted_task_key sample_env sample_signed (sample_urn ''practice'') sample_ring (Some 5) w =
     (Inr sample_key, w)"
proof -
  have "verify_object_signature sample_env sample_key [] (b64encode (sample_key @ ''{}'')) ''Ed25519'' = Inr ()"
    by (simp add: verify_object_signature_Inr b64decode_encode sample_env_def)
  then show ?thesis
    by (simp add: resolve_trusted_task_key_def resolve_trusted_signer_key_def verify_trusted_signature_def
        bindp_def guardp_run lift_run ret_run instant_or_now_def sample_signed_def sample_ring_def ring_get_def
        ring_is_valid_at_def sample_descriptor_def)
qed

section \<open>Properties\<close>

text \<open>
  C17. A retired key stays retired: from a ring in order, whatever rotations and revocations
  follow a revocation of a key, successful or not, the ring stays in order and the key is valid
  at no instant, unless one of those rotations names that very key as the successor.
\<close>

theorem revoked_key_stays_invalid:
  assumes "ring_ok E ring" and "revoke_key E ring kid = Inr ring1"
    and "ring_is_valid_at (run_key_ops E ops ring1) t kid"
  shows "\<exists>p \<in> set ops. brings_in p kid"
proof (rule ccontr)
  assume no: "\<not> (\<exists>p \<in> set ops. brings_in p kid)"
  obtain d where r: "ring1 = AList.update kid (d\<lparr>kd_state := ''revoked''\<rparr>) ring" and ok: "ring_ok E ring1"
    by (rule revoke_key_Inr [OF assms(1,2)])
  have "retired ring1 kid" by (simp add: r retired_def)
  from run_key_ops_retired [OF ok this] no have "retired (run_key_ops E ops ring1) kid" by blast
  with assms(3) show False by (auto simp: retired_def ring_valid_iff)
qed

theorem revoked_key_stays_invalid_witness:
  "\<exists>p \<in> set [Rotate (derive_key_id sample_key) sample_key 10 20 ''Ed25519'']. brings_in p (derive_key_id sample_key)"
proof (rule revoked_key_stays_invalid)
  let ?kid = "derive_key_id sample_key" and ?d = "sample_descriptor\<lparr>kd_state := ''revoked''\<rparr>"
  have upd: "AList.update ?kid x sample_ring = [(?kid, x)]" "AList.update ?kid x [(?kid, y)] = [(?kid, x)]" for x y
    by (simp_all add: sample_ring_def)
  have g: "ring_get sample_ring ?kid = Some sample_descriptor" by (simp add: ring_get_def sample_ring_def)
  have ok: "descriptor_ok sample_env sample_descriptor"
    using ring_ok_get [OF ring_ok_sample g] by blast
  note s = set_state_ok [OF ok, of "''revoked''"]
  have k: "kd_kid ?d = ?kid" by (simp add: sample_descriptor_def)
  show r: "revoke_key sample_env sample_ring ?kid = Inr [(?kid, ?d)]"
    using s k by (simp add: revoke_key_def g with_descriptor_def upd new_key_ring_def)
  have ok2: "descriptor_ok sample_env ?d" using s by blast
  note s2 = set_state_ok [OF ok2, of "''rotated''"]
  let ?n = "\<lparr>kd_kid = ?kid, kd_algorithm = ''Ed25519'', kd_encoded_public_key = encode_public_key sample_key,
    kd_valid_from = 10, kd_valid_until = 20, kd_state = ''active''\<rparr>"
  have n: "new_descriptor sample_env sample_key 10 20 ''active'' ''Ed25519'' = Inr ?n"
    by (simp add: new_descriptor_def make_descriptor_Inr)
  have "rotate_key sample_env [(?kid, ?d)] ?kid sample_key 10 20 ''Ed25519'' = Inr [(?kid, ?n)]"
    using s2 n k by (simp add: rotate_key_def ring_get_def with_descriptor_def upd new_key_ring_def)
  then show "ring_is_valid_at (run_key_ops sample_env [Rotate ?kid sample_key 10 20 ''Ed25519''] [(?kid, ?d)]) 15 ?kid"
    by (simp add: run_key_ops_def ring_is_valid_at_def)
qed (rule ring_ok_sample)

text \<open>
  A resolved key is trusted: whichever of the wrappers for tasks, crates, transfers and
  correction notifications returns a key, the object names the trusted practice as its signer,
  the ring holds an active descriptor for the object's key id whose validity covers the instant
  (the given one, or the clock's), the key is that descriptor's, the algorithm is Ed25519 and
  the key verifies the signature over the canonical bytes of the object without its signature;
  for a manifest the key is moreover among the keys the manifest declares. In a ring in order
  the key id is the one derived from the key.
\<close>

lemma resolved_keys_are_trusted:
  "(f \<in> {resolve_trusted_task_key E, resolve_trusted_crate_key E, resolve_trusted_transfer_key E,
         resolve_trusted_correction_notification_key E} \<and> f obj trusted ring at w = (Inr pk, w') \<longrightarrow>
      trusted_by E ring trusted (instant_of E at w) obj pk \<and>
      (ring_ok E ring \<longrightarrow> sg_key_id obj = derive_key_id pk)) \<and>
   (resolve_trusted_manifest_key E manifest trusted ring at w = (Inr pk, w') \<longrightarrow>
      trusted_by E ring trusted (instant_of E at w) manifest pk \<and>
      (\<exists>k \<in> set (nm_public_keys manifest). decode_public_key E k = Inr pk))"
proof (intro conjI impI)
  assume "f \<in> {resolve_trusted_task_key E, resolve_trusted_crate_key E, resolve_trusted_transfer_key E,
         resolve_trusted_correction_notification_key E} \<and> f obj trusted ring at w = (Inr pk, w')"
  then have "trusted_by E ring trusted (instant_of E at w) obj pk"
    unfolding resolve_trusted_task_key_def resolve_trusted_crate_key_def resolve_trusted_transfer_key_def
      resolve_trusted_correction_notification_key_def
    by (auto intro: resolve_then_verify)
  then show "trusted_by E ring trusted (instant_of E at w) obj pk"
    and "ring_ok E ring \<Longrightarrow> sg_key_id obj = derive_key_id pk"
    using trusted_key_id by blast+
next
  assume "resolve_trusted_manifest_key E manifest trusted ring at w = (Inr pk, w')"
  then show "trusted_by E ring trusted (instant_of E at w) manifest pk"
    and "\<exists>k \<in> set (nm_public_keys manifest). decode_public_key E k = Inr pk"
    unfolding resolve_trusted_manifest_key_def key_declared_iff by (auto intro: resolve_then_verify)
qed

lemma resolved_keys_are_trusted_witness:
  "trusted_by sample_env sample_ring (sample_urn ''practice'') 5 sample_signed sample_key \<and>
   sg_key_id sample_signed = derive_key_id sample_key"
proof -
  have "resolve_trusted_task_key sample_env \<in> {resolve_trusted_task_key sample_env, resolve_trusted_crate_key sample_env,
      resolve_trusted_transfer_key sample_env, resolve_trusted_correction_notification_key sample_env} \<and>
    resolve_trusted_task_key sample_env sample_signed (sample_urn ''practice'') sample_ring (Some 5) empty_world =
      (Inr sample_key, empty_world)"
    by (simp add: resolve_sample)
  from mp [OF conjunct1 [OF resolved_keys_are_trusted] this] show ?thesis
    using ring_ok_sample by (simp add: instant_of_def)
qed

end
