(* ===== verification/Federation.thy ===== *)
theory Federation
  imports Key_Ring Durable_Stores
begin

text \<open>
  Messages between nodes: the contracts \<^verbatim>\<open>node_message_envelope.py\<close> and
  \<^verbatim>\<open>offline_bundle.py\<close> with the validators the repository adds, and the rules of
  \<^verbatim>\<open>packages/domain/mrr/domain/envelope_signing.py\<close>, \<^verbatim>\<open>envelope_validation.py\<close> and
  \<^verbatim>\<open>offline_bundle.py\<close>: building a signed envelope or bundle, and the checks a recipient makes.
\<close>

section \<open>The contracts\<close>

record signature =
  si_signer_practice_id :: urn
  si_key_id :: string
  si_algorithm :: string
  si_signed_at :: instant
  si_value :: string

record envelope =
  ne_message_id :: urn
  ne_sender_node_id :: urn
  ne_sender_practice_id :: urn
  ne_recipient_node_id :: urn
  ne_sent_at :: instant
  ne_expires_at :: instant
  ne_payload_kind :: string
  ne_payload_content_hash :: string
  ne_payload :: dict
  ne_signature :: signature

record bundle_entry =
  be_message_id :: urn
  be_payload_kind :: string
  be_envelope_content_hash :: string

record bundle_encryption =
  en_scheme :: string
  en_recipient_key_id :: "string option"

record offline_bundle =
  ob_bundle_id :: urn
  ob_bundle_nonce :: string
  ob_sender_node_id :: urn
  ob_sender_practice_id :: urn
  ob_recipient_node_id :: urn
  ob_created_at :: instant
  ob_expires_at :: instant
  ob_entries :: "bundle_entry list"
  ob_envelopes :: "envelope list"
  ob_encryption :: bundle_encryption
  ob_signature :: signature

text \<open>
  \<^verbatim>\<open>json.loads(model.model_dump_json(exclude_none=True))\<close>: the fields in the order of their
  declaration, an absent optional field left out. Validating a dump gives the instance back,
  which is how pydantic treats its own dumps, so the model builds the instance directly.
\<close>

definition signature_dump :: "env \<Rightarrow> signature \<Rightarrow> dict" where
  "signature_dump E s =
     [(''signer_practice_id'', JStr (si_signer_practice_id s)), (''key_id'', JStr (si_key_id s)),
      (''algorithm'', JStr (si_algorithm s)), (''signed_at'', JStr (env_json_time E (si_signed_at s))),
      (''value'', JStr (si_value s))]"

definition envelope_dump :: "env \<Rightarrow> envelope \<Rightarrow> dict" where
  "envelope_dump E e =
     [(''message_id'', JStr (ne_message_id e)), (''sender_node_id'', JStr (ne_sender_node_id e)),
      (''sender_practice_id'', JStr (ne_sender_practice_id e)),
      (''recipient_node_id'', JStr (ne_recipient_node_id e)),
      (''sent_at'', JStr (env_json_time E (ne_sent_at e))),
      (''expires_at'', JStr (env_json_time E (ne_expires_at e))),
      (''payload_kind'', JStr (ne_payload_kind e)),
      (''payload_content_hash'', JStr (ne_payload_content_hash e)), (''payload'', JObj (ne_payload e)),
      (''signature'', JObj (signature_dump E (ne_signature e)))]"

definition entry_dump :: "bundle_entry \<Rightarrow> dict" where
  "entry_dump b =
     [(''message_id'', JStr (be_message_id b)), (''payload_kind'', JStr (be_payload_kind b)),
      (''envelope_content_hash'', JStr (be_envelope_content_hash b))]"

definition encryption_dump :: "bundle_encryption \<Rightarrow> dict" where
  "encryption_dump x =
     (''scheme'', JStr (en_scheme x)) #
     (case en_recipient_key_id x of None \<Rightarrow> [] | Some k \<Rightarrow> [(''recipient_key_id'', JStr k)])"

definition bundle_dump :: "env \<Rightarrow> offline_bundle \<Rightarrow> dict" where
  "bundle_dump E b =
     [(''bundle_id'', JStr (ob_bundle_id b)), (''bundle_nonce'', JStr (ob_bundle_nonce b)),
      (''sender_node_id'', JStr (ob_sender_node_id b)),
      (''sender_practice_id'', JStr (ob_sender_practice_id b)),
      (''recipient_node_id'', JStr (ob_recipient_node_id b)),
      (''created_at'', JStr (env_json_time E (ob_created_at b))),
      (''expires_at'', JStr (env_json_time E (ob_expires_at b))),
      (''entries'', JArr (map (\<lambda>x. JObj (entry_dump x)) (ob_entries b))),
      (''envelopes'', JArr (map (\<lambda>x. JObj (envelope_dump E x)) (ob_envelopes b))),
      (''encryption'', JObj (encryption_dump (ob_encryption b))),
      (''signature'', JObj (signature_dump E (ob_signature b)))]"

text \<open>Constructing an instance: pydantic's field checks, then the validators in their order.\<close>

definition new_envelope :: "env \<Rightarrow> envelope \<Rightarrow> envelope outcome" where
  "new_envelope E e =
     (if \<not> env_schema E ''NodeMessageEnvelope'' (envelope_dump E e) then Inl PydanticValidationError
      else if \<not> ne_sent_at e < ne_expires_at e then Inl PydanticValidationError
      else if si_signer_practice_id (ne_signature e) \<noteq> ne_sender_practice_id e
      then Inl PydanticValidationError
      else Inr e)"

definition entries_correspond :: "offline_bundle \<Rightarrow> bool" where
  "entries_correspond b \<longleftrightarrow>
     length (ob_entries b) = length (ob_envelopes b) \<and>
     list_all (\<lambda>(x, e). be_message_id x = ne_message_id e) (zip (ob_entries b) (ob_envelopes b))"

definition new_bundle :: "env \<Rightarrow> offline_bundle \<Rightarrow> offline_bundle outcome" where
  "new_bundle E b =
     (if \<not> env_schema E ''OfflineBundle'' (bundle_dump E b) then Inl PydanticValidationError
      else if \<not> ob_created_at b < ob_expires_at b then Inl PydanticValidationError
      else if si_signer_practice_id (ob_signature b) \<noteq> ob_sender_practice_id b
      then Inl PydanticValidationError
      else if \<not> entries_correspond b then Inl PydanticValidationError
      else Inr b)"

section \<open>Signing an envelope\<close>

definition placeholder_signature_value :: string where
  "placeholder_signature_value = replicate 44 (CHR ''0'')"

definition build_signed_envelope ::
  "env \<Rightarrow> dict \<Rightarrow> string \<Rightarrow> urn \<Rightarrow> urn \<Rightarrow> urn \<Rightarrow> urn \<Rightarrow> instant \<Rightarrow> instant \<Rightarrow> bytes \<Rightarrow> string \<Rightarrow> string \<Rightarrow>
   envelope outcome" where
  "build_signed_envelope E payload payload_kind message_id sender_node_id sender_practice_id
     recipient_node_id sent_at expires_at signing_key key_id algorithm =
     (case map_of payload ''content_hash'' of
        None \<Rightarrow> Inl (EnvelopePayloadMissingContentHashError payload_kind)
      | Some JNull \<Rightarrow> Inl (EnvelopePayloadMissingContentHashError payload_kind)
      | Some (JStr payload_content_hash) \<Rightarrow>
          (let draft = \<lparr>ne_message_id = message_id, ne_sender_node_id = sender_node_id,
                 ne_sender_practice_id = sender_practice_id, ne_recipient_node_id = recipient_node_id,
                 ne_sent_at = sent_at, ne_expires_at = expires_at, ne_payload_kind = payload_kind,
                 ne_payload_content_hash = payload_content_hash, ne_payload = payload,
                 ne_signature = \<lparr>si_signer_practice_id = sender_practice_id, si_key_id = key_id,
                   si_algorithm = algorithm, si_signed_at = sent_at, si_value = placeholder_signature_value\<rparr>\<rparr>
           in case new_envelope E draft of
                Inl x \<Rightarrow> Inl x
              | Inr _ \<Rightarrow>
                  (case sign_object E signing_key (envelope_dump E draft) ''Ed25519'' of
                     Inl x \<Rightarrow> Inl x
                   | Inr signature_value \<Rightarrow>
                       new_envelope E (draft\<lparr>ne_signature := \<lparr>si_signer_practice_id = sender_practice_id,
                         si_key_id = key_id, si_algorithm = algorithm, si_signed_at = sent_at,
                         si_value = signature_value\<rparr>\<rparr>)))
      | Some _ \<Rightarrow> Inl PydanticValidationError)"

section \<open>Checking an envelope\<close>

definition validate_inbound_envelope ::
  "env \<Rightarrow> envelope \<Rightarrow> string \<Rightarrow> string \<Rightarrow> key_ring \<Rightarrow> (string \<Rightarrow> (world, bool) prog) \<Rightarrow> instant option \<Rightarrow>
   (world, unit) prog" where
  "validate_inbound_envelope E envelope this_node_id trusted_sender_practice_id ring processed at =
     bindp (guardp (ne_recipient_node_id envelope = this_node_id)
       (EnvelopeRecipientMismatchError (ne_message_id envelope) (ne_recipient_node_id envelope) this_node_id)) (\<lambda>_.
     bindp (instant_or_now E at) (\<lambda>t.
     bindp (guardp (ne_sent_at envelope \<le> t \<and> t < ne_expires_at envelope)
       (EnvelopeNotWithinValidityWindowError (ne_message_id envelope) (ne_sent_at envelope)
          (ne_expires_at envelope) t)) (\<lambda>_.
     bindp (let own = map_of (ne_payload envelope) ''content_hash''
            in guardp (own = Some (JStr (ne_payload_content_hash envelope)))
                 (EnvelopePayloadContentHashMismatchError (ne_message_id envelope)
                    (ne_payload_content_hash envelope) own)) (\<lambda>_.
     bindp (processed (ne_message_id envelope)) (\<lambda>seen.
     bindp (guardp (\<not> seen) (EnvelopeAlreadyProcessedError (ne_message_id envelope))) (\<lambda>_.
     bindp (guardp (si_signer_practice_id (ne_signature envelope) = trusted_sender_practice_id)
       (SignerMismatchError ''Envelope'' (si_signer_practice_id (ne_signature envelope))
          trusted_sender_practice_id)) (\<lambda>_.
     bindp (lift (case ring_get ring (si_key_id (ne_signature envelope)) of
         None \<Rightarrow> Inl (UnknownKeyIdError (si_key_id (ne_signature envelope))) | Some d \<Rightarrow> Inr d)) (\<lambda>descriptor.
     bindp (guardp (ring_is_valid_at ring t (si_key_id (ne_signature envelope)))
       (KeyNotValidError ''Envelope'' (si_key_id (ne_signature envelope)) t)) (\<lambda>_.
     bindp (lift (decode_public_key E (kd_encoded_public_key descriptor))) (\<lambda>verifying_key.
     lift (verify_object_signature E verifying_key (envelope_dump E envelope)
       (si_value (ne_signature envelope)) (si_algorithm (ne_signature envelope)))))))))))))"

fun coarse_rejection_reason :: "exn \<Rightarrow> string outcome" where
  "coarse_rejection_reason (EnvelopeRecipientMismatchError _ _ _) = Inr ''wrong_recipient''"
| "coarse_rejection_reason (EnvelopeNotWithinValidityWindowError _ _ _ _) = Inr ''outside_validity_window''"
| "coarse_rejection_reason (EnvelopePayloadContentHashMismatchError _ _ _) = Inr ''payload_hash_mismatch''"
| "coarse_rejection_reason (EnvelopeAlreadyProcessedError _) = Inr ''already_processed''"
| "coarse_rejection_reason (SignerMismatchError k _ _) =
     (if k = ''Envelope'' then Inr ''signer_mismatch'' else Inl (KeyError ''SignerMismatchError''))"
| "coarse_rejection_reason (UnknownKeyIdError _) = Inr ''unknown_key''"
| "coarse_rejection_reason (KeyNotValidError k _ _) =
     (if k = ''Envelope'' then Inr ''key_not_valid'' else Inl (KeyError ''KeyNotValidError''))"
| "coarse_rejection_reason SignatureVerificationError = Inr ''signature_invalid''"
| "coarse_rejection_reason (UnsupportedAlgorithmError _) = Inr ''signature_invalid''"
| "coarse_rejection_reason _ = Inl (KeyError ''exception'')"

section \<open>Offline bundles\<close>

fun bundle_entries :: "env \<Rightarrow> envelope list \<Rightarrow> bundle_entry list outcome" where
  "bundle_entries E [] = Inr []"
| "bundle_entries E (e # es) =
     (case compute_content_hash E (envelope_dump E e) of
        Inl x \<Rightarrow> Inl x
      | Inr h \<Rightarrow>
          (case bundle_entries E es of
             Inl x \<Rightarrow> Inl x
           | Inr bs \<Rightarrow> Inr (\<lparr>be_message_id = ne_message_id e, be_payload_kind = ne_payload_kind e,
               be_envelope_content_hash = h\<rparr> # bs)))"

definition build_outbox_bundle ::
  "env \<Rightarrow> envelope list \<Rightarrow> urn \<Rightarrow> string \<Rightarrow> urn \<Rightarrow> urn \<Rightarrow> urn \<Rightarrow> instant \<Rightarrow> instant \<Rightarrow> bytes \<Rightarrow> string \<Rightarrow>
   bundle_encryption option \<Rightarrow> instant option \<Rightarrow> string \<Rightarrow> offline_bundle outcome" where
  "build_outbox_bundle E envelopes bundle_id bundle_nonce sender_node_id sender_practice_id recipient_node_id
     created_at expires_at signing_key key_id encryption signed_at algorithm =
     (let resolved_encryption = (case encryption of
            None \<Rightarrow> \<lparr>en_scheme = ''none'', en_recipient_key_id = None\<rparr> | Some x \<Rightarrow> x);
          resolved_signed_at = (case signed_at of None \<Rightarrow> created_at | Some t \<Rightarrow> t);
          sig = (\<lambda>value. \<lparr>si_signer_practice_id = sender_practice_id, si_key_id = key_id,
            si_algorithm = algorithm, si_signed_at = resolved_signed_at, si_value = value\<rparr>)
      in case bundle_entries E envelopes of
           Inl x \<Rightarrow> Inl x
         | Inr entries \<Rightarrow>
             (let draft = \<lparr>ob_bundle_id = bundle_id, ob_bundle_nonce = bundle_nonce,
                    ob_sender_node_id = sender_node_id, ob_sender_practice_id = sender_practice_id,
                    ob_recipient_node_id = recipient_node_id, ob_created_at = created_at,
                    ob_expires_at = expires_at, ob_entries = entries, ob_envelopes = envelopes,
                    ob_encryption = resolved_encryption, ob_signature = sig placeholder_signature_value\<rparr>
              in case new_bundle E draft of
                   Inl x \<Rightarrow> Inl x
                 | Inr _ \<Rightarrow>
                     (case sign_object E signing_key (bundle_dump E draft) algorithm of
                        Inl x \<Rightarrow> Inl x
                      | Inr signature_value \<Rightarrow> new_bundle E (draft\<lparr>ob_signature := sig signature_value\<rparr>))))"

text \<open>The loop over \<^verbatim>\<open>zip(entries, envelopes, strict=True)\<close>.\<close>

fun check_entries :: "env \<Rightarrow> string \<Rightarrow> bundle_entry list \<Rightarrow> envelope list \<Rightarrow> unit outcome" where
  "check_entries E i [] [] = Inr ()"
| "check_entries E i (x # xs) (e # es) =
     (case compute_content_hash E (envelope_dump E e) of
        Inl y \<Rightarrow> Inl y
      | Inr actual_hash \<Rightarrow>
          (if be_envelope_content_hash x \<noteq> actual_hash
           then Inl (BundleEntryHashMismatchError i (be_message_id x) (be_envelope_content_hash x) actual_hash)
           else check_entries E i xs es))"
| "check_entries E i [] (e # es) = Inl ValueError"
| "check_entries E i (x # xs) [] = Inl ValueError"

definition validate_inbound_bundle ::
  "env \<Rightarrow> offline_bundle \<Rightarrow> string \<Rightarrow> string \<Rightarrow> key_ring \<Rightarrow> (string \<Rightarrow> (world, bool) prog) \<Rightarrow> instant option \<Rightarrow>
   (world, envelope list) prog" where
  "validate_inbound_bundle E bundle this_node_id trusted_sender_practice_id ring processed at =
     bindp (guardp (ob_recipient_node_id bundle = this_node_id)
       (BundleRecipientMismatchError (ob_bundle_id bundle) (ob_recipient_node_id bundle) this_node_id)) (\<lambda>_.
     bindp (instant_or_now E at) (\<lambda>t.
     bindp (guardp (ob_created_at bundle \<le> t \<and> t < ob_expires_at bundle)
       (BundleNotWithinValidityWindowError (ob_bundle_id bundle) (ob_created_at bundle)
          (ob_expires_at bundle) t)) (\<lambda>_.
     bindp (processed (ob_bundle_id bundle)) (\<lambda>seen.
     bindp (guardp (\<not> seen) (BundleAlreadyProcessedError (ob_bundle_id bundle))) (\<lambda>_.
     bindp (guardp (si_signer_practice_id (ob_signature bundle) = trusted_sender_practice_id)
       (SignerMismatchError ''Bundle'' (si_signer_practice_id (ob_signature bundle))
          trusted_sender_practice_id)) (\<lambda>_.
     bindp (lift (case ring_get ring (si_key_id (ob_signature bundle)) of
         None \<Rightarrow> Inl (UnknownKeyIdError (si_key_id (ob_signature bundle))) | Some d \<Rightarrow> Inr d)) (\<lambda>descriptor.
     bindp (guardp (ring_is_valid_at ring t (si_key_id (ob_signature bundle)))
       (KeyNotValidError ''Bundle'' (si_key_id (ob_signature bundle)) t)) (\<lambda>_.
     bindp (lift (decode_public_key E (kd_encoded_public_key descriptor))) (\<lambda>verifying_key.
     bindp (lift (verify_object_signature E verifying_key (bundle_dump E bundle)
       (si_value (ob_signature bundle)) (si_algorithm (ob_signature bundle)))) (\<lambda>_.
     bindp (lift (check_entries E (ob_bundle_id bundle) (ob_entries bundle) (ob_envelopes bundle))) (\<lambda>_.
     ret (ob_envelopes bundle))))))))))))"

fun coarse_bundle_rejection_reason :: "exn \<Rightarrow> string outcome" where
  "coarse_bundle_rejection_reason (BundleRecipientMismatchError _ _ _) = Inr ''wrong_recipient''"
| "coarse_bundle_rejection_reason (BundleNotWithinValidityWindowError _ _ _ _) = Inr ''outside_validity_window''"
| "coarse_bundle_rejection_reason (BundleAlreadyProcessedError _) = Inr ''already_processed''"
| "coarse_bundle_rejection_reason (SignerMismatchError k _ _) =
     (if k = ''Bundle'' then Inr ''signer_mismatch'' else Inl (KeyError ''SignerMismatchError''))"
| "coarse_bundle_rejection_reason (UnknownKeyIdError _) = Inr ''unknown_key''"
| "coarse_bundle_rejection_reason (KeyNotValidError k _ _) =
     (if k = ''Bundle'' then Inr ''key_not_valid'' else Inl (KeyError ''KeyNotValidError''))"
| "coarse_bundle_rejection_reason SignatureVerificationError = Inr ''signature_invalid''"
| "coarse_bundle_rejection_reason (UnsupportedAlgorithmError _) = Inr ''signature_invalid''"
| "coarse_bundle_rejection_reason (BundleEntryHashMismatchError _ _ _ _) = Inr ''entry_hash_mismatch''"
| "coarse_bundle_rejection_reason _ = Inl (KeyError ''exception'')"

section \<open>What a recipient accepts\<close>

definition signature_verifies :: "env \<Rightarrow> key_ring \<Rightarrow> instant \<Rightarrow> signature \<Rightarrow> dict \<Rightarrow> bool" where
  "signature_verifies E ring t s body \<longleftrightarrow>
     (\<exists>d pk payload raw. ring_get ring (si_key_id s) = Some d \<and> kd_state d = ''active'' \<and>
        kd_valid_from d \<le> t \<and> t < kd_valid_until d \<and>
        decode_public_key E (kd_encoded_public_key d) = Inr pk \<and> si_algorithm s = ''Ed25519'' \<and>
        env_canon E (JObj (prepare_for_signature body)) = Some payload \<and>
        b64decode (si_value s) = Some raw \<and> env_ed_verify E pk raw payload)"

definition acceptable :: "env \<Rightarrow> envelope \<Rightarrow> string \<Rightarrow> string \<Rightarrow> key_ring \<Rightarrow> bool \<Rightarrow> instant \<Rightarrow> bool" where
  "acceptable E e node trusted ring seen t \<longleftrightarrow>
     ne_recipient_node_id e = node \<and> ne_sent_at e \<le> t \<and> t < ne_expires_at e \<and>
     map_of (ne_payload e) ''content_hash'' = Some (JStr (ne_payload_content_hash e)) \<and> \<not> seen \<and>
     si_signer_practice_id (ne_signature e) = trusted \<and>
     signature_verifies E ring t (ne_signature e) (envelope_dump E e)"

definition seen_by :: "string \<Rightarrow> string \<Rightarrow> world \<Rightarrow> bool" where
  "seen_by node i w \<longleftrightarrow> (node, i) \<in> processed_key ` set (processed_ids_tbl (w_db w))"

lemma already_processed_run: "already_processed node i w = (Inr (seen_by node i w), w)"
  by (auto simp: already_processed_def is_processed_def asks_run seen_by_def processed_key_def image_iff)

lemma seen_by_ticks: "w_db w' = w_db w \<Longrightarrow> seen_by node i w' = seen_by node i w"
  by (simp add: seen_by_def)

lemma instant_or_nowE:
  obtains w1 where "instant_or_now E at w = (Inr (instant_of E at w), w1)" and "same_db w w1"
  using instant_or_now_run [of E at w] by blast

text \<open>The part of the checks after the clock was read.\<close>

definition check_signature :: "env \<Rightarrow> key_ring \<Rightarrow> instant \<Rightarrow> string \<Rightarrow> signature \<Rightarrow> dict \<Rightarrow> unit outcome" where
  "check_signature E ring t kind s body =
     (case ring_get ring (si_key_id s) of
        None \<Rightarrow> Inl (UnknownKeyIdError (si_key_id s))
      | Some d \<Rightarrow>
          (if \<not> ring_is_valid_at ring t (si_key_id s) then Inl (KeyNotValidError kind (si_key_id s) t)
           else case decode_public_key E (kd_encoded_public_key d) of
                  Inl x \<Rightarrow> Inl x
                | Inr pk \<Rightarrow> verify_object_signature E pk body (si_value s) (si_algorithm s)))"

lemma check_signature_Inr:
  "check_signature E ring t kind s body = Inr u \<longleftrightarrow> signature_verifies E ring t s body"
  by (auto simp: check_signature_def signature_verifies_def ring_valid_iff crypto_simps split: option.splits sum.splits)

lemma validate_run:
  assumes t: "instant_or_now E at w = (Inr t, w1)" and s: "same_db w w1"
  shows "validate_inbound_envelope E e node trusted ring (already_processed node) at w =
    (if ne_recipient_node_id e \<noteq> node
     then (Inl (EnvelopeRecipientMismatchError (ne_message_id e) (ne_recipient_node_id e) node), w)
     else if \<not> (ne_sent_at e \<le> t \<and> t < ne_expires_at e)
     then (Inl (EnvelopeNotWithinValidityWindowError (ne_message_id e) (ne_sent_at e) (ne_expires_at e) t), w1)
     else if map_of (ne_payload e) ''content_hash'' \<noteq> Some (JStr (ne_payload_content_hash e))
     then (Inl (EnvelopePayloadContentHashMismatchError (ne_message_id e) (ne_payload_content_hash e)
            (map_of (ne_payload e) ''content_hash'')), w1)
     else if seen_by node (ne_message_id e) w then (Inl (EnvelopeAlreadyProcessedError (ne_message_id e)), w1)
     else if si_signer_practice_id (ne_signature e) \<noteq> trusted
     then (Inl (SignerMismatchError ''Envelope'' (si_signer_practice_id (ne_signature e)) trusted), w1)
     else (check_signature E ring t ''Envelope'' (ne_signature e) (envelope_dump E e), w1))"
proof -
  have "seen_by node i w1 = seen_by node i w" for i using s by (intro seen_by_ticks) (simp add: same_db_def)
  then show ?thesis
    by (simp add: validate_inbound_envelope_def bindp_def guardp_run lift_run t Let_def already_processed_run
        check_signature_def split: option.splits sum.splits)
qed

text \<open>
  The operations on the processed ids between two deliveries: recording ids and pruning.
\<close>

datatype processed_call = Record processed_row | Prune instant

fun run_processed :: "int \<Rightarrow> processed_call \<Rightarrow> world \<Rightarrow> unit \<times> world" where
  "run_processed grace (Record r) w = ((), snd (record_processed_row r w))"
| "run_processed grace (Prune at) w = ((), snd (prune_expired grace at w))"

lemma run_processed_keeps:
  assumes g: "0 \<le> grace" and d: "distinct (map processed_key (processed_ids_tbl (w_db w)))"
    and r: "r \<in> set (processed_ids_tbl (w_db w))" and at: "\<And>at. c = Prune at \<Longrightarrow> at < pr_expires_at r"
  shows "distinct (map processed_key (processed_ids_tbl (w_db (snd (run_processed grace c w))))) \<and>
    r \<in> set (processed_ids_tbl (w_db (snd (run_processed grace c w))))"
proof (cases c)
  case (Record s)
  have "processed_ids_tbl (w_db (run_all (\<lambda>r. tx (record_processed_core r)) [s] w)) =
      processed_ids_tbl (w_db (snd (record_processed_row s w)))"
    by (simp add: record_processed_row_core)
  with processed.distinct_keys [OF d, of "[s]"] processed.rows_grow [of "[s]" w] r Record show ?thesis by auto
next
  case (Prune at)
  from prune_expired_run [OF g d, of at] Prune d r at [OF Prune] g show ?thesis
    by (auto simp: prunable_def distinct_map intro: inj_on_subset)
qed

lemma run_all_processed_keeps:
  "0 \<le> grace \<Longrightarrow> distinct (map processed_key (processed_ids_tbl (w_db w))) \<Longrightarrow>
     r \<in> set (processed_ids_tbl (w_db w)) \<Longrightarrow> \<forall>at. Prune at \<in> set cs \<longrightarrow> at < pr_expires_at r \<Longrightarrow>
     r \<in> set (processed_ids_tbl (w_db (run_all (run_processed grace) cs w)))"
proof (induction cs arbitrary: w)
  case (Cons c cs)
  have at: "at < pr_expires_at r" if "c = Prune at" for at using Cons.prems(4) that by simp
  from run_processed_keeps [OF Cons.prems(1-3) at] have
    "distinct (map processed_key (processed_ids_tbl (w_db (snd (run_processed grace c w)))))"
    "r \<in> set (processed_ids_tbl (w_db (snd (run_processed grace c w))))" by blast+
  from Cons.IH [OF Cons.prems(1) this] Cons.prems(4) show ?case by simp
qed simp

section \<open>Signatures that were made\<close>

text \<open>What Ed25519 documents: a signature made with a private key verifies under its public key.\<close>

definition key_pair :: "env \<Rightarrow> bytes \<Rightarrow> public_key \<Rightarrow> bool" where
  "key_pair E sk pk \<longleftrightarrow> (\<forall>m. env_ed_verify E pk (env_ed_sign E sk m) m)"

lemma prepare_for_signature_eq:
  "prepare_for_signature (xs @ [(''signature'', a)]) = prepare_for_signature (xs @ [(''signature'', b)])"
  by (simp add: prepare_for_signature_def signature_excluded_fields_def)

lemma sign_object_Inr:
  "sign_object E sk body alg = Inr v \<Longrightarrow>
     alg = ''Ed25519'' \<and> (\<exists>m. env_canon E (JObj (prepare_for_signature body)) = Some m \<and> v = b64encode (env_ed_sign E sk m))"
  by (auto simp: sign_object_def sign_def require_supported_algorithm_def supported_algorithms_def
      split: sum.splits if_splits)

lemma made_signature_verifies:
  assumes "sign_object E sk body ''Ed25519'' = Inr v" and "key_pair E sk pk"
    and "prepare_for_signature body' = prepare_for_signature body"
    and "ring_get ring (si_key_id s) = Some d" "kd_state d = ''active''" "kd_valid_from d \<le> t" "t < kd_valid_until d"
    and "decode_public_key E (kd_encoded_public_key d) = Inr pk"
    and "si_value s = v" "si_algorithm s = ''Ed25519''"
  shows "signature_verifies E ring t s body'"
  using sign_object_Inr [OF assms(1)] assms(2-) unfolding signature_verifies_def key_pair_def
  by (auto simp: b64decode_encode)

lemma envelope_dump_unsigned:
  "prepare_for_signature (envelope_dump E (e\<lparr>ne_signature := s\<rparr>)) = prepare_for_signature (envelope_dump E e)"
  by (simp add: envelope_dump_def prepare_for_signature_def signature_excluded_fields_def)

lemma bundle_dump_unsigned:
  "prepare_for_signature (bundle_dump E (b\<lparr>ob_signature := s\<rparr>)) = prepare_for_signature (bundle_dump E b)"
  by (simp add: bundle_dump_def prepare_for_signature_def signature_excluded_fields_def)

lemma new_envelope_Inr:
  "new_envelope E e = Inr x \<Longrightarrow> x = e \<and> ne_sent_at e < ne_expires_at e \<and>
     si_signer_practice_id (ne_signature e) = ne_sender_practice_id e"
  by (auto simp: new_envelope_def split: if_splits)

lemma new_bundle_Inr:
  "new_bundle E b = Inr x \<Longrightarrow> x = b \<and> ob_created_at b < ob_expires_at b \<and>
     si_signer_practice_id (ob_signature b) = ob_sender_practice_id b \<and> entries_correspond b"
  by (auto simp: new_bundle_def split: if_splits)

lemma bundle_entries_checked: "bundle_entries E es = Inr bs \<Longrightarrow> check_entries E i bs es = Inr ()"
  by (induction es arbitrary: bs) (auto split: sum.splits)

lemma build_signed_envelope_Inr:
  assumes "build_signed_envelope E payload kind i sn sp rn t0 t1 sk kid alg = Inr e"
  obtains h draft v where "map_of payload ''content_hash'' = Some (JStr h)"
    and "sign_object E sk (envelope_dump E draft) ''Ed25519'' = Inr v"
    and "e = draft\<lparr>ne_signature := \<lparr>si_signer_practice_id = sp, si_key_id = kid, si_algorithm = alg,
           si_signed_at = t0, si_value = v\<rparr>\<rparr>"
    and "ne_recipient_node_id e = rn" "ne_payload e = payload" "ne_payload_content_hash e = h"
      "ne_sent_at e = t0" "ne_expires_at e = t1" "ne_message_id e = i"
proof -
  obtain h where h: "map_of payload ''content_hash'' = Some (JStr h)"
    using assms by (auto simp: build_signed_envelope_def split: option.splits json.splits)
  define draft where "draft = \<lparr>ne_message_id = i, ne_sender_node_id = sn,
                 ne_sender_practice_id = sp, ne_recipient_node_id = rn,
                 ne_sent_at = t0, ne_expires_at = t1, ne_payload_kind = kind,
                 ne_payload_content_hash = h, ne_payload = payload,
                 ne_signature = \<lparr>si_signer_practice_id = sp, si_key_id = kid,
                   si_algorithm = alg, si_signed_at = t0, si_value = placeholder_signature_value\<rparr>\<rparr>"
  from assms h obtain v where v: "sign_object E sk (envelope_dump E draft) ''Ed25519'' = Inr v"
    and n: "new_envelope E (draft\<lparr>ne_signature := \<lparr>si_signer_practice_id = sp, si_key_id = kid,
         si_algorithm = alg, si_signed_at = t0, si_value = v\<rparr>\<rparr>) = Inr e"
    by (auto simp: build_signed_envelope_def Let_def draft_def [symmetric] split: sum.splits)
  from new_envelope_Inr [OF n] that [OF h v] show thesis by (simp add: draft_def)
qed

lemma build_outbox_bundle_Inr:
  assumes "build_outbox_bundle E es i nonce sn sp rn t0 t1 sk kid enc st alg = Inr b"
  obtains draft v s where "sign_object E sk (bundle_dump E draft) alg = Inr v"
    and "b = draft\<lparr>ob_signature := s\<rparr>" and "si_signer_practice_id s = sp" "si_key_id s = kid"
      "si_algorithm s = alg" "si_value s = v"
    and "ob_recipient_node_id b = rn" "ob_created_at b = t0" "ob_expires_at b = t1" "ob_bundle_id b = i"
      "ob_envelopes b = es" "bundle_entries E es = Inr (ob_entries b)"
proof -
  let ?enc = "case enc of None \<Rightarrow> \<lparr>en_scheme = ''none'', en_recipient_key_id = None\<rparr> | Some x \<Rightarrow> x"
  let ?st = "case st of None \<Rightarrow> t0 | Some t \<Rightarrow> t"
  define sig where "sig = (\<lambda>value. \<lparr>si_signer_practice_id = sp, si_key_id = kid,
            si_algorithm = alg, si_signed_at = ?st, si_value = value\<rparr>)"
  obtain xs where xs: "bundle_entries E es = Inr xs"
    using assms by (auto simp: build_outbox_bundle_def Let_def split: sum.splits)
  define draft where "draft = \<lparr>ob_bundle_id = i, ob_bundle_nonce = nonce,
                    ob_sender_node_id = sn, ob_sender_practice_id = sp,
                    ob_recipient_node_id = rn, ob_created_at = t0,
                    ob_expires_at = t1, ob_entries = xs, ob_envelopes = es,
                    ob_encryption = ?enc, ob_signature = sig placeholder_signature_value\<rparr>"
  from assms xs obtain v where v: "sign_object E sk (bundle_dump E draft) alg = Inr v"
    and n: "new_bundle E (draft\<lparr>ob_signature := sig v\<rparr>) = Inr b"
    by (auto simp: build_outbox_bundle_def Let_def sig_def draft_def split: sum.splits)
  from new_bundle_Inr [OF n] that [OF v, of "sig v"] xs show thesis by (simp add: draft_def sig_def)
qed

lemma validate_bundle_run:
  assumes t: "instant_or_now E at w = (Inr t, w1)" and s: "same_db w w1"
    and b: "ob_recipient_node_id b = node" "ob_created_at b \<le> t" "t < ob_expires_at b"
      "\<not> seen_by node (ob_bundle_id b) w" "si_signer_practice_id (ob_signature b) = trusted"
      "signature_verifies E ring t (ob_signature b) (bundle_dump E b)"
      "check_entries E (ob_bundle_id b) (ob_entries b) (ob_envelopes b) = Inr ()"
  shows "validate_inbound_bundle E b node trusted ring (already_processed node) at w = (Inr (ob_envelopes b), w1)"
proof -
  have seen: "seen_by node i w1 = seen_by node i w" for i using s by (intro seen_by_ticks) (simp add: same_db_def)
  from b(6) obtain d pk where d: "ring_get ring (si_key_id (ob_signature b)) = Some d"
    "ring_is_valid_at ring t (si_key_id (ob_signature b))" "decode_public_key E (kd_encoded_public_key d) = Inr pk"
    "verify_object_signature E pk (bundle_dump E b) (si_value (ob_signature b)) (si_algorithm (ob_signature b)) = Inr ()"
    by (auto simp: signature_verifies_def ring_valid_iff crypto_simps)
  show ?thesis
    using t b d seen
    by (simp add: validate_inbound_bundle_def bindp_def guardp_run lift_run ret_run already_processed_run)
qed

section \<open>Sample messages\<close>

definition sample_payload :: dict where
  "sample_payload = [(''content_hash'', JStr (content_hash ''{}''))]"

definition sample_envelope :: "envelope outcome" where
  "sample_envelope = build_signed_envelope sample_env sample_payload ''Claim'' (sample_urn ''message'')
     (sample_urn ''node'') (sample_urn ''practice'') (sample_urn ''peer'') 10 20 sample_key
     (derive_key_id sample_key) ''Ed25519''"

lemma key_pair_sample [simp]: "key_pair sample_env sample_key sample_key"
  by (simp add: key_pair_def sample_env_def)

lemma sample_envelope_built: "\<exists>e. sample_envelope = Inr e"
  by (simp add: sample_envelope_def build_signed_envelope_def sample_payload_def new_envelope_def
      sign_object_def sign_def require_supported_algorithm_def supported_algorithms_def canonicalize_def
      Let_def sample_env_def)

lemma sample_descriptor_found [simp]:
  "ring_get sample_ring (derive_key_id sample_key) = Some sample_descriptor"
  "kd_state sample_descriptor = ''active''" "kd_valid_from sample_descriptor = 0"
  "kd_valid_until sample_descriptor = 2000000000000000"
  "kd_encoded_public_key sample_descriptor = encode_public_key sample_key"
  by (simp_all add: ring_get_def sample_ring_def sample_descriptor_def)

section \<open>Properties\<close>

text \<open>
  An inbound envelope is accepted exactly when every condition holds: it is addressed to
  this node, the instant lies in its validity window, its payload carries the content hash it
  declares, this node has not processed its id, it is signed for the trusted practice, and the
  ring holds an active key, valid at that instant, under which the Ed25519 signature verifies.
  A check changes no table, and where the canonicalizer accepts the envelope and the ring is in
  order, every refusal has one of the eight coarse reasons.
\<close>

lemma envelope_validation_exact:
  "((\<exists>w'. validate_inbound_envelope E e node trusted ring (already_processed node) at w = (Inr (), w')) \<longleftrightarrow>
      acceptable E e node trusted ring (seen_by node (ne_message_id e) w) (instant_of E at w)) \<and>
   w_db (snd (validate_inbound_envelope E e node trusted ring (already_processed node) at w)) = w_db w \<and>
   (\<forall>x w'. validate_inbound_envelope E e node trusted ring (already_processed node) at w = (Inl x, w') \<and>
      ring_ok E ring \<and> env_canon E (JObj (prepare_for_signature (envelope_dump E e))) \<noteq> None \<longrightarrow>
      (\<exists>reason \<in> {''wrong_recipient'', ''outside_validity_window'', ''payload_hash_mismatch'',
          ''already_processed'', ''signer_mismatch'', ''unknown_key'', ''key_not_valid'', ''signature_invalid''}.
         coarse_rejection_reason x = Inr reason))"
proof -
  obtain w1 where t: "instant_or_now E at w = (Inr (instant_of E at w), w1)" and s: "same_db w w1"
    by (rule instant_or_nowE)
  have coarse: "\<exists>reason \<in> {''unknown_key'', ''key_not_valid'', ''signature_invalid''}. coarse_rejection_reason x = Inr reason"
    if x: "check_signature E ring t ''Envelope'' sg body = Inl x" and ok: "ring_ok E ring"
      and can: "env_canon E (JObj (prepare_for_signature body)) \<noteq> None" for x t sg body
  proof (cases "ring_get ring (si_key_id sg)")
    case None
    with x show ?thesis by (auto simp: check_signature_def)
  next
    case (Some d)
    from ring_ok_get [OF ok Some] obtain pk where "decode_public_key E (kd_encoded_public_key d) = Inr pk"
      by (auto simp: descriptor_ok_def make_descriptor_Inr)
    with x Some can show ?thesis
      by (auto simp: check_signature_def verify_object_signature_def canonicalize_def verify_def
          require_supported_algorithm_def split: if_splits option.splits sum.splits)
  qed
  have "w_db w1 = w_db w" using s by (simp add: same_db_def)
  then show ?thesis
    unfolding validate_run [OF t s] acceptable_def check_signature_Inr [of E ring _ "''Envelope''" _ _ "()", symmetric]
    using coarse by (intro conjI; simp; blast?)
qed

lemma envelope_validation_exact_witness:
  "\<exists>e x reason. sample_envelope = Inr e \<and>
     fst (validate_inbound_envelope sample_env e (sample_urn ''peer'') (sample_urn ''practice'') sample_ring
       (already_processed (sample_urn ''peer'')) (Some 20) empty_world) = Inl x \<and> coarse_rejection_reason x = Inr reason"
proof -
  obtain e where e: "sample_envelope = Inr e" using sample_envelope_built by blast
  let ?P = "sample_urn ''peer''" and ?T = "sample_urn ''practice''"
  have f: "ne_recipient_node_id e = ?P" "ne_expires_at e = 20"
    using e unfolding sample_envelope_def by (auto elim: build_signed_envelope_Inr)
  have at: "instant_or_now sample_env (Some 20) empty_world = (Inr 20, empty_world)"
    by (simp add: instant_or_now_def ret_run)
  have run: "validate_inbound_envelope sample_env e ?P ?T sample_ring (already_processed ?P) (Some 20) empty_world =
      (Inl (EnvelopeNotWithinValidityWindowError (ne_message_id e) (ne_sent_at e) (ne_expires_at e) 20), empty_world)"
    unfolding validate_run [OF at same_db_refl] using f by simp
  have "validate_inbound_envelope sample_env e ?P ?T sample_ring (already_processed ?P) (Some 20) empty_world =
      (Inl (EnvelopeNotWithinValidityWindowError (ne_message_id e) (ne_sent_at e) (ne_expires_at e) 20), empty_world) \<and>
      ring_ok sample_env sample_ring \<and>
      env_canon sample_env (JObj (prepare_for_signature (envelope_dump sample_env e))) \<noteq> None"
    using run by simp
  with envelope_validation_exact [of sample_env e ?P ?T sample_ring "Some 20" empty_world] e show ?thesis
    by (metis fst_conv)
qed

text \<open>
  C16. No replay, however the table is pruned: once a node has recorded an envelope's id with
  the envelope's own expiry, then after any further records and any prunings at instants up to
  now, that node's validation of the envelope fails now.
\<close>

theorem replay_is_refused:
  assumes "new_processed_id_store grace = Inr g"
    and "distinct (map processed_key (processed_ids_tbl (w_db w)))"
    and "record_processed (ne_message_id e) kind node (ne_expires_at e) t0 w = (Inr True, w1)"
    and "\<forall>t1. Prune t1 \<in> set calls \<longrightarrow> t1 \<le> t"
  shows "\<exists>x w3. validate_inbound_envelope E e node trusted ring (already_processed node) (Some t)
    (run_all (run_processed g) calls w1) = (Inl x, w3)"
proof -
  let ?w2 = "run_all (run_processed g) calls w1"
  let ?r = "\<lparr>pr_id = ne_message_id e, pr_id_kind = kind, pr_recipient_node_id = node, pr_processed_at = t0,
    pr_expires_at = ne_expires_at e\<rparr>"
  have g: "0 \<le> g" using assms(1) by (auto simp: new_processed_id_store_def split: if_splits)
  have run: "tx (record_processed_core ?r) w = (Inr True, w1)" using assms(3) by (simp add: record_processed_def)
  have d1: "distinct (map processed_key (processed_ids_tbl (w_db w1)))"
    using processed.distinct_keys [OF assms(2), of "[?r]"] run by simp
  have r1: "?r \<in> set (processed_ids_tbl (w_db w1))" using processed.ins_Inr [OF run] by simp
  have refuse: "\<not> acceptable E e node trusted ring (seen_by node (ne_message_id e) ?w2) t"
  proof (cases "t < ne_expires_at e")
    case True
    have "\<forall>at. Prune at \<in> set calls \<longrightarrow> at < pr_expires_at ?r" using assms(4) True by fastforce
    from run_all_processed_keeps [OF g d1 r1 this] have "?r \<in> set (processed_ids_tbl (w_db ?w2))" .
    then have "seen_by node (ne_message_id e) ?w2"
      unfolding seen_by_def by (intro image_eqI [of _ _ ?r]) (simp_all add: processed_key_def)
    then show ?thesis by (simp add: acceptable_def)
  next
    case False
    then show ?thesis by (simp add: acceptable_def)
  qed
  have at: "instant_or_now E (Some t) ?w2 = (Inr t, ?w2)" by (simp add: instant_or_now_def ret_run)
  have "check_signature E ring t ''Envelope'' sg body \<noteq> Inr () \<Longrightarrow>
      \<exists>x. check_signature E ring t ''Envelope'' sg body = Inl x" for sg body
    by (rule not_Inr_unit)
  then show ?thesis
    using refuse unfolding validate_run [OF at same_db_refl] acceptable_def
      check_signature_Inr [of E ring t "''Envelope''" _ _ "()", symmetric] by auto
qed

theorem replay_is_refused_witness:
  "\<exists>e x w3. sample_envelope = Inr e \<and>
     validate_inbound_envelope sample_env e (sample_urn ''peer'') (sample_urn ''practice'') sample_ring
       (already_processed (sample_urn ''peer'')) (Some 15)
       (run_all (run_processed 0) [Prune 15] (snd (record_processed (ne_message_id e) ''envelope''
          (sample_urn ''peer'') (ne_expires_at e) 12 empty_world))) = (Inl x, w3)"
proof -
  obtain e where e: "sample_envelope = Inr e" using sample_envelope_built by blast
  obtain w1 where r: "record_processed (ne_message_id e) ''envelope'' (sample_urn ''peer'') (ne_expires_at e) 12 empty_world
      = (Inr True, w1)"
    by (simp add: record_processed_def record_processed_core_def insert_on_conflict_do_nothing_def tx_def
        PROCESSED_ID_KINDS_def empty_world_def empty_db_def)
  have "new_processed_id_store 0 = Inr 0" by (simp add: new_processed_id_store_def)
  moreover have "distinct (map processed_key (processed_ids_tbl (w_db empty_world)))"
    by (simp add: empty_world_def empty_db_def)
  ultimately show ?thesis using replay_is_refused [OF _ _ r, of 0 0 "[Prune 15]" 15] e r by auto
qed

text \<open>
  C40. What one node signs its peer accepts: an envelope that \<^verbatim>\<open>build_signed_envelope\<close> returns
  passes \<^verbatim>\<open>validate_inbound_envelope\<close> at the recipient it names, at every instant of its
  window, as long as the recipient has not processed it and holds the sender's public key as an
  active key valid at that instant.
\<close>

theorem signed_envelope_is_accepted:
  assumes "build_signed_envelope E payload kind i sn sp rn t0 t1 sk kid ''Ed25519'' = Inr e"
    and "key_pair E sk pk" and "ring_get ring kid = Some d" and "kd_state d = ''active''"
    and "decode_public_key E (kd_encoded_public_key d) = Inr pk"
    and "t0 \<le> t" "t < t1" and "kd_valid_from d \<le> t" "t < kd_valid_until d" and "\<not> seen_by rn i w"
  shows "validate_inbound_envelope E e rn sp ring (already_processed rn) (Some t) w = (Inr (), w)"
proof -
  obtain h draft v where h: "map_of payload ''content_hash'' = Some (JStr h)"
    and v: "sign_object E sk (envelope_dump E draft) ''Ed25519'' = Inr v"
    and e: "e = draft\<lparr>ne_signature := \<lparr>si_signer_practice_id = sp, si_key_id = kid, si_algorithm = ''Ed25519'',
           si_signed_at = t0, si_value = v\<rparr>\<rparr>"
    and f: "ne_recipient_node_id e = rn" "ne_payload e = payload" "ne_payload_content_hash e = h"
      "ne_sent_at e = t0" "ne_expires_at e = t1" "ne_message_id e = i"
    by (rule build_signed_envelope_Inr [OF assms(1)])
  have s: "si_signer_practice_id (ne_signature e) = sp" "si_key_id (ne_signature e) = kid"
    "si_value (ne_signature e) = v" "si_algorithm (ne_signature e) = ''Ed25519''" by (simp_all add: e)
  have "prepare_for_signature (envelope_dump E e) = prepare_for_signature (envelope_dump E draft)"
    by (simp add: e envelope_dump_unsigned)
  from made_signature_verifies [OF v assms(2) this _ assms(4,8,9,5) s(3,4)] assms(3) s(2)
  have "signature_verifies E ring t (ne_signature e) (envelope_dump E e)" by simp
  then have c: "check_signature E ring t ''Envelope'' (ne_signature e) (envelope_dump E e) = Inr ()"
    by (simp only: check_signature_Inr)
  have at: "instant_or_now E (Some t) w = (Inr t, w)" by (simp add: instant_or_now_def ret_run)
  show ?thesis unfolding validate_run [OF at same_db_refl] using f s h c assms(6,7,10) by simp
qed

theorem signed_envelope_is_accepted_witness:
  "\<exists>e. sample_envelope = Inr e \<and>
     validate_inbound_envelope sample_env e (sample_urn ''peer'') (sample_urn ''practice'') sample_ring
       (already_processed (sample_urn ''peer'')) (Some 15) empty_world = (Inr (), empty_world)"
proof -
  obtain e where e: "sample_envelope = Inr e" using sample_envelope_built by blast
  have "\<not> seen_by (sample_urn ''peer'') (sample_urn ''message'') empty_world"
    by (simp add: seen_by_def empty_world_def empty_db_def)
  from signed_envelope_is_accepted [OF e [unfolded sample_envelope_def] key_pair_sample sample_descriptor_found(1,2)
      _ _ _ _ _ this, of 15] have "validate_inbound_envelope sample_env e (sample_urn ''peer'') (sample_urn ''practice'')
      sample_ring (already_processed (sample_urn ''peer'')) (Some 15) empty_world = (Inr (), empty_world)" by simp
  with e show ?thesis by blast
qed

text \<open>
  What one node bundles its peer unpacks: a bundle that \<^verbatim>\<open>build_outbox_bundle\<close> returns
  passes \<^verbatim>\<open>validate_inbound_bundle\<close> under the same conditions, and the recipient gets the
  envelopes that went in, in their order.
\<close>

lemma outbox_bundle_is_accepted:
  assumes "build_outbox_bundle E es i nonce sn sp rn t0 t1 sk kid enc st ''Ed25519'' = Inr b"
    and "key_pair E sk pk" and "ring_get ring kid = Some d" and "kd_state d = ''active''"
    and "decode_public_key E (kd_encoded_public_key d) = Inr pk"
    and "t0 \<le> t" "t < t1" and "kd_valid_from d \<le> t" "t < kd_valid_until d" and "\<not> seen_by rn i w"
  shows "validate_inbound_bundle E b rn sp ring (already_processed rn) (Some t) w = (Inr es, w)"
proof -
  obtain draft v s where v: "sign_object E sk (bundle_dump E draft) ''Ed25519'' = Inr v"
    and b: "b = draft\<lparr>ob_signature := s\<rparr>" and s: "si_signer_practice_id s = sp" "si_key_id s = kid"
      "si_algorithm s = ''Ed25519''" "si_value s = v"
    and f: "ob_recipient_node_id b = rn" "ob_created_at b = t0" "ob_expires_at b = t1" "ob_bundle_id b = i"
      "ob_envelopes b = es" and xs: "bundle_entries E es = Inr (ob_entries b)"
    by (rule build_outbox_bundle_Inr [OF assms(1)])
  have bs: "ob_signature b = s" by (simp add: b)
  have "prepare_for_signature (bundle_dump E b) = prepare_for_signature (bundle_dump E draft)"
    by (simp add: b bundle_dump_unsigned)
  from made_signature_verifies [OF v assms(2) this _ assms(4,8,9,5) s(4,3)] assms(3) s(2)
  have sv: "signature_verifies E ring t s (bundle_dump E b)" by simp
  have at: "instant_or_now E (Some t) w = (Inr t, w)" by (simp add: instant_or_now_def ret_run)
  have c: "check_entries E (ob_bundle_id b) (ob_entries b) (ob_envelopes b) = Inr ()"
    unfolding f(5) by (rule bundle_entries_checked [OF xs])
  have "validate_inbound_bundle E b rn sp ring (already_processed rn) (Some t) w = (Inr (ob_envelopes b), w)"
    by (rule validate_bundle_run [OF at same_db_refl f(1)]) (use f s bs sv c assms(6,7,10) in simp_all)
  then show ?thesis by (simp add: f(5))
qed

lemma outbox_bundle_is_accepted_witness:
  "\<exists>e b. sample_envelope = Inr e \<and>
     validate_inbound_bundle sample_env b (sample_urn ''peer'') (sample_urn ''practice'') sample_ring
       (already_processed (sample_urn ''peer'')) (Some 15) empty_world = (Inr [e], empty_world)"
proof -
  obtain e where e: "sample_envelope = Inr e" using sample_envelope_built by blast
  obtain b where b: "build_outbox_bundle sample_env [e] (sample_urn ''bundle'') ''nonce-of-16-chars''
      (sample_urn ''node'') (sample_urn ''practice'') (sample_urn ''peer'') 10 20 sample_key
      (derive_key_id sample_key) None None ''Ed25519'' = Inr b"
    by (simp add: build_outbox_bundle_def compute_content_hash_def canonicalize_def new_bundle_def
        entries_correspond_def sign_object_def sign_def require_supported_algorithm_def
        supported_algorithms_def Let_def sample_env_def)
  have "\<not> seen_by (sample_urn ''peer'') (sample_urn ''bundle'') empty_world"
    by (simp add: seen_by_def empty_world_def empty_db_def)
  from outbox_bundle_is_accepted [OF b key_pair_sample sample_descriptor_found(1,2) _ _ _ _ _ this, of 15] e
  show ?thesis by auto
qed

end
