(* ===== verification/Event_Log.thy ===== *)
theory Event_Log
  imports Database
begin

text \<open>
  The append-only event log with its transactional outbox, \<^verbatim>\<open>PostgresEventLog\<close> and
  \<^verbatim>\<open>InProcessOutboxDispatcher\<close> of
  \<^verbatim>\<open>packages/persistence/mrr/persistence/repositories.py\<close>, and \<^verbatim>\<open>record_event\<close> of
  \<^verbatim>\<open>packages/persistence/mrr/persistence/unit_of_work.py\<close>. The invariant \<open>log_ok\<close> says that the
  stored chain verifies and that the outbox has one row per event; the locale \<open>event_log\<close> is
  what a service may rely on.
\<close>

section \<open>The log\<close>

definition events_by_sequence :: "world \<Rightarrow> appended_event list" where
  "events_by_sequence w = sort_key ae_sequence (domain_events_tbl (w_db w))"

definition prev_hash_of :: "world \<Rightarrow> string option" where
  "prev_hash_of w = map_option ae_content_hash (last_opt (events_by_sequence w))"

definition pending_entry :: "string \<Rightarrow> instant \<Rightarrow> outbox_entry" where
  "pending_entry i t = \<lparr>ox_event_id = i, ox_status = ''pending'', ox_created_at = t,
     ox_dispatched_at = None, ox_attempts = 0\<rparr>"

definition append_event :: "env \<Rightarrow> domain_event \<Rightarrow> (world, appended_event) prog" where
  "append_event E e =
     bindp (asks prev_hash_of) (\<lambda>prev.
     bindp (lift (compute_event_hash E e prev)) (\<lambda>h.
     bindp (catchp
        (bindp (insert_event_row e h prev) (\<lambda>n.
         bindp (now E) (\<lambda>t.
         bindp (insert_outbox_row (pending_entry (de_id e) t)) (\<lambda>_. ret n))))
        (\<lambda>x. raise (if x = IntegrityErr then EventAppendError (de_id e) else x))) (\<lambda>n.
     ret \<lparr>ae_event = e, ae_sequence = n, ae_content_hash = h, ae_prev_hash = prev\<rparr>)))"

definition row_to_appended_event :: "appended_event \<Rightarrow> appended_event outcome" where
  "row_to_appended_event r =
     (case new_domain_event (ae_event r) of Inl e \<Rightarrow> Inl e | Inr e \<Rightarrow> Inr (r\<lparr>ae_event := e\<rparr>))"

definition read_all :: "(world, appended_event list) prog" where
  "read_all = bindp (asks events_by_sequence) (mapp (\<lambda>r. lift (row_to_appended_event r)))"

definition verify_chain :: "env \<Rightarrow> (world, unit) prog" where
  "verify_chain E = bindp read_all (\<lambda>as. lift (verify_appended_events E as))"

text \<open>\<open>hook\<close> is \<^verbatim>\<open>_after_append\<close>.\<close>

definition record_event ::
  "env \<Rightarrow> (world, unit) prog \<Rightarrow> domain_event \<Rightarrow> (world, appended_event) prog" where
  "record_event E hook e = tx (bindp (append_event E e) (\<lambda>a. bindp hook (\<lambda>_. ret a)))"

section \<open>The invariant\<close>

definition event_ids :: "db \<Rightarrow> string list" where
  "event_ids d = map (\<lambda>a. de_id (ae_event a)) (domain_events_tbl d)"

definition log_ok :: "env \<Rightarrow> world \<Rightarrow> bool" where
  "log_ok E w \<longleftrightarrow>
     (let d = w_db w; as = domain_events_tbl d
      in verify_appended_events E as = Inr () \<and>
         sorted_wrt (<) (map ae_sequence as) \<and>
         (\<forall>a \<in> set as. ae_sequence a < w_next_seq w \<and> event_ok (ae_event a)) \<and>
         distinct (event_ids d) \<and>
         map ox_event_id (outbox_tbl d) = event_ids d)"

lemma log_ok_sorted: "log_ok E w \<Longrightarrow> events_by_sequence w = domain_events_tbl (w_db w)"
proof -
  assume "log_ok E w"
  then have "sorted (map ae_sequence (domain_events_tbl (w_db w)))"
    by (auto simp: log_ok_def Let_def intro: strict_sorted_imp_sorted)
  then show ?thesis unfolding events_by_sequence_def by (rule sort_key_id_if_sorted)
qed

lemma log_ok_prev: "log_ok E w \<Longrightarrow> prev_hash_of w = end_hash None (domain_events_tbl (w_db w))"
  by (simp add: prev_hash_of_def log_ok_sorted last_opt_def end_hash_def)

lemma log_ok_same_db: "log_ok E w \<Longrightarrow> same_db w w' \<Longrightarrow> log_ok E w'"
  by (fastforce simp: log_ok_def same_db_def Let_def)

lemma log_ok_empty: "log_ok E empty_world"
  by (simp add: log_ok_def empty_world_def empty_db_def verify_appended_events_def event_ids_def)

text \<open>Only two tables and the counter matter to the log.\<close>

lemma log_ok_cong:
  assumes "log_ok E w" and "domain_events_tbl (w_db w') = domain_events_tbl (w_db w)"
    and "map ox_event_id (outbox_tbl (w_db w')) = map ox_event_id (outbox_tbl (w_db w))"
    and "w_next_seq w \<le> w_next_seq w'"
  shows "log_ok E w'"
  using assms by (fastforce simp: log_ok_def Let_def event_ids_def)

text \<open>What \<^const>\<open>append_event\<close> does, branch by branch.\<close>

definition appended_row :: "env \<Rightarrow> domain_event \<Rightarrow> world \<Rightarrow> string \<Rightarrow> appended_event" where
  "appended_row E e w h =
     \<lparr>ae_event = e, ae_sequence = w_next_seq w, ae_content_hash = h, ae_prev_hash = prev_hash_of w\<rparr>"

definition appended_world :: "env \<Rightarrow> domain_event \<Rightarrow> world \<Rightarrow> string \<Rightarrow> world" where
  "appended_world E e w h =
     w\<lparr>w_next_seq := w_next_seq w + 1, w_ticks := Suc (w_ticks w),
       w_db := (w_db w)\<lparr>domain_events_tbl := domain_events_tbl (w_db w) @ [appended_row E e w h],
                       outbox_tbl := outbox_tbl (w_db w) @
                         [pending_entry (de_id e) (env_now E (w_ticks w))]\<rparr>\<rparr>"

lemma append_event_run:
  assumes ok: "log_ok E w"
  shows "append_event E e w =
    (case compute_event_hash E e (prev_hash_of w) of
       Inl x \<Rightarrow> (Inl x, w)
     | Inr h \<Rightarrow>
         if de_id e \<in> set (event_ids (w_db w))
         then (Inl (EventAppendError (de_id e)), w\<lparr>w_next_seq := w_next_seq w + 1\<rparr>)
         else (Inr (appended_row E e w h), appended_world E e w h))"
proof (cases "compute_event_hash E e (prev_hash_of w)")
  case (Inl x)
  then show ?thesis by (simp add: append_event_def bindp_def prog_simps)
next
  case (Inr h)
  have seq: "\<forall>s \<in> set (domain_events_tbl (w_db w)). ae_sequence s \<noteq> w_next_seq w"
    using ok by (fastforce simp: log_ok_def Let_def)
  have fresh: "(\<forall>s \<in> set (domain_events_tbl (w_db w)).
      de_id (ae_event s) \<noteq> de_id e \<and> ae_sequence s \<noteq> w_next_seq w) \<longleftrightarrow>
      de_id e \<notin> set (event_ids (w_db w))"
    using seq unfolding event_ids_def set_map image_iff by metis
  have "set (map ox_event_id (outbox_tbl (w_db w))) = set (event_ids (w_db w))"
    using ok by (simp add: log_ok_def Let_def)
  then have box: "(\<forall>s \<in> set (outbox_tbl (w_db w)). ox_event_id s \<noteq> de_id e) \<longleftrightarrow>
      de_id e \<notin> set (event_ids (w_db w))"
    unfolding set_map by (metis image_iff)
  show ?thesis
    using Inr
    by (simp add: append_event_def bindp_def catchp_def prog_simps Let_def fresh box
        pending_entry_def OUTBOX_STATUSES_def appended_row_def appended_world_def)
qed

lemma append_event_Inr:
  assumes "log_ok E w" and "append_event E e w = (Inr a, w')"
  obtains h where "compute_event_hash E e (prev_hash_of w) = Inr h"
    and "de_id e \<notin> set (event_ids (w_db w))"
    and "a = appended_row E e w h" and "w' = appended_world E e w h"
  using assms(2) unfolding append_event_run [OF assms(1)]
  by (auto split: sum.splits if_splits)

lemma append_event_Inl:
  assumes "log_ok E w" and "append_event E e w = (Inl x, w')"
  shows "same_db w w' \<and>
    (x = CanonicalizationError \<and> env_canon E (JObj (event_to_hashable_dict e (prev_hash_of w))) = None
     \<or> x = EventAppendError (de_id e) \<and> de_id e \<in> set (event_ids (w_db w)))"
  using assms(2) unfolding append_event_run [OF assms(1)]
  by (auto simp: same_db_def compute_event_hash_def compute_content_hash_def canonicalize_def
      split: sum.splits if_splits option.splits)

lemma log_ok_appended:
  assumes ok: "log_ok E w" and e: "event_ok e"
    and h: "compute_event_hash E e (prev_hash_of w) = Inr h"
    and fresh: "de_id e \<notin> set (event_ids (w_db w))"
  shows "log_ok E (appended_world E e w h)"
proof -
  let ?as = "domain_events_tbl (w_db w)"
  have "verify_appended_events E (?as @ [appended_row E e w h]) = Inr ()"
    using ok h by (simp add: verify_appended_events_def verify_from_snoc appended_row_def
        log_ok_prev [OF ok] log_ok_def Let_def)
  moreover have "sorted_wrt (<) (map ae_sequence ?as @ [w_next_seq w])"
    using ok by (auto simp: log_ok_def Let_def sorted_wrt_append)
  ultimately show ?thesis
    using ok e fresh
    by (auto simp: log_ok_def Let_def appended_world_def appended_row_def event_ids_def
        pending_entry_def)
qed

lemma append_event_ok:
  assumes "log_ok E w" and "event_ok e" and "append_event E e w = (r, w')"
  shows "log_ok E w'"
proof (cases r)
  case (Inl x)
  then show ?thesis using assms append_event_Inl log_ok_same_db by metis
next
  case (Inr a)
  with assms(3) have run: "append_event E e w = (Inr a, w')" by simp
  show ?thesis
    by (rule append_event_Inr [OF assms(1) run]) (use assms log_ok_appended in auto)
qed

lemma append_event_seq: "keeps (\<lambda>w w'. w_next_seq w \<le> w_next_seq w') (append_event E e)"
proof (rule keepsI)
  fix w
  show "w_next_seq w \<le> w_next_seq (snd (append_event E e w))"
    unfolding append_event_def insert_event_row_def insert_when_def insert_outbox_row_def
    by (auto simp: bindp_def catchp_def prog_simps next_sequence_def Let_def
        split: sum.splits prod.splits)
qed

lemma read_all_run: "log_ok E w \<Longrightarrow> read_all w = (Inr (domain_events_tbl (w_db w)), w)"
proof -
  have m: "mapp (\<lambda>r. lift (row_to_appended_event r)) as w = (Inr as, w)"
    if "\<forall>a \<in> set as. event_ok (ae_event a)" for as
    using that
    by (induction as) (simp_all add: bindp_def prog_simps row_to_appended_event_def new_domain_event_def)
  assume "log_ok E w"
  then show ?thesis
    using m by (simp add: read_all_def bindp_def prog_simps log_ok_sorted) (simp add: log_ok_def Let_def)
qed

lemma verify_chain_run: "log_ok E w \<Longrightarrow> verify_chain E w = (Inr (), w)"
  by (simp add: verify_chain_def bindp_def prog_simps read_all_run) (simp add: log_ok_def Let_def)

section \<open>The contract of an event log\<close>

text \<open>
  What the services rely on: a successful append adds exactly the given event at the end, a
  refused one adds nothing, and the log stays well-formed either way. \<open>valid\<close> is the
  constructor check of the events.
\<close>

locale event_log =
  fixes inv :: "'w \<Rightarrow> bool" and valid :: "'e \<Rightarrow> bool"
    and append :: "'e \<Rightarrow> 'w \<Rightarrow> 'a outcome \<times> 'w"
    and log :: "'w \<Rightarrow> 'a list" and event :: "'a \<Rightarrow> 'e"
    and check :: "'w \<Rightarrow> unit outcome"
  assumes append_inv: "inv w \<Longrightarrow> valid e \<Longrightarrow> append e w = (r, w') \<Longrightarrow> inv w'"
    and append_ok: "inv w \<Longrightarrow> valid e \<Longrightarrow> append e w = (Inr a, w') \<Longrightarrow>
      log w' = log w @ [a] \<and> event a = e"
    and append_refused: "inv w \<Longrightarrow> valid e \<Longrightarrow> append e w = (Inl x, w') \<Longrightarrow> log w' = log w"
    and check_ok: "inv w \<Longrightarrow> check w = Inr ()"
begin

lemma append_all:
  assumes "inv w" and "\<forall>e \<in> set es. valid e"
  shows "inv (run_all append es w) \<and>
    (\<exists>as. log (run_all append es w) = log w @ as \<and> subseq (map event as) es)"
  using assms
proof (induction es arbitrary: w)
  case (Cons e es)
  obtain r w1 where r: "append e w = (r, w1)" by fastforce
  with Cons.prems have i: "inv w1" by (auto intro: append_inv)
  from Cons.IH [OF i] Cons.prems obtain as where
    as: "inv (run_all append es w1)" "log (run_all append es w1) = log w1 @ as"
      "subseq (map event as) es"
    by auto
  show ?case
  proof (cases r)
    case (Inl x)
    with r Cons.prems have "log w1 = log w" by (auto intro: append_refused)
    with as r show ?thesis by (auto intro: list_emb_Cons)
  next
    case (Inr a)
    with r Cons.prems append_ok [of w e a w1] have "log w1 = log w @ [a]" "event a = e" by auto
    with as r have "log (run_all append (e # es) w) = log w @ (a # as)"
      "subseq (map event (a # as)) (e # es)" by simp_all
    with as r show ?thesis by auto
  qed
qed simp

lemma append_all_check:
  "inv w \<Longrightarrow> \<forall>e \<in> set es. valid e \<Longrightarrow> check (run_all append es w) = Inr ()"
  using append_all check_ok by blast

end

lemma record_event_ok:
  assumes ok: "log_ok E w" and e: "event_ok e" and r: "record_event E (ret ()) e w = (r, w')"
  shows "log_ok E w'"
    and "r = Inr a \<Longrightarrow> domain_events_tbl (w_db w') = domain_events_tbl (w_db w) @ [a] \<and> ae_event a = e"
    and "r = Inl x \<Longrightarrow> w_db w' = w_db w"
proof -
  obtain r1 w1 where a: "append_event E e w = (r1, w1)" by fastforce
  have run: "record_event E (ret ()) e w =
      (case r1 of Inl x \<Rightarrow> (Inl x, w1\<lparr>w_db := w_db w\<rparr>) | Inr y \<Rightarrow> (Inr y, w1))"
    using a by (cases r1) (simp_all add: record_event_def tx_def bindp_def prog_simps)
  show "w_db w' = w_db w" if "r = Inl x" using run r that by (auto split: sum.splits)
  show "domain_events_tbl (w_db w') = domain_events_tbl (w_db w) @ [a] \<and> ae_event a = e"
    if "r = Inr a"
  proof -
    from run r that a have "append_event E e w = (Inr a, w')" by (auto split: sum.splits)
    then show ?thesis
      by (rule append_event_Inr [OF ok]) (simp add: appended_world_def appended_row_def)
  qed
  show "log_ok E w'"
  proof (cases r1)
    case (Inl x)
    with a append_event_Inl [OF ok] have "same_db w w1" by blast
    with run r Inl have "same_db w w'" by (auto simp: same_db_def)
    with ok show ?thesis by (rule log_ok_same_db)
  next
    case (Inr y)
    with run r a append_event_ok [OF ok e] show ?thesis by auto
  qed
qed

interpretation pg_log: event_log "log_ok E" event_ok "record_event E (ret ())"
  "\<lambda>w. domain_events_tbl (w_db w)" ae_event "\<lambda>w. fst (verify_chain E w)" for E
proof unfold_locales
  show "log_ok E w \<Longrightarrow> event_ok e \<Longrightarrow> record_event E (ret ()) e w = (r, w') \<Longrightarrow> log_ok E w'"
    for w e r w' by (rule record_event_ok)
  show "log_ok E w \<Longrightarrow> event_ok e \<Longrightarrow> record_event E (ret ()) e w = (Inr a, w') \<Longrightarrow>
      domain_events_tbl (w_db w') = domain_events_tbl (w_db w) @ [a] \<and> ae_event a = e"
    for w e a w' by (rule record_event_ok(2)) auto
  show "log_ok E w \<Longrightarrow> event_ok e \<Longrightarrow> record_event E (ret ()) e w = (Inl x, w') \<Longrightarrow>
      domain_events_tbl (w_db w') = domain_events_tbl (w_db w)"
    for w e x w' using record_event_ok(3) [of E w e "Inl x" w' x] by simp
  show "log_ok E w \<Longrightarrow> fst (verify_chain E w) = Inr ()" for w
    by (simp add: verify_chain_run)
qed

section \<open>Tampering\<close>

text \<open>
  RFC 8785 output is JSON text that parses back, so two objects with the same canonical bytes
  agree on every member whose value is not itself an array or an object. This is the one fact
  about the third-party canonicalizer the tamper evidence needs.
\<close>

fun scalar :: "json \<Rightarrow> bool" where
  "scalar (JArr _) = False"
| "scalar (JObj _) = False"
| "scalar _ = True"

definition canon_faithful :: "env \<Rightarrow> bool" where
  "canon_faithful E \<longleftrightarrow>
     (\<forall>d d' b k v. env_canon E (JObj d) = Some b \<and> env_canon E (JObj d') = Some b \<and>
        map_of d k = Some v \<and> scalar v \<longrightarrow> map_of d' k = Some v)"

text \<open>Everything the hash covers except the payload.\<close>

definition event_header :: "domain_event \<Rightarrow> string option \<Rightarrow> dict" where
  "event_header e p = filter (\<lambda>kv. fst kv \<noteq> ''payload'') (event_to_hashable_dict e p)"

lemma canon_header:
  assumes "canon_faithful E"
    and "env_canon E (JObj (event_to_hashable_dict e p)) = Some b"
    and "env_canon E (JObj (event_to_hashable_dict e' p')) = Some b"
  shows "event_header e p = event_header e' p'" and "p = p'"
proof -
  let ?d = "event_to_hashable_dict e p" and ?d' = "event_to_hashable_dict e' p'"
  have agree: "map_of ?d' k = Some v" if "map_of ?d k = Some v" "scalar v" for k v
    using assms that unfolding canon_faithful_def by blast
  have o: "scalar (opt_str x)" for x by (cases x) (simp_all add: opt_str_def)
  have "map_of ?d' ''prev_hash'' = Some (opt_str p)"
    "map_of ?d' ''id'' = Some (JStr (de_id e))"
    "map_of ?d' ''event_type'' = Some (JStr (de_event_type e))"
    "map_of ?d' ''occurred_at'' = Some (JStr (isoformat (de_occurred_at e)))"
    "map_of ?d' ''actor'' = Some (JStr (de_actor e))"
    "map_of ?d' ''policy_version'' = Some (JStr (de_policy_version e))"
    "map_of ?d' ''causation_id'' = Some (opt_str (de_causation_id e))"
    "map_of ?d' ''correlation_id'' = Some (JStr (de_correlation_id e))"
    "map_of ?d' ''object_id'' = Some (JStr (de_object_id e))"
    "map_of ?d' ''object_revision'' = Some (JInt (de_object_revision e))"
    by (intro agree; simp add: event_to_hashable_dict_def o)+
  then show "event_header e p = event_header e' p'" and "p = p'"
    by (simp_all add: event_to_hashable_dict_def event_header_def)
qed

definition hash_collision :: "bytes list \<Rightarrow> bytes list \<Rightarrow> bool" where
  "hash_collision xs ys \<longleftrightarrow> (\<exists>x \<in> set xs. \<exists>y \<in> set ys. x \<noteq> y \<and> content_hash x = content_hash y)"

lemma chain_bytes_snoc:
  assumes "verify_from E p (as @ [a]) = Inr ()"
  shows "\<exists>b. env_canon E (JObj (event_to_hashable_dict (ae_event a) (end_hash p as))) = Some b \<and>
    content_hash b = ae_content_hash a \<and> chain_bytes E p (as @ [a]) = chain_bytes E p as @ [b]"
  using assms
proof (induction as arbitrary: p)
  case Nil
  then show ?case by (auto simp: compute_event_hash_Inr split: sum.splits if_splits)
next
  case (Cons c as)
  then have "compute_event_hash E (ae_event c) p = Inr (ae_content_hash c)"
    and v: "verify_from E (Some (ae_content_hash c)) (as @ [a]) = Inr ()"
    by (auto split: sum.splits if_splits)
  then show ?case using Cons.IH [OF v] by (auto simp: compute_event_hash_Inr)
qed

definition sealed_row :: "appended_event \<Rightarrow> string \<times> dict" where
  "sealed_row a = (ae_content_hash a, event_header (ae_event a) (ae_prev_hash a))"

lemma chain_tamper:
  assumes "canon_faithful E"
    and "verify_appended_events E as = Inr ()" and "verify_appended_events E bs = Inr ()"
    and "end_hash None as = end_hash None bs"
    and "\<not> hash_collision (chain_bytes E None as) (chain_bytes E None bs)"
  shows "chain_bytes E None as = chain_bytes E None bs \<and> map sealed_row as = map sealed_row bs"
  using assms(2-) unfolding verify_appended_events_def
proof (induction as arbitrary: bs rule: rev_induct)
  case Nil
  then show ?case by (cases bs rule: rev_cases) simp_all
next
  case (snoc a as)
  from snoc.prems obtain b bs' where bs: "bs = bs' @ [b]" by (cases bs rule: rev_cases) auto
  with snoc.prems have h: "ae_content_hash a = ae_content_hash b" by simp
  from chain_bytes_snoc [OF snoc.prems(1)] obtain x where
    x: "env_canon E (JObj (event_to_hashable_dict (ae_event a) (end_hash None as))) = Some x"
      "content_hash x = ae_content_hash a" "chain_bytes E None (as @ [a]) = chain_bytes E None as @ [x]"
    by blast
  from chain_bytes_snoc [of E None bs' b] snoc.prems(2) bs obtain y where
    y: "env_canon E (JObj (event_to_hashable_dict (ae_event b) (end_hash None bs'))) = Some y"
      "content_hash y = ae_content_hash b" "chain_bytes E None bs = chain_bytes E None bs' @ [y]"
    by blast
  have xy: "x = y"
    using snoc.prems(4) x y h by (auto simp: hash_collision_def)
  from canon_header [OF assms(1) x(1)] y(1) xy have
    eq: "end_hash None as = end_hash None bs'"
      "event_header (ae_event a) (end_hash None as) = event_header (ae_event b) (end_hash None bs')"
    by auto
  have "\<not> hash_collision (chain_bytes E None as) (chain_bytes E None bs')"
    using snoc.prems(4) x(3) y(3) by (auto simp: hash_collision_def)
  with snoc.IH [of bs'] snoc.prems bs eq(1) have
    "chain_bytes E None as = chain_bytes E None bs' \<and> map sealed_row as = map sealed_row bs'"
    by (simp add: verify_from_snoc)
  moreover have "sealed_row a = sealed_row b"
    using snoc.prems(1,2) bs eq h by (simp add: verify_from_snoc sealed_row_def)
  ultimately show ?case using bs x(3) y(3) xy by simp
qed

section \<open>The outbox dispatcher\<close>

text \<open>
  \<open>handler\<close> is the code's \<^verbatim>\<open>EventHandler\<close>: it acts outside the database and returns or
  raises, so it is a function from the event to an outcome. Every exception is caught and
  counted as a failed attempt.
\<close>

definition pending_event_ids :: "world \<Rightarrow> string list" where
  "pending_event_ids w =
     map ox_event_id (sort_key ox_created_at (filter (\<lambda>r. ox_status r = ''pending'') (outbox_tbl (w_db w))))"

definition load_appended_event :: "string \<Rightarrow> (world, appended_event) prog" where
  "load_appended_event i =
     bindp (asks (\<lambda>w. filter (\<lambda>a. de_id (ae_event a) = i) (domain_events_tbl (w_db w)))) (\<lambda>rs.
       case rs of [r] \<Rightarrow> lift (row_to_appended_event r) | _ \<Rightarrow> raise RuntimeErr)"

definition update_outbox :: "string \<Rightarrow> (outbox_entry \<Rightarrow> outbox_entry) \<Rightarrow> db \<Rightarrow> db" where
  "update_outbox i f d =
     d\<lparr>outbox_tbl := map (\<lambda>r. if ox_event_id r = i then f r else r) (outbox_tbl d)\<rparr>"

definition mark_dispatched :: "env \<Rightarrow> string \<Rightarrow> (world, unit) prog" where
  "mark_dispatched E i =
     tx (bindp (now E) (\<lambda>t. upd_db (update_outbox i (\<lambda>r.
       r\<lparr>ox_status := ''dispatched'', ox_dispatched_at := Some t, ox_attempts := ox_attempts r + 1\<rparr>))))"

definition record_failed_attempt :: "string \<Rightarrow> (world, unit) prog" where
  "record_failed_attempt i =
     tx (upd_db (update_outbox i (\<lambda>r. r\<lparr>ox_attempts := ox_attempts r + 1\<rparr>)))"

fun dispatch_loop ::
  "env \<Rightarrow> (appended_event \<Rightarrow> unit outcome) \<Rightarrow> string list \<Rightarrow> int \<Rightarrow> (world, int) prog" where
  "dispatch_loop E handler [] n = ret n"
| "dispatch_loop E handler (i # is) n =
     bindp (load_appended_event i) (\<lambda>a.
       case handler a of
         Inl _ \<Rightarrow> bindp (record_failed_attempt i) (\<lambda>_. dispatch_loop E handler is n)
       | Inr _ \<Rightarrow> bindp (mark_dispatched E i) (\<lambda>_. dispatch_loop E handler is (n + 1)))"

definition dispatch_pending ::
  "env \<Rightarrow> (appended_event \<Rightarrow> unit outcome) \<Rightarrow> (world, int) prog" where
  "dispatch_pending E handler =
     bindp (asks pending_event_ids) (\<lambda>is. dispatch_loop E handler is 0)"

text \<open>Does the handler accept the event with this id?\<close>

definition handled :: "(appended_event \<Rightarrow> unit outcome) \<Rightarrow> db \<Rightarrow> string \<Rightarrow> bool" where
  "handled handler d i \<longleftrightarrow>
     (\<exists>a \<in> set (domain_events_tbl d). de_id (ae_event a) = i \<and> (\<exists>u. handler a = Inr u))"

text \<open>What an outbox row shows apart from its time stamps, and what it shows after a run.\<close>

definition outbox_view :: "outbox_entry \<Rightarrow> string \<times> string \<times> int" where
  "outbox_view r = (ox_event_id r, ox_status r, ox_attempts r)"

definition delivered_view ::
  "(appended_event \<Rightarrow> unit outcome) \<Rightarrow> db \<Rightarrow> string list \<Rightarrow> outbox_entry \<Rightarrow> string \<times> string \<times> int" where
  "delivered_view handler d is r =
     (if ox_event_id r \<in> set is
      then (ox_event_id r, if handled handler d (ox_event_id r) then ''dispatched'' else ox_status r,
            ox_attempts r + 1)
      else outbox_view r)"

lemma load_appended_event_run:
  assumes "log_ok E w" and "i \<in> set (event_ids (w_db w))"
  obtains a where "a \<in> set (domain_events_tbl (w_db w))" and "de_id (ae_event a) = i"
    and "load_appended_event i w = (Inr a, w)"
    and "handled handler (w_db w) i \<longleftrightarrow> (\<exists>u. handler a = Inr u)"
proof -
  let ?as = "domain_events_tbl (w_db w)"
  from assms obtain a where a: "a \<in> set ?as" "de_id (ae_event a) = i" by (auto simp: event_ids_def)
  have d: "distinct (map (\<lambda>a. de_id (ae_event a)) ?as)" and v: "event_ok (ae_event a)"
    using assms a by (auto simp: log_ok_def Let_def event_ids_def)
  have u: "b = a" if "b \<in> set ?as" "de_id (ae_event b) = i" for b
    using d a that unfolding distinct_map inj_on_def by metis
  have "filter (\<lambda>b. de_id (ae_event b) = i) ?as = filter (\<lambda>b. b = a) ?as"
    by (rule filter_cong) (use u a in blast)+
  also have "\<dots> = [a]"
    by (rule distinct_filter_eq_singleton [OF distinct_mapI [OF d] a(1)])
  finally have "load_appended_event i w = (Inr a, w)"
    using v by (simp add: load_appended_event_def bindp_def prog_simps row_to_appended_event_def
        new_domain_event_def)
  moreover have "handled handler (w_db w) i \<longleftrightarrow> (\<exists>u. handler a = Inr u)"
    unfolding handled_def using a u by blast
  ultimately show ?thesis using a by (intro that)
qed


text \<open>One turn of the loop changes one outbox row, and the log stays well-formed.\<close>

lemma update_outbox_log_ok:
  assumes "log_ok E w" and "\<And>r. ox_event_id (f r) = ox_event_id r"
  shows "log_ok E (w\<lparr>w_ticks := n, w_db := update_outbox i f (w_db w)\<rparr>)"
  by (rule log_ok_cong [OF assms(1)]) (auto simp: update_outbox_def assms(2))

lemma delivered_view_step:
  assumes i: "i \<notin> set is" and ids: "\<And>r. ox_event_id (f r) = ox_event_id r"
    and f: "\<And>r. ox_event_id r = i \<Longrightarrow> outbox_view (f r) = delivered_view handler d [i] r"
  shows "map (delivered_view handler d is) (map (\<lambda>r. if ox_event_id r = i then f r else r) rs) =
         map (delivered_view handler d (i # is)) rs"
  using assms by (auto simp: delivered_view_def outbox_view_def)

lemma dispatch_loop_run:
  assumes "log_ok E w" and "distinct is" and "set is \<subseteq> set (event_ids (w_db w))"
  shows "\<exists>w'. dispatch_loop E handler is n w =
           (Inr (n + int (length (filter (handled handler (w_db w)) is))), w') \<and>
         log_ok E w' \<and> domain_events_tbl (w_db w') = domain_events_tbl (w_db w) \<and>
         w_db w' = (w_db w)\<lparr>outbox_tbl := outbox_tbl (w_db w')\<rparr> \<and>
         map outbox_view (outbox_tbl (w_db w')) =
           map (delivered_view handler (w_db w) is) (outbox_tbl (w_db w))"
  using assms
proof (induction "is" arbitrary: n w)
  case Nil
  then show ?case by (simp add: prog_simps delivered_view_def cong: map_cong)
next
  case (Cons i "is")
  let ?h = "handled handler (w_db w) i"
  from Cons.prems(3) have "i \<in> set (event_ids (w_db w))" by simp
  then obtain a where a: "load_appended_event i w = (Inr a, w)" "?h \<longleftrightarrow> (\<exists>u. handler a = Inr u)"
    by (rule load_appended_event_run [OF Cons.prems(1)])
  define f :: "outbox_entry \<Rightarrow> outbox_entry" where
    "f = (if ?h then (\<lambda>r. r\<lparr>ox_status := ''dispatched'',
            ox_dispatched_at := Some (env_now E (w_ticks w)), ox_attempts := ox_attempts r + 1\<rparr>)
          else (\<lambda>r. r\<lparr>ox_attempts := ox_attempts r + 1\<rparr>))"
  define w1 where "w1 = w\<lparr>w_ticks := (if ?h then Suc (w_ticks w) else w_ticks w),
    w_db := update_outbox i f (w_db w)\<rparr>"
  define n1 where "n1 = (if ?h then n + 1 else n)"
  have step: "dispatch_loop E handler (i # is) n w = dispatch_loop E handler is n1 w1"
  proof (cases "handler a")
    case (Inl x)
    with a have "\<not> ?h" by simp
    with a(1) Inl show ?thesis
      by (simp add: bindp_def record_failed_attempt_def tx_def upd_db_run w1_def n1_def f_def)
  next
    case (Inr u)
    with a have "?h" by simp
    with a(1) Inr show ?thesis
      by (simp add: bindp_def mark_dispatched_def tx_def now_run upd_db_run w1_def n1_def f_def)
  qed
  have fid: "ox_event_id (f r) = ox_event_id r" for r by (simp add: f_def)
  have fv: "outbox_view (f r) = delivered_view handler (w_db w) [i] r" if "ox_event_id r = i" for r
    using that by (simp add: f_def outbox_view_def delivered_view_def)
  have ok: "log_ok E w1" unfolding w1_def by (rule update_outbox_log_ok [OF Cons.prems(1) fid])
  have ev: "domain_events_tbl (w_db w1) = domain_events_tbl (w_db w)"
    by (simp add: w1_def update_outbox_def)
  then have ids: "event_ids (w_db w1) = event_ids (w_db w)"
    and hd: "handled handler (w_db w1) = handled handler (w_db w)"
    by (simp_all add: event_ids_def handled_def fun_eq_iff)
  then have dv: "delivered_view handler (w_db w1) = delivered_view handler (w_db w)"
    by (simp add: delivered_view_def fun_eq_iff)
  from Cons.IH [OF ok, of n1] Cons.prems(2,3) ids obtain w' where
    w': "dispatch_loop E handler is n1 w1 =
           (Inr (n1 + int (length (filter (handled handler (w_db w)) is))), w')"
      "log_ok E w'" "domain_events_tbl (w_db w') = domain_events_tbl (w_db w)"
      "w_db w' = (w_db w1)\<lparr>outbox_tbl := outbox_tbl (w_db w')\<rparr>"
      "map outbox_view (outbox_tbl (w_db w')) =
         map (delivered_view handler (w_db w) is) (outbox_tbl (w_db w1))"
    unfolding hd dv ev by auto
  have "map (delivered_view handler (w_db w) is) (outbox_tbl (w_db w1)) =
        map (delivered_view handler (w_db w) (i # is)) (outbox_tbl (w_db w))"
    unfolding w1_def update_outbox_def
    using delivered_view_step [OF _ fid fv, where rs = "outbox_tbl (w_db w)"] Cons.prems(2)
    by simp
  moreover have "(w_db w1)\<lparr>outbox_tbl := x\<rparr> = (w_db w)\<lparr>outbox_tbl := x\<rparr>" for x
    by (simp add: w1_def update_outbox_def)
  ultimately show ?case using w' unfolding step n1_def by simp
qed

section \<open>Properties\<close>

definition sample_log_world :: world where
  "sample_log_world = appended_world sample_env sample_event empty_world (content_hash ''{}'')"

lemma log_ok_sample: "log_ok sample_env sample_log_world"
  unfolding sample_log_world_def
  by (rule log_ok_appended [OF log_ok_empty event_ok_sample])
    (simp_all add: compute_event_hash_Inr event_ids_def empty_world_def empty_db_def)

text \<open>
  C36. Appending is exact on every branch: in a well-formed log \<^verbatim>\<open>append\<close> stores the event at
  the end, chained to the hash of the event before it, with its pending outbox row, unless
  the event cannot be canonicalized or its id is already in the log; these two cases raise
  their typed errors and leave every table as it was. The log stays well-formed.
\<close>

theorem append_event_exact:
  assumes "log_ok E w" and "event_ok e"
  shows "case append_event E e w of
      (Inr a, w') \<Rightarrow> log_ok E w' \<and> de_id e \<notin> set (event_ids (w_db w)) \<and>
        ae_event a = e \<and> ae_prev_hash a = end_hash None (domain_events_tbl (w_db w)) \<and>
        compute_event_hash E e (ae_prev_hash a) = Inr (ae_content_hash a) \<and>
        (\<exists>t. w_db w' = (w_db w)\<lparr>domain_events_tbl := domain_events_tbl (w_db w) @ [a],
                               outbox_tbl := outbox_tbl (w_db w) @ [pending_entry (de_id e) t]\<rparr>)
    | (Inl x, w') \<Rightarrow> log_ok E w' \<and> w_db w' = w_db w \<and>
        (x = CanonicalizationError \<and>
           env_canon E (JObj (event_to_hashable_dict e (end_hash None (domain_events_tbl (w_db w))))) = None
         \<or> x = EventAppendError (de_id e) \<and> de_id e \<in> set (event_ids (w_db w)))"
proof -
  obtain r w' where run: "append_event E e w = (r, w')" by fastforce
  have ok: "log_ok E w'" using append_event_ok [OF assms run] .
  show ?thesis
  proof (cases r)
    case (Inl x)
    with run append_event_Inl [OF assms(1)] ok show ?thesis
      by (auto simp: same_db_def log_ok_prev [OF assms(1)])
  next
    case (Inr a)
    with run have run': "append_event E e w = (Inr a, w')" by simp
    obtain h where "compute_event_hash E e (prev_hash_of w) = Inr h"
      "de_id e \<notin> set (event_ids (w_db w))" "a = appended_row E e w h" "w' = appended_world E e w h"
      by (rule append_event_Inr [OF assms(1) run'])
    with ok run' show ?thesis
      by (auto simp: appended_row_def appended_world_def log_ok_prev [OF assms(1), symmetric])
  qed
qed

theorem append_event_exact_witness:
  "\<exists>w'. append_event sample_env sample_event sample_log_world = (Inl (EventAppendError (de_id sample_event)), w')
     \<and> w_db w' = w_db sample_log_world"
proof -
  have "de_id sample_event \<in> set (event_ids (w_db sample_log_world))"
    by (simp add: sample_log_world_def appended_world_def appended_row_def event_ids_def)
  with append_event_exact [OF log_ok_sample event_ok_sample] show ?thesis
    by (cases "append_event sample_env sample_event sample_log_world") (auto split: sum.splits)
qed

text \<open>
  C3. The chain always verifies: from a well-formed log (the empty one is), whatever sequence
  of events is recorded, each in its own transaction and some of them refused,
  \<^verbatim>\<open>verify_chain\<close> accepts the resulting log, and the log has only grown at its end, by
  events of that sequence in their order.
\<close>

theorem recorded_chain_verifies:
  assumes "log_ok E w" and "\<forall>e \<in> set es. event_ok e"
  defines "w' \<equiv> run_all (record_event E (ret ())) es w"
  shows "fst (verify_chain E w') = Inr () \<and>
    (\<exists>as. domain_events_tbl (w_db w') = domain_events_tbl (w_db w) @ as \<and>
          subseq (map ae_event as) es)"
  unfolding w'_def using pg_log.append_all [OF assms(1,2)] pg_log.append_all_check [OF assms(1,2)]
  by blast

theorem recorded_chain_verifies_witness:
  "fst (verify_chain sample_env
     (run_all (record_event sample_env (ret ())) [sample_event, sample_event] sample_log_world)) = Inr ()"
  using recorded_chain_verifies [OF log_ok_sample, of "[sample_event, sample_event]"] by simp

text \<open>
  C18. The head hash commits to the whole history: two logs that verify and end in the same
  content hash have the same length and agree row by row in content hash and in every hashed
  field except the payload (and in the canonical bytes, payload included), or the hashed byte
  strings of the two logs contain an explicit SHA-256 collision.
\<close>

theorem head_hash_commits_to_history:
  assumes "canon_faithful E"
    and "verify_appended_events E as = Inr ()" and "verify_appended_events E bs = Inr ()"
    and "end_hash None as = end_hash None bs"
  shows "length as = length bs \<and> map sealed_row as = map sealed_row bs \<and>
      chain_bytes E None as = chain_bytes E None bs
    \<or> hash_collision (chain_bytes E None as) (chain_bytes E None bs)"
proof (cases "hash_collision (chain_bytes E None as) (chain_bytes E None bs)")
  case False
  from chain_tamper [OF assms this] have "map sealed_row as = map sealed_row bs" by blast
  with chain_tamper [OF assms False] show ?thesis by (metis length_map)
qed simp

theorem head_hash_commits_to_history_witness:
  "\<exists>E as bs. canon_faithful E \<and> as \<noteq> [] \<and> verify_appended_events E as = Inr () \<and>
     verify_appended_events E bs = Inr () \<and> end_hash None as = end_hash None bs \<and>
     (map sealed_row as = map sealed_row bs
      \<or> hash_collision (chain_bytes E None as) (chain_bytes E None bs))"
proof -
  let ?d = "event_to_hashable_dict sample_event None"
  let ?E = "sample_env\<lparr>env_canon := (\<lambda>j. if j = JObj ?d then Some ''{}'' else None)\<rparr>"
  let ?as = "[\<lparr>ae_event = sample_event, ae_sequence = 1, ae_content_hash = content_hash ''{}'',
               ae_prev_hash = None\<rparr>]"
  have c: "canon_faithful ?E" by (auto simp: canon_faithful_def split: if_splits)
  have "compute_event_hash ?E sample_event None = Inr (content_hash ''{}'')"
    by (simp add: compute_event_hash_Inr)
  then have v: "verify_appended_events ?E ?as = Inr ()" by (simp add: verify_appended_events_def)
  from head_hash_commits_to_history [OF c v v refl] c v show ?thesis by blast
qed

text \<open>
  The outbox delivers at least once and forgets nothing: \<^verbatim>\<open>dispatch_pending\<close> on a
  well-formed log always returns the number of events the handler accepted, marks exactly
  those as dispatched, leaves every event the handler raised on pending, counts one attempt
  on each of them, and touches nothing else in the database.
\<close>

lemma dispatch_pending_exact:
  assumes ok: "log_ok E w"
  shows "\<exists>w'. dispatch_pending E handler w =
           (Inr (int (length (filter (handled handler (w_db w)) (pending_event_ids w)))), w') \<and>
         log_ok E w' \<and> w_db w' = (w_db w)\<lparr>outbox_tbl := outbox_tbl (w_db w')\<rparr> \<and>
         map outbox_view (outbox_tbl (w_db w')) =
           map (\<lambda>r. if ox_status r = ''pending''
                    then (ox_event_id r,
                          if handled handler (w_db w) (ox_event_id r) then ''dispatched'' else ''pending'',
                          ox_attempts r + 1)
                    else outbox_view r) (outbox_tbl (w_db w))"
proof -
  let ?box = "outbox_tbl (w_db w)"
  have eq: "map ox_event_id ?box = event_ids (w_db w)" and d: "distinct (map ox_event_id ?box)"
    using ok by (simp_all add: log_ok_def Let_def)
  have sub: "set (pending_event_ids w) \<subseteq> set (event_ids (w_db w))"
    unfolding eq [symmetric] by (auto simp: pending_event_ids_def)
  have "distinct (map ox_event_id (filter (\<lambda>r. ox_status r = ''pending'') ?box))"
    using d by (rule distinct_map_filter)
  then have dp: "distinct (pending_event_ids w)"
    unfolding pending_event_ids_def distinct_map by auto
  have mem: "ox_event_id r \<in> set (pending_event_ids w) \<longleftrightarrow> ox_status r = ''pending''"
    if "r \<in> set ?box" for r
    using d that unfolding pending_event_ids_def distinct_map inj_on_def by auto
  have "map (delivered_view handler (w_db w) (pending_event_ids w)) ?box =
      map (\<lambda>r. if ox_status r = ''pending''
               then (ox_event_id r,
                     if handled handler (w_db w) (ox_event_id r) then ''dispatched'' else ''pending'',
                     ox_attempts r + 1)
               else outbox_view r) ?box"
    by (rule map_cong [OF refl]) (simp add: delivered_view_def mem)
  with dispatch_loop_run [OF ok dp sub, of handler 0] show ?thesis
    by (auto simp: dispatch_pending_def bindp_def prog_simps)
qed

lemma dispatch_pending_exact_witness:
  "fst (dispatch_pending sample_env (\<lambda>a. Inr ()) sample_log_world) = Inr 1"
proof -
  have "pending_event_ids sample_log_world = [de_id sample_event]"
    by (simp add: pending_event_ids_def sample_log_world_def appended_world_def pending_entry_def
        empty_world_def empty_db_def)
  moreover have "handled (\<lambda>a. Inr ()) (w_db sample_log_world) (de_id sample_event)"
    by (simp add: handled_def sample_log_world_def appended_world_def appended_row_def)
  ultimately show ?thesis
    using dispatch_pending_exact [OF log_ok_sample, of "\<lambda>a. Inr ()"] by auto
qed

end
