(* ===== verification/Object_Store.thy ===== *)
theory Object_Store
  imports Database
begin

text \<open>
  The revisioned object store and the edge store, \<^verbatim>\<open>PostgresObjectRepository\<close> and
  \<^verbatim>\<open>PostgresEdgeRepository\<close> of
  \<^verbatim>\<open>packages/persistence/mrr/persistence/repositories.py\<close>. The invariant \<open>objects_ok\<close> says
  that the revisions of every id are 1, 2, 3 and so on, in the order they were written. The
  locale \<open>revision_store\<close> is the optimistic-concurrency contract of the \<^verbatim>\<open>ObjectRepository\<close>
  protocol.
\<close>

section \<open>Object revisions\<close>

definition history_of :: "db \<Rightarrow> string \<Rightarrow> stored_object list" where
  "history_of d i = filter (\<lambda>r. so_id r = i) (objects_tbl d)"

definition expected_new_revision :: "stored_object \<Rightarrow> int option \<Rightarrow> int outcome" where
  "expected_new_revision r expected =
     (let new = (case expected of None \<Rightarrow> 1 | Some n \<Rightarrow> n + 1)
      in if so_revision r \<noteq> new then Inl ValueError else Inr new)"

text \<open>\<^verbatim>\<open>SELECT max(revision) WHERE id = ...\<close>.\<close>

definition current_max_revision :: "string \<Rightarrow> db \<Rightarrow> int option" where
  "current_max_revision i d =
     (if history_of d i = [] then None else Some (Max (set (map so_revision (history_of d i)))))"

text \<open>
  \<open>pause\<close> is \<^verbatim>\<open>_pause_before_insert\<close>: what other transactions commit between the check and
  the insert. The error report reads the maximum again.
\<close>

definition insert_revision_core ::
  "(world, unit) prog \<Rightarrow> stored_object \<Rightarrow> int option \<Rightarrow> int \<Rightarrow> (world, stored_object) prog" where
  "insert_revision_core pause r expected new =
     bindp (asks (\<lambda>w. current_max_revision (so_id r) (w_db w))) (\<lambda>current.
     bindp (guardp (current = expected) (RevisionConflictError (so_id r) expected current)) (\<lambda>_.
     bindp pause (\<lambda>_.
     bindp (catchp (insert_object_row (r\<lparr>so_revision := new\<rparr>))
       (\<lambda>x. if x = IntegrityErr
             then bindp (asks (\<lambda>w. current_max_revision (so_id r) (w_db w))) (\<lambda>actual.
                  raise (RevisionConflictError (so_id r) expected actual))
             else raise x)) (\<lambda>_.
     ret (r\<lparr>so_revision := new\<rparr>)))))"

definition insert_revision_with_connection ::
  "(world, unit) prog \<Rightarrow> stored_object \<Rightarrow> int option \<Rightarrow> (world, stored_object) prog" where
  "insert_revision_with_connection pause r expected =
     bindp (lift (expected_new_revision r expected)) (\<lambda>new. insert_revision_core pause r expected new)"

definition insert_revision ::
  "(world, unit) prog \<Rightarrow> stored_object \<Rightarrow> int option \<Rightarrow> (world, stored_object) prog" where
  "insert_revision pause r expected =
     bindp (lift (expected_new_revision r expected)) (\<lambda>new.
       tx (insert_revision_core pause r expected new))"

definition get_latest :: "string \<Rightarrow> (world, stored_object) prog" where
  "get_latest i =
     bindp (asks (\<lambda>w. last_opt (sort_key so_revision (history_of (w_db w) i)))) (\<lambda>row.
       case row of None \<Rightarrow> raise (ObjectNotFoundError i None) | Some r \<Rightarrow> ret r)"

definition get_revision :: "string \<Rightarrow> int \<Rightarrow> (world, stored_object) prog" where
  "get_revision i n =
     bindp (asks (\<lambda>w. filter (\<lambda>r. so_revision r = n) (history_of (w_db w) i))) (\<lambda>rows.
       case rows of [] \<Rightarrow> raise (ObjectNotFoundError i (Some n)) | r # _ \<Rightarrow> ret r)"

definition list_revisions :: "string \<Rightarrow> (world, stored_object list) prog" where
  "list_revisions i = asks (\<lambda>w. sort_key so_revision (history_of (w_db w) i))"

section \<open>Edges\<close>

definition add_edge :: "typed_edge \<Rightarrow> (world, typed_edge) prog" where
  "add_edge e =
     bindp (guardp (te_edge_type e \<in> EDGE_VOCABULARY) (UnknownEdgeTypeError (te_edge_type e))) (\<lambda>_.
     bindp (tx (insert_edge_row e)) (\<lambda>_.
     ret e))"

definition edges_by :: "(typed_edge \<Rightarrow> string) \<Rightarrow> string \<Rightarrow> string option \<Rightarrow> (world, typed_edge list) prog" where
  "edges_by column i edge_type =
     asks (\<lambda>w. sort_key te_created_at (filter (\<lambda>e. column e = i \<and>
       (case edge_type of None \<Rightarrow> True | Some t \<Rightarrow> te_edge_type e = t)) (edges_tbl (w_db w))))"

definition edges_from :: "string \<Rightarrow> string option \<Rightarrow> (world, typed_edge list) prog" where
  "edges_from i edge_type = edges_by te_source_id i edge_type"

definition edges_to :: "string \<Rightarrow> string option \<Rightarrow> (world, typed_edge list) prog" where
  "edges_to i edge_type = edges_by te_target_id i edge_type"

section \<open>The invariants\<close>

definition objects_ok :: "db \<Rightarrow> bool" where
  "objects_ok d \<longleftrightarrow>
     (\<forall>i. map so_revision (history_of d i) = [1..int (length (history_of d i))])"

definition edges_ok :: "db \<Rightarrow> bool" where
  "edges_ok d \<longleftrightarrow> distinct (map te_id (edges_tbl d)) \<and> te_edge_type ` set (edges_tbl d) \<subseteq> EDGE_VOCABULARY"

definition current_revision :: "db \<Rightarrow> string \<Rightarrow> int option" where
  "current_revision d i = (if history_of d i = [] then None else Some (int (length (history_of d i))))"

lemma objects_ok_sorted: "objects_ok d \<Longrightarrow> sort_key so_revision (history_of d i) = history_of d i"
  by (rule sort_key_id_if_sorted) (simp add: objects_ok_def)

lemma objects_ok_revs:
  assumes "objects_ok d"
  shows "so_revision ` set (history_of d i) = {1..int (length (history_of d i))}"
proof -
  have "set (map so_revision (history_of d i)) = set [1..int (length (history_of d i))]"
    using assms by (simp only: objects_ok_def)
  then show ?thesis by (simp only: set_map set_upto)
qed

lemma objects_ok_max: "objects_ok d \<Longrightarrow> current_max_revision i d = current_revision d i"
proof -
  assume ok: "objects_ok d"
  show ?thesis
  proof (cases "history_of d i = []")
    case False
    then have "1 \<le> int (length (history_of d i))"
      by (metis length_greater_0_conv less_eq_Suc_le of_nat_1 of_nat_mono One_nat_def)
    then have "Max {1..int (length (history_of d i))} = int (length (history_of d i))"
      by (intro Max_eqI) auto
    with ok False show ?thesis
      unfolding current_max_revision_def current_revision_def by (simp add: objects_ok_revs [OF ok])
  qed (simp add: current_max_revision_def current_revision_def)
qed

lemma objects_ok_nth:
  assumes "objects_ok d" and "n < length (history_of d i)"
  shows "so_revision (history_of d i ! n) = int n + 1"
proof -
  have "map so_revision (history_of d i) ! n = [1..int (length (history_of d i))] ! n"
    using assms by (simp add: objects_ok_def)
  with assms(2) show ?thesis by simp
qed

lemma objects_ok_mem:
  assumes "objects_ok d"
  shows "(\<exists>r \<in> set (history_of d i). so_revision r = n) \<longleftrightarrow> 1 \<le> n \<and> n \<le> int (length (history_of d i))"
proof -
  have "(\<exists>r \<in> set (history_of d i). so_revision r = n) \<longleftrightarrow> n \<in> so_revision ` set (history_of d i)"
    by blast
  then show ?thesis unfolding objects_ok_revs [OF assms] by simp
qed

lemma history_of_append:
  "history_of (d\<lparr>objects_tbl := objects_tbl d @ rs\<rparr>) i = history_of d i @ filter (\<lambda>r. so_id r = i) rs"
  by (simp add: history_of_def)

lemma history_of_cong: "objects_tbl d' = objects_tbl d \<Longrightarrow> history_of d' i = history_of d i"
  by (simp add: history_of_def)

lemma objects_ok_cong: "objects_ok d \<Longrightarrow> objects_tbl d' = objects_tbl d \<Longrightarrow> objects_ok d'"
  by (simp add: objects_ok_def history_of_def)

lemma edges_ok_cong: "edges_ok d \<Longrightarrow> edges_tbl d' = edges_tbl d \<Longrightarrow> edges_ok d'"
  by (simp add: edges_ok_def)

lemma objects_ok_empty: "objects_ok empty_db" and edges_ok_empty: "edges_ok empty_db"
  by (simp_all add: objects_ok_def history_of_def empty_db_def edges_ok_def)

lemma objects_ok_snoc:
  assumes ok: "objects_ok d" and r: "so_revision r = int (length (history_of d (so_id r))) + 1"
  shows "objects_ok (d\<lparr>objects_tbl := objects_tbl d @ [r]\<rparr>)"
  unfolding objects_ok_def
proof
  fix i
  have up: "[1..int n + 1] = [1..int n] @ [int n + 1]" for n
    using upto_rec2 [of 1 "int n + 1"] by simp
  show "map so_revision (history_of (d\<lparr>objects_tbl := objects_tbl d @ [r]\<rparr>) i) =
      [1..int (length (history_of (d\<lparr>objects_tbl := objects_tbl d @ [r]\<rparr>) i))]"
  proof (cases "so_id r = i")
    case True
    with ok r up [of "length (history_of d i)"] show ?thesis
      by (simp add: history_of_append objects_ok_def add.commute)
  next
    case False
    with ok show ?thesis by (simp add: history_of_append objects_ok_def)
  qed
qed

lemma current_revision_cong: "objects_tbl d' = objects_tbl d \<Longrightarrow> current_revision d' i = current_revision d i"
  by (simp add: current_revision_def history_of_def)

section \<open>The operations on a well-formed store\<close>

lemma get_latest_run:
  "objects_ok (w_db w) \<Longrightarrow> get_latest i w =
     (case last_opt (history_of (w_db w) i) of
        None \<Rightarrow> (Inl (ObjectNotFoundError i None), w) | Some r \<Rightarrow> (Inr r, w))"
  by (simp add: get_latest_def bindp_def prog_simps objects_ok_sorted split: option.splits)

lemma get_latest_Inr:
  assumes "objects_ok (w_db w)" and "get_latest i w = (Inr r, w')"
  shows "w' = w \<and> history_of (w_db w) i \<noteq> [] \<and> r = last (history_of (w_db w) i) \<and> so_id r = i \<and>
    so_revision r = int (length (history_of (w_db w) i)) \<and> r \<in> set (objects_tbl (w_db w)) \<and>
    current_revision (w_db w) i = Some (so_revision r)"
proof -
  let ?h = "history_of (w_db w) i"
  have l: "last_opt ?h = Some r" and w: "w' = w"
    using assms by (auto simp: get_latest_run split: option.splits)
  then have h: "?h \<noteq> []" "r = last ?h" by (auto simp: last_opt_def split: if_splits)
  then have "r \<in> set ?h" by simp
  moreover have "so_revision r = int (length ?h)"
    using objects_ok_nth [OF assms(1), of "length ?h - 1" i] h
    by (simp add: last_conv_nth of_nat_diff Suc_leI)
  ultimately show ?thesis using h w by (auto simp: history_of_def current_revision_def)
qed

lemma get_latest_Inl:
  "objects_ok (w_db w) \<Longrightarrow> get_latest i w = (Inl x, w') \<Longrightarrow>
     w' = w \<and> x = ObjectNotFoundError i None \<and> history_of (w_db w) i = []"
  by (auto simp: get_latest_run last_opt_def split: option.splits if_splits)

text \<open>
  What other transactions may do in the pause: they leave a well-formed store in which the
  objects have only grown.
\<close>

definition object_rely :: "world \<Rightarrow> world \<Rightarrow> bool" where
  "object_rely w w' \<longleftrightarrow>
     objects_ok (w_db w') \<and> (\<exists>rs. objects_tbl (w_db w') = objects_tbl (w_db w) @ rs)"

lemma object_rely_grows:
  "object_rely w w' \<Longrightarrow> \<exists>rs. history_of (w_db w') i = history_of (w_db w) i @ rs"
  by (auto simp: object_rely_def history_of_def)

definition next_revision :: "int option \<Rightarrow> int" where
  "next_revision expected = (case expected of None \<Rightarrow> 1 | Some n \<Rightarrow> n + 1)"

lemma next_current: "next_revision (current_revision d i) = int (length (history_of d i)) + 1"
  by (simp add: next_revision_def current_revision_def)

lemma insert_revision_core_run:
  assumes ok: "objects_ok (w_db w)" and p: "pause w = (Inr (), w1)" and rely: "object_rely w w1"
    and new: "new = next_revision expected"
  shows "insert_revision_core pause r expected new w =
    (if current_revision (w_db w) (so_id r) \<noteq> expected
     then (Inl (RevisionConflictError (so_id r) expected (current_revision (w_db w) (so_id r))), w)
     else if current_revision (w_db w1) (so_id r) \<noteq> expected
     then (Inl (RevisionConflictError (so_id r) expected (current_revision (w_db w1) (so_id r))), w1)
     else (Inr (r\<lparr>so_revision := new\<rparr>),
           w1\<lparr>w_db := (w_db w1)\<lparr>objects_tbl := objects_tbl (w_db w1) @ [r\<lparr>so_revision := new\<rparr>]\<rparr>\<rparr>))"
proof (cases "current_revision (w_db w) (so_id r) = expected")
  case False
  then show ?thesis
    by (simp add: insert_revision_core_def bindp_def prog_simps objects_ok_max [OF ok])
next
  case True
  let ?i = "so_id r"
  have ok1: "objects_ok (w_db w1)" using rely by (simp add: object_rely_def)
  from object_rely_grows [OF rely] obtain rs where
    rs: "history_of (w_db w1) ?i = history_of (w_db w) ?i @ rs" by blast
  have n: "new = int (length (history_of (w_db w) ?i)) + 1"
    using True new next_current by metis
  have "(\<forall>s \<in> set (objects_tbl (w_db w1)). \<not> (so_id s = ?i \<and> so_revision s = new)) \<longleftrightarrow>
      \<not> (\<exists>s \<in> set (history_of (w_db w1) ?i). so_revision s = new)"
    by (auto simp: history_of_def)
  also have "\<dots> \<longleftrightarrow> rs = []"
    unfolding objects_ok_mem [OF ok1] using n rs by (cases rs) auto
  also have "\<dots> \<longleftrightarrow> current_revision (w_db w1) ?i = expected"
    using True rs by (auto simp: current_revision_def split: if_splits)
  finally have free: "(\<forall>s \<in> set (objects_tbl (w_db w1)). \<not> (so_id s = ?i \<and> so_revision s = new)) \<longleftrightarrow>
      current_revision (w_db w1) ?i = expected" .
  have run: "insert_object_row (r\<lparr>so_revision := new\<rparr>) w1 =
      (if current_revision (w_db w1) ?i = expected
       then (Inr (), w1\<lparr>w_db := (w_db w1)\<lparr>objects_tbl := objects_tbl (w_db w1) @ [r\<lparr>so_revision := new\<rparr>]\<rparr>\<rparr>)
       else (Inl IntegrityErr, w1))"
    unfolding insert_object_row_run using free by simp
  show ?thesis
    using True p
    by (simp add: insert_revision_core_def bindp_def catchp_def ret_run raise_run asks_run guardp_run
        run objects_ok_max [OF ok] objects_ok_max [OF ok1])
qed

lemma no_pause [simp]: "objects_ok (w_db w) \<Longrightarrow> object_rely w w"
  by (auto simp: object_rely_def)

lemma insert_revision_quiet:
  assumes "objects_ok (w_db w)"
  shows "insert_revision_with_connection (ret ()) r expected w =
    (if so_revision r \<noteq> next_revision expected then (Inl ValueError, w)
     else if current_revision (w_db w) (so_id r) \<noteq> expected
     then (Inl (RevisionConflictError (so_id r) expected (current_revision (w_db w) (so_id r))), w)
     else (Inr r, w\<lparr>w_db := (w_db w)\<lparr>objects_tbl := objects_tbl (w_db w) @ [r]\<rparr>\<rparr>))"
  using insert_revision_core_run [OF assms _ _ refl, of "ret ()" w r expected] assms
  by (auto simp: insert_revision_with_connection_def bindp_def prog_simps expected_new_revision_def
      next_revision_def Let_def)

lemma insert_revision_tx:
  assumes "objects_ok (w_db w)"
  shows "insert_revision (ret ()) r expected w =
    insert_revision_with_connection (ret ()) r expected w"
  using insert_revision_core_run [OF assms _ _ refl, of "ret ()" w r expected] assms
  by (auto simp: insert_revision_def insert_revision_with_connection_def tx_def bindp_def prog_simps
      expected_new_revision_def next_revision_def Let_def)

lemma objects_ok_inserted:
  assumes "objects_ok d" and "current_revision d (so_id r) = expected"
    and "so_revision r = next_revision expected"
  shows "objects_ok (d\<lparr>objects_tbl := objects_tbl d @ [r]\<rparr>)"
  by (rule objects_ok_snoc [OF assms(1)]) (use assms next_current in metis)

section \<open>The optimistic-concurrency contract\<close>

locale revision_store =
  fixes inv :: "'w \<Rightarrow> bool"
    and history :: "'w \<Rightarrow> 'i \<Rightarrow> 'o list"
    and ident :: "'o \<Rightarrow> 'i" and rev_of :: "'o \<Rightarrow> int"
    and insert_rev :: "'o \<Rightarrow> int option \<Rightarrow> 'w \<Rightarrow> 'o outcome \<times> 'w"
  assumes inv_gapless: "inv w \<Longrightarrow> map rev_of (history w i) = [1..int (length (history w i))]"
    and insert_inv: "inv w \<Longrightarrow> insert_rev x expected w = (r, w') \<Longrightarrow> inv w'"
    and insert_ok: "inv w \<Longrightarrow> insert_rev x expected w = (Inr y, w') \<Longrightarrow>
      y = x \<and> history w' (ident x) = history w (ident x) @ [x] \<and>
      (\<forall>i. i \<noteq> ident x \<longrightarrow> history w' i = history w i)"
    and insert_refused: "inv w \<Longrightarrow> insert_rev x expected w = (Inl e, w') \<Longrightarrow>
      (\<forall>i. history w' i = history w i)"
    and insert_iff: "inv w \<Longrightarrow> (\<exists>y w'. insert_rev x expected w = (Inr y, w')) \<longleftrightarrow>
      rev_of x = next_revision expected \<and>
      expected = (if history w (ident x) = [] then None else Some (int (length (history w (ident x)))))"
begin

lemma insert_grows:
  assumes "inv w" and "insert_rev x expected w = (r, w')"
  shows "\<exists>zs. history w' i = history w i @ zs"
proof (cases r)
  case (Inl e)
  with assms insert_refused show ?thesis by auto
next
  case (Inr y)
  with assms have "insert_rev x expected w = (Inr y, w')" by simp
  from insert_ok [OF assms(1) this] show ?thesis by (cases "i = ident x") auto
qed

text \<open>Of two writers that read the same state, the second is refused, whatever ran between.\<close>

lemma second_writer_refused:
  assumes w: "inv w" and first: "insert_rev x expected w = (Inr y, w1)"
    and w2: "inv w2" and later: "\<exists>zs. history w2 (ident x) = history w1 (ident x) @ zs"
    and same: "ident x' = ident x"
  shows "\<exists>e w3. insert_rev x' expected w2 = (Inl e, w3) \<and> (\<forall>i. history w3 i = history w2 i)"
proof -
  from insert_iff [OF w, of x expected] first have
    e: "expected = (if history w (ident x) = [] then None else Some (int (length (history w (ident x)))))"
    by blast
  from insert_ok [OF w first] later obtain zs where
    h: "history w2 (ident x) = history w (ident x) @ x # zs" by auto
  then have "expected \<noteq> (if history w2 (ident x) = [] then None
      else Some (int (length (history w2 (ident x)))))"
    using e by auto
  with insert_iff [OF w2, of x' expected] same have "\<nexists>y w'. insert_rev x' expected w2 = (Inr y, w')"
    by auto
  then obtain e w3 where "insert_rev x' expected w2 = (Inl e, w3)"
    by (metis old.sum.exhaust surj_pair)
  with insert_refused [OF w2 this] show ?thesis by blast
qed

lemma run_grows:
  "inv w \<Longrightarrow> inv (run_all (\<lambda>(x, n). insert_rev x n) xs w) \<and>
     (\<forall>i. \<exists>zs. history (run_all (\<lambda>(x, n). insert_rev x n) xs w) i = history w i @ zs)"
proof (induction xs arbitrary: w)
  case (Cons p xs)
  obtain x n where p: "p = (x, n)" by fastforce
  obtain r w1 where r: "insert_rev x n w = (r, w1)" by fastforce
  from insert_inv [OF Cons.prems r] have i: "inv w1" .
  from insert_grows [OF Cons.prems r] Cons.IH [OF i] p r show ?case
    by simp (metis append.assoc)
qed simp

end

definition store_insert ::
  "stored_object \<Rightarrow> int option \<Rightarrow> (world, stored_object) prog" where
  "store_insert r expected = insert_revision (ret ()) r expected"

lemma store_insert_run:
  "objects_ok (w_db w) \<Longrightarrow> store_insert r expected w =
    (if so_revision r \<noteq> next_revision expected then (Inl ValueError, w)
     else if current_revision (w_db w) (so_id r) \<noteq> expected
     then (Inl (RevisionConflictError (so_id r) expected (current_revision (w_db w) (so_id r))), w)
     else (Inr r, w\<lparr>w_db := (w_db w)\<lparr>objects_tbl := objects_tbl (w_db w) @ [r]\<rparr>\<rparr>))"
  by (simp add: store_insert_def insert_revision_tx insert_revision_quiet)

interpretation pg_objects: revision_store "\<lambda>w :: world. objects_ok (w_db w)" "\<lambda>w. history_of (w_db w)"
  so_id so_revision store_insert
proof unfold_locales
  fix w :: world and x expected r w'
  assume ok: "objects_ok (w_db w)" and run: "store_insert x expected w = (r, w')"
  show "objects_ok (w_db w')"
    using run ok objects_ok_inserted [OF ok, of x expected]
    unfolding store_insert_run [OF ok] by (auto split: if_splits)
next
  fix w :: world and x expected y w'
  assume ok: "objects_ok (w_db w)" and run: "store_insert x expected w = (Inr y, w')"
  then show "y = x \<and> history_of (w_db w') (so_id x) = history_of (w_db w) (so_id x) @ [x] \<and>
      (\<forall>i. i \<noteq> so_id x \<longrightarrow> history_of (w_db w') i = history_of (w_db w) i)"
    unfolding store_insert_run [OF ok] by (auto simp: history_of_append split: if_splits)
next
  fix w :: world and x expected e w'
  assume ok: "objects_ok (w_db w)" and run: "store_insert x expected w = (Inl e, w')"
  then show "\<forall>i. history_of (w_db w') i = history_of (w_db w) i"
    unfolding store_insert_run [OF ok] by (auto split: if_splits)
next
  fix w :: world and x expected
  assume ok: "objects_ok (w_db w)"
  show "(\<exists>y w'. store_insert x expected w = (Inr y, w')) \<longleftrightarrow>
      so_revision x = next_revision expected \<and>
      expected = (if history_of (w_db w) (so_id x) = [] then None
                  else Some (int (length (history_of (w_db w) (so_id x)))))"
    unfolding store_insert_run [OF ok] current_revision_def by (auto split: if_splits)
next
  show "objects_ok (w_db w) \<Longrightarrow>
      map so_revision (history_of (w_db w) i) = [1..int (length (history_of (w_db w) i))]" for w :: world and i
    by (simp add: objects_ok_def)
qed

section \<open>Properties\<close>

text \<open>
  C37. The race of two writers is decided safely. Whatever other transactions commit between
  the revision check and the insert (as long as they leave a well-formed store that only
  grew), \<^verbatim>\<open>insert_revision\<close> either stores exactly the next revision of the object, and only if
  no one else wrote that object, or raises \<^verbatim>\<open>RevisionConflictError\<close> with the revision that is
  current at that moment and writes nothing. The revisions stay 1, 2, 3 and so on.
\<close>

theorem insert_revision_race:
  assumes "objects_ok (w_db w)" and "pause w = (Inr (), w1)" and "object_rely w w1"
    and "so_revision r = next_revision expected"
  shows "case insert_revision_with_connection pause r expected w of
      (Inr s, w') \<Rightarrow> s = r \<and> objects_ok (w_db w') \<and>
        w_db w' = (w_db w1)\<lparr>objects_tbl := objects_tbl (w_db w1) @ [r]\<rparr> \<and>
        current_revision (w_db w) (so_id r) = expected \<and>
        history_of (w_db w1) (so_id r) = history_of (w_db w) (so_id r)
    | (Inl x, w') \<Rightarrow> (w' = w \<or> w' = w1) \<and>
        current_revision (w_db w') (so_id r) \<noteq> expected \<and>
        x = RevisionConflictError (so_id r) expected (current_revision (w_db w') (so_id r))"
proof -
  have new: "expected_new_revision r expected = Inr (next_revision expected)"
    and r: "r\<lparr>so_revision := next_revision expected\<rparr> = r"
    using assms(4) by (simp_all add: expected_new_revision_def next_revision_def split: option.splits)
  note run = insert_revision_core_run [of w pause w1 _ expected r, OF assms(1-3) refl]
  have ok1: "objects_ok (w_db w1)" using assms(3) by (simp add: object_rely_def)
  from object_rely_grows [OF assms(3)] obtain rs where
    rs: "history_of (w_db w1) (so_id r) = history_of (w_db w) (so_id r) @ rs" by blast
  have same: "history_of (w_db w1) (so_id r) = history_of (w_db w) (so_id r)"
    if "current_revision (w_db w) (so_id r) = current_revision (w_db w1) (so_id r)"
    using that rs by (auto simp: current_revision_def split: if_splits)
  show ?thesis
    unfolding insert_revision_with_connection_def bindp_def lift_run new
    using r same objects_ok_inserted [OF ok1 _ assms(4)] by (simp add: run)
qed

text \<open>
  C4. No update is lost: once one writer has stored a revision on the expectation
  \<open>expected\<close>, every later writer with that same expectation for the same object is refused,
  whatever revisions of any objects were stored in between, and what the first one wrote is
  still in the object's history at the same place.
\<close>

theorem no_lost_update:
  fixes w :: world and others :: "(stored_object \<times> int option) list"
  assumes "objects_ok (w_db w)" and "store_insert x expected w = (Inr y, w1)"
    and "so_id x' = so_id x"
  defines "w2 \<equiv> run_all (\<lambda>(z, n). store_insert z n) others w1"
  shows "\<exists>e w3 zs. store_insert x' expected w2 = (Inl e, w3) \<and>
    (\<forall>i. history_of (w_db w3) i = history_of (w_db w2) i) \<and>
    history_of (w_db w2) (so_id x) = history_of (w_db w) (so_id x) @ x # zs"
proof -
  have ok1: "objects_ok (w_db w1)" by (rule pg_objects.insert_inv [OF assms(1,2)])
  from pg_objects.run_grows [OF ok1, of others] obtain zs where
    ok2: "objects_ok (w_db w2)"
    and zs: "history_of (w_db w2) (so_id x) = history_of (w_db w1) (so_id x) @ zs"
    unfolding w2_def by blast
  from pg_objects.second_writer_refused [OF assms(1,2) ok2] zs assms(3)
  obtain e w3 where "store_insert x' expected w2 = (Inl e, w3)"
    "\<forall>i. history_of (w_db w3) i = history_of (w_db w2) i" by blast
  moreover have "history_of (w_db w2) (so_id x) = history_of (w_db w) (so_id x) @ x # zs"
    using zs pg_objects.insert_ok [OF assms(1,2)] by simp
  ultimately show ?thesis by blast
qed

definition sample_object :: stored_object where
  "sample_object = \<lparr>so_id = sample_urn ''claim'', so_api_version = ''mrr/v1alpha1'',
     so_kind = ''Claim'', so_practice_id = sample_urn ''practice'', so_revision = 1,
     so_created_at = 1700000000000000, so_created_by = sample_urn ''human'',
     so_content_hash = content_hash ''{}'', so_supersedes = None, so_labels = None, so_body = []\<rparr>"

lemma objects_ok_empty_world: "objects_ok (w_db empty_world)"
  by (simp add: empty_world_def objects_ok_empty)

lemma store_insert_sample:
  "store_insert sample_object None empty_world =
     (Inr sample_object, empty_world\<lparr>w_db := empty_db\<lparr>objects_tbl := [sample_object]\<rparr>\<rparr>)"
  unfolding store_insert_run [OF objects_ok_empty_world]
  by (simp add: next_revision_def sample_object_def current_revision_def history_of_def
      empty_world_def empty_db_def)

theorem insert_revision_race_witness:
  "\<exists>w'. insert_revision_with_connection (bindp (store_insert sample_object None) (\<lambda>_. ret ()))
      sample_object None empty_world =
    (Inl (RevisionConflictError (so_id sample_object) None (Some 1)), w')"
proof -
  let ?p = "bindp (store_insert sample_object None) (\<lambda>_. ret ())"
  define w1 where "w1 = snd (store_insert sample_object None empty_world)"
  have p: "?p empty_world = (Inr (), w1)"
    unfolding w1_def store_insert_sample by (simp add: bindp_def store_insert_sample ret_run)
  have ok: "objects_ok (w_db w1)"
    unfolding w1_def by (rule pg_objects.insert_inv [OF objects_ok_empty_world, of sample_object None])
      (simp add: prod_eq_iff)
  have rely: "object_rely empty_world w1"
    using ok by (simp add: object_rely_def w1_def store_insert_sample empty_world_def empty_db_def)
  have w1: "objects_tbl (w_db w1) = [sample_object]"
    by (simp add: w1_def store_insert_sample)
  have cur: "current_revision (w_db w1) (so_id sample_object) = Some 1"
    "current_revision (w_db empty_world) (so_id sample_object) = None"
    "history_of (w_db w1) (so_id sample_object) = [sample_object]"
    "history_of (w_db empty_world) (so_id sample_object) = []"
    by (simp_all add: w1 current_revision_def history_of_def empty_world_def empty_db_def)
  have rev: "so_revision sample_object = next_revision None"
    by (simp add: sample_object_def next_revision_def)
  from insert_revision_race [where pause = ?p and w = empty_world, OF objects_ok_empty_world p rely rev]
    cur show ?thesis
    by (cases "insert_revision_with_connection ?p sample_object None empty_world")
      (auto split: sum.splits)
qed

theorem no_lost_update_witness:
  "\<exists>e w3. store_insert (sample_object\<lparr>so_body := [(''statement'', JStr ''other'')]\<rparr>) None
      (snd (store_insert sample_object None empty_world)) = (Inl e, w3)"
  using no_lost_update [OF objects_ok_empty_world store_insert_sample,
      of "sample_object\<lparr>so_body := [(''statement'', JStr ''other'')]\<rparr>" "[]"]
  by (simp add: store_insert_sample) blast

end
