(* ===== verification/Unit_Of_Work.thy ===== *)
theory Unit_Of_Work
  imports Event_Log Object_Store
begin

text \<open>
  The atomic writes of \<^verbatim>\<open>packages/persistence/mrr/persistence/unit_of_work.py\<close> and the two
  compositions the services add to it: an edge with its event
  (\<^verbatim>\<open>bind_edge_unit_of_work\<close> of the Claim service) and a revision with edges and its event
  (\<^verbatim>\<open>bind_revision_with_edges_unit_of_work\<close> of the Obligation service). The locale
  \<open>unit_of_work\<close> is their common contract: everything and its event, or nothing.
\<close>

section \<open>The operations\<close>

text \<open>\<open>hook\<close> is \<^verbatim>\<open>_after_append\<close>.\<close>

definition record_object_revision_with_event ::
  "env \<Rightarrow> (world, unit) prog \<Rightarrow> stored_object \<Rightarrow> int option \<Rightarrow> domain_event \<Rightarrow>
   (world, stored_object \<times> appended_event) prog" where
  "record_object_revision_with_event E hook r expected e =
     tx (bindp (insert_revision_with_connection (ret ()) r expected) (\<lambda>stored.
         bindp (append_event E e) (\<lambda>appended.
         bindp hook (\<lambda>_. ret (stored, appended)))))"

definition bind_unit_of_work ::
  "env \<Rightarrow> stored_object \<Rightarrow> int option \<Rightarrow> domain_event \<Rightarrow>
   (world, stored_object \<times> appended_event) prog" where
  "bind_unit_of_work E r expected e = record_object_revision_with_event E (ret ()) r expected e"

definition bind_edge_unit_of_work ::
  "env \<Rightarrow> typed_edge \<Rightarrow> domain_event \<Rightarrow> (world, typed_edge \<times> appended_event) prog" where
  "bind_edge_unit_of_work E edge e =
     bindp (guardp (te_edge_type edge \<in> EDGE_VOCABULARY) (UnknownEdgeTypeError (te_edge_type edge))) (\<lambda>_.
     tx (bindp (insert_edge_row edge) (\<lambda>_.
         bindp (append_event E e) (\<lambda>appended. ret (edge, appended)))))"

definition bind_revision_with_edges_unit_of_work ::
  "env \<Rightarrow> stored_object \<Rightarrow> int option \<Rightarrow> typed_edge list \<Rightarrow> domain_event \<Rightarrow>
   (world, stored_object \<times> typed_edge list \<times> appended_event) prog" where
  "bind_revision_with_edges_unit_of_work E r expected edges e =
     bindp (mapp (\<lambda>edge. guardp (te_edge_type edge \<in> EDGE_VOCABULARY)
                            (UnknownEdgeTypeError (te_edge_type edge))) edges) (\<lambda>_.
     tx (bindp (insert_revision_with_connection (ret ()) r expected) (\<lambda>stored.
         bindp (mapp insert_edge_row edges) (\<lambda>_.
         bindp (append_event E e) (\<lambda>appended. ret (stored, edges, appended))))))"

section \<open>A well-formed world, and what a commit adds to it\<close>

definition world_ok :: "env \<Rightarrow> world \<Rightarrow> bool" where
  "world_ok E w \<longleftrightarrow> log_ok E w \<and> objects_ok (w_db w) \<and> edges_ok (w_db w)"

lemma world_ok_parts:
  assumes "world_ok E w"
  shows "log_ok E w" and "objects_ok (w_db w)" and "edges_ok (w_db w)"
  using assms by (simp_all add: world_ok_def)

lemma world_ok_empty: "world_ok E empty_world"
  using log_ok_empty objects_ok_empty edges_ok_empty by (simp add: world_ok_def empty_world_def)

lemma world_ok_same_db: "world_ok E w \<Longrightarrow> same_db w w' \<Longrightarrow> world_ok E w'"
  using log_ok_same_db by (auto simp: world_ok_def same_db_def)

lemma world_ok_ticks [simp]: "world_ok E (w\<lparr>w_ticks := n\<rparr>) \<longleftrightarrow> world_ok E w"
  by (simp add: world_ok_def log_ok_def)

lemma world_ok_seq: "world_ok E w \<Longrightarrow> w_next_seq w \<le> n \<Longrightarrow> world_ok E (w\<lparr>w_next_seq := n\<rparr>)"
  by (rule world_ok_same_db) (simp_all add: same_db_def)

definition commit ::
  "stored_object list \<Rightarrow> typed_edge list \<Rightarrow> appended_event \<Rightarrow> instant \<Rightarrow> db \<Rightarrow> db" where
  "commit os es a t d =
     d\<lparr>objects_tbl := objects_tbl d @ os, edges_tbl := edges_tbl d @ es,
       domain_events_tbl := domain_events_tbl d @ [a],
       outbox_tbl := outbox_tbl d @ [pending_entry (de_id (ae_event a)) t]\<rparr>"

lemma commit_tables [db_simps, simp]:
  "objects_tbl (commit os es a t d) = objects_tbl d @ os"
  "edges_tbl (commit os es a t d) = edges_tbl d @ es"
  "domain_events_tbl (commit os es a t d) = domain_events_tbl d @ [a]"
  "outbox_tbl (commit os es a t d) = outbox_tbl d @ [pending_entry (de_id (ae_event a)) t]"
  "processed_ids_tbl (commit os es a t d) = processed_ids_tbl d"
  "key_revocations_tbl (commit os es a t d) = key_revocations_tbl d"
  "pending_deliveries_tbl (commit os es a t d) = pending_deliveries_tbl d"
  by (simp_all add: commit_def)

text \<open>The world after a successful transaction: its tables are a commit of the old ones.\<close>

definition committed ::
  "env \<Rightarrow> stored_object list \<Rightarrow> typed_edge list \<Rightarrow> domain_event \<Rightarrow> world \<Rightarrow> world \<Rightarrow> bool" where
  "committed E os es e w w' \<longleftrightarrow>
     world_ok E w' \<and> w_next_seq w < w_next_seq w' \<and>
     (\<exists>a t. ae_event a = e \<and> w_db w' = commit os es a t (w_db w))"

lemma committed_from: "same_db w w1 \<Longrightarrow> committed E os es e w1 w2 \<Longrightarrow> committed E os es e w w2"
  by (auto simp: committed_def same_db_def)

lemma committed_tables:
  assumes "committed E os es e w w'"
  shows "objects_tbl (w_db w') = objects_tbl (w_db w) @ os"
    and "edges_tbl (w_db w') = edges_tbl (w_db w) @ es" and "world_ok E w'"
  using assms by (auto simp: committed_def)

lemma append_event_committed:
  assumes ok: "world_ok E w1" and run: "append_event E e w1 = (Inr a, w2)" and e: "event_ok e"
    and d: "w_db w1 = (w_db w)\<lparr>objects_tbl := objects_tbl (w_db w) @ os,
                             edges_tbl := edges_tbl (w_db w) @ es\<rparr>"
    and n: "w_next_seq w \<le> w_next_seq w1"
  shows "committed E os es e w w2 \<and> ae_event a = e"
proof -
  note log = world_ok_parts(1) [OF ok]
  obtain h where
    "compute_event_hash E e (prev_hash_of w1) = Inr h" "de_id e \<notin> set (event_ids (w_db w1))"
    and a: "a = appended_row E e w1 h" and w2: "w2 = appended_world E e w1 h"
    by (rule append_event_Inr [OF log run])
  have "log_ok E w2" by (rule append_event_ok [OF log e run])
  moreover have "objects_ok (w_db w2)" "edges_ok (w_db w2)"
    using ok objects_ok_cong edges_ok_cong by (auto simp: world_ok_def w2 appended_world_def)
  ultimately have "world_ok E w2" by (simp add: world_ok_def)
  moreover have "w_db w2 = commit os es a (env_now E (w_ticks w1)) (w_db w)"
    by (simp add: w2 a appended_world_def appended_row_def commit_def d)
  moreover have "w_next_seq w < w_next_seq w2" using n by (simp add: w2 appended_world_def)
  moreover have "ae_event a = e" by (simp add: a appended_row_def)
  ultimately show ?thesis unfolding committed_def by blast
qed

lemma insert_edge_rows_run:
  assumes "edges_ok (w_db w)" and "mapp insert_edge_row es w = (Inr us, w')"
  shows "w' = w\<lparr>w_db := (w_db w)\<lparr>edges_tbl := edges_tbl (w_db w) @ es\<rparr>\<rparr> \<and> edges_ok (w_db w')"
  using assms
proof (induction es arbitrary: w us)
  case (Cons e es)
  from Cons.prems(2) obtain w1 vs where
    e: "insert_edge_row e w = (Inr (), w1)" and es: "mapp insert_edge_row es w1 = (Inr vs, w')"
    by (auto simp: unit_eq)
  from e have w1: "w1 = w\<lparr>w_db := (w_db w)\<lparr>edges_tbl := edges_tbl (w_db w) @ [e]\<rparr>\<rparr>"
    and f: "te_edge_type e \<in> EDGE_VOCABULARY" "\<forall>s \<in> set (edges_tbl (w_db w)). te_id s \<noteq> te_id e"
    by (auto simp: insert_edge_row_run split: if_splits)
  have "edges_ok (w_db w1)" using Cons.prems(1) f by (auto simp: edges_ok_def w1)
  from Cons.IH [OF this es] have
    w': "w' = w1\<lparr>w_db := (w_db w1)\<lparr>edges_tbl := edges_tbl (w_db w1) @ es\<rparr>\<rparr>" and ok: "edges_ok (w_db w')"
    by blast+
  from w' have "w' = w\<lparr>w_db := (w_db w)\<lparr>edges_tbl := edges_tbl (w_db w) @ e # es\<rparr>\<rparr>"
    by (simp add: w1)
  with ok show ?case by blast
qed auto

text \<open>The identity counter never goes back, so a rolled-back transaction changes no table.\<close>

lemma seq_monotone: "transp (\<lambda>w w'. w_next_seq w \<le> w_next_seq w')" "reflp (\<lambda>w w'. w_next_seq w \<le> w_next_seq w')"
  by (auto simp: transp_def reflp_def)

lemma seq_insert_revision:
  "keeps (\<lambda>w w'. w_next_seq w \<le> w_next_seq w') (insert_revision_with_connection (ret ()) r expected)"
  unfolding insert_revision_with_connection_def insert_revision_core_def insert_object_row_def
    insert_when_def
  by (intro keeps_bindp keeps_catchp keeps_pure seq_monotone)
    (auto intro!: keepsI simp: upd_db_run bindp_def prog_simps)

lemma seq_insert_edge_rows: "keeps (\<lambda>w w'. w_next_seq w \<le> w_next_seq w') (mapp insert_edge_row es)"
  by (intro keeps_mapp seq_monotone keepsI) (simp add: insert_edge_row_run)

section \<open>Outcomes\<close>

lemma record_revision_Inr:
  assumes ok: "world_ok E w" and e: "event_ok e"
    and hook: "keeps same_db hook"
    and run: "record_object_revision_with_event E hook r expected e w = (Inr (s, a), w')"
  shows "s = r \<and> ae_event a = e \<and> so_revision r = next_revision expected \<and>
    current_revision (w_db w) (so_id r) = expected \<and> committed E [r] [] e w w'"
proof -
  from run obtain w1 w2 where
    ins: "insert_revision_with_connection (ret ()) r expected w = (Inr s, w1)"
    and app: "append_event E e w1 = (Inr a, w2)" and hk: "hook w2 = (Inr (), w')"
    by (auto simp: record_object_revision_with_event_def unit_eq)
  from ins have s: "s = r" "so_revision r = next_revision expected"
    "current_revision (w_db w) (so_id r) = expected"
    and w1: "w1 = w\<lparr>w_db := (w_db w)\<lparr>objects_tbl := objects_tbl (w_db w) @ [r]\<rparr>\<rparr>"
    unfolding insert_revision_quiet [OF world_ok_parts(2) [OF ok]] by (auto split: if_splits)
  have "log_ok E w1" by (rule log_ok_cong [OF world_ok_parts(1) [OF ok]]) (simp_all add: w1)
  then have ok1: "world_ok E w1"
    using objects_ok_inserted [OF world_ok_parts(2) [OF ok] s(3,2)] edges_ok_cong [OF world_ok_parts(3) [OF ok]]
    by (simp add: world_ok_def w1)
  from append_event_committed [OF ok1 app e, where w = w and os = "[r]" and es = "[]"] have
    c: "committed E [r] [] e w w2" "ae_event a = e" by (simp_all add: w1)
  from hook hk have "same_db w2 w'" by (blast dest: keepsD)
  with c(1) have "committed E [r] [] e w w'"
    unfolding committed_def using world_ok_same_db by (auto simp: same_db_def)
  with s c show ?thesis by blast
qed

lemma record_revision_Inl:
  assumes hook: "keeps same_db hook"
    and run: "record_object_revision_with_event E hook r expected e w = (Inl x, w')"
  shows "same_db w w'"
proof (rule tx_Inl_same_db [OF _ run [unfolded record_object_revision_with_event_def]])
  have "keeps (\<lambda>w w'. w_next_seq w \<le> w_next_seq w') hook"
    using hook by (simp add: keeps_def same_db_def)
  then show "keeps (\<lambda>w w'. w_next_seq w \<le> w_next_seq w')
      (bindp (insert_revision_with_connection (ret ()) r expected) (\<lambda>stored.
       bindp (append_event E e) (\<lambda>appended. bindp hook (\<lambda>_. ret (stored, appended)))))"
    by (intro keeps_bindp keeps_pure seq_monotone seq_insert_revision append_event_seq)
qed

lemma keeps_same_db_ret: "keeps same_db (ret x)"
  by (rule keeps_pure) simp

lemma unit_of_work_Inr:
  assumes "world_ok E w" and "event_ok e" and "bind_unit_of_work E r expected e w = (Inr (s, a), w')"
  shows "s = r \<and> ae_event a = e \<and> so_revision r = next_revision expected \<and>
    current_revision (w_db w) (so_id r) = expected \<and> committed E [r] [] e w w'"
  using record_revision_Inr [OF assms(1,2) keeps_same_db_ret] assms(3)
  unfolding bind_unit_of_work_def by blast

lemma unit_of_work_Inl: "bind_unit_of_work E r expected e w = (Inl x, w') \<Longrightarrow> same_db w w'"
  unfolding bind_unit_of_work_def by (rule record_revision_Inl [OF keeps_same_db_ret])

lemma edge_unit_of_work_Inr:
  assumes ok: "world_ok E w" and e: "event_ok e"
    and run: "bind_edge_unit_of_work E edge e w = (Inr (edge', a), w')"
  shows "edge' = edge \<and> ae_event a = e \<and> te_edge_type edge \<in> EDGE_VOCABULARY \<and>
    committed E [] [edge] e w w'"
proof -
  from run obtain w1 where ins: "insert_edge_row edge w = (Inr (), w1)"
    and app: "append_event E e w1 = (Inr a, w')" and s: "edge' = edge"
      "te_edge_type edge \<in> EDGE_VOCABULARY"
    by (auto simp: bind_edge_unit_of_work_def unit_eq)
  from ins have w1: "w1 = w\<lparr>w_db := (w_db w)\<lparr>edges_tbl := edges_tbl (w_db w) @ [edge]\<rparr>\<rparr>"
    and f: "\<forall>s \<in> set (edges_tbl (w_db w)). te_id s \<noteq> te_id edge"
    by (auto simp: insert_edge_row_run split: if_splits)
  have "log_ok E w1" by (rule log_ok_cong [OF world_ok_parts(1) [OF ok]]) (simp_all add: w1)
  moreover have "edges_ok (w_db w1)" using world_ok_parts(3) [OF ok] f s by (auto simp: edges_ok_def w1)
  ultimately have ok1: "world_ok E w1"
    using objects_ok_cong [OF world_ok_parts(2) [OF ok]] by (simp add: world_ok_def w1)
  from append_event_committed [OF ok1 app e, where w = w and os = "[]" and es = "[edge]"] show ?thesis using s by (simp add: w1)
qed

lemma edge_unit_of_work_Inl:
  assumes "bind_edge_unit_of_work E edge e w = (Inl x, w')"
  shows "same_db w w'"
proof (cases "te_edge_type edge \<in> EDGE_VOCABULARY")
  case True
  with assms have "tx (bindp (insert_edge_row edge) (\<lambda>_.
      bindp (append_event E e) (\<lambda>appended. ret (edge, appended)))) w = (Inl x, w')"
    by (simp add: bind_edge_unit_of_work_def bindp_def [of "guardp _ _"] guardp_run)
  then show ?thesis
    by (rule tx_Inl_same_db [rotated])
      (intro keeps_bindp keeps_pure seq_monotone append_event_seq keepsI, simp add: insert_edge_row_run)
next
  case False
  with assms show ?thesis by (simp add: bind_edge_unit_of_work_def bindp_def guardp_run)
qed

lemma vocabulary_guards:
  "mapp (\<lambda>edge. guardp (te_edge_type edge \<in> EDGE_VOCABULARY)
           (UnknownEdgeTypeError (te_edge_type edge))) es w = (r, w') \<Longrightarrow>
     w' = w \<and> ((\<exists>us. r = Inr us) \<longleftrightarrow> te_edge_type ` set es \<subseteq> EDGE_VOCABULARY)"
proof (induction es arbitrary: r)
  case (Cons e es)
  then show ?case
    by (cases "mapp (\<lambda>edge. guardp (te_edge_type edge \<in> EDGE_VOCABULARY)
           (UnknownEdgeTypeError (te_edge_type edge))) es w")
      (auto simp: bindp_def guardp_run ret_run split: sum.splits if_splits prod.splits)
qed (auto simp: ret_run)

lemma revision_with_edges_Inr:
  assumes ok: "world_ok E w" and e: "event_ok e"
    and run: "bind_revision_with_edges_unit_of_work E r expected es e w = (Inr (s, es', a), w')"
  shows "s = r \<and> es' = es \<and> ae_event a = e \<and> so_revision r = next_revision expected \<and>
    current_revision (w_db w) (so_id r) = expected \<and> committed E [r] es e w w'"
proof -
  from run obtain us w0 w1 w2 vs where
    g: "mapp (\<lambda>edge. guardp (te_edge_type edge \<in> EDGE_VOCABULARY)
           (UnknownEdgeTypeError (te_edge_type edge))) es w = (Inr us, w0)"
    and ins: "insert_revision_with_connection (ret ()) r expected w0 = (Inr s, w1)"
    and eds: "mapp insert_edge_row es w1 = (Inr vs, w2)"
    and app: "append_event E e w2 = (Inr a, w')" and es': "es' = es"
    by (auto simp: bind_revision_with_edges_unit_of_work_def)
  have w0: "w0 = w" using vocabulary_guards [OF g] by simp
  from ins have s: "s = r" "so_revision r = next_revision expected"
    "current_revision (w_db w) (so_id r) = expected"
    and w1: "w1 = w\<lparr>w_db := (w_db w)\<lparr>objects_tbl := objects_tbl (w_db w) @ [r]\<rparr>\<rparr>"
    unfolding w0 insert_revision_quiet [OF world_ok_parts(2) [OF ok]] by (auto split: if_splits)
  have "edges_ok (w_db w1)" using edges_ok_cong [OF world_ok_parts(3) [OF ok]] by (simp add: w1)
  from insert_edge_rows_run [OF this eds]
  have w2': "w2 = w1\<lparr>w_db := (w_db w1)\<lparr>edges_tbl := edges_tbl (w_db w1) @ es\<rparr>\<rparr>"
    and "edges_ok (w_db w2)" by blast+
  from w2' have w2: "w2 = w\<lparr>w_db := (w_db w)\<lparr>objects_tbl := objects_tbl (w_db w) @ [r],
                                edges_tbl := edges_tbl (w_db w) @ es\<rparr>\<rparr>"
    by (simp add: w1)
  note \<open>edges_ok (w_db w2)\<close>
  moreover have "objects_ok (w_db w2)"
    by (rule objects_ok_cong [OF objects_ok_inserted [OF world_ok_parts(2) [OF ok] s(3,2)]])
      (simp add: w2)
  moreover have "log_ok E w2" by (rule log_ok_cong [OF world_ok_parts(1) [OF ok]]) (simp_all add: w2)
  ultimately have ok2: "world_ok E w2" by (simp add: world_ok_def)
  from append_event_committed [OF ok2 app e, where w = w and os = "[r]" and es = es] show ?thesis
    using s es' by (simp add: w2)
qed

lemma revision_with_edges_Inl:
  assumes "bind_revision_with_edges_unit_of_work E r expected es e w = (Inl x, w')"
  shows "same_db w w'"
proof -
  obtain q w0 where g: "mapp (\<lambda>edge. guardp (te_edge_type edge \<in> EDGE_VOCABULARY)
           (UnknownEdgeTypeError (te_edge_type edge))) es w = (q, w0)" by fastforce
  have w0: "w0 = w" using vocabulary_guards [OF g] by simp
  show ?thesis
  proof (cases q)
    case (Inl y)
    with assms g w0 show ?thesis by (simp add: bind_revision_with_edges_unit_of_work_def bindp_def)
  next
    case (Inr us)
    with assms g w0 have "tx (bindp (insert_revision_with_connection (ret ()) r expected) (\<lambda>stored.
         bindp (mapp insert_edge_row es) (\<lambda>_.
         bindp (append_event E e) (\<lambda>appended. ret (stored, es, appended))))) w = (Inl x, w')"
      by (simp add: bind_revision_with_edges_unit_of_work_def bindp_def [of "mapp _ _"])
    then show ?thesis
      by (rule tx_Inl_same_db [rotated])
        (intro keeps_bindp keeps_pure seq_monotone append_event_seq seq_insert_revision
          seq_insert_edge_rows)
  qed
qed

section \<open>The contract\<close>

text \<open>Every stored revision has an event that names it.\<close>

definition journaled :: "db \<Rightarrow> bool" where
  "journaled d \<longleftrightarrow>
     (\<forall>r \<in> set (objects_tbl d). \<exists>a \<in> set (domain_events_tbl d).
        de_object_id (ae_event a) = so_id r \<and> de_object_revision (ae_event a) = so_revision r)"

definition announces :: "domain_event \<Rightarrow> stored_object list \<Rightarrow> bool" where
  "announces e os \<longleftrightarrow> (\<forall>r \<in> set os. de_object_id e = so_id r \<and> de_object_revision e = so_revision r)"

lemma journaled_commit: "journaled d \<Longrightarrow> announces (ae_event a) os \<Longrightarrow> journaled (commit os es a t d)"
  by (fastforce simp: journaled_def announces_def)

lemma journaled_same_db: "journaled (w_db w) \<Longrightarrow> same_db w w' \<Longrightarrow> journaled (w_db w')"
  by (simp add: same_db_def)

lemma committed_journaled:
  "committed E os es e w w' \<Longrightarrow> journaled (w_db w) \<Longrightarrow> announces e os \<Longrightarrow> journaled (w_db w')"
  by (auto simp: committed_def intro!: journaled_commit)

text \<open>
  What a service may assume of an atomic write: on return the given objects and edges and the
  event are in the database, all of them and nothing else; on an exception no table changed.
\<close>

locale unit_of_work =
  fixes E :: env and work :: "'x \<Rightarrow> domain_event \<Rightarrow> (world, 'r) prog"
    and objs :: "'x \<Rightarrow> stored_object list" and eds :: "'x \<Rightarrow> typed_edge list"
  assumes commits: "world_ok E w \<Longrightarrow> event_ok e \<Longrightarrow> work x e w = (Inr y, w') \<Longrightarrow>
      committed E (objs x) (eds x) e w w'"
    and aborts: "work x e w = (Inl err, w') \<Longrightarrow> same_db w w'"
begin

lemma keeps_world_ok:
  assumes "world_ok E w" and "event_ok e" and "work x e w = (r, w')"
  shows "world_ok E w'"
proof (cases r)
  case (Inl err)
  with assms aborts show ?thesis using world_ok_same_db by blast
next
  case (Inr y)
  with assms commits have "committed E (objs x) (eds x) e w w'" by blast
  then show ?thesis by (simp add: committed_def)
qed

lemma keeps_journaled:
  assumes "world_ok E w" and "event_ok e" and "work x e w = (r, w')"
    and "journaled (w_db w)" and "announces e (objs x)"
  shows "journaled (w_db w')"
proof (cases r)
  case (Inl err)
  with assms aborts show ?thesis using journaled_same_db by blast
next
  case (Inr y)
  with assms commits have "committed E (objs x) (eds x) e w w'" by blast
  then show ?thesis using assms(4,5) by (rule committed_journaled)
qed

text \<open>The log, the objects and the edges only grow, at their ends.\<close>

lemma grows:
  assumes "world_ok E w" and "event_ok e" and "work x e w = (r, w')"
  shows "\<exists>os es as. objects_tbl (w_db w') = objects_tbl (w_db w) @ os \<and>
    edges_tbl (w_db w') = edges_tbl (w_db w) @ es \<and>
    domain_events_tbl (w_db w') = domain_events_tbl (w_db w) @ as"
proof (cases r)
  case (Inl err)
  with assms aborts show ?thesis by (fastforce simp: same_db_def)
next
  case (Inr y)
  with assms commits have "committed E (objs x) (eds x) e w w'" by blast
  then show ?thesis by (auto simp: committed_def)
qed

end

interpretation revision_uow: unit_of_work E "\<lambda>(r, expected). bind_unit_of_work E r expected"
  "\<lambda>(r, expected). [r]" "\<lambda>_. []" for E
proof unfold_locales
  show "world_ok E w \<Longrightarrow> event_ok e \<Longrightarrow> (case x of (r, n) \<Rightarrow> bind_unit_of_work E r n) e w = (Inr y, w') \<Longrightarrow>
      committed E (case x of (r, n) \<Rightarrow> [r]) [] e w w'" for w e x y w'
    by (cases x; cases y) (auto dest: unit_of_work_Inr)
  show "(case x of (r, n) \<Rightarrow> bind_unit_of_work E r n) e w = (Inl err, w') \<Longrightarrow> same_db w w'" for x e w err w'
    by (cases x) (auto dest: unit_of_work_Inl)
qed

interpretation edge_uow: unit_of_work E "bind_edge_unit_of_work E" "\<lambda>_. []" "\<lambda>edge. [edge]" for E
proof unfold_locales
  show "world_ok E w \<Longrightarrow> event_ok e \<Longrightarrow> bind_edge_unit_of_work E x e w = (Inr y, w') \<Longrightarrow>
      committed E [] [x] e w w'" for w e x y w'
    by (cases y) (auto dest: edge_unit_of_work_Inr)
  show "bind_edge_unit_of_work E x e w = (Inl err, w') \<Longrightarrow> same_db w w'" for x e w err w'
    by (rule edge_unit_of_work_Inl)
qed

interpretation revision_edges_uow: unit_of_work E
  "\<lambda>(r, expected, edges). bind_revision_with_edges_unit_of_work E r expected edges"
  "\<lambda>(r, expected, edges). [r]" "\<lambda>(r, expected, edges). edges" for E
proof unfold_locales
  show "world_ok E w \<Longrightarrow> event_ok e \<Longrightarrow>
      (case x of (r, n, es) \<Rightarrow> bind_revision_with_edges_unit_of_work E r n es) e w = (Inr y, w') \<Longrightarrow>
      committed E (case x of (r, n, es) \<Rightarrow> [r]) (case x of (r, n, es) \<Rightarrow> es) e w w'" for w e x y w'
    by (cases x; cases y) (auto dest: revision_with_edges_Inr)
  show "(case x of (r, n, es) \<Rightarrow> bind_revision_with_edges_unit_of_work E r n es) e w = (Inl err, w') \<Longrightarrow>
      same_db w w'" for x e w err w'
    by (cases x) (auto dest: revision_with_edges_Inl)
qed

section \<open>Properties\<close>

text \<open>
  C5. A revision and its event are written together or not at all, whatever the hook between
  the append and the commit does: on return exactly this revision, this event chained to the
  log and its outbox row have been added, in a world that is still well-formed; on any
  exception, from the revision check, the insert, the canonicalizer, the event insert or the
  hook, no table has changed.
\<close>

theorem revision_and_event_atomic:
  assumes "world_ok E w" and "event_ok e" and "\<forall>w1. same_db w1 (snd (hook w1))"
  shows "case record_object_revision_with_event E hook r expected e w of
      (Inr (s, a), w') \<Rightarrow> s = r \<and> ae_event a = e \<and> world_ok E w' \<and>
        current_revision (w_db w) (so_id r) = expected \<and> so_revision r = next_revision expected \<and>
        (\<exists>a t. ae_event a = e \<and> w_db w' = commit [r] [] a t (w_db w))
    | (Inl x, w') \<Rightarrow> world_ok E w' \<and> w_db w' = w_db w"
proof -
  have hook: "keeps same_db hook" using assms(3) by (simp add: keeps_def)
  obtain q w' where run: "record_object_revision_with_event E hook r expected e w = (q, w')"
    by fastforce
  show ?thesis
  proof (cases q)
    case (Inl x)
    with run have "same_db w w'" using record_revision_Inl [OF hook] by blast
    with run Inl world_ok_same_db [OF assms(1)] show ?thesis by (simp add: same_db_def)
  next
    case (Inr sa)
    obtain s a where "sa = (s, a)" by fastforce
    with run Inr record_revision_Inr [OF assms(1,2) hook, of r expected s a w'] show ?thesis
      by (simp add: committed_def)
  qed
qed

text \<open>
  The same for a revision with edges: \<^verbatim>\<open>bind_revision_with_edges_unit_of_work\<close> either
  adds the revision, all the edges and the event, or changes no table; in particular an edge
  type outside the vocabulary or an edge id that is taken takes the revision back too.
\<close>

lemma revision_with_edges_atomic:
  assumes "world_ok E w" and "event_ok e"
  shows "case bind_revision_with_edges_unit_of_work E r expected es e w of
      (Inr (s, es', a), w') \<Rightarrow> s = r \<and> es' = es \<and> world_ok E w' \<and>
        te_edge_type ` set es \<subseteq> EDGE_VOCABULARY \<and> so_revision r = next_revision expected \<and>
        (\<exists>a t. ae_event a = e \<and> w_db w' = commit [r] es a t (w_db w))
    | (Inl x, w') \<Rightarrow> world_ok E w' \<and> w_db w' = w_db w"
proof -
  obtain q w' where run: "bind_revision_with_edges_unit_of_work E r expected es e w = (q, w')"
    by fastforce
  show ?thesis
  proof (cases q)
    case (Inl x)
    with run have "same_db w w'" using revision_with_edges_Inl by blast
    with run Inl world_ok_same_db [OF assms(1)] show ?thesis by (simp add: same_db_def)
  next
    case (Inr sa)
    obtain s es' a where sa: "sa = (s, es', a)" by (cases sa)
    from revision_with_edges_Inr [OF assms] run Inr sa have
      c: "s = r" "es' = es" "so_revision r = next_revision expected" "committed E [r] es e w w'"
      by blast+
    then have "te_edge_type ` set es \<subseteq> EDGE_VOCABULARY"
      by (auto simp: committed_def world_ok_def edges_ok_def)
    with c run Inr sa show ?thesis by (simp add: committed_def)
  qed
qed

theorem revision_and_event_atomic_witness:
  "fst (record_object_revision_with_event sample_env (raise ValueError) sample_object None sample_event
     empty_world) = Inl ValueError
   \<and> w_db (snd (record_object_revision_with_event sample_env (raise ValueError) sample_object None
     sample_event empty_world)) = empty_db"
proof -
  let ?m = "record_object_revision_with_event sample_env (raise ValueError) sample_object None sample_event"
  define w1 where "w1 = empty_world\<lparr>w_db := empty_db\<lparr>objects_tbl := [sample_object]\<rparr>\<rparr>"
  have ins: "insert_revision_with_connection (ret ()) sample_object None empty_world = (Inr sample_object, w1)"
    using store_insert_sample unfolding store_insert_def w1_def
    by (simp add: insert_revision_tx [OF objects_ok_empty_world])
  have ok1: "log_ok sample_env w1"
    by (rule log_ok_cong [OF log_ok_empty]) (simp_all add: w1_def empty_world_def)
  have "compute_event_hash sample_env sample_event (prev_hash_of w1) = Inr (content_hash ''{}'')"
    by (simp add: compute_event_hash_Inr)
  then have "append_event sample_env sample_event w1 =
      (Inr (appended_row sample_env sample_event w1 (content_hash ''{}'')),
       appended_world sample_env sample_event w1 (content_hash ''{}''))"
    unfolding append_event_run [OF ok1] by (simp add: event_ids_def w1_def empty_db_def)
  with ins have f: "fst (?m empty_world) = Inl ValueError"
    by (simp add: record_object_revision_with_event_def tx_def bindp_def raise_run)
  have h: "\<forall>w1. same_db w1 (snd (raise ValueError w1))" by (simp add: raise_run)
  have "w_db (snd (?m empty_world)) = w_db empty_world"
    using revision_and_event_atomic [OF world_ok_empty event_ok_sample h, of sample_env sample_object None] f
    by (cases "?m empty_world") (auto split: sum.splits)
  with f show ?thesis by (simp add: empty_world_def)
qed

lemma revision_with_edges_atomic_witness:
  "w_db (snd (bind_revision_with_edges_unit_of_work sample_env sample_object (Some 4) [] sample_event
     empty_world)) = empty_db"
proof -
  let ?m = "bind_revision_with_edges_unit_of_work sample_env sample_object (Some 4) [] sample_event"
  have "so_revision sample_object \<noteq> next_revision (Some 4)"
    by (simp add: sample_object_def next_revision_def)
  with revision_with_edges_atomic [OF world_ok_empty event_ok_sample, where E = sample_env and r = sample_object
      and expected = "Some 4" and es = "[]"]
  have "w_db (snd (?m empty_world)) = w_db empty_world"
    by (cases "?m empty_world") (auto split: sum.splits)
  then show ?thesis by (simp add: empty_world_def)
qed

end
