(* ===== verification/Claim_Ceiling.thy ===== *)
theory Claim_Ceiling
  imports MRR_Prelude
begin

text \<open>
  The two pure gates of the Claim service: the claim ceiling of
  \<^verbatim>\<open>packages/domain/mrr/domain/claim_ceiling.py\<close> with the ordered vocabulary of
  \<^verbatim>\<open>packages/contracts/mrr/contracts/method_profile.py\<close>, and the licence to kill a branch of
  \<^verbatim>\<open>packages/domain/mrr/domain/kill_condition.py\<close>.
\<close>

section \<open>The ceiling vocabulary\<close>

definition CLAIM_CEILING_ORDER :: "string list" where
  "CLAIM_CEILING_ORDER =
     [''insufficient_evidence'', ''mechanism_hypothesis'', ''descriptive'',
      ''associational_unadjusted'', ''associational_adjusted'', ''causal_local'',
      ''causal_bounded'']"

definition causal_licensing_ceilings :: "string set" where
  "causal_licensing_ceilings = {''causal_local'', ''causal_bounded''}"

text \<open>\<^verbatim>\<open>tuple.index\<close>: the first position of a value that is present.\<close>

fun index_of :: "'a \<Rightarrow> 'a list \<Rightarrow> nat" where
  "index_of x [] = 0"
| "index_of x (y # ys) = (if x = y then 0 else Suc (index_of x ys))"

section \<open>The reasons, as Python prints them\<close>

text \<open>\<^verbatim>\<open>repr\<close> of a string of 8-bit characters.\<close>

definition hex2 :: "nat \<Rightarrow> string" where
  "hex2 n = (let d = (\<lambda>k. char_of (if k < 10 then 48 + k else 87 + k) :: char) in [d (n div 16), d (n mod 16)])"

definition repr_char :: "char \<Rightarrow> char \<Rightarrow> string" where
  "repr_char q c =
     (let n = of_char c :: nat
      in if c = q \<or> n = 92 then [CHR 0x5C, c]
         else if n = 10 then [CHR 0x5C, CHR ''n'']
         else if n = 13 then [CHR 0x5C, CHR ''r'']
         else if n = 9 then [CHR 0x5C, CHR ''t'']
         else if n < 32 \<or> (127 \<le> n \<and> n \<le> 160) \<or> n = 173 then [CHR 0x5C, CHR ''x''] @ hex2 n
         else [c])"

definition py_repr :: "string \<Rightarrow> string" where
  "py_repr s =
     (let q = (if CHR 0x27 \<in> set s \<and> CHR 0x22 \<notin> set s then CHR 0x22 else CHR 0x27)
      in q # concat (map (repr_char q) s) @ [q])"

definition exceeds_profile_reason :: "string \<Rightarrow> string \<Rightarrow> string" where
  "exceeds_profile_reason r p =
     ''ruled_ceiling '' @ py_repr r @ '' exceeds the governing profile's own max_claim_ceiling ''
       @ py_repr p @ '' (MRR-MTH-003/006)''"

definition causal_licence_reason :: "string \<Rightarrow> string \<Rightarrow> string" where
  "causal_licence_reason t r =
     ''claim_type '' @ py_repr t @ '' requires ruled_ceiling to be one of ''
       @ ''['' @ py_repr ''causal_bounded'' @ '', '' @ py_repr ''causal_local'' @ '']''
       @ '', got '' @ py_repr r @ '' (MRR-MTH-004)''"

section \<open>The gates\<close>

definition ceiling_violation_reason :: "string \<Rightarrow> string \<Rightarrow> string \<Rightarrow> string option outcome" where
  "ceiling_violation_reason claim_type ruled_ceiling profile_max_ceiling =
     (if ruled_ceiling \<notin> set CLAIM_CEILING_ORDER then Inl ValueError
      else if profile_max_ceiling \<notin> set CLAIM_CEILING_ORDER then Inl ValueError
      else if index_of profile_max_ceiling CLAIM_CEILING_ORDER < index_of ruled_ceiling CLAIM_CEILING_ORDER
      then Inr (Some (exceeds_profile_reason ruled_ceiling profile_max_ceiling))
      else if claim_type = ''causal'' \<and> ruled_ceiling \<notin> causal_licensing_ceilings
      then Inr (Some (causal_licence_reason claim_type ruled_ceiling))
      else Inr None)"

definition assert_licenses_kill :: "string \<Rightarrow> string \<Rightarrow> json option \<Rightarrow> unit outcome" where
  "assert_licenses_kill research_decision_id decision_kind decision_type =
     (if decision_kind \<noteq> ''ResearchDecision'' \<or> decision_type \<noteq> Some (JStr ''kill_branch'')
      then Inl (InvalidKillDecisionError research_decision_id decision_kind decision_type)
      else Inr ())"

lemma assert_licenses_kill_Inr [simp]:
  "assert_licenses_kill i k t = Inr u \<longleftrightarrow> k = ''ResearchDecision'' \<and> t = Some (JStr ''kill_branch'')"
  by (auto simp: assert_licenses_kill_def)

section \<open>Facts\<close>

definition ceiling_rank :: "string \<Rightarrow> nat" where
  "ceiling_rank c = index_of c CLAIM_CEILING_ORDER"

lemma causal_rank:
  "c \<in> set CLAIM_CEILING_ORDER \<Longrightarrow> c \<in> causal_licensing_ceilings \<longleftrightarrow> 5 \<le> ceiling_rank c"
  unfolding CLAIM_CEILING_ORDER_def list.set
  by (elim insertE emptyE)
    (simp_all add: causal_licensing_ceilings_def ceiling_rank_def CLAIM_CEILING_ORDER_def)

lemma ceiling_admitted:
  "ceiling_violation_reason t r p = Inr None \<longleftrightarrow>
     r \<in> set CLAIM_CEILING_ORDER \<and> p \<in> set CLAIM_CEILING_ORDER \<and>
     ceiling_rank r \<le> ceiling_rank p \<and> (t = ''causal'' \<longrightarrow> 5 \<le> ceiling_rank r)"
  by (auto simp: ceiling_violation_reason_def causal_rank ceiling_rank_def [symmetric] not_less)

section \<open>Properties\<close>

text \<open>
  A ruling never licenses more than its profile: \<^verbatim>\<open>ceiling_violation_reason\<close> admits a
  ruled ceiling exactly when it is not above the profile's maximum in the declared order and,
  for a causal claim, is one of the two causal ceilings. So a causal claim is admitted only
  under a profile whose maximum is itself causal, admission survives any weakening of the
  ruled ceiling for the other claim types and any strengthening of the profile, and values
  outside the vocabulary always raise \<^verbatim>\<open>ValueError\<close>.
\<close>

lemma ceiling_gate_sound:
  "(ceiling_violation_reason t r p = Inr None \<longleftrightarrow>
      r \<in> set CLAIM_CEILING_ORDER \<and> p \<in> set CLAIM_CEILING_ORDER \<and>
      ceiling_rank r \<le> ceiling_rank p \<and> (t = ''causal'' \<longrightarrow> 5 \<le> ceiling_rank r)) \<and>
   (ceiling_violation_reason ''causal'' r p = Inr None \<longrightarrow> p \<in> causal_licensing_ceilings) \<and>
   (ceiling_violation_reason t r p = Inr None \<and> t \<noteq> ''causal'' \<and> r' \<in> set CLAIM_CEILING_ORDER \<and>
      ceiling_rank r' \<le> ceiling_rank r \<longrightarrow> ceiling_violation_reason t r' p = Inr None) \<and>
   (ceiling_violation_reason t r p = Inr None \<and> p' \<in> set CLAIM_CEILING_ORDER \<and>
      ceiling_rank p \<le> ceiling_rank p' \<longrightarrow> ceiling_violation_reason t r p' = Inr None) \<and>
   (r \<notin> set CLAIM_CEILING_ORDER \<or> p \<notin> set CLAIM_CEILING_ORDER \<longrightarrow>
      ceiling_violation_reason t r p = Inl ValueError)"
proof -
  have "p \<in> causal_licensing_ceilings" if "ceiling_violation_reason ''causal'' r p = Inr None"
    using that causal_rank [of p] unfolding ceiling_admitted by (meson order_trans)
  moreover have "ceiling_violation_reason t r' p = Inr None"
    if "ceiling_violation_reason t r p = Inr None" "t \<noteq> ''causal''" "r' \<in> set CLAIM_CEILING_ORDER"
      "ceiling_rank r' \<le> ceiling_rank r"
    using that unfolding ceiling_admitted by (meson order_trans)
  moreover have "ceiling_violation_reason t r p' = Inr None"
    if "ceiling_violation_reason t r p = Inr None" "p' \<in> set CLAIM_CEILING_ORDER"
      "ceiling_rank p \<le> ceiling_rank p'"
    using that unfolding ceiling_admitted by (meson order_trans)
  moreover have "ceiling_violation_reason t r p = Inl ValueError"
    if "r \<notin> set CLAIM_CEILING_ORDER \<or> p \<notin> set CLAIM_CEILING_ORDER"
    using that by (auto simp: ceiling_violation_reason_def)
  moreover note ceiling_admitted [of t r p]
  ultimately show ?thesis by blast
qed

lemma ceiling_gate_sound_witness:
  "ceiling_violation_reason ''statistical'' ''descriptive'' ''causal_local'' = Inr None \<and>
   ceiling_violation_reason ''causal'' ''speculation'' ''causal_local'' = Inl ValueError"
proof -
  have a: "ceiling_violation_reason ''statistical'' ''associational_adjusted'' ''causal_local'' = Inr None"
    by (simp add: ceiling_violation_reason_def CLAIM_CEILING_ORDER_def)
  have b: "''descriptive'' \<in> set CLAIM_CEILING_ORDER" "''speculation'' \<notin> set CLAIM_CEILING_ORDER"
      "ceiling_rank ''descriptive'' \<le> ceiling_rank ''associational_adjusted''" "''statistical'' \<noteq> ''causal''"
    by (simp_all add: CLAIM_CEILING_ORDER_def ceiling_rank_def)
  have "ceiling_violation_reason ''statistical'' ''descriptive'' ''causal_local'' = Inr None"
    using ceiling_gate_sound [THEN conjunct2, THEN conjunct2, THEN conjunct1] a b by blast
  moreover have "ceiling_violation_reason ''causal'' ''speculation'' ''causal_local'' = Inl ValueError"
    using ceiling_gate_sound [THEN conjunct2, THEN conjunct2, THEN conjunct2, THEN conjunct2] b(2) by blast
  ultimately show ?thesis by blast
qed

end
