(* ===== verification/Independence.thy ===== *)
theory Independence
  imports MRR_Prelude
begin

text \<open>
  The two independence counts: distinct independent reviews
  (\<^verbatim>\<open>packages/domain/mrr/domain/independence.py\<close>) and distinct verified source families
  (\<^verbatim>\<open>packages/domain/mrr/domain/source_independence.py\<close>). Both count the distinct keys of the
  rows that qualify; the locale \<open>distinct_count\<close> holds what that gives.
\<close>

section \<open>Counting distinct keys\<close>

text \<open>\<^verbatim>\<open>len({key(x) for x in xs if keep(x)})\<close>.\<close>

definition count_keys :: "('a \<Rightarrow> bool) \<Rightarrow> ('a \<Rightarrow> 'k) \<Rightarrow> 'a list \<Rightarrow> int" where
  "count_keys keep key xs = int (length (remdups (map key (filter keep xs))))"

lemma count_keys_card: "count_keys keep key xs = int (card (key ` {x \<in> set xs. keep x}))"
  by (simp add: count_keys_def length_remdups_card_conv)

locale distinct_count =
  fixes keep :: "'a \<Rightarrow> bool" and key :: "'a \<Rightarrow> 'k" and count :: "'a list \<Rightarrow> int"
  assumes count: "count xs = count_keys keep key xs"
begin

lemma count_set: "set xs = set ys \<Longrightarrow> count xs = count ys"
  by (simp add: count count_keys_card)

lemma count_bounds: "0 \<le> count xs \<and> count xs \<le> int (length (filter keep xs))"
  unfolding count count_keys_def using length_remdups_leq [of "map key (filter keep xs)"] by simp

lemma count_mono: "set xs \<subseteq> set ys \<Longrightarrow> count xs \<le> count ys"
  unfolding count count_keys_card by (auto intro!: card_mono)

text \<open>Rows that do not qualify, or repeat a key that is already there, add nothing.\<close>

lemma count_padding:
  assumes "\<And>y. y \<in> set ys \<Longrightarrow> keep y \<Longrightarrow> \<exists>x \<in> set xs. keep x \<and> key x = key y"
  shows "count (xs @ ys) = count xs"
proof -
  have "key ` {x \<in> set (xs @ ys). keep x} = key ` {x \<in> set xs. keep x}"
  proof (rule subset_antisym)
    show "key ` {x \<in> set (xs @ ys). keep x} \<subseteq> key ` {x \<in> set xs. keep x}"
    proof (rule image_subsetI)
      fix y assume "y \<in> {x \<in> set (xs @ ys). keep x}"
      then consider "y \<in> set xs" "keep y" | "y \<in> set ys" "keep y" by auto
      then show "key y \<in> key ` {x \<in> set xs. keep x}"
      proof cases
        case 2
        from assms [OF 2] obtain x where "x \<in> set xs" "keep x" "key x = key y" by blast
        then show ?thesis by (intro image_eqI [of _ _ x]) simp_all
      qed simp
    qed
  qed (rule image_mono, simp add: Collect_mono_iff)
  then show ?thesis by (simp add: count count_keys_card)
qed

text \<open>A qualifying row with a new key adds exactly one.\<close>

lemma count_new:
  assumes "keep y" and "\<And>x. x \<in> set xs \<Longrightarrow> keep x \<Longrightarrow> key x \<noteq> key y"
  shows "count (y # xs) = count xs + 1"
proof -
  have "key y \<notin> key ` {x \<in> set xs. keep x}" using assms(2) by (metis (mono_tags, lifting) imageE mem_Collect_eq)
  moreover have "key ` {x \<in> set (y # xs). keep x} = insert (key y) (key ` {x \<in> set xs. keep x})"
    using assms(1) by auto
  ultimately show ?thesis by (simp add: count count_keys_card)
qed

lemma count_zero_iff: "count xs = 0 \<longleftrightarrow> (\<forall>x \<in> set xs. \<not> keep x)"
  by (auto simp: count count_keys_def filter_empty_conv)

end

section \<open>Reviews\<close>

record independence_profile =
  principal :: string
  model_family :: string
  prompt_family :: string
  retrieval_path :: string
  code_path :: string
  data_access_path :: string

definition reasoning_path :: "independence_profile \<Rightarrow> string \<times> string \<times> string" where
  "reasoning_path p = (model_family p, prompt_family p, code_path p)"

definition independence_key ::
  "independence_profile \<Rightarrow> string \<times> string \<times> string \<times> string \<times> string \<times> string" where
  "independence_key p =
     (principal p, model_family p, prompt_family p, retrieval_path p, code_path p, data_access_path p)"

definition is_independent_of_producer :: "independence_profile \<Rightarrow> independence_profile \<Rightarrow> bool" where
  "is_independent_of_producer verifier producer =
     (let same_principal = (principal verifier = principal producer);
          unaltered_reasoning_path = (reasoning_path verifier = reasoning_path producer)
      in \<not> (same_principal \<and> unaltered_reasoning_path))"

definition distinct_independent_reviews ::
  "independence_profile \<Rightarrow> independence_profile list \<Rightarrow> int" where
  "distinct_independent_reviews producer verifiers =
     count_keys (\<lambda>v. is_independent_of_producer v producer) independence_key verifiers"

definition has_independent_verification ::
  "independence_profile \<Rightarrow> independence_profile list \<Rightarrow> int \<Rightarrow> bool outcome" where
  "has_independent_verification producer verifiers minimum =
     (if minimum < 0 then Inl ValueError
      else Inr (minimum \<le> distinct_independent_reviews producer verifiers))"

interpretation reviews: distinct_count "\<lambda>v. is_independent_of_producer v producer" independence_key
  "distinct_independent_reviews producer" for producer
  by unfold_locales (simp add: distinct_independent_reviews_def)

section \<open>Source families\<close>

record source_family_row =
  source_family_id :: "string option"
  source_record_id :: string
  verification_status :: string

definition family_key :: "source_family_row \<Rightarrow> string" where
  "family_key row =
     (case source_family_id row of Some f \<Rightarrow> f | None \<Rightarrow> ''source:'' @ source_record_id row)"

definition distinct_independent_source_family_count :: "source_family_row list \<Rightarrow> int" where
  "distinct_independent_source_family_count rows =
     count_keys (\<lambda>row. verification_status row = ''verified'') family_key rows"

definition has_sufficient_independent_source_families :: "source_family_row list \<Rightarrow> int \<Rightarrow> bool outcome" where
  "has_sufficient_independent_source_families rows minimum =
     (if minimum < 0 then Inl ValueError
      else Inr (minimum \<le> distinct_independent_source_family_count rows))"

interpretation families: distinct_count "\<lambda>row. verification_status row = ''verified''" family_key
  distinct_independent_source_family_count
  by unfold_locales (simp add: distinct_independent_source_family_count_def)

section \<open>Properties\<close>

text \<open>
  Reviews cannot be padded: the producer reviewing itself on an unaltered reasoning path,
  and any further review whose six-part key repeats one that is already counted, never change
  the count, however many are added and in whatever order; the count is at most the number
  of verifiers that are independent of the producer; and it is positive as soon as one is.
\<close>

lemma reviews_cannot_be_padded:
  assumes "\<forall>v \<in> set padding. principal v = principal producer \<and>
             reasoning_path v = reasoning_path producer
           \<or> (\<exists>u \<in> set verifiers. independence_key u = independence_key v)"
    and "set mixed = set (verifiers @ padding)"
  shows "distinct_independent_reviews producer mixed = distinct_independent_reviews producer verifiers \<and>
         distinct_independent_reviews producer verifiers \<le>
           int (length (filter (\<lambda>v. is_independent_of_producer v producer) verifiers)) \<and>
         (has_independent_verification producer mixed 1 = Inr True \<longleftrightarrow>
            (\<exists>v \<in> set verifiers. is_independent_of_producer v producer))"
proof -
  have key: "is_independent_of_producer u producer = is_independent_of_producer v producer"
    if "independence_key u = independence_key v" for u v
    using that by (simp add: independence_key_def is_independent_of_producer_def reasoning_path_def)
  have "distinct_independent_reviews producer mixed = distinct_independent_reviews producer (verifiers @ padding)"
    by (rule reviews.count_set [OF assms(2)])
  also have "\<dots> = distinct_independent_reviews producer verifiers"
  proof (rule reviews.count_padding)
    fix v assume v: "v \<in> set padding" and ind: "is_independent_of_producer v producer"
    from ind have "\<not> (principal v = principal producer \<and> reasoning_path v = reasoning_path producer)"
      by (simp add: is_independent_of_producer_def)
    with assms(1) v obtain u where "u \<in> set verifiers" "independence_key u = independence_key v" by blast
    with ind key show "\<exists>u \<in> set verifiers. is_independent_of_producer u producer \<and>
        independence_key u = independence_key v" by blast
  qed
  finally have eq: "distinct_independent_reviews producer mixed =
      distinct_independent_reviews producer verifiers" .
  have "1 \<le> distinct_independent_reviews producer verifiers \<longleftrightarrow>
      distinct_independent_reviews producer verifiers \<noteq> 0"
    using reviews.count_bounds [of producer verifiers] by linarith
  then have "has_independent_verification producer mixed 1 = Inr True \<longleftrightarrow>
      (\<exists>v \<in> set verifiers. is_independent_of_producer v producer)"
    by (simp add: has_independent_verification_def eq reviews.count_zero_iff)
  with eq reviews.count_bounds [of producer verifiers] show ?thesis by blast
qed

definition sample_profile :: "string \<Rightarrow> independence_profile" where
  "sample_profile who = \<lparr>principal = who, model_family = ''m'', prompt_family = ''p'',
     retrieval_path = ''r'', code_path = ''c'', data_access_path = ''d''\<rparr>"

lemma reviews_cannot_be_padded_witness:
  "distinct_independent_reviews (sample_profile ''ann'')
     [sample_profile ''bob'', sample_profile ''ann'', sample_profile ''bob''] =
   distinct_independent_reviews (sample_profile ''ann'') [sample_profile ''bob'']"
  using reviews_cannot_be_padded [of "[sample_profile ''ann'', sample_profile ''bob'']"
      "sample_profile ''ann''" "[sample_profile ''bob'']"
      "[sample_profile ''bob'', sample_profile ''ann'', sample_profile ''bob'']"]
  by auto

text \<open>
  A source family counts once and only when verified: adding rows that are unverified or
  belong to a family (or, without one, a source record) already counted leaves the number of
  independent source families as it was, and adding a verified row of a family not yet
  counted raises it by exactly one. The threshold test agrees with the count and refuses
  negative thresholds.
\<close>

lemma source_families_count_once:
  "(verification_status row = ''verified'' \<and>
      (\<forall>r \<in> set rows. verification_status r = ''verified'' \<longrightarrow> family_key r \<noteq> family_key row) \<longrightarrow>
      distinct_independent_source_family_count (row # rows) =
        distinct_independent_source_family_count rows + 1) \<and>
   ((\<forall>r \<in> set extra. verification_status r = ''verified'' \<longrightarrow>
       (\<exists>q \<in> set rows. verification_status q = ''verified'' \<and> family_key q = family_key r)) \<longrightarrow>
      distinct_independent_source_family_count (rows @ extra) =
        distinct_independent_source_family_count rows) \<and>
   has_sufficient_independent_source_families rows n =
     (if n < 0 then Inl ValueError else Inr (n \<le> int (card (family_key `
        {r \<in> set rows. verification_status r = ''verified''}))))"
proof -
  have "distinct_independent_source_family_count (rows @ extra) =
      distinct_independent_source_family_count rows"
    if "\<forall>r \<in> set extra. verification_status r = ''verified'' \<longrightarrow>
       (\<exists>q \<in> set rows. verification_status q = ''verified'' \<and> family_key q = family_key r)"
    by (rule families.count_padding) (use that in blast)
  moreover have "distinct_independent_source_family_count (row # rows) =
      distinct_independent_source_family_count rows + 1"
    if "verification_status row = ''verified'' \<and>
      (\<forall>r \<in> set rows. verification_status r = ''verified'' \<longrightarrow> family_key r \<noteq> family_key row)"
    by (rule families.count_new) (use that in blast)+
  moreover have "distinct_independent_source_family_count rows =
      int (card (family_key ` {r \<in> set rows. verification_status r = ''verified''}))"
    by (simp add: distinct_independent_source_family_count_def count_keys_card)
  ultimately show ?thesis by (simp add: has_sufficient_independent_source_families_def)
qed

lemma source_families_count_once_witness:
  "distinct_independent_source_family_count
     [\<lparr>source_family_id = None, source_record_id = ''s1'', verification_status = ''verified''\<rparr>,
      \<lparr>source_family_id = Some ''f1'', source_record_id = ''s2'', verification_status = ''verified''\<rparr>] =
   distinct_independent_source_family_count
     [\<lparr>source_family_id = Some ''f1'', source_record_id = ''s2'', verification_status = ''verified''\<rparr>] + 1"
  using source_families_count_once [THEN conjunct1, of
      "\<lparr>source_family_id = None, source_record_id = ''s1'', verification_status = ''verified''\<rparr>"
      "[\<lparr>source_family_id = Some ''f1'', source_record_id = ''s2'', verification_status = ''verified''\<rparr>]"]
  by (simp add: family_key_def)

end
