(* ===== verification/Impact_Graph.thy ===== *)
theory Impact_Graph
  imports Object_Store
begin

text \<open>
  Reachability over the typed edges: the impact computation of
  \<^verbatim>\<open>packages/domain/mrr/domain/correction_impact.py\<close>, its reuse in
  \<^verbatim>\<open>packages/domain/mrr/domain/obligation_propagation.py\<close>, and the loop that fetches the edges
  it needs from the store, which the Obligation service (\<^verbatim>\<open>_gather_binding_edges\<close>) and the
  Correction service (\<^verbatim>\<open>_gather_impact_edges\<close>, \<^verbatim>\<open>_gather_local_impact_edges\<close>) each have in
  the same words. Python's sets are lists here, in whatever order they are iterated; the
  results are compared as sets.
\<close>

section \<open>Impact edges\<close>

definition FR091_IMPACT_CATEGORY_EDGE_TYPES :: "(string \<times> string list) list" where
  "FR091_IMPACT_CATEGORY_EDGE_TYPES =
     [(''dependency'', [''depends_on'']), (''derivation'', [''derived_from'', ''adapted_from'']),
      (''citation'', [''uses_source'']), (''transfer'', [''transferred_from'']),
      (''publication'', [''projected_into''])]"

definition IMPACT_EDGE_TYPES :: "string list" where
  "IMPACT_EDGE_TYPES = concat (map snd FR091_IMPACT_CATEGORY_EDGE_TYPES)"

definition impact_edge :: "typed_edge \<Rightarrow> bool" where
  "impact_edge e \<longleftrightarrow> te_edge_type e \<in> set IMPACT_EDGE_TYPES"

section \<open>compute_impact\<close>

text \<open>\<^verbatim>\<open>targets_to_sources.setdefault(target, set()).add(source)\<close> over the impact edges.\<close>

type_synonym source_index = "(string \<times> string list) list"

definition add_source :: "source_index \<Rightarrow> typed_edge \<Rightarrow> source_index" where
  "add_source m e =
     (if \<not> impact_edge e then m
      else let ss = (case map_of m (te_target_id e) of None \<Rightarrow> [] | Some ss \<Rightarrow> ss)
           in AList.update (te_target_id e) (List.insert (te_source_id e) ss) m)"

definition targets_to_sources :: "typed_edge list \<Rightarrow> source_index" where
  "targets_to_sources edges = foldl add_source [] edges"

definition sources_of :: "source_index \<Rightarrow> string \<Rightarrow> string list" where
  "sources_of m t = (case map_of m t of None \<Rightarrow> [] | Some ss \<Rightarrow> ss)"

text \<open>The inner loop over the sources of one target: \<open>(impacted, next_frontier)\<close>.\<close>

fun visit_sources :: "string list \<Rightarrow> string list \<times> string list \<Rightarrow> string list \<times> string list" where
  "visit_sources [] (I, N) = (I, N)"
| "visit_sources (s # ss) (I, N) =
     (if s \<in> set I then visit_sources ss (I, N) else visit_sources ss (s # I, s # N))"

text \<open>The loop over the frontier: \<open>(visited_targets, impacted, next_frontier)\<close>.\<close>

fun visit_frontier ::
  "source_index \<Rightarrow> string list \<Rightarrow> string list \<times> string list \<times> string list \<Rightarrow>
   string list \<times> string list \<times> string list" where
  "visit_frontier m [] s = s"
| "visit_frontier m (t # ts) (V, I, N) =
     (if t \<in> set V then visit_frontier m ts (V, I, N)
      else let (I', N') = visit_sources (sources_of m t) (I, N)
           in visit_frontier m ts (t # V, I', N'))"

definition index_universe :: "source_index \<Rightarrow> string set" where
  "index_universe m = set (concat (map snd m))"

lemma sources_in_universe: "set (sources_of m t) \<subseteq> index_universe m"
proof (cases "map_of m t")
  case (Some ss)
  then show ?thesis using map_of_SomeD [OF Some] by (force simp: sources_of_def index_universe_def)
qed (simp add: sources_of_def)

lemma visit_sources_sets:
  "visit_sources ss (I, N) = (I', N') \<Longrightarrow>
     set I' = set I \<union> set ss \<and> set N' = set N \<union> (set ss - set I)"
  by (induction ss arbitrary: I N) (auto split: if_splits)

text \<open>What one pass over the frontier leaves, as sets.\<close>

lemma visit_frontier_sets:
  "visit_frontier m F (V, I, N) = (V', I', N') \<Longrightarrow>
     set V' = set V \<union> set F \<and>
     set I' = set I \<union> (\<Union>t \<in> set F - set V. set (sources_of m t)) \<and>
     set N' = set N \<union> ((\<Union>t \<in> set F - set V. set (sources_of m t)) - set I)"
proof (induction F arbitrary: V I N)
  case (Cons t F)
  show ?case
  proof (cases "t \<in> set V")
    case True
    with Cons show ?thesis by (auto simp: insert_Diff_if)
  next
    case False
    obtain I1 N1 where v: "visit_sources (sources_of m t) (I, N) = (I1, N1)" by fastforce
    from visit_sources_sets [OF v] have
      s: "set I1 = set I \<union> set (sources_of m t)" "set N1 = set N \<union> (set (sources_of m t) - set I)" by auto
    from False v Cons.prems have "visit_frontier m F (t # V, I1, N1) = (V', I', N')" by simp
    from Cons.IH [OF this] s False show ?thesis by auto
  qed
qed simp

function impact_loop ::
  "source_index \<Rightarrow> string list \<Rightarrow> string list \<Rightarrow> string list \<Rightarrow> string list" where
  "impact_loop m V I F =
     (if F = [] then I
      else let (V', I', N) = visit_frontier m F (V, I, []) in impact_loop m V' I' N)"
  by pat_completeness auto

termination
proof (relation "measure (\<lambda>(m, V, I, F). card (index_universe m - set I) + (if F = [] then 0 else 1))",
    goal_cases)
  case 1
  show ?case by simp
next
  case (2 m V I F x V' y I' N)
  then have v: "visit_frontier m F (V, I, []) = (V', I', N)" by simp
  from visit_frontier_sets [OF v] have
    s: "set I \<subseteq> set I'" "set N \<subseteq> set I' - set I" "set N \<subseteq> index_universe m"
    using sources_in_universe [of m] by auto
  have fin: "finite (index_universe m - set I)" by (simp add: index_universe_def)
  show ?case
  proof (cases "N = []")
    case True
    have "card (index_universe m - set I') \<le> card (index_universe m - set I)"
      by (rule card_mono [OF fin]) (use s in auto)
    with True 2(1) show ?thesis by simp
  next
    case False
    then obtain n where "n \<in> set N" by (cases N) auto
    with s have "index_universe m - set I' \<subset> index_universe m - set I" by blast
    with psubset_card_mono [OF fin this] 2(1) False show ?thesis by simp
  qed
qed

declare impact_loop.simps [simp del]

definition compute_impact :: "string list \<Rightarrow> typed_edge list \<Rightarrow> string list" where
  "compute_impact seed_ids edges = impact_loop (targets_to_sources edges) [] [] seed_ids"

definition compute_obligation_binding :: "string list \<Rightarrow> typed_edge list \<Rightarrow> string list" where
  "compute_obligation_binding seed_ids edges = compute_impact seed_ids edges"

section \<open>The relation it computes\<close>

definition impact_rel :: "typed_edge list \<Rightarrow> (string \<times> string) set" where
  "impact_rel edges = {(te_source_id e, te_target_id e) |e. e \<in> set edges \<and> impact_edge e}"

definition impacted_by :: "(string \<times> string) set \<Rightarrow> string set \<Rightarrow> string set" where
  "impacted_by R S = {s. \<exists>t \<in> S. (s, t) \<in> R\<^sup>+}"

lemma sources_of_add:
  "set (sources_of (add_source m e) t) =
     set (sources_of m t) \<union> (if impact_edge e \<and> te_target_id e = t then {te_source_id e} else {})"
  by (auto simp: add_source_def sources_of_def Let_def update_conv' split: option.splits)

lemma sources_of_index: "set (sources_of (targets_to_sources edges) t) = {s. (s, t) \<in> impact_rel edges}"
proof -
  have "set (sources_of (foldl add_source m edges) t) =
      set (sources_of m t) \<union> {s. (s, t) \<in> impact_rel edges}" for m
    by (induction edges arbitrary: m) (auto simp: sources_of_add impact_rel_def)
  then show ?thesis by (simp add: targets_to_sources_def sources_of_def)
qed

text \<open>
  The loop invariant: what is visited, impacted or waiting is a seed or impacted; everything
  impacted and every seed is visited or waiting; the sources of visited targets are impacted.
\<close>

lemma impact_loop_set:
  assumes m: "\<And>t. set (sources_of m t) = {s. (s, t) \<in> R}"
    and "set F \<subseteq> S \<union> impacted_by R S" and "set I \<subseteq> impacted_by R S"
    and "S \<subseteq> set V \<union> set F" and "set I \<subseteq> set V \<union> set F"
    and "\<And>s t. t \<in> set V \<Longrightarrow> (s, t) \<in> R \<Longrightarrow> s \<in> set I"
  shows "set (impact_loop m V I F) = impacted_by R S"
  using assms
proof (induction m V I F rule: impact_loop.induct)
  case (1 m V I F)
  note m = 1(2)
  show ?case
  proof (cases "F = []")
    case True
    have "s \<in> set I" if "(s, t) \<in> R\<^sup>+" "t \<in> S" for s t
      using that(1)
    proof (induction rule: converse_trancl_induct)
      case (base y)
      then show ?case using 1(5,7) that(2) True by auto
    next
      case (step y z)
      then show ?case using 1(6,7) True by auto
    qed
    with 1(4) True show ?thesis by (auto simp: impact_loop.simps impacted_by_def)
  next
    case False
    obtain V' I' N where v: "visit_frontier m F (V, I, []) = (V', I', N)" by (cases "visit_frontier m F (V, I, [])") auto
    from visit_frontier_sets [OF v] have V': "set V' = set V \<union> set F"
      and I': "set I' = set I \<union> (\<Union>t \<in> set F - set V. set (sources_of m t))"
      and N: "set N = (\<Union>t \<in> set F - set V. set (sources_of m t)) - set I" by auto
    have new: "s \<in> impacted_by R S" if "t \<in> set F" "(s, t) \<in> R" for s t
      using that 1(3) by (auto simp: impacted_by_def intro: trancl_into_trancl2)
    have "set (impact_loop m V' I' N) = impacted_by R S"
    proof (rule 1(1) [OF False v [symmetric] refl refl m])
      show "set N \<subseteq> S \<union> impacted_by R S" using N new unfolding m by blast
      show "set I' \<subseteq> impacted_by R S" using I' new 1(4) unfolding m by blast
      show "S \<subseteq> set V' \<union> set N" using V' 1(5) by auto
      show "set I' \<subseteq> set V' \<union> set N" using V' I' N 1(6) by auto
      show "s \<in> set I'" if "t \<in> set V'" "(s, t) \<in> R" for s t
        using that V' I' 1(7) unfolding m by blast
    qed
    with False v show ?thesis by (simp add: impact_loop.simps)
  qed
qed

lemma set_compute_impact:
  "set (compute_impact seeds edges) = impacted_by (impact_rel edges) (set seeds)"
  unfolding compute_impact_def
  by (rule impact_loop_set [of "targets_to_sources edges"]) (simp_all add: sources_of_index)

section \<open>Fetching the edges\<close>

text \<open>\<^verbatim>\<open>edges_to(node_id)\<close> on the current table.\<close>

definition stored_edges_to :: "typed_edge list \<Rightarrow> string \<Rightarrow> typed_edge list" where
  "stored_edges_to tbl i = sort_key te_created_at (filter (\<lambda>e. te_target_id e = i) tbl)"

lemma edges_to_run: "edges_to i None w = (Inr (stored_edges_to (edges_tbl (w_db w)) i), w)"
  by (simp add: edges_to_def edges_by_def asks_run stored_edges_to_def)

text \<open>The inner loop: \<open>(collected, next_frontier)\<close>.\<close>

fun gather_edges ::
  "typed_edge list \<Rightarrow> string list \<Rightarrow> typed_edge list \<times> string list \<Rightarrow> typed_edge list \<times> string list" where
  "gather_edges [] V (C, N) = (C, N)"
| "gather_edges (e # es) V (C, N) =
     (if \<not> impact_edge e then gather_edges es V (C, N)
      else gather_edges es V (C @ [e], if te_source_id e \<in> set V then N else List.insert (te_source_id e) N))"

fun gather_frontier ::
  "typed_edge list \<Rightarrow> string list \<Rightarrow> string list \<times> typed_edge list \<times> string list \<Rightarrow>
   string list \<times> typed_edge list \<times> string list" where
  "gather_frontier tbl [] s = s"
| "gather_frontier tbl (i # is) (V, C, N) =
     (if i \<in> set V then gather_frontier tbl is (V, C, N)
      else let V' = i # V; (C', N') = gather_edges (stored_edges_to tbl i) V' (C, N)
           in gather_frontier tbl is (V', C', N'))"

lemma gather_edges_sets:
  "gather_edges es V (C, N) = (C', N') \<Longrightarrow>
     set C' = set C \<union> {e \<in> set es. impact_edge e} \<and>
     set N' = set N \<union> {te_source_id e |e. e \<in> set es \<and> impact_edge e \<and> te_source_id e \<notin> set V}"
proof (induction es V "(C, N)" arbitrary: C N rule: gather_edges.induct)
  case (2 e es V C N)
  then show ?case by (cases "impact_edge e") (auto split: if_splits)
qed auto

text \<open>The impact edges into a set of nodes.\<close>

definition edges_into :: "typed_edge list \<Rightarrow> string set \<Rightarrow> typed_edge set" where
  "edges_into tbl A = {e \<in> set tbl. impact_edge e \<and> te_target_id e \<in> A}"

lemma edges_into_Un [simp]: "edges_into tbl (A \<union> B) = edges_into tbl A \<union> edges_into tbl B"
  and edges_into_empty [simp]: "edges_into tbl {} = {}"
  by (auto simp: edges_into_def)

lemma gather_edges_into:
  assumes "gather_edges (stored_edges_to tbl i) V (C, N) = (C', N')"
  shows "set C' = set C \<union> edges_into tbl {i}" and "set N \<subseteq> set N'"
    and "set N' \<subseteq> set N \<union> te_source_id ` edges_into tbl {i}"
    and "te_source_id ` edges_into tbl {i} \<subseteq> set V \<union> set N'"
  using gather_edges_sets [OF assms] by (auto simp: stored_edges_to_def edges_into_def)

lemma gather_frontier_sets:
  assumes "gather_frontier tbl F (V, C, N) = (V', C', N')"
  shows "set V' = set V \<union> set F" and "set C' = set C \<union> edges_into tbl (set F - set V)"
    and "set N \<subseteq> set N'" and "set N' \<subseteq> set N \<union> te_source_id ` edges_into tbl (set F - set V)"
    and "te_source_id ` edges_into tbl (set F - set V) \<subseteq> set V' \<union> set N'"
    and "set F \<subseteq> set V \<Longrightarrow> N' = N"
proof -
  have "set V' = set V \<union> set F \<and> set C' = set C \<union> edges_into tbl (set F - set V) \<and>
    set N \<subseteq> set N' \<and> set N' \<subseteq> set N \<union> te_source_id ` edges_into tbl (set F - set V) \<and>
    te_source_id ` edges_into tbl (set F - set V) \<subseteq> set V' \<union> set N' \<and> (set F \<subseteq> set V \<longrightarrow> N' = N)"
    using assms
  proof (induction F arbitrary: V C N)
    case (Cons i F)
    show ?case
    proof (cases "i \<in> set V")
      case True
      then have d: "set (i # F) - set V = set F - set V" "set V \<union> set (i # F) = set V \<union> set F"
        "set (i # F) \<subseteq> set V \<longleftrightarrow> set F \<subseteq> set V" by auto
      from True Cons.prems have "gather_frontier tbl F (V, C, N) = (V', C', N')" by simp
      from Cons.IH [OF this] show ?thesis unfolding d .
    next
      case False
      obtain C1 N1 where g: "gather_edges (stored_edges_to tbl i) (i # V) (C, N) = (C1, N1)" by fastforce
      note g' = gather_edges_into [OF g]
      from False g Cons.prems have "gather_frontier tbl F (i # V, C1, N1) = (V', C', N')" by simp
      note IH0 = Cons.IH [OF this]
      note IH = IH0 [THEN conjunct1] IH0 [THEN conjunct2, THEN conjunct1]
        IH0 [THEN conjunct2, THEN conjunct2, THEN conjunct1]
        IH0 [THEN conjunct2, THEN conjunct2, THEN conjunct2, THEN conjunct1]
        IH0 [THEN conjunct2, THEN conjunct2, THEN conjunct2, THEN conjunct2, THEN conjunct1]
      have d: "edges_into tbl (set (i # F) - set V) =
          edges_into tbl {i} \<union> edges_into tbl (set F - set (i # V))"
      proof -
        have "set (i # F) - set V = {i} \<union> (set F - set (i # V))" using False by auto
        then show ?thesis by (simp only: edges_into_Un)
      qed
      have "set V' = set V \<union> set (i # F)" using IH(1) by auto
      moreover have "set C' = set C \<union> edges_into tbl (set (i # F) - set V)"
        using IH(2) g'(1) unfolding d by blast
      moreover have "set N \<subseteq> set N'" using IH(3) g'(2) by blast
      moreover have "set N' \<subseteq> set N \<union> te_source_id ` edges_into tbl (set (i # F) - set V)"
        using IH(4) g'(3) unfolding d image_Un by blast
      moreover have "te_source_id ` edges_into tbl (set (i # F) - set V) \<subseteq> set V' \<union> set N'"
        using IH(1,3,5) g'(4) unfolding d image_Un by auto
      ultimately show ?thesis using False by simp
    qed
  qed simp
  then show "set V' = set V \<union> set F" "set C' = set C \<union> edges_into tbl (set F - set V)"
    "set N \<subseteq> set N'" "set N' \<subseteq> set N \<union> te_source_id ` edges_into tbl (set F - set V)"
    "te_source_id ` edges_into tbl (set F - set V) \<subseteq> set V' \<union> set N'" "set F \<subseteq> set V \<Longrightarrow> N' = N"
    by blast+
qed

function gather_loop ::
  "typed_edge list \<Rightarrow> string list \<Rightarrow> typed_edge list \<Rightarrow> string list \<Rightarrow> typed_edge list" where
  "gather_loop tbl V C F =
     (if F = [] then C
      else let (V', C', N) = gather_frontier tbl F (V, C, []) in gather_loop tbl V' C' N)"
  by pat_completeness auto

termination
proof (relation "measures [\<lambda>(tbl, V, C, F). card ((set F \<union> te_source_id ` set tbl) - set V),
    \<lambda>(tbl, V, C, F). length F]", goal_cases)
  case 1
  show ?case by simp
next
  case (2 tbl V C F x V' y C' N)
  then have g: "gather_frontier tbl F (V, C, []) = (V', C', N)" by simp
  note V' = gather_frontier_sets(1) [OF g] and stop = gather_frontier_sets(6) [OF g]
  have N: "set N \<subseteq> te_source_id ` set tbl"
    using gather_frontier_sets(4) [OF g] by (auto simp: edges_into_def)
  let ?u = "(set F \<union> te_source_id ` set tbl) - set V" and ?u' = "(set N \<union> te_source_id ` set tbl) - set V'"
  have sub: "?u' \<subseteq> ?u" using V' N by auto
  show ?case
  proof (cases "set F \<subseteq> set V")
    case True
    with stop 2(1) card_mono [OF _ sub] show ?thesis by (auto simp: le_less)
  next
    case False
    with V' have "?u' \<subset> ?u" using sub by blast
    with psubset_card_mono [OF _ this] show ?thesis by simp
  qed
qed

declare gather_loop.simps [simp del]

definition gather_impact_edges :: "string list \<Rightarrow> (world, typed_edge list) prog" where
  "gather_impact_edges seed_ids = asks (\<lambda>w. gather_loop (edges_tbl (w_db w)) [] [] seed_ids)"

text \<open>What has been collected are the impact edges into the visited nodes.\<close>

lemma gather_loop_set:
  assumes "set F \<subseteq> S \<union> impacted_by R S" and "set V \<subseteq> S \<union> impacted_by R S"
    and "S \<subseteq> set V \<union> set F"
    and "te_source_id ` edges_into tbl (set V) \<subseteq> set V \<union> set F"
    and "set C = edges_into tbl (set V)"
    and R: "R = impact_rel tbl"
  shows "set (gather_loop tbl V C F) = edges_into tbl (S \<union> impacted_by R S)"
  using assms
proof (induction tbl V C F rule: gather_loop.induct)
  case (1 tbl V C F)
  note R = \<open>R = impact_rel tbl\<close>
  have edge: "(te_source_id e, te_target_id e) \<in> R" if "e \<in> edges_into tbl A" for e A
    using that by (auto simp: R edges_into_def impact_rel_def)
  show ?case
  proof (cases "F = []")
    case True
    have "s \<in> set V" if "(s, t) \<in> R\<^sup>+" "t \<in> S" for s t
      using that(1)
    proof (induction rule: converse_trancl_induct)
      case (base y)
      then show ?case using 1(4,5) that(2) True by (force simp: R impact_rel_def edges_into_def)
    next
      case (step y z)
      then show ?case using 1(5) True by (force simp: R impact_rel_def edges_into_def)
    qed
    then have "set V = S \<union> impacted_by R S"
      using 1(3,4) True by (auto simp: impacted_by_def)
    with 1(6) True show ?thesis by (simp add: gather_loop.simps)
  next
    case False
    obtain V' C' N where v: "gather_frontier tbl F (V, C, []) = (V', C', N)"
      by (cases "gather_frontier tbl F (V, C, [])") auto
    note fs = gather_frontier_sets [OF v]
    have new: "te_source_id e \<in> impacted_by R S" if "e \<in> edges_into tbl (set F)" for e
    proof -
      from that have "te_target_id e \<in> S \<union> impacted_by R S" using 1(2) by (auto simp: edges_into_def)
      with edge [OF that] show ?thesis by (auto simp: impacted_by_def intro: trancl_into_trancl2)
    qed
    have VF: "edges_into tbl (set V') = edges_into tbl (set V) \<union> edges_into tbl (set F - set V)"
      unfolding fs(1) by (auto simp: edges_into_def)
    have "set (gather_loop tbl V' C' N) = edges_into tbl (S \<union> impacted_by R S)"
    proof (rule 1(1) [OF False v [symmetric] refl refl _ _ _ _ _ R])
      show "set N \<subseteq> S \<union> impacted_by R S"
        using fs(4) new by (auto simp: edges_into_def)
      show "set V' \<subseteq> S \<union> impacted_by R S" using fs(1) 1(2,3) by auto
      show "S \<subseteq> set V' \<union> set N" using fs(1) 1(4) by auto
      show "te_source_id ` edges_into tbl (set V') \<subseteq> set V' \<union> set N"
        using fs(1,5) 1(5) unfolding VF image_Un by blast
      show "set C' = edges_into tbl (set V')" using fs(2) 1(6) VF by blast
    qed
    with False v show ?thesis by (simp add: gather_loop.simps)
  qed
qed

lemma set_gather_loop:
  "set (gather_loop tbl [] [] seeds) =
     edges_into tbl (set seeds \<union> impacted_by (impact_rel tbl) (set seeds))"
  by (rule gather_loop_set) simp_all

text \<open>On the fetched edges the computation finds what it would find on the whole table.\<close>

lemma impacted_by_edges_into:
  assumes "set es = edges_into tbl (S \<union> impacted_by (impact_rel tbl) S)"
  shows "impacted_by (impact_rel es) S = impacted_by (impact_rel tbl) S"
proof
  have sub: "impact_rel es \<subseteq> impact_rel tbl" using assms by (auto simp: impact_rel_def edges_into_def)
  then show "impacted_by (impact_rel es) S \<subseteq> impacted_by (impact_rel tbl) S"
    unfolding impacted_by_def using trancl_mono [OF _ sub] by blast
  have "(s, t) \<in> (impact_rel es)\<^sup>+" if "(s, t) \<in> (impact_rel tbl)\<^sup>+" "t \<in> S" for s t
    using that
  proof (induction rule: converse_trancl_induct)
    case (base y)
    then have "(y, t) \<in> impact_rel es" using assms by (fastforce simp: impact_rel_def edges_into_def)
    then show ?case by blast
  next
    case (step y z)
    then have "z \<in> impacted_by (impact_rel tbl) S" by (auto simp: impacted_by_def)
    with step(1) have "(y, z) \<in> impact_rel es" using assms by (fastforce simp: impact_rel_def edges_into_def)
    with step show ?case by (meson trancl_into_trancl2)
  qed
  then show "impacted_by (impact_rel tbl) S \<subseteq> impacted_by (impact_rel es) S"
    by (auto simp: impacted_by_def)
qed

section \<open>Properties\<close>

text \<open>
  C10. The impact computation terminates on every graph, cycles included, and is exact:
  \<^verbatim>\<open>compute_impact\<close> returns precisely the objects from which some seed can be reached along
  one or more impact edges from dependent to source. No edge of another type matters, a seed
  is in the result only if it lies on such a path, and the order in which edges and seeds are
  given does not matter.
\<close>

theorem compute_impact_exact:
  "set (compute_impact seeds edges) =
     {s. \<exists>t \<in> set seeds. (s, t) \<in> {(te_source_id e, te_target_id e) |e.
            e \<in> set edges \<and> te_edge_type e \<in> set IMPACT_EDGE_TYPES}\<^sup>+}"
  unfolding set_compute_impact impacted_by_def impact_rel_def impact_edge_def ..

text \<open>
  The bounded fetch loses nothing: \<^verbatim>\<open>_gather_impact_edges\<close> terminates, reads only impact
  edges into objects that are seeds or impacted, and computing the impact (or the obligation
  binding) over the fetched edges gives the same set as over the whole edge table.
\<close>

lemma gather_then_compute_is_complete:
  "(\<exists>es. gather_impact_edges seeds w = (Inr es, w) \<and>
     set es = {e \<in> set (edges_tbl (w_db w)). impact_edge e \<and>
        te_target_id e \<in> set seeds \<union> set (compute_impact seeds (edges_tbl (w_db w)))} \<and>
     set (compute_obligation_binding seeds es) = set (compute_impact seeds (edges_tbl (w_db w))))"
proof -
  let ?tbl = "edges_tbl (w_db w)"
  let ?es = "gather_loop ?tbl [] [] seeds"
  have "set (compute_impact seeds ?es) = set (compute_impact seeds ?tbl)"
    unfolding set_compute_impact by (rule impacted_by_edges_into) (rule set_gather_loop)
  moreover have "set ?es = {e \<in> set ?tbl. impact_edge e \<and>
      te_target_id e \<in> set seeds \<union> set (compute_impact seeds ?tbl)}"
    unfolding set_gather_loop set_compute_impact edges_into_def ..
  ultimately show ?thesis
    by (auto simp: gather_impact_edges_def asks_run compute_obligation_binding_def)
qed

end
