(* ===== verification/Service_Base.thy ===== *)
theory Service_Base
  imports Unit_Of_Work Lifecycles
begin

text \<open>
  The steps the control-plane services share, in the words each of them repeats: fetching the
  latest revision or raising the service's own error, the last event of an object as the
  causation of the next, the construction of an event, and the bookkeeping fields of a new
  revision (\<^verbatim>\<open>revision\<close>, \<^verbatim>\<open>created_at\<close>, \<^verbatim>\<open>created_by\<close>, \<^verbatim>\<open>content_hash\<close>). Sources:
  \<^verbatim>\<open>services/control_plane/mrr/services/claim/service.py\<close> and
  \<^verbatim>\<open>services/control_plane/mrr/services/obligation/service.py\<close>. The collection \<open>readonly\<close>
  proves that a step changes no table.
\<close>

named_theorems readonly "programs that change no table"

section \<open>The shared steps\<close>

text \<open>The keyword arguments every service method takes.\<close>

record call_ctx =
  cx_actor :: urn
  cx_policy_version :: string
  cx_correlation_id :: urn

definition get_latest_or :: "exn \<Rightarrow> string \<Rightarrow> (world, stored_object) prog" where
  "get_latest_or err i =
     catchp (get_latest i) (\<lambda>x. case x of ObjectNotFoundError _ _ \<Rightarrow> raise err | _ \<Rightarrow> raise x)"

definition last_event_id_for :: "string \<Rightarrow> (world, string option) prog" where
  "last_event_id_for i =
     bindp read_all (\<lambda>as.
       ret (last_opt (map (\<lambda>a. de_id (ae_event a)) (filter (\<lambda>a. de_object_id (ae_event a) = i) as))))"

text \<open>
  \<^verbatim>\<open>DomainEvent(id=new_urn("domain-event"), ...)\<close>: the arguments are evaluated in the order
  id, time, causation; then the constructor checks the fields.
\<close>

definition make_event ::
  "env \<Rightarrow> call_ctx \<Rightarrow> string \<Rightarrow> (world, instant) prog \<Rightarrow> (world, string option) prog \<Rightarrow>
   string \<Rightarrow> int \<Rightarrow> dict \<Rightarrow> (world, domain_event) prog" where
  "make_event E ctx event_type occurred causation object_id revision payload =
     bindp (new_urn E ''domain-event'') (\<lambda>i.
     bindp occurred (\<lambda>t.
     bindp causation (\<lambda>c.
     lift (new_domain_event
       \<lparr>de_id = i, de_event_type = event_type, de_occurred_at = t, de_actor = cx_actor ctx,
        de_policy_version = cx_policy_version ctx, de_causation_id = c,
        de_correlation_id = cx_correlation_id ctx, de_object_id = object_id,
        de_object_revision = revision, de_payload = payload\<rparr>))))"

text \<open>The bookkeeping fields of the next revision, with the hash of the finished body.\<close>

definition finish_body :: "env \<Rightarrow> int \<Rightarrow> instant \<Rightarrow> string \<Rightarrow> dict \<Rightarrow> (string \<times> dict) outcome" where
  "finish_body E revision t actor body =
     (let b = dset ''created_by'' (JStr actor)
                (dset ''created_at'' (JStr (isoformat t)) (dset ''revision'' (JInt revision) body))
      in case compute_content_hash E b of
           Inl e \<Rightarrow> Inl e
         | Inr h \<Rightarrow> Inr (h, dset ''content_hash'' (JStr h) b))"

definition next_object ::
  "stored_object \<Rightarrow> int \<Rightarrow> instant \<Rightarrow> string \<Rightarrow> string \<Rightarrow> dict \<Rightarrow> stored_object" where
  "next_object latest revision t actor h body =
     latest\<lparr>so_revision := revision, so_created_at := t, so_created_by := actor,
            so_content_hash := h, so_body := body\<rparr>"

text \<open>The status a stored body shows.\<close>

definition status_of :: "stored_object \<Rightarrow> string option" where
  "status_of r = (case map_of (so_body r) ''status'' of Some (JStr s) \<Rightarrow> Some s | _ \<Rightarrow> None)"

lemma status_of_Some: "status_of r = Some s \<longleftrightarrow> map_of (so_body r) ''status'' = Some (JStr s)"
  by (auto simp: status_of_def split: option.splits json.splits)

lemma dget_str_status: "dget_str (so_body r) ''status'' = Inr s \<longleftrightarrow> status_of r = Some s"
  by (simp add: status_of_Some)

lemma next_object_fields [simp]:
  "so_id (next_object l n t a h b) = so_id l" "so_revision (next_object l n t a h b) = n"
  "so_body (next_object l n t a h b) = b" "so_kind (next_object l n t a h b) = so_kind l"
  "so_content_hash (next_object l n t a h b) = h" "so_created_by (next_object l n t a h b) = a"
  by (simp_all add: next_object_def)

lemma finish_body_Inr:
  assumes "finish_body E n t actor body = Inr (h, b)"
  shows "map_of b ''revision'' = Some (JInt n)" and "map_of b ''content_hash'' = Some (JStr h)"
    and "map_of b ''created_by'' = Some (JStr actor)"
    and "map_of b ''created_at'' = Some (JStr (isoformat t))"
    and "k \<notin> {''revision'', ''created_at'', ''created_by'', ''content_hash''} \<Longrightarrow> map_of b k = map_of body k"
    and "compute_content_hash E b = Inr h"
  using assms by (auto simp: finish_body_def Let_def compute_content_hash_self split: sum.splits)

section \<open>Steps that change no table\<close>

lemmas keeps_same_pure = keeps_pure [OF reflp_same_db]

lemmas readonly_pure [readonly] = keeps_same_pure

lemma readonly_bindp [readonly]:
  "keeps same_db m \<Longrightarrow> (\<And>x. keeps same_db (f x)) \<Longrightarrow> keeps same_db (bindp m f)"
  by (rule keeps_bindp [OF transp_same_db])

lemma readonly_catchp [readonly]:
  "keeps same_db m \<Longrightarrow> (\<And>e. keeps same_db (h e)) \<Longrightarrow> keeps same_db (catchp m h)"
  by (rule keeps_catchp [OF transp_same_db])

lemma readonly_mapp [readonly]:
  "(\<And>x. keeps same_db (f x)) \<Longrightarrow> keeps same_db (mapp f xs)"
  by (rule keeps_mapp [OF transp_same_db reflp_same_db])

lemma readonly_if [readonly]:
  "(b \<Longrightarrow> keeps same_db m) \<Longrightarrow> (\<not> b \<Longrightarrow> keeps same_db n) \<Longrightarrow> keeps same_db (if b then m else n)"
  by simp

lemma readonly_option [readonly]:
  "keeps same_db m \<Longrightarrow> (\<And>x. keeps same_db (f x)) \<Longrightarrow>
     keeps same_db (case r of None \<Rightarrow> m | Some x \<Rightarrow> f x)"
  by (cases r) auto

lemma readonly_list [readonly]:
  "keeps same_db m \<Longrightarrow> (\<And>x xs. keeps same_db (f x xs)) \<Longrightarrow>
     keeps same_db (case r of [] \<Rightarrow> m | x # xs \<Rightarrow> f x xs)"
  by (cases r) auto

lemma readonly_tick [readonly]: "keeps same_db tick"
  by (rule keepsI) (simp add: tick_run)

lemma readonly_now [readonly]: "keeps same_db (now E)"
  by (rule keepsI) (simp add: now_run)

lemma readonly_new_urn [readonly]: "keeps same_db (new_urn E entity)"
  unfolding new_urn_def by (intro readonly)

lemma readonly_reads [readonly]:
  "keeps same_db (get_latest i)" "keeps same_db (get_revision i n)" "keeps same_db (list_revisions i)"
  "keeps same_db (edges_from i t)" "keeps same_db (edges_to i t)" "keeps same_db read_all"
  unfolding get_latest_def get_revision_def list_revisions_def edges_from_def edges_to_def edges_by_def
    read_all_def
  by (intro readonly)+

lemma readonly_get_latest_or [readonly]: "keeps same_db (get_latest_or err i)"
proof -
  have "keeps same_db (\<lambda>w :: world. (case x of ObjectNotFoundError a b \<Rightarrow> raise err | _ \<Rightarrow> raise x) w)"
    for x by (cases x) (simp_all add: keeps_same_pure)
  then show ?thesis unfolding get_latest_or_def by (intro readonly)
qed

lemma readonly_last_event [readonly]: "keeps same_db (last_event_id_for i)"
  unfolding last_event_id_for_def by (intro readonly)

lemma readonly_make_event [readonly]:
  "keeps same_db occurred \<Longrightarrow> keeps same_db causation \<Longrightarrow>
     keeps same_db (make_event E ctx ty occurred causation i n p)"
  unfolding make_event_def by (intro readonly)

section \<open>All or nothing\<close>

text \<open>A program that raises has changed no table.\<close>

definition all_or_nothing :: "(world, 'a) prog \<Rightarrow> bool" where
  "all_or_nothing m \<longleftrightarrow> (\<forall>w x w'. m w = (Inl x, w') \<longrightarrow> same_db w w')"

lemma aon_keeps: "keeps same_db m \<Longrightarrow> all_or_nothing m"
  unfolding all_or_nothing_def by (blast dest: keepsD)

lemma aon_bindp:
  assumes "keeps same_db m" and "\<And>x. all_or_nothing (f x)"
  shows "all_or_nothing (bindp m f)"
  unfolding all_or_nothing_def
proof (intro allI impI)
  fix w x w' assume run: "bindp m f w = (Inl x, w')"
  obtain r w1 where m: "m w = (r, w1)" by fastforce
  with assms(1) have 1: "same_db w w1" by (blast dest: keepsD)
  show "same_db w w'"
  proof (cases r)
    case (Inl e)
    with m run 1 show ?thesis by (simp add: bindp_def)
  next
    case (Inr y)
    with m run have "f y w1 = (Inl x, w')" by (simp add: bindp_def)
    with assms(2) have "same_db w1 w'" unfolding all_or_nothing_def by blast
    with 1 show ?thesis by (rule transpD [OF transp_same_db])
  qed
qed

lemma aon_ret: "all_or_nothing m \<Longrightarrow> all_or_nothing (bindp m (\<lambda>x. ret (g x)))"
  by (auto simp: all_or_nothing_def bindp_def ret_run split: prod.splits sum.splits)

lemma aon_if: "(b \<Longrightarrow> all_or_nothing m) \<Longrightarrow> (\<not> b \<Longrightarrow> all_or_nothing n) \<Longrightarrow> all_or_nothing (if b then m else n)"
  by simp

lemma aon_units:
  "all_or_nothing (bind_unit_of_work E r expected e)"
  "all_or_nothing (bind_edge_unit_of_work E edge e)"
  "all_or_nothing (bind_revision_with_edges_unit_of_work E r expected es e)"
  unfolding all_or_nothing_def
  by (intro allI impI, erule unit_of_work_Inl edge_unit_of_work_Inl revision_with_edges_Inl)+

lemmas aon_intros = aon_if aon_ret aon_units aon_bindp aon_keeps

section \<open>Reading a successful run\<close>

lemma readonly_step:
  assumes "bindp m f w = (Inr y, w')" and "keeps same_db m"
  obtains x w1 where "m w = (Inr x, w1)" and "same_db w w1" and "f x w1 = (Inr y, w')"
  using assms by (blast dest: keepsD)

lemma get_latest_or_Inr:
  assumes "objects_ok (w_db w)" and "get_latest_or err i w = (Inr r, w')"
  shows "w' = w \<and> history_of (w_db w) i \<noteq> [] \<and> r = last (history_of (w_db w) i) \<and> so_id r = i \<and>
    so_revision r = int (length (history_of (w_db w) i)) \<and> r \<in> set (objects_tbl (w_db w)) \<and>
    current_revision (w_db w) i = Some (so_revision r)"
proof -
  obtain q w1 where g: "get_latest i w = (q, w1)" by fastforce
  have "q = Inr r \<and> w1 = w'"
  proof (cases q)
    case (Inl x)
    with g assms(2) show ?thesis
      by (cases x) (simp_all add: get_latest_or_def catchp_def raise_run)
  next
    case (Inr s)
    with g assms(2) show ?thesis by (simp add: get_latest_or_def catchp_def)
  qed
  with g have "get_latest i w = (Inr r, w')" by simp
  then show ?thesis by (rule get_latest_Inr [OF assms(1)])
qed

lemma get_latest_or_missing:
  "objects_ok (w_db w) \<Longrightarrow> history_of (w_db w) i = [] \<Longrightarrow> get_latest_or err i w = (Inl err, w)"
  by (simp add: get_latest_or_def catchp_def get_latest_run raise_run)

lemma last_event_id_for_run:
  "log_ok E w \<Longrightarrow> last_event_id_for i w =
     (Inr (last_opt (map (\<lambda>a. de_id (ae_event a))
        (filter (\<lambda>a. de_object_id (ae_event a) = i) (domain_events_tbl (w_db w))))), w)"
  by (simp add: last_event_id_for_def bindp_def read_all_run ret_run)

lemma make_event_Inr:
  assumes "make_event E ctx ty occurred causation i n p w = (Inr e, w')"
    and "keeps same_db occurred" and "keeps same_db causation"
  shows "same_db w w' \<and> event_ok e \<and> de_event_type e = ty \<and> de_object_id e = i \<and>
    de_object_revision e = n \<and> de_payload e = p \<and> de_actor e = cx_actor ctx \<and>
    de_policy_version e = cx_policy_version ctx \<and> de_correlation_id e = cx_correlation_id ctx"
proof -
  have "same_db w w'"
    using keepsD [OF readonly_make_event [OF assms(2,3)] assms(1)] .
  with assms(1) show ?thesis by (auto simp: make_event_def)
qed

text \<open>A loop of calls that write nothing, and what holds of each of them.\<close>

lemma mapp_readonly_Inr:
  assumes "mapp f xs w = (Inr ys, w')" and "\<And>x. x \<in> set xs \<Longrightarrow> keeps same_db (f x)"
    and "\<And>x v y v'. x \<in> set xs \<Longrightarrow> same_db w v \<Longrightarrow> f x v = (Inr y, v') \<Longrightarrow> P x y"
  shows "same_db w w' \<and> list_all2 P xs ys"
  using assms
proof (induction xs arbitrary: ys w)
  case (Cons x xs)
  from Cons.prems(1) obtain y zs v where y: "f x w = (Inr y, v)" and z: "mapp f xs v = (Inr zs, w')" "ys = y # zs"
    by (auto elim!: bindp_InrE ret_InrE)
  have k: "same_db w v" by (rule keepsD [OF Cons.prems(2) y]) simp
  have "same_db v w' \<and> list_all2 P xs zs"
  proof (rule Cons.IH [OF z(1)])
    show "keeps same_db (f x)" if "x \<in> set xs" for x using Cons.prems(2) that by simp
    show "P x y" if "x \<in> set xs" "same_db v u" "f x u = (Inr y, u')" for x u y u'
      using Cons.prems(3) [of x u y u'] that k by (auto intro: transpD [OF transp_same_db])
  qed
  with k Cons.prems(3) [of x w y v] y z(2) show ?case by (auto intro: transpD [OF transp_same_db])
qed (simp add: ret_run)

section \<open>Running forward\<close>

text \<open>
  What a call needs from outside to succeed: well-formed identifiers from the caller and the
  ULID generator, an id that is not taken, and a canonicalizer that accepts its input.
\<close>

definition ctx_ok :: "call_ctx \<Rightarrow> bool" where
  "ctx_ok ctx \<longleftrightarrow>
     is_valid_urn (cx_actor ctx) \<and> non_empty (cx_policy_version ctx) \<and> is_valid_urn (cx_correlation_id ctx)"

definition env_total :: "env \<Rightarrow> bool" where
  "env_total E \<longleftrightarrow> (\<forall>j. env_canon E j \<noteq> None) \<and> (\<forall>n. ulid_ok (env_ulid E n))"

text \<open>The id of an event made at the given reading of the generator.\<close>

definition event_id_at :: "env \<Rightarrow> nat \<Rightarrow> string" where
  "event_id_at E n = urn_text ''domain-event'' (env_ulid E n)"

lemma env_total_hash: "env_total E \<Longrightarrow> \<exists>h. compute_content_hash E d = Inr h"
  unfolding env_total_def compute_content_hash_Inr by blast

lemma env_total_event_hash: "env_total E \<Longrightarrow> \<exists>h. compute_event_hash E e p = Inr h"
  unfolding compute_event_hash_def by (rule env_total_hash)

lemma env_total_finish:
  assumes "env_total E"
  shows "\<exists>h b. finish_body E n t actor body = Inr (h, b)"
proof -
  obtain h where "compute_content_hash E (dset ''created_by'' (JStr actor)
      (dset ''created_at'' (JStr (isoformat t)) (dset ''revision'' (JInt n) body))) = Inr h"
    using env_total_hash [OF assms] by blast
  then show ?thesis by (simp add: finish_body_def Let_def)
qed

lemma last_event_valid:
  assumes "log_ok E w" and "last_event_id_for i w = (Inr (Some c), w')"
  shows "is_valid_urn c"
proof -
  have "last_opt (map (\<lambda>a. de_id (ae_event a))
      (filter (\<lambda>a. de_object_id (ae_event a) = i) (domain_events_tbl (w_db w)))) = Some c"
    using assms(2) unfolding last_event_id_for_run [OF assms(1)] prod.inject sum.inject by (rule conjunct1)
  then have "c \<in> set (map (\<lambda>a. de_id (ae_event a))
      (filter (\<lambda>a. de_object_id (ae_event a) = i) (domain_events_tbl (w_db w))))"
    by (rule last_opt_Some_mem)
  then obtain a where "a \<in> set (domain_events_tbl (w_db w))" "c = de_id (ae_event a)" by auto
  with assms(1) show ?thesis by (auto simp: log_ok_def Let_def event_ok_def)
qed

lemma make_event_run:
  assumes ok: "log_ok E w" and ctx: "ctx_ok ctx" and E: "env_total E" and i: "is_valid_urn i"
    and ty: "non_empty ty" and n: "1 \<le> n"
  shows "\<exists>e. make_event E ctx ty (ret t) (last_event_id_for j) i n p w =
      (Inr e, w\<lparr>w_ticks := Suc (w_ticks w)\<rparr>) \<and> event_ok e \<and>
      de_id e = event_id_at E (w_ticks w) \<and> de_event_type e = ty"
proof -
  let ?w1 = "w\<lparr>w_ticks := Suc (w_ticks w)\<rparr>"
  have ok1: "log_ok E ?w1" by (rule log_ok_same_db [OF ok]) simp
  obtain c where c: "last_event_id_for j ?w1 = (Inr c, ?w1)"
    using last_event_id_for_run [OF ok1] by blast
  have u: "ulid_ok (env_ulid E (w_ticks w))" using E by (simp add: env_total_def)
  define e where "e = \<lparr>de_id = urn_text ''domain-event'' (env_ulid E (w_ticks w)), de_event_type = ty,
    de_occurred_at = t, de_actor = cx_actor ctx, de_policy_version = cx_policy_version ctx,
    de_causation_id = c, de_correlation_id = cx_correlation_id ctx, de_object_id = i,
    de_object_revision = n, de_payload = p\<rparr>"
  have "event_ok e"
    using ctx i ty n u last_event_valid [OF ok1, of j] c
    by (auto simp: event_ok_def e_def ctx_ok_def split: option.splits)
  moreover have "make_event E ctx ty (ret t) (last_event_id_for j) i n p w = (Inr e, ?w1)"
    using c calculation
    by (simp add: make_event_def bindp_def new_urn_run ret_run lift_run new_domain_event_def e_def)
  ultimately show ?thesis by (auto simp: e_def event_id_at_def)
qed

lemma unit_of_work_run:
  assumes ok: "world_ok E w" and E: "env_total E" and fresh: "de_id e \<notin> set (event_ids (w_db w))"
    and r: "so_revision r = next_revision expected" "current_revision (w_db w) (so_id r) = expected"
  shows "\<exists>a w'. bind_unit_of_work E r expected e w = (Inr (r, a), w') \<and>
    w_ticks w' = Suc (w_ticks w) \<and> event_ids (w_db w') = event_ids (w_db w) @ [de_id e]"
proof -
  let ?w1 = "w\<lparr>w_db := (w_db w)\<lparr>objects_tbl := objects_tbl (w_db w) @ [r]\<rparr>\<rparr>"
  have ins: "insert_revision_with_connection (ret ()) r expected w = (Inr r, ?w1)"
    using r by (simp add: insert_revision_quiet [OF world_ok_parts(2) [OF ok]])
  have ok1: "log_ok E ?w1" by (rule log_ok_cong [OF world_ok_parts(1) [OF ok]]) simp_all
  obtain h where h: "compute_event_hash E e (prev_hash_of ?w1) = Inr h"
    using env_total_event_hash [OF E] by blast
  have "de_id e \<notin> set (event_ids (w_db ?w1))" using fresh by (simp add: event_ids_def)
  with h have "append_event E e ?w1 = (Inr (appended_row E e ?w1 h), appended_world E e ?w1 h)"
    by (simp add: append_event_run [OF ok1])
  with ins show ?thesis
    by (simp add: bind_unit_of_work_def record_object_revision_with_event_def tx_def bindp_def ret_run
        appended_world_def appended_row_def event_ids_def)
qed

lemma edge_unit_of_work_run:
  assumes ok: "world_ok E w" and E: "env_total E" and fresh: "de_id e \<notin> set (event_ids (w_db w))"
    and x: "te_edge_type x \<in> EDGE_VOCABULARY" "te_id x \<notin> te_id ` set (edges_tbl (w_db w))"
  shows "\<exists>a w'. bind_edge_unit_of_work E x e w = (Inr (x, a), w') \<and>
    w_ticks w' = Suc (w_ticks w) \<and> event_ids (w_db w') = event_ids (w_db w) @ [de_id e]"
proof -
  let ?w1 = "w\<lparr>w_db := (w_db w)\<lparr>edges_tbl := edges_tbl (w_db w) @ [x]\<rparr>\<rparr>"
  have "\<forall>s \<in> set (edges_tbl (w_db w)). te_id s \<noteq> te_id x" using x(2) by (metis imageI)
  with x have ins: "insert_edge_row x w = (Inr (), ?w1)" by (simp add: insert_edge_row_run)
  have ok1: "log_ok E ?w1" by (rule log_ok_cong [OF world_ok_parts(1) [OF ok]]) simp_all
  obtain h where h: "compute_event_hash E e (prev_hash_of ?w1) = Inr h"
    using env_total_event_hash [OF E] by blast
  have "de_id e \<notin> set (event_ids (w_db ?w1))" using fresh by (simp add: event_ids_def)
  with h have "append_event E e ?w1 = (Inr (appended_row E e ?w1 h), appended_world E e ?w1 h)"
    by (simp add: append_event_run [OF ok1])
  with ins x show ?thesis
    by (simp add: bind_edge_unit_of_work_def tx_def bindp_def ret_run guardp_run
        appended_world_def appended_row_def event_ids_def)
qed

lemma get_latest_or_run:
  assumes "objects_ok (w_db w)" and "history_of (w_db w) i \<noteq> []"
  shows "get_latest_or err i w = (Inr (last (history_of (w_db w) i)), w)"
  using assms by (simp add: get_latest_or_def catchp_def get_latest_run last_opt_def)

section \<open>Sample values\<close>

definition sample_ctx :: call_ctx where
  "sample_ctx = \<lparr>cx_actor = sample_urn ''human'', cx_policy_version = ''v1'',
     cx_correlation_id = sample_urn ''correlation''\<rparr>"

lemma ctx_ok_sample [simp]: "ctx_ok sample_ctx"
  by (simp add: ctx_ok_def sample_ctx_def non_empty_def is_space_def)

lemma env_total_sample [simp]: "env_total sample_env"
  by (simp add: env_total_def sample_env_def)

lemma event_id_at_sample: "event_id_at sample_env m = event_id_at sample_env n \<longleftrightarrow> m mod 64 = n mod 64"
  by (simp add: event_id_at_def urn_text_def sample_env_def sample_ulid_eq)

end
