(* ===== verification/Claim_Service.thy ===== *)
theory Claim_Service
  imports Service_Base Claim_Ceiling
begin

text \<open>
  The Claim service, \<^verbatim>\<open>services/control_plane/mrr/services/claim/service.py\<close>, with the one
  validator of the Claim contract the repository adds to its field declarations
  (\<^verbatim>\<open>packages/contracts/mrr/contracts/claim.py\<close>). Every method is a program on the world; the
  invariant \<open>claims_ok\<close> collects what the service promises about every stored Claim and about
  the two gated edge types, and it holds in every world the service's calls and the writes of
  other services can reach.
\<close>

section \<open>The Claim contract\<close>

text \<open>
  A validated Claim: the fields the service reads, and \<open>cl_dump\<close>, its
  \<^verbatim>\<open>json.loads(claim.model_dump_json(exclude_none=True))\<close>.
\<close>

record claim =
  cl_id :: urn
  cl_api_version :: string
  cl_kind :: string
  cl_practice_id :: urn
  cl_revision :: int
  cl_created_at :: instant
  cl_created_by :: urn
  cl_content_hash :: string
  cl_supersedes :: "urn option"
  cl_labels :: "dict option"
  cl_claim_type :: string
  cl_status :: string
  cl_dump :: dict

text \<open>The dump of a model instance shows its fields, and the kind is a literal.\<close>

definition claim_instance :: "claim \<Rightarrow> bool" where
  "claim_instance c \<longleftrightarrow>
     cl_kind c = ''Claim'' \<and> map_of (cl_dump c) ''status'' = Some (JStr (cl_status c)) \<and>
     map_of (cl_dump c) ''claim_type'' = Some (JStr (cl_claim_type c))"

definition non_empty_list :: "json option \<Rightarrow> bool" where
  "non_empty_list v \<longleftrightarrow> (case v of Some (JArr (_ # _)) \<Rightarrow> True | _ \<Rightarrow> False)"

text \<open>\<^verbatim>\<open>Claim.model_validate\<close>: the derived field checks, then the repository's validator.\<close>

definition claim_model_validate :: "env \<Rightarrow> dict \<Rightarrow> unit outcome" where
  "claim_model_validate E body =
     (if \<not> env_schema E ''Claim'' body then Inl PydanticValidationError
      else if map_of body ''status'' = Some (JStr ''supported'') \<and>
              (\<not> non_empty_list (map_of body ''evidence_relations'') \<or>
               \<not> non_empty_list (map_of body ''verification_ids''))
      then Inl PydanticValidationError
      else Inr ())"

section \<open>The service\<close>

definition ceiling_asserting_statuses :: "string set" where
  "ceiling_asserting_statuses = {''supported'', ''contested'', ''contradicted'', ''unsupported''}"

definition GATED_EDGE_TYPES :: "string set" where
  "GATED_EDGE_TYPES = {''ruled_by'', ''decided_by''}"

definition reject_gated_edge_type :: "string \<Rightarrow> unit outcome" where
  "reject_gated_edge_type t = (if t \<in> GATED_EDGE_TYPES then Inl (GatedEdgeTypeError t) else Inr ())"

definition claim_to_stored_object :: "claim \<Rightarrow> stored_object" where
  "claim_to_stored_object c =
     \<lparr>so_id = cl_id c, so_api_version = cl_api_version c, so_kind = cl_kind c,
      so_practice_id = cl_practice_id c, so_revision = cl_revision c,
      so_created_at = cl_created_at c, so_created_by = cl_created_by c,
      so_content_hash = cl_content_hash c, so_supersedes = cl_supersedes c,
      so_labels = cl_labels c, so_body = cl_dump c\<rparr>"

definition create_claim :: "env \<Rightarrow> call_ctx \<Rightarrow> claim \<Rightarrow> (world, stored_object) prog" where
  "create_claim E ctx c =
     bindp (guardp (cl_status c = sm_initial CLAIM_LIFECYCLE)
       (InvalidTransitionError (sm_name CLAIM_LIFECYCLE) ''<new>'' (cl_status c))) (\<lambda>_.
     bindp (guardp (cl_revision c = 1) ValueError) (\<lambda>_.
     bindp (make_event E ctx ''claim.created'' (now E) (ret None) (cl_id c) 1
       [(''claim_type'', JStr (cl_claim_type c)), (''status'', JStr (cl_status c))]) (\<lambda>e.
     bindp (bind_unit_of_work E (claim_to_stored_object c) None e) (\<lambda>(stored, _).
     ret stored))))"

text \<open>\<^verbatim>\<open>_resolve_ruling_ceiling_chain\<close>: ruling, its protocol, the protocol's profile.\<close>

definition resolve_ruling_ceiling_chain :: "string \<Rightarrow> (world, string \<times> string) prog" where
  "resolve_ruling_ceiling_chain method_ruling_id =
     bindp (get_latest method_ruling_id) (\<lambda>ruling.
     bindp (lift (dget_str (so_body ruling) ''protocol_id'')) (\<lambda>protocol_id.
     bindp (get_latest protocol_id) (\<lambda>protocol.
     bindp (lift (dget_str (so_body protocol) ''profile_id'')) (\<lambda>profile_id.
     bindp (get_latest profile_id) (\<lambda>profile.
     bindp (lift (dget_str (so_body ruling) ''ruled_ceiling'')) (\<lambda>ruled_ceiling.
     bindp (lift (dget_str (so_body profile) ''max_claim_ceiling'')) (\<lambda>profile_max_ceiling.
     ret (ruled_ceiling, profile_max_ceiling))))))))"

definition require_within_ceiling :: "urn \<Rightarrow> string \<Rightarrow> string \<times> string \<Rightarrow> (world, unit) prog" where
  "require_within_ceiling claim_id claim_type ceilings =
     bindp (lift (ceiling_violation_reason claim_type (fst ceilings) (snd ceilings))) (\<lambda>reason.
       case reason of
         None \<Rightarrow> ret ()
       | Some text \<Rightarrow> raise (ClaimCeilingExceededError claim_id text))"

text \<open>The ceiling loop of \<^verbatim>\<open>_transition\<close>, over the claim's own \<^verbatim>\<open>ruled_by\<close> edges.\<close>

definition check_rulings :: "urn \<Rightarrow> stored_object \<Rightarrow> (world, unit) prog" where
  "check_rulings claim_id latest =
     bindp (lift (dget_str (so_body latest) ''claim_type'')) (\<lambda>claim_type.
     bindp (edges_from claim_id (Some ''ruled_by'')) (\<lambda>edges.
     bindp (mapp (\<lambda>edge.
       bindp (resolve_ruling_ceiling_chain (te_target_id edge)) (\<lambda>ceilings.
         require_within_ceiling claim_id claim_type ceilings)) edges) (\<lambda>_.
     ret ())))"

text \<open>The support gate of \<^verbatim>\<open>_transition\<close>.\<close>

definition support_gate ::
  "urn \<Rightarrow> urn list option \<Rightarrow> urn list option \<Rightarrow> dict \<Rightarrow> (world, dict) prog" where
  "support_gate claim_id evidence_relations verification_ids body =
     (case (evidence_relations, verification_ids) of
        (Some evidence, Some verifications) \<Rightarrow>
          bindp (edges_from claim_id (Some ''supports'')) (\<lambda>edges.
            let existing = map te_target_id edges;
                missing = filter (\<lambda>u. u \<notin> set existing) evidence
            in bindp (guardp (missing = []) (MissingSupportEdgeError claim_id missing)) (\<lambda>_.
               ret (dset ''verification_ids'' (JArr (map JStr verifications))
                     (dset ''evidence_relations'' (JArr (map JStr evidence)) body))))
      | _ \<Rightarrow> raise ValueError)"

definition transition_claim ::
  "env \<Rightarrow> call_ctx \<Rightarrow> urn \<Rightarrow> string \<Rightarrow> string \<Rightarrow> urn list option \<Rightarrow> urn list option \<Rightarrow> dict \<Rightarrow>
   (world, stored_object) prog" where
  "transition_claim E ctx claim_id to_status event_type evidence_relations verification_ids extra_payload =
     bindp (get_latest_or (ClaimNotFoundError claim_id) claim_id) (\<lambda>latest.
     bindp (lift (dget_str (so_body latest) ''status'')) (\<lambda>from_status.
     bindp (lift (assert_transition CLAIM_LIFECYCLE from_status to_status)) (\<lambda>_.
     bindp (if to_status \<in> ceiling_asserting_statuses then check_rulings claim_id latest else ret ()) (\<lambda>_.
     bindp (let body = dset ''status'' (JStr to_status) (so_body latest)
            in if to_status = ''supported''
               then support_gate claim_id evidence_relations verification_ids body
               else ret body) (\<lambda>body.
     bindp (now E) (\<lambda>t.
     bindp (lift (finish_body E (so_revision latest + 1) t (cx_actor ctx) body)) (\<lambda>(h, new_body).
     bindp (if to_status = ''supported'' then lift (claim_model_validate E new_body) else ret ()) (\<lambda>_.
     bindp (make_event E ctx event_type (ret t) (last_event_id_for claim_id) claim_id (so_revision latest + 1)
       (dupdate [(''from_status'', JStr from_status), (''to_status'', JStr to_status)] extra_payload)) (\<lambda>e.
     bindp (bind_unit_of_work E (next_object latest (so_revision latest + 1) t (cx_actor ctx) h new_body)
       (Some (so_revision latest)) e) (\<lambda>(stored, _).
     ret stored))))))))))"

definition submit_for_review :: "env \<Rightarrow> call_ctx \<Rightarrow> urn \<Rightarrow> (world, stored_object) prog" where
  "submit_for_review E ctx i =
     transition_claim E ctx i ''under_review'' ''claim.submitted_for_review'' None None []"

definition to_supported ::
  "env \<Rightarrow> call_ctx \<Rightarrow> urn \<Rightarrow> urn list \<Rightarrow> urn list \<Rightarrow> (world, stored_object) prog" where
  "to_supported E ctx i evidence_relations verification_ids =
     transition_claim E ctx i ''supported'' ''claim.supported'' (Some evidence_relations)
       (Some verification_ids) []"

definition to_contested :: "env \<Rightarrow> call_ctx \<Rightarrow> urn \<Rightarrow> (world, stored_object) prog" where
  "to_contested E ctx i = transition_claim E ctx i ''contested'' ''claim.contested'' None None []"

definition to_contradicted :: "env \<Rightarrow> call_ctx \<Rightarrow> urn \<Rightarrow> (world, stored_object) prog" where
  "to_contradicted E ctx i = transition_claim E ctx i ''contradicted'' ''claim.contradicted'' None None []"

definition to_unresolved :: "env \<Rightarrow> call_ctx \<Rightarrow> urn \<Rightarrow> (world, stored_object) prog" where
  "to_unresolved E ctx i = transition_claim E ctx i ''unresolved'' ''claim.unresolved'' None None []"

definition to_unsupported :: "env \<Rightarrow> call_ctx \<Rightarrow> urn \<Rightarrow> (world, stored_object) prog" where
  "to_unsupported E ctx i = transition_claim E ctx i ''unsupported'' ''claim.unsupported'' None None []"

definition require_review :: "env \<Rightarrow> call_ctx \<Rightarrow> urn \<Rightarrow> (world, stored_object) prog" where
  "require_review E ctx i =
     transition_claim E ctx i ''review_required'' ''claim.review_required'' None None []"

definition withdraw :: "env \<Rightarrow> call_ctx \<Rightarrow> urn \<Rightarrow> (world, stored_object) prog" where
  "withdraw E ctx i = transition_claim E ctx i ''withdrawn'' ''claim.withdrawn'' None None []"

definition supersede :: "env \<Rightarrow> call_ctx \<Rightarrow> urn \<Rightarrow> (world, stored_object) prog" where
  "supersede E ctx i = transition_claim E ctx i ''superseded'' ''claim.superseded'' None None []"

definition write_edge ::
  "env \<Rightarrow> call_ctx \<Rightarrow> urn \<Rightarrow> urn \<Rightarrow> string \<Rightarrow> dict option \<Rightarrow> string \<Rightarrow> (world, typed_edge) prog" where
  "write_edge E ctx source_id target_id edge_type scope event_type =
     bindp (guardp (edge_type \<in> EDGE_VOCABULARY) (UnknownEdgeTypeError edge_type)) (\<lambda>_.
     bindp (get_latest_or (ClaimNotFoundError source_id) source_id) (\<lambda>latest.
     bindp (now E) (\<lambda>t.
     bindp (new_urn E ''edge'') (\<lambda>edge_id.
     bindp (make_event E ctx event_type (ret t) (last_event_id_for source_id) source_id (so_revision latest)
       [(''edge_id'', JStr edge_id), (''edge_type'', JStr edge_type), (''target_id'', JStr target_id)]) (\<lambda>e.
     bindp (bind_edge_unit_of_work E
       \<lparr>te_id = edge_id, te_source_id = source_id, te_target_id = target_id, te_edge_type = edge_type,
        te_created_at = t, te_created_by = cx_actor ctx, te_scope = scope, te_status = ''active'',
        te_practice_id = Some (so_practice_id latest)\<rparr> e) (\<lambda>(stored_edge, _).
     ret stored_edge))))))"

definition add_evidence_edge ::
  "env \<Rightarrow> call_ctx \<Rightarrow> urn \<Rightarrow> urn \<Rightarrow> string \<Rightarrow> dict option \<Rightarrow> (world, typed_edge) prog" where
  "add_evidence_edge E ctx claim_id target_id edge_type scope =
     bindp (lift (reject_gated_edge_type edge_type)) (\<lambda>_.
     write_edge E ctx claim_id target_id edge_type scope ''claim.evidence_edge_added'')"

definition add_counterevidence_edge ::
  "env \<Rightarrow> call_ctx \<Rightarrow> urn \<Rightarrow> urn \<Rightarrow> dict option \<Rightarrow> (world, typed_edge) prog" where
  "add_counterevidence_edge E ctx claim_id target_id scope =
     write_edge E ctx claim_id target_id ''contradicts'' scope ''claim.counterevidence_edge_added''"

definition add_dependency_edge ::
  "env \<Rightarrow> call_ctx \<Rightarrow> urn \<Rightarrow> urn \<Rightarrow> dict option \<Rightarrow> (world, typed_edge) prog" where
  "add_dependency_edge E ctx claim_id target_id scope =
     write_edge E ctx claim_id target_id ''depends_on'' scope ''claim.dependency_edge_added''"

definition link_related_claim ::
  "env \<Rightarrow> call_ctx \<Rightarrow> urn \<Rightarrow> urn \<Rightarrow> string \<Rightarrow> dict option \<Rightarrow> (world, typed_edge) prog" where
  "link_related_claim E ctx claim_id other_claim_id edge_type scope =
     bindp (lift (reject_gated_edge_type edge_type)) (\<lambda>_.
     write_edge E ctx claim_id other_claim_id edge_type scope ''claim.related_claim_linked'')"

definition attach_ruling :: "env \<Rightarrow> call_ctx \<Rightarrow> urn \<Rightarrow> urn \<Rightarrow> (world, typed_edge) prog" where
  "attach_ruling E ctx claim_id method_ruling_id =
     bindp (get_latest_or (ClaimNotFoundError claim_id) claim_id) (\<lambda>claim.
     bindp (resolve_ruling_ceiling_chain method_ruling_id) (\<lambda>ceilings.
     bindp (lift (dget_str (so_body claim) ''claim_type'')) (\<lambda>claim_type.
     bindp (require_within_ceiling claim_id claim_type ceilings) (\<lambda>_.
     write_edge E ctx claim_id method_ruling_id ''ruled_by'' None ''claim.ruling_attached''))))"

definition apply_kill_condition ::
  "env \<Rightarrow> call_ctx \<Rightarrow> urn \<Rightarrow> urn \<Rightarrow> (world, stored_object \<times> typed_edge) prog" where
  "apply_kill_condition E ctx claim_id research_decision_id =
     bindp (get_latest research_decision_id) (\<lambda>decision.
     bindp (lift (assert_licenses_kill research_decision_id (so_kind decision)
       (map_of (so_body decision) ''decision_type''))) (\<lambda>_.
     bindp (transition_claim E ctx claim_id ''withdrawn'' ''claim.kill_condition_triggered'' None None
       [(''code'', JStr ''KILL_CONDITION_TRIGGERED''),
        (''research_decision_id'', JStr research_decision_id)]) (\<lambda>stored.
     bindp (write_edge E ctx claim_id research_decision_id ''decided_by'' None
       ''claim.kill_decision_recorded'') (\<lambda>edge.
     ret (stored, edge)))))"

section \<open>What the calls read and write\<close>

lemma readonly_chain [readonly]: "keeps same_db (resolve_ruling_ceiling_chain i)"
  unfolding resolve_ruling_ceiling_chain_def by (intro readonly)

lemma readonly_within [readonly]: "keeps same_db (require_within_ceiling i t c)"
  unfolding require_within_ceiling_def by (intro readonly)

lemma readonly_check_rulings [readonly]: "keeps same_db (check_rulings i l)"
  unfolding check_rulings_def by (intro readonly)

lemma readonly_support_gate [readonly]: "keeps same_db (support_gate i ev vs b)"
  unfolding support_gate_def Let_def
  by (cases ev; cases vs) (simp_all, (intro readonly)+)

lemma transition_aon: "all_or_nothing (transition_claim E ctx i to ty ev vs extra)"
  unfolding transition_claim_def case_prod_beta Let_def
  by (intro aon_bindp aon_ret aon_units readonly)

lemma write_edge_aon: "all_or_nothing (write_edge E ctx s t ty sc et)"
  unfolding write_edge_def case_prod_beta
  by (intro aon_bindp aon_ret aon_units readonly)

lemma create_claim_aon: "all_or_nothing (create_claim E ctx c)"
  unfolding create_claim_def case_prod_beta
  by (intro aon_bindp aon_ret aon_units readonly)

lemma attach_ruling_aon: "all_or_nothing (attach_ruling E ctx i r)"
  unfolding attach_ruling_def by (intro aon_bindp write_edge_aon readonly)

lemma support_gate_Inr:
  assumes "support_gate i ev vs b w = (Inr b', w')"
  obtains evidence verifications where "ev = Some evidence" and "vs = Some verifications"
    and "b' = dset ''verification_ids'' (JArr (map JStr verifications))
                (dset ''evidence_relations'' (JArr (map JStr evidence)) b)"
    and "\<forall>u \<in> set evidence. \<exists>e \<in> set (edges_tbl (w_db w)).
           te_source_id e = i \<and> te_target_id e = u \<and> te_edge_type e = ''supports''"
proof -
  from assms obtain evidence verifications where e: "ev = Some evidence" "vs = Some verifications"
  proof (cases "ev = None \<or> vs = None")
    case True
    with assms show ?thesis by (cases ev; cases vs) (simp_all add: support_gate_def raise_run)
  next
    case False
    then show ?thesis using that by (cases ev; cases vs) simp_all
  qed
  define edges where "edges = sort_key te_created_at
      (filter (\<lambda>e. te_source_id e = i \<and> te_edge_type e = ''supports'') (edges_tbl (w_db w)))"
  have run: "edges_from i (Some ''supports'') w = (Inr edges, w)"
    by (simp add: edges_from_def edges_by_def asks_run edges_def)
  from assms have "bindp (guardp (filter (\<lambda>u. u \<notin> set (map te_target_id edges)) evidence = [])
        (MissingSupportEdgeError i (filter (\<lambda>u. u \<notin> set (map te_target_id edges)) evidence))) (\<lambda>_.
      ret (dset ''verification_ids'' (JArr (map JStr verifications))
             (dset ''evidence_relations'' (JArr (map JStr evidence)) b))) w = (Inr b', w')"
    unfolding support_gate_def e prod.case option.case Let_def bindp_Inr [where m = "edges_from i (Some ''supports'')" and w = w, OF run] .
  then have "filter (\<lambda>u. u \<notin> set (map te_target_id edges)) evidence = [] \<and>
      b' = dset ''verification_ids'' (JArr (map JStr verifications))
                (dset ''evidence_relations'' (JArr (map JStr evidence)) b)"
    by (elim bindp_InrE guardp_InrE ret_InrE) (rule conjI)
  then have f: "filter (\<lambda>u. u \<notin> set (map te_target_id edges)) evidence = []"
    and b: "b' = dset ''verification_ids'' (JArr (map JStr verifications))
                (dset ''evidence_relations'' (JArr (map JStr evidence)) b)" by blast+
  have "set edges = {e \<in> set (edges_tbl (w_db w)).
        te_source_id e = i \<and> te_edge_type e = ''supports''}"
    by (simp add: edges_def)
  with f have m: "\<forall>u \<in> set evidence. u \<in> te_target_id ` {e \<in> set (edges_tbl (w_db w)).
        te_source_id e = i \<and> te_edge_type e = ''supports''}"
    by (simp add: filter_empty_conv)
  have "\<forall>u \<in> set evidence. \<exists>e \<in> set (edges_tbl (w_db w)).
           te_source_id e = i \<and> te_target_id e = u \<and> te_edge_type e = ''supports''"
  proof
    fix u assume "u \<in> set evidence"
    with m have "u \<in> te_target_id ` {e \<in> set (edges_tbl (w_db w)).
        te_source_id e = i \<and> te_edge_type e = ''supports''}" by (rule bspec)
    then obtain e where "u = te_target_id e"
      and "e \<in> {e \<in> set (edges_tbl (w_db w)). te_source_id e = i \<and> te_edge_type e = ''supports''}"
      by (rule imageE)
    then show "\<exists>e \<in> set (edges_tbl (w_db w)).
           te_source_id e = i \<and> te_target_id e = u \<and> te_edge_type e = ''supports''"
      by (intro bexI [of _ e]) simp_all
  qed
  with e b show ?thesis by (rule that)
qed

lemma claim_model_validate_Inr:
  assumes "claim_model_validate E b = Inr u" and "map_of b ''status'' = Some (JStr ''supported'')"
  shows "env_schema E ''Claim'' b" and "non_empty_list (map_of b ''evidence_relations'')"
    and "non_empty_list (map_of b ''verification_ids'')"
  using assms by (auto simp: claim_model_validate_def split: if_splits)

text \<open>
  A successful transition: one more revision of the latest object, legal in the lifecycle,
  with its event. The last conjunct is the gate of \<^verbatim>\<open>supported\<close>.
\<close>

lemma transition_claim_Inr:
  assumes ok: "world_ok E w"
    and run: "transition_claim E ctx i to ty ev vs extra w = (Inr r, w')"
  shows "\<exists>e latest frm. committed E [r] [] e w w' \<and> announces e [r] \<and> event_ok e \<and>
    de_event_type e = ty \<and>
    latest = last (history_of (w_db w) i) \<and> history_of (w_db w) i \<noteq> [] \<and>
    so_id r = i \<and> so_kind r = so_kind latest \<and> status_of latest = Some frm \<and>
    so_revision r = so_revision latest + 1 \<and>
    map_of (so_body r) ''claim_type'' = map_of (so_body latest) ''claim_type'' \<and>
    can_transition CLAIM_LIFECYCLE frm to \<and> status_of r = Some to \<and>
    compute_content_hash E (so_body r) = Inr (so_content_hash r) \<and>
    (to = ''supported'' \<longrightarrow> (\<exists>evidence verifications.
       ev = Some evidence \<and> vs = Some verifications \<and> evidence \<noteq> [] \<and> verifications \<noteq> [] \<and>
       map_of (so_body r) ''evidence_relations'' = Some (JArr (map JStr evidence)) \<and>
       map_of (so_body r) ''verification_ids'' = Some (JArr (map JStr verifications)) \<and>
       (\<forall>u \<in> set evidence. \<exists>e \<in> set (edges_tbl (w_db w)).
          te_source_id e = i \<and> te_target_id e = u \<and> te_edge_type e = ''supports'')))"
proof -
  from run [unfolded transition_claim_def case_prod_beta]
  obtain latest frm u0 body t hb u1 e sa w1 w2 w3 w4 w5 w6 w7 where
    s1: "get_latest_or (ClaimNotFoundError i) i w = (Inr latest, w1)"
    and s2: "dget_str (so_body latest) ''status'' = Inr frm" "assert_transition CLAIM_LIFECYCLE frm to = Inr ()"
    and s3: "(if to \<in> ceiling_asserting_statuses then check_rulings i latest else ret ()) w1 = (Inr u0, w2)"
    and s4: "(let body = dset ''status'' (JStr to) (so_body latest)
              in if to = ''supported'' then support_gate i ev vs body else ret body) w2 = (Inr body, w3)"
    and s5: "now E w3 = (Inr t, w4)"
    and s6: "finish_body E (so_revision latest + 1) t (cx_actor ctx) body = Inr hb"
    and s7: "(if to = ''supported'' then lift (claim_model_validate E (snd hb)) else ret ()) w4 = (Inr u1, w5)"
    and s8: "make_event E ctx ty (ret t) (last_event_id_for i) i (so_revision latest + 1)
       (dupdate [(''from_status'', JStr frm), (''to_status'', JStr to)] extra) w5 = (Inr e, w6)"
    and s9: "bind_unit_of_work E (next_object latest (so_revision latest + 1) t (cx_actor ctx) (fst hb) (snd hb))
       (Some (so_revision latest)) e w6 = (Inr sa, w')" and r: "r = fst sa"
    by (elim bindp_InrE lift_InrE ret_InrE) (auto simp: unit_eq)
  have l: "w1 = w" "history_of (w_db w) i \<noteq> []" "latest = last (history_of (w_db w) i)" "so_id latest = i"
    using get_latest_or_Inr [OF world_ok_parts(2) [OF ok] s1] by auto
  have can: "can_transition CLAIM_LIFECYCLE frm to" using s2(2) by simp
  have "keeps same_db (if to \<in> ceiling_asserting_statuses then check_rulings i latest else ret ())"
    by (intro readonly)
  then have k2: "same_db w w2" using s3 unfolding l(1) by (rule keepsD)
  let ?body = "dset ''status'' (JStr to) (so_body latest)"
  have "keeps same_db (if to = ''supported'' then support_gate i ev vs ?body else ret ?body)"
    by (intro readonly)
  then have k3: "same_db w2 w3" using s4 unfolding Let_def by (rule keepsD)
  have k4: "same_db w3 w4" by (rule keepsD [OF readonly_now s5])
  have "keeps same_db (if to = ''supported'' then lift (claim_model_validate E (snd hb)) else ret ())"
    by (intro readonly)
  then have k5: "same_db w4 w5" using s7 by (rule keepsD)
  note ev = make_event_Inr [OF s8 keeps_same_pure(1) readonly_last_event]
  have k: "same_db w w6"
    using k2 k3 k4 k5 ev by (blast intro: transpD [OF transp_same_db])
  have gate: "(to = ''supported'' \<longrightarrow> (\<exists>evidence verifications.
       ev = Some evidence \<and> vs = Some verifications \<and>
       map_of body ''evidence_relations'' = Some (JArr (map JStr evidence)) \<and>
       map_of body ''verification_ids'' = Some (JArr (map JStr verifications)) \<and>
       (\<forall>u \<in> set evidence. \<exists>e \<in> set (edges_tbl (w_db w)).
          te_source_id e = i \<and> te_target_id e = u \<and> te_edge_type e = ''supports'')))
     \<and> map_of body ''status'' = Some (JStr to)
     \<and> map_of body ''claim_type'' = map_of (so_body latest) ''claim_type''"
  proof (cases "to = ''supported''")
    case True
    with s4 have g: "support_gate i ev vs ?body w2 = (Inr body, w3)" by (simp add: Let_def)
    have e2: "edges_tbl (w_db w2) = edges_tbl (w_db w)" using k2 by (simp add: same_db_def)
    show ?thesis
      by (rule support_gate_Inr [OF g]) (use e2 True in simp)
  next
    case False
    with s4 have "body = ?body" by (auto simp: Let_def)
    with False show ?thesis by simp
  qed
  obtain h b where hb: "hb = (h, b)" by fastforce
  note fin = finish_body_Inr [OF s6 [unfolded hb]]
  have same: "map_of b k = map_of body k" if "k \<in> {''status'', ''evidence_relations'', ''verification_ids'', ''claim_type''}" for k
    using that fin(5) [of k] by auto
  have val: "to = ''supported'' \<longrightarrow> non_empty_list (map_of b ''evidence_relations'') \<and>
      non_empty_list (map_of b ''verification_ids'')"
  proof
    assume to: "to = ''supported''"
    with s7 have v: "claim_model_validate E b = Inr u1" by (auto simp: hb)
    from gate to obtain evidence verifications where
      "map_of body ''evidence_relations'' = Some (JArr (map JStr evidence))"
      "map_of body ''verification_ids'' = Some (JArr (map JStr verifications))"
      and st: "map_of body ''status'' = Some (JStr to)"
      by blast
    have "map_of b ''status'' = Some (JStr ''supported'')" using same [of "''status''"] st to by simp
    from claim_model_validate_Inr [OF v [unfolded unit_eq] this]
    show "non_empty_list (map_of b ''evidence_relations'') \<and> non_empty_list (map_of b ''verification_ids'')"
      by blast
  qed
  obtain s a where sa: "sa = (s, a)" by fastforce
  have eo: "event_ok e" using ev by blast
  from unit_of_work_Inr [OF world_ok_same_db [OF ok k] eo s9 [unfolded hb sa fst_conv snd_conv]] have
    s: "s = next_object latest (so_revision latest + 1) t (cx_actor ctx) h b"
    and c: "committed E [s] [] e w6 w'"
    by blast+
  from c have c: "committed E [s] [] e w w'" by (rule committed_from [OF k])
  have rs: "r = s" using r sa by simp
  have nonempty: "xs \<noteq> []" if "non_empty_list (Some (JArr (map JStr xs)))" for xs :: "string list"
    using that by (cases xs) (simp_all add: non_empty_list_def)
  show ?thesis
    apply (intro exI [of _ e] exI [of _ latest] exI [of _ frm] conjI)
    subgoal using c rs by simp
    subgoal using s rs ev l by (simp add: announces_def)
    subgoal using ev by simp
    subgoal using ev by simp
    subgoal using l by simp
    subgoal using l by simp
    subgoal using s rs l by simp
    subgoal using s rs by simp
    subgoal using s2(1) unfolding dget_str_status .
    subgoal using s rs by simp
    subgoal using s rs gate same [of "''claim_type''"] by simp
    subgoal using can .
    subgoal using s rs gate same [of "''status''"] by (simp add: status_of_Some)
    subgoal using s rs fin(6) by simp
    subgoal using gate val same nonempty s rs by auto
    done
qed

text \<open>A written edge: its fields, its event, and the object it starts from.\<close>

lemma write_edge_Inr:
  assumes ok: "world_ok E w" and run: "write_edge E ctx src tgt ty sc et w = (Inr edge, w')"
  shows "\<exists>e. committed E [] [edge] e w w' \<and> event_ok e \<and> te_source_id edge = src \<and>
    te_target_id edge = tgt \<and> te_edge_type edge = ty \<and> de_object_id e = src \<and>
    history_of (w_db w) src \<noteq> []"
proof -
  from run [unfolded write_edge_def case_prod_beta]
  obtain latest t eid e ea w1 w2 w3 w4 where
    s1: "get_latest_or (ClaimNotFoundError src) src w = (Inr latest, w1)"
    and s2: "now E w1 = (Inr t, w2)" and s3: "new_urn E ''edge'' w2 = (Inr eid, w3)"
    and s4: "make_event E ctx et (ret t) (last_event_id_for src) src (so_revision latest)
       [(''edge_id'', JStr eid), (''edge_type'', JStr ty), (''target_id'', JStr tgt)] w3 = (Inr e, w4)"
    and s5: "bind_edge_unit_of_work E
       \<lparr>te_id = eid, te_source_id = src, te_target_id = tgt, te_edge_type = ty,
        te_created_at = t, te_created_by = cx_actor ctx, te_scope = sc, te_status = ''active'',
        te_practice_id = Some (so_practice_id latest)\<rparr> e w4 = (Inr ea, w')" and r: "edge = fst ea"
    by (elim bindp_InrE guardp_InrE ret_InrE) (auto simp: unit_eq)
  have l: "w1 = w" "history_of (w_db w) src \<noteq> []"
    using get_latest_or_Inr [OF world_ok_parts(2) [OF ok] s1] by auto
  note ev = make_event_Inr [OF s4 keeps_same_pure(1) readonly_last_event]
  have k: "same_db w w4"
    using keepsD [OF readonly_now s2] keepsD [OF readonly_new_urn s3] ev unfolding l(1)
    by (blast intro: transpD [OF transp_same_db])
  obtain edge' a where ea: "ea = (edge', a)" by fastforce
  have eo: "event_ok e" using ev by blast
  note u = edge_unit_of_work_Inr [OF world_ok_same_db [OF ok k] eo s5 [unfolded ea]]
  have e': "edge' = edge" using r ea by simp
  from u have "committed E [] [edge] e w w'" unfolding e' by (metis committed_from [OF k])
  moreover from u have "te_source_id edge = src" "te_target_id edge = tgt" "te_edge_type edge = ty"
    unfolding e' by auto
  ultimately show ?thesis using ev l(2) by blast
qed

lemma create_claim_Inr:
  assumes ok: "world_ok E w" and run: "create_claim E ctx c w = (Inr r, w')"
  shows "\<exists>e. committed E [r] [] e w w' \<and> announces e [r] \<and> event_ok e \<and>
    r = claim_to_stored_object c \<and> cl_status c = sm_initial CLAIM_LIFECYCLE \<and> cl_revision c = 1 \<and>
    history_of (w_db w) (cl_id c) = []"
proof -
  from run [unfolded create_claim_def case_prod_beta]
  obtain e sa w1 where g: "cl_status c = sm_initial CLAIM_LIFECYCLE" "cl_revision c = 1"
    and s1: "make_event E ctx ''claim.created'' (now E) (ret None) (cl_id c) 1
       [(''claim_type'', JStr (cl_claim_type c)), (''status'', JStr (cl_status c))] w = (Inr e, w1)"
    and s2: "bind_unit_of_work E (claim_to_stored_object c) None e w1 = (Inr sa, w')" and r: "r = fst sa"
    by (elim bindp_InrE guardp_InrE ret_InrE) (auto simp: unit_eq)
  note ev = make_event_Inr [OF s1 readonly_now keeps_same_pure(1)]
  then have k: "same_db w w1" and eo: "event_ok e" by blast+
  obtain s a where sa: "sa = (s, a)" by fastforce
  note u = unit_of_work_Inr [OF world_ok_same_db [OF ok k] eo s2 [unfolded sa]]
  have s: "s = r" "r = claim_to_stored_object c" using u r sa by auto
  have "committed E [r] [] e w w'" using u unfolding s(1) by (metis committed_from [OF k])
  moreover have "announces e [r]" using ev g s by (simp add: announces_def claim_to_stored_object_def)
  moreover have "history_of (w_db w) (cl_id c) = []"
    using u k by (auto simp: current_revision_def same_db_def claim_to_stored_object_def split: if_splits)
  ultimately show ?thesis using eo g s by blast
qed

section \<open>The invariant\<close>

definition is_claim :: "db \<Rightarrow> string \<Rightarrow> bool" where
  "is_claim d i \<longleftrightarrow> (\<exists>r \<in> set (objects_tbl d). so_id r = i \<and> so_kind r = ''Claim'')"

text \<open>The statuses of a Claim's revisions are an enforced history of its lifecycle.\<close>

definition claim_lifecycle_ok :: "db \<Rightarrow> bool" where
  "claim_lifecycle_ok d \<longleftrightarrow>
     (\<forall>i. is_claim d i \<longrightarrow>
        (\<forall>r \<in> set (history_of d i). so_kind r = ''Claim'') \<and>
        (\<exists>ss. map status_of (history_of d i) = map Some ss \<and> history CLAIM_LIFECYCLE ss))"

text \<open>A supported revision names evidence and verifications, each evidence with its edge.\<close>

definition support_edge :: "db \<Rightarrow> string \<Rightarrow> string \<Rightarrow> bool" where
  "support_edge d i u \<longleftrightarrow> (\<exists>e \<in> set (edges_tbl d).
     te_source_id e = i \<and> te_target_id e = u \<and> te_edge_type e = ''supports'')"

definition well_supported :: "db \<Rightarrow> stored_object \<Rightarrow> bool" where
  "well_supported d r \<longleftrightarrow>
     (\<exists>evidence verifications. evidence \<noteq> [] \<and> verifications \<noteq> [] \<and>
        map_of (so_body r) ''evidence_relations'' = Some (JArr (map JStr evidence)) \<and>
        map_of (so_body r) ''verification_ids'' = Some (JArr (map JStr verifications)) \<and>
        (\<forall>u \<in> set evidence. support_edge d (so_id r) u))"

definition supported_ok :: "db \<Rightarrow> bool" where
  "supported_ok d \<longleftrightarrow>
     (\<forall>r \<in> set (objects_tbl d). so_kind r = ''Claim'' \<and> status_of r = Some ''supported'' \<longrightarrow>
        well_supported d r)"

text \<open>A \<^verbatim>\<open>decided_by\<close> edge: a withdrawn source and a licensing decision at its target.\<close>

definition kill_edge_ok :: "db \<Rightarrow> typed_edge \<Rightarrow> bool" where
  "kill_edge_ok d e \<longleftrightarrow>
     (\<exists>r \<in> set (objects_tbl d). so_id r = te_source_id e \<and> status_of r = Some ''withdrawn'') \<and>
     (\<exists>r \<in> set (objects_tbl d). so_id r = te_target_id e \<and> so_kind r = ''ResearchDecision'' \<and>
        map_of (so_body r) ''decision_type'' = Some (JStr ''kill_branch''))"

text \<open>A \<^verbatim>\<open>ruled_by\<close> edge: a ruling whose stored chain admits the type of the claim.\<close>

definition ruling_edge_ok :: "db \<Rightarrow> typed_edge \<Rightarrow> bool" where
  "ruling_edge_ok d e \<longleftrightarrow>
     (\<exists>claim \<in> set (objects_tbl d). \<exists>ruling \<in> set (objects_tbl d).
      \<exists>protocol \<in> set (objects_tbl d). \<exists>profile \<in> set (objects_tbl d). \<exists>claim_type ruled maximum.
        so_id claim = te_source_id e \<and> so_id ruling = te_target_id e \<and>
        map_of (so_body claim) ''claim_type'' = Some (JStr claim_type) \<and>
        map_of (so_body ruling) ''protocol_id'' = Some (JStr (so_id protocol)) \<and>
        map_of (so_body protocol) ''profile_id'' = Some (JStr (so_id profile)) \<and>
        map_of (so_body ruling) ''ruled_ceiling'' = Some (JStr ruled) \<and>
        map_of (so_body profile) ''max_claim_ceiling'' = Some (JStr maximum) \<and>
        ceiling_violation_reason claim_type ruled maximum = Inr None)"

definition gated_edges_ok :: "db \<Rightarrow> bool" where
  "gated_edges_ok d \<longleftrightarrow>
     (\<forall>e \<in> set (edges_tbl d).
        (te_edge_type e = ''decided_by'' \<longrightarrow> kill_edge_ok d e) \<and>
        (te_edge_type e = ''ruled_by'' \<longrightarrow> ruling_edge_ok d e))"

definition claims_ok :: "db \<Rightarrow> bool" where
  "claims_ok d \<longleftrightarrow> claim_lifecycle_ok d \<and> supported_ok d \<and> gated_edges_ok d"

text \<open>Growing tables keep what is said of single rows.\<close>

definition grown :: "db \<Rightarrow> db \<Rightarrow> bool" where
  "grown d d' \<longleftrightarrow> set (objects_tbl d) \<subseteq> set (objects_tbl d') \<and> set (edges_tbl d) \<subseteq> set (edges_tbl d')"

lemma grown_rows:
  assumes "grown d d'"
  shows "support_edge d i u \<Longrightarrow> support_edge d' i u" and "well_supported d r \<Longrightarrow> well_supported d' r"
    and "kill_edge_ok d e \<Longrightarrow> kill_edge_ok d' e" and "ruling_edge_ok d e \<Longrightarrow> ruling_edge_ok d' e"
proof -
  have o: "r \<in> set (objects_tbl d')" if "r \<in> set (objects_tbl d)" for r
    using assms that by (auto simp: grown_def)
  show s: "support_edge d' i u" if "support_edge d i u" for i u
    using assms that unfolding support_edge_def grown_def by (meson subset_iff)
  show "well_supported d' r" if "well_supported d r"
    using that s unfolding well_supported_def by meson
  show "kill_edge_ok d' e" if "kill_edge_ok d e"
    using that o unfolding kill_edge_ok_def by meson
  show "ruling_edge_ok d' e" if "ruling_edge_ok d e"
    using that o unfolding ruling_edge_ok_def by meson
qed

lemma grown_committed: "committed E os es e w w' \<Longrightarrow> grown (w_db w) (w_db w')"
  by (auto simp: committed_def grown_def)

lemma claims_ok_same_db: "claims_ok (w_db w) \<Longrightarrow> same_db w w' \<Longrightarrow> claims_ok (w_db w')"
  by (simp add: same_db_def)

lemma claims_ok_empty: "claims_ok empty_db"
  by (simp add: claims_ok_def claim_lifecycle_ok_def supported_ok_def gated_edges_ok_def is_claim_def
      empty_db_def)

text \<open>New edges alone.\<close>

lemma claims_ok_edges:
  assumes ok: "claims_ok d" and o: "objects_tbl d' = objects_tbl d"
    and e: "edges_tbl d' = edges_tbl d @ es"
    and new: "\<And>x. x \<in> set es \<Longrightarrow> (te_edge_type x = ''decided_by'' \<longrightarrow> kill_edge_ok d' x) \<and>
      (te_edge_type x = ''ruled_by'' \<longrightarrow> ruling_edge_ok d' x)"
  shows "claims_ok d'"
proof -
  have g: "grown d d'" using o e by (simp add: grown_def)
  have "claim_lifecycle_ok d'"
    using ok o by (simp add: claims_ok_def claim_lifecycle_ok_def is_claim_def history_of_def)
  moreover have "supported_ok d'"
    using ok grown_rows(2) [OF g] unfolding claims_ok_def supported_ok_def o by blast
  moreover have "gated_edges_ok d'"
    unfolding gated_edges_ok_def e set_append
  proof (rule ballI)
    fix x assume "x \<in> set (edges_tbl d) \<union> set es"
    then show "(te_edge_type x = ''decided_by'' \<longrightarrow> kill_edge_ok d' x) \<and>
        (te_edge_type x = ''ruled_by'' \<longrightarrow> ruling_edge_ok d' x)"
    proof
      assume "x \<in> set (edges_tbl d)"
      then show ?thesis
        using ok grown_rows(3,4) [OF g] unfolding claims_ok_def gated_edges_ok_def by blast
    qed (rule new)
  qed
  ultimately show ?thesis by (simp add: claims_ok_def)
qed

text \<open>One new revision.\<close>

lemma claims_ok_revision:
  assumes ok: "claims_ok d" and o: "objects_tbl d' = objects_tbl d @ [r]"
    and e: "edges_tbl d' = edges_tbl d"
    and life: "so_kind r = ''Claim'' \<Longrightarrow>
      (history_of d (so_id r) = [] \<and> status_of r = Some (sm_initial CLAIM_LIFECYCLE)) \<or>
      (history_of d (so_id r) \<noteq> [] \<and> is_claim d (so_id r) \<and>
       (\<exists>a b. status_of (last (history_of d (so_id r))) = Some a \<and> status_of r = Some b \<and>
          can_transition CLAIM_LIFECYCLE a b))"
    and other: "so_kind r \<noteq> ''Claim'' \<Longrightarrow> \<not> is_claim d (so_id r)"
    and sup: "so_kind r = ''Claim'' \<Longrightarrow> status_of r = Some ''supported'' \<Longrightarrow> well_supported d' r"
  shows "claims_ok d'"
proof -
  have g: "grown d d'" using o e by (auto simp: grown_def)
  have h: "history_of d' i = history_of d i @ (if so_id r = i then [r] else [])" for i
    by (simp add: history_of_def o)
  have ic: "is_claim d' i \<longleftrightarrow> is_claim d i \<or> (so_id r = i \<and> so_kind r = ''Claim'')" for i
    by (auto simp: is_claim_def o)
  have "claim_lifecycle_ok d'"
    unfolding claim_lifecycle_ok_def
  proof (intro allI impI)
    fix i assume i: "is_claim d' i"
    let ?P = "\<lambda>d. (\<forall>r \<in> set (history_of d i). so_kind r = ''Claim'') \<and>
        (\<exists>ss. map status_of (history_of d i) = map Some ss \<and> history CLAIM_LIFECYCLE ss)"
    have old: "?P d" if "is_claim d i" using ok that by (simp add: claims_ok_def claim_lifecycle_ok_def)
    show "?P d'"
    proof (cases "so_id r = i")
      case False
      with i ic old h show ?thesis by simp
    next
      case True
      with i ic other have k: "so_kind r = ''Claim''" by blast
      from life [OF k] show ?thesis
      proof
        assume "history_of d (so_id r) = [] \<and> status_of r = Some (sm_initial CLAIM_LIFECYCLE)"
        then have "map status_of (history_of d' i) = map Some [sm_initial CLAIM_LIFECYCLE]"
          using True h by simp
        moreover have "\<forall>r \<in> set (history_of d' i). so_kind r = ''Claim''"
          using k True h \<open>history_of d (so_id r) = [] \<and> _\<close> by simp
        ultimately show ?thesis using history_single by metis
      next
        assume a: "history_of d (so_id r) \<noteq> [] \<and> is_claim d (so_id r) \<and>
         (\<exists>a b. status_of (last (history_of d (so_id r))) = Some a \<and> status_of r = Some b \<and>
          can_transition CLAIM_LIFECYCLE a b)"
        then obtain a b where ab: "status_of (last (history_of d i)) = Some a" "status_of r = Some b"
          "can_transition CLAIM_LIFECYCLE a b" using True by auto
        from old a True obtain ss where ss: "map status_of (history_of d i) = map Some ss"
          "history CLAIM_LIFECYCLE ss" and kd: "\<forall>r \<in> set (history_of d i). so_kind r = ''Claim''" by blast
        have ne: "history_of d i \<noteq> []" using a True by simp
        have "Some (last ss) = status_of (last (history_of d i))"
          using ss(1) ne by (metis last_map map_is_Nil_conv)
        then have "history CLAIM_LIFECYCLE (ss @ [b])"
          using ab history_snoc [OF ss(2)] by simp
        moreover have "map status_of (history_of d' i) = map Some (ss @ [b])"
          using ss(1) ab True h by simp
        moreover have "\<forall>r \<in> set (history_of d' i). so_kind r = ''Claim''"
          using kd k True h by simp
        ultimately show ?thesis by blast
      qed
    qed
  qed
  moreover have "supported_ok d'"
    unfolding supported_ok_def o
  proof (intro ballI impI)
    fix x assume x: "x \<in> set (objects_tbl d @ [r])" "so_kind x = ''Claim'' \<and> status_of x = Some ''supported''"
    then consider "x \<in> set (objects_tbl d)" | "x = r" by auto
    then show "well_supported d' x"
    proof cases
      case 1
      with ok x(2) have "well_supported d x" unfolding claims_ok_def supported_ok_def by blast
      then show ?thesis by (rule grown_rows(2) [OF g])
    qed (use sup x in blast)
  qed
  moreover have "gated_edges_ok d'"
    using ok grown_rows(3,4) [OF g] unfolding claims_ok_def gated_edges_ok_def e by blast
  ultimately show ?thesis by (simp add: claims_ok_def)
qed

section \<open>Every call keeps it\<close>

definition inv :: "env \<Rightarrow> world \<Rightarrow> bool" where
  "inv E w \<longleftrightarrow> world_ok E w \<and> claims_ok (w_db w) \<and> journaled (w_db w)"

lemma inv_same_db: "inv E w \<Longrightarrow> same_db w w' \<Longrightarrow> inv E w'"
  using world_ok_same_db claims_ok_same_db journaled_same_db by (auto simp: inv_def)

lemma inv_aon: "all_or_nothing m \<Longrightarrow> inv E w \<Longrightarrow> m w = (Inl x, w') \<Longrightarrow> inv E w'"
  unfolding all_or_nothing_def using inv_same_db by blast

lemma transition_claim_inv_Inr:
  assumes inv: "inv E w" and run: "transition_claim E ctx i to ty ev vs extra w = (Inr r, w')"
  shows "inv E w'"
proof -
  have ok: "world_ok E w" and cl: "claims_ok (w_db w)" and j: "journaled (w_db w)"
    using inv by (auto simp: inv_def)
  obtain e latest frm where c: "committed E [r] [] e w w'" and an: "announces e [r]"
    and l: "latest = last (history_of (w_db w) i)" "history_of (w_db w) i \<noteq> []"
    and r: "so_id r = i" "so_kind r = so_kind latest" "status_of r = Some to"
    and st: "status_of latest = Some frm" "can_transition CLAIM_LIFECYCLE frm to"
    and sup: "to = ''supported'' \<longrightarrow> (\<exists>evidence verifications.
       ev = Some evidence \<and> vs = Some verifications \<and> evidence \<noteq> [] \<and> verifications \<noteq> [] \<and>
       map_of (so_body r) ''evidence_relations'' = Some (JArr (map JStr evidence)) \<and>
       map_of (so_body r) ''verification_ids'' = Some (JArr (map JStr verifications)) \<and>
       (\<forall>u \<in> set evidence. \<exists>e \<in> set (edges_tbl (w_db w)).
          te_source_id e = i \<and> te_target_id e = u \<and> te_edge_type e = ''supports''))"
    using transition_claim_Inr [OF ok run] by (elim exE conjE) (rule that)
  note t = committed_tables [OF c]
  have mem: "latest \<in> set (history_of (w_db w) i)" using l by simp
  have "claims_ok (w_db w')"
  proof (rule claims_ok_revision [OF cl t(1)])
    show "edges_tbl (w_db w') = edges_tbl (w_db w)" using t(2) by simp
    show "(history_of (w_db w) (so_id r) = [] \<and> status_of r = Some (sm_initial CLAIM_LIFECYCLE)) \<or>
      (history_of (w_db w) (so_id r) \<noteq> [] \<and> is_claim (w_db w) (so_id r) \<and>
       (\<exists>a b. status_of (last (history_of (w_db w) (so_id r))) = Some a \<and> status_of r = Some b \<and>
          can_transition CLAIM_LIFECYCLE a b))" if "so_kind r = ''Claim''"
    proof (rule disjI2, intro conjI exI)
      show "is_claim (w_db w) (so_id r)"
        unfolding is_claim_def using mem that r by (intro bexI [of _ latest]) (simp_all add: history_of_def)
      show "status_of (last (history_of (w_db w) (so_id r))) = Some frm" using st l r by simp
    qed (use l r st in simp_all)
    show "\<not> is_claim (w_db w) (so_id r)" if "so_kind r \<noteq> ''Claim''"
    proof
      assume "is_claim (w_db w) (so_id r)"
      with cl have "\<forall>q \<in> set (history_of (w_db w) i). so_kind q = ''Claim''"
        unfolding claims_ok_def claim_lifecycle_ok_def r by blast
      then have "so_kind latest = ''Claim''" using mem by (rule bspec)
      with that r show False by simp
    qed
    show "well_supported (w_db w') r" if "status_of r = Some ''supported''"
    proof -
      from that r(3) have "to = ''supported''" by simp
      with sup have "well_supported (w_db w) r"
        unfolding well_supported_def support_edge_def r(1) by meson
      then show ?thesis by (rule grown_rows(2) [OF grown_committed [OF c]])
    qed
  qed
  with t(3) committed_journaled [OF c j an] show ?thesis by (simp add: inv_def)
qed

lemma transition_claim_inv:
  "inv E w \<Longrightarrow> transition_claim E ctx i to ty ev vs extra w = (r, w') \<Longrightarrow> inv E w'"
  by (cases r) (blast intro: inv_aon [OF transition_aon] transition_claim_inv_Inr)+

lemma create_claim_inv:
  assumes inv: "inv E w" and c: "claim_instance c" and run: "create_claim E ctx c w = (r, w')"
  shows "inv E w'"
proof (cases r)
  case (Inl x)
  with run inv show ?thesis by (blast intro: inv_aon [OF create_claim_aon])
next
  case (Inr q)
  have ok: "world_ok E w" and cl: "claims_ok (w_db w)" and j: "journaled (w_db w)"
    using inv by (auto simp: inv_def)
  obtain e where com: "committed E [q] [] e w w'" and an: "announces e [q]"
    and q: "q = claim_to_stored_object c" "cl_status c = sm_initial CLAIM_LIFECYCLE"
      "history_of (w_db w) (cl_id c) = []"
    using create_claim_Inr [OF ok run [unfolded Inr]] by (elim exE conjE) (rule that)
  have st: "status_of q = Some (sm_initial CLAIM_LIFECYCLE)" and k: "so_kind q = ''Claim''"
    and i: "so_id q = cl_id c"
    using c q by (simp_all add: claim_instance_def status_of_Some claim_to_stored_object_def)
  have nsup: "sm_initial CLAIM_LIFECYCLE \<noteq> ''supported''" by (simp add: initial_states)
  note t = committed_tables [OF com]
  have "claims_ok (w_db w')"
    by (rule claims_ok_revision [OF cl t(1)]) (use t(2) st k i q nsup in simp_all)
  with t(3) committed_journaled [OF com j an] show ?thesis by (simp add: inv_def)
qed

text \<open>An edge may be written when its kind of gate holds of the present tables.\<close>

definition gate_holds :: "db \<Rightarrow> string \<Rightarrow> string \<Rightarrow> string \<Rightarrow> bool" where
  "gate_holds d src tgt ty \<longleftrightarrow>
     (\<forall>x. te_source_id x = src \<and> te_target_id x = tgt \<longrightarrow>
        (ty = ''decided_by'' \<longrightarrow> kill_edge_ok d x) \<and> (ty = ''ruled_by'' \<longrightarrow> ruling_edge_ok d x))"

lemma gate_holds_open: "ty \<notin> GATED_EDGE_TYPES \<Longrightarrow> gate_holds d src tgt ty"
  by (simp add: gate_holds_def GATED_EDGE_TYPES_def)

lemma write_edge_inv:
  assumes inv: "inv E w" and run: "write_edge E ctx src tgt ty sc et w = (r, w')"
    and gate: "gate_holds (w_db w) src tgt ty"
  shows "inv E w'"
proof (cases r)
  case (Inl x)
  with run inv show ?thesis by (blast intro: inv_aon [OF write_edge_aon])
next
  case (Inr edge)
  have ok: "world_ok E w" and cl: "claims_ok (w_db w)" and j: "journaled (w_db w)"
    using inv by (auto simp: inv_def)
  obtain e where com: "committed E [] [edge] e w w'"
    and f: "te_source_id edge = src" "te_target_id edge = tgt" "te_edge_type edge = ty"
    using write_edge_Inr [OF ok run [unfolded Inr]] by (elim exE conjE) (rule that)
  note t = committed_tables [OF com] and g = grown_rows(3,4) [OF grown_committed [OF com]]
  have "(ty = ''decided_by'' \<longrightarrow> kill_edge_ok (w_db w') edge) \<and> (ty = ''ruled_by'' \<longrightarrow> ruling_edge_ok (w_db w') edge)"
    using gate f g unfolding gate_holds_def by blast
  then have "claims_ok (w_db w')"
    by (intro claims_ok_edges [OF cl _ t(2)]) (use t(1) f in simp_all)
  moreover have "journaled (w_db w')"
    by (rule committed_journaled [OF com j]) (simp add: announces_def)
  ultimately show ?thesis using t(3) by (simp add: inv_def)
qed

lemma open_edge_inv:
  assumes "inv E w"
    and "bindp (lift (reject_gated_edge_type ty)) (\<lambda>_. write_edge E ctx src tgt ty sc et) w = (r, w')"
  shows "inv E w'"
proof (cases "ty \<in> GATED_EDGE_TYPES")
  case True
  with assms show ?thesis by (simp add: bindp_def lift_run reject_gated_edge_type_def)
next
  case False
  with assms(2) have "write_edge E ctx src tgt ty sc et w = (r, w')"
    by (simp add: bindp_def lift_run reject_gated_edge_type_def)
  with assms(1) show ?thesis using write_edge_inv gate_holds_open [OF False] by blast
qed

lemma resolve_chain_Inr:
  assumes ok: "objects_ok (w_db w)" and run: "resolve_ruling_ceiling_chain i w = (Inr c, w')"
  shows "w' = w \<and> (\<exists>ruling \<in> set (objects_tbl (w_db w)). \<exists>protocol \<in> set (objects_tbl (w_db w)).
      \<exists>profile \<in> set (objects_tbl (w_db w)). so_id ruling = i \<and>
        map_of (so_body ruling) ''protocol_id'' = Some (JStr (so_id protocol)) \<and>
        map_of (so_body protocol) ''profile_id'' = Some (JStr (so_id profile)) \<and>
        map_of (so_body ruling) ''ruled_ceiling'' = Some (JStr (fst c)) \<and>
        map_of (so_body profile) ''max_claim_ceiling'' = Some (JStr (snd c)))"
proof -
  from run [unfolded resolve_ruling_ceiling_chain_def]
  obtain ruling pi protocol qi profile rc mc w1 w2 where
    a: "get_latest i w = (Inr ruling, w1)" "dget_str (so_body ruling) ''protocol_id'' = Inr pi"
    and b: "get_latest pi w1 = (Inr protocol, w2)" "dget_str (so_body protocol) ''profile_id'' = Inr qi"
    and c: "get_latest qi w2 = (Inr profile, w')" "dget_str (so_body ruling) ''ruled_ceiling'' = Inr rc"
      "dget_str (so_body profile) ''max_claim_ceiling'' = Inr mc" "c = (rc, mc)"
    by (elim bindp_InrE lift_InrE ret_InrE) auto
  from get_latest_Inr [OF ok a(1)] have w1: "w1 = w"
    and ga: "so_id ruling = i" "ruling \<in> set (objects_tbl (w_db w))" by blast+
  from get_latest_Inr [OF ok b(1) [unfolded w1]] have w2: "w2 = w"
    and gb: "so_id protocol = pi" "protocol \<in> set (objects_tbl (w_db w))" by blast+
  from get_latest_Inr [OF ok c(1) [unfolded w2]] have w3: "w' = w"
    and gc: "so_id profile = qi" "profile \<in> set (objects_tbl (w_db w))" by blast+
  show ?thesis
    using ga gb gc w3 a(2) b(2) c(2-4)
    by (intro conjI bexI [of _ ruling] bexI [of _ protocol] bexI [of _ profile]) simp_all
qed

lemma within_ceiling_Inr:
  "require_within_ceiling i t c w = (Inr u, w') \<Longrightarrow>
     w' = w \<and> ceiling_violation_reason t (fst c) (snd c) = Inr None"
  by (auto simp: require_within_ceiling_def split: option.splits)

lemma attach_ruling_inv:
  assumes inv: "inv E w" and run: "attach_ruling E ctx i m w = (r, w')"
  shows "inv E w'"
proof (cases r)
  case (Inl x)
  with run inv show ?thesis by (blast intro: inv_aon [OF attach_ruling_aon])
next
  case (Inr edge)
  have ok: "objects_ok (w_db w)" using inv by (auto simp: inv_def world_ok_def)
  from run [unfolded Inr attach_ruling_def]
  obtain claim cs ct u w1 w2 w3 where
    a: "get_latest_or (ClaimNotFoundError i) i w = (Inr claim, w1)"
    and b: "resolve_ruling_ceiling_chain m w1 = (Inr cs, w2)"
    and c: "dget_str (so_body claim) ''claim_type'' = Inr ct"
    and d: "require_within_ceiling i ct cs w2 = (Inr u, w3)"
    and e: "write_edge E ctx i m ''ruled_by'' None ''claim.ruling_attached'' w3 = (Inr edge, w')"
    by (elim bindp_InrE lift_InrE) (auto intro: that)
  from get_latest_or_Inr [OF ok a] have w1: "w1 = w"
    and ga: "so_id claim = i" "claim \<in> set (objects_tbl (w_db w))" by blast+
  have ct: "map_of (so_body claim) ''claim_type'' = Some (JStr ct)" using c by simp
  note gb = resolve_chain_Inr [OF ok b [unfolded w1]]
  then have w2: "w2 = w" by blast
  from within_ceiling_Inr [OF d] have w3: "w3 = w" and adm: "ceiling_violation_reason ct (fst cs) (snd cs) = Inr None"
    using w2 by auto
  have "gate_holds (w_db w) i m ''ruled_by''"
    unfolding gate_holds_def
  proof (intro allI impI conjI)
    fix x :: typed_edge assume x: "te_source_id x = i \<and> te_target_id x = m"
    from gb obtain ruling protocol profile where g: "ruling \<in> set (objects_tbl (w_db w))"
      "protocol \<in> set (objects_tbl (w_db w))" "profile \<in> set (objects_tbl (w_db w))" "so_id ruling = m"
      "map_of (so_body ruling) ''protocol_id'' = Some (JStr (so_id protocol))"
      "map_of (so_body protocol) ''profile_id'' = Some (JStr (so_id profile))"
      "map_of (so_body ruling) ''ruled_ceiling'' = Some (JStr (fst cs))"
      "map_of (so_body profile) ''max_claim_ceiling'' = Some (JStr (snd cs))"
      by (elim conjE bexE) (rule that)
    show "ruling_edge_ok (w_db w) x"
      unfolding ruling_edge_ok_def
      by (rule bexI [of _ claim], rule bexI [of _ ruling], rule bexI [of _ protocol],
          rule bexI [of _ profile], rule exI [of _ ct], rule exI [of _ "fst cs"],
          rule exI [of _ "snd cs"])
        (use ga g adm x ct in simp_all)
  qed simp
  with inv e show ?thesis unfolding w3 by (blast intro: write_edge_inv)
qed

lemma apply_kill_inv:
  assumes inv: "inv E w" and run: "apply_kill_condition E ctx i dec w = (r, w')"
  shows "inv E w'"
proof -
  have ok: "objects_ok (w_db w)" using inv by (auto simp: inv_def world_ok_def)
  let ?extra = "[(''code'', JStr ''KILL_CONDITION_TRIGGERED''), (''research_decision_id'', JStr dec)]"
  let ?t = "transition_claim E ctx i ''withdrawn'' ''claim.kill_condition_triggered'' None None ?extra"
  let ?e = "write_edge E ctx i dec ''decided_by'' None ''claim.kill_decision_recorded''"
  obtain q w1 where g: "get_latest dec w = (q, w1)" by fastforce
  show ?thesis
  proof (cases q)
    case (Inl x)
    with g run have "same_db w w'"
      using keepsD [OF readonly_reads(1) g] by (simp add: apply_kill_condition_def bindp_def)
    with inv show ?thesis by (rule inv_same_db)
  next
    case (Inr d)
    from get_latest_Inr [OF ok g [unfolded Inr]] have w1: "w1 = w"
      and d: "so_id d = dec" "d \<in> set (objects_tbl (w_db w))" by blast+
    let ?lic = "assert_licenses_kill dec (so_kind d) (map_of (so_body d) ''decision_type'')"
    have run2: "bindp (lift ?lic) (\<lambda>_. bindp ?t (\<lambda>stored. bindp ?e (\<lambda>edge. ret (stored, edge)))) w = (r, w')"
      using run g Inr w1 by (simp add: apply_kill_condition_def bindp_def [of "get_latest dec"])
    show ?thesis
    proof (cases ?lic)
      case (Inl x)
      with run2 inv show ?thesis by (simp add: bindp_def [of "lift _"] lift_run)
    next
      case lic: (Inr u)
      obtain q2 w2 where t: "?t w = (q2, w2)" by fastforce
      have inv2: "inv E w2" by (rule transition_claim_inv [OF inv t])
      show ?thesis
      proof (cases q2)
        case (Inl x)
        with run2 lic t inv2 show ?thesis by (simp add: bindp_def lift_run)
      next
        case (Inr st)
        obtain e where com: "committed E [st] [] e w w2" and st: "so_id st = i" "status_of st = Some ''withdrawn''"
          using transition_claim_Inr [OF _ t [unfolded Inr]] inv unfolding inv_def
          by (elim exE conjE) (metis)
        obtain q3 w3 where e: "?e w2 = (q3, w3)" by fastforce
        have w3: "w3 = w'"
          using run2 lic t Inr e by (auto simp: bindp_def lift_run ret_run split: sum.splits)
        have o: "objects_tbl (w_db w2) = objects_tbl (w_db w) @ [st]" using committed_tables(1) [OF com] .
        have "gate_holds (w_db w2) i dec ''decided_by''"
          unfolding gate_holds_def kill_edge_ok_def o
          using st d lic by (auto simp: assert_licenses_kill_def split: if_splits)
        with write_edge_inv [OF inv2 e] w3 show ?thesis by blast
      qed
    qed
  qed
qed

section \<open>Calls and reachable worlds\<close>

datatype claim_call =
    Create claim
  | SubmitForReview urn
  | ToSupported urn "urn list" "urn list"
  | ToContested urn
  | ToContradicted urn
  | ToUnresolved urn
  | ToUnsupported urn
  | RequireReview urn
  | Withdraw urn
  | Supersede urn
  | AddEvidenceEdge urn urn string "dict option"
  | AddCounterevidenceEdge urn urn "dict option"
  | AddDependencyEdge urn urn "dict option"
  | LinkRelatedClaim urn urn string "dict option"
  | AttachRuling urn urn
  | ApplyKillCondition urn urn

fun run_call :: "env \<Rightarrow> call_ctx \<Rightarrow> claim_call \<Rightarrow> world \<Rightarrow> world" where
  "run_call E ctx (Create c) w = snd (create_claim E ctx c w)"
| "run_call E ctx (SubmitForReview i) w = snd (submit_for_review E ctx i w)"
| "run_call E ctx (ToSupported i ev vs) w = snd (to_supported E ctx i ev vs w)"
| "run_call E ctx (ToContested i) w = snd (to_contested E ctx i w)"
| "run_call E ctx (ToContradicted i) w = snd (to_contradicted E ctx i w)"
| "run_call E ctx (ToUnresolved i) w = snd (to_unresolved E ctx i w)"
| "run_call E ctx (ToUnsupported i) w = snd (to_unsupported E ctx i w)"
| "run_call E ctx (RequireReview i) w = snd (require_review E ctx i w)"
| "run_call E ctx (Withdraw i) w = snd (withdraw E ctx i w)"
| "run_call E ctx (Supersede i) w = snd (supersede E ctx i w)"
| "run_call E ctx (AddEvidenceEdge i t ty sc) w = snd (add_evidence_edge E ctx i t ty sc w)"
| "run_call E ctx (AddCounterevidenceEdge i t sc) w = snd (add_counterevidence_edge E ctx i t sc w)"
| "run_call E ctx (AddDependencyEdge i t sc) w = snd (add_dependency_edge E ctx i t sc w)"
| "run_call E ctx (LinkRelatedClaim i t ty sc) w = snd (link_related_claim E ctx i t ty sc w)"
| "run_call E ctx (AttachRuling i m) w = snd (attach_ruling E ctx i m w)"
| "run_call E ctx (ApplyKillCondition i d) w = snd (apply_kill_condition E ctx i d w)"

fun call_ok :: "claim_call \<Rightarrow> bool" where
  "call_ok (Create c) = claim_instance c"
| "call_ok _ = True"

text \<open>
  What the rest of the system may do to the same database: any well-formed writes that add no
  Claim revision, no revision of an object that is a Claim, and no edge of the gated types.
\<close>

definition other_write :: "env \<Rightarrow> world \<Rightarrow> world \<Rightarrow> bool" where
  "other_write E w w' \<longleftrightarrow>
     world_ok E w' \<and> journaled (w_db w') \<and>
     (\<exists>os es. objects_tbl (w_db w') = objects_tbl (w_db w) @ os \<and>
        edges_tbl (w_db w') = edges_tbl (w_db w) @ es \<and>
        (\<forall>r \<in> set os. so_kind r \<noteq> ''Claim'' \<and> \<not> is_claim (w_db w) (so_id r)) \<and>
        (\<forall>e \<in> set es. te_edge_type e \<notin> GATED_EDGE_TYPES))"

inductive claim_reach :: "env \<Rightarrow> world \<Rightarrow> bool" for E :: env where
  start: "claim_reach E empty_world"
| call: "claim_reach E w \<Longrightarrow> call_ok c \<Longrightarrow> claim_reach E (run_call E ctx c w)"
| other: "claim_reach E w \<Longrightarrow> other_write E w w' \<Longrightarrow> claim_reach E w'"

inductive_cases claim_reachE: "claim_reach E w"

lemma inv_empty: "inv E empty_world"
  using world_ok_empty claims_ok_empty by (simp add: inv_def journaled_def empty_world_def empty_db_def)

lemma run_call_inv:
  assumes "inv E w" and "call_ok c"
  shows "inv E (run_call E ctx c w)"
proof -
  have t: "inv E (snd (transition_claim E ctx i to ty ev vs extra w))" for i to ty ev vs extra
    by (rule transition_claim_inv [OF assms(1)]) (rule prod.collapse [symmetric])
  have g: "inv E (snd (write_edge E ctx i m ty sc et w))" if "ty \<notin> GATED_EDGE_TYPES" for i m ty sc et
    by (rule write_edge_inv [OF assms(1) _ gate_holds_open [OF that]]) (rule prod.collapse [symmetric])
  have o: "inv E (snd (bindp (lift (reject_gated_edge_type ty)) (\<lambda>_. write_edge E ctx i m ty sc et) w))"
    for i m ty sc et
    by (rule open_edge_inv [OF assms(1)]) (rule prod.collapse [symmetric])
  show ?thesis
  proof (cases c)
    case (Create cl)
    with assms create_claim_inv [OF assms(1), of cl ctx "fst (create_claim E ctx cl w)"] show ?thesis by simp
  next
    case (AttachRuling i m)
    with attach_ruling_inv [OF assms(1), of ctx i m "fst (attach_ruling E ctx i m w)"] show ?thesis by simp
  next
    case (ApplyKillCondition i d)
    with apply_kill_inv [OF assms(1), of ctx i d "fst (apply_kill_condition E ctx i d w)"] show ?thesis by simp
  qed (simp_all add: t g o GATED_EDGE_TYPES_def submit_for_review_def to_supported_def to_contested_def
      to_contradicted_def to_unresolved_def to_unsupported_def require_review_def withdraw_def
      supersede_def add_evidence_edge_def add_counterevidence_edge_def add_dependency_edge_def
      link_related_claim_def)
qed

lemma claim_lifecycle_frame:
  assumes ok: "claim_lifecycle_ok d" and o: "objects_tbl d' = objects_tbl d @ os"
    and other: "\<forall>r \<in> set os. so_kind r \<noteq> ''Claim'' \<and> \<not> is_claim d (so_id r)"
  shows "claim_lifecycle_ok d'"
  unfolding claim_lifecycle_ok_def
proof (intro allI impI)
  fix i assume "is_claim d' i"
  then have i: "is_claim d i" using o other by (auto simp: is_claim_def)
  have "filter (\<lambda>r. so_id r = i) os = []" using other i by (auto simp: filter_empty_conv)
  then have "history_of d' i = history_of d i" by (simp add: history_of_def o)
  with ok i show "(\<forall>r \<in> set (history_of d' i). so_kind r = ''Claim'') \<and>
      (\<exists>ss. map status_of (history_of d' i) = map Some ss \<and> history CLAIM_LIFECYCLE ss)"
    by (simp add: claim_lifecycle_ok_def)
qed

lemma other_write_inv:
  assumes inv: "inv E w" and oth: "other_write E w w'"
  shows "inv E w'"
proof -
  from oth obtain os es where o: "objects_tbl (w_db w') = objects_tbl (w_db w) @ os"
    and e: "edges_tbl (w_db w') = edges_tbl (w_db w) @ es"
    and os: "\<forall>r \<in> set os. so_kind r \<noteq> ''Claim'' \<and> \<not> is_claim (w_db w) (so_id r)"
    and es: "\<forall>x \<in> set es. te_edge_type x \<notin> GATED_EDGE_TYPES"
    and ok: "world_ok E w'" "journaled (w_db w')"
    unfolding other_write_def by blast
  have cl: "claims_ok (w_db w)" using inv by (simp add: inv_def)
  have g: "grown (w_db w) (w_db w')" using o e by (auto simp: grown_def)
  have "claim_lifecycle_ok (w_db w')"
    using cl claim_lifecycle_frame [OF _ o os] by (simp add: claims_ok_def)
  moreover have "supported_ok (w_db w')"
    unfolding supported_ok_def o
    using cl os grown_rows(2) [OF g] unfolding claims_ok_def supported_ok_def by auto
  moreover have "gated_edges_ok (w_db w')"
    unfolding gated_edges_ok_def e set_append
  proof (rule ballI)
    fix x assume "x \<in> set (edges_tbl (w_db w)) \<union> set es"
    then show "(te_edge_type x = ''decided_by'' \<longrightarrow> kill_edge_ok (w_db w') x) \<and>
        (te_edge_type x = ''ruled_by'' \<longrightarrow> ruling_edge_ok (w_db w') x)"
    proof
      assume "x \<in> set (edges_tbl (w_db w))"
      then show ?thesis
        using cl grown_rows(3,4) [OF g] unfolding claims_ok_def gated_edges_ok_def by blast
    next
      assume "x \<in> set es"
      with es show ?thesis by (simp add: GATED_EDGE_TYPES_def)
    qed
  qed
  ultimately show ?thesis using ok by (simp add: inv_def claims_ok_def)
qed

lemma claim_reach_inv: "claim_reach E w \<Longrightarrow> inv E w"
  by (induction rule: claim_reach.induct) (auto intro: inv_empty run_call_inv other_write_inv)

section \<open>The gates of single calls\<close>

text \<open>Does the stored chain of this ruling admit the claim type?\<close>

definition ruling_admits :: "world \<Rightarrow> string \<Rightarrow> string \<Rightarrow> bool" where
  "ruling_admits w claim_type ruling_id \<longleftrightarrow>
     (\<exists>cs. resolve_ruling_ceiling_chain ruling_id w = (Inr cs, w) \<and>
           ceiling_violation_reason claim_type (fst cs) (snd cs) = Inr None)"

definition rulings_admit :: "world \<Rightarrow> urn \<Rightarrow> stored_object \<Rightarrow> bool" where
  "rulings_admit w i latest \<longleftrightarrow>
     (\<exists>claim_type. map_of (so_body latest) ''claim_type'' = Some (JStr claim_type) \<and>
        (\<forall>e \<in> set (edges_tbl (w_db w)). te_source_id e = i \<and> te_edge_type e = ''ruled_by'' \<longrightarrow>
           ruling_admits w claim_type (te_target_id e)))"

lemma check_rulings_Inr:
  assumes ok: "objects_ok (w_db w)" and run: "check_rulings i latest w = (Inr u, w')"
  shows "rulings_admit w i latest"
proof -
  define edges where "edges = sort_key te_created_at
      (filter (\<lambda>e. te_source_id e = i \<and> te_edge_type e = ''ruled_by'') (edges_tbl (w_db w)))"
  have ed: "edges_from i (Some ''ruled_by'') w = (Inr edges, w)"
    by (simp add: edges_from_def edges_by_def asks_run edges_def)
  from run [unfolded check_rulings_def] obtain ct es w1 us where
    ct: "dget_str (so_body latest) ''claim_type'' = Inr ct"
    and e: "edges_from i (Some ''ruled_by'') w = (Inr es, w1)"
    and m: "mapp (\<lambda>edge. bindp (resolve_ruling_ceiling_chain (te_target_id edge)) (\<lambda>ceilings.
       require_within_ceiling i ct ceilings)) es w1 = (Inr us, w')"
    by (elim bindp_InrE lift_InrE ret_InrE) (auto intro: that)
  have es: "es = edges" and w1: "w1 = w" using e ed by simp_all
  let ?f = "\<lambda>edge. bindp (resolve_ruling_ceiling_chain (te_target_id edge)) (\<lambda>ceilings.
       require_within_ceiling i ct ceilings)"
  have each: "ruling_admits w ct (te_target_id edge)" if "edge \<in> set edges" for edge
  proof -
    have go: "mapp ?f xs w = (Inr ys, w2) \<Longrightarrow> \<forall>x \<in> set xs. ruling_admits w ct (te_target_id x)" for xs ys w2
    proof (induction xs arbitrary: ys)
      case (Cons x xs)
      then obtain cs w3 y w4 zs where a: "resolve_ruling_ceiling_chain (te_target_id x) w = (Inr cs, w3)"
        and b: "require_within_ceiling i ct cs w3 = (Inr y, w4)" and c: "mapp ?f xs w4 = (Inr zs, w2)"
        unfolding mapp.simps by (elim bindp_InrE ret_InrE) (auto intro: that)
      from resolve_chain_Inr [OF ok a] have w3: "w3 = w" by blast
      from within_ceiling_Inr [OF b] have w4: "w4 = w"
        and adm: "ceiling_violation_reason ct (fst cs) (snd cs) = Inr None" using w3 by auto
      have "ruling_admits w ct (te_target_id x)"
        unfolding ruling_admits_def using a adm w3 by blast
      with Cons.IH [OF c [unfolded w4]] show ?case by simp
    qed simp
    show ?thesis using go [OF m [unfolded es w1]] that by blast
  qed
  have mem: "edge \<in> set edges" if "edge \<in> set (edges_tbl (w_db w))" "te_source_id edge = i"
    "te_edge_type edge = ''ruled_by''" for edge
    using that by (simp add: edges_def)
  have "map_of (so_body latest) ''claim_type'' = Some (JStr ct)" using ct by simp
  then show ?thesis unfolding rulings_admit_def using each mem by (intro exI [of _ ct]) simp
qed

lemma transition_rulings:
  assumes ok: "world_ok E w" and to: "to \<in> ceiling_asserting_statuses"
    and run: "transition_claim E ctx i to ty ev vs extra w = (Inr r, w')"
  shows "rulings_admit w i (last (history_of (w_db w) i))"
proof -
  from run [unfolded transition_claim_def] obtain latest w1 u w2 where
    a: "get_latest_or (ClaimNotFoundError i) i w = (Inr latest, w1)"
    and b: "(if to \<in> ceiling_asserting_statuses then check_rulings i latest else ret ()) w1 = (Inr u, w2)"
    by (elim bindp_InrE lift_InrE) (auto intro: that)
  note oo = world_ok_parts(2) [OF ok]
  from get_latest_or_Inr [OF oo a] have w1: "w1 = w" and l: "latest = last (history_of (w_db w) i)" by blast+
  from b to have "check_rulings i latest w = (Inr u, w2)" by (simp add: w1)
  from check_rulings_Inr [OF oo this] l show ?thesis by simp
qed

lemma history_of_committed:
  "committed E [r] es e w w' \<Longrightarrow> so_id r = i \<Longrightarrow> history_of (w_db w') i = history_of (w_db w) i @ [r]"
  by (auto simp: committed_def history_of_def)

end
