(* ===== verification/Claim_Properties.thy ===== *)
theory Claim_Properties
  imports Claim_Service
begin

text \<open>
  What the Claim service promises, proved from the invariant and the inversion lemmas of
  \<open>Claim_Service\<close>; the forward lemmas run a call that has what it needs, and build
  the worlds on which the properties are applied.
\<close>

section \<open>Calls that succeed\<close>

text \<open>
  A transition succeeds when the ceiling loop, the support gate and the re-validation let it
  through, and the identifier of its event is not taken. It reads the environment three
  times: the time, the event's identifier, the outbox row's time.
\<close>

lemma transition_run:
  assumes ok: "world_ok E w" and ctx: "ctx_ok ctx" and E: "env_total E"
    and fresh: "event_id_at E (Suc (w_ticks w)) \<notin> set (event_ids (w_db w))"
    and i: "is_valid_urn i" and ne: "history_of (w_db w) i \<noteq> []"
    and st: "status_of (last (history_of (w_db w) i)) = Some s"
    and can: "can_transition CLAIM_LIFECYCLE s to" and ty: "non_empty ty"
    and rul: "(if to \<in> ceiling_asserting_statuses
               then check_rulings i (last (history_of (w_db w) i)) else ret ()) w = (Inr (), w)"
    and gate: "(if to = ''supported''
               then support_gate i ev vs (dset ''status'' (JStr to) (so_body (last (history_of (w_db w) i))))
               else ret (dset ''status'' (JStr to) (so_body (last (history_of (w_db w) i))))) w =
             (Inr body, w)"
    and val: "\<And>h b n t. to = ''supported'' \<Longrightarrow> finish_body E n t (cx_actor ctx) body = Inr (h, b) \<Longrightarrow>
                claim_model_validate E b = Inr ()"
  shows "\<exists>r w'. transition_claim E ctx i to ty ev vs extra w = (Inr r, w') \<and>
    w_ticks w' = w_ticks w + 3 \<and>
    event_ids (w_db w') = event_ids (w_db w) @ [event_id_at E (Suc (w_ticks w))]"
proof -
  define latest where "latest = last (history_of (w_db w) i)"
  let ?n = "so_revision latest + 1" and ?t = "env_now E (w_ticks w)"
  note oo = world_ok_parts(2) [OF ok]
  have g: "get_latest_or (ClaimNotFoundError i) i w = (Inr latest, w)"
    unfolding latest_def by (rule get_latest_or_run [OF oo ne])
  note gl = get_latest_or_Inr [OF oo g]
  have li: "so_id latest = i" and lr: "current_revision (w_db w) i = Some (so_revision latest)"
    and n: "1 \<le> ?n" using gl by auto
  obtain h b where fb: "finish_body E ?n ?t (cx_actor ctx) body = Inr (h, b)"
    using env_total_finish [OF E] by blast
  have v: "claim_model_validate E b = Inr ()" if "to = ''supported''" by (rule val [OF that fb])
  let ?w1 = "w\<lparr>w_ticks := Suc (w_ticks w)\<rparr>"
  let ?w2 = "?w1\<lparr>w_ticks := Suc (w_ticks ?w1)\<rparr>" and ?r = "next_object latest ?n ?t (cx_actor ctx) h b"
  have ok1: "world_ok E ?w1" and ok2: "world_ok E ?w2" using ok by simp_all
  obtain e where e: "make_event E ctx ty (ret ?t) (last_event_id_for i) i ?n
      (dupdate [(''from_status'', JStr s), (''to_status'', JStr to)] extra) ?w1 = (Inr e, ?w2)"
    and eid: "de_id e = event_id_at E (w_ticks ?w1)"
    using make_event_run [OF world_ok_parts(1) [OF ok1] ctx E i ty n] by blast
  have "de_id e \<notin> set (event_ids (w_db ?w2))" using fresh eid by simp
  from unit_of_work_run [OF ok2 E this, of ?r "Some (so_revision latest)"] li lr
  obtain a w' where u: "bind_unit_of_work E ?r (Some (so_revision latest)) e ?w2 = (Inr (?r, a), w')"
    and t: "w_ticks w' = Suc (w_ticks ?w2)" "event_ids (w_db w') = event_ids (w_db ?w2) @ [de_id e]"
    by (auto simp: next_revision_def)
  have d: "dget_str (so_body latest) ''status'' = Inr s"
    unfolding dget_str_status using st by (simp add: latest_def)
  have "transition_claim E ctx i to ty ev vs extra w = (Inr ?r, w')"
    unfolding transition_claim_def case_prod_beta
    using g d can rul gate fb v e u unfolding latest_def [symmetric]
    by (cases "to = ''supported''")
      (simp_all add: bindp_def lift_run ret_run now_run Let_def assert_transition_def del: dget_str_Inr
        cong: if_weak_cong)
  with t eid show ?thesis by auto
qed

text \<open>The moves that assert nothing about the Claim's ceiling.\<close>

lemma plain_transition_run:
  assumes "world_ok E w" "ctx_ok ctx" "env_total E"
    and "event_id_at E (Suc (w_ticks w)) \<notin> set (event_ids (w_db w))"
    and "is_valid_urn i" "history_of (w_db w) i \<noteq> []"
    and "status_of (last (history_of (w_db w) i)) = Some s"
    and "can_transition CLAIM_LIFECYCLE s to" "non_empty ty"
    and "to \<notin> ceiling_asserting_statuses" "to \<noteq> ''supported''"
  shows "\<exists>r w'. transition_claim E ctx i to ty ev vs extra w = (Inr r, w') \<and>
    w_ticks w' = w_ticks w + 3 \<and>
    event_ids (w_db w') = event_ids (w_db w) @ [event_id_at E (Suc (w_ticks w))]"
  by (rule transition_run [OF assms(1-9),
      where body = "dset ''status'' (JStr to) (so_body (last (history_of (w_db w) i)))"])
    (use assms(10,11) in \<open>simp_all add: ret_run\<close>)

lemma create_claim_run:
  assumes ok: "world_ok E w" and ctx: "ctx_ok ctx" and E: "env_total E"
    and fresh: "event_id_at E (w_ticks w) \<notin> set (event_ids (w_db w))"
    and c: "cl_status c = sm_initial CLAIM_LIFECYCLE" "cl_revision c = 1" "is_valid_urn (cl_id c)"
    and new: "history_of (w_db w) (cl_id c) = []"
  shows "\<exists>w'. create_claim E ctx c w = (Inr (claim_to_stored_object c), w') \<and> w_ticks w' = w_ticks w + 3 \<and>
    event_ids (w_db w') = event_ids (w_db w) @ [event_id_at E (w_ticks w)]"
proof -
  let ?p = "[(''claim_type'', JStr (cl_claim_type c)), (''status'', JStr (cl_status c))]"
  let ?w2 = "w\<lparr>w_ticks := Suc (Suc (w_ticks w))\<rparr>"
  have ty: "non_empty ''claim.created''" by (simp add: non_empty_def is_space_def)
  define e where "e = \<lparr>de_id = event_id_at E (w_ticks w), de_event_type = ''claim.created'',
    de_occurred_at = env_now E (Suc (w_ticks w)), de_actor = cx_actor ctx,
    de_policy_version = cx_policy_version ctx, de_causation_id = None,
    de_correlation_id = cx_correlation_id ctx, de_object_id = cl_id c, de_object_revision = 1,
    de_payload = ?p\<rparr>"
  have u: "ulid_ok (env_ulid E (w_ticks w))" using E by (simp add: env_total_def)
  have eo: "event_ok e" using ctx c ty u by (simp add: event_ok_def e_def ctx_ok_def event_id_at_def)
  have e: "make_event E ctx ''claim.created'' (now E) (ret None) (cl_id c) 1 ?p w = (Inr e, ?w2)"
    using eo by (simp add: make_event_def bindp_def new_urn_run now_run ret_run lift_run
        new_domain_event_def e_def event_id_at_def)
  have ok2: "world_ok E ?w2" using ok by simp
  have "de_id e \<notin> set (event_ids (w_db ?w2))" using fresh by (simp add: e_def)
  moreover have "so_revision (claim_to_stored_object c) = next_revision None"
    "current_revision (w_db ?w2) (so_id (claim_to_stored_object c)) = None"
    using c new by (simp_all add: claim_to_stored_object_def next_revision_def current_revision_def)
  ultimately obtain a w' where
    b: "bind_unit_of_work E (claim_to_stored_object c) None e ?w2 = (Inr (claim_to_stored_object c, a), w')"
    and t: "w_ticks w' = Suc (w_ticks ?w2)" "event_ids (w_db w') = event_ids (w_db ?w2) @ [de_id e]"
    using unit_of_work_run [OF ok2 E] by blast
  have "create_claim E ctx c w = (Inr (claim_to_stored_object c), w')"
    unfolding create_claim_def case_prod_beta
    using c e b by (simp add: bindp_def guardp_run ret_run)
  with t show ?thesis by (simp add: e_def)
qed

lemma write_edge_run:
  assumes ok: "world_ok E w" and ctx: "ctx_ok ctx" and E: "env_total E"
    and fresh: "event_id_at E (w_ticks w + 2) \<notin> set (event_ids (w_db w))"
    and ty: "ty \<in> EDGE_VOCABULARY" "non_empty et" and i: "is_valid_urn i"
    and ne: "history_of (w_db w) i \<noteq> []"
    and new: "urn_text ''edge'' (env_ulid E (Suc (w_ticks w))) \<notin> te_id ` set (edges_tbl (w_db w))"
  shows "\<exists>x w'. write_edge E ctx i tgt ty sc et w = (Inr x, w') \<and> w_ticks w' = w_ticks w + 4 \<and>
    event_ids (w_db w') = event_ids (w_db w) @ [event_id_at E (w_ticks w + 2)]"
proof -
  define latest where "latest = last (history_of (w_db w) i)"
  note oo = world_ok_parts(2) [OF ok]
  have g: "get_latest_or (ClaimNotFoundError i) i w = (Inr latest, w)"
    unfolding latest_def by (rule get_latest_or_run [OF oo ne])
  have n: "1 \<le> so_revision latest" using get_latest_or_Inr [OF oo g] ne by (auto simp: Suc_le_eq)
  let ?eid = "urn_text ''edge'' (env_ulid E (Suc (w_ticks w)))"
  let ?w2 = "w\<lparr>w_ticks := Suc (Suc (w_ticks w))\<rparr>" and ?w3 = "w\<lparr>w_ticks := Suc (Suc (Suc (w_ticks w)))\<rparr>"
  let ?x = "\<lparr>te_id = ?eid, te_source_id = i, te_target_id = tgt, te_edge_type = ty,
        te_created_at = env_now E (w_ticks w), te_created_by = cx_actor ctx, te_scope = sc,
        te_status = ''active'', te_practice_id = Some (so_practice_id latest)\<rparr>"
  have ok2: "world_ok E ?w2" and ok3: "world_ok E ?w3" using ok by simp_all
  obtain e where e: "make_event E ctx et (ret (env_now E (w_ticks w))) (last_event_id_for i) i (so_revision latest)
       [(''edge_id'', JStr ?eid), (''edge_type'', JStr ty), (''target_id'', JStr tgt)] ?w2 = (Inr e, ?w3)"
    and eid: "de_id e = event_id_at E (Suc (Suc (w_ticks w)))"
    using make_event_run [OF world_ok_parts(1) [OF ok2] ctx E i ty(2) n] by fastforce
  have "de_id e \<notin> set (event_ids (w_db ?w3))" using fresh by (simp add: eid)
  from edge_unit_of_work_run [OF ok3 E this, of ?x] ty(1) new
  obtain a w' where u: "bind_edge_unit_of_work E ?x e ?w3 = (Inr (?x, a), w')"
    and t: "w_ticks w' = Suc (w_ticks ?w3)" "event_ids (w_db w') = event_ids (w_db ?w3) @ [de_id e]"
    by auto
  have "write_edge E ctx i tgt ty sc et w = (Inr ?x, w')"
    unfolding write_edge_def case_prod_beta
    using g ty(1) e u by (simp add: bindp_def guardp_run ret_run now_run new_urn_run)
  with t eid show ?thesis by auto
qed

section \<open>Sample histories\<close>

definition sample_claim :: claim where
  "sample_claim = \<lparr>cl_id = sample_urn ''claim'', cl_api_version = ''mrr/v1alpha1'', cl_kind = ''Claim'',
     cl_practice_id = sample_urn ''practice'', cl_revision = 1, cl_created_at = 1700000000000000,
     cl_created_by = sample_urn ''human'', cl_content_hash = content_hash ''{}'', cl_supersedes = None,
     cl_labels = None, cl_claim_type = ''descriptive'', cl_status = ''draft'',
     cl_dump = [(''status'', JStr ''draft''), (''claim_type'', JStr ''descriptive'')]\<rparr>"

lemma claim_instance_sample [simp]: "claim_instance sample_claim"
  by (simp add: claim_instance_def sample_claim_def)

text \<open>The world after the sample Claim was created.\<close>

definition created_world :: world where
  "created_world = run_call sample_env sample_ctx (Create sample_claim) empty_world"

lemma created_world:
  shows "claim_reach sample_env created_world" and "inv sample_env created_world"
    and "w_ticks created_world = 3" and "event_ids (w_db created_world) = [event_id_at sample_env 0]"
    and "edges_tbl (w_db created_world) = []"
    and "objects_tbl (w_db created_world) = [claim_to_stored_object sample_claim]"
proof -
  have c: "cl_status sample_claim = sm_initial CLAIM_LIFECYCLE" "cl_revision sample_claim = 1"
    "is_valid_urn (cl_id sample_claim)" "event_id_at sample_env (w_ticks empty_world) \<notin> set (event_ids (w_db empty_world))"
    "history_of (w_db empty_world) (cl_id sample_claim) = []"
    by (simp_all add: sample_claim_def initial_states empty_world_def empty_db_def event_ids_def history_of_def)
  obtain w' where run: "create_claim sample_env sample_ctx sample_claim empty_world =
      (Inr (claim_to_stored_object sample_claim), w')" and t: "w_ticks w' = w_ticks empty_world + 3"
      "event_ids (w_db w') = event_ids (w_db empty_world) @ [event_id_at sample_env (w_ticks empty_world)]"
    using create_claim_run [OF world_ok_empty ctx_ok_sample env_total_sample c(4) c(1-3) c(5)] by blast
  have w': "created_world = w'" by (simp add: created_world_def run)
  obtain e where com: "committed sample_env [claim_to_stored_object sample_claim] [] e empty_world w'"
    using create_claim_Inr [OF world_ok_empty run] by blast
  note tb = committed_tables [OF com]
  show r: "claim_reach sample_env created_world"
    unfolding created_world_def by (rule claim_reach.call [OF claim_reach.start]) simp
  show "inv sample_env created_world" by (rule claim_reach_inv [OF r])
  show "w_ticks created_world = 3" "event_ids (w_db created_world) = [event_id_at sample_env 0]"
    "edges_tbl (w_db created_world) = []"
    "objects_tbl (w_db created_world) = [claim_to_stored_object sample_claim]"
    using t tb by (simp_all add: w' empty_world_def empty_db_def event_ids_def)
qed

lemma created_world_claim:
  "history_of (w_db created_world) (sample_urn ''claim'') = [claim_to_stored_object sample_claim]"
  "status_of (claim_to_stored_object sample_claim) = Some ''draft''"
  "is_claim (w_db created_world) (sample_urn ''claim'')"
  by (simp_all add: history_of_def created_world(6) claim_to_stored_object_def sample_claim_def
      status_of_Some is_claim_def)

text \<open>From there: an edge to a piece of evidence, then the submission for review.\<close>

lemma submitted_world:
  obtains w r x where "claim_reach sample_env w" and "inv sample_env w" and "w_ticks w = 10"
    and "event_ids (w_db w) = map (event_id_at sample_env) [0, 5, 8]"
    and "edges_tbl (w_db w) = [x]" and "te_source_id x = sample_urn ''claim''"
    and "te_target_id x = sample_urn ''evidence''" and "te_edge_type x = ''supports''"
    and "history_of (w_db w) (sample_urn ''claim'') = [claim_to_stored_object sample_claim, r]"
    and "status_of r = Some ''under_review''"
    and "map_of (so_body r) ''claim_type'' = Some (JStr ''descriptive'')"
proof -
  let ?i = "sample_urn ''claim''" and ?E = sample_env
  have ok1: "world_ok ?E created_world" using created_world(2) by (simp add: inv_def)
  have ev: "''supports'' \<in> EDGE_VOCABULARY" "''supports'' \<notin> GATED_EDGE_TYPES"
    "non_empty ''claim.evidence_edge_added''" "non_empty ''claim.submitted_for_review''"
    by (simp_all add: EDGE_VOCABULARY_def GATED_EDGE_TYPES_def non_empty_def is_space_def)
  have vi: "is_valid_urn ?i" by simp
  have f: "event_id_at ?E (w_ticks created_world + 2) \<notin> set (event_ids (w_db created_world))"
    by (simp add: created_world event_id_at_sample)
  have ne: "history_of (w_db created_world) ?i \<noteq> []" using created_world_claim by simp
  have nx: "urn_text ''edge'' (env_ulid ?E (Suc (w_ticks created_world))) \<notin> te_id ` set (edges_tbl (w_db created_world))"
    by (simp add: created_world)
  obtain x w2 where run2: "write_edge ?E sample_ctx ?i (sample_urn ''evidence'') ''supports'' None
      ''claim.evidence_edge_added'' created_world = (Inr x, w2)" and t2: "w_ticks w2 = w_ticks created_world + 4"
      "event_ids (w_db w2) = event_ids (w_db created_world) @ [event_id_at ?E (w_ticks created_world + 2)]"
    using write_edge_run [OF ok1 ctx_ok_sample env_total_sample f ev(1,3) vi ne nx] by blast
  have "run_call ?E sample_ctx (AddEvidenceEdge ?i (sample_urn ''evidence'') ''supports'' None) created_world = w2"
    using run2 ev(2) by (simp add: add_evidence_edge_def bindp_def lift_run reject_gated_edge_type_def)
  with claim_reach.call [OF created_world(1), of "AddEvidenceEdge ?i (sample_urn ''evidence'') ''supports'' None"]
  have r2: "claim_reach ?E w2" by simp metis
  obtain e2 where c2: "committed ?E [] [x] e2 created_world w2" and x: "te_source_id x = ?i"
    "te_target_id x = sample_urn ''evidence''" "te_edge_type x = ''supports''"
    using write_edge_Inr [OF ok1 run2] by blast
  note tb2 = committed_tables [OF c2]
  have h2: "history_of (w_db w2) ?i = [claim_to_stored_object sample_claim]"
    using created_world_claim(1) tb2(1) by (simp add: history_of_def)
  have f2: "event_id_at ?E (Suc (w_ticks w2)) \<notin> set (event_ids (w_db w2))"
    unfolding t2 by (simp add: created_world event_id_at_sample)
  have can: "can_transition CLAIM_LIFECYCLE ''draft'' ''under_review''" by (simp add: can_transition_def CLAIM_LIFECYCLE_def claim_transitions_def)
  obtain r w3 where run3: "transition_claim ?E sample_ctx ?i ''under_review'' ''claim.submitted_for_review'' None None [] w2
      = (Inr r, w3)" and t3: "w_ticks w3 = w_ticks w2 + 3"
      "event_ids (w_db w3) = event_ids (w_db w2) @ [event_id_at ?E (Suc (w_ticks w2))]"
    using plain_transition_run [OF tb2(3) ctx_ok_sample env_total_sample f2 vi _ _ can ev(4), of None None "[]"]
      h2 created_world_claim(2) by (auto simp: ceiling_asserting_statuses_def)
  have r3: "claim_reach ?E w3"
    using claim_reach.call [OF r2, of "SubmitForReview ?i" sample_ctx] run3 by (simp add: submit_for_review_def)
  obtain e3 l where c3: "committed ?E [r] [] e3 w2 w3" and r: "so_id r = ?i" "status_of r = Some ''under_review''"
    and l: "l = last (history_of (w_db w2) ?i)" "map_of (so_body r) ''claim_type'' = map_of (so_body l) ''claim_type''"
    using transition_claim_Inr [OF tb2(3) run3] by (elim exE conjE) (rule that)
  have ct: "map_of (so_body r) ''claim_type'' = Some (JStr ''descriptive'')"
    using l h2 by (simp add: claim_to_stored_object_def sample_claim_def)
  show thesis
  proof (rule that [OF r3 claim_reach_inv [OF r3]])
    show "w_ticks w3 = 10" using t3 t2 created_world by simp
    show "event_ids (w_db w3) = map (event_id_at sample_env) [0, 5, 8]" using t3 t2 created_world by simp
    show "edges_tbl (w_db w3) = [x]" using committed_tables(2) [OF c3] tb2(2) created_world(5) by simp
    show "history_of (w_db w3) ?i = [claim_to_stored_object sample_claim, r]"
      using history_of_committed [OF c3 r(1)] h2 by simp
  qed (use x r ct in simp_all)
qed

text \<open>And the support of the Claim by that evidence.\<close>

lemma supported_run:
  obtains w r w' where "claim_reach sample_env w" and "is_claim (w_db w) (sample_urn ''claim'')"
    and "to_supported sample_env sample_ctx (sample_urn ''claim'') [sample_urn ''evidence'']
           [sample_urn ''verification''] w = (Inr r, w')"
proof -
  let ?i = "sample_urn ''claim''" and ?E = sample_env
  obtain w r x where w: "claim_reach ?E w" "inv ?E w" "w_ticks w = 10"
      "event_ids (w_db w) = map (event_id_at ?E) [0, 5, 8]"
    and x: "edges_tbl (w_db w) = [x]" "te_source_id x = ?i" "te_target_id x = sample_urn ''evidence''"
      "te_edge_type x = ''supports''"
    and h: "history_of (w_db w) ?i = [claim_to_stored_object sample_claim, r]"
      "status_of r = Some ''under_review''" and ct: "map_of (so_body r) ''claim_type'' = Some (JStr ''descriptive'')"
    by (rule submitted_world)
  have ok: "world_ok ?E w" using w(2) by (simp add: inv_def)
  have oo: "objects_ok (w_db w)" by (rule world_ok_parts(2) [OF ok])
  have rc: "last (history_of (w_db w) ?i) = r" using h by simp
  have f: "event_id_at ?E (Suc (w_ticks w)) \<notin> set (event_ids (w_db w))"
    unfolding w(3,4) by (simp add: event_id_at_sample)
  have can: "can_transition CLAIM_LIFECYCLE ''under_review'' ''supported''"
    by (simp add: can_transition_def CLAIM_LIFECYCLE_def claim_transitions_def)
  have ef: "edges_from ?i (Some ''ruled_by'') w = (Inr [], w)" "edges_from ?i (Some ''supports'') w = (Inr [x], w)"
    using x by (simp_all add: edges_from_def edges_by_def asks_run)
  have rul: "check_rulings ?i r w = (Inr (), w)"
    using ct ef(1) by (simp add: check_rulings_def bindp_def lift_run ret_run dget_str_def dget_def)
  let ?b = "dset ''status'' (JStr ''supported'') (so_body r)"
  let ?b' = "dset ''verification_ids'' (JArr (map JStr [sample_urn ''verification'']))
     (dset ''evidence_relations'' (JArr (map JStr [sample_urn ''evidence''])) ?b)"
  have gate: "support_gate ?i (Some [sample_urn ''evidence'']) (Some [sample_urn ''verification'']) ?b w = (Inr ?b', w)"
    using ef(2) x(3) by (simp add: support_gate_def bindp_def guardp_run ret_run)
  have val: "''supported'' = ''supported'' \<Longrightarrow> finish_body ?E n t (cx_actor sample_ctx) ?b' = Inr (hh, b) \<Longrightarrow>
      claim_model_validate ?E b = Inr ()" for hh b n t
  proof -
    assume that: "finish_body ?E n t (cx_actor sample_ctx) ?b' = Inr (hh, b)"
    show ?thesis
    using finish_body_Inr(5) [OF that, of "''evidence_relations''"] finish_body_Inr(5) [OF that, of "''verification_ids''"]
    by (simp add: claim_model_validate_def non_empty_list_def sample_env_def)
  qed
  have ne: "history_of (w_db w) ?i \<noteq> []" and ty: "non_empty ''claim.supported''" and vi: "is_valid_urn ?i"
    using h by (simp_all add: non_empty_def is_space_def)
  have stat: "status_of (last (history_of (w_db w) ?i)) = Some ''under_review''"
    and rul': "(if ''supported'' \<in> ceiling_asserting_statuses
               then check_rulings ?i (last (history_of (w_db w) ?i)) else ret ()) w = (Inr (), w)"
    and gate': "(if ''supported'' = ''supported''
               then support_gate ?i (Some [sample_urn ''evidence'']) (Some [sample_urn ''verification''])
                 (dset ''status'' (JStr ''supported'') (so_body (last (history_of (w_db w) ?i))))
               else ret (dset ''status'' (JStr ''supported'') (so_body (last (history_of (w_db w) ?i))))) w =
             (Inr ?b', w)"
    unfolding rc using h(2) rul gate by (simp_all add: ret_run)
  obtain r' w' where "transition_claim ?E sample_ctx ?i ''supported'' ''claim.supported''
      (Some [sample_urn ''evidence'']) (Some [sample_urn ''verification'']) [] w = (Inr r', w')"
    using transition_run [OF ok ctx_ok_sample env_total_sample f vi ne stat can ty rul' gate',
        of "[]"] val by blast
  moreover have "claim_to_stored_object sample_claim \<in> set (history_of (w_db w) ?i)" using h(1) by simp
  then have "is_claim (w_db w) ?i"
    unfolding is_claim_def history_of_def
    by (intro bexI [of _ "claim_to_stored_object sample_claim"])
      (simp_all add: claim_to_stored_object_def sample_claim_def)
  ultimately show thesis using that [OF w(1)] by (simp add: to_supported_def)
qed

lemma supported_world:
  obtains w r where "claim_reach sample_env w" and "r \<in> set (objects_tbl (w_db w))"
    and "so_kind r = ''Claim''" and "status_of r = Some ''supported''"
proof -
  obtain w r w' where w: "claim_reach sample_env w" and ic: "is_claim (w_db w) (sample_urn ''claim'')"
    and run: "to_supported sample_env sample_ctx
      (sample_urn ''claim'') [sample_urn ''evidence''] [sample_urn ''verification''] w = (Inr r, w')"
    by (rule supported_run)
  have i: "inv sample_env w" by (rule claim_reach_inv [OF w])
  then have ok: "world_ok sample_env w" by (simp add: inv_def)
  have r': "claim_reach sample_env w'"
    using claim_reach.call [OF w, of "ToSupported (sample_urn ''claim'') [sample_urn ''evidence'']
      [sample_urn ''verification'']" sample_ctx] run by simp
  obtain e l where c: "committed sample_env [r] [] e w w'" and st: "status_of r = Some ''supported''"
    and k: "so_kind r = so_kind l" "l = last (history_of (w_db w) (sample_urn ''claim''))"
      "history_of (w_db w) (sample_urn ''claim'') \<noteq> []"
    using transition_claim_Inr [OF ok run [unfolded to_supported_def]] by (elim exE conjE) (rule that)
  have "claims_ok (w_db w)" using i by (simp add: inv_def)
  with ic have "\<forall>q \<in> set (history_of (w_db w) (sample_urn ''claim'')). so_kind q = ''Claim''"
    unfolding claims_ok_def claim_lifecycle_ok_def by blast
  then have kk: "so_kind r = ''Claim''" using k by simp
  have "r \<in> set (objects_tbl (w_db w'))" using committed_tables(1) [OF c] by simp
  from that [OF r' this kk st] show thesis .
qed

text \<open>
  A stored decision of another service, then the kill condition it licenses.
\<close>

definition sample_decision :: stored_object where
  "sample_decision = \<lparr>so_id = sample_urn ''decision'', so_api_version = ''mrr/v1alpha1'',
     so_kind = ''ResearchDecision'', so_practice_id = sample_urn ''practice'', so_revision = 1,
     so_created_at = 1700000000000000, so_created_by = sample_urn ''human'',
     so_content_hash = content_hash ''{}'', so_supersedes = None, so_labels = None,
     so_body = [(''decision_type'', JStr ''kill_branch'')]\<rparr>"

definition sample_decision_event :: domain_event where
  "sample_decision_event = sample_event\<lparr>de_id := event_id_at sample_env 40,
     de_object_id := sample_urn ''decision'', de_object_revision := 1\<rparr>"

lemma entity_ok_decision [simp]: "entity_ok ''decision''"
  by (simp add: entity_ok_def entity_char_def less_eq_char_def)

lemma sample_decision_event_ok: "event_ok sample_decision_event"
  by (simp add: event_ok_def sample_decision_event_def sample_event_def non_empty_def is_space_def
      event_id_at_def sample_env_def)

lemma decided_world:
  obtains w where "claim_reach sample_env w" and "world_ok sample_env w" and "w_ticks w = 4"
    and "event_ids (w_db w) = map (event_id_at sample_env) [0, 40]" and "edges_tbl (w_db w) = []"
    and "objects_tbl (w_db w) = [claim_to_stored_object sample_claim, sample_decision]"
proof -
  let ?E = sample_env and ?w = created_world
  have ok: "world_ok ?E ?w" and j: "journaled (w_db ?w)" using created_world(2) by (simp_all add: inv_def)
  have fresh: "de_id sample_decision_event \<notin> set (event_ids (w_db ?w))"
    by (simp add: created_world sample_decision_event_def event_id_at_sample)
  have neq: "sample_urn ''decision'' \<noteq> sample_urn ''claim''" by (simp add: sample_urn_def urn_text_def)
  have new: "so_revision sample_decision = next_revision None"
    "current_revision (w_db ?w) (so_id sample_decision) = None"
    using neq by (simp_all add: sample_decision_def next_revision_def current_revision_def history_of_def
        created_world(6) claim_to_stored_object_def sample_claim_def)
  obtain a w' where run: "bind_unit_of_work ?E sample_decision None sample_decision_event ?w =
      (Inr (sample_decision, a), w')" and t: "w_ticks w' = Suc (w_ticks ?w)"
      "event_ids (w_db w') = event_ids (w_db ?w) @ [de_id sample_decision_event]"
    using unit_of_work_run [OF ok env_total_sample fresh new] by blast
  have c: "committed ?E [sample_decision] [] sample_decision_event ?w w'"
    using unit_of_work_Inr [OF ok sample_decision_event_ok run] by blast
  note tb = committed_tables [OF c]
  have "announces sample_decision_event [sample_decision]"
    by (simp add: announces_def sample_decision_event_def sample_decision_def)
  from committed_journaled [OF c j this] have j': "journaled (w_db w')" .
  have "other_write ?E ?w w'"
    unfolding other_write_def
  proof (intro conjI exI)
    show "edges_tbl (w_db w') = edges_tbl (w_db ?w) @ []" using tb by simp
    show "\<forall>r \<in> set [sample_decision]. so_kind r \<noteq> ''Claim'' \<and> \<not> is_claim (w_db ?w) (so_id r)"
      using neq by (simp add: sample_decision_def is_claim_def created_world(6) claim_to_stored_object_def
          sample_claim_def)
  qed (use tb j' in simp_all)
  then have "claim_reach ?E w'" by (rule claim_reach.other [OF created_world(1)])
  then show thesis
    by (rule that) (use t tb created_world in \<open>simp_all add: sample_decision_event_def\<close>)
qed

lemma killed_world:
  obtains w e where "claim_reach sample_env w" and "e \<in> set (edges_tbl (w_db w))"
    and "te_edge_type e = ''decided_by''"
proof -
  let ?i = "sample_urn ''claim''" and ?d = "sample_urn ''decision''" and ?E = sample_env
  obtain w where w: "claim_reach ?E w" "world_ok ?E w" "w_ticks w = 4"
    "event_ids (w_db w) = map (event_id_at ?E) [0, 40]" "edges_tbl (w_db w) = []"
    "objects_tbl (w_db w) = [claim_to_stored_object sample_claim, sample_decision]"
    by (rule decided_world)
  have neq: "?d \<noteq> ?i" by (simp add: sample_urn_def urn_text_def)
  have h: "history_of (w_db w) ?i = [claim_to_stored_object sample_claim]"
    "history_of (w_db w) ?d = [sample_decision]"
    using neq by (simp_all add: history_of_def w(6) claim_to_stored_object_def sample_claim_def sample_decision_def)
  note oo = world_ok_parts(2) [OF w(2)]
  have g: "get_latest ?d w = (Inr sample_decision, w)" by (simp add: get_latest_run [OF oo] h last_opt_def)
  have lic: "assert_licenses_kill ?d (so_kind sample_decision) (map_of (so_body sample_decision) ''decision_type'') = Inr ()"
    by (simp add: sample_decision_def)
  have s: "''draft'' \<in> claim_states" "''draft'' \<notin> claim_terminal_states" "''withdrawn'' \<in> claim_terminal_states"
    "''withdrawn'' \<notin> ceiling_asserting_statuses" "''withdrawn'' \<noteq> ''supported''"
    "non_empty ''claim.kill_condition_triggered''" "non_empty ''claim.kill_decision_recorded''"
    "''decided_by'' \<in> EDGE_VOCABULARY"
    by (simp_all add: claim_states_def claim_terminal_states_def ceiling_asserting_statuses_def non_empty_def
        is_space_def EDGE_VOCABULARY_def)
  have f: "event_id_at ?E (Suc (w_ticks w)) \<notin> set (event_ids (w_db w))"
    unfolding w(3,4) by (simp add: event_id_at_sample)
  have vi: "is_valid_urn ?i" and ne: "history_of (w_db w) ?i \<noteq> []"
    and st: "status_of (last (history_of (w_db w) ?i)) = Some ''draft''"
    using h created_world_claim(2) by simp_all
  let ?x = "[(''code'', JStr ''KILL_CONDITION_TRIGGERED''), (''research_decision_id'', JStr ?d)]"
  obtain r w2 where t: "transition_claim ?E sample_ctx ?i ''withdrawn'' ''claim.kill_condition_triggered''
      None None ?x w = (Inr r, w2)" and t2: "w_ticks w2 = w_ticks w + 3"
      "event_ids (w_db w2) = event_ids (w_db w) @ [event_id_at ?E (Suc (w_ticks w))]"
    using plain_transition_run [OF w(2) ctx_ok_sample env_total_sample f vi ne st
        claim_to_terminal [OF s(1-3)] s(6,4,5)] by blast
  obtain e where c: "committed ?E [r] [] e w w2" and ri: "so_id r = ?i"
    using transition_claim_Inr [OF w(2) t] by (elim exE conjE) (rule that)
  note tb = committed_tables [OF c]
  have ne2: "history_of (w_db w2) ?i \<noteq> []" using history_of_committed [OF c ri] by simp
  have f2: "event_id_at ?E (w_ticks w2 + 2) \<notin> set (event_ids (w_db w2))"
    unfolding t2 w(3,4) by (simp add: event_id_at_sample)
  have nx: "urn_text ''edge'' (env_ulid ?E (Suc (w_ticks w2))) \<notin> te_id ` set (edges_tbl (w_db w2))"
    using tb(2) w(5) by simp
  obtain x w3 where x: "write_edge ?E sample_ctx ?i ?d ''decided_by'' None ''claim.kill_decision_recorded'' w2 = (Inr x, w3)"
    using write_edge_run [OF tb(3) ctx_ok_sample env_total_sample f2 s(8,7) vi ne2 nx] by blast
  obtain e3 where c3: "committed ?E [] [x] e3 w2 w3" and xt: "te_edge_type x = ''decided_by''"
    using write_edge_Inr [OF tb(3) x] by blast
  have "apply_kill_condition ?E sample_ctx ?i ?d w = (Inr (r, x), w3)"
    using g lic t x by (simp add: apply_kill_condition_def bindp_def lift_run ret_run assert_licenses_kill_def
        del: assert_licenses_kill_Inr)
  then have "claim_reach ?E w3"
    using claim_reach.call [OF w(1), of "ApplyKillCondition ?i ?d" sample_ctx] by simp
  moreover have "x \<in> set (edges_tbl (w_db w3))" using committed_tables(2) [OF c3] by simp
  ultimately show thesis using xt by (rule that)
qed

section \<open>Properties\<close>

text \<open>
  C1. Claims never leave their lifecycle: in every world that calls of the Claim service
  (successful or not, in any order and with any arguments) and writes of other services that
  revise no Claim can reach from the empty database, the revisions of every Claim are numbered 1,
  2, 3 and so on, are all of kind Claim, their statuses form an enforced history of the Claim
  lifecycle from \<^verbatim>\<open>draft\<close>, and every stored revision is named by an event of the hash chain, which
  verifies. The condition on the other services is needed: they find an object by its id alone, and
  \<open>Addressing\<close> shows one that accepts a draft Claim.
\<close>

theorem claims_follow_lifecycle:
  assumes "claim_reach E w" and "is_claim (w_db w) i"
  shows "map so_revision (history_of (w_db w) i) = [1..int (length (history_of (w_db w) i))] \<and>
    (\<exists>ss. map status_of (history_of (w_db w) i) = map Some ss \<and> history CLAIM_LIFECYCLE ss) \<and>
    (\<forall>r \<in> set (history_of (w_db w) i). so_kind r = ''Claim'' \<and>
       (\<exists>a \<in> set (domain_events_tbl (w_db w)). de_object_id (ae_event a) = i \<and>
          de_object_revision (ae_event a) = so_revision r)) \<and>
    verify_chain E w = (Inr (), w)"
proof -
  have inv: "world_ok E w" "claims_ok (w_db w)" "journaled (w_db w)"
    using claim_reach_inv [OF assms(1)] by (simp_all add: inv_def)
  have "map so_revision (history_of (w_db w) i) = [1..int (length (history_of (w_db w) i))]"
    using world_ok_parts(2) [OF inv(1)] by (simp add: objects_ok_def)
  moreover from inv(2) assms(2) have "(\<forall>r \<in> set (history_of (w_db w) i). so_kind r = ''Claim'') \<and>
      (\<exists>ss. map status_of (history_of (w_db w) i) = map Some ss \<and> history CLAIM_LIFECYCLE ss)"
    by (simp add: claims_ok_def claim_lifecycle_ok_def)
  moreover have "\<exists>a \<in> set (domain_events_tbl (w_db w)). de_object_id (ae_event a) = i \<and>
      de_object_revision (ae_event a) = so_revision r" if "r \<in> set (history_of (w_db w) i)" for r
    using inv(3) that by (auto simp: journaled_def history_of_def)
  ultimately show ?thesis using verify_chain_run [OF world_ok_parts(1) [OF inv(1)]] by blast
qed

theorem claims_follow_lifecycle_witness:
  "\<exists>ss. map status_of (history_of (w_db created_world) (sample_urn ''claim'')) = map Some ss \<and>
     history CLAIM_LIFECYCLE ss"
  using claims_follow_lifecycle [OF created_world(1) created_world_claim(3)] by blast

text \<open>
  C2. No stored Claim is supported without evidence: in every reachable world each Claim
  revision with status \<^verbatim>\<open>supported\<close> names at least one piece of evidence and at least one
  verification, and from the Claim there is a typed \<^verbatim>\<open>supports\<close> edge to each piece of evidence
  it names.
\<close>

theorem supported_claims_have_evidence:
  assumes "claim_reach E w" and "r \<in> set (objects_tbl (w_db w))" and "so_kind r = ''Claim''"
    and "status_of r = Some ''supported''"
  shows "\<exists>evidence verifications. evidence \<noteq> [] \<and> verifications \<noteq> [] \<and>
    map_of (so_body r) ''evidence_relations'' = Some (JArr (map JStr evidence)) \<and>
    map_of (so_body r) ''verification_ids'' = Some (JArr (map JStr verifications)) \<and>
    (\<forall>u \<in> set evidence. \<exists>e \<in> set (edges_tbl (w_db w)).
       te_source_id e = so_id r \<and> te_target_id e = u \<and> te_edge_type e = ''supports'')"
  using claim_reach_inv [OF assms(1)] assms(2-4)
  unfolding inv_def claims_ok_def supported_ok_def well_supported_def support_edge_def by blast

theorem supported_claims_have_evidence_witness:
  "\<exists>w r evidence. claim_reach sample_env w \<and> r \<in> set (objects_tbl (w_db w)) \<and>
     status_of r = Some ''supported'' \<and> evidence \<noteq> [] \<and>
     map_of (so_body r) ''evidence_relations'' = Some (JArr (map JStr evidence))"
proof -
  obtain w r where w: "claim_reach sample_env w" "r \<in> set (objects_tbl (w_db w))" "so_kind r = ''Claim''"
    "status_of r = Some ''supported''"
    by (rule supported_world)
  from supported_claims_have_evidence [OF w] w show ?thesis by blast
qed

text \<open>
  C8. The gated edges carry their licence: in every reachable world a \<^verbatim>\<open>decided_by\<close> edge
  starts at an object with a withdrawn revision and ends at a ResearchDecision that decided
  \<^verbatim>\<open>kill_branch\<close>, and a \<^verbatim>\<open>ruled_by\<close> edge ends at a ruling whose protocol and profile are
  stored and whose ceiling admits the claim type of its source. No sequence of calls, the
  generic edge methods with an edge type of the caller's choice included, gets around this.
\<close>

theorem gated_edges_are_licensed:
  assumes "claim_reach E w" and "e \<in> set (edges_tbl (w_db w))"
  shows "(te_edge_type e = ''decided_by'' \<longrightarrow> kill_edge_ok (w_db w) e) \<and>
         (te_edge_type e = ''ruled_by'' \<longrightarrow> ruling_edge_ok (w_db w) e)"
  using claim_reach_inv [OF assms(1)] assms(2)
  unfolding inv_def claims_ok_def gated_edges_ok_def by blast

theorem gated_edges_are_licensed_witness:
  "\<exists>w e. claim_reach sample_env w \<and> e \<in> set (edges_tbl (w_db w)) \<and> te_edge_type e = ''decided_by'' \<and>
     kill_edge_ok (w_db w) e"
proof -
  obtain w e where w: "claim_reach sample_env w" "e \<in> set (edges_tbl (w_db w))" "te_edge_type e = ''decided_by''"
    by (rule killed_world)
  from gated_edges_are_licensed [OF w(1,2)] w show ?thesis by blast
qed

text \<open>
  The headline gate: \<^verbatim>\<open>to_supported\<close> either raises and leaves every table as it was, or
  adds one revision with status \<^verbatim>\<open>supported\<close> to a Claim under review. It returns only if
  both lists are non-empty, each piece of evidence has its \<^verbatim>\<open>supports\<close> edge already, and every
  ruling attached to the Claim admits the Claim's type under its profile at that moment.
\<close>

lemma to_supported_gate:
  assumes "world_ok E w"
  shows "case to_supported E ctx i evidence verifications w of
      (Inl x, w') \<Rightarrow> w_db w' = w_db w
    | (Inr r, w') \<Rightarrow> evidence \<noteq> [] \<and> verifications \<noteq> [] \<and>
        (\<forall>u \<in> set evidence. support_edge (w_db w) i u) \<and>
        status_of (last (history_of (w_db w) i)) = Some ''under_review'' \<and>
        rulings_admit w i (last (history_of (w_db w) i)) \<and>
        history_of (w_db w') i = history_of (w_db w) i @ [r] \<and> status_of r = Some ''supported'' \<and>
        well_supported (w_db w') r \<and> edges_tbl (w_db w') = edges_tbl (w_db w) \<and> world_ok E w'"
proof -
  obtain q w' where run: "to_supported E ctx i evidence verifications w = (q, w')" by fastforce
  note run' = run [unfolded to_supported_def]
  show ?thesis
  proof (cases q)
    case (Inl x)
    with run' transition_aon have "same_db w w'" unfolding all_or_nothing_def by blast
    with run Inl show ?thesis by (simp add: same_db_def)
  next
    case (Inr r)
    have to: "''supported'' \<in> ceiling_asserting_statuses" by (simp add: ceiling_asserting_statuses_def)
    obtain e latest frm where c: "committed E [r] [] e w w'"
      and l: "latest = last (history_of (w_db w) i)" and ri: "so_id r = i" "status_of r = Some ''supported''"
      and st: "status_of latest = Some frm" "can_transition CLAIM_LIFECYCLE frm ''supported''"
      and sup: "''supported'' = ''supported'' \<longrightarrow> (\<exists>ev vs.
       Some evidence = Some ev \<and> Some verifications = Some vs \<and> ev \<noteq> [] \<and> vs \<noteq> [] \<and>
       map_of (so_body r) ''evidence_relations'' = Some (JArr (map JStr ev)) \<and>
       map_of (so_body r) ''verification_ids'' = Some (JArr (map JStr vs)) \<and>
       (\<forall>u \<in> set ev. \<exists>e \<in> set (edges_tbl (w_db w)).
          te_source_id e = i \<and> te_target_id e = u \<and> te_edge_type e = ''supports''))"
      using transition_claim_Inr [OF assms run' [unfolded Inr]] by (elim exE conjE) (rule that)
    from sup have full: "evidence \<noteq> []" "verifications \<noteq> []"
       "map_of (so_body r) ''evidence_relations'' = Some (JArr (map JStr evidence))"
       "map_of (so_body r) ''verification_ids'' = Some (JArr (map JStr verifications))"
       and ev: "\<forall>u \<in> set evidence. support_edge (w_db w) i u"
      unfolding support_edge_def by auto
    have ws: "well_supported (w_db w) r"
      unfolding well_supported_def ri(1)
      by (rule exI [of _ evidence], rule exI [of _ verifications]) (use full ev in blast)
    note t = committed_tables [OF c]
    have "well_supported (w_db w') r" by (rule grown_rows(2) [OF grown_committed [OF c] ws])
    then show ?thesis
      using run Inr full(1,2) ev st l ri t history_of_committed [OF c ri(1)] claim_into_supported
        transition_rulings [OF assms to run' [unfolded Inr]]
      by simp
  qed
qed

lemma to_supported_gate_witness:
  "\<exists>w r w'. to_supported sample_env sample_ctx (sample_urn ''claim'') [sample_urn ''evidence'']
       [sample_urn ''verification''] w = (Inr r, w') \<and>
     support_edge (w_db w) (sample_urn ''claim'') (sample_urn ''evidence'') \<and> well_supported (w_db w') r"
proof -
  obtain w r w' where w: "claim_reach sample_env w" and ic: "is_claim (w_db w) (sample_urn ''claim'')"
    and run: "to_supported sample_env sample_ctx
      (sample_urn ''claim'') [sample_urn ''evidence''] [sample_urn ''verification''] w = (Inr r, w')"
    by (rule supported_run)
  have ok: "world_ok sample_env w" using claim_reach_inv [OF w] by (simp add: inv_def)
  from to_supported_gate [OF ok, where ctx = sample_ctx and i = "sample_urn ''claim''"
      and evidence = "[sample_urn ''evidence'']" and verifications = "[sample_urn ''verification'']", unfolded run] run
  show ?thesis by auto
qed

text \<open>
  Withdrawal is always available: in a well-formed world, for a stored object whose
  latest status is a non-terminal Claim status, \<^verbatim>\<open>withdraw\<close> returns and the object's latest
  revision is withdrawn, provided the caller passes well-formed identifiers, the canonicalizer
  accepts its input and the id generator gives well-formed ids that are not taken.
\<close>

lemma withdraw_available:
  assumes ok: "world_ok E w" and "ctx_ok ctx" and "env_total E"
    and "event_id_at E (Suc (w_ticks w)) \<notin> set (event_ids (w_db w))"
    and "is_valid_urn i" and "history_of (w_db w) i \<noteq> []"
    and "status_of (last (history_of (w_db w) i)) = Some s"
    and "s \<in> claim_states" "s \<notin> claim_terminal_states"
  shows "\<exists>r w'. withdraw E ctx i w = (Inr r, w') \<and> world_ok E w' \<and> status_of r = Some ''withdrawn'' \<and>
    history_of (w_db w') i = history_of (w_db w) i @ [r]"
proof -
  have wt: "''withdrawn'' \<in> claim_terminal_states" "''withdrawn'' \<notin> ceiling_asserting_statuses"
    "''withdrawn'' \<noteq> ''supported''" "non_empty ''claim.withdrawn''"
    by (simp_all add: claim_terminal_states_def ceiling_asserting_statuses_def non_empty_def is_space_def)
  have can: "can_transition CLAIM_LIFECYCLE s ''withdrawn''"
    by (rule claim_to_terminal [OF assms(8,9) wt(1)])
  obtain r w' where run: "withdraw E ctx i w = (Inr r, w')"
    unfolding withdraw_def using plain_transition_run [OF assms(1-7) can wt(4,2,3)] by blast
  obtain e where c: "committed E [r] [] e w w'" and r: "so_id r = i" "status_of r = Some ''withdrawn''"
    using transition_claim_Inr [OF ok run [unfolded withdraw_def]] by (elim exE conjE) (rule that)
  from history_of_committed [OF c r(1)] committed_tables(3) [OF c] r run show ?thesis by blast
qed

lemma withdraw_available_witness:
  "\<exists>r w'. withdraw sample_env sample_ctx (sample_urn ''claim'') created_world = (Inr r, w') \<and>
     status_of r = Some ''withdrawn''"
proof -
  have ok: "world_ok sample_env created_world" using created_world(2) by (simp add: inv_def)
  have f: "event_id_at sample_env (Suc (w_ticks created_world)) \<notin> set (event_ids (w_db created_world))"
    by (simp add: created_world event_id_at_sample)
  have vi: "is_valid_urn (sample_urn ''claim'')" by simp
  have h: "history_of (w_db created_world) (sample_urn ''claim'') \<noteq> []"
    "status_of (last (history_of (w_db created_world) (sample_urn ''claim''))) = Some ''draft''"
    using created_world_claim by simp_all
  have s: "''draft'' \<in> claim_states" "''draft'' \<notin> claim_terminal_states"
    by (simp_all add: claim_states_def claim_terminal_states_def)
  from withdraw_available [OF ok ctx_ok_sample env_total_sample f vi h s] show ?thesis by blast
qed

end
