(* ===== verification/Governed_Objects.thy ===== *)
theory Governed_Objects
  imports Service_Base
begin

text \<open>
  What the services over versioned objects share. Each of them creates revision 1 of an object
  in the initial state of its lifecycle and then adds one revision per transition: the latest
  revision's body with a new status, the bookkeeping fields and the hash of the finished body,
  written with its event in one transaction. The creation and the transition are one
  definition each, with the differences of the services (the gate before the write, the extra
  fields, the re-validation, the payload) as arguments. The locale \<open>governed_service\<close>
  states what a service owes for the kind of object it writes; every service is interpreted
  in it by the theory that models it.
\<close>

section \<open>Contract instances\<close>

text \<open>
  The fields of \<^verbatim>\<open>BaseObject\<close> of \<^verbatim>\<open>packages/contracts/mrr/contracts/common.py\<close>, and the JSON dump
  of the whole instance, \<^verbatim>\<open>json.loads(x.model_dump_json(exclude_none=True))\<close>.
\<close>

record base_object =
  bo_id :: urn
  bo_api_version :: string
  bo_kind :: string
  bo_practice_id :: urn
  bo_revision :: int
  bo_created_at :: instant
  bo_created_by :: urn
  bo_content_hash :: string
  bo_supersedes :: "urn option"
  bo_labels :: "dict option"
  bo_dump :: dict

record lifecycle_object = base_object +
  lo_status :: string

definition stored_of :: "'a base_object_scheme \<Rightarrow> stored_object" where
  "stored_of c =
     \<lparr>so_id = bo_id c, so_api_version = bo_api_version c, so_kind = bo_kind c,
      so_practice_id = bo_practice_id c, so_revision = bo_revision c,
      so_created_at = bo_created_at c, so_created_by = bo_created_by c,
      so_content_hash = bo_content_hash c, so_supersedes = bo_supersedes c,
      so_labels = bo_labels c, so_body = bo_dump c\<rparr>"

text \<open>The kind of a contract is a literal, and the dump shows the status.\<close>

definition lifecycle_instance :: "string \<Rightarrow> 'a lifecycle_object_scheme \<Rightarrow> bool" where
  "lifecycle_instance kind c \<longleftrightarrow>
     bo_kind c = kind \<and> map_of (bo_dump c) ''status'' = Some (JStr (lo_status c))"

lemma stored_of_fields [simp]:
  "so_id (stored_of c) = bo_id c" "so_kind (stored_of c) = bo_kind c"
  "so_revision (stored_of c) = bo_revision c" "so_body (stored_of c) = bo_dump c"
  "so_practice_id (stored_of c) = bo_practice_id c"
  "so_content_hash (stored_of c) = bo_content_hash c"
  by (simp_all add: stored_of_def)

lemma status_of_stored [simp]:
  "lifecycle_instance kind c \<Longrightarrow> status_of (stored_of c) = Some (lo_status c)"
  by (simp add: lifecycle_instance_def status_of_Some)

section \<open>The creation and the transition\<close>

definition create_object ::
  "env \<Rightarrow> call_ctx \<Rightarrow> stored_object \<Rightarrow> string \<Rightarrow> dict \<Rightarrow> (world, stored_object) prog" where
  "create_object E ctx r event_type payload =
     bindp (make_event E ctx event_type (now E) (ret None) (so_id r) 1 payload) (\<lambda>e.
     bindp (bind_unit_of_work E r None e) (\<lambda>(stored, _).
     ret stored))"

definition create_in_initial_state ::
  "env \<Rightarrow> call_ctx \<Rightarrow> state_machine \<Rightarrow> 'a lifecycle_object_scheme \<Rightarrow> string \<Rightarrow> dict \<Rightarrow>
   (world, stored_object) prog" where
  "create_in_initial_state E ctx M c event_type payload =
     bindp (guardp (lo_status c = sm_initial M)
       (InvalidTransitionError (sm_name M) ''<new>'' (lo_status c))) (\<lambda>_.
     bindp (guardp (bo_revision c = 1) ValueError) (\<lambda>_.
     create_object E ctx (stored_of c) event_type payload))"

text \<open>
  The gate reads the latest revision; \<open>edit\<close> sets the service's own fields, at the time of the
  call; the payload may name the old status and the new hash.
\<close>

definition transition_object ::
  "env \<Rightarrow> call_ctx \<Rightarrow> state_machine \<Rightarrow> exn \<Rightarrow> (stored_object \<Rightarrow> unit outcome) \<Rightarrow>
   (instant \<Rightarrow> dict \<Rightarrow> dict) \<Rightarrow> (dict \<Rightarrow> unit outcome) \<Rightarrow> (string \<Rightarrow> string \<Rightarrow> dict) \<Rightarrow>
   urn \<Rightarrow> string \<Rightarrow> string \<Rightarrow> (world, stored_object) prog" where
  "transition_object E ctx M missing gate edit validate payload i to_status event_type =
     bindp (get_latest_or missing i) (\<lambda>latest.
     bindp (lift (dget_str (so_body latest) ''status'')) (\<lambda>from_status.
     bindp (lift (assert_transition M from_status to_status)) (\<lambda>_.
     bindp (lift (gate latest)) (\<lambda>_.
     bindp (now E) (\<lambda>t.
     bindp (lift (finish_body E (so_revision latest + 1) t (cx_actor ctx)
       (edit t (dset ''status'' (JStr to_status) (so_body latest))))) (\<lambda>(h, new_body).
     bindp (lift (validate new_body)) (\<lambda>_.
     bindp (make_event E ctx event_type (ret t) (last_event_id_for i) i (so_revision latest + 1)
       (payload from_status h)) (\<lambda>e.
     bindp (bind_unit_of_work E (next_object latest (so_revision latest + 1) t (cx_actor ctx) h new_body)
       (Some (so_revision latest)) e) (\<lambda>(stored, _).
     ret stored)))))))))"

text \<open>The parts most services leave empty.\<close>

abbreviation no_gate :: "'a \<Rightarrow> unit outcome" where
  "no_gate \<equiv> \<lambda>_. Inr ()"

abbreviation status_only :: "instant \<Rightarrow> dict \<Rightarrow> dict" where
  "status_only \<equiv> \<lambda>_ body. body"

definition status_change :: "string \<Rightarrow> string \<Rightarrow> string \<Rightarrow> dict" where
  "status_change to_status from_status h =
     [(''from_status'', JStr from_status), (''to_status'', JStr to_status)]"

lemma create_object_aon: "all_or_nothing (create_object E ctx r ty p)"
  unfolding create_object_def case_prod_beta by (intro aon_bindp aon_ret aon_units readonly)

lemma create_initial_aon: "all_or_nothing (create_in_initial_state E ctx M c ty p)"
  unfolding create_in_initial_state_def by (intro aon_bindp create_object_aon readonly)

lemma transition_object_aon: "all_or_nothing (transition_object E ctx M x g ed v p i to ty)"
  unfolding transition_object_def case_prod_beta
  by (intro aon_bindp aon_ret aon_units readonly)

lemma create_object_Inr:
  assumes ok: "world_ok E w" and run: "create_object E ctx r ty p w = (Inr s, w')"
  shows "s = r \<and> so_revision r = 1 \<and> history_of (w_db w) (so_id r) = [] \<and>
    (\<exists>e. committed E [r] [] e w w' \<and> announces e [r] \<and> event_ok e \<and> de_event_type e = ty \<and>
       de_payload e = p)"
proof -
  from run [unfolded create_object_def case_prod_beta]
  obtain e sa w1 where s1: "make_event E ctx ty (now E) (ret None) (so_id r) 1 p w = (Inr e, w1)"
    and s2: "bind_unit_of_work E r None e w1 = (Inr sa, w')" and s: "s = fst sa"
    by (elim bindp_InrE ret_InrE) auto
  note ev = make_event_Inr [OF s1 readonly_now keeps_same_pure(1)]
  then have k: "same_db w w1" and eo: "event_ok e" by blast+
  obtain s' a where sa: "sa = (s', a)" by fastforce
  note u = unit_of_work_Inr [OF world_ok_same_db [OF ok k] eo s2 [unfolded sa]]
  have sr: "s = r" "so_revision r = 1" using u s sa by (auto simp: next_revision_def)
  have "committed E [r] [] e w w'" using u by (metis committed_from [OF k])
  moreover have "announces e [r]" using ev sr by (simp add: announces_def)
  moreover have "history_of (w_db w) (so_id r) = []"
    using u k by (auto simp: current_revision_def same_db_def split: if_splits)
  ultimately show ?thesis using eo ev sr by blast
qed

lemma create_initial_Inr:
  assumes ok: "world_ok E w" and run: "create_in_initial_state E ctx M c ty p w = (Inr r, w')"
  shows "r = stored_of c \<and> lo_status c = sm_initial M \<and> bo_revision c = 1 \<and>
    history_of (w_db w) (bo_id c) = [] \<and>
    (\<exists>e. committed E [r] [] e w w' \<and> announces e [r] \<and> event_ok e \<and> de_event_type e = ty \<and>
       de_payload e = p)"
proof -
  from run [unfolded create_in_initial_state_def]
  have g: "lo_status c = sm_initial M" "bo_revision c = 1"
    and s: "create_object E ctx (stored_of c) ty p w = (Inr r, w')"
    by (elim bindp_InrE guardp_InrE, simp)+
  from create_object_Inr [OF ok s] g show ?thesis by auto
qed

lemma transition_object_Inr:
  assumes ok: "world_ok E w"
    and run: "transition_object E ctx M x gate edit val p i to ty w = (Inr r, w')"
  shows "\<exists>e latest frm t h b. committed E [r] [] e w w' \<and> announces e [r] \<and> event_ok e \<and>
    de_event_type e = ty \<and> de_payload e = p frm h \<and>
    latest = last (history_of (w_db w) i) \<and> history_of (w_db w) i \<noteq> [] \<and> so_id latest = i \<and>
    so_revision latest = int (length (history_of (w_db w) i)) \<and>
    r = next_object latest (so_revision latest + 1) t (cx_actor ctx) h b \<and>
    finish_body E (so_revision latest + 1) t (cx_actor ctx)
      (edit t (dset ''status'' (JStr to) (so_body latest))) = Inr (h, b) \<and>
    status_of latest = Some frm \<and> can_transition M frm to \<and> gate latest = Inr () \<and> val b = Inr ()"
proof -
  from run [unfolded transition_object_def case_prod_beta]
  obtain latest frm u0 t hb u1 e sa w1 w2 w3 where
    s1: "get_latest_or x i w = (Inr latest, w1)"
    and s2: "dget_str (so_body latest) ''status'' = Inr frm" "assert_transition M frm to = Inr ()"
    and s3: "gate latest = Inr u0" and s4: "now E w1 = (Inr t, w2)"
    and s5: "finish_body E (so_revision latest + 1) t (cx_actor ctx)
      (edit t (dset ''status'' (JStr to) (so_body latest))) = Inr hb"
    and s6: "val (snd hb) = Inr u1"
    and s7: "make_event E ctx ty (ret t) (last_event_id_for i) i (so_revision latest + 1)
       (p frm (fst hb)) w2 = (Inr e, w3)"
    and s8: "bind_unit_of_work E (next_object latest (so_revision latest + 1) t (cx_actor ctx) (fst hb) (snd hb))
       (Some (so_revision latest)) e w3 = (Inr sa, w')" and r: "r = fst sa"
    by (elim bindp_InrE lift_InrE ret_InrE) (auto simp: unit_eq)
  note l = get_latest_or_Inr [OF world_ok_parts(2) [OF ok] s1]
  note ev = make_event_Inr [OF s7 keeps_same_pure(1) readonly_last_event]
  have k: "same_db w w3"
    using keepsD [OF readonly_now s4] ev l by (blast intro: transpD [OF transp_same_db])
  obtain s a where sa: "sa = (s, a)" by fastforce
  obtain h b where hb: "hb = (h, b)" by fastforce
  have eo: "event_ok e" using ev by blast
  from unit_of_work_Inr [OF world_ok_same_db [OF ok k] eo s8 [unfolded hb sa fst_conv snd_conv]] have
    s: "s = next_object latest (so_revision latest + 1) t (cx_actor ctx) h b"
    and c: "committed E [s] [] e w3 w'" by blast+
  from c have c: "committed E [s] [] e w w'" by (rule committed_from [OF k])
  have rs: "r = s" using r sa by simp
  have li: "so_id latest = i" using l by blast
  show ?thesis
    apply (rule exI [of _ e], rule exI [of _ latest], rule exI [of _ frm], rule exI [of _ t],
        rule exI [of _ h], rule exI [of _ b], intro conjI)
    subgoal using c rs by simp
    subgoal using s rs ev li by (simp add: announces_def)
    subgoal using ev by simp
    subgoal using ev by simp
    subgoal using ev hb by simp
    subgoal using l by blast
    subgoal using l by blast
    subgoal by (rule li)
    subgoal using l by blast
    subgoal using s rs by simp
    subgoal using s5 hb by simp
    subgoal using s2(1) unfolding dget_str_status .
    subgoal using s2(2) by simp
    subgoal using s3 by (simp add: unit_eq)
    subgoal using s6 hb by (simp add: unit_eq)
    done
qed

section \<open>Objects of one kind\<close>

definition is_kind :: "string \<Rightarrow> db \<Rightarrow> string \<Rightarrow> bool" where
  "is_kind kind d i \<longleftrightarrow> (\<exists>r \<in> set (history_of d i). so_kind r = kind)"

text \<open>
  The objects of a kind are governed when every revision of each has that kind, its first
  revision is a legal one and each further revision is a legal step from the one before.
\<close>

definition governed ::
  "string \<Rightarrow> (stored_object \<Rightarrow> bool) \<Rightarrow> (stored_object \<Rightarrow> stored_object \<Rightarrow> bool) \<Rightarrow> db \<Rightarrow> bool" where
  "governed kind first step d \<longleftrightarrow>
     (\<forall>i. is_kind kind d i \<longrightarrow>
        (\<forall>r \<in> set (history_of d i). so_kind r = kind) \<and> first (hd (history_of d i)) \<and>
        successively step (history_of d i))"

text \<open>A new row that fits into the history of its id.\<close>

definition fits ::
  "string \<Rightarrow> (stored_object \<Rightarrow> bool) \<Rightarrow> (stored_object \<Rightarrow> stored_object \<Rightarrow> bool) \<Rightarrow> db \<Rightarrow>
   stored_object \<Rightarrow> bool" where
  "fits kind first step d r \<longleftrightarrow>
     so_kind r = kind \<and> (\<forall>q \<in> set (history_of d (so_id r)). so_kind q = kind) \<and>
     (if history_of d (so_id r) = [] then first r else step (last (history_of d (so_id r))) r)"

lemma history_of_snoc:
  "objects_tbl d' = objects_tbl d @ [r] \<Longrightarrow>
     history_of d' i = history_of d i @ (if so_id r = i then [r] else [])"
  by (simp add: history_of_def)

lemma is_kind_cong: "history_of d' i = history_of d i \<Longrightarrow> is_kind kind d' i = is_kind kind d i"
  by (simp add: is_kind_def)

lemma governed_same: "objects_tbl d' = objects_tbl d \<Longrightarrow> governed kind first step d' = governed kind first step d"
  by (simp add: governed_def is_kind_def history_of_def)

lemma governed_empty: "governed kind first step empty_db"
  by (simp add: governed_def is_kind_def history_of_def empty_db_def)

lemma governedD:
  "governed kind first step d \<Longrightarrow> is_kind kind d i \<Longrightarrow>
     (\<forall>r \<in> set (history_of d i). so_kind r = kind) \<and> first (hd (history_of d i)) \<and>
     successively step (history_of d i)"
  unfolding governed_def by blast

lemma governed_fits:
  assumes g: "governed kind first step d" and o: "objects_tbl d' = objects_tbl d @ [r]"
    and f: "fits kind first step d r"
  shows "governed kind first step d'"
  unfolding governed_def
proof (intro allI impI)
  fix i assume i: "is_kind kind d' i"
  note h = history_of_snoc [OF o, of i]
  show "(\<forall>q \<in> set (history_of d' i). so_kind q = kind) \<and> first (hd (history_of d' i)) \<and>
      successively step (history_of d' i)"
  proof (cases "so_id r = i")
    case False
    with h have e: "history_of d' i = history_of d i" by simp
    have "is_kind kind d i" using i is_kind_cong [OF e] by blast
    from governedD [OF g this] show ?thesis unfolding e .
  next
    case True
    show ?thesis
    proof (cases "history_of d i = []")
      case nil: True
      with f h True show ?thesis by (simp add: fits_def)
    next
      case cons: False
      with f True have k: "\<forall>q \<in> set (history_of d i). so_kind q = kind"
        and s: "step (last (history_of d i)) r" "so_kind r = kind" by (simp_all add: fits_def)
      from cons k have "is_kind kind d i"
        unfolding is_kind_def by (metis last_in_set)
      note old = governedD [OF g this]
      have h': "history_of d' i = history_of d i @ [r]" using h True by simp
      have "\<forall>q \<in> set (history_of d' i). so_kind q = kind" using k s(2) by (simp add: h')
      moreover have "first (hd (history_of d' i))" using old cons by (simp add: h')
      moreover have "successively step (history_of d' i)"
        unfolding h' successively_append_iff using old s(1) by simp
      ultimately show ?thesis by blast
    qed
  qed
qed

text \<open>A row of another kind, under an id the kind does not use, changes nothing for it.\<close>

lemma governed_foreign:
  assumes g: "governed kind first step d" and o: "objects_tbl d' = objects_tbl d @ rs"
    and f: "\<forall>r \<in> set rs. so_kind r \<noteq> kind \<and> \<not> is_kind kind d (so_id r)"
  shows "governed kind first step d'"
  unfolding governed_def
proof (intro allI impI)
  fix i assume i: "is_kind kind d' i"
  have h: "history_of d' i = history_of d i @ filter (\<lambda>r. so_id r = i) rs" by (simp add: history_of_def o)
  have "is_kind kind d i"
    using i f unfolding is_kind_def h by auto
  note old = governedD [OF g this]
  have "filter (\<lambda>r. so_id r = i) rs = []"
    using f \<open>is_kind kind d i\<close> by (auto simp: filter_empty_conv)
  with h have e: "history_of d' i = history_of d i" by simp
  from old show "(\<forall>q \<in> set (history_of d' i). so_kind q = kind) \<and> first (hd (history_of d' i)) \<and>
      successively step (history_of d' i)"
    unfolding e .
qed

lemma fits_foreign:
  assumes "fits kind first step d r" and "kind' \<noteq> kind"
  shows "so_kind r \<noteq> kind' \<and> \<not> is_kind kind' d (so_id r)"
  using assms by (auto simp: fits_def is_kind_def)

section \<open>Lifecycles of governed objects\<close>

text \<open>
  A step that keeps the status or changes it along the machine: the statuses of the revisions,
  without repetitions, are a history of the machine.
\<close>

definition obeys ::
  "state_machine \<Rightarrow> (stored_object \<Rightarrow> bool) \<Rightarrow> (stored_object \<Rightarrow> stored_object \<Rightarrow> bool) \<Rightarrow> bool" where
  "obeys M first step \<longleftrightarrow>
     (\<forall>r. first r \<longrightarrow> status_of r = Some (sm_initial M)) \<and>
     (\<forall>l r. step l r \<longrightarrow> (\<exists>a b. status_of l = Some a \<and> status_of r = Some b \<and>
        (a = b \<or> can_transition M a b)))"

lemma enforced_remdups_adj:
  "successively (\<lambda>a b. a = b \<or> can_transition M a b) ss \<Longrightarrow> enforced M (remdups_adj ss)"
proof (induction ss rule: remdups_adj.induct)
  case (3 x y xs)
  show ?case
  proof (cases "x = y")
    case True
    with 3 show ?thesis by simp
  next
    case False
    with 3 have e: "enforced M (remdups_adj (y # xs))" and c: "can_transition M x y" by simp_all
    obtain zs where "remdups_adj (y # xs) = y # zs" by (metis remdups_adj_Cons_alt)
    with e c False show ?thesis by simp
  qed
qed simp_all

definition statuses :: "db \<Rightarrow> string \<Rightarrow> string option list" where
  "statuses d i = map status_of (history_of d i)"

lemma successively_heads:
  "successively step (h :: 'a list) \<Longrightarrow> h \<noteq> [] \<Longrightarrow> x \<in> set h \<Longrightarrow> x = hd h \<or> (\<exists>l. step l x)"
proof (induction step h rule: successively.induct)
  case (3 P a b xs)
  then show ?case by (cases "x = a") auto
qed auto

lemma governed_lifecycle:
  assumes g: "governed kind first step d" and o: "obeys M first step" and i: "is_kind kind d i"
  shows "\<exists>ss. statuses d i = map Some ss \<and> history M (remdups_adj ss)"
proof -
  let ?h = "history_of d i"
  have ne: "?h \<noteq> []" using i by (auto simp: is_kind_def)
  have f: "first (hd ?h)" and s: "successively step ?h" using governedD [OF g i] by blast+
  have st: "\<exists>a. status_of r = Some a" if "r \<in> set ?h" for r
    using successively_heads [OF s ne that] f o unfolding obeys_def by metis
  define ss where "ss = map (\<lambda>r. the (status_of r)) ?h"
  have eq: "map status_of ?h = map Some ss"
    unfolding ss_def by (simp, rule ballI) (metis st option.sel)
  have "successively (\<lambda>a b. a = b \<or> can_transition M a b) ss"
    unfolding ss_def successively_map
    by (rule successively_mono [OF s]) (use o in \<open>unfold obeys_def, metis option.sel\<close>)
  then have "enforced M (remdups_adj ss)" by (rule enforced_remdups_adj)
  moreover have "ss \<noteq> []" "hd ss = sm_initial M"
    using ne f o by (simp_all add: ss_def hd_map obeys_def)
  ultimately have "history M (remdups_adj ss)" by (cases ss) (simp_all add: history_def)
  with eq show ?thesis by (auto simp: statuses_def)
qed

text \<open>A predicate on rows that the first revisions have and the steps keep.\<close>

lemma governed_all:
  assumes g: "governed kind first step d" and r: "r \<in> set (objects_tbl d)" "so_kind r = kind"
    and P: "\<And>x. first x \<Longrightarrow> P x" "\<And>l x. step l x \<Longrightarrow> P l \<Longrightarrow> P x"
  shows "P r"
proof -
  let ?h = "history_of d (so_id r)"
  have m: "r \<in> set ?h" using r by (simp add: history_of_def)
  then have "is_kind kind d (so_id r)" using r by (auto simp: is_kind_def)
  from governedD [OF g this] have f: "first (hd ?h)" and s: "successively step ?h" by blast+
  have "\<forall>x \<in> set (a # h). P x" if "successively step (a # h)" "P a" for a h
    using that
  proof (induction h arbitrary: a)
    case (Cons b h)
    then have b: "P b" by (simp add: P(2) [of a])
    have "\<forall>x \<in> set (b # h). P x" by (rule Cons.IH [OF _ b]) (use Cons.prems in simp)
    with Cons.prems show ?case by simp
  qed simp
  moreover from m have "?h \<noteq> []" by auto
  ultimately have "\<forall>x \<in> set ?h. P x" using s P(1) [OF f] by (metis list.exhaust_sel)
  then show ?thesis using m by (rule bspec)
qed

section \<open>Runs of writes\<close>

text \<open>
  What a call of a service does to the tables: a number of transactions, each with one new
  revision of the service's kind that fits, its edges and its event, which tells what
  happened to the object.
\<close>

inductive writes ::
  "env \<Rightarrow> string \<Rightarrow> (stored_object \<Rightarrow> bool) \<Rightarrow> (stored_object \<Rightarrow> stored_object \<Rightarrow> bool) \<Rightarrow>
   (stored_object \<Rightarrow> domain_event \<Rightarrow> bool) \<Rightarrow> world \<Rightarrow> world \<Rightarrow> bool"
  for E kind first step told where
  still: "same_db w w' \<Longrightarrow> writes E kind first step told w w'"
| row: "writes E kind first step told w w1 \<Longrightarrow> committed E [r] es e w1 w2 \<Longrightarrow> announces e [r] \<Longrightarrow>
          told r e \<Longrightarrow> fits kind first step (w_db w1) r \<Longrightarrow> same_db w2 w3 \<Longrightarrow>
          writes E kind first step told w w3"

lemma writes_trans:
  "writes E kind first step told w1 w2 \<Longrightarrow> writes E kind first step told w w1 \<Longrightarrow> writes E kind first step told w w2"
proof (induction rule: writes.induct)
  case (still w1 w2)
  from still(2,1) show ?case
  proof (induction rule: writes.induct)
    case (still v v')
    then show ?case by (blast intro: writes.still transpD [OF transp_same_db])
  next
    case (row v v1 r es e v2 v3)
    then show ?case by (blast intro: writes.row transpD [OF transp_same_db])
  qed
next
  case (row w1 w2 r es e w3 w4)
  then show ?case by (blast intro: writes.row)
qed

lemma writes_same: "writes E kind first step told w w1 \<Longrightarrow> same_db w1 w2 \<Longrightarrow> writes E kind first step told w w2"
  by (rule writes_trans [OF writes.still])

lemma writes_single:
  assumes "committed E [r] es e w w'" and "announces e [r]" and "told r e"
    and "fits kind first step (w_db w) r"
  shows "writes E kind first step told w w'"
proof (rule writes.row [where told = told])
  show "writes E kind first step told w w" by (rule writes.still) simp
  show "same_db w' w'" by simp
qed (rule assms)+

lemma aon_writes:
  assumes "all_or_nothing m" and "m w = (q, w')"
    and "\<And>r. q = Inr r \<Longrightarrow> writes E kind first step told w w'"
  shows "writes E kind first step told w w'"
proof (cases q)
  case (Inl x)
  with assms(1,2) show ?thesis unfolding all_or_nothing_def by (blast intro: writes.still)
qed (rule assms(3))

text \<open>Every revision of the kind has its event in the log, and the event tells what it is.\<close>

definition accounted ::
  "string \<Rightarrow> (stored_object \<Rightarrow> domain_event \<Rightarrow> bool) \<Rightarrow> db \<Rightarrow> bool" where
  "accounted kind told d \<longleftrightarrow>
     (\<forall>r \<in> set (objects_tbl d). so_kind r = kind \<longrightarrow>
        (\<exists>a \<in> set (domain_events_tbl d). announces (ae_event a) [r] \<and> told r (ae_event a)))"

definition service_ok ::
  "env \<Rightarrow> string \<Rightarrow> (stored_object \<Rightarrow> bool) \<Rightarrow> (stored_object \<Rightarrow> stored_object \<Rightarrow> bool) \<Rightarrow>
   (stored_object \<Rightarrow> domain_event \<Rightarrow> bool) \<Rightarrow> world \<Rightarrow> bool" where
  "service_ok E kind first step told w \<longleftrightarrow>
     world_ok E w \<and> governed kind first step (w_db w) \<and> accounted kind told (w_db w)"

lemma service_ok_empty: "service_ok E kind first step told empty_world"
  using world_ok_empty governed_empty
  by (simp add: service_ok_def accounted_def empty_world_def empty_db_def)

lemma service_ok_same_db:
  assumes "service_ok E kind first step told w" and k: "same_db w w'"
  shows "service_ok E kind first step told w'"
proof -
  from k have "w_db w' = w_db w" by (simp add: same_db_def)
  with assms show ?thesis using world_ok_same_db unfolding service_ok_def by metis
qed

lemma accounted_commit:
  assumes "accounted kind told d" and "d' = commit os es a t d"
    and "\<And>r. r \<in> set os \<Longrightarrow> so_kind r = kind \<Longrightarrow> announces (ae_event a) [r] \<and> told r (ae_event a)"
  shows "accounted kind told d'"
  unfolding accounted_def
proof (intro ballI impI)
  fix r assume r: "r \<in> set (objects_tbl d')" "so_kind r = kind"
  then consider "r \<in> set (objects_tbl d)" | "r \<in> set os" using assms(2) by auto
  then show "\<exists>a \<in> set (domain_events_tbl d'). announces (ae_event a) [r] \<and> told r (ae_event a)"
  proof cases
    case 1
    with assms(1) r obtain a' where "a' \<in> set (domain_events_tbl d)" "announces (ae_event a') [r]"
      "told r (ae_event a')" unfolding accounted_def by blast
    then show ?thesis using assms(2) by (intro bexI [of _ a']) simp_all
  next
    case 2
    with assms r show ?thesis by (intro bexI [of _ a]) simp_all
  qed
qed

lemma service_ok_row:
  assumes ok: "service_ok E kind first step told w" and c: "committed E [r] es e w w'"
    and e: "announces e [r]" "told r e" and f: "fits kind first step (w_db w) r"
  shows "service_ok E kind first step told w'"
proof -
  from c obtain a t where a: "ae_event a = e" "w_db w' = commit [r] es a t (w_db w)" and w': "world_ok E w'"
    by (auto simp: committed_def)
  have "governed kind first step (w_db w')"
    by (rule governed_fits [OF _ _ f]) (use ok a in \<open>simp_all add: service_ok_def\<close>)
  moreover have "accounted kind told (w_db w')"
    by (rule accounted_commit [OF _ a(2)]) (use ok e a(1) in \<open>auto simp: service_ok_def\<close>)
  ultimately show ?thesis using w' by (simp add: service_ok_def)
qed

lemma service_ok_foreign:
  assumes ok: "service_ok E kind first step told w" and c: "committed E os es e w w'"
    and f: "\<forall>r \<in> set os. so_kind r \<noteq> kind \<and> \<not> is_kind kind (w_db w) (so_id r)"
  shows "service_ok E kind first step told w'"
proof -
  from c obtain a t where a: "w_db w' = commit os es a t (w_db w)" and w': "world_ok E w'"
    by (auto simp: committed_def)
  have "governed kind first step (w_db w')"
    by (rule governed_foreign [OF _ _ f]) (use ok a in \<open>simp_all add: service_ok_def\<close>)
  moreover have "accounted kind told (w_db w')"
    by (rule accounted_commit [OF _ a]) (use ok f in \<open>auto simp: service_ok_def\<close>)
  ultimately show ?thesis using w' by (simp add: service_ok_def)
qed

lemma writes_keep:
  "writes E kind first step told w w' \<Longrightarrow> service_ok E kind first step told w \<Longrightarrow>
     service_ok E kind first step told w'"
  by (induction rule: writes.induct) (blast intro: service_ok_same_db service_ok_row)+

lemma writes_foreign:
  "writes E kind first step told w w' \<Longrightarrow> kind' \<noteq> kind \<Longrightarrow> service_ok E kind' first' step' told' w \<Longrightarrow>
     service_ok E kind' first' step' told' w'"
proof (induction rule: writes.induct)
  case (still w w')
  then show ?case by (blast intro: service_ok_same_db)
next
  case (row w w1 r es e w2 w3)
  have "service_ok E kind' first' step' told' w2"
    by (rule service_ok_foreign [OF row.IH [OF row.prems] row.hyps(2)])
      (use fits_foreign [OF row.hyps(5) row.prems(1)] in simp)
  then show ?case using row.hyps(6) by (rule service_ok_same_db)
qed

text \<open>Programs of several transactions, each of which writes rows of the kind.\<close>

lemma writes_world_ok: "writes E kind first step told w w' \<Longrightarrow> world_ok E w \<Longrightarrow> world_ok E w'"
proof (induction rule: writes.induct)
  case (still w w')
  then show ?case by (blast intro: world_ok_same_db)
next
  case (row w w1 r es e w2 w3)
  have "world_ok E w2" using row.hyps(2) by (rule committed_tables(3))
  then show ?case using row.hyps(6) by (rule world_ok_same_db)
qed

definition only_writes ::
  "env \<Rightarrow> string \<Rightarrow> (stored_object \<Rightarrow> bool) \<Rightarrow> (stored_object \<Rightarrow> stored_object \<Rightarrow> bool) \<Rightarrow>
   (stored_object \<Rightarrow> domain_event \<Rightarrow> bool) \<Rightarrow> world \<Rightarrow> world \<Rightarrow> bool" where
  "only_writes E kind first step told w w' \<longleftrightarrow> (world_ok E w \<longrightarrow> writes E kind first step told w w')"

lemma transp_only_writes: "transp (only_writes E kind first step told)"
  by (rule transpI) (unfold only_writes_def, blast intro: writes_trans writes_world_ok)

lemma reflp_only_writes: "reflp (only_writes E kind first step told)"
  by (rule reflpI) (simp add: only_writes_def writes.still)

lemma readonly_only_writes: "keeps same_db m \<Longrightarrow> keeps (only_writes E kind first step told) m"
  unfolding keeps_def only_writes_def by (blast intro: writes.still)

lemma only_writesI:
  assumes "\<And>w. world_ok E w \<Longrightarrow> writes E kind first step told w (snd (m w))"
  shows "keeps (only_writes E kind first step told) m"
  unfolding keeps_def only_writes_def using assms by blast

lemma only_writesD:
  "keeps (only_writes E kind first step told) m \<Longrightarrow> world_ok E w \<Longrightarrow> writes E kind first step told w (snd (m w))"
  unfolding keeps_def only_writes_def by blast

lemmas only_writes_bindp = keeps_bindp [OF transp_only_writes]
lemmas only_writes_mapp = keeps_mapp [OF transp_only_writes reflp_only_writes]
lemmas only_writes_pure = keeps_pure [OF reflp_only_writes]

lemma only_writes_if:
  "(b \<Longrightarrow> keeps (only_writes E kind first step told) m) \<Longrightarrow>
     (\<not> b \<Longrightarrow> keeps (only_writes E kind first step told) n) \<Longrightarrow>
     keeps (only_writes E kind first step told) (if b then m else n)"
  by simp

lemmas only_writes_intros = only_writes_if only_writes_bindp only_writes_mapp only_writes_pure

section \<open>What a service owes\<close>

text \<open>
  A service is the list of its calls, a run of each on the world, and the condition on the
  arguments of a call that the caller owes (a created instance is valid, an addressed object is
  not of another kind). Its law: a run of a call writes rows that fit its kind. The clients of
  the service get the invariant, the journal and the lifecycle of every object from it.
\<close>

locale governed_service =
  fixes E :: env and kind :: string and first :: "stored_object \<Rightarrow> bool"
    and step :: "stored_object \<Rightarrow> stored_object \<Rightarrow> bool"
    and told :: "stored_object \<Rightarrow> domain_event \<Rightarrow> bool"
    and run :: "'c \<Rightarrow> world \<Rightarrow> world" and call_ok :: "db \<Rightarrow> 'c \<Rightarrow> bool"
  assumes run_writes:
    "world_ok E w \<Longrightarrow> call_ok (w_db w) c \<Longrightarrow> writes E kind first step told w (run c w)"
begin

lemma run_keeps:
  "service_ok E kind first step told w \<Longrightarrow> call_ok (w_db w) c \<Longrightarrow>
     service_ok E kind first step told (run c w)"
  using run_writes writes_keep unfolding service_ok_def by blast

lemma run_keeps_others:
  "world_ok E w \<Longrightarrow> call_ok (w_db w) c \<Longrightarrow> kind' \<noteq> kind \<Longrightarrow>
     service_ok E kind' first' step' told' w \<Longrightarrow> service_ok E kind' first' step' told' (run c w)"
  by (rule writes_foreign [OF run_writes])

end

text \<open>An id that is free, or used by objects of the kind.\<close>

definition addressable :: "string \<Rightarrow> db \<Rightarrow> string \<Rightarrow> bool" where
  "addressable kind d i \<longleftrightarrow> (\<forall>r \<in> set (history_of d i). so_kind r = kind)"

text \<open>The rows of a creation and of a transition.\<close>

definition created :: "string \<Rightarrow> state_machine \<Rightarrow> stored_object \<Rightarrow> bool" where
  "created kind M r \<longleftrightarrow> so_kind r = kind \<and> so_revision r = 1 \<and> status_of r = Some (sm_initial M)"

definition bookkeeping :: "string set" where
  "bookkeeping = {''revision'', ''created_at'', ''created_by'', ''content_hash''}"

definition moved ::
  "env \<Rightarrow> state_machine \<Rightarrow> string set \<Rightarrow> stored_object \<Rightarrow> stored_object \<Rightarrow> bool" where
  "moved E M ks l r \<longleftrightarrow>
     so_id r = so_id l \<and> so_kind r = so_kind l \<and> so_practice_id r = so_practice_id l \<and>
     so_revision r = so_revision l + 1 \<and>
     (\<exists>a b. status_of l = Some a \<and> status_of r = Some b \<and> can_transition M a b) \<and>
     (\<forall>k. k \<notin> {''status''} \<union> ks \<union> bookkeeping \<longrightarrow> map_of (so_body r) k = map_of (so_body l) k) \<and>
     map_of (so_body r) ''revision'' = Some (JInt (so_revision r)) \<and>
     map_of (so_body r) ''created_by'' = Some (JStr (so_created_by r)) \<and>
     map_of (so_body r) ''created_at'' = Some (JStr (isoformat (so_created_at r))) \<and>
     map_of (so_body r) ''content_hash'' = Some (JStr (so_content_hash r)) \<and>
     compute_content_hash E (so_body r) = Inr (so_content_hash r)"

lemma next_object_more [simp]:
  "so_practice_id (next_object l n t a h b) = so_practice_id l"
  "so_created_at (next_object l n t a h b) = t" "so_labels (next_object l n t a h b) = so_labels l"
  "so_supersedes (next_object l n t a h b) = so_supersedes l"
  "so_api_version (next_object l n t a h b) = so_api_version l"
  by (simp_all add: next_object_def)

lemma moved_next:
  assumes fb: "finish_body E (so_revision l + 1) t a body = Inr (h, b)"
    and st: "status_of l = Some frm" "can_transition M frm to"
    and body: "map_of body ''status'' = Some (JStr to)"
      "\<And>k. k \<notin> {''status''} \<union> ks \<union> bookkeeping \<Longrightarrow> map_of body k = map_of (so_body l) k"
  shows "moved E M ks l (next_object l (so_revision l + 1) t a h b)"
proof -
  note f = finish_body_Inr [OF fb]
  have "map_of b ''status'' = Some (JStr to)" using f(5) [of "''status''"] body(1) by simp
  then have s: "status_of (next_object l (so_revision l + 1) t a h b) = Some to"
    by (simp add: status_of_Some)
  have "map_of b k = map_of (so_body l) k" if "k \<notin> {''status''} \<union> ks \<union> bookkeeping" for k
    using f(5) [of k] body(2) [OF that] that by (simp add: bookkeeping_def)
  moreover have "\<exists>x y. status_of l = Some x \<and>
      status_of (next_object l (so_revision l + 1) t a h b) = Some y \<and> can_transition M x y"
    using s st by blast
  ultimately show ?thesis
    unfolding moved_def by (intro conjI allI impI) (simp_all add: f(1-4,6))
qed

lemma create_initial_writes:
  assumes ok: "world_ok E w" and inst: "lifecycle_instance kind c"
    and run: "create_in_initial_state E ctx M c ty p w = (q, w')"
    and fst: "\<And>r. r = stored_of c \<Longrightarrow> created kind M r \<Longrightarrow> first r"
    and told: "\<And>e. de_event_type e = ty \<Longrightarrow> de_payload e = p \<Longrightarrow> created kind M (stored_of c) \<Longrightarrow>
      told (stored_of c) e"
  shows "writes E kind first step told w w'"
proof (rule aon_writes [OF create_initial_aon run])
  fix r assume q: "q = Inr r"
  from create_initial_Inr [OF ok run [unfolded q]] have r: "r = stored_of c"
    "lo_status c = sm_initial M" "bo_revision c = 1" "history_of (w_db w) (bo_id c) = []"
    and ex: "\<exists>e. committed E [r] [] e w w' \<and> announces e [r] \<and> de_event_type e = ty \<and> de_payload e = p"
    by blast+
  have k: "so_kind r = kind" using inst r(1) by (simp add: lifecycle_instance_def)
  have cr: "created kind M r" using r inst k by (simp add: created_def)
  with r fst k have "fits kind first step (w_db w) r" by (simp add: fits_def)
  with ex told cr show "writes E kind first step told w w'" unfolding r(1) by (blast intro: writes_single)
qed

lemma transition_writes:
  assumes ok: "world_ok E w"
    and run: "transition_object E ctx M x gate edit val p i to ty w = (q, w')"
    and ad: "addressable kind (w_db w) i"
    and edit: "\<And>t body k. k \<notin> ks \<Longrightarrow> map_of (edit t body) k = map_of body k"
    and nst: "''status'' \<notin> ks"
    and step: "\<And>l t h b. moved E M ks l (next_object l (so_revision l + 1) t (cx_actor ctx) h b) \<Longrightarrow>
      status_of (next_object l (so_revision l + 1) t (cx_actor ctx) h b) = Some to \<Longrightarrow>
      gate l = Inr () \<Longrightarrow> val b = Inr () \<Longrightarrow>
      finish_body E (so_revision l + 1) t (cx_actor ctx)
        (edit t (dset ''status'' (JStr to) (so_body l))) = Inr (h, b) \<Longrightarrow>
      step l (next_object l (so_revision l + 1) t (cx_actor ctx) h b)"
    and told: "\<And>e r. status_of r = Some to \<Longrightarrow> de_event_type e = ty \<Longrightarrow> told r e"
  shows "writes E kind first step told w w'"
proof (rule aon_writes [OF transition_object_aon run])
  fix r assume q: "q = Inr r"
  from transition_object_Inr [OF ok run [unfolded q]] obtain e latest frm t h b where
    c: "committed E [r] [] e w w'" "announces e [r]" "de_event_type e = ty"
    and l: "latest = last (history_of (w_db w) i)" "history_of (w_db w) i \<noteq> []" "so_id latest = i"
    and r: "r = next_object latest (so_revision latest + 1) t (cx_actor ctx) h b"
    and fb: "finish_body E (so_revision latest + 1) t (cx_actor ctx)
      (edit t (dset ''status'' (JStr to) (so_body latest))) = Inr (h, b)"
    and st: "status_of latest = Some frm" "can_transition M frm to"
    and g: "gate latest = Inr ()" "val b = Inr ()"
    by (elim exE conjE) (rule that)
  have "map_of (edit t (dset ''status'' (JStr to) (so_body latest))) ''status'' = Some (JStr to)"
    using edit [OF nst] by simp
  moreover have "map_of (edit t (dset ''status'' (JStr to) (so_body latest))) k = map_of (so_body latest) k"
    if "k \<notin> {''status''} \<union> ks \<union> bookkeeping" for k
    using edit [of k] that by simp
  ultimately have m: "moved E M ks latest r"
    unfolding r by (rule moved_next [OF fb st])
  have "map_of b ''status'' = Some (JStr to)"
    using finish_body_Inr(5) [OF fb, of "''status''"] edit [OF nst] by simp
  then have sr: "status_of r = Some to" by (simp add: r status_of_Some)
  then have s: "step latest r" using step [OF m [unfolded r] _ g fb] unfolding r by blast
  have "latest \<in> set (history_of (w_db w) i)" using l by simp
  with ad have "so_kind latest = kind" unfolding addressable_def by blast
  then have "fits kind first step (w_db w) r"
    using s ad l r by (simp add: fits_def addressable_def)
  with c told [OF sr] show "writes E kind first step told w w'" by (blast intro: writes_single)
qed

lemma obeys_moved: "obeys M (created kind M) (moved E M ks)"
  unfolding obeys_def created_def moved_def by blast

text \<open>The event of a revision names what happened: statuses and the event types that lead to them.\<close>

definition tells :: "(string \<times> string) list \<Rightarrow> stored_object \<Rightarrow> domain_event \<Rightarrow> bool" where
  "tells table r e \<longleftrightarrow> (\<exists>s. status_of r = Some s \<and> (s, de_event_type e) \<in> set table)"

lemma tellsI: "status_of r = Some s \<Longrightarrow> de_event_type e = ty \<Longrightarrow> (s, ty) \<in> set table \<Longrightarrow> tells table r e"
  by (auto simp: tells_def)

lemma create_initial_call:
  assumes "world_ok E w" and "lifecycle_instance kind c"
    and "created kind M (stored_of c) \<Longrightarrow> first (stored_of c)"
    and "(sm_initial M, ty) \<in> set table"
  shows "writes E kind first step (tells table) w (snd (create_in_initial_state E ctx M c ty p w))"
proof (rule create_initial_writes [OF assms(1,2) prod.collapse [symmetric]])
  show "first r" if "r = stored_of c" "created kind M r" for r using assms(3) that by simp
  show "tells table (stored_of c) e" if "de_event_type e = ty" "created kind M (stored_of c)" for e
    using that assms(4) by (auto simp: created_def intro: tellsI)
qed

lemma status_only_call:
  assumes "world_ok E w" and "addressable kind (w_db w) i" and "(to, ty) \<in> set table"
  shows "writes E kind first (moved E M {}) (tells table) w
    (snd (transition_object E ctx M x gate status_only val p i to ty w))"
proof (rule transition_writes [OF assms(1) prod.collapse [symmetric] assms(2), where ks = "{}"])
  show "tells table r e" if "status_of r = Some to" "de_event_type e = ty" for e r
    using that assms(3) by (rule tellsI)
qed simp_all

section \<open>Calls that succeed\<close>

lemma create_object_run:
  assumes ok: "world_ok E w" and ctx: "ctx_ok ctx" and E: "env_total E"
    and fresh: "event_id_at E (w_ticks w) \<notin> set (event_ids (w_db w))"
    and r: "so_revision r = 1" "is_valid_urn (so_id r)" "history_of (w_db w) (so_id r) = []"
    and ty: "non_empty ty"
  shows "\<exists>w'. create_object E ctx r ty p w = (Inr r, w') \<and> w_ticks w' = w_ticks w + 3 \<and>
    event_ids (w_db w') = event_ids (w_db w) @ [event_id_at E (w_ticks w)]"
proof -
  let ?w2 = "w\<lparr>w_ticks := Suc (Suc (w_ticks w))\<rparr>"
  define e where "e = \<lparr>de_id = event_id_at E (w_ticks w), de_event_type = ty,
    de_occurred_at = env_now E (Suc (w_ticks w)), de_actor = cx_actor ctx,
    de_policy_version = cx_policy_version ctx, de_causation_id = None,
    de_correlation_id = cx_correlation_id ctx, de_object_id = so_id r, de_object_revision = 1,
    de_payload = p\<rparr>"
  have u: "ulid_ok (env_ulid E (w_ticks w))" using E by (simp add: env_total_def)
  have eo: "event_ok e" using ctx r ty u by (simp add: event_ok_def e_def ctx_ok_def event_id_at_def)
  have e: "make_event E ctx ty (now E) (ret None) (so_id r) 1 p w = (Inr e, ?w2)"
    using eo by (simp add: make_event_def bindp_def new_urn_run now_run ret_run lift_run
        new_domain_event_def e_def event_id_at_def)
  have ok2: "world_ok E ?w2" using ok by simp
  have "de_id e \<notin> set (event_ids (w_db ?w2))" using fresh by (simp add: e_def)
  moreover have "so_revision r = next_revision None" "current_revision (w_db ?w2) (so_id r) = None"
    using r by (simp_all add: next_revision_def current_revision_def)
  ultimately obtain a w' where
    b: "bind_unit_of_work E r None e ?w2 = (Inr (r, a), w')"
    and t: "w_ticks w' = Suc (w_ticks ?w2)" "event_ids (w_db w') = event_ids (w_db ?w2) @ [de_id e]"
    using unit_of_work_run [OF ok2 E] by blast
  have "create_object E ctx r ty p w = (Inr r, w')"
    unfolding create_object_def case_prod_beta
    using e b by (simp add: bindp_def ret_run)
  with t show ?thesis by (simp add: e_def)
qed

lemma create_initial_run:
  assumes "world_ok E w" "ctx_ok ctx" "env_total E"
    and "event_id_at E (w_ticks w) \<notin> set (event_ids (w_db w))"
    and "lo_status c = sm_initial M" "bo_revision c = 1" "is_valid_urn (bo_id c)"
    and "history_of (w_db w) (bo_id c) = []" and "non_empty ty"
  shows "\<exists>w'. create_in_initial_state E ctx M c ty p w = (Inr (stored_of c), w') \<and>
    w_ticks w' = w_ticks w + 3 \<and>
    event_ids (w_db w') = event_ids (w_db w) @ [event_id_at E (w_ticks w)]"
  using create_object_run [OF assms(1-4), of "stored_of c" ty p] assms(5-9)
  by (simp add: create_in_initial_state_def bindp_def guardp_run)

lemma transition_object_run:
  assumes ok: "world_ok E w" and ctx: "ctx_ok ctx" and E: "env_total E"
    and fresh: "event_id_at E (Suc (w_ticks w)) \<notin> set (event_ids (w_db w))"
    and i: "is_valid_urn i" and ne: "history_of (w_db w) i \<noteq> []"
    and st: "status_of (last (history_of (w_db w) i)) = Some s" and can: "can_transition M s to"
    and gate: "gate (last (history_of (w_db w) i)) = Inr ()" and ty: "non_empty ty"
    and val: "\<And>h b n t. finish_body E n t (cx_actor ctx)
        (edit t (dset ''status'' (JStr to) (so_body (last (history_of (w_db w) i))))) = Inr (h, b) \<Longrightarrow>
        val b = Inr ()"
  shows "\<exists>r w'. transition_object E ctx M x gate edit val p i to ty w = (Inr r, w') \<and>
    w_ticks w' = w_ticks w + 3 \<and>
    event_ids (w_db w') = event_ids (w_db w) @ [event_id_at E (Suc (w_ticks w))]"
proof -
  define latest where "latest = last (history_of (w_db w) i)"
  let ?n = "so_revision latest + 1" and ?t = "env_now E (w_ticks w)"
  let ?body = "edit ?t (dset ''status'' (JStr to) (so_body latest))"
  note oo = world_ok_parts(2) [OF ok]
  have g: "get_latest_or x i w = (Inr latest, w)"
    unfolding latest_def by (rule get_latest_or_run [OF oo ne])
  note gl = get_latest_or_Inr [OF oo g]
  have li: "so_id latest = i" and lr: "current_revision (w_db w) i = Some (so_revision latest)"
    and n: "1 \<le> ?n" using gl by auto
  obtain h b where fb: "finish_body E ?n ?t (cx_actor ctx) ?body = Inr (h, b)"
    using env_total_finish [OF E] by blast
  have v: "val b = Inr ()" by (rule val [OF fb [unfolded latest_def]])
  let ?w1 = "w\<lparr>w_ticks := Suc (w_ticks w)\<rparr>"
  let ?w2 = "?w1\<lparr>w_ticks := Suc (w_ticks ?w1)\<rparr>" and ?r = "next_object latest ?n ?t (cx_actor ctx) h b"
  have ok1: "world_ok E ?w1" and ok2: "world_ok E ?w2" using ok by simp_all
  obtain e where e: "make_event E ctx ty (ret ?t) (last_event_id_for i) i ?n (p s h) ?w1 = (Inr e, ?w2)"
    and eid: "de_id e = event_id_at E (w_ticks ?w1)"
    using make_event_run [OF world_ok_parts(1) [OF ok1] ctx E i ty n] by blast
  have "de_id e \<notin> set (event_ids (w_db ?w2))" using fresh eid by simp
  from unit_of_work_run [OF ok2 E this, of ?r "Some (so_revision latest)"] li lr
  obtain a w' where u: "bind_unit_of_work E ?r (Some (so_revision latest)) e ?w2 = (Inr (?r, a), w')"
    and t: "w_ticks w' = Suc (w_ticks ?w2)" "event_ids (w_db w') = event_ids (w_db ?w2) @ [de_id e]"
    by (auto simp: next_revision_def)
  have d: "dget_str (so_body latest) ''status'' = Inr s"
    unfolding dget_str_status using st by (simp add: latest_def)
  have "transition_object E ctx M x gate edit val p i to ty w = (Inr ?r, w')"
    unfolding transition_object_def case_prod_beta
    using g d can gate fb v e u unfolding latest_def [symmetric]
    by (simp add: bindp_def lift_run ret_run now_run assert_transition_def del: dget_str_Inr)
  with t eid show ?thesis by auto
qed

text \<open>An event that no other event caused.\<close>

lemma make_event_first_run:
  assumes ctx: "ctx_ok ctx" and E: "env_total E" and i: "is_valid_urn i" and ty: "non_empty ty" and n: "1 \<le> n"
  shows "\<exists>e. make_event E ctx ty (ret t) (ret None) i n p w = (Inr e, w\<lparr>w_ticks := Suc (w_ticks w)\<rparr>) \<and>
      de_id e = event_id_at E (w_ticks w)"
proof -
  have u: "ulid_ok (env_ulid E (w_ticks w))" using E by (simp add: env_total_def)
  define e where "e = \<lparr>de_id = event_id_at E (w_ticks w), de_event_type = ty,
    de_occurred_at = t, de_actor = cx_actor ctx, de_policy_version = cx_policy_version ctx,
    de_causation_id = None, de_correlation_id = cx_correlation_id ctx, de_object_id = i,
    de_object_revision = n, de_payload = p\<rparr>"
  have "event_ok e" using ctx i ty n u by (simp add: event_ok_def e_def ctx_ok_def event_id_at_def)
  then have "make_event E ctx ty (ret t) (ret None) i n p w = (Inr e, w\<lparr>w_ticks := Suc (w_ticks w)\<rparr>)"
    by (simp add: make_event_def bindp_def new_urn_run ret_run lift_run new_domain_event_def e_def event_id_at_def)
  then show ?thesis by (simp add: e_def)
qed

section \<open>The first call in the empty world\<close>

lemma start_fresh:
  "event_id_at sample_env (w_ticks empty_world) \<notin> set (event_ids (w_db empty_world))"
  "history_of (w_db empty_world) i = []" "w_ticks empty_world = 0" "event_ids (w_db empty_world) = []"
  by (simp_all add: empty_world_def empty_db_def event_ids_def history_of_def)

lemma sample_fresh:
  "n mod 64 \<notin> (\<lambda>m. m mod 64) ` set ms \<Longrightarrow> event_id_at sample_env n \<notin> set (map (event_id_at sample_env) ms)"
  by (auto simp: event_id_at_sample)

end
