(* ===== verification/Governance_Services.thy ===== *)
theory Governance_Services
  imports Governed_Objects Claim_Ceiling
begin

text \<open>
  The eight services that keep the method governance and the research scores:
  \<^verbatim>\<open>method_profile\<close>, \<^verbatim>\<open>question_model\<close>, \<^verbatim>\<open>concept_charter\<close>, \<^verbatim>\<open>method_protocol\<close>,
  \<^verbatim>\<open>evidence_matrix\<close>, \<^verbatim>\<open>method_ruling\<close>, \<^verbatim>\<open>research_decision\<close> and \<^verbatim>\<open>research_score\<close> under
  \<^verbatim>\<open>services/control_plane/mrr/services\<close>, with the model validators of their contracts under
  \<^verbatim>\<open>packages/contracts/mrr/contracts\<close>. Every operation is a program on the world; most are
  instances of the creation and the transition of \<open>Governed_Objects\<close>.
\<close>

section \<open>The contracts and their validators\<close>

record method_profile = lifecycle_object +
  mp_profile_key :: string
  mp_executor_task_family :: "string list"

type_synonym question_model = lifecycle_object

record concept_charter = lifecycle_object +
  cc_entry_ids :: "string list"

record method_protocol = lifecycle_object +
  pr_profile_id :: urn
  pr_locked_at :: "instant option"
  pr_locked_by :: "urn option"
  pr_amendment :: "dict option"

record evidence_matrix_row =
  er_row_id :: string
  er_verification_status :: string
  er_unverifiable_reason :: "string option"

record sensitivity_result =
  sr_variation_entry_id :: string
  sr_applies_to_analysis :: string
  sr_outcome :: string
  sr_decision_rationale :: "string option"

record evidence_matrix = lifecycle_object +
  em_protocol_id :: urn
  em_rows :: "evidence_matrix_row list"
  em_sensitivity :: "sensitivity_result list option"

record method_ruling = lifecycle_object +
  mr_protocol_id :: urn
  mr_applies_to_analysis :: string
  mr_ruled_ceiling :: string
  mr_non_applicability :: "string list"
  mr_ruling_basis :: string
  mr_rule_reference :: "string option"
  mr_human_review :: "(urn \<times> string) option"

record research_decision = lifecycle_object +
  rd_decision_type :: string
  rd_protocol_id :: urn
  rd_applies_to_analysis :: string

type_synonym research_score = lifecycle_object

text \<open>A validator that raises \<^verbatim>\<open>ValueError\<close> makes pydantic raise its validation error.\<close>

definition ensure :: "bool \<Rightarrow> unit outcome" where
  "ensure b = (if b then Inr () else Inl PydanticValidationError)"

lemma ensure_Inr [simp]: "ensure b = Inr u \<longleftrightarrow> b"
  by (simp add: ensure_def)

text \<open>The loops that look for a repeated entry.\<close>

fun no_duplicate :: "'a list \<Rightarrow> 'a list \<Rightarrow> unit outcome" where
  "no_duplicate seen [] = Inr ()"
| "no_duplicate seen (x # xs) =
     (if x \<in> set seen then Inl PydanticValidationError else no_duplicate (x # seen) xs)"

lemma no_duplicate_Inr: "no_duplicate seen xs = Inr u \<longleftrightarrow> distinct xs \<and> set xs \<inter> set seen = {}"
  by (induction xs arbitrary: seen) auto

definition entry_ids_are_unique :: "concept_charter \<Rightarrow> unit outcome" where
  "entry_ids_are_unique c = no_duplicate [] (cc_entry_ids c)"

definition lock_fields_match_status :: "method_protocol \<Rightarrow> unit outcome" where
  "lock_fields_match_status p =
     (let lock_expected = lo_status p \<in> {''locked'', ''amended'', ''executed''};
          lock_present = pr_locked_at p \<noteq> None \<and> pr_locked_by p \<noteq> None;
          lock_absent = pr_locked_at p = None \<and> pr_locked_by p = None
      in if lock_expected \<and> \<not> lock_present then Inl PydanticValidationError
         else if \<not> lock_expected \<and> \<not> lock_absent then Inl PydanticValidationError
         else Inr ())"

definition amendment_matches_status :: "method_protocol \<Rightarrow> unit outcome" where
  "amendment_matches_status p =
     (if lo_status p = ''amended'' \<and> pr_amendment p = None then Inl PydanticValidationError
      else if lo_status p \<noteq> ''amended'' \<and> pr_amendment p \<noteq> None then Inl PydanticValidationError
      else Inr ())"

text \<open>\<^verbatim>\<open>not s\<close> of an optional string.\<close>

definition blank :: "string option \<Rightarrow> bool" where
  "blank v \<longleftrightarrow> v = None \<or> v = Some ''''"

definition unverifiable_requires_reason :: "evidence_matrix_row \<Rightarrow> unit outcome" where
  "unverifiable_requires_reason r =
     ensure (\<not> (er_verification_status r = ''unverifiable'' \<and> blank (er_unverifiable_reason r)))"

definition insufficient_evidence_requires_rationale :: "sensitivity_result \<Rightarrow> unit outcome" where
  "insufficient_evidence_requires_rationale s =
     ensure (\<not> (sr_outcome s = ''insufficient_evidence'' \<and> blank (sr_decision_rationale s)))"

definition row_ids_are_unique :: "evidence_matrix \<Rightarrow> unit outcome" where
  "row_ids_are_unique m = no_duplicate [] (map er_row_id (em_rows m))"

definition sensitivity_result_pairs_are_unique :: "evidence_matrix \<Rightarrow> unit outcome" where
  "sensitivity_result_pairs_are_unique m =
     (case em_sensitivity m of
        None \<Rightarrow> Inr ()
      | Some rs \<Rightarrow> no_duplicate [] (map (\<lambda>s. (sr_variation_entry_id s, sr_applies_to_analysis s)) rs))"

definition descriptive_index :: nat where
  "descriptive_index = index_of ''descriptive'' CLAIM_CEILING_ORDER"

definition non_applicability_required_above_descriptive :: "method_ruling \<Rightarrow> unit outcome" where
  "non_applicability_required_above_descriptive r =
     ensure (\<not> (index_of (mr_ruled_ceiling r) CLAIM_CEILING_ORDER > descriptive_index \<and>
                mr_non_applicability r = []))"

definition ruling_basis_picks_exactly_one_active_half :: "method_ruling \<Rightarrow> unit outcome" where
  "ruling_basis_picks_exactly_one_active_half r =
     (if mr_ruling_basis r = ''deterministic_rule'' then
        (if mr_rule_reference r = None then Inl PydanticValidationError
         else ensure (mr_human_review r = None))
      else
        (if mr_human_review r = None then Inl PydanticValidationError
         else ensure (mr_rule_reference r = None)))"

text \<open>
  Validated instances: the kind is the literal of the contract, the validators passed, and the
  dump (with \<^verbatim>\<open>exclude_none\<close>) shows the fields that are read later.
\<close>

definition method_profile_instance :: "method_profile \<Rightarrow> bool" where
  "method_profile_instance p \<longleftrightarrow>
     lifecycle_instance ''MethodProfile'' p \<and>
     map_of (bo_dump p) ''executor_task_family'' = Some (JArr (map JStr (mp_executor_task_family p)))"

definition concept_charter_instance :: "concept_charter \<Rightarrow> bool" where
  "concept_charter_instance c \<longleftrightarrow>
     lifecycle_instance ''ConceptCharter'' c \<and> entry_ids_are_unique c = Inr ()"

definition method_protocol_instance :: "method_protocol \<Rightarrow> bool" where
  "method_protocol_instance p \<longleftrightarrow>
     lifecycle_instance ''MethodProtocol'' p \<and>
     lock_fields_match_status p = Inr () \<and> amendment_matches_status p = Inr () \<and>
     map_of (bo_dump p) ''locked_at'' = map_option (\<lambda>t. JStr (isoformat t)) (pr_locked_at p) \<and>
     map_of (bo_dump p) ''locked_by'' = map_option JStr (pr_locked_by p)"

definition evidence_matrix_instance :: "evidence_matrix \<Rightarrow> bool" where
  "evidence_matrix_instance m \<longleftrightarrow>
     lifecycle_instance ''EvidenceMatrix'' m \<and>
     (\<forall>r \<in> set (em_rows m). unverifiable_requires_reason r = Inr ()) \<and>
     (\<forall>s \<in> set (case em_sensitivity m of None \<Rightarrow> [] | Some ss \<Rightarrow> ss).
        insufficient_evidence_requires_rationale s = Inr ()) \<and>
     row_ids_are_unique m = Inr () \<and> sensitivity_result_pairs_are_unique m = Inr ()"

definition method_ruling_instance :: "method_ruling \<Rightarrow> bool" where
  "method_ruling_instance r \<longleftrightarrow>
     lifecycle_instance ''MethodRuling'' r \<and> mr_ruled_ceiling r \<in> set CLAIM_CEILING_ORDER \<and>
     non_applicability_required_above_descriptive r = Inr () \<and>
     ruling_basis_picks_exactly_one_active_half r = Inr ()"

definition research_decision_instance :: "research_decision \<Rightarrow> bool" where
  "research_decision_instance d \<longleftrightarrow>
     lifecycle_instance ''ResearchDecision'' d \<and> lo_status d = ''issued''"

section \<open>MethodProfileService\<close>

definition method_profile_propose ::
  "env \<Rightarrow> call_ctx \<Rightarrow> method_profile \<Rightarrow> (world, stored_object) prog" where
  "method_profile_propose E ctx p =
     create_in_initial_state E ctx METHOD_PROFILE_LIFECYCLE p ''method_profile.proposed''
       [(''status'', JStr (lo_status p)), (''profile_key'', JStr (mp_profile_key p))]"

definition method_profile_transition ::
  "env \<Rightarrow> call_ctx \<Rightarrow> urn \<Rightarrow> string \<Rightarrow> string \<Rightarrow> (world, stored_object) prog" where
  "method_profile_transition E ctx i to_status event_type =
     transition_object E ctx METHOD_PROFILE_LIFECYCLE (MethodProfileNotFoundError i)
       no_gate status_only no_gate (status_change to_status) i to_status event_type"

definition method_profile_accept :: "env \<Rightarrow> call_ctx \<Rightarrow> urn \<Rightarrow> (world, stored_object) prog" where
  "method_profile_accept E ctx i =
     method_profile_transition E ctx i ''accepted'' ''method_profile.accepted''"

definition method_profile_supersede :: "env \<Rightarrow> call_ctx \<Rightarrow> urn \<Rightarrow> (world, stored_object) prog" where
  "method_profile_supersede E ctx i =
     method_profile_transition E ctx i ''superseded'' ''method_profile.superseded''"

text \<open>
  The loop of \<^verbatim>\<open>find_accepted_by_capability\<close>: the ids seen so far and the matches in order.
\<close>

fun collect_accepted ::
  "string \<Rightarrow> appended_event list \<Rightarrow> string list \<Rightarrow> string list \<Rightarrow> (world, string list) prog" where
  "collect_accepted capability [] seen matching = ret matching"
| "collect_accepted capability (a # as) seen matching =
     (if de_event_type (ae_event a) \<noteq> ''method_profile.accepted''
      then collect_accepted capability as seen matching
      else if de_object_id (ae_event a) \<in> set seen then collect_accepted capability as seen matching
      else
        (let i = de_object_id (ae_event a) in
         bindp (catchp (bindp (get_latest i) (\<lambda>latest. ret (Some latest)))
             (\<lambda>x. case x of ObjectNotFoundError _ _ \<Rightarrow> ret None | _ \<Rightarrow> raise x)) (\<lambda>found.
         case found of
           None \<Rightarrow> collect_accepted capability as (i # seen) matching
         | Some latest \<Rightarrow>
             bindp (lift (dget_str (so_body latest) ''status'')) (\<lambda>status.
             if status \<noteq> ''accepted'' then collect_accepted capability as (i # seen) matching
             else
               bindp (lift (dget_strs (so_body latest) ''executor_task_family'')) (\<lambda>names.
               collect_accepted capability as (i # seen)
                 (if capability \<in> set names then matching @ [i] else matching))))))"

definition find_accepted_by_capability :: "string \<Rightarrow> (world, string list) prog" where
  "find_accepted_by_capability capability =
     bindp read_all (\<lambda>as. collect_accepted capability as [] [])"

section \<open>QuestionModelService and ConceptCharterService\<close>

definition question_model_propose ::
  "env \<Rightarrow> call_ctx \<Rightarrow> question_model \<Rightarrow> (world, stored_object) prog" where
  "question_model_propose E ctx q =
     create_in_initial_state E ctx QUESTION_MODEL_LIFECYCLE q ''question_model.proposed''
       [(''status'', JStr (lo_status q))]"

definition question_model_transition ::
  "env \<Rightarrow> call_ctx \<Rightarrow> urn \<Rightarrow> string \<Rightarrow> string \<Rightarrow> (world, stored_object) prog" where
  "question_model_transition E ctx i to_status event_type =
     transition_object E ctx QUESTION_MODEL_LIFECYCLE (QuestionModelNotFoundError i)
       no_gate status_only no_gate (status_change to_status) i to_status event_type"

definition question_model_accept :: "env \<Rightarrow> call_ctx \<Rightarrow> urn \<Rightarrow> (world, stored_object) prog" where
  "question_model_accept E ctx i =
     question_model_transition E ctx i ''accepted'' ''question_model.accepted''"

definition concept_charter_propose ::
  "env \<Rightarrow> call_ctx \<Rightarrow> concept_charter \<Rightarrow> (world, stored_object) prog" where
  "concept_charter_propose E ctx c =
     create_in_initial_state E ctx CONCEPT_CHARTER_LIFECYCLE c ''concept_charter.proposed''
       [(''status'', JStr (lo_status c)), (''entry_count'', JInt (int (length (cc_entry_ids c))))]"

definition concept_charter_transition ::
  "env \<Rightarrow> call_ctx \<Rightarrow> urn \<Rightarrow> string \<Rightarrow> string \<Rightarrow> (world, stored_object) prog" where
  "concept_charter_transition E ctx i to_status event_type =
     transition_object E ctx CONCEPT_CHARTER_LIFECYCLE (ConceptCharterNotFoundError i)
       no_gate status_only no_gate (status_change to_status) i to_status event_type"

definition concept_charter_accept :: "env \<Rightarrow> call_ctx \<Rightarrow> urn \<Rightarrow> (world, stored_object) prog" where
  "concept_charter_accept E ctx i =
     concept_charter_transition E ctx i ''accepted'' ''concept_charter.accepted''"

section \<open>MethodProtocolService\<close>

definition method_protocol_create ::
  "env \<Rightarrow> call_ctx \<Rightarrow> method_protocol \<Rightarrow> (world, stored_object) prog" where
  "method_protocol_create E ctx p =
     create_in_initial_state E ctx METHOD_PROTOCOL_LIFECYCLE p ''method_protocol.created''
       [(''status'', JStr (lo_status p)), (''profile_id'', JStr (pr_profile_id p))]"

definition method_protocol_submit_for_review ::
  "env \<Rightarrow> call_ctx \<Rightarrow> urn \<Rightarrow> (world, stored_object) prog" where
  "method_protocol_submit_for_review E ctx i =
     transition_object E ctx METHOD_PROTOCOL_LIFECYCLE (MethodProtocolNotFoundError i)
       no_gate status_only no_gate (status_change ''reviewed'') i ''reviewed''
       ''method_protocol.reviewed''"

definition method_protocol_lock :: "env \<Rightarrow> call_ctx \<Rightarrow> urn \<Rightarrow> (world, stored_object) prog" where
  "method_protocol_lock E ctx i =
     transition_object E ctx METHOD_PROTOCOL_LIFECYCLE (MethodProtocolNotFoundError i) no_gate
       (\<lambda>t body. dset ''locked_by'' (JStr (cx_actor ctx))
                   (dset ''locked_at'' (JStr (isoformat t)) body))
       no_gate
       (\<lambda>from_status h. [(''from_status'', JStr from_status), (''to_status'', JStr ''locked''),
          (''locked_by'', JStr (cx_actor ctx)), (''content_hash'', JStr h)])
       i ''locked'' ''method_protocol.locked''"

section \<open>EvidenceMatrixService, MethodRulingService and ResearchDecisionService\<close>

definition evidence_matrix_create ::
  "env \<Rightarrow> call_ctx \<Rightarrow> evidence_matrix \<Rightarrow> (world, stored_object) prog" where
  "evidence_matrix_create E ctx m =
     create_in_initial_state E ctx EVIDENCE_MATRIX_LIFECYCLE m ''evidence_matrix.created''
       [(''protocol_id'', JStr (em_protocol_id m)), (''row_count'', JInt (int (length (em_rows m)))),
        (''sensitivity_variation_count'',
          JInt (int (length (case em_sensitivity m of None \<Rightarrow> [] | Some rs \<Rightarrow> rs))))]"

definition evidence_matrix_transition ::
  "env \<Rightarrow> call_ctx \<Rightarrow> urn \<Rightarrow> string \<Rightarrow> string \<Rightarrow> (world, stored_object) prog" where
  "evidence_matrix_transition E ctx i to_status event_type =
     transition_object E ctx EVIDENCE_MATRIX_LIFECYCLE (EvidenceMatrixNotFoundError i)
       no_gate status_only no_gate (status_change to_status) i to_status event_type"

definition evidence_matrix_activate :: "env \<Rightarrow> call_ctx \<Rightarrow> urn \<Rightarrow> (world, stored_object) prog" where
  "evidence_matrix_activate E ctx i =
     evidence_matrix_transition E ctx i ''active'' ''evidence_matrix.activated''"

definition evidence_matrix_freeze :: "env \<Rightarrow> call_ctx \<Rightarrow> urn \<Rightarrow> (world, stored_object) prog" where
  "evidence_matrix_freeze E ctx i =
     evidence_matrix_transition E ctx i ''frozen'' ''evidence_matrix.frozen''"

definition method_ruling_create ::
  "env \<Rightarrow> call_ctx \<Rightarrow> method_ruling \<Rightarrow> (world, stored_object) prog" where
  "method_ruling_create E ctx r =
     create_in_initial_state E ctx METHOD_RULING_LIFECYCLE r ''method_ruling.created''
       [(''protocol_id'', JStr (mr_protocol_id r)),
        (''applies_to_analysis'', JStr (mr_applies_to_analysis r)),
        (''ruled_ceiling'', JStr (mr_ruled_ceiling r)), (''ruling_basis'', JStr (mr_ruling_basis r))]"

definition method_ruling_transition ::
  "env \<Rightarrow> call_ctx \<Rightarrow> urn \<Rightarrow> string \<Rightarrow> string \<Rightarrow> (world, stored_object) prog" where
  "method_ruling_transition E ctx i to_status event_type =
     transition_object E ctx METHOD_RULING_LIFECYCLE (MethodRulingNotFoundError i)
       no_gate status_only no_gate (status_change to_status) i to_status event_type"

definition method_ruling_issue :: "env \<Rightarrow> call_ctx \<Rightarrow> urn \<Rightarrow> (world, stored_object) prog" where
  "method_ruling_issue E ctx i = method_ruling_transition E ctx i ''issued'' ''method_ruling.issued''"

text \<open>A ResearchDecision is created once, in the only status its contract admits.\<close>

definition research_decision_create ::
  "env \<Rightarrow> call_ctx \<Rightarrow> research_decision \<Rightarrow> (world, stored_object) prog" where
  "research_decision_create E ctx d =
     bindp (guardp (bo_revision d = 1) ValueError) (\<lambda>_.
     create_object E ctx (stored_of d) ''research_decision.created''
       [(''decision_type'', JStr (rd_decision_type d)), (''protocol_id'', JStr (rd_protocol_id d)),
        (''applies_to_analysis'', JStr (rd_applies_to_analysis d))])"

section \<open>ResearchScoreService\<close>

definition startable_statuses :: "string set" where
  "startable_statuses = {''APPROVED'', ''ACTIVE''}"

text \<open>Python's truth value of \<^verbatim>\<open>body.get(k)\<close>.\<close>

fun truthy :: "json option \<Rightarrow> bool" where
  "truthy None = False"
| "truthy (Some JNull) = False"
| "truthy (Some (JBool b)) = b"
| "truthy (Some (JInt n)) = (n \<noteq> 0)"
| "truthy (Some (JStr s)) = (s \<noteq> [])"
| "truthy (Some (JArr xs)) = (xs \<noteq> [])"
| "truthy (Some (JObj kvs)) = (kvs \<noteq> [])"

definition research_score_create ::
  "env \<Rightarrow> call_ctx \<Rightarrow> research_score \<Rightarrow> (world, stored_object) prog" where
  "research_score_create E ctx s =
     create_in_initial_state E ctx RESEARCH_SCORE_LIFECYCLE s ''research_score.created''
       [(''status'', JStr (lo_status s))]"

definition research_score_revise ::
  "env \<Rightarrow> call_ctx \<Rightarrow> research_score \<Rightarrow> (world, stored_object) prog" where
  "research_score_revise E ctx new_score =
     bindp (get_latest_or (ScoreNotFoundError (bo_id new_score)) (bo_id new_score)) (\<lambda>latest.
     bindp (lift (dget_str (so_body latest) ''status'')) (\<lambda>latest_status.
     bindp (guardp (lo_status new_score = latest_status) ValueError) (\<lambda>_.
     bindp (guardp (bo_revision new_score = so_revision latest + 1) ValueError) (\<lambda>_.
     bindp (make_event E ctx ''research_score.revised'' (now E) (last_event_id_for (bo_id new_score))
       (bo_id new_score) (bo_revision new_score)
       [(''from_revision'', JInt (so_revision latest)), (''to_revision'', JInt (bo_revision new_score))]) (\<lambda>e.
     bindp (bind_unit_of_work E (stored_of new_score) (Some (so_revision latest)) e) (\<lambda>(stored, _).
     ret stored))))))"

definition approval_gate :: "urn \<Rightarrow> string \<Rightarrow> stored_object \<Rightarrow> unit outcome" where
  "approval_gate i to_status latest =
     (if to_status = ''APPROVED'' \<and> \<not> truthy (map_of (so_body latest) ''approvals'')
      then Inl (ApprovalRequiredError i) else Inr ())"

definition research_score_transition ::
  "env \<Rightarrow> call_ctx \<Rightarrow> urn \<Rightarrow> string \<Rightarrow> string \<Rightarrow> (world, stored_object) prog" where
  "research_score_transition E ctx i to_status event_type =
     transition_object E ctx RESEARCH_SCORE_LIFECYCLE (ScoreNotFoundError i)
       (approval_gate i to_status) status_only no_gate (status_change to_status) i to_status event_type"

definition score_submit_for_review :: "env \<Rightarrow> call_ctx \<Rightarrow> urn \<Rightarrow> (world, stored_object) prog" where
  "score_submit_for_review E ctx i =
     research_score_transition E ctx i ''IN_REVIEW'' ''research_score.submitted_for_review''"

definition score_approve :: "env \<Rightarrow> call_ctx \<Rightarrow> urn \<Rightarrow> (world, stored_object) prog" where
  "score_approve E ctx i = research_score_transition E ctx i ''APPROVED'' ''research_score.approved''"

definition score_reject :: "env \<Rightarrow> call_ctx \<Rightarrow> urn \<Rightarrow> (world, stored_object) prog" where
  "score_reject E ctx i = research_score_transition E ctx i ''REJECTED'' ''research_score.rejected''"

definition score_activate :: "env \<Rightarrow> call_ctx \<Rightarrow> urn \<Rightarrow> (world, stored_object) prog" where
  "score_activate E ctx i = research_score_transition E ctx i ''ACTIVE'' ''research_score.activated''"

definition score_suspend :: "env \<Rightarrow> call_ctx \<Rightarrow> urn \<Rightarrow> (world, stored_object) prog" where
  "score_suspend E ctx i = research_score_transition E ctx i ''SUSPENDED'' ''research_score.suspended''"

definition score_supersede :: "env \<Rightarrow> call_ctx \<Rightarrow> urn \<Rightarrow> (world, stored_object) prog" where
  "score_supersede E ctx i = research_score_transition E ctx i ''SUPERSEDED'' ''research_score.superseded''"

definition score_archive :: "env \<Rightarrow> call_ctx \<Rightarrow> urn \<Rightarrow> (world, stored_object) prog" where
  "score_archive E ctx i = research_score_transition E ctx i ''ARCHIVED'' ''research_score.archived''"

definition ensure_can_start_work :: "urn \<Rightarrow> (world, stored_object) prog" where
  "ensure_can_start_work i =
     bindp (get_latest_or (ScoreNotFoundError i) i) (\<lambda>latest.
     bindp (lift (dget_str (so_body latest) ''status'')) (\<lambda>status.
     bindp (guardp (status \<in> startable_statuses) (ScoreNotApprovedError i status)) (\<lambda>_.
     ret latest)))"

section \<open>What each service owes\<close>

lemma governance_initial:
  "sm_initial METHOD_PROFILE_LIFECYCLE = ''draft''" "sm_initial QUESTION_MODEL_LIFECYCLE = ''draft''"
  "sm_initial CONCEPT_CHARTER_LIFECYCLE = ''draft''" "sm_initial METHOD_PROTOCOL_LIFECYCLE = ''draft''"
  "sm_initial EVIDENCE_MATRIX_LIFECYCLE = ''draft''" "sm_initial METHOD_RULING_LIFECYCLE = ''pending''"
  "sm_initial RESEARCH_DECISION_LIFECYCLE = ''issued''" "sm_initial RESEARCH_SCORE_LIFECYCLE = ''DRAFT''"
  by (simp_all add: machine_defs)

text \<open>MethodProfile: every revision declares the task family of its executor.\<close>

definition profile_first :: "stored_object \<Rightarrow> bool" where
  "profile_first r \<longleftrightarrow>
     created ''MethodProfile'' METHOD_PROFILE_LIFECYCLE r \<and>
     (\<exists>fs. map_of (so_body r) ''executor_task_family'' = Some (JArr (map JStr fs)))"

definition profile_table :: "(string \<times> string) list" where
  "profile_table =
     [(''draft'', ''method_profile.proposed''), (''accepted'', ''method_profile.accepted''),
      (''superseded'', ''method_profile.superseded'')]"

datatype method_profile_call =
    ProfilePropose method_profile
  | ProfileAccept urn
  | ProfileSupersede urn

fun method_profile_run :: "env \<Rightarrow> call_ctx \<times> method_profile_call \<Rightarrow> world \<Rightarrow> world" where
  "method_profile_run E (ctx, ProfilePropose p) w = snd (method_profile_propose E ctx p w)"
| "method_profile_run E (ctx, ProfileAccept i) w = snd (method_profile_accept E ctx i w)"
| "method_profile_run E (ctx, ProfileSupersede i) w = snd (method_profile_supersede E ctx i w)"

fun method_profile_call_ok :: "db \<Rightarrow> call_ctx \<times> method_profile_call \<Rightarrow> bool" where
  "method_profile_call_ok d (_, ProfilePropose p) = method_profile_instance p"
| "method_profile_call_ok d (_, ProfileAccept i) = addressable ''MethodProfile'' d i"
| "method_profile_call_ok d (_, ProfileSupersede i) = addressable ''MethodProfile'' d i"

lemmas method_profile_defs =
  method_profile_propose_def method_profile_accept_def method_profile_supersede_def
  method_profile_transition_def

interpretation method_profiles:
  governed_service E "''MethodProfile''" profile_first "moved E METHOD_PROFILE_LIFECYCLE {}"
    "tells profile_table" "method_profile_run E" method_profile_call_ok for E
proof
  fix w c assume ok: "world_ok E w" and c: "method_profile_call_ok (w_db w) c"
  obtain ctx k where "c = (ctx, k)" by fastforce
  with c show "writes E ''MethodProfile'' profile_first (moved E METHOD_PROFILE_LIFECYCLE {})
      (tells profile_table) w (method_profile_run E c w)"
    by (cases k)
      (auto simp: method_profile_defs method_profile_instance_def profile_first_def profile_table_def
         governance_initial intro!: create_initial_call [OF ok] status_only_call [OF ok])
qed

text \<open>QuestionModel and ConceptCharter.\<close>

definition question_table :: "(string \<times> string) list" where
  "question_table =
     [(''draft'', ''question_model.proposed''), (''accepted'', ''question_model.accepted'')]"

datatype question_model_call =
    QuestionPropose question_model
  | QuestionAccept urn

fun question_model_run :: "env \<Rightarrow> call_ctx \<times> question_model_call \<Rightarrow> world \<Rightarrow> world" where
  "question_model_run E (ctx, QuestionPropose q) w = snd (question_model_propose E ctx q w)"
| "question_model_run E (ctx, QuestionAccept i) w = snd (question_model_accept E ctx i w)"

fun question_model_call_ok :: "db \<Rightarrow> call_ctx \<times> question_model_call \<Rightarrow> bool" where
  "question_model_call_ok d (_, QuestionPropose q) = lifecycle_instance ''QuestionModel'' q"
| "question_model_call_ok d (_, QuestionAccept i) = addressable ''QuestionModel'' d i"

lemmas question_model_defs =
  question_model_propose_def question_model_accept_def question_model_transition_def

interpretation question_models:
  governed_service E "''QuestionModel''" "created ''QuestionModel'' QUESTION_MODEL_LIFECYCLE"
    "moved E QUESTION_MODEL_LIFECYCLE {}" "tells question_table" "question_model_run E"
    question_model_call_ok for E
proof
  fix w c assume ok: "world_ok E w" and c: "question_model_call_ok (w_db w) c"
  obtain ctx k where "c = (ctx, k)" by fastforce
  with c show "writes E ''QuestionModel'' (created ''QuestionModel'' QUESTION_MODEL_LIFECYCLE)
      (moved E QUESTION_MODEL_LIFECYCLE {}) (tells question_table) w (question_model_run E c w)"
    by (cases k)
      (auto simp: question_model_defs question_table_def governance_initial
         intro!: create_initial_call [OF ok] status_only_call [OF ok])
qed

definition charter_table :: "(string \<times> string) list" where
  "charter_table =
     [(''draft'', ''concept_charter.proposed''), (''accepted'', ''concept_charter.accepted'')]"

datatype concept_charter_call =
    CharterPropose concept_charter
  | CharterAccept urn

fun concept_charter_run :: "env \<Rightarrow> call_ctx \<times> concept_charter_call \<Rightarrow> world \<Rightarrow> world" where
  "concept_charter_run E (ctx, CharterPropose c) w = snd (concept_charter_propose E ctx c w)"
| "concept_charter_run E (ctx, CharterAccept i) w = snd (concept_charter_accept E ctx i w)"

fun concept_charter_call_ok :: "db \<Rightarrow> call_ctx \<times> concept_charter_call \<Rightarrow> bool" where
  "concept_charter_call_ok d (_, CharterPropose c) = concept_charter_instance c"
| "concept_charter_call_ok d (_, CharterAccept i) = addressable ''ConceptCharter'' d i"

lemmas concept_charter_defs =
  concept_charter_propose_def concept_charter_accept_def concept_charter_transition_def
  concept_charter_instance_def

interpretation concept_charters:
  governed_service E "''ConceptCharter''" "created ''ConceptCharter'' CONCEPT_CHARTER_LIFECYCLE"
    "moved E CONCEPT_CHARTER_LIFECYCLE {}" "tells charter_table" "concept_charter_run E"
    concept_charter_call_ok for E
proof
  fix w c assume ok: "world_ok E w" and c: "concept_charter_call_ok (w_db w) c"
  obtain ctx k where "c = (ctx, k)" by fastforce
  with c show "writes E ''ConceptCharter'' (created ''ConceptCharter'' CONCEPT_CHARTER_LIFECYCLE)
      (moved E CONCEPT_CHARTER_LIFECYCLE {}) (tells charter_table) w (concept_charter_run E c w)"
    by (cases k)
      (auto simp: concept_charter_defs charter_table_def governance_initial
         intro!: create_initial_call [OF ok] status_only_call [OF ok])
qed

text \<open>MethodProtocol: a lock names its actor and its time, which are those of its revision.\<close>

definition protocol_first :: "stored_object \<Rightarrow> bool" where
  "protocol_first r \<longleftrightarrow>
     created ''MethodProtocol'' METHOD_PROTOCOL_LIFECYCLE r \<and>
     map_of (so_body r) ''locked_at'' = None \<and> map_of (so_body r) ''locked_by'' = None"

definition locked_here :: "stored_object \<Rightarrow> bool" where
  "locked_here r \<longleftrightarrow>
     map_of (so_body r) ''locked_at'' = Some (JStr (isoformat (so_created_at r))) \<and>
     map_of (so_body r) ''locked_by'' = Some (JStr (so_created_by r))"

definition protocol_step :: "env \<Rightarrow> stored_object \<Rightarrow> stored_object \<Rightarrow> bool" where
  "protocol_step E l r \<longleftrightarrow>
     (moved E METHOD_PROTOCOL_LIFECYCLE {} l r \<and> status_of r = Some ''reviewed'') \<or>
     (moved E METHOD_PROTOCOL_LIFECYCLE {''locked_at'', ''locked_by''} l r \<and>
      status_of r = Some ''locked'' \<and> locked_here r)"

definition protocol_table :: "(string \<times> string) list" where
  "protocol_table =
     [(''draft'', ''method_protocol.created''), (''reviewed'', ''method_protocol.reviewed''),
      (''locked'', ''method_protocol.locked'')]"

datatype method_protocol_call =
    ProtocolCreate method_protocol
  | ProtocolSubmit urn
  | ProtocolLock urn

fun method_protocol_run :: "env \<Rightarrow> call_ctx \<times> method_protocol_call \<Rightarrow> world \<Rightarrow> world" where
  "method_protocol_run E (ctx, ProtocolCreate p) w = snd (method_protocol_create E ctx p w)"
| "method_protocol_run E (ctx, ProtocolSubmit i) w = snd (method_protocol_submit_for_review E ctx i w)"
| "method_protocol_run E (ctx, ProtocolLock i) w = snd (method_protocol_lock E ctx i w)"

fun method_protocol_call_ok :: "db \<Rightarrow> call_ctx \<times> method_protocol_call \<Rightarrow> bool" where
  "method_protocol_call_ok d (_, ProtocolCreate p) = method_protocol_instance p"
| "method_protocol_call_ok d (_, ProtocolSubmit i) = addressable ''MethodProtocol'' d i"
| "method_protocol_call_ok d (_, ProtocolLock i) = addressable ''MethodProtocol'' d i"

lemma draft_protocol_unlocked:
  "method_protocol_instance p \<Longrightarrow> lo_status p = ''draft'' \<Longrightarrow>
     map_of (bo_dump p) ''locked_at'' = None \<and> map_of (bo_dump p) ''locked_by'' = None"
  by (auto simp: method_protocol_instance_def lock_fields_match_status_def Let_def split: if_splits)

lemma method_protocol_create_writes:
  assumes ok: "world_ok E w" and p: "method_protocol_instance p"
  shows "writes E ''MethodProtocol'' protocol_first (protocol_step E) (tells protocol_table) w
    (snd (method_protocol_create E ctx p w))"
  unfolding method_protocol_create_def
proof (rule create_initial_call [OF ok])
  show inst: "lifecycle_instance ''MethodProtocol'' p" using p by (simp add: method_protocol_instance_def)
  show "protocol_first (stored_of p)" if c: "created ''MethodProtocol'' METHOD_PROTOCOL_LIFECYCLE (stored_of p)"
  proof -
    have "lo_status p = ''draft''" using c inst by (simp add: created_def governance_initial)
    with c draft_protocol_unlocked [OF p] show ?thesis by (simp add: protocol_first_def)
  qed
qed (simp add: protocol_table_def governance_initial)

lemma method_protocol_lock_writes:
  assumes ok: "world_ok E w" and ad: "addressable ''MethodProtocol'' (w_db w) i"
  shows "writes E ''MethodProtocol'' protocol_first (protocol_step E) (tells protocol_table) w
    (snd (method_protocol_lock E ctx i w))"
  unfolding method_protocol_lock_def
proof (rule transition_writes [OF ok prod.collapse [symmetric] ad, where ks = "{''locked_at'', ''locked_by''}"])
  fix l t h b
  let ?r = "next_object l (so_revision l + 1) t (cx_actor ctx) h b"
  let ?body = "dset ''locked_by'' (JStr (cx_actor ctx)) (dset ''locked_at'' (JStr (isoformat t))
      (dset ''status'' (JStr ''locked'') (so_body l)))"
  assume m: "moved E METHOD_PROTOCOL_LIFECYCLE {''locked_at'', ''locked_by''} l ?r"
    and s: "status_of ?r = Some ''locked''"
    and fb: "finish_body E (so_revision l + 1) t (cx_actor ctx) ?body = Inr (h, b)"
  have "map_of b ''locked_at'' = Some (JStr (isoformat t))" "map_of b ''locked_by'' = Some (JStr (cx_actor ctx))"
    using finish_body_Inr(5) [OF fb, of "''locked_at''"] finish_body_Inr(5) [OF fb, of "''locked_by''"]
    by simp_all
  then have "locked_here ?r" by (simp add: locked_here_def next_object_def)
  with m s show "protocol_step E l ?r" by (simp add: protocol_step_def)
next
  show "tells protocol_table r e" if "status_of r = Some ''locked''" "de_event_type e = ''method_protocol.locked''"
    for e r using that by (rule tellsI) (simp add: protocol_table_def)
qed simp_all

lemma method_protocol_submit_writes:
  assumes ok: "world_ok E w" and ad: "addressable ''MethodProtocol'' (w_db w) i"
  shows "writes E ''MethodProtocol'' protocol_first (protocol_step E) (tells protocol_table) w
    (snd (method_protocol_submit_for_review E ctx i w))"
  unfolding method_protocol_submit_for_review_def
proof (rule transition_writes [OF ok prod.collapse [symmetric] ad, where ks = "{}"])
  show "tells protocol_table r e" if "status_of r = Some ''reviewed''"
    "de_event_type e = ''method_protocol.reviewed''" for e r
    using that by (rule tellsI) (simp add: protocol_table_def)
qed (simp_all add: protocol_step_def)

interpretation method_protocols:
  governed_service E "''MethodProtocol''" protocol_first "protocol_step E" "tells protocol_table"
    "method_protocol_run E" method_protocol_call_ok for E
proof
  fix w c assume ok: "world_ok E w" and c: "method_protocol_call_ok (w_db w) c"
  obtain ctx k where ck: "c = (ctx, k)" by fastforce
  from c show "writes E ''MethodProtocol'' protocol_first (protocol_step E) (tells protocol_table) w
      (method_protocol_run E c w)"
    unfolding ck
    by (cases k)
      (auto intro: method_protocol_create_writes [OF ok] method_protocol_submit_writes [OF ok]
         method_protocol_lock_writes [OF ok])
qed

text \<open>EvidenceMatrix, MethodRuling and ResearchDecision.\<close>

definition matrix_table :: "(string \<times> string) list" where
  "matrix_table =
     [(''draft'', ''evidence_matrix.created''), (''active'', ''evidence_matrix.activated''),
      (''frozen'', ''evidence_matrix.frozen'')]"

datatype evidence_matrix_call =
    MatrixCreate evidence_matrix
  | MatrixActivate urn
  | MatrixFreeze urn

fun evidence_matrix_run :: "env \<Rightarrow> call_ctx \<times> evidence_matrix_call \<Rightarrow> world \<Rightarrow> world" where
  "evidence_matrix_run E (ctx, MatrixCreate m) w = snd (evidence_matrix_create E ctx m w)"
| "evidence_matrix_run E (ctx, MatrixActivate i) w = snd (evidence_matrix_activate E ctx i w)"
| "evidence_matrix_run E (ctx, MatrixFreeze i) w = snd (evidence_matrix_freeze E ctx i w)"

fun evidence_matrix_call_ok :: "db \<Rightarrow> call_ctx \<times> evidence_matrix_call \<Rightarrow> bool" where
  "evidence_matrix_call_ok d (_, MatrixCreate m) = evidence_matrix_instance m"
| "evidence_matrix_call_ok d (_, MatrixActivate i) = addressable ''EvidenceMatrix'' d i"
| "evidence_matrix_call_ok d (_, MatrixFreeze i) = addressable ''EvidenceMatrix'' d i"

lemmas evidence_matrix_defs =
  evidence_matrix_create_def evidence_matrix_activate_def evidence_matrix_freeze_def
  evidence_matrix_transition_def evidence_matrix_instance_def

interpretation evidence_matrices:
  governed_service E "''EvidenceMatrix''" "created ''EvidenceMatrix'' EVIDENCE_MATRIX_LIFECYCLE"
    "moved E EVIDENCE_MATRIX_LIFECYCLE {}" "tells matrix_table" "evidence_matrix_run E"
    evidence_matrix_call_ok for E
proof
  fix w c assume ok: "world_ok E w" and c: "evidence_matrix_call_ok (w_db w) c"
  obtain ctx k where "c = (ctx, k)" by fastforce
  with c show "writes E ''EvidenceMatrix'' (created ''EvidenceMatrix'' EVIDENCE_MATRIX_LIFECYCLE)
      (moved E EVIDENCE_MATRIX_LIFECYCLE {}) (tells matrix_table) w (evidence_matrix_run E c w)"
    by (cases k)
      (auto simp: evidence_matrix_defs matrix_table_def governance_initial
         intro!: create_initial_call [OF ok] status_only_call [OF ok])
qed

definition ruling_table :: "(string \<times> string) list" where
  "ruling_table = [(''pending'', ''method_ruling.created''), (''issued'', ''method_ruling.issued'')]"

datatype method_ruling_call =
    RulingCreate method_ruling
  | RulingIssue urn

fun method_ruling_run :: "env \<Rightarrow> call_ctx \<times> method_ruling_call \<Rightarrow> world \<Rightarrow> world" where
  "method_ruling_run E (ctx, RulingCreate r) w = snd (method_ruling_create E ctx r w)"
| "method_ruling_run E (ctx, RulingIssue i) w = snd (method_ruling_issue E ctx i w)"

fun method_ruling_call_ok :: "db \<Rightarrow> call_ctx \<times> method_ruling_call \<Rightarrow> bool" where
  "method_ruling_call_ok d (_, RulingCreate r) = method_ruling_instance r"
| "method_ruling_call_ok d (_, RulingIssue i) = addressable ''MethodRuling'' d i"

lemmas method_ruling_defs =
  method_ruling_create_def method_ruling_issue_def method_ruling_transition_def method_ruling_instance_def

interpretation method_rulings:
  governed_service E "''MethodRuling''" "created ''MethodRuling'' METHOD_RULING_LIFECYCLE"
    "moved E METHOD_RULING_LIFECYCLE {}" "tells ruling_table" "method_ruling_run E"
    method_ruling_call_ok for E
proof
  fix w c assume ok: "world_ok E w" and c: "method_ruling_call_ok (w_db w) c"
  obtain ctx k where "c = (ctx, k)" by fastforce
  with c show "writes E ''MethodRuling'' (created ''MethodRuling'' METHOD_RULING_LIFECYCLE)
      (moved E METHOD_RULING_LIFECYCLE {}) (tells ruling_table) w (method_ruling_run E c w)"
    by (cases k)
      (auto simp: method_ruling_defs ruling_table_def governance_initial
         intro!: create_initial_call [OF ok] status_only_call [OF ok])
qed

text \<open>No call adds a second revision to a ResearchDecision.\<close>

definition decision_table :: "(string \<times> string) list" where
  "decision_table = [(''issued'', ''research_decision.created'')]"

fun research_decision_run :: "env \<Rightarrow> call_ctx \<times> research_decision \<Rightarrow> world \<Rightarrow> world" where
  "research_decision_run E (ctx, x) w = snd (research_decision_create E ctx x w)"

fun research_decision_call_ok :: "db \<Rightarrow> call_ctx \<times> research_decision \<Rightarrow> bool" where
  "research_decision_call_ok d (_, x) = research_decision_instance x"

lemma research_decision_aon: "all_or_nothing (research_decision_create E ctx d)"
  unfolding research_decision_create_def by (intro aon_bindp create_object_aon readonly)

interpretation research_decisions:
  governed_service E "''ResearchDecision''" "created ''ResearchDecision'' RESEARCH_DECISION_LIFECYCLE"
    "\<lambda>_ _. False" "tells decision_table" "research_decision_run E" research_decision_call_ok for E
proof
  fix w c assume ok: "world_ok E w" and c: "research_decision_call_ok (w_db w) c"
  obtain ctx d where cd: "c = (ctx, d)" by fastforce
  from c have inst: "lifecycle_instance ''ResearchDecision'' d" "lo_status d = ''issued''"
    by (simp_all add: cd research_decision_instance_def)
  show "writes E ''ResearchDecision'' (created ''ResearchDecision'' RESEARCH_DECISION_LIFECYCLE)
      (\<lambda>_ _. False) (tells decision_table) w (research_decision_run E c w)"
    unfolding cd research_decision_run.simps
  proof (rule aon_writes [OF research_decision_aon prod.collapse [symmetric]])
    fix r assume "fst (research_decision_create E ctx d w) = Inr r"
    then have run: "research_decision_create E ctx d w = (Inr r, snd (research_decision_create E ctx d w))"
      by (metis prod.collapse)
    then have run': "create_object E ctx (stored_of d) ''research_decision.created''
       [(''decision_type'', JStr (rd_decision_type d)), (''protocol_id'', JStr (rd_protocol_id d)),
        (''applies_to_analysis'', JStr (rd_applies_to_analysis d))] w =
       (Inr r, snd (research_decision_create E ctx d w))"
      unfolding research_decision_create_def by (elim bindp_InrE guardp_InrE) simp
    from create_object_Inr [OF ok run'] obtain e where r: "r = stored_of d" "bo_revision d = 1"
      "history_of (w_db w) (bo_id d) = []" and e: "committed E [r] [] e w (snd (research_decision_create E ctx d w))"
      "announces e [r]" "de_event_type e = ''research_decision.created''" by auto
    have "created ''ResearchDecision'' RESEARCH_DECISION_LIFECYCLE r"
      using inst r by (simp add: created_def governance_initial lifecycle_instance_def status_of_Some)
    moreover have "so_kind r = ''ResearchDecision''" using calculation by (simp add: created_def)
    ultimately have f: "fits ''ResearchDecision'' (created ''ResearchDecision'' RESEARCH_DECISION_LIFECYCLE)
        (\<lambda>_ _. False) (w_db w) r" using r by (simp add: fits_def)
    have "status_of r = Some ''issued''" using inst r by simp
    then have "tells decision_table r e" using e(3) by (rule tellsI) (simp add: decision_table_def)
    then show "writes E ''ResearchDecision'' (created ''ResearchDecision'' RESEARCH_DECISION_LIFECYCLE)
      (\<lambda>_ _. False) (tells decision_table) w (snd (research_decision_create E ctx d w))"
      using e f by (blast intro: writes_single)
  qed
qed

text \<open>
  ResearchScore: a transition into \<^verbatim>\<open>APPROVED\<close> found approvals in the revision it starts from;
  a revision made by \<^verbatim>\<open>revise\<close> keeps the status.
\<close>

definition revised :: "stored_object \<Rightarrow> stored_object \<Rightarrow> bool" where
  "revised l r \<longleftrightarrow>
     so_id r = so_id l \<and> so_revision r = so_revision l + 1 \<and>
     (\<exists>s. status_of l = Some s \<and> status_of r = Some s)"

definition score_step :: "env \<Rightarrow> stored_object \<Rightarrow> stored_object \<Rightarrow> bool" where
  "score_step E l r \<longleftrightarrow>
     (moved E RESEARCH_SCORE_LIFECYCLE {} l r \<and>
      (status_of r = Some ''APPROVED'' \<longrightarrow> truthy (map_of (so_body l) ''approvals''))) \<or>
     revised l r"

definition score_moves :: "(string \<times> string) list" where
  "score_moves =
     [(''DRAFT'', ''research_score.created''), (''IN_REVIEW'', ''research_score.submitted_for_review''),
      (''APPROVED'', ''research_score.approved''), (''REJECTED'', ''research_score.rejected''),
      (''ACTIVE'', ''research_score.activated''), (''SUSPENDED'', ''research_score.suspended''),
      (''SUPERSEDED'', ''research_score.superseded''), (''ARCHIVED'', ''research_score.archived'')]"

definition score_told :: "stored_object \<Rightarrow> domain_event \<Rightarrow> bool" where
  "score_told r e \<longleftrightarrow> tells score_moves r e \<or> de_event_type e = ''research_score.revised''"

datatype research_score_call =
    ScoreCreate research_score
  | ScoreRevise research_score
  | ScoreSubmit urn
  | ScoreApprove urn
  | ScoreReject urn
  | ScoreActivate urn
  | ScoreSuspend urn
  | ScoreSupersede urn
  | ScoreArchive urn

fun research_score_run :: "env \<Rightarrow> call_ctx \<times> research_score_call \<Rightarrow> world \<Rightarrow> world" where
  "research_score_run E (ctx, ScoreCreate s) w = snd (research_score_create E ctx s w)"
| "research_score_run E (ctx, ScoreRevise s) w = snd (research_score_revise E ctx s w)"
| "research_score_run E (ctx, ScoreSubmit i) w = snd (score_submit_for_review E ctx i w)"
| "research_score_run E (ctx, ScoreApprove i) w = snd (score_approve E ctx i w)"
| "research_score_run E (ctx, ScoreReject i) w = snd (score_reject E ctx i w)"
| "research_score_run E (ctx, ScoreActivate i) w = snd (score_activate E ctx i w)"
| "research_score_run E (ctx, ScoreSuspend i) w = snd (score_suspend E ctx i w)"
| "research_score_run E (ctx, ScoreSupersede i) w = snd (score_supersede E ctx i w)"
| "research_score_run E (ctx, ScoreArchive i) w = snd (score_archive E ctx i w)"

fun research_score_call_ok :: "db \<Rightarrow> call_ctx \<times> research_score_call \<Rightarrow> bool" where
  "research_score_call_ok d (_, ScoreCreate s) = lifecycle_instance ''ResearchScore'' s"
| "research_score_call_ok d (_, ScoreRevise s) =
     (lifecycle_instance ''ResearchScore'' s \<and> addressable ''ResearchScore'' d (bo_id s))"
| "research_score_call_ok d (_, ScoreSubmit i) = addressable ''ResearchScore'' d i"
| "research_score_call_ok d (_, ScoreApprove i) = addressable ''ResearchScore'' d i"
| "research_score_call_ok d (_, ScoreReject i) = addressable ''ResearchScore'' d i"
| "research_score_call_ok d (_, ScoreActivate i) = addressable ''ResearchScore'' d i"
| "research_score_call_ok d (_, ScoreSuspend i) = addressable ''ResearchScore'' d i"
| "research_score_call_ok d (_, ScoreSupersede i) = addressable ''ResearchScore'' d i"
| "research_score_call_ok d (_, ScoreArchive i) = addressable ''ResearchScore'' d i"

lemmas score_transition_defs =
  score_submit_for_review_def score_approve_def score_reject_def score_activate_def
  score_suspend_def score_supersede_def score_archive_def

lemma research_score_create_writes:
  assumes ok: "world_ok E w" and s: "lifecycle_instance ''ResearchScore'' s"
  shows "writes E ''ResearchScore'' (created ''ResearchScore'' RESEARCH_SCORE_LIFECYCLE) (score_step E)
    score_told w (snd (research_score_create E ctx s w))"
  unfolding research_score_create_def
proof (rule create_initial_writes [OF ok s prod.collapse [symmetric]])
  show "score_told (stored_of s) e" if "de_event_type e = ''research_score.created''"
    "created ''ResearchScore'' RESEARCH_SCORE_LIFECYCLE (stored_of s)" for e
    using that unfolding score_told_def
    by (intro disjI1 tellsI [OF _ that(1)]) (simp_all add: created_def governance_initial score_moves_def)
qed

lemma research_score_transition_writes:
  assumes ok: "world_ok E w" and ad: "addressable ''ResearchScore'' (w_db w) i"
    and ty: "(to, ty) \<in> set score_moves"
  shows "writes E ''ResearchScore'' first (score_step E) score_told w
    (snd (research_score_transition E ctx i to ty w))"
  unfolding research_score_transition_def
proof (rule transition_writes [OF ok prod.collapse [symmetric] ad, where ks = "{}"])
  show "score_told r e" if "status_of r = Some to" "de_event_type e = ty" for e r
    unfolding score_told_def using that ty by (blast intro: tellsI)
qed (auto simp: score_step_def approval_gate_def split: if_splits)

lemma research_score_revise_aon: "all_or_nothing (research_score_revise E ctx s)"
  unfolding research_score_revise_def case_prod_beta by (intro aon_bindp aon_ret aon_units readonly)

lemma research_score_revise_Inr:
  assumes ok: "world_ok E w" and run: "research_score_revise E ctx s w = (Inr r, w')"
  shows "\<exists>e l. committed E [r] [] e w w' \<and> announces e [r] \<and>
    de_event_type e = ''research_score.revised'' \<and> r = stored_of s \<and>
    l = last (history_of (w_db w) (bo_id s)) \<and> history_of (w_db w) (bo_id s) \<noteq> [] \<and>
    so_id l = bo_id s \<and> status_of l = Some (lo_status s) \<and> bo_revision s = so_revision l + 1"
proof -
  from run [unfolded research_score_revise_def case_prod_beta]
  obtain l e sa w1 w2 where
    s1: "get_latest_or (ScoreNotFoundError (bo_id s)) (bo_id s) w = (Inr l, w1)"
    and s2: "dget_str (so_body l) ''status'' = Inr (lo_status s)" "bo_revision s = so_revision l + 1"
    and s3: "make_event E ctx ''research_score.revised'' (now E) (last_event_id_for (bo_id s))
       (bo_id s) (bo_revision s)
       [(''from_revision'', JInt (so_revision l)), (''to_revision'', JInt (bo_revision s))] w1 = (Inr e, w2)"
    and s4: "bind_unit_of_work E (stored_of s) (Some (so_revision l)) e w2 = (Inr sa, w')" and r: "r = fst sa"
    by (elim bindp_InrE lift_InrE guardp_InrE ret_InrE) (auto simp: unit_eq)
  note l = get_latest_or_Inr [OF world_ok_parts(2) [OF ok] s1]
  note ev = make_event_Inr [OF s3 readonly_now readonly_last_event]
  have k: "same_db w w2" and eo: "event_ok e" using ev l by auto
  obtain x a where sa: "sa = (x, a)" by fastforce
  from unit_of_work_Inr [OF world_ok_same_db [OF ok k] eo s4 [unfolded sa]] have x: "x = stored_of s"
    and c: "committed E [stored_of s] [] e w2 w'" by blast+
  from c have "committed E [stored_of s] [] e w w'" by (rule committed_from [OF k])
  moreover have "announces e [stored_of s]" using ev by (simp add: announces_def)
  ultimately show ?thesis
    using ev l s2 r sa x unfolding dget_str_status by (intro exI [of _ e] exI [of _ l]) auto
qed

lemma research_score_revise_writes:
  assumes ok: "world_ok E w" and s: "lifecycle_instance ''ResearchScore'' s"
    and ad: "addressable ''ResearchScore'' (w_db w) (bo_id s)"
  shows "writes E ''ResearchScore'' first (score_step E) score_told w
    (snd (research_score_revise E ctx s w))"
proof (rule aon_writes [OF research_score_revise_aon prod.collapse [symmetric]])
  fix r assume "fst (research_score_revise E ctx s w) = Inr r"
  then have run: "research_score_revise E ctx s w = (Inr r, snd (research_score_revise E ctx s w))"
    by (metis prod.collapse)
  from research_score_revise_Inr [OF ok run] obtain e l where
    e: "committed E [r] [] e w (snd (research_score_revise E ctx s w))" "announces e [r]"
      "de_event_type e = ''research_score.revised''" and r: "r = stored_of s"
    and l: "l = last (history_of (w_db w) (bo_id s))" "history_of (w_db w) (bo_id s) \<noteq> []" "so_id l = bo_id s"
      "status_of l = Some (lo_status s)" "bo_revision s = so_revision l + 1"
    by (elim exE conjE) (rule that)
  have "revised l r" using l s r by (simp add: revised_def)
  then have "score_step E l r" by (simp add: score_step_def)
  then have f: "fits ''ResearchScore'' first (score_step E) (w_db w) r"
    using ad l s r by (simp add: fits_def addressable_def lifecycle_instance_def)
  have "score_told r e" using e(3) by (simp add: score_told_def)
  from writes_single [OF e(1,2), of score_told, OF this f]
  show "writes E ''ResearchScore'' first (score_step E) score_told w
    (snd (research_score_revise E ctx s w))" .
qed

interpretation research_scores:
  governed_service E "''ResearchScore''" "created ''ResearchScore'' RESEARCH_SCORE_LIFECYCLE"
    "score_step E" score_told "research_score_run E" research_score_call_ok for E
proof
  fix w c assume ok: "world_ok E w" and c: "research_score_call_ok (w_db w) c"
  obtain ctx k where ck: "c = (ctx, k)" by fastforce
  from c show "writes E ''ResearchScore'' (created ''ResearchScore'' RESEARCH_SCORE_LIFECYCLE)
      (score_step E) score_told w (research_score_run E c w)"
    unfolding ck
    by (cases k)
      (auto simp: score_transition_defs score_moves_def
         intro!: research_score_create_writes [OF ok] research_score_revise_writes [OF ok]
           research_score_transition_writes [OF ok])
qed

end
