(* ===== verification/Governance_Properties.thy ===== *)
theory Governance_Properties
  imports Governance_Services
begin

text \<open>
  The system of the eight governance services, with the writes of every other service between
  their calls, and what holds in each world it reaches. The invariant of a service is kept by
  its own calls and by those of the others through the locale \<open>governed_service\<close>.
\<close>

section \<open>The system\<close>

datatype governance_call =
    ProfileCall call_ctx method_profile_call
  | QuestionCall call_ctx question_model_call
  | CharterCall call_ctx concept_charter_call
  | ProtocolCall call_ctx method_protocol_call
  | MatrixCall call_ctx evidence_matrix_call
  | RulingCall call_ctx method_ruling_call
  | DecisionCall call_ctx research_decision
  | ScoreCall call_ctx research_score_call

fun governance_run :: "env \<Rightarrow> governance_call \<Rightarrow> world \<Rightarrow> world" where
  "governance_run E (ProfileCall ctx c) w = method_profile_run E (ctx, c) w"
| "governance_run E (QuestionCall ctx c) w = question_model_run E (ctx, c) w"
| "governance_run E (CharterCall ctx c) w = concept_charter_run E (ctx, c) w"
| "governance_run E (ProtocolCall ctx c) w = method_protocol_run E (ctx, c) w"
| "governance_run E (MatrixCall ctx c) w = evidence_matrix_run E (ctx, c) w"
| "governance_run E (RulingCall ctx c) w = method_ruling_run E (ctx, c) w"
| "governance_run E (DecisionCall ctx c) w = research_decision_run E (ctx, c) w"
| "governance_run E (ScoreCall ctx c) w = research_score_run E (ctx, c) w"

fun governance_call_ok :: "db \<Rightarrow> governance_call \<Rightarrow> bool" where
  "governance_call_ok d (ProfileCall ctx c) = method_profile_call_ok d (ctx, c)"
| "governance_call_ok d (QuestionCall ctx c) = question_model_call_ok d (ctx, c)"
| "governance_call_ok d (CharterCall ctx c) = concept_charter_call_ok d (ctx, c)"
| "governance_call_ok d (ProtocolCall ctx c) = method_protocol_call_ok d (ctx, c)"
| "governance_call_ok d (MatrixCall ctx c) = evidence_matrix_call_ok d (ctx, c)"
| "governance_call_ok d (RulingCall ctx c) = method_ruling_call_ok d (ctx, c)"
| "governance_call_ok d (DecisionCall ctx c) = research_decision_call_ok d (ctx, c)"
| "governance_call_ok d (ScoreCall ctx c) = research_score_call_ok d (ctx, c)"

definition governance_kinds :: "(string \<times> state_machine) list" where
  "governance_kinds =
     [(''MethodProfile'', METHOD_PROFILE_LIFECYCLE), (''QuestionModel'', QUESTION_MODEL_LIFECYCLE),
      (''ConceptCharter'', CONCEPT_CHARTER_LIFECYCLE), (''MethodProtocol'', METHOD_PROTOCOL_LIFECYCLE),
      (''EvidenceMatrix'', EVIDENCE_MATRIX_LIFECYCLE), (''MethodRuling'', METHOD_RULING_LIFECYCLE),
      (''ResearchDecision'', RESEARCH_DECISION_LIFECYCLE),
      (''ResearchScore'', RESEARCH_SCORE_LIFECYCLE)]"

text \<open>What the other services write: rows of other kinds, under ids of their own, with their events.\<close>

definition elsewhere :: "db \<Rightarrow> stored_object list \<Rightarrow> domain_event \<Rightarrow> bool" where
  "elsewhere d os e \<longleftrightarrow>
     (\<forall>r \<in> set os. \<forall>kind \<in> fst ` set governance_kinds. so_kind r \<noteq> kind \<and> \<not> is_kind kind d (so_id r)) \<and>
     de_event_type e \<noteq> ''method_profile.accepted''"

inductive governance_reach :: "env \<Rightarrow> world \<Rightarrow> bool" for E :: env where
  start: "governance_reach E empty_world"
| call: "governance_reach E w \<Longrightarrow> governance_call_ok (w_db w) c \<Longrightarrow> governance_reach E (governance_run E c w)"
| other: "governance_reach E w \<Longrightarrow> committed E os es e w w' \<Longrightarrow> elsewhere (w_db w) os e \<Longrightarrow>
            governance_reach E w'"
| idle: "governance_reach E w \<Longrightarrow> same_db w w' \<Longrightarrow> governance_reach E w'"

section \<open>The invariant\<close>

text \<open>An event that reports an accepted profile is about a MethodProfile.\<close>

definition profile_events :: "db \<Rightarrow> bool" where
  "profile_events d \<longleftrightarrow>
     (\<forall>a \<in> set (domain_events_tbl d). de_event_type (ae_event a) = ''method_profile.accepted'' \<longrightarrow>
        is_kind ''MethodProfile'' d (de_object_id (ae_event a)))"

text \<open>What each service owes, side by side.\<close>

definition governance_services ::
  "env \<Rightarrow> (string \<times> (stored_object \<Rightarrow> bool) \<times> (stored_object \<Rightarrow> stored_object \<Rightarrow> bool) \<times>
           (stored_object \<Rightarrow> domain_event \<Rightarrow> bool)) list" where
  "governance_services E =
     [(''MethodProfile'', profile_first, moved E METHOD_PROFILE_LIFECYCLE {}, tells profile_table),
      (''QuestionModel'', created ''QuestionModel'' QUESTION_MODEL_LIFECYCLE,
         moved E QUESTION_MODEL_LIFECYCLE {}, tells question_table),
      (''ConceptCharter'', created ''ConceptCharter'' CONCEPT_CHARTER_LIFECYCLE,
         moved E CONCEPT_CHARTER_LIFECYCLE {}, tells charter_table),
      (''MethodProtocol'', protocol_first, protocol_step E, tells protocol_table),
      (''EvidenceMatrix'', created ''EvidenceMatrix'' EVIDENCE_MATRIX_LIFECYCLE,
         moved E EVIDENCE_MATRIX_LIFECYCLE {}, tells matrix_table),
      (''MethodRuling'', created ''MethodRuling'' METHOD_RULING_LIFECYCLE,
         moved E METHOD_RULING_LIFECYCLE {}, tells ruling_table),
      (''ResearchDecision'', created ''ResearchDecision'' RESEARCH_DECISION_LIFECYCLE,
         \<lambda>_ _. False, tells decision_table),
      (''ResearchScore'', created ''ResearchScore'' RESEARCH_SCORE_LIFECYCLE, score_step E, score_told)]"

definition governance_ok :: "env \<Rightarrow> world \<Rightarrow> bool" where
  "governance_ok E w \<longleftrightarrow>
     (\<forall>(kind, first, step, told) \<in> set (governance_services E). service_ok E kind first step told w)"

lemma governance_okD:
  "governance_ok E w \<Longrightarrow> (kind, first, step, told) \<in> set (governance_services E) \<Longrightarrow>
     service_ok E kind first step told w"
  unfolding governance_ok_def by blast

lemma governance_ok_world: "governance_ok E w \<Longrightarrow> world_ok E w"
  by (simp add: governance_ok_def governance_services_def service_ok_def)

lemma services_same:
  "(k, f, s, t) \<in> set (governance_services E) \<Longrightarrow> (k, f', s', t') \<in> set (governance_services E) \<Longrightarrow>
     f' = f \<and> s' = s \<and> t' = t"
  unfolding governance_services_def by (simp; elim disjE conjE; simp)

text \<open>A call writes for one of the services.\<close>

lemma governance_call_writes:
  assumes ok: "world_ok E w" and c: "governance_call_ok (w_db w) c"
  shows "\<exists>k f s t. (k, f, s, t) \<in> set (governance_services E) \<and> writes E k f s t w (governance_run E c w)"
proof (cases c)
  case (ProfileCall ctx k)
  with c have "method_profile_call_ok (w_db w) (ctx, k)" by simp
  from method_profiles.run_writes [OF ok this] ProfileCall show ?thesis
    by (intro exI conjI) (auto simp: governance_services_def)
next
  case (QuestionCall ctx k)
  with c have "question_model_call_ok (w_db w) (ctx, k)" by simp
  from question_models.run_writes [OF ok this] QuestionCall show ?thesis
    by (intro exI conjI) (auto simp: governance_services_def)
next
  case (CharterCall ctx k)
  with c have "concept_charter_call_ok (w_db w) (ctx, k)" by simp
  from concept_charters.run_writes [OF ok this] CharterCall show ?thesis
    by (intro exI conjI) (auto simp: governance_services_def)
next
  case (ProtocolCall ctx k)
  with c have "method_protocol_call_ok (w_db w) (ctx, k)" by simp
  from method_protocols.run_writes [OF ok this] ProtocolCall show ?thesis
    by (intro exI conjI) (auto simp: governance_services_def)
next
  case (MatrixCall ctx k)
  with c have "evidence_matrix_call_ok (w_db w) (ctx, k)" by simp
  from evidence_matrices.run_writes [OF ok this] MatrixCall show ?thesis
    by (intro exI conjI) (auto simp: governance_services_def)
next
  case (RulingCall ctx k)
  with c have "method_ruling_call_ok (w_db w) (ctx, k)" by simp
  from method_rulings.run_writes [OF ok this] RulingCall show ?thesis
    by (intro exI conjI) (auto simp: governance_services_def)
next
  case (DecisionCall ctx k)
  with c have "research_decision_call_ok (w_db w) (ctx, k)" by simp
  from research_decisions.run_writes [OF ok this] DecisionCall show ?thesis
    by (intro exI conjI) (auto simp: governance_services_def)
next
  case (ScoreCall ctx k)
  with c have "research_score_call_ok (w_db w) (ctx, k)" by simp
  from research_scores.run_writes [OF ok this] ScoreCall show ?thesis
    by (intro exI conjI) (auto simp: governance_services_def)
qed

lemma governance_call_keeps:
  assumes ok: "governance_ok E w" and c: "governance_call_ok (w_db w) c"
  shows "governance_ok E (governance_run E c w)"
proof -
  obtain k f s t where m: "(k, f, s, t) \<in> set (governance_services E)"
    and wr: "writes E k f s t w (governance_run E c w)"
    using governance_call_writes [OF governance_ok_world [OF ok] c] by (elim exE conjE) (rule that)
  have "service_ok E k' f' s' t' (governance_run E c w)"
    if m': "(k', f', s', t') \<in> set (governance_services E)" for k' f' s' t'
  proof (cases "k' = k")
    case True
    have "f' = f \<and> s' = s \<and> t' = t" by (rule services_same [OF m m' [unfolded True]])
    with writes_keep [OF wr governance_okD [OF ok m]] True show ?thesis by simp
  next
    case False
    from wr this governance_okD [OF ok m'] show ?thesis by (rule writes_foreign)
  qed
  then show ?thesis unfolding governance_ok_def by blast
qed

lemma writes_events:
  "writes E kind first step told w w' \<Longrightarrow> (\<forall>r e. told r e \<longrightarrow> de_event_type e \<noteq> ty) \<Longrightarrow>
     filter (\<lambda>a. de_event_type (ae_event a) = ty) (domain_events_tbl (w_db w')) =
     filter (\<lambda>a. de_event_type (ae_event a) = ty) (domain_events_tbl (w_db w)) \<and>
     set (objects_tbl (w_db w)) \<subseteq> set (objects_tbl (w_db w'))"
proof (induction rule: writes.induct)
  case (still w w')
  then show ?case by (simp add: same_db_def)
next
  case (row w w1 r es e w2 w3)
  from row.hyps(2) obtain a t where a: "ae_event a = e" "w_db w2 = commit [r] es a t (w_db w1)"
    by (auto simp: committed_def)
  have "de_event_type e \<noteq> ty" using row.prems row.hyps(4) by blast
  moreover have "w_db w3 = w_db w2" using row.hyps(6) by (simp add: same_db_def)
  ultimately show ?case using row.IH [OF row.prems] a by auto
qed

lemma is_kind_mono: "set (objects_tbl d) \<subseteq> set (objects_tbl d') \<Longrightarrow> is_kind kind d i \<Longrightarrow> is_kind kind d' i"
  unfolding is_kind_def history_of_def by fastforce

lemma profile_events_others:
  assumes "profile_events (w_db w)" and "writes E kind first step told w w'"
    and "\<forall>r e. told r e \<longrightarrow> de_event_type e \<noteq> ''method_profile.accepted''"
  shows "profile_events (w_db w')"
proof -
  from writes_events [OF assms(2,3)] have
    f: "filter (\<lambda>a. de_event_type (ae_event a) = ''method_profile.accepted'') (domain_events_tbl (w_db w')) =
        filter (\<lambda>a. de_event_type (ae_event a) = ''method_profile.accepted'') (domain_events_tbl (w_db w))"
    and o: "set (objects_tbl (w_db w)) \<subseteq> set (objects_tbl (w_db w'))" by blast+
  show ?thesis
    unfolding profile_events_def
  proof (intro ballI impI)
    fix a assume a: "a \<in> set (domain_events_tbl (w_db w'))"
      "de_event_type (ae_event a) = ''method_profile.accepted''"
    then have "a \<in> set (filter (\<lambda>a. de_event_type (ae_event a) = ''method_profile.accepted'')
        (domain_events_tbl (w_db w')))" by simp
    then have "a \<in> set (domain_events_tbl (w_db w))" unfolding f by simp
    with assms(1) a(2) have "is_kind ''MethodProfile'' (w_db w) (de_object_id (ae_event a))"
      unfolding profile_events_def by blast
    with o show "is_kind ''MethodProfile'' (w_db w') (de_object_id (ae_event a))" by (rule is_kind_mono)
  qed
qed

lemma profile_events_own:
  "writes E ''MethodProfile'' first step told w w' \<Longrightarrow> profile_events (w_db w) \<Longrightarrow> profile_events (w_db w')"
proof (induction rule: writes.induct)
  case (still w w')
  then show ?case by (simp add: same_db_def)
next
  case (row w w1 r es e w2 w3)
  from row.hyps(2) obtain a t where a: "ae_event a = e" "w_db w2 = commit [r] es a t (w_db w1)"
    by (auto simp: committed_def)
  have w3: "w_db w3 = w_db w2" using row.hyps(6) by (simp add: same_db_def)
  have o: "set (objects_tbl (w_db w1)) \<subseteq> set (objects_tbl (w_db w3))" using a w3 by auto
  have k: "so_kind r = ''MethodProfile''" using row.hyps(5) by (simp add: fits_def)
  show ?case
    unfolding profile_events_def
  proof (intro ballI impI)
    fix b assume b: "b \<in> set (domain_events_tbl (w_db w3))"
      "de_event_type (ae_event b) = ''method_profile.accepted''"
    then consider "b \<in> set (domain_events_tbl (w_db w1))" | "b = a" using a w3 by auto
    then show "is_kind ''MethodProfile'' (w_db w3) (de_object_id (ae_event b))"
    proof cases
      case 1
      with row.IH [OF row.prems] b(2) have "is_kind ''MethodProfile'' (w_db w1) (de_object_id (ae_event b))"
        unfolding profile_events_def by blast
      with o show ?thesis by (rule is_kind_mono)
    next
      case 2
      have "de_object_id (ae_event b) = so_id r" using 2 a(1) row.hyps(3) by (simp add: announces_def)
      moreover have "r \<in> set (history_of (w_db w3) (so_id r))" using a w3 by (simp add: history_of_def)
      ultimately show ?thesis using k unfolding is_kind_def by metis
    qed
  qed
qed

lemma tells_other: "tells table r e \<Longrightarrow> ty \<notin> snd ` set table \<Longrightarrow> de_event_type e \<noteq> ty"
  by (force simp: tells_def)

lemma services_events:
  assumes "(k, f, s, t) \<in> set (governance_services E)" and "k \<noteq> ''MethodProfile''"
  shows "\<forall>r e. t r e \<longrightarrow> de_event_type e \<noteq> ''method_profile.accepted''"
proof -
  have "\<exists>table. ''method_profile.accepted'' \<notin> snd ` set table \<and>
      (\<forall>r e. t r e \<longrightarrow> tells table r e \<or> de_event_type e = ''research_score.revised'')"
    using assms unfolding governance_services_def
    by (simp, elim disjE conjE)
      (auto intro: exI [of _ question_table] exI [of _ charter_table] exI [of _ protocol_table]
         exI [of _ matrix_table] exI [of _ ruling_table] exI [of _ decision_table] exI [of _ score_moves]
         simp: question_table_def charter_table_def protocol_table_def matrix_table_def
           ruling_table_def decision_table_def score_moves_def score_told_def)
  then show ?thesis using tells_other by fastforce
qed

lemma governance_call_events:
  assumes ok: "world_ok E w" and p: "profile_events (w_db w)" and c: "governance_call_ok (w_db w) c"
  shows "profile_events (w_db (governance_run E c w))"
proof -
  obtain k f s t where m: "(k, f, s, t) \<in> set (governance_services E)"
    and wr: "writes E k f s t w (governance_run E c w)"
    using governance_call_writes [OF ok c] by (elim exE conjE) (rule that)
  show ?thesis
  proof (cases "k = ''MethodProfile''")
    case True
    from profile_events_own [OF wr [unfolded True] p] show ?thesis .
  next
    case False
    from profile_events_others [OF p wr services_events [OF m False]] show ?thesis .
  qed
qed

lemma services_kinds: "fst ` set (governance_services E) = fst ` set governance_kinds"
  by (simp add: governance_services_def governance_kinds_def)

lemma governance_reach_inv:
  "governance_reach E w \<Longrightarrow> governance_ok E w \<and> profile_events (w_db w)"
proof (induction rule: governance_reach.induct)
  case start
  have "profile_events (w_db empty_world)" by (simp add: profile_events_def empty_world_def empty_db_def)
  then show ?case using service_ok_empty unfolding governance_ok_def by blast
next
  case (call w c)
  then show ?case using governance_call_keeps governance_call_events governance_ok_world by blast
next
  case (other w os es e w')
  from other.hyps(2) obtain a t where a: "ae_event a = e" "w_db w' = commit os es a t (w_db w)"
    by (auto simp: committed_def)
  have "service_ok E k f s t w'" if m: "(k, f, s, t) \<in> set (governance_services E)" for k f s t
  proof (rule service_ok_foreign [OF governance_okD [OF _ m] other.hyps(2)])
    show "governance_ok E w" using other.IH by blast
    have "k \<in> fst ` set governance_kinds" using m services_kinds [of E] by (metis fst_conv imageI)
    with other.hyps(3) show "\<forall>r \<in> set os. so_kind r \<noteq> k \<and> \<not> is_kind k (w_db w) (so_id r)"
      unfolding elsewhere_def by blast
  qed
  then have "governance_ok E w'" unfolding governance_ok_def by blast
  moreover have "profile_events (w_db w')"
    unfolding profile_events_def
  proof (intro ballI impI)
    fix b assume b: "b \<in> set (domain_events_tbl (w_db w'))"
      "de_event_type (ae_event b) = ''method_profile.accepted''"
    with a other.hyps(3) have "b \<in> set (domain_events_tbl (w_db w))" by (auto simp: elsewhere_def)
    with other.IH b(2) have "is_kind ''MethodProfile'' (w_db w) (de_object_id (ae_event b))"
      unfolding profile_events_def by blast
    then show "is_kind ''MethodProfile'' (w_db w') (de_object_id (ae_event b))"
      by (rule is_kind_mono [rotated]) (auto simp: a)
  qed
  ultimately show ?case by blast
next
  case (idle w w')
  moreover have "w_db w' = w_db w" using idle(2) by (simp add: same_db_def)
  ultimately show ?case using service_ok_same_db unfolding governance_ok_def by fastforce
qed

lemma reach_service:
  "governance_reach E w \<Longrightarrow> (k, f, s, t) \<in> set (governance_services E) \<Longrightarrow> service_ok E k f s t w"
  using governance_reach_inv governance_okD by blast

lemma reach_world: "governance_reach E w \<Longrightarrow> world_ok E w"
  using governance_reach_inv governance_ok_world by blast

lemma protocol_obeys: "obeys METHOD_PROTOCOL_LIFECYCLE protocol_first (protocol_step E)"
  unfolding obeys_def protocol_first_def created_def protocol_step_def moved_def by blast

lemma score_obeys: "obeys RESEARCH_SCORE_LIFECYCLE (created ''ResearchScore'' RESEARCH_SCORE_LIFECYCLE) (score_step E)"
  unfolding obeys_def created_def score_step_def moved_def revised_def by blast

lemma profile_obeys: "obeys METHOD_PROFILE_LIFECYCLE profile_first (moved E METHOD_PROFILE_LIFECYCLE {})"
  unfolding obeys_def profile_first_def created_def moved_def by blast

lemma decision_obeys:
  "obeys RESEARCH_DECISION_LIFECYCLE (created ''ResearchDecision'' RESEARCH_DECISION_LIFECYCLE) (\<lambda>_ _. False)"
  unfolding obeys_def created_def by blast

lemma services_obey_each:
  "list_all2 (\<lambda>(k, M) (k', f, s, t). k' = k \<and> obeys M f s) governance_kinds (governance_services E)"
  by (simp add: governance_kinds_def governance_services_def profile_obeys protocol_obeys score_obeys
      decision_obeys obeys_moved)

lemma services_obey:
  assumes "(kind, M) \<in> set governance_kinds"
  shows "\<exists>f s t. (kind, f, s, t) \<in> set (governance_services E) \<and> obeys M f s"
proof -
  obtain n where n: "n < length governance_kinds" "governance_kinds ! n = (kind, M)"
    using assms by (metis in_set_conv_nth)
  note each = services_obey_each [of E, unfolded list_all2_conv_all_nth]
  obtain k f s t where v: "governance_services E ! n = (k, f, s, t)" by (metis prod.collapse)
  have "k = kind" "obeys M f s" using each n v by fastforce+
  moreover have "(k, f, s, t) \<in> set (governance_services E)" using each n v by (metis nth_mem)
  ultimately show ?thesis by blast
qed

section \<open>Sample worlds\<close>

lemma reach_create:
  assumes r: "governance_reach E w" and ctx: "ctx_ok ctx" and E: "env_total E"
    and fresh: "event_id_at E (w_ticks w) \<notin> set (event_ids (w_db w))"
    and c: "lo_status c = sm_initial M" "bo_revision c = 1" "is_valid_urn (bo_id c)"
      "history_of (w_db w) (bo_id c) = []" "non_empty ty"
    and call: "governance_call_ok (w_db w) k"
      "governance_run E k w = snd (create_in_initial_state E ctx M c ty p w)"
  obtains w' where "governance_reach E w'" and "history_of (w_db w') (bo_id c) = [stored_of c]"
    and "w_ticks w' = w_ticks w + 3"
    and "event_ids (w_db w') = event_ids (w_db w) @ [event_id_at E (w_ticks w)]"
proof -
  note ok = reach_world [OF r]
  obtain w' where run: "create_in_initial_state E ctx M c ty p w = (Inr (stored_of c), w')"
    and t: "w_ticks w' = w_ticks w + 3" "event_ids (w_db w') = event_ids (w_db w) @ [event_id_at E (w_ticks w)]"
    using create_initial_run [OF ok ctx E fresh c] by blast
  have "governance_reach E w'" using governance_reach.call [OF r call(1)] call(2) run by simp
  moreover from create_initial_Inr [OF ok run] obtain e where "committed E [stored_of c] [] e w w'" by blast
  then have "history_of (w_db w') (bo_id c) = [stored_of c]"
    using c(4) by (simp add: committed_tables(1) history_of_def)
  ultimately show thesis using t by (rule that)
qed

lemma reach_transition:
  assumes r: "governance_reach E w" and ctx: "ctx_ok ctx" and E: "env_total E"
    and fresh: "event_id_at E (Suc (w_ticks w)) \<notin> set (event_ids (w_db w))"
    and i: "is_valid_urn i" and ne: "history_of (w_db w) i \<noteq> []"
    and st: "status_of (last (history_of (w_db w) i)) = Some s" "can_transition M s to"
    and gate: "gate (last (history_of (w_db w) i)) = Inr ()" and ty: "non_empty ty"
    and call: "governance_call_ok (w_db w) k"
      "governance_run E k w = snd (transition_object E ctx M x gate edit no_gate p i to ty w)"
    and edit: "\<And>t body k. k \<notin> ks \<Longrightarrow> map_of (edit t body) k = map_of body k" and nst: "''status'' \<notin> ks"
  obtains w' q where "governance_reach E w'" and "history_of (w_db w') i = history_of (w_db w) i @ [q]"
    and "status_of q = Some to" and "so_kind q = so_kind (last (history_of (w_db w) i))"
    and "\<forall>k. k \<notin> {''status''} \<union> ks \<union> bookkeeping \<longrightarrow>
       map_of (so_body q) k = map_of (so_body (last (history_of (w_db w) i))) k"
    and "w_ticks w' = w_ticks w + 3"
    and "event_ids (w_db w') = event_ids (w_db w) @ [event_id_at E (Suc (w_ticks w))]"
proof -
  note ok = reach_world [OF r]
  obtain q w' where run: "transition_object E ctx M x gate edit no_gate p i to ty w = (Inr q, w')"
    and t: "w_ticks w' = w_ticks w + 3"
      "event_ids (w_db w') = event_ids (w_db w) @ [event_id_at E (Suc (w_ticks w))]"
    using transition_object_run [where gate = gate and edit = edit and val = no_gate and x = x and p = p,
        OF ok ctx E fresh i ne st gate ty] by auto
  have rw: "governance_reach E w'" using governance_reach.call [OF r call(1)] call(2) run by simp
  from transition_object_Inr [OF ok run] obtain e latest frm t h b where
    c: "committed E [q] [] e w w'"
    and l: "latest = last (history_of (w_db w) i)" "so_id latest = i"
    and q: "q = next_object latest (so_revision latest + 1) t (cx_actor ctx) h b"
    and fb: "finish_body E (so_revision latest + 1) t (cx_actor ctx)
      (edit t (dset ''status'' (JStr to) (so_body latest))) = Inr (h, b)"
    by (elim exE conjE) (rule that)
  show thesis
  proof (rule that [OF rw _ _ _ _ t])
    show "history_of (w_db w') i = history_of (w_db w) i @ [q]"
      using q l(2) by (simp add: committed_tables(1) [OF c] history_of_def)
    show "status_of q = Some to"
      using finish_body_Inr(5) [OF fb, of "''status''"] edit [OF nst] by (simp add: q status_of_Some)
    show "so_kind q = so_kind (last (history_of (w_db w) i))" by (simp add: q l(1))
    show "\<forall>k. k \<notin> {''status''} \<union> ks \<union> bookkeeping \<longrightarrow>
       map_of (so_body q) k = map_of (so_body (last (history_of (w_db w) i))) k"
    proof (intro allI impI)
      fix k assume "k \<notin> {''status''} \<union> ks \<union> bookkeeping"
      then show "map_of (so_body q) k = map_of (so_body (last (history_of (w_db w) i))) k"
        using finish_body_Inr(5) [OF fb, of k] edit [of k] by (simp add: q l(1) bookkeeping_def)
    qed
  qed
qed

lemma reach_status:
  assumes "governance_reach E w" and "ctx_ok ctx" and "env_total E"
    and "event_id_at E (Suc (w_ticks w)) \<notin> set (event_ids (w_db w))"
    and "is_valid_urn i" and "history_of (w_db w) i \<noteq> []"
    and "status_of (last (history_of (w_db w) i)) = Some s" and "can_transition M s to"
    and "gate (last (history_of (w_db w) i)) = Inr ()" and "non_empty ty"
    and "governance_call_ok (w_db w) k"
    and "governance_run E k w = snd (transition_object E ctx M x gate status_only no_gate p i to ty w)"
  obtains w' q where "governance_reach E w'" and "history_of (w_db w') i = history_of (w_db w) i @ [q]"
    and "status_of q = Some to" and "so_kind q = so_kind (last (history_of (w_db w) i))"
    and "\<forall>k. k \<notin> {''status''} \<union> {} \<union> bookkeeping \<longrightarrow>
       map_of (so_body q) k = map_of (so_body (last (history_of (w_db w) i))) k"
    and "w_ticks w' = w_ticks w + 3"
    and "event_ids (w_db w') = event_ids (w_db w) @ [event_id_at E (Suc (w_ticks w))]"
  by (rule reach_transition [OF assms(1-12), of "{}"]) (simp, simp, rule that)

section \<open>The properties\<close>

text \<open>
  C6. Every governed object follows its lifecycle: in each world reached by calls of the eight
  services, each on the id of an object of the service's own kind or on an id not in use, and by
  writes of the others under ids of their own, all revisions of an object of a governed kind have
  that kind, and their statuses, without repetitions, start in the initial state of the kind's
  machine and move along its edges. The condition on the ids is needed: the services look an object
  up by its id alone, and \<open>Addressing\<close> shows an accept that moves a draft of any kind.
\<close>

theorem governed_objects_follow_lifecycles:
  assumes "governance_reach E w" and "(kind, M) \<in> set governance_kinds" and "is_kind kind (w_db w) i"
  shows "(\<forall>r \<in> set (history_of (w_db w) i). so_kind r = kind) \<and>
    (\<exists>ss. statuses (w_db w) i = map Some ss \<and> history M (remdups_adj ss))"
proof -
  obtain f s t where m: "(kind, f, s, t) \<in> set (governance_services E)" and o: "obeys M f s"
    using services_obey [OF assms(2)] by blast
  have g: "governed kind f s (w_db w)" using reach_service [OF assms(1) m] by (simp add: service_ok_def)
  from governedD [OF g assms(3)] governed_lifecycle [OF g o assms(3)] show ?thesis by blast
qed

text \<open>How a score got to be startable: walking back to its approval.\<close>

lemma score_into_startable:
  "can_transition RESEARCH_SCORE_LIFECYCLE a ''APPROVED'' \<longleftrightarrow> a = ''IN_REVIEW''"
  "can_transition RESEARCH_SCORE_LIFECYCLE a ''ACTIVE'' \<longleftrightarrow> a = ''APPROVED''"
  by (auto simp: machine_defs can_transition_def)

lemma score_approved_before:
  assumes "successively (score_step E) h" and "h \<noteq> []" and "status_of (hd h) = Some ''DRAFT''"
    and "n < length h" and "status_of (h ! n) \<in> {Some ''APPROVED'', Some ''ACTIVE''}"
  shows "\<exists>k < n. status_of (h ! k) = Some ''IN_REVIEW'' \<and> truthy (map_of (so_body (h ! k)) ''approvals'') \<and>
    status_of (h ! Suc k) = Some ''APPROVED''"
  using assms(4,5)
proof (induction n)
  case 0
  with assms(2,3) show ?case by (simp add: hd_conv_nth)
next
  case (Suc n)
  have st: "score_step E (h ! n) (h ! Suc n)"
    using assms(1) Suc.prems(1) by (simp add: successively_conv_nth)
  show ?case
  proof (cases "revised (h ! n) (h ! Suc n)")
    case True
    then have "status_of (h ! n) = status_of (h ! Suc n)" by (auto simp: revised_def)
    with Suc show ?thesis by (metis Suc_lessD less_SucI)
  next
    case False
    with st have m: "moved E RESEARCH_SCORE_LIFECYCLE {} (h ! n) (h ! Suc n)"
      and ap: "status_of (h ! Suc n) = Some ''APPROVED'' \<longrightarrow> truthy (map_of (so_body (h ! n)) ''approvals'')"
      by (simp_all add: score_step_def)
    from m obtain a b where ab: "status_of (h ! n) = Some a" "status_of (h ! Suc n) = Some b"
      "can_transition RESEARCH_SCORE_LIFECYCLE a b" by (auto simp: moved_def)
    show ?thesis
    proof (cases "b = ''APPROVED''")
      case True
      with ab(3) have "a = ''IN_REVIEW''" using score_into_startable(1) by simp
      with ab ap True show ?thesis by (intro exI [of _ n]) simp
    next
      case False
      with ab Suc.prems(2) have "b = ''ACTIVE''" by auto
      with ab(3) have "a = ''APPROVED''" using score_into_startable(2) by simp
      with ab Suc have "\<exists>k < n. status_of (h ! k) = Some ''IN_REVIEW'' \<and>
          truthy (map_of (so_body (h ! k)) ''approvals'') \<and> status_of (h ! Suc k) = Some ''APPROVED''"
        by simp
      then show ?thesis by (meson less_SucI)
    qed
  qed
qed

lemma ensure_can_start_Inr:
  assumes "objects_ok (w_db w)" and "ensure_can_start_work i w = (Inr r, w')"
  shows "w' = w \<and> history_of (w_db w) i \<noteq> [] \<and> r = last (history_of (w_db w) i) \<and>
    (\<exists>s. status_of r = Some s \<and> s \<in> startable_statuses)"
proof -
  from assms(2) [unfolded ensure_can_start_work_def] obtain l s w1 where
    s1: "get_latest_or (ScoreNotFoundError i) i w = (Inr l, w1)"
    and s2: "dget_str (so_body l) ''status'' = Inr s" "s \<in> startable_statuses" "r = l" "w' = w1"
    by (elim bindp_InrE lift_InrE guardp_InrE ret_InrE) (auto simp: unit_eq)
  from get_latest_or_Inr [OF assms(1) s1] s2 show ?thesis unfolding dget_str_status by blast
qed

text \<open>
  C7. Work starts only from an approved score: when \<open>ensure_can_start_work\<close> lets a score
  through, the revision it returns is the latest one and shows \<^verbatim>\<open>APPROVED\<close> or \<^verbatim>\<open>ACTIVE\<close>, and
  the history of the score contains the approval: a revision in review with recorded approvals,
  directly followed by an approved one. Nothing is written.
\<close>

theorem work_starts_only_after_approval:
  assumes "governance_reach E w" and "addressable ''ResearchScore'' (w_db w) i"
    and "ensure_can_start_work i w = (Inr r, w')"
  shows "w' = w \<and> history_of (w_db w) i \<noteq> [] \<and> r = last (history_of (w_db w) i) \<and>
    status_of r \<in> {Some ''APPROVED'', Some ''ACTIVE''} \<and>
    (\<exists>k. Suc k < length (history_of (w_db w) i) \<and>
       status_of (history_of (w_db w) i ! k) = Some ''IN_REVIEW'' \<and>
       truthy (map_of (so_body (history_of (w_db w) i ! k)) ''approvals'') \<and>
       status_of (history_of (w_db w) i ! Suc k) = Some ''APPROVED'')"
proof -
  let ?h = "history_of (w_db w) i"
  from ensure_can_start_Inr [OF world_ok_parts(2) [OF reach_world [OF assms(1)]] assms(3)] have
    r: "w' = w" "?h \<noteq> []" "r = last ?h" "status_of r \<in> {Some ''APPROVED'', Some ''ACTIVE''}"
    by (auto simp: startable_statuses_def)
  have m: "(''ResearchScore'', created ''ResearchScore'' RESEARCH_SCORE_LIFECYCLE, score_step E, score_told)
      \<in> set (governance_services E)" by (simp add: governance_services_def)
  have k: "is_kind ''ResearchScore'' (w_db w) i"
    using r(2) assms(2) unfolding is_kind_def addressable_def by (metis last_in_set)
  have g: "governed ''ResearchScore'' (created ''ResearchScore'' RESEARCH_SCORE_LIFECYCLE) (score_step E) (w_db w)"
    using reach_service [OF assms(1) m] by (simp add: service_ok_def)
  have hd: "status_of (hd ?h) = Some ''DRAFT''" and s: "successively (score_step E) ?h"
    using governedD [OF g k] by (simp_all add: created_def governance_initial)
  have "length ?h - 1 < length ?h" "?h ! (length ?h - 1) = r" using r by (simp_all add: last_conv_nth)
  with score_approved_before [OF s r(2) hd, of "length ?h - 1"] r(4) obtain k where
    "k < length ?h - 1" "status_of (?h ! k) = Some ''IN_REVIEW''"
    "truthy (map_of (so_body (?h ! k)) ''approvals'')" "status_of (?h ! Suc k) = Some ''APPROVED''"
    by auto
  with r show ?thesis by (intro conjI exI [of _ k]) auto
qed

text \<open>No call leads out of \<^verbatim>\<open>locked\<close>: the machine allows it only into states no call asks for.\<close>

lemma protocol_step_from_locked:
  assumes "status_of l = Some ''locked''"
  shows "\<not> protocol_step E l r"
proof
  assume "protocol_step E l r"
  then have "\<exists>a b. status_of l = Some a \<and> status_of r = Some b \<and> can_transition METHOD_PROTOCOL_LIFECYCLE a b"
    and r: "status_of r = Some ''reviewed'' \<or> status_of r = Some ''locked''"
    unfolding protocol_step_def moved_def by blast+
  then obtain b where b: "status_of r = Some b" "can_transition METHOD_PROTOCOL_LIFECYCLE ''locked'' b"
    using assms by force
  from r show False
  proof
    assume "status_of r = Some ''reviewed''"
    with b(1) have "b = ''reviewed''" by simp
    with b(2) show False by (simp add: machine_defs can_transition_def)
  next
    assume "status_of r = Some ''locked''"
    with b(1) have "b = ''locked''" by simp
    with b(2) show False by (simp add: machine_defs can_transition_def)
  qed
qed

lemma successively_last:
  assumes "successively P h" and "x \<in> set h" and "\<And>y. \<not> P x y"
  shows "x = last h"
proof -
  obtain n where n: "n < length h" "h ! n = x" using assms(2) by (metis in_set_conv_nth)
  have "\<not> Suc n < length h" using assms(1,3) n by (metis successively_conv_nth)
  with n have "n = length h - 1" by simp
  with n assms(2) show ?thesis by (metis last_conv_nth length_greater_0_conv length_pos_if_in_set)
qed

lemma successively_pred:
  assumes "successively P h" and "h \<noteq> []" and "length h \<noteq> 1"
  shows "P (h ! (length h - 2)) (last h)"
proof -
  obtain m where m: "length h = Suc (Suc m)" using assms(2,3) by (metis One_nat_def length_0_conv old.nat.exhaust)
  with assms(1) have "P (h ! m) (h ! Suc m)" by (simp add: successively_conv_nth)
  with m assms(2) show ?thesis by (simp add: last_conv_nth)
qed

text \<open>
  A locked protocol is final and says who locked it: in each reachable world a revision of
  a MethodProtocol with status \<^verbatim>\<open>locked\<close> is the last one of its object; it names as lock the
  actor and the time of its own revision; every other field is the one that was reviewed in the
  revision before it; its content hash covers the body; and the log holds the
  \<^verbatim>\<open>method_protocol.locked\<close> event of that revision.
\<close>

lemma locked_protocol_is_final:
  assumes "governance_reach E w" and "is_kind ''MethodProtocol'' (w_db w) i"
    and "r \<in> set (history_of (w_db w) i)" and "status_of r = Some ''locked''"
  shows "r = last (history_of (w_db w) i) \<and> locked_here r \<and>
    compute_content_hash E (so_body r) = Inr (so_content_hash r) \<and>
    (\<exists>l. l = history_of (w_db w) i ! (length (history_of (w_db w) i) - 2) \<and>
       status_of l = Some ''reviewed'' \<and>
       (\<forall>k. k \<notin> {''status'', ''locked_at'', ''locked_by''} \<union> bookkeeping \<longrightarrow>
          map_of (so_body r) k = map_of (so_body l) k)) \<and>
    (\<exists>a \<in> set (domain_events_tbl (w_db w)). announces (ae_event a) [r] \<and>
       de_event_type (ae_event a) = ''method_protocol.locked'')"
proof -
  let ?h = "history_of (w_db w) i"
  have m: "(''MethodProtocol'', protocol_first, protocol_step E, tells protocol_table)
      \<in> set (governance_services E)" by (simp add: governance_services_def)
  from reach_service [OF assms(1) m] have g: "governed ''MethodProtocol'' protocol_first (protocol_step E) (w_db w)"
    and a: "accounted ''MethodProtocol'' (tells protocol_table) (w_db w)" by (simp_all add: service_ok_def)
  have k: "so_kind r = ''MethodProtocol''" and f: "protocol_first (hd ?h)" and s: "successively (protocol_step E) ?h"
    using governedD [OF g assms(2)] assms(3) by blast+
  have last: "r = last ?h" by (rule successively_last [OF s assms(3) protocol_step_from_locked [OF assms(4)]])
  have ne: "?h \<noteq> []" using assms(3) by auto
  have "length ?h \<noteq> 1"
  proof
    assume "length ?h = 1"
    with last ne have "r = hd ?h" by (metis hd_conv_nth last_conv_nth diff_self_eq_0)
    with f assms(4) show False by (simp add: protocol_first_def created_def governance_initial)
  qed
  from successively_pred [OF s ne this] last assms(4) have
    st: "moved E METHOD_PROTOCOL_LIFECYCLE {''locked_at'', ''locked_by''} (?h ! (length ?h - 2)) r" "locked_here r"
    by (auto simp: protocol_step_def)
  from st(1) assms(4) obtain x where "status_of (?h ! (length ?h - 2)) = Some x"
    "can_transition METHOD_PROTOCOL_LIFECYCLE x ''locked''" by (auto simp: moved_def)
  then have "status_of (?h ! (length ?h - 2)) = Some ''reviewed''" using protocol_into_locked by simp
  moreover have "\<forall>k. k \<notin> {''status'', ''locked_at'', ''locked_by''} \<union> bookkeeping \<longrightarrow>
      map_of (so_body r) k = map_of (so_body (?h ! (length ?h - 2))) k"
    using st(1) unfolding moved_def by auto
  moreover have "r \<in> set (objects_tbl (w_db w))" using assms(3) by (simp add: history_of_def)
  with a k obtain b where "b \<in> set (domain_events_tbl (w_db w))" "announces (ae_event b) [r]"
    "tells protocol_table r (ae_event b)" unfolding accounted_def by blast
  moreover from this(3) assms(4) have "de_event_type (ae_event b) = ''method_protocol.locked''"
    by (auto simp: tells_def protocol_table_def)
  moreover have "compute_content_hash E (so_body r) = Inr (so_content_hash r)" using st(1) by (simp add: moved_def)
  ultimately have "?thesis \<longleftrightarrow> r = last ?h \<and> locked_here r" by blast
  with last st(2) show ?thesis by blast
qed

text \<open>What a profile offers: its latest revision is accepted and declares the capability.\<close>

definition offers :: "db \<Rightarrow> string \<Rightarrow> string \<Rightarrow> bool" where
  "offers d capability i \<longleftrightarrow>
     (let r = last (history_of d i) in
        status_of r = Some ''accepted'' \<and>
        (\<exists>fs. map_of (so_body r) ''executor_task_family'' = Some (JArr (map JStr fs)) \<and>
           capability \<in> set fs))"

text \<open>The rows of profiles can be read.\<close>

lemma profile_rows:
  assumes r: "governance_reach E w" and k: "is_kind ''MethodProfile'' (w_db w) i"
  shows "history_of (w_db w) i \<noteq> [] \<and> (\<exists>s fs. status_of (last (history_of (w_db w) i)) = Some s \<and>
    map_of (so_body (last (history_of (w_db w) i))) ''executor_task_family'' = Some (JArr (map JStr fs)))"
proof -
  let ?h = "history_of (w_db w) i"
  have m: "(''MethodProfile'', profile_first, moved E METHOD_PROFILE_LIFECYCLE {}, tells profile_table)
      \<in> set (governance_services E)" by (simp add: governance_services_def)
  have g: "governed ''MethodProfile'' profile_first (moved E METHOD_PROFILE_LIFECYCLE {}) (w_db w)"
    using reach_service [OF r m] by (simp add: service_ok_def)
  have ne: "?h \<noteq> []" using k by (auto simp: is_kind_def)
  then have l: "last ?h \<in> set (objects_tbl (w_db w))" "so_kind (last ?h) = ''MethodProfile''"
    using governedD [OF g k] last_in_set [OF ne] by (auto simp: history_of_def)
  have "\<exists>s. status_of (last ?h) = Some s"
    by (rule governed_all [OF g l]) (auto simp: profile_first_def created_def moved_def)
  moreover have "\<exists>fs. map_of (so_body (last ?h)) ''executor_task_family'' = Some (JArr (map JStr fs))"
    by (rule governed_all [OF g l]) (auto simp: profile_first_def moved_def bookkeeping_def)
  ultimately show ?thesis using ne by blast
qed

lemma collect_accepted_run:
  assumes r: "governance_reach E w"
    and ev: "\<forall>a \<in> set as. de_event_type (ae_event a) = ''method_profile.accepted'' \<longrightarrow>
      is_kind ''MethodProfile'' (w_db w) (de_object_id (ae_event a))"
    and m: "distinct ms" "set ms \<subseteq> set seen"
  shows "\<exists>ids. collect_accepted c as seen ms w = (Inr ids, w) \<and> distinct ids \<and>
    set ids = set ms \<union> {i. i \<notin> set seen \<and> offers (w_db w) c i \<and>
      (\<exists>a \<in> set as. de_event_type (ae_event a) = ''method_profile.accepted'' \<and> de_object_id (ae_event a) = i)}"
  using ev m
proof (induction as arbitrary: seen ms)
  case Nil
  then show ?case by (simp add: ret_run)
next
  case (Cons a as)
  note oo = world_ok_parts(2) [OF reach_world [OF r]]
  let ?i = "de_object_id (ae_event a)"
  have ev': "\<forall>a \<in> set as. de_event_type (ae_event a) = ''method_profile.accepted'' \<longrightarrow>
      is_kind ''MethodProfile'' (w_db w) (de_object_id (ae_event a))" using Cons.prems(1) by simp
  show ?case
  proof (cases "de_event_type (ae_event a) = ''method_profile.accepted'' \<and> ?i \<notin> set seen")
    case False
    then have "collect_accepted c (a # as) seen ms w = collect_accepted c as seen ms w" by auto
    with Cons.IH [OF ev' Cons.prems(2,3)] False show ?thesis by auto
  next
    case True
    with Cons.prems(1) have k: "is_kind ''MethodProfile'' (w_db w) ?i" by simp
    let ?l = "last (history_of (w_db w) ?i)"
    from profile_rows [OF r k] obtain s fs where ne: "history_of (w_db w) ?i \<noteq> []"
      and s: "status_of ?l = Some s"
      and fs: "map_of (so_body ?l) ''executor_task_family'' = Some (JArr (map JStr fs))" by blast
    have g: "get_latest ?i w = (Inr ?l, w)" using ne by (simp add: get_latest_run [OF oo] last_opt_def)
    have d: "dget_str (so_body ?l) ''status'' = Inr s" unfolding dget_str_status by (rule s)
    have f: "dget_strs (so_body ?l) ''executor_task_family'' = Inr fs" using fs by simp
    let ?ms = "if s = ''accepted'' \<and> c \<in> set fs then ms @ [?i] else ms"
    have run: "collect_accepted c (a # as) seen ms w = collect_accepted c as (?i # seen) ?ms w"
      using True d f
      by (auto simp: Let_def catchp_def bindp_def g ret_run lift_run simp del: dget_str_Inr dget_strs_Inr)
    have off: "offers (w_db w) c ?i \<longleftrightarrow> s = ''accepted'' \<and> c \<in> set fs"
      using s fs by (auto simp: offers_def Let_def inj_map_eq_map inj_def)
    have ms: "distinct ?ms" "set ?ms \<subseteq> set (?i # seen)" using Cons.prems True by auto
    from Cons.IH [OF ev' ms] obtain ids where ids: "collect_accepted c as (?i # seen) ?ms w = (Inr ids, w)"
      "distinct ids" "set ids = set ?ms \<union> {i. i \<notin> set (?i # seen) \<and> offers (w_db w) c i \<and>
        (\<exists>a \<in> set as. de_event_type (ae_event a) = ''method_profile.accepted'' \<and> de_object_id (ae_event a) = i)}"
      by blast
    have "set ids = set ms \<union> {i. i \<notin> set seen \<and> offers (w_db w) c i \<and>
      (\<exists>a \<in> set (a # as). de_event_type (ae_event a) = ''method_profile.accepted'' \<and> de_object_id (ae_event a) = i)}"
      using ids(3) True off by auto
    with ids run show ?thesis by auto
  qed
qed

text \<open>
  Discovery through the log is exact: \<open>find_accepted_by_capability\<close> reads the accepted
  events and resolves each object again, and returns, without a repetition and without changing
  anything, exactly the MethodProfiles whose latest revision is accepted and declares the
  capability: none is missed, and a superseded one is not among them.
\<close>

lemma find_accepted_by_capability_exact:
  assumes "governance_reach E w"
  shows "\<exists>ids. find_accepted_by_capability c w = (Inr ids, w) \<and> distinct ids \<and>
    set ids = {i. is_kind ''MethodProfile'' (w_db w) i \<and> offers (w_db w) c i}"
proof -
  have p: "profile_events (w_db w)" using governance_reach_inv [OF assms] by blast
  note lg = world_ok_parts(1) [OF reach_world [OF assms]]
  have m: "(''MethodProfile'', profile_first, moved E METHOD_PROFILE_LIFECYCLE {}, tells profile_table)
      \<in> set (governance_services E)" by (simp add: governance_services_def)
  have acc: "accounted ''MethodProfile'' (tells profile_table) (w_db w)"
    and g: "governed ''MethodProfile'' profile_first (moved E METHOD_PROFILE_LIFECYCLE {}) (w_db w)"
    using reach_service [OF assms m] by (simp_all add: service_ok_def)
  from collect_accepted_run [OF assms, of "domain_events_tbl (w_db w)" "[]" "[]" c] p obtain ids where
    ids: "collect_accepted c (domain_events_tbl (w_db w)) [] [] w = (Inr ids, w)" "distinct ids"
    "set ids = {i. offers (w_db w) c i \<and> (\<exists>a \<in> set (domain_events_tbl (w_db w)).
       de_event_type (ae_event a) = ''method_profile.accepted'' \<and> de_object_id (ae_event a) = i)}"
    by (auto simp: profile_events_def)
  have ex: "\<exists>a \<in> set (domain_events_tbl (w_db w)).
      de_event_type (ae_event a) = ''method_profile.accepted'' \<and> de_object_id (ae_event a) = i"
    if k: "is_kind ''MethodProfile'' (w_db w) i" and o: "offers (w_db w) c i" for i
  proof -
    let ?l = "last (history_of (w_db w) i)"
    have ne: "history_of (w_db w) i \<noteq> []" using k by (auto simp: is_kind_def)
    then have l: "?l \<in> set (objects_tbl (w_db w))" "so_kind ?l = ''MethodProfile''" "so_id ?l = i"
      using governedD [OF g k] last_in_set [OF ne] by (auto simp: history_of_def)
    with acc obtain a where a: "a \<in> set (domain_events_tbl (w_db w))" "announces (ae_event a) [?l]"
      "tells profile_table ?l (ae_event a)" unfolding accounted_def by blast
    have "de_event_type (ae_event a) = ''method_profile.accepted''"
      using a(3) o by (auto simp: tells_def profile_table_def offers_def Let_def)
    moreover have "de_object_id (ae_event a) = i" using a(2) l(3) by (simp add: announces_def)
    ultimately show ?thesis using a(1) by blast
  qed
  have "set ids = {i. is_kind ''MethodProfile'' (w_db w) i \<and> offers (w_db w) c i}"
    unfolding ids(3)
  proof (rule Collect_cong, rule iffI)
    fix i assume "offers (w_db w) c i \<and> (\<exists>a \<in> set (domain_events_tbl (w_db w)).
       de_event_type (ae_event a) = ''method_profile.accepted'' \<and> de_object_id (ae_event a) = i)"
    with p show "is_kind ''MethodProfile'' (w_db w) i \<and> offers (w_db w) c i"
      unfolding profile_events_def by blast
  qed (use ex in blast)
  moreover have "find_accepted_by_capability c w = (Inr ids, w)"
    using ids(1) by (simp add: find_accepted_by_capability_def bindp_def read_all_run [OF lg])
  ultimately show ?thesis using ids(2) by (intro exI [of _ ids] conjI)
qed

section \<open>Sample runs and witnesses\<close>

lemma entity_ok_governance [simp]:
  "entity_ok ''score''" "entity_ok ''method-protocol''" "entity_ok ''method-profile''"
  by (simp_all add: entity_ok_def entity_char_def less_eq_char_def)

definition sample_governed :: "string \<Rightarrow> string \<Rightarrow> string \<Rightarrow> dict \<Rightarrow> lifecycle_object" where
  "sample_governed entity kind status rest =
     \<lparr>bo_id = sample_urn entity, bo_api_version = ''mrr/v1alpha1'', bo_kind = kind,
      bo_practice_id = sample_urn ''practice'', bo_revision = 1, bo_created_at = 1700000000000000,
      bo_created_by = sample_urn ''human'', bo_content_hash = content_hash ''{}'',
      bo_supersedes = None, bo_labels = None, bo_dump = (''status'', JStr status) # rest,
      lo_status = status\<rparr>"

definition sample_score :: research_score where
  "sample_score = sample_governed ''score'' ''ResearchScore'' ''DRAFT''
     [(''approvals'', JArr [JStr (sample_urn ''human'')])]"

lemma sample_score_simps [simp]:
  "bo_id sample_score = sample_urn ''score''" "bo_kind sample_score = ''ResearchScore''"
  "lo_status sample_score = ''DRAFT''" "bo_revision sample_score = 1"
  "lifecycle_instance ''ResearchScore'' sample_score"
  "map_of (bo_dump sample_score) ''approvals'' = Some (JArr [JStr (sample_urn ''human'')])"
  by (simp_all add: sample_score_def sample_governed_def lifecycle_instance_def)

lemma score_edges:
  "can_transition RESEARCH_SCORE_LIFECYCLE ''DRAFT'' ''IN_REVIEW''"
  "can_transition RESEARCH_SCORE_LIFECYCLE ''IN_REVIEW'' ''APPROVED''"
  by (simp_all add: machine_defs can_transition_def)

lemma non_empty_types:
  "non_empty ''research_score.created''" "non_empty ''research_score.submitted_for_review''"
  "non_empty ''research_score.approved''" "non_empty ''method_protocol.created''"
  "non_empty ''method_protocol.reviewed''" "non_empty ''method_protocol.locked''"
  "non_empty ''method_profile.proposed''" "non_empty ''method_profile.accepted''"
  by (simp_all add: non_empty_def is_space_def)

text \<open>A score that was created, submitted and approved.\<close>

lemma approved_score_world:
  obtains w r1 r2 where "governance_reach sample_env w"
    and "history_of (w_db w) (sample_urn ''score'') = [stored_of sample_score, r1, r2]"
    and "status_of r2 = Some ''APPROVED''" and "so_kind r1 = ''ResearchScore''" "so_kind r2 = ''ResearchScore''"
proof -
  let ?i = "sample_urn ''score''" and ?E = sample_env
  let ?c = "\<lambda>c. ScoreCall sample_ctx c"
  have vi: "is_valid_urn ?i" by simp
  have c0: "governance_call_ok (w_db empty_world) (?c (ScoreCreate sample_score))"
    "governance_run ?E (?c (ScoreCreate sample_score)) empty_world =
       snd (create_in_initial_state ?E sample_ctx RESEARCH_SCORE_LIFECYCLE sample_score
         ''research_score.created'' [(''status'', JStr (lo_status sample_score))] empty_world)"
    "lo_status sample_score = sm_initial RESEARCH_SCORE_LIFECYCLE" "is_valid_urn (bo_id sample_score)"
    by (simp_all add: research_score_create_def governance_initial)
  obtain w1 where w1: "governance_reach ?E w1" "history_of (w_db w1) ?i = [stored_of sample_score]"
    "w_ticks w1 = 3" "event_ids (w_db w1) = map (event_id_at ?E) [0]"
    by (rule reach_create [OF governance_reach.start ctx_ok_sample env_total_sample start_fresh(1) c0(3)
        sample_score_simps(4) c0(4) start_fresh(2) non_empty_types(1) c0(1,2)]) (simp add: start_fresh(3,4))
  have l1: "last (history_of (w_db w1) ?i) = stored_of sample_score" "history_of (w_db w1) ?i \<noteq> []"
    by (simp_all add: w1(2))
  have f1: "event_id_at ?E (Suc (w_ticks w1)) \<notin> set (event_ids (w_db w1))"
    unfolding w1(3,4) by (rule sample_fresh) simp
  have c1: "governance_call_ok (w_db w1) (?c (ScoreSubmit ?i))"
    "governance_run ?E (?c (ScoreSubmit ?i)) w1 = snd (transition_object ?E sample_ctx RESEARCH_SCORE_LIFECYCLE
       (ScoreNotFoundError ?i) (approval_gate ?i ''IN_REVIEW'') status_only no_gate (status_change ''IN_REVIEW'')
       ?i ''IN_REVIEW'' ''research_score.submitted_for_review'' w1)"
    "status_of (last (history_of (w_db w1) ?i)) = Some ''DRAFT''"
    "approval_gate ?i ''IN_REVIEW'' (last (history_of (w_db w1) ?i)) = Inr ()"
    using status_of_stored [of "''ResearchScore''" sample_score]
    by (simp_all add: l1(1) addressable_def w1(2) score_submit_for_review_def research_score_transition_def
        approval_gate_def)
  obtain w2 r1 where w2: "governance_reach ?E w2" "history_of (w_db w2) ?i = history_of (w_db w1) ?i @ [r1]"
    "status_of r1 = Some ''IN_REVIEW''" "so_kind r1 = so_kind (last (history_of (w_db w1) ?i))"
    "\<forall>k. k \<notin> {''status''} \<union> {} \<union> bookkeeping \<longrightarrow>
       map_of (so_body r1) k = map_of (so_body (last (history_of (w_db w1) ?i))) k"
    "w_ticks w2 = w_ticks w1 + 3"
    "event_ids (w_db w2) = event_ids (w_db w1) @ [event_id_at ?E (Suc (w_ticks w1))]"
    by (rule reach_status [OF w1(1) ctx_ok_sample env_total_sample f1 vi l1(2) c1(3) score_edges(1) c1(4)
        non_empty_types(2) c1(1,2)])
  have l2: "history_of (w_db w2) ?i = [stored_of sample_score, r1]" "so_kind r1 = ''ResearchScore''"
    "last (history_of (w_db w2) ?i) = r1" "history_of (w_db w2) ?i \<noteq> []"
    by (simp_all add: w2 w1(2))
  have ap: "map_of (so_body r1) ''approvals'' = Some (JArr [JStr (sample_urn ''human'')])"
    using w2(5) by (simp add: l1(1) bookkeeping_def)
  have t2: "w_ticks w2 = 6" "event_ids (w_db w2) = map (event_id_at ?E) [0, 4]"
    by (simp_all add: w2 w1(3,4))
  have f2: "event_id_at ?E (Suc (w_ticks w2)) \<notin> set (event_ids (w_db w2))"
    unfolding t2 by (rule sample_fresh) simp
  have c2: "governance_call_ok (w_db w2) (?c (ScoreApprove ?i))"
    "governance_run ?E (?c (ScoreApprove ?i)) w2 = snd (transition_object ?E sample_ctx RESEARCH_SCORE_LIFECYCLE
       (ScoreNotFoundError ?i) (approval_gate ?i ''APPROVED'') status_only no_gate (status_change ''APPROVED'')
       ?i ''APPROVED'' ''research_score.approved'' w2)"
    "status_of (last (history_of (w_db w2) ?i)) = Some ''IN_REVIEW''"
    "approval_gate ?i ''APPROVED'' (last (history_of (w_db w2) ?i)) = Inr ()"
    by (simp_all add: l2 addressable_def w2(3) ap score_approve_def research_score_transition_def
        approval_gate_def)
  obtain w3 r2 where w3: "governance_reach ?E w3" "history_of (w_db w3) ?i = history_of (w_db w2) ?i @ [r2]"
    "status_of r2 = Some ''APPROVED''" "so_kind r2 = so_kind (last (history_of (w_db w2) ?i))"
    by (rule reach_status [OF w2(1) ctx_ok_sample env_total_sample f2 vi l2(4) c2(3) score_edges(2) c2(4)
        non_empty_types(3) c2(1,2)])
  show thesis by (rule that [OF w3(1) _ w3(3) l2(2)]) (simp_all add: w3 l2)
qed

theorem work_starts_only_after_approval_witness:
  "\<exists>(w :: world) r. status_of r \<in> {Some ''APPROVED'', Some ''ACTIVE''} \<and>
    (\<exists>k. Suc k < length (history_of (w_db w) (sample_urn ''score'')) \<and>
       status_of (history_of (w_db w) (sample_urn ''score'') ! k) = Some ''IN_REVIEW'' \<and>
       truthy (map_of (so_body (history_of (w_db w) (sample_urn ''score'') ! k)) ''approvals'') \<and>
       status_of (history_of (w_db w) (sample_urn ''score'') ! Suc k) = Some ''APPROVED'')"
proof -
  obtain w r1 r2 where w: "governance_reach sample_env w"
    "history_of (w_db w) (sample_urn ''score'') = [stored_of sample_score, r1, r2]"
    "status_of r2 = Some ''APPROVED''" "so_kind r1 = ''ResearchScore''" "so_kind r2 = ''ResearchScore''"
    by (rule approved_score_world)
  have ad: "addressable ''ResearchScore'' (w_db w) (sample_urn ''score'')" using w by (simp add: addressable_def)
  have g: "get_latest_or (ScoreNotFoundError (sample_urn ''score'')) (sample_urn ''score'') w = (Inr r2, w)"
    using get_latest_or_run [OF world_ok_parts(2) [OF reach_world [OF w(1)]], of "sample_urn ''score''"] w(2) by simp
  have d: "dget_str (so_body r2) ''status'' = Inr ''APPROVED''" unfolding dget_str_status by (rule w(3))
  have "ensure_can_start_work (sample_urn ''score'') w = (Inr r2, w)"
    using g d by (simp add: ensure_can_start_work_def bindp_def lift_run guardp_run ret_run startable_statuses_def
        del: dget_str_Inr)
  from work_starts_only_after_approval [OF w(1) ad this] show ?thesis
    by (elim conjE) (rule exI [of _ w], rule exI [of _ r2], rule conjI)
qed

theorem governed_objects_follow_lifecycles_witness:
  "\<exists>(w :: world) ss. statuses (w_db w) (sample_urn ''score'') = map Some ss \<and>
     history RESEARCH_SCORE_LIFECYCLE (remdups_adj ss) \<and> length ss = 3"
proof -
  obtain w r1 r2 where w: "governance_reach sample_env w"
    "history_of (w_db w) (sample_urn ''score'') = [stored_of sample_score, r1, r2]"
    "status_of r2 = Some ''APPROVED''" "so_kind r1 = ''ResearchScore''" "so_kind r2 = ''ResearchScore''"
    by (rule approved_score_world)
  have k: "is_kind ''ResearchScore'' (w_db w) (sample_urn ''score'')" using w by (simp add: is_kind_def)
  have m: "(''ResearchScore'', RESEARCH_SCORE_LIFECYCLE) \<in> set governance_kinds" by (simp add: governance_kinds_def)
  from governed_objects_follow_lifecycles [OF w(1) m k] obtain ss where
    ss: "statuses (w_db w) (sample_urn ''score'') = map Some ss" "history RESEARCH_SCORE_LIFECYCLE (remdups_adj ss)"
    by blast
  have "length ss = length (statuses (w_db w) (sample_urn ''score''))" by (simp add: ss(1))
  then have "length ss = 3" by (simp add: statuses_def w(2))
  with ss show ?thesis by (intro exI [of _ w] exI [of _ ss] conjI)
qed

definition sample_protocol :: method_protocol where
  "sample_protocol =
     lifecycle_object.extend (sample_governed ''method-protocol'' ''MethodProtocol'' ''draft''
       [(''kill_conditions'', JArr [JStr ''none''])])
       (method_protocol.fields (sample_urn ''method-profile'') None None None)"

lemma sample_protocol_simps [simp]:
  "bo_id sample_protocol = sample_urn ''method-protocol''" "bo_kind sample_protocol = ''MethodProtocol''"
  "lo_status sample_protocol = ''draft''" "bo_revision sample_protocol = 1"
  "lifecycle_instance ''MethodProtocol'' sample_protocol" "method_protocol_instance sample_protocol"
  by (simp_all add: sample_protocol_def sample_governed_def lifecycle_instance_def lifecycle_object.defs
      method_protocol.defs method_protocol_instance_def lock_fields_match_status_def
      amendment_matches_status_def)

definition sample_profile :: method_profile where
  "sample_profile =
     lifecycle_object.extend (sample_governed ''method-profile'' ''MethodProfile'' ''draft''
       [(''executor_task_family'', JArr [JStr ''numeric.recompute''])])
       (method_profile.fields ''synthesis'' [''numeric.recompute''])"

lemma sample_profile_simps [simp]:
  "bo_id sample_profile = sample_urn ''method-profile''" "bo_kind sample_profile = ''MethodProfile''"
  "lo_status sample_profile = ''draft''" "bo_revision sample_profile = 1"
  "lifecycle_instance ''MethodProfile'' sample_profile" "method_profile_instance sample_profile"
  "map_of (bo_dump sample_profile) ''executor_task_family'' = Some (JArr [JStr ''numeric.recompute''])"
  by (simp_all add: sample_profile_def sample_governed_def lifecycle_instance_def lifecycle_object.defs
      method_profile.defs method_profile_instance_def)

lemma locked_protocol_world:
  obtains w r1 r2 where "governance_reach sample_env w"
    and "history_of (w_db w) (sample_urn ''method-protocol'') = [stored_of sample_protocol, r1, r2]"
    and "status_of r2 = Some ''locked''" and "so_kind r2 = ''MethodProtocol''"
proof -
  let ?i = "sample_urn ''method-protocol''" and ?E = sample_env
  let ?c = "\<lambda>c. ProtocolCall sample_ctx c"
  have vi: "is_valid_urn ?i" by simp
  have edges: "can_transition METHOD_PROTOCOL_LIFECYCLE ''draft'' ''reviewed''"
    "can_transition METHOD_PROTOCOL_LIFECYCLE ''reviewed'' ''locked''"
    by (simp_all add: machine_defs can_transition_def)
  have c0: "governance_call_ok (w_db empty_world) (?c (ProtocolCreate sample_protocol))"
    "governance_run ?E (?c (ProtocolCreate sample_protocol)) empty_world =
       snd (create_in_initial_state ?E sample_ctx METHOD_PROTOCOL_LIFECYCLE sample_protocol
         ''method_protocol.created'' [(''status'', JStr (lo_status sample_protocol)),
           (''profile_id'', JStr (pr_profile_id sample_protocol))] empty_world)"
    "lo_status sample_protocol = sm_initial METHOD_PROTOCOL_LIFECYCLE" "is_valid_urn (bo_id sample_protocol)"
    by (simp_all add: method_protocol_create_def governance_initial)
  obtain w1 where w1: "governance_reach ?E w1" "history_of (w_db w1) ?i = [stored_of sample_protocol]"
    "w_ticks w1 = 3" "event_ids (w_db w1) = map (event_id_at ?E) [0]"
    by (rule reach_create [OF governance_reach.start ctx_ok_sample env_total_sample start_fresh(1) c0(3)
        sample_protocol_simps(4) c0(4) start_fresh(2) non_empty_types(4) c0(1,2)]) (simp add: start_fresh(3,4))
  have l1: "last (history_of (w_db w1) ?i) = stored_of sample_protocol" "history_of (w_db w1) ?i \<noteq> []"
    by (simp_all add: w1(2))
  have f1: "event_id_at ?E (Suc (w_ticks w1)) \<notin> set (event_ids (w_db w1))"
    unfolding w1(3,4) by (rule sample_fresh) simp
  have c1: "governance_call_ok (w_db w1) (?c (ProtocolSubmit ?i))"
    "governance_run ?E (?c (ProtocolSubmit ?i)) w1 = snd (transition_object ?E sample_ctx
       METHOD_PROTOCOL_LIFECYCLE (MethodProtocolNotFoundError ?i) no_gate status_only no_gate
       (status_change ''reviewed'') ?i ''reviewed'' ''method_protocol.reviewed'' w1)"
    "status_of (last (history_of (w_db w1) ?i)) = Some ''draft''"
    using status_of_stored [of "''MethodProtocol''" sample_protocol]
    by (simp_all add: l1(1) addressable_def w1(2) method_protocol_submit_for_review_def)
  obtain w2 r1 where w2: "governance_reach ?E w2" "history_of (w_db w2) ?i = history_of (w_db w1) ?i @ [r1]"
    "status_of r1 = Some ''reviewed''" "so_kind r1 = so_kind (last (history_of (w_db w1) ?i))"
    "w_ticks w2 = w_ticks w1 + 3"
    "event_ids (w_db w2) = event_ids (w_db w1) @ [event_id_at ?E (Suc (w_ticks w1))]"
    by (rule reach_status [OF w1(1) ctx_ok_sample env_total_sample f1 vi l1(2) c1(3) edges(1) refl
        non_empty_types(5) c1(1,2)])
  have l2: "history_of (w_db w2) ?i = [stored_of sample_protocol, r1]" "so_kind r1 = ''MethodProtocol''"
    "last (history_of (w_db w2) ?i) = r1" "history_of (w_db w2) ?i \<noteq> []"
    by (simp_all add: w2 w1(2))
  have t2: "w_ticks w2 = 6" "event_ids (w_db w2) = map (event_id_at ?E) [0, 4]"
    by (simp_all add: w2 w1(3,4))
  have f2: "event_id_at ?E (Suc (w_ticks w2)) \<notin> set (event_ids (w_db w2))"
    unfolding t2 by (rule sample_fresh) simp
  let ?edit = "\<lambda>t body. dset ''locked_by'' (JStr (cx_actor sample_ctx))
                   (dset ''locked_at'' (JStr (isoformat t)) body)"
  have c2: "governance_call_ok (w_db w2) (?c (ProtocolLock ?i))"
    "governance_run ?E (?c (ProtocolLock ?i)) w2 = snd (transition_object ?E sample_ctx
       METHOD_PROTOCOL_LIFECYCLE (MethodProtocolNotFoundError ?i) no_gate ?edit no_gate
       (\<lambda>from_status h. [(''from_status'', JStr from_status), (''to_status'', JStr ''locked''),
          (''locked_by'', JStr (cx_actor sample_ctx)), (''content_hash'', JStr h)])
       ?i ''locked'' ''method_protocol.locked'' w2)"
    "status_of (last (history_of (w_db w2) ?i)) = Some ''reviewed''"
    by (simp_all add: l2 addressable_def w2(3) method_protocol_lock_def)
  have ed: "\<And>t body k. k \<notin> {''locked_at'', ''locked_by''} \<Longrightarrow> map_of (?edit t body) k = map_of body k"
    and ns: "''status'' \<notin> {''locked_at'', ''locked_by''}" by simp_all
  obtain w3 r2 where w3: "governance_reach ?E w3" "history_of (w_db w3) ?i = history_of (w_db w2) ?i @ [r2]"
    "status_of r2 = Some ''locked''" "so_kind r2 = so_kind (last (history_of (w_db w2) ?i))"
    by (rule reach_transition [OF w2(1) ctx_ok_sample env_total_sample f2 vi l2(4) c2(3) edges(2) refl
        non_empty_types(6) c2(1,2) ed ns])
  show thesis by (rule that [OF w3(1) _ w3(3)]) (simp_all add: w3 l2)
qed

lemma locked_protocol_is_final_witness:
  "\<exists>(w :: world) r. r = last (history_of (w_db w) (sample_urn ''method-protocol'')) \<and> locked_here r \<and>
     (\<exists>a \<in> set (domain_events_tbl (w_db w)). announces (ae_event a) [r] \<and>
        de_event_type (ae_event a) = ''method_protocol.locked'')"
proof -
  obtain w r1 r2 where w: "governance_reach sample_env w"
    "history_of (w_db w) (sample_urn ''method-protocol'') = [stored_of sample_protocol, r1, r2]" "status_of r2 = Some ''locked''"
    "so_kind r2 = ''MethodProtocol''" by (rule locked_protocol_world)
  have k: "is_kind ''MethodProtocol'' (w_db w) (sample_urn ''method-protocol'')" using w by (simp add: is_kind_def)
  have m: "r2 \<in> set (history_of (w_db w) (sample_urn ''method-protocol''))" using w by simp
  from locked_protocol_is_final [OF w(1) k m w(3)] show ?thesis
    by (elim conjE) (rule exI [of _ w], rule exI [of _ r2], intro conjI)
qed

lemma find_accepted_by_capability_exact_witness:
  "\<exists>(w :: world) ids. find_accepted_by_capability ''numeric.recompute'' w = (Inr ids, w) \<and>
     sample_urn ''method-profile'' \<in> set ids"
proof -
  let ?i = "sample_urn ''method-profile''" and ?E = sample_env
  have vi: "is_valid_urn ?i" by simp
  have edge: "can_transition METHOD_PROFILE_LIFECYCLE ''draft'' ''accepted''"
    by (simp add: machine_defs can_transition_def)
  let ?c = "\<lambda>c. ProfileCall sample_ctx c"
  have c0: "governance_call_ok (w_db empty_world) (?c (ProfilePropose sample_profile))"
    "governance_run ?E (?c (ProfilePropose sample_profile)) empty_world =
       snd (create_in_initial_state ?E sample_ctx METHOD_PROFILE_LIFECYCLE sample_profile
         ''method_profile.proposed'' [(''status'', JStr (lo_status sample_profile)),
           (''profile_key'', JStr (mp_profile_key sample_profile))] empty_world)"
    "lo_status sample_profile = sm_initial METHOD_PROFILE_LIFECYCLE" "is_valid_urn (bo_id sample_profile)"
    by (simp_all add: method_profile_propose_def governance_initial)
  obtain w1 where w1: "governance_reach ?E w1" "history_of (w_db w1) ?i = [stored_of sample_profile]"
    "w_ticks w1 = 3" "event_ids (w_db w1) = map (event_id_at ?E) [0]"
    by (rule reach_create [OF governance_reach.start ctx_ok_sample env_total_sample start_fresh(1) c0(3)
        sample_profile_simps(4) c0(4) start_fresh(2) non_empty_types(7) c0(1,2)]) (simp add: start_fresh(3,4))
  have l1: "last (history_of (w_db w1) ?i) = stored_of sample_profile" "history_of (w_db w1) ?i \<noteq> []"
    by (simp_all add: w1(2))
  have f1: "event_id_at ?E (Suc (w_ticks w1)) \<notin> set (event_ids (w_db w1))"
    unfolding w1(3,4) by (rule sample_fresh) simp
  have c1: "governance_call_ok (w_db w1) (?c (ProfileAccept ?i))"
    "governance_run ?E (?c (ProfileAccept ?i)) w1 = snd (transition_object ?E sample_ctx
       METHOD_PROFILE_LIFECYCLE (MethodProfileNotFoundError ?i) no_gate status_only no_gate
       (status_change ''accepted'') ?i ''accepted'' ''method_profile.accepted'' w1)"
    "status_of (last (history_of (w_db w1) ?i)) = Some ''draft''"
    using status_of_stored [of "''MethodProfile''" sample_profile]
    by (simp_all add: l1(1) addressable_def w1(2) method_profile_accept_def method_profile_transition_def)
  obtain w2 r1 where w2: "governance_reach ?E w2" "history_of (w_db w2) ?i = history_of (w_db w1) ?i @ [r1]"
    "status_of r1 = Some ''accepted''" "so_kind r1 = so_kind (last (history_of (w_db w1) ?i))"
    "\<forall>k. k \<notin> {''status''} \<union> {} \<union> bookkeeping \<longrightarrow>
       map_of (so_body r1) k = map_of (so_body (last (history_of (w_db w1) ?i))) k"
    by (rule reach_status [OF w1(1) ctx_ok_sample env_total_sample f1 vi l1(2) c1(3) edge refl
        non_empty_types(8) c1(1,2)])
  have l2: "last (history_of (w_db w2) ?i) = r1" "r1 \<in> set (history_of (w_db w2) ?i)"
    "so_kind r1 = ''MethodProfile''" by (simp_all add: w2 w1(2))
  have fam: "map_of (so_body r1) ''executor_task_family'' = Some (JArr (map JStr [''numeric.recompute'']))"
    using w2(5) by (simp add: l1(1) bookkeeping_def)
  have "is_kind ''MethodProfile'' (w_db w2) ?i" using l2 unfolding is_kind_def by blast
  moreover have "offers (w_db w2) ''numeric.recompute'' ?i"
    unfolding offers_def Let_def l2(1) using w2(3) fam
    by (intro conjI exI [of _ "[''numeric.recompute'']"]) simp_all
  ultimately have "?i \<in> {i. is_kind ''MethodProfile'' (w_db w2) i \<and> offers (w_db w2) ''numeric.recompute'' i}"
    by simp
  moreover obtain ids where ids: "find_accepted_by_capability ''numeric.recompute'' w2 = (Inr ids, w2)"
    "set ids = {i. is_kind ''MethodProfile'' (w_db w2) i \<and> offers (w_db w2) ''numeric.recompute'' i}"
    using find_accepted_by_capability_exact [OF w2(1), of "''numeric.recompute''"] by (elim exE conjE) (rule that)
  ultimately have "?i \<in> set ids" by simp
  with ids(1) show ?thesis by (intro exI [of _ w2] exI [of _ ids] conjI)
qed

end
