(* ===== verification/Addressing.thy ===== *)
theory Addressing
  imports Claim_Properties Governance_Services
begin

text \<open>
  Why the lifecycle theorems speak of calls that address an object of the service's own kind. The
  services find an object by its id alone: \<^verbatim>\<open>accept\<close> of the question models accepts a draft of any
  kind, a Claim included, which then has a status outside the lifecycle of Claims.
\<close>

lemma accept_ignores_the_kind:
  assumes ok: "world_ok E w" and ctx: "ctx_ok ctx" and E: "env_total E"
    and fresh: "event_id_at E (Suc (w_ticks w)) \<notin> set (event_ids (w_db w))"
    and vi: "is_valid_urn i" and ne: "history_of (w_db w) i \<noteq> []"
    and st: "status_of (last (history_of (w_db w) i)) = Some ''draft''"
  shows "\<exists>r w'. question_model_accept E ctx i w = (Inr r, w') \<and>
     history_of (w_db w') i = history_of (w_db w) i @ [r] \<and>
     so_kind r = so_kind (last (history_of (w_db w) i)) \<and> status_of r = Some ''accepted''"
proof -
  have can: "can_transition QUESTION_MODEL_LIFECYCLE ''draft'' ''accepted''"
    by (simp add: can_transition_def QUESTION_MODEL_LIFECYCLE_def)
  have ty: "non_empty ''question_model.accepted''" by (simp add: non_empty_def is_space_def)
  from transition_object_run [where gate = no_gate and edit = status_only and val = no_gate
      and x = "QuestionModelNotFoundError i" and p = "status_change ''accepted''",
      OF ok ctx E fresh vi ne st can _ ty]
  obtain r w' where run: "question_model_accept E ctx i w = (Inr r, w')"
    unfolding question_model_accept_def question_model_transition_def by blast
  from transition_object_Inr [OF ok run [unfolded question_model_accept_def question_model_transition_def]]
  obtain e latest t h b where com: "committed E [r] [] e w w'"
    and l: "latest = last (history_of (w_db w) i)" "so_id latest = i"
    and q: "r = next_object latest (so_revision latest + 1) t (cx_actor ctx) h b"
    and fb: "finish_body E (so_revision latest + 1) t (cx_actor ctx)
       (dset ''status'' (JStr ''accepted'') (so_body latest)) = Inr (h, b)"
    by (elim exE conjE) (rule that)
  have "history_of (w_db w') i = history_of (w_db w) i @ [r]"
    using committed_tables(1) [OF com] l(2) by (simp add: history_of_def q)
  moreover have "status_of r = Some ''accepted''"
    using finish_body_Inr(5) [OF fb, of "''status''"] by (simp add: q status_of_Some)
  moreover have "so_kind r = so_kind (last (history_of (w_db w) i))" by (simp add: q l(1))
  ultimately show ?thesis using run by blast
qed

lemma accept_moves_a_claim:
  "\<exists>w r w'. claim_reach sample_env w \<and> is_claim (w_db w) (sample_urn ''claim'') \<and>
     question_model_accept sample_env sample_ctx (sample_urn ''claim'') w = (Inr r, w') \<and>
     so_kind r = ''Claim'' \<and> status_of r = Some ''accepted'' \<and> ''accepted'' \<notin> claim_states"
proof -
  let ?i = "sample_urn ''claim''" and ?c = "claim_to_stored_object sample_claim"
  note w = created_world
  have ok: "world_ok sample_env created_world" using w(2) by (simp add: inv_def)
  have c: "so_id ?c = ?i" "so_kind ?c = ''Claim''" "status_of ?c = Some ''draft''"
    by (simp_all add: claim_to_stored_object_def sample_claim_def status_of_Some)
  have h: "history_of (w_db created_world) ?i = [?c]" using c(1) by (simp add: history_of_def w(6))
  have ic: "is_claim (w_db created_world) ?i" using c by (simp add: is_claim_def w(6))
  have fr: "event_id_at sample_env (Suc (w_ticks created_world)) \<notin> set (event_ids (w_db created_world))"
    unfolding w(3,4) by (simp add: event_id_at_sample)
  have vi: "is_valid_urn ?i" and ne: "history_of (w_db created_world) ?i \<noteq> []"
    and st: "status_of (last (history_of (w_db created_world) ?i)) = Some ''draft''" by (simp_all add: h c(3))
  from accept_ignores_the_kind [OF ok ctx_ok_sample env_total_sample fr vi ne st] obtain r w' where
    r: "question_model_accept sample_env sample_ctx ?i created_world = (Inr r, w')"
    and k: "so_kind r = so_kind (last (history_of (w_db created_world) ?i))" "status_of r = Some ''accepted''" by blast
  have "so_kind r = ''Claim''" using k(1) by (simp add: h c(2))
  moreover have "''accepted'' \<notin> claim_states" by (simp add: claim_states_def)
  ultimately show ?thesis using w(1) ic r k(2) by blast
qed

end
