(* ===== verification/Obligation_Service.thy ===== *)
theory Obligation_Service
  imports Governed_Objects Impact_Graph
begin

text \<open>
  The Obligation service, \<^verbatim>\<open>services/control_plane/mrr/services/obligation/service.py\<close>: the
  obligations that travel with an accepted transfer become stored objects, are bound to the
  transferred objects by edges and propagated to everything built on those, and are resolved
  or deferred. The transfer contract is read from its stored body, as \<^verbatim>\<open>model_validate\<close> reads
  it (\<^verbatim>\<open>packages/contracts/mrr/contracts/transfer_contract.py\<close>); the argument \<open>reiso\<close> stands for
  pydantic's parsing of a datetime followed by \<^verbatim>\<open>isoformat\<close>.
\<close>

section \<open>The transfer contract, as far as the service reads it\<close>

record obligation_stub =
  ob_kind :: string
  ob_deadline :: "string option"

record transfer_contract =
  tc_id :: urn
  tc_receiver_practice_id :: urn
  tc_transferred_ids :: "urn list"
  tc_caveats :: "string list"
  tc_obligations :: "obligation_stub list"

fun transferred_id_of :: "json \<Rightarrow> urn outcome" where
  "transferred_id_of (JObj d) = dget_str d ''id''"
| "transferred_id_of _ = Inl TypeErr"

fun stub_of :: "(string \<Rightarrow> string option) \<Rightarrow> json \<Rightarrow> obligation_stub outcome" where
  "stub_of reiso (JObj d) =
     (case dget_str d ''kind'' of
        Inl e \<Rightarrow> Inl e
      | Inr k \<Rightarrow>
          (case map_of d ''deadline'' of
             Some (JStr s) \<Rightarrow>
               (case reiso s of None \<Rightarrow> Inl TypeErr | Some t \<Rightarrow> Inr \<lparr>ob_kind = k, ob_deadline = Some t\<rparr>)
           | _ \<Rightarrow> Inr \<lparr>ob_kind = k, ob_deadline = None\<rparr>))"
| "stub_of reiso _ = Inl TypeErr"

fun map_outcome :: "('a \<Rightarrow> 'b outcome) \<Rightarrow> 'a list \<Rightarrow> 'b list outcome" where
  "map_outcome f [] = Inr []"
| "map_outcome f (x # xs) =
     (case f x of
        Inl e \<Rightarrow> Inl e
      | Inr y \<Rightarrow> (case map_outcome f xs of Inl e \<Rightarrow> Inl e | Inr ys \<Rightarrow> Inr (y # ys)))"

definition dget_list :: "dict \<Rightarrow> string \<Rightarrow> json list outcome" where
  "dget_list d k = (case map_of d k of Some (JArr js) \<Rightarrow> Inr js | _ \<Rightarrow> Inl TypeErr)"

text \<open>
  \<^verbatim>\<open>TransferContract.model_validate(body)\<close>. A body that passes the field checks has all the
  fields below; one that lacks a field does not validate.
\<close>

definition transfer_contract_validate ::
  "(string \<Rightarrow> string option) \<Rightarrow> env \<Rightarrow> dict \<Rightarrow> transfer_contract outcome" where
  "transfer_contract_validate reiso E body =
     (if \<not> env_schema E ''TransferContract'' body then Inl PydanticValidationError
      else
        (case (dget_str body ''id'', dget_str body ''receiver_practice_id'',
               dget_list body ''transferred_objects'', dget_strs body ''caveats'',
               dget_list body ''obligations'') of
           (Inr i, Inr receiver, Inr objects, Inr caveats, Inr stubs) \<Rightarrow>
             (case (map_outcome transferred_id_of objects, map_outcome (stub_of reiso) stubs) of
                (Inr ids, Inr obs) \<Rightarrow>
                  if ids = [] then Inl PydanticValidationError
                  else Inr \<lparr>tc_id = i, tc_receiver_practice_id = receiver, tc_transferred_ids = ids,
                            tc_caveats = caveats, tc_obligations = obs\<rparr>
              | _ \<Rightarrow> Inl PydanticValidationError)
         | _ \<Rightarrow> Inl PydanticValidationError))"

section \<open>Materialization\<close>

definition accepting_decisions :: "string set" where
  "accepting_decisions = {''accepted'', ''adapted''}"

definition obligation_model_validate :: "env \<Rightarrow> dict \<Rightarrow> unit outcome" where
  "obligation_model_validate E body =
     (if env_schema E ''Obligation'' body then Inr () else Inl PydanticValidationError)"

text \<open>The decision of the last \<^verbatim>\<open>transfer.responded\<close> event, with the id of that event.\<close>

definition latest_transfer_decision ::
  "urn \<Rightarrow> (world, string option \<times> string option) prog" where
  "latest_transfer_decision transfer_id =
     bindp read_all (\<lambda>as.
       case last_opt (filter (\<lambda>e. de_object_id e = transfer_id \<and>
                              de_event_type e = ''transfer.responded'') (map ae_event as)) of
         None \<Rightarrow> ret (None, None)
       | Some e \<Rightarrow>
           bindp (lift (dget_str (de_payload e) ''decision'')) (\<lambda>decision.
           ret (Some decision, Some (de_id e))))"

definition materialized_obligation_ids_for :: "urn \<Rightarrow> (world, urn list) prog" where
  "materialized_obligation_ids_for transfer_id =
     bindp read_all (\<lambda>as.
     ret (map de_object_id (filter (\<lambda>e. de_event_type e = ''obligation.created'' \<and>
            map_of (de_payload e) ''source_transfer_id'' = Some (JStr transfer_id)) (map ae_event as))))"

definition make_subject_to_obligation_edge ::
  "env \<Rightarrow> call_ctx \<Rightarrow> urn \<Rightarrow> instant \<Rightarrow> urn \<Rightarrow> urn \<Rightarrow> (world, typed_edge) prog" where
  "make_subject_to_obligation_edge E ctx practice_id t obligation_id object_id =
     bindp (new_urn E ''edge'') (\<lambda>edge_id.
     ret \<lparr>te_id = edge_id, te_source_id = object_id, te_target_id = obligation_id,
          te_edge_type = ''subject_to_obligation'', te_created_at = t, te_created_by = cx_actor ctx,
          te_scope = None, te_status = ''active'', te_practice_id = Some practice_id\<rparr>)"

definition placeholder_content_hash :: string where
  "placeholder_content_hash = ''sha256:'' @ replicate 64 (CHR ''0'')"

definition obligation_fields ::
  "transfer_contract \<Rightarrow> urn \<Rightarrow> string \<Rightarrow> string option \<Rightarrow> urn list \<Rightarrow> string \<Rightarrow> string list option \<Rightarrow>
   string \<Rightarrow> instant \<Rightarrow> dict" where
  "obligation_fields contract i kind deadline bound trigger caveat_text actor t =
     (let body =
        [(''id'', JStr i), (''api_version'', JStr ''mrr/v1alpha1''), (''kind'', JStr ''Obligation''),
         (''practice_id'', JStr (tc_receiver_practice_id contract)), (''revision'', JInt 1),
         (''created_at'', JStr (isoformat t)), (''created_by'', JStr actor),
         (''content_hash'', JStr placeholder_content_hash),
         (''source_transfer_id'', JStr (tc_id contract)), (''obligation_kind'', JStr kind),
         (''responsible_practice_id'', JStr (tc_receiver_practice_id contract)),
         (''trigger'', JStr trigger), (''status'', JStr (sm_initial OBLIGATION_LIFECYCLE)),
         (''bound_objects'', JArr (map JStr bound)), (''propagated_objects'', JArr [])];
        body = (case deadline of None \<Rightarrow> body | Some s \<Rightarrow> dset ''deadline'' (JStr s) body)
      in case caveat_text of None \<Rightarrow> body | Some cs \<Rightarrow> dset ''caveat_text'' (JArr (map JStr cs)) body)"

definition build_obligation_body ::
  "env \<Rightarrow> transfer_contract \<Rightarrow> urn \<Rightarrow> string \<Rightarrow> string option \<Rightarrow> urn list \<Rightarrow> string \<Rightarrow>
   string list option \<Rightarrow> string \<Rightarrow> instant \<Rightarrow> (string \<times> dict) outcome" where
  "build_obligation_body E contract i kind deadline bound trigger caveat_text actor t =
     (let body = obligation_fields contract i kind deadline bound trigger caveat_text actor t
      in case compute_content_hash E body of
           Inl e \<Rightarrow> Inl e
         | Inr h \<Rightarrow>
             (let body = dset ''content_hash'' (JStr h) body
              in case obligation_model_validate E body of Inl e \<Rightarrow> Inl e | Inr _ \<Rightarrow> Inr (h, body)))"

text \<open>
  \<^verbatim>\<open>_stored_object_from_body\<close>; the creation time it parses back from the body is the time the
  body was rendered with.
\<close>

definition obligation_object ::
  "transfer_contract \<Rightarrow> urn \<Rightarrow> string \<Rightarrow> instant \<Rightarrow> string \<times> dict \<Rightarrow> stored_object" where
  "obligation_object contract i actor t hb =
     \<lparr>so_id = i, so_api_version = ''mrr/v1alpha1'', so_kind = ''Obligation'',
      so_practice_id = tc_receiver_practice_id contract, so_revision = 1, so_created_at = t,
      so_created_by = actor, so_content_hash = fst hb, so_supersedes = None, so_labels = None,
      so_body = snd hb\<rparr>"

definition materialize_one ::
  "env \<Rightarrow> call_ctx \<Rightarrow> transfer_contract \<Rightarrow> string \<Rightarrow> instant \<Rightarrow> string \<Rightarrow> string option \<Rightarrow>
   string list option \<Rightarrow> (world, stored_object) prog" where
  "materialize_one E ctx contract trigger t obligation_kind deadline caveat_text =
     bindp (new_urn E ''obligation'') (\<lambda>i.
     bindp (lift (build_obligation_body E contract i obligation_kind deadline
       (tc_transferred_ids contract) trigger caveat_text (cx_actor ctx) t)) (\<lambda>hb.
     bindp (mapp (make_subject_to_obligation_edge E ctx (tc_receiver_practice_id contract) t i)
       (tc_transferred_ids contract)) (\<lambda>edges.
     bindp (make_event E ctx ''obligation.created'' (ret t) (ret None) i 1
       [(''source_transfer_id'', JStr (tc_id contract)), (''obligation_kind'', JStr obligation_kind),
        (''bound_object_ids'', JArr (map JStr (tc_transferred_ids contract)))]) (\<lambda>e.
     bindp (bind_revision_with_edges_unit_of_work E
       (obligation_object contract i (cx_actor ctx) t hb) None edges e) (\<lambda>(stored, _).
     ret stored)))))"

definition materialize_from_transfer ::
  "(string \<Rightarrow> string option) \<Rightarrow> env \<Rightarrow> call_ctx \<Rightarrow> urn \<Rightarrow> (world, stored_object list) prog" where
  "materialize_from_transfer reiso E ctx transfer_id =
     bindp (get_latest_or (ObligationSourceTransferNotFoundError transfer_id) transfer_id) (\<lambda>latest.
     bindp (lift (transfer_contract_validate reiso E (so_body latest))) (\<lambda>contract.
     bindp (materialized_obligation_ids_for transfer_id) (\<lambda>already.
     bindp (guardp (already = []) (ObligationsAlreadyMaterializedError transfer_id already)) (\<lambda>_.
     bindp (latest_transfer_decision transfer_id) (\<lambda>(decision, responded_event_id).
     bindp (guardp (\<exists>d \<in> accepting_decisions. decision = Some d)
       (TransferNotAcceptedError transfer_id decision)) (\<lambda>_.
     let trigger = ''transfer.responded:'' @ (case responded_event_id of None \<Rightarrow> ''None'' | Some i \<Rightarrow> i) in
     bindp (now E) (\<lambda>t.
     bindp (mapp (\<lambda>stub. materialize_one E ctx contract trigger t (ob_kind stub) (ob_deadline stub) None)
       (tc_obligations contract)) (\<lambda>stored.
     if tc_caveats contract \<noteq> [] then
       bindp (materialize_one E ctx contract trigger t ''retain_caveat'' None (Some (tc_caveats contract)))
         (\<lambda>last_one. ret (stored @ [last_one]))
     else ret stored))))))))"

section \<open>Propagation\<close>

definition propagate ::
  "env \<Rightarrow> call_ctx \<Rightarrow> urn \<Rightarrow> (world, stored_object) prog" where
  "propagate E ctx obligation_id =
     bindp (get_latest_or (ObligationNotFoundError obligation_id) obligation_id) (\<lambda>latest.
     bindp (lift (dget_strs (so_body latest) ''bound_objects'')) (\<lambda>seed_ids.
     bindp (gather_impact_edges seed_ids) (\<lambda>edges.
     let computed = compute_obligation_binding seed_ids edges in
     bindp (edges_to obligation_id (Some ''subject_to_obligation'')) (\<lambda>bound_edges.
     let missing_ids = sorted_set (filter (\<lambda>i. i \<notin> te_source_id ` set bound_edges) computed) in
     if missing_ids = [] then ret latest
     else
       bindp (now E) (\<lambda>t.
       bindp (mapp (make_subject_to_obligation_edge E ctx (so_practice_id latest) t obligation_id)
         missing_ids) (\<lambda>new_edges.
       bindp (lift (finish_body E (so_revision latest + 1) t (cx_actor ctx)
         (dset ''propagated_objects'' (JArr (map JStr (sorted_set computed))) (so_body latest)))) (\<lambda>(h, new_body).
       bindp (lift (obligation_model_validate E new_body)) (\<lambda>_.
       bindp (make_event E ctx ''obligation.propagated'' (ret t) (last_event_id_for obligation_id)
         obligation_id (so_revision latest + 1)
         [(''propagated_objects'', JArr (map JStr (sorted_set computed))),
          (''newly_bound_object_ids'', JArr (map JStr missing_ids))]) (\<lambda>e.
       bindp (bind_revision_with_edges_unit_of_work E
         (next_object latest (so_revision latest + 1) t (cx_actor ctx) h new_body)
         (Some (so_revision latest)) new_edges e) (\<lambda>(stored, _).
       ret stored))))))))))"

section \<open>Resolution and deferral\<close>

definition obligation_transition ::
  "env \<Rightarrow> call_ctx \<Rightarrow> urn \<Rightarrow> string \<Rightarrow> string \<Rightarrow> dict \<Rightarrow> (world, stored_object) prog" where
  "obligation_transition E ctx obligation_id to_status event_type extra_fields =
     transition_object E ctx OBLIGATION_LIFECYCLE (ObligationNotFoundError obligation_id) no_gate
       (\<lambda>_ body. dupdate body extra_fields) (obligation_model_validate E) (status_change to_status)
       obligation_id to_status event_type"

definition resolve :: "env \<Rightarrow> call_ctx \<Rightarrow> urn \<Rightarrow> string \<Rightarrow> (world, stored_object) prog" where
  "resolve E ctx obligation_id resolution_evidence =
     bindp (guardp (resolution_evidence \<noteq> []) (MissingResolutionEvidenceError obligation_id)) (\<lambda>_.
     obligation_transition E ctx obligation_id ''resolved'' ''obligation.resolved''
       [(''resolution_evidence'', JStr resolution_evidence)])"

definition obligation_defer :: "env \<Rightarrow> call_ctx \<Rightarrow> urn \<Rightarrow> (world, stored_object) prog" where
  "obligation_defer E ctx obligation_id =
     obligation_transition E ctx obligation_id ''deferred'' ''obligation.deferred'' []"

section \<open>The edges of an obligation\<close>

definition binds :: "urn \<Rightarrow> typed_edge \<Rightarrow> bool" where
  "binds i e \<longleftrightarrow> te_target_id e = i \<and> te_edge_type e = ''subject_to_obligation''"

text \<open>The objects bound to an obligation, as its edges show them.\<close>

definition bound_to :: "db \<Rightarrow> urn \<Rightarrow> urn set" where
  "bound_to d i = te_source_id ` {e \<in> set (edges_tbl d). binds i e}"

lemma readonly_make_edge [readonly]: "keeps same_db (make_subject_to_obligation_edge E ctx p t i b)"
  unfolding make_subject_to_obligation_edge_def by (intro readonly)

lemma subject_edges_Inr:
  assumes "mapp (make_subject_to_obligation_edge E ctx p t i) xs w = (Inr es, w')"
  shows "same_db w w' \<and> map te_source_id es = xs \<and> (\<forall>e \<in> set es. binds i e)"
proof -
  have "keeps same_db (mapp (make_subject_to_obligation_edge E ctx p t i) xs)" by (intro readonly)
  then have "same_db w w'" using assms by (rule keepsD)
  moreover have "map te_source_id es = xs \<and> (\<forall>e \<in> set es. binds i e)"
    using assms
  proof (induction xs arbitrary: w es)
    case Nil
    then show ?case by (simp add: ret_run)
  next
    case (Cons x xs)
    from Cons.prems obtain e es1 w1 where e: "make_subject_to_obligation_edge E ctx p t i x w = (Inr e, w1)"
      and es: "mapp (make_subject_to_obligation_edge E ctx p t i) xs w1 = (Inr es1, w')" "es = e # es1"
      by (auto simp: elim!: bindp_InrE ret_InrE)
    have "te_source_id e = x \<and> binds i e"
      using e by (auto simp: make_subject_to_obligation_edge_def binds_def elim!: bindp_InrE ret_InrE)
    with Cons.IH [OF es(1)] es(2) show ?case by simp
  qed
  ultimately show ?thesis by blast
qed

lemma readonly_decision [readonly]:
  "keeps same_db (latest_transfer_decision i)" "keeps same_db (materialized_obligation_ids_for i)"
  unfolding latest_transfer_decision_def materialized_obligation_ids_for_def by (intro readonly)+

lemma readonly_gather [readonly]: "keeps same_db (gather_impact_edges seeds)"
  unfolding gather_impact_edges_def by (intro readonly)

section \<open>What the operations write\<close>

lemma case_dset:
  "key \<noteq> k \<Longrightarrow> map_of (case x of None \<Rightarrow> b | Some s \<Rightarrow> dset k (f s) b) key = map_of b key"
  by (cases x) simp_all

lemma obligation_fields_simps [simp]:
  "map_of (obligation_fields c i k dl bound tr cav a t) ''status'' = Some (JStr ''open'')"
  "map_of (obligation_fields c i k dl bound tr cav a t) ''bound_objects'' = Some (JArr (map JStr bound))"
  "map_of (obligation_fields c i k dl bound tr cav a t) ''obligation_kind'' = Some (JStr k)"
  "map_of (obligation_fields c i k dl bound tr cav a t) ''source_transfer_id'' = Some (JStr (tc_id c))"
  "map_of (obligation_fields c i k dl bound tr cav a t) ''resolution_evidence'' = None"
  by (simp_all add: obligation_fields_def Let_def case_dset OBLIGATION_LIFECYCLE_def)

lemma build_obligation_body_Inr:
  assumes "build_obligation_body E c i k dl bound tr cav a t = Inr (h, b)"
  shows "env_schema E ''Obligation'' b" and "compute_content_hash E b = Inr h"
    and "key \<noteq> ''content_hash'' \<Longrightarrow> map_of b key = map_of (obligation_fields c i k dl bound tr cav a t) key"
  using assms
  by (auto simp: build_obligation_body_def Let_def obligation_model_validate_def compute_content_hash_self
      split: sum.splits if_splits)

definition obligation_first :: "stored_object \<Rightarrow> bool" where
  "obligation_first r \<longleftrightarrow>
     created ''Obligation'' OBLIGATION_LIFECYCLE r \<and>
     (\<exists>bound. map_of (so_body r) ''bound_objects'' = Some (JArr (map JStr bound)))"

definition has_evidence :: "stored_object \<Rightarrow> bool" where
  "has_evidence r \<longleftrightarrow> (\<exists>s. s \<noteq> [] \<and> map_of (so_body r) ''resolution_evidence'' = Some (JStr s))"

definition propagated_from :: "stored_object \<Rightarrow> stored_object \<Rightarrow> bool" where
  "propagated_from l r \<longleftrightarrow>
     so_id r = so_id l \<and> so_kind r = so_kind l \<and> so_revision r = so_revision l + 1 \<and>
     (\<forall>k. k \<notin> {''propagated_objects''} \<union> bookkeeping \<longrightarrow> map_of (so_body r) k = map_of (so_body l) k)"

definition obligation_step :: "env \<Rightarrow> stored_object \<Rightarrow> stored_object \<Rightarrow> bool" where
  "obligation_step E l r \<longleftrightarrow>
     (moved E OBLIGATION_LIFECYCLE {''resolution_evidence''} l r \<and>
      (status_of r = Some ''resolved'' \<longrightarrow> has_evidence r)) \<or>
     (propagated_from l r \<and> (\<exists>s. status_of l = Some s))"

definition obligation_moves :: "(string \<times> string) list" where
  "obligation_moves =
     [(''open'', ''obligation.created''), (''resolved'', ''obligation.resolved''),
      (''deferred'', ''obligation.deferred'')]"

definition obligation_told :: "stored_object \<Rightarrow> domain_event \<Rightarrow> bool" where
  "obligation_told r e \<longleftrightarrow> tells obligation_moves r e \<or> de_event_type e = ''obligation.propagated''"

lemma propagated_status: "propagated_from l r \<Longrightarrow> status_of r = status_of l"
  by (simp add: propagated_from_def status_of_def bookkeeping_def)

lemma obligation_obeys: "obeys OBLIGATION_LIFECYCLE obligation_first (obligation_step E)"
  unfolding obeys_def
proof (intro conjI allI impI)
  fix r assume "obligation_first r"
  then show "status_of r = Some (sm_initial OBLIGATION_LIFECYCLE)"
    by (simp add: obligation_first_def created_def)
next
  fix l r assume "obligation_step E l r"
  then consider "moved E OBLIGATION_LIFECYCLE {''resolution_evidence''} l r"
    | "propagated_from l r" "\<exists>s. status_of l = Some s"
    unfolding obligation_step_def by blast
  then show "\<exists>a b. status_of l = Some a \<and> status_of r = Some b \<and>
      (a = b \<or> can_transition OBLIGATION_LIFECYCLE a b)"
  proof cases
    case 1
    then obtain a b where "status_of l = Some a" "status_of r = Some b" "can_transition OBLIGATION_LIFECYCLE a b"
      unfolding moved_def by (elim conjE exE)
    then show ?thesis by (intro exI conjI disjI2)
  next
    case 2
    from 2(2) obtain s where "status_of l = Some s" by (elim exE)
    with propagated_status [OF 2(1)] show ?thesis by simp
  qed
qed

lemma materialize_one_aon: "all_or_nothing (materialize_one E ctx c tr t k dl cav)"
  unfolding materialize_one_def case_prod_beta
  by (intro aon_bindp aon_ret aon_units readonly)

text \<open>One materialized obligation: its row, its edges and its event.\<close>

lemma materialize_one_Inr:
  assumes ok: "world_ok E w" and run: "materialize_one E ctx c tr t k dl cav w = (Inr r, w')"
  shows "\<exists>e es. committed E [r] es e w w' \<and> announces e [r] \<and> de_event_type e = ''obligation.created'' \<and>
    map_of (de_payload e) ''source_transfer_id'' = Some (JStr (tc_id c)) \<and>
    map te_source_id es = tc_transferred_ids c \<and> (\<forall>x \<in> set es. binds (so_id r) x) \<and>
    history_of (w_db w) (so_id r) = [] \<and> obligation_first r \<and> status_of r = Some ''open'' \<and>
    map_of (so_body r) ''bound_objects'' = Some (JArr (map JStr (tc_transferred_ids c))) \<and>
    map_of (so_body r) ''obligation_kind'' = Some (JStr k) \<and> env_schema E ''Obligation'' (so_body r) \<and>
    compute_content_hash E (so_body r) = Inr (so_content_hash r)"
proof -
  from run [unfolded materialize_one_def case_prod_beta]
  obtain i hb es e sa w1 w2 w3 where
    s1: "new_urn E ''obligation'' w = (Inr i, w1)"
    and s2: "build_obligation_body E c i k dl (tc_transferred_ids c) tr cav (cx_actor ctx) t = Inr hb"
    and s3: "mapp (make_subject_to_obligation_edge E ctx (tc_receiver_practice_id c) t i)
       (tc_transferred_ids c) w1 = (Inr es, w2)"
    and s4: "make_event E ctx ''obligation.created'' (ret t) (ret None) i 1
       [(''source_transfer_id'', JStr (tc_id c)), (''obligation_kind'', JStr k),
        (''bound_object_ids'', JArr (map JStr (tc_transferred_ids c)))] w2 = (Inr e, w3)"
    and s5: "bind_revision_with_edges_unit_of_work E (obligation_object c i (cx_actor ctx) t hb) None es e w3
       = (Inr sa, w')" and r: "r = fst sa"
    by (elim bindp_InrE lift_InrE ret_InrE) auto
  obtain h b where hb: "hb = (h, b)" by fastforce
  note bd = build_obligation_body_Inr [OF s2 [unfolded hb]]
  note ev = make_event_Inr [OF s4 keeps_same_pure(1) keeps_same_pure(1)]
  note ed = subject_edges_Inr [OF s3]
  have k3: "same_db w w3"
    using keepsD [OF readonly_new_urn s1] ed ev by (blast intro: transpD [OF transp_same_db])
  have eo: "event_ok e" using ev by blast
  obtain s es' a where sa: "sa = (s, es', a)" by (metis prod.exhaust)
  note u = revision_with_edges_Inr [OF world_ok_same_db [OF ok k3] eo s5 [unfolded sa]]
  have rr: "r = obligation_object c i (cx_actor ctx) t (h, b)" using u r sa hb by simp
  have com: "committed E [r] es e w w'"
    using u committed_from [OF k3] rr hb by auto
  have si: "so_id r = i" "so_body r = b" "so_kind r = ''Obligation''" "so_revision r = 1" "so_content_hash r = h"
    by (simp_all add: rr obligation_object_def)
  have hist: "history_of (w_db w) (so_id r) = []"
    using u k3 si by (auto simp: current_revision_def same_db_def obligation_object_def split: if_splits)
  have st: "status_of r = Some ''open''" using bd(3) [of "''status''"] by (simp add: status_of_Some si)
  have bo: "map_of (so_body r) ''bound_objects'' = Some (JArr (map JStr (tc_transferred_ids c)))"
    using bd(3) [of "''bound_objects''"] by (simp add: si)
  have fst: "obligation_first r"
    unfolding obligation_first_def created_def using si st bo by (auto simp: OBLIGATION_LIFECYCLE_def)
  show ?thesis
    apply (rule exI [of _ e], rule exI [of _ es], intro conjI)
    subgoal by (rule com)
    subgoal using ev si by (simp add: announces_def)
    subgoal using ev by blast
    subgoal using ev by simp
    subgoal using ed by blast
    subgoal using ed unfolding si by blast
    subgoal by (rule hist)
    subgoal by (rule fst)
    subgoal by (rule st)
    subgoal by (rule bo)
    subgoal using bd(3) [of "''obligation_kind''"] by (simp add: si)
    subgoal using bd(1) by (simp add: si)
    subgoal using bd(2) by (simp add: si)
    done
qed

lemma materialize_one_writes:
  assumes ok: "world_ok E w"
  shows "writes E ''Obligation'' obligation_first (obligation_step E) obligation_told w
    (snd (materialize_one E ctx c tr t k dl cav w))"
proof (rule aon_writes [OF materialize_one_aon prod.collapse [symmetric]])
  fix r assume "fst (materialize_one E ctx c tr t k dl cav w) = Inr r"
  then have run: "materialize_one E ctx c tr t k dl cav w = (Inr r, snd (materialize_one E ctx c tr t k dl cav w))"
    by (metis prod.collapse)
  from materialize_one_Inr [OF ok run] obtain e es where
    com: "committed E [r] es e w (snd (materialize_one E ctx c tr t k dl cav w))" "announces e [r]"
    and ty: "de_event_type e = ''obligation.created''"
    and r: "history_of (w_db w) (so_id r) = []" "obligation_first r" "status_of r = Some ''open''"
    by (elim exE conjE) (rule that)
  have "so_kind r = ''Obligation''" using r(2) by (simp add: obligation_first_def created_def)
  then have "fits ''Obligation'' obligation_first (obligation_step E) (w_db w) r" using r by (simp add: fits_def)
  moreover have "obligation_told r e" using r(3) ty by (simp add: obligation_told_def tells_def obligation_moves_def)
  ultimately show "writes E ''Obligation'' obligation_first (obligation_step E) obligation_told w
    (snd (materialize_one E ctx c tr t k dl cav w))"
    using com by (blast intro: writes_single)
qed

lemma materialize_from_transfer_writes:
  "keeps (only_writes E ''Obligation'' obligation_first (obligation_step E) obligation_told)
     (materialize_from_transfer reiso E ctx i)"
proof -
  have one: "keeps (only_writes E ''Obligation'' obligation_first (obligation_step E) obligation_told)
      (materialize_one E ctx c tr t k dl cav)" for c tr t k dl cav
    by (rule only_writesI) (rule materialize_one_writes)
  show ?thesis
    unfolding materialize_from_transfer_def case_prod_beta Let_def
    by (intro only_writes_intros one readonly_only_writes [OF readonly_decision(1)] readonly_only_writes [OF readonly_decision(2)]
        readonly_only_writes [OF readonly_get_latest_or] readonly_only_writes [OF readonly_now])
qed

section \<open>Propagation\<close>

lemma propagate_aon: "all_or_nothing (propagate E ctx i)"
  unfolding propagate_def case_prod_beta Let_def
  by (intro aon_if aon_bindp aon_ret aon_units aon_keeps [OF readonly_pure(1)] readonly)

text \<open>The objects an obligation has to be bound to: all that is built on its bound objects.\<close>

definition binding_closure :: "db \<Rightarrow> urn list \<Rightarrow> urn set" where
  "binding_closure d seeds = impacted_by (impact_rel (edges_tbl d)) (set seeds)"

lemma gather_binding:
  assumes "gather_impact_edges seeds w = (Inr es, w')"
  shows "w' = w" and "set (compute_obligation_binding seeds es) = binding_closure (w_db w) seeds"
  using assms
  by (auto simp: gather_impact_edges_def asks_run compute_obligation_binding_def binding_closure_def
      set_compute_impact intro: impacted_by_edges_into [OF set_gather_loop, THEN equalityD1, THEN subsetD]
      impacted_by_edges_into [OF set_gather_loop, THEN equalityD2, THEN subsetD])

lemma bound_edges_run:
  "edges_to i (Some ''subject_to_obligation'') w = (Inr es, w') \<Longrightarrow>
     w' = w \<and> te_source_id ` set es = bound_to (w_db w) i"
  by (auto simp: edges_to_def edges_by_def asks_run bound_to_def binds_def)

lemma propagate_Inr:
  assumes ok: "world_ok E w" and run: "propagate E ctx i w = (Inr r, w')"
  obtains latest seeds where "latest = last (history_of (w_db w) i)" "history_of (w_db w) i \<noteq> []"
      "so_id latest = i" "dget_strs (so_body latest) ''bound_objects'' = Inr seeds"
      "binding_closure (w_db w) seeds \<subseteq> bound_to (w_db w) i" "r = latest" "same_db w w'"
    | latest seeds e es objs missing where "latest = last (history_of (w_db w) i)" "history_of (w_db w) i \<noteq> []"
      "so_id latest = i" "dget_strs (so_body latest) ''bound_objects'' = Inr seeds"
      "\<not> binding_closure (w_db w) seeds \<subseteq> bound_to (w_db w) i"
      "committed E [r] es e w w'" "announces e [r]" "de_event_type e = ''obligation.propagated''"
      "propagated_from latest r" "env_schema E ''Obligation'' (so_body r)"
      "map_of (so_body r) ''propagated_objects'' = Some (JArr (map JStr objs))"
      "sorted objs" "distinct objs" "set objs = binding_closure (w_db w) seeds"
      "map te_source_id es = missing" "distinct missing"
      "set missing = binding_closure (w_db w) seeds - bound_to (w_db w) i" "\<forall>x \<in> set es. binds i x"
proof -
  from run [unfolded propagate_def case_prod_beta Let_def]
  obtain latest seeds edges bd w1 w2 w3 where
    s1: "get_latest_or (ObligationNotFoundError i) i w = (Inr latest, w1)"
    and s2: "dget_strs (so_body latest) ''bound_objects'' = Inr seeds"
    and s3: "gather_impact_edges seeds w1 = (Inr edges, w2)"
    and s4: "edges_to i (Some ''subject_to_obligation'') w2 = (Inr bd, w3)"
    and rest: "(if sorted_set (filter (\<lambda>i. i \<notin> te_source_id ` set bd)
          (compute_obligation_binding seeds edges)) = [] then ret latest
       else bindp (now E) (\<lambda>t.
         bindp (mapp (make_subject_to_obligation_edge E ctx (so_practice_id latest) t i)
           (sorted_set (filter (\<lambda>i. i \<notin> te_source_id ` set bd) (compute_obligation_binding seeds edges)))) (\<lambda>new_edges.
         bindp (lift (finish_body E (so_revision latest + 1) t (cx_actor ctx)
           (dset ''propagated_objects'' (JArr (map JStr (sorted_set (compute_obligation_binding seeds edges))))
             (so_body latest)))) (\<lambda>hb.
         bindp (lift (obligation_model_validate E (snd hb))) (\<lambda>_.
         bindp (make_event E ctx ''obligation.propagated'' (ret t) (last_event_id_for i)
           i (so_revision latest + 1)
           [(''propagated_objects'', JArr (map JStr (sorted_set (compute_obligation_binding seeds edges)))),
            (''newly_bound_object_ids'', JArr (map JStr (sorted_set (filter (\<lambda>i. i \<notin> te_source_id ` set bd)
               (compute_obligation_binding seeds edges)))))]) (\<lambda>e.
         bindp (bind_revision_with_edges_unit_of_work E
           (next_object latest (so_revision latest + 1) t (cx_actor ctx) (fst hb) (snd hb))
           (Some (so_revision latest)) new_edges e) (\<lambda>sa. ret (fst sa)))))))) w3 = (Inr r, w')"
    by (elim bindp_InrE lift_InrE) (hypsubst, rule that, assumption+)
  note l = get_latest_or_Inr [OF world_ok_parts(2) [OF ok] s1]
  have w: "w1 = w" "w2 = w" "w3 = w" using l gather_binding(1) [OF s3] bound_edges_run [OF s4] by simp_all
  define objs where "objs = sorted_set (compute_obligation_binding seeds edges)"
  define missing where "missing = sorted_set (filter (\<lambda>i. i \<notin> te_source_id ` set bd) (compute_obligation_binding seeds edges))"
  have objs: "set objs = binding_closure (w_db w) seeds" "sorted objs" "distinct objs"
    using gather_binding(2) [OF s3] by (simp_all add: objs_def w)
  have b: "te_source_id ` set bd = bound_to (w_db w) i" using bound_edges_run [OF s4] w by simp
  have ms: "set missing = binding_closure (w_db w) seeds - bound_to (w_db w) i" "distinct missing"
    unfolding missing_def set_sorted_set set_filter b gather_binding(2) [OF s3] w by auto
  have ll: "latest = last (history_of (w_db w) i)" "history_of (w_db w) i \<noteq> []" "so_id latest = i"
    using l by blast+
  show ?thesis
  proof (cases "missing = []")
    case True
    with rest have "r = latest" "w' = w3" unfolding missing_def [symmetric] by (simp_all add: ret_run)
    moreover have "binding_closure (w_db w) seeds \<subseteq> bound_to (w_db w) i" using ms(1) True by simp
    ultimately show ?thesis using that(1) [OF ll s2] w by simp
  next
    case False
    from rest [folded objs_def missing_def, unfolded if_not_P [OF False]]
    obtain t new hb u e sa v1 v2 v3 where
      n1: "now E w3 = (Inr t, v1)"
      and n2: "mapp (make_subject_to_obligation_edge E ctx (so_practice_id latest) t i) missing v1 = (Inr new, v2)"
      and n3: "finish_body E (so_revision latest + 1) t (cx_actor ctx)
        (dset ''propagated_objects'' (JArr (map JStr objs)) (so_body latest)) = Inr hb"
      and n4: "obligation_model_validate E (snd hb) = Inr u"
      and n5: "make_event E ctx ''obligation.propagated'' (ret t) (last_event_id_for i) i (so_revision latest + 1)
        [(''propagated_objects'', JArr (map JStr objs)), (''newly_bound_object_ids'', JArr (map JStr missing))] v2
        = (Inr e, v3)"
      and n6: "bind_revision_with_edges_unit_of_work E
        (next_object latest (so_revision latest + 1) t (cx_actor ctx) (fst hb) (snd hb))
        (Some (so_revision latest)) new e v3 = (Inr sa, w')" and r: "r = fst sa"
      by (elim bindp_InrE lift_InrE ret_InrE) auto
    obtain h bb where hb: "hb = (h, bb)" by fastforce
    obtain s es' a where sa: "sa = (s, es', a)" by (metis prod.exhaust)
    note ev = make_event_Inr [OF n5 keeps_same_pure(1) readonly_last_event]
    note ed = subject_edges_Inr [OF n2]
    have k: "same_db w v3"
      using keepsD [OF readonly_now n1] ed ev w by (blast intro: transpD [OF transp_same_db])
    have eo: "event_ok e" using ev by blast
    note u = revision_with_edges_Inr [OF world_ok_same_db [OF ok k] eo n6 [unfolded sa hb fst_conv snd_conv]]
    have rr: "r = next_object latest (so_revision latest + 1) t (cx_actor ctx) h bb" using u r sa by simp
    have com: "committed E [r] new e w w'" using u committed_from [OF k] rr by auto
    note fb = finish_body_Inr [OF n3 [unfolded hb]]
    have pf: "propagated_from latest r"
      unfolding propagated_from_def bookkeeping_def rr
      by (intro conjI allI impI) (simp_all add: fb(5))
    show ?thesis
    proof (rule that(2) [OF ll s2 _ com _ _ pf _ _ objs(2,3,1) _ ms(2,1)])
      show "\<not> binding_closure (w_db w) seeds \<subseteq> bound_to (w_db w) i" using ms(1) False by (metis Diff_eq_empty_iff set_empty)
      show "announces e [r]" using ev ll rr by (simp add: announces_def)
      show "de_event_type e = ''obligation.propagated''" using ev by blast
      show "env_schema E ''Obligation'' (so_body r)"
        using n4 rr by (simp add: hb obligation_model_validate_def split: if_splits)
      show "map_of (so_body r) ''propagated_objects'' = Some (JArr (map JStr objs))"
        using fb(5) [of "''propagated_objects''"] by (simp add: rr)
      show "map te_source_id new = missing" using ed by blast
      show "\<forall>x \<in> set new. binds i x" using ed by blast
    qed
  qed
qed

lemma propagate_writes:
  assumes ok: "world_ok E w" and ad: "addressable ''Obligation'' (w_db w) i"
    and st: "\<forall>r \<in> set (history_of (w_db w) i). \<exists>s. status_of r = Some s"
  shows "writes E ''Obligation'' obligation_first (obligation_step E) obligation_told w
    (snd (propagate E ctx i w))"
proof (rule aon_writes [OF propagate_aon prod.collapse [symmetric]])
  fix r assume "fst (propagate E ctx i w) = Inr r"
  then have run: "propagate E ctx i w = (Inr r, snd (propagate E ctx i w))" by (metis prod.collapse)
  from ok run show "writes E ''Obligation'' obligation_first (obligation_step E) obligation_told w
      (snd (propagate E ctx i w))"
  proof (cases rule: propagate_Inr)
    case 1
    show ?thesis by (rule writes.still [OF \<open>same_db w (snd (propagate E ctx i w))\<close>])
  next
    case (2 latest seeds e es objs missing)
    have m: "latest \<in> set (history_of (w_db w) i)" using 2(1,2) by simp
    have kk: "so_kind latest = ''Obligation''" using ad m unfolding addressable_def by blast
    obtain s where s: "status_of latest = Some s" using st m by blast
    have idr: "so_id r = i" "so_kind r = ''Obligation''"
      using \<open>propagated_from latest r\<close> \<open>so_id latest = i\<close> kk by (simp_all add: propagated_from_def)
    have "obligation_step E latest r"
      unfolding obligation_step_def using \<open>propagated_from latest r\<close> s by blast
    then have "fits ''Obligation'' obligation_first (obligation_step E) (w_db w) r"
      using ad 2(1,2) idr by (simp add: fits_def addressable_def)
    moreover have "obligation_told r e"
      using \<open>de_event_type e = ''obligation.propagated''\<close> by (simp add: obligation_told_def)
    ultimately show ?thesis
      using \<open>committed E [r] es e w (snd (propagate E ctx i w))\<close> \<open>announces e [r]\<close> by (blast intro: writes_single)
  qed
qed

section \<open>Resolution and deferral\<close>

lemma resolve_writes:
  assumes ok: "world_ok E w" and ad: "addressable ''Obligation'' (w_db w) i"
  shows "writes E ''Obligation'' obligation_first (obligation_step E) obligation_told w
    (snd (resolve E ctx i evidence w))"
proof (cases "evidence = []")
  case True
  then show ?thesis by (simp add: resolve_def bindp_def guardp_run writes.still)
next
  case False
  have "writes E ''Obligation'' obligation_first (obligation_step E) obligation_told w
    (snd (obligation_transition E ctx i ''resolved'' ''obligation.resolved''
       [(''resolution_evidence'', JStr evidence)] w))"
    unfolding obligation_transition_def
  proof (rule transition_writes [OF ok prod.collapse [symmetric] ad, where ks = "{''resolution_evidence''}"])
    fix l t h b
    let ?r = "next_object l (so_revision l + 1) t (cx_actor ctx) h b"
    assume m: "moved E OBLIGATION_LIFECYCLE {''resolution_evidence''} l ?r"
      and fb: "finish_body E (so_revision l + 1) t (cx_actor ctx)
        (dupdate (dset ''status'' (JStr ''resolved'') (so_body l)) [(''resolution_evidence'', JStr evidence)]) = Inr (h, b)"
    have "map_of b ''resolution_evidence'' = Some (JStr evidence)"
      using finish_body_Inr(5) [OF fb, of "''resolution_evidence''"] by simp
    then have "has_evidence ?r" using False by (simp add: has_evidence_def)
    with m show "obligation_step E l ?r" by (simp add: obligation_step_def)
  next
    fix e :: domain_event and r assume "status_of r = Some ''resolved''" "de_event_type e = ''obligation.resolved''"
    then show "obligation_told r e" by (simp add: obligation_told_def tells_def obligation_moves_def)
  qed simp_all
  with False show ?thesis by (simp add: resolve_def bindp_def guardp_run)
qed

lemma defer_writes:
  assumes ok: "world_ok E w" and ad: "addressable ''Obligation'' (w_db w) i"
  shows "writes E ''Obligation'' obligation_first (obligation_step E) obligation_told w
    (snd (obligation_defer E ctx i w))"
  unfolding obligation_defer_def obligation_transition_def
proof (rule transition_writes [OF ok prod.collapse [symmetric] ad, where ks = "{''resolution_evidence''}"])
  fix l t h b
  let ?r = "next_object l (so_revision l + 1) t (cx_actor ctx) h b"
  assume "moved E OBLIGATION_LIFECYCLE {''resolution_evidence''} l ?r" "status_of ?r = Some ''deferred''"
  then show "obligation_step E l ?r" by (simp add: obligation_step_def)
next
  fix e :: domain_event and r assume "status_of r = Some ''deferred''" "de_event_type e = ''obligation.deferred''"
  then show "obligation_told r e" by (simp add: obligation_told_def tells_def obligation_moves_def)
qed simp_all

section \<open>The service\<close>

datatype obligation_call =
    Materialize urn
  | Propagate urn
  | Resolve urn string
  | DeferObligation urn

text \<open>The caller owes that the addressed object is an obligation whose body carries a status.\<close>

definition obligation_at :: "db \<Rightarrow> urn \<Rightarrow> bool" where
  "obligation_at d i \<longleftrightarrow>
     addressable ''Obligation'' d i \<and> (\<forall>r \<in> set (history_of d i). \<exists>s. status_of r = Some s)"

fun obligation_run ::
  "(string \<Rightarrow> string option) \<Rightarrow> env \<Rightarrow> call_ctx \<times> obligation_call \<Rightarrow> world \<Rightarrow> world" where
  "obligation_run reiso E (ctx, Materialize i) w = snd (materialize_from_transfer reiso E ctx i w)"
| "obligation_run reiso E (ctx, Propagate i) w = snd (propagate E ctx i w)"
| "obligation_run reiso E (ctx, Resolve i evidence) w = snd (resolve E ctx i evidence w)"
| "obligation_run reiso E (ctx, DeferObligation i) w = snd (obligation_defer E ctx i w)"

fun obligation_call_ok :: "db \<Rightarrow> call_ctx \<times> obligation_call \<Rightarrow> bool" where
  "obligation_call_ok d (ctx, Materialize i) = True"
| "obligation_call_ok d (ctx, Propagate i) = obligation_at d i"
| "obligation_call_ok d (ctx, Resolve i evidence) = obligation_at d i"
| "obligation_call_ok d (ctx, DeferObligation i) = obligation_at d i"

interpretation obligations:
  governed_service E "''Obligation''" obligation_first "obligation_step E" obligation_told
    "obligation_run reiso E" obligation_call_ok for reiso E
proof
  fix w c assume ok: "world_ok E w" and c: "obligation_call_ok (w_db w) c"
  obtain ctx k where ck: "c = (ctx, k)" by fastforce
  show "writes E ''Obligation'' obligation_first (obligation_step E) obligation_told w
      (obligation_run reiso E c w)"
  proof (cases k)
    case (Materialize i)
    with ok ck show ?thesis by (simp add: only_writesD [OF materialize_from_transfer_writes])
  next
    case (Propagate i)
    with ok ck c show ?thesis by (simp add: obligation_at_def propagate_writes)
  next
    case (Resolve i evidence)
    with ok ck c show ?thesis by (simp add: obligation_at_def resolve_writes)
  next
    case (DeferObligation i)
    with ok ck c show ?thesis by (simp add: obligation_at_def defer_writes)
  qed
qed

end
