(* ===== verification/Obligation_Properties.thy ===== *)
theory Obligation_Properties
  imports Obligation_Service Governance_Properties
begin

text \<open>
  What the Obligation service guarantees: an accepted transfer is materialized once and
  completely, propagation binds an obligation to everything built on its objects and then has
  nothing left to do, and obligations follow their lifecycle.
\<close>

section \<open>What a materialization lays down\<close>

definition event_list :: "db \<Rightarrow> domain_event list" where
  "event_list d = map ae_event (domain_events_tbl d)"

definition materialized_for :: "db \<Rightarrow> urn \<Rightarrow> urn list" where
  "materialized_for d i =
     map de_object_id (filter (\<lambda>e. de_event_type e = ''obligation.created'' \<and>
       map_of (de_payload e) ''source_transfer_id'' = Some (JStr i)) (event_list d))"

definition last_response :: "db \<Rightarrow> urn \<Rightarrow> domain_event option" where
  "last_response d i =
     last_opt (filter (\<lambda>e. de_object_id e = i \<and> de_event_type e = ''transfer.responded'') (event_list d))"

lemma materialized_run:
  "log_ok E w \<Longrightarrow> materialized_obligation_ids_for i w = (Inr (materialized_for (w_db w) i), w)"
  by (simp add: materialized_obligation_ids_for_def bindp_def read_all_run ret_run materialized_for_def
      event_list_def)

lemma decision_Inr:
  assumes "log_ok E w" and "latest_transfer_decision i w = (Inr (d, ev), w')"
  shows "w' = w \<and> (d = None \<or> (\<exists>e s. last_response (w_db w) i = Some e \<and> d = Some s \<and>
    map_of (de_payload e) ''decision'' = Some (JStr s)))"
proof (cases "last_response (w_db w) i")
  case None
  with assms show ?thesis
    by (simp add: latest_transfer_decision_def bindp_def read_all_run ret_run last_response_def event_list_def)
next
  case (Some e)
  with assms show ?thesis
    by (auto simp: latest_transfer_decision_def bindp_def read_all_run ret_run last_response_def
        event_list_def lift_run split: sum.splits)
qed

definition open_duty :: "transfer_contract \<Rightarrow> stored_object \<Rightarrow> bool" where
  "open_duty c r \<longleftrightarrow>
     so_kind r = ''Obligation'' \<and> so_revision r = 1 \<and> status_of r = Some ''open'' \<and>
     map_of (so_body r) ''bound_objects'' = Some (JArr (map JStr (tc_transferred_ids c)))"

definition laid ::
  "env \<Rightarrow> transfer_contract \<Rightarrow> string list \<Rightarrow> stored_object list \<Rightarrow> world \<Rightarrow> world \<Rightarrow> bool" where
  "laid E c ks rs w w' \<longleftrightarrow>
     world_ok E w' \<and> objects_tbl (w_db w') = objects_tbl (w_db w) @ rs \<and>
     materialized_for (w_db w') (tc_id c) = materialized_for (w_db w) (tc_id c) @ map so_id rs \<and>
     map (\<lambda>r. map_of (so_body r) ''obligation_kind'') rs = map (\<lambda>k. Some (JStr k)) ks \<and>
     (\<forall>x. bound_to (w_db w) x \<subseteq> bound_to (w_db w') x) \<and>
     (\<forall>r \<in> set rs. open_duty c r \<and> history_of (w_db w) (so_id r) = [] \<and>
        set (tc_transferred_ids c) \<subseteq> bound_to (w_db w') (so_id r))"

lemma laid_trans:
  assumes 1: "laid E c ks rs w w1" and 2: "laid E c ls qs w1 w2"
  shows "laid E c (ks @ ls) (rs @ qs) w w2"
proof -
  have "set (tc_transferred_ids c) \<subseteq> bound_to (w_db w2) (so_id r)" if "r \<in> set rs" for r
  proof -
    have "set (tc_transferred_ids c) \<subseteq> bound_to (w_db w1) (so_id r)" using 1 that unfolding laid_def by blast
    also have "\<dots> \<subseteq> bound_to (w_db w2) (so_id r)" using 2 unfolding laid_def by blast
    finally show ?thesis .
  qed
  moreover have "bound_to (w_db w) x \<subseteq> bound_to (w_db w2) x" for x
    using 1 2 unfolding laid_def by (meson subset_trans)
  moreover have "history_of (w_db w) (so_id r) = []" if "r \<in> set qs" for r
  proof -
    have "history_of (w_db w1) (so_id r) = []" using 2 that unfolding laid_def by blast
    moreover have "objects_tbl (w_db w1) = objects_tbl (w_db w) @ rs" using 1 by (simp add: laid_def)
    ultimately show ?thesis by (simp add: history_of_def)
  qed
  ultimately show ?thesis using 1 2 by (auto simp: laid_def)
qed

lemma laid_none: "world_ok E w \<Longrightarrow> same_db w w' \<Longrightarrow> laid E c [] [] w w'"
  using world_ok_same_db by (auto simp: laid_def same_db_def)

lemma materialize_one_laid:
  assumes ok: "world_ok E w" and run: "materialize_one E ctx c tr t k dl cav w = (Inr r, w')"
  shows "laid E c [k] [r] w w'"
proof -
  from materialize_one_Inr [OF ok run] obtain e es where
    com: "committed E [r] es e w w'" and an: "announces e [r]" and ty: "de_event_type e = ''obligation.created''"
    and src: "map_of (de_payload e) ''source_transfer_id'' = Some (JStr (tc_id c))"
    and es: "map te_source_id es = tc_transferred_ids c" "\<forall>x \<in> set es. binds (so_id r) x"
    and hi: "history_of (w_db w) (so_id r) = []"
    and f: "obligation_first r" and st: "status_of r = Some ''open''"
    and bo: "map_of (so_body r) ''bound_objects'' = Some (JArr (map JStr (tc_transferred_ids c)))"
    and kd: "map_of (so_body r) ''obligation_kind'' = Some (JStr k)"
    by (elim exE conjE) (rule that)
  from com obtain a tt where a: "ae_event a = e" "w_db w' = commit [r] es a tt (w_db w)"
    and ok': "world_ok E w'" by (auto simp: committed_def)
  have ev: "event_list (w_db w') = event_list (w_db w) @ [e]" by (simp add: event_list_def a)
  have oid: "de_object_id e = so_id r" using an by (simp add: announces_def)
  have mt: "materialized_for (w_db w') (tc_id c) = materialized_for (w_db w) (tc_id c) @ [so_id r]"
    unfolding materialized_for_def ev by (simp add: ty src oid)
  have bt: "bound_to (w_db w) x \<subseteq> bound_to (w_db w') x" for x by (auto simp: bound_to_def a)
  have "te_source_id ` set es \<subseteq> bound_to (w_db w') (so_id r)" using es(2) by (auto simp: bound_to_def a)
  then have be: "set (tc_transferred_ids c) \<subseteq> bound_to (w_db w') (so_id r)" by (simp flip: es(1))
  have od: "open_duty c r" using f st bo by (simp add: open_duty_def obligation_first_def created_def)
  show ?thesis unfolding laid_def using ok' a mt kd bt od be hi by simp
qed

lemma materialize_all_laid:
  "world_ok E w \<Longrightarrow>
     mapp (\<lambda>s. materialize_one E ctx c tr t (ob_kind s) (ob_deadline s) None) stubs w = (Inr rs, w') \<Longrightarrow>
     laid E c (map ob_kind stubs) rs w w'"
proof (induction stubs arbitrary: w rs)
  case Nil
  then show ?case by (simp add: ret_run laid_none)
next
  case (Cons s stubs)
  from Cons.prems(2) obtain r w1 rs1 where
    1: "materialize_one E ctx c tr t (ob_kind s) (ob_deadline s) None w = (Inr r, w1)"
    and 2: "mapp (\<lambda>s. materialize_one E ctx c tr t (ob_kind s) (ob_deadline s) None) stubs w1 = (Inr rs1, w')"
    and rs: "rs = r # rs1" by (auto elim!: bindp_InrE ret_InrE)
  note l = materialize_one_laid [OF Cons.prems(1) 1]
  then have "world_ok E w1" by (simp add: laid_def)
  from laid_trans [OF l Cons.IH [OF this 2]] show ?case by (simp add: rs)
qed

text \<open>The kinds of the obligations a contract asks for.\<close>

definition duties :: "transfer_contract \<Rightarrow> string list" where
  "duties c = map ob_kind (tc_obligations c) @ (if tc_caveats c = [] then [] else [''retain_caveat''])"

lemma materialize_Inr:
  assumes ok: "world_ok E w" and run: "materialize_from_transfer reiso E ctx i w = (Inr rs, w')"
  obtains c e s where "history_of (w_db w) i \<noteq> []"
    and "transfer_contract_validate reiso E (so_body (last (history_of (w_db w) i))) = Inr c"
    and "materialized_for (w_db w) i = []"
    and "last_response (w_db w) i = Some e" and "map_of (de_payload e) ''decision'' = Some (JStr s)"
    and "s \<in> {''accepted'', ''adapted''}" and "laid E c (duties c) rs w w'"
proof -
  from run [unfolded materialize_from_transfer_def case_prod_beta Let_def]
  obtain latest c al dec t stored w1 w2 w3 w4 w5 where
    s1: "get_latest_or (ObligationSourceTransferNotFoundError i) i w = (Inr latest, w1)"
    and s2: "transfer_contract_validate reiso E (so_body latest) = Inr c"
    and s3: "materialized_obligation_ids_for i w1 = (Inr al, w2)" and s4: "al = []"
    and s5: "latest_transfer_decision i w2 = (Inr dec, w3)"
    and s6: "\<exists>d \<in> accepting_decisions. fst dec = Some d"
    and s7: "now E w3 = (Inr t, w4)"
    and m: "mapp (\<lambda>stub. materialize_one E ctx c
          (''transfer.responded:'' @ (case snd dec of None \<Rightarrow> ''None'' | Some i \<Rightarrow> i)) t
          (ob_kind stub) (ob_deadline stub) None) (tc_obligations c) w4 = (Inr stored, w5)"
    and r: "(if tc_caveats c \<noteq> [] then
          bindp (materialize_one E ctx c (''transfer.responded:'' @ (case snd dec of None \<Rightarrow> ''None'' | Some i \<Rightarrow> i)) t
            ''retain_caveat'' None (Some (tc_caveats c))) (\<lambda>last_one. ret (stored @ [last_one]))
        else ret stored) w5 = (Inr rs, w')"
    by (elim bindp_InrE lift_InrE guardp_InrE) (hypsubst+, rule that, (assumption | rule refl)+)
  note l = get_latest_or_Inr [OF world_ok_parts(2) [OF ok] s1]
  have w1: "w1 = w" and la: "latest = last (history_of (w_db w) i)" "history_of (w_db w) i \<noteq> []" using l by blast+
  have al: "al = materialized_for (w_db w) i" and w2: "w2 = w"
    using s3 [unfolded w1 materialized_run [OF world_ok_parts(1) [OF ok]]] by auto
  obtain d ev where dec: "dec = (d, ev)" by fastforce
  from decision_Inr [OF world_ok_parts(1) [OF ok] s5 [unfolded w2 dec]] s6 dec obtain e s where
    w3: "w3 = w" and e: "last_response (w_db w) i = Some e" "map_of (de_payload e) ''decision'' = Some (JStr s)"
    and d: "d = Some s" by auto
  have s: "s \<in> {''accepted'', ''adapted''}" using s6 by (simp add: dec d accepting_decisions_def)
  have k: "same_db w w4" using keepsD [OF readonly_now s7] by (simp add: w3)
  have ok4: "world_ok E w4" using ok k by (rule world_ok_same_db)
  from laid_trans [OF laid_none [OF ok k] materialize_all_laid [OF ok4 m]]
  have l5: "laid E c (map ob_kind (tc_obligations c)) stored w w5" by simp
  then have ok5: "world_ok E w5" by (simp add: laid_def)
  have "laid E c (duties c) rs w w'"
  proof (cases "tc_caveats c = []")
    case True
    with r l5 show ?thesis by (simp add: ret_run duties_def)
  next
    case False
    with r obtain x where x: "materialize_one E ctx c
        (''transfer.responded:'' @ (case snd dec of None \<Rightarrow> ''None'' | Some i \<Rightarrow> i)) t
            ''retain_caveat'' None (Some (tc_caveats c)) w5 = (Inr x, w')" and rs: "rs = stored @ [x]"
      by (auto elim!: bindp_InrE ret_InrE)
    from laid_trans [OF l5 materialize_one_laid [OF ok5 x]] False show ?thesis by (simp add: rs duties_def)
  qed
  with s2 la al s4 e s show thesis by (intro that) simp_all
qed

text \<open>A second materialization of the same transfer writes nothing and says why.\<close>

lemma materialize_again:
  assumes ok: "world_ok E w" and h: "history_of (w_db w) i \<noteq> []"
    and c: "transfer_contract_validate reiso E (so_body (last (history_of (w_db w) i))) = Inr c"
    and m: "materialized_for (w_db w) i \<noteq> []"
  shows "materialize_from_transfer reiso E ctx i w =
    (Inl (ObligationsAlreadyMaterializedError i (materialized_for (w_db w) i)), w)"
  using get_latest_or_run [OF world_ok_parts(2) [OF ok] h] c m
  by (simp add: materialize_from_transfer_def bindp_def lift_run materialized_run [OF world_ok_parts(1) [OF ok]]
      guardp_def raise_run)

text \<open>
  C15. Materialization happens only after an accepting response, once, and completely. When
  \<^verbatim>\<open>materialize_from_transfer\<close> returns, the last response to the transfer accepted or adapted it
  and nothing had been materialized for it; one open obligation is stored for each stub of the
  contract, in order, and one more when it has caveats; each is bound to every transferred
  object; and a further call, by anyone, raises \<^verbatim>\<open>ObligationsAlreadyMaterializedError\<close> with
  exactly the new ids and leaves the world as it was.
\<close>

theorem materialize_once_and_completely:
  assumes ok: "world_ok E w"
    and c: "transfer_contract_validate reiso E (so_body (last (history_of (w_db w) i))) = Inr c"
    and own: "tc_id c = i"
    and run: "materialize_from_transfer reiso E ctx i w = (Inr rs, w')"
  shows "(\<exists>e s. last_response (w_db w) i = Some e \<and> map_of (de_payload e) ''decision'' = Some (JStr s) \<and>
       s \<in> {''accepted'', ''adapted''}) \<and>
    materialized_for (w_db w) i = [] \<and>
    objects_tbl (w_db w') = objects_tbl (w_db w) @ rs \<and>
    map (\<lambda>r. map_of (so_body r) ''obligation_kind'') rs = map (\<lambda>k. Some (JStr k)) (duties c) \<and>
    (\<forall>r \<in> set rs. open_duty c r \<and> set (tc_transferred_ids c) \<subseteq> bound_to (w_db w') (so_id r)) \<and>
    (rs \<noteq> [] \<longrightarrow> (\<forall>ctx'. materialize_from_transfer reiso E ctx' i w' =
       (Inl (ObligationsAlreadyMaterializedError i (map so_id rs)), w')))"
proof -
  from ok run obtain c' e s where h: "history_of (w_db w) i \<noteq> []"
    and c': "transfer_contract_validate reiso E (so_body (last (history_of (w_db w) i))) = Inr c'"
    and m: "materialized_for (w_db w) i = []"
    and e: "last_response (w_db w) i = Some e" "map_of (de_payload e) ''decision'' = Some (JStr s)"
    and s: "s \<in> {''accepted'', ''adapted''}" and l: "laid E c' (duties c') rs w w'"
    by (rule materialize_Inr)
  from c c' have cc: "c' = c" by simp
  note l = l [unfolded cc laid_def own m]
  have "history_of (w_db w') i = history_of (w_db w) i"
  proof -
    have "so_id r \<noteq> i" if "r \<in> set rs" for r using l that h by (metis (no_types, lifting))
    then have "filter (\<lambda>r. so_id r = i) rs = []" by (simp add: filter_empty_conv)
    then show ?thesis using l by (simp add: history_of_def)
  qed
  note hist = this
  have again: "materialize_from_transfer reiso E ctx' i w' =
      (Inl (ObligationsAlreadyMaterializedError i (map so_id rs)), w')" if "rs \<noteq> []" for ctx'
  proof -
    have w': "world_ok E w'" using l by blast
    have mm: "materialized_for (w_db w') i = map so_id rs" using l by simp
    with that have "materialized_for (w_db w') i \<noteq> []" by simp
    from materialize_again [OF w' _ _ this, of reiso c ctx'] show ?thesis using h c mm unfolding hist by simp
  qed
  show ?thesis
  proof (intro conjI)
    show "\<exists>e s. last_response (w_db w) i = Some e \<and> map_of (de_payload e) ''decision'' = Some (JStr s) \<and>
        s \<in> {''accepted'', ''adapted''}"
      by (rule exI [of _ e], rule exI [of _ s], intro conjI e s)
    show "materialized_for (w_db w) i = []" by (rule m)
    show "objects_tbl (w_db w') = objects_tbl (w_db w) @ rs" using l by blast
    show "map (\<lambda>r. map_of (so_body r) ''obligation_kind'') rs = map (\<lambda>k. Some (JStr k)) (duties c)"
      using l by blast
    show "\<forall>r \<in> set rs. open_duty c r \<and> set (tc_transferred_ids c) \<subseteq> bound_to (w_db w') (so_id r)"
      using l by blast
    show "rs \<noteq> [] \<longrightarrow> (\<forall>ctx'. materialize_from_transfer reiso E ctx' i w' =
       (Inl (ObligationsAlreadyMaterializedError i (map so_id rs)), w'))"
      using again by blast
  qed
qed

section \<open>Propagation\<close>

lemma impact_rel_more:
  assumes "edges_tbl d' = edges_tbl d @ es" and "\<forall>x \<in> set es. binds i x"
  shows "impact_rel (edges_tbl d') = impact_rel (edges_tbl d)"
proof -
  have "\<not> impact_edge x" if "x \<in> set es" for x
    using assms(2) that
    by (simp add: binds_def impact_edge_def IMPACT_EDGE_TYPES_def FR091_IMPACT_CATEGORY_EDGE_TYPES_def)
  then show ?thesis using assms(1) by (auto simp: impact_rel_def)
qed

lemma gather_impact_run: "\<exists>es. gather_impact_edges seeds w = (Inr es, w)"
  by (simp add: gather_impact_edges_def asks_run)

text \<open>With nothing missing, a call returns the latest revision and changes no table.\<close>

lemma propagate_rests:
  assumes ok: "world_ok E w" and h: "history_of (w_db w) i \<noteq> []" "r = last (history_of (w_db w) i)"
    and s: "dget_strs (so_body r) ''bound_objects'' = Inr seeds"
    and b: "binding_closure (w_db w) seeds \<subseteq> bound_to (w_db w) i"
  shows "\<exists>w'. propagate E ctx i w = (Inr r, w') \<and> same_db w w'"
proof -
  obtain es where g: "gather_impact_edges seeds w = (Inr es, w)" using gather_impact_run by blast
  obtain bs where e: "edges_to i (Some ''subject_to_obligation'') w = (Inr bs, w)"
    by (simp add: edges_to_def edges_by_def asks_run)
  have bb: "te_source_id ` set bs = bound_to (w_db w) i" using bound_edges_run [OF e] by blast
  have "filter (\<lambda>x. x \<notin> te_source_id ` set bs) (compute_obligation_binding seeds es) = []"
    using b gather_binding(2) [OF g] unfolding bb by (auto simp: filter_empty_conv)
  then have ms: "sorted_set (filter (\<lambda>x. x \<notin> te_source_id ` set bs) (compute_obligation_binding seeds es)) = []"
    by (simp only: sorted_set_eq_Nil)
  have "propagate E ctx i w = (Inr r, w)"
    unfolding propagate_def Let_def
    using get_latest_or_run [OF world_ok_parts(2) [OF ok] h(1), folded h(2)] s g e ms
    by (simp add: bindp_def lift_run ret_run del: dget_strs_Inr)
  then show ?thesis by simp
qed

text \<open>
  C38. Propagation reaches everything and then rests. When \<^verbatim>\<open>propagate\<close> returns, the objects
  bound to the obligation are those bound before together with every object from which a bound
  object can be reached over impact edges of the stored graph; either nothing was missing and
  no table changed, or one revision was added, which lists exactly that closure in sorted order
  and keeps the status and the bound objects, with one new edge per missing object. A second
  call, by anyone, returns the same revision and changes no table.
\<close>

theorem propagate_binds_the_closure:
  assumes ok: "world_ok E w" and run: "propagate E ctx i w = (Inr r, w')"
  shows "\<exists>seeds. dget_strs (so_body (last (history_of (w_db w) i))) ''bound_objects'' = Inr seeds \<and>
    bound_to (w_db w') i = bound_to (w_db w) i \<union> binding_closure (w_db w) seeds \<and>
    r = last (history_of (w_db w') i) \<and>
    (if binding_closure (w_db w) seeds \<subseteq> bound_to (w_db w) i then same_db w w'
     else objects_tbl (w_db w') = objects_tbl (w_db w) @ [r] \<and>
       status_of r = status_of (last (history_of (w_db w) i)) \<and>
       map_of (so_body r) ''bound_objects'' = Some (JArr (map JStr seeds)) \<and>
       (\<exists>objs es. map_of (so_body r) ''propagated_objects'' = Some (JArr (map JStr objs)) \<and>
          sorted objs \<and> distinct objs \<and> set objs = binding_closure (w_db w) seeds \<and>
          edges_tbl (w_db w') = edges_tbl (w_db w) @ es \<and> distinct (map te_source_id es) \<and>
          te_source_id ` set es = binding_closure (w_db w) seeds - bound_to (w_db w) i)) \<and>
    (\<forall>ctx'. \<exists>w''. propagate E ctx' i w' = (Inr r, w'') \<and> same_db w' w'')"
  using ok run
proof (cases rule: propagate_Inr)
  case (1 latest seeds)
  have d: "w_db w' = w_db w" using \<open>same_db w w'\<close> by (simp add: same_db_def)
  have ok': "world_ok E w'" using ok \<open>same_db w w'\<close> by (rule world_ok_same_db)
  have again: "\<exists>w''. propagate E ctx' i w' = (Inr r, w'') \<and> same_db w' w''" for ctx'
    by (rule propagate_rests [OF ok']) (use 1 d in simp_all)
  show ?thesis
    by (rule exI [of _ seeds], intro conjI allI again) (use 1 d in auto)
next
  case (2 latest seeds e es objs missing)
  from \<open>committed E [r] es e w w'\<close> obtain a t where a: "w_db w' = commit [r] es a t (w_db w)"
    and ok': "world_ok E w'" by (auto simp: committed_def)
  have ir: "so_id r = i" using \<open>propagated_from latest r\<close> \<open>so_id latest = i\<close> by (simp add: propagated_from_def)
  have h': "history_of (w_db w') i = history_of (w_db w) i @ [r]" by (simp add: history_of_def a ir)
  have bo: "map_of (so_body r) ''bound_objects'' = map_of (so_body latest) ''bound_objects''"
    using \<open>propagated_from latest r\<close> by (simp add: propagated_from_def bookkeeping_def)
  then have bs: "dget_strs (so_body r) ''bound_objects'' = Inr seeds"
    using 2(4) by (simp add: dget_strs_def dget_def del: dget_strs_Inr)
  have e': "edges_tbl (w_db w') = edges_tbl (w_db w) @ es" by (simp add: a)
  have cl: "binding_closure (w_db w') seeds = binding_closure (w_db w) seeds"
    unfolding binding_closure_def impact_rel_more [OF e' \<open>\<forall>x \<in> set es. binds i x\<close>] ..
  have src: "te_source_id ` set es = binding_closure (w_db w) seeds - bound_to (w_db w) i"
    using \<open>map te_source_id es = missing\<close> \<open>set missing = _\<close> by (metis set_map)
  have "bound_to (w_db w') i = bound_to (w_db w) i \<union> te_source_id ` set es"
    using \<open>\<forall>x \<in> set es. binds i x\<close> unfolding bound_to_def e' by auto
  then have bt: "bound_to (w_db w') i = bound_to (w_db w) i \<union> binding_closure (w_db w) seeds"
    unfolding src by blast
  have again: "\<exists>w''. propagate E ctx' i w' = (Inr r, w'') \<and> same_db w' w''" for ctx'
    by (rule propagate_rests [OF ok' _ _ bs]) (simp add: h', simp add: h', unfold bt cl, rule Un_upper2)
  have m: "map_of (so_body r) ''bound_objects'' = Some (JArr (map JStr seeds))"
    using bs by (simp add: dget_strs_Inr)
  show ?thesis
  proof (rule exI [of _ seeds], intro conjI allI again)
    show "dget_strs (so_body (last (history_of (w_db w) i))) ''bound_objects'' = Inr seeds"
      using 2(1,4) by blast
    show "r = last (history_of (w_db w') i)" by (simp add: h')
    show "bound_to (w_db w') i = bound_to (w_db w) i \<union> binding_closure (w_db w) seeds" by (rule bt)
    have "\<exists>objs es. map_of (so_body r) ''propagated_objects'' = Some (JArr (map JStr objs)) \<and>
          sorted objs \<and> distinct objs \<and> set objs = binding_closure (w_db w) seeds \<and>
          edges_tbl (w_db w') = edges_tbl (w_db w) @ es \<and> distinct (map te_source_id es) \<and>
          te_source_id ` set es = binding_closure (w_db w) seeds - bound_to (w_db w) i"
      by (rule exI [of _ objs], rule exI [of _ es], intro conjI e' src)
        (use 2(11-14) \<open>map te_source_id es = missing\<close> \<open>distinct missing\<close> in simp_all)
    then show "if binding_closure (w_db w) seeds \<subseteq> bound_to (w_db w) i then same_db w w'
     else objects_tbl (w_db w') = objects_tbl (w_db w) @ [r] \<and>
       status_of r = status_of (last (history_of (w_db w) i)) \<and>
       map_of (so_body r) ''bound_objects'' = Some (JArr (map JStr seeds)) \<and>
       (\<exists>objs es. map_of (so_body r) ''propagated_objects'' = Some (JArr (map JStr objs)) \<and>
          sorted objs \<and> distinct objs \<and> set objs = binding_closure (w_db w) seeds \<and>
          edges_tbl (w_db w') = edges_tbl (w_db w) @ es \<and> distinct (map te_source_id es) \<and>
          te_source_id ` set es = binding_closure (w_db w) seeds - bound_to (w_db w) i)"
      using 2(5) propagated_status [OF \<open>propagated_from latest r\<close>] 2(1) m a by (simp only: if_False) simp
  qed
qed

section \<open>The lifecycle\<close>

fun obligation_addressed :: "db \<Rightarrow> obligation_call \<Rightarrow> bool" where
  "obligation_addressed d (Materialize i) = True"
| "obligation_addressed d (Propagate i) = addressable ''Obligation'' d i"
| "obligation_addressed d (Resolve i evidence) = addressable ''Obligation'' d i"
| "obligation_addressed d (DeferObligation i) = addressable ''Obligation'' d i"

inductive obligation_reach :: "(string \<Rightarrow> string option) \<Rightarrow> env \<Rightarrow> world \<Rightarrow> bool" for reiso E where
  start: "obligation_reach reiso E empty_world"
| call: "obligation_reach reiso E w \<Longrightarrow> obligation_addressed (w_db w) c \<Longrightarrow>
           obligation_reach reiso E (obligation_run reiso E (ctx, c) w)"
| other: "obligation_reach reiso E w \<Longrightarrow> committed E os es e w w' \<Longrightarrow>
            \<forall>r \<in> set os. so_kind r \<noteq> ''Obligation'' \<and> \<not> is_kind ''Obligation'' (w_db w) (so_id r) \<Longrightarrow>
            obligation_reach reiso E w'"
| idle: "obligation_reach reiso E w \<Longrightarrow> same_db w w' \<Longrightarrow> obligation_reach reiso E w'"

abbreviation obligations_ok :: "env \<Rightarrow> world \<Rightarrow> bool" where
  "obligations_ok E \<equiv> service_ok E ''Obligation'' obligation_first (obligation_step E) obligation_told"

lemma addressed_status:
  assumes ok: "obligations_ok E w" and ad: "addressable ''Obligation'' (w_db w) i"
  shows "obligation_at (w_db w) i"
proof -
  have "\<exists>s. status_of r = Some s" if r: "r \<in> set (history_of (w_db w) i)" for r
  proof -
    have g: "governed ''Obligation'' obligation_first (obligation_step E) (w_db w)"
      using ok by (simp add: service_ok_def)
    have k: "is_kind ''Obligation'' (w_db w) i" using ad r unfolding is_kind_def addressable_def by blast
    obtain ss where "map status_of (history_of (w_db w) i) = map Some ss"
      using governed_lifecycle [OF g obligation_obeys k] unfolding statuses_def by blast
    then have "status_of r \<in> Some ` set ss" using r by (metis image_eqI list.set_map)
    then show ?thesis by blast
  qed
  with ad show ?thesis unfolding obligation_at_def by blast
qed

lemma obligation_reach_ok: "obligation_reach reiso E w \<Longrightarrow> obligations_ok E w"
proof (induction rule: obligation_reach.induct)
  case start
  show ?case by (rule service_ok_empty)
next
  case (call w c ctx)
  have "obligation_call_ok (w_db w) (ctx, c)"
    using call.hyps(2) by (cases c) (simp_all add: addressed_status [OF call.IH])
  then show ?case by (rule obligations.run_keeps [OF call.IH])
next
  case (other w os es e w')
  then show ?case by (blast intro: service_ok_foreign)
next
  case (idle w w')
  then show ?case by (blast intro: service_ok_same_db)
qed

lemma successively_constant:
  "successively (\<lambda>a b. f b = f a) h \<Longrightarrow> x \<in> set h \<Longrightarrow> f x = f (hd h)"
  by (induction h rule: induct_list012) auto

lemma obligation_step_bound:
  "obligation_step E l r \<Longrightarrow> map_of (so_body r) ''bound_objects'' = map_of (so_body l) ''bound_objects''"
proof -
  assume "obligation_step E l r"
  then consider "moved E OBLIGATION_LIFECYCLE {''resolution_evidence''} l r" | "propagated_from l r"
    unfolding obligation_step_def by blast
  then show ?thesis by cases (simp_all add: moved_def propagated_from_def bookkeeping_def)
qed

definition resolved_has_evidence :: "stored_object \<Rightarrow> bool" where
  "resolved_has_evidence r \<longleftrightarrow> (status_of r = Some ''resolved'' \<longrightarrow> has_evidence r)"

lemma resolved_has_evidence_first: "obligation_first r \<Longrightarrow> resolved_has_evidence r"
  by (simp add: obligation_first_def created_def resolved_has_evidence_def OBLIGATION_LIFECYCLE_def)

lemma resolved_has_evidence_step:
  assumes s: "obligation_step E l r" and l: "resolved_has_evidence l"
  shows "resolved_has_evidence r"
proof (cases "propagated_from l r")
  case True
  then have "map_of (so_body r) ''resolution_evidence'' = map_of (so_body l) ''resolution_evidence''"
    by (simp add: propagated_from_def bookkeeping_def)
  with l propagated_status [OF True] show ?thesis by (simp add: resolved_has_evidence_def has_evidence_def)
next
  case False
  with s show ?thesis by (simp add: obligation_step_def resolved_has_evidence_def)
qed

text \<open>
  C39. In every world the Obligation service reaches, with the writes of the other services in
  between, an obligation has only obligation revisions, its statuses follow
  \<^verbatim>\<open>OBLIGATION_LIFECYCLE\<close> from \<^verbatim>\<open>open\<close> (propagation repeats a status), its bound objects never
  change, every resolved revision carries non-empty evidence, and every revision has the event
  that announced it in the log.
\<close>

theorem obligations_follow_lifecycle:
  assumes r: "obligation_reach reiso E w" and k: "is_kind ''Obligation'' (w_db w) i"
  shows "(\<exists>ss. statuses (w_db w) i = map Some ss \<and> history OBLIGATION_LIFECYCLE (remdups_adj ss)) \<and>
    (\<exists>bound. \<forall>r \<in> set (history_of (w_db w) i). so_kind r = ''Obligation'' \<and>
       map_of (so_body r) ''bound_objects'' = Some (JArr (map JStr bound)) \<and>
       (status_of r = Some ''resolved'' \<longrightarrow>
          (\<exists>s. s \<noteq> [] \<and> map_of (so_body r) ''resolution_evidence'' = Some (JStr s))) \<and>
       (\<exists>a \<in> set (domain_events_tbl (w_db w)). announces (ae_event a) [r]))"
proof
  have ok: "obligations_ok E w" using r by (rule obligation_reach_ok)
  then have g: "governed ''Obligation'' obligation_first (obligation_step E) (w_db w)"
    by (simp add: service_ok_def)
  show "\<exists>ss. statuses (w_db w) i = map Some ss \<and> history OBLIGATION_LIFECYCLE (remdups_adj ss)"
    by (rule governed_lifecycle [OF g obligation_obeys k])
  let ?h = "history_of (w_db w) i"
  from governedD [OF g k] have kinds: "\<forall>r \<in> set ?h. so_kind r = ''Obligation''"
    and f: "obligation_first (hd ?h)" and s: "successively (obligation_step E) ?h" by blast+
  from f obtain bound where b: "map_of (so_body (hd ?h)) ''bound_objects'' = Some (JArr (map JStr bound))"
    unfolding obligation_first_def by blast
  have "successively (\<lambda>a b. map_of (so_body b) ''bound_objects'' = map_of (so_body a) ''bound_objects'') ?h"
    by (rule successively_mono [OF s]) (rule obligation_step_bound)
  note const = successively_constant [OF this]
  show "\<exists>bound. \<forall>r \<in> set ?h. so_kind r = ''Obligation'' \<and>
       map_of (so_body r) ''bound_objects'' = Some (JArr (map JStr bound)) \<and>
       (status_of r = Some ''resolved'' \<longrightarrow>
          (\<exists>s. s \<noteq> [] \<and> map_of (so_body r) ''resolution_evidence'' = Some (JStr s))) \<and>
       (\<exists>a \<in> set (domain_events_tbl (w_db w)). announces (ae_event a) [r])"
  proof (rule exI [of _ bound], rule ballI, intro conjI)
    fix r assume m: "r \<in> set ?h"
    show kr: "so_kind r = ''Obligation''" using kinds m by (rule bspec)
    show "map_of (so_body r) ''bound_objects'' = Some (JArr (map JStr bound))" using const [OF m] b by simp
    have t: "r \<in> set (objects_tbl (w_db w))" using m by (simp add: history_of_def)
    have "resolved_has_evidence r"
      by (rule governed_all [OF g t kr]) (rule resolved_has_evidence_first, assumption,
        rule resolved_has_evidence_step)
    then show "status_of r = Some ''resolved'' \<longrightarrow>
          (\<exists>s. s \<noteq> [] \<and> map_of (so_body r) ''resolution_evidence'' = Some (JStr s))"
      by (simp add: resolved_has_evidence_def has_evidence_def)
    show "\<exists>a \<in> set (domain_events_tbl (w_db w)). announces (ae_event a) [r]"
      using ok t kr unfolding service_ok_def accounted_def by blast
  qed
qed

section \<open>Runs that succeed\<close>

lemma revision_with_edge_run:
  assumes ok: "world_ok E w" and E: "env_total E" and fresh: "de_id e \<notin> set (event_ids (w_db w))"
    and r: "so_revision r = next_revision expected" "current_revision (w_db w) (so_id r) = expected"
    and x: "te_edge_type x \<in> EDGE_VOCABULARY" "te_id x \<notin> te_id ` set (edges_tbl (w_db w))"
  shows "\<exists>a w'. bind_revision_with_edges_unit_of_work E r expected [x] e w = (Inr (r, [x], a), w') \<and>
    w_ticks w' = Suc (w_ticks w) \<and> event_ids (w_db w') = event_ids (w_db w) @ [de_id e]"
proof -
  let ?w1 = "w\<lparr>w_db := (w_db w)\<lparr>objects_tbl := objects_tbl (w_db w) @ [r]\<rparr>\<rparr>"
  let ?w2 = "?w1\<lparr>w_db := (w_db ?w1)\<lparr>edges_tbl := edges_tbl (w_db ?w1) @ [x]\<rparr>\<rparr>"
  have ins: "insert_revision_with_connection (ret ()) r expected w = (Inr r, ?w1)"
    using r by (simp add: insert_revision_quiet [OF world_ok_parts(2) [OF ok]])
  have "\<forall>s \<in> set (edges_tbl (w_db w)). te_id s \<noteq> te_id x" using x(2) by (metis imageI)
  with x have ed: "insert_edge_row x ?w1 = (Inr (), ?w2)" by (simp add: insert_edge_row_run)
  have ok2: "log_ok E ?w2" by (rule log_ok_cong [OF world_ok_parts(1) [OF ok]]) simp_all
  obtain h where h: "compute_event_hash E e (prev_hash_of ?w2) = Inr h"
    using env_total_event_hash [OF E] by blast
  have "de_id e \<notin> set (event_ids (w_db ?w2))" using fresh by (simp add: event_ids_def)
  then have "append_event E e ?w2 = (Inr (appended_row E e ?w2 h), appended_world E e ?w2 h)"
    unfolding append_event_run [OF ok2] h by simp
  with ins ed x show ?thesis
    by (simp add: bind_revision_with_edges_unit_of_work_def tx_def bindp_def ret_run guardp_run
        appended_world_def appended_row_def event_ids_def)
qed

lemma make_edge_run:
  "\<exists>x. make_subject_to_obligation_edge E ctx p t i b w = (Inr x, w\<lparr>w_ticks := Suc (w_ticks w)\<rparr>) \<and>
     te_edge_type x = ''subject_to_obligation'' \<and> te_id x = urn_text ''edge'' (env_ulid E (w_ticks w))"
  by (simp add: make_subject_to_obligation_edge_def bindp_def new_urn_run ret_run)

text \<open>One obligation on one object.\<close>

lemma materialize_one_run:
  assumes ok: "world_ok E w" and ctx: "ctx_ok ctx" and E: "env_total E"
    and schema: "\<And>d. env_schema E ''Obligation'' d"
    and b: "tc_transferred_ids c = [b]" and ids: "edges_tbl (w_db w) = []"
    and new: "history_of (w_db w) (urn_text ''obligation'' (env_ulid E (w_ticks w))) = []"
      "is_valid_urn (urn_text ''obligation'' (env_ulid E (w_ticks w)))"
    and fresh: "event_id_at E (w_ticks w + 2) \<notin> set (event_ids (w_db w))"
  shows "\<exists>r w'. materialize_one E ctx c tr t k dl cav w = (Inr r, w') \<and>
    so_id r = urn_text ''obligation'' (env_ulid E (w_ticks w)) \<and> w_ticks w' = w_ticks w + 4 \<and>
    event_ids (w_db w') = event_ids (w_db w) @ [event_id_at E (w_ticks w + 2)]"
proof -
  let ?i = "urn_text ''obligation'' (env_ulid E (w_ticks w))"
  let ?w1 = "w\<lparr>w_ticks := Suc (w_ticks w)\<rparr>"
  let ?w2 = "?w1\<lparr>w_ticks := Suc (w_ticks ?w1)\<rparr>"
  let ?w3 = "?w2\<lparr>w_ticks := Suc (w_ticks ?w2)\<rparr>"
  obtain h where h: "compute_content_hash E (obligation_fields c ?i k dl [b] tr cav (cx_actor ctx) t) = Inr h"
    using env_total_hash [OF E] by blast
  then obtain hb where hb: "build_obligation_body E c ?i k dl [b] tr cav (cx_actor ctx) t = Inr hb"
    using schema by (simp add: build_obligation_body_def Let_def obligation_model_validate_def)
  obtain x where x: "make_subject_to_obligation_edge E ctx (tc_receiver_practice_id c) t ?i b ?w1 = (Inr x, ?w2)"
    "te_edge_type x = ''subject_to_obligation''"
    using make_edge_run by blast
  have "non_empty ''obligation.created''" by (simp add: non_empty_def is_space_def)
  then obtain e where e: "make_event E ctx ''obligation.created'' (ret t) (ret None) ?i 1
       [(''source_transfer_id'', JStr (tc_id c)), (''obligation_kind'', JStr k),
        (''bound_object_ids'', JArr [JStr b])] ?w2 = (Inr e, ?w3)"
    and eid: "de_id e = event_id_at E (w_ticks ?w2)"
    using make_event_first_run [OF ctx E new(2), of "''obligation.created''" 1] by blast
  let ?r = "obligation_object c ?i (cx_actor ctx) t hb"
  have ok3: "world_ok E ?w3" using ok by simp
  have fr: "de_id e \<notin> set (event_ids (w_db ?w3))" using fresh eid by simp
  have rv: "so_revision ?r = next_revision None" "current_revision (w_db ?w3) (so_id ?r) = None"
    using new(1) by (simp_all add: obligation_object_def next_revision_def current_revision_def)
  have xv: "te_edge_type x \<in> EDGE_VOCABULARY" "te_id x \<notin> te_id ` set (edges_tbl (w_db ?w3))"
    using x(2) ids by (simp_all add: EDGE_VOCABULARY_def)
  obtain a w' where u: "bind_revision_with_edges_unit_of_work E ?r None [x] e ?w3 = (Inr (?r, [x], a), w')"
    and t': "w_ticks w' = Suc (w_ticks ?w3)" "event_ids (w_db w') = event_ids (w_db ?w3) @ [de_id e]"
    using revision_with_edge_run [OF ok3 E fr rv xv] by blast
  have "materialize_one E ctx c tr t k dl cav w = (Inr ?r, w')"
    unfolding materialize_one_def case_prod_beta b
    using hb x(1) e u by (simp add: bindp_def new_urn_run lift_run ret_run)
  with t' eid show ?thesis by (simp add: obligation_object_def)
qed

section \<open>Sample runs and witnesses\<close>

definition sample_transfer :: stored_object where
  "sample_transfer =
     \<lparr>so_id = sample_urn ''transfer'', so_api_version = ''mrr/v1alpha1'', so_kind = ''TransferContract'',
      so_practice_id = sample_urn ''practice'', so_revision = 1, so_created_at = 1700000000000000,
      so_created_by = sample_urn ''human'', so_content_hash = content_hash ''{}'',
      so_supersedes = None, so_labels = None,
      so_body = [(''id'', JStr (sample_urn ''transfer'')),
        (''receiver_practice_id'', JStr (sample_urn ''practice'')),
        (''transferred_objects'', JArr [JObj [(''id'', JStr (sample_urn ''claim''))]]),
        (''caveats'', JArr []),
        (''obligations'', JArr [JObj [(''kind'', JStr ''attribute_source'')]])]\<rparr>"

definition sample_contract :: transfer_contract where
  "sample_contract =
     \<lparr>tc_id = sample_urn ''transfer'', tc_receiver_practice_id = sample_urn ''practice'',
      tc_transferred_ids = [sample_urn ''claim''], tc_caveats = [],
      tc_obligations = [\<lparr>ob_kind = ''attribute_source'', ob_deadline = None\<rparr>]\<rparr>"

abbreviation no_dates :: "string \<Rightarrow> string option" where
  "no_dates \<equiv> \<lambda>_. None"

lemma sample_contract_valid:
  "transfer_contract_validate no_dates sample_env (so_body sample_transfer) = Inr sample_contract"
  by (simp add: transfer_contract_validate_def sample_transfer_def sample_env_def dget_str_def dget_strs_def
      dget_list_def dget_def sample_contract_def)

lemma entity_ok_obligation [simp]: "entity_ok ''obligation''" "entity_ok ''transfer''"
  by (simp_all add: entity_ok_def entity_char_def less_eq_char_def)

lemma sample_obligation_urn [simp]: "is_valid_urn (urn_text ''obligation'' (env_ulid sample_env n))"
  using env_total_sample by (simp add: env_total_def)

text \<open>The world after the transfer was accepted, and the run of its materialization.\<close>

lemma materialized_world:
  obtains w r w' and e :: domain_event where "world_ok sample_env w" and "last (history_of (w_db w) (sample_urn ''transfer'')) = sample_transfer"
    and "committed sample_env [sample_transfer] [] e empty_world w" and "de_event_type e = ''transfer.responded''"
    and "materialize_from_transfer no_dates sample_env sample_ctx (sample_urn ''transfer'') w = (Inr [r], w')"
    and "w_ticks w' = 8" and "event_ids (w_db w') = map (event_id_at sample_env) [0, 6]"
    and "is_valid_urn (so_id r)"
proof -
  let ?E = sample_env and ?i = "sample_urn ''transfer''"
  have ty: "non_empty ''transfer.responded''" by (simp add: non_empty_def is_space_def)
  have tr: "so_revision sample_transfer = 1" "is_valid_urn (so_id sample_transfer)"
    "history_of (w_db empty_world) (so_id sample_transfer) = []" "so_id sample_transfer = ?i"
    by (simp_all add: sample_transfer_def start_fresh(2))
  obtain w where w: "create_object ?E sample_ctx sample_transfer ''transfer.responded''
      [(''decision'', JStr ''accepted'')] empty_world = (Inr sample_transfer, w)"
    "w_ticks w = 3" "event_ids (w_db w) = [event_id_at ?E 0]"
    using create_object_run [OF world_ok_empty ctx_ok_sample env_total_sample start_fresh(1) tr(1-3) ty,
      of "[(''decision'', JStr ''accepted'')]"] by (auto simp: start_fresh(3,4))
  from create_object_Inr [OF world_ok_empty w(1)] obtain e where
    com: "committed ?E [sample_transfer] [] e empty_world w" and an: "announces e [sample_transfer]"
    and ety: "de_event_type e = ''transfer.responded''" and pay: "de_payload e = [(''decision'', JStr ''accepted'')]"
    by (elim exE conjE) (rule that)
  from com obtain a t where a: "ae_event a = e" "w_db w = commit [sample_transfer] [] a t empty_db"
    and ok: "world_ok ?E w" by (auto simp: committed_def empty_world_def)
  have ev: "event_list (w_db w) = [e]" by (simp add: event_list_def a empty_db_def)
  have hist: "history_of (w_db w) j = (if j = ?i then [sample_transfer] else [])" for j
    using tr(4) by (auto simp: history_of_def a empty_db_def)
  have la: "last (history_of (w_db w) ?i) = sample_transfer" by (simp add: hist)
  have oid: "de_object_id e = ?i" using an tr(4) by (simp add: announces_def)
  have g: "get_latest_or (ObligationSourceTransferNotFoundError ?i) ?i w = (Inr sample_transfer, w)"
    using get_latest_or_run [OF world_ok_parts(2) [OF ok], of ?i] by (simp add: hist)
  have m: "materialized_obligation_ids_for ?i w = (Inr [], w)"
    unfolding materialized_run [OF world_ok_parts(1) [OF ok]] materialized_for_def ev by (simp add: ety)
  have d: "latest_transfer_decision ?i w = (Inr (Some ''accepted'', Some (de_id e)), w)"
    using ev by (simp add: latest_transfer_decision_def bindp_def read_all_run [OF world_ok_parts(1) [OF ok]]
        event_list_def oid ety pay lift_run ret_run dget_str_def dget_def last_opt_def)
  let ?w1 = "w\<lparr>w_ticks := Suc (w_ticks w)\<rparr>" and ?t = "env_now ?E (w_ticks w)"
  have ok1: "world_ok ?E ?w1" using ok by simp
  have b: "tc_transferred_ids sample_contract = [sample_urn ''claim'']" by (simp add: sample_contract_def)
  have ed: "edges_tbl (w_db ?w1) = []" by (simp add: a empty_db_def)
  have nw: "history_of (w_db ?w1) (urn_text ''obligation'' (env_ulid ?E (w_ticks ?w1))) = []"
    by (simp add: hist sample_urn_def urn_text_def)
  have fr: "event_id_at ?E (w_ticks ?w1 + 2) \<notin> set (event_ids (w_db ?w1))"
    using sample_fresh [of 6 "[0]"] by (simp add: w(2,3))
  have sch: "env_schema ?E ''Obligation'' x" for x by (simp add: sample_env_def)
  obtain r w' where r: "materialize_one ?E sample_ctx sample_contract
      (''transfer.responded:'' @ de_id e) ?t ''attribute_source'' None None ?w1 = (Inr r, w')"
    and ri: "so_id r = urn_text ''obligation'' (env_ulid ?E (w_ticks ?w1))" and t': "w_ticks w' = w_ticks ?w1 + 4"
      "event_ids (w_db w') = event_ids (w_db ?w1) @ [event_id_at ?E (w_ticks ?w1 + 2)]"
    using materialize_one_run [OF ok1 ctx_ok_sample env_total_sample sch b ed nw sample_obligation_urn fr] by blast
  have "materialize_from_transfer no_dates ?E sample_ctx ?i w = (Inr [r], w')"
    unfolding materialize_from_transfer_def Let_def
    using g sample_contract_valid m d r
    by (simp add: bindp_def lift_run guardp_run accepting_decisions_def now_run ret_run sample_contract_def)
  then show thesis
    by (rule that [OF ok la com ety]) (use t' w(2,3) ri in simp_all)
qed

theorem materialize_once_and_completely_witness:
  "\<exists>(w :: world) w' r. materialize_from_transfer no_dates sample_env sample_ctx (sample_urn ''transfer'') w
       = (Inr [r], w') \<and> open_duty sample_contract r \<and> sample_urn ''claim'' \<in> bound_to (w_db w') (so_id r) \<and>
     materialize_from_transfer no_dates sample_env sample_ctx (sample_urn ''transfer'') w' =
       (Inl (ObligationsAlreadyMaterializedError (sample_urn ''transfer'') [so_id r]), w')"
proof -
  obtain w r w' and e :: domain_event where w: "world_ok sample_env w"
    "last (history_of (w_db w) (sample_urn ''transfer'')) = sample_transfer"
    "materialize_from_transfer no_dates sample_env sample_ctx (sample_urn ''transfer'') w = (Inr [r], w')"
    by (rule materialized_world)
  have c: "transfer_contract_validate no_dates sample_env
      (so_body (last (history_of (w_db w) (sample_urn ''transfer'')))) = Inr sample_contract"
    unfolding w(2) by (rule sample_contract_valid)
  have own: "tc_id sample_contract = sample_urn ''transfer''" by (simp add: sample_contract_def)
  from materialize_once_and_completely [OF w(1) c own w(3)] have
    od: "open_duty sample_contract r" "set (tc_transferred_ids sample_contract) \<subseteq> bound_to (w_db w') (so_id r)"
    and ag: "materialize_from_transfer no_dates sample_env sample_ctx (sample_urn ''transfer'') w' =
       (Inl (ObligationsAlreadyMaterializedError (sample_urn ''transfer'') [so_id r]), w')" by simp_all
  have "sample_urn ''claim'' \<in> bound_to (w_db w') (so_id r)" using od(2) by (simp add: sample_contract_def)
  with w(3) od(1) ag show ?thesis by (intro exI conjI)
qed

lemma resolved_world:
  obtains w i where "obligation_reach no_dates sample_env w" and "is_kind ''Obligation'' (w_db w) i"
    and "status_of (last (history_of (w_db w) i)) = Some ''resolved''"
proof -
  let ?E = sample_env
  obtain w r w' and e :: domain_event where w: "world_ok ?E w"
    "committed ?E [sample_transfer] [] e empty_world w"
    "materialize_from_transfer no_dates ?E sample_ctx (sample_urn ''transfer'') w = (Inr [r], w')"
    "w_ticks w' = 8" "event_ids (w_db w') = map (event_id_at ?E) [0, 6]" "is_valid_urn (so_id r)"
    by (rule materialized_world)
  have r1: "obligation_reach no_dates ?E w"
    by (rule obligation_reach.other [OF obligation_reach.start w(2)])
      (simp add: sample_transfer_def is_kind_def start_fresh(2))
  have r2: "obligation_reach no_dates ?E w'"
    using obligation_reach.call [OF r1, of "Materialize (sample_urn ''transfer'')" sample_ctx] w(3) by simp
  from w(1,3) obtain c e1 s where l: "laid ?E c (duties c) [r] w w'" by (rule materialize_Inr)
  have h: "history_of (w_db w') (so_id r) = [r]" using l by (auto simp: laid_def history_of_def)
  have k: "so_kind r = ''Obligation''" "status_of r = Some ''open''" using l by (simp_all add: laid_def open_duty_def)
  have ad: "addressable ''Obligation'' (w_db w') (so_id r)" by (simp add: addressable_def h k)
  have ok: "world_ok ?E w'" using l by (simp add: laid_def)
  have fr: "event_id_at ?E (Suc (w_ticks w')) \<notin> set (event_ids (w_db w'))"
    unfolding w(4,5) by (rule sample_fresh) simp
  have can: "can_transition OBLIGATION_LIFECYCLE ''open'' ''resolved''"
    by (simp add: OBLIGATION_LIFECYCLE_def can_transition_def)
  have ty: "non_empty ''obligation.resolved''" by (simp add: non_empty_def is_space_def)
  have h1: "history_of (w_db w') (so_id r) \<noteq> []"
    "status_of (last (history_of (w_db w') (so_id r))) = Some ''open''" by (simp_all add: h k)
  have val: "obligation_model_validate ?E b = Inr ()" for b
    by (simp add: obligation_model_validate_def sample_env_def)
  let ?edit = "\<lambda>_ body. dupdate body [(''resolution_evidence'', JStr ''seen'')]"
  obtain r' w'' where tr: "transition_object ?E sample_ctx OBLIGATION_LIFECYCLE (ObligationNotFoundError (so_id r))
      no_gate ?edit (obligation_model_validate ?E) (status_change ''resolved'') (so_id r) ''resolved''
      ''obligation.resolved'' w' = (Inr r', w'')"
    using transition_object_run [where edit = ?edit and val = "obligation_model_validate ?E" and gate = no_gate
      and M = OBLIGATION_LIFECYCLE, OF ok ctx_ok_sample env_total_sample fr w(6) h1 can refl ty val] by blast
  then have "resolve ?E sample_ctx (so_id r) ''seen'' w' = (Inr r', w'')"
    by (simp add: resolve_def bindp_def guardp_run obligation_transition_def)
  then have r3: "obligation_reach no_dates ?E w''"
    using obligation_reach.call [OF r2, of "Resolve (so_id r) ''seen''" sample_ctx] ad by simp
  from transition_object_Inr [OF ok tr] obtain e2 latest frm t hh b where
    com: "committed ?E [r'] [] e2 w' w''" and rr: "r' = next_object latest (so_revision latest + 1) t (cx_actor sample_ctx) hh b"
    and la: "latest = last (history_of (w_db w') (so_id r))"
    and fb: "finish_body ?E (so_revision latest + 1) t (cx_actor sample_ctx)
      (?edit t (dset ''status'' (JStr ''resolved'') (so_body latest))) = Inr (hh, b)"
    by (elim exE conjE) (rule that)
  have h2: "history_of (w_db w'') (so_id r) = [r, r']"
    using h committed_tables(1) [OF com] by (simp add: history_of_def rr la)
  have "status_of r' = Some ''resolved''"
    using finish_body_Inr(5) [OF fb, of "''status''"] by (simp add: rr status_of_Some)
  moreover have "is_kind ''Obligation'' (w_db w'') (so_id r)" using k by (simp add: is_kind_def h2)
  ultimately show thesis using that [OF r3, of "so_id r"] by (simp add: h2)
qed

theorem obligations_follow_lifecycle_witness:
  "\<exists>(w :: world) i ss s. statuses (w_db w) i = map Some ss \<and> last ss = ''resolved'' \<and>
     history OBLIGATION_LIFECYCLE (remdups_adj ss) \<and> s \<noteq> [] \<and>
     map_of (so_body (last (history_of (w_db w) i))) ''resolution_evidence'' = Some (JStr s)"
proof -
  obtain w i where w: "obligation_reach no_dates sample_env w" "is_kind ''Obligation'' (w_db w) i"
    "status_of (last (history_of (w_db w) i)) = Some ''resolved''" by (rule resolved_world)
  from obligations_follow_lifecycle [OF w(1,2)] obtain ss bound where
    ss: "statuses (w_db w) i = map Some ss" "history OBLIGATION_LIFECYCLE (remdups_adj ss)"
    and ev: "\<forall>r \<in> set (history_of (w_db w) i). so_kind r = ''Obligation'' \<and>
       map_of (so_body r) ''bound_objects'' = Some (JArr (map JStr bound)) \<and>
       (status_of r = Some ''resolved'' \<longrightarrow>
          (\<exists>s. s \<noteq> [] \<and> map_of (so_body r) ''resolution_evidence'' = Some (JStr s))) \<and>
       (\<exists>a \<in> set (domain_events_tbl (w_db w)). announces (ae_event a) [r])"
    by (elim exE conjE) (rule that)
  have ne: "history_of (w_db w) i \<noteq> []" using w(2) by (auto simp: is_kind_def)
  then have m: "last (history_of (w_db w) i) \<in> set (history_of (w_db w) i)" by simp
  from bspec [OF ev m] w(3) obtain s where s: "s \<noteq> []"
    "map_of (so_body (last (history_of (w_db w) i))) ''resolution_evidence'' = Some (JStr s)" by blast
  have "last (map status_of (history_of (w_db w) i)) = Some ''resolved''" using w(3) ne by (simp add: last_map)
  then have "last (map Some ss) = Some ''resolved''" using ss(1) by (simp add: statuses_def)
  moreover have "ss \<noteq> []" using ss(1) ne by (auto simp: statuses_def)
  ultimately have "last ss = ''resolved''" by (simp add: last_map)
  with ss s show ?thesis by (intro exI conjI)
qed

text \<open>Propagation to one further object.\<close>

lemma propagate_run:
  assumes ok: "world_ok E w" and ctx: "ctx_ok ctx" and E: "env_total E"
    and schema: "\<And>d. env_schema E ''Obligation'' d"
    and i: "is_valid_urn i" "history_of (w_db w) i \<noteq> []"
    and s: "dget_strs (so_body (last (history_of (w_db w) i))) ''bound_objects'' = Inr seeds"
    and m: "binding_closure (w_db w) seeds - bound_to (w_db w) i = {y}"
    and ids: "urn_text ''edge'' (env_ulid E (Suc (w_ticks w))) \<notin> te_id ` set (edges_tbl (w_db w))"
    and fresh: "event_id_at E (w_ticks w + 2) \<notin> set (event_ids (w_db w))"
  shows "\<exists>r w'. propagate E ctx i w = (Inr r, w')"
proof -
  define latest where "latest = last (history_of (w_db w) i)"
  let ?n = "so_revision latest + 1"
  have g: "get_latest_or (ObligationNotFoundError i) i w = (Inr latest, w)"
    unfolding latest_def by (rule get_latest_or_run [OF world_ok_parts(2) [OF ok] i(2)])
  note gl = get_latest_or_Inr [OF world_ok_parts(2) [OF ok] g]
  have li: "so_id latest = i" "current_revision (w_db w) i = Some (so_revision latest)" and n: "1 \<le> ?n"
    using gl by auto
  obtain es where ge: "gather_impact_edges seeds w = (Inr es, w)" using gather_impact_run by blast
  obtain bs where be: "edges_to i (Some ''subject_to_obligation'') w = (Inr bs, w)"
    by (simp add: edges_to_def edges_by_def asks_run)
  define cs where "cs = compute_obligation_binding seeds es"
  have "set (sorted_set (filter (\<lambda>x. x \<notin> te_source_id ` set bs) cs)) = {y}"
    using m gather_binding(2) [OF ge] bound_edges_run [OF be] by (auto simp: cs_def)
  then have ms: "sorted_set (filter (\<lambda>x. x \<notin> te_source_id ` set bs) cs) = [y]"
    by (intro sorted_distinct_set_unique) simp_all
  let ?t = "env_now E (w_ticks w)"
  let ?w1 = "w\<lparr>w_ticks := Suc (w_ticks w)\<rparr>"
  let ?w2 = "?w1\<lparr>w_ticks := Suc (w_ticks ?w1)\<rparr>"
  let ?w3 = "?w2\<lparr>w_ticks := Suc (w_ticks ?w2)\<rparr>"
  obtain x where x: "make_subject_to_obligation_edge E ctx (so_practice_id latest) ?t i y ?w1 = (Inr x, ?w2)"
    "te_edge_type x = ''subject_to_obligation''" "te_id x = urn_text ''edge'' (env_ulid E (w_ticks ?w1))"
    using make_edge_run by blast
  obtain h b where fb: "finish_body E ?n ?t (cx_actor ctx)
      (dset ''propagated_objects'' (JArr (map JStr (sorted_set cs))) (so_body latest)) = Inr (h, b)"
    using env_total_finish [OF E] by blast
  have ok2: "world_ok E ?w2" and ok3: "world_ok E ?w3" using ok by simp_all
  have "non_empty ''obligation.propagated''" by (simp add: non_empty_def is_space_def)
  then obtain e where e: "make_event E ctx ''obligation.propagated'' (ret ?t) (last_event_id_for i) i ?n
      [(''propagated_objects'', JArr (map JStr (sorted_set cs))), (''newly_bound_object_ids'', JArr [JStr y])] ?w2
      = (Inr e, ?w3)" and eid: "de_id e = event_id_at E (w_ticks ?w2)"
    using make_event_run [OF world_ok_parts(1) [OF ok2] ctx E i(1) _ n, of "''obligation.propagated''"] by blast
  let ?r = "next_object latest ?n ?t (cx_actor ctx) h b"
  have fr: "de_id e \<notin> set (event_ids (w_db ?w3))" using fresh eid by simp
  have rv: "so_revision ?r = next_revision (Some (so_revision latest))"
    "current_revision (w_db ?w3) (so_id ?r) = Some (so_revision latest)"
    using li by (simp_all add: next_revision_def)
  have xv: "te_edge_type x \<in> EDGE_VOCABULARY" "te_id x \<notin> te_id ` set (edges_tbl (w_db ?w3))"
    using x(2,3) ids by (simp_all add: EDGE_VOCABULARY_def)
  obtain a w' where u: "bind_revision_with_edges_unit_of_work E ?r (Some (so_revision latest)) [x] e ?w3
      = (Inr (?r, [x], a), w')"
    using revision_with_edge_run [OF ok3 E fr rv xv] by blast
  have "propagate E ctx i w = (Inr ?r, w')"
    unfolding propagate_def case_prod_beta Let_def
    using g s [folded latest_def] ge be ms x(1) fb e u schema unfolding cs_def
    by (simp add: bindp_def lift_run ret_run now_run obligation_model_validate_def
        del: dget_strs_Inr sorted_set_eq_Nil)
  then show ?thesis by (intro exI)
qed

definition sample_obligation :: stored_object where
  "sample_obligation = sample_transfer
     \<lparr>so_id := sample_urn ''obligation'', so_kind := ''Obligation'',
      so_body := [(''status'', JStr ''open''), (''bound_objects'', JArr [JStr (sample_urn ''claim'')])]\<rparr>"

text \<open>A result that is derived from the bound claim.\<close>

definition sample_derivation :: typed_edge where
  "sample_derivation =
     \<lparr>te_id = ''derivation'', te_source_id = sample_urn ''result'', te_target_id = sample_urn ''claim'',
      te_edge_type = ''derived_from'', te_created_at = 0, te_created_by = sample_urn ''human'',
      te_scope = None, te_status = ''active'', te_practice_id = None\<rparr>"

lemma impacted_by_one: "x \<noteq> y \<Longrightarrow> impacted_by {(y, x)} {x} = {y}"
proof -
  assume n: "x \<noteq> y"
  have "(s, x) \<in> {(y, x)}\<^sup>+ \<longleftrightarrow> s = y" for s
  proof
    assume "(s, x) \<in> {(y, x)}\<^sup>+"
    then show "s = y" by (induction rule: converse_trancl_induct) auto
  qed auto
  then show ?thesis by (simp add: impacted_by_def)
qed

theorem propagate_binds_the_closure_witness:
  "\<exists>(w :: world) w' r. propagate sample_env sample_ctx (sample_urn ''obligation'') w = (Inr r, w') \<and>
     bound_to (w_db w) (sample_urn ''obligation'') = {} \<and>
     bound_to (w_db w') (sample_urn ''obligation'') = {sample_urn ''result''} \<and>
     objects_tbl (w_db w') = objects_tbl (w_db w) @ [r]"
proof -
  let ?E = sample_env and ?i = "sample_urn ''obligation''"
  have ty: "non_empty ''obligation.created''" by (simp add: non_empty_def is_space_def)
  have so: "so_revision sample_obligation = 1" "is_valid_urn (so_id sample_obligation)"
    "history_of (w_db empty_world) (so_id sample_obligation) = []" "so_id sample_obligation = ?i"
    by (simp_all add: sample_obligation_def sample_transfer_def start_fresh(2))
  obtain w1 where w1: "create_object ?E sample_ctx sample_obligation ''obligation.created'' [] empty_world
      = (Inr sample_obligation, w1)" "w_ticks w1 = 3" "event_ids (w_db w1) = [event_id_at ?E 0]"
    using create_object_run [OF world_ok_empty ctx_ok_sample env_total_sample start_fresh(1) so(1-3) ty, of "[]"]
    by (auto simp: start_fresh(3,4))
  from create_object_Inr [OF world_ok_empty w1(1)] obtain e1 where
    c1: "committed ?E [sample_obligation] [] e1 empty_world w1" by (elim exE conjE) (rule that)
  note t1 = committed_tables [OF c1]
  have sid: "de_id sample_event = sample_urn ''domain-event''" by (simp add: sample_event_def)
  have fr: "de_id sample_event \<notin> set (event_ids (w_db w1))"
    unfolding sid w1(3) by (simp add: event_id_at_def sample_urn_def urn_text_def sample_env_def sample_ulid_def)
  have xv: "te_edge_type sample_derivation \<in> EDGE_VOCABULARY"
    "te_id sample_derivation \<notin> te_id ` set (edges_tbl (w_db w1))"
    using t1(2) by (simp_all add: sample_derivation_def EDGE_VOCABULARY_def empty_world_def empty_db_def)
  obtain a w where w: "bind_edge_unit_of_work ?E sample_derivation sample_event w1 = (Inr (sample_derivation, a), w)"
    "w_ticks w = 4" "event_ids (w_db w) = [event_id_at ?E 0, sample_urn ''domain-event'']"
    using edge_unit_of_work_run [OF t1(3) env_total_sample fr xv] by (auto simp: w1(2,3) sid)
  from edge_unit_of_work_Inr [OF t1(3) event_ok_sample w(1)]
  have c2: "committed ?E [] [sample_derivation] sample_event w1 w" by blast
  note t2 = committed_tables [OF c2]
  have ot: "objects_tbl (w_db w) = [sample_obligation]" and et: "edges_tbl (w_db w) = [sample_derivation]"
    using t1(1,2) t2(1,2) by (simp_all add: empty_world_def empty_db_def)
  have h: "history_of (w_db w) ?i = [sample_obligation]" by (simp add: history_of_def ot so(4))
  have bs: "dget_strs (so_body (last (history_of (w_db w) ?i))) ''bound_objects'' = Inr [sample_urn ''claim'']"
    by (simp add: h sample_obligation_def dget_strs_def dget_def)
  have ne: "sample_urn ''claim'' \<noteq> sample_urn ''result''" by (simp add: sample_urn_def urn_text_def)
  have rel: "impact_rel [sample_derivation] = {(sample_urn ''result'', sample_urn ''claim'')}"
    by (auto simp: impact_rel_def sample_derivation_def impact_edge_def IMPACT_EDGE_TYPES_def
        FR091_IMPACT_CATEGORY_EDGE_TYPES_def)
  have cl: "binding_closure (w_db w) [sample_urn ''claim''] = {sample_urn ''result''}"
    using impacted_by_one [OF ne] by (simp add: binding_closure_def et rel)
  have bt: "bound_to (w_db w) ?i = {}" by (simp add: bound_to_def et binds_def sample_derivation_def)
  have m: "binding_closure (w_db w) [sample_urn ''claim''] - bound_to (w_db w) ?i = {sample_urn ''result''}"
    by (simp add: cl bt)
  have ids: "urn_text ''edge'' (env_ulid ?E (Suc (w_ticks w))) \<notin> te_id ` set (edges_tbl (w_db w))"
    by (simp add: et sample_derivation_def urn_text_def)
  have ev: "event_id_at ?E (w_ticks w + 2) \<notin> set (event_ids (w_db w))"
    using sample_fresh [of 6 "[0]"] by (simp add: w(2,3) event_id_at_def sample_urn_def urn_text_def
        sample_env_def sample_ulid_def)
  have sch: "env_schema ?E ''Obligation'' d" for d by (simp add: sample_env_def)
  have i: "is_valid_urn ?i" "history_of (w_db w) ?i \<noteq> []" by (simp_all add: h)
  obtain r w' where run: "propagate ?E sample_ctx ?i w = (Inr r, w')"
    using propagate_run [OF t2(3) ctx_ok_sample env_total_sample sch i bs m ids ev] by (elim exE)
  from propagate_binds_the_closure [OF t2(3) run] obtain seeds where
    s: "dget_strs (so_body (last (history_of (w_db w) ?i))) ''bound_objects'' = Inr seeds"
    and b: "bound_to (w_db w') ?i = bound_to (w_db w) ?i \<union> binding_closure (w_db w) seeds"
    and o: "if binding_closure (w_db w) seeds \<subseteq> bound_to (w_db w) ?i then same_db w w'
     else objects_tbl (w_db w') = objects_tbl (w_db w) @ [r] \<and>
       status_of r = status_of (last (history_of (w_db w) ?i)) \<and>
       map_of (so_body r) ''bound_objects'' = Some (JArr (map JStr seeds)) \<and>
       (\<exists>objs es. map_of (so_body r) ''propagated_objects'' = Some (JArr (map JStr objs)) \<and>
          sorted objs \<and> distinct objs \<and> set objs = binding_closure (w_db w) seeds \<and>
          edges_tbl (w_db w') = edges_tbl (w_db w) @ es \<and> distinct (map te_source_id es) \<and>
          te_source_id ` set es = binding_closure (w_db w) seeds - bound_to (w_db w) ?i)"
    by (elim exE conjE) (rule that)
  have sd: "seeds = [sample_urn ''claim'']" using s bs by simp
  have b': "bound_to (w_db w') ?i = {sample_urn ''result''}" using b by (simp add: sd bt cl)
  have "objects_tbl (w_db w') = objects_tbl (w_db w) @ [r]"
    using o unfolding sd cl bt by (simp only: insert_not_empty subset_empty if_False)
  with run bt b' show ?thesis by (intro exI conjI)
qed

end
