(* ===== verification/Agreement.thy ===== *)
theory Agreement
  imports MRR_Prelude Complex_Main
begin

text \<open>
  Inter-rater agreement, \<^verbatim>\<open>packages/domain/mrr/domain/agreement.py\<close>: alignment of two raters,
  the confusion matrix, Cohen's kappa, weighted kappa, Krippendorff's alpha and the precision,
  recall and F1 of each category. The code computes with \<^verbatim>\<open>Fraction\<close> and converts each result
  once by \<^verbatim>\<open>float\<close>; a fraction is a \<^typ>\<open>rat\<close> here and the conversion the argument \<open>fl\<close>, of
  which the theorems use that it is monotone and exact on -1, 0 and 1.
\<close>

section \<open>Errors and the alignment of two raters\<close>

datatype agreement_error =
    DuplicateCategoryError "string list"
  | UnknownCategoryLabelError string string string "string list"
  | MismatchedRatersError "string list" "string list"

type_synonym 'a checked = "agreement_error + 'a"

record aligned_rating =
  ar_item_id :: string
  ar_rater_a_label :: string
  ar_rater_b_label :: string

definition align_ratings ::
  "(string \<times> string) list \<Rightarrow> (string \<times> string) list \<Rightarrow> aligned_rating list checked" where
  "align_ratings rater_a rater_b =
     (let ids_a = sorted_set (map fst rater_a);
          ids_b = sorted_set (map fst rater_b)
      in if ids_a \<noteq> ids_b then
           Inl (MismatchedRatersError (filter (\<lambda>i. i \<notin> set ids_b) ids_a)
                                      (filter (\<lambda>i. i \<notin> set ids_a) ids_b))
         else Inr (map (\<lambda>i. \<lparr>ar_item_id = i, ar_rater_a_label = the (map_of rater_a i),
                             ar_rater_b_label = the (map_of rater_b i)\<rparr>) ids_a))"

section \<open>The confusion matrix\<close>

type_synonym confusion = "int list list"

definition check_categories :: "string list \<Rightarrow> unit checked" where
  "check_categories categories =
     (if length (remdups categories) \<noteq> length categories then Inl (DuplicateCategoryError categories)
      else Inr ())"

definition category_index :: "string list \<Rightarrow> string \<Rightarrow> nat option" where
  "category_index categories c = map_of (zip categories [0..<length categories]) c"

definition add_at :: "nat \<Rightarrow> nat \<Rightarrow> confusion \<Rightarrow> confusion" where
  "add_at i j m = m[i := (m ! i)[j := m ! i ! j + 1]]"

fun tally :: "string list \<Rightarrow> aligned_rating list \<Rightarrow> confusion \<Rightarrow> confusion checked" where
  "tally categories [] m = Inr m"
| "tally categories (r # rs) m =
     (case category_index categories (ar_rater_a_label r) of
        None \<Rightarrow> Inl (UnknownCategoryLabelError (ar_item_id r) ''a'' (ar_rater_a_label r) categories)
      | Some i \<Rightarrow>
          (case category_index categories (ar_rater_b_label r) of
             None \<Rightarrow> Inl (UnknownCategoryLabelError (ar_item_id r) ''b'' (ar_rater_b_label r) categories)
           | Some j \<Rightarrow> tally categories rs (add_at i j m)))"

definition confusion_matrix :: "aligned_rating list \<Rightarrow> string list \<Rightarrow> confusion checked" where
  "confusion_matrix ratings categories =
     (case check_categories categories of
        Inl e \<Rightarrow> Inl e
      | Inr _ \<Rightarrow>
          (let size = length categories
           in tally categories ratings (replicate size (replicate size 0))))"

definition total_n :: "confusion \<Rightarrow> int" where
  "total_n matrix = sum_list (map sum_list matrix)"

definition row_marginals :: "confusion \<Rightarrow> int list" where
  "row_marginals matrix = map sum_list matrix"

definition col_marginals :: "confusion \<Rightarrow> int list" where
  "col_marginals matrix =
     (let size = length matrix
      in map (\<lambda>j. sum_list (map (\<lambda>i. matrix ! i ! j) [0..<size])) [0..<size])"

definition diagonal :: "confusion \<Rightarrow> int" where
  "diagonal matrix = sum_list (map (\<lambda>i. matrix ! i ! i) [0..<length matrix])"

definition fraction :: "int \<Rightarrow> int \<Rightarrow> rat" where
  "fraction a b = of_int a / of_int b"

definition observed_agreement :: "(rat \<Rightarrow> rat) \<Rightarrow> confusion \<Rightarrow> rat" where
  "observed_agreement fl matrix =
     (let n = total_n matrix in if n = 0 then 0 else fl (fraction (diagonal matrix) n))"

datatype rater_side = RaterA | RaterB

definition majority_baseline :: "(rat \<Rightarrow> rat) \<Rightarrow> confusion \<Rightarrow> rater_side \<Rightarrow> rat" where
  "majority_baseline fl matrix reference =
     (let n = total_n matrix
      in if n = 0 then 0
         else
           (let marginals = (case reference of RaterA \<Rightarrow> row_marginals matrix | RaterB \<Rightarrow> col_marginals matrix)
            in fl (fraction (Max (set marginals)) n)))"

section \<open>Chance-corrected agreement\<close>

definition UNDEFINED_NO_CHANCE_VARIATION :: string where
  "UNDEFINED_NO_CHANCE_VARIATION = ''undefined: no expected-chance variation''"

record kappa_result =
  kr_value :: "rat option"
  kr_reason :: "string option"
  kr_observed :: rat
  kr_expected :: rat

definition cohen_kappa :: "(rat \<Rightarrow> rat) \<Rightarrow> confusion \<Rightarrow> kappa_result" where
  "cohen_kappa fl matrix =
     (let n = total_n matrix
      in if n = 0 then
           \<lparr>kr_value = None, kr_reason = Some UNDEFINED_NO_CHANCE_VARIATION, kr_observed = 0, kr_expected = 0\<rparr>
         else
           (let p_o = fraction (diagonal matrix) n;
                rows = row_marginals matrix; cols = col_marginals matrix;
                p_e = sum_list (map (\<lambda>k. fraction (rows ! k * cols ! k) (n * n)) [0..<length matrix]);
                denominator = 1 - p_e
            in if denominator = 0 then
                 \<lparr>kr_value = None, kr_reason = Some UNDEFINED_NO_CHANCE_VARIATION,
                  kr_observed = fl p_o, kr_expected = fl p_e\<rparr>
               else
                 \<lparr>kr_value = Some (fl ((p_o - p_e) / denominator)), kr_reason = None,
                  kr_observed = fl p_o, kr_expected = fl p_e\<rparr>))"

datatype weight_scheme = Linear | Quadratic

definition weight :: "weight_scheme \<Rightarrow> nat \<Rightarrow> nat \<Rightarrow> int" where
  "weight weights i j =
     (let distance = \<bar>int i - int j\<bar>
      in case weights of Linear \<Rightarrow> distance | Quadratic \<Rightarrow> distance * distance)"

definition weighted_kappa :: "(rat \<Rightarrow> rat) \<Rightarrow> confusion \<Rightarrow> weight_scheme \<Rightarrow> kappa_result" where
  "weighted_kappa fl matrix weights =
     (let n = total_n matrix
      in if n = 0 then
           \<lparr>kr_value = None, kr_reason = Some UNDEFINED_NO_CHANCE_VARIATION, kr_observed = 0, kr_expected = 0\<rparr>
         else
           (let size = length matrix;
                rows = row_marginals matrix; cols = col_marginals matrix;
                weighted_observed = sum_list (map (\<lambda>i. sum_list (map (\<lambda>j.
                  fraction (weight weights i j * matrix ! i ! j) 1) [0..<size])) [0..<size]);
                weighted_expected = sum_list (map (\<lambda>i. sum_list (map (\<lambda>j.
                  fraction (weight weights i j * rows ! i * cols ! j) n) [0..<size])) [0..<size])
            in if weighted_expected = 0 then
                 \<lparr>kr_value = None, kr_reason = Some UNDEFINED_NO_CHANCE_VARIATION,
                  kr_observed = fl weighted_observed, kr_expected = fl weighted_expected\<rparr>
               else
                 \<lparr>kr_value = Some (fl (1 - weighted_observed / weighted_expected)), kr_reason = None,
                  kr_observed = fl weighted_observed, kr_expected = fl weighted_expected\<rparr>))"

record alpha_result =
  al_value :: "rat option"
  al_reason :: "string option"

definition krippendorff_alpha_nominal :: "(rat \<Rightarrow> rat) \<Rightarrow> confusion \<Rightarrow> alpha_result" where
  "krippendorff_alpha_nominal fl matrix =
     (let size = length matrix;
          coincidence = map (\<lambda>c. map (\<lambda>k. matrix ! c ! k + matrix ! k ! c) [0..<size]) [0..<size];
          n_c = map (\<lambda>c. sum_list (coincidence ! c)) [0..<size];
          n = sum_list n_c
      in if n = 0 \<or> n = 1 then \<lparr>al_value = None, al_reason = Some UNDEFINED_NO_CHANCE_VARIATION\<rparr>
         else
           (let d_o = sum_list (map (\<lambda>c. sum_list (map (\<lambda>k. if c \<noteq> k then coincidence ! c ! k else 0)
                        [0..<size])) [0..<size]);
                d_e_numerator = n * n - sum_list (map (\<lambda>nc. nc * nc) n_c);
                d_e = fraction d_e_numerator (n - 1)
            in if d_e = 0 then \<lparr>al_value = None, al_reason = Some UNDEFINED_NO_CHANCE_VARIATION\<rparr>
               else \<lparr>al_value = Some (fl (1 - fraction d_o 1 / d_e)), al_reason = None\<rparr>))"

section \<open>Precision, recall and F1\<close>

definition NO_SUPPORT :: string where
  "NO_SUPPORT = ''no support''"

record category_prf =
  cp_category :: string
  cp_support :: int
  cp_true_positive :: int
  cp_false_positive :: int
  cp_false_negative :: int
  cp_precision :: "rat option"
  cp_recall :: "rat option"
  cp_f1 :: "rat option"
  cp_reason :: "string option"

definition prf_of ::
  "(rat \<Rightarrow> rat) \<Rightarrow> confusion \<Rightarrow> string list \<Rightarrow> rater_side \<Rightarrow> nat \<Rightarrow> category_prf" where
  "prf_of fl matrix categories reference k =
     (let rows = row_marginals matrix; cols = col_marginals matrix;
          true_positive = matrix ! k ! k;
          (support, predicted) = (case reference of RaterA \<Rightarrow> (rows ! k, cols ! k) | RaterB \<Rightarrow> (cols ! k, rows ! k));
          false_negative = support - true_positive;
          false_positive = predicted - true_positive
      in if support = 0 then
           \<lparr>cp_category = categories ! k, cp_support = support, cp_true_positive = true_positive,
            cp_false_positive = false_positive, cp_false_negative = false_negative,
            cp_precision = None, cp_recall = None, cp_f1 = None, cp_reason = Some NO_SUPPORT\<rparr>
         else
           (let recall = fraction true_positive support;
                precision = (if predicted > 0 then fraction true_positive predicted else 0);
                f1 = (if true_positive = 0 then 0 else 2 * precision * recall / (precision + recall))
            in \<lparr>cp_category = categories ! k, cp_support = support, cp_true_positive = true_positive,
                cp_false_positive = false_positive, cp_false_negative = false_negative,
                cp_precision = Some (fl precision), cp_recall = Some (fl recall), cp_f1 = Some (fl f1),
                cp_reason = None\<rparr>))"

definition per_category_prf ::
  "(rat \<Rightarrow> rat) \<Rightarrow> confusion \<Rightarrow> string list \<Rightarrow> rater_side \<Rightarrow> category_prf list" where
  "per_category_prf fl matrix categories reference =
     map (prf_of fl matrix categories reference) [0..<length categories]"

section \<open>Well-formed matrices\<close>

definition square :: "nat \<Rightarrow> confusion \<Rightarrow> bool" where
  "square s m \<longleftrightarrow> length m = s \<and> (\<forall>r \<in> set m. length r = s \<and> (\<forall>x \<in> set r. 0 \<le> x))"

definition cell :: "confusion \<Rightarrow> nat \<Rightarrow> nat \<Rightarrow> int" where
  "cell m i j = m ! i ! j"

lemma sum_list_upt: "sum_list (map f [0..<n]) = sum f {..<n}"
  by (simp add: interv_sum_list_conv_sum_set_nat atLeast0LessThan)

lemma square_nth: "square s m \<Longrightarrow> i < s \<Longrightarrow> j < s \<Longrightarrow> 0 \<le> m ! i ! j"
  unfolding square_def by (metis nth_mem)

lemma square_sums:
  assumes "square s m"
  shows "total_n m = (\<Sum>i<s. \<Sum>j<s. cell m i j)"
    and "i < s \<Longrightarrow> row_marginals m ! i = (\<Sum>j<s. cell m i j)"
    and "j < s \<Longrightarrow> col_marginals m ! j = (\<Sum>i<s. cell m i j)"
    and "diagonal m = (\<Sum>i<s. cell m i i)"
    and "i < s \<Longrightarrow> j < s \<Longrightarrow> 0 \<le> cell m i j"
proof -
  have l: "length m = s" and r: "\<And>i. i < s \<Longrightarrow> length (m ! i) = s"
    using assms by (auto simp: square_def)
  have row: "sum_list (m ! i) = (\<Sum>j<s. cell m i j)" if "i < s" for i
    using r [OF that] by (simp add: sum_list_sum_nth cell_def atLeast0LessThan)
  show "i < s \<Longrightarrow> row_marginals m ! i = (\<Sum>j<s. cell m i j)" for i
    by (simp add: row_marginals_def l row)
  show "total_n m = (\<Sum>i<s. \<Sum>j<s. cell m i j)"
    unfolding total_n_def by (simp add: sum_list_sum_nth [of "map sum_list m"] l atLeast0LessThan row)
  show "j < s \<Longrightarrow> col_marginals m ! j = (\<Sum>i<s. cell m i j)" for j
    by (simp add: col_marginals_def l sum_list_upt cell_def)
  show "diagonal m = (\<Sum>i<s. cell m i i)" by (simp add: diagonal_def l sum_list_upt cell_def)
  show "i < s \<Longrightarrow> j < s \<Longrightarrow> 0 \<le> cell m i j" for i j
    using square_nth [OF assms] by (simp add: cell_def)
qed

section \<open>What the matrix counts\<close>

lemma category_index_Some:
  assumes "distinct categories"
  shows "category_index categories c = Some i \<longleftrightarrow> i < length categories \<and> categories ! i = c"
proof -
  have "(c, i) \<in> set (zip categories [0..<length categories]) \<longleftrightarrow> i < length categories \<and> categories ! i = c"
    by (auto simp: in_set_zip)
  then show ?thesis unfolding category_index_def using assms by simp
qed

lemma category_index_None: "category_index categories c = None \<longleftrightarrow> c \<notin> set categories"
  by (simp add: category_index_def map_of_zip_is_None)

text \<open>The first rating with a label outside the categories, as the code reports it.\<close>

definition stray :: "string list \<Rightarrow> aligned_rating \<Rightarrow> agreement_error option" where
  "stray categories r =
     (if ar_rater_a_label r \<notin> set categories
      then Some (UnknownCategoryLabelError (ar_item_id r) ''a'' (ar_rater_a_label r) categories)
      else if ar_rater_b_label r \<notin> set categories
      then Some (UnknownCategoryLabelError (ar_item_id r) ''b'' (ar_rater_b_label r) categories)
      else None)"

definition labelled :: "aligned_rating list \<Rightarrow> string \<Rightarrow> string \<Rightarrow> nat" where
  "labelled rs x y = length (filter (\<lambda>r. ar_rater_a_label r = x \<and> ar_rater_b_label r = y) rs)"

lemma square_add_at:
  assumes "square s m" and "i < s" and "j < s"
  shows "square s (add_at i j m)"
    and "k < s \<Longrightarrow> l < s \<Longrightarrow> cell (add_at i j m) k l = cell m k l + (if k = i \<and> l = j then 1 else 0)"
proof -
  have l: "length m = s" "i < length m" and r: "length (m ! i) = s" and n: "0 \<le> m ! i ! j"
    using assms square_nth by (auto simp: square_def)
  have "m ! i \<in> set m" using l(2) by simp
  then have "\<forall>x \<in> set (m ! i). 0 \<le> x" using assms unfolding square_def by blast
  then have "\<forall>x \<in> set ((m ! i)[j := m ! i ! j + 1]). 0 \<le> x"
    using n set_update_subset_insert [of "m ! i" j "m ! i ! j + 1"] by fastforce
  then show "square s (add_at i j m)"
    using assms l r set_update_subset_insert [of m i "(m ! i)[j := m ! i ! j + 1]"]
    unfolding square_def add_at_def by (auto dest!: subsetD)
  show "k < s \<Longrightarrow> l < s \<Longrightarrow> cell (add_at i j m) k l = cell m k l + (if k = i \<and> l = j then 1 else 0)"
    using l r assms by (cases "k = i") (auto simp: cell_def add_at_def nth_list_update)
qed

lemma tally_exact:
  assumes "distinct categories" and "square (length categories) m"
  shows "case tally categories rs m of
      Inl e \<Rightarrow> \<exists>ps r qs. rs = ps @ r # qs \<and> (\<forall>p \<in> set ps. stray categories p = None) \<and>
        stray categories r = Some e
    | Inr m' \<Rightarrow> (\<forall>r \<in> set rs. stray categories r = None) \<and> square (length categories) m' \<and>
        (\<forall>i < length categories. \<forall>j < length categories.
           cell m' i j = cell m i j + int (labelled rs (categories ! i) (categories ! j)))"
  using assms(2)
proof (induction rs arbitrary: m)
  case Nil
  then show ?case by (simp add: labelled_def)
next
  case (Cons r rs)
  note ix = category_index_Some [OF assms(1)]
  show ?case
  proof (cases "stray categories r")
    case (Some e)
    then have "tally categories (r # rs) m = Inl e"
      using category_index_None
      by (auto simp: stray_def split: if_splits option.splits)
        (metis option.distinct(1))+
    then show ?thesis using Some by (auto intro!: exI [of _ "[]"])
  next
    case None
    then obtain i j where i: "category_index categories (ar_rater_a_label r) = Some i"
      and j: "category_index categories (ar_rater_b_label r) = Some j"
      using category_index_None by (auto simp: stray_def split: if_splits) (metis option.exhaust)
    have ij: "i < length categories" "categories ! i = ar_rater_a_label r"
      "j < length categories" "categories ! j = ar_rater_b_label r" using ix i j by auto
    have t: "tally categories (r # rs) m = tally categories rs (add_at i j m)" by (simp add: i j)
    note sq = square_add_at [OF Cons.prems ij(1,3)]
    note ih = Cons.IH [OF sq(1)]
    show ?thesis
    proof (cases "tally categories rs (add_at i j m)")
      case (Inl e)
      with ih obtain ps r' qs where "rs = ps @ r' # qs" "\<forall>p \<in> set ps. stray categories p = None"
        "stray categories r' = Some e" by auto
      then show ?thesis using None t Inl by (auto intro!: exI [of _ "r # ps"])
    next
      case (Inr m')
      have eq: "categories ! k = categories ! l \<longleftrightarrow> k = l" if "k < length categories" "l < length categories" for k l
        using nth_eq_iff_index_eq [OF assms(1)] that by blast
      have "cell m' k l = cell m k l + int (labelled (r # rs) (categories ! k) (categories ! l))"
        if kl: "k < length categories" "l < length categories" for k l
      proof -
        have "cell m' k l = cell (add_at i j m) k l + int (labelled rs (categories ! k) (categories ! l))"
          using ih Inr kl by simp
        also have "cell (add_at i j m) k l = cell m k l + (if k = i \<and> l = j then 1 else 0)"
          by (rule sq(2) [OF kl])
        finally show ?thesis using eq ij kl by (auto simp: labelled_def)
      qed
      then show ?thesis using ih Inr None t by simp
    qed
  qed
qed

lemma square_zero: "square s (replicate s (replicate s 0))"
  by (simp add: square_def)

lemma cell_zero: "i < s \<Longrightarrow> j < s \<Longrightarrow> cell (replicate s (replicate s 0)) i j = 0"
  by (simp add: cell_def)

lemma check_categories_iff: "check_categories cs = (if distinct cs then Inr () else Inl (DuplicateCategoryError cs))"
  using length_remdups_card_conv [of cs] distinct_card [of cs] card_distinct [of cs]
  by (auto simp: check_categories_def)

section \<open>Bounds\<close>

text \<open>The conversion to double: monotone, and exact on -1, 0 and 1.\<close>

definition rounding :: "(rat \<Rightarrow> rat) \<Rightarrow> bool" where
  "rounding fl \<longleftrightarrow> mono fl \<and> fl (-1) = -1 \<and> fl 0 = 0 \<and> fl 1 = 1"

lemma rounding_between:
  assumes "rounding fl"
  shows "0 \<le> q \<Longrightarrow> 0 \<le> fl q" and "q \<le> 1 \<Longrightarrow> fl q \<le> 1" and "-1 \<le> q \<Longrightarrow> -1 \<le> fl q"
  using assms unfolding rounding_def by (metis monoD)+

lemma fraction_unit: "0 \<le> a \<Longrightarrow> a \<le> b \<Longrightarrow> 0 \<le> fraction a b \<and> fraction a b \<le> 1"
  by (cases "b = 0") (auto simp: fraction_def divide_le_eq)

text \<open>The agreement cell of a category and its two marginals.\<close>

lemma marginal_bounds:
  assumes m: "square s m" and k: "k < s"
  defines "R \<equiv> row_marginals m ! k" and "C \<equiv> col_marginals m ! k" and "N \<equiv> total_n m"
  shows "0 \<le> cell m k k" and "cell m k k \<le> R" and "cell m k k \<le> C" and "R \<le> N" and "C \<le> N"
    and "R + C - N \<le> cell m k k"
proof -
  note sq = square_sums [OF m]
  have N: "N = (\<Sum>i<s. \<Sum>j<s. cell m i j)" and R: "R = (\<Sum>j<s. cell m k j)" and C: "C = (\<Sum>i<s. cell m i k)"
    using sq k by (simp_all add: N_def R_def C_def)
  have nn: "0 \<le> cell m i j" if "i < s" "j < s" for i j using sq(5) that .
  show "0 \<le> cell m k k" using nn k by blast
  show "cell m k k \<le> R" unfolding R by (rule member_le_sum) (use nn k in auto)
  show "cell m k k \<le> C" unfolding C by (rule member_le_sum) (use nn k in auto)
  have N': "N = (\<Sum>j<s. cell m k j) + (\<Sum>i\<in>{..<s}-{k}. \<Sum>j<s. cell m i j)"
    unfolding N by (rule sum.remove) (use k in auto)
  have rest: "(\<Sum>i\<in>{..<s}-{k}. cell m i k) \<le> (\<Sum>i\<in>{..<s}-{k}. \<Sum>j<s. cell m i j)"
    by (rule sum_mono) (rule member_le_sum, use nn k in auto)
  have C': "C = cell m k k + (\<Sum>i\<in>{..<s}-{k}. cell m i k)"
    unfolding C by (rule sum.remove) (use k in auto)
  have "0 \<le> (\<Sum>i\<in>{..<s}-{k}. \<Sum>j<s. cell m i j)" by (intro sum_nonneg) (use nn in auto)
  then show "R \<le> N" using N' R by simp
  show "R + C - N \<le> cell m k k" using N' R C' rest by simp
  have "cell m k k \<le> R" unfolding R by (rule member_le_sum) (use nn k in auto)
  then show "C \<le> N" using N' R C' rest by simp
qed

text \<open>
  The inequality behind the lower bound of kappa, for one category: with row sum R, column sum
  C, agreement D and N items, 4RC is at most N(R + C) + 2ND.
\<close>

lemma four_products:
  fixes R C D N :: int
  assumes "0 \<le> R" "0 \<le> C" "R \<le> N" "C \<le> N" "0 \<le> D" "R + C - N \<le> D"
  shows "4 * (R * C) \<le> N * (R + C) + 2 * (N * D)"
proof -
  let ?s = "R + C"
  have sq: "4 * (R * C) \<le> ?s * ?s"
  proof -
    have "0 \<le> (R - C) * (R - C)" by simp
    then show ?thesis by (simp add: algebra_simps)
  qed
  have N: "0 \<le> N" using assms by simp
  have ND: "0 \<le> N * D" using N assms by simp
  show ?thesis
  proof (cases "?s \<le> N")
    case True
    then have "?s * ?s \<le> N * ?s" using assms by (intro mult_right_mono) auto
    with sq ND show ?thesis by simp
  next
    case False
    then have "0 \<le> (?s - N) * (2 * N - ?s)" using assms by (intro mult_nonneg_nonneg) auto
    then have "?s * ?s \<le> 3 * (N * ?s) - 2 * (N * N)" by (simp add: algebra_simps)
    moreover have "N * (?s - N) \<le> N * D" using assms N by (intro mult_left_mono) auto
    ultimately show ?thesis using sq by (simp add: algebra_simps)
  qed
qed

lemma marginal_sums:
  assumes "square s m"
  shows "(\<Sum>k<s. row_marginals m ! k) = total_n m" and "(\<Sum>k<s. col_marginals m ! k) = total_n m"
  using square_sums(1-3) [OF assms] sum.swap [of "\<lambda>i j. cell m i j" "{..<s}" "{..<s}"] by simp_all

definition chance :: "confusion \<Rightarrow> int" where
  "chance m = (\<Sum>k<length m. row_marginals m ! k * col_marginals m ! k)"

lemma chance_bounds:
  assumes m: "square s m"
  shows "0 \<le> chance m" and "chance m \<le> total_n m * total_n m"
    and "2 * chance m \<le> total_n m * total_n m + total_n m * diagonal m"
proof -
  let ?R = "\<lambda>k. row_marginals m ! k" and ?C = "\<lambda>k. col_marginals m ! k" and ?N = "total_n m"
  have s: "length m = s" using m by (simp add: square_def)
  note b = marginal_bounds [OF m]
  have nn: "0 \<le> ?R k" "0 \<le> ?C k" if "k < s" for k using b [OF that] by linarith+
  show "0 \<le> chance m" unfolding chance_def s by (intro sum_nonneg) (use nn in auto)
  have "chance m \<le> (\<Sum>k<s. ?R k * ?N)"
    unfolding chance_def s by (intro sum_mono mult_left_mono) (use b nn in auto)
  then show "chance m \<le> ?N * ?N" by (simp add: sum_distrib_right [symmetric] marginal_sums [OF m])
  have "4 * chance m = (\<Sum>k<s. 4 * (?R k * ?C k))" by (simp add: chance_def s sum_distrib_left)
  also have "\<dots> \<le> (\<Sum>k<s. ?N * (?R k + ?C k) + 2 * (?N * cell m k k))"
    by (intro sum_mono four_products) (use b nn in auto)
  also have "\<dots> = ?N * (?N + ?N) + 2 * (?N * diagonal m)"
    using marginal_sums [OF m] square_sums(4) [OF m]
    by (simp add: sum.distrib sum_distrib_left [symmetric] flip: distrib_left)
  finally show "2 * chance m \<le> ?N * ?N + ?N * diagonal m" by simp
qed

lemma diagonal_bounds:
  assumes m: "square s m"
  shows "0 \<le> diagonal m" and "diagonal m \<le> total_n m"
proof -
  note sq = square_sums [OF m]
  show "0 \<le> diagonal m" unfolding sq(4) by (intro sum_nonneg) (use sq(5) in auto)
  have "diagonal m \<le> (\<Sum>k<s. row_marginals m ! k)"
    unfolding sq(4) by (intro sum_mono marginal_bounds(2) [OF m]) simp
  then show "diagonal m \<le> total_n m" using marginal_sums(1) [OF m] by simp
qed

lemma weighted_sum_bounds:
  fixes m :: confusion
  assumes m: "square s m"
  shows "0 \<le> (\<Sum>i<s. \<Sum>j<s. fraction (weight ws i j * cell m i j) 1)"
    and "0 \<le> (\<Sum>i<s. \<Sum>j<s. fraction (weight ws i j * row_marginals m ! i * col_marginals m ! j) (total_n m))"
proof -
  have w: "0 \<le> weight ws i j" for i j by (cases ws) (simp_all add: weight_def)
  have f: "0 \<le> fraction a b" if "0 \<le> a" "0 \<le> b" for a b using that by (simp add: fraction_def)
  note b = marginal_bounds [OF m]
  have R: "0 \<le> row_marginals m ! k" "0 \<le> col_marginals m ! k" if "k < s" for k using b [OF that] by linarith+
  have N: "0 \<le> total_n m" using diagonal_bounds [OF m] by linarith
  show "0 \<le> (\<Sum>i<s. \<Sum>j<s. fraction (weight ws i j * cell m i j) 1)"
    by (intro sum_nonneg f mult_nonneg_nonneg w square_sums(5) [OF m]) auto
  show "0 \<le> (\<Sum>i<s. \<Sum>j<s. fraction (weight ws i j * row_marginals m ! i * col_marginals m ! j) (total_n m))"
    by (intro sum_nonneg f mult_nonneg_nonneg w R N) auto
qed

text \<open>When chance alone explains everything: one cell holds all items.\<close>

lemma chance_full:
  assumes m: "square s m" and N: "0 < total_n m"
  shows "chance m = total_n m * total_n m \<longleftrightarrow> (\<exists>k < s. cell m k k = total_n m)"
proof
  let ?R = "\<lambda>k. row_marginals m ! k" and ?C = "\<lambda>k. col_marginals m ! k" and ?N = "total_n m"
  have s: "length m = s" using m by (simp add: square_def)
  note b = marginal_bounds [OF m]
  have nn: "0 \<le> ?R k" "0 \<le> ?C k" if "k < s" for k using b [OF that] by linarith+
  show "\<exists>k < s. cell m k k = ?N" if eq: "chance m = ?N * ?N"
  proof -
    have "(\<Sum>k<s. ?R k * (?N - ?C k)) = (\<Sum>k<s. ?R k * ?N) - chance m"
      by (simp add: chance_def s right_diff_distrib sum_subtractf)
    also have "\<dots> = 0" using eq by (simp add: sum_distrib_right [symmetric] marginal_sums [OF m])
    finally have z: "(\<Sum>k<s. ?R k * (?N - ?C k)) = 0" .
    have z: "?R k * (?N - ?C k) = 0" if "k < s" for k
    proof -
      have "\<forall>k \<in> {..<s}. ?R k * (?N - ?C k) = 0"
        by (subst sum_nonneg_eq_0_iff [symmetric]) (use z b nn in \<open>auto intro!: mult_nonneg_nonneg\<close>)
      with that show ?thesis by simp
    qed
    obtain k where k: "k < s" "?R k \<noteq> 0"
      using marginal_sums(1) [OF m] N by (metis less_irrefl lessThan_iff sum.neutral)
    have Ck: "?C k = ?N" using z [OF k(1)] k(2) by simp
    have "?R j = 0" if j: "j < s" "j \<noteq> k" for j
    proof -
      have "(\<Sum>i<s. ?C i) = ?C k + (\<Sum>i\<in>{..<s}-{k}. ?C i)" by (rule sum.remove) (use k in auto)
      then have "(\<Sum>i\<in>{..<s}-{k}. ?C i) = 0" using marginal_sums(2) [OF m] Ck by simp
      moreover have "?C j \<le> (\<Sum>i\<in>{..<s}-{k}. ?C i)" by (rule member_le_sum) (use j nn in auto)
      ultimately have "?C j = 0" using nn(2) [OF j(1)] by simp
      with z [OF j(1)] N show ?thesis by simp
    qed
    moreover have "(\<Sum>i<s. ?R i) = ?R k + (\<Sum>i\<in>{..<s}-{k}. ?R i)" by (rule sum.remove) (use k in auto)
    ultimately have "?R k = ?N" using marginal_sums(1) [OF m] by simp
    with b(2,6) [OF k(1)] Ck have "cell m k k = ?N" by linarith
    with k(1) show ?thesis by blast
  qed
  show "chance m = ?N * ?N" if ex: "\<exists>k < s. cell m k k = ?N"
  proof -
    from ex obtain k where k: "k < s" "cell m k k = ?N" by blast
    have "?R k = ?N" "?C k = ?N" using b(2-5) [OF k(1)] k(2) by linarith+
    moreover have "?R k * ?C k \<le> chance m"
      unfolding chance_def s by (rule member_le_sum) (use k nn in auto)
    ultimately show ?thesis using chance_bounds(2) [OF m] by simp
  qed
qed

lemma cohen_kappa_eq:
  assumes m: "square s m" and N: "total_n m \<noteq> 0"
  defines "p_o \<equiv> fraction (diagonal m) (total_n m)" and "p_e \<equiv> fraction (chance m) (total_n m * total_n m)"
  shows "cohen_kappa fl m = \<lparr>kr_value = if p_e = 1 then None else Some (fl ((p_o - p_e) / (1 - p_e))),
    kr_reason = if p_e = 1 then Some UNDEFINED_NO_CHANCE_VARIATION else None,
    kr_observed = fl p_o, kr_expected = fl p_e\<rparr>"
proof -
  have "sum_list (map (\<lambda>k. fraction (row_marginals m ! k * col_marginals m ! k) (total_n m * total_n m))
      [0..<length m]) = p_e"
    by (simp add: sum_list_upt p_e_def fraction_def chance_def sum_divide_distrib)
  then show ?thesis using N by (simp add: cohen_kappa_def Let_def p_o_def)
qed

text \<open>
  C21. Cohen's kappa lies between -1 and 1 and is never computed by a division by zero. For
  every square matrix of counts and every monotone conversion that is exact on -1, 0 and 1, the
  value is absent exactly when there are no items or a single cell of the diagonal holds all
  of them, and then the reason is given; otherwise it lies in [-1, 1], and it is 1 when the
  raters agree on every item. The observed and the expected agreement lie in [0, 1].
\<close>

theorem cohen_kappa_bounds:
  assumes m: "square s m" and fl: "rounding fl"
  shows "(kr_value (cohen_kappa fl m) = None \<longleftrightarrow>
       total_n m = 0 \<or> (\<exists>k < s. cell m k k = total_n m)) \<and>
    (kr_value (cohen_kappa fl m) = None \<longleftrightarrow>
       kr_reason (cohen_kappa fl m) = Some UNDEFINED_NO_CHANCE_VARIATION) \<and>
    (\<forall>v. kr_value (cohen_kappa fl m) = Some v \<longrightarrow>
       -1 \<le> v \<and> v \<le> 1 \<and> (diagonal m = total_n m \<longrightarrow> v = 1)) \<and>
    0 \<le> kr_observed (cohen_kappa fl m) \<and> kr_observed (cohen_kappa fl m) \<le> 1 \<and>
    0 \<le> kr_expected (cohen_kappa fl m) \<and> kr_expected (cohen_kappa fl m) \<le> 1"
proof (cases "total_n m = 0")
  case True
  then show ?thesis by (simp add: cohen_kappa_def)
next
  case False
  let ?N = "total_n m" and ?K = "cohen_kappa fl m"
  define p_o where "p_o = fraction (diagonal m) ?N"
  define p_e where "p_e = fraction (chance m) (?N * ?N)"
  note K = cohen_kappa_eq [OF m False, of fl, folded p_o_def p_e_def]
  have N: "0 < ?N" using False diagonal_bounds [OF m] by linarith
  have po: "0 \<le> p_o" "p_o \<le> 1" using fraction_unit diagonal_bounds [OF m] by (simp_all add: p_o_def)
  have pe: "0 \<le> p_e" "p_e \<le> 1" using fraction_unit chance_bounds [OF m] by (simp_all add: p_e_def)
  have low: "2 * p_e \<le> 1 + p_o"
  proof -
    have "rat_of_int (2 * chance m) \<le> rat_of_int (?N * ?N + ?N * diagonal m)"
      using chance_bounds(3) [OF m] by (subst of_int_le_iff)
    then have "2 * rat_of_int (chance m) / (of_int ?N * of_int ?N)
        \<le> (of_int ?N * of_int ?N + of_int ?N * of_int (diagonal m)) / (of_int ?N * of_int ?N)"
      using N by (intro divide_right_mono) auto
    also have "\<dots> = 1 + p_o" using N by (simp add: p_o_def fraction_def add_divide_distrib)
    finally show ?thesis by (simp add: p_e_def fraction_def)
  qed
  have full: "p_e = 1 \<longleftrightarrow> (\<exists>k < s. cell m k k = ?N)"
  proof -
    have "p_e = 1 \<longleftrightarrow> rat_of_int (chance m) = rat_of_int (?N * ?N)"
      using N by (auto simp: p_e_def fraction_def)
    also have "\<dots> \<longleftrightarrow> chance m = ?N * ?N" by (rule of_int_eq_iff)
    finally show ?thesis using chance_full [OF m N] by simp
  qed
  have val: "-1 \<le> v \<and> v \<le> 1 \<and> (diagonal m = ?N \<longrightarrow> v = 1)" if v: "kr_value ?K = Some v" for v
  proof -
    have ne: "p_e \<noteq> 1" and vv: "v = fl ((p_o - p_e) / (1 - p_e))" using v by (auto simp: K split: if_splits)
    then have d: "0 < 1 - p_e" using pe by simp
    have "(p_o - p_e) / (1 - p_e) \<le> 1" using po d by (simp add: divide_le_eq)
    moreover have "-1 \<le> (p_o - p_e) / (1 - p_e)" using low d by (simp add: le_divide_eq)
    moreover have "v = 1" if "diagonal m = ?N"
    proof -
      have "p_o = 1" using that N by (simp add: p_o_def fraction_def)
      then show ?thesis using d fl by (simp add: vv rounding_def)
    qed
    ultimately show ?thesis using rounding_between [OF fl] by (simp add: vv)
  qed
  show ?thesis
  proof (intro conjI)
    show "kr_value ?K = None \<longleftrightarrow> ?N = 0 \<or> (\<exists>k < s. cell m k k = ?N)"
      unfolding full [symmetric] using False by (simp add: K)
    show "kr_value ?K = None \<longleftrightarrow> kr_reason ?K = Some UNDEFINED_NO_CHANCE_VARIATION" by (simp add: K)
    show "\<forall>v. kr_value ?K = Some v \<longrightarrow> -1 \<le> v \<and> v \<le> 1 \<and> (diagonal m = ?N \<longrightarrow> v = 1)"
      by (intro allI impI val)
    show "0 \<le> kr_observed ?K" "kr_observed ?K \<le> 1"
      using rounding_between(1,2) [OF fl] po by (simp_all add: K)
    show "0 \<le> kr_expected ?K" "kr_expected ?K \<le> 1"
      using rounding_between(1,2) [OF fl] pe by (simp_all add: K)
  qed
qed

definition sample_confusion :: confusion where
  "sample_confusion = [[2, 1], [0, 1]]"

theorem cohen_kappa_bounds_witness:
  "kr_value (cohen_kappa id sample_confusion) = Some (1 / 2) \<and>
   -1 \<le> (1 / 2 :: rat) \<and> 0 \<le> kr_expected (cohen_kappa id sample_confusion) \<and>
   kr_value (cohen_kappa id [[0, 1], [1, 0]]) = Some (-1)"
proof -
  have m: "square 2 sample_confusion" by (simp add: square_def sample_confusion_def)
  have fl: "rounding id" by (simp add: rounding_def mono_def)
  have v: "kr_value (cohen_kappa id sample_confusion) = Some (1 / 2)"
    and v2: "kr_value (cohen_kappa id [[0, 1], [1, 0]]) = Some (-1)"
    by (simp_all add: cohen_kappa_def sample_confusion_def total_n_def diagonal_def row_marginals_def
        col_marginals_def fraction_def Let_def numeral_2_eq_2)
  from cohen_kappa_bounds [OF m fl] v v2 show ?thesis by blast
qed

text \<open>Krippendorff's alpha: the coincidences, their marginals, and what disagreement there is.\<close>

definition coinc :: "confusion \<Rightarrow> nat \<Rightarrow> nat \<Rightarrow> int" where
  "coinc m c k = cell m c k + cell m k c"

definition coinc_row :: "nat \<Rightarrow> confusion \<Rightarrow> nat \<Rightarrow> int" where
  "coinc_row s m c = (\<Sum>k<s. coinc m c k)"

lemma half_of_product:
  fixes a b x :: int
  assumes "0 \<le> x" "x \<le> a" "x \<le> b"
  shows "(a + b) * x \<le> 2 * (a * b)"
proof -
  have "a * x \<le> a * b" "b * x \<le> b * a" using assms by (intro mult_left_mono; simp)+
  then show ?thesis by (simp add: algebra_simps)
qed

lemma coincidence_bounds:
  assumes m: "square s m"
  defines "nc \<equiv> coinc_row s m" and "off \<equiv> \<lambda>c. \<Sum>k<s. if c \<noteq> k then coinc m c k else 0"
  defines "n \<equiv> \<Sum>c<s. nc c"
  shows "0 \<le> (\<Sum>c<s. off c)" and "0 \<le> n" and "n * (\<Sum>c<s. off c) \<le> 2 * (n * n - (\<Sum>c<s. nc c * nc c))"
    and "0 \<le> n * n - (\<Sum>c<s. nc c * nc c)"
proof -
  have o: "0 \<le> coinc m c k" if "c < s" "k < s" for c k
    using square_sums(5) [OF m] that by (simp add: coinc_def)
  have off0: "0 \<le> off c" if "c < s" for c unfolding off_def by (intro sum_nonneg) (use o that in auto)
  have nc0: "0 \<le> nc c" if "c < s" for c unfolding nc_def coinc_row_def by (intro sum_nonneg) (use o that in auto)
  show "0 \<le> (\<Sum>c<s. off c)" by (intro sum_nonneg) (use off0 in auto)
  show n0: "0 \<le> n" unfolding n_def by (intro sum_nonneg) (use nc0 in auto)
  have le1: "off c \<le> nc c" if "c < s" for c
    unfolding off_def nc_def coinc_row_def by (intro sum_mono) (use o that in auto)
  have le2: "off c \<le> n - nc c" if c: "c < s" for c
  proof -
    have "off c = (\<Sum>k\<in>{..<s}-{c}. coinc m c k)"
      unfolding off_def by (subst sum.remove [of _ c]) (use c in \<open>auto intro!: sum.cong\<close>)
    also have "\<dots> \<le> (\<Sum>k\<in>{..<s}-{c}. nc k)"
    proof (rule sum_mono)
      fix k assume k: "k \<in> {..<s} - {c}"
      have "coinc m c k = coinc m k c" by (simp add: coinc_def)
      also have "\<dots> \<le> nc k" unfolding nc_def coinc_row_def by (rule member_le_sum) (use o k c in auto)
      finally show "coinc m c k \<le> nc k" .
    qed
    also have "\<dots> = n - nc c" unfolding n_def by (subst sum.remove [of _ c]) (use c in auto)
    finally show ?thesis .
  qed
  have num: "n * n - (\<Sum>c<s. nc c * nc c) = (\<Sum>c<s. nc c * (n - nc c))"
    by (simp add: right_diff_distrib sum_subtractf sum_distrib_right [symmetric] n_def)
  have "n * (\<Sum>c<s. off c) = (\<Sum>c<s. (nc c + (n - nc c)) * off c)" by (simp add: sum_distrib_left)
  also have "\<dots> \<le> (\<Sum>c<s. 2 * (nc c * (n - nc c)))"
    by (intro sum_mono half_of_product) (use off0 le1 le2 in auto)
  finally show "n * (\<Sum>c<s. off c) \<le> 2 * (n * n - (\<Sum>c<s. nc c * nc c))"
    by (simp add: num sum_distrib_left)
  show "0 \<le> n * n - (\<Sum>c<s. nc c * nc c)"
    unfolding num by (intro sum_nonneg mult_nonneg_nonneg) (use nc0 off0 le2 in fastforce)+
qed

lemma alpha_eq:
  assumes m: "square s m"
  defines "nc \<equiv> coinc_row s m" and "d_o \<equiv> \<Sum>c<s. \<Sum>k<s. if c \<noteq> k then coinc m c k else 0"
  defines "n \<equiv> \<Sum>c<s. nc c"
  defines "d_e \<equiv> fraction (n * n - (\<Sum>c<s. nc c * nc c)) (n - 1)"
  shows "krippendorff_alpha_nominal fl m =
    (if n = 0 \<or> n = 1 \<or> d_e = 0 then \<lparr>al_value = None, al_reason = Some UNDEFINED_NO_CHANCE_VARIATION\<rparr>
     else \<lparr>al_value = Some (fl (1 - fraction d_o 1 / d_e)), al_reason = None\<rparr>)"
proof -
  have s: "length m = s" using m by (simp add: square_def)
  let ?co = "map (\<lambda>c. map (\<lambda>k. m ! c ! k + m ! k ! c) [0..<s]) [0..<s]"
  have co: "?co ! c ! k = coinc m c k" if "c < s" "k < s" for c k using that by (simp add: coinc_def cell_def)
  have l: "map (\<lambda>c. sum_list (?co ! c)) [0..<s] = map nc [0..<s]"
    by (rule map_cong) (auto simp: nc_def coinc_row_def sum_list_upt coinc_def cell_def)
  have d: "sum_list (map (\<lambda>c. sum_list (map (\<lambda>k. if c \<noteq> k then ?co ! c ! k else 0) [0..<s])) [0..<s]) = d_o"
    unfolding sum_list_upt d_o_def by (intro sum.cong refl if_cong co) auto
  have q: "sum_list (map (\<lambda>nc. nc * nc) (map nc [0..<s])) = (\<Sum>c<s. nc c * nc c)"
    by (simp add: sum_list_upt comp_def)
  have nn: "sum_list (map nc [0..<s]) = n" by (simp add: sum_list_upt n_def)
  show ?thesis
    unfolding krippendorff_alpha_nominal_def Let_def s l d q nn by (simp add: d_e_def)
qed

lemma alpha_bounds:
  assumes m: "square s m" and fl: "rounding fl" and v: "al_value (krippendorff_alpha_nominal fl m) = Some v"
  shows "-1 \<le> v \<and> v \<le> 1"
proof -
  define nc where "nc = coinc_row s m"
  define d_o where "d_o = (\<Sum>c<s. \<Sum>k<s. if c \<noteq> k then coinc m c k else 0)"
  define n where "n = (\<Sum>c<s. nc c)"
  define num where "num = n * n - (\<Sum>c<s. nc c * nc c)"
  note b = coincidence_bounds [OF m, folded nc_def, folded n_def d_o_def, folded num_def]
  from v alpha_eq [OF m, of fl, folded nc_def, folded n_def d_o_def, folded num_def]
  have n: "n \<noteq> 0" "n \<noteq> 1" "fraction num (n - 1) \<noteq> 0" and vv: "v = fl (1 - fraction d_o 1 / fraction num (n - 1))"
    by (auto split: if_splits)
  have n2: "1 < n" using n b(2) by linarith
  have "num \<noteq> 0" using n(3) by (auto simp: fraction_def)
  then have np: "0 < num" using b(4) by linarith
  have q: "fraction d_o 1 / fraction num (n - 1) = fraction (d_o * (n - 1)) num"
    using n2 np by (simp add: fraction_def)
  have "d_o * (n - 1) \<le> 2 * num" using b(1,3) by (simp add: algebra_simps)
  then have "rat_of_int (d_o * (n - 1)) \<le> rat_of_int (2 * num)" by (subst of_int_le_iff)
  then have "fraction (d_o * (n - 1)) num \<le> 2" using np by (simp add: fraction_def divide_le_eq)
  moreover have "0 \<le> fraction (d_o * (n - 1)) num" using b(1) n2 np by (simp add: fraction_def)
  ultimately show ?thesis using rounding_between [OF fl] unfolding vv q by simp
qed

lemma weighted_kappa_upper:
  assumes m: "square s m" and fl: "rounding fl" and v: "kr_value (weighted_kappa fl m ws) = Some v"
  shows "v \<le> 1"
proof -
  have s: "length m = s" using m by (simp add: square_def)
  define wo where "wo = (\<Sum>i<s. \<Sum>j<s. fraction (weight ws i j * cell m i j) 1)"
  define we where "we = (\<Sum>i<s. \<Sum>j<s. fraction (weight ws i j * row_marginals m ! i * col_marginals m ! j) (total_n m))"
  have nn: "0 \<le> wo" "0 \<le> we" using weighted_sum_bounds [OF m] by (simp_all add: wo_def we_def)
  have "v = fl (1 - wo / we)"
    using v by (auto simp: weighted_kappa_def Let_def s sum_list_upt wo_def we_def cell_def split: if_splits)
  moreover have "0 \<le> wo / we" using nn by simp
  ultimately show ?thesis using rounding_between(2) [OF fl] by simp
qed

lemma f1_bounds:
  fixes p r :: rat
  assumes "0 \<le> p" "p \<le> 1" "0 \<le> r" "r \<le> 1" "0 < p + r"
  shows "0 \<le> 2 * p * r / (p + r)" and "2 * p * r / (p + r) \<le> 1"
proof -
  show "0 \<le> 2 * p * r / (p + r)" using assms by simp
  have "p * r \<le> p * 1" "p * r \<le> 1 * r" using assms by (intro mult_left_mono mult_right_mono; simp)+
  then have "2 * p * r \<le> p + r" by (simp add: mult.assoc)
  then show "2 * p * r / (p + r) \<le> 1" using assms by (simp add: divide_le_eq)
qed

text \<open>Precision, recall and F1 of one category.\<close>

definition unit_interval :: "rat option \<Rightarrow> bool" where
  "unit_interval v \<longleftrightarrow> (\<exists>q. v = Some q \<and> 0 \<le> q \<and> q \<le> 1)"

definition prf_ok :: "confusion \<Rightarrow> rater_side \<Rightarrow> nat \<Rightarrow> category_prf \<Rightarrow> bool" where
  "prf_ok m reference k p \<longleftrightarrow>
     cp_support p = (case reference of RaterA \<Rightarrow> row_marginals m ! k | RaterB \<Rightarrow> col_marginals m ! k) \<and>
     cp_true_positive p + cp_false_negative p = cp_support p \<and>
     0 \<le> cp_true_positive p \<and> 0 \<le> cp_false_positive p \<and> 0 \<le> cp_false_negative p \<and>
     (if cp_support p = 0
      then cp_precision p = None \<and> cp_recall p = None \<and> cp_f1 p = None \<and> cp_reason p = Some NO_SUPPORT
      else unit_interval (cp_precision p) \<and> unit_interval (cp_recall p) \<and> unit_interval (cp_f1 p) \<and>
        cp_reason p = None)"

lemma prf_of_ok:
  assumes m: "square s m" and k: "k < s" and fl: "rounding fl"
  shows "prf_ok m reference k (prf_of fl m categories reference k)"
proof -
  let ?t = "m ! k ! k"
  define sup where "sup = (case reference of RaterA \<Rightarrow> row_marginals m ! k | RaterB \<Rightarrow> col_marginals m ! k)"
  define pre where "pre = (case reference of RaterA \<Rightarrow> col_marginals m ! k | RaterB \<Rightarrow> row_marginals m ! k)"
  have b: "0 \<le> ?t" "?t \<le> sup" "?t \<le> pre"
    using marginal_bounds(1-3) [OF m k] by (cases reference; simp add: sup_def pre_def cell_def)+
  define r where "r = fraction ?t sup"
  define p where "p = (if pre > 0 then fraction ?t pre else 0)"
  define f where "f = (if ?t = 0 then 0 else 2 * p * r / (p + r))"
  have r: "0 \<le> r" "r \<le> 1" using fraction_unit [OF b(1,2)] by (simp_all add: r_def)
  have p: "0 \<le> p" "p \<le> 1" using fraction_unit [OF b(1,3)] by (simp_all add: p_def)
  have f: "0 \<le> f" "f \<le> 1"
  proof -
    have "0 < p + r" if "?t \<noteq> 0"
    proof -
      have "0 < r" using that b by (simp add: r_def fraction_def)
      with p show ?thesis by simp
    qed
    then show "0 \<le> f" "f \<le> 1" using f1_bounds [OF p r] by (simp_all add: f_def)
  qed
  have P: "prf_of fl m categories reference k =
     (if sup = 0 then \<lparr>cp_category = categories ! k, cp_support = sup, cp_true_positive = ?t,
            cp_false_positive = pre - ?t, cp_false_negative = sup - ?t,
            cp_precision = None, cp_recall = None, cp_f1 = None, cp_reason = Some NO_SUPPORT\<rparr>
      else \<lparr>cp_category = categories ! k, cp_support = sup, cp_true_positive = ?t,
                cp_false_positive = pre - ?t, cp_false_negative = sup - ?t,
                cp_precision = Some (fl p), cp_recall = Some (fl r), cp_f1 = Some (fl f), cp_reason = None\<rparr>)"
    by (cases reference) (simp_all add: prf_of_def Let_def sup_def pre_def p_def r_def f_def)
  note u = rounding_between(1,2) [OF fl]
  have "unit_interval (Some (fl x))" if "0 \<le> x" "x \<le> 1" for x using u that by (simp add: unit_interval_def)
  with p r f b show ?thesis by (simp add: prf_ok_def P sup_def [symmetric])
qed

text \<open>
  The other measures are bounded as well. For every square matrix of counts, weighted kappa
  is at most 1 for both weight schemes, Krippendorff's alpha lies in [-1, 1], the observed
  agreement and every majority baseline lie in [0, 1], and for each category and either
  reference rater precision, recall and F1 lie in [0, 1], or are all absent, with the reason,
  exactly when the category has no support; true positives and false negatives add up to the
  support.
\<close>

lemma agreement_measures_bounded:
  assumes m: "square s m" and fl: "rounding fl"
  shows "(\<forall>ws v. kr_value (weighted_kappa fl m ws) = Some v \<longrightarrow> v \<le> 1) \<and>
    (\<forall>v. al_value (krippendorff_alpha_nominal fl m) = Some v \<longrightarrow> -1 \<le> v \<and> v \<le> 1) \<and>
    0 \<le> observed_agreement fl m \<and> observed_agreement fl m \<le> 1 \<and>
    (\<forall>side. 0 \<le> majority_baseline fl m side \<and> majority_baseline fl m side \<le> 1) \<and>
    (\<forall>categories side. length categories = s \<longrightarrow>
       length (per_category_prf fl m categories side) = s \<and>
       (\<forall>k < s. prf_ok m side k (per_category_prf fl m categories side ! k)))"
proof (intro conjI allI impI)
  note u = rounding_between(1,2) [OF fl]
  have s: "length m = s" using m by (simp add: square_def)
  have d: "0 \<le> fraction (diagonal m) (total_n m) \<and> fraction (diagonal m) (total_n m) \<le> 1"
    by (rule fraction_unit [OF diagonal_bounds [OF m]])
  show "0 \<le> observed_agreement fl m" "observed_agreement fl m \<le> 1"
    using u d by (simp_all add: observed_agreement_def Let_def)
  show "v \<le> 1" if "kr_value (weighted_kappa fl m ws) = Some v" for ws v
    by (rule weighted_kappa_upper [OF m fl that])
  show "-1 \<le> v" "v \<le> 1" if "al_value (krippendorff_alpha_nominal fl m) = Some v" for v
    using alpha_bounds [OF m fl that] by simp_all
  have base: "0 \<le> majority_baseline fl m side \<and> majority_baseline fl m side \<le> 1" for side
  proof (cases "total_n m = 0")
    case False
    define xs where "xs = (case side of RaterA \<Rightarrow> row_marginals m | RaterB \<Rightarrow> col_marginals m)"
    have len: "length xs = s" by (cases side) (simp_all add: xs_def row_marginals_def col_marginals_def s Let_def)
    have el: "0 \<le> xs ! k \<and> xs ! k \<le> total_n m" if "k < s" for k
      using marginal_bounds [OF m that] by (cases side) (auto simp: xs_def)
    have "s \<noteq> 0" using False s by (auto simp: total_n_def)
    then have "Max (set xs) \<in> set xs" using len by (intro Max_in) auto
    then obtain k where "k < s" "Max (set xs) = xs ! k" using len by (metis in_set_conv_nth)
    with el have "0 \<le> Max (set xs)" "Max (set xs) \<le> total_n m" by auto
    from fraction_unit [OF this] show ?thesis
      using u False by (simp add: majority_baseline_def Let_def xs_def)
  qed (simp add: majority_baseline_def)
  then show "0 \<le> majority_baseline fl m side" "majority_baseline fl m side \<le> 1" for side by blast+
  show "length (per_category_prf fl m categories side) = s" if "length categories = s" for categories side
    using that by (simp add: per_category_prf_def)
  show "prf_ok m side k (per_category_prf fl m categories side ! k)"
    if "length categories = s" "k < s" for categories side k
    using that prf_of_ok [OF m that(2) fl] by (simp add: per_category_prf_def)
qed

lemma agreement_measures_bounded_witness:
  "al_value (krippendorff_alpha_nominal id sample_confusion) = Some (8 / 15) \<and> (8 / 15 :: rat) \<le> 1 \<and>
   observed_agreement id sample_confusion = 3 / 4 \<and>
   prf_ok sample_confusion RaterA 0 (per_category_prf id sample_confusion [''yes'', ''no''] RaterA ! 0)"
proof -
  have m: "square 2 sample_confusion" by (simp add: square_def sample_confusion_def)
  have fl: "rounding id" by (simp add: rounding_def mono_def)
  have a: "al_value (krippendorff_alpha_nominal id sample_confusion) = Some (8 / 15)"
    by (simp add: krippendorff_alpha_nominal_def sample_confusion_def fraction_def Let_def numeral_2_eq_2)
  have o: "observed_agreement id sample_confusion = 3 / 4"
    by (simp add: observed_agreement_def sample_confusion_def fraction_def Let_def total_n_def diagonal_def)
  note t = agreement_measures_bounded [OF m fl]
  have "(8 / 15 :: rat) \<le> 1" using t a by blast
  moreover have "prf_ok sample_confusion RaterA 0 (per_category_prf id sample_confusion [''yes'', ''no''] RaterA ! 0)"
    using t by simp
  ultimately show ?thesis using a o by (intro conjI)
qed

lemma sorted_set_list: "sorted_set xs = sorted_list_of_set (set xs)"
  by (rule sorted_distinct_set_unique) simp_all

lemma labelled_total:
  assumes d: "distinct categories" and "\<forall>r \<in> set rs. stray categories r = None"
  shows "(\<Sum>i<length categories. \<Sum>j<length categories.
     int (labelled rs (categories ! i) (categories ! j))) = int (length rs)"
  using assms(2)
proof (induction rs)
  case Nil
  then show ?case by (simp add: labelled_def)
next
  case (Cons r rs)
  let ?s = "length categories"
  have st: "stray categories r = None" using Cons.prems by simp
  then have "ar_rater_a_label r \<in> set categories" "ar_rater_b_label r \<in> set categories"
    by (simp_all add: stray_def split: if_splits)
  then obtain a b where a: "a < ?s" "categories ! a = ar_rater_a_label r"
    and b: "b < ?s" "categories ! b = ar_rater_b_label r" by (metis in_set_conv_nth)
  have eq: "labelled (r # rs) (categories ! i) (categories ! j) =
      labelled rs (categories ! i) (categories ! j) + (if j = b then (if i = a then 1 else 0) else 0)"
    if "i < ?s" "j < ?s" for i j
  proof -
    have "ar_rater_a_label r = categories ! i \<longleftrightarrow> i = a" "ar_rater_b_label r = categories ! j \<longleftrightarrow> j = b"
      using nth_eq_iff_index_eq [OF d that(1) a(1)] nth_eq_iff_index_eq [OF d that(2) b(1)]
      unfolding a(2) b(2) by metis+
    then show ?thesis unfolding labelled_def by simp
  qed
  have "(\<Sum>i<?s. \<Sum>j<?s. int (labelled (r # rs) (categories ! i) (categories ! j))) =
      (\<Sum>i<?s. \<Sum>j<?s. int (labelled rs (categories ! i) (categories ! j))
         + (if j = b then (if i = a then 1 else 0) else 0))"
    by (intro sum.cong refl) (auto simp: eq)
  also have "\<dots> = (\<Sum>i<?s. \<Sum>j<?s. int (labelled rs (categories ! i) (categories ! j))) + 1"
    using a(1) b(1) by (simp add: sum.distrib)
  also have "\<dots> = int (length (r # rs))" using Cons by simp
  finally show ?case .
qed

text \<open>
  Aligning and counting lose nothing and hide nothing. Two raters with the same items are
  aligned item by item in sorted order; otherwise the error lists exactly the items only one of
  them rated. Counting fails exactly when a category is repeated or some rating has a label
  outside the categories, and then names the first such rating and its first stray label;
  otherwise the matrix has one cell per pair of categories, holding the number of items with
  these labels, and counts every item.
\<close>

lemma confusion_counts_every_item:
  "(case align_ratings a b of
      Inl e \<Rightarrow> fst ` set a \<noteq> fst ` set b \<and>
        e = MismatchedRatersError (sorted_list_of_set (fst ` set a - fst ` set b))
              (sorted_list_of_set (fst ` set b - fst ` set a))
    | Inr rs \<Rightarrow> fst ` set a = fst ` set b \<and> map ar_item_id rs = sorted_list_of_set (fst ` set a) \<and>
        (\<forall>r \<in> set rs. map_of a (ar_item_id r) = Some (ar_rater_a_label r) \<and>
           map_of b (ar_item_id r) = Some (ar_rater_b_label r))) \<and>
   (case confusion_matrix rs categories of
      Inl e \<Rightarrow> (if distinct categories
        then \<exists>ps r qs. rs = ps @ r # qs \<and> (\<forall>p \<in> set ps. stray categories p = None) \<and>
               stray categories r = Some e
        else e = DuplicateCategoryError categories)
    | Inr m \<Rightarrow> distinct categories \<and> (\<forall>r \<in> set rs. stray categories r = None) \<and>
        square (length categories) m \<and> total_n m = int (length rs) \<and>
        (\<forall>i < length categories. \<forall>j < length categories.
           cell m i j = int (labelled rs (categories ! i) (categories ! j))))"
proof (rule conjI)
  have ids: "sorted_set (map fst x) = sorted_list_of_set (fst ` set x)" for x :: "(string \<times> string) list"
    by (simp add: sorted_set_list)
  have same: "sorted_list_of_set (fst ` set a) = sorted_list_of_set (fst ` set b) \<longleftrightarrow> fst ` set a = fst ` set b"
    by (metis List.finite_set finite_imageI set_sorted_list_of_set)
  have flt: "filter (\<lambda>i. i \<notin> Y) (sorted_list_of_set X) = sorted_list_of_set (X - Y)"
    if "finite X" for X Y :: "string set"
    by (rule sorted_distinct_set_unique) (use that in \<open>auto simp: sorted_wrt_filter\<close>)
  have some: "map_of x i = Some (the (map_of x i))" if "i \<in> fst ` set x" for x :: "(string \<times> string) list" and i
    using that by (metis map_of_eq_None_iff option.collapse)
  show "case align_ratings a b of
      Inl e \<Rightarrow> fst ` set a \<noteq> fst ` set b \<and>
        e = MismatchedRatersError (sorted_list_of_set (fst ` set a - fst ` set b))
              (sorted_list_of_set (fst ` set b - fst ` set a))
    | Inr rs \<Rightarrow> fst ` set a = fst ` set b \<and> map ar_item_id rs = sorted_list_of_set (fst ` set a) \<and>
        (\<forall>r \<in> set rs. map_of a (ar_item_id r) = Some (ar_rater_a_label r) \<and>
           map_of b (ar_item_id r) = Some (ar_rater_b_label r))"
  proof (cases "fst ` set a = fst ` set b")
    case True
    then show ?thesis
      using some [of _ a] some [of _ b] by (simp add: align_ratings_def Let_def ids comp_def)
  next
    case False
    then show ?thesis by (simp add: align_ratings_def Let_def ids same flt)
  qed
  show "case confusion_matrix rs categories of
      Inl e \<Rightarrow> (if distinct categories
        then \<exists>ps r qs. rs = ps @ r # qs \<and> (\<forall>p \<in> set ps. stray categories p = None) \<and>
               stray categories r = Some e
        else e = DuplicateCategoryError categories)
    | Inr m \<Rightarrow> distinct categories \<and> (\<forall>r \<in> set rs. stray categories r = None) \<and>
        square (length categories) m \<and> total_n m = int (length rs) \<and>
        (\<forall>i < length categories. \<forall>j < length categories.
           cell m i j = int (labelled rs (categories ! i) (categories ! j)))"
  proof (cases "distinct categories")
    case False
    then show ?thesis by (simp add: confusion_matrix_def check_categories_iff)
  next
    case True
    let ?z = "replicate (length categories) (replicate (length categories) 0)"
    have c: "confusion_matrix rs categories = tally categories rs ?z"
      using True by (simp add: confusion_matrix_def check_categories_iff Let_def)
    note t = tally_exact [OF True square_zero, of rs]
    show ?thesis
    proof (cases "tally categories rs ?z")
      case (Inl e)
      with t c True show ?thesis by simp
    next
      case (Inr m)
      with t have st: "\<forall>r \<in> set rs. stray categories r = None" and sq: "square (length categories) m"
        and cl: "\<forall>i < length categories. \<forall>j < length categories.
           cell m i j = int (labelled rs (categories ! i) (categories ! j))"
        by (simp_all add: cell_zero)
      have "total_n m = int (length rs)"
        using labelled_total [OF True st] cl by (simp add: square_sums(1) [OF sq])
      with st sq cl c True Inr show ?thesis by simp
    qed
  qed
qed

lemma confusion_counts_every_item_witness:
  "align_ratings [(''i1'', ''yes''), (''i2'', ''no'')] [(''i2'', ''yes''), (''i1'', ''yes'')] =
     Inr [\<lparr>ar_item_id = ''i1'', ar_rater_a_label = ''yes'', ar_rater_b_label = ''yes''\<rparr>,
          \<lparr>ar_item_id = ''i2'', ar_rater_a_label = ''no'', ar_rater_b_label = ''yes''\<rparr>] \<and>
   confusion_matrix [\<lparr>ar_item_id = ''i1'', ar_rater_a_label = ''yes'', ar_rater_b_label = ''yes''\<rparr>,
          \<lparr>ar_item_id = ''i2'', ar_rater_a_label = ''no'', ar_rater_b_label = ''yes''\<rparr>] [''yes'', ''no''] =
     Inr [[1, 0], [1, 0]] \<and> total_n [[1, 0], [1, 0]] = 2"
proof -
  let ?rs = "[\<lparr>ar_item_id = ''i1'', ar_rater_a_label = ''yes'', ar_rater_b_label = ''yes''\<rparr>,
          \<lparr>ar_item_id = ''i2'', ar_rater_a_label = ''no'', ar_rater_b_label = ''yes''\<rparr>]"
  have a: "align_ratings [(''i1'', ''yes''), (''i2'', ''no'')] [(''i2'', ''yes''), (''i1'', ''yes'')] = Inr ?rs"
    by code_simp
  have c: "confusion_matrix ?rs [''yes'', ''no''] = Inr [[1, 0], [1, 0]]" by code_simp
  from confusion_counts_every_item [where a = "[]" and b = "[]" and rs = ?rs and categories = "[''yes'', ''no'']"] c
  have "total_n [[1, 0], [1, 0]] = int (length ?rs)" by simp
  with a c show ?thesis by simp
qed

end
