(* ===== verification/Support_Audit.thy ===== *)
theory Support_Audit
  imports Repositories Complex_Main "HOL-Library.Multiset"
begin

text \<open>
  The support audit of quoted figures and passages,
  \<^verbatim>\<open>packages/domain/mrr/domain/support_audit.py\<close> with the counts of
  \<^verbatim>\<open>support_audit_report.py\<close>: the hash gate, the numerals of an excerpt, the search for
  anchor terms near them, and the best window of a quotation with
  \<^verbatim>\<open>difflib.SequenceMatcher.ratio\<close>. Texts are strings of 8-bit characters read as the code
  points 0 to 255, for which \<^verbatim>\<open>lower\<close>, \<^verbatim>\<open>split\<close> and the digits of a regular expression are as below. A float is a
  \<^typ>\<open>rat\<close>; the rounding of the one division is the argument \<open>fl\<close>. The character the code
  puts where it cuts a window has no 8-bit code and is the argument \<open>dots\<close>.
\<close>

section \<open>The hash gate\<close>

datatype support_batch_role = ClaimsManifest | ContentSnapshot

definition role_name :: "support_batch_role \<Rightarrow> string" where
  "role_name r = (case r of ClaimsManifest \<Rightarrow> ''claims_manifest'' | ContentSnapshot \<Rightarrow> ''content_snapshot'')"

record batch_input_declaration =
  bi_role :: support_batch_role
  bi_path :: string
  bi_declared_sha256 :: string

record support_batch =
  sb_schema_version :: string
  sb_batch_id :: string
  sb_audit_target :: string
  sb_claims_manifest :: batch_input_declaration
  sb_content_snapshot :: batch_input_declaration

definition batch_inputs :: "support_batch \<Rightarrow> batch_input_declaration list" where
  "batch_inputs b = sort_key (\<lambda>i. role_name (bi_role i)) [sb_claims_manifest b, sb_content_snapshot b]"

record anchor_check_result =
  ac_role :: support_batch_role
  ac_path :: string
  ac_declared_sha256 :: string
  ac_actual_sha256 :: string
  ac_ok :: bool

definition check_anchor ::
  "support_batch_role \<Rightarrow> string \<Rightarrow> string \<Rightarrow> string \<Rightarrow> anchor_check_result" where
  "check_anchor role path declared_sha256 actual_sha256 =
     \<lparr>ac_role = role, ac_path = path, ac_declared_sha256 = declared_sha256,
      ac_actual_sha256 = actual_sha256, ac_ok = (declared_sha256 = actual_sha256)\<rparr>"

datatype support_audit_error =
    IntegrityGateError support_batch_role string string string
  | SupportAuditInputError string

fun first_mismatch :: "anchor_check_result list \<Rightarrow> support_audit_error + unit" where
  "first_mismatch [] = Inr ()"
| "first_mismatch (r # rs) =
     (if \<not> ac_ok r
      then Inl (IntegrityGateError (ac_role r) (ac_path r) (ac_declared_sha256 r) (ac_actual_sha256 r))
      else first_mismatch rs)"

definition check_and_gate :: "anchor_check_result list \<Rightarrow> support_audit_error + unit" where
  "check_and_gate results = first_mismatch (sort_key (\<lambda>r. role_name (ac_role r)) results)"

section \<open>Numerals\<close>

definition is_digit :: "char \<Rightarrow> bool" where
  "is_digit c = (let n = of_char c :: nat in 48 \<le> n \<and> n \<le> 57)"

record numeral_occurrence =
  no_value :: string
  no_start :: nat
  no_end :: nat

definition text_slice :: "string \<Rightarrow> nat \<Rightarrow> nat \<Rightarrow> string" where
  "text_slice text a b = take (b - a) (drop a text)"

text \<open>\<^verbatim>\<open>_DIGIT_RUN_RE.finditer(text)\<close>: start, end and text of every maximal run of digits.\<close>

function digit_runs :: "nat \<Rightarrow> string \<Rightarrow> (nat \<times> nat \<times> string) list" where
  "digit_runs pos [] = []"
| "digit_runs pos (c # cs) =
     (if is_digit c then
        (let g = takeWhile is_digit (c # cs)
         in (pos, pos + length g, g) # digit_runs (pos + length g) (dropWhile is_digit (c # cs)))
      else digit_runs (Suc pos) cs)"
  by pat_completeness auto
termination
  by (relation "measure (\<lambda>(pos, cs). length cs)") (auto simp: le_imp_less_Suc length_dropWhile_le)

text \<open>The inner loop: the parts, whether the decimal point is used, the end of the last run.\<close>

fun join_runs ::
  "string \<Rightarrow> string list \<Rightarrow> bool \<Rightarrow> nat \<Rightarrow> (nat \<times> nat \<times> string) list \<Rightarrow>
   string list \<times> nat \<times> (nat \<times> nat \<times> string) list" where
  "join_runs text parts decimal_used this_end [] = (parts, this_end, [])"
| "join_runs text parts decimal_used this_end ((next_start, next_end, next_group) # runs) =
     (let between = text_slice text this_end next_start
      in if between = '','' \<and> length next_group = 3 then
           join_runs text (parts @ [next_group]) decimal_used next_end runs
         else if between = ''.'' \<and> \<not> decimal_used then
           join_runs text (parts @ [''.'' @ next_group]) True next_end runs
         else (parts, this_end, (next_start, next_end, next_group) # runs))"

lemma join_runs_length: "join_runs t parts d e runs = (ps, e', rest) \<Longrightarrow> length rest \<le> length runs"
  by (induction t parts d e runs rule: join_runs.induct) (auto simp: Let_def split: if_splits)

function numerals_of :: "string \<Rightarrow> (nat \<times> nat \<times> string) list \<Rightarrow> numeral_occurrence list" where
  "numerals_of text [] = []"
| "numerals_of text ((start, stop, g) # runs) =
     (let (parts, stop', rest) = join_runs text [g] False stop runs
      in \<lparr>no_value = concat parts, no_start = start, no_end = stop'\<rparr> # numerals_of text rest)"
  by pat_completeness auto
termination
  by (relation "measure (\<lambda>(t, runs). length runs)") (auto simp: le_imp_less_Suc dest!: join_runs_length [OF sym])

definition find_numerals :: "string \<Rightarrow> numeral_occurrence list" where
  "find_numerals text = numerals_of text (digit_runs 0 text)"

section \<open>Anchor terms\<close>

definition lower_char :: "char \<Rightarrow> char" where
  "lower_char c = (let n = of_char c :: nat
     in if (65 \<le> n \<and> n \<le> 90) \<or> (192 \<le> n \<and> n \<le> 222 \<and> n \<noteq> 215) then char_of (n + 32) else c)"

definition lower :: "string \<Rightarrow> string" where
  "lower s = map lower_char s"

record term_occurrence =
  to_start :: nat
  to_end :: nat

text \<open>\<^verbatim>\<open>s.find(t, i)\<close>.\<close>

function find_from :: "string \<Rightarrow> string \<Rightarrow> nat \<Rightarrow> nat option" where
  "find_from t s i =
     (if length s < i + length t then None
      else if take (length t) (drop i s) = t then Some i
      else find_from t s (Suc i))"
  by pat_completeness auto
termination by (relation "measure (\<lambda>(t, s, i). Suc (length s) - i)") auto

declare find_from.simps [simp del]

definition occurs_at :: "string \<Rightarrow> string \<Rightarrow> nat \<Rightarrow> bool" where
  "occurs_at t s i \<longleftrightarrow> i + length t \<le> length s \<and> take (length t) (drop i s) = t"

lemma find_from_Some:
  "find_from t s i = Some k \<longleftrightarrow> i \<le> k \<and> occurs_at t s k \<and> (\<forall>j. i \<le> j \<and> j < k \<longrightarrow> \<not> occurs_at t s j)"
proof (induction t s i rule: find_from.induct)
  case (1 t s i)
  show ?case
  proof (cases "length s < i + length t \<or> take (length t) (drop i s) = t")
    case True
    then show ?thesis
      by (subst find_from.simps) (auto simp: occurs_at_def not_less_eq_eq intro: le_antisym)
  next
    case False
    then have "find_from t s i = find_from t s (Suc i)" and "\<not> occurs_at t s i"
      by (auto simp: find_from.simps [of t s i] occurs_at_def)
    moreover have "(\<forall>j. i \<le> j \<and> j < k \<longrightarrow> \<not> occurs_at t s j) \<longleftrightarrow>
        (\<forall>j. Suc i \<le> j \<and> j < k \<longrightarrow> \<not> occurs_at t s j)" if "\<not> occurs_at t s i"
      using that by (metis Suc_leI le_neq_implies_less Suc_leD)
    ultimately show ?thesis using 1 False by (metis Suc_leD Suc_leI le_neq_implies_less)
  qed
qed

function term_occurrences_from :: "string \<Rightarrow> string \<Rightarrow> nat \<Rightarrow> term_occurrence list" where
  "term_occurrences_from t s search_from =
     (case find_from t s search_from of
        None \<Rightarrow> []
      | Some i \<Rightarrow> \<lparr>to_start = i, to_end = i + length t\<rparr> # term_occurrences_from t s (i + 1))"
  by pat_completeness auto
termination
  by (relation "measure (\<lambda>(t, s, i). Suc (length s) - i)") (auto simp: find_from_Some occurs_at_def)

declare term_occurrences_from.simps [simp del]

definition find_term_occurrences :: "string \<Rightarrow> string \<Rightarrow> term_occurrence list" where
  "find_term_occurrences t text =
     (if t = [] then [] else term_occurrences_from (lower t) (lower text) 0)"

definition char_gap :: "nat \<Rightarrow> nat \<Rightarrow> nat \<Rightarrow> nat \<Rightarrow> int" where
  "char_gap a_start a_end b_start b_end =
     (if a_end \<le> b_start then int (b_start - a_end)
      else if b_end \<le> a_start then int (a_start - b_end)
      else 0)"

text \<open>\<^verbatim>\<open>text[a:b]\<close> for any integers: a negative index counts from the end.\<close>

definition slice_index :: "string \<Rightarrow> int \<Rightarrow> nat" where
  "slice_index text i =
     (let n = int (length text) in nat (if i < 0 then max 0 (n + i) else min n i))"

definition py_slice :: "string \<Rightarrow> int \<Rightarrow> int \<Rightarrow> string" where
  "py_slice text a b = text_slice text (slice_index text a) (slice_index text b)"

definition render_window :: "string \<Rightarrow> string \<Rightarrow> nat \<Rightarrow> nat \<Rightarrow> int \<Rightarrow> string" where
  "render_window dots text start stop radius =
     (let window_start = max 0 (int start - radius);
          window_end = min (int (length text)) (int stop + radius);
          prefix = (if window_start > 0 then dots else []);
          suffix = (if window_end < int (length text) then dots else [])
      in prefix @ py_slice text window_start window_end @ suffix)"

section \<open>Figures\<close>

datatype figure_status = FigureSupportedInExcerpt | FigureAbsentFromCheckedExcerpt

record matched_window =
  mw_token :: string
  mw_window_text :: string

record figure_verdict =
  fv_claim_id :: string
  fv_citation_id :: string
  fv_status :: figure_status
  fv_matched_windows :: "matched_window list"

definition closest_gap :: "numeral_occurrence \<Rightarrow> term_occurrence list \<Rightarrow> int" where
  "closest_gap n ts = Min (set (map (\<lambda>t. char_gap (no_start n) (no_end n) (to_start t) (to_end t)) ts))"

fun all_anchors_within_window ::
  "numeral_occurrence \<Rightarrow> term_occurrence list list \<Rightarrow> int \<Rightarrow> bool" where
  "all_anchors_within_window n [] window = True"
| "all_anchors_within_window n (ts # tss) window =
     (if ts = [] then False
      else if closest_gap n ts > window then False
      else all_anchors_within_window n tss window)"

text \<open>The loop over the tokens, with the windows collected so far; \<open>None\<close> is the early return.\<close>

fun match_tokens ::
  "string \<Rightarrow> string \<Rightarrow> numeral_occurrence list \<Rightarrow> term_occurrence list list \<Rightarrow> int \<Rightarrow> string list \<Rightarrow>
   matched_window list \<Rightarrow> matched_window list option" where
  "match_tokens dots text ns anchors window [] ws = Some ws"
| "match_tokens dots text ns anchors window (token # tokens) ws =
     (case find (\<lambda>n. all_anchors_within_window n anchors window) (filter (\<lambda>n. no_value n = token) ns) of
        None \<Rightarrow> None
      | Some n \<Rightarrow> match_tokens dots text ns anchors window tokens
          (ws @ [\<lparr>mw_token = token, mw_window_text = render_window dots text (no_start n) (no_end n) window\<rparr>]))"

definition evaluate_figure_claim ::
  "string \<Rightarrow> string \<Rightarrow> string \<Rightarrow> string list \<Rightarrow> string list \<Rightarrow> int \<Rightarrow> string option \<Rightarrow> figure_verdict" where
  "evaluate_figure_claim dots claim_id citation_id tokens anchor_terms anchor_window_chars excerpt_text =
     (let absent = \<lparr>fv_claim_id = claim_id, fv_citation_id = citation_id,
                    fv_status = FigureAbsentFromCheckedExcerpt, fv_matched_windows = []\<rparr>
      in case excerpt_text of
           None \<Rightarrow> absent
         | Some text \<Rightarrow>
             (case match_tokens dots text (find_numerals text)
                     (map (\<lambda>t. find_term_occurrences t text) anchor_terms) anchor_window_chars tokens [] of
                None \<Rightarrow> absent
              | Some ws \<Rightarrow> \<lparr>fv_claim_id = claim_id, fv_citation_id = citation_id,
                            fv_status = FigureSupportedInExcerpt, fv_matched_windows = ws\<rparr>))"

section \<open>What the numerals are\<close>

text \<open>The runs found from position \<open>p\<close> on: all digits, each run maximal, in order.\<close>

fun runs_ok :: "string \<Rightarrow> nat \<Rightarrow> (nat \<times> nat \<times> string) list \<Rightarrow> bool" where
  "runs_ok t p [] \<longleftrightarrow> (\<forall>i. p \<le> i \<and> i < length t \<longrightarrow> \<not> is_digit (t ! i))"
| "runs_ok t p ((s, e, g) # runs) \<longleftrightarrow>
     p \<le> s \<and> s < e \<and> e \<le> length t \<and> g = text_slice t s e \<and>
     (\<forall>i. p \<le> i \<and> i < s \<longrightarrow> \<not> is_digit (t ! i)) \<and> (\<forall>i. s \<le> i \<and> i < e \<longrightarrow> is_digit (t ! i)) \<and>
     (e < length t \<longrightarrow> \<not> is_digit (t ! e)) \<and> runs_ok t e runs"

lemma none_from_Suc:
  "(\<forall>i. Suc p \<le> i \<and> i < n \<longrightarrow> \<not> P i) \<Longrightarrow> \<not> P p \<Longrightarrow> (\<forall>i. p \<le> i \<and> i < n \<longrightarrow> \<not> P i)"
  by (metis Suc_leI le_neq_implies_less)

lemma runs_ok_skip:
  assumes "runs_ok t (Suc p) runs" and "\<not> is_digit (t ! p)"
  shows "runs_ok t p runs"
proof (cases runs)
  case Nil
  with assms none_from_Suc [of p "length t" "\<lambda>i. is_digit (t ! i)"] show ?thesis by simp
next
  case (Cons r rs)
  obtain s e g where r: "r = (s, e, g)" by (metis prod.exhaust)
  from assms none_from_Suc [of p s "\<lambda>i. is_digit (t ! i)"] show ?thesis unfolding Cons r by simp
qed

lemma text_slice_append:
  assumes "a \<le> b" "b \<le> c"
  shows "text_slice t a b @ text_slice t b c = text_slice t a c"
proof -
  have "drop b t = drop (b - a) (drop a t)" using assms by simp
  then show ?thesis
    unfolding text_slice_def using take_add [of "b - a" "c - b" "drop a t"] assms by simp
qed

lemma digit_runs_ok: "cs = drop p t \<Longrightarrow> p \<le> length t \<Longrightarrow> runs_ok t p (digit_runs p cs)"
proof (induction p cs rule: digit_runs.induct)
  case (1 pos)
  then have "length t \<le> pos" by (metis drop_eq_Nil)
  then show ?case by auto
next
  case (2 pos c cs)
  have lt: "pos < length t" and c: "t ! pos = c" and cs: "drop (Suc pos) t = cs"
    using 2(3) by (metis drop_all linorder_not_less list.distinct(1),
      metis drop_eq_Nil2 hd_drop_conv_nth leI list.distinct(1) list.sel(1), metis drop_Suc drop_tl list.sel(3) tl_drop)
  show ?case
  proof (cases "is_digit c")
    case False
    have "runs_ok t (Suc pos) (digit_runs (Suc pos) cs)" using 2(2) False cs lt by simp
    with False c show ?thesis by (simp add: runs_ok_skip)
  next
    case True
    define g where "g = takeWhile is_digit (c # cs)"
    define e where "e = pos + length g"
    have d: "dropWhile is_digit (c # cs) = drop e t"
      unfolding e_def g_def 2(3) [symmetric]
      by (metis 2(3) dropWhile_eq_drop drop_drop add.commute)
    have lg: "length g \<le> length (drop pos t)" unfolding g_def 2(3) by (rule length_takeWhile_le)
    then have le: "e \<le> length t" using lt by (simp add: e_def)
    have gp: "0 < length g" using True by (simp add: g_def)
    have sl: "g = text_slice t pos e"
      unfolding text_slice_def e_def using 2(3) takeWhile_eq_take [of is_digit "c # cs"] by (simp add: g_def)
    have dig: "is_digit (t ! i)" if "pos \<le> i" "i < e" for i
    proof -
      have "g ! (i - pos) = t ! i" using that le lt by (simp add: sl text_slice_def)
      moreover have "g ! (i - pos) \<in> set g" using that by (intro nth_mem) (simp add: e_def)
      ultimately show ?thesis unfolding g_def by (metis set_takeWhileD)
    qed
    have stop: "\<not> is_digit (t ! e)" if "e < length t"
    proof -
      have "drop e t \<noteq> []" using that by simp
      then have "dropWhile is_digit (c # cs) \<noteq> []" unfolding d .
      then have "\<not> is_digit (hd (dropWhile is_digit (c # cs)))" by (rule hd_dropWhile)
      then have "\<not> is_digit (hd (drop e t))" unfolding d .
      then show ?thesis using that by (simp add: hd_drop_conv_nth)
    qed
    have "runs_ok t e (digit_runs e (dropWhile is_digit (c # cs)))"
      using 2(1) [OF True g_def] d le by (simp add: e_def)
    note rest = this
    have eq: "digit_runs pos (c # cs) = (pos, e, g) # digit_runs e (dropWhile is_digit (c # cs))"
      unfolding e_def g_def digit_runs.simps(2) Let_def using True by (simp only: if_True)
    show ?thesis
      unfolding eq runs_ok.simps
    proof (intro conjI allI impI)
      show "pos < e" using gp by (simp add: e_def)
      show "g = text_slice t pos e" by (rule sl)
      show "runs_ok t e (digit_runs e (dropWhile is_digit (c # cs)))" by (rule rest)
    qed (use le dig stop in auto)
  qed
qed

definition decimal_comma :: "char \<Rightarrow> bool" where
  "decimal_comma c \<longleftrightarrow> is_digit c \<or> c = CHR '','' \<or> c = CHR ''.''"

definition uncomma :: "string \<Rightarrow> string" where
  "uncomma s = filter (\<lambda>c. c \<noteq> CHR '','') s"

lemma digit_neq: "is_digit c \<Longrightarrow> c \<noteq> CHR '','' \<and> c \<noteq> CHR ''.''"
  by (auto simp: is_digit_def)

lemma uncomma_digits: "list_all is_digit g \<Longrightarrow> uncomma g = g"
  by (induction g) (auto simp: uncomma_def digit_neq)

lemma count_digits: "list_all is_digit g \<Longrightarrow> count_list g (CHR ''.'') = 0"
  by (induction g) (auto simp: is_digit_def)

lemma count_uncomma: "count_list (uncomma s) (CHR ''.'') = count_list s (CHR ''.'')"
  by (induction s) (auto simp: uncomma_def)

lemma slice_all:
  assumes "\<forall>i. a \<le> i \<and> i < b \<longrightarrow> P (t ! i)" and "b \<le> length t"
  shows "list_all P (text_slice t a b)"
  using assms by (auto simp: list_all_length text_slice_def)

text \<open>A span that begins and ends with a digit and has the value the code gives it.\<close>

definition span_ok :: "string \<Rightarrow> nat \<Rightarrow> nat \<Rightarrow> string \<Rightarrow> bool" where
  "span_ok t s e v \<longleftrightarrow>
     s < e \<and> e \<le> length t \<and> v = uncomma (text_slice t s e) \<and> list_all decimal_comma (text_slice t s e) \<and>
     is_digit (t ! s) \<and> is_digit (t ! (e - 1))"

lemma span_run:
  assumes "s < e" "e \<le> length t" "g = text_slice t s e" "\<forall>i. s \<le> i \<and> i < e \<longrightarrow> is_digit (t ! i)"
  shows "span_ok t s e g" and "list_all is_digit g"
proof -
  show d: "list_all is_digit g" unfolding assms(3) by (rule slice_all [OF assms(4,2)])
  have "list_all decimal_comma g" using d by (simp add: list_all_iff decimal_comma_def)
  with assms d show "span_ok t s e g" by (simp add: span_ok_def uncomma_digits)
qed

lemma span_join:
  assumes 1: "span_ok t s e v" and 2: "span_ok t s' e' v'" and le: "e \<le> s'"
    and m: "list_all decimal_comma (text_slice t e s')"
  shows "span_ok t s e' (v @ uncomma (text_slice t e s') @ v')"
proof -
  have o: "s \<le> e" "s \<le> s'" "s' \<le> e'" using 1 2 le by (simp_all add: span_ok_def)
  have "text_slice t s e' = (text_slice t s e @ text_slice t e s') @ text_slice t s' e'"
    unfolding text_slice_append [OF o(1) le] text_slice_append [OF o(2,3)] ..
  with 1 2 m le show ?thesis by (simp add: span_ok_def uncomma_def)
qed

lemma join_runs_ok:
  assumes "runs_ok t e runs" and "span_ok t s e (concat parts)" and "e < length t \<longrightarrow> \<not> is_digit (t ! e)"
    and "count_list (concat parts) (CHR ''.'') = (if d then 1 else 0)"
    and "join_runs t parts d e runs = (ps, e', rest)"
  shows "span_ok t s e' (concat ps) \<and> runs_ok t e' rest \<and> (e' < length t \<longrightarrow> \<not> is_digit (t ! e')) \<and>
    count_list (concat ps) (CHR ''.'') \<le> 1 \<and> e \<le> e'"
  using assms
proof (induction t parts d e runs rule: join_runs.induct)
  case (1 t parts d e)
  then show ?case by auto
next
  case (2 t parts d e s1 e1 g1 runs)
  from 2(3) have r: "e \<le> s1" "s1 < e1" "e1 \<le> length t" "g1 = text_slice t s1 e1"
    "\<forall>i. s1 \<le> i \<and> i < e1 \<longrightarrow> is_digit (t ! i)" "e1 < length t \<longrightarrow> \<not> is_digit (t ! e1)" "runs_ok t e1 runs"
    by auto
  note g = span_run [OF r(2-5)]
  define between where "between = text_slice t e s1"
  have j: "span_ok t s e1 (concat parts @ uncomma between @ g1)" if "list_all decimal_comma between"
    unfolding between_def by (rule span_join [OF 2(4) g(1) r(1)]) (use that between_def in simp)
  show ?case
  proof (cases "between = '','' \<and> length g1 = 3")
    case True
    have "span_ok t s e1 (concat (parts @ [g1]))"
      using j True by (simp add: decimal_comma_def uncomma_def)
    moreover have "count_list (concat (parts @ [g1])) (CHR ''.'') = (if d then 1 else 0)"
      using 2(6) count_digits [OF g(2)] by simp
    moreover have "join_runs t (parts @ [g1]) d e1 runs = (ps, e', rest)"
      using 2(7) True by (simp add: between_def Let_def)
    ultimately show ?thesis
      using 2(1) [OF between_def True r(7) _ r(6)] r(1,2) by fastforce
  next
    case F: False
    show ?thesis
    proof (cases "between = ''.'' \<and> \<not> d")
      case True
      have "span_ok t s e1 (concat (parts @ [''.'' @ g1]))"
        using j True by (simp add: decimal_comma_def uncomma_def)
      moreover have "count_list (concat (parts @ [''.'' @ g1])) (CHR ''.'') = 1"
        using 2(6) True count_digits [OF g(2)] by simp
      moreover have "join_runs t (parts @ [''.'' @ g1]) True e1 runs = (ps, e', rest)"
        using 2(7) F True by (simp add: between_def Let_def)
      ultimately show ?thesis
        using 2(2) [OF between_def F True r(7) _ r(6)] r(1,2) by fastforce
    next
      case False
      then have eq: "ps = parts" "e' = e" "rest = (s1, e1, g1) # runs"
        using 2(7) F by (auto simp: between_def Let_def)
      have "count_list (concat parts) (CHR ''.'') \<le> 1" using 2(6) by simp
      with 2(3-5) show ?thesis unfolding eq by (intro conjI) simp_all
    qed
  qed
qed

definition numeral_ok :: "string \<Rightarrow> numeral_occurrence \<Rightarrow> bool" where
  "numeral_ok t n \<longleftrightarrow> span_ok t (no_start n) (no_end n) (no_value n) \<and> count_list (no_value n) (CHR ''.'') \<le> 1"

definition covers :: "numeral_occurrence \<Rightarrow> nat \<Rightarrow> bool" where
  "covers n i \<longleftrightarrow> no_start n \<le> i \<and> i < no_end n"

lemma numerals_of_ok:
  "runs_ok t p runs \<Longrightarrow> (0 < p \<and> p < length t \<longrightarrow> \<not> is_digit (t ! p)) \<Longrightarrow>
     (\<forall>n \<in> set (numerals_of t runs). numeral_ok t n \<and> p \<le> no_start n \<and> (0 < p \<longrightarrow> p < no_start n)) \<and>
     sorted_wrt (\<lambda>m n. no_end m < no_start n) (numerals_of t runs) \<and>
     (\<forall>i. p \<le> i \<and> i < length t \<and> is_digit (t ! i) \<longrightarrow> (\<exists>n \<in> set (numerals_of t runs). covers n i))"
proof (induction t runs arbitrary: p rule: numerals_of.induct)
  case (1 t)
  then show ?case by auto
next
  case (2 t s e g runs)
  from 2(2) have r: "p \<le> s" "s < e" "e \<le> length t" "g = text_slice t s e"
    "\<forall>i. p \<le> i \<and> i < s \<longrightarrow> \<not> is_digit (t ! i)"
    "\<forall>i. s \<le> i \<and> i < e \<longrightarrow> is_digit (t ! i)" "e < length t \<longrightarrow> \<not> is_digit (t ! e)" "runs_ok t e runs"
    by auto
  note g = span_run [OF r(2-4,6)]
  obtain ps e' rest where j: "join_runs t [g] False e runs = (ps, e', rest)" by (metis prod.exhaust)
  have "span_ok t s e (concat [g])" "count_list (concat [g]) (CHR ''.'') = (if False then 1 else 0)"
    using g(1) count_digits [OF g(2)] by simp_all
  from join_runs_ok [OF r(8) this(1) r(7) this(2) j] have
    k: "span_ok t s e' (concat ps)" "runs_ok t e' rest" "e' < length t \<longrightarrow> \<not> is_digit (t ! e')"
    "count_list (concat ps) (CHR ''.'') \<le> 1" "e \<le> e'" by blast+
  let ?n = "\<lparr>no_value = concat ps, no_start = s, no_end = e'\<rparr>"
  have N: "numerals_of t ((s, e, g) # runs) = ?n # numerals_of t rest" by (simp add: j)
  have e0: "0 < e'" using k(5) r(2) by simp
  have "(0 < e' \<and> e' < length t \<longrightarrow> \<not> is_digit (t ! e'))" using k(3) by blast
  note ih = 2(1) [OF j [symmetric] refl refl k(2) this]
  have ps: "p < s" if "0 < p"
  proof -
    have "is_digit (t ! s)" using r(2,6) by simp
    then have "p \<noteq> s" using 2(3) that r(2,3) by auto
    with r(1) show ?thesis by simp
  qed
  have cov: "\<exists>n \<in> set (?n # numerals_of t rest). covers n i" if i: "p \<le> i" "i < length t" "is_digit (t ! i)" for i
  proof (cases "i < e'")
    case True
    have "s \<le> i" using r(5) i by (metis linorder_not_less)
    with True show ?thesis by (simp add: covers_def)
  next
    case False
    then show ?thesis using ih i by simp
  qed
  have "\<forall>n \<in> set (numerals_of t rest). numeral_ok t n \<and> p \<le> no_start n \<and> (0 < p \<longrightarrow> p < no_start n)"
    using ih e0 r(1,2) k(5) by (meson le_trans less_imp_le less_le_trans order_le_less_trans)
  moreover have "numeral_ok t ?n" using k(1,4) by (simp add: numeral_ok_def)
  moreover have "sorted_wrt (\<lambda>m n. no_end m < no_start n) (?n # numerals_of t rest)" using ih e0 by simp
  ultimately show ?case unfolding N using r(1) ps cov by simp
qed

text \<open>
  The numerals of an excerpt are its numbers, whole. Every digit of the text lies in exactly
  one of them; they come in order and some character separates each from the next; each begins
  and ends with a digit and spans only digits, commas and points; its value is the spanned text
  without the commas and has at most one point.
\<close>

lemma find_numerals_exact:
  "(\<forall>n \<in> set (find_numerals t). no_start n < no_end n \<and> no_end n \<le> length t \<and>
      is_digit (t ! no_start n) \<and> is_digit (t ! (no_end n - 1)) \<and>
      list_all decimal_comma (text_slice t (no_start n) (no_end n)) \<and>
      no_value n = uncomma (text_slice t (no_start n) (no_end n)) \<and>
      count_list (no_value n) (CHR ''.'') \<le> 1) \<and>
   sorted_wrt (\<lambda>m n. no_end m < no_start n) (find_numerals t) \<and>
   (\<forall>i < length t. is_digit (t ! i) \<longrightarrow> (\<exists>!n. n \<in> set (find_numerals t) \<and> covers n i))"
proof -
  have "runs_ok t 0 (digit_runs 0 t)" by (rule digit_runs_ok) simp_all
  from numerals_of_ok [OF this] have
    ok: "\<forall>n \<in> set (find_numerals t). numeral_ok t n" and so: "sorted_wrt (\<lambda>m n. no_end m < no_start n) (find_numerals t)"
    and cov: "\<forall>i. 0 \<le> i \<and> i < length t \<and> is_digit (t ! i) \<longrightarrow> (\<exists>n \<in> set (find_numerals t). covers n i)"
    unfolding find_numerals_def by blast+
  have uniq: "m = n" if mn: "m \<in> set (find_numerals t)" "n \<in> set (find_numerals t)" "covers m i" "covers n i" for m n i
  proof -
    from mn(1,2) obtain a b where ab: "a < length (find_numerals t)" "b < length (find_numerals t)"
      "m = find_numerals t ! a" "n = find_numerals t ! b" by (metis in_set_conv_nth)
    have "\<not> a < b"
    proof
      assume "a < b"
      from sorted_wrt_nth_less [OF so this ab(2)] mn(3,4) show False unfolding ab covers_def by linarith
    qed
    moreover have "\<not> b < a"
    proof
      assume "b < a"
      from sorted_wrt_nth_less [OF so this ab(1)] mn(3,4) show False unfolding ab covers_def by linarith
    qed
    ultimately have "a = b" by simp
    then show ?thesis using ab by simp
  qed
  have "\<exists>!n. n \<in> set (find_numerals t) \<and> covers n i" if "i < length t" "is_digit (t ! i)" for i
  proof -
    from cov that obtain n where "n \<in> set (find_numerals t)" "covers n i" by blast
    then show ?thesis by (intro ex1I [of _ n]) (auto intro: uniq)
  qed
  moreover from ok have "\<forall>n \<in> set (find_numerals t). span_ok t (no_start n) (no_end n) (no_value n) \<and>
      count_list (no_value n) (CHR ''.'') \<le> 1"
    unfolding numeral_ok_def .
  ultimately show ?thesis using so unfolding span_ok_def by (intro conjI ballI allI impI) blast+
qed

lemma find_numerals_exact_witness:
  "find_numerals ''6,7 and 42,000 or 79.4%'' =
     [\<lparr>no_value = ''6'', no_start = 0, no_end = 1\<rparr>, \<lparr>no_value = ''7'', no_start = 2, no_end = 3\<rparr>,
      \<lparr>no_value = ''42000'', no_start = 8, no_end = 14\<rparr>, \<lparr>no_value = ''79.4'', no_start = 18, no_end = 22\<rparr>] \<and>
   is_digit (''6,7 and 42,000 or 79.4%'' ! 8) \<and>
   find_numerals ''3.14,159'' = [\<lparr>no_value = ''3.14159'', no_start = 0, no_end = 8\<rparr>]"
proof -
  let ?t = "''6,7 and 42,000 or 79.4%''"
  have f: "find_numerals ?t = [\<lparr>no_value = ''6'', no_start = 0, no_end = 1\<rparr>,
      \<lparr>no_value = ''7'', no_start = 2, no_end = 3\<rparr>,
      \<lparr>no_value = ''42000'', no_start = 8, no_end = 14\<rparr>, \<lparr>no_value = ''79.4'', no_start = 18, no_end = 22\<rparr>]"
    and g: "find_numerals ''3.14,159'' = [\<lparr>no_value = ''3.14159'', no_start = 0, no_end = 8\<rparr>]"
    by code_simp+
  have "is_digit (?t ! no_start \<lparr>no_value = ''42000'', no_start = 8, no_end = 14\<rparr>)"
    using find_numerals_exact [of ?t] unfolding f by (simp only: list.set insert_iff ball_simps)
  with f g show ?thesis by simp
qed

section \<open>When a figure is supported\<close>

lemma term_occurrences_from_set:
  "set (term_occurrences_from t s k) = {\<lparr>to_start = i, to_end = i + length t\<rparr> |i. k \<le> i \<and> occurs_at t s i}"
proof (induction t s k rule: term_occurrences_from.induct)
  case (1 t s k)
  show ?case
  proof (cases "find_from t s k")
    case None
    have "\<not> occurs_at t s i" if "k \<le> i" for i
    proof
      assume o: "occurs_at t s i"
      define j where "j = (LEAST j. k \<le> j \<and> occurs_at t s j)"
      have "k \<le> j \<and> occurs_at t s j" unfolding j_def by (rule LeastI [of _ i]) (use that o in simp)
      moreover have "\<forall>l. k \<le> l \<and> l < j \<longrightarrow> \<not> occurs_at t s l" unfolding j_def using not_less_Least by blast
      ultimately have "find_from t s k = Some j" unfolding find_from_Some by blast
      with None show False by simp
    qed
    then show ?thesis by (subst term_occurrences_from.simps) (auto simp: None)
  next
    case (Some i)
    note f = find_from_Some [THEN iffD1, OF Some]
    have "set (term_occurrences_from t s k) = insert \<lparr>to_start = i, to_end = i + length t\<rparr>
        {\<lparr>to_start = j, to_end = j + length t\<rparr> |j. i + 1 \<le> j \<and> occurs_at t s j}"
      using 1 [OF Some] by (subst term_occurrences_from.simps) (simp add: Some)
    also have "\<dots> = {\<lparr>to_start = j, to_end = j + length t\<rparr> |j. k \<le> j \<and> occurs_at t s j}"
    proof -
      have "k \<le> j \<and> occurs_at t s j \<longleftrightarrow> j = i \<or> (i + 1 \<le> j \<and> occurs_at t s j)" for j
        using f by (metis Suc_eq_plus1 Suc_leI le_trans less_imp_le linorder_neqE_nat Suc_le_lessD)
      then show ?thesis by auto
    qed
    finally show ?thesis .
  qed
qed

lemma length_lower [simp]: "length (lower s) = length s"
  by (simp add: lower_def)

text \<open>An anchor term within the window of a numeral: where its lower-case text occurs, and how far away.\<close>

definition near :: "string \<Rightarrow> numeral_occurrence \<Rightarrow> int \<Rightarrow> string \<Rightarrow> bool" where
  "near text n window t \<longleftrightarrow> t \<noteq> [] \<and>
     (\<exists>i. occurs_at (lower t) (lower text) i \<and>
        char_gap (no_start n) (no_end n) i (i + length t) \<le> window)"

lemma find_term_set:
  "set (find_term_occurrences t s) =
     {\<lparr>to_start = i, to_end = i + length t\<rparr> |i. t \<noteq> [] \<and> occurs_at (lower t) (lower s) i}"
  by (auto simp: find_term_occurrences_def term_occurrences_from_set)

lemma closest_gap_le:
  "ts \<noteq> [] \<Longrightarrow> closest_gap n ts \<le> w \<longleftrightarrow>
     (\<exists>t \<in> set ts. char_gap (no_start n) (no_end n) (to_start t) (to_end t) \<le> w)"
  unfolding closest_gap_def by (subst Min_le_iff) auto

lemma anchor_near:
  "find_term_occurrences t s \<noteq> [] \<and> closest_gap n (find_term_occurrences t s) \<le> w \<longleftrightarrow> near s n w t"
proof (cases "find_term_occurrences t s = []")
  case True
  then have "{\<lparr>to_start = i, to_end = i + length t\<rparr> |i. t \<noteq> [] \<and> occurs_at (lower t) (lower s) i} = {}"
    using find_term_set [of t s] by simp
  then have "\<not> near s n w t" by (auto simp: near_def)
  with True show ?thesis by simp
next
  case False
  then show ?thesis by (auto simp: closest_gap_le find_term_set near_def)
qed

lemma all_anchors_near:
  "all_anchors_within_window n (map (\<lambda>t. find_term_occurrences t s) terms) w \<longleftrightarrow> (\<forall>t \<in> set terms. near s n w t)"
proof (induction terms)
  case (Cons t terms)
  then show ?case using anchor_near [of t s n w] by auto
qed simp

lemma match_tokens_some:
  "(\<exists>ws'. match_tokens dots text ns anchors w tokens ws = Some ws') \<longleftrightarrow>
     (\<forall>tok \<in> set tokens. \<exists>n \<in> set ns. no_value n = tok \<and> all_anchors_within_window n anchors w)"
proof (induction tokens arbitrary: ws)
  case (Cons tok tokens)
  show ?case
  proof (cases "find (\<lambda>n. all_anchors_within_window n anchors w) (filter (\<lambda>n. no_value n = tok) ns)")
    case None
    then have "\<not> (\<exists>n \<in> set ns. no_value n = tok \<and> all_anchors_within_window n anchors w)"
      by (auto simp: find_None_iff)
    with None show ?thesis by simp
  next
    case (Some n)
    then have n: "n \<in> set ns \<and> no_value n = tok \<and> all_anchors_within_window n anchors w"
      by (metis (mono_tags, lifting) filter_is_subset find_Some_iff mem_Collect_eq nth_mem set_filter)
    have "(\<exists>ws'. match_tokens dots text ns anchors w (tok # tokens) ws = Some ws') \<longleftrightarrow>
        (\<forall>tok \<in> set tokens. \<exists>n \<in> set ns. no_value n = tok \<and> all_anchors_within_window n anchors w)"
      by (simp add: Some Cons.IH)
    with n show ?thesis by (simp only: list.set ball_simps) blast
  qed
qed simp

lemma match_tokens_tokens:
  "match_tokens dots text ns anchors w tokens ws = Some ws' \<Longrightarrow> map mw_token ws' = map mw_token ws @ tokens"
  by (induction tokens arbitrary: ws) (auto split: option.splits)

text \<open>
  When a figure claim counts as supported: exactly when there is an excerpt and every token of
  the claim is the value of one of the numerals of the excerpt that has every anchor term within
  the window. A supported claim shows one window per token, in order; an unsupported one shows
  none. (So a claim without tokens is supported by any excerpt, and one without anchor terms by
  a bare number.)
\<close>

lemma figure_supported_iff:
  "(fv_status (evaluate_figure_claim dots claim citation tokens terms window excerpt) = FigureSupportedInExcerpt \<longleftrightarrow>
     (\<exists>s. excerpt = Some s \<and>
        (\<forall>tok \<in> set tokens. \<exists>n \<in> set (find_numerals s). no_value n = tok \<and> (\<forall>t \<in> set terms. near s n window t)))) \<and>
   map mw_token (fv_matched_windows (evaluate_figure_claim dots claim citation tokens terms window excerpt)) =
     (if fv_status (evaluate_figure_claim dots claim citation tokens terms window excerpt) = FigureSupportedInExcerpt
      then tokens else [])"
proof (cases excerpt)
  case None
  then show ?thesis by (simp add: evaluate_figure_claim_def)
next
  case (Some s)
  let ?m = "match_tokens dots s (find_numerals s) (map (\<lambda>t. find_term_occurrences t s) terms) window tokens []"
  have m: "(\<exists>ws. ?m = Some ws) \<longleftrightarrow>
      (\<forall>tok \<in> set tokens. \<exists>n \<in> set (find_numerals s). no_value n = tok \<and> (\<forall>t \<in> set terms. near s n window t))"
    unfolding match_tokens_some all_anchors_near ..
  show ?thesis
  proof (cases ?m)
    case None
    with m Some show ?thesis by (simp add: evaluate_figure_claim_def)
  next
    case (Some ws)
    with m \<open>excerpt = Some s\<close> match_tokens_tokens [OF Some] show ?thesis
      by (simp add: evaluate_figure_claim_def)
  qed
qed

lemma figure_supported_iff_witness:
  "fv_status (evaluate_figure_claim ''...'' ''c1'' ''s1'' [''42000''] [''Sample Size''] 10 (Some ''a sample size of 42,000''))
     = FigureSupportedInExcerpt \<and>
   (\<exists>n \<in> set (find_numerals ''a sample size of 42,000''). no_value n = ''42000'' \<and>
      near ''a sample size of 42,000'' n 10 ''Sample Size'') \<and>
   fv_status (evaluate_figure_claim ''...'' ''c1'' ''s1'' [''42''] [''Sample Size''] 10 (Some ''a sample size of 42,000''))
     = FigureAbsentFromCheckedExcerpt \<and>
   fv_status (evaluate_figure_claim ''...'' ''c2'' ''s1'' [] [] 10 (Some [])) = FigureSupportedInExcerpt"
proof -
  have s: "fv_status (evaluate_figure_claim ''...'' ''c1'' ''s1'' [''42000''] [''Sample Size''] 10
      (Some ''a sample size of 42,000'')) = FigureSupportedInExcerpt"
    and a: "fv_status (evaluate_figure_claim ''...'' ''c1'' ''s1'' [''42''] [''Sample Size''] 10
      (Some ''a sample size of 42,000'')) = FigureAbsentFromCheckedExcerpt"
    and e: "fv_status (evaluate_figure_claim ''...'' ''c2'' ''s1'' [] [] 10 (Some [])) = FigureSupportedInExcerpt"
    by code_simp+
  from figure_supported_iff [THEN conjunct1, THEN iffD1, OF s]
  have "\<exists>n \<in> set (find_numerals ''a sample size of 42,000''). no_value n = ''42000'' \<and>
      near ''a sample size of 42,000'' n 10 ''Sample Size''"
    by (elim exE conjE, unfold option.inject list.set ball_simps, hypsubst) blast
  with s a e show ?thesis by (intro conjI)
qed

section \<open>Comparing texts\<close>

text \<open>
  \<^verbatim>\<open>SequenceMatcher(None, a, b).ratio()\<close> of \<^verbatim>\<open>difflib\<close>. \<open>b2j\<close> is its index of \<open>b\<close>: where
  each character occurs, without the popular characters of a text of 200 or more. A match is its
  start in \<open>a\<close>, its start in \<open>b\<close> and its size; \<open>j2len j\<close> is the length of the match that ends
  before the current row in column \<open>j\<close>.
\<close>

definition b2j :: "string \<Rightarrow> char \<Rightarrow> nat list" where
  "b2j b c = (let idxs = filter (\<lambda>j. b ! j = c) [0..<length b]
     in if 200 \<le> length b \<and> length b div 100 + 1 < length idxs then [] else idxs)"

definition j2lenget :: "(nat \<rightharpoonup> nat) \<Rightarrow> nat \<Rightarrow> nat" where
  "j2lenget j2len j = (if j = 0 then 0 else case j2len (j - 1) of None \<Rightarrow> 0 | Some k \<Rightarrow> k)"

fun scan_row ::
  "nat \<Rightarrow> nat \<Rightarrow> nat \<Rightarrow> (nat \<rightharpoonup> nat) \<Rightarrow> nat list \<Rightarrow> (nat \<rightharpoonup> nat) \<Rightarrow> nat \<times> nat \<times> nat \<Rightarrow>
   (nat \<rightharpoonup> nat) \<times> nat \<times> nat \<times> nat" where
  "scan_row i blo bhi j2len [] newj2len best = (newj2len, best)"
| "scan_row i blo bhi j2len (j # js) newj2len best =
     (if j < blo then scan_row i blo bhi j2len js newj2len best
      else if bhi \<le> j then (newj2len, best)
      else (let k = j2lenget j2len j + 1
            in scan_row i blo bhi j2len js (newj2len(j \<mapsto> k))
                 (if k > snd (snd best) then (i + 1 - k, j + 1 - k, k) else best)))"

fun scan_rows ::
  "string \<Rightarrow> string \<Rightarrow> nat \<Rightarrow> nat \<Rightarrow> nat list \<Rightarrow> (nat \<rightharpoonup> nat) \<Rightarrow> nat \<times> nat \<times> nat \<Rightarrow> nat \<times> nat \<times> nat" where
  "scan_rows a b blo bhi [] j2len best = best"
| "scan_rows a b blo bhi (i # is) j2len best =
     (let (j2len', best') = scan_row i blo bhi j2len (b2j b (a ! i)) Map.empty best
      in scan_rows a b blo bhi is j2len' best')"

fun extend_left :: "string \<Rightarrow> string \<Rightarrow> nat \<Rightarrow> nat \<Rightarrow> nat \<Rightarrow> nat \<Rightarrow> nat \<Rightarrow> nat \<times> nat \<times> nat" where
  "extend_left a b alo blo (Suc i) (Suc j) k =
     (if alo < Suc i \<and> blo < Suc j \<and> a ! i = b ! j then extend_left a b alo blo i j (k + 1)
      else (Suc i, Suc j, k))"
| "extend_left a b alo blo i j k = (i, j, k)"

function extend_right :: "string \<Rightarrow> string \<Rightarrow> nat \<Rightarrow> nat \<Rightarrow> nat \<Rightarrow> nat \<Rightarrow> nat \<Rightarrow> nat" where
  "extend_right a b ahi bhi i j k =
     (if i + k < ahi \<and> j + k < bhi \<and> a ! (i + k) = b ! (j + k) then extend_right a b ahi bhi i j (k + 1)
      else k)"
  by pat_completeness auto
termination by (relation "measure (\<lambda>(a, b, ahi, bhi, i, j, k). ahi - (i + k))") auto

declare extend_right.simps [simp del]

definition find_longest_match :: "string \<Rightarrow> string \<Rightarrow> nat \<Rightarrow> nat \<Rightarrow> nat \<Rightarrow> nat \<Rightarrow> nat \<times> nat \<times> nat" where
  "find_longest_match a b alo ahi blo bhi =
     (let (i, j, k) = scan_rows a b blo bhi [alo..<ahi] Map.empty (alo, blo, 0);
          (i', j', k') = extend_left a b alo blo i j k
      in (i', j', extend_right a b ahi bhi i' j' k'))"

text \<open>A match lies in its ranges.\<close>

fun in_ranges :: "nat \<Rightarrow> nat \<Rightarrow> nat \<Rightarrow> nat \<Rightarrow> nat \<times> nat \<times> nat \<Rightarrow> bool" where
  "in_ranges alo ahi blo bhi (i, j, k) \<longleftrightarrow> alo \<le> i \<and> i + k \<le> ahi \<and> blo \<le> j \<and> j + k \<le> bhi"

definition j2len_ok :: "nat \<Rightarrow> nat \<Rightarrow> nat \<Rightarrow> (nat \<rightharpoonup> nat) \<Rightarrow> bool" where
  "j2len_ok alo blo i m \<longleftrightarrow> (\<forall>j k. m j = Some k \<longrightarrow> blo \<le> j \<and> k \<le> i - alo \<and> k \<le> j + 1 - blo)"

lemma j2lenget_le:
  assumes "j2len_ok alo blo i m" "blo \<le> j"
  shows "j2lenget m j \<le> i - alo" and "j2lenget m j \<le> j - blo"
  using assms by (force simp: j2lenget_def j2len_ok_def split: option.splits)+

lemma scan_row_ok:
  "scan_row i blo bhi m js new best = (new', best') \<Longrightarrow> alo \<le> i \<Longrightarrow> i < ahi \<Longrightarrow>
   j2len_ok alo blo i m \<Longrightarrow> j2len_ok alo blo (Suc i) new \<Longrightarrow> in_ranges alo ahi blo bhi best \<Longrightarrow>
   j2len_ok alo blo (Suc i) new' \<and> in_ranges alo ahi blo bhi best'"
proof (induction js arbitrary: new best)
  case (Cons j js)
  let ?k = "j2lenget m j + 1"
  show ?case
  proof (cases "blo \<le> j \<and> j < bhi")
    case True
    then have n: "\<not> j < blo" "\<not> bhi \<le> j" by simp_all
    note k = j2lenget_le [OF Cons.prems(4) conjunct1 [OF True]]
    have "j2len_ok alo blo (Suc i) (new(j \<mapsto> ?k))"
      using Cons.prems(2,5) k True by (auto simp: j2len_ok_def)
    moreover have "in_ranges alo ahi blo bhi (if ?k > snd (snd best) then (i + 1 - ?k, j + 1 - ?k, ?k) else best)"
      using Cons.prems(2,3,6) k True by auto
    moreover have "scan_row i blo bhi m js (new(j \<mapsto> ?k))
        (if ?k > snd (snd best) then (i + 1 - ?k, j + 1 - ?k, ?k) else best) = (new', best')"
      using Cons.prems(1) n by (simp only: scan_row.simps Let_def if_False)
    ultimately show ?thesis using Cons.IH Cons.prems(2-4) by blast
  next
    case False
    with Cons show ?thesis by (cases "j < blo") auto
  qed
qed simp

lemma scan_rows_ok:
  "j2len_ok alo blo lo m \<Longrightarrow> in_ranges alo ahi blo bhi best \<Longrightarrow> alo \<le> lo \<Longrightarrow>
   in_ranges alo ahi blo bhi (scan_rows a b blo bhi [lo..<ahi] m best)"
proof (induction "ahi - lo" arbitrary: lo m best)
  case (Suc n)
  then have lo: "[lo..<ahi] = lo # [Suc lo..<ahi]" "lo < ahi" "n = ahi - Suc lo" by (simp_all add: upt_conv_Cons)
  obtain m' best' where s: "scan_row lo blo bhi m (b2j b (a ! lo)) Map.empty best = (m', best')"
    by (metis prod.exhaust)
  have "j2len_ok alo blo (Suc lo) Map.empty" by (simp add: j2len_ok_def)
  from scan_row_ok [OF s Suc.prems(3) lo(2) Suc.prems(1) this Suc.prems(2)] Suc.hyps(1) [OF lo(3)] Suc.prems(3)
  show ?case unfolding lo(1) by (simp add: s)
qed simp

lemma extend_left_ok:
  "extend_left a b alo blo i j k = (i', j', k') \<Longrightarrow> in_ranges alo ahi blo bhi (i, j, k) \<Longrightarrow>
   in_ranges alo ahi blo bhi (i', j', k') \<and> k \<le> k'"
proof (induction a b alo blo i j k rule: extend_left.induct)
  case (1 a b alo blo i j k)
  then show ?case by (cases "alo < Suc i \<and> blo < Suc j \<and> a ! i = b ! j") auto
qed auto

lemma extend_right_ok:
  "in_ranges alo ahi blo bhi (i, j, k) \<Longrightarrow> in_ranges alo ahi blo bhi (i, j, extend_right a b ahi bhi i j k)"
proof (induction a b ahi bhi i j k rule: extend_right.induct)
  case (1 a b ahi bhi i j k)
  then show ?case
    by (cases "i + k < ahi \<and> j + k < bhi \<and> a ! (i + k) = b ! (j + k)") (auto simp: extend_right.simps [of a b ahi bhi i j k])
qed

lemma find_longest_match_ok:
  assumes "find_longest_match a b alo ahi blo bhi = (i, j, k)" "alo \<le> ahi" "blo \<le> bhi"
  shows "in_ranges alo ahi blo bhi (i, j, k)"
proof -
  obtain i1 j1 k1 where s: "scan_rows a b blo bhi [alo..<ahi] Map.empty (alo, blo, 0) = (i1, j1, k1)"
    by (metis prod.exhaust)
  obtain i2 j2 k2 where l: "extend_left a b alo blo i1 j1 k1 = (i2, j2, k2)" by (metis prod.exhaust)
  have "j2len_ok alo blo alo Map.empty" "in_ranges alo ahi blo bhi (alo, blo, 0)"
    using assms(2,3) by (simp_all add: j2len_ok_def)
  from scan_rows_ok [OF this order_refl] have "in_ranges alo ahi blo bhi (i1, j1, k1)" unfolding s [symmetric] .
  from extend_left_ok [OF l this] have "in_ranges alo ahi blo bhi (i2, j2, k2)" ..
  from extend_right_ok [OF this, of a b]
  have "in_ranges alo ahi blo bhi (find_longest_match a b alo ahi blo bhi)"
    unfolding find_longest_match_def s l Let_def prod.case .
  then show ?thesis unfolding assms(1) .
qed

text \<open>The sizes of \<^verbatim>\<open>get_matching_blocks()\<close>, added up.\<close>

function matches :: "string \<Rightarrow> string \<Rightarrow> nat \<Rightarrow> nat \<Rightarrow> nat \<Rightarrow> nat \<Rightarrow> nat" where
  "matches a b alo ahi blo bhi =
     (if alo \<le> ahi \<and> blo \<le> bhi then
        (let (i, j, k) = find_longest_match a b alo ahi blo bhi
         in if k = 0 then 0
            else k + (if alo < i \<and> blo < j then matches a b alo i blo j else 0)
                   + (if i + k < ahi \<and> j + k < bhi then matches a b (i + k) ahi (j + k) bhi else 0))
      else 0)"
  by pat_completeness auto
termination
proof (relation "measure (\<lambda>(a, b, alo, ahi, blo, bhi). ahi - alo)", goal_cases)
  case 1
  then show ?case by simp
next
  case (2 a b alo ahi blo bhi x i y j k)
  then have f: "find_longest_match a b alo ahi blo bhi = (i, j, k)" and k: "0 < k" "alo \<le> ahi" "blo \<le> bhi" by simp_all
  from find_longest_match_ok [OF f k(2,3)] k(1) show ?case by auto
next
  case (3 a b alo ahi blo bhi x i y j k)
  then have f: "find_longest_match a b alo ahi blo bhi = (i, j, k)" and k: "0 < k" "alo \<le> ahi" "blo \<le> bhi" by simp_all
  from find_longest_match_ok [OF f k(2,3)] k(1) show ?case by auto
qed

declare matches.simps [simp del]

definition seq_ratio :: "(rat \<Rightarrow> rat) \<Rightarrow> string \<Rightarrow> string \<Rightarrow> rat" where
  "seq_ratio fl a b =
     (if length a + length b = 0 then 1
      else fl (2 * of_nat (matches a b 0 (length a) 0 (length b)) / of_nat (length a + length b)))"

section \<open>Quotations\<close>

datatype quotation_status = QuotationVerbatim | QuotationAltered | QuotationAbsentFromCheckedExcerpt

record quotation_verdict =
  qv_claim_id :: string
  qv_citation_id :: string
  qv_status :: quotation_status
  qv_matched_text :: "string option"

text \<open>\<^verbatim>\<open>s.split()\<close> and \<^verbatim>\<open>" ".join(words)\<close>.\<close>

function words :: "string \<Rightarrow> string list" where
  "words [] = []"
| "words (c # cs) =
     (if is_space c then words cs
      else takeWhile (\<lambda>x. \<not> is_space x) (c # cs) # words (dropWhile (\<lambda>x. \<not> is_space x) (c # cs)))"
  by pat_completeness auto
termination by (relation "measure length") (auto simp: le_imp_less_Suc length_dropWhile_le)

fun join_spaces :: "string list \<Rightarrow> string" where
  "join_spaces [] = []"
| "join_spaces [w] = w"
| "join_spaces (w # ws) = w @ CHR '' '' # join_spaces ws"

definition normalize_quotation_text :: "string \<Rightarrow> string" where
  "normalize_quotation_text text = join_spaces (words (lower text))"

definition quotation_windows :: "nat \<Rightarrow> string list \<Rightarrow> string list" where
  "quotation_windows window_length excerpt_words =
     map (\<lambda>start. join_spaces (take window_length (drop start excerpt_words)))
       [0..<length excerpt_words - window_length + 1]"

fun best_window :: "(rat \<Rightarrow> rat) \<Rightarrow> string \<Rightarrow> string list \<Rightarrow> rat \<times> string \<Rightarrow> rat \<times> string" where
  "best_window fl quote [] best = best"
| "best_window fl quote (w # ws) best =
     best_window fl quote ws
       (let ratio = seq_ratio fl quote w in if ratio > fst best then (ratio, w) else best)"

definition evaluate_quotation_claim ::
  "(rat \<Rightarrow> rat) \<Rightarrow> string \<Rightarrow> string \<Rightarrow> string \<Rightarrow> string option \<Rightarrow> rat \<Rightarrow> quotation_verdict" where
  "evaluate_quotation_claim fl claim_id citation_id quote_text excerpt_text similarity_threshold =
     (let absent = \<lparr>qv_claim_id = claim_id, qv_citation_id = citation_id,
                    qv_status = QuotationAbsentFromCheckedExcerpt, qv_matched_text = None\<rparr>
      in case excerpt_text of
           None \<Rightarrow> absent
         | Some text \<Rightarrow>
             (let quote = normalize_quotation_text quote_text;
                  excerpt = normalize_quotation_text text
              in if quote \<noteq> [] \<and> find_from quote excerpt 0 \<noteq> None then
                   \<lparr>qv_claim_id = claim_id, qv_citation_id = citation_id,
                    qv_status = QuotationVerbatim, qv_matched_text = Some quote\<rparr>
                 else
                   (let window_length = length (words quote);
                        best = (if 0 < window_length \<and> words excerpt \<noteq> []
                                then best_window fl quote (quotation_windows window_length (words excerpt)) (0, [])
                                else (0, []))
                    in if fst best \<ge> similarity_threshold then
                         \<lparr>qv_claim_id = claim_id, qv_citation_id = citation_id,
                          qv_status = QuotationAltered, qv_matched_text = Some (snd best)\<rparr>
                       else absent)))"

section \<open>The report\<close>

record exclusion_verdict =
  ev_claim_id :: string
  ev_citation_id :: string
  ev_exclusion_reason :: string

definition build_exclusion_verdict :: "string \<Rightarrow> string \<Rightarrow> string \<Rightarrow> exclusion_verdict" where
  "build_exclusion_verdict claim_id citation_id exclusion_reason =
     \<lparr>ev_claim_id = claim_id, ev_citation_id = citation_id, ev_exclusion_reason = exclusion_reason\<rparr>"

record support_audit_counts =
  n_figure_supported_in_excerpt :: nat
  n_figure_absent_from_checked_excerpt :: nat
  n_quotation_verbatim :: nat
  n_quotation_absent_from_checked_excerpt :: nat
  n_quotation_altered :: nat
  n_claim_excluded :: nat
  n_total :: nat
  n_violations :: nat
  n_observations :: nat

record support_audit_report =
  sr_batch_id :: string
  sr_audit_target :: string
  sr_threshold :: rat
  sr_figures :: "figure_verdict list"
  sr_quotations :: "quotation_verdict list"
  sr_exclusions :: "exclusion_verdict list"
  sr_counts :: support_audit_counts

definition count_of :: "('a \<Rightarrow> bool) \<Rightarrow> 'a list \<Rightarrow> nat" where
  "count_of P xs = length (filter P xs)"

definition build_support_audit_report ::
  "string \<Rightarrow> string \<Rightarrow> rat \<Rightarrow> figure_verdict list \<Rightarrow> quotation_verdict list \<Rightarrow> exclusion_verdict list \<Rightarrow>
   support_audit_report" where
  "build_support_audit_report batch_id audit_target threshold figure_verdicts quotation_verdicts exclusion_verdicts =
     (let ordered_figures = sort_key fv_claim_id figure_verdicts;
          ordered_quotations = sort_key qv_claim_id quotation_verdicts;
          ordered_exclusions = sort_key ev_claim_id exclusion_verdicts;
          figure_absent = count_of (\<lambda>v. fv_status v = FigureAbsentFromCheckedExcerpt) ordered_figures;
          altered = count_of (\<lambda>v. qv_status v = QuotationAltered) ordered_quotations;
          absent = count_of (\<lambda>v. qv_status v = QuotationAbsentFromCheckedExcerpt) ordered_quotations
      in \<lparr>sr_batch_id = batch_id, sr_audit_target = audit_target, sr_threshold = threshold,
          sr_figures = ordered_figures, sr_quotations = ordered_quotations,
          sr_exclusions = ordered_exclusions,
          sr_counts =
            \<lparr>n_figure_supported_in_excerpt =
               count_of (\<lambda>v. fv_status v = FigureSupportedInExcerpt) ordered_figures,
             n_figure_absent_from_checked_excerpt = figure_absent,
             n_quotation_verbatim = count_of (\<lambda>v. qv_status v = QuotationVerbatim) ordered_quotations,
             n_quotation_absent_from_checked_excerpt = absent,
             n_quotation_altered = altered,
             n_claim_excluded = length ordered_exclusions,
             n_total = length ordered_figures + length ordered_quotations + length ordered_exclusions,
             n_violations = altered,
             n_observations = figure_absent + absent\<rparr>\<rparr>)"

text \<open>
  \<^verbatim>\<open>SupportAuditService.build_report\<close> after the two inputs are read and hashed. What it
  parses them to comes as an argument, \<open>parsed\<close>, and is looked at only behind the gate.
\<close>

record figure_claim =
  fc_claim_id :: string
  fc_citation_id :: string
  fc_tokens :: "string list"
  fc_anchor_terms :: "string list"

record quotation_claim =
  qc_claim_id :: string
  qc_citation_id :: string
  qc_text :: string

record exclusion_claim =
  xc_claim_id :: string
  xc_citation_id :: string
  xc_exclusion_reason :: string

record parsed_inputs =
  pi_anchor_window_chars :: int
  pi_threshold :: rat
  pi_figures :: "figure_claim list"
  pi_quotations :: "quotation_claim list"
  pi_exclusions :: "exclusion_claim list"
  pi_excerpts :: "string \<rightharpoonup> string option"

definition resolve_excerpt ::
  "string \<Rightarrow> (string \<rightharpoonup> string option) \<Rightarrow> support_audit_error + string option" where
  "resolve_excerpt citation_id excerpt_by_citation =
     (case excerpt_by_citation citation_id of
        None \<Rightarrow> Inl (SupportAuditInputError citation_id)
      | Some e \<Rightarrow> Inr e)"

fun evaluate_all ::
  "('c \<Rightarrow> string) \<Rightarrow> ('c \<Rightarrow> string option \<Rightarrow> 'v) \<Rightarrow> (string \<rightharpoonup> string option) \<Rightarrow> 'c list \<Rightarrow>
   support_audit_error + 'v list" where
  "evaluate_all citation evaluate excerpts [] = Inr []"
| "evaluate_all citation evaluate excerpts (c # cs) =
     (case resolve_excerpt (citation c) excerpts of
        Inl e \<Rightarrow> Inl e
      | Inr excerpt \<Rightarrow>
          (case evaluate_all citation evaluate excerpts cs of
             Inl e \<Rightarrow> Inl e
           | Inr vs \<Rightarrow> Inr (evaluate c excerpt # vs)))"

definition audit_parsed ::
  "string \<Rightarrow> (rat \<Rightarrow> rat) \<Rightarrow> support_batch \<Rightarrow> parsed_inputs \<Rightarrow> support_audit_error + support_audit_report" where
  "audit_parsed dots fl batch p =
     (case evaluate_all fc_citation_id
             (\<lambda>c excerpt. evaluate_figure_claim dots (fc_claim_id c) (fc_citation_id c) (fc_tokens c)
                (fc_anchor_terms c) (pi_anchor_window_chars p) excerpt)
             (pi_excerpts p) (pi_figures p) of
        Inl e \<Rightarrow> Inl e
      | Inr figures \<Rightarrow>
          (case evaluate_all qc_citation_id
                  (\<lambda>c excerpt. evaluate_quotation_claim fl (qc_claim_id c) (qc_citation_id c) (qc_text c)
                     excerpt (pi_threshold p))
                  (pi_excerpts p) (pi_quotations p) of
             Inl e \<Rightarrow> Inl e
           | Inr quotations \<Rightarrow>
               Inr (build_support_audit_report (sb_batch_id batch) (sb_audit_target batch) (pi_threshold p)
                      figures quotations
                      (map (\<lambda>c. build_exclusion_verdict (xc_claim_id c) (xc_citation_id c) (xc_exclusion_reason c))
                         (pi_exclusions p)))))"

definition hash_bytes :: "bytes \<Rightarrow> string" where
  "hash_bytes raw = ''sha256:'' @ hexdigest (sha256 raw)"

text \<open>
  The loop that reads and hashes the inputs; \<open>read_input\<close> gives the bytes of a file, or \<open>None\<close>
  where there is no such file or it is not UTF-8.
\<close>

fun gate_inputs ::
  "(string \<rightharpoonup> bytes) \<Rightarrow> batch_input_declaration list \<Rightarrow> support_audit_error + anchor_check_result list" where
  "gate_inputs read_input [] = Inr []"
| "gate_inputs read_input (d # ds) =
     (case read_input (bi_path d) of
        None \<Rightarrow> Inl (SupportAuditInputError (bi_path d))
      | Some raw \<Rightarrow>
          (case gate_inputs read_input ds of
             Inl e \<Rightarrow> Inl e
           | Inr rs \<Rightarrow> Inr (check_anchor (bi_role d) (bi_path d) (bi_declared_sha256 d) (hash_bytes raw) # rs)))"

definition build_report ::
  "string \<Rightarrow> (rat \<Rightarrow> rat) \<Rightarrow> (string \<rightharpoonup> bytes) \<Rightarrow>
   (bytes \<Rightarrow> bytes \<Rightarrow> support_audit_error + parsed_inputs) \<Rightarrow> support_batch \<Rightarrow>
   support_audit_error + support_audit_report" where
  "build_report dots fl read_input parsed batch =
     (case gate_inputs read_input (batch_inputs batch) of
        Inl e \<Rightarrow> Inl e
      | Inr gate_results \<Rightarrow>
          (case check_and_gate gate_results of
             Inl e \<Rightarrow> Inl e
           | Inr _ \<Rightarrow>
               (case parsed (the (read_input (bi_path (sb_claims_manifest batch))))
                            (the (read_input (bi_path (sb_content_snapshot batch)))) of
                  Inl e \<Rightarrow> Inl e
                | Inr p \<Rightarrow> audit_parsed dots fl batch p)))"

section \<open>What a quotation's verdict means\<close>

lemma Max_insert_max: "finite S \<Longrightarrow> Max (insert (max a b) S) = Max (insert a (insert (b :: 'a :: linorder) S))"
  by (cases "S = {}") (simp_all add: max.assoc)

lemma best_window_props:
  "fst (best_window fl q ws b) = Max (insert (fst b) (set (map (seq_ratio fl q) ws))) \<and>
   (best_window fl q ws b = b \<or>
      (snd (best_window fl q ws b) \<in> set ws \<and>
       fst (best_window fl q ws b) = seq_ratio fl q (snd (best_window fl q ws b))))"
proof (induction ws arbitrary: b)
  case (Cons w ws)
  let ?r = "seq_ratio fl q w"
  let ?b = "if ?r > fst b then (?r, w) else b"
  have step: "best_window fl q (w # ws) b = best_window fl q ws ?b" by (simp add: Let_def)
  have "fst (best_window fl q ws ?b) = Max (insert (fst ?b) (set (map (seq_ratio fl q) ws)))"
    using Cons.IH [of ?b] ..
  also have "\<dots> = Max (insert (fst b) (set (map (seq_ratio fl q) (w # ws))))"
  proof -
    have "fst ?b = max (fst b) ?r" by (simp add: max_def)
    then show ?thesis using Max_insert_max [of "set (map (seq_ratio fl q) ws)" "fst b" ?r] by simp
  qed
  finally have "fst (best_window fl q ws ?b) = Max (insert (fst b) (set (map (seq_ratio fl q) (w # ws))))" .
  moreover have "best_window fl q ws ?b = b \<or> (snd (best_window fl q ws ?b) \<in> set (w # ws) \<and>
      fst (best_window fl q ws ?b) = seq_ratio fl q (snd (best_window fl q ws ?b)))"
    using Cons.IH [of ?b] by (cases "?r > fst b") auto
  ultimately show ?case unfolding step by blast
qed simp

lemma find_from_exists: "find_from t s 0 \<noteq> None \<longleftrightarrow> (\<exists>i. occurs_at t s i)"
proof
  assume "find_from t s 0 \<noteq> None"
  then obtain k where "find_from t s 0 = Some k" by blast
  then show "\<exists>i. occurs_at t s i" unfolding find_from_Some by blast
next
  assume ex: "\<exists>i. occurs_at t s i"
  define k where "k = (LEAST i. occurs_at t s i)"
  from LeastI_ex [OF ex] have "occurs_at t s k" unfolding k_def .
  moreover have "\<not> occurs_at t s j" if "j < k" for j
    using not_less_Least [OF that [unfolded k_def]] .
  ultimately have "find_from t s 0 = Some k" unfolding find_from_Some by blast
  then show "find_from t s 0 \<noteq> None" by simp
qed

text \<open>The windows a quotation is compared with: none without words on either side.\<close>

definition windows_of :: "string \<Rightarrow> string \<Rightarrow> string list" where
  "windows_of quote excerpt =
     (if words quote = [] \<or> words excerpt = [] then []
      else quotation_windows (length (words quote)) (words excerpt))"

text \<open>
  What the verdict on a quotation means, for a positive threshold, where quote and excerpt are
  both in lower case with single spaces. It is verbatim exactly when the quote is not empty
  and occurs in the excerpt. Otherwise it is altered exactly when some window of the excerpt with
  as many words as the quote is similar to it by at least the threshold, and the text then shown
  is a window of the greatest similarity. Otherwise, and without an excerpt, it is absent and no
  text is shown.
\<close>

lemma quotation_verdict_exact:
  fixes fl threshold excerpt quote claim citation
  defines "v \<equiv> evaluate_quotation_claim fl claim citation quote excerpt threshold"
    and "q \<equiv> normalize_quotation_text quote"
  assumes "0 < threshold"
  shows "case excerpt of
      None \<Rightarrow> qv_status v = QuotationAbsentFromCheckedExcerpt \<and> qv_matched_text v = None
    | Some s \<Rightarrow>
       (let x = normalize_quotation_text s in
        if q \<noteq> [] \<and> (\<exists>i. occurs_at q x i) then qv_status v = QuotationVerbatim \<and> qv_matched_text v = Some q
        else if \<exists>w \<in> set (windows_of q x). threshold \<le> seq_ratio fl q w then
          qv_status v = QuotationAltered \<and>
          (\<exists>w \<in> set (windows_of q x). qv_matched_text v = Some w \<and> threshold \<le> seq_ratio fl q w \<and>
             (\<forall>w' \<in> set (windows_of q x). seq_ratio fl q w' \<le> seq_ratio fl q w))
        else qv_status v = QuotationAbsentFromCheckedExcerpt \<and> qv_matched_text v = None)"
proof (cases excerpt)
  case None
  then show ?thesis by (simp add: v_def evaluate_quotation_claim_def)
next
  case (Some s)
  let ?x = "normalize_quotation_text s"
  let ?W = "windows_of q ?x"
  let ?b = "best_window fl q ?W (0, [])"
  have best: "(if 0 < length (words q) \<and> words ?x \<noteq> []
      then best_window fl q (quotation_windows (length (words q)) (words ?x)) (0, []) else (0, [])) = ?b"
    by (simp add: windows_of_def)
  have v: "v = (if q \<noteq> [] \<and> (\<exists>i. occurs_at q ?x i)
      then \<lparr>qv_claim_id = claim, qv_citation_id = citation, qv_status = QuotationVerbatim, qv_matched_text = Some q\<rparr>
      else if threshold \<le> fst ?b
      then \<lparr>qv_claim_id = claim, qv_citation_id = citation, qv_status = QuotationAltered, qv_matched_text = Some (snd ?b)\<rparr>
      else \<lparr>qv_claim_id = claim, qv_citation_id = citation,
             qv_status = QuotationAbsentFromCheckedExcerpt, qv_matched_text = None\<rparr>)"
    unfolding v_def evaluate_quotation_claim_def Some Let_def option.case q_def [symmetric] best find_from_exists ..
  note b = best_window_props [of fl q ?W "(0, [])"]
  have fin: "finite (set (map (seq_ratio fl q) ?W))" by simp
  have thr: "threshold \<le> fst ?b \<longleftrightarrow> (\<exists>w \<in> set ?W. threshold \<le> seq_ratio fl q w)"
    using b assms(3) by (auto simp: Max_ge_iff)
  have ge: "seq_ratio fl q w \<le> fst ?b" if "w \<in> set ?W" for w
    using b that by (auto intro: Max_ge)
  have win: "snd ?b \<in> set ?W \<and> fst ?b = seq_ratio fl q (snd ?b)" if "threshold \<le> fst ?b"
    using b that assms(3) by (metis fst_conv not_less)
  show ?thesis
  proof (cases "q \<noteq> [] \<and> (\<exists>i. occurs_at q ?x i)")
    case True
    then show ?thesis unfolding Some option.case Let_def v by simp
  next
    case verb: False
    show ?thesis
    proof (cases "threshold \<le> fst ?b")
      case True
      then have "qv_status v = QuotationAltered \<and> qv_matched_text v = Some (snd ?b)"
        unfolding v if_not_P [OF verb] by simp
      moreover have "\<exists>w \<in> set ?W. Some (snd ?b) = Some w \<and> threshold \<le> seq_ratio fl q w \<and>
          (\<forall>w' \<in> set ?W. seq_ratio fl q w' \<le> seq_ratio fl q w)"
        using win [OF True] ge True by (intro bexI [of _ "snd ?b"]) simp_all
      ultimately show ?thesis
        unfolding Some option.case Let_def if_not_P [OF verb] if_P [OF True [unfolded thr]] by simp
    next
      case False
      then show ?thesis
        unfolding Some option.case Let_def if_not_P [OF verb] if_not_P [OF False [unfolded thr]] v by simp
    qed
  qed
qed

lemma quotation_verdict_exact_witness:
  "qv_status (evaluate_quotation_claim (\<lambda>x. x) ''c1'' ''s1'' ''ab  cd'' (Some ''x Ab cd'') (3 / 4))
     = QuotationVerbatim \<and>
   (\<exists>w \<in> set (windows_of ''ab cd'' ''x ab ce'').
      qv_matched_text (evaluate_quotation_claim (\<lambda>x. x) ''c1'' ''s1'' ''ab  cd'' (Some ''x Ab  ce'') (3 / 4))
        = Some w \<and> 3 / 4 \<le> seq_ratio (\<lambda>x. x) ''ab cd'' w) \<and>
   qv_status (evaluate_quotation_claim (\<lambda>x. x) ''c1'' ''s1'' ''ab  cd'' (Some ''x'') (3 / 4))
     = QuotationAbsentFromCheckedExcerpt"
proof -
  have n: "normalize_quotation_text ''ab  cd'' = ''ab cd''"
    "normalize_quotation_text ''x Ab  ce'' = ''x ab ce''" by code_simp+
  have v: "qv_status (evaluate_quotation_claim (\<lambda>x. x) ''c1'' ''s1'' ''ab  cd'' (Some ''x Ab cd'') (3 / 4))
      = QuotationVerbatim"
    and a: "qv_status (evaluate_quotation_claim (\<lambda>x. x) ''c1'' ''s1'' ''ab  cd'' (Some ''x Ab  ce'') (3 / 4))
      = QuotationAltered"
    and d: "qv_status (evaluate_quotation_claim (\<lambda>x. x) ''c1'' ''s1'' ''ab  cd'' (Some ''x'') (3 / 4))
      = QuotationAbsentFromCheckedExcerpt"
    by code_simp+
  have pos: "0 < (3 / 4 :: rat)" by simp
  from quotation_verdict_exact [OF pos, where excerpt = "Some ''x Ab  ce''" and fl = "\<lambda>x. x" and claim = "''c1''" and citation = "''s1''"
      and quote = "''ab  cd''"]
  have "\<exists>w \<in> set (windows_of ''ab cd'' ''x ab ce'').
      qv_matched_text (evaluate_quotation_claim (\<lambda>x. x) ''c1'' ''s1'' ''ab  cd'' (Some ''x Ab  ce'') (3 / 4))
        = Some w \<and> 3 / 4 \<le> seq_ratio (\<lambda>x. x) ''ab cd'' w"
    unfolding option.case Let_def n a by (auto split: if_splits)
  with v d show ?thesis by blast
qed

section \<open>The report is complete and the gate comes first\<close>

lemma count_of_sort [simp]: "count_of P (sort_key f xs) = count_of P xs"
  unfolding count_of_def by (metis mset_filter mset_sort size_mset)

lemma evaluate_all_Inr:
  "evaluate_all citation evaluate excerpts cs = Inr vs \<Longrightarrow>
     list_all2 (\<lambda>c v. \<exists>x. excerpts (citation c) = Some x \<and> v = evaluate c x) cs vs"
  by (induction cs arbitrary: vs) (auto simp: resolve_excerpt_def split: option.splits sum.splits)

lemma count_figures:
  "count_of (\<lambda>v. fv_status v = FigureSupportedInExcerpt) vs + count_of (\<lambda>v. fv_status v = FigureAbsentFromCheckedExcerpt) vs = length vs"
proof (induction vs)
  case (Cons v vs)
  then show ?case by (cases "fv_status v") (simp_all add: count_of_def)
qed (simp add: count_of_def)

lemma count_quotations:
  "count_of (\<lambda>v. qv_status v = QuotationVerbatim) vs + count_of (\<lambda>v. qv_status v = QuotationAltered) vs +
   count_of (\<lambda>v. qv_status v = QuotationAbsentFromCheckedExcerpt) vs = length vs"
proof (induction vs)
  case (Cons v vs)
  then show ?case by (cases "qv_status v") (simp_all add: count_of_def)
qed (simp add: count_of_def)

text \<open>
  The report accounts for every claim of the manifest: one verdict per figure, quotation and
  exclusion, each that of its claim on the excerpt of its citation (a claim whose citation has
  no entry fails the whole audit), sorted by claim id; the statuses add up to the total, and
  the only violations are altered quotations.
\<close>

lemma audit_report_complete:
  assumes "audit_parsed dots fl batch p = Inr r"
  shows "(\<exists>fs qs. list_all2 (\<lambda>c v. \<exists>x. pi_excerpts p (fc_citation_id c) = Some x \<and>
              v = evaluate_figure_claim dots (fc_claim_id c) (fc_citation_id c) (fc_tokens c)
                    (fc_anchor_terms c) (pi_anchor_window_chars p) x) (pi_figures p) fs \<and>
            list_all2 (\<lambda>c v. \<exists>x. pi_excerpts p (qc_citation_id c) = Some x \<and>
              v = evaluate_quotation_claim fl (qc_claim_id c) (qc_citation_id c) (qc_text c) x (pi_threshold p))
              (pi_quotations p) qs \<and>
            mset (sr_figures r) = mset fs \<and> mset (sr_quotations r) = mset qs) \<and>
     sorted (map fv_claim_id (sr_figures r)) \<and> sorted (map qv_claim_id (sr_quotations r)) \<and>
     n_total (sr_counts r) = length (pi_figures p) + length (pi_quotations p) + length (pi_exclusions p) \<and>
     n_total (sr_counts r) = n_figure_supported_in_excerpt (sr_counts r) + n_quotation_verbatim (sr_counts r) +
       n_claim_excluded (sr_counts r) + n_violations (sr_counts r) + n_observations (sr_counts r) \<and>
     n_violations (sr_counts r) = count_of (\<lambda>v. qv_status v = QuotationAltered) (sr_quotations r)"
proof -
  from assms obtain fs qs where
    f: "evaluate_all fc_citation_id (\<lambda>c excerpt. evaluate_figure_claim dots (fc_claim_id c) (fc_citation_id c)
          (fc_tokens c) (fc_anchor_terms c) (pi_anchor_window_chars p) excerpt) (pi_excerpts p) (pi_figures p) = Inr fs"
    and q: "evaluate_all qc_citation_id (\<lambda>c excerpt. evaluate_quotation_claim fl (qc_claim_id c) (qc_citation_id c)
          (qc_text c) excerpt (pi_threshold p)) (pi_excerpts p) (pi_quotations p) = Inr qs"
    and r: "r = build_support_audit_report (sb_batch_id batch) (sb_audit_target batch) (pi_threshold p) fs qs
          (map (\<lambda>c. build_exclusion_verdict (xc_claim_id c) (xc_citation_id c) (xc_exclusion_reason c)) (pi_exclusions p))"
    unfolding audit_parsed_def by (auto split: sum.splits)
  note f2 = evaluate_all_Inr [OF f] and q2 = evaluate_all_Inr [OF q]
  note l = list_all2_lengthD [OF f2] list_all2_lengthD [OF q2]
  have "n_total (sr_counts r) = n_figure_supported_in_excerpt (sr_counts r) + n_quotation_verbatim (sr_counts r) +
       n_claim_excluded (sr_counts r) + n_violations (sr_counts r) + n_observations (sr_counts r)"
    using count_figures [of fs] count_quotations [of qs] by (simp add: r build_support_audit_report_def Let_def)
  moreover have "n_total (sr_counts r) = length (pi_figures p) + length (pi_quotations p) + length (pi_exclusions p)"
    using l by (simp add: r build_support_audit_report_def Let_def)
  moreover have "mset (sr_figures r) = mset fs \<and> mset (sr_quotations r) = mset qs \<and>
      sorted (map fv_claim_id (sr_figures r)) \<and> sorted (map qv_claim_id (sr_quotations r)) \<and>
      n_violations (sr_counts r) = count_of (\<lambda>v. qv_status v = QuotationAltered) (sr_quotations r)"
    by (simp add: r build_support_audit_report_def Let_def)
  ultimately show ?thesis using f2 q2 by blast
qed

lemma audit_report_complete_witness:
  "\<exists>r. audit_parsed ''...'' (\<lambda>x. x)
      \<lparr>sb_schema_version = ''1'', sb_batch_id = ''b1'', sb_audit_target = ''t'',
       sb_claims_manifest = \<lparr>bi_role = ClaimsManifest, bi_path = ''c'', bi_declared_sha256 = ''x''\<rparr>,
       sb_content_snapshot = \<lparr>bi_role = ContentSnapshot, bi_path = ''s'', bi_declared_sha256 = ''y''\<rparr>\<rparr>
      \<lparr>pi_anchor_window_chars = 10, pi_threshold = 1 / 2,
       pi_figures = [\<lparr>fc_claim_id = ''c2'', fc_citation_id = ''s1'', fc_tokens = [''7''], fc_anchor_terms = [''n'']\<rparr>,
                     \<lparr>fc_claim_id = ''c1'', fc_citation_id = ''s2'', fc_tokens = [''7''], fc_anchor_terms = [''n'']\<rparr>],
       pi_quotations = [], pi_exclusions = [\<lparr>xc_claim_id = ''c3'', xc_citation_id = ''s1'', xc_exclusion_reason = ''refuted''\<rparr>],
       pi_excerpts = [''s1'' \<mapsto> Some ''n = 7'', ''s2'' \<mapsto> None]\<rparr> = Inr r \<and>
     map fv_claim_id (sr_figures r) = [''c1'', ''c2''] \<and> n_total (sr_counts r) = 3 \<and> n_observations (sr_counts r) = 1"
proof -
  define batch where "batch = \<lparr>sb_schema_version = ''1'', sb_batch_id = ''b1'', sb_audit_target = ''t'',
       sb_claims_manifest = \<lparr>bi_role = ClaimsManifest, bi_path = ''c'', bi_declared_sha256 = ''x''\<rparr>,
       sb_content_snapshot = \<lparr>bi_role = ContentSnapshot, bi_path = ''s'', bi_declared_sha256 = ''y''\<rparr>\<rparr>"
  define p where "p = \<lparr>pi_anchor_window_chars = 10, pi_threshold = 1 / 2,
       pi_figures = [\<lparr>fc_claim_id = ''c2'', fc_citation_id = ''s1'', fc_tokens = [''7''], fc_anchor_terms = [''n'']\<rparr>,
                     \<lparr>fc_claim_id = ''c1'', fc_citation_id = ''s2'', fc_tokens = [''7''], fc_anchor_terms = [''n'']\<rparr>],
       pi_quotations = [], pi_exclusions = [\<lparr>xc_claim_id = ''c3'', xc_citation_id = ''s1'', xc_exclusion_reason = ''refuted''\<rparr>],
       pi_excerpts = [''s1'' \<mapsto> Some ''n = 7'', ''s2'' \<mapsto> None]\<rparr>"
  have f: "fv_status (evaluate_figure_claim ''...'' ''c2'' ''s1'' [''7''] [''n''] 10 (Some ''n = 7'')) = FigureSupportedInExcerpt"
    by code_simp
  have "evaluate_figure_claim ''...'' ''c1'' ''s2'' [''7''] [''n''] 10 None =
      \<lparr>fv_claim_id = ''c1'', fv_citation_id = ''s2'', fv_status = FigureAbsentFromCheckedExcerpt, fv_matched_windows = []\<rparr>"
    by (simp add: evaluate_figure_claim_def)
  note g = this
  have c: "fv_claim_id (evaluate_figure_claim ''...'' ''c2'' ''s1'' [''7''] [''n''] 10 (Some ''n = 7'')) = ''c2''"
    by code_simp
  define r where "r = build_support_audit_report ''b1'' ''t'' (1 / 2)
      [evaluate_figure_claim ''...'' ''c2'' ''s1'' [''7''] [''n''] 10 (Some ''n = 7''),
       evaluate_figure_claim ''...'' ''c1'' ''s2'' [''7''] [''n''] 10 None] []
      [build_exclusion_verdict ''c3'' ''s1'' ''refuted'']"
  have a: "audit_parsed ''...'' (\<lambda>x. x) batch p = Inr r"
    by (simp add: audit_parsed_def p_def batch_def resolve_excerpt_def r_def)
  have "mset (map fv_claim_id (sr_figures r)) = mset [''c1'', ''c2''] \<and> n_observations (sr_counts r) = 1"
    using f c by (simp add: r_def build_support_audit_report_def Let_def g count_of_def)
  moreover from audit_report_complete [OF a] have "sorted (map fv_claim_id (sr_figures r)) \<and> n_total (sr_counts r) = 3"
    by (simp add: p_def)
  ultimately have m: "mset (map fv_claim_id (sr_figures r)) = mset [''c1'', ''c2'']" "sorted (map fv_claim_id (sr_figures r))"
    and n: "n_total (sr_counts r) = 3" "n_observations (sr_counts r) = 1" by blast+
  have "map fv_claim_id (sr_figures r) = sort [''c1'', ''c2'']"
    using properties_for_sort [OF m] by (rule sym)
  also have "\<dots> = [''c1'', ''c2'']" by code_simp
  finally have "map fv_claim_id (sr_figures r) = [''c1'', ''c2'']" .
  with n a show ?thesis unfolding batch_def p_def by (intro exI [of _ r] conjI)
qed

lemma first_mismatch_exact:
  "first_mismatch rs = Inr () \<longleftrightarrow> (\<forall>r \<in> set rs. ac_ok r)"
  by (induction rs) auto

lemma gate_inputs_Inr:
  "gate_inputs read ds = Inr rs \<Longrightarrow> (\<forall>d \<in> set ds. \<exists>raw. read (bi_path d) = Some raw) \<and>
     rs = map (\<lambda>d. check_anchor (bi_role d) (bi_path d) (bi_declared_sha256 d) (hash_bytes (the (read (bi_path d))))) ds"
  by (induction ds arbitrary: rs) (auto split: option.splits sum.splits)

lemma gate_inputs_Some:
  "\<forall>d \<in> set ds. read (bi_path d) \<noteq> None \<Longrightarrow> \<exists>rs. gate_inputs read ds = Inr rs"
  by (induction ds) (auto split: option.splits sum.splits)

text \<open>
  The gate comes first and fails closed. When both declared inputs can be read and have the
  declared hashes, the audit is that of their parsed contents. Otherwise it ends with an error
  that does not depend on what parsing them would give.
\<close>

lemma gate_before_parse:
  "if \<forall>d \<in> {sb_claims_manifest batch, sb_content_snapshot batch}.
        \<exists>raw. read (bi_path d) = Some raw \<and> hash_bytes raw = bi_declared_sha256 d
   then build_report dots fl read parsed batch =
     (case parsed (the (read (bi_path (sb_claims_manifest batch)))) (the (read (bi_path (sb_content_snapshot batch)))) of
        Inl e \<Rightarrow> Inl e
      | Inr p \<Rightarrow> audit_parsed dots fl batch p)
   else \<exists>e. \<forall>parsed. build_report dots fl read parsed batch = Inl e"
proof -
  let ?ds = "batch_inputs batch"
  let ?ok = "\<lambda>d. \<exists>raw. read (bi_path d) = Some raw \<and> hash_bytes raw = bi_declared_sha256 d"
  have ds: "set ?ds = {sb_claims_manifest batch, sb_content_snapshot batch}" by (auto simp: batch_inputs_def)
  show ?thesis
  proof (cases "gate_inputs read ?ds")
    case (Inl e)
    then have "\<not> (\<forall>d \<in> set ?ds. read (bi_path d) \<noteq> None)"
      using gate_inputs_Some [of ?ds read] by (metis sum.distinct(1))
    then have n: "\<not> (\<forall>d \<in> set ?ds. ?ok d)" by (metis option.distinct(1))
    show ?thesis unfolding ds [symmetric] if_not_P [OF n] build_report_def Inl sum.case by blast
  next
    case (Inr rs)
    from gate_inputs_Inr [OF Inr] have
      some: "\<forall>d \<in> set ?ds. \<exists>raw. read (bi_path d) = Some raw" and
      rs: "rs = map (\<lambda>d. check_anchor (bi_role d) (bi_path d) (bi_declared_sha256 d) (hash_bytes (the (read (bi_path d))))) ?ds"
      by blast+
    have ok: "(check_and_gate rs = Inr ()) \<longleftrightarrow> (\<forall>d \<in> set ?ds. ?ok d)"
      using some by (fastforce simp: check_and_gate_def first_mismatch_exact rs check_anchor_def)
    show ?thesis
    proof (cases "check_and_gate rs")
      case (Inl e)
      with ok have n: "\<not> (\<forall>d \<in> set ?ds. ?ok d)" by simp
      show ?thesis unfolding ds [symmetric] if_not_P [OF n] build_report_def Inr sum.case Inl by blast
    next
      case (Inr u)
      with ok have n: "\<forall>d \<in> set ?ds. ?ok d" by simp
      show ?thesis
        unfolding ds [symmetric] if_P [OF n] build_report_def \<open>gate_inputs read ?ds = Inr rs\<close> sum.case Inr ..
    qed
  qed
qed

lemma gate_before_parse_witness:
  "build_report ''...'' (\<lambda>x. x) [''c'' \<mapsto> ''{}'', ''s'' \<mapsto> []] (\<lambda>c s. Inl (SupportAuditInputError ''not JSON''))
     \<lparr>sb_schema_version = ''1'', sb_batch_id = ''b1'', sb_audit_target = ''t'',
      sb_claims_manifest = \<lparr>bi_role = ClaimsManifest, bi_path = ''c'', bi_declared_sha256 = hash_bytes ''{}''\<rparr>,
      sb_content_snapshot = \<lparr>bi_role = ContentSnapshot, bi_path = ''s'', bi_declared_sha256 = hash_bytes []\<rparr>\<rparr>
     = Inl (SupportAuditInputError ''not JSON'') \<and>
   (\<exists>e. \<forall>parsed. build_report ''...'' (\<lambda>x. x) [''c'' \<mapsto> ''{}'', ''s'' \<mapsto> []] parsed
     \<lparr>sb_schema_version = ''1'', sb_batch_id = ''b1'', sb_audit_target = ''t'',
      sb_claims_manifest = \<lparr>bi_role = ClaimsManifest, bi_path = ''c'', bi_declared_sha256 = ''x''\<rparr>,
      sb_content_snapshot = \<lparr>bi_role = ContentSnapshot, bi_path = ''s'', bi_declared_sha256 = hash_bytes []\<rparr>\<rparr>
     = Inl e)"
proof -
  have x: "hash_bytes ''{}'' \<noteq> ''x''" by (simp add: hash_bytes_def)
  let ?batch = "\<lambda>h. \<lparr>sb_schema_version = ''1'', sb_batch_id = ''b1'', sb_audit_target = ''t'',
      sb_claims_manifest = \<lparr>bi_role = ClaimsManifest, bi_path = ''c'', bi_declared_sha256 = h\<rparr>,
      sb_content_snapshot = \<lparr>bi_role = ContentSnapshot, bi_path = ''s'', bi_declared_sha256 = hash_bytes []\<rparr>\<rparr>"
  let ?read = "[''c'' \<mapsto> ''{}'', ''s'' \<mapsto> []]"
  from gate_before_parse [of "?batch (hash_bytes ''{}'')" ?read "''...''" "\<lambda>x. x" "\<lambda>c s. Inl (SupportAuditInputError ''not JSON'')"]
    gate_before_parse [of "?batch ''x''" ?read "''...''" "\<lambda>x. x"] x
  show ?thesis by simp
qed

end
