(* ===== verification/Iso_Time.thy ===== *)
theory Iso_Time
  imports MRR_Prelude
begin

text \<open>
  \<^verbatim>\<open>datetime.fromisoformat\<close> of Python's library on the format the stored bodies have: the one
  \<^verbatim>\<open>isoformat\<close> and pydantic write, \<^verbatim>\<open>YYYY-MM-DDTHH:MM:SS\<close> with an optional fraction of six digits
  and \<^verbatim>\<open>Z\<close> or an offset \<^verbatim>\<open>+HH:MM\<close>. A string of another format, or one that names no date, raises
  \<^verbatim>\<open>ValueError\<close>; Python accepts some further formats, which no body of the program has.
\<close>

definition digit_value :: "char \<Rightarrow> nat option" where
  "digit_value c = (let n = of_char c :: nat in if 48 \<le> n \<and> n \<le> 57 then Some (n - 48) else None)"

fun digits_value :: "nat \<Rightarrow> string \<Rightarrow> nat option" where
  "digits_value acc [] = Some acc"
| "digits_value acc (c # cs) =
     (case digit_value c of None \<Rightarrow> None | Some d \<Rightarrow> digits_value (10 * acc + d) cs)"

text \<open>Exactly \<open>k\<close> digits.\<close>

definition read_num :: "nat \<Rightarrow> string \<Rightarrow> int option" where
  "read_num k s = (if length s = k then map_option int (digits_value 0 s) else None)"

definition days_of_civil :: "int \<Rightarrow> int \<Rightarrow> int \<Rightarrow> int" where
  "days_of_civil y m d =
     (let y' = (if m \<le> 2 then y - 1 else y);
          era = y' div 400;
          yoe = y' mod 400;
          mp = (if m > 2 then m - 3 else m + 9);
          doy = (153 * mp + 2) div 5 + d - 1;
          doe = yoe * 365 + yoe div 4 - yoe div 100 + doy
      in era * 146097 + doe - 719468)"

definition leap_year :: "int \<Rightarrow> bool" where
  "leap_year y \<longleftrightarrow> y mod 4 = 0 \<and> (y mod 100 \<noteq> 0 \<or> y mod 400 = 0)"

definition days_in_month :: "int \<Rightarrow> int \<Rightarrow> int" where
  "days_in_month y m =
     (if m = 2 then (if leap_year y then 29 else 28)
      else if m \<in> {4, 6, 9, 11} then 30 else 31)"

text \<open>The offset from UTC in microseconds.\<close>

definition read_zone :: "string \<Rightarrow> int option" where
  "read_zone z =
     (if z = ''Z'' then Some 0
      else if length z = 6 \<and> z ! 3 = CHR '':'' \<and> (hd z = CHR ''+'' \<or> hd z = CHR ''-'') then
        (case (read_num 2 (take 2 (drop 1 z)), read_num 2 (drop 4 z)) of
           (Some h, Some mi) \<Rightarrow>
             if h < 24 \<and> mi < 60
             then Some ((if hd z = CHR ''-'' then -1 else 1) * (h * 60 + mi) * 60000000) else None
         | _ \<Rightarrow> None)
      else None)"

definition read_date :: "string \<Rightarrow> int option" where
  "read_date s =
     (if length s = 10 \<and> s ! 4 = CHR ''-'' \<and> s ! 7 = CHR ''-'' then
        (case (read_num 4 (take 4 s), read_num 2 (take 2 (drop 5 s)), read_num 2 (drop 8 s)) of
           (Some y, Some m, Some d) \<Rightarrow>
             if 1 \<le> y \<and> 1 \<le> m \<and> m \<le> 12 \<and> 1 \<le> d \<and> d \<le> days_in_month y m
             then Some (days_of_civil y m d) else None
         | _ \<Rightarrow> None)
      else None)"

definition read_time :: "string \<Rightarrow> int option" where
  "read_time s =
     (if length s = 8 \<and> s ! 2 = CHR '':'' \<and> s ! 5 = CHR '':'' then
        (case (read_num 2 (take 2 s), read_num 2 (take 2 (drop 3 s)), read_num 2 (drop 6 s)) of
           (Some h, Some mi, Some sec) \<Rightarrow>
             if h < 24 \<and> mi < 60 \<and> sec < 60 then Some ((h * 60 + mi) * 60 + sec) else None
         | _ \<Rightarrow> None)
      else None)"

definition fromisoformat :: "string \<Rightarrow> instant outcome" where
  "fromisoformat s =
     (let rest = drop 19 s;
          fraction = (if take 1 rest = ''.'' then read_num 6 (take 6 (drop 1 rest)) else Some 0);
          zone = (if take 1 rest = ''.'' then drop 7 rest else rest)
      in case (read_date (take 10 s), read_time (take 8 (drop 11 s)), fraction, read_zone zone) of
           (Some day, Some sec, Some us, Some offset) \<Rightarrow>
             if take 1 (drop 10 s) = ''T'' then Inr (day * 86400000000 + sec * 1000000 + us - offset)
             else Inl ValueError
         | _ \<Rightarrow> Inl ValueError)"

lemma fromisoformat_samples:
  "fromisoformat ''2023-11-14T22:13:20+00:00'' = Inr 1700000000000000"
  "fromisoformat ''2023-11-14T22:13:20.000007Z'' = Inr 1700000000000007"
  "fromisoformat ''2024-02-29T00:00:00+02:00'' = Inr 1709157600000000"
  "fromisoformat ''2023-02-29T00:00:00Z'' = Inl ValueError"
  "isoformat 1709157600000000 = ''2024-02-28T22:00:00+00:00''"
  by code_simp+

end
