(* ===== verification/Release_Service.thy ===== *)
theory Release_Service
  imports Governed_Objects Iso_Time
begin

text \<open>
  The Release service, \<^verbatim>\<open>services/control_plane/mrr/services/release/\<close> (\<^verbatim>\<open>service.py\<close>,
  \<^verbatim>\<open>manifest.py\<close>, \<^verbatim>\<open>verify.py\<close>) with the release record of
  \<^verbatim>\<open>packages/contracts/mrr/contracts/release_record.py\<close> and the status banner of
  \<^verbatim>\<open>packages/domain/mrr/domain/release_status.py\<close>: a person approves a bundle of files, which
  becomes a release record; a record can be superseded by a released one; the banner tells
  whether later corrections touch what was released. A bundle directory is the list of its
  files with their contents.
\<close>

section \<open>Bundle manifests\<close>

record bundle_file_entry =
  bf_path :: string
  bf_sha256 :: string

record bundle_manifest =
  bm_files :: "bundle_file_entry list"
  bm_root_hash :: string

definition EXCLUDED_FILENAMES :: "string set" where
  "EXCLUDED_FILENAMES = {''release-manifest.json'', ''release-record.json''}"

definition compute_root_hash :: "(string \<times> string) list \<Rightarrow> string" where
  "compute_root_hash files =
     (let sorted_files = sort_key fst files;
          lines = concat (map (\<lambda>(path, sha). sha @ ''  '' @ path @ [newline]) sorted_files)
      in content_hash lines)"

definition file_pairs :: "bundle_file_entry list \<Rightarrow> (string \<times> string) list" where
  "file_pairs fs = map (\<lambda>f. (bf_path f, bf_sha256 f)) fs"

definition compute_bundle_manifest :: "(string \<times> bytes) list \<Rightarrow> bundle_manifest" where
  "compute_bundle_manifest dir =
     (let entries = map (\<lambda>(path, bytes). \<lparr>bf_path = path, bf_sha256 = content_hash bytes\<rparr>)
                      (filter (\<lambda>(path, bytes). path \<notin> EXCLUDED_FILENAMES) dir);
          sorted_entries = sort_key bf_path entries
      in \<lparr>bm_files = sorted_entries, bm_root_hash = compute_root_hash (file_pairs sorted_entries)\<rparr>)"

section \<open>Release records\<close>

definition is_person_urn :: "string \<Rightarrow> bool" where
  "is_person_urn s = (case urn_pattern_match s of None \<Rightarrow> False | Some (entity, _) \<Rightarrow> entity = ''person'')"

definition file_json :: "bundle_file_entry \<Rightarrow> json" where
  "file_json f = JObj [(''path'', JStr (bf_path f)), (''sha256'', JStr (bf_sha256 f))]"

definition bundle_json :: "bundle_file_entry list \<Rightarrow> string \<Rightarrow> json" where
  "bundle_json files root_hash =
     JObj [(''files'', JArr (map file_json files)), (''root_hash'', JStr root_hash)]"

definition approval_json :: "string \<Rightarrow> string \<Rightarrow> string \<Rightarrow> json" where
  "approval_json approved_by statement mode =
     JObj [(''approved_by'', JStr approved_by), (''approval_statement'', JStr statement),
           (''approval_mode'', JStr mode)]"

fun file_path :: "json \<Rightarrow> string outcome" where
  "file_path (JObj d) = dget_str d ''path''"
| "file_path _ = Inl TypeErr"

fun file_paths :: "json list \<Rightarrow> string list outcome" where
  "file_paths [] = Inr []"
| "file_paths (j # js) =
     (case file_path j of
        Inl e \<Rightarrow> Inl e
      | Inr p \<Rightarrow> (case file_paths js of Inl e \<Rightarrow> Inl e | Inr ps \<Rightarrow> Inr (p # ps)))"

text \<open>The paths \<^verbatim>\<open>body["bundle"]["files"]\<close> lists.\<close>

definition bundle_paths :: "dict \<Rightarrow> string list outcome" where
  "bundle_paths body =
     (case map_of body ''bundle'' of
        Some (JObj b) \<Rightarrow> (case map_of b ''files'' of Some (JArr js) \<Rightarrow> file_paths js | _ \<Rightarrow> Inl TypeErr)
      | _ \<Rightarrow> Inl TypeErr)"

text \<open>\<^verbatim>\<open>ReleaseRecord.model_validate\<close>: the field checks, then \<^verbatim>\<open>Bundle._files_sorted_and_unique\<close>.\<close>

definition files_sorted_and_unique :: "dict \<Rightarrow> bool" where
  "files_sorted_and_unique body =
     (case bundle_paths body of Inl _ \<Rightarrow> False | Inr paths \<Rightarrow> sorted paths \<and> distinct paths)"

definition release_model_validate :: "env \<Rightarrow> dict \<Rightarrow> unit outcome" where
  "release_model_validate E body =
     (if env_schema E ''ReleaseRecord'' body \<and> files_sorted_and_unique body then Inr ()
      else Inl PydanticValidationError)"

definition release_placeholder_hash :: string where
  "release_placeholder_hash = ''sha256:'' @ replicate 64 (CHR ''0'')"

definition release_dump ::
  "env \<Rightarrow> urn \<Rightarrow> urn \<Rightarrow> instant \<Rightarrow> string \<Rightarrow> string \<Rightarrow> urn \<Rightarrow> string \<Rightarrow> bundle_file_entry list \<Rightarrow> string \<Rightarrow>
   string \<Rightarrow> dict" where
  "release_dump E release_id practice_id t approved_by hash crate_id disclosure files root_hash statement =
     [(''id'', JStr release_id), (''api_version'', JStr ''mrr/v1alpha1''), (''kind'', JStr ''ReleaseRecord''),
      (''practice_id'', JStr practice_id), (''revision'', JInt 1), (''created_at'', JStr (env_json_time E t)),
      (''created_by'', JStr approved_by), (''content_hash'', JStr hash), (''crate_id'', JStr crate_id),
      (''disclosure'', JStr disclosure), (''bundle'', bundle_json files root_hash),
      (''approval'', approval_json approved_by statement ''single_human''), (''status'', JStr ''released'')]"

section \<open>The service\<close>

definition release_ctx :: "string \<Rightarrow> string \<Rightarrow> urn \<Rightarrow> call_ctx" where
  "release_ctx approved_by policy_version correlation_id =
     \<lparr>cx_actor = approved_by, cx_policy_version = policy_version, cx_correlation_id = correlation_id\<rparr>"

text \<open>The draft is validated with the placeholder hash; its copy with the real hash is stored.\<close>

definition release_create ::
  "env \<Rightarrow> urn \<Rightarrow> string \<Rightarrow> bundle_manifest \<Rightarrow> string \<Rightarrow> string \<Rightarrow> string \<Rightarrow> string \<Rightarrow> urn \<Rightarrow>
   (world, stored_object) prog" where
  "release_create E crate_id disclosure bundle approved_by approval_statement approval_mode
     policy_version correlation_id =
     bindp (guardp (is_person_urn approved_by) (NonPersonApproverError approved_by)) (\<lambda>_.
     bindp (guardp (non_empty approval_statement) EmptyApprovalStatementError) (\<lambda>_.
     bindp (guardp (approval_mode = ''single_human'') (DualApprovalNotSupportedError approval_mode)) (\<lambda>_.
     bindp (get_latest crate_id) (\<lambda>crate.
     bindp (guardp (so_kind crate = ''EvidenceCrate'') (ReleaseCrateKindError crate_id (so_kind crate))) (\<lambda>_.
     let recomputed = compute_root_hash (file_pairs (bm_files bundle)) in
     bindp (guardp (recomputed = bm_root_hash bundle)
       (BundleRootHashMismatchError (bm_root_hash bundle) recomputed)) (\<lambda>_.
     bindp (now E) (\<lambda>t.
     bindp (new_urn E ''release-record'') (\<lambda>release_id.
     let dump = (\<lambda>h. release_dump E release_id (so_practice_id crate) t approved_by h crate_id disclosure
                       (bm_files bundle) recomputed approval_statement) in
     bindp (lift (release_model_validate E (dump release_placeholder_hash))) (\<lambda>_.
     bindp (lift (compute_content_hash E (dump release_placeholder_hash))) (\<lambda>h.
     bindp (make_event E (release_ctx approved_by policy_version correlation_id) ''release.approved''
       (ret t) (ret None) release_id 1
       [(''crate_id'', JStr crate_id), (''disclosure'', JStr disclosure), (''root_hash'', JStr recomputed),
        (''approval_mode'', JStr approval_mode)]) (\<lambda>e.
     bindp (bind_unit_of_work E
       \<lparr>so_id = release_id, so_api_version = ''mrr/v1alpha1'', so_kind = ''ReleaseRecord'',
        so_practice_id = so_practice_id crate, so_revision = 1, so_created_at = t,
        so_created_by = approved_by, so_content_hash = h, so_supersedes = None, so_labels = None,
        so_body = dump h\<rparr> None e) (\<lambda>(stored, _).
     ret stored))))))))))))"

definition superseding_labels :: "dict option \<Rightarrow> urn \<Rightarrow> dict" where
  "superseding_labels labels superseded_by =
     dset ''superseded_by'' (JStr superseded_by) (case labels of None \<Rightarrow> [] | Some d \<Rightarrow> d)"

definition release_supersede ::
  "env \<Rightarrow> urn \<Rightarrow> urn \<Rightarrow> string \<Rightarrow> string \<Rightarrow> urn \<Rightarrow> (world, stored_object) prog" where
  "release_supersede E release_id superseded_by approved_by policy_version correlation_id =
     bindp (guardp (is_person_urn approved_by) (NonPersonApproverError approved_by)) (\<lambda>_.
     bindp (guardp (superseded_by \<noteq> release_id) (SelfSupersessionError release_id)) (\<lambda>_.
     bindp (get_latest release_id) (\<lambda>latest.
     bindp (guardp (so_kind latest = ''ReleaseRecord'') (ReleaseRecordKindError release_id (so_kind latest))) (\<lambda>_.
     bindp (lift (dget_str (so_body latest) ''status'')) (\<lambda>from_status.
     bindp (guardp (from_status \<noteq> ''superseded'') (AlreadySupersededError release_id)) (\<lambda>_.
     bindp (get_latest superseded_by) (\<lambda>superseding.
     bindp (guardp (so_kind superseding = ''ReleaseRecord'')
       (ReleaseRecordKindError superseded_by (so_kind superseding))) (\<lambda>_.
     bindp (lift (dget_str (so_body superseding) ''status'')) (\<lambda>superseding_status.
     bindp (guardp (superseding_status = ''released'')
       (SupersedingReleaseNotReleasedError superseded_by superseding_status)) (\<lambda>_.
     bindp (lift (assert_transition RELEASE_RECORD_LIFECYCLE from_status ''superseded'')) (\<lambda>_.
     bindp (now E) (\<lambda>t.
     let new_labels = superseding_labels (so_labels latest) superseded_by in
     bindp (lift (finish_body E (so_revision latest + 1) t approved_by
       (dset ''labels'' (JObj new_labels) (dset ''status'' (JStr ''superseded'') (so_body latest))))) (\<lambda>(h, new_body).
     bindp (lift (release_model_validate E new_body)) (\<lambda>_.
     bindp (lift (dget_str (so_body latest) ''crate_id'')) (\<lambda>crate_id.
     bindp (make_event E (release_ctx approved_by policy_version correlation_id) ''release.superseded''
       (ret t) (ret None) (so_id latest) (so_revision latest + 1)
       [(''crate_id'', JStr crate_id), (''superseded_by'', JStr superseded_by),
        (''from_status'', JStr from_status), (''to_status'', JStr ''superseded'')]) (\<lambda>e.
     bindp (bind_unit_of_work E
       ((next_object latest (so_revision latest + 1) t approved_by h new_body)\<lparr>so_labels := Some new_labels\<rparr>)
       (Some (so_revision latest)) e) (\<lambda>(stored, _).
     ret stored)))))))))))))))))"

section \<open>Verification of a bundle directory\<close>

datatype diff_kind = Extra | Missing | Changed

record path_diff =
  pd_path :: string
  pd_kind :: diff_kind

record verify_result =
  vr_release_id :: urn
  vr_matched :: bool
  vr_root_hash :: string
  vr_diffs :: "path_diff list"

definition resolve_release_record :: "urn \<Rightarrow> (world, dict) prog" where
  "resolve_release_record release_id =
     bindp (get_latest release_id) (\<lambda>stored.
     bindp (guardp (so_kind stored = ''ReleaseRecord'') (ReleaseRecordKindError release_id (so_kind stored))) (\<lambda>_.
     ret (so_body stored)))"

text \<open>A dictionary comprehension: a later entry of a path replaces an earlier one.\<close>

definition by_path :: "(string \<times> string) list \<Rightarrow> (string \<times> string) list" where
  "by_path files = foldl (\<lambda>d (p, h). AList.update p h d) [] files"

fun diff_paths :: "(string \<times> string) list \<Rightarrow> (string \<times> string) list \<Rightarrow> string list \<Rightarrow> path_diff list" where
  "diff_paths stored actual [] = []"
| "diff_paths stored actual (path # paths) =
     (case (map_of stored path, map_of actual path) of
        (None, _) \<Rightarrow> \<lparr>pd_path = path, pd_kind = Extra\<rparr> # diff_paths stored actual paths
      | (Some h, None) \<Rightarrow> \<lparr>pd_path = path, pd_kind = Missing\<rparr> # diff_paths stored actual paths
      | (Some h, Some h') \<Rightarrow>
          (if h \<noteq> h' then \<lparr>pd_path = path, pd_kind = Changed\<rparr> # diff_paths stored actual paths
           else diff_paths stored actual paths))"

definition diff_files :: "(string \<times> string) list \<Rightarrow> bundle_file_entry list \<Rightarrow> path_diff list" where
  "diff_files stored_files actual_files =
     (let stored_by_path = by_path stored_files;
          actual_by_path = by_path (file_pairs actual_files)
      in diff_paths stored_by_path actual_by_path
           (sorted_set (map fst stored_by_path @ map fst actual_by_path)))"

fun read_entry :: "json \<Rightarrow> (string \<times> string) outcome" where
  "read_entry (JObj d) =
     (case dget_str d ''path'' of
        Inl e \<Rightarrow> Inl e
      | Inr p \<Rightarrow> (case dget_str d ''sha256'' of Inl e \<Rightarrow> Inl e | Inr h \<Rightarrow> Inr (p, h)))"
| "read_entry _ = Inl TypeErr"

fun read_entries :: "json list \<Rightarrow> (string \<times> string) list outcome" where
  "read_entries [] = Inr []"
| "read_entries (j # js) =
     (case read_entry j of
        Inl e \<Rightarrow> Inl e
      | Inr x \<Rightarrow> (case read_entries js of Inl e \<Rightarrow> Inl e | Inr xs \<Rightarrow> Inr (x # xs)))"

text \<open>\<^verbatim>\<open>body["bundle"]\<close>: the recorded entries and the recorded root hash.\<close>

definition stored_bundle :: "dict \<Rightarrow> ((string \<times> string) list \<times> string) outcome" where
  "stored_bundle body =
     (case dget body ''bundle'' of
        Inl e \<Rightarrow> Inl e
      | Inr (JObj b) \<Rightarrow>
          (case dget b ''files'' of
             Inl e \<Rightarrow> Inl e
           | Inr (JArr js) \<Rightarrow>
               (case read_entries js of
                  Inl e \<Rightarrow> Inl e
                | Inr xs \<Rightarrow> (case dget_str b ''root_hash'' of Inl e \<Rightarrow> Inl e | Inr h \<Rightarrow> Inr (xs, h)))
           | Inr _ \<Rightarrow> Inl TypeErr)
      | Inr _ \<Rightarrow> Inl TypeErr)"

definition verify_bundle_dir :: "urn \<Rightarrow> (string \<times> bytes) list \<Rightarrow> (world, verify_result) prog" where
  "verify_bundle_dir release_id bundle_dir =
     bindp (resolve_release_record release_id) (\<lambda>body.
     let manifest = compute_bundle_manifest bundle_dir in
     bindp (lift (stored_bundle body)) (\<lambda>(stored_files, stored_root).
     let diffs = diff_files stored_files (bm_files manifest) in
     ret \<lparr>vr_release_id = release_id,
          vr_matched = (diffs = [] \<and> bm_root_hash manifest = stored_root),
          vr_root_hash = bm_root_hash manifest, vr_diffs = diffs\<rparr>))"

section \<open>The status banner\<close>

datatype release_verdict = Current | CorrectionsAffectThisRelease | Superseded

record affecting_correction =
  afc_correction_id :: string
  afc_intersecting_object_ids :: "string list"

record release_banner =
  rb_verdict :: release_verdict
  rb_release_id :: string
  rb_crate_id :: string
  rb_superseded_by :: "string option"
  rb_affecting_corrections :: "affecting_correction list"
  rb_duplicate_unsuperseded_releases :: bool

definition RO_CRATE_OBJECTS_PREFIX :: string where
  "RO_CRATE_OBJECTS_PREFIX = ''ro-crate/objects/''"

definition JSON_SUFFIX :: string where
  "JSON_SUFFIX = ''.json''"

definition starts_with :: "string \<Rightarrow> string \<Rightarrow> bool" where
  "starts_with p s \<longleftrightarrow> take (length p) s = p"

definition ends_with :: "string \<Rightarrow> string \<Rightarrow> bool" where
  "ends_with p s \<longleftrightarrow> length p \<le> length s \<and> drop (length s - length p) s = p"

definition exported_object_urns :: "string list \<Rightarrow> string list" where
  "exported_object_urns paths =
     filter (\<lambda>u. urn_pattern_match u \<noteq> None)
       (map (\<lambda>path. let encoded = take (length path - length RO_CRATE_OBJECTS_PREFIX - length JSON_SUFFIX)
                                  (drop (length RO_CRATE_OBJECTS_PREFIX) path)
              in map (\<lambda>c. if c = CHR ''_'' then CHR '':'' else c) encoded)
         (filter (\<lambda>path. starts_with RO_CRATE_OBJECTS_PREFIX path \<and> ends_with JSON_SUFFIX path) paths))"

fun ref_ids :: "json list \<Rightarrow> string list outcome" where
  "ref_ids [] = Inr []"
| "ref_ids (JObj d # js) =
     (case map_of d ''id'' of
        None \<Rightarrow> ref_ids js
      | Some j \<Rightarrow>
          (case as_str j of
             Inl e \<Rightarrow> Inl e
           | Inr i \<Rightarrow> (case ref_ids js of Inl e \<Rightarrow> Inl e | Inr is \<Rightarrow> Inr (i # is))))"
| "ref_ids (_ # js) = Inl TypeErr"

definition dget_list_or_empty :: "dict \<Rightarrow> string \<Rightarrow> json list outcome" where
  "dget_list_or_empty d k =
     (case map_of d k of None \<Rightarrow> Inr [] | Some (JArr js) \<Rightarrow> Inr js | Some _ \<Rightarrow> Inl TypeErr)"

definition correction_object_ids :: "dict \<Rightarrow> string list outcome" where
  "correction_object_ids body =
     (case dget_list_or_empty body ''affected_objects'' of
        Inl e \<Rightarrow> Inl e
      | Inr refs \<Rightarrow>
          (case ref_ids refs of
             Inl e \<Rightarrow> Inl e
           | Inr affected \<Rightarrow>
               (case dget_list_or_empty body ''impact_objects'' of
                  Inl e \<Rightarrow> Inl e
                | Inr js \<Rightarrow> (case strs_of js of Inl e \<Rightarrow> Inl e | Inr impact \<Rightarrow> Inr (affected @ impact)))))"

fun affecting_rows :: "string list \<Rightarrow> instant \<Rightarrow> dict list \<Rightarrow> affecting_correction list outcome" where
  "affecting_rows exported released [] = Inr []"
| "affecting_rows exported released (body # bodies) =
     (case dget_str body ''created_at'' of
        Inl e \<Rightarrow> Inl e
      | Inr s \<Rightarrow>
          (case fromisoformat s of
             Inl e \<Rightarrow> Inl e
           | Inr t \<Rightarrow>
               if t \<le> released then affecting_rows exported released bodies
               else
                 (case correction_object_ids body of
                    Inl e \<Rightarrow> Inl e
                  | Inr ids \<Rightarrow>
                      (let intersection = sorted_set (filter (\<lambda>i. i \<in> set exported) ids)
                       in if intersection = [] then affecting_rows exported released bodies
                          else
                            (case dget_str body ''id'' of
                               Inl e \<Rightarrow> Inl e
                             | Inr i \<Rightarrow>
                                 (case affecting_rows exported released bodies of
                                    Inl e \<Rightarrow> Inl e
                                  | Inr rows \<Rightarrow>
                                      Inr (\<lparr>afc_correction_id = i, afc_intersecting_object_ids = intersection\<rparr>
                                           # rows)))))))"

definition affecting_corrections ::
  "dict list \<Rightarrow> string list \<Rightarrow> instant \<Rightarrow> affecting_correction list outcome" where
  "affecting_corrections correction_bodies exported released =
     (case affecting_rows exported released correction_bodies of
        Inl e \<Rightarrow> Inl e
      | Inr rows \<Rightarrow> Inr (sort_key afc_correction_id rows))"

definition superseded_by_label :: "dict \<Rightarrow> string option" where
  "superseded_by_label body =
     (case map_of body ''labels'' of
        Some (JObj labels) \<Rightarrow> (case map_of labels ''superseded_by'' of Some (JStr s) \<Rightarrow> Some s | _ \<Rightarrow> None)
      | _ \<Rightarrow> None)"

definition compute_release_banner :: "dict \<Rightarrow> dict list \<Rightarrow> bool \<Rightarrow> release_banner outcome" where
  "compute_release_banner body correction_bodies duplicate =
     (case (dget_str body ''id'', dget_str body ''crate_id'', dget_str body ''status'') of
        (Inr release_id, Inr crate_id, Inr status) \<Rightarrow>
          if status = ''superseded'' then
            Inr \<lparr>rb_verdict = Superseded, rb_release_id = release_id, rb_crate_id = crate_id,
                 rb_superseded_by = superseded_by_label body, rb_affecting_corrections = [],
                 rb_duplicate_unsuperseded_releases = duplicate\<rparr>
          else
            (case bundle_paths body of
               Inl e \<Rightarrow> Inl e
             | Inr paths \<Rightarrow>
                 (case dget_str body ''created_at'' of
                    Inl e \<Rightarrow> Inl e
                  | Inr s \<Rightarrow>
                      (case fromisoformat s of
                         Inl e \<Rightarrow> Inl e
                       | Inr released \<Rightarrow>
                           (case affecting_corrections correction_bodies (exported_object_urns paths) released of
                              Inl e \<Rightarrow> Inl e
                            | Inr affecting \<Rightarrow>
                                Inr \<lparr>rb_verdict = (if affecting \<noteq> [] then CorrectionsAffectThisRelease else Current),
                                     rb_release_id = release_id, rb_crate_id = crate_id,
                                     rb_superseded_by = None, rb_affecting_corrections = affecting,
                                     rb_duplicate_unsuperseded_releases = duplicate\<rparr>))))
      | (Inl e, _, _) \<Rightarrow> Inl e
      | (_, Inl e, _) \<Rightarrow> Inl e
      | (_, _, Inl e) \<Rightarrow> Inl e)"

definition discover_ids_by_event_type :: "string \<Rightarrow> (world, urn list) prog" where
  "discover_ids_by_event_type event_type =
     bindp read_all (\<lambda>as.
     ret (map de_object_id (filter (\<lambda>e. de_event_type e = event_type) (map ae_event as))))"

text \<open>The latest revision, or nothing where the id is not stored.\<close>

definition get_latest_opt :: "urn \<Rightarrow> (world, stored_object option) prog" where
  "get_latest_opt i =
     catchp (bindp (get_latest i) (\<lambda>r. ret (Some r)))
       (\<lambda>x. case x of ObjectNotFoundError _ _ \<Rightarrow> ret None | _ \<Rightarrow> raise x)"

fun found_list :: "'a option \<Rightarrow> 'a list" where
  "found_list None = []"
| "found_list (Some x) = [x]"

definition read_correction_bodies :: "(world, dict list) prog" where
  "read_correction_bodies =
     bindp (discover_ids_by_event_type ''correction.recorded'') (\<lambda>ids.
     bindp (mapp get_latest_opt (sorted_set ids)) (\<lambda>found.
     ret (map so_body (filter (\<lambda>r. so_kind r = ''CorrectionEvent'') (concat (map found_list found))))))"

definition has_duplicate_unsuperseded_releases :: "string \<Rightarrow> (world, bool) prog" where
  "has_duplicate_unsuperseded_releases crate_id =
     bindp (discover_ids_by_event_type ''release.approved'') (\<lambda>ids.
     bindp (mapp get_latest_opt (sorted_set ids)) (\<lambda>found.
     ret (1 < length (filter (\<lambda>r. so_kind r = ''ReleaseRecord'' \<and>
                map_of (so_body r) ''crate_id'' = Some (JStr crate_id) \<and>
                map_of (so_body r) ''status'' \<noteq> Some (JStr ''superseded''))
              (concat (map found_list found))))))"

definition release_status :: "bool \<Rightarrow> urn \<Rightarrow> (world, release_banner) prog" where
  "release_status has_event_log release_id =
     bindp (guardp has_event_log RuntimeErr) (\<lambda>_.
     bindp (get_latest release_id) (\<lambda>stored.
     bindp (guardp (so_kind stored = ''ReleaseRecord'') (ReleaseRecordKindError release_id (so_kind stored))) (\<lambda>_.
     bindp read_correction_bodies (\<lambda>correction_bodies.
     bindp (lift (dget_str (so_body stored) ''crate_id'')) (\<lambda>crate_id.
     bindp (has_duplicate_unsuperseded_releases crate_id) (\<lambda>duplicate.
     lift (compute_release_banner (so_body stored) correction_bodies duplicate)))))))"

section \<open>What a release is\<close>

lemma file_paths_json: "file_paths (map file_json files) = Inr (map bf_path files)"
  by (induction files) (simp_all add: file_json_def dget_str_def dget_def)

lemma bundle_paths_json:
  "map_of body ''bundle'' = Some (bundle_json files root) \<Longrightarrow> bundle_paths body = Inr (map bf_path files)"
  by (simp add: bundle_paths_def bundle_json_def file_paths_json)

text \<open>
  A record as it was approved: by the person who created it, with words of that person, for a
  list of files in order whose hashes give the root hash; its content hash is that of its body.
\<close>

definition approved_release :: "env \<Rightarrow> stored_object \<Rightarrow> bool" where
  "approved_release E r \<longleftrightarrow>
     is_person_urn (so_created_by r) \<and>
     compute_content_hash E (so_body r) = Inr (so_content_hash r) \<and>
     (\<exists>files statement. non_empty statement \<and>
        map_of (so_body r) ''approval'' = Some (approval_json (so_created_by r) statement ''single_human'') \<and>
        map_of (so_body r) ''bundle'' = Some (bundle_json files (compute_root_hash (file_pairs files))) \<and>
        sorted (map bf_path files) \<and> distinct (map bf_path files))"

definition release_first :: "env \<Rightarrow> stored_object \<Rightarrow> bool" where
  "release_first E r \<longleftrightarrow> created ''ReleaseRecord'' RELEASE_RECORD_LIFECYCLE r \<and> approved_release E r"

definition release_step :: "env \<Rightarrow> stored_object \<Rightarrow> stored_object \<Rightarrow> bool" where
  "release_step E l r \<longleftrightarrow>
     moved E RELEASE_RECORD_LIFECYCLE {''labels''} l r \<and> is_person_urn (so_created_by r) \<and>
     status_of r = Some ''superseded'' \<and>
     (\<exists>j. superseded_by_label (so_body r) = Some j \<and> j \<noteq> so_id r)"

abbreviation release_told :: "stored_object \<Rightarrow> domain_event \<Rightarrow> bool" where
  "release_told \<equiv> tells [(''released'', ''release.approved''), (''superseded'', ''release.superseded'')]"

lemma release_dump_hash: "compute_content_hash E (release_dump E i p t a h c d fs r s) =
    compute_content_hash E (release_dump E i p t a h' c d fs r s)"
  by (simp add: compute_content_hash_def release_dump_def prepare_for_hash_def hash_excluded_fields_def)

lemma release_create_aon: "all_or_nothing (release_create E c d b a s m p k)"
  unfolding release_create_def case_prod_beta Let_def by (intro aon_bindp aon_ret aon_units readonly)

lemma release_supersede_aon: "all_or_nothing (release_supersede E i j a p k)"
  unfolding release_supersede_def case_prod_beta Let_def by (intro aon_bindp aon_ret aon_units readonly)

lemma release_create_Inr:
  assumes ok: "world_ok E w"
    and run: "release_create E crate_id disclosure bundle approved_by statement mode p k w = (Inr r, w')"
  shows "release_first E r \<and> so_created_by r = approved_by \<and> so_revision r = 1 \<and>
    history_of (w_db w) (so_id r) = [] \<and>
    map_of (so_body r) ''crate_id'' = Some (JStr crate_id) \<and>
    map_of (so_body r) ''bundle'' = Some (bundle_json (bm_files bundle) (bm_root_hash bundle)) \<and>
    (\<exists>e. committed E [r] [] e w w' \<and> announces e [r] \<and> de_event_type e = ''release.approved'' \<and>
       de_actor e = approved_by)"
proof -
  from run [unfolded release_create_def case_prod_beta Let_def]
  obtain crate w1 t w2 i w3 u h e w4 sa where
    g: "is_person_urn approved_by" "non_empty statement" "mode = ''single_human''"
    and s1: "get_latest crate_id w = (Inr crate, w1)"
    and root: "compute_root_hash (file_pairs (bm_files bundle)) = bm_root_hash bundle"
    and s2: "now E w1 = (Inr t, w2)" and s3: "new_urn E ''release-record'' w2 = (Inr i, w3)"
    and v: "release_model_validate E (release_dump E i (so_practice_id crate) t approved_by
        release_placeholder_hash crate_id disclosure (bm_files bundle)
        (compute_root_hash (file_pairs (bm_files bundle))) statement) = Inr u"
    and h: "compute_content_hash E (release_dump E i (so_practice_id crate) t approved_by
        release_placeholder_hash crate_id disclosure (bm_files bundle)
        (compute_root_hash (file_pairs (bm_files bundle))) statement) = Inr h"
    and s4: "make_event E (release_ctx approved_by p k) ''release.approved'' (ret t) (ret None) i 1
       [(''crate_id'', JStr crate_id), (''disclosure'', JStr disclosure),
        (''root_hash'', JStr (compute_root_hash (file_pairs (bm_files bundle)))),
        (''approval_mode'', JStr ''single_human'')] w3 = (Inr e, w4)"
    and s5: "bind_unit_of_work E
       \<lparr>so_id = i, so_api_version = ''mrr/v1alpha1'', so_kind = ''ReleaseRecord'',
        so_practice_id = so_practice_id crate, so_revision = 1, so_created_at = t,
        so_created_by = approved_by, so_content_hash = h, so_supersedes = None, so_labels = None,
        so_body = release_dump E i (so_practice_id crate) t approved_by h crate_id disclosure
          (bm_files bundle) (compute_root_hash (file_pairs (bm_files bundle))) statement\<rparr> None e w4
       = (Inr sa, w')" and r: "r = fst sa"
    by (elim bindp_InrE guardp_InrE lift_InrE ret_InrE) (hypsubst+, rule that, assumption+)
  have w1: "w1 = w" using get_latest_Inr [OF world_ok_parts(2) [OF ok] s1] by blast
  note ev = make_event_Inr [OF s4 keeps_same_pure(1) keeps_same_pure(1)]
  have k4: "same_db w w4"
    using keepsD [OF readonly_now s2] keepsD [OF readonly_new_urn s3] ev unfolding w1
    by (blast intro: transpD [OF transp_same_db])
  obtain s a where sa: "sa = (s, a)" by fastforce
  have eo: "event_ok e" using ev by blast
  define root where "root = compute_root_hash (file_pairs (bm_files bundle))"
  define body where "body = release_dump E i (so_practice_id crate) t approved_by h crate_id disclosure
    (bm_files bundle) root statement"
  define obj where "obj = \<lparr>so_id = i, so_api_version = ''mrr/v1alpha1'', so_kind = ''ReleaseRecord'',
    so_practice_id = so_practice_id crate, so_revision = 1, so_created_at = t,
    so_created_by = approved_by, so_content_hash = h, so_supersedes = None, so_labels = None,
    so_body = body\<rparr>"
  have o: "so_id obj = i" "so_kind obj = ''ReleaseRecord''" "so_revision obj = 1"
    "so_created_by obj = approved_by" "so_content_hash obj = h" "so_body obj = body" by (simp_all add: obj_def)
  note u = unit_of_work_Inr [OF world_ok_same_db [OF ok k4] eo
      s5 [unfolded sa, folded root_def, folded body_def, folded obj_def]]
  have rs: "r = obj" using r sa u by simp
  have cur: "current_revision (w_db w) i = None" using u k4 o(1) by (simp add: same_db_def)
  have "history_of (w_db w) i = []" using cur unfolding current_revision_def by (simp split: if_splits)
  moreover have "committed E [r] [] e w w'" using u rs by (metis committed_from [OF k4])
  moreover have "announces e [r]" using ev o unfolding rs announces_def by simp
  moreover have bb: "map_of body ''approval'' = Some (approval_json approved_by statement ''single_human'')"
    "map_of body ''bundle'' = Some (bundle_json (bm_files bundle) root)"
    "map_of body ''crate_id'' = Some (JStr crate_id)" "map_of body ''status'' = Some (JStr ''released'')"
    by (simp_all add: body_def release_dump_def)
  moreover have "release_first E r"
  proof -
    have "files_sorted_and_unique (release_dump E i (so_practice_id crate) t approved_by
        release_placeholder_hash crate_id disclosure (bm_files bundle) root statement)"
      using v unfolding release_model_validate_def root_def by (simp split: if_splits)
    moreover have "bundle_paths (release_dump E i (so_practice_id crate) t approved_by
        release_placeholder_hash crate_id disclosure (bm_files bundle) root statement) =
        Inr (map bf_path (bm_files bundle))"
      by (rule bundle_paths_json [where root = root]) (simp add: release_dump_def)
    ultimately have "sorted (map bf_path (bm_files bundle)) \<and> distinct (map bf_path (bm_files bundle))"
      by (simp add: files_sorted_and_unique_def)
    moreover have "compute_content_hash E body = Inr h"
      using h unfolding body_def root_def by (subst release_dump_hash [where h' = release_placeholder_hash])
    ultimately have "approved_release E r"
      unfolding approved_release_def rs o using g(1,2) bb(1,2) unfolding root_def by blast
    moreover have "created ''ReleaseRecord'' RELEASE_RECORD_LIFECYCLE r"
      unfolding created_def rs o status_of_Some bb by (simp add: RELEASE_RECORD_LIFECYCLE_def)
    ultimately show ?thesis by (simp add: release_first_def)
  qed
  moreover have "de_event_type e = ''release.approved''" "de_actor e = approved_by"
    using ev by (simp_all add: release_ctx_def)
  moreover have "bm_root_hash bundle = root" using root by (simp add: root_def)
  ultimately show ?thesis unfolding rs o by blast
qed

lemma superseded_by_labels:
  "map_of body ''labels'' = Some (JObj (superseding_labels ls j)) \<Longrightarrow> superseded_by_label body = Some j"
  by (simp add: superseded_by_label_def superseding_labels_def)

lemma release_supersede_Inr:
  assumes ok: "world_ok E w" and run: "release_supersede E i j approved_by p k w = (Inr r, w')"
  shows "let latest = last (history_of (w_db w) i); superseding = last (history_of (w_db w) j) in
    history_of (w_db w) i \<noteq> [] \<and> so_id latest = i \<and> so_kind latest = ''ReleaseRecord'' \<and>
    status_of latest = Some ''released'' \<and> history_of (w_db w) j \<noteq> [] \<and>
    so_kind superseding = ''ReleaseRecord'' \<and> status_of superseding = Some ''released'' \<and> j \<noteq> i \<and>
    so_created_by r = approved_by \<and> so_id r = i \<and> superseded_by_label (so_body r) = Some j \<and>
    release_step E latest r \<and>
    (\<exists>e. committed E [r] [] e w w' \<and> announces e [r] \<and> de_event_type e = ''release.superseded'' \<and>
       de_actor e = approved_by)"
proof -
  from run [unfolded release_supersede_def case_prod_beta Let_def]
  obtain latest w1 frm superseding w2 st t w3 hb u c e w4 sa where
    g: "is_person_urn approved_by" "j \<noteq> i"
    and s1: "get_latest i w = (Inr latest, w1)" and k1: "so_kind latest = ''ReleaseRecord''"
    and f1: "dget_str (so_body latest) ''status'' = Inr frm"
    and s2: "get_latest j w1 = (Inr superseding, w2)" and k2: "so_kind superseding = ''ReleaseRecord''"
    and f2: "dget_str (so_body superseding) ''status'' = Inr st" "st = ''released''"
    and tr: "assert_transition RELEASE_RECORD_LIFECYCLE frm ''superseded'' = Inr u"
    and s3: "now E w2 = (Inr t, w3)"
    and fb: "finish_body E (so_revision latest + 1) t approved_by
       (dset ''labels'' (JObj (superseding_labels (so_labels latest) j))
          (dset ''status'' (JStr ''superseded'') (so_body latest))) = Inr hb"
    and s4: "make_event E (release_ctx approved_by p k) ''release.superseded'' (ret t) (ret None)
       (so_id latest) (so_revision latest + 1)
       [(''crate_id'', JStr c), (''superseded_by'', JStr j), (''from_status'', JStr frm),
        (''to_status'', JStr ''superseded'')] w3 = (Inr e, w4)"
    and s5: "bind_unit_of_work E
       ((next_object latest (so_revision latest + 1) t approved_by (fst hb) (snd hb))
          \<lparr>so_labels := Some (superseding_labels (so_labels latest) j)\<rparr>)
       (Some (so_revision latest)) e w4 = (Inr sa, w')" and r: "r = fst sa"
    by (elim bindp_InrE guardp_InrE lift_InrE ret_InrE) (hypsubst+, rule that, (assumption | rule refl)+)
  note l = get_latest_Inr [OF world_ok_parts(2) [OF ok] s1]
  have w1: "w1 = w" using l by blast
  note l2 = get_latest_Inr [OF world_ok_parts(2) [OF ok] s2 [unfolded w1]]
  have w2: "w2 = w" using l2 by blast
  note ev = make_event_Inr [OF s4 keeps_same_pure(1) keeps_same_pure(1)]
  have k4: "same_db w w4"
    using keepsD [OF readonly_now s3] ev unfolding w2 by (blast intro: transpD [OF transp_same_db])
  obtain s a where sa: "sa = (s, a)" by fastforce
  obtain h b where hb: "hb = (h, b)" by fastforce
  define labels where "labels = superseding_labels (so_labels latest) j"
  define obj where "obj = (next_object latest (so_revision latest + 1) t approved_by h b)\<lparr>so_labels := Some labels\<rparr>"
  define nobj where "nobj = next_object latest (so_revision latest + 1) t approved_by h b"
  have o: "so_id obj = so_id latest" "so_kind obj = so_kind latest" "so_created_by obj = approved_by"
    "so_revision obj = so_revision latest + 1" "so_body obj = b" by (simp_all add: obj_def)
  have eo: "event_ok e" using ev by blast
  note u = unit_of_work_Inr [OF world_ok_same_db [OF ok k4] eo
      s5 [unfolded sa hb fst_conv snd_conv, folded labels_def, folded obj_def]]
  have rs: "r = obj" using r sa u by simp
  have frm: "frm = ''released''" using tr by (simp add: table_simps)
  have st1: "status_of latest = Some ''released''" using f1 frm unfolding dget_str_status by simp
  have fb': "finish_body E (so_revision latest + 1) t approved_by
       (dset ''labels'' (JObj labels) (dset ''status'' (JStr ''superseded'') (so_body latest))) = Inr (h, b)"
    using fb unfolding hb labels_def .
  have can: "can_transition RELEASE_RECORD_LIFECYCLE ''released'' ''superseded''" by (simp add: table_simps)
  have m: "moved E RELEASE_RECORD_LIFECYCLE {''labels''} latest nobj"
    unfolding nobj_def by (rule moved_next [OF fb' st1 can]) (simp_all add: bookkeeping_def)
  have b2: "map_of b ''labels'' = Some (JObj labels)" "map_of b ''status'' = Some (JStr ''superseded'')"
    using finish_body_Inr(5) [OF fb', of "''labels''"] finish_body_Inr(5) [OF fb', of "''status''"] by simp_all
  have mo: "moved E RELEASE_RECORD_LIFECYCLE {''labels''} latest obj"
    using m unfolding moved_def obj_def nobj_def status_of_def by simp
  have sb: "superseded_by_label (so_body obj) = Some j"
    unfolding o by (rule superseded_by_labels) (simp add: b2 labels_def)
  have "status_of obj = Some ''superseded''" unfolding status_of_Some o by (rule b2)
  with mo sb g l o have step: "release_step E latest obj" unfolding release_step_def by auto
  have c: "committed E [r] [] e w w'" using u rs by (metis committed_from [OF k4])
  have an: "announces e [r]" using ev o unfolding rs announces_def by simp
  have st2: "status_of superseding = Some ''released''" using f2 unfolding dget_str_status by simp
  have e3: "de_event_type e = ''release.superseded''" "de_actor e = approved_by"
    using ev by (simp_all add: release_ctx_def)
  have li: "latest = last (history_of (w_db w) i)" "superseding = last (history_of (w_db w) j)"
    using l l2 by blast+
  have rest: "history_of (w_db w) i \<noteq> []" "so_id latest = i" "history_of (w_db w) j \<noteq> []" using l l2 by blast+
  show ?thesis unfolding Let_def li [symmetric]
    using rest k1 st1 k2 st2 g o sb step c an e3 unfolding rs by (intro conjI exI [of _ e]) simp_all
qed

section \<open>The service keeps its contract\<close>

datatype release_call =
    CreateRelease urn string bundle_manifest string string string string urn
  | Supersede urn urn string string urn

fun release_run :: "env \<Rightarrow> release_call \<Rightarrow> world \<Rightarrow> world" where
  "release_run E (CreateRelease c d b a s m p k) w = snd (release_create E c d b a s m p k w)"
| "release_run E (Supersede i j a p k) w = snd (release_supersede E i j a p k w)"

text \<open>The caller owes nothing: an id of another kind is refused, and a kind is kept by every revision.\<close>

fun release_call_ok :: "db \<Rightarrow> release_call \<Rightarrow> bool" where
  "release_call_ok d (CreateRelease c d' b a s m p k) \<longleftrightarrow> True"
| "release_call_ok d (Supersede i j a p k) \<longleftrightarrow>
     (is_kind ''ReleaseRecord'' d i \<longrightarrow> addressable ''ReleaseRecord'' d i)"

lemma release_create_writes:
  assumes ok: "world_ok E w"
  shows "writes E ''ReleaseRecord'' (release_first E) (release_step E) release_told w
    (snd (release_create E c d b a s m p k w))"
proof (rule aon_writes [OF release_create_aon prod.collapse [symmetric]])
  fix r assume q: "fst (release_create E c d b a s m p k w) = Inr r"
  then have run: "release_create E c d b a s m p k w = (Inr r, snd (release_create E c d b a s m p k w))"
    by (metis prod.collapse)
  from release_create_Inr [OF ok run] obtain e where
    f: "release_first E r" "history_of (w_db w) (so_id r) = []"
    and c: "committed E [r] [] e w (snd (release_create E c d b a s m p k w))" "announces e [r]"
      "de_event_type e = ''release.approved''" by blast
  from f(1) have k: "so_kind r = ''ReleaseRecord''" "status_of r = Some ''released''"
    by (simp_all add: release_first_def created_def RELEASE_RECORD_LIFECYCLE_def)
  show "writes E ''ReleaseRecord'' (release_first E) (release_step E) release_told w
      (snd (release_create E c d b a s m p k w))"
  proof (rule writes_single [OF c(1,2)])
    show "release_told r e" by (rule tellsI [OF k(2) c(3)]) simp
    show "fits ''ReleaseRecord'' (release_first E) (release_step E) (w_db w) r"
      using f k by (simp add: fits_def)
  qed
qed

lemma release_supersede_writes:
  assumes ok: "world_ok E w" and ad: "is_kind ''ReleaseRecord'' (w_db w) i \<longrightarrow> addressable ''ReleaseRecord'' (w_db w) i"
  shows "writes E ''ReleaseRecord'' (release_first E) (release_step E) release_told w (snd (release_supersede E i j a p k w))"
proof (rule aon_writes [OF release_supersede_aon prod.collapse [symmetric]])
  fix r assume q: "fst (release_supersede E i j a p k w) = Inr r"
  then have run: "release_supersede E i j a p k w = (Inr r, snd (release_supersede E i j a p k w))" by (metis prod.collapse)
  note s = release_supersede_Inr [OF ok run, unfolded Let_def]
  from s obtain e where c: "committed E [r] [] e w (snd (release_supersede E i j a p k w))" "announces e [r]"
    "de_event_type e = ''release.superseded''" by blast
  have st: "release_step E (last (history_of (w_db w) i)) r" and ne: "history_of (w_db w) i \<noteq> []"
    and ri: "so_id r = i" and lk: "so_kind (last (history_of (w_db w) i)) = ''ReleaseRecord''" using s by blast+
  have rk: "so_kind r = ''ReleaseRecord''" "status_of r = Some ''superseded''"
    using st lk unfolding release_step_def moved_def by simp_all
  have "is_kind ''ReleaseRecord'' (w_db w) i" unfolding is_kind_def using ne lk last_in_set by blast
  with ad have "addressable ''ReleaseRecord'' (w_db w) i" by blast
  then have "fits ''ReleaseRecord'' (release_first E) (release_step E) (w_db w) r"
    unfolding fits_def addressable_def ri using rk(1) st ne by simp
  moreover have "release_told r e" by (rule tellsI [OF rk(2) c(3)]) simp
  ultimately show "writes E ''ReleaseRecord'' (release_first E) (release_step E) release_told w
      (snd (release_supersede E i j a p k w))"
    using c(1,2) by (blast intro: writes_single)
qed

interpretation releases:
  governed_service E "''ReleaseRecord''" "release_first E" "release_step E" release_told "release_run E"
    release_call_ok for E
proof
  fix w c assume ok: "world_ok E w" and c: "release_call_ok (w_db w) c"
  show "writes E ''ReleaseRecord'' (release_first E) (release_step E) release_told w (release_run E c w)"
    by (cases c) (use c in \<open>simp_all add: release_create_writes [OF ok] release_supersede_writes [OF ok]\<close>)
qed

end
