(* ===== verification/Release_Properties.thy ===== *)
theory Release_Properties
  imports Release_Service
begin

text \<open>
  What holds of releases: in every world the service and the writes of others reach, a release
  keeps what was approved and its supersessions end in a released record; what the verification
  of a bundle directory finds; what the status banner says.
\<close>

section \<open>Reachable worlds\<close>

inductive release_reach :: "env \<Rightarrow> world \<Rightarrow> bool" for E where
  start: "release_reach E empty_world"
| call: "release_reach E w \<Longrightarrow> release_reach E (release_run E c w)"
| other: "release_reach E w \<Longrightarrow> committed E os es e w w' \<Longrightarrow>
            \<forall>r \<in> set os. so_kind r \<noteq> ''ReleaseRecord'' \<and> \<not> is_kind ''ReleaseRecord'' (w_db w) (so_id r) \<Longrightarrow>
            release_reach E w'"
| idle: "release_reach E w \<Longrightarrow> same_db w w' \<Longrightarrow> release_reach E w'"

abbreviation releases_ok :: "env \<Rightarrow> world \<Rightarrow> bool" where
  "releases_ok E \<equiv> service_ok E ''ReleaseRecord'' (release_first E) (release_step E) release_told"

lemma kind_addressable:
  "governed kind first step d \<Longrightarrow> is_kind kind d i \<Longrightarrow> addressable kind d i"
  unfolding addressable_def by (blast dest: governedD)

lemma release_call_addressed: "releases_ok E w \<Longrightarrow> release_call_ok (w_db w) c"
  by (cases c) (auto simp: service_ok_def intro: kind_addressable)

lemma release_reach_ok: "release_reach E w \<Longrightarrow> releases_ok E w"
proof (induction rule: release_reach.induct)
  case start
  show ?case by (rule service_ok_empty)
next
  case (call w c)
  show ?case by (rule releases.run_keeps [OF call.IH release_call_addressed [OF call.IH]])
next
  case (other w os es e w')
  then show ?case by (blast intro: service_ok_foreign)
next
  case (idle w w')
  then show ?case by (blast intro: service_ok_same_db)
qed

section \<open>A release keeps what was approved\<close>

definition kept_fields :: "string set" where
  "kept_fields = {''crate_id'', ''disclosure'', ''bundle'', ''approval'', ''id'', ''practice_id''}"

lemma release_step_keeps:
  assumes "release_step E l r" and "k \<in> kept_fields"
  shows "map_of (so_body r) k = map_of (so_body l) k"
proof -
  have "kept_fields \<inter> ({''status''} \<union> {''labels''} \<union> bookkeeping) = {}"
    by (simp add: kept_fields_def bookkeeping_def)
  with assms(2) have "k \<notin> {''status''} \<union> {''labels''} \<union> bookkeeping" by (metis IntI emptyE)
  with assms(1) show ?thesis unfolding release_step_def moved_def by (elim conjE) metis
qed

lemma successively_fixed:
  "successively (\<lambda>a b. f b = f a) h \<Longrightarrow> x \<in> set h \<Longrightarrow> f x = f (hd h)"
  by (induction h rule: induct_list012) auto

lemma release_statuses:
  assumes g: "governed ''ReleaseRecord'' (release_first E) (release_step E) d" and k: "is_kind ''ReleaseRecord'' d i"
  shows "statuses d i = [Some ''released''] \<or> statuses d i = [Some ''released'', Some ''superseded'']"
proof -
  let ?h = "history_of d i"
  from governedD [OF g k] have f: "release_first E (hd ?h)" and s: "successively (release_step E) ?h" by blast+
  have ne: "?h \<noteq> []" using k by (auto simp: is_kind_def)
  have fs: "status_of (hd ?h) = Some ''released''"
    using f by (simp add: release_first_def created_def RELEASE_RECORD_LIFECYCLE_def)
  have step: "status_of l = Some ''released'' \<and> status_of r = Some ''superseded''" if "release_step E l r" for l r
    using that unfolding release_step_def moved_def by (auto simp: table_simps)
  obtain a as where h: "?h = a # as" using ne by (metis list.exhaust)
  show ?thesis
  proof (cases as)
    case Nil
    with h fs show ?thesis by (simp add: statuses_def)
  next
    case (Cons b bs)
    then have ab: "release_step E a b" and rest: "successively (release_step E) (b # bs)" using s h by simp_all
    have "bs = []"
    proof (cases bs)
      case (Cons c cs)
      with rest have "release_step E b c" by simp
      with step [OF ab] step [of b c] show ?thesis by simp
    qed
    with Cons h step [OF ab] show ?thesis by (simp add: statuses_def)
  qed
qed

text \<open>
  C22. A release stays what a person approved. In every reachable world a release record has one
  revision, released, or two, released and then superseded. The first was created by a person
  whose approval, with words of their own, it carries, and lists files in order whose hashes
  give its root hash; every revision keeps that crate, disclosure, bundle and approval, has the
  content hash of its body and an event in the log.
\<close>

theorem releases_stay_approved:
  assumes r: "release_reach E w" and k: "is_kind ''ReleaseRecord'' (w_db w) i"
  shows "(statuses (w_db w) i = [Some ''released''] \<or> statuses (w_db w) i = [Some ''released'', Some ''superseded'']) \<and>
    approved_release E (hd (history_of (w_db w) i)) \<and>
    (\<forall>r \<in> set (history_of (w_db w) i). so_kind r = ''ReleaseRecord'' \<and> is_person_urn (so_created_by r) \<and>
       (\<forall>key \<in> kept_fields. map_of (so_body r) key = map_of (so_body (hd (history_of (w_db w) i))) key) \<and>
       compute_content_hash E (so_body r) = Inr (so_content_hash r) \<and>
       (\<exists>a \<in> set (domain_events_tbl (w_db w)). announces (ae_event a) [r] \<and> release_told r (ae_event a)))"
proof -
  let ?h = "history_of (w_db w) i"
  have ok: "releases_ok E w" using r by (rule release_reach_ok)
  then have g: "governed ''ReleaseRecord'' (release_first E) (release_step E) (w_db w)" by (simp add: service_ok_def)
  from governedD [OF g k] have kinds: "\<forall>r \<in> set ?h. so_kind r = ''ReleaseRecord''"
    and f: "release_first E (hd ?h)" and s: "successively (release_step E) ?h" by blast+
  have kept: "map_of (so_body r) key = map_of (so_body (hd ?h)) key" if "r \<in> set ?h" "key \<in> kept_fields" for r key
  proof -
    have "successively (\<lambda>a b. map_of (so_body b) key = map_of (so_body a) key) ?h"
      by (rule successively_mono [OF s]) (rule release_step_keeps [OF _ that(2)])
    from successively_fixed [OF this that(1)] show ?thesis .
  qed
  have each: "is_person_urn (so_created_by r) \<and> compute_content_hash E (so_body r) = Inr (so_content_hash r)"
    if m: "r \<in> set ?h" for r
  proof -
    have t: "r \<in> set (objects_tbl (w_db w))" using m by (simp add: history_of_def)
    have kr: "so_kind r = ''ReleaseRecord''" using kinds m by (rule bspec)
    show ?thesis
      by (rule governed_all [OF g t kr])
        (simp_all add: release_first_def approved_release_def release_step_def moved_def)
  qed
  have told: "\<exists>a \<in> set (domain_events_tbl (w_db w)). announces (ae_event a) [r] \<and> release_told r (ae_event a)"
    if m: "r \<in> set ?h" for r
    using ok kinds m unfolding service_ok_def accounted_def history_of_def by simp
  show ?thesis
    by (intro conjI ballI release_statuses [OF g k] kept each [THEN conjunct1] each [THEN conjunct2] told bspec [OF kinds])
      (use f in \<open>simp_all add: release_first_def\<close>)
qed

section \<open>Supersessions end\<close>

definition latest_release :: "db \<Rightarrow> urn \<Rightarrow> stored_object \<Rightarrow> bool" where
  "latest_release d i r \<longleftrightarrow> last_opt (history_of d i) = Some r \<and> so_kind r = ''ReleaseRecord''"

definition supersessions :: "db \<Rightarrow> (urn \<times> urn) set" where
  "supersessions d = {(i, j). \<exists>r. latest_release d i r \<and> status_of r = Some ''superseded'' \<and>
     superseded_by_label (so_body r) = Some j}"

definition is_released :: "db \<Rightarrow> urn \<Rightarrow> bool" where
  "is_released d i \<longleftrightarrow> (\<exists>r. latest_release d i r \<and> status_of r = Some ''released'')"

definition chains_end :: "db \<Rightarrow> bool" where
  "chains_end d \<longleftrightarrow> acyclic (supersessions d) \<and>
     (\<forall>(i, j) \<in> supersessions d. is_released d j \<or> (\<exists>k. (j, k) \<in> supersessions d))"

lemma latest_release_snoc:
  assumes "objects_tbl d' = objects_tbl d @ [r]" and "so_kind r = ''ReleaseRecord''"
  shows "latest_release d' i x \<longleftrightarrow> (if i = so_id r then x = r else latest_release d i x)"
  unfolding latest_release_def history_of_snoc [OF assms(1), of i] using assms(2) by auto

lemma latest_release_foreign:
  assumes o: "objects_tbl d' = objects_tbl d @ os"
    and f: "\<forall>r \<in> set os. so_kind r \<noteq> ''ReleaseRecord'' \<and> \<not> is_kind ''ReleaseRecord'' d (so_id r)"
  shows "latest_release d' i x \<longleftrightarrow> latest_release d i x"
proof -
  have h: "history_of d' i = history_of d i @ filter (\<lambda>r. so_id r = i) os" by (simp add: history_of_def o)
  show ?thesis
  proof (cases "filter (\<lambda>r. so_id r = i) os")
    case Nil
    then show ?thesis unfolding latest_release_def h by simp
  next
    case (Cons y ys)
    then have "y \<in> set (filter (\<lambda>r. so_id r = i) os)" by simp
    then have y: "y \<in> set os" "so_id y = i" by simp_all
    have "\<not> latest_release d i x"
      using f y unfolding latest_release_def is_kind_def last_opt_def by (metis last_in_set option.inject option.distinct(1))
    moreover have "last (y # ys) \<in> set os" using Cons by (metis filter_is_subset last_in_set list.distinct(1) subsetD)
    then have "\<not> latest_release d' i x"
      unfolding latest_release_def h Cons last_opt_def using f by auto
    ultimately show ?thesis by simp
  qed
qed

lemma chains_end_cong: "(\<And>i x. latest_release d' i x = latest_release d i x) \<Longrightarrow> chains_end d' = chains_end d"
  unfolding chains_end_def supersessions_def is_released_def by presburger

lemma no_supersession_of_released: "is_released d j \<Longrightarrow> (j, k) \<notin> supersessions d"
  unfolding is_released_def supersessions_def latest_release_def by auto

lemma chains_end_create:
  assumes ce: "chains_end d" and o: "objects_tbl d' = objects_tbl d @ [r]"
    and k: "so_kind r = ''ReleaseRecord''" "status_of r = Some ''released''" and n: "history_of d (so_id r) = []"
  shows "chains_end d'"
proof -
  note l = latest_release_snoc [OF o k(1)]
  have none: "\<not> latest_release d (so_id r) x" for x using n by (simp add: latest_release_def)
  have e: "supersessions d' = supersessions d"
    unfolding supersessions_def l using none k(2) by auto
  have rel: "is_released d j \<Longrightarrow> is_released d' j" for j
    unfolding is_released_def l using none by metis
  show ?thesis using ce rel unfolding chains_end_def e by blast
qed

lemma chains_end_supersede:
  assumes ce: "chains_end d" and o: "objects_tbl d' = objects_tbl d @ [r]"
    and k: "so_kind r = ''ReleaseRecord''" "status_of r = Some ''superseded''" "superseded_by_label (so_body r) = Some j"
    and i: "is_released d (so_id r)" and j: "is_released d j" "j \<noteq> so_id r"
  shows "chains_end d'"
proof -
  note l = latest_release_snoc [OF o k(1)]
  let ?i = "so_id r"
  have old: "(?i, b) \<notin> supersessions d" "(j, b) \<notin> supersessions d" for b
    using no_supersession_of_released i j(1) by blast+
  have "(a, b) \<in> supersessions d' \<longleftrightarrow> (a, b) \<in> insert (?i, j) (supersessions d)" for a b
  proof (cases "a = ?i")
    case True
    then show ?thesis using old(1) [of b] unfolding supersessions_def l by (auto simp: k)
  next
    case False
    then show ?thesis unfolding supersessions_def l by simp
  qed
  then have e: "supersessions d' = insert (?i, j) (supersessions d)" by auto
  have jr: "is_released d' j" using j unfolding is_released_def l by simp
  have "(j, ?i) \<notin> (supersessions d)\<^sup>*"
    using old(2) j(2) by (meson converse_rtranclE)
  then have "acyclic (supersessions d')" using ce unfolding e chains_end_def by simp
  moreover have "is_released d' b \<or> (\<exists>c. (b, c) \<in> supersessions d')" if ab: "(a, b) \<in> supersessions d'" for a b
  proof (cases "b = ?i \<or> b = j")
    case True
    then show ?thesis using jr e by blast
  next
    case False
    with ab have "(a, b) \<in> supersessions d" unfolding e by blast
    then have "is_released d b \<or> (\<exists>c. (b, c) \<in> supersessions d)" using ce unfolding chains_end_def by blast
    moreover have "is_released d b \<Longrightarrow> is_released d' b" using False unfolding is_released_def l by simp
    ultimately show ?thesis unfolding e by blast
  qed
  ultimately show ?thesis unfolding chains_end_def by blast
qed

lemma released_row:
  "history_of d i \<noteq> [] \<Longrightarrow> so_kind (last (history_of d i)) = ''ReleaseRecord'' \<Longrightarrow>
     status_of (last (history_of d i)) = Some ''released'' \<Longrightarrow> is_released d i"
  by (simp add: is_released_def latest_release_def last_opt_def)

lemma release_run_chains:
  assumes ok: "world_ok E w" and ce: "chains_end (w_db w)"
  shows "chains_end (w_db (release_run E c w))"
proof (cases c)
  case (CreateRelease c' d b a s m p k)
  obtain q w' where run: "release_create E c' d b a s m p k w = (q, w')" by fastforce
  have "chains_end (w_db w')"
  proof (cases q)
    case (Inl x)
    with run release_create_aon ce show ?thesis unfolding all_or_nothing_def same_db_def by metis
  next
    case (Inr r)
    from release_create_Inr [OF ok run [unfolded Inr]] obtain e where
      f: "release_first E r" "history_of (w_db w) (so_id r) = []" and e: "committed E [r] [] e w w'" by blast
    have "so_kind r = ''ReleaseRecord''" "status_of r = Some ''released''"
      using f(1) by (simp_all add: release_first_def created_def RELEASE_RECORD_LIFECYCLE_def)
    then show ?thesis by (rule chains_end_create [OF ce committed_tables(1) [OF e] _ _ f(2)])
  qed
  with run CreateRelease show ?thesis by simp
next
  case (Supersede i j a p k)
  obtain q w' where run: "release_supersede E i j a p k w = (q, w')" by fastforce
  have "chains_end (w_db w')"
  proof (cases q)
    case (Inl x)
    with run release_supersede_aon ce show ?thesis unfolding all_or_nothing_def same_db_def by metis
  next
    case (Inr r)
    note s = release_supersede_Inr [OF ok run [unfolded Inr], unfolded Let_def]
    from s obtain e where e: "committed E [r] [] e w w'" by blast
    have i: "is_released (w_db w) i" and j: "is_released (w_db w) j" "j \<noteq> i" and ri: "so_id r = i"
      and lab: "superseded_by_label (so_body r) = Some j"
      and st: "release_step E (last (history_of (w_db w) i)) r" and lk: "so_kind (last (history_of (w_db w) i)) = ''ReleaseRecord''"
      using s by (blast intro: released_row)+
    have rk: "so_kind r = ''ReleaseRecord''" "status_of r = Some ''superseded''"
      using st lk unfolding release_step_def moved_def by simp_all
    show ?thesis
      by (rule chains_end_supersede [OF ce committed_tables(1) [OF e] rk lab]) (use i j ri in simp_all)
  qed
  with run Supersede show ?thesis by simp
qed

lemma release_reach_chains: "release_reach E w \<Longrightarrow> chains_end (w_db w)"
proof (induction rule: release_reach.induct)
  case start
  show ?case
    by (simp add: chains_end_def supersessions_def latest_release_def history_of_def empty_world_def empty_db_def
        acyclic_def)
next
  case (call w c)
  have "world_ok E w" using release_reach_ok [OF call.hyps] by (simp add: service_ok_def)
  then show ?case by (rule release_run_chains [OF _ call.IH])
next
  case (other w os es e w')
  have "chains_end (w_db w') = chains_end (w_db w)"
    by (rule chains_end_cong) (rule latest_release_foreign [OF committed_tables(1) [OF other.hyps(2)] other.hyps(3)])
  then show ?case using other.IH by simp
next
  case (idle w w')
  then show ?case by (simp add: same_db_def)
qed

lemma finite_supersessions: "finite (supersessions d)"
proof -
  let ?f = "\<lambda>r. (so_id r, the (superseded_by_label (so_body r)))"
  have "supersessions d \<subseteq> ?f ` set (objects_tbl d)"
  proof (rule subrelI)
    fix i j assume "(i, j) \<in> supersessions d"
    then obtain r where r: "last_opt (history_of d i) = Some r" "superseded_by_label (so_body r) = Some j"
      unfolding supersessions_def latest_release_def by blast
    from last_opt_Some_mem [OF r(1)] have "r \<in> set (objects_tbl d)" "so_id r = i" by (auto simp: history_of_def)
    with r(2) show "(i, j) \<in> ?f ` set (objects_tbl d)" by (intro image_eqI [of _ _ r]) simp_all
  qed
  then show ?thesis by (rule finite_subset) simp
qed

text \<open>
  C23. Following supersessions always ends in a released record. In every world reached by calls
  that run one after the other there is no cycle of supersessions, and from every release
  record the recorded successors lead to one that is still released.
\<close>

theorem supersessions_end:
  assumes r: "release_reach E w" and k: "is_kind ''ReleaseRecord'' (w_db w) i"
  shows "acyclic (supersessions (w_db w)) \<and>
    (\<exists>j. (i, j) \<in> (supersessions (w_db w))\<^sup>* \<and> is_released (w_db w) j)"
proof -
  let ?S = "supersessions (w_db w)"
  have ce: "chains_end (w_db w)" by (rule release_reach_chains [OF r])
  then have ac: "acyclic ?S" by (simp add: chains_end_def)
  have wf: "wf (?S\<inverse>)" by (rule finite_acyclic_wf_converse [OF finite_supersessions ac])
  have next_end: "\<exists>j'. (j, j') \<in> ?S\<^sup>* \<and> is_released (w_db w) j'" if "is_released (w_db w) j \<or> (\<exists>k. (j, k) \<in> ?S)" for j
    using wf that
  proof (induction j rule: wf_induct_rule)
    case (less j)
    show ?case
    proof (cases "is_released (w_db w) j")
      case False
      with less.prems obtain k where k: "(j, k) \<in> ?S" by blast
      with ce have "is_released (w_db w) k \<or> (\<exists>l. (k, l) \<in> ?S)" unfolding chains_end_def by blast
      with less.IH [of k] k obtain j' where "(k, j') \<in> ?S\<^sup>*" "is_released (w_db w) j'" by blast
      with k show ?thesis by (blast intro: converse_rtrancl_into_rtrancl)
    qed blast
  qed
  let ?h = "history_of (w_db w) i"
  have ok: "releases_ok E w" using r by (rule release_reach_ok)
  then have g: "governed ''ReleaseRecord'' (release_first E) (release_step E) (w_db w)" by (simp add: service_ok_def)
  have ne: "?h \<noteq> []" using k by (auto simp: is_kind_def)
  have lk: "so_kind (last ?h) = ''ReleaseRecord''"
    using governedD [OF g k] ne last_in_set by blast
  have "is_released (w_db w) i \<or> (\<exists>k. (i, k) \<in> ?S)"
  proof (cases "status_of (last ?h) = Some ''released''")
    case True
    with ne lk show ?thesis by (blast intro: released_row)
  next
    case False
    have m: "last ?h \<in> set ?h" using ne by simp
    from successively_heads [OF _ ne m] governedD [OF g k]
    consider "last ?h = hd ?h" "release_first E (hd ?h)" | l where "release_step E l (last ?h)" by blast
    then show ?thesis
    proof cases
      case 1
      with False show ?thesis by (simp add: release_first_def created_def RELEASE_RECORD_LIFECYCLE_def)
    next
      case 2
      then obtain j where "superseded_by_label (so_body (last ?h)) = Some j" "status_of (last ?h) = Some ''superseded''"
        unfolding release_step_def by blast
      then have "(i, j) \<in> ?S" unfolding supersessions_def latest_release_def last_opt_def using ne lk by simp
      then show ?thesis by blast
    qed
  qed
  then show ?thesis using ac next_end by blast
qed

section \<open>What the verification of a directory finds\<close>

lemma map_of_by_path:
  assumes "distinct (map fst files)"
  shows "map_of (by_path files) = map_of files"
proof -
  have "map_of (foldl (\<lambda>d (p, h). AList.update p h d) acc files) k =
      (case map_of files k of None \<Rightarrow> map_of acc k | Some h \<Rightarrow> Some h)" for acc k
    using assms
  proof (induction files arbitrary: acc)
    case (Cons f files)
    obtain p h where f: "f = (p, h)" by fastforce
    show ?case
      using Cons.prems map_of_eq_None_iff [of files p] Cons.IH [of "AList.update p h acc"]
      by (cases "k = p") (simp_all add: f update_conv' split: option.splits)
  qed simp
  then show ?thesis unfolding by_path_def by (intro ext) (simp split: option.splits)
qed

lemma fst_by_path: "set (map fst (by_path files)) = set (map fst files)"
proof -
  have "set (map fst (foldl (\<lambda>d (p, h). AList.update p h d) acc files)) = set (map fst acc) \<union> set (map fst files)" for acc
  proof (induction files arbitrary: acc)
    case (Cons f files)
    obtain p h where f: "f = (p, h)" by fastforce
    have "set (map fst (AList.update p h acc)) = insert p (set (map fst acc))" using AList.dom_update [of p h acc] by simp
    then show ?case using Cons.IH [of "AList.update p h acc"] unfolding f by simp
  qed simp
  then show ?thesis unfolding by_path_def by simp
qed

definition differs :: "(string \<times> string) set \<Rightarrow> (string \<times> string) set \<Rightarrow> path_diff \<Rightarrow> bool" where
  "differs recorded found d \<longleftrightarrow>
     (case pd_kind d of
        Extra \<Rightarrow> pd_path d \<in> fst ` found \<and> pd_path d \<notin> fst ` recorded
      | Missing \<Rightarrow> pd_path d \<in> fst ` recorded \<and> pd_path d \<notin> fst ` found
      | Changed \<Rightarrow> \<exists>h h'. (pd_path d, h) \<in> recorded \<and> (pd_path d, h') \<in> found \<and> h \<noteq> h')"

lemma no_entry:
  assumes "\<And>h. f p = Some h \<longleftrightarrow> (p, h) \<in> S"
  shows "f p = None \<longleftrightarrow> p \<notin> fst ` S"
proof -
  have "f p = None \<longleftrightarrow> (\<forall>h. (p, h) \<notin> S)" by (metis assms not_None_eq)
  then show ?thesis by force
qed

lemma diff_paths_set:
  assumes S: "\<And>p h. map_of s p = Some h \<longleftrightarrow> (p, h) \<in> S" and A: "\<And>p h. map_of a p = Some h \<longleftrightarrow> (p, h) \<in> A"
  shows "set ps \<subseteq> fst ` S \<union> fst ` A \<Longrightarrow> d \<in> set (diff_paths s a ps) \<longleftrightarrow> pd_path d \<in> set ps \<and> differs S A d"
proof (induction ps)
  case (Cons p ps)
  have nS: "map_of s p = None \<longleftrightarrow> p \<notin> fst ` S" by (rule no_entry) (rule S)
  have nA: "map_of a p = None \<longleftrightarrow> p \<notin> fst ` A" by (rule no_entry) (rule A)
  have here: "differs S A \<lparr>pd_path = p, pd_kind = k\<rparr> \<longleftrightarrow>
      (case (map_of s p, map_of a p) of
         (None, _) \<Rightarrow> k = Extra | (Some h, None) \<Rightarrow> k = Missing | (Some h, Some h') \<Rightarrow> h \<noteq> h' \<and> k = Changed)" for k
    using nS nA Cons.prems S [of p, symmetric] A [of p, symmetric]
    by (cases "map_of s p"; cases "map_of a p"; cases k) (auto simp: differs_def)
  obtain q k where d: "d = \<lparr>pd_path = q, pd_kind = k\<rparr>" by (cases d) blast
  have IH: "d \<in> set (diff_paths s a ps) \<longleftrightarrow> q \<in> set ps \<and> differs S A d" using Cons by (simp add: d)
  show ?case
  proof (cases "q = p")
    case True
    have s: "d \<in> set (diff_paths s a (p # ps)) \<longleftrightarrow> d \<in> set (diff_paths s a ps) \<or>
      (case (map_of s p, map_of a p) of
         (None, _) \<Rightarrow> k = Extra | (Some h, None) \<Rightarrow> k = Missing | (Some h, Some h') \<Rightarrow> h \<noteq> h' \<and> k = Changed)"
      by (cases "map_of s p"; cases "map_of a p") (auto simp: d True)
    show ?thesis unfolding s IH here [symmetric] by (auto simp: d True)
  next
    case False
    then have "d \<in> set (diff_paths s a (p # ps)) \<longleftrightarrow> d \<in> set (diff_paths s a ps)"
      by (cases "map_of s p"; cases "map_of a p") (auto simp: d)
    with False show ?thesis by (simp add: IH) (simp add: d)
  qed
qed simp

text \<open>The content files of a directory: their paths with the hashes of their bytes.\<close>

definition content_files :: "(string \<times> bytes) list \<Rightarrow> (string \<times> string) set" where
  "content_files dir = {(p, content_hash b) |p b. (p, b) \<in> set dir \<and> p \<notin> EXCLUDED_FILENAMES}"

lemma manifest_pairs: "set (file_pairs (bm_files (compute_bundle_manifest dir))) = content_files dir"
  by (auto simp: compute_bundle_manifest_def Let_def file_pairs_def content_files_def image_image
      intro!: image_eqI split: prod.splits)

lemma manifest_distinct:
  assumes "distinct (map fst dir)"
  shows "distinct (map fst (file_pairs (bm_files (compute_bundle_manifest dir))))"
    and "sorted (map fst (file_pairs (bm_files (compute_bundle_manifest dir))))"
proof -
  let ?es = "map (\<lambda>(path, bytes). \<lparr>bf_path = path, bf_sha256 = content_hash bytes\<rparr>)
    (filter (\<lambda>(path, bytes). path \<notin> EXCLUDED_FILENAMES) dir)"
  have f: "map fst (file_pairs (sort_key bf_path ?es)) = map bf_path (sort_key bf_path ?es)"
    by (simp add: file_pairs_def)
  have e: "map bf_path ?es = map fst (filter (\<lambda>(path, bytes). path \<notin> EXCLUDED_FILENAMES) dir)"
    by (simp add: case_prod_beta comp_def)
  have "distinct (map bf_path ?es)" unfolding e by (rule distinct_map_filter [OF assms])
  then have "distinct (map bf_path (sort_key bf_path ?es))"
    unfolding distinct_map [of bf_path] set_sort distinct_sort .
  then show "distinct (map fst (file_pairs (bm_files (compute_bundle_manifest dir))))"
    unfolding compute_bundle_manifest_def Let_def by (simp only: f bundle_manifest.simps)
  show "sorted (map fst (file_pairs (bm_files (compute_bundle_manifest dir))))"
    unfolding compute_bundle_manifest_def Let_def bundle_manifest.simps f by simp
qed

lemma read_entries_json: "read_entries (map file_json files) = Inr (file_pairs files)"
  by (induction files) (simp_all add: file_json_def file_pairs_def dget_str_def dget_def)

text \<open>
  Verification of a bundle directory is exact. For a stored release record and a directory
  without repeated paths, the result matches exactly when the content files of the directory,
  by path and hash, are those of the record; and the differences are exactly the paths that
  only the directory has, that only the record has, and that have another hash.
\<close>

lemma verify_bundle_dir_exact:
  assumes ok: "world_ok E w" and ne: "history_of (w_db w) i \<noteq> []"
    and kind: "so_kind (last (history_of (w_db w) i)) = ''ReleaseRecord''"
    and b: "map_of (so_body (last (history_of (w_db w) i))) ''bundle'' =
        Some (bundle_json files (compute_root_hash (file_pairs files)))"
    and files: "sorted (map bf_path files)" "distinct (map bf_path files)"
    and dir: "distinct (map fst dir)"
  shows "\<exists>v. verify_bundle_dir i dir w = (Inr v, w) \<and>
    (vr_matched v \<longleftrightarrow> content_files dir = set (file_pairs files)) \<and>
    set (vr_diffs v) = {d. differs (set (file_pairs files)) (content_files dir) d}"
proof -
  let ?M = "compute_bundle_manifest dir" and ?body = "so_body (last (history_of (w_db w) i))"
  let ?S = "file_pairs files" and ?A = "file_pairs (bm_files ?M)"
  let ?R = "compute_root_hash ?S"
  define D where "D = diff_files ?S (bm_files ?M)"
  have sb: "stored_bundle ?body = Inr (?S, ?R)"
    using b by (simp add: stored_bundle_def dget_def bundle_json_def read_entries_json dget_str_def)
  have gl: "get_latest i w = (Inr (last (history_of (w_db w) i)), w)"
    using ne by (simp add: get_latest_run [OF world_ok_parts(2) [OF ok]] last_opt_def)
  have run: "verify_bundle_dir i dir w =
      (Inr \<lparr>vr_release_id = i, vr_matched = (D = [] \<and> bm_root_hash ?M = ?R), vr_root_hash = bm_root_hash ?M,
            vr_diffs = D\<rparr>, w)"
    using gl kind sb
    by (simp add: verify_bundle_dir_def resolve_release_record_def bindp_def guardp_run ret_run lift_run D_def Let_def)
  have sp: "distinct (map fst ?S)" "sorted (map fst ?S)" "fst ` set ?S = bf_path ` set files"
    using files by (simp_all add: file_pairs_def comp_def image_image)
  note ap = manifest_distinct [OF dir]
  have A: "set ?A = content_files dir" by (rule manifest_pairs)
  have mS: "map_of (by_path ?S) p = Some h \<longleftrightarrow> (p, h) \<in> set ?S" for p h
    unfolding map_of_by_path [OF sp(1)] using sp(1) by (rule map_of_eq_Some_iff)
  have mA: "map_of (by_path ?A) p = Some h \<longleftrightarrow> (p, h) \<in> content_files dir" for p h
    unfolding map_of_by_path [OF ap(1)] A [symmetric] using ap(1) by (rule map_of_eq_Some_iff)
  have keys: "set (sorted_set (map fst (by_path ?S) @ map fst (by_path ?A))) = fst ` set ?S \<union> fst ` content_files dir"
    unfolding set_sorted_set set_append fst_by_path by (simp add: A)
  have D: "d \<in> set D \<longleftrightarrow> differs (set ?S) (content_files dir) d" for d
  proof -
    have "pd_path d \<in> fst ` set ?S \<union> fst ` content_files dir" if "differs (set ?S) (content_files dir) d"
      using that unfolding differs_def by (cases "pd_kind d") (simp_all, metis fst_conv imageI)
    then show ?thesis
      unfolding D_def diff_files_def Let_def diff_paths_set [OF mS mA equalityD1 [OF keys]] keys by blast
  qed
  have same: "D = [] \<longleftrightarrow> content_files dir = set ?S"
  proof
    assume "D = []"
    then have none: "\<not> differs (set ?S) (content_files dir) \<lparr>pd_path = p, pd_kind = k\<rparr>" for p k using D by simp
    have keys': "p \<in> fst ` content_files dir \<longleftrightarrow> p \<in> fst ` set ?S" for p
      using none [of p Extra] none [of p Missing] unfolding differs_def path_diff.simps diff_kind.case by blast
    have same: "h = h'" if "(p, h) \<in> set ?S" "(p, h') \<in> content_files dir" for p h h'
      using none [of p Changed] that unfolding differs_def path_diff.simps diff_kind.case by blast
    show "content_files dir = set ?S"
    proof (intro set_eqI iffI)
      fix x assume x: "x \<in> content_files dir"
      then have "fst x \<in> fst ` set ?S" by (simp only: keys' [symmetric] imageI)
      then obtain h where h: "(fst x, h) \<in> set ?S" by force
      with same [OF h] x have "h = snd x" by simp
      with h show "x \<in> set ?S" by simp
    next
      fix x assume x: "x \<in> set ?S"
      then have "fst x \<in> fst ` content_files dir" by (simp only: keys' imageI)
      then obtain h where h: "(fst x, h) \<in> content_files dir" by force
      with same [of "fst x" "snd x" h] x have "snd x = h" by simp
      with h show "x \<in> content_files dir" by (metis prod.collapse)
    qed
  next
    assume e: "content_files dir = set ?S"
    have u: "\<not> (\<exists>h h'. (p, h) \<in> set ?S \<and> (p, h') \<in> set ?S \<and> h \<noteq> h')" for p
      using sp(1) by (metis map_of_eq_Some_iff option.inject)
    have "d \<notin> set D" for d unfolding D e differs_def using u [of "pd_path d"] by (cases "pd_kind d") simp_all
    then show "D = []" by (metis last_in_set)
  qed
  have root: "bm_root_hash ?M = ?R" if "content_files dir = set ?S"
  proof -
    have "?A = ?S"
    proof (rule map_sorted_distinct_set_unique [of fst])
      show "inj_on fst (set ?A \<union> set ?S)"
        using that A sp(1) by (simp add: distinct_map)
    qed (use that A sp ap in simp_all)
    then show ?thesis by (simp add: compute_bundle_manifest_def Let_def)
  qed
  show ?thesis
  proof (intro exI conjI)
    show "verify_bundle_dir i dir w =
      (Inr \<lparr>vr_release_id = i, vr_matched = (D = [] \<and> bm_root_hash ?M = ?R), vr_root_hash = bm_root_hash ?M,
            vr_diffs = D\<rparr>, w)" by (rule run)
  qed (use same root D in auto)
qed

section \<open>What the banner says\<close>

text \<open>A correction made after the release that names an exported object as affected or impacted.\<close>

definition affects :: "string list \<Rightarrow> instant \<Rightarrow> dict \<Rightarrow> bool" where
  "affects exported released c \<longleftrightarrow>
     (\<exists>s t ids. map_of c ''created_at'' = Some (JStr s) \<and> fromisoformat s = Inr t \<and> released < t \<and>
        correction_object_ids c = Inr ids \<and> set ids \<inter> set exported \<noteq> {})"

definition correction_row :: "string list \<Rightarrow> dict \<Rightarrow> affecting_correction \<Rightarrow> bool" where
  "correction_row exported c row \<longleftrightarrow>
     (\<exists>ids. correction_object_ids c = Inr ids \<and> map_of c ''id'' = Some (JStr (afc_correction_id row)) \<and>
        set (afc_intersecting_object_ids row) = set ids \<inter> set exported)"

lemma affecting_rows_exact:
  "affecting_rows exported released cs = Inr rows \<Longrightarrow>
     list_all2 (correction_row exported) (filter (affects exported released) cs) rows"
proof (induction cs arbitrary: rows)
  case (Cons body bodies)
  note run = Cons.prems [unfolded affecting_rows.simps]
  from run obtain s where s: "dget_str body ''created_at'' = Inr s" by (cases "dget_str body ''created_at''") simp_all
  note run = run [unfolded s sum.case]
  from run obtain t where t: "fromisoformat s = Inr t" by (cases "fromisoformat s") simp_all
  note run = run [unfolded t sum.case]
  show ?case
  proof (cases "t \<le> released")
    case True
    with run have "affecting_rows exported released bodies = Inr rows" by simp
    moreover have "\<not> affects exported released body" using True s t by (auto simp: affects_def)
    ultimately show ?thesis by (simp add: Cons.IH)
  next
    case False
    note run = run [unfolded if_not_P [OF False]]
    from run obtain ids where ids: "correction_object_ids body = Inr ids"
      by (cases "correction_object_ids body") simp_all
    define common where "common = sorted_set (filter (\<lambda>i. i \<in> set exported) ids)"
    have iset: "set common = set ids \<inter> set exported" by (auto simp: common_def)
    have aff: "affects exported released body \<longleftrightarrow> common \<noteq> []"
      using s t False ids iset [symmetric] by (auto simp: affects_def)
    note run = run [unfolded ids sum.case Let_def common_def [symmetric]]
    show ?thesis
    proof (cases "common = []")
      case True
      with run aff show ?thesis by (simp add: Cons.IH)
    next
      case ne: False
      note run = run [unfolded if_not_P [OF ne]]
      from run obtain i where i: "dget_str body ''id'' = Inr i" by (cases "dget_str body ''id''") simp_all
      note run = run [unfolded i sum.case]
      from run obtain rs where rs: "affecting_rows exported released bodies = Inr rs"
        and rows: "rows = \<lparr>afc_correction_id = i, afc_intersecting_object_ids = common\<rparr> # rs"
        by (cases "affecting_rows exported released bodies") simp_all
      have "correction_row exported body \<lparr>afc_correction_id = i, afc_intersecting_object_ids = common\<rparr>"
        unfolding correction_row_def using ids i iset by simp
      then show ?thesis using aff ne Cons.IH [OF rs] by (simp add: rows)
    qed
  qed
qed simp

definition recorded_corrections :: "db \<Rightarrow> dict list" where
  "recorded_corrections d =
     map so_body (filter (\<lambda>r. so_kind r = ''CorrectionEvent'') (concat (map (\<lambda>i. found_list (last_opt (history_of d i)))
       (sorted_set (map de_object_id (filter (\<lambda>e. de_event_type e = ''correction.recorded'') (map ae_event (domain_events_tbl d))))))))"

lemma get_latest_opt_run:
  assumes "objects_ok (w_db w)"
  shows "get_latest_opt i w = (Inr (last_opt (history_of (w_db w) i)), w)"
  using get_latest_run [OF assms, of i]
  by (cases "last_opt (history_of (w_db w) i)")
    (simp_all add: get_latest_opt_def catchp_def bindp_def ret_run raise_run)

lemma mapp_latest_run:
  "objects_ok (w_db w) \<Longrightarrow> mapp get_latest_opt is w = (Inr (map (\<lambda>i. last_opt (history_of (w_db w) i)) is), w)"
  by (induction "is") (simp_all add: get_latest_opt_run bindp_def ret_run)

lemma read_correction_bodies_run:
  assumes "world_ok E w"
  shows "read_correction_bodies w = (Inr (recorded_corrections (w_db w)), w)"
  by (simp add: read_correction_bodies_def discover_ids_by_event_type_def bindp_def ret_run
      read_all_run [OF world_ok_parts(1) [OF assms]] mapp_latest_run [OF world_ok_parts(2) [OF assms]]
      recorded_corrections_def comp_def)

definition unsuperseded_releases :: "db \<Rightarrow> string \<Rightarrow> urn list" where
  "unsuperseded_releases d crate_id =
     filter (\<lambda>i. \<exists>r. latest_release d i r \<and> map_of (so_body r) ''crate_id'' = Some (JStr crate_id) \<and>
               map_of (so_body r) ''status'' \<noteq> Some (JStr ''superseded''))
       (sorted_set (map de_object_id (filter (\<lambda>e. de_event_type e = ''release.approved'') (map ae_event (domain_events_tbl d)))))"

lemma found_count:
  "length (filter P (concat (map (found_list \<circ> f) is))) = length (filter (\<lambda>i. \<exists>r. f i = Some r \<and> P r) is)"
proof (induction "is")
  case (Cons i "is")
  then show ?case by (cases "f i") auto
qed simp

lemma duplicates_run:
  assumes "world_ok E w"
  shows "has_duplicate_unsuperseded_releases c w = (Inr (1 < length (unsuperseded_releases (w_db w) c)), w)"
proof -
  have "(\<lambda>i. \<exists>r. last_opt (history_of (w_db w) i) = Some r \<and> so_kind r = ''ReleaseRecord'' \<and>
          map_of (so_body r) ''crate_id'' = Some (JStr c) \<and> map_of (so_body r) ''status'' \<noteq> Some (JStr ''superseded'')) =
        (\<lambda>i. \<exists>r. latest_release (w_db w) i r \<and> map_of (so_body r) ''crate_id'' = Some (JStr c) \<and>
               map_of (so_body r) ''status'' \<noteq> Some (JStr ''superseded''))"
    unfolding latest_release_def by (intro ext) blast
  note same = this
  show ?thesis
    by (simp add: has_duplicate_unsuperseded_releases_def discover_ids_by_event_type_def bindp_def ret_run
        read_all_run [OF world_ok_parts(1) [OF assms]] mapp_latest_run [OF world_ok_parts(2) [OF assms]])
       (simp only: unsuperseded_releases_def found_count same refl)
qed

text \<open>
  The banner is exact. Where the status of a stored release can be computed, it changes nothing;
  a superseded release is reported as such; any other is reported as affected exactly when some
  recorded correction, made after it, names an object its bundle exported, and then every such
  correction is listed with exactly the exported objects it names; and the duplicate flag tells
  whether several unsuperseded releases of the crate exist.
\<close>

lemma release_status_exact:
  assumes ok: "world_ok E w" and run: "release_status True i w = (Inr b, w')"
  shows "let body = so_body (last (history_of (w_db w) i)); cs = recorded_corrections (w_db w) in
    w' = w \<and> rb_release_id b = (case map_of body ''id'' of Some (JStr j) \<Rightarrow> j | _ \<Rightarrow> []) \<and>
    rb_duplicate_unsuperseded_releases b = (1 < length (unsuperseded_releases (w_db w) (rb_crate_id b))) \<and>
    (if map_of body ''status'' = Some (JStr ''superseded'')
     then rb_verdict b = Superseded \<and> rb_superseded_by b = superseded_by_label body \<and> rb_affecting_corrections b = []
     else \<exists>paths s released. bundle_paths body = Inr paths \<and> map_of body ''created_at'' = Some (JStr s) \<and>
       fromisoformat s = Inr released \<and>
       rb_verdict b = (if \<exists>c \<in> set cs. affects (exported_object_urns paths) released c
                       then CorrectionsAffectThisRelease else Current) \<and>
       (\<exists>rows. list_all2 (correction_row (exported_object_urns paths))
                 (filter (affects (exported_object_urns paths) released) cs) rows \<and>
           rb_affecting_corrections b = sort_key afc_correction_id rows))"
proof -
  let ?body = "so_body (last (history_of (w_db w) i))"
  from run [unfolded release_status_def] obtain stored w1 bodies w2 crate dup w3 where
    s1: "get_latest i w = (Inr stored, w1)"
    and s2: "read_correction_bodies w1 = (Inr bodies, w2)"
    and cr: "dget_str (so_body stored) ''crate_id'' = Inr crate"
    and s3: "has_duplicate_unsuperseded_releases crate w2 = (Inr dup, w3)"
    and b: "compute_release_banner (so_body stored) bodies dup = Inr b" and w': "w' = w3"
    by (elim bindp_InrE guardp_InrE lift_InrE) (hypsubst+, rule that, (assumption | rule refl)+)
  have st: "w1 = w" "stored = last (history_of (w_db w) i)" using get_latest_Inr [OF world_ok_parts(2) [OF ok] s1] by blast+
  have bo: "bodies = recorded_corrections (w_db w)" "w2 = w"
    using s2 [unfolded st(1) read_correction_bodies_run [OF ok]] by (metis prod.inject sum.inject(2))+
  have du: "dup = (1 < length (unsuperseded_releases (w_db w) crate))" "w3 = w"
    using s3 [unfolded bo(2) duplicates_run [OF ok]] by (metis prod.inject sum.inject(2))+
  note b = b [unfolded st(2) bo(1)]
  have cr: "map_of ?body ''crate_id'' = Some (JStr crate)" using cr by (simp add: st(2))
  from b obtain rid status where rid: "map_of ?body ''id'' = Some (JStr rid)"
    and sta: "map_of ?body ''status'' = Some (JStr status)"
    unfolding compute_release_banner_def
    by (cases "dget_str ?body ''id''"; cases "dget_str ?body ''crate_id''"; cases "dget_str ?body ''status''") auto
  have h: "dget_str ?body ''id'' = Inr rid" "dget_str ?body ''crate_id'' = Inr crate" "dget_str ?body ''status'' = Inr status"
    using rid sta cr by simp_all
  note b = b [unfolded compute_release_banner_def h prod.case sum.case]
  show ?thesis
  proof (cases "status = ''superseded''")
    case True
    with b have "b = \<lparr>rb_verdict = Superseded, rb_release_id = rid, rb_crate_id = crate,
                 rb_superseded_by = superseded_by_label ?body, rb_affecting_corrections = [],
                 rb_duplicate_unsuperseded_releases = dup\<rparr>" by simp
    then show ?thesis using True rid sta du w' by (simp add: Let_def)
  next
    case False
    with b obtain paths s released rows where
      p: "bundle_paths ?body = Inr paths" and s: "map_of ?body ''created_at'' = Some (JStr s)"
      and t: "fromisoformat s = Inr released"
      and a: "affecting_rows (exported_object_urns paths) released (recorded_corrections (w_db w)) = Inr rows"
      and be: "b = \<lparr>rb_verdict = (if sort_key afc_correction_id rows \<noteq> [] then CorrectionsAffectThisRelease else Current),
                 rb_release_id = rid, rb_crate_id = crate, rb_superseded_by = None,
                 rb_affecting_corrections = sort_key afc_correction_id rows,
                 rb_duplicate_unsuperseded_releases = dup\<rparr>"
      by (auto simp: affecting_corrections_def split: sum.splits)
    note rows = affecting_rows_exact [OF a]
    have "sort_key afc_correction_id rows = [] \<longleftrightarrow> rows = []" by (metis length_0_conv length_sort)
    also have "\<dots> \<longleftrightarrow> filter (affects (exported_object_urns paths) released) (recorded_corrections (w_db w)) = []"
      using list_all2_lengthD [OF rows] by (metis length_0_conv)
    also have "\<dots> \<longleftrightarrow> \<not> (\<exists>c \<in> set (recorded_corrections (w_db w)). affects (exported_object_urns paths) released c)"
      by (simp add: filter_empty_conv)
    finally have v: "rb_verdict b = (if \<exists>c \<in> set (recorded_corrections (w_db w)). affects (exported_object_urns paths) released c
                       then CorrectionsAffectThisRelease else Current)" by (simp add: be)
    have nst: "map_of ?body ''status'' \<noteq> Some (JStr ''superseded'')" using sta False by simp
    have "rb_affecting_corrections b = sort_key afc_correction_id rows" by (simp add: be)
    then show ?thesis
      unfolding Let_def if_not_P [OF nst] using rid du w' p s t v rows by (simp add: be) blast
  qed
qed

section \<open>Witnesses\<close>

lemma entity_ok_release [simp]:
  "entity_ok ''release-record''" "entity_ok ''person''" "entity_ok ''crate''"
  by (simp_all add: entity_ok_def entity_char_def less_eq_char_def)

lemma release_create_run:
  assumes ok: "world_ok E w" and E: "env_total E" and sch: "\<forall>d. env_schema E ''ReleaseRecord'' d"
    and crate: "history_of (w_db w) c \<noteq> []" "so_kind (last (history_of (w_db w) c)) = ''EvidenceCrate''"
    and p: "is_person_urn a" "non_empty statement" "ctx_ok (release_ctx a p k)"
    and files: "sorted (map bf_path files)" "distinct (map bf_path files)"
    and i: "i = urn_text ''release-record'' (env_ulid E (Suc (w_ticks w)))" "history_of (w_db w) i = []"
    and fresh: "event_id_at E (w_ticks w + 2) \<notin> set (event_ids (w_db w))"
  shows "\<exists>r w'. release_create E c dis \<lparr>bm_files = files, bm_root_hash = compute_root_hash (file_pairs files)\<rparr> a
      statement ''single_human'' p k w = (Inr r, w') \<and> w_ticks w' = w_ticks w + 4 \<and>
    event_ids (w_db w') = event_ids (w_db w) @ [event_id_at E (w_ticks w + 2)] \<and> so_id r = i \<and>
    map_of (so_body r) ''id'' = Some (JStr i) \<and>
    map_of (so_body r) ''created_at'' = Some (JStr (env_json_time E (env_now E (w_ticks w))))"
proof -
  define root where "root = compute_root_hash (file_pairs files)"
  define t where "t = env_now E (w_ticks w)"
  define crate where "crate = last (history_of (w_db w) c)"
  define dump where "dump h = release_dump E i (so_practice_id crate) t a h c dis files root statement" for h
  let ?w2 = "w\<lparr>w_ticks := Suc (Suc (w_ticks w))\<rparr>" and ?w3 = "w\<lparr>w_ticks := Suc (Suc (Suc (w_ticks w)))\<rparr>"
  have gl: "get_latest c w = (Inr crate, w)"
    using crate(1) by (simp add: get_latest_run [OF world_ok_parts(2) [OF ok]] last_opt_def crate_def)
  have paths: "map_of (dump h) ''bundle'' = Some (bundle_json files root)" for h
    by (simp add: dump_def release_dump_def)
  have val: "release_model_validate E (dump h) = Inr ()" for h
    using sch files by (simp add: release_model_validate_def files_sorted_and_unique_def bundle_paths_json [OF paths])
  obtain h where h: "compute_content_hash E (dump release_placeholder_hash) = Inr h" using env_total_hash [OF E] by blast
  have u: "ulid_ok (env_ulid E n)" for n using E by (simp add: env_total_def)
  have vi: "is_valid_urn i" unfolding i(1) using u by simp
  have ty: "non_empty ''release.approved''" by (simp add: non_empty_def is_space_def)
  define payload where "payload = [(''crate_id'', JStr c), (''disclosure'', JStr dis), (''root_hash'', JStr root),
        (''approval_mode'', JStr ''single_human'')]"
  obtain e where e: "make_event E (release_ctx a p k) ''release.approved'' (ret t) (ret None) i 1 payload ?w2 = (Inr e, ?w3)"
    "de_id e = event_id_at E (w_ticks w + 2)"
    using make_event_first_run [OF p(3) E vi ty, of 1 t payload ?w2] by auto
  define r where "r = \<lparr>so_id = i, so_api_version = ''mrr/v1alpha1'', so_kind = ''ReleaseRecord'',
        so_practice_id = so_practice_id crate, so_revision = 1, so_created_at = t,
        so_created_by = a, so_content_hash = h, so_supersedes = None, so_labels = None, so_body = dump h\<rparr>"
  have ok3: "world_ok E ?w3" using ok by simp
  have "so_revision r = next_revision None" "current_revision (w_db ?w3) (so_id r) = None"
    using i(2) by (simp_all add: next_revision_def current_revision_def r_def)
  with unit_of_work_run [OF ok3 E, of e r None] fresh e(2) obtain x w' where
    b: "bind_unit_of_work E r None e ?w3 = (Inr (r, x), w')"
    and t': "w_ticks w' = Suc (w_ticks ?w3)" "event_ids (w_db w') = event_ids (w_db ?w3) @ [de_id e]"
    by auto
  have new: "now E w = (Inr t, w\<lparr>w_ticks := Suc (w_ticks w)\<rparr>)"
    "new_urn E ''release-record'' (w\<lparr>w_ticks := Suc (w_ticks w)\<rparr>) = (Inr i, ?w2)"
    by (simp_all add: now_run t_def new_urn_run i(1))
  have "release_create E c dis \<lparr>bm_files = files, bm_root_hash = root\<rparr> a statement ''single_human'' p k w = (Inr r, w')"
    unfolding release_create_def case_prod_beta Let_def bundle_manifest.simps root_def [symmetric]
      payload_def [symmetric]
    using p(1,2) gl crate(2) new h e(1) b [unfolded r_def] val
    by (simp add: bindp_def guardp_run ret_run lift_run crate_def [symmetric] dump_def [symmetric] r_def)
  moreover have "map_of (so_body r) ''id'' = Some (JStr i)"
    "map_of (so_body r) ''created_at'' = Some (JStr (env_json_time E t))"
    by (simp_all add: r_def dump_def release_dump_def)
  ultimately show ?thesis
    using t' e(2) by (intro exI [of _ r] exI [of _ w']) (simp add: root_def t_def r_def)
qed

definition sample_crate :: stored_object where
  "sample_crate = \<lparr>so_id = sample_urn ''crate'', so_api_version = ''mrr/v1alpha1'', so_kind = ''EvidenceCrate'',
     so_practice_id = sample_urn ''practice'', so_revision = 1, so_created_at = 1700000000000000,
     so_created_by = sample_urn ''human'', so_content_hash = content_hash ''{}'', so_supersedes = None,
     so_labels = None, so_body = []\<rparr>"

definition sample_files :: "bundle_file_entry list" where
  "sample_files = [\<lparr>bf_path = ''a'', bf_sha256 = content_hash ''x''\<rparr>]"

definition sample_release :: urn where
  "sample_release = urn_text ''release-record'' (env_ulid sample_env 4)"

text \<open>A world with a crate and a release of one file.\<close>

lemma release_world:
  obtains w r e0 e1 where "release_reach sample_env w" and "history_of (w_db w) sample_release = [r]"
    and "approved_release sample_env r" and "so_kind r = ''ReleaseRecord''"
    and "map_of (so_body r) ''id'' = Some (JStr sample_release)"
    and "map_of (so_body r) ''bundle'' = Some (bundle_json sample_files (compute_root_hash (file_pairs sample_files)))"
    and "map_of (so_body r) ''created_at'' = Some (JStr (isoformat 1700000000000003))"
    and "map_of (so_body r) ''crate_id'' = Some (JStr (sample_urn ''crate''))"
    and "status_of r = Some ''released''"
    and "map ae_event (domain_events_tbl (w_db w)) = [e0, e1]"
    and "de_event_type e0 = ''crate.created''" and "de_event_type e1 = ''release.approved''" and "de_object_id e1 = sample_release"
proof -
  let ?E = sample_env and ?a = "sample_urn ''person''" and ?i = sample_release and ?c = "sample_urn ''crate''"
  have r0: "so_revision sample_crate = 1" "is_valid_urn (so_id sample_crate)" "so_id sample_crate = ?c"
    by (simp_all add: sample_crate_def)
  obtain w1 where c1: "create_object ?E sample_ctx sample_crate ''crate.created'' [] empty_world = (Inr sample_crate, w1)"
    and t1: "w_ticks w1 = 3" "event_ids (w_db w1) = [event_id_at ?E 0]"
    using create_object_run [OF world_ok_empty ctx_ok_sample env_total_sample start_fresh(1) r0(1,2) start_fresh(2),
      of "''crate.created''" "[]"] by (auto simp: start_fresh non_empty_def is_space_def)
  from create_object_Inr [OF world_ok_empty c1] obtain e0 where
    com0: "committed ?E [sample_crate] [] e0 empty_world w1" and ty0: "de_event_type e0 = ''crate.created''" by blast
  have nk: "\<forall>r \<in> set [sample_crate]. so_kind r \<noteq> ''ReleaseRecord'' \<and> \<not> is_kind ''ReleaseRecord'' (w_db empty_world) (so_id r)"
    by (simp add: sample_crate_def is_kind_def start_fresh)
  have r1: "release_reach ?E w1" by (rule release_reach.other [OF release_reach.start com0 nk])
  have ok1: "world_ok ?E w1" by (rule committed_tables(3) [OF com0])
  have h1: "history_of (w_db w1) i = (if i = ?c then [sample_crate] else [])" for i
    unfolding history_of_def committed_tables(1) [OF com0] by (simp add: empty_world_def empty_db_def r0(3))
  have ne: "?i \<noteq> ?c" by (simp add: sample_release_def sample_urn_def urn_text_def)
  have crate: "history_of (w_db w1) ?c \<noteq> []" "so_kind (last (history_of (w_db w1) ?c)) = ''EvidenceCrate''"
    by (simp_all add: h1 sample_crate_def)
  have person: "urn_pattern_match ?a = Some (''person'', ''01HZY3J8Q4V5W6X7Y8Z9ABCDEF'')"
    unfolding urn_pattern_match_iff by (simp add: sample_urn_def)
  have p: "is_person_urn ?a" "non_empty ''ok''" "ctx_ok (release_ctx ?a ''v1'' (sample_urn ''correlation''))"
    using person
    by (simp_all add: is_person_urn_def ctx_ok_def release_ctx_def non_empty_def is_space_def)
  have files: "sorted (map bf_path sample_files)" "distinct (map bf_path sample_files)" by (simp_all add: sample_files_def)
  have i: "?i = urn_text ''release-record'' (env_ulid ?E (Suc (w_ticks w1)))" "history_of (w_db w1) ?i = []"
    using ne by (simp_all add: sample_release_def t1 h1)
  have f: "event_id_at ?E (w_ticks w1 + 2) \<notin> set (event_ids (w_db w1))"
    using sample_fresh [of 5 "[0]"] by (simp add: t1)
  have sch: "\<forall>d. env_schema ?E ''ReleaseRecord'' d" by (simp add: sample_env_def)
  let ?b = "\<lparr>bm_files = sample_files, bm_root_hash = compute_root_hash (file_pairs sample_files)\<rparr>"
  obtain r w2 where run: "release_create ?E ?c ''public'' ?b ?a ''ok'' ''single_human'' ''v1'' (sample_urn ''correlation'') w1 = (Inr r, w2)"
    and r: "so_id r = ?i" "map_of (so_body r) ''id'' = Some (JStr ?i)"
      "map_of (so_body r) ''created_at'' = Some (JStr (env_json_time ?E (env_now ?E (w_ticks w1))))"
    using release_create_run [OF ok1 env_total_sample sch crate p files i f] by blast
  have r2: "release_reach ?E w2"
    using release_reach.call [OF r1, of "CreateRelease ?c ''public'' ?b ?a ''ok'' ''single_human'' ''v1'' (sample_urn ''correlation'')"] run
    by simp
  from release_create_Inr [OF ok1 run] obtain e1 where
    fst: "release_first ?E r" and b: "map_of (so_body r) ''crate_id'' = Some (JStr ?c)"
      "map_of (so_body r) ''bundle'' = Some (bundle_json sample_files (compute_root_hash (file_pairs sample_files)))"
    and com1: "committed ?E [r] [] e1 w1 w2" and an: "announces e1 [r]" and ty1: "de_event_type e1 = ''release.approved''"
    by auto
  have hist: "history_of (w_db w2) ?i = [r]"
    unfolding history_of_def committed_tables(1) [OF com1] using i(2) by (simp add: history_of_def r(1))
  have ev: "map ae_event (domain_events_tbl (w_db w2)) = [e0, e1]"
    using com0 com1 by (auto simp: committed_def commit_def empty_world_def empty_db_def)
  have k: "so_kind r = ''ReleaseRecord''" "status_of r = Some ''released''"
    using fst by (simp_all add: release_first_def created_def machine_defs)
  have cr: "map_of (so_body r) ''created_at'' = Some (JStr (isoformat 1700000000000003))"
    using r(3) by (simp add: t1(1) sample_env_def)
  have oi: "de_object_id e1 = ?i" using an r(1) by (simp add: announces_def)
  show thesis
    by (rule that [OF r2 hist _ k(1) r(2) b(2) cr b(1) k(2) ev ty0 ty1 oi]) (use fst in \<open>simp add: release_first_def\<close>)
qed

theorem releases_stay_approved_witness:
  "\<exists>(w :: world). statuses (w_db w) sample_release \<in> {[Some ''released''], [Some ''released'', Some ''superseded'']} \<and>
     approved_release sample_env (hd (history_of (w_db w) sample_release)) \<and> length (history_of (w_db w) sample_release) = 1"
proof -
  obtain w r where w: "release_reach sample_env w" "history_of (w_db w) sample_release = [r]" "so_kind r = ''ReleaseRecord''"
    by (rule release_world)
  have k: "is_kind ''ReleaseRecord'' (w_db w) sample_release" by (simp add: is_kind_def w)
  from releases_stay_approved [OF w(1) k] have
    "statuses (w_db w) sample_release = [Some ''released''] \<or> statuses (w_db w) sample_release = [Some ''released'', Some ''superseded'']"
    "approved_release sample_env (hd (history_of (w_db w) sample_release))" by blast+
  then show ?thesis by (intro exI [of _ w] conjI) (simp_all add: w(2))
qed

theorem supersessions_end_witness:
  "\<exists>(w :: world). acyclic (supersessions (w_db w)) \<and>
     (\<exists>j. (sample_release, j) \<in> (supersessions (w_db w))\<^sup>* \<and> is_released (w_db w) j)"
proof -
  obtain w r where w: "release_reach sample_env w" "history_of (w_db w) sample_release = [r]" "so_kind r = ''ReleaseRecord''"
    by (rule release_world)
  have k: "is_kind ''ReleaseRecord'' (w_db w) sample_release" by (simp add: is_kind_def w)
  show ?thesis by (rule exI [of _ w], rule supersessions_end [OF w(1) k])
qed

lemma verify_bundle_dir_exact_witness:
  "\<exists>(w :: world) v. verify_bundle_dir sample_release [(''b'', ''x'')] w = (Inr v, w) \<and> \<not> vr_matched v \<and>
     \<lparr>pd_path = ''a'', pd_kind = Missing\<rparr> \<in> set (vr_diffs v) \<and> \<lparr>pd_path = ''b'', pd_kind = Extra\<rparr> \<in> set (vr_diffs v)"
proof -
  obtain w r where w: "release_reach sample_env w" "history_of (w_db w) sample_release = [r]" "so_kind r = ''ReleaseRecord''"
    "map_of (so_body r) ''bundle'' = Some (bundle_json sample_files (compute_root_hash (file_pairs sample_files)))"
    by (rule release_world)
  have ok: "world_ok sample_env w" using release_reach_ok [OF w(1)] by (simp add: service_ok_def)
  have h: "history_of (w_db w) sample_release \<noteq> []" "so_kind (last (history_of (w_db w) sample_release)) = ''ReleaseRecord''"
    "map_of (so_body (last (history_of (w_db w) sample_release))) ''bundle'' =
       Some (bundle_json sample_files (compute_root_hash (file_pairs sample_files)))" using w by simp_all
  have files: "sorted (map bf_path sample_files)" "distinct (map bf_path sample_files)"
    "distinct (map fst [(''b'', ''x'' :: bytes)])" by (simp_all add: sample_files_def)
  have c: "content_files [(''b'', ''x'')] = {(''b'', content_hash ''x'')}"
    by (auto simp: content_files_def EXCLUDED_FILENAMES_def)
  have p: "set (file_pairs sample_files) = {(''a'', content_hash ''x'')}" by (simp add: file_pairs_def sample_files_def)
  from verify_bundle_dir_exact [OF ok h files] obtain v where
    v: "verify_bundle_dir sample_release [(''b'', ''x'')] w = (Inr v, w)"
    "vr_matched v \<longleftrightarrow> content_files [(''b'', ''x'')] = set (file_pairs sample_files)"
    "set (vr_diffs v) = {d. differs (set (file_pairs sample_files)) (content_files [(''b'', ''x'')]) d}" by blast
  show ?thesis
    using v(1) by (intro exI [of _ w] exI [of _ v] conjI) (simp_all add: v(2,3) c p differs_def)
qed

lemma release_status_exact_witness:
  "\<exists>(w :: world) b. release_status True sample_release w = (Inr b, w) \<and> rb_verdict b = Current \<and>
     \<not> rb_duplicate_unsuperseded_releases b"
proof -
  obtain w r e0 e1 where w: "release_reach sample_env w" "history_of (w_db w) sample_release = [r]" "so_kind r = ''ReleaseRecord''"
    and b: "map_of (so_body r) ''id'' = Some (JStr sample_release)"
      "map_of (so_body r) ''bundle'' = Some (bundle_json sample_files (compute_root_hash (file_pairs sample_files)))"
      "map_of (so_body r) ''created_at'' = Some (JStr (isoformat 1700000000000003))"
      "map_of (so_body r) ''crate_id'' = Some (JStr (sample_urn ''crate''))" "status_of r = Some ''released''"
    and e: "map ae_event (domain_events_tbl (w_db w)) = [e0, e1]"
      "de_event_type e0 = ''crate.created''" "de_event_type e1 = ''release.approved''" "de_object_id e1 = sample_release"
    by (rule release_world)
  have ok: "world_ok sample_env w" using release_reach_ok [OF w(1)] by (simp add: service_ok_def)
  have none: "recorded_corrections (w_db w) = []" by (simp add: recorded_corrections_def e)
  have one: "length (unsuperseded_releases (w_db w) c) \<le> 1" for c
    unfolding unsuperseded_releases_def
    by (rule order_trans [OF length_filter_le]) (simp add: e sorted_set_def)
  have st: "map_of (so_body r) ''status'' = Some (JStr ''released'')" using b(5) unfolding dget_str_status [symmetric] by simp
  have t: "fromisoformat (isoformat 1700000000000003) = Inr 1700000000000003" by code_simp
  have d: "dget_str (so_body r) ''id'' = Inr sample_release" "dget_str (so_body r) ''crate_id'' = Inr (sample_urn ''crate'')"
    "dget_str (so_body r) ''status'' = Inr ''released''"
    "dget_str (so_body r) ''created_at'' = Inr (isoformat 1700000000000003)" using b st by simp_all
  obtain b' where run: "release_status True sample_release w = (Inr b', w)"
    using w d t
    by (simp del: dget_str_Inr add: release_status_def bindp_def guardp_run lift_run get_latest_run [OF world_ok_parts(2) [OF ok]] last_opt_def
        read_correction_bodies_run [OF ok] none duplicates_run [OF ok] compute_release_banner_def
        bundle_paths_json [OF b(2)] affecting_corrections_def)
  note x = release_status_exact [OF ok run, unfolded Let_def none w(2) last.simps]
  have ns: "map_of (so_body r) ''status'' \<noteq> Some (JStr ''superseded'')" using st by simp
  from x have "rb_verdict b' = Current" using ns by (simp add: w(2)) blast
  moreover have "\<not> rb_duplicate_unsuperseded_releases b'" using x one by (simp add: not_less)
  ultimately show ?thesis using run by (intro exI [of _ w] exI [of _ b'] conjI)
qed

end
