(* ===== verification/Event_Sourcing.thy ===== *)
theory Event_Sourcing
  imports Governed_Objects
begin

text \<open>
  Objects whose status is in the event log. Task bundles and transfer contracts are signed, so
  a change of status writes no revision: it appends an event, and the current status is the one
  the last such event names. This is what the two services share of
  \<^verbatim>\<open>services/control_plane/mrr/services/task_bundle/service.py\<close> and
  \<^verbatim>\<open>.../transfer/service.py\<close>: the reading of the status, the event-only step, and the contract
  of a service that writes rows of its kind and events on them.
\<close>

section \<open>The status and the event-only step\<close>

definition current_status :: "string set \<Rightarrow> stored_object \<Rightarrow> (world, string) prog" where
  "current_status types latest =
     bindp read_all (\<lambda>as.
       case last_opt (filter (\<lambda>e. de_object_id e = so_id latest \<and> de_event_type e \<in> types) (map ae_event as)) of
         None \<Rightarrow> lift (dget_str (so_body latest) ''status'')
       | Some e \<Rightarrow> lift (dget_str (de_payload e) ''to_status''))"

record event_transition =
  et_content :: stored_object
  et_status :: string
  et_appended_event :: appended_event

definition note_event ::
  "env \<Rightarrow> call_ctx \<Rightarrow> stored_object \<Rightarrow> string \<Rightarrow> string \<Rightarrow> dict \<Rightarrow> (world, event_transition) prog" where
  "note_event E ctx latest status event_type payload =
     bindp (make_event E ctx event_type (now E) (last_event_id_for (so_id latest)) (so_id latest)
       (so_revision latest) payload) (\<lambda>e.
     bindp (record_event E (ret ()) e) (\<lambda>appended.
     ret \<lparr>et_content = latest, et_status = status, et_appended_event = appended\<rparr>))"

definition advance ::
  "env \<Rightarrow> call_ctx \<Rightarrow> state_machine \<Rightarrow> stored_object \<Rightarrow> string \<Rightarrow> string \<Rightarrow> string \<Rightarrow> dict \<Rightarrow>
   (world, event_transition) prog" where
  "advance E ctx M latest current to_status event_type payload =
     bindp (lift (assert_transition M current to_status)) (\<lambda>_.
     note_event E ctx latest to_status event_type payload)"

text \<open>Several edges and an event in one transaction.\<close>

definition bind_edges_unit_of_work ::
  "env \<Rightarrow> typed_edge list \<Rightarrow> domain_event \<Rightarrow> (world, typed_edge list \<times> appended_event) prog" where
  "bind_edges_unit_of_work E edges e =
     bindp (mapp (\<lambda>edge. guardp (te_edge_type edge \<in> EDGE_VOCABULARY)
              (UnknownEdgeTypeError (te_edge_type edge))) edges) (\<lambda>_.
     tx (bindp (mapp insert_edge_row edges) (\<lambda>_.
         bindp (append_event E e) (\<lambda>appended. ret (edges, appended)))))"

section \<open>What they write\<close>

lemma record_event_Inr:
  assumes ok: "world_ok E w" and e: "event_ok e" and run: "record_event E (ret ()) e w = (Inr a, w')"
  shows "ae_event a = e \<and> committed E [] [] e w w'"
proof -
  from run have "append_event E e w = (Inr a, w')"
    by (auto simp: record_event_def unit_eq)
  from append_event_committed [OF ok this e, where w = w and os = "[]" and es = "[]"] show ?thesis by simp
qed

lemma record_event_Inl: "record_event E (ret ()) e w = (Inl x, w') \<Longrightarrow> same_db w w'"
  unfolding record_event_def
  by (rule tx_Inl_same_db [rotated]) (assumption, intro keeps_bindp keeps_pure seq_monotone append_event_seq)

lemma aon_record_event: "all_or_nothing (record_event E (ret ()) e)"
  unfolding all_or_nothing_def by (blast dest: record_event_Inl)

lemma edges_unit_of_work_Inr:
  assumes ok: "world_ok E w" and e: "event_ok e"
    and run: "bind_edges_unit_of_work E es e w = (Inr (es', a), w')"
  shows "es' = es \<and> ae_event a = e \<and> te_edge_type ` set es \<subseteq> EDGE_VOCABULARY \<and> committed E [] es e w w'"
proof -
  from run obtain us w0 w1 vs where
    g: "mapp (\<lambda>edge. guardp (te_edge_type edge \<in> EDGE_VOCABULARY)
           (UnknownEdgeTypeError (te_edge_type edge))) es w = (Inr us, w0)"
    and eds: "mapp insert_edge_row es w0 = (Inr vs, w1)"
    and app: "append_event E e w1 = (Inr a, w')" and es': "es' = es"
    by (auto simp: bind_edges_unit_of_work_def)
  have w0: "w0 = w" and voc: "te_edge_type ` set es \<subseteq> EDGE_VOCABULARY" using vocabulary_guards [OF g] by simp_all
  from insert_edge_rows_run [OF world_ok_parts(3) [OF ok] eds [unfolded w0]]
  have w1: "w1 = w\<lparr>w_db := (w_db w)\<lparr>edges_tbl := edges_tbl (w_db w) @ es\<rparr>\<rparr>" and "edges_ok (w_db w1)" by blast+
  note \<open>edges_ok (w_db w1)\<close>
  moreover have "objects_ok (w_db w1)" by (rule objects_ok_cong [OF world_ok_parts(2) [OF ok]]) (simp add: w1)
  moreover have "log_ok E w1" by (rule log_ok_cong [OF world_ok_parts(1) [OF ok]]) (simp_all add: w1)
  ultimately have ok1: "world_ok E w1" by (simp add: world_ok_def)
  from append_event_committed [OF ok1 app e, where w = w and os = "[]" and es = es] show ?thesis
    using es' voc by (simp add: w1)
qed

lemma edges_unit_of_work_Inl:
  assumes "bind_edges_unit_of_work E es e w = (Inl x, w')"
  shows "same_db w w'"
proof -
  obtain q w0 where g: "mapp (\<lambda>edge. guardp (te_edge_type edge \<in> EDGE_VOCABULARY)
           (UnknownEdgeTypeError (te_edge_type edge))) es w = (q, w0)" by fastforce
  have w0: "w0 = w" using vocabulary_guards [OF g] by simp
  show ?thesis
  proof (cases q)
    case (Inl y)
    with assms g w0 show ?thesis by (simp add: bind_edges_unit_of_work_def bindp_def)
  next
    case (Inr us)
    with assms g w0 have "tx (bindp (mapp insert_edge_row es) (\<lambda>_.
         bindp (append_event E e) (\<lambda>appended. ret (es, appended)))) w = (Inl x, w')"
      by (simp add: bind_edges_unit_of_work_def bindp_def [of "mapp _ _"])
    then show ?thesis
      by (rule tx_Inl_same_db [rotated]) (intro keeps_bindp keeps_pure seq_monotone append_event_seq seq_insert_edge_rows)
  qed
qed

lemma aon_edges: "all_or_nothing (bind_edges_unit_of_work E es e)"
  unfolding all_or_nothing_def by (blast dest: edges_unit_of_work_Inl)

lemma readonly_current_status [readonly]: "keeps same_db (current_status types latest)"
  unfolding current_status_def by (intro readonly)

lemma note_event_aon: "all_or_nothing (note_event E ctx latest s ty p)"
  unfolding note_event_def by (intro aon_bindp aon_ret aon_record_event readonly)

lemma advance_aon: "all_or_nothing (advance E ctx M latest c s ty p)"
  unfolding advance_def by (intro aon_bindp note_event_aon readonly)

lemma note_event_Inr:
  assumes ok: "world_ok E w" and run: "note_event E ctx latest s ty p w = (Inr x, w')"
  shows "et_content x = latest \<and> et_status x = s \<and>
    (\<exists>e. ae_event (et_appended_event x) = e \<and> committed E [] [] e w w' \<and> event_ok e \<and>
       de_event_type e = ty \<and> de_object_id e = so_id latest \<and> de_object_revision e = so_revision latest \<and>
       de_payload e = p \<and> de_actor e = cx_actor ctx)"
proof -
  from run [unfolded note_event_def] obtain e w1 a where
    s1: "make_event E ctx ty (now E) (last_event_id_for (so_id latest)) (so_id latest) (so_revision latest) p w = (Inr e, w1)"
    and s2: "record_event E (ret ()) e w1 = (Inr a, w')"
    and x: "x = \<lparr>et_content = latest, et_status = s, et_appended_event = a\<rparr>"
    by (elim bindp_InrE ret_InrE) (hypsubst+, rule that, (assumption | rule refl)+)
  note ev = make_event_Inr [OF s1 readonly_now readonly_last_event]
  have k: "same_db w w1" and eo: "event_ok e" using ev by blast+
  from record_event_Inr [OF world_ok_same_db [OF ok k] eo s2] have
    "ae_event a = e" "committed E [] [] e w w'" by (auto intro: committed_from [OF k])
  with ev x eo show ?thesis by simp
qed

section \<open>What a service that records owes\<close>

text \<open>
  One transaction of such a service: an event, with at most one revision that it announces. The
  locale is the contract of a service all of whose calls are such transactions; what
  \<open>service_ok\<close> says of revisions and events then holds after every call.
\<close>

definition entry ::
  "string \<Rightarrow> (stored_object \<Rightarrow> bool) \<Rightarrow> (stored_object \<Rightarrow> stored_object \<Rightarrow> bool) \<Rightarrow>
   (stored_object \<Rightarrow> domain_event \<Rightarrow> bool) \<Rightarrow> db \<Rightarrow> stored_object list \<Rightarrow> domain_event \<Rightarrow> bool" where
  "entry kind first step told d os e \<longleftrightarrow>
     os = [] \<or> (\<exists>r. os = [r] \<and> announces e [r] \<and> told r e \<and> fits kind first step d r)"

definition records ::
  "env \<Rightarrow> string \<Rightarrow> (stored_object \<Rightarrow> bool) \<Rightarrow> (stored_object \<Rightarrow> stored_object \<Rightarrow> bool) \<Rightarrow>
   (stored_object \<Rightarrow> domain_event \<Rightarrow> bool) \<Rightarrow> world \<Rightarrow> world \<Rightarrow> bool" where
  "records E kind first step told w w' \<longleftrightarrow>
     same_db w w' \<or> (\<exists>os es e. committed E os es e w w' \<and> entry kind first step told (w_db w) os e)"

lemma records_same: "same_db w w' \<Longrightarrow> records E kind first step told w w'"
  by (simp add: records_def)

lemma records_note: "committed E [] es e w w' \<Longrightarrow> records E kind first step told w w'"
  unfolding records_def entry_def by blast

lemma records_row:
  "committed E [r] es e w w' \<Longrightarrow> announces e [r] \<Longrightarrow> told r e \<Longrightarrow> fits kind first step (w_db w) r \<Longrightarrow>
     records E kind first step told w w'"
  unfolding records_def entry_def by blast

lemma records_aon:
  assumes "all_or_nothing m" and "m w = (q, w')" and "\<And>r. q = Inr r \<Longrightarrow> records E kind first step told w w'"
  shows "records E kind first step told w w'"
proof (cases q)
  case (Inl x)
  with assms(1,2) show ?thesis unfolding all_or_nothing_def by (blast intro: records_same)
qed (use assms(3) in blast)

lemma records_keep:
  assumes r: "records E kind first step told w w'" and ok: "service_ok E kind first step told w"
  shows "service_ok E kind first step told w'"
  using r unfolding records_def entry_def
  by (elim disjE exE conjE)
    (blast intro: service_ok_same_db [OF ok],
     simp, rule service_ok_foreign [OF ok], assumption, simp,
     simp, rule service_ok_row [OF ok], assumption+)

lemma records_foreign:
  assumes r: "records E kind first step told w w'" and k: "kind' \<noteq> kind"
    and ok: "service_ok E kind' first' step' told' w"
  shows "service_ok E kind' first' step' told' w'"
  using r unfolding records_def entry_def
proof (elim disjE exE conjE)
  assume "same_db w w'"
  with ok show ?thesis by (rule service_ok_same_db)
next
  fix os es e assume "committed E os es e w w'" "os = []"
  with ok show ?thesis by (auto intro: service_ok_foreign)
next
  fix os es e r assume c: "committed E os es e w w'" "os = [r]" "fits kind first step (w_db w) r"
  show ?thesis
    by (rule service_ok_foreign [OF ok c(1)]) (use fits_foreign [OF c(3) k] c(2) in simp)
qed

locale recording_service =
  fixes E :: env and kind :: string and first :: "stored_object \<Rightarrow> bool"
    and step :: "stored_object \<Rightarrow> stored_object \<Rightarrow> bool"
    and told :: "stored_object \<Rightarrow> domain_event \<Rightarrow> bool"
    and run :: "'c \<Rightarrow> world \<Rightarrow> world" and call_ok :: "db \<Rightarrow> 'c \<Rightarrow> bool"
  assumes run_records:
    "service_ok E kind first step told w \<Longrightarrow> call_ok (w_db w) c \<Longrightarrow> records E kind first step told w (run c w)"
begin

lemma run_keeps:
  "service_ok E kind first step told w \<Longrightarrow> call_ok (w_db w) c \<Longrightarrow>
     service_ok E kind first step told (run c w)"
  by (blast intro: records_keep run_records)

lemma run_keeps_others:
  "service_ok E kind first step told w \<Longrightarrow> call_ok (w_db w) c \<Longrightarrow> kind' \<noteq> kind \<Longrightarrow>
     service_ok E kind' first' step' told' w \<Longrightarrow> service_ok E kind' first' step' told' (run c w)"
  by (blast intro: records_foreign run_records)

end

section \<open>The status as the log tells it\<close>

text \<open>
  The statuses an event moves its object through: the one it passes, if it names one, and the
  one it ends in. The trace of an object is what the transition events about it say, in order.
\<close>

fun str_in :: "json option \<Rightarrow> string list" where
  "str_in (Some (JStr s)) = [s]"
| "str_in _ = []"

definition event_moves :: "domain_event \<Rightarrow> string list" where
  "event_moves e = str_in (map_of (de_payload e) ''via'') @ str_in (map_of (de_payload e) ''to_status'')"

definition transition_events :: "string set \<Rightarrow> db \<Rightarrow> string \<Rightarrow> domain_event list" where
  "transition_events types d i =
     filter (\<lambda>e. de_object_id e = i \<and> de_event_type e \<in> types) (map ae_event (domain_events_tbl d))"

definition status_trace :: "string set \<Rightarrow> db \<Rightarrow> string \<Rightarrow> string list" where
  "status_trace types d i = concat (map event_moves (transition_events types d i))"

definition status_now :: "state_machine \<Rightarrow> string set \<Rightarrow> db \<Rightarrow> string \<Rightarrow> string" where
  "status_now M types d i = last (sm_initial M # status_trace types d i)"

definition ends_somewhere :: "domain_event \<Rightarrow> bool" where
  "ends_somewhere e \<longleftrightarrow> (\<exists>s. map_of (de_payload e) ''to_status'' = Some (JStr s))"

definition tracked :: "string \<Rightarrow> state_machine \<Rightarrow> string set \<Rightarrow> db \<Rightarrow> bool" where
  "tracked kind M types d \<longleftrightarrow>
     (\<forall>i. if is_kind kind d i
          then enforced M (sm_initial M # status_trace types d i) \<and>
               list_all ends_somewhere (transition_events types d i) \<and>
               (transition_events types d i = [] \<longrightarrow>
                  status_of (last (history_of d i)) = Some (sm_initial M))
          else transition_events types d i = [])"

lemma trackedD:
  assumes "tracked kind M types d" and "is_kind kind d i"
  shows "enforced M (sm_initial M # status_trace types d i)"
    and "list_all ends_somewhere (transition_events types d i)"
    and "transition_events types d i = [] \<Longrightarrow> status_of (last (history_of d i)) = Some (sm_initial M)"
  using assms unfolding tracked_def by metis+

lemma tracked_empty: "tracked kind M types empty_db"
  by (simp add: tracked_def is_kind_def history_of_def empty_db_def transition_events_def)

lemma tracked_same: "same_db w w' \<Longrightarrow> tracked kind M types (w_db w) \<Longrightarrow> tracked kind M types (w_db w')"
  by (simp add: same_db_def)

lemma event_moves_last: "ends_somewhere e \<Longrightarrow> event_moves e \<noteq> [] \<and> map_of (de_payload e) ''to_status'' = Some (JStr (last (event_moves e)))"
  by (auto simp: ends_somewhere_def event_moves_def)

lemma current_status_run:
  assumes ok: "world_ok E w" and t: "tracked kind M types (w_db w)" and k: "is_kind kind (w_db w) i"
    and l: "latest = last (history_of (w_db w) i)"
  shows "current_status types latest w = (Inr (status_now M types (w_db w) i), w)"
proof -
  let ?es = "transition_events types (w_db w) i"
  have ne: "history_of (w_db w) i \<noteq> []" using k by (auto simp: is_kind_def)
  then have "last (history_of (w_db w) i) \<in> set (history_of (w_db w) i)" by (rule last_in_set)
  then have i: "so_id latest = i" by (simp add: history_of_def l)
  have run: "current_status types latest w =
      (case last_opt ?es of
         None \<Rightarrow> lift (dget_str (so_body latest) ''status'')
       | Some e \<Rightarrow> lift (dget_str (de_payload e) ''to_status'')) w"
    by (simp add: current_status_def bindp_def read_all_run [OF world_ok_parts(1) [OF ok]] i transition_events_def)
  show ?thesis
  proof (cases "?es = []")
    case True
    with trackedD(3) [OF t k] have "dget_str (so_body latest) ''status'' = Inr (sm_initial M)"
      unfolding dget_str_status l by blast
    then show ?thesis unfolding run using True by (simp add: lift_run status_now_def status_trace_def)
  next
    case False
    then obtain fs e where es: "?es = fs @ [e]" by (metis rev_exhaust)
    with trackedD(2) [OF t k] have "ends_somewhere e" by simp
    note m = event_moves_last [OF this]
    have "last_opt ?es = Some e" by (simp add: es)
    moreover have "status_now M types (w_db w) i = last (event_moves e)"
      using m by (simp add: status_now_def status_trace_def es)
    ultimately show ?thesis unfolding run using m by (simp add: lift_run)
  qed
qed

lemma enforced_join: "enforced M xs \<Longrightarrow> xs \<noteq> [] \<Longrightarrow> enforced M (last xs # ys) \<Longrightarrow> enforced M (xs @ ys)"
proof (induction M xs rule: enforced.induct)
  case (1 m a b xs)
  then show ?case by simp
qed (auto split: list.splits)

lemma transition_events_commit:
  "d' = commit os es a t d \<Longrightarrow> transition_events types d' i = transition_events types d i @
     (if de_object_id (ae_event a) = i \<and> de_event_type (ae_event a) \<in> types then [ae_event a] else [])"
  by (simp add: transition_events_def)

lemma tracked_foreign:
  assumes t: "tracked kind M types (w_db w)" and c: "committed E os es e w w'"
    and f: "\<forall>r \<in> set os. so_kind r \<noteq> kind \<and> \<not> is_kind kind (w_db w) (so_id r)" and ty: "de_event_type e \<notin> types"
  shows "tracked kind M types (w_db w')"
proof -
  from c obtain a ti where a: "ae_event a = e" and d: "w_db w' = commit os es a ti (w_db w)" by (auto simp: committed_def)
  have te: "transition_events types (w_db w') i = transition_events types (w_db w) i" for i
    unfolding transition_events_commit [OF d] using ty by (simp add: a)
  have h: "history_of (w_db w') i = history_of (w_db w) i @ filter (\<lambda>r. so_id r = i) os" for i
    by (simp add: history_of_def d)
  have k: "is_kind kind (w_db w') i \<longleftrightarrow> is_kind kind (w_db w) i" for i
    using f unfolding is_kind_def h by auto
  have "history_of (w_db w') i = history_of (w_db w) i" if "is_kind kind (w_db w) i" for i
    using f that unfolding h by (auto simp: filter_empty_conv)
  then show ?thesis using t unfolding tracked_def te k status_trace_def by simp
qed

lemma tracked_created:
  assumes t: "tracked kind M types (w_db w)" and c: "committed E [r] es e w w'"
    and r: "created kind M r" "history_of (w_db w) (so_id r) = []" and ty: "de_event_type e \<notin> types"
  shows "tracked kind M types (w_db w')"
proof -
  from c obtain a ti where a: "ae_event a = e" and d: "w_db w' = commit [r] es a ti (w_db w)" by (auto simp: committed_def)
  have te: "transition_events types (w_db w') i = transition_events types (w_db w) i" for i
    unfolding transition_events_commit [OF d] using ty by (simp add: a)
  have h: "history_of (w_db w') i = (if so_id r = i then [r] else history_of (w_db w) i)" for i
    using r(2) by (auto simp: history_of_def d)
  have nk: "\<not> is_kind kind (w_db w) (so_id r)" using r(2) by (simp add: is_kind_def)
  have none: "transition_events types (w_db w) (so_id r) = []" using t nk unfolding tracked_def by metis
  show ?thesis
    unfolding tracked_def
  proof
    fix i
    show "if is_kind kind (w_db w') i
          then enforced M (sm_initial M # status_trace types (w_db w') i) \<and>
               list_all ends_somewhere (transition_events types (w_db w') i) \<and>
               (transition_events types (w_db w') i = [] \<longrightarrow>
                  status_of (last (history_of (w_db w') i)) = Some (sm_initial M))
          else transition_events types (w_db w') i = []"
    proof (cases "so_id r = i")
      case True
      then show ?thesis using r(1) none by (simp add: te h is_kind_def status_trace_def created_def)
    next
      case False
      then show ?thesis using t [unfolded tracked_def status_trace_def, rule_format, of i]
        by (simp add: te h is_kind_def status_trace_def)
    qed
  qed
qed

lemma tracked_moved:
  assumes t: "tracked kind M types (w_db w)" and c: "committed E os es e w w'"
    and k: "is_kind kind (w_db w) i" and e: "de_object_id e = i" "de_event_type e \<in> types" "ends_somewhere e"
    and os: "\<forall>r \<in> set os. so_id r = i \<and> so_kind r = kind"
    and m: "enforced M (status_now M types (w_db w) i # event_moves e)"
  shows "tracked kind M types (w_db w')"
    and "status_trace types (w_db w') i = status_trace types (w_db w) i @ event_moves e"
proof -
  from c obtain a ti where a: "ae_event a = e" and d: "w_db w' = commit os es a ti (w_db w)" by (auto simp: committed_def)
  have te: "transition_events types (w_db w') j = transition_events types (w_db w) j @ (if j = i then [e] else [])" for j
    unfolding transition_events_commit [OF d] using e by (simp add: a)
  show tr: "status_trace types (w_db w') i = status_trace types (w_db w) i @ event_moves e"
    by (simp add: status_trace_def te)
  have h: "history_of (w_db w') j = history_of (w_db w) j @ (if j = i then os else [])" for j
    using os by (auto simp: history_of_def d filter_empty_conv filter_id_conv)
  show "tracked kind M types (w_db w')"
    unfolding tracked_def
  proof
    fix j
    show "if is_kind kind (w_db w') j
          then enforced M (sm_initial M # status_trace types (w_db w') j) \<and>
               list_all ends_somewhere (transition_events types (w_db w') j) \<and>
               (transition_events types (w_db w') j = [] \<longrightarrow>
                  status_of (last (history_of (w_db w') j)) = Some (sm_initial M))
          else transition_events types (w_db w') j = []"
    proof (cases "j = i")
      case True
      have k': "is_kind kind (w_db w') i" using k by (auto simp: is_kind_def h)
      have "enforced M ((sm_initial M # status_trace types (w_db w) i) @ event_moves e)"
        by (rule enforced_join [OF trackedD(1) [OF t k]]) (use m in \<open>simp_all add: status_now_def\<close>)
      then show ?thesis using True k' trackedD(2) [OF t k] e(3) by (simp add: tr te)
    next
      case False
      then show ?thesis using t [unfolded tracked_def status_trace_def, rule_format, of j]
        by (simp add: te h is_kind_def status_trace_def)
    qed
  qed
qed

text \<open>
  The contract of a service whose objects have their status in the log: a call writes nothing, or
  one transaction, which creates an object, or notes an event, or revises an object. An event of
  a transition type moves its object along the lifecycle.
\<close>

definition moves_on :: "string \<Rightarrow> state_machine \<Rightarrow> string set \<Rightarrow> db \<Rightarrow> domain_event \<Rightarrow> bool" where
  "moves_on kind M types d e \<longleftrightarrow>
     is_kind kind d (de_object_id e) \<and> de_event_type e \<in> types \<and> ends_somewhere e \<and>
     enforced M (status_now M types d (de_object_id e) # event_moves e)"

definition journals ::
  "env \<Rightarrow> string \<Rightarrow> state_machine \<Rightarrow> string set \<Rightarrow> (stored_object \<Rightarrow> bool) \<Rightarrow>
   (stored_object \<Rightarrow> stored_object \<Rightarrow> bool) \<Rightarrow> (stored_object \<Rightarrow> domain_event \<Rightarrow> bool) \<Rightarrow> world \<Rightarrow> world \<Rightarrow> bool" where
  "journals E kind M types first step told w w' \<longleftrightarrow>
     same_db w w' \<or>
     (\<exists>r e. committed E [r] [] e w w' \<and> announces e [r] \<and> told r e \<and> de_event_type e \<notin> types \<and>
        history_of (w_db w) (so_id r) = [] \<and> created kind M r \<and> first r) \<or>
     (\<exists>es e. committed E [] es e w w' \<and>
        (if de_event_type e \<in> types then moves_on kind M types (w_db w) e else True)) \<or>
     (\<exists>r e. committed E [r] [] e w w' \<and> announces e [r] \<and> told r e \<and> moves_on kind M types (w_db w) e \<and>
        so_kind r = kind \<and> addressable kind (w_db w) (so_id r) \<and> step (last (history_of (w_db w) (so_id r))) r)"

lemma journals_still: "same_db w w' \<Longrightarrow> journals E kind M types first step told w w'"
  by (simp add: journals_def)

lemma journals_create:
  "committed E [r] [] e w w' \<Longrightarrow> announces e [r] \<Longrightarrow> told r e \<Longrightarrow> de_event_type e \<notin> types \<Longrightarrow>
     history_of (w_db w) (so_id r) = [] \<Longrightarrow> created kind M r \<Longrightarrow> first r \<Longrightarrow>
     journals E kind M types first step told w w'"
  unfolding journals_def by blast

lemma journals_move:
  "committed E [] es e w w' \<Longrightarrow> moves_on kind M types (w_db w) e \<Longrightarrow> journals E kind M types first step told w w'"
  unfolding journals_def by (metis (full_types))

lemma journals_note:
  "committed E [] es e w w' \<Longrightarrow> de_event_type e \<notin> types \<Longrightarrow> journals E kind M types first step told w w'"
  unfolding journals_def by metis

lemma journals_revise:
  "committed E [r] [] e w w' \<Longrightarrow> announces e [r] \<Longrightarrow> told r e \<Longrightarrow> moves_on kind M types (w_db w) e \<Longrightarrow>
     so_kind r = kind \<Longrightarrow> addressable kind (w_db w) (so_id r) \<Longrightarrow> step (last (history_of (w_db w) (so_id r))) r \<Longrightarrow>
     journals E kind M types first step told w w'"
  unfolding journals_def by blast

lemma journals_aon:
  assumes "all_or_nothing m" and "m w = (q, w')" and "\<And>r. q = Inr r \<Longrightarrow> journals E kind M types first step told w w'"
  shows "journals E kind M types first step told w w'"
proof (cases q)
  case (Inl x)
  with assms(1,2) show ?thesis unfolding all_or_nothing_def by (blast intro: journals_still)
qed (use assms(3) in blast)

lemma journals_from:
  assumes k: "same_db v w" and j: "journals E kind M types first step told w w'"
  shows "journals E kind M types first step told v w'"
proof -
  have db: "w_db w = w_db v" using k by (simp add: same_db_def)
  have still: "same_db w w' \<Longrightarrow> same_db v w'" by (rule transpD [OF transp_same_db k])
  have c: "committed E os es e w w' \<Longrightarrow> committed E os es e v w'" for os es e by (rule committed_from [OF k])
  from j show ?thesis unfolding journals_def db using still c by (elim disjE) blast+
qed

lemma moves_on_event: "moves_on kind M types d e \<Longrightarrow> history_of d (de_object_id e) \<noteq> []"
  by (auto simp: moves_on_def is_kind_def)

lemma journals_records: "journals E kind M types first step told w w' \<Longrightarrow> records E kind first step told w w'"
  unfolding journals_def
proof (elim disjE exE conjE)
  fix r e assume c: "committed E [r] [] e w w'" "announces e [r]" "told r e"
    and h: "history_of (w_db w) (so_id r) = []" and k: "created kind M r" and f: "first r"
  have "fits kind first step (w_db w) r" using h k f by (simp add: fits_def created_def)
  with c show ?thesis by (rule records_row)
next
  fix r e assume c: "committed E [r] [] e w w'" "announces e [r]" "told r e"
    and m: "moves_on kind M types (w_db w) e" and k: "so_kind r = kind"
    and ad: "addressable kind (w_db w) (so_id r)" and s: "step (last (history_of (w_db w) (so_id r))) r"
  have "history_of (w_db w) (so_id r) \<noteq> []" using moves_on_event [OF m] c(2) by (simp add: announces_def)
  then have "fits kind first step (w_db w) r" using k ad s by (simp add: fits_def addressable_def)
  with c show ?thesis by (rule records_row)
qed (blast intro: records_same records_note)+

lemma journals_tracked:
  assumes j: "journals E kind M types first step told w w'" and t: "tracked kind M types (w_db w)"
  shows "tracked kind M types (w_db w')"
  using j unfolding journals_def
proof (elim disjE exE conjE)
  assume "same_db w w'"
  then show ?thesis using t by (rule tracked_same)
next
  fix r e assume "committed E [r] [] e w w'" "created kind M r" "history_of (w_db w) (so_id r) = []" "de_event_type e \<notin> types"
  with t show ?thesis by (rule tracked_created)
next
  fix es e assume c: "committed E [] es e w w'"
    and m: "if de_event_type e \<in> types then moves_on kind M types (w_db w) e else True"
  show ?thesis
  proof (cases "de_event_type e \<in> types")
    case True
    with m have "moves_on kind M types (w_db w) e" by simp
    then show ?thesis by (intro tracked_moved(1) [OF t c _ refl]) (simp_all add: moves_on_def)
  next
    case False
    show ?thesis by (rule tracked_foreign [OF t c _ False]) simp
  qed
next
  fix r e assume c: "committed E [r] [] e w w'" and an: "announces e [r]"
    and m: "moves_on kind M types (w_db w) e" and k: "so_kind r = kind"
  show ?thesis
    by (intro tracked_moved(1) [OF t c _ refl]) (use m an k in \<open>simp_all add: moves_on_def announces_def\<close>)
qed

definition journal_ok ::
  "env \<Rightarrow> string \<Rightarrow> state_machine \<Rightarrow> string set \<Rightarrow> (stored_object \<Rightarrow> bool) \<Rightarrow>
   (stored_object \<Rightarrow> stored_object \<Rightarrow> bool) \<Rightarrow> (stored_object \<Rightarrow> domain_event \<Rightarrow> bool) \<Rightarrow> world \<Rightarrow> bool" where
  "journal_ok E kind M types first step told w \<longleftrightarrow>
     service_ok E kind first step told w \<and> tracked kind M types (w_db w)"

lemma journal_ok_empty: "journal_ok E kind M types first step told empty_world"
  unfolding journal_ok_def by (rule conjI [OF service_ok_empty]) (simp add: empty_world_def tracked_empty)

lemma journal_ok_same: "journal_ok E kind M types first step told w \<Longrightarrow> same_db w w' \<Longrightarrow> journal_ok E kind M types first step told w'"
  unfolding journal_ok_def by (metis service_ok_same_db tracked_same)

lemma journal_ok_foreign:
  assumes "journal_ok E kind M types first step told w" and "committed E os es e w w'" and "de_event_type e \<notin> types"
    and "\<forall>r \<in> set os. so_kind r \<noteq> kind \<and> \<not> is_kind kind (w_db w) (so_id r)"
  shows "journal_ok E kind M types first step told w'"
  using assms service_ok_foreign tracked_foreign unfolding journal_ok_def by metis

lemma journal_ok_world: "journal_ok E kind M types first step told w \<Longrightarrow> world_ok E w"
  by (simp add: journal_ok_def service_ok_def)

locale journaling_service =
  fixes E :: env and kind :: string and M :: state_machine and types :: "string set"
    and first :: "stored_object \<Rightarrow> bool" and step :: "stored_object \<Rightarrow> stored_object \<Rightarrow> bool"
    and told :: "stored_object \<Rightarrow> domain_event \<Rightarrow> bool"
    and run :: "'c \<Rightarrow> world \<Rightarrow> world" and call_ok :: "db \<Rightarrow> 'c \<Rightarrow> bool"
  assumes run_journals:
    "journal_ok E kind M types first step told w \<Longrightarrow> call_ok (w_db w) c \<Longrightarrow>
       journals E kind M types first step told w (run c w)"
begin

lemma run_keeps:
  "journal_ok E kind M types first step told w \<Longrightarrow> call_ok (w_db w) c \<Longrightarrow>
     journal_ok E kind M types first step told (run c w)"
  using run_journals journals_tracked journals_records records_keep unfolding journal_ok_def by metis

lemma run_keeps_others:
  "journal_ok E kind M types first step told w \<Longrightarrow> call_ok (w_db w) c \<Longrightarrow> kind' \<noteq> kind \<Longrightarrow>
     service_ok E kind' first' step' told' w \<Longrightarrow> service_ok E kind' first' step' told' (run c w)"
  using run_journals journals_records records_foreign by metis

end

text \<open>The steps of such a service: a creation, and an event that moves its object to a status.\<close>

lemma create_object_journals:
  assumes ok: "world_ok E w" and run: "create_object E ctx r ty p w = (q, w')"
    and r: "so_revision r = 1 \<Longrightarrow> created kind M r" "first r" and ty: "ty \<notin> types"
    and told: "\<And>e. de_event_type e = ty \<Longrightarrow> told r e"
  shows "journals E kind M types first step told w w'"
proof (rule journals_aon [OF create_object_aon run])
  fix s assume q: "q = Inr s"
  from create_object_Inr [OF ok run [unfolded q]] obtain e where
    s: "s = r" "so_revision r = 1" "history_of (w_db w) (so_id r) = []"
    and e: "committed E [r] [] e w w'" "announces e [r]" "de_event_type e = ty" by blast
  have nt: "de_event_type e \<notin> types" using e(3) ty by simp
  show "journals E kind M types first step told w w'"
    using e(1,2) told [OF e(3)] nt s(3) r(1) [OF s(2)] r(2) unfolding journals_def by blast
qed

lemma advance_Inr:
  assumes ok: "world_ok E w" and run: "advance E ctx M latest c s ty p w = (Inr x, w')"
  shows "can_transition M c s \<and> et_content x = latest \<and> et_status x = s \<and>
    (\<exists>e. ae_event (et_appended_event x) = e \<and> committed E [] [] e w w' \<and>
       de_event_type e = ty \<and> de_object_id e = so_id latest \<and> de_object_revision e = so_revision latest \<and>
       de_payload e = p \<and> de_actor e = cx_actor ctx)"
proof -
  from run [unfolded advance_def] have "can_transition M c s" and n: "note_event E ctx latest s ty p w = (Inr x, w')"
    by (elim bindp_InrE lift_InrE, simp)+
  with note_event_Inr [OF ok n] show ?thesis by blast
qed

lemma moves_onI:
  assumes "is_kind kind d i" and "de_object_id e = i" and "de_event_type e \<in> types"
    and "map_of (de_payload e) ''to_status'' = Some (JStr s)" and "map_of (de_payload e) ''via'' = None"
    and "can_transition M (status_now M types d i) s"
  shows "moves_on kind M types d e" and "event_moves e = [s]"
  using assms by (simp_all add: moves_on_def event_moves_def ends_somewhere_def)

text \<open>After a move the trace has grown by it.\<close>

lemma moved_trace:
  assumes "tracked kind M types (w_db w)" and "committed E os es e w w'" and "moves_on kind M types (w_db w) e"
    and "\<forall>r \<in> set os. so_id r = de_object_id e \<and> so_kind r = kind"
  shows "status_trace types (w_db w') (de_object_id e) = status_trace types (w_db w) (de_object_id e) @ event_moves e"
    and "status_now M types (w_db w') (de_object_id e) = last (event_moves e)"
proof -
  show t: "status_trace types (w_db w') (de_object_id e) = status_trace types (w_db w) (de_object_id e) @ event_moves e"
    by (rule tracked_moved(2) [OF assms(1,2) _ refl]) (use assms(3,4) in \<open>simp_all add: moves_on_def\<close>)
  have "event_moves e \<noteq> []" using assms(3) event_moves_last by (simp add: moves_on_def)
  then show "status_now M types (w_db w') (de_object_id e) = last (event_moves e)" by (simp add: status_now_def t)
qed

section \<open>Running forward\<close>

lemma make_event_now_run:
  assumes ok: "world_ok E w" and ctx: "ctx_ok ctx" and E: "env_total E" and i: "is_valid_urn i"
    and ty: "non_empty ty" and n: "1 \<le> n"
  shows "\<exists>e. make_event E ctx ty (now E) (last_event_id_for j) i n p w =
      (Inr e, w\<lparr>w_ticks := Suc (Suc (w_ticks w))\<rparr>) \<and> event_ok e \<and> de_id e = event_id_at E (w_ticks w)"
proof -
  let ?w1 = "w\<lparr>w_ticks := Suc (w_ticks w)\<rparr>" and ?t = "env_now E (Suc (w_ticks w))"
  let ?w2 = "w\<lparr>w_ticks := Suc (Suc (w_ticks w))\<rparr>"
  have lg: "log_ok E v" if "w_db v = w_db w" "w_next_seq v = w_next_seq w" for v
    using log_ok_same_db [OF world_ok_parts(1) [OF ok], of v] that by (simp add: same_db_def)
  obtain e where e: "make_event E ctx ty (ret ?t) (last_event_id_for j) i n p w = (Inr e, ?w1)"
    "event_ok e" "de_id e = event_id_at E (w_ticks w)"
    using make_event_run [OF world_ok_parts(1) [OF ok] ctx E i ty n, of ?t j p] by blast
  obtain c where c: "last_event_id_for j ?w1 = (Inr c, ?w1)" using last_event_id_for_run [OF lg] by fastforce
  have "last_event_id_for j ?w2 = (Inr c, ?w2)"
    using c read_all_run [OF lg, of ?w1] read_all_run [OF lg, of ?w2]
    by (simp add: last_event_id_for_def bindp_def ret_run)
  with c e(1) have "make_event E ctx ty (now E) (last_event_id_for j) i n p w = (Inr e, ?w2)"
    by (simp add: make_event_def bindp_def new_urn_run now_run ret_run lift_def split: sum.splits)
  with e show ?thesis by blast
qed

lemma record_event_run:
  assumes ok: "world_ok E w" and E: "env_total E" and fresh: "de_id e \<notin> set (event_ids (w_db w))"
  shows "\<exists>a w'. record_event E (ret ()) e w = (Inr a, w') \<and> w_ticks w' = Suc (w_ticks w) \<and>
    event_ids (w_db w') = event_ids (w_db w) @ [de_id e]"
proof -
  obtain h where h: "compute_event_hash E e (prev_hash_of w) = Inr h" using env_total_event_hash [OF E] by blast
  have "append_event E e w = (Inr (appended_row E e w h), appended_world E e w h)"
    using fresh h by (simp add: append_event_run [OF world_ok_parts(1) [OF ok]])
  then show ?thesis
    by (simp add: record_event_def tx_def bindp_def ret_run appended_world_def appended_row_def event_ids_def)
qed

lemma note_event_run:
  assumes ok: "world_ok E w" and ctx: "ctx_ok ctx" and E: "env_total E" and i: "is_valid_urn (so_id latest)"
    and ty: "non_empty ty" and n: "1 \<le> so_revision latest"
    and fresh: "event_id_at E (w_ticks w) \<notin> set (event_ids (w_db w))"
  shows "\<exists>x w'. note_event E ctx latest s ty p w = (Inr x, w') \<and> w_ticks w' = w_ticks w + 3 \<and>
    event_ids (w_db w') = event_ids (w_db w) @ [event_id_at E (w_ticks w)]"
proof -
  let ?w2 = "w\<lparr>w_ticks := Suc (Suc (w_ticks w))\<rparr>"
  obtain e where e: "make_event E ctx ty (now E) (last_event_id_for (so_id latest)) (so_id latest) (so_revision latest) p w =
      (Inr e, ?w2)" "de_id e = event_id_at E (w_ticks w)"
    using make_event_now_run [OF ok ctx E i ty n] by blast
  have "world_ok E ?w2" using ok by simp
  then obtain a w' where "record_event E (ret ()) e ?w2 = (Inr a, w')" "w_ticks w' = w_ticks w + 3"
    "event_ids (w_db w') = event_ids (w_db w) @ [event_id_at E (w_ticks w)]"
    using record_event_run [OF _ E, of ?w2 e] fresh by (auto simp: e(2))
  with e(1) show ?thesis by (simp add: note_event_def bindp_def ret_run)
qed

end
