(* ===== verification/Journaled_Calls.thy ===== *)
theory Journaled_Calls
  imports Event_Sourcing
begin

text \<open>
  The steps the services with their status in the log share: reading an object and its status,
  appending the event that moves it, and a call that writes after reads.
\<close>

lemma addressed_kind:
  "addressable kind d i \<Longrightarrow> history_of d i \<noteq> [] \<Longrightarrow> is_kind kind d i"
  unfolding addressable_def is_kind_def using last_in_set by blast

lemma journal_current:
  assumes ok: "journal_ok E kind M types first step told w" and ad: "addressable kind (w_db w) i"
    and l: "get_latest_or x i w = (Inr latest, w1)"
    and c: "current_status types latest w1 = (Inr current, w2)"
  shows "w1 = w \<and> w2 = w \<and> latest = last (history_of (w_db w) i) \<and> so_id latest = i \<and>
    is_kind kind (w_db w) i \<and> current = status_now M types (w_db w) i"
proof -
  have wok: "world_ok E w" using ok by (rule journal_ok_world)
  note g = get_latest_or_Inr [OF world_ok_parts(2) [OF wok] l]
  have k: "is_kind kind (w_db w) i" by (rule addressed_kind [OF ad]) (use g in blast)
  have t: "tracked kind M types (w_db w)" using ok by (simp add: journal_ok_def)
  have w1: "w1 = w" and la: "latest = last (history_of (w_db w) i)" using g by blast+
  from current_status_run [OF wok t k la] c have "current = status_now M types (w_db w) i" "w2 = w"
    unfolding w1 by (metis prod.inject sum.inject(2))+
  with g k w1 show ?thesis by blast
qed

text \<open>An event that moves an object.\<close>

lemma journal_advance:
  assumes ok: "journal_ok E kind M types first step told w" and k: "is_kind kind (w_db w) (so_id latest)"
    and run: "advance E ctx M latest (status_now M types (w_db w) (so_id latest)) s ty
      ([(''from_status'', JStr f), (''to_status'', JStr s)] @ extra) w = (Inr x, w')"
    and ty: "ty \<in> types" and via: "map_of extra ''via'' = None"
  shows "et_content x = latest \<and> et_status x = s \<and> can_transition M (status_now M types (w_db w) (so_id latest)) s \<and>
    (\<exists>e. committed E [] [] e w w' \<and> de_event_type e = ty \<and> de_object_id e = so_id latest \<and> de_actor e = cx_actor ctx \<and>
       moves_on kind M types (w_db w) e \<and> event_moves e = [s]) \<and>
    status_now M types (w_db w') (so_id latest) = s"
proof -
  have wok: "world_ok E w" using ok by (rule journal_ok_world)
  have t: "tracked kind M types (w_db w)" using ok by (simp add: journal_ok_def)
  from advance_Inr [OF wok run] obtain e where
    c: "can_transition M (status_now M types (w_db w) (so_id latest)) s" "et_content x = latest" "et_status x = s"
    and e: "committed E [] [] e w w'" "de_event_type e = ty" "de_object_id e = so_id latest" "de_actor e = cx_actor ctx"
      "de_payload e = [(''from_status'', JStr f), (''to_status'', JStr s)] @ extra"
    by (elim conjE exE) (rule that)
  have p: "map_of (de_payload e) ''to_status'' = Some (JStr s)" "map_of (de_payload e) ''via'' = None"
    using via by (simp_all add: e(5))
  have ty': "de_event_type e \<in> types" using ty by (simp only: e(2))
  note m = moves_onI [OF k e(3) ty' p c(1)]
  have "status_now M types (w_db w') (de_object_id e) = last (event_moves e)" by (rule moved_trace(2) [OF t e(1) m(1)]) simp
  then have "status_now M types (w_db w') (so_id latest) = s" by (simp only: e(3) m(2) last.simps if_P [OF refl])
  with c e(1-4) m show ?thesis by blast
qed

text \<open>A call after reads only.\<close>

lemma reads_then_journals:
  assumes ro: "keeps same_db m" and run: "bindp m f w = (q, w')" and ok: "journal_ok E kind M types first step told w"
    and f: "\<And>x v. journal_ok E kind M types first step told v \<Longrightarrow> w_db v = w_db w \<Longrightarrow> journals E kind M types first step told v (snd (f x v))"
  shows "journals E kind M types first step told w w'"
proof -
  obtain p w1 where m: "m w = (p, w1)" by fastforce
  have k: "same_db w w1" by (rule keepsD [OF ro m])
  show ?thesis
  proof (cases p)
    case (Inl x)
    with run m k show ?thesis by (simp add: bindp_def journals_still)
  next
    case (Inr x)
    with run m have r: "f x w1 = (q, w')" by (simp add: bindp_def)
    have db: "w_db w1 = w_db w" using k by (simp add: same_db_def)
    from f [OF journal_ok_same [OF ok k] db, of x] have "journals E kind M types first step told w1 w'" by (simp add: r)
    with k show ?thesis by (rule journals_from)
  qed
qed

end
