(* ===== verification/Stored_Types.thy ===== *)
theory Stored_Types
  imports Journaled_Calls
begin

text \<open>
  The typing of what is stored. The store has no types of its own: rows are typed by the
  constructors the writes go through. Here any sequence of units of work, with any rows, edges and
  events, in any order, failed ones included, keeps the tables well-typed, and well-typed tables
  can be read: no row fails its constructor on the way back.
\<close>

section \<open>Writes\<close>

text \<open>
  The five units of work of the program. A caller constructs its event first; an event that does
  not construct stops the call there.
\<close>

datatype unit_call =
    RecordEvent domain_event
  | RecordRevision stored_object "int option" domain_event
  | RecordEdge typed_edge domain_event
  | RecordEdges "typed_edge list" domain_event
  | RecordRevisionWithEdges stored_object "int option" "typed_edge list" domain_event

fun unit_event :: "unit_call \<Rightarrow> domain_event" where
  "unit_event (RecordEvent e) = e"
| "unit_event (RecordRevision r x e) = e"
| "unit_event (RecordEdge ed e) = e"
| "unit_event (RecordEdges eds e) = e"
| "unit_event (RecordRevisionWithEdges r x eds e) = e"

fun unit_rows :: "unit_call \<Rightarrow> stored_object list" where
  "unit_rows (RecordRevision r x e) = [r]"
| "unit_rows (RecordRevisionWithEdges r x eds e) = [r]"
| "unit_rows c = []"

fun unit_edges :: "unit_call \<Rightarrow> typed_edge list" where
  "unit_edges (RecordEdge ed e) = [ed]"
| "unit_edges (RecordEdges eds e) = eds"
| "unit_edges (RecordRevisionWithEdges r x eds e) = eds"
| "unit_edges c = []"

fun unit_prog :: "env \<Rightarrow> unit_call \<Rightarrow> domain_event \<Rightarrow> (world, unit) prog" where
  "unit_prog E (RecordEvent _) e = bindp (record_event E (ret ()) e) (\<lambda>_. ret ())"
| "unit_prog E (RecordRevision r x _) e = bindp (bind_unit_of_work E r x e) (\<lambda>_. ret ())"
| "unit_prog E (RecordEdge ed _) e = bindp (bind_edge_unit_of_work E ed e) (\<lambda>_. ret ())"
| "unit_prog E (RecordEdges eds _) e = bindp (bind_edges_unit_of_work E eds e) (\<lambda>_. ret ())"
| "unit_prog E (RecordRevisionWithEdges r x eds _) e =
     bindp (bind_revision_with_edges_unit_of_work E r x eds e) (\<lambda>_. ret ())"

definition unit_run :: "env \<Rightarrow> unit_call \<Rightarrow> (world, unit) prog" where
  "unit_run E c = bindp (lift (new_domain_event (unit_event c))) (unit_prog E c)"

fun run_units :: "env \<Rightarrow> unit_call list \<Rightarrow> world \<Rightarrow> world" where
  "run_units E [] w = w"
| "run_units E (c # cs) w = run_units E cs (snd (unit_run E c w))"

lemma aon_bindp_ret: "all_or_nothing m \<Longrightarrow> all_or_nothing (bindp m (\<lambda>_. ret ()))"
  unfolding all_or_nothing_def by (auto simp: bindp_def ret_run split: sum.splits prod.splits)

text \<open>A unit of work changes nothing, or commits exactly what it was given.\<close>

lemma unit_run_commits:
  assumes ok: "world_ok E w" and run: "unit_run E c w = (q, w')"
  shows "case q of Inl _ \<Rightarrow> same_db w w'
    | Inr _ \<Rightarrow> event_ok (unit_event c) \<and> committed E (unit_rows c) (unit_edges c) (unit_event c) w w'"
proof (cases "event_ok (unit_event c)")
  case False
  with run show ?thesis by (auto simp: unit_run_def bindp_def lift_run new_domain_event_def)
next
  case e: True
  from run have run': "unit_prog E c (unit_event c) w = (q, w')"
    using e by (simp add: unit_run_def bindp_def lift_run new_domain_event_def)
  have aon: "all_or_nothing (unit_prog E c (unit_event c))"
    by (cases c) (simp_all add: aon_bindp_ret aon_record_event aon_units aon_edges)
  show ?thesis
  proof (cases q)
    case (Inl x)
    with aon run' show ?thesis unfolding all_or_nothing_def by auto
  next
    case (Inr u)
    have "committed E (unit_rows c) (unit_edges c) (unit_event c) w w'"
      using run' [unfolded Inr] e
      by (cases c) (auto elim!: bindp_InrE ret_InrE dest: record_event_Inr [OF ok] unit_of_work_Inr [OF ok]
          edge_unit_of_work_Inr [OF ok] edges_unit_of_work_Inr [OF ok] revision_with_edges_Inr [OF ok])
    with Inr e show ?thesis by simp
  qed
qed

lemma run_units_ok: "world_ok E w \<Longrightarrow> world_ok E (run_units E cs w)"
proof (induction cs arbitrary: w)
  case (Cons c cs)
  obtain q w' where r: "unit_run E c w = (q, w')" by fastforce
  have "world_ok E w'"
    using unit_run_commits [OF Cons.prems r] world_ok_same_db [OF Cons.prems] committed_tables(3) by (auto split: sum.splits)
  with Cons.IH r show ?case by simp
qed simp

section \<open>Typing\<close>

definition edge_typed :: "typed_edge \<Rightarrow> bool" where
  "edge_typed ed \<longleftrightarrow> te_edge_type ed \<in> EDGE_VOCABULARY"

definition revisions_typed :: "stored_object list \<Rightarrow> bool" where
  "revisions_typed rs \<longleftrightarrow> map so_revision rs = [1..int (length rs)]"

text \<open>
  C25. Whatever is written, in whatever order, stays well-typed and readable. After any sequence of
  units of work on an empty store, failed ones included: every event row satisfies the checks of
  its constructor, so reading the log succeeds and returns every row; the event ids are distinct,
  and the outbox has one entry for each, in order; every edge has a type of the vocabulary and an
  id of its own; the revisions of every object are numbered from one without a gap, and that is
  what a reader is given.
\<close>

theorem stored_rows_are_typed:
  "let w = run_units E cs empty_world in
     list_all (\<lambda>a. event_ok (ae_event a)) (domain_events_tbl (w_db w)) \<and>
     read_all w = (Inr (domain_events_tbl (w_db w)), w) \<and>
     distinct (event_ids (w_db w)) \<and> map ox_event_id (outbox_tbl (w_db w)) = event_ids (w_db w) \<and>
     list_all edge_typed (edges_tbl (w_db w)) \<and> distinct (map te_id (edges_tbl (w_db w))) \<and>
     (\<forall>i. revisions_typed (history_of (w_db w) i) \<and> list_revisions i w = (Inr (history_of (w_db w) i), w))"
proof -
  let ?w = "run_units E cs empty_world"
  have ok: "world_ok E ?w" by (rule run_units_ok [OF world_ok_empty])
  note p = world_ok_parts [OF ok]
  have l: "list_revisions i ?w = (Inr (history_of (w_db ?w) i), ?w)" for i
    by (simp add: list_revisions_def asks_run objects_ok_sorted [OF p(2)])
  show ?thesis
    using p l read_all_run [OF p(1)]
    by (auto simp: Let_def log_ok_def objects_ok_def edges_ok_def list_all_iff edge_typed_def revisions_typed_def)
qed

end
