(* ===== verification/Signed_Contracts.thy ===== *)
theory Signed_Contracts
  imports Event_Sourcing Key_Ring
begin

text \<open>
  Signed contracts in the object store: what the services that verify them share. A stored body
  is reconstructed with \<^verbatim>\<open>model_validate\<close>; the dump of a reconstructed contract is the body it was
  read from, since the body is itself such a dump.
\<close>

text \<open>A practice as the services use it: its id and its key descriptors.\<close>

record practice =
  pr_id :: urn
  pr_keys :: "key_descriptor list"

fun signature_fields :: "json option \<Rightarrow> (string \<times> string \<times> string \<times> string) option" where
  "signature_fields (Some (JObj s)) =
     (case (map_of s ''signer_practice_id'', map_of s ''key_id'', map_of s ''algorithm'', map_of s ''value'') of
        (Some (JStr p), Some (JStr k), Some (JStr a), Some (JStr v)) \<Rightarrow> Some (p, k, a, v)
      | _ \<Rightarrow> None)"
| "signature_fields _ = None"

definition reconstruct_signed :: "env \<Rightarrow> string \<Rightarrow> dict \<Rightarrow> signed_object outcome" where
  "reconstruct_signed E kind body =
     (if env_schema E kind body then
        (case signature_fields (map_of body ''signature'') of
           None \<Rightarrow> Inl PydanticValidationError
         | Some (p, k, a, v) \<Rightarrow>
             Inr \<lparr>sg_signer_practice_id = p, sg_key_id = k, sg_algorithm = a, sg_value = v, sg_dump = body\<rparr>)
      else Inl PydanticValidationError)"

lemma reconstruct_dump: "reconstruct_signed E kind body = Inr s \<Longrightarrow> sg_dump s = body"
  by (auto simp: reconstruct_signed_def split: if_splits option.splits)

lemma readonly_instant [readonly]: "keeps same_db (instant_or_now E at)"
  unfolding instant_or_now_def by (intro readonly)

lemma readonly_signer_key [readonly]: "keeps same_db (resolve_trusted_signer_key E m p ring at x y)"
  unfolding resolve_trusted_signer_key_def by (intro readonly)

lemma readonly_task_key [readonly]: "keeps same_db (resolve_trusted_task_key E m p ring at)"
  unfolding resolve_trusted_task_key_def verify_trusted_signature_def by (intro readonly)

lemma readonly_transfer_key [readonly]: "keeps same_db (resolve_trusted_transfer_key E m p ring at)"
  unfolding resolve_trusted_transfer_key_def verify_trusted_signature_def by (intro readonly)

text \<open>A signature over \<open>{}\<close>, to which the sample canonicalizer takes every value.\<close>

definition sample_signature :: json where
  "sample_signature = JObj [(''signer_practice_id'', JStr (sample_urn ''practice'')),
     (''key_id'', JStr (derive_key_id sample_key)), (''algorithm'', JStr ''Ed25519''),
     (''value'', JStr (b64encode (sample_key @ ''{}'')))]"

lemma entity_ok_signed [simp]: "entity_ok ''node''" "entity_ok ''practice''"
  by (simp_all add: entity_ok_def entity_char_def less_eq_char_def)

lemma sample_signature_verifies:
  "verify_object_signature sample_env sample_key body (b64encode (sample_key @ ''{}'')) ''Ed25519'' = Inr ()"
  by (simp add: verify_object_signature_Inr b64decode_encode sample_env_def)

end
