(* ===== verification/Contract_Samples.thy ===== *)
theory Contract_Samples
  imports Signed_Contracts
begin

text \<open>
  Concrete worlds for the services that store signed contracts: a practice whose ring holds the
  sample key, bodies that key has signed, and how a row, or an event, is added to a world.
\<close>

section \<open>A practice and what it signs\<close>

definition sample_practice :: practice where
  "sample_practice = \<lparr>pr_id = sample_urn ''practice'', pr_keys = [sample_descriptor]\<rparr>"

definition sample_reconstructed :: "dict \<Rightarrow> signed_object" where
  "sample_reconstructed body = \<lparr>sg_signer_practice_id = sample_urn ''practice'', sg_key_id = derive_key_id sample_key,
     sg_algorithm = ''Ed25519'', sg_value = b64encode (sample_key @ ''{}''), sg_dump = body\<rparr>"

lemma reconstruct_sample:
  "map_of body ''signature'' = Some sample_signature \<Longrightarrow>
     reconstruct_signed sample_env kind body = Inr (sample_reconstructed body)"
  by (simp add: reconstruct_signed_def sample_signature_def sample_reconstructed_def sample_env_def)

lemma sample_practice_ring: "practice_key_ring sample_env (pr_keys sample_practice) = Inr sample_ring"
proof -
  have "descriptor_ok sample_env sample_descriptor" using ring_ok_sample by (simp add: ring_ok_def sample_ring_def)
  then have "practice_descriptors sample_env [sample_descriptor] [] = Inr sample_ring"
    by (simp add: descriptor_ok_def sample_ring_def) (simp add: sample_descriptor_def)
  then show ?thesis by (simp add: practice_key_ring_def new_key_ring_def sample_practice_def sample_ring_def sample_descriptor_def)
qed

lemma resolve_sample_signer:
  "resolve_trusted_signer_key sample_env (sample_reconstructed body) (pr_id sample_practice) sample_ring (Some 5) x y w =
     (Inr sample_key, w)"
  by (simp add: resolve_trusted_signer_key_def bindp_def guardp_run lift_run ret_run instant_or_now_def
      sample_reconstructed_def sample_practice_def sample_ring_def ring_get_def ring_is_valid_at_def sample_descriptor_def)

lemma verify_sample_signer: "verify_trusted_signature sample_env (sample_reconstructed body) sample_key w = (Inr (), w)"
  using sample_signature_verifies by (simp add: verify_trusted_signature_def sample_reconstructed_def lift_run)

lemma resolve_sample_body:
  "resolve_trusted_task_key sample_env (sample_reconstructed body) (pr_id sample_practice) sample_ring (Some 5) w =
     (Inr sample_key, w)"
  "resolve_trusted_transfer_key sample_env (sample_reconstructed body) (pr_id sample_practice) sample_ring (Some 5) w =
     (Inr sample_key, w)"
  by (simp_all add: resolve_trusted_task_key_def resolve_trusted_transfer_key_def bindp_def ret_run
      resolve_sample_signer verify_sample_signer)

lemma sample_urn_eq [simp]: "sample_urn a = sample_urn b \<longleftrightarrow> a = b"
  by (simp add: sample_urn_def urn_text_def)

section \<open>Adding a row\<close>

lemma sample_create:
  assumes ok: "world_ok sample_env w" and ids: "event_ids (w_db w) = map (event_id_at sample_env) ns"
    and new: "w_ticks w mod 64 \<notin> (\<lambda>m. m mod 64) ` set ns"
    and r: "so_revision r = 1" "is_valid_urn (so_id r)" "history_of (w_db w) (so_id r) = []" and ty: "non_empty ty"
  obtains w' e where "create_object sample_env sample_ctx r ty p w = (Inr r, w')"
    and "committed sample_env [r] [] e w w'" and "de_event_type e = ty" and "de_object_id e = so_id r"
    and "history_of (w_db w') (so_id r) = [r]" and "\<And>i. i \<noteq> so_id r \<Longrightarrow> history_of (w_db w') i = history_of (w_db w) i"
    and "w_ticks w' = w_ticks w + 3" and "event_ids (w_db w') = map (event_id_at sample_env) (ns @ [w_ticks w])"
proof -
  have fresh: "event_id_at sample_env (w_ticks w) \<notin> set (event_ids (w_db w))" unfolding ids by (rule sample_fresh [OF new])
  from create_object_run [OF ok ctx_ok_sample env_total_sample fresh r ty] obtain w' where
    run: "create_object sample_env sample_ctx r ty p w = (Inr r, w')"
    and t: "w_ticks w' = w_ticks w + 3" "event_ids (w_db w') = event_ids (w_db w) @ [event_id_at sample_env (w_ticks w)]"
    by blast
  from create_object_Inr [OF ok run] obtain e where
    e: "committed sample_env [r] [] e w w'" "de_event_type e = ty" "de_object_id e = so_id r"
    by (auto simp: announces_def)
  have h: "history_of (w_db w') i = history_of (w_db w) i @ (if so_id r = i then [r] else [])" for i
    unfolding history_of_def committed_tables(1) [OF e(1)] by simp
  show thesis
    by (rule that [OF run e]) (use h r(3) t ids in auto)
qed

text \<open>An event on a stored row.\<close>

lemma sample_note:
  assumes ok: "world_ok sample_env w" and ids: "event_ids (w_db w) = map (event_id_at sample_env) ns"
    and new: "w_ticks w mod 64 \<notin> (\<lambda>m. m mod 64) ` set ns"
    and l: "is_valid_urn (so_id latest)" "1 \<le> so_revision latest" and ty: "non_empty ty"
  obtains x w' where "note_event sample_env sample_ctx latest s ty p w = (Inr x, w')"
    and "history_of (w_db w') = history_of (w_db w)"
    and "w_ticks w' = w_ticks w + 3" and "event_ids (w_db w') = map (event_id_at sample_env) (ns @ [w_ticks w])"
proof -
  have fresh: "event_id_at sample_env (w_ticks w) \<notin> set (event_ids (w_db w))" unfolding ids by (rule sample_fresh [OF new])
  from note_event_run [OF ok ctx_ok_sample env_total_sample l(1) ty l(2) fresh] obtain x w' where
    run: "note_event sample_env sample_ctx latest s ty p w = (Inr x, w')"
    and t: "w_ticks w' = w_ticks w + 3" "event_ids (w_db w') = event_ids (w_db w) @ [event_id_at sample_env (w_ticks w)]"
    by blast
  from note_event_Inr [OF ok run] obtain e where e: "committed sample_env [] [] e w w'" by auto
  have "history_of (w_db w') = history_of (w_db w)"
    by (rule ext) (simp add: history_of_def committed_tables(1) [OF e])
  from that [OF run this t(1)] t(2) ids show thesis by simp
qed

text \<open>Where a new object is, and how an event moves it.\<close>

lemma created_status:
  assumes t: "tracked kind M types (w_db w)" and h: "history_of (w_db w) i = []"
    and c: "committed E os es e w w'" and ty: "de_event_type e \<notin> types"
  shows "status_now M types (w_db w') i = sm_initial M"
proof -
  have n: "\<not> is_kind kind (w_db w) i" using h by (simp add: is_kind_def)
  with t have "transition_events types (w_db w) i = []" unfolding tracked_def by metis
  with c ty show ?thesis
    by (auto simp: committed_def transition_events_commit [OF refl] status_now_def status_trace_def)
qed

lemma advance_note:
  "can_transition M a b \<Longrightarrow> advance E ctx M latest a b ty p w = note_event E ctx latest b ty p w"
  by (simp add: advance_def bindp_def lift_run assert_transition_def)

end
