(* ===== verification/Capability_Registry.thy ===== *)
theory Capability_Registry
  imports Signed_Contracts Iso_Time
begin

text \<open>
  The Capability Registry, \<^verbatim>\<open>services/control_plane/mrr/services/capability_registry/service.py\<close>:
  nodes register signed manifests, one revision after another under the id of the node; a
  manifest received from a practice must be signed with a key that practice vouches for, and a
  refusal is journaled; the current manifest of a node, and the nodes that declare a capability.
\<close>

section \<open>Manifests\<close>

text \<open>
  A \<^verbatim>\<open>NodeManifest\<close> instance: the fields of the base object, its node, the names and versions of
  its capabilities, and its signature with its public keys. It is an instance when its dump
  shows these fields.
\<close>

record manifest_instance = base_object +
  mi_node_id :: urn
  mi_capabilities :: "(string \<times> string) list"
  mi_signed :: node_manifest

definition parse_window :: "dict \<Rightarrow> (instant \<times> instant) outcome" where
  "parse_window body =
     (case dget_str body ''valid_from'' of
        Inl e \<Rightarrow> Inl e
      | Inr a \<Rightarrow> (case fromisoformat a of
          Inl e \<Rightarrow> Inl e
        | Inr valid_from \<Rightarrow> (case dget_str body ''valid_until'' of
            Inl e \<Rightarrow> Inl e
          | Inr b \<Rightarrow> (case fromisoformat b of
              Inl e \<Rightarrow> Inl e
            | Inr valid_until \<Rightarrow> Inr (valid_from, valid_until)))))"

fun capability_field :: "string \<Rightarrow> json \<Rightarrow> string outcome" where
  "capability_field k (JObj d) = dget_str d k"
| "capability_field k _ = Inl TypeErr"

definition body_capabilities :: "dict \<Rightarrow> json list outcome" where
  "body_capabilities body =
     (case dget body ''capabilities'' of
        Inl e \<Rightarrow> Inl e
      | Inr (JArr cs) \<Rightarrow> Inr cs
      | Inr _ \<Rightarrow> Inl TypeErr)"

fun fields_of :: "string \<Rightarrow> json list \<Rightarrow> string list outcome" where
  "fields_of k [] = Inr []"
| "fields_of k (c # cs) =
     (case capability_field k c of
        Inl e \<Rightarrow> Inl e
      | Inr n \<Rightarrow> (case fields_of k cs of Inl e \<Rightarrow> Inl e | Inr ns \<Rightarrow> Inr (n # ns)))"

definition capability_names :: "dict \<Rightarrow> string list outcome" where
  "capability_names body =
     (case body_capabilities body of Inl e \<Rightarrow> Inl e | Inr cs \<Rightarrow> fields_of ''name'' cs)"

definition manifest_ok :: "manifest_instance \<Rightarrow> bool" where
  "manifest_ok m \<longleftrightarrow>
     bo_kind m = ''NodeManifest'' \<and> sg_dump (mi_signed m) = bo_dump m \<and>
     (\<exists>window. parse_window (bo_dump m) = Inr window) \<and>
     (\<exists>cs. body_capabilities (bo_dump m) = Inr cs \<and> fields_of ''name'' cs = Inr (map fst (mi_capabilities m)) \<and>
        fields_of ''version'' cs = Inr (map snd (mi_capabilities m)))"

section \<open>The registry\<close>

definition manifest_to_stored_object :: "manifest_instance \<Rightarrow> stored_object" where
  "manifest_to_stored_object m = (stored_of m)\<lparr>so_id := mi_node_id m\<rparr>"

definition current_revision_or_none :: "string \<Rightarrow> (world, int option) prog" where
  "current_revision_or_none node_id =
     catchp (bindp (get_latest node_id) (\<lambda>r. ret (Some (so_revision r))))
       (\<lambda>x. case x of ObjectNotFoundError _ _ \<Rightarrow> ret None | _ \<Rightarrow> raise x)"

definition register ::
  "env \<Rightarrow> call_ctx \<Rightarrow> manifest_instance \<Rightarrow> public_key \<Rightarrow> (world, stored_object) prog" where
  "register E ctx manifest verifying_key =
     bindp (lift (verify_object_signature E verifying_key (bo_dump manifest) (sg_value (mi_signed manifest))
       (sg_algorithm (mi_signed manifest)))) (\<lambda>_.
     bindp (current_revision_or_none (mi_node_id manifest)) (\<lambda>expected.
     bindp (guardp (bo_revision manifest = next_revision expected) ValueError) (\<lambda>_.
     bindp (make_event E ctx ''node_manifest.registered'' (now E) (last_event_id_for (mi_node_id manifest))
       (mi_node_id manifest) (bo_revision manifest)
       [(''capability_names'', JArr (map (\<lambda>c. JStr (fst c)) (mi_capabilities manifest)))]) (\<lambda>e.
     bindp (bind_unit_of_work E (manifest_to_stored_object manifest) expected e) (\<lambda>(stored, _).
     ret stored)))))"

text \<open>The trust failures that are journaled, with the category each gets.\<close>

fun rejection_reason :: "exn \<Rightarrow> string option" where
  "rejection_reason (SignerMismatchError k _ _) = (if k = ''Manifest'' then Some ''signer_mismatch'' else None)"
| "rejection_reason (UnknownKeyIdError _) = Some ''unknown_key''"
| "rejection_reason (KeyNotValidError k _ _) = (if k = ''Manifest'' then Some ''key_not_valid'' else None)"
| "rejection_reason (ManifestKeyNotDeclaredError _) = Some ''key_not_declared''"
| "rejection_reason SignatureVerificationError = Some ''signature_invalid''"
| "rejection_reason (UnsupportedAlgorithmError _) = Some ''signature_invalid''"
| "rejection_reason _ = None"

definition record_manifest_rejected ::
  "env \<Rightarrow> call_ctx \<Rightarrow> manifest_instance \<Rightarrow> string \<Rightarrow> (world, unit) prog" where
  "record_manifest_rejected E ctx manifest reason_category =
     bindp (make_event E ctx ''node_manifest.rejected'' (now E) (last_event_id_for (mi_node_id manifest))
       (mi_node_id manifest) (bo_revision manifest) [(''reason_category'', JStr reason_category)]) (\<lambda>e.
     bindp (record_event E (ret ()) e) (\<lambda>_. ret ()))"

definition receive_manifest ::
  "env \<Rightarrow> call_ctx \<Rightarrow> manifest_instance \<Rightarrow> practice \<Rightarrow> instant option \<Rightarrow> (world, stored_object) prog" where
  "receive_manifest E ctx manifest trusted_sender at =
     bindp (lift (practice_key_ring E (pr_keys trusted_sender))) (\<lambda>ring.
     bindp (catchp (resolve_trusted_manifest_key E (mi_signed manifest) (pr_id trusted_sender) ring at)
       (\<lambda>exc. case rejection_reason exc of
          None \<Rightarrow> raise exc
        | Some reason \<Rightarrow> bindp (record_manifest_rejected E ctx manifest reason) (\<lambda>_. raise exc))) (\<lambda>verifying_key.
     register E ctx manifest verifying_key))"

definition get_current_manifest :: "env \<Rightarrow> string \<Rightarrow> instant option \<Rightarrow> (world, stored_object) prog" where
  "get_current_manifest E node_id at =
     bindp (get_latest_or (NodeManifestNotFoundError node_id) node_id) (\<lambda>latest.
     bindp (instant_or_now E at) (\<lambda>t.
     bindp (lift (parse_window (so_body latest))) (\<lambda>(valid_from, valid_until).
     bindp (guardp (valid_from \<le> t \<and> t \<le> valid_until)
       (NodeManifestValidityError node_id valid_from valid_until t)) (\<lambda>_.
     ret latest))))"

definition list_capabilities :: "env \<Rightarrow> string \<Rightarrow> instant option \<Rightarrow> (world, string list) prog" where
  "list_capabilities E node_id at =
     bindp (get_current_manifest E node_id at) (\<lambda>latest.
     lift (capability_names (so_body latest)))"

text \<open>The loop over the journal: \<open>seen\<close> are the nodes already visited.\<close>

definition latest_or_none :: "string \<Rightarrow> (world, stored_object option) prog" where
  "latest_or_none i =
     catchp (bindp (get_latest i) (\<lambda>r. ret (Some r)))
       (\<lambda>x. case x of ObjectNotFoundError _ _ \<Rightarrow> ret None | _ \<Rightarrow> raise x)"

definition node_matches :: "string \<Rightarrow> instant \<Rightarrow> string \<Rightarrow> (world, bool) prog" where
  "node_matches capability_name t node_id =
     bindp (latest_or_none node_id) (\<lambda>found.
     case found of
       None \<Rightarrow> ret False
     | Some latest \<Rightarrow>
         bindp (lift (parse_window (so_body latest))) (\<lambda>(valid_from, valid_until).
         if valid_from \<le> t \<and> t \<le> valid_until
         then bindp (lift (capability_names (so_body latest))) (\<lambda>names. ret (capability_name \<in> set names))
         else ret False))"

fun find_nodes_loop :: "string \<Rightarrow> instant \<Rightarrow> domain_event list \<Rightarrow> string list \<Rightarrow> (world, string list) prog" where
  "find_nodes_loop capability_name t [] seen = ret []"
| "find_nodes_loop capability_name t (e # es) seen =
     (if de_event_type e \<noteq> ''node_manifest.registered'' \<or> de_object_id e \<in> set seen
      then find_nodes_loop capability_name t es seen
      else bindp (node_matches capability_name t (de_object_id e)) (\<lambda>b.
           bindp (find_nodes_loop capability_name t es (de_object_id e # seen)) (\<lambda>ids.
           ret (if b then de_object_id e # ids else ids))))"

definition find_nodes_with_capability :: "env \<Rightarrow> string \<Rightarrow> instant option \<Rightarrow> (world, string list) prog" where
  "find_nodes_with_capability E capability_name at =
     bindp (instant_or_now E at) (\<lambda>t.
     bindp read_all (\<lambda>as.
     find_nodes_loop capability_name t (map ae_event as) []))"

section \<open>What the registry writes\<close>

lemma readonly_current_revision [readonly]: "keeps same_db (current_revision_or_none i)"
  unfolding current_revision_or_none_def
  by (intro readonly_catchp readonly) (simp split: exn.split add: readonly)

lemma readonly_resolve_manifest [readonly]: "keeps same_db (resolve_trusted_manifest_key E m p ring at)"
  unfolding resolve_trusted_manifest_key_def verify_trusted_signature_def by (intro readonly)

lemma register_aon: "all_or_nothing (register E ctx m pk)"
  unfolding register_def case_prod_beta by (intro aon_bindp aon_ret aon_units readonly)

lemma current_revision_or_none_run:
  assumes "objects_ok (w_db w)"
  shows "current_revision_or_none i w = (Inr (current_revision (w_db w) i), w)"
proof (cases "get_latest i w")
  case (Pair q w')
  show ?thesis
  proof (cases q)
    case (Inl x)
    from get_latest_Inl [OF assms Pair [unfolded Inl]] Pair Inl show ?thesis
      by (simp add: current_revision_or_none_def catchp_def bindp_def ret_run current_revision_def)
  next
    case (Inr r)
    from get_latest_Inr [OF assms Pair [unfolded Inr]] Pair Inr show ?thesis
      by (simp add: current_revision_or_none_def catchp_def bindp_def ret_run)
  qed
qed

text \<open>A registered row: a manifest whose window and capabilities can be read, signed by some key.\<close>

definition signed_by :: "env \<Rightarrow> public_key \<Rightarrow> stored_object \<Rightarrow> bool" where
  "signed_by E pk r \<longleftrightarrow> (\<exists>sig alg. verify_object_signature E pk (so_body r) sig alg = Inr ())"

definition registered_row :: "env \<Rightarrow> stored_object \<Rightarrow> bool" where
  "registered_row E r \<longleftrightarrow> so_kind r = ''NodeManifest'' \<and> (\<exists>pk. signed_by E pk r) \<and>
     (\<exists>window. parse_window (so_body r) = Inr window) \<and> (\<exists>names. capability_names (so_body r) = Inr names)"

definition registered_after :: "env \<Rightarrow> stored_object \<Rightarrow> stored_object \<Rightarrow> bool" where
  "registered_after E l r \<longleftrightarrow> registered_row E r \<and> so_id r = so_id l"

definition registration :: "stored_object \<Rightarrow> domain_event \<Rightarrow> bool" where
  "registration r e \<longleftrightarrow> de_event_type e = ''node_manifest.registered''"

lemma register_Inr:
  assumes ok: "world_ok E w" and run: "register E ctx m pk w = (Inr r, w')"
  shows "r = manifest_to_stored_object m \<and>
    verify_object_signature E pk (bo_dump m) (sg_value (mi_signed m)) (sg_algorithm (mi_signed m)) = Inr () \<and>
    (\<exists>e. committed E [r] [] e w w' \<and> announces e [r] \<and> registration r e)"
proof -
  from run [unfolded register_def case_prod_beta] obtain u expected w1 e w2 sa where
    v: "verify_object_signature E pk (bo_dump m) (sg_value (mi_signed m)) (sg_algorithm (mi_signed m)) = Inr u"
    and s1: "current_revision_or_none (mi_node_id m) w = (Inr expected, w1)"
    and s2: "make_event E ctx ''node_manifest.registered'' (now E) (last_event_id_for (mi_node_id m)) (mi_node_id m)
       (bo_revision m) [(''capability_names'', JArr (map (\<lambda>c. JStr (fst c)) (mi_capabilities m)))] w1 = (Inr e, w2)"
    and s3: "bind_unit_of_work E (manifest_to_stored_object m) expected e w2 = (Inr sa, w')" and r: "r = fst sa"
    by (elim bindp_InrE guardp_InrE lift_InrE ret_InrE) (hypsubst+, rule that, (assumption | rule refl)+)
  have w1: "w1 = w" using s1 [unfolded current_revision_or_none_run [OF world_ok_parts(2) [OF ok]]] by (metis prod.inject)
  note ev = make_event_Inr [OF s2 readonly_now readonly_last_event]
  have k: "same_db w w2" and eo: "event_ok e" using ev w1 by blast+
  obtain s a where sa: "sa = (s, a)" by fastforce
  note uw = unit_of_work_Inr [OF world_ok_same_db [OF ok k] eo s3 [unfolded sa]]
  have s: "r = manifest_to_stored_object m" using uw r sa by simp
  have "committed E [r] [] e w w'" using uw unfolding s by (blast intro: committed_from [OF k])
  moreover have "announces e [r]" using ev unfolding s by (simp add: announces_def manifest_to_stored_object_def)
  moreover have "registration r e" using ev by (simp add: registration_def)
  ultimately show ?thesis using s v by (auto simp: unit_eq)
qed

text \<open>All a call can do: nothing, one registration, or one journaled refusal.\<close>

definition registry_effect :: "env \<Rightarrow> world \<Rightarrow> world \<Rightarrow> bool" where
  "registry_effect E w w' \<longleftrightarrow>
     same_db w w' \<or>
     (\<exists>r e. committed E [r] [] e w w' \<and> announces e [r] \<and> registration r e \<and>
        fits ''NodeManifest'' (registered_row E) (registered_after E) (w_db w) r) \<or>
     (\<exists>e. committed E [] [] e w w' \<and> de_event_type e = ''node_manifest.rejected'')"

lemma effect_still: "same_db w w' \<Longrightarrow> registry_effect E w w'"
  by (simp add: registry_effect_def)

lemma effect_records:
  "registry_effect E w w' \<Longrightarrow> records E ''NodeManifest'' (registered_row E) (registered_after E) registration w w'"
  unfolding registry_effect_def by (blast intro: records_same records_row records_note)

lemma register_effect:
  assumes ok: "world_ok E w" and m: "manifest_ok m" and ad: "addressable ''NodeManifest'' (w_db w) (mi_node_id m)"
    and k: "same_db v w" and run: "register E ctx m pk w = (q, w')"
  shows "registry_effect E v w'"
proof (cases q)
  case (Inl x)
  with register_aon run k show ?thesis
    unfolding all_or_nothing_def by (blast intro: effect_still transpD [OF transp_same_db])
next
  case (Inr r)
  from register_Inr [OF ok run [unfolded Inr]] obtain e where
    r: "r = manifest_to_stored_object m"
    and v: "verify_object_signature E pk (bo_dump m) (sg_value (mi_signed m)) (sg_algorithm (mi_signed m)) = Inr ()"
    and c: "committed E [r] [] e w w'" "announces e [r]" "registration r e" by blast
  have db: "w_db w = w_db v" using k by (simp add: same_db_def)
  have id: "so_id r = mi_node_id m" "so_kind r = ''NodeManifest''" "so_body r = bo_dump m"
    using m by (simp_all add: r manifest_to_stored_object_def manifest_ok_def)
  have "registered_row E r"
    using m v unfolding registered_row_def signed_by_def id manifest_ok_def capability_names_def by auto
  then have "fits ''NodeManifest'' (registered_row E) (registered_after E) (w_db v) r"
    using ad id unfolding fits_def addressable_def registered_after_def db
    by (auto simp: history_of_def dest!: last_in_set)
  with committed_from [OF k c(1)] c(2,3) show ?thesis unfolding registry_effect_def by blast
qed

datatype registry_call =
    Register call_ctx manifest_instance public_key
  | Receive call_ctx manifest_instance practice "instant option"

fun registry_run :: "env \<Rightarrow> registry_call \<Rightarrow> world \<Rightarrow> world" where
  "registry_run E (Register ctx m pk) w = snd (register E ctx m pk w)"
| "registry_run E (Receive ctx m p at) w = snd (receive_manifest E ctx m p at w)"

fun registry_call_ok :: "db \<Rightarrow> registry_call \<Rightarrow> bool" where
  "registry_call_ok d (Register ctx m pk) \<longleftrightarrow> manifest_ok m \<and> addressable ''NodeManifest'' d (mi_node_id m)"
| "registry_call_ok d (Receive ctx m p at) \<longleftrightarrow> manifest_ok m \<and> addressable ''NodeManifest'' d (mi_node_id m)"

text \<open>The three ways a received manifest can go.\<close>

lemma rejected_Inr:
  assumes ok: "world_ok E w" and run: "record_manifest_rejected E ctx m reason w = (Inr u, w')"
  shows "\<exists>e. committed E [] [] e w w' \<and> de_event_type e = ''node_manifest.rejected'' \<and>
    de_object_id e = mi_node_id m \<and> de_payload e = [(''reason_category'', JStr reason)]"
proof -
  from run [unfolded record_manifest_rejected_def] obtain e w1 a where
    s1: "make_event E ctx ''node_manifest.rejected'' (now E) (last_event_id_for (mi_node_id m)) (mi_node_id m)
       (bo_revision m) [(''reason_category'', JStr reason)] w = (Inr e, w1)"
    and s2: "record_event E (ret ()) e w1 = (Inr a, w')"
    by (elim bindp_InrE ret_InrE) (hypsubst+, rule that, (assumption | rule refl)+)
  note ev = make_event_Inr [OF s1 readonly_now readonly_last_event]
  then have k: "same_db w w1" and eo: "event_ok e" by blast+
  from record_event_Inr [OF world_ok_same_db [OF ok k] eo s2] ev show ?thesis by (blast intro: committed_from [OF k])
qed

lemma rejected_aon: "all_or_nothing (record_manifest_rejected E ctx m reason)"
  unfolding record_manifest_rejected_def by (intro aon_bindp aon_ret aon_record_event readonly)

lemma receive_cases:
  assumes run: "receive_manifest E ctx m p at w = (q, w')"
  obtains (no_ring) x where "practice_key_ring E (pr_keys p) = Inl x" and "q = Inl x" and "w' = w"
  | (trusted) ring pk w1 where "practice_key_ring E (pr_keys p) = Inr ring"
      and "resolve_trusted_manifest_key E (mi_signed m) (pr_id p) ring at w = (Inr pk, w1)"
      and "register E ctx m pk w1 = (q, w')"
  | (silent) ring x where "practice_key_ring E (pr_keys p) = Inr ring"
      and "resolve_trusted_manifest_key E (mi_signed m) (pr_id p) ring at w = (Inl x, w')"
      and "rejection_reason x = None" and "q = Inl x"
  | (rejected) ring x reason w1 s where "practice_key_ring E (pr_keys p) = Inr ring"
      and "resolve_trusted_manifest_key E (mi_signed m) (pr_id p) ring at w = (Inl x, w1)"
      and "rejection_reason x = Some reason" and "record_manifest_rejected E ctx m reason w1 = (s, w')"
      and "q = (case s of Inl y \<Rightarrow> Inl y | Inr _ \<Rightarrow> Inl x)"
proof (cases "practice_key_ring E (pr_keys p)")
  case (Inl x)
  with run no_ring show ?thesis by (simp add: receive_manifest_def bindp_def lift_run)
next
  case (Inr ring)
  obtain k w1 where k: "resolve_trusted_manifest_key E (mi_signed m) (pr_id p) ring at w = (k, w1)" by fastforce
  show ?thesis
  proof (cases k)
    case key: (Inr pk)
    with run Inr k trusted show ?thesis by (simp add: receive_manifest_def bindp_def lift_run catchp_def)
  next
    case exc: (Inl x)
    show ?thesis
    proof (cases "rejection_reason x")
      case None
      with run Inr k exc silent show ?thesis by (simp add: receive_manifest_def bindp_def lift_run catchp_def raise_run)
    next
      case (Some reason)
      obtain s w2 where s: "record_manifest_rejected E ctx m reason w1 = (s, w2)" by fastforce
      with run Inr k exc Some have "w2 = w'" "q = (case s of Inl y \<Rightarrow> Inl y | Inr _ \<Rightarrow> Inl x)"
        by (simp_all add: receive_manifest_def bindp_def lift_run catchp_def raise_run split: sum.splits)
      with rejected [OF Inr k [unfolded exc] Some] s show ?thesis by simp
    qed
  qed
qed

lemma receive_effect:
  assumes ok: "world_ok E w" and m: "manifest_ok m" and ad: "addressable ''NodeManifest'' (w_db w) (mi_node_id m)"
    and run: "receive_manifest E ctx m p at w = (q, w')"
  shows "registry_effect E w w'"
  using run
proof (cases rule: receive_cases)
  case (no_ring x)
  then show ?thesis by (simp add: effect_still)
next
  case (trusted ring pk w1)
  have k: "same_db w w1" by (rule keepsD [OF readonly_resolve_manifest trusted(2)])
  have "addressable ''NodeManifest'' (w_db w1) (mi_node_id m)" using ad k by (simp add: same_db_def)
  from register_effect [OF world_ok_same_db [OF ok k] m this k trusted(3)] show ?thesis .
next
  case (silent ring x)
  have "same_db w w'" by (rule keepsD [OF readonly_resolve_manifest silent(2)])
  then show ?thesis by (rule effect_still)
next
  case (rejected ring x reason w1 s)
  have k: "same_db w w1" by (rule keepsD [OF readonly_resolve_manifest rejected(2)])
  show ?thesis
  proof (cases s)
    case (Inl y)
    with rejected_aon rejected(4) k show ?thesis
      unfolding all_or_nothing_def by (blast intro: effect_still transpD [OF transp_same_db])
  next
    case (Inr u)
    from rejected_Inr [OF world_ok_same_db [OF ok k] rejected(4) [unfolded Inr]] obtain e where
      "committed E [] [] e w1 w'" "de_event_type e = ''node_manifest.rejected''" by blast
    with committed_from [OF k] show ?thesis unfolding registry_effect_def by blast
  qed
qed

lemma registry_run_effect:
  assumes ok: "world_ok E w" and c: "registry_call_ok (w_db w) c"
  shows "registry_effect E w (registry_run E c w)"
proof (cases c)
  case (Register ctx m pk)
  obtain q w' where "register E ctx m pk w = (q, w')" by fastforce
  with register_effect [OF ok _ _ same_db_refl this] c Register show ?thesis by simp
next
  case (Receive ctx m p at)
  obtain q w' where "receive_manifest E ctx m p at w = (q, w')" by fastforce
  with receive_effect [OF ok _ _ this] c Receive show ?thesis by simp
qed

interpretation registry: recording_service E "''NodeManifest''" "registered_row E" "registered_after E" registration
  "registry_run E" registry_call_ok for E
  by unfold_locales (blast intro: effect_records registry_run_effect dest: service_ok_def [THEN iffD1])

section \<open>Reachable worlds\<close>

inductive registry_reach :: "env \<Rightarrow> world \<Rightarrow> bool" for E where
  start: "registry_reach E empty_world"
| call: "registry_reach E w \<Longrightarrow> registry_call_ok (w_db w) c \<Longrightarrow> registry_reach E (registry_run E c w)"
| other: "registry_reach E w \<Longrightarrow> committed E os es e w w' \<Longrightarrow> de_event_type e \<noteq> ''node_manifest.registered'' \<Longrightarrow>
            \<forall>r \<in> set os. so_kind r \<noteq> ''NodeManifest'' \<and> \<not> is_kind ''NodeManifest'' (w_db w) (so_id r) \<Longrightarrow>
            registry_reach E w'"
| idle: "registry_reach E w \<Longrightarrow> same_db w w' \<Longrightarrow> registry_reach E w'"

text \<open>A registration event is about a node that has a manifest.\<close>

definition registrations_known :: "db \<Rightarrow> bool" where
  "registrations_known d \<longleftrightarrow>
     (\<forall>a \<in> set (domain_events_tbl d). de_event_type (ae_event a) = ''node_manifest.registered'' \<longrightarrow>
        is_kind ''NodeManifest'' d (de_object_id (ae_event a)))"

definition registry_ok :: "env \<Rightarrow> world \<Rightarrow> bool" where
  "registry_ok E w \<longleftrightarrow>
     service_ok E ''NodeManifest'' (registered_row E) (registered_after E) registration w \<and>
     registrations_known (w_db w)"

lemma known_commit:
  assumes k: "registrations_known (w_db w)" and c: "committed E os es e w w'"
    and e: "de_event_type e = ''node_manifest.registered'' \<Longrightarrow>
      \<exists>r \<in> set os. so_kind r = ''NodeManifest'' \<and> so_id r = de_object_id e"
  shows "registrations_known (w_db w')"
proof -
  from c obtain a t where a: "ae_event a = e" and d: "w_db w' = commit os es a t (w_db w)" by (auto simp: committed_def)
  have h: "history_of (w_db w') i = history_of (w_db w) i @ filter (\<lambda>r. so_id r = i) os" for i
    by (simp add: history_of_def d)
  have grow: "is_kind ''NodeManifest'' (w_db w) i \<Longrightarrow> is_kind ''NodeManifest'' (w_db w') i" for i
    unfolding is_kind_def h by auto
  have new: "is_kind ''NodeManifest'' (w_db w') (de_object_id e)" if "de_event_type e = ''node_manifest.registered''"
    using e [OF that] unfolding is_kind_def h by auto
  show ?thesis
    unfolding registrations_known_def
  proof (intro ballI impI)
    fix b assume b: "b \<in> set (domain_events_tbl (w_db w'))" "de_event_type (ae_event b) = ''node_manifest.registered''"
    then consider "b \<in> set (domain_events_tbl (w_db w))" | "b = a" by (auto simp: d)
    then show "is_kind ''NodeManifest'' (w_db w') (de_object_id (ae_event b))"
    proof cases
      case 1
      with k b(2) grow show ?thesis unfolding registrations_known_def by blast
    next
      case 2
      with new b(2) a show ?thesis by simp
    qed
  qed
qed

lemma known_effect:
  assumes k: "registrations_known (w_db w)" and x: "registry_effect E w w'"
  shows "registrations_known (w_db w')"
  using x unfolding registry_effect_def
proof (elim disjE exE conjE)
  assume "same_db w w'"
  with k show ?thesis by (simp add: same_db_def)
next
  fix r e assume c: "committed E [r] [] e w w'" and an: "announces e [r]"
    and f: "fits ''NodeManifest'' (registered_row E) (registered_after E) (w_db w) r"
  show ?thesis by (rule known_commit [OF k c]) (use an f in \<open>simp add: announces_def fits_def\<close>)
next
  fix e assume c: "committed E [] [] e w w'" and ty: "de_event_type e = ''node_manifest.rejected''"
  show ?thesis by (rule known_commit [OF k c]) (use ty in simp)
qed

lemma registry_reach_ok: "registry_reach E w \<Longrightarrow> registry_ok E w"
proof (induction rule: registry_reach.induct)
  case start
  show ?case
    unfolding registry_ok_def by (rule conjI [OF service_ok_empty]) (simp add: registrations_known_def empty_world_def empty_db_def)
next
  case (call w c)
  then have ok: "service_ok E ''NodeManifest'' (registered_row E) (registered_after E) registration w"
    and k: "registrations_known (w_db w)" by (simp_all add: registry_ok_def)
  have "world_ok E w" using ok by (simp add: service_ok_def)
  from known_effect [OF k registry_run_effect [OF this call.hyps(2)]] registry.run_keeps [OF ok call.hyps(2)]
  show ?case by (simp add: registry_ok_def)
next
  case (other w os es e w')
  then have ok: "service_ok E ''NodeManifest'' (registered_row E) (registered_after E) registration w"
    and k: "registrations_known (w_db w)" by (simp_all add: registry_ok_def)
  have "registrations_known (w_db w')" by (rule known_commit [OF k other.hyps(2)]) (use other.hyps(3) in simp)
  with service_ok_foreign [OF ok other.hyps(2,4)] show ?case by (simp add: registry_ok_def)
next
  case (idle w w')
  from idle.hyps(2) have db: "w_db w' = w_db w" by (simp add: same_db_def)
  have "service_ok E ''NodeManifest'' (registered_row E) (registered_after E) registration w'"
    by (rule service_ok_same_db [OF _ idle.hyps(2)]) (use idle.IH in \<open>simp add: registry_ok_def\<close>)
  then show ?case using idle.IH unfolding registry_ok_def db by simp
qed

section \<open>Which nodes are found\<close>

text \<open>What a manifest offers at an instant: it is in its window and names the capability.\<close>

definition offers_at :: "instant \<Rightarrow> string \<Rightarrow> stored_object \<Rightarrow> bool" where
  "offers_at t name r \<longleftrightarrow>
     (\<exists>a b names. parse_window (so_body r) = Inr (a, b) \<and> a \<le> t \<and> t \<le> b \<and>
        capability_names (so_body r) = Inr names \<and> name \<in> set names)"

lemma registered_latest:
  assumes ok: "registry_ok E w" and k: "is_kind ''NodeManifest'' (w_db w) i"
  shows "registered_row E (last (history_of (w_db w) i)) \<and> history_of (w_db w) i \<noteq> []"
proof -
  let ?h = "history_of (w_db w) i"
  have g: "governed ''NodeManifest'' (registered_row E) (registered_after E) (w_db w)"
    using ok by (simp add: registry_ok_def service_ok_def)
  have ne: "?h \<noteq> []" using k by (auto simp: is_kind_def)
  from governedD [OF g k] have "registered_row E (hd ?h)" "successively (registered_after E) ?h" by blast+
  from successively_heads [OF this(2) ne last_in_set [OF ne]] this(1) ne show ?thesis
    by (auto simp: registered_after_def)
qed

lemma node_matches_run:
  assumes ok: "registry_ok E w" and k: "is_kind ''NodeManifest'' (w_db w) i"
  shows "node_matches name t i w = (Inr (offers_at t name (last (history_of (w_db w) i))), w)"
proof -
  let ?r = "last (history_of (w_db w) i)"
  from registered_latest [OF ok k] obtain a b names where
    ne: "history_of (w_db w) i \<noteq> []" and win: "parse_window (so_body ?r) = Inr (a, b)"
    and names: "capability_names (so_body ?r) = Inr names" unfolding registered_row_def by (metis surj_pair)
  have "objects_ok (w_db w)" using ok by (simp add: registry_ok_def service_ok_def world_ok_def)
  then have "latest_or_none i w = (Inr (Some ?r), w)"
    using ne by (simp add: latest_or_none_def catchp_def bindp_def ret_run get_latest_run last_opt_def)
  moreover have "offers_at t name ?r \<longleftrightarrow> a \<le> t \<and> t \<le> b \<and> name \<in> set names"
    using win names by (auto simp: offers_at_def)
  ultimately show ?thesis
    using win names by (auto simp: node_matches_def bindp_def lift_run ret_run)
qed

definition found_in :: "(string \<Rightarrow> bool) \<Rightarrow> string list \<Rightarrow> domain_event list \<Rightarrow> string set" where
  "found_in P seen es = {i. i \<notin> set seen \<and> P i \<and>
     (\<exists>e \<in> set es. de_event_type e = ''node_manifest.registered'' \<and> de_object_id e = i)}"

lemma found_in_skip:
  "de_event_type e \<noteq> ''node_manifest.registered'' \<or> de_object_id e \<in> set seen \<Longrightarrow>
     found_in P seen (e # es) = found_in P seen es"
  unfolding found_in_def by force

lemma found_in_take:
  "de_event_type e = ''node_manifest.registered'' \<Longrightarrow> de_object_id e \<notin> set seen \<Longrightarrow>
     found_in P seen (e # es) =
       (if P (de_object_id e) then {de_object_id e} else {}) \<union> found_in P (de_object_id e # seen) es"
  unfolding found_in_def by (rule set_eqI) (auto split: if_splits)

lemma find_nodes_loop_run:
  assumes ok: "registry_ok E w"
    and k: "\<forall>e \<in> set es. de_event_type e = ''node_manifest.registered'' \<longrightarrow> is_kind ''NodeManifest'' (w_db w) (de_object_id e)"
  shows "\<exists>ids. find_nodes_loop name t es seen w = (Inr ids, w) \<and> distinct ids \<and>
    set ids = found_in (\<lambda>i. offers_at t name (last (history_of (w_db w) i))) seen es"
  using k
proof (induction es arbitrary: seen)
  case Nil
  show ?case by (simp add: ret_run found_in_def)
next
  case (Cons e es)
  let ?i = "de_object_id e" and ?P = "\<lambda>i. offers_at t name (last (history_of (w_db w) i))"
  have rest: "\<forall>e \<in> set es. de_event_type e = ''node_manifest.registered'' \<longrightarrow> is_kind ''NodeManifest'' (w_db w) (de_object_id e)"
    using Cons.prems by simp
  show ?case
  proof (cases "de_event_type e \<noteq> ''node_manifest.registered'' \<or> ?i \<in> set seen")
    case True
    then have s: "find_nodes_loop name t (e # es) seen = find_nodes_loop name t es seen" by simp
    show ?thesis unfolding s found_in_skip [OF True] by (rule Cons.IH [OF rest])
  next
    case False
    then have ty: "de_event_type e = ''node_manifest.registered''" "?i \<notin> set seen" by blast+
    with Cons.prems have ki: "is_kind ''NodeManifest'' (w_db w) ?i" by simp
    from Cons.IH [OF rest, of "?i # seen"] obtain ids where
      ids: "find_nodes_loop name t es (?i # seen) w = (Inr ids, w)" "distinct ids" "set ids = found_in ?P (?i # seen) es"
      by blast
    have "find_nodes_loop name t (e # es) seen w = (Inr (if ?P ?i then ?i # ids else ids), w)"
      using ty ids(1) node_matches_run [OF ok ki, of name t] by (simp add: bindp_def ret_run)
    moreover have "?i \<notin> set ids" unfolding ids(3) by (simp add: found_in_def)
    moreover have "set (if ?P ?i then ?i # ids else ids) = found_in ?P seen (e # es)"
      unfolding found_in_take [OF ty] ids(3) [symmetric] by simp
    ultimately show ?thesis using ids(2) by (intro exI [of _ "if ?P ?i then ?i # ids else ids"]) simp
  qed
qed

text \<open>
  The search for a capability is exact. In every reachable world it succeeds, changes no
  table, and returns without repetition exactly the nodes whose latest manifest is in its window
  at that instant and declares the capability.
\<close>

lemma find_nodes_exact:
  assumes r: "registry_reach E w"
  shows "\<exists>ids w'. find_nodes_with_capability E name at w = (Inr ids, w') \<and> same_db w w' \<and> distinct ids \<and>
    set ids = {i. is_kind ''NodeManifest'' (w_db w) i \<and>
                  offers_at (instant_of E at w) name (last (history_of (w_db w) i))}"
proof -
  let ?t = "instant_of E at w"
  have ok: "registry_ok E w" using r by (rule registry_reach_ok)
  obtain w' where t: "instant_or_now E at w = (Inr ?t, w')" and k: "same_db w w'" using instant_or_now_run by blast
  have db: "w_db w' = w_db w" using k by (simp add: same_db_def)
  have s: "service_ok E ''NodeManifest'' (registered_row E) (registered_after E) registration w'"
    by (rule service_ok_same_db [OF _ k]) (use ok in \<open>simp add: registry_ok_def\<close>)
  then have ok': "registry_ok E w'" using ok unfolding registry_ok_def db by simp
  have lg: "log_ok E w'" using s by (simp add: service_ok_def world_ok_def)
  let ?es = "map ae_event (domain_events_tbl (w_db w'))"
  have known: "\<forall>e \<in> set ?es. de_event_type e = ''node_manifest.registered'' \<longrightarrow>
      is_kind ''NodeManifest'' (w_db w') (de_object_id e)"
    using ok' by (auto simp: registry_ok_def registrations_known_def)
  let ?P = "\<lambda>i. offers_at ?t name (last (history_of (w_db w') i))"
  from find_nodes_loop_run [OF ok' known, of name ?t "[]"] obtain ids where
    ids: "find_nodes_loop name ?t ?es [] w' = (Inr ids, w')" "distinct ids" "set ids = found_in ?P [] ?es" by blast
  have reg: "\<exists>e \<in> set ?es. de_event_type e = ''node_manifest.registered'' \<and> de_object_id e = i"
    if i: "is_kind ''NodeManifest'' (w_db w') i" for i
  proof -
    from i obtain x where x: "x \<in> set (objects_tbl (w_db w'))" "so_id x = i" "so_kind x = ''NodeManifest''"
      by (auto simp: is_kind_def history_of_def)
    from s have "accounted ''NodeManifest'' registration (w_db w')" by (simp add: service_ok_def)
    with x obtain a where "a \<in> set (domain_events_tbl (w_db w'))" "announces (ae_event a) [x]" "registration x (ae_event a)"
      unfolding accounted_def by blast
    with x(2) show ?thesis by (auto simp: announces_def registration_def)
  qed
  have "set ids = {i. is_kind ''NodeManifest'' (w_db w') i \<and> offers_at ?t name (last (history_of (w_db w') i))}"
  proof (intro set_eqI iffI)
    fix i assume "i \<in> set ids"
    with known show "i \<in> {i. is_kind ''NodeManifest'' (w_db w') i \<and> ?P i}" unfolding ids(3) found_in_def by fast
  next
    fix i assume "i \<in> {i. is_kind ''NodeManifest'' (w_db w') i \<and> ?P i}"
    with reg [of i] show "i \<in> set ids" unfolding ids(3) found_in_def by simp
  qed
  moreover have "find_nodes_with_capability E name at w = (Inr ids, w')"
    using t ids(1) by (simp add: find_nodes_with_capability_def bindp_def read_all_run [OF lg])
  ultimately show ?thesis using k ids(2) unfolding db by blast
qed

section \<open>Manifests received from a practice\<close>

lemma instant_or_now_ticks:
  "instant_or_now E at w = (q, w') \<Longrightarrow> w' = w \<or> w' = w\<lparr>w_ticks := Suc (w_ticks w)\<rparr>"
  by (cases at) (auto simp: instant_or_now_def ret_run now_run)

lemma signer_key_ticks:
  assumes "resolve_trusted_signer_key E obj p ring at m v w = (q, w')"
  shows "w' = w \<or> w' = w\<lparr>w_ticks := Suc (w_ticks w)\<rparr>"
proof -
  obtain t w1 where "instant_or_now E at w = (Inr t, w1)" using instant_or_now_run by blast
  with instant_or_now_ticks [OF this] assms show ?thesis
    by (auto simp: resolve_trusted_signer_key_def bindp_def guardp_run lift_def split: option.splits sum.splits if_splits)
qed

lemma manifest_key_ticks:
  assumes "resolve_trusted_manifest_key E m p ring at w = (q, w')"
  shows "w' = w \<or> w' = w\<lparr>w_ticks := Suc (w_ticks w)\<rparr>"
proof -
  obtain k w1 where k: "resolve_trusted_signer_key E m p ring at (SignerMismatchError ''Manifest'')
      (KeyNotValidError ''Manifest'') w = (k, w1)" by fastforce
  from assms k have "w' = w1"
    by (auto simp: resolve_trusted_manifest_key_def bindp_def guardp_run verify_trusted_signature_def lift_def ret_run
        split: sum.splits if_splits)
  with signer_key_ticks [OF k] show ?thesis by simp
qed

lemma manifest_key_trusted:
  assumes "resolve_trusted_manifest_key E m p ring at w = (Inr pk, w')"
  shows "trusted_by E ring p (instant_of E at w) m pk \<and> key_declared E pk (nm_public_keys m)"
proof -
  from assms [unfolded resolve_trusted_manifest_key_def] obtain w1 w2 u where
    k: "resolve_trusted_signer_key E m p ring at (SignerMismatchError ''Manifest'')
      (KeyNotValidError ''Manifest'') w = (Inr pk, w1)"
    and d: "key_declared E pk (nm_public_keys m)" and v: "verify_trusted_signature E m pk w2 = (Inr u, w')"
    by (elim bindp_InrE guardp_InrE ret_InrE) (hypsubst+, rule that, (assumption | rule refl)+)
  from resolve_then_verify [OF k v] d show ?thesis by blast
qed

lemma rejected_run:
  assumes ok: "world_ok E w" and ctx: "ctx_ok ctx" and E: "env_total E" and i: "is_valid_urn (mi_node_id m)"
    and n: "1 \<le> bo_revision m" and fresh: "event_id_at E (w_ticks w) \<notin> set (event_ids (w_db w))"
  shows "\<exists>w'. record_manifest_rejected E ctx m reason w = (Inr (), w')"
proof -
  let ?w2 = "w\<lparr>w_ticks := Suc (Suc (w_ticks w))\<rparr>"
  have ty: "non_empty ''node_manifest.rejected''" by (simp add: non_empty_def is_space_def)
  obtain e where e: "make_event E ctx ''node_manifest.rejected'' (now E) (last_event_id_for (mi_node_id m))
      (mi_node_id m) (bo_revision m) [(''reason_category'', JStr reason)] w = (Inr e, ?w2)"
    "de_id e = event_id_at E (w_ticks w)"
    using make_event_now_run [OF ok ctx E i ty n] by blast
  have "world_ok E ?w2" using ok by simp
  then obtain a w' where "record_event E (ret ()) e ?w2 = (Inr a, w')"
    using record_event_run [OF _ E, of ?w2 e] fresh by (auto simp: e(2))
  with e(1) show ?thesis by (simp add: record_manifest_rejected_def bindp_def ret_run)
qed

text \<open>
  A manifest received from a practice is registered exactly when that practice vouches for
  it: its signer is the practice, its key is active and in its window in the ring of the
  practice, the signature verifies and the key is one the manifest declares. A refusal for one
  of the journaled reasons writes one event with that reason, and no revision, and is raised;
  any other failure of the resolution is raised and writes nothing.
\<close>

lemma receive_manifest_exact:
  assumes ok: "world_ok E w" and ctx: "ctx_ok ctx" and E: "env_total E" and i: "is_valid_urn (mi_node_id m)"
    and n: "1 \<le> bo_revision m" and ring: "practice_key_ring E (pr_keys p) = Inr ring"
    and fresh: "\<forall>k \<in> {w_ticks w, Suc (w_ticks w)}. event_id_at E k \<notin> set (event_ids (w_db w))"
  shows "case resolve_trusted_manifest_key E (mi_signed m) (pr_id p) ring at w of
      (Inr pk, w1) \<Rightarrow>
        trusted_by E ring (pr_id p) (instant_of E at w) (mi_signed m) pk \<and>
        (\<exists>k \<in> set (nm_public_keys (mi_signed m)). decode_public_key E k = Inr pk) \<and> same_db w w1 \<and>
        receive_manifest E ctx m p at w = register E ctx m pk w1
    | (Inl x, w1) \<Rightarrow>
        (case rejection_reason x of
           None \<Rightarrow> receive_manifest E ctx m p at w = (Inl x, w1) \<and> same_db w w1
         | Some reason \<Rightarrow>
             \<exists>w' e. receive_manifest E ctx m p at w = (Inl x, w') \<and> committed E [] [] e w w' \<and>
               de_event_type e = ''node_manifest.rejected'' \<and> de_object_id e = mi_node_id m \<and>
               de_payload e = [(''reason_category'', JStr reason)])"
proof -
  obtain q w1 where r: "resolve_trusted_manifest_key E (mi_signed m) (pr_id p) ring at w = (q, w1)" by fastforce
  have k: "same_db w w1" by (rule keepsD [OF readonly_resolve_manifest r])
  show ?thesis
  proof (cases q)
    case (Inr pk)
    have "receive_manifest E ctx m p at w = register E ctx m pk w1"
      using ring r Inr by (simp add: receive_manifest_def bindp_def lift_run catchp_def)
    with manifest_key_trusted [OF r [unfolded Inr]] k r Inr show ?thesis by (simp add: key_declared_iff)
  next
    case (Inl x)
    show ?thesis
    proof (cases "rejection_reason x")
      case None
      with ring r Inl k show ?thesis by (simp add: receive_manifest_def bindp_def lift_run catchp_def raise_run)
    next
      case (Some reason)
      have ok1: "world_ok E w1" by (rule world_ok_same_db [OF ok k])
      have "event_id_at E (w_ticks w1) \<notin> set (event_ids (w_db w1))"
        using manifest_key_ticks [OF r] fresh by auto
      from rejected_run [OF ok1 ctx E i n this] obtain w' where
        w': "record_manifest_rejected E ctx m reason w1 = (Inr (), w')" by blast
      from rejected_Inr [OF ok1 w'] obtain e where e: "committed E [] [] e w1 w'"
        "de_event_type e = ''node_manifest.rejected''" "de_object_id e = mi_node_id m"
        "de_payload e = [(''reason_category'', JStr reason)]" by blast
      have "receive_manifest E ctx m p at w = (Inl x, w')"
        using ring r Inl Some w' by (simp add: receive_manifest_def bindp_def lift_run catchp_def raise_run)
      with committed_from [OF k e(1)] e(2-4) r Inl Some show ?thesis by auto
    qed
  qed
qed

section \<open>Witnesses\<close>

definition sample_manifest :: manifest_instance where
  "sample_manifest = \<lparr>bo_id = sample_urn ''manifest'', bo_api_version = ''mrr/v1alpha1'', bo_kind = ''NodeManifest'',
     bo_practice_id = sample_urn ''practice'', bo_revision = 1, bo_created_at = 1700000000000000,
     bo_created_by = sample_urn ''human'', bo_content_hash = content_hash ''{}'', bo_supersedes = None,
     bo_labels = None,
     bo_dump = [(''valid_from'', JStr ''2020-01-01T00:00:00Z''), (''valid_until'', JStr ''2030-01-01T00:00:00Z''),
       (''capabilities'', JArr [JObj [(''name'', JStr ''numeric.recompute''), (''version'', JStr ''1'')]])],
     mi_node_id = sample_urn ''node'', mi_capabilities = [(''numeric.recompute'', ''1'')],
     mi_signed = \<lparr>sg_signer_practice_id = sample_urn ''practice'', sg_key_id = derive_key_id sample_key,
       sg_algorithm = ''Ed25519'', sg_value = b64encode (sample_key @ ''{}''),
       sg_dump = [(''valid_from'', JStr ''2020-01-01T00:00:00Z''), (''valid_until'', JStr ''2030-01-01T00:00:00Z''),
         (''capabilities'', JArr [JObj [(''name'', JStr ''numeric.recompute''), (''version'', JStr ''1'')]])],
       nm_public_keys = [encode_public_key sample_key]\<rparr>\<rparr>"

lemma sample_window: "parse_window (bo_dump sample_manifest) = Inr (1577836800000000, 1893456000000000)"
proof -
  have "fromisoformat ''2020-01-01T00:00:00Z'' = Inr 1577836800000000" by code_simp
  moreover have "fromisoformat ''2030-01-01T00:00:00Z'' = Inr 1893456000000000" by code_simp
  ultimately show ?thesis by (simp add: parse_window_def sample_manifest_def dget_str_def dget_def)
qed

lemma sample_manifest_ok: "manifest_ok sample_manifest" "capability_names (bo_dump sample_manifest) = Inr [''numeric.recompute'']"
  using sample_window
  by (simp_all add: manifest_ok_def capability_names_def body_capabilities_def sample_manifest_def dget_str_def dget_def)

lemma sample_manifest_signed:
  "verify_object_signature sample_env sample_key (bo_dump sample_manifest) (sg_value (mi_signed sample_manifest))
     (sg_algorithm (mi_signed sample_manifest)) = Inr ()"
  by (simp add: verify_object_signature_Inr b64decode_encode sample_env_def sample_manifest_def)

lemma register_run:
  assumes ok: "world_ok E w" and ctx: "ctx_ok ctx" and E: "env_total E" and i: "is_valid_urn (mi_node_id m)"
    and n: "bo_revision m = next_revision (current_revision (w_db w) (mi_node_id m))" "1 \<le> bo_revision m"
    and v: "verify_object_signature E pk (bo_dump m) (sg_value (mi_signed m)) (sg_algorithm (mi_signed m)) = Inr ()"
    and fresh: "event_id_at E (w_ticks w) \<notin> set (event_ids (w_db w))"
  shows "\<exists>w'. register E ctx m pk w = (Inr (manifest_to_stored_object m), w') \<and> w_ticks w' = w_ticks w + 3 \<and>
    event_ids (w_db w') = event_ids (w_db w) @ [event_id_at E (w_ticks w)]"
proof -
  let ?w2 = "w\<lparr>w_ticks := Suc (Suc (w_ticks w))\<rparr>" and ?r = "manifest_to_stored_object m"
  have ty: "non_empty ''node_manifest.registered''" by (simp add: non_empty_def is_space_def)
  obtain e where e: "make_event E ctx ''node_manifest.registered'' (now E) (last_event_id_for (mi_node_id m))
      (mi_node_id m) (bo_revision m) [(''capability_names'', JArr (map (\<lambda>c. JStr (fst c)) (mi_capabilities m)))] w = (Inr e, ?w2)"
    "de_id e = event_id_at E (w_ticks w)"
    using make_event_now_run [OF ok ctx E i ty n(2)] by blast
  have ok2: "world_ok E ?w2" using ok by simp
  have "so_revision ?r = next_revision (current_revision (w_db ?w2) (so_id ?r))"
    using n(1) by (simp add: manifest_to_stored_object_def)
  with unit_of_work_run [OF ok2 E, of e ?r] fresh e(2) obtain a w' where
    b: "bind_unit_of_work E ?r (current_revision (w_db w) (mi_node_id m)) e ?w2 = (Inr (?r, a), w')"
      "w_ticks w' = w_ticks w + 3" "event_ids (w_db w') = event_ids (w_db w) @ [event_id_at E (w_ticks w)]"
    by (auto simp: manifest_to_stored_object_def)
  then show ?thesis
    using v n(1) e(1)
    by (simp add: register_def bindp_def lift_run guardp_run ret_run current_revision_or_none_run [OF world_ok_parts(2) [OF ok]])
qed

lemma registered_world:
  obtains w where "registry_reach sample_env w" and "history_of (w_db w) (sample_urn ''node'') = [manifest_to_stored_object sample_manifest]"
    and "w_ticks w = 3" and "event_ids (w_db w) = map (event_id_at sample_env) [0]"
proof -
  let ?m = sample_manifest
  have m: "mi_node_id ?m = sample_urn ''node''" "bo_revision ?m = 1" by (simp_all add: sample_manifest_def)
  have n: "bo_revision ?m = next_revision (current_revision (w_db empty_world) (mi_node_id ?m))" "1 \<le> bo_revision ?m"
    by (simp_all add: m next_revision_def current_revision_def start_fresh)
  have vi: "is_valid_urn (mi_node_id ?m)" by (simp add: m)
  obtain w' where run: "register sample_env sample_ctx ?m sample_key empty_world = (Inr (manifest_to_stored_object ?m), w')"
    and t: "w_ticks w' = 3" "event_ids (w_db w') = map (event_id_at sample_env) [0]"
    using register_run [OF world_ok_empty ctx_ok_sample env_total_sample vi n sample_manifest_signed start_fresh(1)]
    by (auto simp: start_fresh)
  have "registry_call_ok (w_db empty_world) (Register sample_ctx ?m sample_key)"
    using sample_manifest_ok by (simp add: addressable_def start_fresh)
  from registry_reach.call [OF registry_reach.start this, of sample_env] run have r: "registry_reach sample_env w'" by simp
  from register_Inr [OF world_ok_empty run] obtain e where
    "committed sample_env [manifest_to_stored_object ?m] [] e empty_world w'" by blast
  then have "history_of (w_db w') (sample_urn ''node'') = [manifest_to_stored_object ?m]"
    unfolding history_of_def by (simp add: committed_tables(1) empty_world_def empty_db_def manifest_to_stored_object_def m)
  with that r t show thesis by blast
qed

lemma find_nodes_exact_witness:
  "\<exists>(w :: world) w' ids. find_nodes_with_capability sample_env ''numeric.recompute'' (Some 1700000000000000) w = (Inr ids, w') \<and>
     sample_urn ''node'' \<in> set ids"
proof -
  obtain w where w: "registry_reach sample_env w"
    "history_of (w_db w) (sample_urn ''node'') = [manifest_to_stored_object sample_manifest]" by (rule registered_world)
  have "is_kind ''NodeManifest'' (w_db w) (sample_urn ''node'')"
    by (simp add: is_kind_def w(2) manifest_to_stored_object_def sample_manifest_def)
  moreover have "offers_at 1700000000000000 ''numeric.recompute'' (manifest_to_stored_object sample_manifest)"
    using sample_window sample_manifest_ok(2) by (simp add: offers_at_def manifest_to_stored_object_def)
  ultimately have m: "sample_urn ''node'' \<in> {i. is_kind ''NodeManifest'' (w_db w) i \<and>
      offers_at (instant_of sample_env (Some 1700000000000000) w) ''numeric.recompute'' (last (history_of (w_db w) i))}"
    by (simp add: w(2) instant_of_def)
  from find_nodes_exact [OF w(1), of "''numeric.recompute''" "Some 1700000000000000"] obtain ids w' where
    f: "find_nodes_with_capability sample_env ''numeric.recompute'' (Some 1700000000000000) w = (Inr ids, w')"
    and s: "set ids = {i. is_kind ''NodeManifest'' (w_db w) i \<and>
      offers_at (instant_of sample_env (Some 1700000000000000) w) ''numeric.recompute'' (last (history_of (w_db w) i))}"
    by (elim exE conjE) (rule that)
  show ?thesis
    by (rule exI [of _ w], rule exI [of _ w'], rule exI [of _ ids], rule conjI [OF f]) (unfold s, rule m)
qed

lemma receive_manifest_exact_witness:
  "\<exists>(w' :: world) e. receive_manifest sample_env sample_ctx sample_manifest
       \<lparr>pr_id = sample_urn ''practice'', pr_keys = []\<rparr> (Some 5) empty_world =
       (Inl (UnknownKeyIdError (derive_key_id sample_key)), w') \<and>
     committed sample_env [] [] e empty_world w' \<and> de_payload e = [(''reason_category'', JStr ''unknown_key'')]"
proof -
  let ?p = "\<lparr>pr_id = sample_urn ''practice'', pr_keys = []\<rparr>"
  have vi: "is_valid_urn (mi_node_id sample_manifest)" "1 \<le> bo_revision sample_manifest" by (simp_all add: sample_manifest_def)
  have ring: "practice_key_ring sample_env (pr_keys ?p) = Inr []" by (simp add: practice_key_ring_def new_key_ring_def)
  have f: "\<forall>k \<in> {w_ticks empty_world, Suc (w_ticks empty_world)}. event_id_at sample_env k \<notin> set (event_ids (w_db empty_world))"
    by (simp add: start_fresh)
  have r: "resolve_trusted_manifest_key sample_env (mi_signed sample_manifest) (pr_id ?p) [] (Some 5) empty_world =
      (Inl (UnknownKeyIdError (derive_key_id sample_key)), empty_world)"
    by (simp add: resolve_trusted_manifest_key_def resolve_trusted_signer_key_def bindp_def guardp_run lift_run
        sample_manifest_def ring_get_def)
  from receive_manifest_exact [OF world_ok_empty ctx_ok_sample env_total_sample vi ring f, where at = "Some 5"] r
  show ?thesis by auto
qed

end
