(* ===== verification/Task_Bundle_Service.thy ===== *)
theory Task_Bundle_Service
  imports Capability_Registry Governance_Services
begin

text \<open>
  Task bundles, \<^verbatim>\<open>services/control_plane/mrr/services/task_bundle/service.py\<close>: the origin creates a
  bundle for an approved research score and a capability the target node declares, and offers it;
  the target node accepts, defers, rejects or modifies it, after checking that it is the target
  and that the origin's signature verifies. The statuses are in the event log.
\<close>

section \<open>Bundles\<close>

text \<open>A \<^verbatim>\<open>TaskBundle\<close> instance: the fields the service reads, which its dump shows.\<close>

record task_bundle = lifecycle_object +
  tb_target_node_id :: urn
  tb_research_score_id :: urn
  tb_capability :: "string \<times> string"

definition task_bundle_instance :: "task_bundle \<Rightarrow> bool" where
  "task_bundle_instance b \<longleftrightarrow>
     lifecycle_instance ''TaskBundle'' b \<and> map_of (bo_dump b) ''id'' = Some (JStr (bo_id b)) \<and>
     map_of (bo_dump b) ''content_hash'' = Some (JStr (bo_content_hash b)) \<and>
     map_of (bo_dump b) ''target_node_id'' = Some (JStr (tb_target_node_id b))"

definition TASK_BUNDLE_EVENTS :: "string set" where
  "TASK_BUNDLE_EVENTS = {''task_bundle.offered'', ''task_bundle.accepted'', ''task_bundle.deferred'',
     ''task_bundle.rejected'', ''task_bundle.modification_offered''}"

definition REFUSAL_REASONS :: "string set" where
  "REFUSAL_REASONS = {''capability_unavailable'', ''policy_declined'', ''resource_unavailable'',
     ''data_access_denied'', ''other''}"

section \<open>The service of the origin\<close>

text \<open>\<^verbatim>\<open>any(...)\<close> over the capabilities of a manifest: the version is read where the name matches.\<close>

fun declares :: "string \<Rightarrow> string \<Rightarrow> json list \<Rightarrow> bool outcome" where
  "declares name version [] = Inr False"
| "declares name version (c # cs) =
     (case capability_field ''name'' c of
        Inl e \<Rightarrow> Inl e
      | Inr n \<Rightarrow>
          if n \<noteq> name then declares name version cs
          else (case capability_field ''version'' c of
                  Inl e \<Rightarrow> Inl e
                | Inr v \<Rightarrow> if v = version then Inr True else declares name version cs))"

definition ensure_capability_declared :: "env \<Rightarrow> task_bundle \<Rightarrow> (world, unit) prog" where
  "ensure_capability_declared E bundle =
     bindp (get_current_manifest E (tb_target_node_id bundle) None) (\<lambda>manifest.
     bindp (lift (body_capabilities (so_body manifest))) (\<lambda>cs.
     bindp (lift (declares (fst (tb_capability bundle)) (snd (tb_capability bundle)) cs)) (\<lambda>declared.
     guardp declared (CapabilityNotDeclaredError (tb_target_node_id bundle)
       (fst (tb_capability bundle)) (snd (tb_capability bundle))))))"

definition task_bundle_create :: "env \<Rightarrow> call_ctx \<Rightarrow> task_bundle \<Rightarrow> (world, stored_object) prog" where
  "task_bundle_create E ctx bundle =
     bindp (guardp (lo_status bundle = sm_initial TASK_BUNDLE_LIFECYCLE)
       (InvalidTransitionError (sm_name TASK_BUNDLE_LIFECYCLE) ''<new>'' (lo_status bundle))) (\<lambda>_.
     bindp (guardp (bo_revision bundle = 1) ValueError) (\<lambda>_.
     bindp (ensure_can_start_work (tb_research_score_id bundle)) (\<lambda>_.
     bindp (ensure_capability_declared E bundle) (\<lambda>_.
     create_object E ctx (stored_of bundle) ''task_bundle.created''
       [(''status'', JStr (lo_status bundle)), (''target_node_id'', JStr (tb_target_node_id bundle)),
        (''capability_name'', JStr (fst (tb_capability bundle))),
        (''capability_version'', JStr (snd (tb_capability bundle)))]))))"

definition task_bundle_offer :: "env \<Rightarrow> call_ctx \<Rightarrow> urn \<Rightarrow> (world, event_transition) prog" where
  "task_bundle_offer E ctx i =
     bindp (get_latest_or (TaskBundleNotFoundError i) i) (\<lambda>latest.
     bindp (current_status TASK_BUNDLE_EVENTS latest) (\<lambda>current.
     advance E ctx TASK_BUNDLE_LIFECYCLE latest current ''OFFERED'' ''task_bundle.offered''
       [(''from_status'', JStr current), (''to_status'', JStr ''OFFERED'')]))"

definition accept_modification :: "env \<Rightarrow> call_ctx \<Rightarrow> urn \<Rightarrow> (world, event_transition) prog" where
  "accept_modification E ctx i =
     bindp (get_latest_or (TaskBundleNotFoundError i) i) (\<lambda>latest.
     bindp (current_status TASK_BUNDLE_EVENTS latest) (\<lambda>current.
     bindp (guardp (current = ''OFFERED'')
       (InvalidTransitionError (sm_name TASK_BUNDLE_LIFECYCLE) current ''OFFERED'')) (\<lambda>_.
     note_event E ctx latest ''OFFERED'' ''task_bundle.modification_acknowledged''
       [(''status'', JStr ''OFFERED''), (''acknowledged_content_revision'', JInt (so_revision latest))])))"

text \<open>The key of the practice that must have signed the latest content.\<close>

definition resolve_trusted_verifying_key ::
  "env \<Rightarrow> urn \<Rightarrow> practice \<Rightarrow> instant option \<Rightarrow> (world, public_key) prog" where
  "resolve_trusted_verifying_key E i trusted at =
     bindp (get_latest_or (TaskBundleNotFoundError i) i) (\<lambda>latest.
     bindp (lift (reconstruct_signed E ''TaskBundle'' (so_body latest))) (\<lambda>bundle.
     bindp (lift (practice_key_ring E (pr_keys trusted))) (\<lambda>ring.
     resolve_trusted_task_key E bundle (pr_id trusted) ring at)))"

definition accept_modification_trusted ::
  "env \<Rightarrow> call_ctx \<Rightarrow> urn \<Rightarrow> practice \<Rightarrow> instant option \<Rightarrow> (world, event_transition) prog" where
  "accept_modification_trusted E ctx i trusted_node at =
     bindp (resolve_trusted_verifying_key E i trusted_node at) (\<lambda>_.
     accept_modification E ctx i)"

section \<open>The decisions of the target node\<close>

definition authorize_and_verify ::
  "env \<Rightarrow> urn \<Rightarrow> urn \<Rightarrow> public_key \<Rightarrow> (world, stored_object \<times> signed_object \<times> string) prog" where
  "authorize_and_verify E i deciding_node_id verifying_key =
     bindp (get_latest_or (TaskBundleNotFoundError i) i) (\<lambda>latest.
     bindp (lift (dget_str (so_body latest) ''target_node_id'')) (\<lambda>target.
     bindp (guardp (deciding_node_id = target) (NodeAuthorityError i target deciding_node_id)) (\<lambda>_.
     bindp (lift (reconstruct_signed E ''TaskBundle'' (so_body latest))) (\<lambda>bundle.
     bindp (lift (verify_object_signature E verifying_key (so_body latest) (sg_value bundle)
       (sg_algorithm bundle))) (\<lambda>_.
     bindp (current_status TASK_BUNDLE_EVENTS latest) (\<lambda>current.
     ret (latest, bundle, current)))))))"

definition decide_to ::
  "env \<Rightarrow> call_ctx \<Rightarrow> urn \<Rightarrow> urn \<Rightarrow> public_key \<Rightarrow> string \<Rightarrow> string \<Rightarrow> dict \<Rightarrow> (world, event_transition) prog" where
  "decide_to E ctx i node verifying_key to_status event_type extra =
     bindp (authorize_and_verify E i node verifying_key) (\<lambda>(latest, _, current).
     advance E ctx TASK_BUNDLE_LIFECYCLE latest current to_status event_type
       ([(''from_status'', JStr current), (''to_status'', JStr to_status)] @ extra))"

definition task_bundle_accept ::
  "env \<Rightarrow> call_ctx \<Rightarrow> urn \<Rightarrow> urn \<Rightarrow> public_key \<Rightarrow> (world, event_transition) prog" where
  "task_bundle_accept E ctx i node pk = decide_to E ctx i node pk ''ACCEPTED'' ''task_bundle.accepted'' []"

definition task_bundle_defer ::
  "env \<Rightarrow> call_ctx \<Rightarrow> urn \<Rightarrow> urn \<Rightarrow> public_key \<Rightarrow> (world, event_transition) prog" where
  "task_bundle_defer E ctx i node pk = decide_to E ctx i node pk ''DEFERRED'' ''task_bundle.deferred'' []"

definition task_bundle_reject ::
  "env \<Rightarrow> call_ctx \<Rightarrow> urn \<Rightarrow> urn \<Rightarrow> public_key \<Rightarrow> string \<Rightarrow> string option \<Rightarrow> (world, event_transition) prog" where
  "task_bundle_reject E ctx i node pk reason_category explanation =
     bindp (guardp (reason_category \<in> REFUSAL_REASONS) ValueError) (\<lambda>_.
     decide_to E ctx i node pk ''REJECTED'' ''task_bundle.rejected''
       ((''reason_category'', JStr reason_category) #
        (case explanation of None \<Rightarrow> [] | Some x \<Rightarrow> [(''explanation'', JStr x)])))"

definition propose_modification ::
  "env \<Rightarrow> call_ctx \<Rightarrow> urn \<Rightarrow> task_bundle \<Rightarrow> urn \<Rightarrow> public_key \<Rightarrow> (world, stored_object) prog" where
  "propose_modification E ctx i modified node pk =
     bindp (authorize_and_verify E i node pk) (\<lambda>(latest, bundle, current).
     bindp (lift (assert_transition TASK_BUNDLE_LIFECYCLE current ''MODIFICATION_PROPOSED'')) (\<lambda>_.
     bindp (lift (assert_transition TASK_BUNDLE_LIFECYCLE ''MODIFICATION_PROPOSED'' ''OFFERED'')) (\<lambda>_.
     bindp (lift (dget_str (sg_dump bundle) ''id'')) (\<lambda>bundle_id.
     bindp (guardp (bo_id modified = bundle_id) ValueError) (\<lambda>_.
     bindp (guardp (lo_status modified = ''OFFERED'') ValueError) (\<lambda>_.
     bindp (guardp (bo_revision modified = so_revision latest + 1) ValueError) (\<lambda>_.
     bindp (lift (dget_str (sg_dump bundle) ''content_hash'')) (\<lambda>bundle_hash.
     bindp (guardp (bo_content_hash modified \<noteq> bundle_hash) ValueError) (\<lambda>_.
     bindp (make_event E ctx ''task_bundle.modification_offered'' (now E) (last_event_id_for i) i
       (bo_revision modified)
       [(''from_status'', JStr current), (''via'', JStr ''MODIFICATION_PROPOSED''),
        (''to_status'', JStr ''OFFERED''), (''content_revision'', JInt (bo_revision modified))]) (\<lambda>e.
     bindp (bind_unit_of_work E (stored_of modified) (Some (so_revision latest)) e) (\<lambda>(stored, _).
     ret stored)))))))))))"

text \<open>The decision methods and their trusted forms, which resolve the key of the origin first.\<close>

datatype decision = Accept | Defer | Reject string "string option"

fun decide :: "env \<Rightarrow> call_ctx \<Rightarrow> urn \<Rightarrow> urn \<Rightarrow> public_key \<Rightarrow> decision \<Rightarrow> (world, event_transition) prog" where
  "decide E ctx i node pk Accept = task_bundle_accept E ctx i node pk"
| "decide E ctx i node pk Defer = task_bundle_defer E ctx i node pk"
| "decide E ctx i node pk (Reject reason explanation) = task_bundle_reject E ctx i node pk reason explanation"

definition decide_trusted ::
  "env \<Rightarrow> call_ctx \<Rightarrow> urn \<Rightarrow> urn \<Rightarrow> practice \<Rightarrow> instant option \<Rightarrow> decision \<Rightarrow> (world, event_transition) prog" where
  "decide_trusted E ctx i node trusted_origin at d =
     bindp (resolve_trusted_verifying_key E i trusted_origin at) (\<lambda>verifying_key.
     decide E ctx i node verifying_key d)"

definition propose_modification_trusted ::
  "env \<Rightarrow> call_ctx \<Rightarrow> urn \<Rightarrow> task_bundle \<Rightarrow> urn \<Rightarrow> practice \<Rightarrow> instant option \<Rightarrow> (world, stored_object) prog" where
  "propose_modification_trusted E ctx i modified node trusted_origin at =
     bindp (resolve_trusted_verifying_key E i trusted_origin at) (\<lambda>verifying_key.
     propose_modification E ctx i modified node verifying_key)"

end
