(* ===== verification/Task_Bundle_Properties.thy ===== *)
theory Task_Bundle_Properties
  imports Task_Bundle_Service Journaled_Calls Governance_Properties Contract_Samples
begin

text \<open>
  What holds of task bundles: every bundle follows its lifecycle in the log and is decided at
  most once; a decision comes from the target node, over content its origin has signed; a bundle
  is created for a startable score and a declared capability.
\<close>

section \<open>What the calls write\<close>

text \<open>The fields every revision of a bundle shows; the first revision and the later ones.\<close>

definition bundle_row :: "stored_object \<Rightarrow> bool" where
  "bundle_row r \<longleftrightarrow> map_of (so_body r) ''id'' = Some (JStr (so_id r)) \<and>
     map_of (so_body r) ''content_hash'' = Some (JStr (so_content_hash r)) \<and>
     (\<exists>node. map_of (so_body r) ''target_node_id'' = Some (JStr node))"

definition bundle_first :: "stored_object \<Rightarrow> bool" where
  "bundle_first r \<longleftrightarrow> created ''TaskBundle'' TASK_BUNDLE_LIFECYCLE r \<and> bundle_row r"

definition bundle_step :: "stored_object \<Rightarrow> stored_object \<Rightarrow> bool" where
  "bundle_step l r \<longleftrightarrow> bundle_row r \<and> so_id r = so_id l \<and> so_kind r = so_kind l \<and>
     so_revision r = so_revision l + 1 \<and> status_of r = Some ''OFFERED'' \<and> so_content_hash r \<noteq> so_content_hash l"

definition bundle_told :: "stored_object \<Rightarrow> domain_event \<Rightarrow> bool" where
  "bundle_told r e \<longleftrightarrow>
     de_event_type e = (if so_revision r = 1 then ''task_bundle.created'' else ''task_bundle.modification_offered'')"

abbreviation bundles_ok :: "env \<Rightarrow> world \<Rightarrow> bool" where
  "bundles_ok E \<equiv>
     journal_ok E ''TaskBundle'' TASK_BUNDLE_LIFECYCLE TASK_BUNDLE_EVENTS bundle_first bundle_step bundle_told"

abbreviation bundle_journals :: "env \<Rightarrow> world \<Rightarrow> world \<Rightarrow> bool" where
  "bundle_journals E \<equiv>
     journals E ''TaskBundle'' TASK_BUNDLE_LIFECYCLE TASK_BUNDLE_EVENTS bundle_first bundle_step bundle_told"

abbreviation bundle_status :: "db \<Rightarrow> urn \<Rightarrow> string" where
  "bundle_status d i \<equiv> status_now TASK_BUNDLE_LIFECYCLE TASK_BUNDLE_EVENTS d i"

lemma bundle_event_types:
  "''task_bundle.offered'' \<in> TASK_BUNDLE_EVENTS" "''task_bundle.accepted'' \<in> TASK_BUNDLE_EVENTS"
  "''task_bundle.deferred'' \<in> TASK_BUNDLE_EVENTS" "''task_bundle.rejected'' \<in> TASK_BUNDLE_EVENTS"
  "''task_bundle.modification_offered'' \<in> TASK_BUNDLE_EVENTS" "''task_bundle.created'' \<notin> TASK_BUNDLE_EVENTS"
  "''task_bundle.modification_acknowledged'' \<notin> TASK_BUNDLE_EVENTS"
  by (simp_all add: TASK_BUNDLE_EVENTS_def)

lemma readonly_manifest [readonly]: "keeps same_db (get_current_manifest E i at)"
  unfolding get_current_manifest_def case_prod_beta by (intro readonly)

lemma readonly_declared [readonly]: "keeps same_db (ensure_capability_declared E b)"
  unfolding ensure_capability_declared_def by (intro readonly)

lemma readonly_startable [readonly]: "keeps same_db (ensure_can_start_work i)"
  unfolding ensure_can_start_work_def by (intro readonly)

lemma readonly_verifying_key [readonly]: "keeps same_db (resolve_trusted_verifying_key E i p at)"
  unfolding resolve_trusted_verifying_key_def by (intro readonly)

lemma readonly_authorize [readonly]: "keeps same_db (authorize_and_verify E i node pk)"
  unfolding authorize_and_verify_def by (intro readonly)

lemmas current_of = journal_current [where kind = "''TaskBundle''" and M = TASK_BUNDLE_LIFECYCLE and
  types = TASK_BUNDLE_EVENTS and first = bundle_first and step = bundle_step and told = bundle_told]

lemma authorize_Inr:
  assumes ok: "bundles_ok E w" and ad: "addressable ''TaskBundle'' (w_db w) i"
    and run: "authorize_and_verify E i node pk w = (Inr (latest, bundle, current), w')"
  shows "w' = w \<and> latest = last (history_of (w_db w) i) \<and> so_id latest = i \<and> is_kind ''TaskBundle'' (w_db w) i \<and>
    current = bundle_status (w_db w) i \<and>
    map_of (so_body latest) ''target_node_id'' = Some (JStr node) \<and>
    reconstruct_signed E ''TaskBundle'' (so_body latest) = Inr bundle \<and>
    verify_object_signature E pk (so_body latest) (sg_value bundle) (sg_algorithm bundle) = Inr ()"
proof -
  from run [unfolded authorize_and_verify_def] obtain l w1 s u c w2 where
    s1: "get_latest_or (TaskBundleNotFoundError i) i w = (Inr l, w1)"
    and t: "dget_str (so_body l) ''target_node_id'' = Inr node"
    and rc: "reconstruct_signed E ''TaskBundle'' (so_body l) = Inr s"
    and v: "verify_object_signature E pk (so_body l) (sg_value s) (sg_algorithm s) = Inr u"
    and s2: "current_status TASK_BUNDLE_EVENTS l w1 = (Inr c, w2)"
    and e: "latest = l" "bundle = s" "current = c" "w' = w2"
    by (elim bindp_InrE guardp_InrE lift_InrE ret_InrE) (auto simp: unit_eq)
  from current_of [OF ok ad s1 s2] t rc v [unfolded unit_eq [of u]] show ?thesis unfolding e dget_str_Inr by blast
qed

text \<open>An event that moves a bundle.\<close>

lemmas advance_moves = journal_advance [where kind = "''TaskBundle''" and M = TASK_BUNDLE_LIFECYCLE and
  types = TASK_BUNDLE_EVENTS and first = bundle_first and step = bundle_step and told = bundle_told]

lemma decide_to_Inr:
  assumes ok: "bundles_ok E w" and ad: "addressable ''TaskBundle'' (w_db w) i"
    and run: "decide_to E ctx i node pk s ty extra w = (Inr x, w')"
    and ty: "ty \<in> TASK_BUNDLE_EVENTS" and via: "map_of extra ''via'' = None"
  shows "\<exists>latest bundle e. latest = last (history_of (w_db w) i) \<and> is_kind ''TaskBundle'' (w_db w) i \<and>
    map_of (so_body latest) ''target_node_id'' = Some (JStr node) \<and>
    reconstruct_signed E ''TaskBundle'' (so_body latest) = Inr bundle \<and>
    verify_object_signature E pk (so_body latest) (sg_value bundle) (sg_algorithm bundle) = Inr () \<and>
    can_transition TASK_BUNDLE_LIFECYCLE (bundle_status (w_db w) i) s \<and> et_content x = latest \<and> et_status x = s \<and>
    committed E [] [] e w w' \<and> de_event_type e = ty \<and> de_object_id e = i \<and> de_actor e = cx_actor ctx \<and>
    moves_on ''TaskBundle'' TASK_BUNDLE_LIFECYCLE TASK_BUNDLE_EVENTS (w_db w) e \<and> bundle_status (w_db w') i = s"
proof -
  from run [unfolded decide_to_def case_prod_beta] obtain q w1 where
    a: "authorize_and_verify E i node pk w = (Inr q, w1)"
    and b: "advance E ctx TASK_BUNDLE_LIFECYCLE (fst q) (snd (snd q)) s ty
       ([(''from_status'', JStr (snd (snd q))), (''to_status'', JStr s)] @ extra) w1 = (Inr x, w')"
    by (elim bindp_InrE) (rule that)
  obtain latest sg current where q: "q = (latest, sg, current)" by (cases q)
  note au = authorize_Inr [OF ok ad a [unfolded q]]
  have e: "w1 = w" "so_id latest = i" using au by blast+
  have cur: "current = bundle_status (w_db w) (so_id latest)" and k: "is_kind ''TaskBundle'' (w_db w) (so_id latest)"
    using au unfolding e(2) by blast+
  have "advance E ctx TASK_BUNDLE_LIFECYCLE latest (bundle_status (w_db w) (so_id latest)) s ty
       ([(''from_status'', JStr current), (''to_status'', JStr s)] @ extra) w = (Inr x, w')"
    using b unfolding q fst_conv snd_conv e(1) cur .
  from advance_moves [OF ok k this ty via] show ?thesis using au unfolding e(2) by blast
qed

lemma event_transition_aon:
  "all_or_nothing (decide_to E ctx i node pk s ty extra)"
  "all_or_nothing (task_bundle_offer E ctx i)" "all_or_nothing (accept_modification E ctx i)"
  unfolding decide_to_def task_bundle_offer_def accept_modification_def case_prod_beta
  by (intro aon_bindp advance_aon note_event_aon readonly)+

lemma decide_to_journals:
  assumes "bundles_ok E w" and "addressable ''TaskBundle'' (w_db w) i"
    and run: "decide_to E ctx i node pk s ty extra w = (q, w')"
    and "ty \<in> TASK_BUNDLE_EVENTS" and "map_of extra ''via'' = None"
  shows "bundle_journals E w w'"
proof (rule journals_aon [OF event_transition_aon(1) run])
  fix r assume "q = Inr r"
  from decide_to_Inr [OF assms(1,2) run [unfolded this] assms(4,5)] obtain e where
    "committed E [] [] e w w'" "moves_on ''TaskBundle'' TASK_BUNDLE_LIFECYCLE TASK_BUNDLE_EVENTS (w_db w) e"
    by (elim exE conjE) (rule that)
  then show "bundle_journals E w w'" by (rule journals_move)
qed

text \<open>A proposed modification is the next revision, and the event that offers it.\<close>

lemma propose_aon: "all_or_nothing (propose_modification E ctx i m node pk)"
  unfolding propose_modification_def case_prod_beta by (intro aon_bindp aon_ret aon_units readonly)

lemma propose_Inr:
  assumes ok: "bundles_ok E w" and ad: "addressable ''TaskBundle'' (w_db w) i" and inst: "task_bundle_instance m"
    and run: "propose_modification E ctx i m node pk w = (Inr r, w')"
  shows "\<exists>latest sg e. latest = last (history_of (w_db w) i) \<and> is_kind ''TaskBundle'' (w_db w) i \<and>
    map_of (so_body latest) ''target_node_id'' = Some (JStr node) \<and>
    reconstruct_signed E ''TaskBundle'' (so_body latest) = Inr sg \<and>
    verify_object_signature E pk (so_body latest) (sg_value sg) (sg_algorithm sg) = Inr () \<and>
    r = stored_of m \<and> so_id r = i \<and> bundle_step latest r \<and>
    committed E [r] [] e w w' \<and> announces e [r] \<and> bundle_told r e \<and> de_object_id e = i \<and> de_actor e = cx_actor ctx \<and>
    de_event_type e = ''task_bundle.modification_offered'' \<and>
    moves_on ''TaskBundle'' TASK_BUNDLE_LIFECYCLE TASK_BUNDLE_EVENTS (w_db w) e \<and>
    event_moves e = [''MODIFICATION_PROPOSED'', ''OFFERED''] \<and> bundle_status (w_db w) i = ''OFFERED'' \<and>
    bundle_status (w_db w') i = ''OFFERED''"
proof -
  have wok: "world_ok E w" using ok by (rule journal_ok_world)
  have t: "tracked ''TaskBundle'' TASK_BUNDLE_LIFECYCLE TASK_BUNDLE_EVENTS (w_db w)" using ok by (simp add: journal_ok_def)
  let ?p = "\<lambda>current. [(''from_status'', JStr current), (''via'', JStr ''MODIFICATION_PROPOSED''),
        (''to_status'', JStr ''OFFERED''), (''content_revision'', JInt (bo_revision m))]"
  from run [unfolded propose_modification_def case_prod_beta] obtain q w1 bid bh e w2 sa where
    a: "authorize_and_verify E i node pk w = (Inr q, w1)"
    and t1: "can_transition TASK_BUNDLE_LIFECYCLE (snd (snd q)) ''MODIFICATION_PROPOSED''"
    and t2: "can_transition TASK_BUNDLE_LIFECYCLE ''MODIFICATION_PROPOSED'' ''OFFERED''"
    and b1: "dget_str (sg_dump (fst (snd q))) ''id'' = Inr bid" "bo_id m = bid"
    and st: "lo_status m = ''OFFERED''" and rev: "bo_revision m = so_revision (fst q) + 1"
    and b2: "dget_str (sg_dump (fst (snd q))) ''content_hash'' = Inr bh" "bo_content_hash m \<noteq> bh"
    and s1: "make_event E ctx ''task_bundle.modification_offered'' (now E) (last_event_id_for i) i
       (bo_revision m) (?p (snd (snd q))) w1 = (Inr e, w2)"
    and s2: "bind_unit_of_work E (stored_of m) (Some (so_revision (fst q))) e w2 = (Inr sa, w')" and r: "r = fst sa"
    by (elim bindp_InrE guardp_InrE lift_InrE ret_InrE) (simp add: that)
  obtain latest sg current where q: "q = (latest, sg, current)" by (cases q)
  note au = authorize_Inr [OF ok ad a [unfolded q]]
  have w1: "w1 = w" and la: "latest = last (history_of (w_db w) i)" "so_id latest = i"
    and k: "is_kind ''TaskBundle'' (w_db w) i" and cur: "current = bundle_status (w_db w) i" using au by blast+
  have sgd: "sg_dump sg = so_body latest" by (rule reconstruct_dump) (use au in blast)
  note ev = make_event_Inr [OF s1 readonly_now readonly_last_event]
  have k2: "same_db w w2" and eo: "event_ok e" using ev w1 by blast+
  obtain s x where sa: "sa = (s, x)" by fastforce
  from unit_of_work_Inr [OF world_ok_same_db [OF wok k2] eo s2 [unfolded sa]] have
    u: "s = stored_of m" "committed E [s] [] e w2 w'" by blast+
  have r': "r = stored_of m" using r sa u(1) by simp
  have com: "committed E [r] [] e w w'" using committed_from [OF k2 u(2)] unfolding r' u(1) .
  have ser: "service_ok E ''TaskBundle'' bundle_first bundle_step bundle_told w" using ok by (simp add: journal_ok_def)
  have ne: "history_of (w_db w) i \<noteq> []" using k by (auto simp: is_kind_def)
  have lm: "latest \<in> set (objects_tbl (w_db w))"
    using last_in_set [OF ne] unfolding la(1) by (simp add: history_of_def)
  have lk: "so_kind latest = ''TaskBundle''" using ad last_in_set [OF ne] unfolding la(1) addressable_def by blast
  have row: "bundle_row latest"
    by (rule governed_all [OF _ lm lk, where first = bundle_first and step = bundle_step])
      (use ser in \<open>auto simp: service_ok_def bundle_first_def bundle_step_def\<close>)
  have ids: "bo_id m = i" "bo_content_hash m \<noteq> so_content_hash latest"
    using b1 b2 row la(2) by (auto simp: q sgd bundle_row_def)
  have rf: "so_id r = i" "so_kind r = ''TaskBundle''" "so_revision r = so_revision latest + 1" "status_of r = Some ''OFFERED''"
    "so_content_hash r \<noteq> so_content_hash latest"
    using inst ids st rev q by (simp_all add: r' task_bundle_instance_def lifecycle_instance_def status_of_Some)
  have rr: "bundle_row r" using inst unfolding r' by (simp add: task_bundle_instance_def bundle_row_def)
  have step: "bundle_step latest r" using rr rf la(2) lk by (simp add: bundle_step_def)
  have an: "announces e [r]" using ev rf(1) by (simp add: announces_def r')
  have fields: "de_event_type e = ''task_bundle.modification_offered''" "de_object_id e = i" "de_actor e = cx_actor ctx"
    "de_payload e = ?p current" using ev by (simp_all add: q)
  have "so_revision latest \<in> so_revision ` set (history_of (w_db w) i)" using last_in_set [OF ne] by (simp add: la(1))
  then have pos: "0 < so_revision latest" unfolding objects_ok_revs [OF world_ok_parts(2) [OF wok]] by simp
  have told: "bundle_told r e" using fields(1) rf(3) pos by (simp add: bundle_told_def)
  have em: "event_moves e = [''MODIFICATION_PROPOSED'', ''OFFERED'']" by (simp add: event_moves_def fields(4))
  have t1': "can_transition TASK_BUNDLE_LIFECYCLE (bundle_status (w_db w) i) ''MODIFICATION_PROPOSED''"
    using t1 by (simp add: q cur)
  have mv: "moves_on ''TaskBundle'' TASK_BUNDLE_LIFECYCLE TASK_BUNDLE_EVENTS (w_db w) e"
    unfolding moves_on_def em fields(1,2)
    using k t1' t2 bundle_event_types(5) by (simp add: ends_somewhere_def fields(4))
  have off: "bundle_status (w_db w) i = ''OFFERED''" using t1' by (auto simp: can_transition_def machine_defs)
  have "bundle_status (w_db w') (de_object_id e) = last (event_moves e)"
    by (rule moved_trace(2) [OF t com mv]) (simp add: rf fields)
  then have fin: "bundle_status (w_db w') i = ''OFFERED''" by (simp add: fields(2) em)
  show ?thesis
    using au la k r' rf(1) step com an told fields mv em off fin by (intro exI [of _ latest] exI [of _ sg] exI [of _ e] conjI) blast+
qed

section \<open>Every call\<close>

datatype bundle_call =
    CreateBundle call_ctx task_bundle
  | OfferBundle call_ctx urn
  | AcceptModification call_ctx urn
  | AcceptModificationTrusted call_ctx urn practice "instant option"
  | Decide call_ctx urn urn public_key decision
  | DecideTrusted call_ctx urn urn practice "instant option" decision
  | ProposeModification call_ctx urn task_bundle urn public_key
  | ProposeModificationTrusted call_ctx urn task_bundle urn practice "instant option"

fun bundle_run :: "env \<Rightarrow> bundle_call \<Rightarrow> world \<Rightarrow> world" where
  "bundle_run E (CreateBundle ctx b) w = snd (task_bundle_create E ctx b w)"
| "bundle_run E (OfferBundle ctx i) w = snd (task_bundle_offer E ctx i w)"
| "bundle_run E (AcceptModification ctx i) w = snd (accept_modification E ctx i w)"
| "bundle_run E (AcceptModificationTrusted ctx i p at) w = snd (accept_modification_trusted E ctx i p at w)"
| "bundle_run E (Decide ctx i node pk d) w = snd (decide E ctx i node pk d w)"
| "bundle_run E (DecideTrusted ctx i node p at d) w = snd (decide_trusted E ctx i node p at d w)"
| "bundle_run E (ProposeModification ctx i b node pk) w = snd (propose_modification E ctx i b node pk w)"
| "bundle_run E (ProposeModificationTrusted ctx i b node p at) w =
     snd (propose_modification_trusted E ctx i b node p at w)"

text \<open>The caller owes valid instances, and ids that are not of another kind.\<close>

fun bundle_call_ok :: "db \<Rightarrow> bundle_call \<Rightarrow> bool" where
  "bundle_call_ok d (CreateBundle ctx b) \<longleftrightarrow> task_bundle_instance b"
| "bundle_call_ok d (OfferBundle ctx i) \<longleftrightarrow> addressable ''TaskBundle'' d i"
| "bundle_call_ok d (AcceptModification ctx i) \<longleftrightarrow> addressable ''TaskBundle'' d i"
| "bundle_call_ok d (AcceptModificationTrusted ctx i p at) \<longleftrightarrow> addressable ''TaskBundle'' d i"
| "bundle_call_ok d (Decide ctx i node pk dc) \<longleftrightarrow> addressable ''TaskBundle'' d i"
| "bundle_call_ok d (DecideTrusted ctx i node p at dc) \<longleftrightarrow> addressable ''TaskBundle'' d i"
| "bundle_call_ok d (ProposeModification ctx i b node pk) \<longleftrightarrow>
     addressable ''TaskBundle'' d i \<and> task_bundle_instance b"
| "bundle_call_ok d (ProposeModificationTrusted ctx i b node p at) \<longleftrightarrow>
     addressable ''TaskBundle'' d i \<and> task_bundle_instance b"

lemma create_bundle_journals:
  assumes ok: "bundles_ok E w" and inst: "task_bundle_instance b"
  shows "bundle_journals E w (snd (task_bundle_create E ctx b w))"
proof (cases "lo_status b = sm_initial TASK_BUNDLE_LIFECYCLE")
  case True
  let ?p = "[(''status'', JStr (lo_status b)), (''target_node_id'', JStr (tb_target_node_id b)),
        (''capability_name'', JStr (fst (tb_capability b))), (''capability_version'', JStr (snd (tb_capability b)))]"
  have cr: "so_revision (stored_of b) = 1 \<Longrightarrow> created ''TaskBundle'' TASK_BUNDLE_LIFECYCLE (stored_of b)"
    using inst True by (simp add: created_def task_bundle_instance_def lifecycle_instance_def status_of_Some)
  have row: "bundle_row (stored_of b)" using inst by (simp add: task_bundle_instance_def bundle_row_def)
  show ?thesis
  proof (cases "bo_revision b = 1")
    case rev: True
    have last: "bundle_journals E v (snd (create_object E ctx (stored_of b) ''task_bundle.created'' ?p v))"
      if "bundles_ok E v" for v
    proof -
      obtain q v' where r: "create_object E ctx (stored_of b) ''task_bundle.created'' ?p v = (q, v')" by fastforce
      have "bundle_first (stored_of b)" using cr row rev by (simp add: bundle_first_def)
      then have "bundle_journals E v v'"
        by (intro create_object_journals [OF journal_ok_world [OF that] r cr _ bundle_event_types(6)])
          (simp_all add: bundle_told_def rev)
      then show ?thesis by (simp add: r)
    qed
    have gates: "bundle_journals E v (snd (bindp (ensure_capability_declared E b) (\<lambda>_.
        create_object E ctx (stored_of b) ''task_bundle.created'' ?p) v))" if "bundles_ok E v" for v
      by (rule reads_then_journals [OF readonly_declared surjective_pairing that last])
    have eq: "task_bundle_create E ctx b =
        bindp (ensure_can_start_work (tb_research_score_id b)) (\<lambda>_. bindp (ensure_capability_declared E b) (\<lambda>_.
          create_object E ctx (stored_of b) ''task_bundle.created'' ?p))"
      using True rev by (intro ext) (simp add: task_bundle_create_def bindp_def [of "guardp _ _"] guardp_run)
    show ?thesis unfolding eq by (rule reads_then_journals [OF readonly_startable surjective_pairing ok gates])
  next
    case False
    then show ?thesis using True by (simp add: task_bundle_create_def bindp_def guardp_run journals_still)
  qed
next
  case False
  then show ?thesis by (simp add: task_bundle_create_def bindp_def guardp_run journals_still)
qed

lemma offer_bundle_journals:
  assumes ok: "bundles_ok E w" and ad: "addressable ''TaskBundle'' (w_db w) i"
    and run: "task_bundle_offer E ctx i w = (q, w')"
  shows "bundle_journals E w w'"
proof (rule journals_aon [OF event_transition_aon(2) run])
  fix x assume q: "q = Inr x"
  from run [unfolded task_bundle_offer_def q] obtain latest w1 current w2 where
    s1: "get_latest_or (TaskBundleNotFoundError i) i w = (Inr latest, w1)"
    and s2: "current_status TASK_BUNDLE_EVENTS latest w1 = (Inr current, w2)"
    and s3: "advance E ctx TASK_BUNDLE_LIFECYCLE latest current ''OFFERED'' ''task_bundle.offered''
       [(''from_status'', JStr current), (''to_status'', JStr ''OFFERED'')] w2 = (Inr x, w')"
    by (elim bindp_InrE) (simp add: that)
  note c = current_of [OF ok ad s1 s2]
  have e: "w2 = w" "so_id latest = i" using c by blast+
  have cur: "current = bundle_status (w_db w) (so_id latest)" and k: "is_kind ''TaskBundle'' (w_db w) (so_id latest)"
    using c unfolding e(2) by blast+
  have "advance E ctx TASK_BUNDLE_LIFECYCLE latest (bundle_status (w_db w) (so_id latest)) ''OFFERED'' ''task_bundle.offered''
       ([(''from_status'', JStr current), (''to_status'', JStr ''OFFERED'')] @ []) w = (Inr x, w')"
    using s3 unfolding e(1) cur append_Nil2 .
  from advance_moves [OF ok k this bundle_event_types(1)] obtain e where
    "committed E [] [] e w w'" "moves_on ''TaskBundle'' TASK_BUNDLE_LIFECYCLE TASK_BUNDLE_EVENTS (w_db w) e" by auto
  then show "bundle_journals E w w'" by (rule journals_move)
qed

lemma accept_modification_journals:
  assumes ok: "bundles_ok E w" and run: "accept_modification E ctx i w = (q, w')"
  shows "bundle_journals E w w'"
proof (rule journals_aon [OF event_transition_aon(3) run])
  fix x assume q: "q = Inr x"
  from run [unfolded accept_modification_def q] obtain latest w1 current w2 where
    s1: "get_latest_or (TaskBundleNotFoundError i) i w = (Inr latest, w1)"
    and s2: "current_status TASK_BUNDLE_EVENTS latest w1 = (Inr current, w2)"
    and s3: "note_event E ctx latest ''OFFERED'' ''task_bundle.modification_acknowledged''
       [(''status'', JStr ''OFFERED''), (''acknowledged_content_revision'', JInt (so_revision latest))] w2 = (Inr x, w')"
    by (elim bindp_InrE guardp_InrE) (simp add: that)
  have k: "same_db w w2"
    using keepsD [OF readonly_get_latest_or s1] keepsD [OF readonly_current_status s2] by (rule transpD [OF transp_same_db])
  from note_event_Inr [OF world_ok_same_db [OF journal_ok_world [OF ok] k] s3] obtain e where
    e: "committed E [] [] e w2 w'" "de_event_type e = ''task_bundle.modification_acknowledged''" by (elim conjE exE) (rule that)
  have "de_event_type e \<notin> TASK_BUNDLE_EVENTS" unfolding e(2) by (rule bundle_event_types(7))
  with committed_from [OF k e(1)] show "bundle_journals E w w'" by (rule journals_note)
qed

lemma decide_journals:
  assumes ok: "bundles_ok E w" and ad: "addressable ''TaskBundle'' (w_db w) i"
  shows "bundle_journals E w (snd (decide E ctx i node pk d w))"
proof -
  have via: "map_of ((''reason_category'', JStr r) # (case x of None \<Rightarrow> [] | Some y \<Rightarrow> [(''explanation'', JStr y)])) ''via'' = None"
    for r x by (simp split: option.split)
  note j = decide_to_journals [OF ok ad surjective_pairing]
  show ?thesis
  proof (cases d)
    case Accept
    then show ?thesis using j [OF bundle_event_types(2)] by (simp add: task_bundle_accept_def)
  next
    case Defer
    then show ?thesis using j [OF bundle_event_types(3)] by (simp add: task_bundle_defer_def)
  next
    case (Reject r x)
    then show ?thesis using j [OF bundle_event_types(4) via]
      by (simp add: task_bundle_reject_def bindp_def guardp_run journals_still)
  qed
qed

lemma propose_journals:
  assumes ok: "bundles_ok E w" and ad: "addressable ''TaskBundle'' (w_db w) i" and inst: "task_bundle_instance b"
  shows "bundle_journals E w (snd (propose_modification E ctx i b node pk w))"
proof (rule journals_aon [OF propose_aon surjective_pairing])
  fix r assume q: "fst (propose_modification E ctx i b node pk w) = Inr r"
  let ?w' = "snd (propose_modification E ctx i b node pk w)"
  have run: "propose_modification E ctx i b node pk w = (Inr r, ?w')" using q by (metis prod.collapse)
  from propose_Inr [OF ok ad inst run] obtain latest e where
    la: "latest = last (history_of (w_db w) i)" and ri: "so_id r = i" and st: "bundle_step latest r" and k: "is_kind ''TaskBundle'' (w_db w) i"
    and c: "committed E [r] [] e w ?w'" "announces e [r]" "bundle_told r e"
      "moves_on ''TaskBundle'' TASK_BUNDLE_LIFECYCLE TASK_BUNDLE_EVENTS (w_db w) e"
    by (elim exE conjE) (rule that)
  have "history_of (w_db w) i \<noteq> []" using k by (auto simp: is_kind_def)
  then have "so_kind latest = ''TaskBundle''" using ad unfolding addressable_def la by simp
  then have rk: "so_kind r = ''TaskBundle''" using st by (simp add: bundle_step_def)
  show "bundle_journals E w ?w'"
    by (rule journals_revise [where r = r and e = e]) (use c rk ad st in \<open>simp_all add: ri la [symmetric]\<close>)
qed

lemma bundle_run_journals:
  assumes ok: "bundles_ok E w" and c: "bundle_call_ok (w_db w) c"
  shows "bundle_journals E w (bundle_run E c w)"
proof (cases c)
  case (CreateBundle ctx b)
  with create_bundle_journals [OF ok] c show ?thesis by simp
next
  case (OfferBundle ctx i)
  with offer_bundle_journals [OF ok _ surjective_pairing] c show ?thesis by simp
next
  case (AcceptModification ctx i)
  with accept_modification_journals [OF ok surjective_pairing] show ?thesis by simp
next
  case (AcceptModificationTrusted ctx i p at)
  have "bundle_journals E w (snd (accept_modification_trusted E ctx i p at w))"
    unfolding accept_modification_trusted_def
    by (rule reads_then_journals [OF readonly_verifying_key surjective_pairing ok])
      (rule accept_modification_journals [OF _ surjective_pairing])
  with AcceptModificationTrusted show ?thesis by simp
next
  case (Decide ctx i node pk d)
  with decide_journals [OF ok] c show ?thesis by simp
next
  case (DecideTrusted ctx i node p at d)
  with c have ad: "addressable ''TaskBundle'' (w_db w) i" by simp
  have "bundle_journals E w (snd (decide_trusted E ctx i node p at d w))"
    unfolding decide_trusted_def
    by (rule reads_then_journals [OF readonly_verifying_key surjective_pairing ok], rule decide_journals)
      (assumption, simp only: ad)
  with DecideTrusted show ?thesis by simp
next
  case (ProposeModification ctx i b node pk)
  with propose_journals [OF ok] c show ?thesis by simp
next
  case (ProposeModificationTrusted ctx i b node p at)
  with c have ad: "addressable ''TaskBundle'' (w_db w) i" and inst: "task_bundle_instance b" by simp_all
  have "bundle_journals E w (snd (propose_modification_trusted E ctx i b node p at w))"
    unfolding propose_modification_trusted_def
    by (rule reads_then_journals [OF readonly_verifying_key surjective_pairing ok], rule propose_journals)
      (assumption, simp only: ad, rule inst)
  with ProposeModificationTrusted show ?thesis by simp
qed

interpretation bundles: journaling_service E "''TaskBundle''" TASK_BUNDLE_LIFECYCLE TASK_BUNDLE_EVENTS bundle_first
  bundle_step bundle_told "bundle_run E" bundle_call_ok for E
  by unfold_locales (rule bundle_run_journals)

section \<open>Every bundle follows its lifecycle\<close>

inductive bundle_reach :: "env \<Rightarrow> world \<Rightarrow> bool" for E where
  start: "bundle_reach E empty_world"
| call: "bundle_reach E w \<Longrightarrow> bundle_call_ok (w_db w) c \<Longrightarrow> bundle_reach E (bundle_run E c w)"
| other: "bundle_reach E w \<Longrightarrow> committed E os es e w w' \<Longrightarrow> de_event_type e \<notin> TASK_BUNDLE_EVENTS \<Longrightarrow>
            \<forall>r \<in> set os. so_kind r \<noteq> ''TaskBundle'' \<and> \<not> is_kind ''TaskBundle'' (w_db w) (so_id r) \<Longrightarrow>
            bundle_reach E w'"
| idle: "bundle_reach E w \<Longrightarrow> same_db w w' \<Longrightarrow> bundle_reach E w'"

lemma bundle_reach_ok: "bundle_reach E w \<Longrightarrow> bundles_ok E w"
proof (induction rule: bundle_reach.induct)
  case start
  show ?case by (rule journal_ok_empty)
next
  case (call w c)
  show ?case by (rule bundles.run_keeps [OF call.IH call.hyps(2)])
next
  case (other w os es e w')
  show ?case by (rule journal_ok_foreign [OF other.IH other.hyps(2-4)])
next
  case (idle w w')
  show ?case by (rule journal_ok_same [OF idle.IH idle.hyps(2)])
qed

definition decided_states :: "string set" where
  "decided_states = {''ACCEPTED'', ''DEFERRED'', ''REJECTED''}"

lemma bundle_moves:
  "can_transition TASK_BUNDLE_LIFECYCLE a b \<Longrightarrow> a \<notin> {''CREATED'', ''OFFERED'', ''MODIFICATION_PROPOSED''} \<Longrightarrow>
     b \<notin> {''CREATED'', ''OFFERED'', ''MODIFICATION_PROPOSED''} \<and> b \<notin> decided_states"
  by (auto simp: can_transition_def machine_defs decided_states_def)

lemma decided_open: "b \<in> decided_states \<Longrightarrow> b \<notin> {''CREATED'', ''OFFERED'', ''MODIFICATION_PROPOSED''}"
  by (auto simp: decided_states_def)

lemma none_after_decision:
  "enforced TASK_BUNDLE_LIFECYCLE (a # xs) \<Longrightarrow> a \<notin> {''CREATED'', ''OFFERED'', ''MODIFICATION_PROPOSED''} \<Longrightarrow>
     filter (\<lambda>s. s \<in> decided_states) xs = []"
proof (induction xs arbitrary: a)
  case (Cons b xs)
  from Cons.prems(1) have t: "can_transition TASK_BUNDLE_LIFECYCLE a b" and e: "enforced TASK_BUNDLE_LIFECYCLE (b # xs)"
    by simp_all
  note m = bundle_moves [OF t Cons.prems(2)]
  from Cons.IH [OF e conjunct1 [OF m]] m show ?case by (simp only: filter.simps if_not_P [OF conjunct2 [OF m]] if_False simp_thms)
qed simp

lemma decided_once:
  "enforced TASK_BUNDLE_LIFECYCLE (a # xs) \<Longrightarrow> length (filter (\<lambda>s. s \<in> decided_states) xs) \<le> 1"
proof (induction xs arbitrary: a)
  case (Cons b xs)
  then have e: "enforced TASK_BUNDLE_LIFECYCLE (b # xs)" by simp
  show ?case
  proof (cases "b \<in> decided_states")
    case True
    from none_after_decision [OF e decided_open [OF True]] show ?thesis by (simp only: filter.simps if_P [OF True]) simp
  next
    case False
    from Cons.IH [OF e] show ?thesis by (simp only: filter.simps if_not_P [OF False])
  qed
qed simp

text \<open>
  C13. A task bundle follows its lifecycle and is decided at most once. In every reachable world
  the statuses the log moves a bundle through are a history of the lifecycle from \<^verbatim>\<open>CREATED\<close>,
  a proposed modification included; acceptance, deferral and rejection occur at most once in all;
  and the status the service reads for the bundle is the last of that history.
\<close>

theorem bundles_follow_lifecycle:
  assumes r: "bundle_reach E w" and k: "is_kind ''TaskBundle'' (w_db w) i"
  shows "let trace = status_trace TASK_BUNDLE_EVENTS (w_db w) i in
    history TASK_BUNDLE_LIFECYCLE (''CREATED'' # trace) \<and>
    length (filter (\<lambda>s. s \<in> decided_states) trace) \<le> 1 \<and>
    current_status TASK_BUNDLE_EVENTS (last (history_of (w_db w) i)) w = (Inr (last (''CREATED'' # trace)), w)"
proof -
  let ?t = "status_trace TASK_BUNDLE_EVENTS (w_db w) i"
  have ok: "bundles_ok E w" using r by (rule bundle_reach_ok)
  have t: "tracked ''TaskBundle'' TASK_BUNDLE_LIFECYCLE TASK_BUNDLE_EVENTS (w_db w)" using ok by (simp add: journal_ok_def)
  have i: "sm_initial TASK_BUNDLE_LIFECYCLE = ''CREATED''" by (simp add: TASK_BUNDLE_LIFECYCLE_def)
  have e: "enforced TASK_BUNDLE_LIFECYCLE (''CREATED'' # ?t)" using trackedD(1) [OF t k] unfolding i .
  have c: "current_status TASK_BUNDLE_EVENTS (last (history_of (w_db w) i)) w = (Inr (last (''CREATED'' # ?t)), w)"
    using current_status_run [OF journal_ok_world [OF ok] t k refl] unfolding status_now_def i .
  have h: "history TASK_BUNDLE_LIFECYCLE (''CREATED'' # ?t)" using e by (simp only: history_def i) simp
  show ?thesis unfolding Let_def by (intro conjI h decided_once [OF e] c)
qed

section \<open>Who decides\<close>

lemma verifying_key_Inr:
  assumes ok: "world_ok E w" and run: "resolve_trusted_verifying_key E i p at w = (Inr pk, w')"
  shows "same_db w w' \<and> (\<exists>sg ring. reconstruct_signed E ''TaskBundle'' (so_body (last (history_of (w_db w) i))) = Inr sg \<and>
    practice_key_ring E (pr_keys p) = Inr ring \<and> trusted_by E ring (pr_id p) (instant_of E at w) sg pk)"
proof -
  from run [unfolded resolve_trusted_verifying_key_def] obtain latest w1 sg ring where
    s1: "get_latest_or (TaskBundleNotFoundError i) i w = (Inr latest, w1)"
    and sg: "reconstruct_signed E ''TaskBundle'' (so_body latest) = Inr sg"
    and ring: "practice_key_ring E (pr_keys p) = Inr ring"
    and s2: "resolve_trusted_task_key E sg (pr_id p) ring at w1 = (Inr pk, w')"
    by (elim bindp_InrE lift_InrE) (simp add: that)
  from get_latest_or_Inr [OF world_ok_parts(2) [OF ok] s1] have l: "w1 = w" "latest = last (history_of (w_db w) i)" by blast+
  from s2 [unfolded resolve_trusted_task_key_def l(1)] obtain w2 w3 u where
    a: "resolve_trusted_signer_key E sg (pr_id p) ring at (SignerMismatchError ''Task'') (KeyNotValidError ''Task'') w = (Inr pk, w2)"
    and b: "verify_trusted_signature E sg pk w2 = (Inr u, w3)"
    by (elim bindp_InrE ret_InrE) (simp add: that)
  have "same_db w w'" by (rule keepsD [OF readonly_verifying_key run])
  with resolve_then_verify [OF a b] sg ring show ?thesis unfolding l(2) by blast
qed

fun decided_status :: "decision \<Rightarrow> string" where
  "decided_status Accept = ''ACCEPTED''"
| "decided_status Defer = ''DEFERRED''"
| "decided_status (Reject _ _) = ''REJECTED''"

lemma decide_Inr:
  assumes ok: "bundles_ok E w" and ad: "addressable ''TaskBundle'' (w_db w) i"
    and run: "decide E ctx i node pk d w = (Inr x, w')"
  shows "\<exists>latest sg e. latest = last (history_of (w_db w) i) \<and>
    map_of (so_body latest) ''target_node_id'' = Some (JStr node) \<and>
    reconstruct_signed E ''TaskBundle'' (so_body latest) = Inr sg \<and>
    verify_object_signature E pk (so_body latest) (sg_value sg) (sg_algorithm sg) = Inr () \<and>
    can_transition TASK_BUNDLE_LIFECYCLE (bundle_status (w_db w) i) (decided_status d) \<and>
    et_content x = latest \<and> et_status x = decided_status d \<and>
    committed E [] [] e w w' \<and> de_object_id e = i \<and> de_actor e = cx_actor ctx \<and>
    bundle_status (w_db w') i = decided_status d"
proof -
  have via: "map_of ((''reason_category'', JStr r) # (case x of None \<Rightarrow> [] | Some y \<Rightarrow> [(''explanation'', JStr y)])) ''via'' = None"
    for r x by (simp split: option.split)
  obtain ty extra where run': "decide_to E ctx i node pk (decided_status d) ty extra w = (Inr x, w')"
    and ty: "ty \<in> TASK_BUNDLE_EVENTS" and ex: "map_of extra ''via'' = None"
  proof (cases d)
    case Accept
    with run have "decide_to E ctx i node pk (decided_status d) ''task_bundle.accepted'' [] w = (Inr x, w')"
      by (simp add: task_bundle_accept_def)
    then show ?thesis by (rule that) (simp_all add: bundle_event_types)
  next
    case Defer
    with run have "decide_to E ctx i node pk (decided_status d) ''task_bundle.deferred'' [] w = (Inr x, w')"
      by (simp add: task_bundle_defer_def)
    then show ?thesis by (rule that) (simp_all add: bundle_event_types)
  next
    case (Reject r y)
    with run have "decide_to E ctx i node pk (decided_status d) ''task_bundle.rejected''
        ((''reason_category'', JStr r) # (case y of None \<Rightarrow> [] | Some z \<Rightarrow> [(''explanation'', JStr z)])) w = (Inr x, w')"
      by (simp add: task_bundle_reject_def bindp_def guardp_run split: if_splits)
    then show ?thesis by (rule that) (rule bundle_event_types(4), rule via)
  qed
  from decide_to_Inr [OF ok ad run' ty ex] show ?thesis by blast
qed

text \<open>
  C14. Only the target decides, and only over what the origin signed. When a decision through the
  trusted entry point succeeds, the deciding node is the target of the bundle's latest content;
  that content carries a signature of the trusted origin, whose key is active and in its window
  in the ring of that practice, and the signature verifies over exactly that content; the bundle
  was offered before the call and has the decided status after it; and the call writes one event,
  by the actor, and no revision.
\<close>

theorem decisions_are_authorized:
  assumes r: "bundle_reach E w" and ad: "addressable ''TaskBundle'' (w_db w) i"
    and run: "decide_trusted E ctx i node origin at d w = (Inr x, w')"
  shows "\<exists>latest sg ring pk e. latest = last (history_of (w_db w) i) \<and>
    map_of (so_body latest) ''target_node_id'' = Some (JStr node) \<and>
    reconstruct_signed E ''TaskBundle'' (so_body latest) = Inr sg \<and> sg_dump sg = so_body latest \<and>
    practice_key_ring E (pr_keys origin) = Inr ring \<and> trusted_by E ring (pr_id origin) (instant_of E at w) sg pk \<and>
    bundle_status (w_db w) i = ''OFFERED'' \<and> bundle_status (w_db w') i = decided_status d \<and>
    et_content x = latest \<and> et_status x = decided_status d \<and>
    committed E [] [] e w w' \<and> de_object_id e = i \<and> de_actor e = cx_actor ctx"
proof -
  have ok: "bundles_ok E w" using r by (rule bundle_reach_ok)
  from run [unfolded decide_trusted_def] obtain pk w1 where
    s1: "resolve_trusted_verifying_key E i origin at w = (Inr pk, w1)" and s2: "decide E ctx i node pk d w1 = (Inr x, w')"
    by (elim bindp_InrE) (rule that)
  from verifying_key_Inr [OF journal_ok_world [OF ok] s1] obtain sg ring where
    k: "same_db w w1" and sg: "reconstruct_signed E ''TaskBundle'' (so_body (last (history_of (w_db w) i))) = Inr sg"
    and ring: "practice_key_ring E (pr_keys origin) = Inr ring" "trusted_by E ring (pr_id origin) (instant_of E at w) sg pk"
    by blast
  have db: "w_db w1 = w_db w" using k by (simp add: same_db_def)
  have ad1: "addressable ''TaskBundle'' (w_db w1) i" using ad by (simp only: db)
  from decide_Inr [OF journal_ok_same [OF ok k] ad1 s2] obtain e where
    t: "map_of (so_body (last (history_of (w_db w) i))) ''target_node_id'' = Some (JStr node)"
    and c: "can_transition TASK_BUNDLE_LIFECYCLE (bundle_status (w_db w) i) (decided_status d)"
    and x: "et_content x = last (history_of (w_db w) i)" "et_status x = decided_status d"
    and e: "committed E [] [] e w1 w'" "de_object_id e = i" "de_actor e = cx_actor ctx" "bundle_status (w_db w') i = decided_status d"
    unfolding db by (elim exE conjE) (simp add: that)
  have off: "bundle_status (w_db w) i = ''OFFERED''"
    using c by (cases d) (auto simp: can_transition_def machine_defs)
  show ?thesis
    by (rule exI [of _ "last (history_of (w_db w) i)"], rule exI [of _ sg], rule exI [of _ ring], rule exI [of _ pk],
        rule exI [of _ e]) (intro conjI refl t sg reconstruct_dump [OF sg] ring off e x committed_from [OF k e(1)])
qed

section \<open>What a bundle needs\<close>

lemma declares_Inr:
  "declares name version cs = Inr True \<Longrightarrow>
     \<exists>c \<in> set cs. capability_field ''name'' c = Inr name \<and> capability_field ''version'' c = Inr version"
  by (induction name version cs rule: declares.induct) (auto split: sum.splits if_splits)

text \<open>
  C24. A bundle is created only for startable work and a declared capability. When a creation
  succeeds, the latest revision of its research score shows \<^verbatim>\<open>APPROVED\<close> or \<^verbatim>\<open>ACTIVE\<close>; the latest
  manifest of the target node is in its window at that moment and declares the capability by name
  and version; and the bundle is written once, as revision 1 in the initial state, with its event.
\<close>

theorem bundles_need_score_and_capability:
  assumes ok: "world_ok E w" and run: "task_bundle_create E ctx b w = (Inr r, w')"
  shows "status_of (last (history_of (w_db w) (tb_research_score_id b))) \<in> {Some ''APPROVED'', Some ''ACTIVE''} \<and>
    (\<exists>vf vu cs. parse_window (so_body (last (history_of (w_db w) (tb_target_node_id b)))) = Inr (vf, vu) \<and>
       vf \<le> env_now E (w_ticks w) \<and> env_now E (w_ticks w) \<le> vu \<and>
       body_capabilities (so_body (last (history_of (w_db w) (tb_target_node_id b)))) = Inr cs \<and>
       (\<exists>c \<in> set cs. capability_field ''name'' c = Inr (fst (tb_capability b)) \<and>
          capability_field ''version'' c = Inr (snd (tb_capability b)))) \<and>
    r = stored_of b \<and> lo_status b = ''CREATED'' \<and> so_revision r = 1 \<and> history_of (w_db w) (so_id r) = [] \<and>
    (\<exists>e. committed E [r] [] e w w' \<and> announces e [r] \<and> de_event_type e = ''task_bundle.created'')"
proof -
  from run [unfolded task_bundle_create_def ensure_capability_declared_def get_current_manifest_def case_prod_beta]
  obtain w1 x manifest w2 t w3 win cs where
    st: "lo_status b = sm_initial TASK_BUNDLE_LIFECYCLE"
    and s1: "ensure_can_start_work (tb_research_score_id b) w = (Inr x, w1)"
    and s2: "get_latest_or (NodeManifestNotFoundError (tb_target_node_id b)) (tb_target_node_id b) w1 = (Inr manifest, w2)"
    and s3: "instant_or_now E None w2 = (Inr t, w3)"
    and win: "parse_window (so_body manifest) = Inr win" "fst win \<le> t" "t \<le> snd win"
    and cs: "body_capabilities (so_body manifest) = Inr cs"
      "declares (fst (tb_capability b)) (snd (tb_capability b)) cs = Inr True"
    and s4: "create_object E ctx (stored_of b) ''task_bundle.created''
       [(''status'', JStr (lo_status b)), (''target_node_id'', JStr (tb_target_node_id b)),
        (''capability_name'', JStr (fst (tb_capability b))), (''capability_version'', JStr (snd (tb_capability b)))] w3 = (Inr r, w')"
    by (elim bindp_InrE guardp_InrE lift_InrE ret_InrE) (simp add: that)
  note sc = ensure_can_start_Inr [OF world_ok_parts(2) [OF ok] s1]
  have w1: "w1 = w" using sc by blast
  note mf = get_latest_or_Inr [OF world_ok_parts(2) [OF ok] s2 [unfolded w1]]
  have w2: "w2 = w" and mn: "manifest = last (history_of (w_db w) (tb_target_node_id b))" using mf by blast+
  have t: "t = env_now E (w_ticks w)" and k: "same_db w w3"
    using s3 unfolding w2 by (auto simp: instant_or_now_def now_run)
  from create_object_Inr [OF world_ok_same_db [OF ok k] s4] obtain e where
    c: "r = stored_of b" "so_revision (stored_of b) = 1" "history_of (w_db w3) (so_id (stored_of b)) = []"
      "committed E [r] [] e w3 w'" "announces e [r]" "de_event_type e = ''task_bundle.created''" by auto
  have h: "history_of (w_db w) (so_id r) = []" using c(1,3) k by (simp add: same_db_def)
  have s: "status_of (last (history_of (w_db w) (tb_research_score_id b))) \<in> {Some ''APPROVED'', Some ''ACTIVE''}"
    using sc by (auto simp: startable_statuses_def)
  have i: "lo_status b = ''CREATED''" using st by (simp add: TASK_BUNDLE_LIFECYCLE_def)
  show ?thesis
    using s win cs(1) declares_Inr [OF cs(2)] c h i committed_from [OF k c(4)] unfolding mn t
    by (intro conjI exI [of _ "fst win"] exI [of _ "snd win"] exI [of _ cs] exI [of _ e]) simp_all
qed

section \<open>Witnesses\<close>

definition sample_bundle :: task_bundle where
  "sample_bundle = \<lparr>bo_id = sample_urn ''bundle'', bo_api_version = ''mrr/v1alpha1'', bo_kind = ''TaskBundle'',
     bo_practice_id = sample_urn ''practice'', bo_revision = 1, bo_created_at = 1700000000000000,
     bo_created_by = sample_urn ''human'', bo_content_hash = content_hash ''{}'', bo_supersedes = None,
     bo_labels = None,
     bo_dump = [(''status'', JStr ''CREATED''), (''id'', JStr (sample_urn ''bundle'')),
       (''content_hash'', JStr (content_hash ''{}'')), (''target_node_id'', JStr (sample_urn ''node'')),
       (''signature'', sample_signature)],
     lo_status = ''CREATED'', tb_target_node_id = sample_urn ''node'', tb_research_score_id = sample_urn ''score'',
     tb_capability = (''numeric.recompute'', ''1'')\<rparr>"

definition sample_approved_score :: lifecycle_object where
  "sample_approved_score = sample_governed ''score'' ''ResearchScore'' ''APPROVED'' []"

lemma sample_approved_simps [simp]:
  "bo_id sample_approved_score = sample_urn ''score''" "bo_kind sample_approved_score = ''ResearchScore''"
  "bo_revision sample_approved_score = 1"
  by (simp_all add: sample_approved_score_def sample_governed_def)

lemma entity_ok_bundle [simp]: "entity_ok ''bundle''"
  by (simp add: entity_ok_def entity_char_def less_eq_char_def)

lemma sample_bundle_instance: "task_bundle_instance sample_bundle"
  by (simp add: task_bundle_instance_def lifecycle_instance_def sample_bundle_def)

lemma sample_bundle_simps [simp]:
  "bo_id sample_bundle = sample_urn ''bundle''" "lo_status sample_bundle = ''CREATED''" "bo_revision sample_bundle = 1"
  "tb_target_node_id sample_bundle = sample_urn ''node''" "tb_research_score_id sample_bundle = sample_urn ''score''"
  "tb_capability sample_bundle = (''numeric.recompute'', ''1'')" "bo_kind sample_bundle = ''TaskBundle''"
  "map_of (bo_dump sample_bundle) ''target_node_id'' = Some (JStr (sample_urn ''node''))"
  "map_of (bo_dump sample_bundle) ''signature'' = Some sample_signature"
  by (simp_all add: sample_bundle_def)

text \<open>A world with an approved score and the manifest of a node.\<close>

lemma ready_world:
  obtains w where "bundle_reach sample_env w"
    and "history_of (w_db w) (sample_urn ''score'') = [stored_of sample_approved_score]"
    and "history_of (w_db w) (sample_urn ''node'') = [manifest_to_stored_object sample_manifest]"
    and "history_of (w_db w) (sample_urn ''bundle'') = []"
    and "w_ticks w = 6" and "event_ids (w_db w) = map (event_id_at sample_env) [0, 3]"
proof -
  let ?r = "stored_of sample_approved_score" and ?m = "manifest_to_stored_object sample_manifest"
  have r: "so_id ?r = sample_urn ''score''" "so_revision ?r = 1" "so_kind ?r = ''ResearchScore''"
    by simp_all
  have m: "so_id ?m = sample_urn ''node''" "so_revision ?m = 1" "so_kind ?m = ''NodeManifest''"
    by (simp_all add: manifest_to_stored_object_def sample_manifest_def)
  have ty: "non_empty ''x''" "''x'' \<notin> TASK_BUNDLE_EVENTS" by (simp_all add: non_empty_def is_space_def TASK_BUNDLE_EVENTS_def)
  have ids: "event_ids (w_db empty_world) = map (event_id_at sample_env) []" by (simp add: start_fresh)
  have vi: "is_valid_urn (so_id ?r)" "is_valid_urn (so_id ?m)" unfolding r(1) m(1) by simp_all
  obtain w1 e1 where w1: "committed sample_env [?r] [] e1 empty_world w1" "de_event_type e1 = ''x''"
    "history_of (w_db w1) (so_id ?r) = [?r]"
    "\<And>i. i \<noteq> so_id ?r \<Longrightarrow> history_of (w_db w1) i = history_of (w_db empty_world) i"
    "w_ticks w1 = w_ticks empty_world + 3" "event_ids (w_db w1) = map (event_id_at sample_env) ([] @ [w_ticks empty_world])"
    by (rule sample_create [OF world_ok_empty ids _ r(2) vi(1) start_fresh(2) ty(1)]) (simp, rule that, assumption+)
  have b1: "bundle_reach sample_env w1"
    by (rule bundle_reach.other [OF bundle_reach.start w1(1)])
      (simp_all add: w1(2) ty(2) r(3) is_kind_def start_fresh)
  have ok1: "world_ok sample_env w1" using w1(1) by (rule committed_tables(3))
  have h1: "history_of (w_db w1) (so_id ?m) = []" using w1(4) [of "so_id ?m"] by (simp add: r m start_fresh)
  have t1: "w_ticks w1 = 3" "event_ids (w_db w1) = map (event_id_at sample_env) [0]" using w1(5,6) by (simp_all add: start_fresh)
  obtain w2 e2 where w2: "committed sample_env [?m] [] e2 w1 w2" "de_event_type e2 = ''x''"
    "history_of (w_db w2) (so_id ?m) = [?m]" "\<And>i. i \<noteq> so_id ?m \<Longrightarrow> history_of (w_db w2) i = history_of (w_db w1) i"
    "w_ticks w2 = w_ticks w1 + 3" "event_ids (w_db w2) = map (event_id_at sample_env) ([0] @ [w_ticks w1])"
    by (rule sample_create [OF ok1 t1(2) _ m(2) vi(2) h1 ty(1)]) (simp add: t1, rule that, assumption+)
  have b2: "bundle_reach sample_env w2"
    by (rule bundle_reach.other [OF b1 w2(1)]) (use h1 m in \<open>simp_all add: w2(2) ty(2) is_kind_def\<close>)
  show thesis
    by (rule that [OF b2]) (use w2(3-6) w1(3,4) r m t1 in \<open>simp_all add: start_fresh\<close>)
qed

text \<open>The bundle is created.\<close>

lemma created_bundle_world:
  obtains w0 w where "world_ok sample_env w0"
    and "task_bundle_create sample_env sample_ctx sample_bundle w0 = (Inr (stored_of sample_bundle), w)"
    and "bundle_reach sample_env w" and "history_of (w_db w) (sample_urn ''bundle'') = [stored_of sample_bundle]"
    and "w_ticks w = 10" and "event_ids (w_db w) = map (event_id_at sample_env) [0, 3, 7]"
    and "bundle_status (w_db w) (sample_urn ''bundle'') = ''CREATED''"
proof -
  obtain w where w: "bundle_reach sample_env w"
    "history_of (w_db w) (sample_urn ''score'') = [stored_of sample_approved_score]"
    "history_of (w_db w) (sample_urn ''node'') = [manifest_to_stored_object sample_manifest]"
    "history_of (w_db w) (sample_urn ''bundle'') = []"
    "w_ticks w = 6" "event_ids (w_db w) = map (event_id_at sample_env) [0, 3]" by (rule ready_world)
  let ?b = sample_bundle and ?E = sample_env and ?n = "sample_urn ''node''" and ?s = "sample_urn ''score''"
  let ?w1 = "w\<lparr>w_ticks := Suc (w_ticks w)\<rparr>" and ?mb = "bo_dump sample_manifest"
  have ok: "world_ok ?E w" by (rule journal_ok_world [OF bundle_reach_ok [OF w(1)]])
  have ok1: "world_ok ?E ?w1" using ok by simp
  have ty: "non_empty ''task_bundle.created''" by (simp add: non_empty_def is_space_def)
  let ?p = "[(''status'', JStr (lo_status ?b)), (''target_node_id'', JStr (tb_target_node_id ?b)),
        (''capability_name'', JStr (fst (tb_capability ?b))), (''capability_version'', JStr (snd (tb_capability ?b)))]"
  have new: "w_ticks ?w1 mod 64 \<notin> (\<lambda>m. m mod 64) ` set [0, 3]" by (simp add: w(5))
  have ids: "event_ids (w_db ?w1) = map (event_id_at ?E) [0, 3]" using w(6) by simp
  have pre: "so_revision (stored_of ?b) = 1" "is_valid_urn (so_id (stored_of ?b))" "history_of (w_db ?w1) (so_id (stored_of ?b)) = []"
    using w(4) by simp_all
  obtain w' e where c: "create_object ?E sample_ctx (stored_of ?b) ''task_bundle.created'' ?p ?w1 = (Inr (stored_of ?b), w')"
    "history_of (w_db w') (so_id (stored_of ?b)) = [stored_of ?b]"
    "w_ticks w' = w_ticks ?w1 + 3" "event_ids (w_db w') = map (event_id_at ?E) ([0, 3] @ [w_ticks ?w1])"
    "committed ?E [stored_of ?b] [] e ?w1 w'" "de_event_type e = ''task_bundle.created''"
    by (rule sample_create [OF ok1 ids new pre ty]) (rule that, assumption+)
  have gs: "get_latest_or (ScoreNotFoundError ?s) ?s w = (Inr (stored_of sample_approved_score), w)"
    "get_latest_or (NodeManifestNotFoundError ?n) ?n w = (Inr (manifest_to_stored_object sample_manifest), w)"
    using get_latest_or_run [OF world_ok_parts(2) [OF ok]] w(2,3) by simp_all
  have st: "dget_str (bo_dump sample_approved_score) ''status'' = Inr ''APPROVED''"
    by (simp add: dget_str_def dget_def sample_approved_score_def sample_governed_def)
  have cs: "body_capabilities ?mb = Inr [JObj [(''name'', JStr ''numeric.recompute''), (''version'', JStr ''1'')]]"
    by (simp add: body_capabilities_def sample_manifest_def dget_def)
  have dc: "declares ''numeric.recompute'' ''1'' [JObj [(''name'', JStr ''numeric.recompute''), (''version'', JStr ''1'')]] = Inr True"
    by (simp add: dget_str_def dget_def)
  have nowE: "env_now ?E 6 = 1700000000000006" by (simp add: sample_env_def)
  have cur: "get_current_manifest ?E ?n None w = (Inr (manifest_to_stored_object sample_manifest), ?w1)"
    using gs(2) sample_window
    by (simp add: get_current_manifest_def bindp_def lift_run guardp_run ret_run instant_or_now_def now_run
        manifest_to_stored_object_def w(5) nowE)
  have run: "task_bundle_create ?E sample_ctx ?b w = (Inr (stored_of ?b), w')"
    using gs(1) st cur cs dc c(1)
    by (simp add: task_bundle_create_def ensure_can_start_work_def ensure_capability_declared_def bindp_def lift_run
        guardp_run ret_run startable_statuses_def manifest_to_stored_object_def TASK_BUNDLE_LIFECYCLE_def
        del: dget_str_Inr)
  have "bundle_call_ok (w_db w) (CreateBundle sample_ctx ?b)" by (simp add: sample_bundle_instance)
  from bundle_reach.call [OF w(1) this] run have "bundle_reach ?E w'" by simp
  moreover have "bundle_status (w_db w') (sample_urn ''bundle'') = ''CREATED''"
  proof -
    have "tracked ''TaskBundle'' TASK_BUNDLE_LIFECYCLE TASK_BUNDLE_EVENTS (w_db ?w1)"
      using bundle_reach_ok [OF w(1)] by (simp add: journal_ok_def)
    moreover have "history_of (w_db ?w1) (sample_urn ''bundle'') = []" using w(4) by simp
    moreover have "de_event_type e \<notin> TASK_BUNDLE_EVENTS" unfolding c(6) by (rule bundle_event_types(6))
    ultimately show ?thesis using created_status [OF _ _ c(5)] by (simp add: TASK_BUNDLE_LIFECYCLE_def)
  qed
  ultimately show thesis using that [OF ok run] c(2-4) w(5) by simp
qed

theorem bundles_need_score_and_capability_witness:
  "\<exists>(w :: world) w' e. committed sample_env [stored_of sample_bundle] [] e w w' \<and> de_event_type e = ''task_bundle.created'' \<and>
     status_of (last (history_of (w_db w) (sample_urn ''score''))) \<in> {Some ''APPROVED'', Some ''ACTIVE''}"
proof -
  obtain w w' where ok: "world_ok sample_env w"
    and run: "task_bundle_create sample_env sample_ctx sample_bundle w = (Inr (stored_of sample_bundle), w')"
    by (rule created_bundle_world)
  from bundles_need_score_and_capability [OF ok run] show ?thesis
    by (elim conjE exE) (intro exI conjI, assumption, assumption, simp only: sample_bundle_simps)
qed

theorem bundles_follow_lifecycle_witness:
  "\<exists>(w :: world). is_kind ''TaskBundle'' (w_db w) (sample_urn ''bundle'') \<and>
     history TASK_BUNDLE_LIFECYCLE (''CREATED'' # status_trace TASK_BUNDLE_EVENTS (w_db w) (sample_urn ''bundle''))"
proof -
  obtain w0 w where w: "world_ok sample_env w0"
    "task_bundle_create sample_env sample_ctx sample_bundle w0 = (Inr (stored_of sample_bundle), w)"
    "bundle_reach sample_env w" "history_of (w_db w) (sample_urn ''bundle'') = [stored_of sample_bundle]"
    "w_ticks w = 10" "event_ids (w_db w) = map (event_id_at sample_env) [0, 3, 7]"
    "bundle_status (w_db w) (sample_urn ''bundle'') = ''CREATED''" by (rule created_bundle_world)
  have k: "is_kind ''TaskBundle'' (w_db w) (sample_urn ''bundle'')" by (simp add: is_kind_def w(4))
  from bundles_follow_lifecycle [OF w(3) k] k show ?thesis unfolding Let_def by (intro exI [of _ w] conjI) blast+
qed

text \<open>It is offered, and accepted by its target.\<close>

lemma offered_bundle_world:
  obtains w where "bundle_reach sample_env w"
    and "history_of (w_db w) (sample_urn ''bundle'') = [stored_of sample_bundle]"
    and "bundle_status (w_db w) (sample_urn ''bundle'') = ''OFFERED''"
    and "w_ticks w = 13" and "event_ids (w_db w) = map (event_id_at sample_env) [0, 3, 7, 10]"
proof -
  obtain w0 w where w: "world_ok sample_env w0"
    "task_bundle_create sample_env sample_ctx sample_bundle w0 = (Inr (stored_of sample_bundle), w)"
    "bundle_reach sample_env w" "history_of (w_db w) (sample_urn ''bundle'') = [stored_of sample_bundle]"
    "w_ticks w = 10" "event_ids (w_db w) = map (event_id_at sample_env) [0, 3, 7]"
    "bundle_status (w_db w) (sample_urn ''bundle'') = ''CREATED''" by (rule created_bundle_world)
  let ?i = "sample_urn ''bundle''" and ?r = "stored_of sample_bundle" and ?E = sample_env
  let ?p = "[(''from_status'', JStr ''CREATED''), (''to_status'', JStr ''OFFERED'')]"
  have bok: "bundles_ok ?E w" using w(3) by (rule bundle_reach_ok)
  have ok: "world_ok ?E w" using bok by (rule journal_ok_world)
  have k: "is_kind ''TaskBundle'' (w_db w) ?i" by (simp add: is_kind_def w(4))
  have t: "tracked ''TaskBundle'' TASK_BUNDLE_LIFECYCLE TASK_BUNDLE_EVENTS (w_db w)" using bok by (simp add: journal_ok_def)
  have g: "get_latest_or (TaskBundleNotFoundError ?i) ?i w = (Inr ?r, w)"
    using get_latest_or_run [OF world_ok_parts(2) [OF ok]] w(4) by simp
  have c: "current_status TASK_BUNDLE_EVENTS ?r w = (Inr ''CREATED'', w)"
    using current_status_run [OF ok t k, of ?r] w(4,7) by simp
  have l: "is_valid_urn (so_id ?r)" "1 \<le> so_revision ?r" by simp_all
  have ty: "non_empty ''task_bundle.offered''" by (simp add: non_empty_def is_space_def)
  have new: "w_ticks w mod 64 \<notin> (\<lambda>m. m mod 64) ` set [0, 3, 7]" by (simp add: w(5))
  obtain x w' where n: "note_event ?E sample_ctx ?r ''OFFERED'' ''task_bundle.offered'' ?p w = (Inr x, w')"
    "history_of (w_db w') = history_of (w_db w)" "w_ticks w' = w_ticks w + 3"
    "event_ids (w_db w') = map (event_id_at ?E) ([0, 3, 7] @ [w_ticks w])"
    by (rule sample_note [OF ok w(6) new l ty]) (rule that, assumption+)
  have can: "can_transition TASK_BUNDLE_LIFECYCLE ''CREATED'' ''OFFERED''" by (simp add: can_transition_def machine_defs)
  have adv: "advance ?E sample_ctx TASK_BUNDLE_LIFECYCLE ?r ''CREATED'' ''OFFERED'' ''task_bundle.offered'' ?p w = (Inr x, w')"
    using n(1) by (simp add: advance_note [OF can])
  have "task_bundle_offer ?E sample_ctx ?i w = (Inr x, w')"
    using g c adv by (simp add: task_bundle_offer_def bindp_def)
  moreover have "bundle_call_ok (w_db w) (OfferBundle sample_ctx ?i)" by (simp add: addressable_def w(4))
  ultimately have reach: "bundle_reach ?E w'" using bundle_reach.call [OF w(3), of "OfferBundle sample_ctx ?i"] by simp
  have k': "is_kind ''TaskBundle'' (w_db w) (so_id ?r)" using k by simp
  have i: "so_id ?r = ?i" by simp
  from adv have adv': "advance ?E sample_ctx TASK_BUNDLE_LIFECYCLE ?r (bundle_status (w_db w) (so_id ?r)) ''OFFERED''
      ''task_bundle.offered'' ([(''from_status'', JStr ''CREATED''), (''to_status'', JStr ''OFFERED'')] @ []) w = (Inr x, w')"
    unfolding i w(7) append_Nil2 .
  have "bundle_status (w_db w') ?i = ''OFFERED''"
    using advance_moves [OF bok k' adv' bundle_event_types(1)] unfolding i by simp
  with that [OF reach] n(2-4) w(4,5) show thesis by simp
qed

theorem decisions_are_authorized_witness:
  "\<exists>(w :: world) w' x. decide_trusted sample_env sample_ctx (sample_urn ''bundle'') (sample_urn ''node'') sample_practice
       (Some 5) Accept w = (Inr x, w') \<and>
     bundle_status (w_db w) (sample_urn ''bundle'') = ''OFFERED'' \<and> bundle_status (w_db w') (sample_urn ''bundle'') = ''ACCEPTED''"
proof -
  obtain w where w: "bundle_reach sample_env w" "history_of (w_db w) (sample_urn ''bundle'') = [stored_of sample_bundle]"
    "bundle_status (w_db w) (sample_urn ''bundle'') = ''OFFERED''"
    "w_ticks w = 13" "event_ids (w_db w) = map (event_id_at sample_env) [0, 3, 7, 10]" by (rule offered_bundle_world)
  let ?i = "sample_urn ''bundle''" and ?r = "stored_of sample_bundle" and ?E = sample_env
  let ?sg = "sample_reconstructed (bo_dump sample_bundle)" and ?node = "sample_urn ''node''"
  let ?p = "[(''from_status'', JStr ''OFFERED''), (''to_status'', JStr ''ACCEPTED'')]"
  have bok: "bundles_ok ?E w" using w(1) by (rule bundle_reach_ok)
  have ok: "world_ok ?E w" using bok by (rule journal_ok_world)
  have k: "is_kind ''TaskBundle'' (w_db w) ?i" by (simp add: is_kind_def w(2))
  have t: "tracked ''TaskBundle'' TASK_BUNDLE_LIFECYCLE TASK_BUNDLE_EVENTS (w_db w)" using bok by (simp add: journal_ok_def)
  have g: "get_latest_or (TaskBundleNotFoundError ?i) ?i w = (Inr ?r, w)"
    using get_latest_or_run [OF world_ok_parts(2) [OF ok]] w(2) by simp
  have c: "current_status TASK_BUNDLE_EVENTS ?r w = (Inr ''OFFERED'', w)"
    using current_status_run [OF ok t k, of ?r] w(2,3) by simp
  have sg: "reconstruct_signed ?E ''TaskBundle'' (so_body ?r) = Inr ?sg"
    using reconstruct_sample [of "bo_dump sample_bundle"] by simp
  have v: "verify_object_signature ?E sample_key (so_body ?r) (sg_value ?sg) (sg_algorithm ?sg) = Inr ()"
    using sample_signature_verifies by (simp add: sample_reconstructed_def)
  have rs: "resolve_trusted_task_key ?E ?sg (pr_id sample_practice) sample_ring (Some 5) w = (Inr sample_key, w)"
    by (rule resolve_sample_body)
  have l: "is_valid_urn (so_id ?r)" "1 \<le> so_revision ?r" by simp_all
  have ty: "non_empty ''task_bundle.accepted''" by (simp add: non_empty_def is_space_def)
  have new: "w_ticks w mod 64 \<notin> (\<lambda>m. m mod 64) ` set [0, 3, 7, 10]" by (simp add: w(4))
  obtain x w' where n: "note_event ?E sample_ctx ?r ''ACCEPTED'' ''task_bundle.accepted'' ?p w = (Inr x, w')"
    by (rule sample_note [OF ok w(5) new l ty]) (rule that, assumption+)
  have can: "can_transition TASK_BUNDLE_LIFECYCLE ''OFFERED'' ''ACCEPTED''" by (simp add: can_transition_def machine_defs)
  have tg: "dget_str (so_body ?r) ''target_node_id'' = Inr ?node" by simp
  have "resolve_trusted_verifying_key ?E ?i sample_practice (Some 5) w = (Inr sample_key, w)"
    using g sg rs by (simp add: resolve_trusted_verifying_key_def bindp_def lift_run sample_practice_ring)
  moreover have "authorize_and_verify ?E ?i ?node sample_key w = (Inr (?r, ?sg, ''OFFERED''), w)"
    using g tg sg v c by (simp add: authorize_and_verify_def bindp_def lift_run guardp_run ret_run del: dget_str_Inr)
  ultimately have run: "decide_trusted ?E sample_ctx ?i ?node sample_practice (Some 5) Accept w = (Inr x, w')"
    using n by (simp add: decide_trusted_def task_bundle_accept_def decide_to_def bindp_def advance_note [OF can])
  have ad: "addressable ''TaskBundle'' (w_db w) ?i" by (simp add: addressable_def w(2))
  from decisions_are_authorized [OF w(1) ad run] run show ?thesis
    by (intro exI [of _ w] exI [of _ w'] exI [of _ x]) auto
qed

end
