(* ===== verification/Transfer_Service.thy ===== *)
theory Transfer_Service
  imports Signed_Contracts Obligation_Service
begin

text \<open>
  Transfers between practices, \<^verbatim>\<open>services/control_plane/mrr/services/transfer/service.py\<close>: the
  sender creates and offers a signed contract over stored objects, and the receiver answers once,
  after verifying the sender's signature; an adapted answer binds the adapted object to every
  transferred one. The statuses are in the event log.
\<close>

section \<open>Contracts\<close>

text \<open>A \<^verbatim>\<open>TransferContract\<close> instance: the fields the service reads.\<close>

record transfer_instance = lifecycle_object +
  ti_sender_practice_id :: urn
  ti_receiver_practice_id :: urn
  ti_transferred_ids :: "urn list"

definition transfer_ok :: "transfer_instance \<Rightarrow> bool" where
  "transfer_ok t \<longleftrightarrow> lifecycle_instance ''TransferContract'' t"

definition TRANSFER_EVENTS :: "string set" where
  "TRANSFER_EVENTS = {''transfer.offered'', ''transfer.responded''}"

definition TRANSFER_DECISIONS :: "string set" where
  "TRANSFER_DECISIONS = {''accepted'', ''adapted'', ''rejected'', ''deferred'', ''unresolved''}"

text \<open>\<^verbatim>\<open>TransferContract.model_validate\<close> on a stored body: its signature, and the ids it transfers.\<close>

definition reconstruct_contract :: "env \<Rightarrow> dict \<Rightarrow> (signed_object \<times> urn list) outcome" where
  "reconstruct_contract E body =
     (case reconstruct_signed E ''TransferContract'' body of
        Inl e \<Rightarrow> Inl e
      | Inr contract \<Rightarrow>
          (case dget_list body ''transferred_objects'' of
             Inl _ \<Rightarrow> Inl PydanticValidationError
           | Inr objects \<Rightarrow>
               (case map_outcome transferred_id_of objects of
                  Inl _ \<Rightarrow> Inl PydanticValidationError
                | Inr ids \<Rightarrow> if ids = [] then Inl PydanticValidationError else Inr (contract, ids))))"

section \<open>The sender\<close>

definition check_transferred_object :: "urn \<Rightarrow> (world, unit) prog" where
  "check_transferred_object i =
     bindp (catchp (bindp (get_latest i) (\<lambda>referenced. ret (Some referenced)))
              (\<lambda>x. case x of ObjectNotFoundError _ _ \<Rightarrow> ret None | _ \<Rightarrow> raise x)) (\<lambda>found.
     case found of
       None \<Rightarrow> ret ()
     | Some referenced \<Rightarrow>
         guardp (map_of (so_body referenced) ''classification'' \<noteq> Some (JStr ''PARTICIPANT_IDENTIFIABLE''))
           (ParticipantIdentifiableTransferError i))"

definition ensure_no_participant_identifiable_object :: "transfer_instance \<Rightarrow> (world, unit list) prog" where
  "ensure_no_participant_identifiable_object contract =
     mapp check_transferred_object (ti_transferred_ids contract)"

definition transfer_create :: "env \<Rightarrow> call_ctx \<Rightarrow> transfer_instance \<Rightarrow> (world, stored_object) prog" where
  "transfer_create E ctx contract =
     bindp (guardp (lo_status contract = sm_initial TRANSFER_LIFECYCLE)
       (InvalidTransitionError (sm_name TRANSFER_LIFECYCLE) ''<new>'' (lo_status contract))) (\<lambda>_.
     bindp (guardp (bo_revision contract = 1) ValueError) (\<lambda>_.
     bindp (ensure_no_participant_identifiable_object contract) (\<lambda>_.
     create_object E ctx (stored_of contract) ''transfer.created''
       [(''status'', JStr (lo_status contract)),
        (''sender_practice_id'', JStr (ti_sender_practice_id contract)),
        (''receiver_practice_id'', JStr (ti_receiver_practice_id contract)),
        (''transferred_object_ids'', JArr (map JStr (ti_transferred_ids contract)))])))"

definition transfer_offer :: "env \<Rightarrow> call_ctx \<Rightarrow> urn \<Rightarrow> (world, event_transition) prog" where
  "transfer_offer E ctx i =
     bindp (get_latest_or (TransferContractNotFoundError i) i) (\<lambda>latest.
     bindp (current_status TRANSFER_EVENTS latest) (\<lambda>current.
     advance E ctx TRANSFER_LIFECYCLE latest current ''offered'' ''transfer.offered''
       [(''from_status'', JStr current), (''to_status'', JStr ''offered'')]))"

section \<open>The receiver\<close>

definition make_adapted_from_edge ::
  "env \<Rightarrow> call_ctx \<Rightarrow> urn \<Rightarrow> instant \<Rightarrow> urn \<Rightarrow> urn \<Rightarrow> (world, typed_edge) prog" where
  "make_adapted_from_edge E ctx practice_id t adapted_object_id object_id =
     bindp (new_urn E ''edge'') (\<lambda>edge_id.
     ret \<lparr>te_id = edge_id, te_source_id = adapted_object_id, te_target_id = object_id,
          te_edge_type = ''adapted_from'', te_created_at = t, te_created_by = cx_actor ctx,
          te_scope = None, te_status = ''active'', te_practice_id = Some practice_id\<rparr>)"

definition respond_adapted ::
  "env \<Rightarrow> call_ctx \<Rightarrow> stored_object \<Rightarrow> urn list \<Rightarrow> string \<Rightarrow> urn option \<Rightarrow> (world, event_transition) prog" where
  "respond_adapted E ctx latest transferred current adapted_object_id =
     (case adapted_object_id of
        None \<Rightarrow> raise ValueError
      | Some a \<Rightarrow>
          bindp (get_latest a) (\<lambda>adapted_object.
          bindp (now E) (\<lambda>t.
          bindp (mapp (make_adapted_from_edge E ctx (so_practice_id adapted_object) t a) transferred) (\<lambda>edges.
          bindp (make_event E ctx ''transfer.responded'' (ret t) (last_event_id_for (so_id latest)) (so_id latest)
            (so_revision latest)
            [(''from_status'', JStr current), (''to_status'', JStr ''adapted''), (''decision'', JStr ''adapted''),
             (''adapted_object_id'', JStr a), (''adapted_from_edge_ids'', JArr (map (\<lambda>e. JStr (te_id e)) edges)),
             (''transferred_object_ids'', JArr (map JStr transferred))]) (\<lambda>e.
          bindp (bind_edges_unit_of_work E edges e) (\<lambda>(_, appended).
          ret \<lparr>et_content = latest, et_status = ''adapted'', et_appended_event = appended\<rparr>))))))"

definition transfer_respond ::
  "env \<Rightarrow> call_ctx \<Rightarrow> urn \<Rightarrow> string \<Rightarrow> practice \<Rightarrow> urn option \<Rightarrow> instant option \<Rightarrow>
   (world, event_transition) prog" where
  "transfer_respond E ctx i decision trusted_sender adapted_object_id at =
     bindp (get_latest_or (TransferContractNotFoundError i) i) (\<lambda>latest.
     bindp (lift (reconstruct_contract E (so_body latest))) (\<lambda>(contract, transferred).
     bindp (lift (practice_key_ring E (pr_keys trusted_sender))) (\<lambda>ring.
     bindp (resolve_trusted_transfer_key E contract (pr_id trusted_sender) ring at) (\<lambda>_.
     bindp (current_status TRANSFER_EVENTS latest) (\<lambda>current.
     bindp (lift (assert_transition TRANSFER_LIFECYCLE current decision)) (\<lambda>_.
     if decision = ''adapted'' then respond_adapted E ctx latest transferred current adapted_object_id
     else note_event E ctx latest decision ''transfer.responded''
       [(''from_status'', JStr current), (''to_status'', JStr decision), (''decision'', JStr decision)]))))))"

section \<open>What transfers read\<close>

lemma transfer_event_types:
  "''transfer.offered'' \<in> TRANSFER_EVENTS" "''transfer.responded'' \<in> TRANSFER_EVENTS"
  "''transfer.created'' \<notin> TRANSFER_EVENTS"
  by (simp_all add: TRANSFER_EVENTS_def)

lemma readonly_check_transferred [readonly]: "keeps same_db (check_transferred_object i)"
proof -
  have "keeps same_db (\<lambda>w :: world. (case x of ObjectNotFoundError a b \<Rightarrow> ret (None :: stored_object option) | _ \<Rightarrow> raise x) w)"
    for x by (cases x) (simp_all add: keeps_same_pure)
  moreover have "keeps same_db (\<lambda>w :: world. (case q of None \<Rightarrow> ret ()
     | Some r \<Rightarrow> guardp (map_of (so_body r) ''classification'' \<noteq> Some (JStr ''PARTICIPANT_IDENTIFIABLE''))
           (ParticipantIdentifiableTransferError i)) w)" for q :: "stored_object option"
    by (cases q) (simp_all add: keeps_same_pure)
  ultimately show ?thesis unfolding check_transferred_object_def by (intro readonly)
qed

lemma readonly_no_participants [readonly]: "keeps same_db (ensure_no_participant_identifiable_object c)"
  unfolding ensure_no_participant_identifiable_object_def by (intro readonly)

lemma readonly_adapted_edge [readonly]: "keeps same_db (make_adapted_from_edge E ctx p t a i)"
  unfolding make_adapted_from_edge_def by (intro readonly)

end
