(* ===== verification/Transfer_Properties.thy ===== *)
theory Transfer_Properties
  imports Transfer_Service Journaled_Calls Contract_Samples
begin

text \<open>
  What holds of transfers: every transfer follows its lifecycle in the log and is answered at most
  once; the answer is over content its sender signed, and an adapted one binds the adapted object
  to all that was transferred; nothing that identifies participants is transferred.
\<close>

section \<open>What the calls write\<close>

definition transfer_first :: "stored_object \<Rightarrow> bool" where
  "transfer_first r \<longleftrightarrow> created ''TransferContract'' TRANSFER_LIFECYCLE r"

definition transfer_step :: "stored_object \<Rightarrow> stored_object \<Rightarrow> bool" where
  "transfer_step l r \<longleftrightarrow> False"

definition transfer_told :: "stored_object \<Rightarrow> domain_event \<Rightarrow> bool" where
  "transfer_told r e \<longleftrightarrow> de_event_type e = ''transfer.created''"

abbreviation transfers_ok :: "env \<Rightarrow> world \<Rightarrow> bool" where
  "transfers_ok E \<equiv>
     journal_ok E ''TransferContract'' TRANSFER_LIFECYCLE TRANSFER_EVENTS transfer_first transfer_step transfer_told"

abbreviation transfer_journals :: "env \<Rightarrow> world \<Rightarrow> world \<Rightarrow> bool" where
  "transfer_journals E \<equiv>
     journals E ''TransferContract'' TRANSFER_LIFECYCLE TRANSFER_EVENTS transfer_first transfer_step transfer_told"

abbreviation transfer_status :: "db \<Rightarrow> urn \<Rightarrow> string" where
  "transfer_status d i \<equiv> status_now TRANSFER_LIFECYCLE TRANSFER_EVENTS d i"

lemmas current_transfer = journal_current [where kind = "''TransferContract''" and M = TRANSFER_LIFECYCLE and
  types = TRANSFER_EVENTS and first = transfer_first and step = transfer_step and told = transfer_told]

lemmas advance_transfer = journal_advance [where kind = "''TransferContract''" and M = TRANSFER_LIFECYCLE and
  types = TRANSFER_EVENTS and first = transfer_first and step = transfer_step and told = transfer_told]

section \<open>The check of the transferred objects\<close>

definition participant_identifiable :: "db \<Rightarrow> urn \<Rightarrow> bool" where
  "participant_identifiable d i \<longleftrightarrow>
     history_of d i \<noteq> [] \<and>
     map_of (so_body (last (history_of d i))) ''classification'' = Some (JStr ''PARTICIPANT_IDENTIFIABLE'')"

lemma check_transferred_run:
  "objects_ok (w_db w) \<Longrightarrow> check_transferred_object i w =
     (if participant_identifiable (w_db w) i then Inl (ParticipantIdentifiableTransferError i) else Inr (), w)"
  by (simp add: check_transferred_object_def bindp_def catchp_def get_latest_run ret_run guardp_run
      participant_identifiable_def last_opt_def)

lemma check_all_run:
  assumes "objects_ok (w_db w)"
  shows "mapp check_transferred_object is w =
    (case find (participant_identifiable (w_db w)) is of
       Some i \<Rightarrow> Inl (ParticipantIdentifiableTransferError i) | None \<Rightarrow> Inr (map (\<lambda>_. ()) is), w)"
  by (induction "is") (simp_all add: ret_run bindp_def check_transferred_run [OF assms] split: option.splits)

text \<open>
  A transfer is created exactly when none of the objects it names, in its latest revision,
  identifies participants: otherwise the call fails with the first such object and writes
  nothing. An object the store does not hold is passed. When the creation succeeds, the contract
  is stored once, as revision 1 in the initial state, with its event.
\<close>

lemma transfer_create_exact:
  assumes ok: "world_ok E w" and st: "lo_status c = ''created''" "bo_revision c = 1"
  shows "case find (participant_identifiable (w_db w)) (ti_transferred_ids c) of
      Some i \<Rightarrow> transfer_create E ctx c w = (Inl (ParticipantIdentifiableTransferError i), w)
    | None \<Rightarrow>
        (\<forall>i \<in> set (ti_transferred_ids c). \<not> participant_identifiable (w_db w) i) \<and>
        (case transfer_create E ctx c w of
           (Inl _, w') \<Rightarrow> same_db w w'
         | (Inr r, w') \<Rightarrow> r = stored_of c \<and> history_of (w_db w) (so_id r) = [] \<and>
             (\<exists>e. committed E [r] [] e w w' \<and> announces e [r] \<and> de_event_type e = ''transfer.created''))"
proof -
  note run = transfer_create_def bindp_def guardp_run ensure_no_participant_identifiable_object_def
    check_all_run [OF world_ok_parts(2) [OF ok]]
  have i: "sm_initial TRANSFER_LIFECYCLE = ''created''" by (simp add: TRANSFER_LIFECYCLE_def)
  show ?thesis
  proof (cases "find (participant_identifiable (w_db w)) (ti_transferred_ids c)")
    case (Some i)
    then show ?thesis using st i by (simp add: run)
  next
    case None
    let ?p = "[(''status'', JStr (lo_status c)),
        (''sender_practice_id'', JStr (ti_sender_practice_id c)),
        (''receiver_practice_id'', JStr (ti_receiver_practice_id c)),
        (''transferred_object_ids'', JArr (map JStr (ti_transferred_ids c)))]"
    have eq: "transfer_create E ctx c w = create_object E ctx (stored_of c) ''transfer.created'' ?p w"
      using None st i by (simp add: run)
    obtain q w' where r: "create_object E ctx (stored_of c) ''transfer.created'' ?p w = (q, w')" by fastforce
    have free: "\<forall>i \<in> set (ti_transferred_ids c). \<not> participant_identifiable (w_db w) i"
      using None by (simp add: find_None_iff)
    show ?thesis
    proof (cases q)
      case (Inl x)
      with create_object_aon r have "same_db w w'" unfolding all_or_nothing_def by blast
      with None free Inl show ?thesis by (simp add: eq r)
    next
      case (Inr s)
      from create_object_Inr [OF ok r [unfolded Inr]] show ?thesis using None free Inr by (auto simp: eq r)
    qed
  qed
qed

section \<open>Every call\<close>

datatype transfer_call =
    CreateTransfer call_ctx transfer_instance
  | OfferTransfer call_ctx urn
  | RespondTransfer call_ctx urn string practice "urn option" "instant option"

fun transfer_run :: "env \<Rightarrow> transfer_call \<Rightarrow> world \<Rightarrow> world" where
  "transfer_run E (CreateTransfer ctx c) w = snd (transfer_create E ctx c w)"
| "transfer_run E (OfferTransfer ctx i) w = snd (transfer_offer E ctx i w)"
| "transfer_run E (RespondTransfer ctx i d p a at) w = snd (transfer_respond E ctx i d p a at w)"

text \<open>The caller owes valid instances, ids that are not of another kind, and a decision of the type.\<close>

fun transfer_call_ok :: "db \<Rightarrow> transfer_call \<Rightarrow> bool" where
  "transfer_call_ok d (CreateTransfer ctx c) \<longleftrightarrow> transfer_ok c"
| "transfer_call_ok d (OfferTransfer ctx i) \<longleftrightarrow> addressable ''TransferContract'' d i"
| "transfer_call_ok d (RespondTransfer ctx i dec p a at) \<longleftrightarrow>
     addressable ''TransferContract'' d i \<and> dec \<in> TRANSFER_DECISIONS"

lemma create_transfer_journals:
  assumes ok: "transfers_ok E w" and inst: "transfer_ok c"
  shows "transfer_journals E w (snd (transfer_create E ctx c w))"
proof (cases "lo_status c = sm_initial TRANSFER_LIFECYCLE \<and> bo_revision c = 1")
  case True
  let ?p = "[(''status'', JStr (lo_status c)),
        (''sender_practice_id'', JStr (ti_sender_practice_id c)),
        (''receiver_practice_id'', JStr (ti_receiver_practice_id c)),
        (''transferred_object_ids'', JArr (map JStr (ti_transferred_ids c)))]"
  have cr: "created ''TransferContract'' TRANSFER_LIFECYCLE (stored_of c)"
    using inst True by (simp add: created_def transfer_ok_def lifecycle_instance_def status_of_Some)
  have last: "transfer_journals E v (snd (create_object E ctx (stored_of c) ''transfer.created'' ?p v))"
    if "transfers_ok E v" for v
    by (rule create_object_journals [OF journal_ok_world [OF that] surjective_pairing])
      (simp_all add: cr transfer_first_def transfer_told_def transfer_event_types)
  have eq: "transfer_create E ctx c =
      bindp (ensure_no_participant_identifiable_object c) (\<lambda>_. create_object E ctx (stored_of c) ''transfer.created'' ?p)"
    using True by (intro ext) (simp add: transfer_create_def bindp_def [of "guardp _ _"] guardp_run)
  show ?thesis unfolding eq by (rule reads_then_journals [OF readonly_no_participants surjective_pairing ok last])
next
  case False
  then show ?thesis by (auto simp: transfer_create_def bindp_def guardp_run journals_still)
qed

section \<open>Answers\<close>

definition answers :: "domain_event \<Rightarrow> string \<Rightarrow> bool" where
  "answers e s \<longleftrightarrow> de_event_type e = ''transfer.responded'' \<and>
     map_of (de_payload e) ''to_status'' = Some (JStr s) \<and> map_of (de_payload e) ''decision'' = Some (JStr s) \<and>
     map_of (de_payload e) ''via'' = None"

text \<open>The edges of an adaptation.\<close>

definition adapts :: "urn \<Rightarrow> urn list \<Rightarrow> typed_edge list \<Rightarrow> bool" where
  "adapts a ids es \<longleftrightarrow> map te_target_id es = ids \<and>
     (\<forall>ed \<in> set es. te_source_id ed = a \<and> te_edge_type ed = ''adapted_from'' \<and> te_status ed = ''active'')"

lemma adapted_edges_Inr:
  assumes "mapp (make_adapted_from_edge E ctx p t a) xs w = (Inr es, w')"
  shows "same_db w w' \<and> adapts a xs es"
proof
  have "keeps same_db (mapp (make_adapted_from_edge E ctx p t a) xs)" by (intro readonly)
  then show "same_db w w'" using assms by (rule keepsD)
  show "adapts a xs es"
    using assms
  proof (induction xs arbitrary: w es)
    case Nil
    then show ?case by (simp add: ret_run adapts_def)
  next
    case (Cons x xs)
    from Cons.prems obtain e es1 w1 where e: "make_adapted_from_edge E ctx p t a x w = (Inr e, w1)"
      and es: "mapp (make_adapted_from_edge E ctx p t a) xs w1 = (Inr es1, w')" "es = e # es1"
      by (auto simp: elim!: bindp_InrE ret_InrE)
    have "te_target_id e = x" "te_source_id e = a" "te_edge_type e = ''adapted_from''" "te_status e = ''active''"
      using e by (auto simp: make_adapted_from_edge_def elim!: bindp_InrE ret_InrE)
    with Cons.IH [OF es(1)] es(2) show ?case by (simp add: adapts_def)
  qed
qed

lemma respond_adapted_Inr:
  assumes ok: "world_ok E w" and run: "respond_adapted E ctx latest ids current ad w = (Inr x, w')"
  shows "\<exists>a es e. ad = Some a \<and> history_of (w_db w) a \<noteq> [] \<and> adapts a ids es \<and> committed E [] es e w w' \<and>
    answers e ''adapted'' \<and> de_object_id e = so_id latest \<and> de_actor e = cx_actor ctx \<and>
    et_content x = latest \<and> et_status x = ''adapted''"
proof -
  obtain a where ad: "ad = Some a" using run by (cases ad) (simp_all add: respond_adapted_def raise_run)
  from run [unfolded respond_adapted_def ad option.case case_prod_beta] obtain ob w1 t w2 es w3 e w4 q where
    s1: "get_latest a w = (Inr ob, w1)" and s2: "now E w1 = (Inr t, w2)"
    and s3: "mapp (make_adapted_from_edge E ctx (so_practice_id ob) t a) ids w2 = (Inr es, w3)"
    and s4: "make_event E ctx ''transfer.responded'' (ret t) (last_event_id_for (so_id latest)) (so_id latest)
            (so_revision latest)
            [(''from_status'', JStr current), (''to_status'', JStr ''adapted''), (''decision'', JStr ''adapted''),
             (''adapted_object_id'', JStr a), (''adapted_from_edge_ids'', JArr (map (\<lambda>e. JStr (te_id e)) es)),
             (''transferred_object_ids'', JArr (map JStr ids))] w3 = (Inr e, w4)"
    and s5: "bind_edges_unit_of_work E es e w4 = (Inr q, w')"
    and x: "x = \<lparr>et_content = latest, et_status = ''adapted'', et_appended_event = snd q\<rparr>"
    by (elim bindp_InrE ret_InrE) (hypsubst+, rule that, (assumption | rule refl)+)
  from get_latest_Inr [OF world_ok_parts(2) [OF ok] s1] have w1: "w1 = w" and h: "history_of (w_db w) a \<noteq> []" by blast+
  note ed = adapted_edges_Inr [OF s3]
  note ev = make_event_Inr [OF s4 keeps_same_pure(1) readonly_last_event]
  have k: "same_db w w4"
    using keepsD [OF readonly_now s2] ed ev unfolding w1 by (blast intro: transpD [OF transp_same_db])
  obtain es' ap where q: "q = (es', ap)" by fastforce
  have eo: "event_ok e" using ev by blast
  from edges_unit_of_work_Inr [OF world_ok_same_db [OF ok k] eo s5 [unfolded q]] have
    c: "committed E [] es e w4 w'" by blast
  have pl: "answers e ''adapted''" using ev by (simp add: answers_def)
  show ?thesis
    by (rule exI [of _ a], rule exI [of _ es], rule exI [of _ e])
      (use ad h ed committed_from [OF k c] pl ev x in simp)
qed

lemma transfer_key_Inr:
  assumes "resolve_trusted_transfer_key E sg p ring at w = (Inr pk, w')"
  shows "same_db w w' \<and> trusted_by E ring p (instant_of E at w) sg pk"
proof -
  from assms [unfolded resolve_trusted_transfer_key_def] obtain w2 w3 u where
    a: "resolve_trusted_signer_key E sg p ring at (SignerMismatchError ''Transfer'') (KeyNotValidError ''Transfer'') w = (Inr pk, w2)"
    and b: "verify_trusted_signature E sg pk w2 = (Inr u, w3)"
    by (elim bindp_InrE ret_InrE) (simp add: that)
  with resolve_then_verify [OF a b] keepsD [OF readonly_transfer_key assms] show ?thesis by blast
qed

lemma transfer_respond_Inr:
  assumes ok: "transfers_ok E w" and ad: "addressable ''TransferContract'' (w_db w) i"
    and run: "transfer_respond E ctx i s sender adapted at w = (Inr x, w')"
  shows "\<exists>latest sg ids ring pk es e. latest = last (history_of (w_db w) i) \<and>
    reconstruct_contract E (so_body latest) = Inr (sg, ids) \<and>
    practice_key_ring E (pr_keys sender) = Inr ring \<and> trusted_by E ring (pr_id sender) (instant_of E at w) sg pk \<and>
    can_transition TRANSFER_LIFECYCLE (transfer_status (w_db w) i) s \<and>
    (if s = ''adapted'' then \<exists>a. adapted = Some a \<and> history_of (w_db w) a \<noteq> [] \<and> adapts a ids es else es = []) \<and>
    et_content x = latest \<and> et_status x = s \<and> committed E [] es e w w' \<and> answers e s \<and> de_object_id e = i \<and>
    de_actor e = cx_actor ctx \<and> is_kind ''TransferContract'' (w_db w) i"
proof -
  have wok: "world_ok E w" using ok by (rule journal_ok_world)
  from run [unfolded transfer_respond_def case_prod_beta] obtain latest w1 q ring w2 pk w3 current u where
    s1: "get_latest_or (TransferContractNotFoundError i) i w = (Inr latest, w1)"
    and rc: "reconstruct_contract E (so_body latest) = Inr q"
    and ring: "practice_key_ring E (pr_keys sender) = Inr ring"
    and s2: "resolve_trusted_transfer_key E (fst q) (pr_id sender) ring at w1 = (Inr pk, w2)"
    and s3: "current_status TRANSFER_EVENTS latest w2 = (Inr current, w3)"
    and tr: "assert_transition TRANSFER_LIFECYCLE current s = Inr u"
    and s4: "(if s = ''adapted'' then respond_adapted E ctx latest (snd q) current adapted
       else note_event E ctx latest s ''transfer.responded''
         [(''from_status'', JStr current), (''to_status'', JStr s), (''decision'', JStr s)]) w3 = (Inr x, w')"
    by (elim bindp_InrE lift_InrE) (hypsubst+, rule that, (assumption | rule refl)+)
  obtain sg ids where q: "q = (sg, ids)" by fastforce
  from get_latest_or_Inr [OF world_ok_parts(2) [OF wok] s1] have w1: "w1 = w" by blast
  from transfer_key_Inr [OF s2] have k2: "same_db w w2" and trust: "trusted_by E ring (pr_id sender) (instant_of E at w) sg pk"
    unfolding w1 q by simp_all
  have db2: "w_db w2 = w_db w" using k2 by (simp add: same_db_def)
  have ad2: "addressable ''TransferContract'' (w_db w2) i" using ad by (simp only: db2)
  have g2: "get_latest_or (TransferContractNotFoundError i) i w2 = (Inr latest, w2)"
    using get_latest_or_Inr [OF world_ok_parts(2) [OF wok] s1] get_latest_or_run [of w2 i] world_ok_parts(2) [OF wok]
    by (simp add: db2)
  note c = current_transfer [OF journal_ok_same [OF ok k2] ad2 g2 s3]
  have w3: "w3 = w2" and la: "latest = last (history_of (w_db w) i)" "so_id latest = i"
    and k: "is_kind ''TransferContract'' (w_db w) i" and cur: "current = transfer_status (w_db w) i"
    using c unfolding db2 by blast+
  have wok2: "world_ok E w2" by (rule world_ok_same_db [OF wok k2])
  have tr': "can_transition TRANSFER_LIFECYCLE (transfer_status (w_db w) i) s" using tr unfolding cur by simp
  have "\<exists>es e. (if s = ''adapted'' then \<exists>a. adapted = Some a \<and> history_of (w_db w) a \<noteq> [] \<and> adapts a ids es else es = []) \<and>
    et_content x = latest \<and> et_status x = s \<and> committed E [] es e w w' \<and> answers e s \<and> de_object_id e = i \<and>
    de_actor e = cx_actor ctx"
  proof (cases "s = ''adapted''")
    case True
    with s4 have "respond_adapted E ctx latest ids current adapted w2 = (Inr x, w')" by (simp add: w3 q)
    from respond_adapted_Inr [OF wok2 this] obtain a es e where
      "adapted = Some a" "history_of (w_db w) a \<noteq> []" "adapts a ids es" and e: "committed E [] es e w2 w'"
      "answers e ''adapted''" "de_object_id e = i" "de_actor e = cx_actor ctx" "et_content x = latest" "et_status x = ''adapted''"
      unfolding db2 la(2) by (elim exE conjE) (rule that)
    with committed_from [OF k2 e(1)] True show ?thesis by (intro exI [of _ es] exI [of _ e]) simp
  next
    case False
    with s4 have "note_event E ctx latest s ''transfer.responded''
         [(''from_status'', JStr current), (''to_status'', JStr s), (''decision'', JStr s)] w2 = (Inr x, w')" by (simp add: w3)
    from note_event_Inr [OF wok2 this] obtain e where
      e: "et_content x = latest" "et_status x = s" "committed E [] [] e w2 w'" "de_event_type e = ''transfer.responded''"
      "de_object_id e = so_id latest" "de_payload e = [(''from_status'', JStr current), (''to_status'', JStr s), (''decision'', JStr s)]"
      "de_actor e = cx_actor ctx" by (elim exE conjE) (rule that)
    have "answers e s" by (simp add: answers_def e)
    with committed_from [OF k2 e(3)] False e la(2) show ?thesis by (intro exI [of _ "[]"] exI [of _ e]) simp
  qed
  then obtain es e where fin: "if s = ''adapted'' then \<exists>a. adapted = Some a \<and> history_of (w_db w) a \<noteq> [] \<and> adapts a ids es else es = []"
    "et_content x = latest" "et_status x = s" "committed E [] es e w w'" "answers e s" "de_object_id e = i"
    "de_actor e = cx_actor ctx" by (elim exE conjE) (rule that)
  show ?thesis
    by (rule exI [of _ latest], rule exI [of _ sg], rule exI [of _ ids], rule exI [of _ ring], rule exI [of _ pk],
        rule exI [of _ es], rule exI [of _ e]) (intro conjI la(1) rc [unfolded q] ring trust tr' fin k)
qed

section \<open>The events of transfers\<close>

text \<open>What an event of a transition type says; and a call that appends at most one such event.\<close>

definition plain :: "domain_event \<Rightarrow> bool" where
  "plain e \<longleftrightarrow>
     (if de_event_type e = ''transfer.offered''
      then map_of (de_payload e) ''to_status'' = Some (JStr ''offered'') \<and> map_of (de_payload e) ''via'' = None
      else if de_event_type e = ''transfer.responded'' then \<exists>s. s \<in> TRANSFER_DECISIONS \<and> answers e s else True)"

definition speaks :: "env \<Rightarrow> world \<Rightarrow> world \<Rightarrow> bool" where
  "speaks E w w' \<longleftrightarrow> same_db w w' \<or> (\<exists>os es e. committed E os es e w w' \<and> plain e)"

definition log_plain :: "db \<Rightarrow> bool" where
  "log_plain d \<longleftrightarrow> list_all (\<lambda>a. plain (ae_event a)) (domain_events_tbl d)"

lemma speaks_keeps: "speaks E w w' \<Longrightarrow> log_plain (w_db w) \<Longrightarrow> log_plain (w_db w')"
  by (auto simp: speaks_def same_db_def committed_def log_plain_def)

lemma speaks_aon:
  assumes "all_or_nothing m" and "m w = (q, w')" and "\<And>r. q = Inr r \<Longrightarrow> \<exists>os es e. committed E os es e w w' \<and> plain e"
  shows "speaks E w w'"
proof (cases q)
  case (Inl x)
  with assms(1,2) show ?thesis unfolding all_or_nothing_def speaks_def by blast
qed (use assms(3) in \<open>simp add: speaks_def\<close>)

lemma plain_other: "de_event_type e \<notin> TRANSFER_EVENTS \<Longrightarrow> plain e"
  by (simp add: plain_def TRANSFER_EVENTS_def)

lemma plain_offer:
  "de_event_type e = ''transfer.offered'' \<Longrightarrow> de_payload e = [(''from_status'', JStr f), (''to_status'', JStr ''offered'')] \<Longrightarrow> plain e"
  by (simp add: plain_def)

lemma plain_answer: "answers e s \<Longrightarrow> s \<in> TRANSFER_DECISIONS \<Longrightarrow> plain e"
  by (auto simp: plain_def answers_def)

lemma transfer_calls_aon:
  "all_or_nothing (transfer_create E ctx c)" "all_or_nothing (transfer_offer E ctx i)"
  "all_or_nothing (respond_adapted E ctx latest ids s a)" "all_or_nothing (transfer_respond E ctx i s p a at)"
proof -
  show "all_or_nothing (transfer_create E ctx c)"
    unfolding transfer_create_def by (intro aon_bindp create_object_aon readonly)
  show "all_or_nothing (transfer_offer E ctx i)"
    unfolding transfer_offer_def by (intro aon_bindp advance_aon readonly)
  show r: "all_or_nothing (respond_adapted E ctx latest ids s a)" for latest ids s a
  proof (cases a)
    case None
    then show ?thesis by (simp add: respond_adapted_def all_or_nothing_def raise_run)
  next
    case (Some b)
    then show ?thesis unfolding respond_adapted_def case_prod_beta
      by (simp only: option.case) (intro aon_bindp aon_edges aon_ret readonly)
  qed
  have "all_or_nothing (if s = ''adapted'' then respond_adapted E ctx latest ids current a
     else note_event E ctx latest s ty payload)" for latest ids current ty payload
    using r note_event_aon by simp
  then show "all_or_nothing (transfer_respond E ctx i s p a at)"
    unfolding transfer_respond_def case_prod_beta by (intro aon_bindp readonly)
qed

lemma committed_event: "committed E os es e w w' \<Longrightarrow> ae_event (last (domain_events_tbl (w_db w'))) = e"
  by (auto simp: committed_def)

lemma offer_transfer_Inr:
  assumes ok: "transfers_ok E w" and ad: "addressable ''TransferContract'' (w_db w) i"
    and run: "transfer_offer E ctx i w = (Inr x, w')"
  shows "\<exists>e. committed E [] [] e w w' \<and> moves_on ''TransferContract'' TRANSFER_LIFECYCLE TRANSFER_EVENTS (w_db w) e \<and> plain e \<and>
    transfer_status (w_db w') i = ''offered''"
proof -
  from run [unfolded transfer_offer_def] obtain latest w1 current w2 where
    s1: "get_latest_or (TransferContractNotFoundError i) i w = (Inr latest, w1)"
    and s2: "current_status TRANSFER_EVENTS latest w1 = (Inr current, w2)"
    and s3: "advance E ctx TRANSFER_LIFECYCLE latest current ''offered'' ''transfer.offered''
       [(''from_status'', JStr current), (''to_status'', JStr ''offered'')] w2 = (Inr x, w')"
    by (elim bindp_InrE) (simp add: that)
  note c = current_transfer [OF ok ad s1 s2]
  have e: "w2 = w" "so_id latest = i" using c by blast+
  have cur: "current = transfer_status (w_db w) (so_id latest)" and k: "is_kind ''TransferContract'' (w_db w) (so_id latest)"
    using c unfolding e(2) by blast+
  have a: "advance E ctx TRANSFER_LIFECYCLE latest (transfer_status (w_db w) (so_id latest)) ''offered'' ''transfer.offered''
       ([(''from_status'', JStr current), (''to_status'', JStr ''offered'')] @ []) w = (Inr x, w')"
    using s3 unfolding e(1) cur append_Nil2 .
  have a2: "advance E ctx TRANSFER_LIFECYCLE latest current ''offered'' ''transfer.offered''
       [(''from_status'', JStr current), (''to_status'', JStr ''offered'')] w = (Inr x, w')" using s3 unfolding e(1) .
  from advance_transfer [OF ok k a transfer_event_types(1)] obtain e1 where
    1: "committed E [] [] e1 w w'" "moves_on ''TransferContract'' TRANSFER_LIFECYCLE TRANSFER_EVENTS (w_db w) e1"
      "transfer_status (w_db w') (so_id latest) = ''offered''" by auto
  from advance_Inr [OF journal_ok_world [OF ok] a2] obtain e2 where
    2: "committed E [] [] e2 w w'" "de_event_type e2 = ''transfer.offered''"
      "de_payload e2 = [(''from_status'', JStr current), (''to_status'', JStr ''offered'')]" by (elim exE conjE) (rule that)
  have "e1 = e2" using committed_event [OF 1(1)] committed_event [OF 2(1)] by simp
  with 1 plain_offer [OF 2(2,3)] show ?thesis unfolding e(2) by blast
qed

lemma respond_transfer_moves:
  assumes ok: "transfers_ok E w" and ad: "addressable ''TransferContract'' (w_db w) i"
    and run: "transfer_respond E ctx i s sender adapted at w = (Inr x, w')"
  shows "\<exists>es e. committed E [] es e w w' \<and> answers e s \<and>
    moves_on ''TransferContract'' TRANSFER_LIFECYCLE TRANSFER_EVENTS (w_db w) e \<and> transfer_status (w_db w') i = s"
proof -
  from transfer_respond_Inr [OF assms] obtain es e where
    c: "can_transition TRANSFER_LIFECYCLE (transfer_status (w_db w) i) s" and e: "committed E [] es e w w'"
    and a: "answers e s" and o: "de_object_id e = i" and k: "is_kind ''TransferContract'' (w_db w) i"
    by (elim exE conjE) (rule that)
  have t: "tracked ''TransferContract'' TRANSFER_LIFECYCLE TRANSFER_EVENTS (w_db w)" using ok by (simp add: journal_ok_def)
  have p: "de_event_type e \<in> TRANSFER_EVENTS" "map_of (de_payload e) ''to_status'' = Some (JStr s)"
    "map_of (de_payload e) ''via'' = None"
    using a transfer_event_types(2) by (simp_all add: answers_def)
  note m = moves_onI [OF k o p c]
  have "transfer_status (w_db w') (de_object_id e) = last (event_moves e)" by (rule moved_trace(2) [OF t e m(1)]) simp
  then have "transfer_status (w_db w') i = s" by (simp only: o m(2) last.simps if_P [OF refl])
  with e a m(1) show ?thesis by blast
qed

lemma transfer_calls:
  assumes ok: "transfers_ok E w" and c: "transfer_call_ok (w_db w) c"
  shows "transfer_journals E w (transfer_run E c w)" and "speaks E w (transfer_run E c w)"
proof -
  have "transfer_journals E w (transfer_run E c w) \<and> speaks E w (transfer_run E c w)"
  proof (cases c)
    case (CreateTransfer ctx t)
    obtain q w' where r: "transfer_create E ctx t w = (q, w')" by fastforce
    have "speaks E w w'"
    proof (rule speaks_aon [OF transfer_calls_aon(1) r])
      fix s assume q: "q = Inr s"
      from r [unfolded q transfer_create_def] obtain us w1 p where
        a: "ensure_no_participant_identifiable_object t w = (Inr us, w1)"
        and b: "create_object E ctx (stored_of t) ''transfer.created'' p w1 = (Inr s, w')"
        by (elim bindp_InrE guardp_InrE) (simp add: that)
      have k: "same_db w w1" by (rule keepsD [OF readonly_no_participants a])
      from create_object_Inr [OF world_ok_same_db [OF journal_ok_world [OF ok] k] b] obtain e where
        e: "committed E [s] [] e w1 w'" "de_event_type e = ''transfer.created''" by auto
      have "plain e" by (rule plain_other) (simp only: e(2) transfer_event_types(3) not_False_eq_True)
      with committed_from [OF k e(1)] show "\<exists>os es e. committed E os es e w w' \<and> plain e" by blast
    qed
    moreover have "transfer_journals E w w'" using create_transfer_journals [OF ok, of t ctx] c CreateTransfer r by simp
    ultimately show ?thesis using CreateTransfer r by simp
  next
    case (OfferTransfer ctx i)
    with c have ad: "addressable ''TransferContract'' (w_db w) i" by simp
    obtain q w' where r: "transfer_offer E ctx i w = (q, w')" by fastforce
    have x: "\<exists>e. committed E [] [] e w w' \<and> moves_on ''TransferContract'' TRANSFER_LIFECYCLE TRANSFER_EVENTS (w_db w) e \<and> plain e"
      if "q = Inr s" for s using offer_transfer_Inr [OF ok ad r [unfolded that]] by blast
    have "transfer_journals E w w'"
      by (rule journals_aon [OF transfer_calls_aon(2) r]) (use x journals_move in blast)
    moreover have "speaks E w w'" by (rule speaks_aon [OF transfer_calls_aon(2) r]) (use x in blast)
    ultimately show ?thesis using OfferTransfer r by simp
  next
    case (RespondTransfer ctx i s p a at)
    with c have ad: "addressable ''TransferContract'' (w_db w) i" and d: "s \<in> TRANSFER_DECISIONS" by simp_all
    obtain q w' where r: "transfer_respond E ctx i s p a at w = (q, w')" by fastforce
    have x: "\<exists>es e. committed E [] es e w w' \<and> moves_on ''TransferContract'' TRANSFER_LIFECYCLE TRANSFER_EVENTS (w_db w) e \<and> plain e"
      if "q = Inr y" for y using respond_transfer_moves [OF ok ad r [unfolded that]] plain_answer [OF _ d] by blast
    have "transfer_journals E w w'"
      by (rule journals_aon [OF transfer_calls_aon(4) r]) (use x journals_move in blast)
    moreover have "speaks E w w'" by (rule speaks_aon [OF transfer_calls_aon(4) r]) (use x in blast)
    ultimately show ?thesis using RespondTransfer r by simp
  qed
  then show "transfer_journals E w (transfer_run E c w)" and "speaks E w (transfer_run E c w)" by blast+
qed

interpretation transfers: journaling_service E "''TransferContract''" TRANSFER_LIFECYCLE TRANSFER_EVENTS
  transfer_first transfer_step transfer_told "transfer_run E" transfer_call_ok for E
  by unfold_locales (rule transfer_calls(1))

section \<open>Every transfer follows its lifecycle\<close>

inductive transfer_reach :: "env \<Rightarrow> world \<Rightarrow> bool" for E where
  start: "transfer_reach E empty_world"
| call: "transfer_reach E w \<Longrightarrow> transfer_call_ok (w_db w) c \<Longrightarrow> transfer_reach E (transfer_run E c w)"
| other: "transfer_reach E w \<Longrightarrow> committed E os es e w w' \<Longrightarrow> de_event_type e \<notin> TRANSFER_EVENTS \<Longrightarrow>
            \<forall>r \<in> set os. so_kind r \<noteq> ''TransferContract'' \<and> \<not> is_kind ''TransferContract'' (w_db w) (so_id r) \<Longrightarrow>
            transfer_reach E w'"
| idle: "transfer_reach E w \<Longrightarrow> same_db w w' \<Longrightarrow> transfer_reach E w'"

lemma transfer_reach_ok: "transfer_reach E w \<Longrightarrow> transfers_ok E w \<and> log_plain (w_db w)"
proof (induction rule: transfer_reach.induct)
  case start
  show ?case by (rule conjI [OF journal_ok_empty]) (simp add: log_plain_def empty_world_def empty_db_def)
next
  case (call w c)
  from call.IH have ok: "transfers_ok E w" and l: "log_plain (w_db w)" by blast+
  show ?case
    by (rule conjI [OF transfers.run_keeps [OF ok call.hyps(2)] speaks_keeps [OF transfer_calls(2) [OF ok call.hyps(2)] l]])
next
  case (other w os es e w')
  from other.IH have ok: "transfers_ok E w" and l: "log_plain (w_db w)" by blast+
  have "speaks E w w'" using other.hyps(2) plain_other [OF other.hyps(3)] unfolding speaks_def by blast
  from journal_ok_foreign [OF ok other.hyps(2-4)] speaks_keeps [OF this l] show ?case by (rule conjI)
next
  case (idle w w')
  from idle.IH have ok: "transfers_ok E w" and l: "log_plain (w_db w)" by blast+
  have "log_plain (w_db w')" using l idle.hyps(2) by (simp add: same_db_def)
  with journal_ok_same [OF ok idle.hyps(2)] show ?case by (rule conjI)
qed

lemma transfer_moves:
  "can_transition TRANSFER_LIFECYCLE ''created'' b \<longleftrightarrow> b = ''offered''"
  "can_transition TRANSFER_LIFECYCLE ''offered'' b \<longleftrightarrow> b \<in> TRANSFER_DECISIONS"
  "b \<in> TRANSFER_DECISIONS \<Longrightarrow> \<not> can_transition TRANSFER_LIFECYCLE b c"
  by (auto simp: can_transition_def machine_defs TRANSFER_DECISIONS_def)

lemma transfer_trace_cases:
  assumes "enforced TRANSFER_LIFECYCLE (''created'' # t)"
  shows "t = [] \<or> t = [''offered''] \<or> (\<exists>s. s \<in> TRANSFER_DECISIONS \<and> t = [''offered'', s])"
proof (cases t)
  case (Cons a t1)
  note c1 = Cons
  with assms have a: "a = ''offered''" by (simp add: transfer_moves(1))
  show ?thesis
  proof (cases t1)
    case (Cons b t2)
    with assms c1 a have b: "b \<in> TRANSFER_DECISIONS" by (simp add: transfer_moves(2))
    have "t2 = []" using assms c1 Cons transfer_moves(3) [OF b] by (cases t2) simp_all
    with b c1 Cons a show ?thesis by blast
  qed (use c1 a in simp)
qed simp

text \<open>An event of a transition type moves its object once, and an answer is what it moves it to.\<close>

lemma plain_moves:
  assumes p: "plain e" and t: "de_event_type e \<in> TRANSFER_EVENTS"
  obtains s where "event_moves e = [s]"
    and "de_event_type e = ''transfer.responded'' \<longleftrightarrow> s \<in> TRANSFER_DECISIONS"
    and "de_event_type e = ''transfer.responded'' \<Longrightarrow> map_of (de_payload e) ''decision'' = Some (JStr s)"
proof (cases "de_event_type e = ''transfer.responded''")
  case True
  with p obtain s where s: "s \<in> TRANSFER_DECISIONS" "answers e s" by (auto simp: plain_def)
  show thesis by (rule that [of s]) (use True s in \<open>simp_all add: answers_def event_moves_def\<close>)
next
  case False
  with t p have "map_of (de_payload e) ''to_status'' = Some (JStr ''offered'')" "map_of (de_payload e) ''via'' = None"
    by (auto simp: plain_def TRANSFER_EVENTS_def)
  with False show thesis by (intro that [of "''offered''"]) (simp_all add: event_moves_def TRANSFER_DECISIONS_def)
qed

lemma answers_in_order:
  assumes "list_all (\<lambda>e. plain e \<and> de_event_type e \<in> TRANSFER_EVENTS) es"
  shows "map (\<lambda>e. map_of (de_payload e) ''decision'') (filter (\<lambda>e. de_event_type e = ''transfer.responded'') es) =
    map (\<lambda>s. Some (JStr s)) (filter (\<lambda>s. s \<in> TRANSFER_DECISIONS) (concat (map event_moves es)))"
  using assms
proof (induction es)
  case (Cons e es)
  then have p: "plain e" and t: "de_event_type e \<in> TRANSFER_EVENTS" by simp_all
  from p t obtain s where s: "event_moves e = [s]" "de_event_type e = ''transfer.responded'' \<longleftrightarrow> s \<in> TRANSFER_DECISIONS"
    "de_event_type e = ''transfer.responded'' \<Longrightarrow> map_of (de_payload e) ''decision'' = Some (JStr s)" by (rule plain_moves) blast
  from Cons s show ?case by simp
qed simp

lemma transfer_filter:
  "filter (\<lambda>e. de_object_id e = i \<and> de_event_type e = ''transfer.responded'') es =
     filter (\<lambda>e. de_event_type e = ''transfer.responded'')
       (filter (\<lambda>e. de_object_id e = i \<and> de_event_type e \<in> TRANSFER_EVENTS) es)"
  by (induction es) (simp_all add: transfer_event_types)

text \<open>
  A transfer follows its lifecycle and is answered at most once, and the Obligation service
  reads that answer. In every reachable world the statuses the log moves a transfer through are
  none, the offer, or the offer and one of the five answers; the status the Transfer service
  reads is the last of them; and the decision the Obligation service reads from the log before it
  materializes obligations is the answer, and is absent as long as there is none.
\<close>

lemma transfers_are_answered_once:
  assumes r: "transfer_reach E w" and k: "is_kind ''TransferContract'' (w_db w) i"
  shows "\<exists>trace source. (trace = [] \<or> trace = [''offered''] \<or> (\<exists>s. s \<in> TRANSFER_DECISIONS \<and> trace = [''offered'', s])) \<and>
    trace = status_trace TRANSFER_EVENTS (w_db w) i \<and>
    current_status TRANSFER_EVENTS (last (history_of (w_db w) i)) w = (Inr (last (''created'' # trace)), w) \<and>
    latest_transfer_decision i w = (Inr (if length trace = 2 then Some (last trace) else None, source), w)"
proof -
  let ?t = "status_trace TRANSFER_EVENTS (w_db w) i" and ?log = "map ae_event (domain_events_tbl (w_db w))"
  let ?es = "transition_events TRANSFER_EVENTS (w_db w) i"
  let ?as = "filter (\<lambda>e. de_object_id e = i \<and> de_event_type e = ''transfer.responded'') ?log"
  have ok: "transfers_ok E w" and lp: "log_plain (w_db w)" using transfer_reach_ok [OF r] by blast+
  have wok: "world_ok E w" using ok by (rule journal_ok_world)
  have t: "tracked ''TransferContract'' TRANSFER_LIFECYCLE TRANSFER_EVENTS (w_db w)" using ok by (simp add: journal_ok_def)
  have i: "sm_initial TRANSFER_LIFECYCLE = ''created''" by (simp add: TRANSFER_LIFECYCLE_def)
  have cases: "?t = [] \<or> ?t = [''offered''] \<or> (\<exists>s. s \<in> TRANSFER_DECISIONS \<and> ?t = [''offered'', s])"
    by (rule transfer_trace_cases) (rule trackedD(1) [OF t k, unfolded i])
  have cur: "current_status TRANSFER_EVENTS (last (history_of (w_db w) i)) w = (Inr (last (''created'' # ?t)), w)"
    using current_status_run [OF wok t k refl] unfolding status_now_def i .
  have as: "?as = filter (\<lambda>e. de_event_type e = ''transfer.responded'') ?es"
    unfolding transition_events_def by (rule transfer_filter)
  have "list_all (\<lambda>e. plain e \<and> de_event_type e \<in> TRANSFER_EVENTS) ?es"
    using lp by (auto simp: log_plain_def list_all_iff transition_events_def)
  from answers_in_order [OF this] have m: "map (\<lambda>e. map_of (de_payload e) ''decision'') ?as =
    map (\<lambda>s. Some (JStr s)) (filter (\<lambda>s. s \<in> TRANSFER_DECISIONS) ?t)" unfolding as status_trace_def .
  have run: "latest_transfer_decision i w = (case last_opt ?as of None \<Rightarrow> ret (None, None)
      | Some e \<Rightarrow> bindp (lift (dget_str (de_payload e) ''decision'')) (\<lambda>d. ret (Some d, Some (de_id e)))) w"
    by (simp add: latest_transfer_decision_def bindp_def [of read_all] read_all_run [OF world_ok_parts(1) [OF wok]])
  have off: "''offered'' \<notin> TRANSFER_DECISIONS" by (simp add: TRANSFER_DECISIONS_def)
  have "\<exists>source. latest_transfer_decision i w = (Inr (if length ?t = 2 then Some (last ?t) else None, source), w)"
  proof (cases "\<exists>s. s \<in> TRANSFER_DECISIONS \<and> ?t = [''offered'', s]")
    case True
    then obtain s where s: "s \<in> TRANSFER_DECISIONS" "?t = [''offered'', s]" by blast
    with m off have "map (\<lambda>e. map_of (de_payload e) ''decision'') ?as = [Some (JStr s)]" by simp
    then obtain e where e: "?as = [e]" "map_of (de_payload e) ''decision'' = Some (JStr s)" by auto
    then have "dget_str (de_payload e) ''decision'' = Inr s" by simp
    then show ?thesis unfolding run e(1) using s(2) by (simp add: last_opt_def bindp_def lift_run ret_run del: dget_str_Inr)
  next
    case False
    with cases m off have "?as = []" by auto
    moreover have "length ?t \<noteq> 2" using False cases by auto
    ultimately show ?thesis unfolding run by (simp add: last_opt_def ret_run)
  qed
  with cases cur show ?thesis by blast
qed

text \<open>
  An answer is given once, by a receiver that trusts what the sender signed. When a response
  succeeds, the latest content of the transfer carries a signature of the trusted practice, whose
  key is active and in its window in the ring of that practice, over exactly that content; the
  transfer was offered before the call and has the decided status after it; and one event is
  written, by the actor, with, for an adapted answer, exactly one active edge from the adapted
  object, which is stored, to every transferred object, and with no edge otherwise.
\<close>

lemma responses_are_authorized:
  assumes r: "transfer_reach E w" and ad: "addressable ''TransferContract'' (w_db w) i" and d: "s \<in> TRANSFER_DECISIONS"
    and run: "transfer_respond E ctx i s sender adapted at w = (Inr x, w')"
  shows "\<exists>latest sg ids ring pk es e. latest = last (history_of (w_db w) i) \<and>
    reconstruct_contract E (so_body latest) = Inr (sg, ids) \<and>
    practice_key_ring E (pr_keys sender) = Inr ring \<and> trusted_by E ring (pr_id sender) (instant_of E at w) sg pk \<and>
    transfer_status (w_db w) i = ''offered'' \<and> transfer_status (w_db w') i = s \<and>
    et_content x = latest \<and> et_status x = s \<and> committed E [] es e w w' \<and> de_object_id e = i \<and> de_actor e = cx_actor ctx \<and>
    (if s = ''adapted'' then \<exists>a. adapted = Some a \<and> history_of (w_db w) a \<noteq> [] \<and> adapts a ids es else es = [])"
proof -
  have ok: "transfers_ok E w" using transfer_reach_ok [OF r] by blast
  from transfer_respond_Inr [OF ok ad run] obtain latest sg ids ring pk es e where
    1: "latest = last (history_of (w_db w) i)" "reconstruct_contract E (so_body latest) = Inr (sg, ids)"
      "practice_key_ring E (pr_keys sender) = Inr ring" "trusted_by E ring (pr_id sender) (instant_of E at w) sg pk"
    and c: "can_transition TRANSFER_LIFECYCLE (transfer_status (w_db w) i) s"
    and ed: "if s = ''adapted'' then \<exists>a. adapted = Some a \<and> history_of (w_db w) a \<noteq> [] \<and> adapts a ids es else es = []"
    and 2: "et_content x = latest" "et_status x = s" "committed E [] es e w w'" "de_object_id e = i" "de_actor e = cx_actor ctx"
    by (elim exE conjE) (rule that)
  have off: "transfer_status (w_db w) i = ''offered''"
    using c d by (auto simp: can_transition_def machine_defs TRANSFER_DECISIONS_def)
  from respond_transfer_moves [OF ok ad run] have st: "transfer_status (w_db w') i = s" by blast
  show ?thesis
    by (rule exI [of _ latest], rule exI [of _ sg], rule exI [of _ ids], rule exI [of _ ring], rule exI [of _ pk],
        rule exI [of _ es], rule exI [of _ e]) (intro conjI 1 off st 2 ed)
qed

section \<open>Witnesses\<close>

definition sample_transfer :: transfer_instance where
  "sample_transfer = \<lparr>bo_id = sample_urn ''transfer'', bo_api_version = ''mrr/v1alpha1'', bo_kind = ''TransferContract'',
     bo_practice_id = sample_urn ''practice'', bo_revision = 1, bo_created_at = 1700000000000000,
     bo_created_by = sample_urn ''human'', bo_content_hash = content_hash ''{}'', bo_supersedes = None,
     bo_labels = None,
     bo_dump = [(''status'', JStr ''created''), (''signature'', sample_signature),
       (''transferred_objects'', JArr [JObj [(''id'', JStr (sample_urn ''claim''))]])],
     lo_status = ''created'', ti_sender_practice_id = sample_urn ''practice'',
     ti_receiver_practice_id = sample_urn ''peer'', ti_transferred_ids = [sample_urn ''claim'']\<rparr>"

lemma entity_ok_transfer [simp]: "entity_ok ''transfer''"
  by (simp add: entity_ok_def entity_char_def less_eq_char_def)

lemma sample_transfer_simps [simp]:
  "bo_id sample_transfer = sample_urn ''transfer''" "lo_status sample_transfer = ''created''"
  "bo_revision sample_transfer = 1" "bo_kind sample_transfer = ''TransferContract''"
  "ti_transferred_ids sample_transfer = [sample_urn ''claim'']"
  "map_of (bo_dump sample_transfer) ''signature'' = Some sample_signature" "transfer_ok sample_transfer"
  by (simp_all add: sample_transfer_def transfer_ok_def lifecycle_instance_def)

lemma created_transfer_world:
  obtains w where "transfer_create sample_env sample_ctx sample_transfer empty_world = (Inr (stored_of sample_transfer), w)"
    and "transfer_reach sample_env w" and "history_of (w_db w) (sample_urn ''transfer'') = [stored_of sample_transfer]"
    and "w_ticks w = 3" and "event_ids (w_db w) = map (event_id_at sample_env) [0]"
    and "transfer_status (w_db w) (sample_urn ''transfer'') = ''created''"
proof -
  let ?c = sample_transfer and ?E = sample_env
  let ?p = "[(''status'', JStr (lo_status ?c)),
        (''sender_practice_id'', JStr (ti_sender_practice_id ?c)),
        (''receiver_practice_id'', JStr (ti_receiver_practice_id ?c)),
        (''transferred_object_ids'', JArr (map JStr (ti_transferred_ids ?c)))]"
  have ids: "event_ids (w_db empty_world) = map (event_id_at ?E) []" by (simp add: start_fresh)
  have new: "w_ticks empty_world mod 64 \<notin> (\<lambda>m. m mod 64) ` set []" by simp
  have pre: "so_revision (stored_of ?c) = 1" "is_valid_urn (so_id (stored_of ?c))"
    "history_of (w_db empty_world) (so_id (stored_of ?c)) = []" by (simp_all add: start_fresh)
  have ty: "non_empty ''transfer.created''" by (simp add: non_empty_def is_space_def)
  obtain w e where c: "create_object ?E sample_ctx (stored_of ?c) ''transfer.created'' ?p empty_world = (Inr (stored_of ?c), w)"
    "committed ?E [stored_of ?c] [] e empty_world w" "de_event_type e = ''transfer.created''"
    "history_of (w_db w) (so_id (stored_of ?c)) = [stored_of ?c]" "w_ticks w = w_ticks empty_world + 3"
    "event_ids (w_db w) = map (event_id_at ?E) ([] @ [w_ticks empty_world])"
    by (rule sample_create [OF world_ok_empty ids new pre ty]) (rule that, assumption+)
  have none: "\<not> participant_identifiable (w_db empty_world) i" for i by (simp add: participant_identifiable_def start_fresh)
  have ob: "objects_ok (w_db empty_world)" by (rule world_ok_parts(2) [OF world_ok_empty])
  have run: "transfer_create ?E sample_ctx ?c empty_world = (Inr (stored_of ?c), w)"
    using c(1) none by (simp add: transfer_create_def bindp_def guardp_run TRANSFER_LIFECYCLE_def
        ensure_no_participant_identifiable_object_def check_transferred_run [OF ob] ret_run)
  have "transfer_call_ok (w_db empty_world) (CreateTransfer sample_ctx ?c)" by simp
  from transfer_reach.call [OF transfer_reach.start this, of ?E] run have reach: "transfer_reach ?E w" by simp
  have t0: "tracked ''TransferContract'' TRANSFER_LIFECYCLE TRANSFER_EVENTS (w_db empty_world)"
    by (simp add: empty_world_def tracked_empty)
  have nt: "de_event_type e \<notin> TRANSFER_EVENTS" unfolding c(3) by (rule transfer_event_types(3))
  have "transfer_status (w_db w) (sample_urn ''transfer'') = ''created''"
    using created_status [OF t0 _ c(2) nt] by (simp add: TRANSFER_LIFECYCLE_def start_fresh)
  with that [OF run reach] c(4-6) show thesis by (simp add: start_fresh)
qed

lemma offered_transfer_world:
  obtains w where "transfer_reach sample_env w" and "history_of (w_db w) (sample_urn ''transfer'') = [stored_of sample_transfer]"
    and "transfer_status (w_db w) (sample_urn ''transfer'') = ''offered''"
    and "w_ticks w = 6" and "event_ids (w_db w) = map (event_id_at sample_env) [0, 3]"
proof -
  obtain w where w: "transfer_create sample_env sample_ctx sample_transfer empty_world = (Inr (stored_of sample_transfer), w)"
    "transfer_reach sample_env w" "history_of (w_db w) (sample_urn ''transfer'') = [stored_of sample_transfer]"
    "w_ticks w = 3" "event_ids (w_db w) = map (event_id_at sample_env) [0]"
    "transfer_status (w_db w) (sample_urn ''transfer'') = ''created''" by (rule created_transfer_world)
  let ?i = "sample_urn ''transfer''" and ?r = "stored_of sample_transfer" and ?E = sample_env
  let ?p = "[(''from_status'', JStr ''created''), (''to_status'', JStr ''offered'')]"
  have bok: "transfers_ok ?E w" using transfer_reach_ok [OF w(2)] by blast
  have ok: "world_ok ?E w" using bok by (rule journal_ok_world)
  have k: "is_kind ''TransferContract'' (w_db w) ?i" by (simp add: is_kind_def w(3))
  have ad: "addressable ''TransferContract'' (w_db w) ?i" by (simp add: addressable_def w(3))
  have t: "tracked ''TransferContract'' TRANSFER_LIFECYCLE TRANSFER_EVENTS (w_db w)" using bok by (simp add: journal_ok_def)
  have g: "get_latest_or (TransferContractNotFoundError ?i) ?i w = (Inr ?r, w)"
    using get_latest_or_run [OF world_ok_parts(2) [OF ok]] w(3) by simp
  have c: "current_status TRANSFER_EVENTS ?r w = (Inr ''created'', w)"
    using current_status_run [OF ok t k, of ?r] w(3,6) by simp
  have l: "is_valid_urn (so_id ?r)" "1 \<le> so_revision ?r" by simp_all
  have ty: "non_empty ''transfer.offered''" by (simp add: non_empty_def is_space_def)
  have new: "w_ticks w mod 64 \<notin> (\<lambda>m. m mod 64) ` set [0]" by (simp add: w(4))
  obtain x w' where n: "note_event ?E sample_ctx ?r ''offered'' ''transfer.offered'' ?p w = (Inr x, w')"
    "history_of (w_db w') = history_of (w_db w)" "w_ticks w' = w_ticks w + 3"
    "event_ids (w_db w') = map (event_id_at ?E) ([0] @ [w_ticks w])"
    by (rule sample_note [OF ok w(5) new l ty]) (rule that, assumption+)
  have can: "can_transition TRANSFER_LIFECYCLE ''created'' ''offered''" by (simp add: transfer_moves(1))
  have run: "transfer_offer ?E sample_ctx ?i w = (Inr x, w')"
    using g c n(1) by (simp add: transfer_offer_def bindp_def advance_note [OF can])
  have "transfer_call_ok (w_db w) (OfferTransfer sample_ctx ?i)" using ad by simp
  from transfer_reach.call [OF w(2) this] run have reach: "transfer_reach ?E w'" by simp
  from offer_transfer_Inr [OF bok ad run] have "transfer_status (w_db w') ?i = ''offered''" by blast
  with that [OF reach] n(2-4) w(3,4) show thesis by simp
qed

lemma accepted_transfer:
  obtains w x w' where "transfer_reach sample_env w" and "addressable ''TransferContract'' (w_db w) (sample_urn ''transfer'')"
    and "transfer_respond sample_env sample_ctx (sample_urn ''transfer'') ''accepted'' sample_practice None (Some 5) w = (Inr x, w')"
proof -
  obtain w where w: "transfer_reach sample_env w" "history_of (w_db w) (sample_urn ''transfer'') = [stored_of sample_transfer]"
    "transfer_status (w_db w) (sample_urn ''transfer'') = ''offered''"
    "w_ticks w = 6" "event_ids (w_db w) = map (event_id_at sample_env) [0, 3]" by (rule offered_transfer_world)
  let ?i = "sample_urn ''transfer''" and ?r = "stored_of sample_transfer" and ?E = sample_env
  let ?p = "[(''from_status'', JStr ''offered''), (''to_status'', JStr ''accepted''), (''decision'', JStr ''accepted'')]"
  let ?sg = "sample_reconstructed (bo_dump sample_transfer)"
  have bok: "transfers_ok ?E w" using transfer_reach_ok [OF w(1)] by blast
  have ok: "world_ok ?E w" using bok by (rule journal_ok_world)
  have k: "is_kind ''TransferContract'' (w_db w) ?i" by (simp add: is_kind_def w(2))
  have ad: "addressable ''TransferContract'' (w_db w) ?i" by (simp add: addressable_def w(2))
  have t: "tracked ''TransferContract'' TRANSFER_LIFECYCLE TRANSFER_EVENTS (w_db w)" using bok by (simp add: journal_ok_def)
  have g: "get_latest_or (TransferContractNotFoundError ?i) ?i w = (Inr ?r, w)"
    using get_latest_or_run [OF world_ok_parts(2) [OF ok]] w(2) by simp
  have c: "current_status TRANSFER_EVENTS ?r w = (Inr ''offered'', w)"
    using current_status_run [OF ok t k, of ?r] w(2,3) by simp
  have rc: "reconstruct_contract ?E (so_body ?r) = Inr (?sg, [sample_urn ''claim''])"
    using reconstruct_sample [of "bo_dump sample_transfer" "''TransferContract''"]
    by (simp add: reconstruct_contract_def dget_list_def) (simp add: sample_transfer_def dget_str_def dget_def)
  have l: "is_valid_urn (so_id ?r)" "1 \<le> so_revision ?r" by simp_all
  have ty: "non_empty ''transfer.responded''" by (simp add: non_empty_def is_space_def)
  have new: "w_ticks w mod 64 \<notin> (\<lambda>m. m mod 64) ` set [0, 3]" by (simp add: w(4))
  obtain x w' where n: "note_event ?E sample_ctx ?r ''accepted'' ''transfer.responded'' ?p w = (Inr x, w')"
    by (rule sample_note [OF ok w(5) new l ty]) (rule that, assumption+)
  have tr: "assert_transition TRANSFER_LIFECYCLE ''offered'' ''accepted'' = Inr ()"
    by (simp add: transfer_moves(2) TRANSFER_DECISIONS_def)
  have "transfer_respond ?E sample_ctx ?i ''accepted'' sample_practice None (Some 5) w = (Inr x, w')"
    using g rc resolve_sample_body(2) c tr n
    by (simp add: transfer_respond_def bindp_def lift_run sample_practice_ring del: assert_transition_Inr)
  with w(1) ad show thesis by (rule that)
qed

lemma transfer_create_exact_witness:
  "\<exists>(w :: world) e. committed sample_env [stored_of sample_transfer] [] e empty_world w \<and> de_event_type e = ''transfer.created''"
proof -
  obtain w where run: "transfer_create sample_env sample_ctx sample_transfer empty_world = (Inr (stored_of sample_transfer), w)"
    by (rule created_transfer_world)
  have n: "find (participant_identifiable (w_db empty_world)) (ti_transferred_ids sample_transfer) = None"
    by (simp add: participant_identifiable_def start_fresh)
  from transfer_create_exact [OF world_ok_empty sample_transfer_simps(2,3), of sample_env sample_ctx] show ?thesis
    unfolding n option.case run prod.case sum.case by (elim conjE exE) (intro exI conjI)
qed

lemma transfers_are_answered_once_witness:
  "\<exists>(w :: world) source. status_trace TRANSFER_EVENTS (w_db w) (sample_urn ''transfer'') = [''offered''] \<and>
     latest_transfer_decision (sample_urn ''transfer'') w = (Inr (None, source), w)"
proof -
  obtain w where w: "transfer_reach sample_env w" "history_of (w_db w) (sample_urn ''transfer'') = [stored_of sample_transfer]"
    "transfer_status (w_db w) (sample_urn ''transfer'') = ''offered''" by (rule offered_transfer_world)
  have k: "is_kind ''TransferContract'' (w_db w) (sample_urn ''transfer'')" by (simp add: is_kind_def w(2))
  have "''offered'' \<notin> TRANSFER_DECISIONS" by (simp add: TRANSFER_DECISIONS_def)
  with transfers_are_answered_once [OF w(1) k] w(3) show ?thesis
    by (intro exI [of _ w]) (auto simp: status_now_def TRANSFER_LIFECYCLE_def)
qed

lemma responses_are_authorized_witness:
  "\<exists>(w :: world) w' x. transfer_respond sample_env sample_ctx (sample_urn ''transfer'') ''accepted'' sample_practice None (Some 5) w =
       (Inr x, w') \<and> transfer_status (w_db w) (sample_urn ''transfer'') = ''offered'' \<and>
     transfer_status (w_db w') (sample_urn ''transfer'') = ''accepted''"
proof -
  obtain w x w' where w: "transfer_reach sample_env w" "addressable ''TransferContract'' (w_db w) (sample_urn ''transfer'')"
    "transfer_respond sample_env sample_ctx (sample_urn ''transfer'') ''accepted'' sample_practice None (Some 5) w = (Inr x, w')"
    by (rule accepted_transfer)
  have d: "''accepted'' \<in> TRANSFER_DECISIONS" by (simp add: TRANSFER_DECISIONS_def)
  from responses_are_authorized [OF w(1,2) d w(3)] w(3) show ?thesis
    by (intro exI [of _ w] exI [of _ w'] exI [of _ x]) auto
qed

end
