(* ===== verification/Correction_Service.thy ===== *)
theory Correction_Service
  imports Event_Sourcing Obligation_Service Claim_Service Federation
begin

text \<open>
  Corrections, \<^verbatim>\<open>services/control_plane/mrr/services/correction/service.py\<close>: a correction event is
  recorded, its impact over the edges is computed and written to it, and every impacted claim is
  sent back to review; other practices answer a notification with a response; and deliveries that
  failed are tracked until they succeed or are given up.
\<close>

section \<open>Corrections\<close>

text \<open>A \<^verbatim>\<open>CorrectionEvent\<close> instance: the fields the service reads.\<close>

record correction_event = lifecycle_object +
  ce_affected_ids :: "urn list"
  ce_correction_type :: string
  ce_severity :: string

text \<open>
  What \<^verbatim>\<open>CorrectionImpactService\<close> is constructed with: whether it was given the two optional
  units of work, and the optional store of pending deliveries.
\<close>

record correction_service =
  cs_record_event :: bool
  cs_record_revision_with_edges :: bool
  cs_delivery_pending_store :: "delivery_store option"

definition require_record_event :: "correction_service \<Rightarrow> (world, unit) prog" where
  "require_record_event S = guardp (cs_record_event S) ValueError"

definition require_delivery_pending_store :: "correction_service \<Rightarrow> (world, delivery_store) prog" where
  "require_delivery_pending_store S =
     (case cs_delivery_pending_store S of None \<Rightarrow> raise ValueError | Some store \<Rightarrow> ret store)"

definition correction_record :: "env \<Rightarrow> call_ctx \<Rightarrow> correction_event \<Rightarrow> (world, stored_object) prog" where
  "correction_record E ctx correction =
     bindp (guardp (lo_status correction = sm_initial CORRECTION_LIFECYCLE)
       (InvalidTransitionError (sm_name CORRECTION_LIFECYCLE) ''<new>'' (lo_status correction))) (\<lambda>_.
     bindp (guardp (bo_revision correction = 1) ValueError) (\<lambda>_.
     create_object E ctx (stored_of correction) ''correction.recorded''
       [(''correction_type'', JStr (ce_correction_type correction)),
        (''severity'', JStr (ce_severity correction)),
        (''affected_object_ids'', JArr (map JStr (ce_affected_ids correction)))]))"

section \<open>Impact\<close>

text \<open>\<^verbatim>\<open>{ref["id"] for ref in body["affected_objects"]}\<close>\<close>

definition affected_ids :: "dict \<Rightarrow> urn list outcome" where
  "affected_ids body =
     (case dget body ''affected_objects'' of
        Inl e \<Rightarrow> Inl e
      | Inr (JArr refs) \<Rightarrow> map_outcome transferred_id_of refs
      | Inr _ \<Rightarrow> Inl TypeErr)"

definition impact_objects_of :: "dict \<Rightarrow> urn list outcome" where
  "impact_objects_of body =
     (case map_of body ''impact_objects'' of None \<Rightarrow> Inr [] | Some v \<Rightarrow> as_strs v)"

definition correction_model_validate :: "env \<Rightarrow> dict \<Rightarrow> unit outcome" where
  "correction_model_validate E body =
     (if env_schema E ''CorrectionEvent'' body then Inr () else Inl PydanticValidationError)"

definition write_impact_objects ::
  "env \<Rightarrow> call_ctx \<Rightarrow> stored_object \<Rightarrow> urn list \<Rightarrow> (world, stored_object) prog" where
  "write_impact_objects E ctx latest impacted =
     bindp (now E) (\<lambda>t.
     bindp (lift (finish_body E (so_revision latest + 1) t (cx_actor ctx)
       (dset ''impact_objects'' (JArr (map JStr (sorted_set impacted))) (so_body latest)))) (\<lambda>(h, new_body).
     bindp (lift (correction_model_validate E new_body)) (\<lambda>_.
     bindp (make_event E ctx ''correction.impact_computed'' (ret t) (last_event_id_for (so_id latest)) (so_id latest)
       (so_revision latest + 1) [(''impact_objects'', JArr (map JStr (sorted_set impacted)))]) (\<lambda>e.
     bindp (bind_unit_of_work E (next_object latest (so_revision latest + 1) t (cx_actor ctx) h new_body)
       (Some (so_revision latest)) e) (\<lambda>(stored, _).
     ret stored)))))"

definition find_latest :: "urn \<Rightarrow> (world, stored_object option) prog" where
  "find_latest i =
     catchp (bindp (get_latest i) (\<lambda>r. ret (Some r)))
       (\<lambda>x. case x of ObjectNotFoundError _ _ \<Rightarrow> ret None | _ \<Rightarrow> raise x)"

definition review_satisfied_statuses :: "string set" where
  "review_satisfied_statuses = {''review_required'', ''withdrawn'', ''superseded''}"

definition require_review_if_needed :: "env \<Rightarrow> call_ctx \<Rightarrow> urn \<Rightarrow> (world, unit) prog" where
  "require_review_if_needed E ctx i =
     bindp (find_latest i) (\<lambda>found.
     case found of
       None \<Rightarrow> ret ()
     | Some obj \<Rightarrow>
         if so_kind obj \<noteq> ''Claim'' then ret ()
         else if map_of (so_body obj) ''status'' \<in> (\<lambda>s. Some (JStr s)) ` review_satisfied_statuses then ret ()
         else bindp (require_review E ctx i) (\<lambda>_. ret ()))"

definition propagate_impact :: "env \<Rightarrow> call_ctx \<Rightarrow> urn \<Rightarrow> (world, stored_object) prog" where
  "propagate_impact E ctx correction_id =
     bindp (get_latest_or (CorrectionNotFoundError correction_id) correction_id) (\<lambda>latest.
     bindp (lift (affected_ids (so_body latest))) (\<lambda>seed_ids.
     bindp (gather_impact_edges seed_ids) (\<lambda>edges.
     let impacted = compute_impact seed_ids edges in
     bindp (lift (impact_objects_of (so_body latest))) (\<lambda>current.
     bindp (if set impacted \<noteq> set current then write_impact_objects E ctx latest impacted else ret latest) (\<lambda>latest.
     bindp (mapp (require_review_if_needed E ctx) (sorted_set impacted)) (\<lambda>_.
     ret latest))))))"

section \<open>Responses\<close>

text \<open>The arguments of \<^verbatim>\<open>record_response\<close>; an adaptation is an adapted and a notified object.\<close>

record correction_response =
  cr_notification_id :: urn
  cr_notifying_practice_id :: urn
  cr_origin_event_id :: urn
  cr_origin_event_revision :: int
  cr_notified_object_ids :: "urn list"
  cr_responding_practice_id :: urn
  cr_decision :: string
  cr_reason :: "string option"
  cr_adaptations :: "(urn \<times> urn) list"

text \<open>The validators of \<^verbatim>\<open>packages/contracts/mrr/contracts/correction_response.py\<close>.\<close>

definition REASON_REQUIRED_DECISIONS :: "string set" where
  "REASON_REQUIRED_DECISIONS = {''reject'', ''defer''}"

definition reason_required_iff_reject_or_defer :: "correction_response \<Rightarrow> bool" where
  "reason_required_iff_reject_or_defer c \<longleftrightarrow>
     (if cr_decision c \<in> REASON_REQUIRED_DECISIONS then cr_reason c \<notin> {None, Some ''''} else cr_reason c = None)"

definition adaptations_required_iff_adapt :: "correction_response \<Rightarrow> bool" where
  "adaptations_required_iff_adapt c \<longleftrightarrow>
     (if cr_decision c = ''adapt'' then cr_adaptations c \<noteq> [] else cr_adaptations c = [])"

definition adaptations_reference_notified :: "correction_response \<Rightarrow> bool" where
  "adaptations_reference_notified c \<longleftrightarrow>
     list_all (\<lambda>a. snd a \<in> set (cr_notified_object_ids c)) (cr_adaptations c)"

definition response_model_validate :: "env \<Rightarrow> correction_response \<Rightarrow> dict \<Rightarrow> unit outcome" where
  "response_model_validate E c body =
     (if \<not> env_schema E ''CorrectionResponse'' body then Inl PydanticValidationError
      else if \<not> reason_required_iff_reject_or_defer c then Inl PydanticValidationError
      else if \<not> adaptations_required_iff_adapt c then Inl PydanticValidationError
      else if \<not> adaptations_reference_notified c then Inl PydanticValidationError
      else Inr ())"

definition response_fields :: "correction_response \<Rightarrow> urn \<Rightarrow> string \<Rightarrow> instant \<Rightarrow> dict" where
  "response_fields c i actor t =
     (let body =
        [(''id'', JStr i), (''api_version'', JStr ''mrr/v1alpha1''), (''kind'', JStr ''CorrectionResponse''),
         (''practice_id'', JStr (cr_responding_practice_id c)), (''revision'', JInt 1),
         (''created_at'', JStr (isoformat t)), (''created_by'', JStr actor),
         (''content_hash'', JStr placeholder_content_hash),
         (''correction_notification_id'', JStr (cr_notification_id c)),
         (''notifying_practice_id'', JStr (cr_notifying_practice_id c)),
         (''origin_correction_event_id'', JStr (cr_origin_event_id c)),
         (''origin_correction_event_revision'', JInt (cr_origin_event_revision c)),
         (''notified_object_ids'', JArr (map JStr (cr_notified_object_ids c))),
         (''decision'', JStr (cr_decision c)),
         (''adaptations'', JArr (map (\<lambda>a. JObj [(''adapted_object_id'', JStr (fst a)),
            (''notified_object_id'', JStr (snd a))]) (cr_adaptations c)))]
      in case cr_reason c of None \<Rightarrow> body | Some r \<Rightarrow> dset ''reason'' (JStr r) body)"

definition response_object :: "correction_response \<Rightarrow> urn \<Rightarrow> string \<Rightarrow> instant \<Rightarrow> string \<Rightarrow> dict \<Rightarrow> stored_object" where
  "response_object c i actor t h body =
     \<lparr>so_id = i, so_api_version = ''mrr/v1alpha1'', so_kind = ''CorrectionResponse'',
      so_practice_id = cr_responding_practice_id c, so_revision = 1, so_created_at = t, so_created_by = actor,
      so_content_hash = h, so_supersedes = None, so_labels = None, so_body = dset ''content_hash'' (JStr h) body\<rparr>"

definition make_corrects_edge ::
  "env \<Rightarrow> call_ctx \<Rightarrow> urn \<Rightarrow> instant \<Rightarrow> urn \<times> urn \<Rightarrow> (world, typed_edge) prog" where
  "make_corrects_edge E ctx practice_id t adaptation =
     bindp (new_urn E ''edge'') (\<lambda>edge_id.
     ret \<lparr>te_id = edge_id, te_source_id = fst adaptation, te_target_id = snd adaptation,
          te_edge_type = ''corrects'', te_created_at = t, te_created_by = cx_actor ctx,
          te_scope = None, te_status = ''active'', te_practice_id = Some practice_id\<rparr>)"

definition record_response ::
  "env \<Rightarrow> correction_service \<Rightarrow> call_ctx \<Rightarrow> (urn \<Rightarrow> (world, bool) prog) \<Rightarrow> correction_response \<Rightarrow>
   (world, stored_object) prog" where
  "record_response E S ctx already_responded c =
     bindp (already_responded (cr_notification_id c)) (\<lambda>seen.
     bindp (guardp (\<not> seen) (CorrectionResponseAlreadyRecordedError (cr_notification_id c))) (\<lambda>_.
     bindp (mapp (\<lambda>a. get_latest (fst a)) (cr_adaptations c)) (\<lambda>_.
     bindp (guardp (cs_record_revision_with_edges S) ValueError) (\<lambda>_.
     bindp (new_urn E ''correction-response'') (\<lambda>response_id.
     bindp (now E) (\<lambda>t.
     let body = response_fields c response_id (cx_actor ctx) t in
     bindp (lift (compute_content_hash E body)) (\<lambda>h.
     bindp (lift (response_model_validate E c (dset ''content_hash'' (JStr h) body))) (\<lambda>_.
     bindp (mapp (make_corrects_edge E ctx (cr_responding_practice_id c) t) (cr_adaptations c)) (\<lambda>edges.
     bindp (make_event E ctx ''correction.response_recorded'' (ret t) (ret None) response_id 1
       [(''correction_notification_id'', JStr (cr_notification_id c)), (''decision'', JStr (cr_decision c)),
        (''adaptation_count'', JInt (int (length (cr_adaptations c))))]) (\<lambda>e.
     bindp (bind_revision_with_edges_unit_of_work E (response_object c response_id (cx_actor ctx) t h body)
       None edges e) (\<lambda>(stored, _, _).
     ret stored)))))))))))"

section \<open>Deliveries\<close>

definition append_delivery_event ::
  "env \<Rightarrow> correction_service \<Rightarrow> call_ctx \<Rightarrow> stored_object \<Rightarrow> urn \<Rightarrow> string \<Rightarrow> int \<Rightarrow> string \<Rightarrow> string \<Rightarrow> instant \<Rightarrow>
   (world, unit) prog" where
  "append_delivery_event E S ctx correction notification_id recipient attempt_number delivery_status channel t =
     bindp (require_record_event S) (\<lambda>_.
     bindp (make_event E ctx ''correction.notification_sent'' (ret t) (last_event_id_for (so_id correction))
       (so_id correction) (so_revision correction)
       [(''notification_id'', JStr notification_id), (''recipient_node_id'', JStr recipient),
        (''attempt_number'', JInt attempt_number), (''delivery_status'', JStr delivery_status),
        (''channel'', JStr channel)]) (\<lambda>e.
     bindp (record_event E (ret ()) e) (\<lambda>_.
     ret ())))"

text \<open>What every delivery method does first.\<close>

definition delivery_preamble ::
  "env \<Rightarrow> correction_service \<Rightarrow> urn \<Rightarrow> instant option \<Rightarrow> (world, delivery_store \<times> stored_object \<times> instant) prog" where
  "delivery_preamble E S correction_id at =
     bindp (require_delivery_pending_store S) (\<lambda>store.
     bindp (require_record_event S) (\<lambda>_.
     bindp (get_latest_or (CorrectionNotFoundError correction_id) correction_id) (\<lambda>latest.
     bindp (instant_or_now E at) (\<lambda>t.
     ret (store, latest, t)))))"

definition correction_open_pending_delivery ::
  "env \<Rightarrow> correction_service \<Rightarrow> call_ctx \<Rightarrow> urn \<Rightarrow> urn \<Rightarrow> string \<Rightarrow> instant \<Rightarrow> instant option \<Rightarrow> (world, bool) prog" where
  "correction_open_pending_delivery E S ctx correction_id notification_id recipient expires_at at =
     bindp (delivery_preamble E S correction_id at) (\<lambda>(store, latest, t).
     bindp (open_pending_delivery store recipient notification_id correction_id expires_at t) (\<lambda>newly_opened.
     bindp (if newly_opened
            then append_delivery_event E S ctx latest notification_id recipient 1 ''pending'' ''online'' t
            else ret ()) (\<lambda>_.
     ret newly_opened)))"

text \<open>\<^verbatim>\<open>EnvelopeTransport.send\<close>: the status of the outcome.\<close>

type_synonym transport = "envelope \<Rightarrow> string \<Rightarrow> (world, string) prog"

definition retry_pending_delivery_online ::
  "env \<Rightarrow> correction_service \<Rightarrow> call_ctx \<Rightarrow> urn \<Rightarrow> urn \<Rightarrow> string \<Rightarrow> envelope \<Rightarrow> transport \<Rightarrow> string \<Rightarrow> instant option \<Rightarrow>
   (world, delivery_pending_record) prog" where
  "retry_pending_delivery_online E S ctx correction_id notification_id recipient envelope send endpoint at =
     bindp (delivery_preamble E S correction_id at) (\<lambda>(store, latest, t).
     bindp (send envelope endpoint) (\<lambda>status.
     bindp (record_retry_attempt store recipient notification_id status t) (\<lambda>row.
     bindp (append_delivery_event E S ctx latest notification_id recipient (pd_attempt_count row) (pd_status row)
       ''online'' t) (\<lambda>_.
     ret row))))"

text \<open>The arguments that only the offline bundle takes.\<close>

record parcel_args =
  pa_bundle_id :: urn
  pa_bundle_nonce :: string
  pa_sender_node_id :: urn
  pa_sender_practice_id :: urn
  pa_created_at :: instant
  pa_expires_at :: instant
  pa_signing_key :: bytes
  pa_signing_key_id :: string
  pa_encryption :: "bundle_encryption option"

definition retry_pending_delivery_offline ::
  "env \<Rightarrow> correction_service \<Rightarrow> call_ctx \<Rightarrow> urn \<Rightarrow> urn \<Rightarrow> string \<Rightarrow> envelope \<Rightarrow> parcel_args \<Rightarrow> instant option \<Rightarrow>
   (world, offline_bundle \<times> delivery_pending_record) prog" where
  "retry_pending_delivery_offline E S ctx correction_id notification_id recipient envelope p at =
     bindp (delivery_preamble E S correction_id at) (\<lambda>(store, latest, t).
     bindp (lift (build_outbox_bundle E [envelope] (pa_bundle_id p) (pa_bundle_nonce p) (pa_sender_node_id p)
       (pa_sender_practice_id p) recipient (pa_created_at p) (pa_expires_at p) (pa_signing_key p)
       (pa_signing_key_id p) (pa_encryption p) None ''Ed25519'')) (\<lambda>parcel.
     bindp (record_retry_attempt store recipient notification_id ''failed'' t) (\<lambda>row.
     bindp (append_delivery_event E S ctx latest notification_id recipient (pd_attempt_count row) (pd_status row)
       ''offline_bundle'' t) (\<lambda>_.
     ret (parcel, row)))))"

definition mark_pending_delivery_delivered ::
  "env \<Rightarrow> correction_service \<Rightarrow> call_ctx \<Rightarrow> urn \<Rightarrow> urn \<Rightarrow> string \<Rightarrow> string \<Rightarrow> instant option \<Rightarrow>
   (world, delivery_pending_record) prog" where
  "mark_pending_delivery_delivered E S ctx correction_id notification_id recipient channel at =
     bindp (delivery_preamble E S correction_id at) (\<lambda>(store, latest, t).
     bindp (record_retry_attempt store recipient notification_id ''delivered'' t) (\<lambda>row.
     bindp (append_delivery_event E S ctx latest notification_id recipient (pd_attempt_count row) ''delivered''
       channel t) (\<lambda>_.
     ret row)))"

definition mark_pending_delivery_exhausted ::
  "env \<Rightarrow> correction_service \<Rightarrow> call_ctx \<Rightarrow> urn \<Rightarrow> urn \<Rightarrow> string \<Rightarrow> string \<Rightarrow> string \<Rightarrow> instant option \<Rightarrow>
   (world, delivery_pending_record) prog" where
  "mark_pending_delivery_exhausted E S ctx correction_id notification_id recipient reason channel at =
     bindp (delivery_preamble E S correction_id at) (\<lambda>(store, latest, t).
     bindp (mark_exhausted recipient notification_id reason t) (\<lambda>row.
     bindp (append_delivery_event E S ctx latest notification_id recipient (pd_attempt_count row) ''exhausted''
       channel t) (\<lambda>_.
     ret row)))"

end
