(* ===== verification/Correction_Properties.thy ===== *)
theory Correction_Properties
  imports Correction_Service Claim_Properties Obligation_Properties Contract_Samples
begin

text \<open>
  What holds of corrections: propagation writes exactly the impact of the correction and leaves no
  impacted claim unreviewed, whatever state it finds; a response is recorded as it was given, with
  its edges.
\<close>

section \<open>Sending claims back to review\<close>

definition review_settled :: "db \<Rightarrow> urn \<Rightarrow> bool" where
  "review_settled d i \<longleftrightarrow>
     history_of d i = [] \<or> so_kind (last (history_of d i)) \<noteq> ''Claim'' \<or>
     status_of (last (history_of d i)) \<in> Some ` review_satisfied_statuses"

lemma find_latest_run:
  "objects_ok (w_db w) \<Longrightarrow> find_latest i w = (Inr (last_opt (history_of (w_db w) i)), w)"
  by (simp add: find_latest_def bindp_def catchp_def get_latest_run ret_run split: option.split)

lemma satisfied_iff:
  "map_of (so_body r) ''status'' \<in> (\<lambda>s. Some (JStr s)) ` S \<longleftrightarrow> status_of r \<in> Some ` S"
  by (auto simp: status_of_Some image_iff)

lemma review_settled_run:
  "objects_ok (w_db w) \<Longrightarrow> review_settled (w_db w) i \<Longrightarrow> require_review_if_needed E ctx i w = (Inr (), w)"
  by (auto simp: require_review_if_needed_def bindp_def find_latest_run ret_run review_settled_def last_opt_def
      satisfied_iff)

text \<open>What one review does, and what a loop of them does.\<close>

definition reviewed :: "urn set \<Rightarrow> db \<Rightarrow> db \<Rightarrow> bool" where
  "reviewed I d d' \<longleftrightarrow> edges_tbl d' = edges_tbl d \<and>
     (\<forall>j. history_of d' j = history_of d j \<or>
       (j \<in> I \<and> \<not> review_settled d j \<and>
        (\<exists>r. history_of d' j = history_of d j @ [r] \<and> so_kind r = ''Claim'' \<and> status_of r = Some ''review_required'')))"

lemma reviewed_settled: "reviewed I d d' \<Longrightarrow> review_settled d j \<Longrightarrow> review_settled d' j"
  unfolding reviewed_def by (metis review_settled_def)

lemma reviewed_now_settled:
  "history_of d' j = history_of d j @ [r] \<Longrightarrow> so_kind r = ''Claim'' \<Longrightarrow> status_of r = Some ''review_required'' \<Longrightarrow>
     review_settled d' j"
  by (simp add: review_settled_def review_satisfied_statuses_def)

lemma require_review_Inr:
  assumes ok: "world_ok E w" and run: "require_review_if_needed E ctx i w = (Inr u, w')"
  shows "world_ok E w' \<and> reviewed {i} (w_db w) (w_db w') \<and> review_settled (w_db w') i"
proof (cases "review_settled (w_db w) i")
  case True
  with review_settled_run [OF world_ok_parts(2) [OF ok] True, of E ctx] run have "w' = w" by simp
  with True ok show ?thesis by (simp add: reviewed_def)
next
  case False
  let ?l = "last (history_of (w_db w) i)"
  have ne: "history_of (w_db w) i \<noteq> []" and k: "so_kind ?l = ''Claim''"
    and st: "status_of ?l \<notin> Some ` review_satisfied_statuses" using False unfolding review_settled_def by blast+
  from run ne k st obtain r where rr: "require_review E ctx i w = (Inr r, w')"
    by (auto simp: require_review_if_needed_def bindp_def find_latest_run [OF world_ok_parts(2) [OF ok]] last_opt_def
        satisfied_iff ret_run split: sum.splits prod.splits)
  from transition_claim_Inr [OF ok rr [unfolded require_review_def]] obtain e latest where
    c: "committed E [r] [] e w w'" and la: "latest = ?l" and r0: "so_id r = i" "so_kind r = so_kind latest"
      "status_of r = Some ''review_required''"
    by (elim exE conjE) (rule that)
  note r = r0 [unfolded la]
  have h: "history_of (w_db w') j = history_of (w_db w) j @ (if j = i then [r] else [])" for j
    using committed_tables(1) [OF c] r(1) by (simp add: history_of_def)
  have "reviewed {i} (w_db w) (w_db w')"
    unfolding reviewed_def using committed_tables(2) [OF c] h r k False by auto
  moreover have "review_settled (w_db w') i" by (rule reviewed_now_settled [of _ _ _ r]) (simp_all add: h r k)
  ultimately show ?thesis using committed_tables(3) [OF c] by blast
qed

lemma reviewed_trans:
  assumes a: "reviewed {i} d d1" and s: "review_settled d1 i" and b: "reviewed I d1 d2"
  shows "reviewed (insert i I) d d2"
  unfolding reviewed_def
proof (intro conjI allI)
  show "edges_tbl d2 = edges_tbl d" using a b by (simp add: reviewed_def)
  fix j
  have a': "history_of d1 j = history_of d j \<or> (j = i \<and> \<not> review_settled d j \<and>
      (\<exists>r. history_of d1 j = history_of d j @ [r] \<and> so_kind r = ''Claim'' \<and> status_of r = Some ''review_required''))"
    using a unfolding reviewed_def by blast
  have b': "history_of d2 j = history_of d1 j \<or> (j \<in> I \<and> \<not> review_settled d1 j \<and>
      (\<exists>r. history_of d2 j = history_of d1 j @ [r] \<and> so_kind r = ''Claim'' \<and> status_of r = Some ''review_required''))"
    using b unfolding reviewed_def by blast
  show "history_of d2 j = history_of d j \<or> (j \<in> insert i I \<and> \<not> review_settled d j \<and>
      (\<exists>r. history_of d2 j = history_of d j @ [r] \<and> so_kind r = ''Claim'' \<and> status_of r = Some ''review_required''))"
  proof (cases "j = i")
    case True
    with b' s have "history_of d2 j = history_of d1 j" by blast
    with a' True show ?thesis by auto
  next
    case False
    with a' have h: "history_of d1 j = history_of d j" by blast
    then have "review_settled d1 j = review_settled d j" by (simp add: review_settled_def)
    with b' h show ?thesis by auto
  qed
qed

lemma review_all_Inr:
  assumes "world_ok E w" and "mapp (require_review_if_needed E ctx) is w = (Inr us, w')"
  shows "world_ok E w' \<and> reviewed (set is) (w_db w) (w_db w') \<and> (\<forall>i \<in> set is. review_settled (w_db w') i)"
  using assms
proof (induction "is" arbitrary: w us)
  case Nil
  then show ?case by (simp add: ret_run reviewed_def)
next
  case (Cons i "is")
  from Cons.prems(2) obtain u us1 w1 where s1: "require_review_if_needed E ctx i w = (Inr u, w1)"
    and s2: "mapp (require_review_if_needed E ctx) is w1 = (Inr us1, w')"
    by (auto simp: elim!: bindp_InrE ret_InrE)
  note a = require_review_Inr [OF Cons.prems(1) s1]
  note b = Cons.IH [OF conjunct1 [OF a] s2]
  have "review_settled (w_db w') i" using a b reviewed_settled by blast
  with a b reviewed_trans [of i "w_db w" "w_db w1" "set is" "w_db w'"] show ?case by simp
qed

lemma review_all_rest:
  assumes "objects_ok (w_db w)" and "\<forall>i \<in> set is. review_settled (w_db w) i"
  shows "\<exists>us. mapp (require_review_if_needed E ctx) is w = (Inr us, w)"
  using assms(2)
  by (induction "is") (auto simp: ret_run bindp_def review_settled_run [OF assms(1)])

section \<open>Propagation\<close>

definition impact_written :: "stored_object \<Rightarrow> urn list \<Rightarrow> stored_object \<Rightarrow> bool" where
  "impact_written l ids r \<longleftrightarrow>
     so_id r = so_id l \<and> so_kind r = so_kind l \<and> so_revision r = so_revision l + 1 \<and>
     map_of (so_body r) ''impact_objects'' = Some (JArr (map JStr ids)) \<and>
     (\<forall>k. k \<notin> {''impact_objects''} \<union> bookkeeping \<longrightarrow> map_of (so_body r) k = map_of (so_body l) k)"

lemma write_impact_Inr:
  assumes ok: "world_ok E w" and run: "write_impact_objects E ctx latest impacted w = (Inr r, w')"
  shows "\<exists>e. committed E [r] [] e w w' \<and> announces e [r] \<and> de_event_type e = ''correction.impact_computed'' \<and>
    impact_written latest (sorted_set impacted) r"
proof -
  define ids where "ids = sorted_set impacted"
  from run [unfolded write_impact_objects_def case_prod_beta, folded ids_def] obtain t w1 hb u e w2 sa where
    n1: "now E w = (Inr t, w1)"
    and n2: "finish_body E (so_revision latest + 1) t (cx_actor ctx)
       (dset ''impact_objects'' (JArr (map JStr ids)) (so_body latest)) = Inr hb"
    and n3: "correction_model_validate E (snd hb) = Inr u"
    and n4: "make_event E ctx ''correction.impact_computed'' (ret t) (last_event_id_for (so_id latest)) (so_id latest)
       (so_revision latest + 1) [(''impact_objects'', JArr (map JStr ids))] w1 = (Inr e, w2)"
    and n5: "bind_unit_of_work E (next_object latest (so_revision latest + 1) t (cx_actor ctx) (fst hb) (snd hb))
       (Some (so_revision latest)) e w2 = (Inr sa, w')" and r: "r = fst sa"
    by (elim bindp_InrE lift_InrE ret_InrE) (hypsubst+, rule that, (assumption | rule refl)+)
  obtain h bb where hb: "hb = (h, bb)" by fastforce
  obtain s a where sa: "sa = (s, a)" by fastforce
  note ev = make_event_Inr [OF n4 keeps_same_pure(1) readonly_last_event]
  have k: "same_db w w2" using keepsD [OF readonly_now n1] ev by (blast intro: transpD [OF transp_same_db])
  have eo: "event_ok e" using ev by blast
  note u = unit_of_work_Inr [OF world_ok_same_db [OF ok k] eo n5 [unfolded sa hb fst_conv snd_conv]]
  have rr: "r = next_object latest (so_revision latest + 1) t (cx_actor ctx) h bb" using u r sa by simp
  have com: "committed E [r] [] e w w'" using u committed_from [OF k] rr by auto
  note fb = finish_body_Inr [OF n2 [unfolded hb]]
  have "impact_written latest ids r"
    unfolding impact_written_def bookkeeping_def rr by (intro conjI allI impI) (simp_all add: fb(5))
  with com ev rr show ?thesis unfolding ids_def by (intro exI [of _ e]) (simp add: announces_def)
qed

lemma affected_cong:
  "map_of b ''affected_objects'' = map_of b' ''affected_objects'' \<Longrightarrow> affected_ids b = affected_ids b'"
  by (simp add: affected_ids_def dget_def)

lemma gather_run:
  "gather_impact_edges seeds w = (Inr (gather_loop (edges_tbl (w_db w)) [] [] seeds), w)"
  by (simp add: gather_impact_edges_def asks_run)

text \<open>The impact of a correction: everything from which an affected object can be reached.\<close>

definition impact_list :: "db \<Rightarrow> urn list \<Rightarrow> urn list" where
  "impact_list d seeds = compute_impact seeds (gather_loop (edges_tbl d) [] [] seeds)"

lemma set_impact_list: "set (impact_list d seeds) = binding_closure d seeds"
  using gather_binding(2) [OF gather_run, of seeds "w\<lparr>w_db := d\<rparr>" for w]
  by (simp add: impact_list_def compute_obligation_binding_def)

lemma propagate_steps:
  assumes ok: "world_ok E w" and ad: "addressable ''CorrectionEvent'' (w_db w) i"
    and run: "propagate_impact E ctx i w = (Inr r, w')"
  obtains seeds current w1 where "history_of (w_db w) i \<noteq> []"
    and "affected_ids (so_body (last (history_of (w_db w) i))) = Inr seeds"
    and "impact_objects_of (so_body (last (history_of (w_db w) i))) = Inr current"
    and "world_ok E w1" and "edges_tbl (w_db w1) = edges_tbl (w_db w)"
    and "\<And>j. j \<noteq> i \<Longrightarrow> history_of (w_db w1) j = history_of (w_db w) j"
    and "if set current = binding_closure (w_db w) seeds
      then r = last (history_of (w_db w) i) \<and> history_of (w_db w1) i = history_of (w_db w) i
      else impact_written (last (history_of (w_db w) i)) (sorted_set (impact_list (w_db w) seeds)) r \<and>
        history_of (w_db w1) i = history_of (w_db w) i @ [r]"
    and "reviewed (binding_closure (w_db w) seeds) (w_db w1) (w_db w')"
    and "\<forall>j \<in> binding_closure (w_db w) seeds. review_settled (w_db w') j" and "world_ok E w'"
proof -
  from run [unfolded propagate_impact_def Let_def] obtain latest v1 seeds edges v2 current r' v3 us where
    s1: "get_latest_or (CorrectionNotFoundError i) i w = (Inr latest, v1)"
    and sd: "affected_ids (so_body latest) = Inr seeds"
    and s2: "gather_impact_edges seeds v1 = (Inr edges, v2)"
    and cu: "impact_objects_of (so_body latest) = Inr current"
    and s3: "(if set (compute_impact seeds edges) \<noteq> set current
       then write_impact_objects E ctx latest (compute_impact seeds edges) else ret latest) v2 = (Inr r', v3)"
    and s4: "mapp (require_review_if_needed E ctx) (sorted_set (compute_impact seeds edges)) v3 = (Inr us, w')"
    and r': "r = r'"
    by (elim bindp_InrE lift_InrE ret_InrE) (hypsubst+, rule that, (assumption | rule refl)+)
  note l = get_latest_or_Inr [OF world_ok_parts(2) [OF ok] s1]
  have v1: "v1 = w" and la: "latest = last (history_of (w_db w) i)" and ne: "history_of (w_db w) i \<noteq> []"
    and li: "so_id latest = i" using l by blast+
  have v2: "v2 = w" and edges: "edges = gather_loop (edges_tbl (w_db w)) [] [] seeds"
    using s2 unfolding v1 gather_run by auto
  have imp: "compute_impact seeds edges = impact_list (w_db w) seeds" by (simp add: impact_list_def edges)
  have S: "set (impact_list (w_db w) seeds) = binding_closure (w_db w) seeds" by (rule set_impact_list)
  note s3' = s3 [unfolded imp v2]
  note s4' = s4 [unfolded imp]
  have mid: "world_ok E v3 \<and> edges_tbl (w_db v3) = edges_tbl (w_db w) \<and>
    (\<forall>j. j \<noteq> i \<longrightarrow> history_of (w_db v3) j = history_of (w_db w) j) \<and>
    (if set current = binding_closure (w_db w) seeds
      then r = latest \<and> history_of (w_db v3) i = history_of (w_db w) i
      else impact_written latest (sorted_set (impact_list (w_db w) seeds)) r \<and>
        history_of (w_db v3) i = history_of (w_db w) i @ [r])"
  proof (cases "set current = binding_closure (w_db w) seeds")
    case True
    with s3' S have "r' = latest" "v3 = w" by (simp_all add: ret_run)
    with True ok r' show ?thesis by simp
  next
    case False
    with s3' S have "write_impact_objects E ctx latest (impact_list (w_db w) seeds) w = (Inr r, v3)"
      unfolding r' by (simp split: if_splits)
    from write_impact_Inr [OF ok this] obtain e where c: "committed E [r] [] e w v3"
      and iw: "impact_written latest (sorted_set (impact_list (w_db w) seeds)) r" by blast
    have "so_id r = i" using iw li by (simp add: impact_written_def)
    with c iw False show ?thesis using committed_tables [OF c] by (auto simp: history_of_def)
  qed
  have m1: "world_ok E v3" using mid by blast
  note rv = review_all_Inr [OF m1 s4']
  have rv2: "reviewed (binding_closure (w_db w) seeds) (w_db v3) (w_db w')"
    "\<forall>j \<in> binding_closure (w_db w) seeds. review_settled (w_db w') j" "world_ok E w'"
    using rv unfolding set_sorted_set S by blast+
  from mid have m2: "edges_tbl (w_db v3) = edges_tbl (w_db w)"
    and m3: "\<And>j. j \<noteq> i \<Longrightarrow> history_of (w_db v3) j = history_of (w_db w) j"
    and m4: "if set current = binding_closure (w_db w) seeds
      then r = latest \<and> history_of (w_db v3) i = history_of (w_db w) i
      else impact_written latest (sorted_set (impact_list (w_db w) seeds)) r \<and>
        history_of (w_db v3) i = history_of (w_db w) i @ [r]" by blast+
  show thesis by (rule that [OF ne sd [unfolded la] cu [unfolded la] m1 m2 m3 m4 [unfolded la] rv2])
qed

text \<open>
  C9. Propagation reaches every impacted claim and then rests. When \<^verbatim>\<open>propagate_impact\<close> returns,
  the latest revision of the correction lists exactly the impact of its affected objects over the
  stored edges, and every object of that impact that is stored as a claim is in review, withdrawn
  or superseded; no other object gained a revision, a claim gained at most one, and no edge was
  written. A second call, by anyone, returns the same revision and changes nothing.
\<close>

theorem propagate_reviews_the_impact:
  assumes ok: "world_ok E w" and ad: "addressable ''CorrectionEvent'' (w_db w) i"
    and run: "propagate_impact E ctx i w = (Inr r, w')"
  shows "\<exists>seeds ids. affected_ids (so_body (last (history_of (w_db w) i))) = Inr seeds \<and>
    r = last (history_of (w_db w') i) \<and> affected_ids (so_body r) = Inr seeds \<and>
    impact_objects_of (so_body r) = Inr ids \<and> set ids = binding_closure (w_db w) seeds \<and>
    (\<forall>j \<in> binding_closure (w_db w) seeds. review_settled (w_db w') j) \<and>
    edges_tbl (w_db w') = edges_tbl (w_db w) \<and>
    (\<forall>j. j \<noteq> i \<longrightarrow> history_of (w_db w') j = history_of (w_db w) j \<or>
       (j \<in> binding_closure (w_db w) seeds \<and> \<not> review_settled (w_db w) j \<and>
        (\<exists>c. history_of (w_db w') j = history_of (w_db w) j @ [c] \<and> so_kind c = ''Claim'' \<and>
           status_of c = Some ''review_required''))) \<and>
    (\<forall>ctx'. propagate_impact E ctx' i w' = (Inr r, w'))"
  using ok ad run
proof (rule propagate_steps)
  fix seeds current w1
  let ?l = "last (history_of (w_db w) i)" and ?B = "binding_closure (w_db w) seeds"
  assume ne: "history_of (w_db w) i \<noteq> []" and sd: "affected_ids (so_body ?l) = Inr seeds"
    and cu: "impact_objects_of (so_body ?l) = Inr current" and ok1: "world_ok E w1"
    and e1: "edges_tbl (w_db w1) = edges_tbl (w_db w)"
    and h1: "\<And>j. j \<noteq> i \<Longrightarrow> history_of (w_db w1) j = history_of (w_db w) j"
    and i1: "if set current = ?B then r = ?l \<and> history_of (w_db w1) i = history_of (w_db w) i
      else impact_written ?l (sorted_set (impact_list (w_db w) seeds)) r \<and> history_of (w_db w1) i = history_of (w_db w) i @ [r]"
    and rv: "reviewed ?B (w_db w1) (w_db w')" and st: "\<forall>j \<in> ?B. review_settled (w_db w') j" and ok': "world_ok E w'"
  have kl: "so_kind ?l = ''CorrectionEvent''" using ad ne unfolding addressable_def by simp
  have kr: "so_kind r = ''CorrectionEvent''" using i1 kl by (auto simp: impact_written_def split: if_splits)
  have l1: "last (history_of (w_db w1) i) = r" "history_of (w_db w1) i \<noteq> []" using i1 ne by (auto split: if_splits)
  have "review_settled (w_db w1) i" using l1 kr by (simp add: review_settled_def)
  with rv have hi: "history_of (w_db w') i = history_of (w_db w1) i" unfolding reviewed_def by blast
  have lr: "r = last (history_of (w_db w') i)" "history_of (w_db w') i \<noteq> []" using l1 hi by simp_all
  have sr: "affected_ids (so_body r) = Inr seeds"
  proof (cases "set current = ?B")
    case True
    with i1 sd show ?thesis by simp
  next
    case False
    with i1 have "impact_written ?l (sorted_set (impact_list (w_db w) seeds)) r" by simp
    then have "map_of (so_body r) ''affected_objects'' = map_of (so_body ?l) ''affected_objects''"
      by (simp add: impact_written_def bookkeeping_def)
    with sd show ?thesis using affected_cong by metis
  qed
  obtain ids where ids: "impact_objects_of (so_body r) = Inr ids" "set ids = ?B"
  proof (cases "set current = ?B")
    case True
    with i1 cu that show thesis by simp
  next
    case False
    with i1 have "map_of (so_body r) ''impact_objects'' = Some (JArr (map JStr (sorted_set (impact_list (w_db w) seeds))))"
      by (simp add: impact_written_def)
    then have "impact_objects_of (so_body r) = Inr (sorted_set (impact_list (w_db w) seeds))"
      by (simp add: impact_objects_of_def)
    with that show thesis by (simp add: set_impact_list)
  qed
  have ed: "edges_tbl (w_db w') = edges_tbl (w_db w)" using rv e1 by (simp add: reviewed_def)
  have others: "history_of (w_db w') j = history_of (w_db w) j \<or>
       (j \<in> ?B \<and> \<not> review_settled (w_db w) j \<and>
        (\<exists>c. history_of (w_db w') j = history_of (w_db w) j @ [c] \<and> so_kind c = ''Claim'' \<and>
           status_of c = Some ''review_required''))" if "j \<noteq> i" for j
  proof -
    have "review_settled (w_db w1) j = review_settled (w_db w) j" by (simp add: review_settled_def h1 [OF that])
    with rv h1 [OF that] show ?thesis unfolding reviewed_def by metis
  qed
  have again: "propagate_impact E ctx' i w' = (Inr r, w')" for ctx'
  proof -
    have g: "get_latest_or (CorrectionNotFoundError i) i w' = (Inr r, w')"
      using get_latest_or_run [OF world_ok_parts(2) [OF ok'] lr(2)] lr(1) by simp
    have im: "compute_impact seeds (gather_loop (edges_tbl (w_db w')) [] [] seeds) = impact_list (w_db w) seeds"
      by (simp add: impact_list_def ed)
    have "\<forall>j \<in> set (sorted_set (impact_list (w_db w) seeds)). review_settled (w_db w') j"
      using st by (simp add: set_impact_list)
    from review_all_rest [OF world_ok_parts(2) [OF ok'] this] obtain us where
      us: "mapp (require_review_if_needed E ctx') (sorted_set (impact_list (w_db w) seeds)) w' = (Inr us, w')" by blast
    show ?thesis
      using g sr ids us by (simp add: propagate_impact_def Let_def bindp_def lift_run gather_run im set_impact_list ret_run)
  qed
  show ?thesis
    by (rule exI [of _ seeds], rule exI [of _ ids]) (intro conjI sd lr(1) sr ids st ed allI impI others again)
qed

section \<open>Responses\<close>

definition corrects :: "(urn \<times> urn) list \<Rightarrow> typed_edge list \<Rightarrow> bool" where
  "corrects adaptations es \<longleftrightarrow> map (\<lambda>e. (te_source_id e, te_target_id e)) es = adaptations \<and>
     list_all (\<lambda>e. te_edge_type e = ''corrects'' \<and> te_status e = ''active'') es"

lemma readonly_corrects_edge [readonly]: "keeps same_db (make_corrects_edge E ctx p t a)"
  unfolding make_corrects_edge_def by (intro readonly)

lemma corrects_edges_Inr:
  assumes "mapp (make_corrects_edge E ctx p t) as w = (Inr es, w')"
  shows "same_db w w' \<and> corrects as es"
proof
  have "keeps same_db (mapp (make_corrects_edge E ctx p t) as)" by (intro readonly)
  then show "same_db w w'" using assms by (rule keepsD)
  show "corrects as es"
    using assms
  proof (induction as arbitrary: w es)
    case Nil
    then show ?case by (simp add: ret_run corrects_def)
  next
    case (Cons a as)
    from Cons.prems obtain e es1 w1 where e: "make_corrects_edge E ctx p t a w = (Inr e, w1)"
      and es: "mapp (make_corrects_edge E ctx p t) as w1 = (Inr es1, w')" "es = e # es1"
      by (auto simp: elim!: bindp_InrE ret_InrE)
    have "(te_source_id e, te_target_id e) = a" "te_edge_type e = ''corrects''" "te_status e = ''active''"
      using e by (auto simp: make_corrects_edge_def elim!: bindp_InrE ret_InrE)
    with Cons.IH [OF es(1)] es(2) show ?case by (simp add: corrects_def)
  qed
qed

lemma stored_adaptations:
  assumes "objects_ok (w_db w)" and "mapp (\<lambda>a. get_latest (fst a)) as w = (Inr rs, w')"
  shows "w' = w \<and> list_all (\<lambda>a. history_of (w_db w) (fst a) \<noteq> []) as"
  using assms(2)
proof (induction as arbitrary: rs)
  case Nil
  then show ?case by (simp add: ret_run)
next
  case (Cons a as)
  from Cons.prems obtain r rs1 w1 where r: "get_latest (fst a) w = (Inr r, w1)"
    and rs: "mapp (\<lambda>a. get_latest (fst a)) as w1 = (Inr rs1, w')"
    by (auto simp: elim!: bindp_InrE ret_InrE)
  have "w1 = w" "history_of (w_db w) (fst a) \<noteq> []" using get_latest_Inr [OF assms(1) r] by blast+
  with Cons.IH rs show ?case by simp
qed

lemma readonly_get_latest_fst [readonly]: "keeps same_db (mapp (\<lambda>a. get_latest (fst a)) as)"
  by (intro readonly)

lemma record_response_aon:
  assumes "keeps same_db (already (cr_notification_id c))"
  shows "all_or_nothing (record_response E S ctx already c)"
  unfolding record_response_def case_prod_beta Let_def
  by (intro aon_bindp aon_ret aon_units readonly assms)

text \<open>What \<^verbatim>\<open>CorrectionResponse\<close> accepts.\<close>

definition response_valid :: "correction_response \<Rightarrow> bool" where
  "response_valid c \<longleftrightarrow> reason_required_iff_reject_or_defer c \<and> adaptations_required_iff_adapt c \<and>
     adaptations_reference_notified c"

lemma response_fields_simps [simp]:
  "map_of (response_fields c i a t) ''decision'' = Some (JStr (cr_decision c))"
  "map_of (response_fields c i a t) ''correction_notification_id'' = Some (JStr (cr_notification_id c))"
  by (simp_all add: response_fields_def Let_def case_dset)

text \<open>
  C28. A response is recorded as it was given, once, or not at all. A failing call writes nothing;
  where the notification already has a response the call fails for that reason. A successful call
  stores one new object, in its first revision, with its decision and its notification, together
  with its event, and exactly one active edge from every adapted object, all of which are stored,
  to the notified object it corrects; and the contract holds: a reason exactly for rejections and
  deferrals, adaptations exactly for adaptation, and only of objects the notification named.
\<close>

theorem record_response_exact:
  assumes ok: "world_ok E w" and ro: "keeps same_db (already (cr_notification_id c))"
    and run: "record_response E S ctx already c w = (q, w')"
  shows "(\<forall>v. already (cr_notification_id c) w = (Inr True, v) \<longrightarrow>
      q = Inl (CorrectionResponseAlreadyRecordedError (cr_notification_id c))) \<and>
    (case q of Inl x \<Rightarrow> same_db w w'
     | Inr r \<Rightarrow>
         (\<exists>v. already (cr_notification_id c) w = (Inr False, v)) \<and> response_valid c \<and>
         history_of (w_db w) (so_id r) = [] \<and> so_revision r = 1 \<and> so_kind r = ''CorrectionResponse'' \<and>
         map_of (so_body r) ''decision'' = Some (JStr (cr_decision c)) \<and>
         map_of (so_body r) ''correction_notification_id'' = Some (JStr (cr_notification_id c)) \<and>
         list_all (\<lambda>a. history_of (w_db w) (fst a) \<noteq> []) (cr_adaptations c) \<and>
         (\<exists>es e. committed E [r] es e w w' \<and> announces e [r] \<and> corrects (cr_adaptations c) es \<and>
            de_event_type e = ''correction.response_recorded'' \<and> de_actor e = cx_actor ctx))"
proof (intro conjI allI impI)
  fix v assume "already (cr_notification_id c) w = (Inr True, v)"
  with run show "q = Inl (CorrectionResponseAlreadyRecordedError (cr_notification_id c))"
    by (simp add: record_response_def bindp_def guardp_run)
next
  show "case q of Inl x \<Rightarrow> same_db w w'
     | Inr r \<Rightarrow>
         (\<exists>v. already (cr_notification_id c) w = (Inr False, v)) \<and> response_valid c \<and>
         history_of (w_db w) (so_id r) = [] \<and> so_revision r = 1 \<and> so_kind r = ''CorrectionResponse'' \<and>
         map_of (so_body r) ''decision'' = Some (JStr (cr_decision c)) \<and>
         map_of (so_body r) ''correction_notification_id'' = Some (JStr (cr_notification_id c)) \<and>
         list_all (\<lambda>a. history_of (w_db w) (fst a) \<noteq> []) (cr_adaptations c) \<and>
         (\<exists>es e. committed E [r] es e w w' \<and> announces e [r] \<and> corrects (cr_adaptations c) es \<and>
            de_event_type e = ''correction.response_recorded'' \<and> de_actor e = cx_actor ctx)"
  proof (cases q)
    case (Inl x)
    with record_response_aon [where already = already and c = c, OF ro] run show ?thesis unfolding all_or_nothing_def by auto
  next
    case (Inr r)
    from run [unfolded Inr record_response_def case_prod_beta Let_def] obtain seen w1 rs w2 i w3 t w4 h u es w5 e w6 sa where
      s1: "already (cr_notification_id c) w = (Inr seen, w1)" and ns: "\<not> seen"
      and s2: "mapp (\<lambda>a. get_latest (fst a)) (cr_adaptations c) w1 = (Inr rs, w2)"
      and s3: "new_urn E ''correction-response'' w2 = (Inr i, w3)" and s4: "now E w3 = (Inr t, w4)"
      and v: "response_model_validate E c (dset ''content_hash'' (JStr h) (response_fields c i (cx_actor ctx) t)) = Inr u"
      and s5: "mapp (make_corrects_edge E ctx (cr_responding_practice_id c) t) (cr_adaptations c) w4 = (Inr es, w5)"
      and s6: "make_event E ctx ''correction.response_recorded'' (ret t) (ret None) i 1
       [(''correction_notification_id'', JStr (cr_notification_id c)), (''decision'', JStr (cr_decision c)),
        (''adaptation_count'', JInt (int (length (cr_adaptations c))))] w5 = (Inr e, w6)"
      and s7: "bind_revision_with_edges_unit_of_work E
        (response_object c i (cx_actor ctx) t h (response_fields c i (cx_actor ctx) t)) None es e w6 = (Inr sa, w')"
      and r: "r = fst sa"
      by (elim bindp_InrE guardp_InrE lift_InrE ret_InrE) (hypsubst+, rule that, (assumption | rule refl)+)
    have k1: "same_db w w1" by (rule keepsD [OF ro s1])
    have db1: "w_db w1 = w_db w" using k1 by (simp add: same_db_def)
    have sa2: "w2 = w1" "list_all (\<lambda>a. history_of (w_db w) (fst a) \<noteq> []) (cr_adaptations c)"
      using stored_adaptations [OF _ s2] world_ok_parts(2) [OF ok] unfolding db1 by blast+
    note ed = corrects_edges_Inr [OF s5]
    note ev = make_event_Inr [OF s6 keeps_same_pure(1) keeps_same_pure(1)]
    have k: "same_db w w6"
      using k1 keepsD [OF readonly_new_urn s3] keepsD [OF readonly_now s4] ed ev unfolding sa2(1)
      by (blast intro: transpD [OF transp_same_db])
    have eo: "event_ok e" using ev by blast
    obtain s es' a where sa: "sa = (s, es', a)" by (metis prod.exhaust)
    note u = revision_with_edges_Inr [OF world_ok_same_db [OF ok k] eo s7 [unfolded sa]]
    have rr: "r = response_object c i (cx_actor ctx) t h (response_fields c i (cx_actor ctx) t)" using u r sa by simp
    have com: "committed E [r] es e w w'" using u committed_from [OF k] rr by auto
    have ri: "so_id r = i" "so_revision r = 1" "so_kind r = ''CorrectionResponse''" by (simp_all add: rr response_object_def)
    have hist: "history_of (w_db w) (so_id r) = []"
      using u k ri by (auto simp: current_revision_def same_db_def response_object_def split: if_splits)
    have body: "map_of (so_body r) ''decision'' = Some (JStr (cr_decision c))"
      "map_of (so_body r) ''correction_notification_id'' = Some (JStr (cr_notification_id c))"
      by (simp_all add: rr response_object_def)
    have val: "response_valid c" using v by (simp add: response_model_validate_def response_valid_def split: if_splits)
    have an: "announces e [r]" using ev ri by (simp add: announces_def)
    have s1': "already (cr_notification_id c) w = (Inr False, w1)" using s1 ns by simp
    have "\<exists>es e. committed E [r] es e w w' \<and> announces e [r] \<and> corrects (cr_adaptations c) es \<and>
            de_event_type e = ''correction.response_recorded'' \<and> de_actor e = cx_actor ctx"
      using com an ed ev by blast
    with s1' val hist ri body sa2(2) Inr show ?thesis by auto
  qed
qed

section \<open>Propagation completes\<close>

text \<open>The next \<open>k\<close> event ids are new and different from each other.\<close>

definition open_ids :: "env \<Rightarrow> world \<Rightarrow> nat \<Rightarrow> bool" where
  "open_ids E w k \<longleftrightarrow> inj_on (event_id_at E) {w_ticks w..<w_ticks w + k} \<and>
     (\<forall>n \<in> {w_ticks w..<w_ticks w + k}. event_id_at E n \<notin> set (event_ids (w_db w)))"

lemma open_ids_fresh: "open_ids E w (k + 3) \<Longrightarrow> event_id_at E (Suc (w_ticks w)) \<notin> set (event_ids (w_db w))"
  by (simp add: open_ids_def)

lemma open_ids_step:
  assumes o: "open_ids E w (k + 3)" and t: "w_ticks w' = w_ticks w + 3"
    and ids: "event_ids (w_db w') = event_ids (w_db w) @ [event_id_at E (Suc (w_ticks w))]"
  shows "open_ids E w' k"
proof -
  have i: "inj_on (event_id_at E) {w_ticks w..<w_ticks w + (k + 3)}" using o by (simp add: open_ids_def)
  have "event_id_at E n \<noteq> event_id_at E (Suc (w_ticks w))" if "n \<in> {w_ticks w'..<w_ticks w' + k}" for n
  proof
    assume "event_id_at E n = event_id_at E (Suc (w_ticks w))"
    then have "n = Suc (w_ticks w)" by (rule inj_onD [OF i]) (use that t in auto)
    with that t show False by simp
  qed
  moreover have "inj_on (event_id_at E) {w_ticks w'..<w_ticks w' + k}" by (rule inj_on_subset [OF i]) (auto simp: t)
  ultimately show ?thesis using o t by (auto simp: open_ids_def ids)
qed

text \<open>A claim whose status is one of the lifecycle can be sent back, or is where it should be.\<close>

definition reviewable :: "db \<Rightarrow> urn \<Rightarrow> bool" where
  "reviewable d j \<longleftrightarrow> history_of d j = [] \<or> so_kind (last (history_of d j)) \<noteq> ''Claim'' \<or>
     (is_valid_urn j \<and> status_of (last (history_of d j)) \<in> Some ` claim_states)"

lemma review_possible:
  "s \<in> claim_states \<Longrightarrow> s \<notin> review_satisfied_statuses \<Longrightarrow> can_transition CLAIM_LIFECYCLE s ''review_required''"
  by (auto simp: can_transition_def machine_defs review_satisfied_statuses_def)

lemma require_review_available:
  assumes ok: "world_ok E w" and ctx: "ctx_ok ctx" and E: "env_total E" and ids: "open_ids E w (k + 3)"
    and rv: "reviewable (w_db w) i"
  shows "\<exists>w'. require_review_if_needed E ctx i w = (Inr (), w') \<and> open_ids E w' k"
proof (cases "review_settled (w_db w) i")
  case True
  have "open_ids E w k" using ids by (auto simp: open_ids_def intro: inj_on_subset)
  with review_settled_run [OF world_ok_parts(2) [OF ok] True] show ?thesis by blast
next
  case False
  let ?l = "last (history_of (w_db w) i)"
  have ne: "history_of (w_db w) i \<noteq> []" and k: "so_kind ?l = ''Claim''"
    and st: "status_of ?l \<notin> Some ` review_satisfied_statuses" using False unfolding review_settled_def by blast+
  from rv ne k obtain s where s: "is_valid_urn i" "status_of ?l = Some s" "s \<in> claim_states"
    unfolding reviewable_def by auto
  have can: "can_transition CLAIM_LIFECYCLE s ''review_required''" using s st by (intro review_possible) auto
  have ty: "non_empty ''claim.review_required''" by (simp add: non_empty_def is_space_def)
  have nc: "''review_required'' \<notin> ceiling_asserting_statuses" "''review_required'' \<noteq> ''supported''"
    by (simp_all add: ceiling_asserting_statuses_def)
  from plain_transition_run [OF ok ctx E open_ids_fresh [OF ids] s(1) ne s(2) can ty nc] obtain r w' where
    t: "require_review E ctx i w = (Inr r, w')" "w_ticks w' = w_ticks w + 3"
      "event_ids (w_db w') = event_ids (w_db w) @ [event_id_at E (Suc (w_ticks w))]"
    unfolding require_review_def by blast
  have "map_of (so_body ?l) ''status'' \<notin> (\<lambda>s. Some (JStr s)) ` review_satisfied_statuses"
    using st by (simp only: satisfied_iff not_False_eq_True)
  then have "require_review_if_needed E ctx i w = (Inr (), w')"
    using ne k t(1) by (simp add: require_review_if_needed_def bindp_def find_latest_run [OF world_ok_parts(2) [OF ok]]
        last_opt_def ret_run)
  with open_ids_step [OF ids t(2,3)] show ?thesis by blast
qed

lemma reviewed_reviewable: "reviewed I d d' \<Longrightarrow> reviewable d j \<Longrightarrow> reviewable d' j"
proof -
  assume r: "reviewed I d d'" and v: "reviewable d j"
  have rr: "''review_required'' \<in> claim_states" by (simp add: claim_states_def)
  from r have "history_of d' j = history_of d j \<or> (\<not> review_settled d j \<and>
      (\<exists>c. history_of d' j = history_of d j @ [c] \<and> status_of c = Some ''review_required''))"
    unfolding reviewed_def by blast
  then show ?thesis
  proof (elim disjE conjE exE)
    assume "history_of d' j = history_of d j"
    with v show ?thesis by (simp add: reviewable_def)
  next
    fix c assume n: "\<not> review_settled d j" and h: "history_of d' j = history_of d j @ [c]"
      and s: "status_of c = Some ''review_required''"
    have "is_valid_urn j" using v n unfolding reviewable_def review_settled_def by blast
    with h s rr show ?thesis unfolding reviewable_def by simp
  qed
qed

lemma review_all_available:
  assumes "world_ok E w" and ctx: "ctx_ok ctx" and E: "env_total E"
    and "open_ids E w (3 * length is + k)" and "\<forall>j \<in> set is. reviewable (w_db w) j"
  shows "\<exists>us w'. mapp (require_review_if_needed E ctx) is w = (Inr us, w') \<and> open_ids E w' k"
  using assms(1,4,5)
proof (induction "is" arbitrary: w)
  case Nil
  then show ?case by (simp add: ret_run)
next
  case (Cons i "is")
  have o: "open_ids E w ((3 * length is + k) + 3)" using Cons.prems(2) by (simp add: algebra_simps)
  from require_review_available [OF Cons.prems(1) ctx E o] Cons.prems(3) obtain w1 where
    s1: "require_review_if_needed E ctx i w = (Inr (), w1)" "open_ids E w1 (3 * length is + k)" by auto
  note a = require_review_Inr [OF Cons.prems(1) s1(1)]
  have "\<forall>j \<in> set is. reviewable (w_db w1) j" using Cons.prems(3) a reviewed_reviewable by (meson list.set_intros(2))
  with Cons.IH [OF conjunct1 [OF a] s1(2)] s1(1) show ?case by (auto simp: bindp_def ret_run)
qed

lemma write_impact_available:
  assumes ok: "world_ok E w" and ctx: "ctx_ok ctx" and E: "env_total E" and ids: "open_ids E w (k + 3)"
    and schema: "\<And>b. env_schema E ''CorrectionEvent'' b" and vi: "is_valid_urn (so_id latest)"
    and la: "current_revision (w_db w) (so_id latest) = Some (so_revision latest)"
  shows "\<exists>r w'. write_impact_objects E ctx latest impacted w = (Inr r, w') \<and> open_ids E w' k"
proof -
  let ?n = "so_revision latest + 1" and ?t = "env_now E (w_ticks w)"
  let ?w1 = "w\<lparr>w_ticks := Suc (w_ticks w)\<rparr>"
  let ?w2 = "?w1\<lparr>w_ticks := Suc (w_ticks ?w1)\<rparr>"
  have n: "1 \<le> ?n" using la by (auto simp: current_revision_def split: if_splits)
  obtain h b where fb: "finish_body E ?n ?t (cx_actor ctx)
      (dset ''impact_objects'' (JArr (map JStr (sorted_set impacted))) (so_body latest)) = Inr (h, b)"
    using env_total_finish [OF E] by blast
  have ok1: "world_ok E ?w1" and ok2: "world_ok E ?w2" using ok by simp_all
  have ty: "non_empty ''correction.impact_computed''" by (simp add: non_empty_def is_space_def)
  obtain e where e: "make_event E ctx ''correction.impact_computed'' (ret ?t) (last_event_id_for (so_id latest)) (so_id latest)
      ?n [(''impact_objects'', JArr (map JStr (sorted_set impacted)))] ?w1 = (Inr e, ?w2)"
    and eid: "de_id e = event_id_at E (w_ticks ?w1)"
    using make_event_run [OF world_ok_parts(1) [OF ok1] ctx E vi ty n] by blast
  let ?r = "next_object latest ?n ?t (cx_actor ctx) h b"
  have "de_id e \<notin> set (event_ids (w_db ?w2))" using open_ids_fresh [OF ids] eid by simp
  from unit_of_work_run [OF ok2 E this, of ?r "Some (so_revision latest)"] la obtain a w' where
    u: "bind_unit_of_work E ?r (Some (so_revision latest)) e ?w2 = (Inr (?r, a), w')"
    and t: "w_ticks w' = Suc (w_ticks ?w2)" "event_ids (w_db w') = event_ids (w_db ?w2) @ [de_id e]"
    by (auto simp: next_revision_def)
  have "write_impact_objects E ctx latest impacted w = (Inr ?r, w')"
    unfolding write_impact_objects_def case_prod_beta
    using fb e u schema by (simp add: bindp_def lift_run ret_run now_run correction_model_validate_def)
  moreover have "open_ids E w' k" by (rule open_ids_step [OF ids]) (simp_all add: t eid)
  ultimately show ?thesis by blast
qed

lemma propagate_available:
  assumes ok: "world_ok E w" and ctx: "ctx_ok ctx" and E: "env_total E"
    and schema: "\<And>b. env_schema E ''CorrectionEvent'' b"
    and ne: "history_of (w_db w) i \<noteq> []" and k: "so_kind (last (history_of (w_db w) i)) = ''CorrectionEvent''"
    and vi: "is_valid_urn i"
    and sd: "affected_ids (so_body (last (history_of (w_db w) i))) = Inr seeds"
    and cu: "impact_objects_of (so_body (last (history_of (w_db w) i))) = Inr current"
    and rv: "\<forall>j \<in> binding_closure (w_db w) seeds. reviewable (w_db w) j"
    and ids: "open_ids E w (3 * length (impact_list (w_db w) seeds) + 3)"
  shows "\<exists>r w'. propagate_impact E ctx i w = (Inr r, w')"
proof -
  define latest where "latest = last (history_of (w_db w) i)"
  define L where "L = impact_list (w_db w) seeds"
  note oo = world_ok_parts(2) [OF ok]
  have g: "get_latest_or (CorrectionNotFoundError i) i w = (Inr latest, w)"
    unfolding latest_def by (rule get_latest_or_run [OF oo ne])
  note gl = get_latest_or_Inr [OF oo g]
  have li: "so_id latest = i" and la: "current_revision (w_db w) (so_id latest) = Some (so_revision latest)" using gl by auto
  have im: "compute_impact seeds (gather_loop (edges_tbl (w_db w)) [] [] seeds) = L" by (simp add: L_def impact_list_def)
  have len: "3 * length (sorted_set L) \<le> 3 * length L" by (simp add: sorted_set_def length_remdups_leq)
  have SL: "set (sorted_set L) = binding_closure (w_db w) seeds" by (simp add: L_def set_impact_list)
  obtain r v where w: "(if set L \<noteq> set current then write_impact_objects E ctx latest L else ret latest) w = (Inr r, v)"
    and vo: "open_ids E v (3 * length L)"
  proof (cases "set L \<noteq> set current")
    case True
    from write_impact_available [OF ok ctx E ids [folded L_def] schema _ la] vi li that True show thesis by auto
  next
    case False
    have "open_ids E w (3 * length L)" using ids unfolding L_def by (auto simp: open_ids_def intro: inj_on_subset)
    with that [of latest w] False show thesis by (simp add: ret_run)
  qed
  have okv: "world_ok E v \<and> (\<forall>j. j \<noteq> i \<longrightarrow> history_of (w_db v) j = history_of (w_db w) j) \<and> so_kind r = so_kind latest \<and>
    (v = w \<or> history_of (w_db v) i = history_of (w_db w) i @ [r])"
  proof (cases "set L \<noteq> set current")
    case True
    with w have "write_impact_objects E ctx latest L w = (Inr r, v)" by simp
    from write_impact_Inr [OF ok this] obtain e where c: "committed E [r] [] e w v" and iw: "impact_written latest (sorted_set L) r"
      by blast
    with li committed_tables [OF c] show ?thesis by (auto simp: history_of_def impact_written_def)
  next
    case False
    with w ok show ?thesis by (simp add: ret_run)
  qed
  have kl: "so_kind latest = ''CorrectionEvent''" unfolding latest_def by (rule k)
  have rvv: "reviewable (w_db v) j" if "j \<in> set (sorted_set L)" for j
  proof (cases "j = i")
    case True
    have "so_kind (last (history_of (w_db v) i)) = ''CorrectionEvent''" using okv kl unfolding latest_def by auto
    then show ?thesis unfolding reviewable_def True by simp
  next
    case False
    then show ?thesis using okv rv that unfolding SL reviewable_def by simp
  qed
  have vo2: "open_ids E v (3 * length (sorted_set L) + 0)" using vo len by (auto simp: open_ids_def intro: inj_on_subset)
  from review_all_available [OF conjunct1 [OF okv] ctx E vo2] rvv obtain us w' where
    "mapp (require_review_if_needed E ctx) (sorted_set L) v = (Inr us, w')" by blast
  note us = this
  have "propagate_impact E ctx i w =
      bindp (if set L \<noteq> set current then write_impact_objects E ctx latest L else ret latest) (\<lambda>l.
      bindp (mapp (require_review_if_needed E ctx) (sorted_set L)) (\<lambda>_. ret l)) w"
    using g sd cu unfolding latest_def [symmetric]
    by (simp add: propagate_impact_def Let_def bindp_def [of "get_latest_or _ _"] bindp_def [of "lift _"]
        bindp_def [of "gather_impact_edges _"] lift_run gather_run im)
  also have "\<dots> = (Inr r, w')" unfolding bindp_def w prod.case sum.case us by (simp add: ret_run)
  finally have "propagate_impact E ctx i w = (Inr r, w')" .
  then show ?thesis by blast
qed

section \<open>What the libraries may refuse\<close>

text \<open>
  The canonicalizer refuses some values, an integer outside the I-JSON range for one, and the
  contract may refuse the body of the new revision. \<open>refusals\<close> are the errors of an environment
  that does; \<open>obliging\<close> is the environment that agrees with it and refuses nothing. A program that
  \<open>tracks\<close> another does what that one does, or ends in a refusal.
\<close>

definition refusals :: "env \<Rightarrow> exn set" where
  "refusals E =
     {e. (e = CanonicalizationError \<and> (\<exists>j. env_canon E j = None)) \<or>
         (e = PydanticValidationError \<and> (\<exists>b. \<not> env_schema E ''CorrectionEvent'' b))}"

definition obliging :: "env \<Rightarrow> env" where
  "obliging E = E\<lparr>env_canon := (\<lambda>j. Some (case env_canon E j of None \<Rightarrow> [] | Some b \<Rightarrow> b)),
                  env_schema := (\<lambda>m b. True)\<rparr>"

definition tracks :: "exn set \<Rightarrow> (world, 'a) prog \<Rightarrow> (world, 'a) prog \<Rightarrow> bool" where
  "tracks X p q \<longleftrightarrow> (\<forall>w. p w = q w \<or> fst (p w) \<in> Inl ` X)"

named_theorems tracking "rules for programs that track others"

lemma tracks_same [tracking]: "tracks X p p"
  by (simp add: tracks_def)

lemma tracks_bind [tracking]:
  assumes p: "tracks X p p'" and q: "\<And>x. tracks X (q x) (q' x)"
  shows "tracks X (bindp p q) (bindp p' q')"
  unfolding tracks_def
proof
  fix w
  from p have "p w = p' w \<or> fst (p w) \<in> Inl ` X" by (simp add: tracks_def)
  then show "bindp p q w = bindp p' q' w \<or> fst (bindp p q w) \<in> Inl ` X"
  proof
    assume "p w = p' w"
    then show ?thesis using q by (cases "p' w"; cases "fst (p' w)") (auto simp: bindp_def tracks_def)
  next
    assume "fst (p w) \<in> Inl ` X"
    then show ?thesis by (cases "p w") (auto simp: bindp_def)
  qed
qed

lemma tracks_mapp [tracking]: "(\<And>x. tracks X (f x) (g x)) \<Longrightarrow> tracks X (mapp f xs) (mapp g xs)"
  by (induction xs) (auto intro!: tracks_bind tracks_same)

lemma tracks_if [tracking]: "tracks X p p' \<Longrightarrow> tracks X q q' \<Longrightarrow> tracks X (if b then p else q) (if b then p' else q')"
  by simp

lemma tracks_lift: "f = g \<or> f \<in> Inl ` X \<Longrightarrow> tracks X (lift f) (lift g)"
  by (auto simp: tracks_def lift_def raise_def ret_def split: sum.splits)

lemma tracks_tx [tracking]: "tracks X p q \<Longrightarrow> tracks X (tx p) (tx q)"
  unfolding tracks_def
proof (intro allI)
  fix w assume "\<forall>w. p w = q w \<or> fst (p w) \<in> Inl ` X"
  then have "p w = q w \<or> fst (p w) \<in> Inl ` X" ..
  then show "tx p w = tx q w \<or> fst (tx p w) \<in> Inl ` X"
    by (elim disjE) (simp add: tx_def, cases "p w", auto simp: tx_def)
qed

lemma tracks_catch [tracking]:
  assumes p: "tracks X p q" and h: "\<And>e w. e \<in> X \<Longrightarrow> fst (h e w) \<in> Inl ` X"
  shows "tracks X (catchp p h) (catchp q h)"
  unfolding tracks_def
proof
  fix w
  from p have "p w = q w \<or> fst (p w) \<in> Inl ` X" by (simp add: tracks_def)
  then show "catchp p h w = catchp q h w \<or> fst (catchp p h w) \<in> Inl ` X"
    by (elim disjE) (simp add: catchp_def, cases "p w", auto simp: catchp_def h)
qed

lemma obliging_simps [simp]:
  "env_now (obliging E) = env_now E" "env_ulid (obliging E) = env_ulid E" "env_schema (obliging E) m b"
  by (simp_all add: obliging_def)

lemma obliging_ids [simp]: "event_id_at (obliging E) n = event_id_at E n" "open_ids (obliging E) w k = open_ids E w k"
  by (simp_all add: event_id_at_def [abs_def] open_ids_def)

lemma obliging_total: "\<forall>n. ulid_ok (env_ulid E n) \<Longrightarrow> env_total (obliging E)"
  by (simp add: env_total_def) (simp add: obliging_def)

lemma obliging_hash: "compute_content_hash E d = compute_content_hash (obliging E) d \<or> compute_content_hash E d \<in> Inl ` refusals E"
  by (cases "env_canon E (JObj (prepare_for_hash d))")
    (auto simp: compute_content_hash_def canonicalize_def obliging_def refusals_def)

lemma obliging_hash_Inr: "compute_content_hash E d = Inr h \<Longrightarrow> compute_content_hash (obliging E) d = Inr h"
  using obliging_hash [of E d] by auto

lemma obliging_finish: "finish_body E n t a b = finish_body (obliging E) n t a b \<or> finish_body E n t a b \<in> Inl ` refusals E"
  unfolding finish_body_def Let_def
  using obliging_hash [of E "dset ''created_by'' (JStr a) (dset ''created_at'' (JStr (isoformat t)) (dset ''revision'' (JInt n) b))"]
  by auto

lemma obliging_verify: "verify_from E p as = Inr u \<Longrightarrow> verify_from (obliging E) p as = Inr u"
proof (induction as arbitrary: p)
  case (Cons a as)
  then show ?case
    using obliging_hash_Inr unfolding verify_from.simps compute_event_hash_def by (auto split: if_splits sum.splits)
qed simp

lemma obliging_world: "world_ok E w \<Longrightarrow> world_ok (obliging E) w"
  using obliging_verify by (auto simp: world_ok_def log_ok_def Let_def verify_appended_events_def)

lemma tracks_now [tracking]: "tracks X (now E) (now (obliging E))"
  by (simp add: now_def tracks_same)

lemma tracks_finish [tracking]: "tracks (refusals E) (lift (finish_body E n t a b)) (lift (finish_body (obliging E) n t a b))"
  by (rule tracks_lift [OF obliging_finish])

lemma tracks_validate [tracking]:
  "tracks (refusals E) (lift (correction_model_validate E b)) (lift (correction_model_validate (obliging E) b))"
  by (rule tracks_lift) (auto simp: correction_model_validate_def refusals_def)

lemma tracks_make_event [tracking]:
  "tracks X (make_event E ctx ty oc ca i n p) (make_event (obliging E) ctx ty oc ca i n p)"
  by (simp add: make_event_def new_urn_def tracks_same)

lemma refusals_not_integrity: "e \<in> refusals E \<Longrightarrow> e \<noteq> IntegrityErr"
  by (auto simp: refusals_def)

lemma tracks_append [tracking]: "tracks (refusals E) (append_event E e) (append_event (obliging E) e)"
  unfolding append_event_def
proof (intro tracks_bind tracks_same tracks_catch tracks_now)
  show "tracks (refusals E) (lift (compute_event_hash E e prev)) (lift (compute_event_hash (obliging E) e prev))" for prev
    unfolding compute_event_hash_def by (rule tracks_lift [OF obliging_hash])
next
  show "fst (raise (if x = IntegrityErr then EventAppendError (de_id e) else x) w) \<in> Inl ` refusals E"
    if "x \<in> refusals E" for x w using that refusals_not_integrity by (simp add: raise_def)
qed

lemma tracks_unit_of_work [tracking]:
  "tracks (refusals E) (bind_unit_of_work E r n e) (bind_unit_of_work (obliging E) r n e)"
  unfolding bind_unit_of_work_def record_object_revision_with_event_def
  by (intro tracking)

lemma tracks_review: "tracks (refusals E) (require_review E ctx i) (require_review (obliging E) ctx i)"
  unfolding require_review_def transition_claim_def Let_def case_prod_beta
  by (simp add: tracks_same) (intro tracking)

lemma tracks_review_if_needed [tracking]:
  "tracks (refusals E) (require_review_if_needed E ctx i) (require_review_if_needed (obliging E) ctx i)"
  unfolding require_review_if_needed_def
proof (intro tracking)
  show "tracks (refusals E)
      (case found of None \<Rightarrow> ret () | Some obj \<Rightarrow>
         if so_kind obj \<noteq> ''Claim'' then ret ()
         else if map_of (so_body obj) ''status'' \<in> (\<lambda>s. Some (JStr s)) ` review_satisfied_statuses then ret ()
         else bindp (require_review E ctx i) (\<lambda>_. ret ()))
      (case found of None \<Rightarrow> ret () | Some obj \<Rightarrow>
         if so_kind obj \<noteq> ''Claim'' then ret ()
         else if map_of (so_body obj) ''status'' \<in> (\<lambda>s. Some (JStr s)) ` review_satisfied_statuses then ret ()
         else bindp (require_review (obliging E) ctx i) (\<lambda>_. ret ()))" for found
    by (cases found) (simp_all only: option.case, (intro tracking tracks_review)+)
qed

lemma tracks_write_impact [tracking]:
  "tracks (refusals E) (write_impact_objects E ctx l is) (write_impact_objects (obliging E) ctx l is)"
  unfolding write_impact_objects_def case_prod_beta by (intro tracking)

lemma tracks_propagate: "tracks (refusals E) (propagate_impact E ctx i) (propagate_impact (obliging E) ctx i)"
  unfolding propagate_impact_def Let_def by (intro tracking)

text \<open>
  C27. Propagation is never blocked by what it finds. Where every impacted claim shows a status of
  its lifecycle, the stored correction has the fields of its contract, and the identifiers that the
  call will draw are well formed and new, \<^verbatim>\<open>propagate_impact\<close> returns, also after a run that stopped
  halfway. Two refusals from outside can stop it, and nothing else: the canonicalizer refuses a
  value (an integer beyond the I-JSON range, say), or the contract refuses the body of a revision;
  with libraries that refuse nothing it always returns.
\<close>

theorem propagate_completes:
  assumes ok: "world_ok E w" and ctx: "ctx_ok ctx" and ulid: "\<forall>n. ulid_ok (env_ulid E n)"
    and ne: "history_of (w_db w) i \<noteq> []" and k: "so_kind (last (history_of (w_db w) i)) = ''CorrectionEvent''"
    and vi: "is_valid_urn i"
    and sd: "affected_ids (so_body (last (history_of (w_db w) i))) = Inr seeds"
    and cu: "impact_objects_of (so_body (last (history_of (w_db w) i))) = Inr current"
    and rv: "\<forall>j \<in> binding_closure (w_db w) seeds. reviewable (w_db w) j"
    and ids: "open_ids E w (3 * length (impact_list (w_db w) seeds) + 3)"
  shows "\<exists>x w'. propagate_impact E ctx i w = (x, w') \<and>
    (case x of
       Inr r \<Rightarrow> True
     | Inl e \<Rightarrow> (e = CanonicalizationError \<and> (\<exists>j. env_canon E j = None)) \<or>
                (e = PydanticValidationError \<and> (\<exists>b. \<not> env_schema E ''CorrectionEvent'' b)))"
proof -
  have "open_ids (obliging E) w (3 * length (impact_list (w_db w) seeds) + 3)" using ids by simp
  from propagate_available [OF obliging_world [OF ok] ctx obliging_total [OF ulid] obliging_simps(3) ne k vi sd cu rv this]
  obtain r v where r: "propagate_impact (obliging E) ctx i w = (Inr r, v)" by blast
  from tracks_propagate have "propagate_impact E ctx i w = (Inr r, v) \<or> fst (propagate_impact E ctx i w) \<in> Inl ` refusals E"
    unfolding tracks_def r [symmetric] by blast
  then show ?thesis
    by (cases "propagate_impact E ctx i w") (auto simp: refusals_def)
qed

section \<open>Witnesses\<close>

definition sample_row :: "string \<Rightarrow> string \<Rightarrow> dict \<Rightarrow> stored_object" where
  "sample_row entity kind body =
     \<lparr>so_id = sample_urn entity, so_api_version = ''mrr/v1alpha1'', so_kind = kind,
      so_practice_id = sample_urn ''practice'', so_revision = 1, so_created_at = 1700000000000000,
      so_created_by = sample_urn ''human'', so_content_hash = content_hash ''{}'', so_supersedes = None,
      so_labels = None, so_body = body\<rparr>"

definition sample_correction :: stored_object where
  "sample_correction = sample_row ''correction'' ''CorrectionEvent''
     [(''status'', JStr ''OPEN''), (''affected_objects'', JArr [JObj [(''id'', JStr (sample_urn ''claim''))]]),
      (''impact_objects'', JArr [])]"

definition sample_result :: stored_object where
  "sample_result = sample_row ''result'' ''Claim'' [(''status'', JStr ''draft'')]"

lemma sample_row_simps [simp]:
  "so_id (sample_row a k b) = sample_urn a" "so_kind (sample_row a k b) = k" "so_body (sample_row a k b) = b"
  "so_revision (sample_row a k b) = 1"
  by (simp_all add: sample_row_def)

lemma entity_ok_correction [simp]: "entity_ok ''correction''" "entity_ok ''result''"
  by (simp_all add: entity_ok_def entity_char_def less_eq_char_def)

text \<open>A draft claim is derived from the claim that a correction affects.\<close>

lemma correction_world:
  obtains w where "world_ok sample_env w"
    and "history_of (w_db w) (sample_urn ''correction'') = [sample_correction]"
    and "history_of (w_db w) (sample_urn ''result'') = [sample_result]"
    and "edges_tbl (w_db w) = [sample_derivation]"
    and "w_ticks w = 7" and "event_ids (w_db w) = map (event_id_at sample_env) [0, 3, 63]"
    and "\<And>j. j \<noteq> sample_urn ''correction'' \<Longrightarrow> j \<noteq> sample_urn ''result'' \<Longrightarrow> history_of (w_db w) j = []"
    and "processed_ids_tbl (w_db w) = []"
proof -
  let ?E = sample_env and ?e = "sample_event\<lparr>de_id := event_id_at sample_env 63\<rparr>"
  have ids: "event_ids (w_db empty_world) = map (event_id_at ?E) []" by (simp add: start_fresh)
  have new: "w_ticks empty_world mod 64 \<notin> (\<lambda>m. m mod 64) ` set []" by simp
  have ty: "non_empty ''x''" by (simp add: non_empty_def is_space_def)
  have p1: "so_revision sample_correction = 1" "is_valid_urn (so_id sample_correction)"
    "history_of (w_db empty_world) (so_id sample_correction) = []"
    by (simp_all add: start_fresh sample_correction_def)
  obtain w1 e1 where c1: "committed ?E [sample_correction] [] e1 empty_world w1"
    "history_of (w_db w1) (so_id sample_correction) = [sample_correction]"
    "\<And>i. i \<noteq> so_id sample_correction \<Longrightarrow> history_of (w_db w1) i = history_of (w_db empty_world) i"
    "w_ticks w1 = w_ticks empty_world + 3" "event_ids (w_db w1) = map (event_id_at ?E) ([] @ [w_ticks empty_world])"
    by (rule sample_create [OF world_ok_empty ids new p1 ty]) (rule that, assumption+)
  have ci: "so_id sample_correction = sample_urn ''correction''" "so_id sample_result = sample_urn ''result''"
    by (simp_all add: sample_correction_def sample_result_def)
  have ok1: "world_ok ?E w1" using c1(1) by (rule committed_tables(3))
  have t1: "w_ticks w1 = 3" "event_ids (w_db w1) = map (event_id_at ?E) [0]" using c1(4,5) by (simp_all add: start_fresh)
  have new1: "w_ticks w1 mod 64 \<notin> (\<lambda>m. m mod 64) ` set [0]" by (simp add: t1)
  have h1: "history_of (w_db w1) (so_id sample_result) = []" using c1(3) by (simp add: ci start_fresh)
  have p2: "so_revision sample_result = 1" "is_valid_urn (so_id sample_result)" by (simp_all add: sample_result_def)
  obtain w2 e2 where c2: "committed ?E [sample_result] [] e2 w1 w2"
    "history_of (w_db w2) (so_id sample_result) = [sample_result]"
    "\<And>i. i \<noteq> so_id sample_result \<Longrightarrow> history_of (w_db w2) i = history_of (w_db w1) i"
    "w_ticks w2 = w_ticks w1 + 3" "event_ids (w_db w2) = map (event_id_at ?E) ([0] @ [w_ticks w1])"
    by (rule sample_create [OF ok1 t1(2) new1 p2 h1 ty]) (rule that, assumption+)
  have ok2: "world_ok ?E w2" using c2(1) by (rule committed_tables(3))
  have t2: "w_ticks w2 = 6" "event_ids (w_db w2) = map (event_id_at ?E) [0, 3]" using c2(4,5) by (simp_all add: t1)
  have et2: "edges_tbl (w_db w2) = []" using committed_tables(2) [OF c2(1)] committed_tables(2) [OF c1(1)]
    by (simp add: empty_world_def empty_db_def)
  have eo: "event_ok ?e" using event_ok_sample by (simp add: event_ok_def event_id_at_def sample_env_def)
  have fr: "de_id ?e \<notin> set (event_ids (w_db w2))" unfolding t2 using sample_fresh [of 63 "[0, 3]"] by simp
  have xv: "te_edge_type sample_derivation \<in> EDGE_VOCABULARY" "te_id sample_derivation \<notin> te_id ` set (edges_tbl (w_db w2))"
    by (simp_all add: et2 sample_derivation_def EDGE_VOCABULARY_def)
  obtain a w where w: "bind_edge_unit_of_work ?E sample_derivation ?e w2 = (Inr (sample_derivation, a), w)"
    "w_ticks w = 7" "event_ids (w_db w) = map (event_id_at ?E) [0, 3, 63]"
    using edge_unit_of_work_run [OF ok2 env_total_sample fr xv] by (auto simp: t2)
  from edge_unit_of_work_Inr [OF ok2 eo w(1)] have c3: "committed ?E [] [sample_derivation] ?e w2 w" by blast
  note t3 = committed_tables [OF c3]
  have h: "history_of (w_db w) = history_of (w_db w2)" by (rule ext) (simp add: history_of_def t3(1))
  have o: "history_of (w_db w) j = []" if "j \<noteq> sample_urn ''correction''" "j \<noteq> sample_urn ''result''" for j
    using that c1(3) c2(3) by (simp add: h ci start_fresh)
  have pt: "processed_ids_tbl (w_db w) = []"
    using c1(1) c2(1) c3 by (auto simp: committed_def empty_world_def empty_db_def)
  show thesis
    by (rule that [OF t3(3) _ _ _ w(2,3) o pt]) (use c1(2) c2(2,3) in \<open>simp_all add: h ci t3(2) et2\<close>)
qed

lemma sample_propagation:
  obtains w where "world_ok sample_env w" and "addressable ''CorrectionEvent'' (w_db w) (sample_urn ''correction'')"
    and "is_valid_urn (sample_urn ''correction'')"
    and "history_of (w_db w) (sample_urn ''correction'') \<noteq> []"
    and "so_kind (last (history_of (w_db w) (sample_urn ''correction''))) = ''CorrectionEvent''"
    and "affected_ids (so_body (last (history_of (w_db w) (sample_urn ''correction'')))) = Inr [sample_urn ''claim'']"
    and "impact_objects_of (so_body (last (history_of (w_db w) (sample_urn ''correction'')))) = Inr []"
    and "\<forall>j \<in> binding_closure (w_db w) [sample_urn ''claim'']. reviewable (w_db w) j"
    and "open_ids sample_env w (3 * length (impact_list (w_db w) [sample_urn ''claim'']) + 3)"
    and "binding_closure (w_db w) [sample_urn ''claim''] = {sample_urn ''result''}"
    and "history_of (w_db w) (sample_urn ''result'') = [sample_result]" and "processed_ids_tbl (w_db w) = []"
proof -
  obtain w where w: "world_ok sample_env w" "history_of (w_db w) (sample_urn ''correction'') = [sample_correction]"
    "history_of (w_db w) (sample_urn ''result'') = [sample_result]" "edges_tbl (w_db w) = [sample_derivation]"
    "w_ticks w = 7" "event_ids (w_db w) = map (event_id_at sample_env) [0, 3, 63]" "processed_ids_tbl (w_db w) = []"
    by (rule correction_world) (rule that, assumption+)
  have ne: "sample_urn ''claim'' \<noteq> sample_urn ''result''" by simp
  have rel: "impact_rel [sample_derivation] = {(sample_urn ''result'', sample_urn ''claim'')}"
    by (auto simp: impact_rel_def sample_derivation_def impact_edge_def IMPACT_EDGE_TYPES_def
        FR091_IMPACT_CATEGORY_EDGE_TYPES_def)
  have cl: "binding_closure (w_db w) [sample_urn ''claim''] = {sample_urn ''result''}"
    using impacted_by_one [OF ne] by (simp add: binding_closure_def w(4) rel)
  have il: "impact_list (w_db w) [sample_urn ''claim''] = [sample_urn ''result'']"
    unfolding impact_list_def w(4) sample_derivation_def by code_simp
  have rv: "reviewable (w_db w) (sample_urn ''result'')"
    by (simp add: reviewable_def w(3) sample_result_def status_of_Some image_iff claim_states_def)
  have id1: "inj_on (event_id_at sample_env) {7..<13}"
    by (rule inj_onI) (simp add: event_id_at_sample)
  have id2: "event_id_at sample_env n \<notin> set (map (event_id_at sample_env) [0, 3, 63])" if "n \<in> {7..<13}" for n
    by (rule sample_fresh) (use that in auto)
  have oi: "open_ids sample_env w (3 * length (impact_list (w_db w) [sample_urn ''claim'']) + 3)"
    using id1 id2 unfolding open_ids_def il w(5,6) by simp
  show thesis
    by (rule that [OF w(1) _ _ _ _ _ _ _ oi cl w(3,7)])
      (use rv in \<open>simp_all add: addressable_def w(2) cl sample_correction_def affected_ids_def impact_objects_of_def dget_def dget_str_def\<close>)
qed

theorem propagate_completes_witness:
  "\<exists>(w :: world) r w'. propagate_impact sample_env sample_ctx (sample_urn ''correction'') w = (Inr r, w') \<and>
     history_of (w_db w) (sample_urn ''result'') = [sample_result]"
proof -
  have sch: "env_schema sample_env ''CorrectionEvent'' b" for b by (simp add: sample_env_def)
  have can: "env_canon sample_env j \<noteq> None" for j using env_total_sample by (simp add: env_total_def)
  have ul: "\<forall>n. ulid_ok (env_ulid sample_env n)" using env_total_sample by (simp add: env_total_def)
  obtain w where w: "world_ok sample_env w" "addressable ''CorrectionEvent'' (w_db w) (sample_urn ''correction'')"
    "is_valid_urn (sample_urn ''correction'')"
    "history_of (w_db w) (sample_urn ''correction'') \<noteq> []"
    "so_kind (last (history_of (w_db w) (sample_urn ''correction''))) = ''CorrectionEvent''"
    "affected_ids (so_body (last (history_of (w_db w) (sample_urn ''correction'')))) = Inr [sample_urn ''claim'']"
    "impact_objects_of (so_body (last (history_of (w_db w) (sample_urn ''correction'')))) = Inr []"
    "\<forall>j \<in> binding_closure (w_db w) [sample_urn ''claim'']. reviewable (w_db w) j"
    "open_ids sample_env w (3 * length (impact_list (w_db w) [sample_urn ''claim'']) + 3)"
    "history_of (w_db w) (sample_urn ''result'') = [sample_result]" by (rule sample_propagation) (rule that, assumption+)
  from propagate_completes [OF w(1) ctx_ok_sample ul w(4,5,3,6-9)] obtain x w' where
    run: "propagate_impact sample_env sample_ctx (sample_urn ''correction'') w = (x, w')"
    and x: "case x of Inr r \<Rightarrow> True
     | Inl e \<Rightarrow> (e = CanonicalizationError \<and> (\<exists>j. env_canon sample_env j = None)) \<or>
                (e = PydanticValidationError \<and> (\<exists>b. \<not> env_schema sample_env ''CorrectionEvent'' b))"
    by (elim exE conjE) (rule that)
  from x can sch obtain r where "x = Inr r" by (cases x) auto
  with run w(10) show ?thesis by blast
qed

theorem propagate_reviews_the_impact_witness:
  "\<exists>(w :: world) r w'. propagate_impact sample_env sample_ctx (sample_urn ''correction'') w = (Inr r, w') \<and>
     (\<exists>c. history_of (w_db w') (sample_urn ''result'') = [sample_result, c] \<and> status_of c = Some ''review_required'')"
proof -
  have sch: "env_schema sample_env ''CorrectionEvent'' b" for b by (simp add: sample_env_def)
  let ?i = "sample_urn ''correction''" and ?s = "[sample_urn ''claim'']" and ?j = "sample_urn ''result''"
  obtain w where w: "world_ok sample_env w" "addressable ''CorrectionEvent'' (w_db w) ?i" "is_valid_urn ?i"
    "history_of (w_db w) ?i \<noteq> []" "so_kind (last (history_of (w_db w) ?i)) = ''CorrectionEvent''"
    "affected_ids (so_body (last (history_of (w_db w) ?i))) = Inr ?s"
    "impact_objects_of (so_body (last (history_of (w_db w) ?i))) = Inr []"
    "\<forall>j \<in> binding_closure (w_db w) ?s. reviewable (w_db w) j"
    "open_ids sample_env w (3 * length (impact_list (w_db w) ?s) + 3)"
    "binding_closure (w_db w) ?s = {?j}" "history_of (w_db w) ?j = [sample_result]"
    by (rule sample_propagation) (rule that, assumption+)
  from propagate_available [OF w(1) ctx_ok_sample env_total_sample sch w(4,5,3,6-9)] obtain r w' where
    run: "propagate_impact sample_env sample_ctx ?i w = (Inr r, w')" by blast
  from propagate_reviews_the_impact [OF w(1,2) run] obtain seeds where
    sd: "affected_ids (so_body (last (history_of (w_db w) ?i))) = Inr seeds"
    and st: "\<forall>j \<in> binding_closure (w_db w) seeds. review_settled (w_db w') j"
    and hs: "\<forall>j. j \<noteq> ?i \<longrightarrow> history_of (w_db w') j = history_of (w_db w) j \<or>
       (j \<in> binding_closure (w_db w) seeds \<and> \<not> review_settled (w_db w) j \<and>
        (\<exists>c. history_of (w_db w') j = history_of (w_db w) j @ [c] \<and> so_kind c = ''Claim'' \<and>
           status_of c = Some ''review_required''))"
    by (elim exE conjE) (rule that)
  have s: "seeds = ?s" using sd w(6) by simp
  have ns: "\<not> review_settled (w_db w) ?j"
    by (simp add: review_settled_def w(11) sample_result_def status_of_Some image_iff review_satisfied_statuses_def)
  have "review_settled (w_db w') ?j" using st by (simp add: s w(10))
  with ns have "history_of (w_db w') ?j \<noteq> history_of (w_db w) ?j" by (metis review_settled_def)
  moreover have neq: "?j \<noteq> ?i" by simp
  ultimately have "\<exists>c. history_of (w_db w') ?j = history_of (w_db w) ?j @ [c] \<and> status_of c = Some ''review_required''"
    using hs [rule_format, OF neq] by blast
  with run w(11) show ?thesis by auto
qed

text \<open>The response of a practice that adapted its result to the correction of the claim.\<close>

definition sample_response :: correction_response where
  "sample_response =
     \<lparr>cr_notification_id = sample_urn ''note'', cr_notifying_practice_id = sample_urn ''peer'',
      cr_origin_event_id = sample_urn ''correction'', cr_origin_event_revision = 1,
      cr_notified_object_ids = [sample_urn ''claim''], cr_responding_practice_id = sample_urn ''practice'',
      cr_decision = ''adapt'', cr_reason = None,
      cr_adaptations = [(sample_urn ''result'', sample_urn ''claim'')]\<rparr>"

definition sample_correction_service :: correction_service where
  "sample_correction_service =
     \<lparr>cs_record_event = True, cs_record_revision_with_edges = True, cs_delivery_pending_store = None\<rparr>"

lemma created_event_run:
  assumes ctx: "ctx_ok ctx" and E: "env_total E" and i: "is_valid_urn i" and ty: "non_empty ty" and n: "1 \<le> n"
  shows "\<exists>e. make_event E ctx ty (ret t) (ret None) i n p w = (Inr e, w\<lparr>w_ticks := Suc (w_ticks w)\<rparr>) \<and>
      de_id e = event_id_at E (w_ticks w)"
proof -
  have "ulid_ok (env_ulid E (w_ticks w))" using E by (simp add: env_total_def)
  with ctx i ty n show ?thesis
    by (simp add: make_event_def bindp_def new_urn_run ret_run lift_run new_domain_event_def event_ok_def
        ctx_ok_def event_id_at_def)
qed

lemma response_run:
  obtains w r w' where "world_ok sample_env w"
    and "record_response sample_env sample_correction_service sample_ctx (\<lambda>_. ret False) sample_response w = (Inr r, w')"
proof -
  let ?E = sample_env and ?c = sample_response and ?i = "urn_text ''correction-response'' (env_ulid sample_env 7)"
  obtain w where w: "world_ok ?E w" "history_of (w_db w) (sample_urn ''result'') = [sample_result]"
    "edges_tbl (w_db w) = [sample_derivation]" "w_ticks w = 7"
    "event_ids (w_db w) = map (event_id_at ?E) [0, 3, 63]"
    "\<And>j. j \<noteq> sample_urn ''correction'' \<Longrightarrow> j \<noteq> sample_urn ''result'' \<Longrightarrow> history_of (w_db w) j = []"
    by (rule correction_world) (rule that, assumption+)
  have en: "entity_ok ''correction-response''" "entity_ok ''edge''" by (simp_all add: entity_ok_def entity_char_def less_eq_char_def)
  have ul: "ulid_ok (env_ulid ?E n)" for n using env_total_sample by (simp add: env_total_def)
  have iv: "is_valid_urn ?i" using en ul by simp
  have ty: "non_empty ''correction.response_recorded''" by (simp add: non_empty_def is_space_def)
  have ih: "history_of (w_db w) ?i = []" by (rule w(6)) (simp_all add: sample_urn_def urn_text_def)
  let ?t = "env_now ?E 8" and ?b = "\<lambda>t. response_fields ?c ?i (cx_actor sample_ctx) t"
  obtain h where h: "compute_content_hash ?E (?b ?t) = Inr h"
    using env_total_hash [OF env_total_sample] by blast
  define x where "x = \<lparr>te_id = urn_text ''edge'' (env_ulid ?E 9), te_source_id = sample_urn ''result'',
    te_target_id = sample_urn ''claim'', te_edge_type = ''corrects'', te_created_at = ?t,
    te_created_by = cx_actor sample_ctx, te_scope = None, te_status = ''active'',
    te_practice_id = Some (sample_urn ''practice'')\<rparr>"
  let ?w4 = "w\<lparr>w_ticks := 10\<rparr>" and ?w5 = "w\<lparr>w_ticks := 11\<rparr>"
  obtain e where e: "make_event ?E sample_ctx ''correction.response_recorded'' (ret ?t) (ret None) ?i 1
       [(''correction_notification_id'', JStr (cr_notification_id ?c)), (''decision'', JStr (cr_decision ?c)),
        (''adaptation_count'', JInt (int (length (cr_adaptations ?c))))] ?w4 = (Inr e, ?w5)"
    and eid: "de_id e = event_id_at ?E 10"
    using created_event_run [OF ctx_ok_sample env_total_sample iv ty order_refl, where w = ?w4] by fastforce
  have fr: "de_id e \<notin> set (event_ids (w_db ?w5))"
    using sample_fresh [of 10 "[0, 3, 63]"] by (simp add: eid w(5))
  let ?r = "response_object ?c ?i (cx_actor sample_ctx) ?t h (?b ?t)"
  have r: "so_revision ?r = next_revision None" "current_revision (w_db ?w5) (so_id ?r) = None"
    using ih by (simp_all add: response_object_def next_revision_def current_revision_def)
  have xv: "te_edge_type x \<in> EDGE_VOCABULARY" "te_id x \<notin> te_id ` set (edges_tbl (w_db ?w5))"
    by (simp_all add: x_def w(3) sample_derivation_def EDGE_VOCABULARY_def urn_text_def)
  have ok5: "world_ok ?E ?w5" using w(1) by simp
  obtain a w' where u: "bind_revision_with_edges_unit_of_work ?E ?r None [x] e ?w5 = (Inr (?r, [x], a), w')"
    using revision_with_edge_run [OF ok5 env_total_sample fr r xv] by blast
  have gl: "get_latest (sample_urn ''result'') w = (Inr sample_result, w)"
    using w(2) by (simp add: get_latest_run [OF world_ok_parts(2) [OF w(1)]] last_opt_def)
  have v: "response_model_validate ?E ?c b = Inr ()" for b
    by (simp add: response_model_validate_def sample_env_def reason_required_iff_reject_or_defer_def
        adaptations_required_iff_adapt_def adaptations_reference_notified_def sample_response_def REASON_REQUIRED_DECISIONS_def)
  have ad: "cr_adaptations ?c = [(sample_urn ''result'', sample_urn ''claim'')]"
    "cr_responding_practice_id ?c = sample_urn ''practice''" by (simp_all add: sample_response_def)
  have "record_response ?E sample_correction_service sample_ctx (\<lambda>_. ret False) ?c w = (Inr ?r, w')"
    using e [unfolded ad] u h
    by (simp add: record_response_def bindp_def ret_run lift_run guardp_run ad gl new_urn_run en w(4) now_run Let_def v
        make_corrects_edge_def x_def sample_correction_service_def)
  with that w(1) show thesis by blast
qed

theorem record_response_exact_witness:
  "\<exists>(w :: world) r es w'. record_response sample_env sample_correction_service sample_ctx (\<lambda>_. ret False) sample_response w =
       (Inr r, w') \<and> edges_tbl (w_db w') = edges_tbl (w_db w) @ es \<and> corrects (cr_adaptations sample_response) es"
proof -
  obtain w r w' where ok: "world_ok sample_env w"
    and run: "record_response sample_env sample_correction_service sample_ctx (\<lambda>_. ret False) sample_response w = (Inr r, w')"
    by (rule response_run)
  have ro: "keeps same_db (ret False)" by (intro readonly)
  from record_response_exact [where already = "\<lambda>_. ret False", OF ok ro run] obtain es e where
    c: "committed sample_env [r] es e w w'" and x: "corrects (cr_adaptations sample_response) es" by (auto simp del: ex_simps)
  from run committed_tables(2) [OF c] x show ?thesis by blast
qed

end
