(* ===== verification/Correction_Notifications.thy ===== *)
theory Correction_Notifications
  imports Correction_Properties
begin

text \<open>
  Telling other practices of a correction, and being told:
  \<^verbatim>\<open>notify_affected_practices\<close> and \<^verbatim>\<open>receive_correction_notification\<close> of
  \<^verbatim>\<open>services/control_plane/mrr/services/correction/service.py\<close>.

  Outside the repository, and arguments here: the transport of the envelopes, \<open>send\<close>; the source
  of nonces, \<open>token_hex\<close>; and pydantic's reading of a datetime, \<open>reading\<close>.
\<close>

section \<open>Notifications\<close>

record notification_recipient =
  nr_practice_id :: urn
  nr_node_id :: urn
  nr_endpoint :: string
  nr_object_ids :: "urn list"

text \<open>
  A \<^verbatim>\<open>CorrectionNotification\<close> as the service reads it, with the body it was validated from.
\<close>

record correction_notification =
  cn_notification_id :: urn
  cn_correction_id :: urn
  cn_correction_revision :: int
  cn_notifying_practice_id :: urn
  cn_recipient_practice_id :: urn
  cn_notified_object_ids :: "urn list"
  cn_content_hash :: string
  cn_sent_at :: instant
  cn_expires_at :: instant
  cn_signed :: signed_object

definition dget_int :: "dict \<Rightarrow> string \<Rightarrow> int outcome" where
  "dget_int d k = (case map_of d k of Some (JInt n) \<Rightarrow> Inr n | _ \<Rightarrow> Inl TypeErr)"

definition dget_time :: "(string \<Rightarrow> instant option) \<Rightarrow> dict \<Rightarrow> string \<Rightarrow> instant outcome" where
  "dget_time reading d k =
     (case dget_str d k of
        Inl e \<Rightarrow> Inl e
      | Inr s \<Rightarrow> (case reading s of None \<Rightarrow> Inl TypeErr | Some t \<Rightarrow> Inr t))"

definition notification_validate ::
  "(string \<Rightarrow> instant option) \<Rightarrow> env \<Rightarrow> dict \<Rightarrow> correction_notification outcome" where
  "notification_validate reading E body =
     (case reconstruct_signed E ''CorrectionNotification'' body of
        Inl e \<Rightarrow> Inl e
      | Inr contract \<Rightarrow>
          (case (dget_str body ''notification_id'', dget_str body ''correction_id'',
                 dget_int body ''correction_revision'', dget_str body ''notifying_practice_id'',
                 dget_str body ''recipient_practice_id'', dget_strs body ''notified_object_ids'',
                 dget_str body ''content_hash'', dget_time reading body ''sent_at'',
                 dget_time reading body ''expires_at'') of
             (Inr i, Inr c, Inr n, Inr p, Inr q, Inr objects, Inr h, Inr s, Inr x) \<Rightarrow>
               if \<not> s < x then Inl PydanticValidationError
               else if sg_signer_practice_id contract \<noteq> p then Inl PydanticValidationError
               else Inr \<lparr>cn_notification_id = i, cn_correction_id = c, cn_correction_revision = n,
                      cn_notifying_practice_id = p, cn_recipient_practice_id = q,
                      cn_notified_object_ids = objects, cn_content_hash = h, cn_sent_at = s,
                      cn_expires_at = x, cn_signed = contract\<rparr>
           | _ \<Rightarrow> Inl PydanticValidationError))"

text \<open>The sender's side of a call: its identity, its key, and the window of the messages.\<close>

record notifier =
  nf_sender_node_id :: urn
  nf_practice_id :: urn
  nf_signing_key :: bytes
  nf_signing_key_id :: string
  nf_sent_at :: instant
  nf_expires_at :: instant

definition notifier_signature :: "notifier \<Rightarrow> string \<Rightarrow> signature" where
  "notifier_signature N value =
     \<lparr>si_signer_practice_id = nf_practice_id N, si_key_id = nf_signing_key_id N, si_algorithm = ''Ed25519'',
      si_signed_at = nf_sent_at N, si_value = value\<rparr>"

text \<open>The dump of the draft: the fields in their order, an absent replacement left out.\<close>

definition notification_fields ::
  "env \<Rightarrow> stored_object \<Rightarrow> notification_recipient \<Rightarrow> notifier \<Rightarrow> urn \<Rightarrow> string \<Rightarrow> dict outcome" where
  "notification_fields E correction recipient N i nonce =
     (let body = so_body correction in
      case (dget body ''correction_type'', dget body ''severity'', dget body ''reason'', dget body ''requested_action'') of
        (Inr correction_type, Inr severity, Inr reason, Inr requested_action) \<Rightarrow>
          Inr ([(''notification_id'', JStr i), (''correction_id'', JStr (so_id correction)),
                (''correction_revision'', JInt (so_revision correction)),
                (''notifying_practice_id'', JStr (nf_practice_id N)),
                (''recipient_practice_id'', JStr (nr_practice_id recipient)),
                (''notified_object_ids'', JArr (map JStr (nr_object_ids recipient))),
                (''correction_type'', correction_type), (''severity'', severity), (''reason'', reason),
                (''requested_action'', requested_action)] @
               (case map_of body ''replacement_object_id'' of
                  None \<Rightarrow> [] | Some JNull \<Rightarrow> [] | Some v \<Rightarrow> [(''replacement_object_id'', v)]) @
               [(''content_hash'', JStr placeholder_content_hash), (''nonce'', JStr nonce),
                (''sent_at'', JStr (env_json_time E (nf_sent_at N))),
                (''expires_at'', JStr (env_json_time E (nf_expires_at N))),
                (''signature'', JObj (signature_dump E (notifier_signature N placeholder_signature_value)))])
      | (Inl e, _, _, _) \<Rightarrow> Inl e
      | (_, Inl e, _, _) \<Rightarrow> Inl e
      | (_, _, Inl e, _) \<Rightarrow> Inl e
      | (_, _, _, Inl e) \<Rightarrow> Inl e)"

definition build_and_sign_notification ::
  "(string \<Rightarrow> instant option) \<Rightarrow> (world, string) prog \<Rightarrow> env \<Rightarrow> stored_object \<Rightarrow> notification_recipient \<Rightarrow> notifier \<Rightarrow>
   (world, correction_notification) prog" where
  "build_and_sign_notification reading token_hex E correction recipient N =
     bindp (new_urn E ''correction-notification'') (\<lambda>i.
     bindp (lift (notification_fields E correction recipient N i [])) (\<lambda>_.
     bindp token_hex (\<lambda>nonce.
     bindp (lift (notification_fields E correction recipient N i nonce)) (\<lambda>draft.
     bindp (lift (notification_validate reading E draft)) (\<lambda>_.
     bindp (lift (compute_content_hash E draft)) (\<lambda>h.
     let payload_body = dset ''content_hash'' (JStr h) draft in
     bindp (lift (sign_object E (nf_signing_key N) payload_body ''Ed25519'')) (\<lambda>signature_value.
     lift (notification_validate reading E
       (dset ''signature'' (JObj (signature_dump E (notifier_signature N signature_value))) payload_body)))))))))"

definition build_and_sign_envelope ::
  "env \<Rightarrow> correction_notification \<Rightarrow> notification_recipient \<Rightarrow> notifier \<Rightarrow> (world, envelope) prog" where
  "build_and_sign_envelope E notification recipient N =
     bindp (new_urn E ''node-message-envelope'') (\<lambda>message_id.
     let draft = \<lparr>ne_message_id = message_id, ne_sender_node_id = nf_sender_node_id N,
           ne_sender_practice_id = nf_practice_id N, ne_recipient_node_id = nr_node_id recipient,
           ne_sent_at = nf_sent_at N, ne_expires_at = nf_expires_at N, ne_payload_kind = ''CorrectionNotification'',
           ne_payload_content_hash = cn_content_hash notification, ne_payload = sg_dump (cn_signed notification),
           ne_signature = notifier_signature N placeholder_signature_value\<rparr> in
     bindp (lift (new_envelope E draft)) (\<lambda>_.
     bindp (lift (sign_object E (nf_signing_key N) (envelope_dump E draft) ''Ed25519'')) (\<lambda>signature_value.
     lift (new_envelope E (draft\<lparr>ne_signature := notifier_signature N signature_value\<rparr>)))))"

section \<open>Sending\<close>

text \<open>The recipients whose notification the log records as sent.\<close>

definition already_sent_recipient_ids :: "urn \<Rightarrow> (world, urn list) prog" where
  "already_sent_recipient_ids correction_id =
     bindp read_all (\<lambda>as.
     mapp (\<lambda>e. lift (dget_str (de_payload e) ''recipient_practice_id''))
       (filter (\<lambda>e. de_object_id e = correction_id \<and> de_event_type e = ''correction.notification_sent'' \<and>
          map_of (de_payload e) ''delivery_status'' = Some (JStr ''sent'')) (map ae_event as)))"

fun follow_hops :: "string \<Rightarrow> string list \<Rightarrow> string outcome" where
  "follow_hops status [] = Inr status"
| "follow_hops status (h # hops) =
     (case assert_transition CORRECTION_LIFECYCLE status h of Inl e \<Rightarrow> Inl e | Inr _ \<Rightarrow> follow_hops h hops)"

definition target_status_after_notification :: "string \<Rightarrow> bool \<Rightarrow> string outcome" where
  "target_status_after_notification current any_failed =
     follow_hops current
       (if current = ''OPEN''
        then [''IMPACT_ANALYSIS'', ''NOTIFYING'', ''AWAITING_RESPONSES''] @ (if any_failed then [''DELIVERY_PENDING''] else [])
        else if current = ''AWAITING_RESPONSES'' \<and> any_failed then [''DELIVERY_PENDING'']
        else [])"

record delivery_result =
  dr_recipient :: notification_recipient
  dr_notification_id :: urn
  dr_message_id :: urn
  dr_status :: string

definition deliver_one ::
  "(string \<Rightarrow> instant option) \<Rightarrow> (world, string) prog \<Rightarrow> transport \<Rightarrow> env \<Rightarrow> stored_object \<Rightarrow> notifier \<Rightarrow>
   notification_recipient \<Rightarrow> (world, delivery_result) prog" where
  "deliver_one reading token_hex send E latest N recipient =
     bindp (build_and_sign_notification reading token_hex E latest recipient N) (\<lambda>notification.
     bindp (build_and_sign_envelope E notification recipient N) (\<lambda>envelope.
     bindp (send envelope (nr_endpoint recipient)) (\<lambda>status.
     ret \<lparr>dr_recipient = recipient, dr_notification_id = cn_notification_id notification,
          dr_message_id = ne_message_id envelope, dr_status = status\<rparr>)))"

definition sent_payload :: "delivery_result \<Rightarrow> dict" where
  "sent_payload d =
     [(''recipient_practice_id'', JStr (nr_practice_id (dr_recipient d))),
      (''notification_id'', JStr (dr_notification_id d)), (''message_id'', JStr (dr_message_id d)),
      (''delivery_status'', JStr (if dr_status d = ''delivered'' then ''sent'' else ''pending''))]"

text \<open>The revision that shows a changed status, if it changed.\<close>

definition status_revision ::
  "env \<Rightarrow> call_ctx \<Rightarrow> stored_object \<Rightarrow> string \<Rightarrow> string \<Rightarrow> instant \<Rightarrow> stored_object option outcome" where
  "status_revision E ctx latest current final t =
     (if final = current then Inr None
      else (case finish_body E (so_revision latest + 1) t (cx_actor ctx) (dset ''status'' (JStr final) (so_body latest)) of
              Inl e \<Rightarrow> Inl e
            | Inr (h, new_body) \<Rightarrow>
                (case correction_model_validate E new_body of
                   Inl e \<Rightarrow> Inl e
                 | Inr _ \<Rightarrow> Inr (Some (next_object latest (so_revision latest + 1) t (cx_actor ctx) h new_body)))))"

definition record_sent_events :: "env \<Rightarrow> correction_service \<Rightarrow> domain_event list \<Rightarrow> (world, unit) prog" where
  "record_sent_events E S events =
     (if events = [] then ret ()
      else bindp (require_record_event S) (\<lambda>_. bindp (mapp (record_event E (ret ())) events) (\<lambda>_. ret ())))"

definition notify_affected_practices ::
  "(string \<Rightarrow> instant option) \<Rightarrow> (world, string) prog \<Rightarrow> transport \<Rightarrow> env \<Rightarrow> correction_service \<Rightarrow> call_ctx \<Rightarrow> urn \<Rightarrow>
   notification_recipient list \<Rightarrow> notifier \<Rightarrow> (world, stored_object) prog" where
  "notify_affected_practices reading token_hex send E S ctx correction_id recipients N =
     bindp (get_latest_or (CorrectionNotFoundError correction_id) correction_id) (\<lambda>latest.
     bindp (already_sent_recipient_ids correction_id) (\<lambda>already_sent.
     let pending = filter (\<lambda>r. nr_practice_id r \<notin> set already_sent) recipients in
     if pending = [] then ret latest
     else
       bindp (mapp (deliver_one reading token_hex send E latest N) pending) (\<lambda>results.
       let any_failed = list_ex (\<lambda>d. dr_status d = ''failed'') results in
       bindp (lift (dget_str (so_body latest) ''status'')) (\<lambda>current.
       bindp (lift (target_status_after_notification current any_failed)) (\<lambda>final.
       bindp (now E) (\<lambda>t.
       bindp (lift (status_revision E ctx latest current final t)) (\<lambda>new_obj.
       bindp (last_event_id_for (so_id latest)) (\<lambda>causation.
       bindp (mapp (\<lambda>d. make_event E ctx ''correction.notification_sent'' (ret t) (ret causation) (so_id latest)
          (case new_obj of None \<Rightarrow> so_revision latest | Some r \<Rightarrow> so_revision r) (sent_payload d)) results) (\<lambda>events.
       case new_obj of
         None \<Rightarrow> bindp (record_sent_events E S events) (\<lambda>_. ret latest)
       | Some r \<Rightarrow>
           bindp (bind_unit_of_work E r (Some (so_revision latest)) (hd events)) (\<lambda>(stored, _).
           bindp (record_sent_events E S (tl events)) (\<lambda>_. ret stored)))))))))))"

section \<open>Receiving\<close>

record local_notification_impact =
  li_notification_id :: urn
  li_impacted_object_ids :: "urn list"

text \<open>The checks, which end with the notification and the instant it was judged at.\<close>

definition check_correction_notification ::
  "(string \<Rightarrow> instant option) \<Rightarrow> env \<Rightarrow> correction_service \<Rightarrow> envelope \<Rightarrow> urn \<Rightarrow> urn \<Rightarrow> key_ring \<Rightarrow>
   (string \<Rightarrow> (world, bool) prog) \<Rightarrow> (string \<Rightarrow> (world, bool) prog) \<Rightarrow> instant option \<Rightarrow>
   (world, correction_notification \<times> instant) prog" where
  "check_correction_notification reading E S envelope this_node_id trusted ring
     already_processed_envelope already_processed_notification at =
     bindp (require_record_event S) (\<lambda>_.
     bindp (instant_or_now E at) (\<lambda>t.
     bindp (validate_inbound_envelope E envelope this_node_id trusted ring already_processed_envelope (Some t)) (\<lambda>_.
     bindp (guardp (ne_payload_kind envelope = ''CorrectionNotification'') ValueError) (\<lambda>_.
     bindp (lift (notification_validate reading E (ne_payload envelope))) (\<lambda>notification.
     bindp (resolve_trusted_correction_notification_key E (cn_signed notification) trusted ring (Some t)) (\<lambda>_.
     bindp (guardp (cn_sent_at notification \<le> t \<and> t < cn_expires_at notification)
       (CorrectionNotificationNotWithinValidityWindowError (cn_notification_id notification)
          (cn_sent_at notification) (cn_expires_at notification) t)) (\<lambda>_.
     bindp (already_processed_notification (cn_notification_id notification)) (\<lambda>seen.
     bindp (guardp (\<not> seen) (CorrectionNotificationAlreadyProcessedError (cn_notification_id notification))) (\<lambda>_.
     ret (notification, t))))))))))"

text \<open>What an admitted notification does here.\<close>

definition review_local_impact ::
  "env \<Rightarrow> call_ctx \<Rightarrow> correction_notification \<Rightarrow> instant \<Rightarrow> (world, local_notification_impact) prog" where
  "review_local_impact E ctx notification t =
     bindp (gather_impact_edges (cn_notified_object_ids notification)) (\<lambda>edges.
     let impacted = sorted_set (compute_impact (cn_notified_object_ids notification) edges) in
     bindp (mapp (require_review_if_needed E ctx) impacted) (\<lambda>_.
     bindp (make_event E ctx ''correction.notification_received'' (ret t)
       (last_event_id_for (cn_notification_id notification)) (cn_notification_id notification) 1
       [(''correction_id'', JStr (cn_correction_id notification)),
        (''correction_revision'', JInt (cn_correction_revision notification)),
        (''notifying_practice_id'', JStr (cn_notifying_practice_id notification)),
        (''recipient_practice_id'', JStr (cn_recipient_practice_id notification)),
        (''notified_object_ids_count'', JInt (int (length (cn_notified_object_ids notification)))),
        (''locally_impacted_object_ids'', JArr (map JStr impacted))]) (\<lambda>e.
     bindp (record_event E (ret ()) e) (\<lambda>_.
     ret \<lparr>li_notification_id = cn_notification_id notification, li_impacted_object_ids = impacted\<rparr>))))"

definition receive_correction_notification ::
  "(string \<Rightarrow> instant option) \<Rightarrow> env \<Rightarrow> correction_service \<Rightarrow> call_ctx \<Rightarrow> envelope \<Rightarrow> urn \<Rightarrow> urn \<Rightarrow> key_ring \<Rightarrow>
   (string \<Rightarrow> (world, bool) prog) \<Rightarrow> (string \<Rightarrow> (world, bool) prog) \<Rightarrow> instant option \<Rightarrow>
   (world, local_notification_impact) prog" where
  "receive_correction_notification reading E S ctx envelope this_node_id trusted ring
     already_processed_envelope already_processed_notification at =
     bindp (check_correction_notification reading E S envelope this_node_id trusted ring
       already_processed_envelope already_processed_notification at) (\<lambda>(notification, t).
     review_local_impact E ctx notification t)"

end
