(* ===== verification/Notification_Properties.thy ===== *)
theory Notification_Properties
  imports Correction_Notifications Iso_Time
begin

text \<open>
  What holds of notifications. A node acts only on a notification that its envelope, its own
  signature, its window and the record of processed ids all admit, and then reviews exactly what
  depends on the named objects here. A sender tells every practice it has not told yet, records
  each of them, and tells nobody twice once a delivery succeeded.
\<close>

section \<open>Receiving\<close>

text \<open>Everything a node asks of a notification and of the envelope it came in.\<close>

definition genuine ::
  "(string \<Rightarrow> instant option) \<Rightarrow> env \<Rightarrow> envelope \<Rightarrow> urn \<Rightarrow> urn \<Rightarrow> key_ring \<Rightarrow> bool \<Rightarrow> instant \<Rightarrow>
   correction_notification \<Rightarrow> bool" where
  "genuine reading E envelope node trusted ring seen t n \<longleftrightarrow>
     acceptable E envelope node trusted ring seen t \<and> ne_payload_kind envelope = ''CorrectionNotification'' \<and>
     notification_validate reading E (ne_payload envelope) = Inr n \<and>
     (\<exists>pk. trusted_by E ring trusted t (cn_signed n) pk) \<and> cn_sent_at n \<le> t \<and> t < cn_expires_at n"

lemma readonly_already_processed [readonly]: "keeps same_db (already_processed node i)"
  unfolding keeps_def by (simp add: already_processed_run)

lemma readonly_validate_envelope [readonly]:
  "(\<And>i. keeps same_db (seen i)) \<Longrightarrow> keeps same_db (validate_inbound_envelope E e node trusted ring seen at)"
  unfolding validate_inbound_envelope_def Let_def by (intro readonly)

lemma readonly_notification_key [readonly]: "keeps same_db (resolve_trusted_correction_notification_key E n trusted ring at)"
  unfolding resolve_trusted_correction_notification_key_def verify_trusted_signature_def by (intro readonly)

lemma readonly_require_record_event [readonly]: "keeps same_db (require_record_event S)"
  unfolding require_record_event_def by (intro readonly)

lemma validated_acceptable:
  assumes "validate_inbound_envelope E e node trusted ring (already_processed node) (Some t) w = (Inr u, w')"
  shows "acceptable E e node trusted ring (seen_by node (ne_message_id e) w) t"
proof -
  have "instant_or_now E (Some t) w = (Inr t, w)" by (simp add: instant_or_now_def ret_run)
  note v = assms [unfolded validate_run [OF this same_db_refl]]
  from v have c: "check_signature E ring t ''Envelope'' (ne_signature e) (envelope_dump E e) = Inr u" by (simp split: if_splits)
  from v check_signature_Inr [THEN iffD1, OF c] show ?thesis by (simp add: acceptable_def split: if_splits)
qed

lemma readonly_check_notification:
  "(\<And>i. keeps same_db (processed i)) \<Longrightarrow> (\<And>i. keeps same_db (seen i)) \<Longrightarrow>
     keeps same_db (check_correction_notification reading E S envelope node trusted ring processed seen at)"
  unfolding check_correction_notification_def
  by (intro readonly_bindp readonly_validate_envelope readonly_notification_key readonly_require_record_event
      readonly_instant readonly_pure) simp_all

lemma checked_genuine:
  assumes ro: "\<And>i. keeps same_db (seen i)"
    and run: "check_correction_notification reading E S envelope node trusted ring (already_processed node) seen at w =
      (Inr (n, t), w')"
  shows "genuine reading E envelope node trusted ring (seen_by node (ne_message_id envelope) w) (instant_of E at w) n \<and>
    t = instant_of E at w \<and> same_db w w' \<and> (\<exists>v v'. same_db w v \<and> seen (cn_notification_id n) v = (Inr False, v'))"
proof -
  from run [unfolded check_correction_notification_def] obtain u0 v0 t' v1 u v2 n' v3 pk v4 b where
    s0: "require_record_event S w = (Inr u0, v0)" and s1: "instant_or_now E at v0 = (Inr t', v1)"
    and s2: "validate_inbound_envelope E envelope node trusted ring (already_processed node) (Some t') v1 = (Inr u, v2)"
    and k: "ne_payload_kind envelope = ''CorrectionNotification''"
    and n: "notification_validate reading E (ne_payload envelope) = Inr n'"
    and s3: "resolve_trusted_correction_notification_key E (cn_signed n') trusted ring (Some t') v2 = (Inr pk, v3)"
    and win: "cn_sent_at n' \<le> t' \<and> t' < cn_expires_at n'"
    and s4: "seen (cn_notification_id n') v3 = (Inr b, v4)" and nb: "\<not> b" and r: "(n, t) = (n', t')"
    by (elim bindp_InrE guardp_InrE lift_InrE ret_InrE) (hypsubst+, rule that, (assumption | rule refl)+)
  have v0: "v0 = w" using s0 by (auto simp: require_record_event_def)
  have t': "t' = instant_of E at w" and k1: "same_db w v1"
    using instant_or_now_run [of E at w] s1 unfolding v0 by auto
  have sb: "seen_by node (ne_message_id envelope) v1 = seen_by node (ne_message_id envelope) w"
    using k1 by (intro seen_by_ticks) (simp add: same_db_def)
  have tr: "trusted_by E ring trusted t' (cn_signed n') pk"
    using s3 resolve_then_verify [where at = "Some t'" and E = E and ring = ring and trusted = trusted and obj = "cn_signed n'"]
    unfolding resolve_trusted_correction_notification_key_def instant_of_def by auto
  have k3: "same_db w v3" and k4: "same_db w w'"
  proof -
    have a: "same_db v1 v2" by (rule keepsD [OF readonly_validate_envelope [OF readonly_already_processed] s2])
    have b: "same_db v2 v3" by (rule keepsD [OF readonly_notification_key s3])
    have c: "same_db w w'"
      by (rule keepsD [OF readonly_check_notification [OF readonly_already_processed ro] run])
    show "same_db w v3" using k1 a b by (blast intro: transpD [OF transp_same_db])
    show "same_db w w'" by (rule c)
  qed
  have "genuine reading E envelope node trusted ring (seen_by node (ne_message_id envelope) w) t' n'"
    using validated_acceptable [OF s2] k n tr win unfolding genuine_def sb by blast
  with t' r k3 k4 s4 nb show ?thesis by auto
qed

lemma review_local_impact_Inr:
  assumes ok: "world_ok E w" and run: "review_local_impact E ctx n t w = (Inr r, w')"
  shows "li_notification_id r = cn_notification_id n \<and>
    set (li_impacted_object_ids r) = binding_closure (w_db w) (cn_notified_object_ids n) \<and>
    (\<exists>v e. reviewed (binding_closure (w_db w) (cn_notified_object_ids n)) (w_db w) (w_db v) \<and>
       (\<forall>j \<in> binding_closure (w_db w) (cn_notified_object_ids n). review_settled (w_db v) j) \<and>
       committed E [] [] e v w' \<and> de_event_type e = ''correction.notification_received'' \<and>
       de_object_id e = cn_notification_id n \<and> de_actor e = cx_actor ctx)"
proof -
  from run [unfolded review_local_impact_def Let_def] obtain edges v0 us v1 e v2 a where
    s0: "gather_impact_edges (cn_notified_object_ids n) w = (Inr edges, v0)"
    and s1: "mapp (require_review_if_needed E ctx) (sorted_set (compute_impact (cn_notified_object_ids n) edges)) v0 = (Inr us, v1)"
    and s2: "make_event E ctx ''correction.notification_received'' (ret t)
       (last_event_id_for (cn_notification_id n)) (cn_notification_id n) 1
       [(''correction_id'', JStr (cn_correction_id n)), (''correction_revision'', JInt (cn_correction_revision n)),
        (''notifying_practice_id'', JStr (cn_notifying_practice_id n)),
        (''recipient_practice_id'', JStr (cn_recipient_practice_id n)),
        (''notified_object_ids_count'', JInt (int (length (cn_notified_object_ids n)))),
        (''locally_impacted_object_ids'',
          JArr (map JStr (sorted_set (compute_impact (cn_notified_object_ids n) edges))))] v1 = (Inr e, v2)"
    and s3: "record_event E (ret ()) e v2 = (Inr a, w')"
    and r: "r = \<lparr>li_notification_id = cn_notification_id n,
      li_impacted_object_ids = sorted_set (compute_impact (cn_notified_object_ids n) edges)\<rparr>"
    by (elim bindp_InrE ret_InrE) (hypsubst+, rule that, (assumption | rule refl)+)
  have v0: "v0 = w" and im: "compute_impact (cn_notified_object_ids n) edges = impact_list (w_db w) (cn_notified_object_ids n)"
    using s0 unfolding gather_run by (auto simp: impact_list_def)
  have S: "set (sorted_set (compute_impact (cn_notified_object_ids n) edges)) = binding_closure (w_db w) (cn_notified_object_ids n)"
    unfolding im set_sorted_set by (rule set_impact_list)
  note rv = review_all_Inr [OF ok s1 [unfolded v0], unfolded S]
  note ev = make_event_Inr [OF s2 keeps_same_pure(1) readonly_last_event]
  have k: "same_db v1 v2" and eo: "event_ok e" and ok1: "world_ok E v1" using ev rv by blast+
  from record_event_Inr [OF world_ok_same_db [OF ok1 k] eo s3] have c: "committed E [] [] e v1 w'"
    using committed_from [OF k] by blast
  show ?thesis using rv ev c S unfolding r by auto
qed

text \<open>
  C11. A node acts only on what it was really told. Where the envelope or the notification in it
  fails any check, the call fails and writes nothing. Where it returns, the envelope was
  acceptable and new, the notification was signed by the trusted practice and not handled
  before; every stored claim that depends on a named object is now in review, withdrawn or
  superseded, no other object changed, and the call ends with the event that says so.
\<close>

theorem notifications_are_genuine:
  assumes ok: "world_ok E w" and ro: "\<And>i. keeps same_db (seen i)"
    and run: "receive_correction_notification reading E S ctx envelope node trusted ring (already_processed node) seen at w = (q, w')"
  shows "((\<nexists>n. genuine reading E envelope node trusted ring (seen_by node (ne_message_id envelope) w) (instant_of E at w) n)
      \<longrightarrow> (\<exists>x. q = Inl x) \<and> same_db w w') \<and>
    (\<forall>r. q = Inr r \<longrightarrow> (\<exists>n.
      genuine reading E envelope node trusted ring (seen_by node (ne_message_id envelope) w) (instant_of E at w) n \<and>
      (\<exists>v v'. same_db w v \<and> seen (cn_notification_id n) v = (Inr False, v')) \<and>
      li_notification_id r = cn_notification_id n \<and>
      set (li_impacted_object_ids r) = binding_closure (w_db w) (cn_notified_object_ids n) \<and>
      (\<exists>v e. reviewed (binding_closure (w_db w) (cn_notified_object_ids n)) (w_db w) (w_db v) \<and>
         (\<forall>j \<in> binding_closure (w_db w) (cn_notified_object_ids n). review_settled (w_db v) j) \<and>
         committed E [] [] e v w' \<and> de_event_type e = ''correction.notification_received'' \<and>
         de_object_id e = cn_notification_id n \<and> de_actor e = cx_actor ctx)))"
proof (cases "check_correction_notification reading E S envelope node trusted ring (already_processed node) seen at w")
  case (Pair c w1)
  have k: "same_db w w1"
    by (rule keepsD [OF readonly_check_notification [OF readonly_already_processed ro] Pair])
  show ?thesis
  proof (cases c)
    case (Inl x)
    with run Pair have "q = Inl x" "w' = w1" by (simp_all add: receive_correction_notification_def bindp_def)
    with k show ?thesis by simp
  next
    case (Inr nt)
    obtain n t where nt: "nt = (n, t)" by (cases nt)
    note g = checked_genuine [OF ro Pair [unfolded Inr nt]]
    have r: "review_local_impact E ctx n t w1 = (q, w')"
      using run Pair Inr nt by (simp add: receive_correction_notification_def bindp_def)
    have db: "w_db w1 = w_db w" using k by (simp add: same_db_def)
    have "\<exists>n. genuine reading E envelope node trusted ring (seen_by node (ne_message_id envelope) w) (instant_of E at w) n"
      using g by blast
    moreover have "genuine reading E envelope node trusted ring (seen_by node (ne_message_id envelope) w) (instant_of E at w) n \<and>
        (\<exists>v v'. same_db w v \<and> seen (cn_notification_id n) v = (Inr False, v'))" using g by blast
    ultimately show ?thesis
      using review_local_impact_Inr [OF world_ok_same_db [OF ok k], where r = r for r, unfolded db] r by blast
  qed
qed

section \<open>A notification and its envelope\<close>

text \<open>Instants are written in digits: enough for the contracts here.\<close>

definition sample_reading :: "string \<Rightarrow> instant option" where
  "sample_reading s = (if s = ''0'' then Some 0 else if s = ''9'' then Some 9 else None)"

definition sample_notification_body :: dict where
  "sample_notification_body =
     [(''notification_id'', JStr (sample_urn ''note'')), (''correction_id'', JStr (sample_urn ''correction'')),
      (''correction_revision'', JInt 1), (''notifying_practice_id'', JStr (sample_urn ''practice'')),
      (''recipient_practice_id'', JStr (sample_urn ''peer'')),
      (''notified_object_ids'', JArr [JStr (sample_urn ''claim'')]),
      (''content_hash'', JStr (content_hash ''{}'')), (''sent_at'', JStr ''0''), (''expires_at'', JStr ''9''),
      (''signature'', sample_signature)]"

definition sample_notification :: correction_notification where
  "sample_notification = \<lparr>cn_notification_id = sample_urn ''note'', cn_correction_id = sample_urn ''correction'',
     cn_correction_revision = 1, cn_notifying_practice_id = sample_urn ''practice'',
     cn_recipient_practice_id = sample_urn ''peer'', cn_notified_object_ids = [sample_urn ''claim''],
     cn_content_hash = content_hash ''{}'', cn_sent_at = 0, cn_expires_at = 9,
     cn_signed = sample_reconstructed sample_notification_body\<rparr>"

lemma entity_ok_note [simp]: "entity_ok ''note''" "entity_ok ''message''"
  by (simp_all add: entity_ok_def entity_char_def less_eq_char_def)

lemma sample_notification_read:
  "notification_validate sample_reading sample_env sample_notification_body = Inr sample_notification"
proof -
  have "reconstruct_signed sample_env ''CorrectionNotification'' sample_notification_body =
      Inr (sample_reconstructed sample_notification_body)"
    by (rule reconstruct_sample) (simp add: sample_notification_body_def)
  then show ?thesis
    by (simp add: notification_validate_def dget_str_def dget_int_def dget_time_def dget_strs_def dget_def
        sample_notification_body_def sample_reading_def sample_notification_def sample_reconstructed_def)
qed

definition sample_note_envelope :: envelope where
  "sample_note_envelope = \<lparr>ne_message_id = sample_urn ''message'', ne_sender_node_id = sample_urn ''peernode'',
     ne_sender_practice_id = sample_urn ''practice'', ne_recipient_node_id = sample_urn ''node'', ne_sent_at = 0,
     ne_expires_at = 9, ne_payload_kind = ''CorrectionNotification'', ne_payload_content_hash = content_hash ''{}'',
     ne_payload = sample_notification_body,
     ne_signature = \<lparr>si_signer_practice_id = sample_urn ''practice'', si_key_id = derive_key_id sample_key,
       si_algorithm = ''Ed25519'', si_signed_at = 0, si_value = b64encode (sample_key @ ''{}'')\<rparr>\<rparr>"

lemma sample_note_checked:
  assumes "\<not> seen_by (sample_urn ''node'') (sample_urn ''message'') w"
  shows "check_correction_notification sample_reading sample_env sample_correction_service sample_note_envelope
      (sample_urn ''node'') (pr_id sample_practice) sample_ring (already_processed (sample_urn ''node''))
      (\<lambda>_. ret False) (Some 5) w = (Inr (sample_notification, 5), w)"
proof -
  let ?e = sample_note_envelope
  have at: "instant_or_now sample_env (Some 5) w = (Inr 5, w)" by (simp add: instant_or_now_def ret_run)
  have c: "check_signature sample_env sample_ring 5 ''Envelope'' (ne_signature ?e) (envelope_dump sample_env ?e) = Inr ()"
    by (simp add: check_signature_def sample_note_envelope_def ring_valid_iff sample_signature_verifies)
  have v: "validate_inbound_envelope sample_env ?e (sample_urn ''node'') (pr_id sample_practice) sample_ring
      (already_processed (sample_urn ''node'')) (Some 5) w = (Inr (), w)"
    unfolding validate_run [OF at same_db_refl] using c assms
    by (simp add: sample_note_envelope_def sample_practice_def sample_notification_body_def)
  have r: "resolve_trusted_correction_notification_key sample_env (cn_signed sample_notification) (pr_id sample_practice)
      sample_ring (Some 5) w = (Inr sample_key, w)"
    by (simp add: resolve_trusted_correction_notification_key_def bindp_def ret_run sample_notification_def
        resolve_sample_signer verify_sample_signer)
  have p: "ne_payload_kind ?e = ''CorrectionNotification''" "ne_payload ?e = sample_notification_body"
    by (simp_all add: sample_note_envelope_def)
  have n: "cn_sent_at sample_notification = 0" "cn_expires_at sample_notification = 9"
    by (simp_all add: sample_notification_def)
  show ?thesis
    unfolding check_correction_notification_def require_record_event_def bindp_def
    by (simp add: at v r p n sample_notification_read guardp_run lift_run ret_run sample_correction_service_def)
qed

lemma review_local_impact_available:
  assumes ok: "world_ok E w" and ctx: "ctx_ok ctx" and E: "env_total E"
    and i: "is_valid_urn (cn_notification_id n)"
    and rv: "\<forall>j \<in> binding_closure (w_db w) (cn_notified_object_ids n). reviewable (w_db w) j"
    and ids: "open_ids E w (3 * length (impact_list (w_db w) (cn_notified_object_ids n)) + 3)"
  shows "\<exists>r w'. review_local_impact E ctx n t w = (Inr r, w')"
proof -
  let ?L = "impact_list (w_db w) (cn_notified_object_ids n)"
  have im: "compute_impact (cn_notified_object_ids n) (gather_loop (edges_tbl (w_db w)) [] [] (cn_notified_object_ids n)) = ?L"
    by (simp add: impact_list_def)
  have len: "3 * length (sorted_set ?L) \<le> 3 * length ?L" by (simp add: sorted_set_def length_remdups_leq)
  have o: "open_ids E w (3 * length (sorted_set ?L) + 1)"
    using ids len by (auto simp: open_ids_def intro: inj_on_subset)
  have rv': "\<forall>j \<in> set (sorted_set ?L). reviewable (w_db w) j" using rv by (simp add: set_impact_list)
  obtain us v where m: "mapp (require_review_if_needed E ctx) (sorted_set ?L) w = (Inr us, v)" and ov: "open_ids E v 1"
    using review_all_available [OF ok ctx E o rv'] by blast
  have okv: "world_ok E v" using review_all_Inr [OF ok m] by blast
  have ty: "non_empty ''correction.notification_received''" by (simp add: non_empty_def is_space_def)
  let ?v2 = "v\<lparr>w_ticks := Suc (w_ticks v)\<rparr>"
  obtain e where e: "make_event E ctx ''correction.notification_received'' (ret t)
       (last_event_id_for (cn_notification_id n)) (cn_notification_id n) 1
       [(''correction_id'', JStr (cn_correction_id n)), (''correction_revision'', JInt (cn_correction_revision n)),
        (''notifying_practice_id'', JStr (cn_notifying_practice_id n)),
        (''recipient_practice_id'', JStr (cn_recipient_practice_id n)),
        (''notified_object_ids_count'', JInt (int (length (cn_notified_object_ids n)))),
        (''locally_impacted_object_ids'', JArr (map JStr (sorted_set ?L)))] v = (Inr e, ?v2)"
    and eid: "de_id e = event_id_at E (w_ticks v)"
    using make_event_run [OF world_ok_parts(1) [OF okv] ctx E i ty order_refl] by blast
  have "de_id e \<notin> set (event_ids (w_db ?v2))" using ov eid by (simp add: open_ids_def)
  moreover have "world_ok E ?v2" using okv by simp
  ultimately obtain a w' where "record_event E (ret ()) e ?v2 = (Inr a, w')" using record_event_run [OF _ E] by blast
  then show ?thesis
    using m e by (simp add: review_local_impact_def bindp_def gather_run im ret_run Let_def)
qed

theorem notifications_are_genuine_witness:
  "\<exists>(w :: world) r w'. receive_correction_notification sample_reading sample_env sample_correction_service sample_ctx
       sample_note_envelope (sample_urn ''node'') (pr_id sample_practice) sample_ring
       (already_processed (sample_urn ''node'')) (\<lambda>_. ret False) (Some 5) w = (Inr r, w') \<and>
     genuine sample_reading sample_env sample_note_envelope (sample_urn ''node'') (pr_id sample_practice) sample_ring
       (seen_by (sample_urn ''node'') (sample_urn ''message'') w) 5 sample_notification \<and>
     history_of (w_db w) (sample_urn ''result'') = [sample_result] \<and>
     set (li_impacted_object_ids r) = {sample_urn ''result''}"
proof -
  let ?R = "receive_correction_notification sample_reading sample_env sample_correction_service sample_ctx
       sample_note_envelope (sample_urn ''node'') (pr_id sample_practice) sample_ring
       (already_processed (sample_urn ''node'')) (\<lambda>_. ret False) (Some 5)"
  and ?i = "sample_urn ''correction''"
  obtain w where w: "world_ok sample_env w" "\<forall>j \<in> binding_closure (w_db w) [sample_urn ''claim'']. reviewable (w_db w) j"
    "open_ids sample_env w (3 * length (impact_list (w_db w) [sample_urn ''claim'']) + 3)"
    "binding_closure (w_db w) [sample_urn ''claim''] = {sample_urn ''result''}"
    "history_of (w_db w) (sample_urn ''result'') = [sample_result]" "processed_ids_tbl (w_db w) = []"
    by (rule sample_propagation) (rule that, assumption+)
  have n: "cn_notification_id sample_notification = sample_urn ''note''"
    "cn_notified_object_ids sample_notification = [sample_urn ''claim'']" by (simp_all add: sample_notification_def)
  have vi: "is_valid_urn (cn_notification_id sample_notification)" unfolding n by simp
  have ns: "\<not> seen_by (sample_urn ''node'') (sample_urn ''message'') w" using w(6) by (simp add: seen_by_def)
  obtain r w' where "review_local_impact sample_env sample_ctx sample_notification 5 w = (Inr r, w')"
    using review_local_impact_available [OF w(1) ctx_ok_sample env_total_sample vi] w(2,3) unfolding n by blast
  then have run: "?R w = (Inr r, w')"
    using sample_note_checked [OF ns] by (simp add: receive_correction_notification_def bindp_def)
  have ro: "keeps same_db (ret False)" by (intro readonly)
  have m: "ne_message_id sample_note_envelope = sample_urn ''message''" by (simp add: sample_note_envelope_def)
  have t: "instant_of sample_env (Some 5) w = 5" by (simp add: instant_of_def)
  from notifications_are_genuine [OF w(1) ro run] obtain k where
    g: "genuine sample_reading sample_env sample_note_envelope (sample_urn ''node'') (pr_id sample_practice) sample_ring
       (seen_by (sample_urn ''node'') (sample_urn ''message'') w) 5 k"
    and li: "set (li_impacted_object_ids r) = binding_closure (w_db w) (cn_notified_object_ids k)"
    unfolding m t by auto
  have "ne_payload sample_note_envelope = sample_notification_body" by (simp add: sample_note_envelope_def)
  with g sample_notification_read have "k = sample_notification" by (simp add: genuine_def)
  with g li w(4) have "genuine sample_reading sample_env sample_note_envelope (sample_urn ''node'') (pr_id sample_practice) sample_ring
       (seen_by (sample_urn ''node'') (sample_urn ''message'') w) 5 sample_notification" "set (li_impacted_object_ids r) = {sample_urn ''result''}"
    by (simp_all add: n)
  with run w(5) show ?thesis by blast
qed

section \<open>What is sent is genuine\<close>

lemma unsigned_dset: "prepare_for_signature (dset ''signature'' v d) = prepare_for_signature d"
  unfolding prepare_for_signature_def dset_def signature_excluded_fields_def
  by (induction d) auto

lemma notification_fields_Inr:
  assumes "notification_fields E c r N i nonce = Inr d"
  shows "map_of d ''notification_id'' = Some (JStr i) \<and> map_of d ''correction_id'' = Some (JStr (so_id c)) \<and>
    map_of d ''correction_revision'' = Some (JInt (so_revision c)) \<and>
    map_of d ''notifying_practice_id'' = Some (JStr (nf_practice_id N)) \<and>
    map_of d ''recipient_practice_id'' = Some (JStr (nr_practice_id r)) \<and>
    map_of d ''notified_object_ids'' = Some (JArr (map JStr (nr_object_ids r))) \<and>
    map_of d ''sent_at'' = Some (JStr (env_json_time E (nf_sent_at N))) \<and>
    map_of d ''expires_at'' = Some (JStr (env_json_time E (nf_expires_at N))) \<and>
    map_of d ''content_hash'' = Some (JStr placeholder_content_hash) \<and>
    map_of d ''signature'' = Some (JObj (signature_dump E (notifier_signature N placeholder_signature_value)))"
proof -
  let ?opt = "case map_of (so_body c) ''replacement_object_id'' of
      None \<Rightarrow> [] | Some JNull \<Rightarrow> [] | Some v \<Rightarrow> [(''replacement_object_id'', v)]"
  have o: "map_of ?opt k = None" if "k \<noteq> ''replacement_object_id''" for k
    using that by (simp split: option.split json.split)
  obtain ct sv re ac where d: "d = [(''notification_id'', JStr i), (''correction_id'', JStr (so_id c)),
                (''correction_revision'', JInt (so_revision c)),
                (''notifying_practice_id'', JStr (nf_practice_id N)),
                (''recipient_practice_id'', JStr (nr_practice_id r)),
                (''notified_object_ids'', JArr (map JStr (nr_object_ids r))),
                (''correction_type'', ct), (''severity'', sv), (''reason'', re), (''requested_action'', ac)] @ ?opt @
               [(''content_hash'', JStr placeholder_content_hash), (''nonce'', JStr nonce),
                (''sent_at'', JStr (env_json_time E (nf_sent_at N))),
                (''expires_at'', JStr (env_json_time E (nf_expires_at N))),
                (''signature'', JObj (signature_dump E (notifier_signature N placeholder_signature_value)))]"
    using assms unfolding notification_fields_def Let_def
    by (auto simp del: map_of.simps append_Cons split: sum.splits)
  show ?thesis unfolding d by (simp add: map_add_def o)
qed

lemma notification_validate_Inr:
  assumes "notification_validate reading E body = Inr n"
  shows "reconstruct_signed E ''CorrectionNotification'' body = Inr (cn_signed n) \<and> sg_dump (cn_signed n) = body \<and>
    sg_signer_practice_id (cn_signed n) = cn_notifying_practice_id n \<and>
    map_of body ''notification_id'' = Some (JStr (cn_notification_id n)) \<and>
    map_of body ''correction_id'' = Some (JStr (cn_correction_id n)) \<and>
    map_of body ''notifying_practice_id'' = Some (JStr (cn_notifying_practice_id n)) \<and>
    map_of body ''recipient_practice_id'' = Some (JStr (cn_recipient_practice_id n)) \<and>
    map_of body ''content_hash'' = Some (JStr (cn_content_hash n)) \<and>
    dget_strs body ''notified_object_ids'' = Inr (cn_notified_object_ids n) \<and>
    dget_time reading body ''sent_at'' = Inr (cn_sent_at n) \<and> dget_time reading body ''expires_at'' = Inr (cn_expires_at n)"
  using assms
  by (auto simp: notification_validate_def reconstruct_dump split: sum.splits if_splits)

lemma built_notification:
  assumes "build_and_sign_notification reading token_hex E c r N w = (Inr n, w')"
    and time: "\<And>u. u \<in> {nf_sent_at N, nf_expires_at N} \<Longrightarrow> reading (env_json_time E u) = Some u"
  shows "notification_validate reading E (sg_dump (cn_signed n)) = Inr n \<and>
    cn_correction_id n = so_id c \<and> cn_notifying_practice_id n = nf_practice_id N \<and>
    cn_recipient_practice_id n = nr_practice_id r \<and> cn_notified_object_ids n = nr_object_ids r \<and>
    cn_sent_at n = nf_sent_at N \<and> cn_expires_at n = nf_expires_at N \<and>
    sg_key_id (cn_signed n) = nf_signing_key_id N \<and> sg_algorithm (cn_signed n) = ''Ed25519'' \<and>
    (\<forall>pk. key_pair E (nf_signing_key N) pk \<longrightarrow> (\<exists>m raw. env_canon E (JObj (prepare_for_signature (sg_dump (cn_signed n)))) = Some m \<and>
        b64decode (sg_value (cn_signed n)) = Some raw \<and> env_ed_verify E pk raw m))"
proof -
  from assms(1) [unfolded build_and_sign_notification_def Let_def] obtain i v0 d0 nonce v1 d n0 h v where
    "new_urn E ''correction-notification'' w = (Inr i, v0)"
    and d: "notification_fields E c r N i nonce = Inr d"
    and h: "compute_content_hash E d = Inr h"
    and v: "sign_object E (nf_signing_key N) (dset ''content_hash'' (JStr h) d) ''Ed25519'' = Inr v"
    and n: "notification_validate reading E (dset ''signature'' (JObj (signature_dump E (notifier_signature N v)))
        (dset ''content_hash'' (JStr h) d)) = Inr n"
    by (elim bindp_InrE lift_InrE) (hypsubst+, rule that, (assumption | rule refl)+)
  let ?b = "dset ''signature'' (JObj (signature_dump E (notifier_signature N v))) (dset ''content_hash'' (JStr h) d)"
  note f = notification_fields_Inr [OF d]
  note val = notification_validate_Inr [OF n]
  have sg: "signature_fields (map_of ?b ''signature'') = Some (nf_practice_id N, nf_signing_key_id N, ''Ed25519'', v)"
    by (simp add: signature_dump_def notifier_signature_def)
  have s: "sg_key_id (cn_signed n) = nf_signing_key_id N" "sg_algorithm (cn_signed n) = ''Ed25519''"
    "sg_value (cn_signed n) = v"
    using conjunct1 [OF val] unfolding reconstruct_signed_def sg by (simp_all split: if_splits) (metis signed_object.select_convs)+
  from sign_object_Inr [OF v] obtain m where m: "env_canon E (JObj (prepare_for_signature ?b)) = Some m"
    and vm: "v = b64encode (env_ed_sign E (nf_signing_key N) m)" unfolding unsigned_dset by blast
  have "\<exists>m raw. env_canon E (JObj (prepare_for_signature ?b)) = Some m \<and>
        b64decode (sg_value (cn_signed n)) = Some raw \<and> env_ed_verify E pk raw m" if "key_pair E (nf_signing_key N) pk" for pk
    using that m by (auto simp: s vm b64decode_encode key_pair_def)
  moreover have "cn_sent_at n = nf_sent_at N" "cn_expires_at n = nf_expires_at N"
    using val f time by (auto simp: dget_time_def dget_str_def dget_def)
  moreover have "cn_notified_object_ids n = nr_object_ids r" using val f by (simp add: dget_strs_def dget_def)
  ultimately show ?thesis using val f n s by simp
qed

lemma built_envelope:
  assumes "build_and_sign_envelope E n r N w = (Inr e, w')"
  shows "ne_recipient_node_id e = nr_node_id r \<and> ne_sent_at e = nf_sent_at N \<and> ne_expires_at e = nf_expires_at N \<and>
    nf_sent_at N < nf_expires_at N \<and> ne_payload_kind e = ''CorrectionNotification'' \<and>
    ne_payload_content_hash e = cn_content_hash n \<and> ne_payload e = sg_dump (cn_signed n) \<and>
    (\<exists>v draft. sign_object E (nf_signing_key N) (envelope_dump E draft) ''Ed25519'' = Inr v \<and>
       e = draft\<lparr>ne_signature := notifier_signature N v\<rparr>)"
proof -
  from assms [unfolded build_and_sign_envelope_def Let_def] obtain i v0 x v where
    "new_urn E ''node-message-envelope'' w = (Inr i, v0)"
    and v: "sign_object E (nf_signing_key N) (envelope_dump E \<lparr>ne_message_id = i, ne_sender_node_id = nf_sender_node_id N,
           ne_sender_practice_id = nf_practice_id N, ne_recipient_node_id = nr_node_id r,
           ne_sent_at = nf_sent_at N, ne_expires_at = nf_expires_at N, ne_payload_kind = ''CorrectionNotification'',
           ne_payload_content_hash = cn_content_hash n, ne_payload = sg_dump (cn_signed n),
           ne_signature = notifier_signature N placeholder_signature_value\<rparr>) ''Ed25519'' = Inr v"
    and e: "new_envelope E (\<lparr>ne_message_id = i, ne_sender_node_id = nf_sender_node_id N,
           ne_sender_practice_id = nf_practice_id N, ne_recipient_node_id = nr_node_id r,
           ne_sent_at = nf_sent_at N, ne_expires_at = nf_expires_at N, ne_payload_kind = ''CorrectionNotification'',
           ne_payload_content_hash = cn_content_hash n, ne_payload = sg_dump (cn_signed n),
           ne_signature = notifier_signature N placeholder_signature_value\<rparr>\<lparr>ne_signature := notifier_signature N v\<rparr>) = Inr e"
    by (elim bindp_InrE lift_InrE) (hypsubst+, rule that, (assumption | rule refl)+)
  define D where "D = \<lparr>ne_message_id = i, ne_sender_node_id = nf_sender_node_id N,
           ne_sender_practice_id = nf_practice_id N, ne_recipient_node_id = nr_node_id r,
           ne_sent_at = nf_sent_at N, ne_expires_at = nf_expires_at N, ne_payload_kind = ''CorrectionNotification'',
           ne_payload_content_hash = cn_content_hash n, ne_payload = sg_dump (cn_signed n),
           ne_signature = notifier_signature N placeholder_signature_value\<rparr>"
  note x = new_envelope_Inr [OF e [folded D_def]]
  from v [folded D_def] x have "\<exists>v draft. sign_object E (nf_signing_key N) (envelope_dump E draft) ''Ed25519'' = Inr v \<and>
       e = draft\<lparr>ne_signature := notifier_signature N v\<rparr>" by blast
  with x show ?thesis by (simp add: D_def)
qed

text \<open>
  C26. What a node sends, its peer admits. A notification and envelope that
  \<^verbatim>\<open>notify_affected_practices\<close> builds pass every check of \<^verbatim>\<open>receive_correction_notification\<close> at the
  recipient, at any instant of their window and under any ring that holds the sender's key, and
  the recipient reads in it the correction, the practice and the objects the sender named.
\<close>

theorem sent_notifications_are_genuine:
  assumes n: "build_and_sign_notification reading token_hex E c r N w = (Inr n, w1)"
    and e: "build_and_sign_envelope E n r N w1 = (Inr e, w2)"
    and time: "\<And>u. u \<in> {nf_sent_at N, nf_expires_at N} \<Longrightarrow> reading (env_json_time E u) = Some u"
    and key: "key_pair E (nf_signing_key N) pk" "ring_get ring (nf_signing_key_id N) = Some d" "kd_state d = ''active''"
      "decode_public_key E (kd_encoded_public_key d) = Inr pk" "kd_valid_from d \<le> t" "t < kd_valid_until d"
    and t: "nf_sent_at N \<le> t" "t < nf_expires_at N"
  shows "genuine reading E e (nr_node_id r) (nf_practice_id N) ring False t n \<and> cn_correction_id n = so_id c \<and>
    cn_recipient_practice_id n = nr_practice_id r \<and> cn_notified_object_ids n = nr_object_ids r"
proof -
  note b = built_notification [OF n time] and x = built_envelope [OF e]
  note val = notification_validate_Inr [OF conjunct1 [OF b]]
  obtain v draft where v: "sign_object E (nf_signing_key N) (envelope_dump E draft) ''Ed25519'' = Inr v"
    and ed: "e = draft\<lparr>ne_signature := notifier_signature N v\<rparr>" using x by blast
  have s: "si_signer_practice_id (ne_signature e) = nf_practice_id N" "si_key_id (ne_signature e) = nf_signing_key_id N"
    "si_value (ne_signature e) = v" "si_algorithm (ne_signature e) = ''Ed25519''" by (simp_all add: ed notifier_signature_def)
  have "prepare_for_signature (envelope_dump E e) = prepare_for_signature (envelope_dump E draft)"
    by (simp add: ed envelope_dump_unsigned)
  from made_signature_verifies [OF v key(1) this _ key(3,5,6,4) s(3,4)] key(2) s(2)
  have sv: "signature_verifies E ring t (ne_signature e) (envelope_dump E e)" by simp
  have "acceptable E e (nr_node_id r) (nf_practice_id N) ring False t"
    unfolding acceptable_def using x val b s(1) sv t by simp
  moreover have "trusted_by E ring (nf_practice_id N) t (cn_signed n) pk"
    unfolding trusted_by_def using b val key by simp
  ultimately show ?thesis unfolding genuine_def using x b t by auto
qed

definition sample_notice :: stored_object where
  "sample_notice = sample_row ''correction'' ''CorrectionEvent''
     [(''status'', JStr ''OPEN''), (''affected_objects'', JArr [JObj [(''id'', JStr (sample_urn ''claim''))]]),
      (''correction_type'', JStr ''numeric_error''), (''severity'', JStr ''minor''), (''reason'', JStr ''r''),
      (''requested_action'', JStr ''review'')]"

definition sample_recipient :: notification_recipient where
  "sample_recipient = \<lparr>nr_practice_id = sample_urn ''peer'', nr_node_id = sample_urn ''peernode'', nr_endpoint = ''x'',
     nr_object_ids = [sample_urn ''claim'']\<rparr>"

definition sample_notifier :: notifier where
  "sample_notifier = \<lparr>nf_sender_node_id = sample_urn ''node'', nf_practice_id = sample_urn ''practice'',
     nf_signing_key = sample_key, nf_signing_key_id = derive_key_id sample_key, nf_sent_at = 1700000000000000,
     nf_expires_at = 1709157600000000\<rparr>"

definition iso_reading :: "string \<Rightarrow> instant option" where
  "iso_reading s = (case fromisoformat s of Inl e \<Rightarrow> None | Inr t \<Rightarrow> Some t)"

lemma iso_reading_sample:
  "u \<in> {nf_sent_at sample_notifier, nf_expires_at sample_notifier} \<Longrightarrow> iso_reading (env_json_time sample_env u) = Some u"
proof -
  have "fromisoformat (isoformat 1700000000000000) = Inr 1700000000000000"
    "fromisoformat (isoformat 1709157600000000) = Inr 1709157600000000" by code_simp+
  then show "u \<in> {nf_sent_at sample_notifier, nf_expires_at sample_notifier} \<Longrightarrow> iso_reading (env_json_time sample_env u) = Some u"
    by (auto simp: iso_reading_def sample_notifier_def sample_env_def)
qed

lemma sample_signs: "\<exists>v. sign_object sample_env sample_key b ''Ed25519'' = Inr v"
  by (simp add: sign_object_def sign_def require_supported_algorithm_def supported_algorithms_def canonicalize_def sample_env_def)

lemma signer_fields: "signature_fields (Some (JObj (signature_dump E (notifier_signature N v)))) =
    Some (nf_practice_id N, nf_signing_key_id N, ''Ed25519'', v)"
  by (simp add: signature_dump_def notifier_signature_def)

lemma notification_validates:
  assumes schema: "env_schema E ''CorrectionNotification'' b"
    and sg: "map_of b ''signature'' = Some (JObj (signature_dump E (notifier_signature N v)))"
    and f: "map_of b ''notification_id'' = Some (JStr i)" "map_of b ''correction_id'' = Some (JStr c)"
      "map_of b ''correction_revision'' = Some (JInt k)" "map_of b ''notifying_practice_id'' = Some (JStr (nf_practice_id N))"
      "map_of b ''recipient_practice_id'' = Some (JStr q)" "map_of b ''notified_object_ids'' = Some (JArr (map JStr os))"
      "map_of b ''content_hash'' = Some (JStr h)" "map_of b ''sent_at'' = Some (JStr s)" "map_of b ''expires_at'' = Some (JStr x)"
    and time: "reading s = Some s'" "reading x = Some x'" "s' < x'"
  shows "\<exists>n. notification_validate reading E b = Inr n"
proof -
  have "dget_strs b ''notified_object_ids'' = Inr os" using f(6) by (simp add: dget_strs_def dget_def)
  moreover have "reconstruct_signed E ''CorrectionNotification'' b = Inr \<lparr>sg_signer_practice_id = nf_practice_id N,
      sg_key_id = nf_signing_key_id N, sg_algorithm = ''Ed25519'', sg_value = v, sg_dump = b\<rparr>"
    unfolding reconstruct_signed_def sg signer_fields using schema by simp
  ultimately show ?thesis using f time
    by (simp add: notification_validate_def dget_str_def dget_int_def dget_time_def dget_def del: dget_strs_Inr)
qed

text \<open>Where the correction has the fields of its contract, the messages can be built.\<close>

definition announceable :: "stored_object \<Rightarrow> bool" where
  "announceable c \<longleftrightarrow> (\<forall>k \<in> {''correction_type'', ''severity'', ''reason'', ''requested_action''}. map_of (so_body c) k \<noteq> None)"

definition notifier_ok :: "(string \<Rightarrow> instant option) \<Rightarrow> env \<Rightarrow> notifier \<Rightarrow> bool" where
  "notifier_ok reading E N \<longleftrightarrow> nf_sent_at N < nf_expires_at N \<and>
     (\<forall>u \<in> {nf_sent_at N, nf_expires_at N}. reading (env_json_time E u) = Some u) \<and>
     (\<forall>b. env_schema E ''CorrectionNotification'' b \<and> env_schema E ''NodeMessageEnvelope'' b) \<and> env_total E"

lemma signs_total: "env_total E \<Longrightarrow> \<exists>v. sign_object E sk b ''Ed25519'' = Inr v"
  by (auto simp: sign_object_def sign_def require_supported_algorithm_def supported_algorithms_def canonicalize_def
      env_total_def split: option.split)

lemma notification_available:
  assumes N: "notifier_ok reading E N" and c: "announceable c"
  shows "\<exists>n. build_and_sign_notification reading (ret nonce) E c r N w = (Inr n, w\<lparr>w_ticks := Suc (w_ticks w)\<rparr>)"
proof -
  let ?i = "urn_text ''correction-notification'' (env_ulid E (w_ticks w))" and ?w1 = "w\<lparr>w_ticks := Suc (w_ticks w)\<rparr>"
  have E: "env_total E" and tm: "nf_sent_at N < nf_expires_at N" "reading (env_json_time E (nf_sent_at N)) = Some (nf_sent_at N)"
    "reading (env_json_time E (nf_expires_at N)) = Some (nf_expires_at N)"
    and sch: "env_schema E ''CorrectionNotification'' b" for b using N by (simp_all add: notifier_ok_def)
  have en: "entity_ok ''correction-notification''" by (simp add: entity_ok_def entity_char_def less_eq_char_def)
  have fe: "\<exists>d. notification_fields E c r N ?i k = Inr d" for k
    using c by (auto simp: announceable_def notification_fields_def Let_def dget_def)
  obtain d0 d where d0: "notification_fields E c r N ?i [] = Inr d0" and d: "notification_fields E c r N ?i nonce = Inr d"
    using fe by blast
  obtain h where h: "compute_content_hash E d = Inr h" using env_total_hash [OF E] by blast
  obtain v where v: "sign_object E (nf_signing_key N) (dset ''content_hash'' (JStr h) d) ''Ed25519'' = Inr v"
    using signs_total [OF E] by blast
  note f = notification_fields_Inr [OF d]
  obtain n0 where n0: "notification_validate reading E d = Inr n0"
    using notification_validates [OF sch, of d N placeholder_signature_value] f tm by blast
  let ?b = "dset ''signature'' (JObj (signature_dump E (notifier_signature N v))) (dset ''content_hash'' (JStr h) d)"
  have sg: "map_of ?b ''signature'' = Some (JObj (signature_dump E (notifier_signature N v)))" by simp
  have "\<exists>n. notification_validate reading E ?b = Inr n"
    by (rule notification_validates [OF sch sg, of ?i "so_id c" "so_revision c" "nr_practice_id r" "nr_object_ids r" h])
      (use f tm in simp_all)
  then obtain n where n: "notification_validate reading E ?b = Inr n" by blast
  have "build_and_sign_notification reading (ret nonce) E c r N w = (Inr n, ?w1)"
    unfolding build_and_sign_notification_def bindp_def Let_def
    by (simp add: new_urn_run [OF en] lift_run ret_run d0 d n0 h v n)
  then show ?thesis by blast
qed

lemma envelope_available:
  assumes N: "notifier_ok reading E N"
  shows "\<exists>e. build_and_sign_envelope E n r N w = (Inr e, w\<lparr>w_ticks := Suc (w_ticks w)\<rparr>)"
proof -
  have E: "env_total E" and tm: "nf_sent_at N < nf_expires_at N" and sch: "env_schema E ''NodeMessageEnvelope'' b" for b
    using N by (simp_all add: notifier_ok_def)
  have en: "entity_ok ''node-message-envelope''" by (simp add: entity_ok_def entity_char_def less_eq_char_def)
  have ne: "new_envelope E (\<lparr>ne_message_id = i, ne_sender_node_id = nf_sender_node_id N,
           ne_sender_practice_id = nf_practice_id N, ne_recipient_node_id = nr_node_id r,
           ne_sent_at = nf_sent_at N, ne_expires_at = nf_expires_at N, ne_payload_kind = ''CorrectionNotification'',
           ne_payload_content_hash = cn_content_hash n, ne_payload = sg_dump (cn_signed n),
           ne_signature = notifier_signature N v\<rparr>) = Inr \<lparr>ne_message_id = i, ne_sender_node_id = nf_sender_node_id N,
           ne_sender_practice_id = nf_practice_id N, ne_recipient_node_id = nr_node_id r,
           ne_sent_at = nf_sent_at N, ne_expires_at = nf_expires_at N, ne_payload_kind = ''CorrectionNotification'',
           ne_payload_content_hash = cn_content_hash n, ne_payload = sg_dump (cn_signed n),
           ne_signature = notifier_signature N v\<rparr>" for i v
    using tm sch by (simp add: new_envelope_def notifier_signature_def)
  let ?i = "urn_text ''node-message-envelope'' (env_ulid E (w_ticks w))"
  obtain v where v: "sign_object E (nf_signing_key N) (envelope_dump E \<lparr>ne_message_id = ?i, ne_sender_node_id = nf_sender_node_id N,
           ne_sender_practice_id = nf_practice_id N, ne_recipient_node_id = nr_node_id r,
           ne_sent_at = nf_sent_at N, ne_expires_at = nf_expires_at N, ne_payload_kind = ''CorrectionNotification'',
           ne_payload_content_hash = cn_content_hash n, ne_payload = sg_dump (cn_signed n),
           ne_signature = notifier_signature N placeholder_signature_value\<rparr>) ''Ed25519'' = Inr v"
    using signs_total [OF E] by blast
  show ?thesis
    unfolding build_and_sign_envelope_def bindp_def Let_def
    by (simp add: new_urn_run [OF en] lift_run ret_run ne v)
qed

lemma sample_notifier_ok: "notifier_ok iso_reading sample_env sample_notifier"
  using iso_reading_sample env_total_sample
  by (simp add: notifier_ok_def sample_env_def) (simp add: sample_notifier_def)

lemma sample_announceable: "announceable sample_notice"
  by (simp add: announceable_def sample_notice_def)

theorem sent_notifications_are_genuine_witness:
  "\<exists>(w :: world) n w1 e w2.
     build_and_sign_notification iso_reading (ret ''nonce'') sample_env sample_notice sample_recipient sample_notifier w = (Inr n, w1) \<and>
     build_and_sign_envelope sample_env n sample_recipient sample_notifier w1 = (Inr e, w2) \<and>
     genuine iso_reading sample_env e (sample_urn ''peernode'') (sample_urn ''practice'') sample_ring False 1700000000000007 n"
proof -
  obtain n where n: "build_and_sign_notification iso_reading (ret ''nonce'') sample_env sample_notice sample_recipient
      sample_notifier empty_world = (Inr n, empty_world\<lparr>w_ticks := Suc (w_ticks empty_world)\<rparr>)"
    using notification_available [OF sample_notifier_ok sample_announceable] by blast
  obtain e where e: "build_and_sign_envelope sample_env n sample_recipient sample_notifier
      (empty_world\<lparr>w_ticks := Suc (w_ticks empty_world)\<rparr>) = (Inr e, empty_world\<lparr>w_ticks := Suc (Suc (w_ticks empty_world))\<rparr>)"
    using envelope_available [OF sample_notifier_ok, where w = "empty_world\<lparr>w_ticks := Suc (w_ticks empty_world)\<rparr>"] by auto
  have s: "nf_signing_key sample_notifier = sample_key" "nf_signing_key_id sample_notifier = derive_key_id sample_key"
    "nf_practice_id sample_notifier = sample_urn ''practice''" "nr_node_id sample_recipient = sample_urn ''peernode''"
    "nf_sent_at sample_notifier = 1700000000000000" "nf_expires_at sample_notifier = 1709157600000000"
    by (simp_all add: sample_notifier_def sample_recipient_def)
  have "genuine iso_reading sample_env e (nr_node_id sample_recipient) (nf_practice_id sample_notifier) sample_ring False
      1700000000000007 n"
    using sent_notifications_are_genuine [OF n e iso_reading_sample, of sample_key sample_ring sample_descriptor 1700000000000007]
    by (simp add: s)
  with n e show ?thesis unfolding s by blast
qed

end
