(* ===== verification/Notification_Sending.thy ===== *)
theory Notification_Sending
  imports Notification_Properties
begin

text \<open>
  What \<^verbatim>\<open>notify_affected_practices\<close> does: whom it writes to, what it records of each delivery, the
  status it leaves the correction in, and what a second call finds.
\<close>

section \<open>Whom the log names\<close>

definition sent_to :: "urn \<Rightarrow> domain_event \<Rightarrow> bool" where
  "sent_to i e \<longleftrightarrow> de_object_id e = i \<and> de_event_type e = ''correction.notification_sent'' \<and>
     map_of (de_payload e) ''delivery_status'' = Some (JStr ''sent'')"

text \<open>The practices told of a correction, and a log whose entries about it all name theirs.\<close>

definition told :: "db \<Rightarrow> urn \<Rightarrow> urn set" where
  "told d i = {p. \<exists>e \<in> set (event_list d). sent_to i e \<and> map_of (de_payload e) ''recipient_practice_id'' = Some (JStr p)}"

definition named :: "db \<Rightarrow> urn \<Rightarrow> bool" where
  "named d i \<longleftrightarrow> (\<forall>e \<in> set (event_list d). sent_to i e \<longrightarrow>
     (\<exists>p. map_of (de_payload e) ''recipient_practice_id'' = Some (JStr p)))"

lemma mapp_lift_Inr: "mapp (\<lambda>x. lift (f x)) xs w = (Inr ys, w') \<Longrightarrow> w' = w \<and> list_all2 (\<lambda>x y. f x = Inr y) xs ys"
proof (induction xs arbitrary: ys w)
  case (Cons x xs)
  from Cons.prems obtain y zs where "f x = Inr y" "mapp (\<lambda>x. lift (f x)) xs w = (Inr zs, w')" "ys = y # zs"
    by (auto elim!: bindp_InrE lift_InrE ret_InrE)
  with Cons.IH show ?case by auto
qed (auto simp: ret_run)

lemma mapp_lift_run: "\<forall>x \<in> set xs. \<exists>y. f x = Inr y \<Longrightarrow> \<exists>ys. mapp (\<lambda>x. lift (f x)) xs w = (Inr ys, w)"
  by (induction xs) (auto simp: ret_run bindp_def lift_run)

lemma told_filter: "filter (\<lambda>e. de_object_id e = i \<and> de_event_type e = ''correction.notification_sent'' \<and>
    map_of (de_payload e) ''delivery_status'' = Some (JStr ''sent'')) es = filter (sent_to i) es"
  by (rule filter_cong) (simp_all add: sent_to_def)

lemma dget_str_iff: "dget_str d k = Inr s \<longleftrightarrow> map_of d k = Some (JStr s)"
  by (auto simp: dget_str_def dget_def split: option.splits json.splits)

lemma already_sent_Inr:
  assumes ok: "log_ok E w" and run: "already_sent_recipient_ids i w = (Inr ids, w')"
  shows "w' = w \<and> set ids = told (w_db w) i \<and> named (w_db w) i"
proof -
  have r: "mapp (\<lambda>e. lift (dget_str (de_payload e) ''recipient_practice_id'')) (filter (sent_to i) (event_list (w_db w))) w =
      (Inr ids, w')"
    using run unfolding already_sent_recipient_ids_def told_filter by (simp add: bindp_def read_all_run [OF ok] event_list_def)
  note m = mapp_lift_Inr [OF r]
  then have l: "list_all2 (\<lambda>e p. map_of (de_payload e) ''recipient_practice_id'' = Some (JStr p))
      (filter (sent_to i) (event_list (w_db w))) ids" by (simp only: dget_str_iff)
  have "set ids = told (w_db w) i"
  proof (intro set_eqI iffI)
    fix p assume "p \<in> set ids"
    then obtain k where k: "k < length ids" "p = ids ! k" by (auto simp: in_set_conv_nth)
    with l have "filter (sent_to i) (event_list (w_db w)) ! k \<in> set (filter (sent_to i) (event_list (w_db w)))"
      "map_of (de_payload (filter (sent_to i) (event_list (w_db w)) ! k)) ''recipient_practice_id'' = Some (JStr p)"
      by (auto simp: list_all2_conv_all_nth simp del: set_filter)
    then show "p \<in> told (w_db w) i" unfolding told_def by auto
  next
    fix p assume "p \<in> told (w_db w) i"
    then obtain e where e: "e \<in> set (filter (sent_to i) (event_list (w_db w)))"
      "map_of (de_payload e) ''recipient_practice_id'' = Some (JStr p)" by (auto simp: told_def)
    then obtain k where "k < length (filter (sent_to i) (event_list (w_db w)))"
      "e = filter (sent_to i) (event_list (w_db w)) ! k" by (metis in_set_conv_nth)
    with e l show "p \<in> set ids" by (auto simp: list_all2_conv_all_nth)
  qed
  moreover have "named (w_db w) i"
    unfolding named_def
  proof (intro ballI impI)
    fix e assume "e \<in> set (event_list (w_db w))" "sent_to i e"
    then have "e \<in> set (filter (sent_to i) (event_list (w_db w)))" by simp
    then obtain k where "k < length (filter (sent_to i) (event_list (w_db w)))"
      "e = filter (sent_to i) (event_list (w_db w)) ! k" by (metis in_set_conv_nth)
    with l show "\<exists>p. map_of (de_payload e) ''recipient_practice_id'' = Some (JStr p)" by (auto simp: list_all2_conv_all_nth)
  qed
  ultimately show ?thesis using m by blast
qed

lemma already_sent_run:
  assumes ok: "log_ok E w" and n: "named (w_db w) i"
  shows "\<exists>ids. already_sent_recipient_ids i w = (Inr ids, w)"
proof -
  have "\<forall>e \<in> set (filter (sent_to i) (event_list (w_db w))). \<exists>p. dget_str (de_payload e) ''recipient_practice_id'' = Inr p"
    using n by (auto simp: named_def dget_str_iff)
  from mapp_lift_run [OF this] show ?thesis
    unfolding already_sent_recipient_ids_def told_filter by (simp add: bindp_def read_all_run [OF ok] event_list_def)
qed

section \<open>Loops that record\<close>

lemma event_list_commit: "committed E os xs e w w' \<Longrightarrow> event_list (w_db w') = event_list (w_db w) @ [e]"
  by (auto simp: committed_def event_list_def)

text \<open>Events recorded one after the other: the log grows by them, nothing else changes.\<close>

definition recorded :: "env \<Rightarrow> domain_event list \<Rightarrow> world \<Rightarrow> world \<Rightarrow> bool" where
  "recorded E es w w' \<longleftrightarrow> world_ok E w' \<and> event_list (w_db w') = event_list (w_db w) @ es \<and>
     objects_tbl (w_db w') = objects_tbl (w_db w) \<and> edges_tbl (w_db w') = edges_tbl (w_db w)"

lemma record_all_Inr:
  assumes "world_ok E w" and "list_all event_ok es" and "mapp (record_event E (ret ())) es w = (Inr as, w')"
  shows "recorded E es w w'"
  using assms
proof (induction es arbitrary: w as)
  case (Cons e es)
  from Cons.prems(3) obtain a v bs where a: "record_event E (ret ()) e w = (Inr a, v)"
    and b: "mapp (record_event E (ret ())) es v = (Inr bs, w')" by (auto elim!: bindp_InrE ret_InrE)
  have c: "committed E [] [] e w v" using record_event_Inr [OF Cons.prems(1) _ a] Cons.prems(2) by simp
  have "recorded E es v w'" by (rule Cons.IH [OF committed_tables(3) [OF c] _ b]) (use Cons.prems(2) in simp)
  then show ?case using event_list_commit [OF c] committed_tables(1,2) [OF c] by (simp add: recorded_def)
qed (simp add: ret_run recorded_def)

section \<open>One call\<close>

text \<open>A delivery: the messages that were built for its recipient, and what the transport said.\<close>

definition carried ::
  "(string \<Rightarrow> instant option) \<Rightarrow> (world, string) prog \<Rightarrow> transport \<Rightarrow> env \<Rightarrow> stored_object \<Rightarrow> notifier \<Rightarrow>
   notification_recipient \<Rightarrow> delivery_result \<Rightarrow> bool" where
  "carried reading token_hex send E latest N r d \<longleftrightarrow> dr_recipient d = r \<and>
     (\<exists>n e v0 v1 v2 v3. build_and_sign_notification reading token_hex E latest r N v0 = (Inr n, v1) \<and>
        build_and_sign_envelope E n r N v1 = (Inr e, v2) \<and> send e (nr_endpoint r) v2 = (Inr (dr_status d), v3) \<and>
        dr_notification_id d = cn_notification_id n \<and> dr_message_id d = ne_message_id e)"

lemma readonly_deliver:
  assumes "keeps same_db token_hex" and "\<And>e p. keeps same_db (send e p)"
  shows "keeps same_db (deliver_one reading token_hex send E latest N r)"
  unfolding deliver_one_def build_and_sign_notification_def build_and_sign_envelope_def Let_def
  by (intro readonly assms)

lemma deliver_one_Inr:
  "deliver_one reading token_hex send E latest N r w = (Inr d, w') \<Longrightarrow> carried reading token_hex send E latest N r d"
  unfolding deliver_one_def carried_def
  by (elim bindp_InrE ret_InrE) (hypsubst, simp, blast)

text \<open>The entry of the log for a delivery.\<close>

definition entry_of :: "call_ctx \<Rightarrow> urn \<Rightarrow> delivery_result \<Rightarrow> domain_event \<Rightarrow> bool" where
  "entry_of ctx i d e \<longleftrightarrow> event_ok e \<and> de_event_type e = ''correction.notification_sent'' \<and> de_object_id e = i \<and>
     de_payload e = sent_payload d \<and> de_actor e = cx_actor ctx"

lemma entry_sent: "entry_of ctx i d e \<Longrightarrow> sent_to j e \<longleftrightarrow> j = i \<and> dr_status d = ''delivered''"
  by (auto simp: entry_of_def sent_to_def sent_payload_def)

lemma entry_recipient:
  "entry_of ctx i d e \<Longrightarrow> map_of (de_payload e) ''recipient_practice_id'' = Some (JStr (nr_practice_id (dr_recipient d)))"
  by (simp add: entry_of_def sent_payload_def)

definition delivered_to :: "delivery_result list \<Rightarrow> urn set" where
  "delivered_to ds = {nr_practice_id (dr_recipient d) |d. d \<in> set ds \<and> dr_status d = ''delivered''}"

lemma told_entries:
  assumes l: "list_all2 (entry_of ctx i) ds es" and d': "event_list d' = event_list d @ es"
  shows "told d' i = told d i \<union> delivered_to ds" and "named d i \<Longrightarrow> named d' i"
proof -
  have "{p. \<exists>e \<in> set es. sent_to i e \<and> map_of (de_payload e) ''recipient_practice_id'' = Some (JStr p)} = delivered_to ds"
    using l
  proof (induction rule: list_all2_induct)
    case (Cons d ds e es)
    have "{p. \<exists>x \<in> set (e # es). sent_to i x \<and> map_of (de_payload x) ''recipient_practice_id'' = Some (JStr p)} =
        {p. sent_to i e \<and> map_of (de_payload e) ''recipient_practice_id'' = Some (JStr p)} \<union> delivered_to ds"
      using Cons by auto
    also have "\<dots> = delivered_to (d # ds)"
      using entry_sent [OF Cons(1)] entry_recipient [OF Cons(1)] by (auto simp: delivered_to_def)
    finally show ?case .
  qed (simp add: delivered_to_def)
  then show "told d' i = told d i \<union> delivered_to ds" unfolding told_def d' set_append by blast
  have "\<forall>e \<in> set es. \<exists>p. map_of (de_payload e) ''recipient_practice_id'' = Some (JStr p)"
    using l by (induction rule: list_all2_induct) (auto dest: entry_recipient)
  then show "named d i \<Longrightarrow> named d' i" unfolding named_def d' by auto
qed

text \<open>The revision a call writes, if the status changes.\<close>

lemma status_revision_Inr:
  assumes "status_revision E ctx latest current final t = Inr x"
  shows "(x = None) = (final = current) \<and> (\<forall>r. x = Some r \<longrightarrow> so_id r = so_id latest \<and> so_kind r = so_kind latest \<and>
    so_revision r = so_revision latest + 1 \<and> status_of r = Some final)"
  using assms
  by (auto simp: status_revision_def next_object_def status_of_Some dest!: finish_body_Inr(5) [where k = "''status''"] split: sum.splits prod.splits if_splits)

text \<open>Everything a successful call with somebody left to write to did.\<close>

definition notified ::
  "(string \<Rightarrow> instant option) \<Rightarrow> (world, string) prog \<Rightarrow> transport \<Rightarrow> env \<Rightarrow> call_ctx \<Rightarrow> notifier \<Rightarrow> stored_object \<Rightarrow>
   notification_recipient list \<Rightarrow> delivery_result list \<Rightarrow> stored_object \<Rightarrow> world \<Rightarrow> world \<Rightarrow> bool" where
  "notified reading token_hex send E ctx N latest pending ds r w w' \<longleftrightarrow>
     list_all2 (carried reading token_hex send E latest N) pending ds \<and>
     (\<exists>current final. status_of latest = Some current \<and>
        target_status_after_notification current (list_ex (\<lambda>d. dr_status d = ''failed'') ds) = Inr final \<and>
        (if final = current then r = latest \<and> objects_tbl (w_db w') = objects_tbl (w_db w)
         else so_id r = so_id latest \<and> so_revision r = so_revision latest + 1 \<and> status_of r = Some final \<and>
           objects_tbl (w_db w') = objects_tbl (w_db w) @ [r])) \<and>
     (\<exists>es. event_list (w_db w') = event_list (w_db w) @ es \<and> list_all2 (entry_of ctx (so_id latest)) ds es) \<and>
     edges_tbl (w_db w') = edges_tbl (w_db w) \<and> world_ok E w'"

lemma record_sent_Inr:
  assumes ok: "world_ok E w" and es: "list_all event_ok es" and run: "record_sent_events E S es w = (Inr u, w')"
  shows "recorded E es w w'"
proof (cases "es = []")
  case True
  with run ok show ?thesis by (simp add: record_sent_events_def ret_run recorded_def)
next
  case False
  with run obtain as where "mapp (record_event E (ret ())) es w = (Inr as, w')"
    by (auto simp: record_sent_events_def require_record_event_def elim!: bindp_InrE guardp_InrE ret_InrE)
  from record_all_Inr [OF ok es this] show ?thesis .
qed

lemma notify_Inr:
  assumes ok: "world_ok E w" and ro: "keeps same_db token_hex" "\<And>e p. keeps same_db (send e p)"
    and run: "notify_affected_practices reading token_hex send E S ctx i recipients N w = (Inr r, w')"
  shows "history_of (w_db w) i \<noteq> [] \<and> named (w_db w) i \<and>
    (let latest = last (history_of (w_db w) i); pending = filter (\<lambda>r. nr_practice_id r \<notin> told (w_db w) i) recipients in
     so_id latest = i \<and>
     (if pending = [] then r = latest \<and> w' = w
      else \<exists>ds. notified reading token_hex send E ctx N latest pending ds r w w'))"
proof -
  from run [unfolded notify_affected_practices_def Let_def] obtain latest v0 ids v1 where
    s0: "get_latest_or (CorrectionNotFoundError i) i w = (Inr latest, v0)"
    and s1: "already_sent_recipient_ids i v0 = (Inr ids, v1)"
    and s2: "(if filter (\<lambda>r. nr_practice_id r \<notin> set ids) recipients = [] then ret latest
     else
       bindp (mapp (deliver_one reading token_hex send E latest N) (filter (\<lambda>r. nr_practice_id r \<notin> set ids) recipients)) (\<lambda>results.
       bindp (lift (dget_str (so_body latest) ''status'')) (\<lambda>current.
       bindp (lift (target_status_after_notification current (list_ex (\<lambda>d. dr_status d = ''failed'') results))) (\<lambda>final.
       bindp (now E) (\<lambda>t.
       bindp (lift (status_revision E ctx latest current final t)) (\<lambda>new_obj.
       bindp (last_event_id_for (so_id latest)) (\<lambda>causation.
       bindp (mapp (\<lambda>d. make_event E ctx ''correction.notification_sent'' (ret t) (ret causation) (so_id latest)
          (case new_obj of None \<Rightarrow> so_revision latest | Some r \<Rightarrow> so_revision r) (sent_payload d)) results) (\<lambda>events.
       case new_obj of
         None \<Rightarrow> bindp (record_sent_events E S events) (\<lambda>_. ret latest)
       | Some r \<Rightarrow>
           bindp (bind_unit_of_work E r (Some (so_revision latest)) (hd events)) (\<lambda>(stored, _).
           bindp (record_sent_events E S (tl events)) (\<lambda>_. ret stored))))))))))  v1 = (Inr r, w')"
    by (elim bindp_InrE) (rule that)
  note l = get_latest_or_Inr [OF world_ok_parts(2) [OF ok] s0]
  have v0: "v0 = w" and la: "latest = last (history_of (w_db w) i)" and ne: "history_of (w_db w) i \<noteq> []"
    and li: "so_id latest = i" using l by blast+
  note a = already_sent_Inr [OF world_ok_parts(1) [OF ok] s1 [unfolded v0]]
  have v1: "v1 = w" and ids: "set ids = told (w_db w) i" and nm: "named (w_db w) i" using a by blast+
  let ?p = "filter (\<lambda>r. nr_practice_id r \<notin> told (w_db w) i) recipients"
  note s2' = s2 [unfolded ids v1]
  have "if ?p = [] then r = latest \<and> w' = w
      else \<exists>ds. notified reading token_hex send E ctx N latest ?p ds r w w'"
  proof (cases "?p = []")
    case True
    with s2' show ?thesis by (simp only: if_True simp_thms ret_run prod.inject sum.inject)
  next
    case False
    then have "?p \<noteq> []" .
    from s2' [unfolded if_not_P [OF this]] obtain ds u1 current final t u2 new_obj causation u3 events u4 where
      d1: "mapp (deliver_one reading token_hex send E latest N) ?p w = (Inr ds, u1)"
      and cu: "dget_str (so_body latest) ''status'' = Inr current"
      and fi: "target_status_after_notification current (list_ex (\<lambda>d. dr_status d = ''failed'') ds) = Inr final"
      and d2: "now E u1 = (Inr t, u2)"
      and sr: "status_revision E ctx latest current final t = Inr new_obj"
      and d3: "last_event_id_for (so_id latest) u2 = (Inr causation, u3)"
      and d4: "mapp (\<lambda>d. make_event E ctx ''correction.notification_sent'' (ret t) (ret causation) (so_id latest)
          (case new_obj of None \<Rightarrow> so_revision latest | Some r \<Rightarrow> so_revision r) (sent_payload d)) ds u3 = (Inr events, u4)"
      and d5: "(case new_obj of
         None \<Rightarrow> bindp (record_sent_events E S events) (\<lambda>_. ret latest)
       | Some r \<Rightarrow>
           bindp (bind_unit_of_work E r (Some (so_revision latest)) (hd events)) (\<lambda>(stored, _).
           bindp (record_sent_events E S (tl events)) (\<lambda>_. ret stored))) u4 = (Inr r, w')"
      by (elim bindp_InrE lift_InrE) (hypsubst+, rule that, (assumption | rule refl)+)
    have k1: "same_db w u1" and ca: "list_all2 (carried reading token_hex send E latest N) ?p ds"
      using mapp_readonly_Inr [OF d1 readonly_deliver [OF ro], of "carried reading token_hex send E latest N"] deliver_one_Inr
      by blast+
    have k3: "same_db w u3" using k1 keepsD [OF readonly_now d2] keepsD [OF readonly_last_event d3]
      by (blast intro: transpD [OF transp_same_db])
    have ev: "same_db u3 u4 \<and> list_all2 (entry_of ctx (so_id latest)) ds events"
    proof (rule mapp_readonly_Inr [OF d4])
      show "keeps same_db (make_event E ctx ''correction.notification_sent'' (ret t) (ret causation) (so_id latest)
          (case new_obj of None \<Rightarrow> so_revision latest | Some r \<Rightarrow> so_revision r) (sent_payload d))" for d
        by (intro readonly)
      show "entry_of ctx (so_id latest) d e" if "make_event E ctx ''correction.notification_sent'' (ret t) (ret causation)
          (so_id latest) (case new_obj of None \<Rightarrow> so_revision latest | Some r \<Rightarrow> so_revision r) (sent_payload d) v = (Inr e, v')"
        for d v e v'
        using make_event_Inr [OF that keeps_same_pure(1) keeps_same_pure(1)] by (simp add: entry_of_def)
    qed
    have k: "same_db w u4" using k3 ev by (blast intro: transpD [OF transp_same_db])
    have ok4: "world_ok E u4" by (rule world_ok_same_db [OF ok k])
    have db: "w_db u4 = w_db w" using k by (simp add: same_db_def)
    have eo: "list_all event_ok events"
      using ev by (auto simp: list_all2_conv_all_nth list_all_length entry_of_def)
    have ne_ev: "events \<noteq> []" using ev ca False by (auto simp: list_all2_Nil)
    note sv = status_revision_Inr [OF sr]
    have st: "status_of latest = Some current" using cu by (simp only: dget_str_status)
    have "(if final = current then r = latest \<and> objects_tbl (w_db w') = objects_tbl (w_db w)
         else so_id r = so_id latest \<and> so_revision r = so_revision latest + 1 \<and> status_of r = Some final \<and>
           objects_tbl (w_db w') = objects_tbl (w_db w) @ [r]) \<and>
       event_list (w_db w') = event_list (w_db w) @ events \<and> edges_tbl (w_db w') = edges_tbl (w_db w) \<and> world_ok E w'"
    proof (cases new_obj)
      case None
      with d5 obtain u where x: "record_sent_events E S events u4 = (Inr u, w')" and r: "r = latest"
        by (auto elim!: bindp_InrE ret_InrE)
      from record_sent_Inr [OF ok4 eo x] sv None r show ?thesis by (simp add: recorded_def db)
    next
      case (Some new)
      from d5 [unfolded Some option.case case_prod_beta] obtain sa u5 u where
        x: "bind_unit_of_work E new (Some (so_revision latest)) (hd events) u4 = (Inr sa, u5)"
        and y: "record_sent_events E S (tl events) u5 = (Inr u, w')" and r: "r = fst sa"
        by (elim bindp_InrE ret_InrE) (hypsubst+, rule that, (assumption | rule refl)+)
      obtain s a where sa: "sa = (s, a)" by fastforce
      have eh: "event_ok (hd events)" "list_all event_ok (tl events)" using eo ne_ev by (cases events; simp)+
      note un = unit_of_work_Inr [OF ok4 eh(1) x [unfolded sa]]
      have c: "committed E [new] [] (hd events) u4 u5" using un by blast
      have rn: "r = new" using un r sa by simp
      note rc = record_sent_Inr [OF committed_tables(3) [OF c] eh(2) y]
      show ?thesis
        using rc sv Some rn committed_tables(1,2) [OF c] event_list_commit [OF c] ne_ev
        by (simp add: recorded_def db)
    qed
    with ca st fi ev have "notified reading token_hex send E ctx N latest ?p ds r w w'" unfolding notified_def by blast
    with False show ?thesis by (simp only: if_False) blast
  qed
  with ne nm li show ?thesis unfolding Let_def la by blast
qed

lemma notify_again:
  assumes ok: "world_ok E w" and ne: "history_of (w_db w) i \<noteq> []" and nm: "named (w_db w) i"
    and all: "\<forall>x \<in> set recipients. nr_practice_id x \<in> told (w_db w) i"
  shows "notify_affected_practices reading token_hex send E S ctx i recipients N w = (Inr (last (history_of (w_db w) i)), w)"
proof -
  note g = get_latest_or_run [OF world_ok_parts(2) [OF ok] ne, of "CorrectionNotFoundError i"]
  obtain ids where a: "already_sent_recipient_ids i w = (Inr ids, w)"
    using already_sent_run [OF world_ok_parts(1) [OF ok] nm] by blast
  have "set ids = told (w_db w) i" using already_sent_Inr [OF world_ok_parts(1) [OF ok] a] by blast
  with all have "filter (\<lambda>r. nr_practice_id r \<notin> set ids) recipients = []" by (simp add: filter_empty_conv)
  then show ?thesis by (simp add: notify_affected_practices_def bindp_def g a ret_run)
qed

lemma carried_recipients: "list_all2 (carried reading token_hex send E latest N) rs ds \<Longrightarrow> map dr_recipient ds = rs"
  by (induction rule: list_all2_induct) (auto simp: carried_def)

text \<open>
  C12. Every entry of the recipients that is due is told, and recorded, once. A successful call of
  \<^verbatim>\<open>notify_affected_practices\<close> builds and sends, in the order of the recipients, one message for
  each entry whose practice the log does not show as told; so a practice gets one message where
  the call names no practice twice, and a practice that the call names twice gets two. The call adds
  exactly one entry to the log for each of these deliveries, and makes exactly the delivered ones
  told. The correction moves along its lifecycle to the status the deliveries call for, in at most
  one new revision, and nothing else is written. Any later call, by anyone, that names only
  practices already told sends nothing, returns the same revision and changes nothing.
\<close>

theorem notify_tells_each_recipient:
  assumes ok: "world_ok E w" and ro: "keeps same_db token_hex" "\<And>e p. keeps same_db (send e p)"
    and run: "notify_affected_practices reading token_hex send E S ctx i recipients N w = (Inr r, w')"
    and pd: "pending = filter (\<lambda>x. nr_practice_id x \<notin> told (w_db w) i) recipients"
    and la: "latest = last (history_of (w_db w) i)"
  shows "\<exists>ds. list_all2 (carried reading token_hex send E latest N) pending ds \<and>
    map dr_recipient ds = pending \<and>
    (distinct (map nr_practice_id recipients) \<longrightarrow> distinct (map (\<lambda>d. nr_practice_id (dr_recipient d)) ds)) \<and>
    (\<exists>es. event_list (w_db w') = event_list (w_db w) @ es \<and> list_all2 (entry_of ctx i) ds es) \<and>
    told (w_db w') i = told (w_db w) i \<union> delivered_to ds \<and>
    r = last (history_of (w_db w') i) \<and>
    (if pending = [] then w' = w
     else \<exists>current final. status_of latest = Some current \<and>
        target_status_after_notification current (list_ex (\<lambda>d. dr_status d = ''failed'') ds) = Inr final \<and>
        history_of (w_db w') i = history_of (w_db w) i @ (if final = current then [] else [r]) \<and> status_of r = Some final) \<and>
    edges_tbl (w_db w') = edges_tbl (w_db w) \<and> (\<forall>j. j \<noteq> i \<longrightarrow> history_of (w_db w') j = history_of (w_db w) j) \<and>
    (\<forall>ctx' S' N' again. (\<forall>x \<in> set again. nr_practice_id x \<in> told (w_db w') i) \<longrightarrow>
       notify_affected_practices reading token_hex send E S' ctx' i again N' w' = (Inr r, w'))"
proof -
  note n = notify_Inr [OF ok ro run, unfolded Let_def, folded la, folded pd]
  have ne: "history_of (w_db w) i \<noteq> []" and nm: "named (w_db w) i" and li: "so_id latest = i" using n by blast+
  show ?thesis
  proof (cases "pending = []")
    case True
    with n have r: "r = latest" and w': "w' = w" by simp_all
    have "\<forall>ctx' S' N' again. (\<forall>x \<in> set again. nr_practice_id x \<in> told (w_db w) i) \<longrightarrow>
       notify_affected_practices reading token_hex send E S' ctx' i again N' w = (Inr latest, w)"
      using notify_again [OF ok ne nm] la by blast
    with True r w' la show ?thesis by (intro exI [of _ "[]"]) (simp add: delivered_to_def)
  next
    case False
    with n obtain ds where d: "notified reading token_hex send E ctx N latest pending ds r w w'" by auto
    from d obtain es where es: "event_list (w_db w') = event_list (w_db w) @ es" "list_all2 (entry_of ctx i) ds es"
      unfolding notified_def li by blast
    note t = told_entries [OF es(2,1)]
    from d obtain current final where c: "status_of latest = Some current"
      "target_status_after_notification current (list_ex (\<lambda>d. dr_status d = ''failed'') ds) = Inr final"
      and f: "if final = current then r = latest \<and> objects_tbl (w_db w') = objects_tbl (w_db w)
         else so_id r = i \<and> so_revision r = so_revision latest + 1 \<and> status_of r = Some final \<and>
           objects_tbl (w_db w') = objects_tbl (w_db w) @ [r]"
      unfolding notified_def li by blast
    have h: "history_of (w_db w') i = history_of (w_db w) i @ (if final = current then [] else [r])" "status_of r = Some final"
      "\<forall>j. j \<noteq> i \<longrightarrow> history_of (w_db w') j = history_of (w_db w) j"
      using f c by (auto simp: history_of_def split: if_splits)
    have lr: "r = last (history_of (w_db w') i)" "history_of (w_db w') i \<noteq> []"
      using h(1) f ne la by (auto split: if_splits)
    have ok': "world_ok E w'" and ed: "edges_tbl (w_db w') = edges_tbl (w_db w)" and ca:
      "list_all2 (carried reading token_hex send E latest N) pending ds" using d unfolding notified_def by blast+
    have ag: "\<forall>ctx' S' N' again. (\<forall>x \<in> set again. nr_practice_id x \<in> told (w_db w') i) \<longrightarrow>
       notify_affected_practices reading token_hex send E S' ctx' i again N' w' = (Inr r, w')"
      using notify_again [OF ok' lr(2) t(2) [OF nm]] lr(1) by blast
    note rc = carried_recipients [OF ca]
    have "map (\<lambda>d. nr_practice_id (dr_recipient d)) ds = map nr_practice_id pending"
      unfolding rc [symmetric] by simp
    then have di: "distinct (map (\<lambda>d. nr_practice_id (dr_recipient d)) ds)" if "distinct (map nr_practice_id recipients)"
      using that by (simp add: pd distinct_map_filter)
    have e: "\<exists>es. event_list (w_db w') = event_list (w_db w) @ es \<and> list_all2 (entry_of ctx i) ds es"
      by (rule exI, rule conjI [OF es])
    have ch: "\<exists>current final. status_of latest = Some current \<and>
        target_status_after_notification current (list_ex (\<lambda>d. dr_status d = ''failed'') ds) = Inr final \<and>
        history_of (w_db w') i = history_of (w_db w) i @ (if final = current then [] else [r]) \<and> status_of r = Some final"
      by (rule exI, rule exI, rule conjI [OF c(1) conjI [OF c(2) conjI [OF h(1,2)]]])
    show ?thesis
      unfolding if_not_P [OF False]
      by (rule exI [of _ ds], rule conjI [OF ca conjI [OF rc conjI [OF impI [OF di] conjI [OF e conjI [OF t(1)
          conjI [OF lr(1) conjI [OF ch conjI [OF ed conjI [OF h(3) ag]]]]]]]]])
  qed
qed

section \<open>A call that succeeds\<close>

lemma noted_event_run:
  assumes ok: "log_ok E w" and c: "last_event_id_for j w = (Inr c, v)" and ctx: "ctx_ok ctx" and E: "env_total E"
    and i: "is_valid_urn i" and ty: "non_empty ty" and n: "1 \<le> n"
  shows "\<exists>e. make_event E ctx ty (ret t) (ret c) i n p w = (Inr e, w\<lparr>w_ticks := Suc (w_ticks w)\<rparr>) \<and>
      de_id e = event_id_at E (w_ticks w)"
proof -
  have "ulid_ok (env_ulid E (w_ticks w))" using E by (simp add: env_total_def)
  with ctx i ty n last_event_valid [OF ok, of j] c show ?thesis
    by (auto simp: make_event_def bindp_def new_urn_run ret_run lift_run new_domain_event_def event_ok_def
        ctx_ok_def event_id_at_def split: option.splits)
qed

definition always_delivers :: transport where
  "always_delivers e p = ret ''delivered''"

lemma notice_world:
  obtains w where "world_ok sample_env w" and "history_of (w_db w) (sample_urn ''correction'') = [sample_notice]"
    and "w_ticks w = 3" and "event_ids (w_db w) = map (event_id_at sample_env) [0]"
    and "\<forall>j. told (w_db w) j = {}" and "\<forall>j. named (w_db w) j"
proof -
  let ?E = sample_env
  have ids: "event_ids (w_db empty_world) = map (event_id_at ?E) []" by (simp add: start_fresh)
  have new: "w_ticks empty_world mod 64 \<notin> (\<lambda>m. m mod 64) ` set []" by simp
  have ty: "non_empty ''x''" by (simp add: non_empty_def is_space_def)
  have p1: "so_revision sample_notice = 1" "is_valid_urn (so_id sample_notice)"
    "history_of (w_db empty_world) (so_id sample_notice) = []"
    by (simp_all add: start_fresh sample_notice_def)
  obtain w e where c: "committed ?E [sample_notice] [] e empty_world w" "de_event_type e = ''x''"
    "history_of (w_db w) (so_id sample_notice) = [sample_notice]"
    "w_ticks w = w_ticks empty_world + 3" "event_ids (w_db w) = map (event_id_at ?E) ([] @ [w_ticks empty_world])"
    by (rule sample_create [OF world_ok_empty ids new p1 ty]) (rule that, assumption+)
  have el: "event_list (w_db w) = [e]"
    using event_list_commit [OF c(1)] by (simp add: empty_world_def empty_db_def event_list_def)
  have tn: "\<forall>j. told (w_db w) j = {} \<and> named (w_db w) j"
    using c(2) by (simp add: told_def named_def el sent_to_def)
  show thesis
    by (rule that [OF committed_tables(3) [OF c(1)]])
      (use c(2-5) el tn in \<open>simp_all add: start_fresh sample_notice_def\<close>)
qed

lemma target_when_delivered: "target_status_after_notification ''OPEN'' False = Inr ''AWAITING_RESPONSES''"
  by code_simp

lemma sample_notify:
  obtains w r w' where "world_ok sample_env w" and "history_of (w_db w) (sample_urn ''correction'') = [sample_notice]"
    and "told (w_db w) (sample_urn ''correction'') = {}"
    and "notify_affected_practices iso_reading (ret ''nonce'') always_delivers sample_env sample_correction_service sample_ctx
      (sample_urn ''correction'') [sample_recipient] sample_notifier w = (Inr r, w')"
proof -
  let ?E = sample_env and ?i = "sample_urn ''correction''"
  obtain w where w: "world_ok ?E w" "history_of (w_db w) ?i = [sample_notice]" "w_ticks w = 3"
    "event_ids (w_db w) = map (event_id_at ?E) [0]" "\<forall>j. told (w_db w) j = {}" "\<forall>j. named (w_db w) j"
    by (rule notice_world) (rule that, assumption+)
  have g: "get_latest_or (CorrectionNotFoundError ?i) ?i w = (Inr sample_notice, w)"
    using get_latest_or_run [OF world_ok_parts(2) [OF w(1)], of ?i "CorrectionNotFoundError ?i"] w(2) by simp
  obtain ids where a: "already_sent_recipient_ids ?i w = (Inr ids, w)"
    using already_sent_run [OF world_ok_parts(1) [OF w(1)]] w(6) by blast
  have "set ids = told (w_db w) ?i" using already_sent_Inr [OF world_ok_parts(1) [OF w(1)] a] by blast
  then have ids: "ids = []" using w(5) by simp
  obtain n where n: "build_and_sign_notification iso_reading (ret ''nonce'') ?E sample_notice sample_recipient sample_notifier w =
      (Inr n, w\<lparr>w_ticks := 4\<rparr>)"
    using notification_available [OF sample_notifier_ok sample_announceable, where w = w] by (auto simp: w(3))
  obtain e where e: "build_and_sign_envelope ?E n sample_recipient sample_notifier (w\<lparr>w_ticks := 4\<rparr>) = (Inr e, w\<lparr>w_ticks := 5\<rparr>)"
    using envelope_available [OF sample_notifier_ok, where w = "w\<lparr>w_ticks := 4\<rparr>"] by auto
  define d where "d = \<lparr>dr_recipient = sample_recipient, dr_notification_id = cn_notification_id n,
          dr_message_id = ne_message_id e, dr_status = ''delivered''\<rparr>"
  have del: "deliver_one iso_reading (ret ''nonce'') always_delivers ?E sample_notice sample_notifier sample_recipient w =
      (Inr d, w\<lparr>w_ticks := 5\<rparr>)"
    by (simp add: deliver_one_def bindp_def n e always_delivers_def ret_run d_def)
  have st: "dget_str (so_body sample_notice) ''status'' = Inr ''OPEN''" by (simp add: sample_notice_def dget_str_def dget_def)
  let ?t = "env_now ?E 5" and ?w6 = "w\<lparr>w_ticks := 6\<rparr>" and ?w7 = "w\<lparr>w_ticks := 7\<rparr>"
  obtain h b where hb: "finish_body ?E (so_revision sample_notice + 1) ?t (cx_actor sample_ctx)
      (dset ''status'' (JStr ''AWAITING_RESPONSES'') (so_body sample_notice)) = Inr (h, b)"
    using env_total_finish [OF env_total_sample] by blast
  define R where "R = next_object sample_notice (so_revision sample_notice + 1) ?t (cx_actor sample_ctx) h b"
  have sr: "status_revision ?E sample_ctx sample_notice ''OPEN'' ''AWAITING_RESPONSES'' ?t = Inr (Some R)"
    using hb by (simp add: status_revision_def correction_model_validate_def sample_env_def R_def)
  have si: "so_id sample_notice = ?i" "so_revision sample_notice = 1" by (simp_all add: sample_notice_def)
  have l6: "log_ok ?E ?w6" using world_ok_parts(1) [OF w(1)] by (rule log_ok_same_db) simp
  obtain c where c: "last_event_id_for ?i ?w6 = (Inr c, ?w6)" using last_event_id_for_run [OF l6] by blast
  have ty: "non_empty ''correction.notification_sent''" by (simp add: non_empty_def is_space_def)
  have vi: "is_valid_urn ?i" and one: "1 \<le> so_revision R" by (simp_all add: R_def next_object_def si)
  obtain ev where ev: "make_event ?E sample_ctx ''correction.notification_sent'' (ret ?t) (ret c) ?i (so_revision R)
      (sent_payload d) ?w6 = (Inr ev, ?w7)" "de_id ev = event_id_at ?E 6"
    using noted_event_run [OF l6 c ctx_ok_sample env_total_sample vi ty one] by auto
  have ok7: "world_ok ?E ?w7" using w(1) by simp
  have fr: "de_id ev \<notin> set (event_ids (w_db ?w7))" using sample_fresh [of 6 "[0]"] by (simp add: ev(2) w(4))
  have rr: "so_revision R = next_revision (Some (so_revision sample_notice))"
    "current_revision (w_db ?w7) (so_id R) = Some (so_revision sample_notice)"
    by (simp_all add: R_def next_object_def next_revision_def current_revision_def si w(2))
  obtain x w' where u: "bind_unit_of_work ?E R (Some (so_revision sample_notice)) ev ?w7 = (Inr (R, x), w')"
    using unit_of_work_run [OF ok7 env_total_sample fr rr] by blast
  have p: "filter (\<lambda>x. nr_practice_id x \<notin> set []) [sample_recipient] = [sample_recipient]" by simp
  have nf: "dr_status d \<noteq> ''failed''" by (simp add: d_def)
  have "notify_affected_practices iso_reading (ret ''nonce'') always_delivers ?E sample_correction_service sample_ctx
      ?i [sample_recipient] sample_notifier w = (Inr R, w')"
    by (simp add: notify_affected_practices_def bindp_def g a [unfolded ids] Let_def del ret_run lift_run nf st target_when_delivered now_run sr si(1) c ev(1) u record_sent_events_def del: dget_str_Inr)
  with that w show thesis by blast
qed

theorem notify_tells_each_recipient_witness:
  "\<exists>(w :: world) r w'. notify_affected_practices iso_reading (ret ''nonce'') always_delivers sample_env sample_correction_service
      sample_ctx (sample_urn ''correction'') [sample_recipient] sample_notifier w = (Inr r, w') \<and>
     told (w_db w) (sample_urn ''correction'') = {} \<and> status_of r = Some ''AWAITING_RESPONSES'' \<and>
     (\<exists>e. event_list (w_db w') = event_list (w_db w) @ [e] \<and> de_object_id e = sample_urn ''correction'')"
proof -
  let ?i = "sample_urn ''correction''"
  obtain w r w' where w: "world_ok sample_env w" "history_of (w_db w) ?i = [sample_notice]" "told (w_db w) ?i = {}"
    and run: "notify_affected_practices iso_reading (ret ''nonce'') always_delivers sample_env sample_correction_service
      sample_ctx ?i [sample_recipient] sample_notifier w = (Inr r, w')" by (rule sample_notify)
  have ro: "keeps same_db (ret ''nonce'')" "\<And>e p. keeps same_db (always_delivers e p)"
    unfolding always_delivers_def by (intro readonly)+
  have p: "[sample_recipient] = filter (\<lambda>x. nr_practice_id x \<notin> told (w_db w) ?i) [sample_recipient]" using w(3) by simp
  from notify_tells_each_recipient [OF w(1) ro run p refl] obtain ds es where
    ca: "list_all2 (carried iso_reading (ret ''nonce'') always_delivers sample_env (last (history_of (w_db w) ?i)) sample_notifier)
       [sample_recipient] ds"
    and es: "event_list (w_db w') = event_list (w_db w) @ es" "list_all2 (entry_of sample_ctx ?i) ds es"
    and more: "if [sample_recipient] = [] then w' = w
     else \<exists>current final. status_of (last (history_of (w_db w) ?i)) = Some current \<and>
        target_status_after_notification current (list_ex (\<lambda>d. dr_status d = ''failed'') ds) = Inr final \<and>
        history_of (w_db w') ?i = history_of (w_db w) ?i @ (if final = current then [] else [r]) \<and> status_of r = Some final"
    by (elim exE conjE) (rule that)
  from more obtain current final where
    st: "status_of (last (history_of (w_db w) ?i)) = Some current"
      "target_status_after_notification current (list_ex (\<lambda>d. dr_status d = ''failed'') ds) = Inr final" "status_of r = Some final"
    by auto
  obtain d where d: "ds = [d]" "dr_status d = ''delivered''"
    using ca by (auto simp: list_all2_Cons1 carried_def always_delivers_def ret_run)
  obtain e where e: "es = [e]" "entry_of sample_ctx ?i d e" using es(2) by (auto simp: d list_all2_Cons1)
  have "current = ''OPEN''" using st(1) by (simp add: w(2) sample_notice_def status_of_Some)
  with st(2) d have "final = ''AWAITING_RESPONSES''"
    by (simp add: target_when_delivered)
  with st(3) run w(3) es(1) e show ?thesis by (auto simp: entry_of_def)
qed

end
