(* ===== verification/Projection_Service.thy ===== *)
theory Projection_Service
  imports Release_Service Claim_Ceiling "HOL-Library.Product_Lexorder" "HOL-Library.Multiset"
begin

text \<open>
  The projections a reader sees, \<^verbatim>\<open>packages/domain/mrr/domain/projection.py\<close>,
  \<^verbatim>\<open>public_correction_view.py\<close> and \<^verbatim>\<open>services/control_plane/mrr/services/projection/service.py\<close>:
  the table of claims, the provenance of a claim, and the public views of corrections and claims.
  They read the store and write nothing. A field of a stored body that its contract declares as a
  string is a \<^verbatim>\<open>TypeError\<close> where it is something else.
\<close>

section \<open>Rows\<close>

definition RESOLVED_CORRECTION_STATUSES :: "string set" where
  "RESOLVED_CORRECTION_STATUSES = {''RESOLVED'', ''PARTIALLY_RESOLVED''}"

record claim_table_row =
  ct_claim_id :: urn
  ct_assertion :: string
  ct_status :: string
  ct_evidence_relations :: "urn list"
  ct_verification_ids :: "urn list"
  ct_unresolved_correction_ids :: "urn list"
  ct_flagged :: bool
  ct_ceiling_checked :: bool
  ct_ceiling_violation :: "string option"

record provenance_edge =
  pe_source_id :: urn
  pe_target_id :: urn
  pe_target_kind :: string
  pe_relation :: string
  pe_via :: string
  pe_edge_id :: "urn option"

record provenance_map =
  pm_claim_id :: urn
  pm_edges :: "provenance_edge list"

definition is_unresolved_critical_correction :: "string \<Rightarrow> string \<Rightarrow> bool" where
  "is_unresolved_critical_correction severity status \<longleftrightarrow>
     severity = ''critical'' \<and> status \<notin> RESOLVED_CORRECTION_STATUSES"

text \<open>\<^verbatim>\<open>ref["id"]\<close> of every entry: one without an id is a \<^verbatim>\<open>KeyError\<close>.\<close>

fun ids_of_refs :: "json list \<Rightarrow> urn list outcome" where
  "ids_of_refs [] = Inr []"
| "ids_of_refs (JObj d # refs) =
     (case dget_str d ''id'' of
        Inl e \<Rightarrow> Inl e
      | Inr i \<Rightarrow> (case ids_of_refs refs of Inl e \<Rightarrow> Inl e | Inr is \<Rightarrow> Inr (i # is)))"
| "ids_of_refs (_ # refs) = Inl TypeErr"

definition affected_object_ids :: "dict \<Rightarrow> urn list outcome" where
  "affected_object_ids body =
     (case dget_list_or_empty body ''affected_objects'' of Inl e \<Rightarrow> Inl e | Inr refs \<Rightarrow> ids_of_refs refs)"

definition strs_or_empty :: "dict \<Rightarrow> string \<Rightarrow> urn list outcome" where
  "strs_or_empty body k = (case map_of body k of None \<Rightarrow> Inr [] | Some _ \<Rightarrow> dget_strs body k)"

text \<open>The id of a correction that is critical, unresolved and names the claim.\<close>

definition unresolved_naming :: "urn \<Rightarrow> dict \<Rightarrow> urn option outcome" where
  "unresolved_naming claim_id correction =
     (case dget_str correction ''severity'' of
        Inl e \<Rightarrow> Inl e
      | Inr severity \<Rightarrow>
          (case dget_str correction ''status'' of
             Inl e \<Rightarrow> Inl e
           | Inr status \<Rightarrow>
               if \<not> is_unresolved_critical_correction severity status then Inr None
               else (case affected_object_ids correction of
                       Inl e \<Rightarrow> Inl e
                     | Inr affected_ids \<Rightarrow>
                         (case strs_or_empty correction ''impact_objects'' of
                            Inl e \<Rightarrow> Inl e
                          | Inr impact_ids \<Rightarrow>
                              if claim_id \<in> set affected_ids \<or> claim_id \<in> set impact_ids
                              then (case dget_str correction ''id'' of Inl e \<Rightarrow> Inl e | Inr i \<Rightarrow> Inr (Some i))
                              else Inr None))))"

fun unresolved_ids :: "urn \<Rightarrow> dict list \<Rightarrow> urn list outcome" where
  "unresolved_ids claim_id [] = Inr []"
| "unresolved_ids claim_id (c # cs) =
     (case unresolved_naming claim_id c of
        Inl e \<Rightarrow> Inl e
      | Inr found \<Rightarrow>
          (case unresolved_ids claim_id cs of Inl e \<Rightarrow> Inl e | Inr is \<Rightarrow> Inr (found_list found @ is)))"

definition unresolved_critical_correction_ids_for_claim :: "urn \<Rightarrow> dict list \<Rightarrow> urn list outcome" where
  "unresolved_critical_correction_ids_for_claim claim_id corrections =
     (case unresolved_ids claim_id corrections of Inl e \<Rightarrow> Inl e | Inr is \<Rightarrow> Inr (sorted_set is))"

definition row_ceiling_violation :: "dict \<Rightarrow> string option \<Rightarrow> string option \<Rightarrow> string option outcome" where
  "row_ceiling_violation claim_body ruled_ceiling profile_max_ceiling =
     (case (ruled_ceiling, profile_max_ceiling) of
        (Some r, Some p) \<Rightarrow>
          (case dget_str claim_body ''claim_type'' of
             Inl e \<Rightarrow> Inl e
           | Inr claim_type \<Rightarrow> ceiling_violation_reason claim_type r p)
      | _ \<Rightarrow> Inr None)"

definition build_claim_table_row :: "dict \<Rightarrow> dict list \<Rightarrow> string option \<Rightarrow> string option \<Rightarrow> claim_table_row outcome" where
  "build_claim_table_row claim_body corrections ruled_ceiling profile_max_ceiling =
     (case dget_str claim_body ''id'' of
        Inl e \<Rightarrow> Inl e
      | Inr claim_id \<Rightarrow>
     (case unresolved_critical_correction_ids_for_claim claim_id corrections of
        Inl e \<Rightarrow> Inl e
      | Inr matched \<Rightarrow>
     (case row_ceiling_violation claim_body ruled_ceiling profile_max_ceiling of
        Inl e \<Rightarrow> Inl e
      | Inr ceiling_violation \<Rightarrow>
     (case dget_str claim_body ''assertion'' of
        Inl e \<Rightarrow> Inl e
      | Inr assertion \<Rightarrow>
     (case dget_str claim_body ''status'' of
        Inl e \<Rightarrow> Inl e
      | Inr status \<Rightarrow>
     (case strs_or_empty claim_body ''evidence_relations'' of
        Inl e \<Rightarrow> Inl e
      | Inr evidence_relations \<Rightarrow>
     (case strs_or_empty claim_body ''verification_ids'' of
        Inl e \<Rightarrow> Inl e
      | Inr verification_ids \<Rightarrow>
          Inr \<lparr>ct_claim_id = claim_id, ct_assertion = assertion, ct_status = status,
               ct_evidence_relations = evidence_relations, ct_verification_ids = verification_ids,
               ct_unresolved_correction_ids = matched, ct_flagged = (matched \<noteq> []),
               ct_ceiling_checked = (ruled_ceiling \<noteq> None \<and> profile_max_ceiling \<noteq> None),
               ct_ceiling_violation = ceiling_violation\<rparr>)))))))"

section \<open>The public views\<close>

type_synonym classifications = "urn \<rightharpoonup> string"

definition all_ids_attested_public :: "urn list \<Rightarrow> classifications \<Rightarrow> bool" where
  "all_ids_attested_public object_ids classification =
     list_all (\<lambda>i. classification i = Some ''PUBLIC'') object_ids"

record public_correction_row =
  pc_correction_id :: urn
  pc_correction_type :: string
  pc_severity :: string
  pc_status :: string
  pc_affected_object_ids :: "urn list"
  pc_impact_object_ids :: "urn list"
  pc_unresolved :: bool
  pc_reason :: "string option"
  pc_requested_action :: "string option"
  pc_redacted :: bool

record public_claim_row =
  pl_claim_id :: urn
  pl_status :: string
  pl_unresolved_correction_ids :: "urn list"
  pl_flagged :: bool
  pl_assertion :: "string option"
  pl_redacted :: bool

text \<open>A field that is read only where the row is public.\<close>

definition attested_field :: "bool \<Rightarrow> dict \<Rightarrow> string \<Rightarrow> string option outcome" where
  "attested_field is_public body k =
     (if is_public then (case dget_str body k of Inl e \<Rightarrow> Inl e | Inr s \<Rightarrow> Inr (Some s)) else Inr None)"

definition build_public_correction_row :: "dict \<Rightarrow> classifications \<Rightarrow> public_correction_row outcome" where
  "build_public_correction_row body classification =
     (case (dget_str body ''id'', dget_str body ''severity'', dget_str body ''status'', affected_object_ids body,
            strs_or_empty body ''impact_objects'', dget_str body ''correction_type'') of
        (Inr i, Inr severity, Inr status, Inr affected, Inr impact, Inr correction_type) \<Rightarrow>
          (let is_public = all_ids_attested_public ([i] @ affected @ impact) classification in
           case (attested_field is_public body ''reason'', attested_field is_public body ''requested_action'') of
             (Inr reason, Inr requested_action) \<Rightarrow>
               Inr \<lparr>pc_correction_id = i, pc_correction_type = correction_type, pc_severity = severity, pc_status = status,
                    pc_affected_object_ids = affected, pc_impact_object_ids = impact,
                    pc_unresolved = is_unresolved_critical_correction severity status,
                    pc_reason = reason, pc_requested_action = requested_action, pc_redacted = (\<not> is_public)\<rparr>
           | (Inl e, _) \<Rightarrow> Inl e
           | (_, Inl e) \<Rightarrow> Inl e)
      | (Inl e, _, _, _, _, _) \<Rightarrow> Inl e
      | (_, Inl e, _, _, _, _) \<Rightarrow> Inl e
      | (_, _, Inl e, _, _, _) \<Rightarrow> Inl e
      | (_, _, _, Inl e, _, _) \<Rightarrow> Inl e
      | (_, _, _, _, Inl e, _) \<Rightarrow> Inl e
      | (_, _, _, _, _, Inl e) \<Rightarrow> Inl e)"

definition build_public_claim_row :: "claim_table_row \<Rightarrow> classifications \<Rightarrow> public_claim_row" where
  "build_public_claim_row row classification =
     (let is_public = all_ids_attested_public (ct_claim_id row # ct_unresolved_correction_ids row) classification in
      \<lparr>pl_claim_id = ct_claim_id row, pl_status = ct_status row,
       pl_unresolved_correction_ids = ct_unresolved_correction_ids row, pl_flagged = ct_flagged row,
       pl_assertion = (if is_public then Some (ct_assertion row) else None), pl_redacted = (\<not> is_public)\<rparr>)"

section \<open>The service\<close>

definition latest_bodies :: "string \<Rightarrow> urn list \<Rightarrow> (world, dict list) prog" where
  "latest_bodies kind ids =
     bindp (mapp get_latest_opt (sorted_set ids)) (\<lambda>found.
     ret (filter (\<lambda>b. map_of b ''kind'' = Some (JStr kind)) (map so_body (concat (map found_list found)))))"

definition projection_correction_bodies :: "(world, dict list) prog" where
  "projection_correction_bodies =
     bindp (discover_ids_by_event_type ''correction.recorded'') (\<lambda>ids. latest_bodies ''CorrectionEvent'' ids)"

text \<open>A reference to another object, where the field names one.\<close>

definition referenced :: "dict \<Rightarrow> string \<Rightarrow> (world, stored_object option) prog" where
  "referenced body k =
     (case map_of body k of
        Some (JStr s) \<Rightarrow> if s = '''' then ret None else get_latest_opt s
      | Some JNull \<Rightarrow> ret None
      | None \<Rightarrow> ret None
      | Some _ \<Rightarrow> raise TypeErr)"

definition optional_str :: "dict \<Rightarrow> string \<Rightarrow> string option outcome" where
  "optional_str body k =
     (case map_of body k of
        Some (JStr s) \<Rightarrow> Inr (Some s)
      | Some JNull \<Rightarrow> Inr None
      | None \<Rightarrow> Inr None
      | Some _ \<Rightarrow> Inl TypeErr)"

definition resolve_latest_ruling_ceiling_chain :: "urn \<Rightarrow> (world, (string \<times> string) option) prog" where
  "resolve_latest_ruling_ceiling_chain claim_id =
     bindp (edges_from claim_id (Some ''ruled_by'')) (\<lambda>ruled_by_edges.
     if ruled_by_edges = [] then ret None
     else
       bindp (get_latest_opt (te_target_id (last ruled_by_edges))) (\<lambda>ruling.
       case ruling of
         None \<Rightarrow> ret None
       | Some ruling \<Rightarrow>
           bindp (referenced (so_body ruling) ''protocol_id'') (\<lambda>protocol.
           case protocol of
             None \<Rightarrow> ret None
           | Some protocol \<Rightarrow>
               bindp (referenced (so_body protocol) ''profile_id'') (\<lambda>profile.
               case profile of
                 None \<Rightarrow> ret None
               | Some profile \<Rightarrow>
                   bindp (lift (optional_str (so_body ruling) ''ruled_ceiling'')) (\<lambda>ruled_ceiling.
                   bindp (lift (optional_str (so_body profile) ''max_claim_ceiling'')) (\<lambda>profile_max_ceiling.
                   case (ruled_ceiling, profile_max_ceiling) of
                     (Some r, Some p) \<Rightarrow> ret (Some (r, p))
                   | _ \<Rightarrow> ret None))))))"

definition claim_row_for :: "dict list \<Rightarrow> urn \<Rightarrow> (world, claim_table_row option) prog" where
  "claim_row_for corrections claim_id =
     bindp (get_latest_opt claim_id) (\<lambda>found.
     case found of
       None \<Rightarrow> ret None
     | Some obj \<Rightarrow>
         if map_of (so_body obj) ''kind'' \<noteq> Some (JStr ''Claim'') then ret None
         else
           bindp (resolve_latest_ruling_ceiling_chain claim_id) (\<lambda>ceiling_chain.
           bindp (lift (build_claim_table_row (so_body obj) corrections (map_option fst ceiling_chain)
             (map_option snd ceiling_chain))) (\<lambda>row.
           ret (Some row))))"

definition build_claim_table :: "(world, claim_table_row list) prog" where
  "build_claim_table =
     bindp (discover_ids_by_event_type ''claim.created'') (\<lambda>claim_ids.
     bindp projection_correction_bodies (\<lambda>corrections.
     bindp (mapp (claim_row_for corrections) (sorted_set claim_ids)) (\<lambda>rows.
     ret (concat (map found_list rows)))))"

fun public_rows :: "dict list \<Rightarrow> classifications \<Rightarrow> public_correction_row list outcome" where
  "public_rows [] classification = Inr []"
| "public_rows (b # bs) classification =
     (case build_public_correction_row b classification of
        Inl e \<Rightarrow> Inl e
      | Inr r \<Rightarrow> (case public_rows bs classification of Inl e \<Rightarrow> Inl e | Inr rs \<Rightarrow> Inr (r # rs)))"

definition build_public_correction_view :: "classifications \<Rightarrow> (world, public_correction_row list) prog" where
  "build_public_correction_view classification =
     bindp projection_correction_bodies (\<lambda>corrections.
     bindp (lift (public_rows corrections classification)) (\<lambda>rows.
     ret (filter pc_unresolved rows)))"

definition build_public_claim_table :: "classifications \<Rightarrow> (world, public_claim_row list) prog" where
  "build_public_claim_table classification =
     bindp build_claim_table (\<lambda>rows. ret (map (\<lambda>row. build_public_claim_row row classification) rows))"

section \<open>Provenance\<close>

text \<open>What a lookup finds, and the edges from a node in the order the repository returns them.\<close>

definition stored_latest :: "db \<Rightarrow> urn \<Rightarrow> stored_object option" where
  "stored_latest d i = last_opt (history_of d i)"

definition stored_edges_from :: "db \<Rightarrow> urn \<Rightarrow> typed_edge list" where
  "stored_edges_from d i = sort_key te_created_at (filter (\<lambda>e. te_source_id e = i) (edges_tbl d))"

definition edge_hop :: "db \<Rightarrow> typed_edge \<Rightarrow> provenance_edge option" where
  "edge_hop d e =
     (case stored_latest d (te_target_id e) of
        None \<Rightarrow> None
      | Some target \<Rightarrow>
          Some \<lparr>pe_source_id = te_source_id e, pe_target_id = te_target_id e, pe_target_kind = so_kind target,
                pe_relation = te_edge_type e, pe_via = ''edge'', pe_edge_id = Some (te_id e)\<rparr>)"

definition ANCHOR_FIELD_REFERENCES :: "string list" where
  "ANCHOR_FIELD_REFERENCES = [''source_record_id'', ''run_id'']"

text \<open>A reference that is not a string names no object.\<close>

definition field_hop :: "db \<Rightarrow> stored_object \<Rightarrow> string \<Rightarrow> provenance_edge option" where
  "field_hop d anchor field_name =
     (case map_of (so_body anchor) field_name of
        Some (JStr referenced_id) \<Rightarrow>
          if referenced_id = '''' then None
          else (case stored_latest d referenced_id of
                  None \<Rightarrow> None
                | Some target \<Rightarrow>
                    Some \<lparr>pe_source_id = so_id anchor, pe_target_id = referenced_id, pe_target_kind = so_kind target,
                          pe_relation = field_name, pe_via = ''field'', pe_edge_id = None\<rparr>)
      | _ \<Rightarrow> None)"

definition field_reference_hops :: "db \<Rightarrow> stored_object \<Rightarrow> provenance_edge list" where
  "field_reference_hops d anchor = concat (map (\<lambda>k. found_list (field_hop d anchor k)) ANCHOR_FIELD_REFERENCES)"

definition outgoing_provenance_hops :: "db \<Rightarrow> urn \<Rightarrow> provenance_edge list" where
  "outgoing_provenance_hops d node_id =
     concat (map (\<lambda>e. found_list (edge_hop d e)) (stored_edges_from d node_id)) @
     (case stored_latest d node_id of
        Some node \<Rightarrow> if so_kind node = ''EvidenceAnchor'' then field_reference_hops d node else []
      | None \<Rightarrow> [])"

text \<open>The visited nodes in the order of their visits, the collected hops, and the next frontier.\<close>

fun visit_hops ::
  "provenance_edge list \<Rightarrow> urn list \<times> provenance_edge list \<times> urn list \<Rightarrow> urn list \<times> provenance_edge list \<times> urn list" where
  "visit_hops [] (visited, collected, next_frontier) = (visited, collected, next_frontier)"
| "visit_hops (hop # hops) (visited, collected, next_frontier) =
     (if pe_target_id hop \<notin> set visited
      then visit_hops hops (visited @ [pe_target_id hop], collected @ [hop], next_frontier @ [pe_target_id hop])
      else visit_hops hops (visited, collected @ [hop], next_frontier))"

fun visit_nodes ::
  "db \<Rightarrow> urn list \<Rightarrow> urn list \<times> provenance_edge list \<times> urn list \<Rightarrow> urn list \<times> provenance_edge list \<times> urn list" where
  "visit_nodes d [] state = state"
| "visit_nodes d (node_id # nodes) state = visit_nodes d nodes (visit_hops (outgoing_provenance_hops d node_id) state)"

definition hop_targets :: "db \<Rightarrow> urn list \<Rightarrow> urn set" where
  "hop_targets d ns = pe_target_id ` (\<Union>n \<in> set ns. set (outgoing_provenance_hops d n))"

lemma visit_hops_result:
  "visit_hops hs (V, C, N) = (V', C', N') \<Longrightarrow>
     C' = C @ hs \<and> (\<exists>M. V' = V @ M \<and> N' = N @ M \<and> distinct M \<and> set M \<inter> set V = {}) \<and>
     set V' = set V \<union> pe_target_id ` set hs"
proof (induction hs arbitrary: V C N)
  case (Cons h hs)
  show ?case
  proof (cases "pe_target_id h \<in> set V")
    case True
    with Cons.prems have "visit_hops hs (V, C @ [h], N) = (V', C', N')" by simp
    from Cons.IH [OF this] True show ?thesis by auto
  next
    case False
    with Cons.prems have "visit_hops hs (V @ [pe_target_id h], C @ [h], N @ [pe_target_id h]) = (V', C', N')" by simp
    note r = Cons.IH [OF this]
    then obtain M where M: "V' = V @ [pe_target_id h] @ M" "N' = N @ [pe_target_id h] @ M" "distinct M"
      "set M \<inter> set (V @ [pe_target_id h]) = {}" by auto
    with r False show ?thesis by (intro conjI exI [of _ "pe_target_id h # M"]) auto
  qed
qed simp

lemma visit_nodes_result:
  "visit_nodes d ns (V, C, N) = (V', C', N') \<Longrightarrow>
     C' = C @ concat (map (outgoing_provenance_hops d) ns) \<and> (\<exists>M. V' = V @ M \<and> N' = N @ M \<and> distinct M \<and> set M \<inter> set V = {}) \<and>
     set V' = set V \<union> hop_targets d ns"
proof (induction ns arbitrary: V C N)
  case (Cons n ns)
  obtain V1 C1 N1 where h: "visit_hops (outgoing_provenance_hops d n) (V, C, N) = (V1, C1, N1)" by (metis prod_cases3)
  note a = visit_hops_result [OF h]
  from Cons.prems h have "visit_nodes d ns (V1, C1, N1) = (V', C', N')" by simp
  note b = Cons.IH [OF this]
  from a obtain M1 where M1: "V1 = V @ M1" "N1 = N @ M1" "distinct M1" "set M1 \<inter> set V = {}" by blast
  from b obtain M2 where M2: "V' = V1 @ M2" "N' = N1 @ M2" "distinct M2" "set M2 \<inter> set V1 = {}" by blast
  have "\<exists>M. V' = V @ M \<and> N' = N @ M \<and> distinct M \<and> set M \<inter> set V = {}"
    using M1 M2 by (intro exI [of _ "M1 @ M2"]) auto
  moreover have "set V' = set V \<union> hop_targets d (n # ns)" using a b by (auto simp: hop_targets_def)
  ultimately show ?case using a b by simp
qed (simp add: hop_targets_def)

lemma found_in [simp]: "x \<in> set (found_list y) \<longleftrightarrow> y = Some x"
  by (cases y) auto

lemma edge_hop_Some:
  "edge_hop d e = Some h \<longleftrightarrow> (\<exists>t. stored_latest d (te_target_id e) = Some t \<and>
     h = \<lparr>pe_source_id = te_source_id e, pe_target_id = te_target_id e, pe_target_kind = so_kind t,
          pe_relation = te_edge_type e, pe_via = ''edge'', pe_edge_id = Some (te_id e)\<rparr>)"
  by (cases "stored_latest d (te_target_id e)") (simp_all add: edge_hop_def eq_commute [of h])

lemma field_hop_Some:
  "field_hop d a k = Some h \<longleftrightarrow> (\<exists>i t. map_of (so_body a) k = Some (JStr i) \<and> i \<noteq> [] \<and> stored_latest d i = Some t \<and>
     h = \<lparr>pe_source_id = so_id a, pe_target_id = i, pe_target_kind = so_kind t, pe_relation = k, pe_via = ''field'',
          pe_edge_id = None\<rparr>)"
proof (cases "map_of (so_body a) k")
  case (Some j)
  then show ?thesis
  proof (cases j)
    case (JStr i)
    with Some show ?thesis by (cases "stored_latest d i") (auto simp: field_hop_def)
  qed (simp_all add: field_hop_def)
qed (simp add: field_hop_def)

lemma outgoing_iff:
  "h \<in> set (outgoing_provenance_hops d n) \<longleftrightarrow>
     (\<exists>e \<in> set (edges_tbl d). te_source_id e = n \<and> edge_hop d e = Some h) \<or>
     (\<exists>a. stored_latest d n = Some a \<and> so_kind a = ''EvidenceAnchor'' \<and>
        (\<exists>k \<in> set ANCHOR_FIELD_REFERENCES. field_hop d a k = Some h))"
proof -
  have "h \<in> set (concat (map (\<lambda>e. found_list (edge_hop d e)) (stored_edges_from d n))) \<longleftrightarrow>
      (\<exists>e \<in> set (edges_tbl d). te_source_id e = n \<and> edge_hop d e = Some h)"
    by (auto simp: stored_edges_from_def)
  moreover have "h \<in> set (field_reference_hops d a) \<longleftrightarrow> (\<exists>k \<in> set ANCHOR_FIELD_REFERENCES. field_hop d a k = Some h)" for a
    unfolding field_reference_hops_def by auto
  ultimately show ?thesis
    unfolding outgoing_provenance_hops_def set_append Un_iff by (cases "stored_latest d n") simp_all
qed

lemma hop_stored:
  assumes "h \<in> set (outgoing_provenance_hops d n)"
  shows "\<exists>t. stored_latest d (pe_target_id h) = Some t \<and> pe_target_kind h = so_kind t"
  using assms unfolding outgoing_iff edge_hop_Some field_hop_Some by (elim disjE bexE exE conjE) simp_all

lemma stored_latest_id: "stored_latest d i = Some r \<Longrightarrow> so_id r = i \<and> r \<in> set (objects_tbl d)"
  unfolding stored_latest_def history_of_def by (drule last_opt_Some_mem) simp

lemma hop_targets_stored: "hop_targets d ns \<subseteq> so_id ` set (objects_tbl d)"
proof
  fix x assume "x \<in> hop_targets d ns"
  then obtain n h where "h \<in> set (outgoing_provenance_hops d n)" "x = pe_target_id h" by (auto simp: hop_targets_def)
  with hop_stored obtain t where "stored_latest d x = Some t" by blast
  from stored_latest_id [OF this] show "x \<in> so_id ` set (objects_tbl d)" by (metis imageI)
qed

function trace_loop :: "db \<Rightarrow> urn list \<Rightarrow> provenance_edge list \<Rightarrow> urn list \<Rightarrow> provenance_edge list" where
  "trace_loop d visited collected frontier =
     (if frontier = [] then collected
      else let (visited', collected', next_frontier) = visit_nodes d frontier (visited, collected, [])
           in trace_loop d visited' collected' next_frontier)"
  by pat_completeness auto

termination
proof (relation "measures [\<lambda>(d, V, C, F). card (so_id ` set (objects_tbl d) - set V), \<lambda>(d, V, C, F). length F]", goal_cases)
  case 1
  show ?case by simp
next
  case (2 d V C F x V' y C' N)
  then have g: "visit_nodes d F (V, C, []) = (V', C', N)" by simp
  note r = visit_nodes_result [OF g]
  let ?U = "so_id ` set (objects_tbl d)"
  have V': "V' = V @ N" and new: "set N \<inter> set V = {}" and S: "set V' = set V \<union> hop_targets d F" using r by auto
  show ?case
  proof (cases "set N \<subseteq> set V")
    case True
    then have "N = []" using new by (cases N) auto
    with V' 2(1) show ?thesis by simp
  next
    case False
    then have "?U - set V' \<subset> ?U - set V" using S V' hop_targets_stored [of d F] by auto
    then show ?thesis using psubset_card_mono [of "?U - set V"] by simp
  qed
qed

declare trace_loop.simps [simp del]

definition hop_key :: "provenance_edge \<Rightarrow> string \<times> string \<times> string \<times> string" where
  "hop_key h = (pe_source_id h, pe_relation h, pe_target_id h, pe_via h)"

definition trace_provenance :: "urn \<Rightarrow> (world, provenance_edge list) prog" where
  "trace_provenance claim_id = asks (\<lambda>w. sort_key hop_key (trace_loop (w_db w) [claim_id] [] [claim_id]))"

definition build_provenance_map :: "urn \<Rightarrow> (world, provenance_map) prog" where
  "build_provenance_map claim_id =
     bindp (get_latest_opt claim_id) (\<lambda>root.
     bindp (guardp (\<exists>r. root = Some r \<and> so_kind r = ''Claim'') (ClaimNotFoundError claim_id)) (\<lambda>_.
     bindp (trace_provenance claim_id) (\<lambda>edges.
     ret \<lparr>pm_claim_id = claim_id, pm_edges = edges\<rparr>)))"

end
