(* ===== verification/Projection_Properties.thy ===== *)
theory Projection_Properties
  imports Projection_Service Release_Properties Correction_Properties
begin

text \<open>
  What the projections show: the provenance of a claim is complete and ends, the table of claims
  flags exactly the claims an unresolved critical correction names, and the public views disclose
  no text of an object that was not attested as public.
\<close>

section \<open>Provenance\<close>

text \<open>A hop, as the documentation of \<^verbatim>\<open>projection.py\<close> describes one.\<close>

definition hop_from :: "db \<Rightarrow> urn \<Rightarrow> provenance_edge \<Rightarrow> bool" where
  "hop_from d n h \<longleftrightarrow> pe_source_id h = n \<and>
     (\<exists>t. stored_latest d (pe_target_id h) = Some t \<and> pe_target_kind h = so_kind t) \<and>
     ((\<exists>e \<in> set (edges_tbl d). te_source_id e = n \<and> te_target_id e = pe_target_id h \<and> pe_relation h = te_edge_type e \<and>
         pe_via h = ''edge'' \<and> pe_edge_id h = Some (te_id e)) \<or>
      (\<exists>a. stored_latest d n = Some a \<and> so_kind a = ''EvidenceAnchor'' \<and> pe_relation h \<in> set ANCHOR_FIELD_REFERENCES \<and>
         map_of (so_body a) (pe_relation h) = Some (JStr (pe_target_id h)) \<and> pe_target_id h \<noteq> [] \<and>
         pe_via h = ''field'' \<and> pe_edge_id h = None))"

lemma edge_hop_from: "te_source_id e = n \<Longrightarrow> e \<in> set (edges_tbl d) \<Longrightarrow> edge_hop d e = Some h \<Longrightarrow> hop_from d n h"
  unfolding edge_hop_Some hop_from_def by (elim exE conjE) (hypsubst, simp, blast)

lemma field_hop_from:
  "stored_latest d n = Some a \<Longrightarrow> so_kind a = ''EvidenceAnchor'' \<Longrightarrow> k \<in> set ANCHOR_FIELD_REFERENCES \<Longrightarrow>
     field_hop d a k = Some h \<Longrightarrow> hop_from d n h"
  unfolding field_hop_Some hop_from_def
  using stored_latest_id by (elim exE conjE) (hypsubst, simp)

lemma hop_from_outgoing: "hop_from d n h \<Longrightarrow> h \<in> set (outgoing_provenance_hops d n)"
proof -
  assume "hop_from d n h"
  then obtain t where s: "pe_source_id h = n" "stored_latest d (pe_target_id h) = Some t" "pe_target_kind h = so_kind t"
    and o: "(\<exists>e \<in> set (edges_tbl d). te_source_id e = n \<and> te_target_id e = pe_target_id h \<and> pe_relation h = te_edge_type e \<and>
         pe_via h = ''edge'' \<and> pe_edge_id h = Some (te_id e)) \<or>
      (\<exists>a. stored_latest d n = Some a \<and> so_kind a = ''EvidenceAnchor'' \<and> pe_relation h \<in> set ANCHOR_FIELD_REFERENCES \<and>
         map_of (so_body a) (pe_relation h) = Some (JStr (pe_target_id h)) \<and> pe_target_id h \<noteq> [] \<and>
         pe_via h = ''field'' \<and> pe_edge_id h = None)"
    unfolding hop_from_def by (elim exE conjE) (rule that)
  from o show ?thesis
  proof (elim disjE bexE exE conjE)
    fix e assume e: "e \<in> set (edges_tbl d)" "te_source_id e = n" "te_target_id e = pe_target_id h"
      "pe_relation h = te_edge_type e" "pe_via h = ''edge''" "pe_edge_id h = Some (te_id e)"
    have "edge_hop d e = Some h" unfolding edge_hop_Some using e s by (intro exI [of _ t]) simp
    with e show ?thesis unfolding outgoing_iff by (intro disjI1 bexI [of _ e]) simp_all
  next
    fix a assume a: "stored_latest d n = Some a" "so_kind a = ''EvidenceAnchor''"
      "pe_relation h \<in> set ANCHOR_FIELD_REFERENCES" "map_of (so_body a) (pe_relation h) = Some (JStr (pe_target_id h))"
      "pe_target_id h \<noteq> []" "pe_via h = ''field''" "pe_edge_id h = None"
    have "so_id a = n" using stored_latest_id [OF a(1)] by simp
    then have "field_hop d a (pe_relation h) = Some h"
      unfolding field_hop_Some using a s by (intro exI [of _ "pe_target_id h"] exI [of _ t]) simp
    with a show ?thesis unfolding outgoing_iff by (intro disjI2 exI [of _ a] conjI bexI [of _ "pe_relation h"])
  qed
qed

lemma set_outgoing: "set (outgoing_provenance_hops d n) = {h. hop_from d n h}"
  using hop_from_outgoing edge_hop_from field_hop_from unfolding outgoing_iff [abs_def] set_eq_iff mem_Collect_eq
  by (intro allI iffI) (auto simp: outgoing_iff)

text \<open>The objects a claim rests on.\<close>

definition rests_on :: "db \<Rightarrow> (urn \<times> urn) set" where
  "rests_on d = {(n, pe_target_id h) |n h. hop_from d n h}"

lemma hop_targets_rests: "hop_targets d ns = rests_on d `` set ns"
  by (auto simp: hop_targets_def set_outgoing rests_on_def)

lemma trace_loop_result:
  assumes "visited = expanded @ frontier" and "distinct visited"
    and "collected = concat (map (outgoing_provenance_hops d) expanded)"
    and "root \<in> set visited" and "set visited \<subseteq> (rests_on d)\<^sup>* `` {root}"
    and "rests_on d `` set expanded \<subseteq> set visited"
  shows "\<exists>V. distinct V \<and> set V = (rests_on d)\<^sup>* `` {root} \<and>
    trace_loop d visited collected frontier = concat (map (outgoing_provenance_hops d) V)"
  using assms
proof (induction d visited collected frontier arbitrary: expanded rule: trace_loop.induct)
  case (1 d V C F)
  show ?case
  proof (cases "F = []")
    case True
    have cl: "rests_on d `` set V \<subseteq> set V" using 1(2,7) True by simp
    have "(rests_on d)\<^sup>* `` {root} \<subseteq> set V"
    proof
      fix x assume "x \<in> (rests_on d)\<^sup>* `` {root}"
      then have "(root, x) \<in> (rests_on d)\<^sup>*" by simp
      then show "x \<in> set V" by (induction rule: rtrancl_induct) (use 1(5) cl in auto)
    qed
    with 1(2-6) True show ?thesis by (intro exI [of _ V]) (simp add: trace_loop.simps)
  next
    case False
    obtain V' C' N where g: "visit_nodes d F (V, C, []) = (V', C', N)" by (metis prod_cases3)
    note r = visit_nodes_result [OF g]
    have V': "V' = V @ N" and dN: "distinct N" "set N \<inter> set V = {}" and C': "C' = C @ concat (map (outgoing_provenance_hops d) F)"
      and S: "set V' = set V \<union> rests_on d `` set F" using r by (auto simp: hop_targets_rests)
    have FV: "set F \<subseteq> set V" using 1(2) by auto
    have "\<exists>W. distinct W \<and> set W = (rests_on d)\<^sup>* `` {root} \<and>
        trace_loop d V' C' N = concat (map (outgoing_provenance_hops d) W)"
    proof (rule 1(1) [OF False g [symmetric] refl refl, where expanded = V])
      show "V' = V @ N" by (rule V')
      show "distinct V'" using V' dN 1(3) by auto
      show "C' = concat (map (outgoing_provenance_hops d) V)" using C' 1(2,4) by simp
      show "root \<in> set V'" using 1(5) V' by simp
      show "set V' \<subseteq> (rests_on d)\<^sup>* `` {root}"
      proof
        fix x assume "x \<in> set V'"
        then consider "x \<in> set V" | f where "f \<in> set V" "(f, x) \<in> rests_on d" using S FV by auto
        then show "x \<in> (rests_on d)\<^sup>* `` {root}"
        proof cases
          case 1
          with \<open>set V \<subseteq> (rests_on d)\<^sup>* `` {root}\<close> show ?thesis by blast
        next
          case 2
          with \<open>set V \<subseteq> (rests_on d)\<^sup>* `` {root}\<close> show ?thesis by (auto intro: rtrancl_into_rtrancl)
        qed
      qed
      show "rests_on d `` set V \<subseteq> set V'" using 1(2,7) S by auto
    qed
    with False g show ?thesis by (simp add: trace_loop.simps [of d V])
  qed
qed

text \<open>Where the edges have ids of their own, no hop is listed twice.\<close>

lemma field_hop_shape: "field_hop d a k = Some h \<Longrightarrow> pe_relation h = k \<and> pe_via h = ''field''"
  unfolding field_hop_Some by (elim exE conjE) simp

lemma distinct_found:
  "distinct xs \<Longrightarrow> (\<And>x y h. x \<in> set xs \<Longrightarrow> y \<in> set xs \<Longrightarrow> f x = Some h \<Longrightarrow> f y = Some h \<Longrightarrow> x = y) \<Longrightarrow>
     distinct (concat (map (\<lambda>x. found_list (f x)) xs))"
proof (induction xs)
  case (Cons x xs)
  have d: "distinct (concat (map (\<lambda>x. found_list (f x)) xs))" by (rule Cons.IH) (use Cons.prems in auto)
  have "f y \<noteq> Some h" if "f x = Some h" "y \<in> set xs" for y h using Cons.prems that by (metis distinct.simps(2) list.set_intros)
  with d show ?case by (cases "f x") auto
qed simp

lemma distinct_outgoing:
  assumes ok: "edges_ok d"
  shows "distinct (outgoing_provenance_hops d n)"
proof -
  have di: "distinct (map te_id (edges_tbl d))" using ok by (simp add: edges_ok_def)
  have e: "distinct (concat (map (\<lambda>e. found_list (edge_hop d e)) (stored_edges_from d n)))"
  proof (rule distinct_found)
    show "distinct (stored_edges_from d n)" using distinct_mapI [OF di] by (simp add: stored_edges_from_def)
    fix x y h assume "x \<in> set (stored_edges_from d n)" "y \<in> set (stored_edges_from d n)"
      and h: "edge_hop d x = Some h" "edge_hop d y = Some h"
    then have m: "x \<in> set (edges_tbl d)" "y \<in> set (edges_tbl d)" by (simp_all add: stored_edges_from_def)
    have "Some (te_id x) = pe_edge_id h" using h(1) unfolding edge_hop_Some by (elim exE conjE) simp
    moreover have "Some (te_id y) = pe_edge_id h" using h(2) unfolding edge_hop_Some by (elim exE conjE) simp
    ultimately have "te_id x = te_id y" by (metis option.inject)
    with m di show "x = y" by (simp add: distinct_map inj_on_def)
  qed
  have f: "distinct (field_reference_hops d a)" for a
    unfolding field_reference_hops_def
  proof (rule distinct_found)
    show "distinct ANCHOR_FIELD_REFERENCES" by (simp add: ANCHOR_FIELD_REFERENCES_def)
    fix x y h assume "field_hop d a x = Some h" "field_hop d a y = Some h"
    from this [THEN field_hop_shape] show "x = y" by (elim conjE) (rule trans [OF sym])
  qed
  have ve: "pe_via h = ''edge''" if "edge_hop d x = Some h" for x h using that unfolding edge_hop_Some by (elim exE conjE) simp
  have vf: "pe_via h = ''field''" if "field_hop d a x = Some h" for a x h
    using field_hop_shape [OF that] by (rule conjunct2)
  have dj: "set (concat (map (\<lambda>e. found_list (edge_hop d e)) (stored_edges_from d n))) \<inter> set (field_reference_hops d a) = {}" for a
  proof -
    have "pe_via h = ''edge''" if "h \<in> set (concat (map (\<lambda>e. found_list (edge_hop d e)) (stored_edges_from d n)))" for h
      using that ve by auto
    moreover have "pe_via h = ''field''" if "h \<in> set (field_reference_hops d a)" for h
      using that vf unfolding field_reference_hops_def by auto
    ultimately show ?thesis by fastforce
  qed
  show ?thesis unfolding outgoing_provenance_hops_def using e f dj by (simp split: option.split)
qed

lemma distinct_hops:
  assumes ok: "edges_ok d" and V: "distinct V"
  shows "distinct (concat (map (outgoing_provenance_hops d) V))"
  using V
proof (induction V)
  case (Cons n V)
  have "h \<notin> set (concat (map (outgoing_provenance_hops d) V))" if "h \<in> set (outgoing_provenance_hops d n)" for h
  proof -
    have "pe_source_id h = n" using that unfolding set_outgoing by (simp add: hop_from_def)
    moreover have "pe_source_id h \<in> set V" if "h \<in> set (concat (map (outgoing_provenance_hops d) V))"
      using that by (auto simp: set_outgoing hop_from_def)
    ultimately show ?thesis using Cons.prems by auto
  qed
  with Cons distinct_outgoing [OF ok] show ?case by auto
qed simp

lemma provenance_run:
  assumes ok: "world_ok E w"
  shows "build_provenance_map i w =
    (case stored_latest (w_db w) i of
       Some r \<Rightarrow> if so_kind r = ''Claim''
         then (Inr \<lparr>pm_claim_id = i, pm_edges = sort_key hop_key (trace_loop (w_db w) [i] [] [i])\<rparr>, w)
         else (Inl (ClaimNotFoundError i), w)
     | None \<Rightarrow> (Inl (ClaimNotFoundError i), w))"
  using get_latest_opt_run [OF world_ok_parts(2) [OF ok], of i]
  by (simp add: build_provenance_map_def bindp_def guardp_run trace_provenance_def asks_run ret_run stored_latest_def
      split: option.split)

text \<open>
  C19. The provenance of a claim is all of it, once. On every stored graph, cyclic ones included,
  \<^verbatim>\<open>build_provenance_map\<close> ends and changes nothing. For a stored claim it lists, in the order of
  its sort key, exactly the hops that leave an object the claim rests on, directly or through
  others, and no hop twice; for anything else it fails with \<^verbatim>\<open>ClaimNotFoundError\<close>.
\<close>

theorem provenance_map_exact:
  assumes ok: "world_ok E w"
  shows "(\<forall>r. stored_latest (w_db w) i = Some r \<and> so_kind r = ''Claim'' \<longrightarrow>
      (\<exists>hops. build_provenance_map i w = (Inr \<lparr>pm_claim_id = i, pm_edges = hops\<rparr>, w) \<and>
         set hops = {h. \<exists>n. (i, n) \<in> (rests_on (w_db w))\<^sup>* \<and> hop_from (w_db w) n h} \<and> distinct hops \<and>
         sorted (map hop_key hops))) \<and>
    ((\<nexists>r. stored_latest (w_db w) i = Some r \<and> so_kind r = ''Claim'') \<longrightarrow>
      build_provenance_map i w = (Inl (ClaimNotFoundError i), w))"
proof -
  obtain V where V: "distinct V" "set V = (rests_on (w_db w))\<^sup>* `` {i}"
    "trace_loop (w_db w) [i] [] [i] = concat (map (outgoing_provenance_hops (w_db w)) V)"
    using trace_loop_result [of "[i]" "[]" "[i]" "[]" "w_db w" i] by auto
  let ?hops = "sort_key hop_key (trace_loop (w_db w) [i] [] [i])"
  have eo: "edges_ok (w_db w)" by (rule world_ok_parts(3) [OF ok])
  have "set ?hops = {h. \<exists>n. (i, n) \<in> (rests_on (w_db w))\<^sup>* \<and> hop_from (w_db w) n h}"
    using V(2) by (auto simp: V(3) set_outgoing)
  moreover have "distinct ?hops" using distinct_hops [OF eo V(1)] by (simp add: V(3))
  moreover have "sorted (map hop_key ?hops)" by simp
  ultimately show ?thesis by (auto simp: provenance_run [OF ok] split: option.split)
qed

section \<open>The table of claims\<close>

text \<open>A critical correction that is not resolved and names an object, as affected or as impacted.\<close>

definition open_critical :: "dict \<Rightarrow> bool" where
  "open_critical c \<longleftrightarrow> (\<exists>severity status. dget_str c ''severity'' = Inr severity \<and> dget_str c ''status'' = Inr status \<and>
     is_unresolved_critical_correction severity status)"

definition names_object :: "dict \<Rightarrow> urn \<Rightarrow> bool" where
  "names_object c i \<longleftrightarrow> (\<exists>affected impact. affected_object_ids c = Inr affected \<and>
     strs_or_empty c ''impact_objects'' = Inr impact \<and> (i \<in> set affected \<or> i \<in> set impact))"

lemma unresolved_naming_Inr:
  assumes "unresolved_naming claim_id c = Inr found"
  shows "found = Some i \<longleftrightarrow> open_critical c \<and> names_object c claim_id \<and> dget_str c ''id'' = Inr i"
proof -
  obtain severity status where s: "dget_str c ''severity'' = Inr severity" "dget_str c ''status'' = Inr status"
    using assms by (auto simp: unresolved_naming_def simp del: dget_str_Inr split: sum.splits)
  show ?thesis
  proof (cases "is_unresolved_critical_correction severity status")
    case True
    then obtain a b where ab: "affected_object_ids c = Inr a" "strs_or_empty c ''impact_objects'' = Inr b"
      using assms s by (auto simp: unresolved_naming_def simp del: dget_str_Inr split: sum.splits)
    have "found = Some i \<longleftrightarrow> (claim_id \<in> set a \<or> claim_id \<in> set b) \<and> dget_str c ''id'' = Inr i"
      using assms s True ab
      by (cases "claim_id \<in> set a \<or> claim_id \<in> set b") (auto simp: unresolved_naming_def simp del: dget_str_Inr split: sum.splits)
    then show ?thesis using s True ab by (simp add: open_critical_def names_object_def del: dget_str_Inr)
  next
    case False
    then have "found = None" using assms s by (simp add: unresolved_naming_def del: dget_str_Inr)
    then show ?thesis using s False by (simp add: open_critical_def del: dget_str_Inr)
  qed
qed

lemma unresolved_ids_Inr:
  "unresolved_ids claim_id cs = Inr is \<Longrightarrow>
     set is = {i. \<exists>c \<in> set cs. open_critical c \<and> names_object c claim_id \<and> dget_str c ''id'' = Inr i}"
proof (induction cs arbitrary: "is")
  case (Cons c cs)
  from Cons.prems obtain found js where f: "unresolved_naming claim_id c = Inr found"
    and j: "unresolved_ids claim_id cs = Inr js" "is = found_list found @ js" by (auto split: sum.splits)
  have "set (found_list found) = {i. open_critical c \<and> names_object c claim_id \<and> dget_str c ''id'' = Inr i}"
    using unresolved_naming_Inr [OF f] by (simp add: set_eq_iff del: dget_str_Inr)
  with Cons.IH [OF j(1)] show ?case unfolding j(2) by (auto simp del: dget_str_Inr)
qed simp

text \<open>The corrections a table is built from, and what its row for an object says.\<close>

definition latest_created :: "db \<Rightarrow> string \<Rightarrow> string \<Rightarrow> (urn \<times> stored_object) list" where
  "latest_created d event_type kind =
     filter (\<lambda>(i, r). map_of (so_body r) ''kind'' = Some (JStr kind))
       (concat (map (\<lambda>i. found_list (map_option (Pair i) (stored_latest d i)))
          (sorted_set (map de_object_id (filter (\<lambda>e. de_event_type e = event_type) (map ae_event (domain_events_tbl d)))))))"

definition claim_row_says :: "dict list \<Rightarrow> urn \<times> stored_object \<Rightarrow> claim_table_row \<Rightarrow> bool" where
  "claim_row_says corrections ir row \<longleftrightarrow>
     (let body = so_body (snd ir); i = ct_claim_id row in
      dget_str body ''id'' = Inr i \<and> dget_str body ''assertion'' = Inr (ct_assertion row) \<and>
      dget_str body ''status'' = Inr (ct_status row) \<and>
      set (ct_unresolved_correction_ids row) =
        {k. \<exists>c \<in> set corrections. open_critical c \<and> names_object c i \<and> dget_str c ''id'' = Inr k} \<and>
      distinct (ct_unresolved_correction_ids row) \<and> sorted (ct_unresolved_correction_ids row) \<and>
      ct_flagged row = (\<exists>c \<in> set corrections. open_critical c \<and> names_object c i) \<and>
      (ct_ceiling_violation row \<noteq> None \<longrightarrow> ct_ceiling_checked row))"

lemma named_corrections_have_ids:
  "unresolved_ids claim_id cs = Inr is \<Longrightarrow> c \<in> set cs \<Longrightarrow> open_critical c \<Longrightarrow> names_object c claim_id \<Longrightarrow>
     \<exists>i. dget_str c ''id'' = Inr i"
proof (induction cs arbitrary: "is")
  case (Cons d cs)
  from Cons.prems(1) obtain found js where f: "unresolved_naming claim_id d = Inr found"
    and j: "unresolved_ids claim_id cs = Inr js" by (auto split: sum.splits)
  show ?case
  proof (cases "c = d")
    case True
    obtain severity status a b where "dget_str c ''severity'' = Inr severity" "dget_str c ''status'' = Inr status"
      "is_unresolved_critical_correction severity status" "affected_object_ids c = Inr a"
      "strs_or_empty c ''impact_objects'' = Inr b" "claim_id \<in> set a \<or> claim_id \<in> set b"
      using Cons.prems(3,4) unfolding open_critical_def names_object_def by blast
    with f True show ?thesis by (auto simp: unresolved_naming_def simp del: dget_str_Inr split: sum.splits)
  next
    case False
    with Cons j show ?thesis by simp
  qed
qed simp

lemma claim_table_row_says:
  assumes "build_claim_table_row (so_body r) corrections x y = Inr row"
  shows "claim_row_says corrections (i, r) row"
proof -
  from assms obtain ids v where id: "dget_str (so_body r) ''id'' = Inr (ct_claim_id row)"
    and u: "unresolved_ids (ct_claim_id row) corrections = Inr ids" "ct_unresolved_correction_ids row = sorted_set ids"
    and f: "dget_str (so_body r) ''assertion'' = Inr (ct_assertion row)" "dget_str (so_body r) ''status'' = Inr (ct_status row)"
      "ct_flagged row = (sorted_set ids \<noteq> [])" "row_ceiling_violation (so_body r) x y = Inr (ct_ceiling_violation row)"
      "ct_ceiling_checked row = (x \<noteq> None \<and> y \<noteq> None)"
    by (auto simp: build_claim_table_row_def unresolved_critical_correction_ids_for_claim_def simp del: dget_str_Inr split: sum.splits)
  have s: "set ids = {k. \<exists>c \<in> set corrections. open_critical c \<and> names_object c (ct_claim_id row) \<and> dget_str c ''id'' = Inr k}"
    by (rule unresolved_ids_Inr [OF u(1)])
  have "ids \<noteq> [] \<longleftrightarrow> (\<exists>c \<in> set corrections. open_critical c \<and> names_object c (ct_claim_id row))"
  proof
    assume "ids \<noteq> []"
    then have "hd ids \<in> set ids" by simp
    then show "\<exists>c \<in> set corrections. open_critical c \<and> names_object c (ct_claim_id row)"
      unfolding s by (elim CollectE bexE conjE) (rule bexI, rule conjI, assumption+)
  next
    assume "\<exists>c \<in> set corrections. open_critical c \<and> names_object c (ct_claim_id row)"
    then obtain c where c: "c \<in> set corrections" "open_critical c" "names_object c (ct_claim_id row)" by (elim bexE conjE) (rule that)
    from named_corrections_have_ids [OF u(1) c] obtain i where "dget_str c ''id'' = Inr i" by (elim exE) (rule that)
    with c have "i \<in> set ids" unfolding s by (intro CollectI bexI conjI)
    then show "ids \<noteq> []" by auto
  qed
  moreover have "ct_ceiling_violation row \<noteq> None \<longrightarrow> x \<noteq> None \<and> y \<noteq> None"
    using f(4) by (auto simp: row_ceiling_violation_def split: option.splits)
  ultimately have fl: "ct_flagged row = (\<exists>c \<in> set corrections. open_critical c \<and> names_object c (ct_claim_id row))"
    and ce: "ct_ceiling_violation row \<noteq> None \<longrightarrow> ct_ceiling_checked row"
    unfolding f(3,5) sorted_set_eq_Nil by blast+
  show ?thesis
    unfolding claim_row_says_def Let_def snd_conv u(2) set_sorted_set
    using distinct_sorted_set sorted_sorted_set by (intro conjI id f(1,2) s fl ce)
qed

definition correction_bodies :: "db \<Rightarrow> dict list" where
  "correction_bodies d = map (so_body \<circ> snd) (latest_created d ''correction.recorded'' ''CorrectionEvent'')"

lemma filter_found:
  "filter P (map f (concat (map found_list (map g xs)))) =
     map (f \<circ> snd) (filter (\<lambda>(i, r). P (f r)) (concat (map (\<lambda>i. found_list (map_option (Pair i) (g i))) xs)))"
proof (induction xs)
  case (Cons x xs)
  then show ?case by (cases "g x") simp_all
qed simp

lemma correction_bodies_run:
  assumes ok: "world_ok E w"
  shows "projection_correction_bodies w = (Inr (correction_bodies (w_db w)), w)"
  by (simp only: projection_correction_bodies_def discover_ids_by_event_type_def latest_bodies_def bindp_def ret_run
      read_all_run [OF world_ok_parts(1) [OF ok]] mapp_latest_run [OF world_ok_parts(2) [OF ok]] prod.case sum.case
      filter_found correction_bodies_def latest_created_def stored_latest_def)

lemma readonly_latest_opt [readonly]: "keeps same_db (get_latest_opt i)"
proof -
  have "keeps same_db (\<lambda>w :: world. (case x of ObjectNotFoundError a b \<Rightarrow> ret None | _ \<Rightarrow> raise x) w)"
    for x by (cases x) (simp_all add: keeps_same_pure)
  then show ?thesis unfolding get_latest_opt_def by (intro readonly)
qed

lemma readonly_referenced [readonly]: "keeps same_db (referenced body k)"
proof (cases "map_of body k")
  case (Some j)
  then show ?thesis by (cases j) (simp_all add: referenced_def keeps_same_pure readonly_latest_opt)
qed (simp add: referenced_def keeps_same_pure)

lemma readonly_ceiling_chain [readonly]: "keeps same_db (resolve_latest_ruling_ceiling_chain i)"
proof -
  have "keeps same_db (case (x, y) of (Some r, Some p) \<Rightarrow> ret (Some (r, p)) | _ \<Rightarrow> ret None)" for x y :: "string option"
    by (simp add: keeps_same_pure split: option.split)
  then show ?thesis unfolding resolve_latest_ruling_ceiling_chain_def by (intro readonly) simp_all
qed

lemma readonly_claim_row [readonly]: "keeps same_db (claim_row_for corrections i)"
  unfolding claim_row_for_def by (intro readonly)

definition row_found :: "dict list \<Rightarrow> db \<Rightarrow> urn \<Rightarrow> claim_table_row option \<Rightarrow> bool" where
  "row_found corrections d i x \<longleftrightarrow>
     (case filter (\<lambda>(i, r). map_of (so_body r) ''kind'' = Some (JStr ''Claim'')) (found_list (map_option (Pair i) (stored_latest d i))) of
        [] \<Rightarrow> x = None | ir # _ \<Rightarrow> (\<exists>row. x = Some row \<and> claim_row_says corrections ir row))"

lemma claim_row_for_Inr:
  assumes ok: "objects_ok (w_db w)" and run: "claim_row_for corrections i w = (Inr x, w')"
  shows "row_found corrections (w_db w) i x"
proof (cases "stored_latest (w_db w) i")
  case None
  then have "last_opt (history_of (w_db w) i) = None" by (simp add: stored_latest_def)
  with run have "x = None" by (simp add: claim_row_for_def bindp_def get_latest_opt_run [OF ok] ret_run)
  with None show ?thesis by (simp add: row_found_def)
next
  case (Some r)
  then have l: "last_opt (history_of (w_db w) i) = Some r" by (simp add: stored_latest_def)
  show ?thesis
  proof (cases "map_of (so_body r) ''kind'' = Some (JStr ''Claim'')")
    case False
    with run l have "x = None" by (simp add: claim_row_for_def bindp_def get_latest_opt_run [OF ok] ret_run)
    with Some False show ?thesis by (simp add: row_found_def)
  next
    case True
    have "bindp (resolve_latest_ruling_ceiling_chain i) (\<lambda>ceiling_chain.
           bindp (lift (build_claim_table_row (so_body r) corrections (map_option fst ceiling_chain)
             (map_option snd ceiling_chain))) (\<lambda>row.
           ret (Some row))) w = (Inr x, w')"
      using run l True by (simp add: claim_row_for_def bindp_def [of "get_latest_opt i"] get_latest_opt_run [OF ok])
    then obtain chain row where
      "build_claim_table_row (so_body r) corrections (map_option fst chain) (map_option snd chain) = Inr row" "x = Some row"
      by (elim bindp_InrE lift_InrE ret_InrE) (rule that)
    with claim_table_row_says Some True show ?thesis by (simp add: row_found_def)
  qed
qed

lemma rows_found:
  "list_all2 (row_found corrections d) is xs \<Longrightarrow>
     list_all2 (claim_row_says corrections)
       (filter (\<lambda>(i, r). map_of (so_body r) ''kind'' = Some (JStr ''Claim''))
          (concat (map (\<lambda>i. found_list (map_option (Pair i) (stored_latest d i))) is)))
       (concat (map found_list xs))"
proof (induction rule: list_all2_induct)
  case (Cons i "is" x xs)
  let ?f = "filter (\<lambda>(i, r). map_of (so_body r) ''kind'' = Some (JStr ''Claim'')) (found_list (map_option (Pair i) (stored_latest d i)))"
  have "length ?f \<le> 1" by (cases "stored_latest d i") auto
  then have "?f = [] \<or> (\<exists>ir. ?f = [ir])" by (cases ?f) auto
  with Cons(1) have "list_all2 (claim_row_says corrections) ?f (found_list x)"
    unfolding row_found_def by (elim disjE exE) (simp_all only: list.case, auto)
  from list_all2_appendI [OF this Cons.IH] show ?case by (simp only: list.map concat.simps filter_append)
qed simp

text \<open>
  C29. The table of claims is complete and flags what is open. Reading it changes nothing; it has
  one row, in the order of their ids, for each object created as a claim whose latest revision is
  one; the row repeats its id, assertion and status, lists exactly the corrections that are critical, unresolved
  and name the claim as affected or impacted, and is flagged exactly when there is one.
\<close>

theorem claim_table_flags_open_corrections:
  assumes ok: "world_ok E w" and run: "build_claim_table w = (Inr rows, w')"
  shows "same_db w w' \<and> list_all2 (claim_row_says (correction_bodies (w_db w)))
    (latest_created (w_db w) ''claim.created'' ''Claim'') rows"
proof -
  let ?ids = "sorted_set (map de_object_id (filter (\<lambda>e. de_event_type e = ''claim.created'') (map ae_event (domain_events_tbl (w_db w)))))"
  from run [unfolded build_claim_table_def discover_ids_by_event_type_def] obtain xs where
    m: "mapp (claim_row_for (correction_bodies (w_db w))) ?ids w = (Inr xs, w')" and r: "rows = concat (map found_list xs)"
    by (auto simp: read_all_run [OF world_ok_parts(1) [OF ok]] correction_bodies_run [OF ok] elim!: bindp_InrE ret_InrE)
  have "same_db w w' \<and> list_all2 (row_found (correction_bodies (w_db w)) (w_db w)) ?ids xs"
  proof (rule mapp_readonly_Inr [OF m readonly_claim_row])
    fix i v x v' assume k: "same_db w v" and s: "claim_row_for (correction_bodies (w_db w)) i v = (Inr x, v')"
    have "w_db v = w_db w" using k by (simp add: same_db_def)
    with claim_row_for_Inr [OF _ s] world_ok_parts(2) [OF ok] show "row_found (correction_bodies (w_db w)) (w_db w) i x" by simp
  qed
  with rows_found show ?thesis unfolding r latest_created_def by blast
qed

section \<open>The public views\<close>

definition public_row_says :: "classifications \<Rightarrow> dict \<Rightarrow> public_correction_row \<Rightarrow> bool" where
  "public_row_says classification body row \<longleftrightarrow>
     dget_str body ''id'' = Inr (pc_correction_id row) \<and> affected_object_ids body = Inr (pc_affected_object_ids row) \<and>
     strs_or_empty body ''impact_objects'' = Inr (pc_impact_object_ids row) \<and> (pc_unresolved row \<longleftrightarrow> open_critical body) \<and>
     (pc_redacted row \<longleftrightarrow> (\<exists>i \<in> {pc_correction_id row} \<union> set (pc_affected_object_ids row) \<union> set (pc_impact_object_ids row).
        classification i \<noteq> Some ''PUBLIC'')) \<and>
     (if pc_redacted row then pc_reason row = None \<and> pc_requested_action row = None
      else (\<exists>reason action. dget_str body ''reason'' = Inr reason \<and> dget_str body ''requested_action'' = Inr action \<and>
        pc_reason row = Some reason \<and> pc_requested_action row = Some action))"

lemma public_row_Inr:
  assumes "build_public_correction_row body classification = Inr row"
  shows "public_row_says classification body row"
proof -
  from assms obtain i sv st af im ct where
    f: "dget_str body ''id'' = Inr i" "dget_str body ''severity'' = Inr sv" "dget_str body ''status'' = Inr st"
      "affected_object_ids body = Inr af" "strs_or_empty body ''impact_objects'' = Inr im" "dget_str body ''correction_type'' = Inr ct"
    by (auto simp: build_public_correction_row_def simp del: dget_str_Inr split: sum.splits)
  let ?p = "all_ids_attested_public ([i] @ af @ im) classification"
  from assms [unfolded build_public_correction_row_def f] obtain a b where
    g: "attested_field ?p body ''reason'' = Inr a" "attested_field ?p body ''requested_action'' = Inr b"
    and r: "row = \<lparr>pc_correction_id = i, pc_correction_type = ct, pc_severity = sv, pc_status = st,
                    pc_affected_object_ids = af, pc_impact_object_ids = im,
                    pc_unresolved = is_unresolved_critical_correction sv st,
                    pc_reason = a, pc_requested_action = b, pc_redacted = (\<not> ?p)\<rparr>"
    by (auto simp: Let_def simp del: dget_str_Inr split: sum.splits)
  have p: "(\<not> ?p) = (\<exists>k \<in> {i} \<union> set af \<union> set im. classification k \<noteq> Some ''PUBLIC'')"
    by (auto simp: all_ids_attested_public_def list_all_iff)
  have o: "is_unresolved_critical_correction sv st = open_critical body" using f by (simp add: open_critical_def del: dget_str_Inr)
  have c: "if \<not> ?p then a = None \<and> b = None
      else (\<exists>reason action. dget_str body ''reason'' = Inr reason \<and> dget_str body ''requested_action'' = Inr action \<and>
        a = Some reason \<and> b = Some action)"
    using g by (auto simp: attested_field_def simp del: dget_str_Inr split: sum.splits)
  show ?thesis
    unfolding public_row_says_def r public_correction_row.simps by (intro conjI f(1,4,5) o p c)
qed

text \<open>What a redacted row hides has no influence on it.\<close>

lemma dset_untouched:
  "k \<noteq> k' \<Longrightarrow> dget_str (dset k v b) k' = dget_str b k'"
  "''affected_objects'' \<noteq> k \<Longrightarrow> ''impact_objects'' \<noteq> k \<Longrightarrow>
     affected_object_ids (dset k v b) = affected_object_ids b \<and> strs_or_empty (dset k v b) ''impact_objects'' = strs_or_empty b ''impact_objects''"
  by (simp_all add: dget_str_def dget_def affected_object_ids_def dget_list_or_empty_def strs_or_empty_def dget_strs_def
      split: option.split)

lemma redacted_hides:
  assumes run: "build_public_correction_row body classification = Inr row" and red: "pc_redacted row"
    and k: "k \<in> {''reason'', ''requested_action''}"
  shows "build_public_correction_row (dset k v body) classification = Inr row"
proof -
  have u: "''affected_objects'' \<noteq> k" "''impact_objects'' \<noteq> k" using k by auto
  have s: "dget_str (dset k v body) ''id'' = dget_str body ''id''" "dget_str (dset k v body) ''severity'' = dget_str body ''severity''"
    "dget_str (dset k v body) ''status'' = dget_str body ''status''"
    "dget_str (dset k v body) ''correction_type'' = dget_str body ''correction_type''"
    by (rule dset_untouched(1); use k in auto)+
  note d = dset_untouched(2) [OF u, of v body]
  note p = public_row_Inr [OF run]
  have n: "\<not> all_ids_attested_public ([pc_correction_id row] @ pc_affected_object_ids row @ pc_impact_object_ids row) classification"
    using p red by (auto simp: public_row_says_def all_ids_attested_public_def list_all_iff)
  from p have f: "dget_str body ''id'' = Inr (pc_correction_id row)" "affected_object_ids body = Inr (pc_affected_object_ids row)"
    "strs_or_empty body ''impact_objects'' = Inr (pc_impact_object_ids row)" by (simp_all add: public_row_says_def del: dget_str_Inr)
  show ?thesis
    using run n f
    by (simp add: build_public_correction_row_def s d Let_def attested_field_def del: dget_str_Inr split: sum.splits)
qed

lemma public_rows_Inr:
  "public_rows bs classification = Inr rows \<Longrightarrow>
     list_all2 (\<lambda>b r. build_public_correction_row b classification = Inr r) bs rows"
  by (induction bs arbitrary: rows) (auto split: sum.splits)

lemma public_filter:
  "list_all2 (\<lambda>b r. build_public_correction_row b classification = Inr r) bs rows \<Longrightarrow>
     list_all2 (public_row_says classification) (filter open_critical bs) (filter pc_unresolved rows)"
proof (induction rule: list_all2_induct)
  case (Cons b bs r rows)
  have "pc_unresolved r \<longleftrightarrow> open_critical b" using public_row_Inr [OF Cons(1)] by (simp add: public_row_says_def)
  with Cons public_row_Inr [OF Cons(1)] show ?case by simp
qed simp

text \<open>
  C30. The public views disclose no text that was not attested. The public view of corrections has
  one row for each critical unresolved correction, in order; a row carries the reason and the
  requested action only where the correction and every object it names are attested public, and
  is redacted otherwise; and no text that a redacted row hides changes the row. A public row for a claim
  carries the assertion only where the claim and every correction that flags it are attested.
\<close>

theorem public_views_disclose_only_attested:
  assumes ok: "world_ok E w"
  shows "(build_public_correction_view classification w = (Inr rows, w') \<longrightarrow>
      w' = w \<and> list_all2 (public_row_says classification) (filter open_critical (correction_bodies (w_db w))) rows) \<and>
    (build_public_correction_row body classification = Inr row \<and> pc_redacted row \<and> k \<in> {''reason'', ''requested_action''} \<longrightarrow>
      build_public_correction_row (dset k v body) classification = Inr row) \<and>
    (build_public_claim_table classification w = (Inr claim_rows, w'') \<longrightarrow>
      (\<forall>r \<in> set claim_rows. pl_redacted r \<longleftrightarrow> pl_assertion r = None) \<and>
      (\<forall>r \<in> set claim_rows. pl_assertion r \<noteq> None \<longleftrightarrow>
         (\<forall>i \<in> {pl_claim_id r} \<union> set (pl_unresolved_correction_ids r). classification i = Some ''PUBLIC'')))"
proof (intro conjI impI)
  assume run: "build_public_correction_view classification w = (Inr rows, w')"
  from run [unfolded build_public_correction_view_def] obtain bodies v rs where
    s1: "projection_correction_bodies w = (Inr bodies, v)" and s2: "public_rows bodies classification = Inr rs"
    and s3: "rows = filter pc_unresolved rs" "w' = v"
    by (elim bindp_InrE lift_InrE ret_InrE) (hypsubst+, rule that, (assumption | rule refl)+)
  from s1 have b: "bodies = correction_bodies (w_db w)" "v = w" unfolding correction_bodies_run [OF ok] by auto
  have r: "public_rows (correction_bodies (w_db w)) classification = Inr rs" "rows = filter pc_unresolved rs" "w' = w"
    using s2 s3 by (simp_all add: b)
  show "w' = w" by (rule r(3))
  show "list_all2 (public_row_says classification) (filter open_critical (correction_bodies (w_db w))) rows"
    unfolding r(2) by (rule public_filter [OF public_rows_Inr [OF r(1)]])
next
  assume "build_public_correction_row body classification = Inr row \<and> pc_redacted row \<and> k \<in> {''reason'', ''requested_action''}"
  then show "build_public_correction_row (dset k v body) classification = Inr row"
    by (elim conjE) (rule redacted_hides)
next
  assume "build_public_claim_table classification w = (Inr claim_rows, w'')"
  then obtain rs where r: "claim_rows = map (\<lambda>row. build_public_claim_row row classification) rs"
    by (auto simp: build_public_claim_table_def elim!: bindp_InrE ret_InrE)
  show "\<forall>r \<in> set claim_rows. pl_redacted r \<longleftrightarrow> pl_assertion r = None"
    by (auto simp: r build_public_claim_row_def Let_def)
  show "\<forall>r \<in> set claim_rows. pl_assertion r \<noteq> None \<longleftrightarrow>
         (\<forall>i \<in> {pl_claim_id r} \<union> set (pl_unresolved_correction_ids r). classification i = Some ''PUBLIC'')"
    by (auto simp: r build_public_claim_row_def Let_def all_ids_attested_public_def list_all_iff)
qed

section \<open>A projected world\<close>

text \<open>A draft claim that an open critical correction affects, and which rests on that correction's record.\<close>

definition open_correction :: stored_object where
  "open_correction = sample_row ''correction'' ''CorrectionEvent''
     [(''id'', JStr (sample_urn ''correction'')), (''kind'', JStr ''CorrectionEvent''), (''status'', JStr ''OPEN''),
      (''severity'', JStr ''critical''), (''correction_type'', JStr ''numeric_error''), (''reason'', JStr ''r''),
      (''requested_action'', JStr ''a''), (''affected_objects'', JArr [JObj [(''id'', JStr (sample_urn ''result''))]])]"

definition flagged_claim :: stored_object where
  "flagged_claim = sample_row ''result'' ''Claim''
     [(''id'', JStr (sample_urn ''result'')), (''kind'', JStr ''Claim''), (''status'', JStr ''draft''), (''assertion'', JStr ''s'')]"

definition to_correction :: typed_edge where
  "to_correction = sample_derivation\<lparr>te_target_id := sample_urn ''correction''\<rparr>"

lemma projected_world:
  obtains w where "world_ok sample_env w"
    and "history_of (w_db w) (sample_urn ''correction'') = [open_correction]"
    and "history_of (w_db w) (sample_urn ''result'') = [flagged_claim]"
    and "edges_tbl (w_db w) = [to_correction]"
    and "map (\<lambda>e. (de_event_type e, de_object_id e)) (map ae_event (domain_events_tbl (w_db w))) =
      [(''correction.recorded'', sample_urn ''correction''), (''claim.created'', sample_urn ''result''), (''x'', sample_urn ''claim'')]"
proof -
  let ?E = sample_env and ?e = "sample_event\<lparr>de_id := event_id_at sample_env 63, de_event_type := ''x''\<rparr>"
  have ids: "event_ids (w_db empty_world) = map (event_id_at ?E) []" by (simp add: start_fresh)
  have new: "w_ticks empty_world mod 64 \<notin> (\<lambda>m. m mod 64) ` set []" by simp
  have ty: "non_empty ''correction.recorded''" "non_empty ''claim.created''" by (simp_all add: non_empty_def is_space_def)
  have p1: "so_revision open_correction = 1" "is_valid_urn (so_id open_correction)"
    "history_of (w_db empty_world) (so_id open_correction) = []"
    by (simp_all add: start_fresh open_correction_def)
  obtain w1 e1 where c1: "committed ?E [open_correction] [] e1 empty_world w1" "de_event_type e1 = ''correction.recorded''"
    "de_object_id e1 = so_id open_correction" "history_of (w_db w1) (so_id open_correction) = [open_correction]"
    "\<And>i. i \<noteq> so_id open_correction \<Longrightarrow> history_of (w_db w1) i = history_of (w_db empty_world) i"
    "w_ticks w1 = w_ticks empty_world + 3" "event_ids (w_db w1) = map (event_id_at ?E) ([] @ [w_ticks empty_world])"
    by (rule sample_create [OF world_ok_empty ids new p1 ty(1)]) (rule that, assumption+)
  have ci: "so_id open_correction = sample_urn ''correction''" "so_id flagged_claim = sample_urn ''result''"
    by (simp_all add: open_correction_def flagged_claim_def)
  have ok1: "world_ok ?E w1" using c1(1) by (rule committed_tables(3))
  have t1: "w_ticks w1 = 3" "event_ids (w_db w1) = map (event_id_at ?E) [0]" using c1(6,7) by (simp_all add: start_fresh)
  have new1: "w_ticks w1 mod 64 \<notin> (\<lambda>m. m mod 64) ` set [0]" by (simp add: t1)
  have h1: "history_of (w_db w1) (so_id flagged_claim) = []" using c1(5) by (simp add: ci start_fresh)
  have p2: "so_revision flagged_claim = 1" "is_valid_urn (so_id flagged_claim)" by (simp_all add: flagged_claim_def)
  obtain w2 e2 where c2: "committed ?E [flagged_claim] [] e2 w1 w2" "de_event_type e2 = ''claim.created''"
    "de_object_id e2 = so_id flagged_claim" "history_of (w_db w2) (so_id flagged_claim) = [flagged_claim]"
    "\<And>i. i \<noteq> so_id flagged_claim \<Longrightarrow> history_of (w_db w2) i = history_of (w_db w1) i"
    "w_ticks w2 = w_ticks w1 + 3" "event_ids (w_db w2) = map (event_id_at ?E) ([0] @ [w_ticks w1])"
    by (rule sample_create [OF ok1 t1(2) new1 p2 h1 ty(2)]) (rule that, assumption+)
  have ok2: "world_ok ?E w2" using c2(1) by (rule committed_tables(3))
  have t2: "event_ids (w_db w2) = map (event_id_at ?E) [0, 3]" using c2(7) by (simp add: t1)
  have et2: "edges_tbl (w_db w2) = []" using committed_tables(2) [OF c2(1)] committed_tables(2) [OF c1(1)]
    by (simp add: empty_world_def empty_db_def)
  have eo: "event_ok ?e" using event_ok_sample by (simp add: event_ok_def event_id_at_def sample_env_def non_empty_def is_space_def)
  have fr: "de_id ?e \<notin> set (event_ids (w_db w2))" unfolding t2 using sample_fresh [of 63 "[0, 3]"] by simp
  have xv: "te_edge_type to_correction \<in> EDGE_VOCABULARY" "te_id to_correction \<notin> te_id ` set (edges_tbl (w_db w2))"
    by (simp_all add: et2 to_correction_def sample_derivation_def EDGE_VOCABULARY_def)
  obtain a w where w: "bind_edge_unit_of_work ?E to_correction ?e w2 = (Inr (to_correction, a), w)"
    using edge_unit_of_work_run [OF ok2 env_total_sample fr xv] by blast
  from edge_unit_of_work_Inr [OF ok2 eo w] have c3: "committed ?E [] [to_correction] ?e w2 w" by blast
  note t3 = committed_tables [OF c3]
  have h: "history_of (w_db w) = history_of (w_db w2)" by (rule ext) (simp add: history_of_def t3(1))
  have el: "event_list (w_db w) = [e1, e2, ?e]"
    using c1(1) c2(1) c3 by (auto simp: committed_def event_list_def empty_world_def empty_db_def)
  show thesis
  proof (rule that [OF t3(3)])
    show "history_of (w_db w) (sample_urn ''correction'') = [open_correction]" using c1(4) c2(5) by (simp add: h ci)
    show "history_of (w_db w) (sample_urn ''result'') = [flagged_claim]" using c2(4) by (simp add: h ci)
    show "edges_tbl (w_db w) = [to_correction]" by (simp add: t3(2) et2)
    show "map (\<lambda>e. (de_event_type e, de_object_id e)) (map ae_event (domain_events_tbl (w_db w))) =
      [(''correction.recorded'', sample_urn ''correction''), (''claim.created'', sample_urn ''result''), (''x'', sample_urn ''claim'')]"
      using el c1(2,3) c2(2,3) by (simp add: event_list_def ci sample_event_def)
  qed
qed

lemma projected_facts:
  assumes ok: "world_ok E w" and h: "history_of (w_db w) (sample_urn ''correction'') = [open_correction]"
    "history_of (w_db w) (sample_urn ''result'') = [flagged_claim]"
    and ev: "map (\<lambda>e. (de_event_type e, de_object_id e)) (map ae_event (domain_events_tbl (w_db w))) =
      [(''correction.recorded'', sample_urn ''correction''), (''claim.created'', sample_urn ''result''), (''x'', sample_urn ''claim'')]"
  shows "correction_bodies (w_db w) = [so_body open_correction]"
    and "latest_created (w_db w) ''claim.created'' ''Claim'' = [(sample_urn ''result'', flagged_claim)]"
proof -
  have f: "map de_object_id (filter (\<lambda>e. de_event_type e = t) (map ae_event (domain_events_tbl (w_db w)))) =
      map snd (filter (\<lambda>p. fst p = t) (map (\<lambda>e. (de_event_type e, de_object_id e)) (map ae_event (domain_events_tbl (w_db w)))))"
    for t by (induction "domain_events_tbl (w_db w)") (simp_all add: filter_map comp_def)
  have s: "stored_latest (w_db w) (sample_urn ''correction'') = Some open_correction"
    "stored_latest (w_db w) (sample_urn ''result'') = Some flagged_claim" using h by (simp_all add: stored_latest_def last_opt_def)
  show "correction_bodies (w_db w) = [so_body open_correction]"
    unfolding correction_bodies_def latest_created_def f ev using s
    by (simp add: sorted_set_def open_correction_def)
  show "latest_created (w_db w) ''claim.created'' ''Claim'' = [(sample_urn ''result'', flagged_claim)]"
    unfolding latest_created_def f ev using s by (simp add: sorted_set_def flagged_claim_def)
qed

definition flagged_row :: claim_table_row where
  "flagged_row = \<lparr>ct_claim_id = sample_urn ''result'', ct_assertion = ''s'', ct_status = ''draft'', ct_evidence_relations = [],
     ct_verification_ids = [], ct_unresolved_correction_ids = [sample_urn ''correction''], ct_flagged = True,
     ct_ceiling_checked = False, ct_ceiling_violation = None\<rparr>"

lemma open_correction_names: "unresolved_naming (sample_urn ''result'') (so_body open_correction) = Inr (Some (sample_urn ''correction''))"
  by (simp add: open_correction_def unresolved_naming_def is_unresolved_critical_correction_def RESOLVED_CORRECTION_STATUSES_def
      affected_object_ids_def strs_or_empty_def dget_list_or_empty_def dget_str_def dget_def)

lemma flagged_row_built: "build_claim_table_row (so_body flagged_claim) [so_body open_correction] None None = Inr flagged_row"
  using open_correction_names
  by (simp add: flagged_row_def flagged_claim_def build_claim_table_row_def unresolved_critical_correction_ids_for_claim_def
      row_ceiling_violation_def strs_or_empty_def sorted_set_def dget_str_def dget_def)

lemma projected_table:
  assumes ok: "world_ok sample_env w" and h: "history_of (w_db w) (sample_urn ''correction'') = [open_correction]"
    "history_of (w_db w) (sample_urn ''result'') = [flagged_claim]" and x: "edges_tbl (w_db w) = [to_correction]"
    and ev: "map (\<lambda>e. (de_event_type e, de_object_id e)) (map ae_event (domain_events_tbl (w_db w))) =
      [(''correction.recorded'', sample_urn ''correction''), (''claim.created'', sample_urn ''result''), (''x'', sample_urn ''claim'')]"
  shows "build_claim_table w = (Inr [flagged_row], w)"
proof -
  note pf = projected_facts [OF ok h ev]
  have f: "map de_object_id (filter (\<lambda>e. de_event_type e = ''claim.created'') (map ae_event (domain_events_tbl (w_db w)))) =
      map snd (filter (\<lambda>p. fst p = ''claim.created'') (map (\<lambda>e. (de_event_type e, de_object_id e)) (map ae_event (domain_events_tbl (w_db w)))))"
    by (simp add: filter_map comp_def)
  have ids: "sorted_set (map de_object_id (filter (\<lambda>e. de_event_type e = ''claim.created'') (map ae_event (domain_events_tbl (w_db w))))) =
      [sample_urn ''result'']" unfolding f ev by (simp add: sorted_set_def)
  have l: "last_opt (history_of (w_db w) (sample_urn ''result'')) = Some flagged_claim" by (simp add: h last_opt_def)
  have e: "edges_from (sample_urn ''result'') (Some ''ruled_by'') w = (Inr [], w)"
    by (simp add: edges_from_def edges_by_def asks_run x to_correction_def sample_derivation_def)
  have k: "map_of (so_body flagged_claim) ''kind'' = Some (JStr ''Claim'')" by (simp add: flagged_claim_def)
  have "claim_row_for [so_body open_correction] (sample_urn ''result'') w = (Inr (Some flagged_row), w)"
    by (simp add: claim_row_for_def bindp_def get_latest_opt_run [OF world_ok_parts(2) [OF ok]] l k
        resolve_latest_ruling_ceiling_chain_def e ret_run lift_run flagged_row_built)
  then show ?thesis
    by (simp add: build_claim_table_def bindp_def discover_ids_by_event_type_def read_all_run [OF world_ok_parts(1) [OF ok]]
        correction_bodies_run [OF ok] ret_run ids pf)
qed

theorem provenance_map_exact_witness:
  "\<exists>(w :: world) m. build_provenance_map (sample_urn ''result'') w = (Inr m, w) \<and>
     \<lparr>pe_source_id = sample_urn ''result'', pe_target_id = sample_urn ''correction'', pe_target_kind = ''CorrectionEvent'',
      pe_relation = ''derived_from'', pe_via = ''edge'', pe_edge_id = Some (te_id to_correction)\<rparr> \<in> set (pm_edges m)"
proof -
  let ?h = "\<lparr>pe_source_id = sample_urn ''result'', pe_target_id = sample_urn ''correction'', pe_target_kind = ''CorrectionEvent'',
      pe_relation = ''derived_from'', pe_via = ''edge'', pe_edge_id = Some (te_id to_correction)\<rparr>"
  obtain w where w: "world_ok sample_env w" "history_of (w_db w) (sample_urn ''correction'') = [open_correction]"
    "history_of (w_db w) (sample_urn ''result'') = [flagged_claim]" "edges_tbl (w_db w) = [to_correction]"
    by (rule projected_world) (rule that, assumption+)
  have s: "stored_latest (w_db w) (sample_urn ''correction'') = Some open_correction"
    "stored_latest (w_db w) (sample_urn ''result'') = Some flagged_claim" using w(2,3) by (simp_all add: stored_latest_def last_opt_def)
  have k: "so_kind flagged_claim = ''Claim''" by (simp add: flagged_claim_def)
  have hf: "hop_from (w_db w) (sample_urn ''result'') ?h"
    unfolding hop_from_def using s(1) w(4)
    by (intro conjI exI [of _ open_correction] disjI1 bexI [of _ to_correction])
      (simp_all add: open_correction_def to_correction_def sample_derivation_def)
  from provenance_map_exact [OF w(1), THEN conjunct1, rule_format, OF conjI [OF s(2) k]] obtain hops where
    b: "build_provenance_map (sample_urn ''result'') w = (Inr \<lparr>pm_claim_id = sample_urn ''result'', pm_edges = hops\<rparr>, w)"
    and hs: "set hops = {h. \<exists>n. (sample_urn ''result'', n) \<in> (rests_on (w_db w))\<^sup>* \<and> hop_from (w_db w) n h}"
    by (elim exE conjE) (rule that)
  have "?h \<in> set hops" unfolding hs by (rule CollectI, rule exI, rule conjI [OF rtrancl.rtrancl_refl hf])
  then have m: "?h \<in> set (pm_edges \<lparr>pm_claim_id = sample_urn ''result'', pm_edges = hops\<rparr>)"
    unfolding provenance_map.select_convs .
  show ?thesis by (rule exI, rule exI, rule conjI [OF b m])
qed

lemma open_correction_flags: "open_critical (so_body open_correction)" "names_object (so_body open_correction) (sample_urn ''result'')"
  by (simp_all add: open_critical_def names_object_def open_correction_def is_unresolved_critical_correction_def
      RESOLVED_CORRECTION_STATUSES_def affected_object_ids_def strs_or_empty_def dget_list_or_empty_def dget_str_def dget_def)

theorem claim_table_flags_open_corrections_witness:
  "\<exists>(w :: world) row. build_claim_table w = (Inr [row], w) \<and> ct_claim_id row = sample_urn ''result'' \<and> ct_flagged row \<and>
     distinct (ct_unresolved_correction_ids row)"
proof -
  obtain w where w: "world_ok sample_env w" "history_of (w_db w) (sample_urn ''correction'') = [open_correction]"
    "history_of (w_db w) (sample_urn ''result'') = [flagged_claim]" "edges_tbl (w_db w) = [to_correction]"
    "map (\<lambda>e. (de_event_type e, de_object_id e)) (map ae_event (domain_events_tbl (w_db w))) =
      [(''correction.recorded'', sample_urn ''correction''), (''claim.created'', sample_urn ''result''), (''x'', sample_urn ''claim'')]"
    by (rule projected_world) (rule that, assumption+)
  note pf = projected_facts [OF w(1,2,3,5)]
  note run = projected_table [OF w]
  have i: "ct_claim_id flagged_row = sample_urn ''result''" by (simp add: flagged_row_def)
  from claim_table_flags_open_corrections [OF w(1) run, THEN conjunct2]
  have says: "claim_row_says [so_body open_correction] (sample_urn ''result'', flagged_claim) flagged_row" unfolding pf by simp
  have f: "ct_flagged flagged_row = (\<exists>c \<in> set [so_body open_correction]. open_critical c \<and> names_object c (ct_claim_id flagged_row))"
    using says unfolding claim_row_says_def Let_def by (elim conjE)
  have d: "distinct (ct_unresolved_correction_ids flagged_row)"
    using says unfolding claim_row_says_def Let_def by (elim conjE)
  have "ct_flagged flagged_row"
    unfolding f i by (rule bexI [of _ "so_body open_correction"], rule conjI [OF open_correction_flags]) simp
  with run i d show ?thesis by (intro exI conjI)
qed

definition redacted_row :: public_correction_row where
  "redacted_row = \<lparr>pc_correction_id = sample_urn ''correction'', pc_correction_type = ''numeric_error'', pc_severity = ''critical'',
     pc_status = ''OPEN'', pc_affected_object_ids = [sample_urn ''result''], pc_impact_object_ids = [], pc_unresolved = True,
     pc_reason = None, pc_requested_action = None, pc_redacted = True\<rparr>"

lemma redacted_row_built: "build_public_correction_row (so_body open_correction) Map.empty = Inr redacted_row"
  by (simp add: redacted_row_def open_correction_def build_public_correction_row_def affected_object_ids_def strs_or_empty_def
      dget_list_or_empty_def dget_str_def dget_def all_ids_attested_public_def attested_field_def
      is_unresolved_critical_correction_def RESOLVED_CORRECTION_STATUSES_def)

theorem public_views_disclose_only_attested_witness:
  "\<exists>(w :: world) row. build_public_correction_view Map.empty w = (Inr [row], w) \<and> pc_reason row = None \<and>
     build_public_correction_row (dset ''reason'' (JStr ''secret'') (so_body open_correction)) Map.empty = Inr row"
proof -
  obtain w where w: "world_ok sample_env w" "history_of (w_db w) (sample_urn ''correction'') = [open_correction]"
    "history_of (w_db w) (sample_urn ''result'') = [flagged_claim]" "edges_tbl (w_db w) = [to_correction]"
    "map (\<lambda>e. (de_event_type e, de_object_id e)) (map ae_event (domain_events_tbl (w_db w))) =
      [(''correction.recorded'', sample_urn ''correction''), (''claim.created'', sample_urn ''result''), (''x'', sample_urn ''claim'')]"
    by (rule projected_world) (rule that, assumption+)
  note pf = projected_facts [OF w(1,2,3,5)]
  have pu: "pc_unresolved redacted_row" "pc_redacted redacted_row" "pc_reason redacted_row = None" by (simp_all add: redacted_row_def)
  have run: "build_public_correction_view Map.empty w = (Inr [redacted_row], w)"
    by (simp add: build_public_correction_view_def bindp_def correction_bodies_run [OF w(1)] pf lift_run redacted_row_built ret_run pu(1))
  have k: "''reason'' \<in> {''reason'', ''requested_action''}" by simp
  have "build_public_correction_row (dset ''reason'' (JStr ''secret'') (so_body open_correction)) Map.empty = Inr redacted_row"
    by (rule public_views_disclose_only_attested [OF w(1), THEN conjunct2, THEN conjunct1, rule_format,
          OF conjI [OF redacted_row_built conjI [OF pu(2) k]]])
  with run pu(3) show ?thesis by (intro exI conjI)
qed

end
