(* ===== verification/Evidence_Services.thy ===== *)
theory Evidence_Services
  imports Governed_Objects Claim_Properties
begin

text \<open>
  Sources, anchors and verifications, \<^verbatim>\<open>services/control_plane/mrr/services/evidence/service.py\<close>,
  \<^verbatim>\<open>source_family/service.py\<close> and \<^verbatim>\<open>verification/service.py\<close>: objects that are
  written once and have no lifecycle of their own, and the verification of a claim, which sends
  the claim back when it fails.
\<close>

section \<open>Contracts\<close>

record source_record = base_object +
  sr_source_type :: string
  sr_primary_secondary_derived :: string

record source_family = base_object +
  sf_relationship_type :: string
  sf_member_source_ids :: "urn list"

record text_locator =
  tl_char_start :: "int option"
  tl_char_end :: "int option"
  tl_line_start :: "int option"
  tl_line_end :: "int option"

record computational_selector =
  cs_json_pointer :: "string option"

record evidence_anchor = base_object +
  ea_relation :: string
  ea_anchor_kind :: string
  ea_anchor_validation_status :: string
  ea_anchor_unavailable_reason :: "string option"
  ea_snapshot_hash :: "string option"
  ea_locator :: "text_locator option"
  ea_quoted_fragment_hash :: "string option"
  ea_run_id :: "urn option"
  ea_selector :: "computational_selector option"
  ea_recomputation_status :: "string option"

definition exact_resolution_or_explicit_reason :: "evidence_anchor \<Rightarrow> unit outcome" where
  "exact_resolution_or_explicit_reason a =
     (let resolved = (if ea_anchor_kind a = ''text''
                      then ea_snapshot_hash a \<noteq> None \<or> ea_quoted_fragment_hash a \<noteq> None
                      else ea_run_id a \<noteq> None \<and> ea_recomputation_status a \<noteq> None)
      in if \<not> resolved \<and> ea_anchor_unavailable_reason a = None then Inl ValueError else Inr ())"

record verification_result = base_object +
  vr_target_id :: urn
  vr_target_kind :: string
  vr_reviewer_id :: urn
  vr_verification_type :: string
  vr_evidence_inspected :: "urn list"
  vr_numeric_recomputation :: bool
  vr_recommendation :: string

text \<open>\<open>vr_numeric_recomputation\<close> says whether the result carries one.\<close>

definition source_and_numeric_type_requirements :: "verification_result \<Rightarrow> unit outcome" where
  "source_and_numeric_type_requirements v =
     (if vr_verification_type v = ''source'' \<and> vr_evidence_inspected v = [] then Inl ValueError
      else if vr_verification_type v = ''numeric'' \<and> \<not> vr_numeric_recomputation v then Inl ValueError
      else Inr ())"

text \<open>The claim a verification is recorded against.\<close>

record proposed_claim = claim +
  pr_proposer_id :: urn

section \<open>Objects written once\<close>

definition create_once ::
  "env \<Rightarrow> call_ctx \<Rightarrow> 'a base_object_scheme \<Rightarrow> string \<Rightarrow> dict \<Rightarrow> (world, stored_object) prog" where
  "create_once E ctx c event_type payload =
     bindp (guardp (bo_revision c = 1) ValueError) (\<lambda>_.
     create_object E ctx (stored_of c) event_type payload)"

definition source_record_create :: "env \<Rightarrow> call_ctx \<Rightarrow> source_record \<Rightarrow> (world, stored_object) prog" where
  "source_record_create E ctx s =
     create_once E ctx s ''source_record.created''
       [(''source_type'', JStr (sr_source_type s)),
        (''primary_secondary_derived'', JStr (sr_primary_secondary_derived s))]"

definition evidence_anchor_create :: "env \<Rightarrow> call_ctx \<Rightarrow> evidence_anchor \<Rightarrow> (world, stored_object) prog" where
  "evidence_anchor_create E ctx a =
     create_once E ctx a ''evidence_anchor.created''
       [(''relation'', JStr (ea_relation a)), (''anchor_kind'', JStr (ea_anchor_kind a)),
        (''anchor_validation_status'', JStr (ea_anchor_validation_status a))]"

definition source_family_create :: "env \<Rightarrow> call_ctx \<Rightarrow> source_family \<Rightarrow> (world, stored_object) prog" where
  "source_family_create E ctx f =
     create_once E ctx f ''source_family.created''
       [(''relationship_type'', JStr (sf_relationship_type f)),
        (''member_source_count'', JInt (int (length (sf_member_source_ids f))))]"

section \<open>VerificationService\<close>

definition drive_claim_status_on_failure ::
  "env \<Rightarrow> call_ctx \<Rightarrow> proposed_claim \<Rightarrow> (world, stored_object option) prog" where
  "drive_claim_status_on_failure E ctx c =
     (if cl_status c = ''supported'' then bindp (require_review E ctx (cl_id c)) (\<lambda>r. ret (Some r))
      else if cl_status c = ''under_review'' then bindp (to_contested E ctx (cl_id c)) (\<lambda>r. ret (Some r))
      else ret None)"

definition verification_record ::
  "env \<Rightarrow> call_ctx \<Rightarrow> verification_result \<Rightarrow> proposed_claim \<Rightarrow> urn option \<Rightarrow> (world, stored_object) prog" where
  "verification_record E ctx v c run_executor_id =
     bindp (guardp (vr_target_id v = cl_id c) ValueError) (\<lambda>_.
     bindp (guardp (vr_reviewer_id v \<noteq> pr_proposer_id c)
       (SelfVerificationError (vr_reviewer_id v) (pr_proposer_id c) run_executor_id ''proposer'')) (\<lambda>_.
     bindp (guardp (run_executor_id \<noteq> Some (vr_reviewer_id v))
       (SelfVerificationError (vr_reviewer_id v) (pr_proposer_id c) run_executor_id ''executor'')) (\<lambda>_.
     bindp (create_once E ctx v ''verification.recorded''
       [(''target_id'', JStr (vr_target_id v)), (''target_kind'', JStr (vr_target_kind v)),
        (''verification_type'', JStr (vr_verification_type v)), (''recommendation'', JStr (vr_recommendation v))]) (\<lambda>stored.
     bindp (if vr_recommendation v = ''fail'' then drive_claim_status_on_failure E ctx c else ret None) (\<lambda>_.
     ret stored)))))"

section \<open>What a creation writes\<close>

definition written_once :: "string \<Rightarrow> stored_object \<Rightarrow> bool" where
  "written_once kind r \<longleftrightarrow> so_kind r = kind \<and> so_revision r = 1"

definition created_as :: "string \<Rightarrow> stored_object \<Rightarrow> domain_event \<Rightarrow> bool" where
  "created_as event_type r e \<longleftrightarrow> de_event_type e = event_type"

abbreviation never_again :: "stored_object \<Rightarrow> stored_object \<Rightarrow> bool" where
  "never_again \<equiv> \<lambda>_ _. False"

lemma create_once_aon: "all_or_nothing (create_once E ctx c ty p)"
  unfolding create_once_def by (intro aon_bindp create_object_aon readonly)

lemma create_once_Inr:
  assumes ok: "world_ok E w" and run: "create_once E ctx c ty p w = (Inr r, w')"
  shows "r = stored_of c \<and> bo_revision c = 1 \<and> history_of (w_db w) (bo_id c) = [] \<and>
    (\<exists>e. committed E [r] [] e w w' \<and> announces e [r] \<and> event_ok e \<and> de_event_type e = ty \<and> de_payload e = p)"
proof -
  from run have "bo_revision c = 1" and "create_object E ctx (stored_of c) ty p w = (Inr r, w')"
    unfolding create_once_def by (elim bindp_InrE guardp_InrE, simp)+
  with create_object_Inr [OF ok] show ?thesis by fastforce
qed

lemma create_once_writes:
  assumes ok: "world_ok E w" and k: "bo_kind c = kind"
  shows "writes E kind (written_once kind) never_again (created_as ty) w (snd (create_once E ctx c ty p w))"
proof (rule aon_writes [OF create_once_aon prod.collapse [symmetric]])
  fix r assume "fst (create_once E ctx c ty p w) = Inr r"
  then have run: "create_once E ctx c ty p w = (Inr r, snd (create_once E ctx c ty p w))" by (metis prod.collapse)
  from create_once_Inr [OF ok run] obtain e where r: "r = stored_of c" "bo_revision c = 1" "history_of (w_db w) (bo_id c) = []"
    and e: "committed E [r] [] e w (snd (create_once E ctx c ty p w))" "announces e [r]" "de_event_type e = ty" by blast
  have "fits kind (written_once kind) never_again (w_db w) r" using r k by (simp add: fits_def written_once_def)
  with e show "writes E kind (written_once kind) never_again (created_as ty) w (snd (create_once E ctx c ty p w))"
    by (intro writes_single) (simp_all add: created_as_def)
qed

fun source_record_run :: "env \<Rightarrow> call_ctx \<times> source_record \<Rightarrow> world \<Rightarrow> world" where
  "source_record_run E (ctx, s) w = snd (source_record_create E ctx s w)"

fun evidence_anchor_run :: "env \<Rightarrow> call_ctx \<times> evidence_anchor \<Rightarrow> world \<Rightarrow> world" where
  "evidence_anchor_run E (ctx, a) w = snd (evidence_anchor_create E ctx a w)"

fun source_family_run :: "env \<Rightarrow> call_ctx \<times> source_family \<Rightarrow> world \<Rightarrow> world" where
  "source_family_run E (ctx, f) w = snd (source_family_create E ctx f w)"

interpretation source_records:
  governed_service E "''SourceRecord''" "written_once ''SourceRecord''" never_again "created_as ''source_record.created''"
    "source_record_run E" "\<lambda>_ c. bo_kind (snd c) = ''SourceRecord''" for E
  by unfold_locales (auto simp: source_record_create_def intro: create_once_writes)

interpretation evidence_anchors:
  governed_service E "''EvidenceAnchor''" "written_once ''EvidenceAnchor''" never_again "created_as ''evidence_anchor.created''"
    "evidence_anchor_run E" "\<lambda>_ c. bo_kind (snd c) = ''EvidenceAnchor''" for E
  by unfold_locales (auto simp: evidence_anchor_create_def intro: create_once_writes)

interpretation source_families:
  governed_service E "''SourceFamily''" "written_once ''SourceFamily''" never_again "created_as ''source_family.created''"
    "source_family_run E" "\<lambda>_ c. bo_kind (snd c) = ''SourceFamily''" for E
  by unfold_locales (auto simp: source_family_create_def intro: create_once_writes)

end
