(* ===== verification/Evidence_Properties.thy ===== *)
theory Evidence_Properties
  imports Evidence_Services Contract_Samples
begin

text \<open>
  What the services over sources, anchors, families and verifications promise: their objects are
  never revised, nobody verifies work of their own, and a failed verification sends the claim back.
\<close>

section \<open>A verification\<close>

definition sent_back :: "proposed_claim \<Rightarrow> string option" where
  "sent_back c = (if cl_status c = ''supported'' then Some ''review_required''
     else if cl_status c = ''under_review'' then Some ''contested'' else None)"

lemma drive_claim_aon: "all_or_nothing (drive_claim_status_on_failure E ctx c)"
  unfolding drive_claim_status_on_failure_def require_review_def to_contested_def
  by (intro aon_if aon_ret transition_aon aon_keeps readonly)

lemma drive_claim_Inr:
  assumes ok: "world_ok E w" and run: "drive_claim_status_on_failure E ctx c w = (Inr q, w')"
  shows "case sent_back c of None \<Rightarrow> w' = w
    | Some to \<Rightarrow> \<exists>r e frm. committed E [r] [] e w w' \<and> announces e [r] \<and> so_id r = cl_id c \<and>
        history_of (w_db w) (cl_id c) \<noteq> [] \<and> so_kind r = so_kind (last (history_of (w_db w) (cl_id c))) \<and>
        status_of (last (history_of (w_db w) (cl_id c))) = Some frm \<and> can_transition CLAIM_LIFECYCLE frm to \<and>
        status_of r = Some to"
proof -
  have step: "\<exists>r e frm. committed E [r] [] e w w' \<and> announces e [r] \<and> so_id r = cl_id c \<and>
        history_of (w_db w) (cl_id c) \<noteq> [] \<and> so_kind r = so_kind (last (history_of (w_db w) (cl_id c))) \<and>
        status_of (last (history_of (w_db w) (cl_id c))) = Some frm \<and> can_transition CLAIM_LIFECYCLE frm to \<and>
        status_of r = Some to"
    if "bindp (transition_claim E ctx (cl_id c) to ty None None []) (\<lambda>r. ret (Some r)) w = (Inr q, w')" for to ty
  proof -
    from that obtain r where "transition_claim E ctx (cl_id c) to ty None None [] w = (Inr r, w')"
      by (elim bindp_InrE ret_InrE) (hypsubst, rule that)
    from transition_claim_Inr [OF ok this] obtain e latest frm where t: "committed E [r] [] e w w'" "announces e [r]"
      "latest = last (history_of (w_db w) (cl_id c))" "history_of (w_db w) (cl_id c) \<noteq> []"
      "so_id r = cl_id c" "so_kind r = so_kind latest" "status_of latest = Some frm"
      "can_transition CLAIM_LIFECYCLE frm to" "status_of r = Some to"
      by (elim exE conjE) (rule that)
    show ?thesis
      using t by (intro exI [of _ r] exI [of _ e] exI [of _ frm] conjI) simp_all
  qed
  show ?thesis
  proof (cases "cl_status c = ''supported''")
    case True
    with run have "bindp (require_review E ctx (cl_id c)) (\<lambda>r. ret (Some r)) w = (Inr q, w')"
      by (simp add: drive_claim_status_on_failure_def)
    from step [OF this [unfolded require_review_def]] True show ?thesis by (simp add: sent_back_def)
  next
    case False
    note ns = False
    show ?thesis
    proof (cases "cl_status c = ''under_review''")
      case True
      with run have "bindp (to_contested E ctx (cl_id c)) (\<lambda>r. ret (Some r)) w = (Inr q, w')"
        by (simp add: drive_claim_status_on_failure_def)
      from step [OF this [unfolded to_contested_def]] True show ?thesis by (simp add: sent_back_def)
    next
      case False
      with ns run show ?thesis by (simp add: drive_claim_status_on_failure_def sent_back_def ret_run)
    qed
  qed
qed

text \<open>The transaction of the verification and, where it failed, the one of the claim.\<close>

definition verified :: "env \<Rightarrow> verification_result \<Rightarrow> world \<Rightarrow> world \<Rightarrow> bool" where
  "verified E v w w' \<longleftrightarrow> (\<exists>e. committed E [stored_of v] [] e w w' \<and> announces e [stored_of v] \<and>
     de_event_type e = ''verification.recorded'' \<and> bo_revision v = 1 \<and> history_of (w_db w) (bo_id v) = [])"

definition fails_claim :: "verification_result \<Rightarrow> proposed_claim \<Rightarrow> string option" where
  "fails_claim v c = (if vr_recommendation v = ''fail'' then sent_back c else None)"

definition claim_moved :: "env \<Rightarrow> proposed_claim \<Rightarrow> string \<Rightarrow> world \<Rightarrow> world \<Rightarrow> bool" where
  "claim_moved E c to w w' \<longleftrightarrow> (\<exists>r e frm. committed E [r] [] e w w' \<and> announces e [r] \<and> so_id r = cl_id c \<and>
     history_of (w_db w) (cl_id c) \<noteq> [] \<and> so_kind r = so_kind (last (history_of (w_db w) (cl_id c))) \<and>
     status_of (last (history_of (w_db w) (cl_id c))) = Some frm \<and> can_transition CLAIM_LIFECYCLE frm to \<and>
     status_of r = Some to)"

definition may_verify :: "verification_result \<Rightarrow> proposed_claim \<Rightarrow> urn option \<Rightarrow> bool" where
  "may_verify v c run_executor_id \<longleftrightarrow> vr_target_id v = cl_id c \<and> vr_reviewer_id v \<noteq> pr_proposer_id c \<and>
     run_executor_id \<noteq> Some (vr_reviewer_id v)"

lemma record_split:
  "may_verify v c x \<Longrightarrow> verification_record E ctx v c x =
     bindp (create_once E ctx v ''verification.recorded''
       [(''target_id'', JStr (vr_target_id v)), (''target_kind'', JStr (vr_target_kind v)),
        (''verification_type'', JStr (vr_verification_type v)), (''recommendation'', JStr (vr_recommendation v))]) (\<lambda>stored.
     bindp (if vr_recommendation v = ''fail'' then drive_claim_status_on_failure E ctx c else ret None) (\<lambda>_.
     ret stored))"
  by (rule ext) (simp add: verification_record_def may_verify_def bindp_def guardp_run cong: if_weak_cong)

lemma drive_cases:
  assumes ok: "world_ok E w"
    and run: "(if vr_recommendation v = ''fail'' then drive_claim_status_on_failure E ctx c else ret None) w = (q, w')"
  shows "case q of Inl x \<Rightarrow> same_db w w' \<and> fails_claim v c \<noteq> None
    | Inr y \<Rightarrow> (case fails_claim v c of None \<Rightarrow> w' = w | Some to \<Rightarrow> claim_moved E c to w w')"
proof (cases q)
  case (Inl x)
  have f: "vr_recommendation v = ''fail''" using run Inl by (cases "vr_recommendation v = ''fail''") (simp_all add: ret_run)
  with run Inl have r: "drive_claim_status_on_failure E ctx c w = (Inl x, w')" by simp
  have "same_db w w'" using drive_claim_aon r unfolding all_or_nothing_def by blast
  moreover have "sent_back c \<noteq> None"
  proof
    assume "sent_back c = None"
    then have "cl_status c \<noteq> ''supported''" "cl_status c \<noteq> ''under_review''" by (auto simp: sent_back_def split: if_splits)
    with r show False by (simp add: drive_claim_status_on_failure_def ret_run)
  qed
  ultimately show ?thesis using Inl f by (simp add: fails_claim_def)
next
  case (Inr y)
  show ?thesis
  proof (cases "vr_recommendation v = ''fail''")
    case True
    with run Inr have r: "drive_claim_status_on_failure E ctx c w = (Inr y, w')" by simp
    have f: "fails_claim v c = sent_back c" using True by (simp add: fails_claim_def)
    show ?thesis using drive_claim_Inr [OF ok r] Inr unfolding f claim_moved_def by simp
  next
    case False
    with run Inr show ?thesis by (simp add: fails_claim_def ret_run)
  qed
qed

lemma record_cases:
  assumes ok: "world_ok E w" and may: "may_verify v c x" and run: "verification_record E ctx v c x w = (q, w')"
  shows "case q of
      Inl y \<Rightarrow> same_db w w' \<or> (fails_claim v c \<noteq> None \<and> (\<exists>w1. verified E v w w1 \<and> same_db w1 w'))
    | Inr s \<Rightarrow> s = stored_of v \<and> (\<exists>w1. verified E v w w1 \<and>
        (case fails_claim v c of None \<Rightarrow> w' = w1 | Some to \<Rightarrow> claim_moved E c to w1 w'))"
proof -
  let ?m = "create_once E ctx v ''verification.recorded''
       [(''target_id'', JStr (vr_target_id v)), (''target_kind'', JStr (vr_target_kind v)),
        (''verification_type'', JStr (vr_verification_type v)), (''recommendation'', JStr (vr_recommendation v))]"
  obtain q1 w1 where m: "?m w = (q1, w1)" by fastforce
  show ?thesis
  proof (cases q1)
    case (Inl y)
    then have "q = Inl y" "w' = w1" using run m unfolding record_split [OF may] by (simp_all add: bindp_def)
    moreover have "same_db w w1" using create_once_aon m unfolding Inl all_or_nothing_def by blast
    ultimately show ?thesis by simp
  next
    case (Inr s)
    note cr = create_once_Inr [OF ok m [unfolded Inr]]
    then have v: "verified E v w w1" and s: "s = stored_of v" by (auto simp: verified_def)
    from v have ok1: "world_ok E w1" by (auto simp: verified_def dest: committed_tables(3))
    obtain q2 w2 where d: "(if vr_recommendation v = ''fail'' then drive_claim_status_on_failure E ctx c else ret None) w1 = (q2, w2)"
      by fastforce
    note dc = drive_cases [OF ok1 d]
    show ?thesis
    proof (cases q2)
      case (Inl y)
      then have "q = Inl y" "w' = w2" using run m d Inr unfolding record_split [OF may] by (simp_all add: bindp_def)
      with dc v Inl show ?thesis by auto
    next
      case (Inr y)
      then have "q = Inr s" "w' = w2" using run m d \<open>q1 = Inr s\<close> unfolding record_split [OF may] by (simp_all add: bindp_def ret_run)
      with dc v s Inr show ?thesis by auto
    qed
  qed
qed

text \<open>
  C20. A verification is recorded by somebody else, and a failed one reaches the claim. A record
  whose target is another claim, or whose reviewer proposed the claim or executed its run, fails
  and reads nothing. Otherwise the verification is stored once, with its event; when it failed a
  claim that is supported or under review, the claim moves along its lifecycle to be reviewed, or
  contested, in a transaction of its own. The error of a call that could store nothing leaves the
  tables as they were; the error of a claim that cannot move leaves the stored verification behind.
\<close>

theorem verification_record_exact:
  assumes ok: "world_ok E w" and run: "verification_record E ctx v c x w = (q, w')"
  shows "(vr_target_id v \<noteq> cl_id c \<longrightarrow> q = Inl ValueError \<and> w' = w) \<and>
    (vr_target_id v = cl_id c \<and> \<not> may_verify v c x \<longrightarrow>
      (\<exists>role. q = Inl (SelfVerificationError (vr_reviewer_id v) (pr_proposer_id c) x role)) \<and> w' = w) \<and>
    (may_verify v c x \<longrightarrow>
      (case q of
        Inl y \<Rightarrow> same_db w w' \<or> (fails_claim v c \<noteq> None \<and> (\<exists>w1. verified E v w w1 \<and> same_db w1 w'))
      | Inr s \<Rightarrow> s = stored_of v \<and> (\<exists>w1. verified E v w w1 \<and>
          (case fails_claim v c of None \<Rightarrow> w' = w1 | Some to \<Rightarrow> claim_moved E c to w1 w'))))"
proof (intro conjI impI)
  show "q = Inl ValueError" "w' = w" if "vr_target_id v \<noteq> cl_id c"
    using run that by (simp_all add: verification_record_def bindp_def guardp_run cong: if_weak_cong)
  have self: "q = Inl (SelfVerificationError (vr_reviewer_id v) (pr_proposer_id c) x
        (if vr_reviewer_id v = pr_proposer_id c then ''proposer'' else ''executor'')) \<and> w' = w"
    if "vr_target_id v = cl_id c \<and> \<not> may_verify v c x"
    using run that
    by (cases "vr_reviewer_id v = pr_proposer_id c")
      (auto simp: verification_record_def may_verify_def bindp_def guardp_run cong: if_weak_cong)
  show "\<exists>role. q = Inl (SelfVerificationError (vr_reviewer_id v) (pr_proposer_id c) x role)"
    if "vr_target_id v = cl_id c \<and> \<not> may_verify v c x" using self [OF that] by blast
  show "w' = w" if "vr_target_id v = cl_id c \<and> \<not> may_verify v c x" using self [OF that] by blast
qed (rule record_cases [OF ok _ run])

section \<open>The four services together\<close>

datatype evidence_call =
    SourceCall call_ctx source_record
  | AnchorCall call_ctx evidence_anchor
  | FamilyCall call_ctx source_family
  | VerifyCall call_ctx verification_result proposed_claim "urn option"

fun evidence_run :: "env \<Rightarrow> evidence_call \<Rightarrow> world \<Rightarrow> world" where
  "evidence_run E (SourceCall ctx s) w = source_record_run E (ctx, s) w"
| "evidence_run E (AnchorCall ctx a) w = evidence_anchor_run E (ctx, a) w"
| "evidence_run E (FamilyCall ctx f) w = source_family_run E (ctx, f) w"
| "evidence_run E (VerifyCall ctx v c x) w = snd (verification_record E ctx v c x w)"

text \<open>The kind of a contract is a literal; a verification names a Claim, and not itself.\<close>

fun evidence_call_ok :: "db \<Rightarrow> evidence_call \<Rightarrow> bool" where
  "evidence_call_ok d (SourceCall ctx s) \<longleftrightarrow> bo_kind s = ''SourceRecord''"
| "evidence_call_ok d (AnchorCall ctx a) \<longleftrightarrow> bo_kind a = ''EvidenceAnchor''"
| "evidence_call_ok d (FamilyCall ctx f) \<longleftrightarrow> bo_kind f = ''SourceFamily''"
| "evidence_call_ok d (VerifyCall ctx v c x) \<longleftrightarrow>
     bo_kind v = ''VerificationResult'' \<and> addressable ''Claim'' d (cl_id c) \<and> bo_id v \<noteq> cl_id c"

definition evidence_events :: "(string \<times> string) list" where
  "evidence_events =
     [(''SourceRecord'', ''source_record.created''), (''EvidenceAnchor'', ''evidence_anchor.created''),
      (''SourceFamily'', ''source_family.created''), (''VerificationResult'', ''verification.recorded'')]"

definition beside_evidence :: "db \<Rightarrow> stored_object list \<Rightarrow> bool" where
  "beside_evidence d os \<longleftrightarrow>
     (\<forall>r \<in> set os. \<forall>kind \<in> fst ` set evidence_events. so_kind r \<noteq> kind \<and> \<not> is_kind kind d (so_id r))"

inductive evidence_reach :: "env \<Rightarrow> world \<Rightarrow> bool" for E :: env where
  start: "evidence_reach E empty_world"
| call: "evidence_reach E w \<Longrightarrow> evidence_call_ok (w_db w) c \<Longrightarrow> evidence_reach E (evidence_run E c w)"
| other: "evidence_reach E w \<Longrightarrow> committed E os es e w w' \<Longrightarrow> beside_evidence (w_db w) os \<Longrightarrow> evidence_reach E w'"
| idle: "evidence_reach E w \<Longrightarrow> same_db w w' \<Longrightarrow> evidence_reach E w'"

abbreviation keeps_once :: "env \<Rightarrow> string \<Rightarrow> string \<Rightarrow> world \<Rightarrow> bool" where
  "keeps_once E kind ty \<equiv> service_ok E kind (written_once kind) never_again (created_as ty)"

definition evidence_ok :: "env \<Rightarrow> world \<Rightarrow> bool" where
  "evidence_ok E w \<longleftrightarrow> (\<forall>(kind, ty) \<in> set evidence_events. keeps_once E kind ty w)"

lemma evidence_events_same: "(k, t) \<in> set evidence_events \<Longrightarrow> (k, t') \<in> set evidence_events \<Longrightarrow> t' = t"
  unfolding evidence_events_def by (simp; elim disjE conjE; simp)

lemma evidence_okD: "evidence_ok E w \<Longrightarrow> (k, t) \<in> set evidence_events \<Longrightarrow> keeps_once E k t w"
  unfolding evidence_ok_def by blast

lemma evidence_ok_world: "evidence_ok E w \<Longrightarrow> world_ok E w"
  by (simp add: evidence_ok_def evidence_events_def service_ok_def)

lemma evidence_ok_writes:
  assumes ok: "evidence_ok E w" and m: "(k, t) \<in> set evidence_events"
    and wr: "writes E k (written_once k) never_again (created_as t) w w'"
  shows "evidence_ok E w'"
  unfolding evidence_ok_def
proof (rule ballI, rule case_prodI2)
  fix p k' t' assume p: "p \<in> set evidence_events" "p = (k', t')"
  then have m': "(k', t') \<in> set evidence_events" by simp
  note s = evidence_okD [OF ok m']
  show "keeps_once E k' t' w'"
  proof (cases "k' = k")
    case True
    with m m' evidence_events_same have "t' = t" by blast
    with wr s True show ?thesis by (auto intro: writes_keep)
  next
    case False
    from writes_foreign [OF wr False s] show ?thesis .
  qed
qed

lemma evidence_ok_other:
  assumes ok: "evidence_ok E w" and c: "committed E os es e w w'" and f: "beside_evidence (w_db w) os"
  shows "evidence_ok E w'"
  unfolding evidence_ok_def
proof (rule ballI, rule case_prodI2)
  fix p k t assume p: "p \<in> set evidence_events" "p = (k, t)"
  then have m: "(k, t) \<in> set evidence_events" by simp
  then have "k \<in> fst ` set evidence_events" by (metis fst_conv imageI)
  with f have "\<forall>r \<in> set os. so_kind r \<noteq> k \<and> \<not> is_kind k (w_db w) (so_id r)" unfolding beside_evidence_def by blast
  from service_ok_foreign [OF evidence_okD [OF ok m] c this] show "keeps_once E k t w'" .
qed

lemma evidence_ok_same: "evidence_ok E w \<Longrightarrow> same_db w w' \<Longrightarrow> evidence_ok E w'"
  unfolding evidence_ok_def by (blast intro: service_ok_same_db)

lemma claim_beside: "addressable ''Claim'' d i \<Longrightarrow> \<forall>k \<in> fst ` set evidence_events. k \<noteq> ''Claim'' \<and> \<not> is_kind k d i"
  by (auto simp: addressable_def is_kind_def evidence_events_def)

lemma claim_moved_keeps:
  assumes ok: "evidence_ok E w" and ad: "addressable ''Claim'' (w_db w) (cl_id c)" and mv: "claim_moved E c to w w'"
  shows "evidence_ok E w'"
proof -
  from mv obtain r e where c: "committed E [r] [] e w w'" and r: "so_id r = cl_id c" "history_of (w_db w) (cl_id c) \<noteq> []"
    "so_kind r = so_kind (last (history_of (w_db w) (cl_id c)))"
    unfolding claim_moved_def by (elim exE conjE) (rule that)
  have k: "so_kind r = ''Claim''" using ad r unfolding addressable_def by simp
  have "beside_evidence (w_db w) [r]" using claim_beside [OF ad] unfolding beside_evidence_def by (simp add: k r(1)) metis
  from evidence_ok_other [OF ok c this] show ?thesis .
qed

lemma verify_keeps:
  assumes ok: "evidence_ok E w" and c: "evidence_call_ok (w_db w) (VerifyCall ctx v c x)"
  shows "evidence_ok E (snd (verification_record E ctx v c x w))"
proof -
  let ?i = "cl_id c"
  have k: "bo_kind v = ''VerificationResult''" and ad: "addressable ''Claim'' (w_db w) ?i" and ne: "bo_id v \<noteq> ?i"
    using c by simp_all
  note wok = evidence_ok_world [OF ok]
  obtain q w' where run: "verification_record E ctx v c x w = (q, w')" by fastforce
  have step: "evidence_ok E w1 \<and> addressable ''Claim'' (w_db w1) ?i" if v: "verified E v w w1" for w1
  proof -
    from v obtain e where e: "committed E [stored_of v] [] e w w1" "announces e [stored_of v]"
      "de_event_type e = ''verification.recorded''" "bo_revision v = 1" "history_of (w_db w) (bo_id v) = []"
      unfolding verified_def by blast
    have f: "fits ''VerificationResult'' (written_once ''VerificationResult'') never_again (w_db w) (stored_of v)"
      using e(4,5) k by (simp add: fits_def written_once_def)
    have w1: "writes E ''VerificationResult'' (written_once ''VerificationResult'') never_again
        (created_as ''verification.recorded'') w w1"
      by (rule writes_single [OF e(1,2) _ f]) (simp add: created_as_def e(3))
    have m: "(''VerificationResult'', ''verification.recorded'') \<in> set evidence_events" by (simp add: evidence_events_def)
    have "history_of (w_db w1) ?i = history_of (w_db w) ?i"
      using committed_tables(1) [OF e(1)] ne by (simp add: history_of_def)
    with ad evidence_ok_writes [OF ok m w1] show ?thesis by (simp add: addressable_def)
  qed
  show ?thesis
  proof (cases "may_verify v c x")
    case False
    then have "w' = w" using run
      by (cases "vr_target_id v = ?i"; cases "vr_reviewer_id v = pr_proposer_id c")
        (auto simp: verification_record_def may_verify_def bindp_def guardp_run cong: if_weak_cong)
    with ok run show ?thesis by simp
  next
    case True
    note rc = record_cases [OF wok True run]
    have "evidence_ok E w'"
    proof (cases q)
      case (Inl y)
      with rc consider "same_db w w'" | w1 where "verified E v w w1" "same_db w1 w'" by auto
      then show ?thesis
      proof cases
        case 1
        then show ?thesis by (rule evidence_ok_same [OF ok])
      next
        case 2
        from evidence_ok_same [OF conjunct1 [OF step [OF 2(1)]] 2(2)] show ?thesis .
      qed
    next
      case (Inr s)
      with rc obtain w1 where v: "verified E v w w1"
        and m: "case fails_claim v c of None \<Rightarrow> w' = w1 | Some to \<Rightarrow> claim_moved E c to w1 w'" by auto
      note s1 = step [OF v]
      show ?thesis
      proof (cases "fails_claim v c")
        case None
        with m s1 show ?thesis by simp
      next
        case (Some to)
        with m have "claim_moved E c to w1 w'" by simp
        from claim_moved_keeps [OF conjunct1 [OF s1] conjunct2 [OF s1] this] show ?thesis .
      qed
    qed
    with run show ?thesis by simp
  qed
qed

lemma evidence_call_keeps:
  assumes ok: "evidence_ok E w" and c: "evidence_call_ok (w_db w) c"
  shows "evidence_ok E (evidence_run E c w)"
proof -
  note wok = evidence_ok_world [OF ok]
  show ?thesis
  proof (cases c)
    case (SourceCall ctx s)
    with c source_records.run_writes [OF wok, of "(ctx, s)"] show ?thesis
      by (intro evidence_ok_writes [OF ok, of "''SourceRecord''" "''source_record.created''"]) (simp_all add: evidence_events_def)
  next
    case (AnchorCall ctx a)
    with c evidence_anchors.run_writes [OF wok, of "(ctx, a)"] show ?thesis
      by (intro evidence_ok_writes [OF ok, of "''EvidenceAnchor''" "''evidence_anchor.created''"]) (simp_all add: evidence_events_def)
  next
    case (FamilyCall ctx f)
    with c source_families.run_writes [OF wok, of "(ctx, f)"] show ?thesis
      by (intro evidence_ok_writes [OF ok, of "''SourceFamily''" "''source_family.created''"]) (simp_all add: evidence_events_def)
  next
    case (VerifyCall ctx v cl x)
    with verify_keeps [OF ok] c show ?thesis by simp
  qed
qed

lemma evidence_reach_ok: "evidence_reach E w \<Longrightarrow> evidence_ok E w"
proof (induction rule: evidence_reach.induct)
  case start
  then show ?case unfolding evidence_ok_def by (auto intro: service_ok_empty)
qed (blast intro: evidence_call_keeps evidence_ok_other evidence_ok_same)+

text \<open>
  C31. Evidence is written once and never changed. After any sequence of calls of the four services,
  refused ones included, with any writes of the other services in between, a stored source record,
  source family, evidence anchor or verification is the only revision of its id, carries revision
  1, and has the event of its creation in the log.
\<close>

theorem evidence_is_written_once:
  assumes reach: "evidence_reach E w" and r: "r \<in> set (objects_tbl (w_db w))" and k: "(so_kind r, ty) \<in> set evidence_events"
  shows "history_of (w_db w) (so_id r) = [r] \<and> so_revision r = 1 \<and>
    (\<exists>a \<in> set (domain_events_tbl (w_db w)). de_object_id (ae_event a) = so_id r \<and>
       de_object_revision (ae_event a) = 1 \<and> de_event_type (ae_event a) = ty)"
proof -
  have s: "keeps_once E (so_kind r) ty w" by (rule evidence_okD [OF evidence_reach_ok [OF reach] k])
  let ?h = "history_of (w_db w) (so_id r)"
  have m: "r \<in> set ?h" using r by (simp add: history_of_def)
  then have "is_kind (so_kind r) (w_db w) (so_id r)" by (auto simp: is_kind_def)
  with s have first: "written_once (so_kind r) (hd ?h)" and succ: "successively never_again ?h"
    unfolding service_ok_def governed_def by blast+
  have "length ?h \<le> 1" using succ by (cases ?h rule: remdups_adj.cases) auto
  with m have h: "?h = [r]" by (cases ?h) auto
  moreover have r1: "so_revision r = 1" using first h by (simp add: written_once_def)
  moreover from s r obtain a where "a \<in> set (domain_events_tbl (w_db w))" "announces (ae_event a) [r]"
      "created_as ty r (ae_event a)" unfolding service_ok_def accounted_def by blast
  ultimately show ?thesis by (auto simp: announces_def created_as_def)
qed

section \<open>Sample calls\<close>

lemma create_once_run:
  assumes "world_ok E w" "ctx_ok ctx" "env_total E" "event_id_at E (w_ticks w) \<notin> set (event_ids (w_db w))"
    and "bo_revision c = 1" "is_valid_urn (bo_id c)" "history_of (w_db w) (bo_id c) = []" "non_empty ty"
  shows "\<exists>w'. create_once E ctx c ty p w = (Inr (stored_of c), w') \<and> w_ticks w' = w_ticks w + 3 \<and>
    event_ids (w_db w') = event_ids (w_db w) @ [event_id_at E (w_ticks w)]"
  using create_object_run [OF assms(1-4), of "stored_of c" ty p] assms(5-8)
  by (simp add: create_once_def bindp_def guardp_run)

lemma entity_ok_evidence [simp]: "entity_ok ''source''" "entity_ok ''verification''"
  by (simp_all add: entity_ok_def entity_char_def less_eq_char_def)

definition sample_base :: "string \<Rightarrow> string \<Rightarrow> base_object" where
  "sample_base entity kind = \<lparr>bo_id = sample_urn entity, bo_api_version = ''mrr/v1alpha1'', bo_kind = kind,
     bo_practice_id = sample_urn ''practice'', bo_revision = 1, bo_created_at = 1700000000000000,
     bo_created_by = sample_urn ''human'', bo_content_hash = content_hash ''{}'', bo_supersedes = None, bo_labels = None,
     bo_dump = []\<rparr>"

definition sample_source :: source_record where
  "sample_source = base_object.extend (sample_base ''source'' ''SourceRecord'') (source_record.fields ''article'' ''primary'')"

definition failed_verification :: verification_result where
  "failed_verification = base_object.extend (sample_base ''verification'' ''VerificationResult'')
     (verification_result.fields (sample_urn ''claim'') ''claim'' (sample_urn ''reviewer'') ''numeric'' [] True ''fail'')"

definition reviewed_claim :: proposed_claim where
  "reviewed_claim = claim.extend (sample_claim\<lparr>cl_status := ''under_review''\<rparr>) (proposed_claim.fields (sample_urn ''human''))"

lemmas sample_evidence_defs = sample_base_def sample_source_def failed_verification_def reviewed_claim_def sample_claim_def
  base_object.extend_def source_record.fields_def verification_result.fields_def claim.extend_def proposed_claim.fields_def

theorem evidence_is_written_once_witness:
  "\<exists>(w :: world). history_of (w_db w) (sample_urn ''source'') = [stored_of sample_source] \<and> so_revision (stored_of sample_source) = 1"
proof -
  let ?c = "SourceCall sample_ctx sample_source" and ?E = sample_env
  have "event_id_at ?E (w_ticks empty_world) \<notin> set (event_ids (w_db empty_world))"
    "bo_revision sample_source = 1" "is_valid_urn (bo_id sample_source)" "history_of (w_db empty_world) (bo_id sample_source) = []"
    by (simp_all add: start_fresh sample_evidence_defs)
  from create_once_run [OF world_ok_empty ctx_ok_sample env_total_sample this, of "''source_record.created''"]
  obtain w where run: "source_record_create ?E sample_ctx sample_source empty_world = (Inr (stored_of sample_source), w)"
    unfolding source_record_create_def by (auto simp: non_empty_def is_space_def)
  have w: "evidence_run ?E ?c empty_world = w" using run by simp
  have "evidence_reach ?E (evidence_run ?E ?c empty_world)"
    by (rule evidence_reach.call [OF evidence_reach.start]) (simp add: sample_evidence_defs)
  then have reach: "evidence_reach ?E w" unfolding w .
  obtain e where "committed ?E [stored_of sample_source] [] e empty_world w"
    using create_once_Inr [OF world_ok_empty run [unfolded source_record_create_def]] by blast
  then have m: "stored_of sample_source \<in> set (objects_tbl (w_db w))" using committed_tables(1) by fastforce
  have k: "(so_kind (stored_of sample_source), ''source_record.created'') \<in> set evidence_events"
    by (simp add: sample_evidence_defs evidence_events_def)
  have i: "so_id (stored_of sample_source) = sample_urn ''source''" by (simp add: sample_evidence_defs)
  from evidence_is_written_once [OF reach m k] have "history_of (w_db w) (so_id (stored_of sample_source)) = [stored_of sample_source]"
    "so_revision (stored_of sample_source) = 1" by blast+
  with i show ?thesis by auto
qed

text \<open>
  The caller's copy of the claim says it is under review, and the stored one is a draft: the
  verification is stored, and the call fails.
\<close>

lemma stale_run:
  "\<exists>w'. verification_record sample_env sample_ctx failed_verification reviewed_claim None created_world =
     (Inl (InvalidTransitionError (sm_name CLAIM_LIFECYCLE) ''draft'' ''contested''), w')"
proof -
  let ?E = sample_env and ?v = failed_verification
  have ok: "world_ok ?E created_world" using created_world(2) by (simp add: inv_def)
  have p: "event_id_at ?E (w_ticks created_world) \<notin> set (event_ids (w_db created_world))"
    "bo_revision ?v = 1" "is_valid_urn (bo_id ?v)" "history_of (w_db created_world) (bo_id ?v) = []"
    "non_empty ''verification.recorded''"
    by (simp_all add: created_world(3,4,6) event_id_at_sample history_of_def claim_to_stored_object_def sample_evidence_defs
        non_empty_def is_space_def)
  from create_once_run [OF ok ctx_ok_sample env_total_sample p, of
      "[(''target_id'', JStr (vr_target_id ?v)), (''target_kind'', JStr (vr_target_kind ?v)),
        (''verification_type'', JStr (vr_verification_type ?v)), (''recommendation'', JStr (vr_recommendation ?v))]"]
  obtain w1 where c: "create_once ?E sample_ctx ?v ''verification.recorded''
      [(''target_id'', JStr (vr_target_id ?v)), (''target_kind'', JStr (vr_target_kind ?v)),
        (''verification_type'', JStr (vr_verification_type ?v)), (''recommendation'', JStr (vr_recommendation ?v))]
      created_world = (Inr (stored_of ?v), w1)" by (elim exE conjE) (rule that)
  from create_once_Inr [OF ok c] obtain e where com: "committed ?E [stored_of ?v] [] e created_world w1" by blast
  have h: "history_of (w_db w1) (sample_urn ''claim'') = [claim_to_stored_object sample_claim]"
    using committed_tables(1) [OF com] by (simp add: history_of_def created_world(6) claim_to_stored_object_def sample_evidence_defs)
  have g: "get_latest_or (ClaimNotFoundError (sample_urn ''claim'')) (sample_urn ''claim'') w1 = (Inr (claim_to_stored_object sample_claim), w1)"
    using get_latest_or_run [OF world_ok_parts(2) [OF committed_tables(3) [OF com]], of "sample_urn ''claim''"] by (simp add: h)
  have d: "dget_str (so_body (claim_to_stored_object sample_claim)) ''status'' = Inr ''draft''"
    by (simp add: claim_to_stored_object_def sample_claim_def)
  have t: "assert_transition CLAIM_LIFECYCLE ''draft'' ''contested'' =
      Inl (InvalidTransitionError (sm_name CLAIM_LIFECYCLE) ''draft'' ''contested'')"
    by (simp add: assert_transition_def can_transition_def CLAIM_LIFECYCLE_def claim_transitions_def image_iff)
  have "to_contested ?E sample_ctx (sample_urn ''claim'') w1 =
      (Inl (InvalidTransitionError (sm_name CLAIM_LIFECYCLE) ''draft'' ''contested''), w1)"
    unfolding to_contested_def transition_claim_def by (simp add: bindp_def g lift_run d t del: dget_str_Inr)
  moreover have f: "vr_recommendation ?v = ''fail''" "cl_status reviewed_claim = ''under_review''"
    "cl_id reviewed_claim = sample_urn ''claim''" "may_verify ?v reviewed_claim None"
    by (simp_all add: sample_evidence_defs may_verify_def)
  ultimately have "drive_claim_status_on_failure ?E sample_ctx reviewed_claim w1 =
      (Inl (InvalidTransitionError (sm_name CLAIM_LIFECYCLE) ''draft'' ''contested''), w1)"
    by (simp add: drive_claim_status_on_failure_def bindp_def)
  with c f(1) have "verification_record ?E sample_ctx ?v reviewed_claim None created_world =
      (Inl (InvalidTransitionError (sm_name CLAIM_LIFECYCLE) ''draft'' ''contested''), w1)"
    unfolding record_split [OF f(4)] by (simp add: bindp_def)
  then show ?thesis by blast
qed

theorem verification_record_exact_witness:
  "\<exists>(w :: world) x w'. verification_record sample_env sample_ctx failed_verification reviewed_claim None w = (Inl x, w') \<and>
     (same_db w w' \<or> (\<exists>w1. verified sample_env failed_verification w w1 \<and> same_db w1 w'))"
proof -
  obtain x w' where run: "verification_record sample_env sample_ctx failed_verification reviewed_claim None created_world = (Inl x, w')"
    using stale_run by blast
  have ok: "world_ok sample_env created_world" using created_world(2) by (simp add: inv_def)
  have may: "may_verify failed_verification reviewed_claim None" by (simp add: sample_evidence_defs may_verify_def)
  from verification_record_exact [OF ok run, THEN conjunct2, THEN conjunct2, rule_format, OF may]
  have "same_db created_world w' \<or> (\<exists>w1. verified sample_env failed_verification created_world w1 \<and> same_db w1 w')" by auto
  with run show ?thesis by (intro exI conjI)
qed

end
