(* ===== verification/Source_Verifier.thy ===== *)
theory Source_Verifier
  imports Evidence_Services Support_Audit Iso_Time
begin

text \<open>
  The deterministic checks of an evidence anchor against what is locally at hand,
  \<^verbatim>\<open>services/control_plane/mrr/services/verifier/source.py\<close>, with the recommendations that
  \<^verbatim>\<open>verifier/orchestrator.py\<close> draws from them. Texts are strings over the code points 0 to 255, as in the
  rest of the development; the prose of a reason is not modelled.
\<close>

section \<open>Outcomes and artifacts\<close>

record source_verification_outcome =
  sv_anchor_validation_status :: string
  sv_source_access_outcome :: string

record local_text_artifact =
  lt_full_text :: string
  lt_resolved_fragment :: "string option"

text \<open>A resolved value that is JSON null is no value: \<^verbatim>\<open>None\<close> in Python.\<close>

record local_computational_artifact =
  lc_document :: json
  lc_resolved_value :: "json option"

definition unvalidated :: source_verification_outcome where
  "unvalidated = \<lparr>sv_anchor_validation_status = ''unvalidated'', sv_source_access_outcome = ''unverified_source_access''\<rparr>"

definition inspected :: "string \<Rightarrow> source_verification_outcome" where
  "inspected status = \<lparr>sv_anchor_validation_status = status, sv_source_access_outcome = ''verified''\<rparr>"

section \<open>JSON pointers\<close>

fun split_on :: "char \<Rightarrow> string \<Rightarrow> string list" where
  "split_on c [] = [[]]"
| "split_on c (x # xs) =
     (if x = c then [] # split_on c xs
      else (case split_on c xs of [] \<Rightarrow> [[x]] | y # ys \<Rightarrow> (x # y) # ys))"

text \<open>\<^verbatim>\<open>s.replace("~" + d, r)\<close> for one-character \<open>d\<close> and \<open>r\<close>.\<close>

fun replace_tilde :: "char \<Rightarrow> char \<Rightarrow> string \<Rightarrow> string" where
  "replace_tilde d r (a # b # s) =
     (if a = CHR ''~'' \<and> b = d then r # replace_tilde d r s else a # replace_tilde d r (b # s))"
| "replace_tilde d r s = s"

definition pointer_token :: "string \<Rightarrow> string" where
  "pointer_token raw = replace_tilde (CHR ''0'') (CHR ''~'') (replace_tilde (CHR ''1'') (CHR ''/'') raw)"

text \<open>
  \<^verbatim>\<open>int(token)\<close>: space around the number is dropped, then a sign, then digits with single
  underscores between them, at most 4300 digits.
\<close>

definition strip :: "string \<Rightarrow> string" where
  "strip s = rev (dropWhile is_space (rev (dropWhile is_space s)))"

fun drop_underscores :: "string \<Rightarrow> string option" where
  "drop_underscores [] = None"
| "drop_underscores [c] = (if digit_value c = None then None else Some [c])"
| "drop_underscores (c # d # s) =
     (if digit_value c = None then None
      else if d = CHR ''_'' then map_option (Cons c) (drop_underscores s)
      else map_option (Cons c) (drop_underscores (d # s)))"

definition natural_text :: "string \<Rightarrow> nat option" where
  "natural_text s =
     (case drop_underscores s of
        None \<Rightarrow> None
      | Some ds \<Rightarrow> if length ds \<le> 4300 then digits_value 0 ds else None)"

definition int_of_text :: "string \<Rightarrow> int option" where
  "int_of_text s =
     (case strip s of
        [] \<Rightarrow> None
      | c # t \<Rightarrow>
          if c = CHR ''-'' then map_option (\<lambda>n. - int n) (natural_text t)
          else if c = CHR ''+'' then map_option int (natural_text t)
          else map_option int (natural_text (c # t)))"

definition pointer_step :: "json \<Rightarrow> string \<Rightarrow> json option" where
  "pointer_step current token =
     (case current of
        JObj members \<Rightarrow> map_of members token
      | JArr items \<Rightarrow>
          (case int_of_text token of
             None \<Rightarrow> None
           | Some index \<Rightarrow>
               if index < 0 \<or> index \<ge> int (length items) then None else Some (items ! nat index))
      | _ \<Rightarrow> None)"

fun pointer_walk :: "json \<Rightarrow> string list \<Rightarrow> json option" where
  "pointer_walk current [] = Some current"
| "pointer_walk current (raw # raws) =
     (case pointer_step current (pointer_token raw) of None \<Rightarrow> None | Some v \<Rightarrow> pointer_walk v raws)"

text \<open>Every \<^verbatim>\<open>_JsonPointerError\<close> is \<open>None\<close>.\<close>

definition resolve_json_pointer :: "json \<Rightarrow> string \<Rightarrow> json option" where
  "resolve_json_pointer document pointer =
     (case pointer of
        [] \<Rightarrow> Some document
      | c # rest \<Rightarrow> if c \<noteq> CHR ''/'' then None else pointer_walk document (split_on (CHR ''/'') rest))"

section \<open>Python equality of JSON values\<close>

text \<open>\<^verbatim>\<open>True == 1\<close> and \<^verbatim>\<open>False == 0\<close>; dictionaries are equal in any order.\<close>

fun py_eq :: "json \<Rightarrow> json \<Rightarrow> bool" and py_eq_items :: "json list \<Rightarrow> json list \<Rightarrow> bool"
  and py_eq_members :: "(string \<times> json) list \<Rightarrow> (string \<times> json) list \<Rightarrow> bool" where
  "py_eq JNull v \<longleftrightarrow> v = JNull"
| "py_eq (JBool a) v \<longleftrightarrow> v = JBool a \<or> v = JInt (if a then 1 else 0)"
| "py_eq (JInt n) v \<longleftrightarrow> v = JInt n \<or> (n = 1 \<and> v = JBool True) \<or> (n = 0 \<and> v = JBool False)"
| "py_eq (JStr s) v \<longleftrightarrow> v = JStr s"
| "py_eq (JArr xs) v \<longleftrightarrow> (case v of JArr ys \<Rightarrow> py_eq_items xs ys | _ \<Rightarrow> False)"
| "py_eq (JObj xs) v \<longleftrightarrow> (case v of JObj ys \<Rightarrow> length xs = length ys \<and> py_eq_members xs ys | _ \<Rightarrow> False)"
| "py_eq_items [] ys \<longleftrightarrow> ys = []"
| "py_eq_items (x # xs) ys \<longleftrightarrow> (case ys of [] \<Rightarrow> False | y # ys' \<Rightarrow> py_eq x y \<and> py_eq_items xs ys')"
| "py_eq_members [] ys \<longleftrightarrow> True"
| "py_eq_members ((k, x) # xs) ys \<longleftrightarrow>
     (case map_of ys k of None \<Rightarrow> False | Some y \<Rightarrow> py_eq x y) \<and> py_eq_members xs ys"

fun document_contains :: "json \<Rightarrow> json \<Rightarrow> bool" and items_contain :: "json list \<Rightarrow> json \<Rightarrow> bool"
  and members_contain :: "(string \<times> json) list \<Rightarrow> json \<Rightarrow> bool" where
  "document_contains (JObj members) v \<longleftrightarrow> py_eq (JObj members) v \<or> members_contain members v"
| "document_contains (JArr items) v \<longleftrightarrow> py_eq (JArr items) v \<or> items_contain items v"
| "document_contains JNull v \<longleftrightarrow> py_eq JNull v"
| "document_contains (JBool b) v \<longleftrightarrow> py_eq (JBool b) v"
| "document_contains (JInt n) v \<longleftrightarrow> py_eq (JInt n) v"
| "document_contains (JStr s) v \<longleftrightarrow> py_eq (JStr s) v"
| "items_contain [] v \<longleftrightarrow> False"
| "items_contain (x # xs) v \<longleftrightarrow> document_contains x v \<or> items_contain xs v"
| "members_contain [] v \<longleftrightarrow> False"
| "members_contain ((k, x) # xs) v \<longleftrightarrow> document_contains x v \<or> members_contain xs v"

section \<open>Text anchors\<close>

text \<open>UTF-8 of the code points 0 to 255.\<close>

definition utf8_char :: "char \<Rightarrow> bytes" where
  "utf8_char c = (let n = of_char c :: nat in if n < 128 then [c] else [char_of (192 + n div 64), char_of (128 + n mod 64)])"

definition utf8 :: "string \<Rightarrow> bytes" where
  "utf8 s = concat (map utf8_char s)"

definition slice_by_char_offset :: "string \<Rightarrow> int \<Rightarrow> int \<Rightarrow> string option" where
  "slice_by_char_offset s start stop =
     (if start < 0 \<or> stop < start \<or> stop > int (length s) then None
      else Some (take (nat (stop - start)) (drop (nat start) s)))"

fun join_lines :: "string list \<Rightarrow> string" where
  "join_lines [] = []"
| "join_lines [l] = l"
| "join_lines (l # ls) = l @ [CHR 10] @ join_lines ls"

definition slice_by_line_offset :: "string \<Rightarrow> int \<Rightarrow> int \<Rightarrow> string option" where
  "slice_by_line_offset s start stop =
     (let lines = split_on (CHR 10) s
      in if start < 1 \<or> stop < start \<or> stop > int (length lines) then None
         else Some (join_lines (take (nat (stop - start + 1)) (drop (nat (start - 1)) lines))))"

definition located_fragment :: "text_locator option \<Rightarrow> local_text_artifact \<Rightarrow> string option" where
  "located_fragment locator a =
     (case locator of
        None \<Rightarrow> Some (lt_full_text a)
      | Some l \<Rightarrow>
          (case (tl_char_start l, tl_char_end l, tl_line_start l, tl_line_end l) of
             (Some s, Some e, _, _) \<Rightarrow> slice_by_char_offset (lt_full_text a) s e
           | (_, _, Some s, Some e) \<Rightarrow> slice_by_line_offset (lt_full_text a) s e
           | _ \<Rightarrow> (case lt_resolved_fragment a of
                     None \<Rightarrow> None
                   | Some f \<Rightarrow> if find_from f (lt_full_text a) 0 \<noteq> None then Some f else None)))"

definition validate_text_anchor ::
  "evidence_anchor \<Rightarrow> local_text_artifact option \<Rightarrow> source_verification_outcome outcome" where
  "validate_text_anchor anchor local_artifact =
     (if ea_anchor_kind anchor \<noteq> ''text'' then Inl ValueError
      else if ea_anchor_unavailable_reason anchor \<noteq> None then Inr unvalidated
      else (case local_artifact of
              None \<Rightarrow> Inr unvalidated
            | Some a \<Rightarrow>
                if ea_snapshot_hash anchor \<noteq> None \<and>
                   ea_snapshot_hash anchor \<noteq> Some (content_hash (utf8 (lt_full_text a))) then Inr unvalidated
                else (case located_fragment (ea_locator anchor) a of
                        None \<Rightarrow> Inr (inspected ''invalid'')
                      | Some fragment \<Rightarrow>
                          if ea_quoted_fragment_hash anchor \<noteq> None \<and>
                             ea_quoted_fragment_hash anchor \<noteq> Some (content_hash (utf8 fragment))
                          then Inr (inspected ''invalid'')
                          else Inr (inspected ''validated''))))"

section \<open>Computational anchors\<close>

definition selected_value :: "computational_selector option \<Rightarrow> local_computational_artifact \<Rightarrow> json option" where
  "selected_value selector a =
     (case (case selector of None \<Rightarrow> None | Some s \<Rightarrow> cs_json_pointer s) of
        Some p \<Rightarrow> resolve_json_pointer (lc_document a) p
      | None \<Rightarrow>
          (case lc_resolved_value a of
             None \<Rightarrow> None
           | Some v \<Rightarrow> if document_contains (lc_document a) v then Some v else None))"

definition validate_computational_anchor ::
  "evidence_anchor \<Rightarrow> local_computational_artifact option \<Rightarrow> source_verification_outcome outcome" where
  "validate_computational_anchor anchor local_artifact =
     (if ea_anchor_kind anchor \<noteq> ''computational'' then Inl ValueError
      else if ea_anchor_unavailable_reason anchor \<noteq> None then Inr unvalidated
      else (case local_artifact of
              None \<Rightarrow> Inr unvalidated
            | Some a \<Rightarrow>
                (case selected_value (ea_selector anchor) a of
                   None \<Rightarrow> Inr (inspected ''invalid'')
                 | Some JNull \<Rightarrow> Inr (inspected ''invalid'')
                 | Some _ \<Rightarrow> Inr (inspected ''validated''))))"

definition validate_evidence_anchor ::
  "evidence_anchor \<Rightarrow> local_text_artifact option \<Rightarrow> local_computational_artifact option \<Rightarrow>
   source_verification_outcome outcome" where
  "validate_evidence_anchor anchor t c =
     (if ea_anchor_kind anchor = ''text'' then validate_text_anchor anchor t
      else validate_computational_anchor anchor c)"

definition recommendation_for_anchor_status :: "string \<Rightarrow> string outcome" where
  "recommendation_for_anchor_status status =
     (if status = ''validated'' then Inr ''pass''
      else if status = ''unvalidated'' then Inr ''inconclusive''
      else if status = ''invalid'' then Inr ''fail''
      else Inl ValueError)"

definition source_recommendation ::
  "evidence_anchor \<Rightarrow> local_text_artifact option \<Rightarrow> local_computational_artifact option \<Rightarrow> string outcome" where
  "source_recommendation anchor t c =
     (case validate_evidence_anchor anchor t c of
        Inl e \<Rightarrow> Inl e
      | Inr outcome \<Rightarrow> recommendation_for_anchor_status (sv_anchor_validation_status outcome))"

end
