(* ===== verification/Source_Properties.thy ===== *)
theory Source_Properties
  imports Source_Verifier
begin

text \<open>
  What a verdict on an anchor says: a pass is backed by a fragment of the text or a value of the
  document, an anchor with a snapshot hash pins the text, and a JSON pointer finds what it was written for.
\<close>

section \<open>Pointers and paths\<close>

datatype path_step = Member string | Item nat

fun child :: "json \<Rightarrow> path_step \<Rightarrow> json option" where
  "child (JObj members) (Member k) = map_of members k"
| "child (JArr items) (Item n) = (if n < length items then Some (items ! n) else None)"
| "child _ _ = None"

fun value_at :: "json \<Rightarrow> path_step list \<Rightarrow> json option" where
  "value_at v [] = Some v"
| "value_at v (s # path) = (case child v s of None \<Rightarrow> None | Some u \<Rightarrow> value_at u path)"

fun escape :: "string \<Rightarrow> string" where
  "escape [] = []"
| "escape (c # s) =
     (if c = CHR ''~'' then ''~0'' @ escape s else if c = CHR ''/'' then ''~1'' @ escape s else c # escape s)"

fun render_step :: "path_step \<Rightarrow> string" where
  "render_step (Member k) = escape k"
| "render_step (Item n) = digits10 n"

definition render :: "path_step list \<Rightarrow> string" where
  "render path = concat (map (\<lambda>s. CHR ''/'' # render_step s) path)"

lemma replace_tilde_cons: "c \<noteq> CHR ''~'' \<Longrightarrow> replace_tilde d r (c # s) = c # replace_tilde d r s"
  by (cases s) simp_all

fun escape_tildes :: "string \<Rightarrow> string" where
  "escape_tildes [] = []"
| "escape_tildes (c # s) = (if c = CHR ''~'' then ''~0'' @ escape_tildes s else c # escape_tildes s)"

lemma unescape_slashes: "replace_tilde (CHR ''1'') (CHR ''/'') (escape s) = escape_tildes s"
proof (induction s)
  case (Cons c s)
  then show ?case by (simp add: replace_tilde_cons)
qed simp

lemma unescape_tildes: "replace_tilde (CHR ''0'') (CHR ''~'') (escape_tildes s) = s"
proof (induction s)
  case (Cons c s)
  then show ?case by (simp add: replace_tilde_cons)
qed simp

lemma pointer_token_escape: "pointer_token (escape s) = s"
  by (simp add: pointer_token_def unescape_slashes unescape_tildes)

lemma split_on_no_sep: "c \<notin> set s \<Longrightarrow> split_on c s = [s]"
  by (induction s) auto

lemma split_on_append: "c \<notin> set s \<Longrightarrow> split_on c (s @ c # t) = s # split_on c t"
  by (induction s) auto

lemma escape_no_slash: "CHR ''/'' \<notin> set (escape s)"
  by (induction s) auto

section \<open>Numbers in pointers\<close>

lemma digit_value_code [simp]: "n < 10 \<Longrightarrow> digit_value (char_of (48 + n)) = Some n"
  by (simp add: digit_value_def Let_def)

lemma digits10_digit: "c \<in> set (digits10 n) \<Longrightarrow> \<exists>d :: nat. d < 10 \<and> c = char_of (48 + d)"
proof (induction n rule: digits10.induct)
  case (1 n)
  show ?case
  proof (cases "n < 10")
    case True
    with 1(2) show ?thesis by (subst (asm) digits10.simps) auto
  next
    case False
    with 1(2) have "c \<in> set (digits10 (n div 10)) \<or> c = char_of (48 + n mod 10)" by (subst (asm) digits10.simps) auto
    then show ?thesis
    proof
      assume "c \<in> set (digits10 (n div 10))"
      with 1(1) [OF False] show ?thesis by blast
    next
      assume "c = char_of (48 + n mod 10)"
      then show ?thesis by (intro exI [of _ "n mod 10"]) simp
    qed
  qed
qed

lemma digits10_code: "c \<in> set (digits10 n) \<Longrightarrow> 48 \<le> (of_char c :: nat) \<and> (of_char c :: nat) \<le> 57"
  by (drule digits10_digit) auto

lemma digits_value_append:
  "digits_value a (s @ t) = (case digits_value a s of None \<Rightarrow> None | Some b \<Rightarrow> digits_value b t)"
  by (induction s arbitrary: a) (auto split: option.split)

lemma digits_value_digits10: "digits_value 0 (digits10 n) = Some n"
proof (induction n rule: digits10.induct)
  case (1 n)
  then show ?case by (subst digits10.simps) (simp add: digits_value_append)
qed

lemma digits10_ne: "digits10 n \<noteq> []"
  by (subst digits10.simps) simp

lemma drop_underscores_digits: "s \<noteq> [] \<Longrightarrow> \<forall>c \<in> set s. digit_value c \<noteq> None \<Longrightarrow> drop_underscores s = Some s"
proof (induction s rule: drop_underscores.induct)
  case (3 c d s)
  then have "d \<noteq> CHR ''_''" by (auto simp: digit_value_def)
  with 3 show ?case by auto
qed auto

lemma digits10_values: "\<forall>c \<in> set (digits10 n). digit_value c \<noteq> None"
  using digits10_digit digit_value_code by (intro ballI) (metis option.distinct(1))

lemma strip_id: "s \<noteq> [] \<Longrightarrow> \<not> is_space (hd s) \<Longrightarrow> \<not> is_space (last s) \<Longrightarrow> strip s = s"
proof -
  assume a: "s \<noteq> []" "\<not> is_space (hd s)" "\<not> is_space (last s)"
  then have "dropWhile is_space s = s" "dropWhile is_space (rev s) = rev s"
    by (simp_all add: dropWhile_eq_self_iff hd_rev)
  then show ?thesis by (simp add: strip_def)
qed

lemma int_of_text_digits10:
  assumes "length (digits10 n) \<le> 4300"
  shows "int_of_text (digits10 n) = Some (int n)"
proof -
  note m = hd_in_set [OF digits10_ne, of n] last_in_set [OF digits10_ne, of n]
  have "strip (digits10 n) = digits10 n"
    using digits10_code [OF m(1)] digits10_code [OF m(2)] by (intro strip_id digits10_ne) (auto simp: is_space_def Let_def)
  moreover obtain c t where ct: "digits10 n = c # t" using digits10_ne by (cases "digits10 n") auto
  moreover have "c \<noteq> CHR ''-''" "c \<noteq> CHR ''+''" using digits10_code [of c n] ct by auto
  moreover have "natural_text (digits10 n) = Some n"
    using assms by (simp add: natural_text_def drop_underscores_digits [OF digits10_ne digits10_values] digits_value_digits10)
  ultimately show ?thesis by (simp add: int_of_text_def)
qed

lemma replace_tilde_none: "CHR ''~'' \<notin> set s \<Longrightarrow> replace_tilde d r s = s"
  by (induction d r s rule: replace_tilde.induct) auto

lemma pointer_token_digits10: "pointer_token (digits10 n) = digits10 n"
proof -
  have "CHR ''~'' \<notin> set (digits10 n)" using digits10_code [of "CHR ''~''" n] by auto
  then show ?thesis by (simp add: pointer_token_def replace_tilde_none)
qed

definition short_indices :: "path_step list \<Rightarrow> bool" where
  "short_indices path \<longleftrightarrow> (\<forall>n. Item n \<in> set path \<longrightarrow> length (digits10 n) \<le> 4300)"

lemma pointer_step_render:
  assumes "child v s = Some u" and "short_indices [s]"
  shows "pointer_step v (pointer_token (render_step s)) = Some u"
  using assms
  by (cases "(v, s)" rule: child.cases)
    (auto simp: pointer_step_def pointer_token_escape pointer_token_digits10 int_of_text_digits10 short_indices_def
      split: if_splits)

lemma render_step_no_slash: "CHR ''/'' \<notin> set (render_step s)"
  using escape_no_slash digits10_code [of "CHR ''/''"] by (cases s) auto

lemma split_render: "split_on (CHR ''/'') (render_step s @ render path) = render_step s # map render_step path"
proof (induction path arbitrary: s)
  case Nil
  then show ?case by (simp add: render_def split_on_no_sep [OF render_step_no_slash])
next
  case (Cons t path)
  have "render (t # path) = CHR ''/'' # render_step t @ render path" by (simp add: render_def)
  then show ?case using Cons.IH [of t] by (simp add: split_on_append [OF render_step_no_slash])
qed

lemma pointer_walk_render:
  "value_at v path = Some u \<Longrightarrow> short_indices path \<Longrightarrow> pointer_walk v (map render_step path) = Some u"
proof (induction path arbitrary: v)
  case (Cons s path)
  then obtain x where x: "child v s = Some x" "value_at x path = Some u" by (auto split: option.splits)
  have "short_indices [s]" "short_indices path" using Cons.prems(2) by (simp_all add: short_indices_def)
  with Cons.IH [OF x(2)] pointer_step_render [OF x(1)] show ?case by simp
qed simp

lemma pointer_step_child: "pointer_step v t = Some u \<Longrightarrow> \<exists>s. child v s = Some u"
proof (cases v)
  case (JObj members)
  assume "pointer_step v t = Some u"
  with JObj have "child v (Member t) = Some u" by (simp add: pointer_step_def)
  then show ?thesis by blast
next
  case (JArr items)
  assume "pointer_step v t = Some u"
  with JArr obtain i where "\<not> (i < 0 \<or> i \<ge> int (length items))" "u = items ! nat i"
    by (auto simp: pointer_step_def split: option.splits if_splits)
  then have "nat i < length items" "u = items ! nat i" by auto
  with JArr have "child v (Item (nat i)) = Some u" by simp
  then show ?thesis by blast
qed (simp_all add: pointer_step_def)

lemma pointer_walk_value: "pointer_walk v raws = Some u \<Longrightarrow> \<exists>path. value_at v path = Some u"
proof (induction raws arbitrary: v)
  case Nil
  then have "value_at v [] = Some u" by simp
  then show ?case by blast
next
  case (Cons raw raws)
  then obtain x where x: "pointer_step v (pointer_token raw) = Some x" "pointer_walk x raws = Some u"
    by (auto split: option.splits)
  from pointer_step_child [OF x(1)] Cons.IH [OF x(2)] obtain s path where "child v s = Some x" "value_at x path = Some u" by blast
  then have "value_at v (s # path) = Some u" by simp
  then show ?case by blast
qed

text \<open>
  C32. A pointer finds the value it was written for, and nothing else. Written with \<^verbatim>\<open>~\<close> and \<^verbatim>\<open>/\<close>
  escaped, the path to a value of a document resolves to that value, whatever the names of the
  members, for indices of at most 4300 digits; and what any pointer resolves to is a value that
  the document holds.
\<close>

theorem pointer_roundtrip:
  "(value_at document path = Some v \<and> short_indices path \<longrightarrow> resolve_json_pointer document (render path) = Some v) \<and>
   (resolve_json_pointer document p = Some u \<longrightarrow> (\<exists>path. value_at document path = Some u))"
proof (intro conjI impI)
  assume "value_at document path = Some v \<and> short_indices path"
  then have v: "value_at document path = Some v" and s: "short_indices path" by blast+
  show "resolve_json_pointer document (render path) = Some v"
  proof (cases path)
    case Nil
    with v show ?thesis by (simp add: resolve_json_pointer_def render_def)
  next
    case (Cons t path')
    have "render path = CHR ''/'' # render_step t @ render path'" by (simp add: Cons render_def)
    with pointer_walk_render [OF v s] show ?thesis by (simp add: resolve_json_pointer_def split_render Cons)
  qed
next
  assume r: "resolve_json_pointer document p = Some u"
  show "\<exists>path. value_at document path = Some u"
  proof (cases p)
    case Nil
    with r have "value_at document [] = Some u" by (simp add: resolve_json_pointer_def)
    then show ?thesis by blast
  next
    case (Cons c rest)
    with r have "pointer_walk document (split_on (CHR ''/'') rest) = Some u"
      by (simp add: resolve_json_pointer_def split: if_splits)
    then show ?thesis by (rule pointer_walk_value)
  qed
qed

theorem pointer_roundtrip_witness:
  "resolve_json_pointer (JObj [(''a/b~1'', JArr [JNull, JInt 7])]) ''/a~1b~01/1'' = Some (JInt 7)"
proof -
  let ?path = "[Member ''a/b~1'', Item 1]" and ?doc = "JObj [(''a/b~1'', JArr [JNull, JInt 7])]"
  have d: "digits10 1 = ''1''" by code_simp
  have r: "render ?path = ''/a~1b~01/1''" using d by (simp add: render_def)
  have "value_at ?doc ?path = Some (JInt 7)" "short_indices ?path" using d by (simp_all add: short_indices_def)
  with pointer_roundtrip [of ?doc ?path "JInt 7"] show ?thesis unfolding r by blast
qed

section \<open>Fragments\<close>

lemma join_split: "join_lines (split_on (CHR 10) s) = s"
proof (induction s)
  case (Cons c s)
  obtain y ys where sp: "split_on (CHR 10) s = y # ys"
    by (cases "split_on (CHR 10) s") (use Cons.IH in \<open>auto elim: split_on.elims split: list.splits if_splits\<close>)
  with Cons.IH show ?case by (cases ys) auto
qed simp

lemma join_lines_append:
  "xs \<noteq> [] \<Longrightarrow> ys \<noteq> [] \<Longrightarrow> join_lines (xs @ ys) = join_lines xs @ [CHR 10] @ join_lines ys"
proof (induction xs)
  case (Cons x xs)
  show ?case
  proof (cases xs)
    case Nil
    with Cons.prems show ?thesis by (cases ys) auto
  next
    case (Cons z zs)
    with Cons.IH Cons.prems show ?thesis by simp
  qed
qed simp

text \<open>A fragment is a contiguous part of a text.\<close>

definition part_of :: "string \<Rightarrow> string \<Rightarrow> bool" where
  "part_of f s \<longleftrightarrow> (\<exists>before after. s = before @ f @ after)"

lemma part_of_append: "part_of f (join_lines ys) \<Longrightarrow> part_of f (join_lines (xs @ ys))"
  "part_of f (join_lines xs) \<Longrightarrow> part_of f (join_lines (xs @ ys))"
proof -
  show "part_of f (join_lines (xs @ ys))" if f: "part_of f (join_lines ys)"
  proof (cases "xs = [] \<or> ys = []")
    case True
    with f show ?thesis by (cases "xs = []") (auto simp: part_of_def)
  next
    case False
    from f obtain b a where "join_lines ys = b @ f @ a" by (auto simp: part_of_def)
    with False have "join_lines (xs @ ys) = (join_lines xs @ [CHR 10] @ b) @ f @ a" by (simp add: join_lines_append)
    then show ?thesis unfolding part_of_def by blast
  qed
  show "part_of f (join_lines (xs @ ys))" if f: "part_of f (join_lines xs)"
  proof (cases "xs = [] \<or> ys = []")
    case True
    with f show ?thesis by (cases "xs = []") (auto simp: part_of_def)
  next
    case False
    from f obtain b a where "join_lines xs = b @ f @ a" by (auto simp: part_of_def)
    with False have "join_lines (xs @ ys) = b @ f @ (a @ [CHR 10] @ join_lines ys)" by (simp add: join_lines_append)
    then show ?thesis unfolding part_of_def by blast
  qed
qed

lemma line_slice_part: "slice_by_line_offset s a b = Some f \<Longrightarrow> part_of f s"
proof -
  assume "slice_by_line_offset s a b = Some f"
  then obtain i n where f: "f = join_lines (take n (drop i (split_on (CHR 10) s)))"
    by (auto simp: slice_by_line_offset_def Let_def split: if_splits)
  let ?l = "split_on (CHR 10) s"
  have "part_of f (join_lines (take n (drop i ?l)))" unfolding f part_of_def by (metis append_Nil append_Nil2)
  then have "part_of f (join_lines (take n (drop i ?l) @ drop n (drop i ?l)))" by (rule part_of_append(2))
  then have "part_of f (join_lines (take i ?l @ (take n (drop i ?l) @ drop n (drop i ?l))))" by (rule part_of_append(1))
  then show ?thesis by (simp only: append_take_drop_id join_split)
qed

lemma char_slice_part: "slice_by_char_offset s a b = Some f \<Longrightarrow> part_of f s"
proof -
  assume "slice_by_char_offset s a b = Some f"
  then obtain i n where f: "f = take n (drop i s)" by (auto simp: slice_by_char_offset_def split: if_splits)
  have "s = take i s @ f @ drop n (drop i s)" unfolding f by (metis append_take_drop_id)
  then show ?thesis unfolding part_of_def by blast
qed

lemma found_part: "find_from f s 0 = Some k \<Longrightarrow> part_of f s"
proof -
  assume "find_from f s 0 = Some k"
  then have "take (length f) (drop k s) = f" by (simp add: find_from_Some occurs_at_def)
  then have "s = take k s @ f @ drop (length f) (drop k s)" by (metis append_take_drop_id)
  then show ?thesis unfolding part_of_def by blast
qed

lemma located_part: "located_fragment l a = Some f \<Longrightarrow> part_of f (lt_full_text a)"
proof -
  assume r: "located_fragment l a = Some f"
  have whole: "part_of s s" for s unfolding part_of_def by (metis append_Nil append_Nil2)
  from r whole show ?thesis
    unfolding located_fragment_def
    by (auto split: option.splits prod.splits if_splits intro: char_slice_part line_slice_part found_part)
qed

text \<open>The fragment at a locator, by its offsets or lines, or as the caller found it in the text.\<close>

definition fragment_at :: "text_locator option \<Rightarrow> local_text_artifact \<Rightarrow> string \<Rightarrow> bool" where
  "fragment_at locator a f \<longleftrightarrow>
     (case locator of
        None \<Rightarrow> f = lt_full_text a
      | Some l \<Rightarrow>
          (case (tl_char_start l, tl_char_end l, tl_line_start l, tl_line_end l) of
             (Some s, Some e, _, _) \<Rightarrow>
               (\<exists>b c. lt_full_text a = b @ f @ c \<and> int (length b) = s \<and> int (length b + length f) = e)
           | (_, _, Some s, Some e) \<Rightarrow>
               (\<exists>b ls c. split_on (CHR 10) (lt_full_text a) = b @ ls @ c \<and> ls \<noteq> [] \<and> f = join_lines ls \<and>
                  int (length b) + 1 = s \<and> int (length b + length ls) = e)
           | _ \<Rightarrow> lt_resolved_fragment a = Some f \<and> part_of f (lt_full_text a)))"

lemma char_slice_iff: "slice_by_char_offset t s e = Some f \<longleftrightarrow>
    (\<exists>b c. t = b @ f @ c \<and> int (length b) = s \<and> int (length b + length f) = e)"
proof
  assume a: "slice_by_char_offset t s e = Some f"
  then have c: "0 \<le> s" "s \<le> e" "e \<le> int (length t)" and f: "f = take (nat (e - s)) (drop (nat s) t)"
    by (auto simp: slice_by_char_offset_def split: if_splits)
  have "t = take (nat s) t @ f @ drop (nat (e - s)) (drop (nat s) t)" unfolding f by (metis append_take_drop_id)
  moreover have "int (length (take (nat s) t)) = s" "int (length (take (nat s) t) + length f) = e"
    using c by (simp_all add: f)
  ultimately show "\<exists>b c. t = b @ f @ c \<and> int (length b) = s \<and> int (length b + length f) = e" by blast
next
  assume "\<exists>b c. t = b @ f @ c \<and> int (length b) = s \<and> int (length b + length f) = e"
  then show "slice_by_char_offset t s e = Some f" by (auto simp: slice_by_char_offset_def)
qed

lemma line_slice_iff: "slice_by_line_offset t s e = Some f \<longleftrightarrow>
    (\<exists>b ls c. split_on (CHR 10) t = b @ ls @ c \<and> ls \<noteq> [] \<and> f = join_lines ls \<and>
       int (length b) + 1 = s \<and> int (length b + length ls) = e)"
proof
  let ?l = "split_on (CHR 10) t"
  assume a: "slice_by_line_offset t s e = Some f"
  then have c: "1 \<le> s" "s \<le> e" "e \<le> int (length ?l)"
    and f: "f = join_lines (take (nat (e - s + 1)) (drop (nat (s - 1)) ?l))"
    by (auto simp: slice_by_line_offset_def Let_def split: if_splits)
  let ?b = "take (nat (s - 1)) ?l" and ?ls = "take (nat (e - s + 1)) (drop (nat (s - 1)) ?l)"
  have l: "length ?b = nat (s - 1)" "length ?ls = nat (e - s + 1)" using c by (auto simp: min_def)
  have "?l = ?b @ ?ls @ drop (nat (e - s + 1)) (drop (nat (s - 1)) ?l)" by (metis append_take_drop_id)
  moreover have "?ls \<noteq> []" using l(2) c by (metis add_increasing2 diff_add_cancel length_0_conv nat_eq_iff
        zle_diff1_eq zle_iff_zadd zero_less_nat_eq less_irrefl zle_add1_eq_le diff_ge_0_iff_ge)
  moreover have "int (length ?b) + 1 = s" "int (length ?b + length ?ls) = e" using c unfolding l by simp_all
  ultimately show "\<exists>b ls c. ?l = b @ ls @ c \<and> ls \<noteq> [] \<and> f = join_lines ls \<and>
       int (length b) + 1 = s \<and> int (length b + length ls) = e" using f by blast
next
  assume "\<exists>b ls c. split_on (CHR 10) t = b @ ls @ c \<and> ls \<noteq> [] \<and> f = join_lines ls \<and>
       int (length b) + 1 = s \<and> int (length b + length ls) = e"
  then obtain b ls c where x: "split_on (CHR 10) t = b @ ls @ c" "ls \<noteq> []" "f = join_lines ls"
    "s = int (length b) + 1" "e = int (length b + length ls)" by blast
  from x(2) have "0 < length ls" by simp
  then show "slice_by_line_offset t s e = Some f"
    using x by (simp add: slice_by_line_offset_def Let_def nat_add_distrib)
qed

lemma found_iff: "find_from f s 0 \<noteq> None \<longleftrightarrow> part_of f s"
proof -
  have "occurs_at f s i \<Longrightarrow> part_of f s" for i
    unfolding occurs_at_def part_of_def by (metis append_take_drop_id)
  moreover have "occurs_at f (b @ f @ c) (length b)" for b c
    by (simp add: occurs_at_def)
  ultimately show ?thesis unfolding find_from_exists part_of_def by blast
qed

lemma located_iff: "located_fragment l a = Some f \<longleftrightarrow> fragment_at l a f"
  unfolding located_fragment_def fragment_at_def found_iff
  by (auto simp: char_slice_iff line_slice_iff split: option.splits if_splits)

section \<open>Values of a document\<close>

text \<open>The keys of a Python dictionary are distinct.\<close>

fun wf_json :: "json \<Rightarrow> bool" and wf_items :: "json list \<Rightarrow> bool" and wf_members :: "(string \<times> json) list \<Rightarrow> bool" where
  "wf_json (JObj members) \<longleftrightarrow> distinct (map fst members) \<and> wf_members members"
| "wf_json (JArr items) \<longleftrightarrow> wf_items items"
| "wf_json _ \<longleftrightarrow> True"
| "wf_items [] \<longleftrightarrow> True"
| "wf_items (x # xs) \<longleftrightarrow> wf_json x \<and> wf_items xs"
| "wf_members [] \<longleftrightarrow> True"
| "wf_members ((k, x) # xs) \<longleftrightarrow> wf_json x \<and> wf_members xs"

lemma value_at_here: "py_eq d v \<Longrightarrow> \<exists>path u. value_at d path = Some u \<and> py_eq u v"
  by (intro exI [of _ "[]"]) simp

lemma contains_value:
  "document_contains d v \<Longrightarrow> wf_json d \<Longrightarrow> \<exists>path u. value_at d path = Some u \<and> py_eq u v"
  "items_contain xs v \<Longrightarrow> wf_items xs \<Longrightarrow> \<exists>n path u. n < length xs \<and> value_at (xs ! n) path = Some u \<and> py_eq u v"
  "members_contain ms v \<Longrightarrow> wf_members ms \<Longrightarrow> \<exists>k x path u. (k, x) \<in> set ms \<and> value_at x path = Some u \<and> py_eq u v"
proof (induction d v and xs v and ms v rule: document_contains_items_contain_members_contain.induct)
  case (1 members v)
  show ?case
  proof (cases "py_eq (JObj members) v")
    case True
    then show ?thesis by (rule value_at_here)
  next
    case False
    with 1 obtain k x path u where x: "(k, x) \<in> set members" "value_at x path = Some u" "py_eq u v" by auto
    from 1(3) have "distinct (map fst members)" by simp
    with x have "value_at (JObj members) (Member k # path) = Some u" by simp
    with x(3) show ?thesis by blast
  qed
next
  case (2 items v)
  show ?case
  proof (cases "py_eq (JArr items) v")
    case True
    then show ?thesis by (rule value_at_here)
  next
    case False
    with 2 obtain n path u where x: "n < length items" "value_at (items ! n) path = Some u" "py_eq u v" by auto
    then have "value_at (JArr items) (Item n # path) = Some u" by simp
    with x(3) show ?thesis by blast
  qed
next
  case (8 x xs v)
  show ?case
  proof (cases "document_contains x v")
    case True
    with 8 obtain path u where "value_at x path = Some u" "py_eq u v" by auto
    then show ?thesis by (intro exI [of _ 0] exI [of _ path] exI [of _ u]) simp
  next
    case False
    with 8 obtain n path u where "n < length xs" "value_at (xs ! n) path = Some u" "py_eq u v" by auto
    then show ?thesis by (intro exI [of _ "Suc n"] exI [of _ path] exI [of _ u]) simp
  qed
next
  case (10 k x xs v)
  show ?case
  proof (cases "document_contains x v")
    case True
    with 10 obtain path u where "value_at x path = Some u" "py_eq u v" by auto
    then show ?thesis by (intro exI [of _ k] exI [of _ x] exI [of _ path] exI [of _ u]) simp
  next
    case False
    with 10 obtain k' y path u where "(k', y) \<in> set xs" "value_at y path = Some u" "py_eq u v" by auto
    then show ?thesis by (intro exI [of _ k'] exI [of _ y] exI [of _ path] exI [of _ u]) simp
  qed
qed (auto intro: value_at_here exI [of _ "[]"])

text \<open>
  The path that a pointer spells: one token per step, the name of a member or a number that
  \<^verbatim>\<open>int\<close> reads as the index of an item.
\<close>

fun spells :: "string \<Rightarrow> path_step \<Rightarrow> bool" where
  "spells token (Member k) \<longleftrightarrow> token = k"
| "spells token (Item n) \<longleftrightarrow> int_of_text token = Some (int n)"

definition pointer_path :: "string \<Rightarrow> path_step list \<Rightarrow> bool" where
  "pointer_path p path \<longleftrightarrow>
     (if p = [] then path = []
      else hd p = CHR ''/'' \<and> list_all2 (\<lambda>raw s. spells (pointer_token raw) s) (split_on (CHR ''/'') (tl p)) path)"

lemma pointer_step_iff: "pointer_step v t = Some u \<longleftrightarrow> (\<exists>s. spells t s \<and> child v s = Some u)"
proof
  assume a: "pointer_step v t = Some u"
  show "\<exists>s. spells t s \<and> child v s = Some u"
  proof (cases v)
    case (JObj members)
    with a have "spells t (Member t)" "child v (Member t) = Some u" by (simp_all add: pointer_step_def)
    then show ?thesis by blast
  next
    case (JArr items)
    with a obtain i where i: "int_of_text t = Some i" "\<not> (i < 0 \<or> i \<ge> int (length items))" "u = items ! nat i"
      by (auto simp: pointer_step_def split: option.splits if_splits)
    then have "spells t (Item (nat i))" "child v (Item (nat i)) = Some u" using JArr by auto
    then show ?thesis by blast
  qed (use a in \<open>simp_all add: pointer_step_def\<close>)
next
  assume "\<exists>s. spells t s \<and> child v s = Some u"
  then obtain s where "spells t s" "child v s = Some u" by blast
  then show "pointer_step v t = Some u"
    by (cases v; cases s) (auto simp: pointer_step_def split: if_splits)
qed

lemma pointer_walk_iff:
  "pointer_walk v raws = Some u \<longleftrightarrow>
   (\<exists>path. list_all2 (\<lambda>raw s. spells (pointer_token raw) s) raws path \<and> value_at v path = Some u)"
proof (induction raws arbitrary: v)
  case (Cons raw raws)
  have "pointer_walk v (raw # raws) = Some u \<longleftrightarrow>
      (\<exists>x. pointer_step v (pointer_token raw) = Some x \<and> pointer_walk x raws = Some u)"
    by (simp split: option.splits)
  also have "\<dots> \<longleftrightarrow> (\<exists>x s path. spells (pointer_token raw) s \<and> child v s = Some x \<and>
      list_all2 (\<lambda>raw s. spells (pointer_token raw) s) raws path \<and> value_at x path = Some u)"
    unfolding pointer_step_iff Cons.IH by blast
  also have "\<dots> \<longleftrightarrow> (\<exists>path. list_all2 (\<lambda>raw s. spells (pointer_token raw) s) (raw # raws) path \<and> value_at v path = Some u)"
    unfolding list_all2_Cons1 by (fastforce split: option.splits)
  finally show ?case .
qed simp

lemma resolve_iff: "resolve_json_pointer d p = Some u \<longleftrightarrow> (\<exists>path. pointer_path p path \<and> value_at d path = Some u)"
  by (cases p) (auto simp: resolve_json_pointer_def pointer_path_def pointer_walk_iff)

lemma py_eq_null: "py_eq u v \<Longrightarrow> v = JNull \<longleftrightarrow> u = JNull"
  by (cases u) auto

lemma contains_intro: "value_at d path = Some u \<Longrightarrow> py_eq u v \<Longrightarrow> document_contains d v"
proof (induction path arbitrary: d)
  case Nil
  then show ?case by (cases d) auto
next
  case (Cons s path)
  then obtain x where x: "child d s = Some x" "value_at x path = Some u" by (auto split: option.splits)
  from Cons.IH [OF x(2) Cons.prems(2)] have c: "document_contains x v" .
  show ?case
  proof (cases d)
    case (JObj members)
    with x(1) obtain k where "(k, x) \<in> set members" by (cases s) (auto dest: map_of_SomeD)
    with c have "members_contain members v" by (induction members) auto
    with JObj show ?thesis by simp
  next
    case (JArr items)
    with x(1) have "x \<in> set items" by (cases s) (auto split: if_splits)
    with c have "items_contain items v" by (induction items) auto
    with JArr show ?thesis by simp
  qed (use x(1) in simp_all)
qed

lemma contains_iff:
  "wf_json d \<Longrightarrow> document_contains d v \<longleftrightarrow> (\<exists>path u. value_at d path = Some u \<and> py_eq u v)"
  using contains_value(1) contains_intro by blast

text \<open>
  The values a selector stands for: where it has a pointer, what the document holds at a path the
  pointer spells; without one, what the document holds anywhere that equals the value the caller
  resolved.
\<close>

definition selects :: "computational_selector option \<Rightarrow> local_computational_artifact \<Rightarrow> json \<Rightarrow> bool" where
  "selects selector a v \<longleftrightarrow> v \<noteq> JNull \<and>
     (\<exists>path. value_at (lc_document a) path = Some v \<and>
        (case (case selector of None \<Rightarrow> None | Some s \<Rightarrow> cs_json_pointer s) of
           Some p \<Rightarrow> pointer_path p path
         | None \<Rightarrow> \<exists>r. lc_resolved_value a = Some r \<and> py_eq v r))"

lemma selected_iff:
  assumes wf: "wf_json (lc_document a)"
  shows "(\<exists>v. selected_value s a = Some v \<and> v \<noteq> JNull) \<longleftrightarrow> (\<exists>v. selects s a v)"
proof (cases "case s of None \<Rightarrow> None | Some s \<Rightarrow> cs_json_pointer s")
  case (Some p)
  then show ?thesis by (auto simp: selected_value_def selects_def resolve_iff)
next
  case None
  show ?thesis
  proof (cases "lc_resolved_value a")
    case (Some r)
    have "(\<exists>v. selected_value s a = Some v \<and> v \<noteq> JNull) \<longleftrightarrow> document_contains (lc_document a) r \<and> r \<noteq> JNull"
      using None Some by (auto simp: selected_value_def)
    also have "\<dots> \<longleftrightarrow> (\<exists>path u. value_at (lc_document a) path = Some u \<and> py_eq u r) \<and> r \<noteq> JNull"
      using contains_iff [OF wf] by simp
    also have "\<dots> \<longleftrightarrow> (\<exists>path u. value_at (lc_document a) path = Some u \<and> py_eq u r \<and> u \<noteq> JNull)"
      using py_eq_null by blast
    also have "\<dots> \<longleftrightarrow> (\<exists>v. selects s a v)"
      using None Some by (auto simp: selects_def)
    finally show ?thesis .
  qed (use None in \<open>simp add: selected_value_def selects_def\<close>)
qed

section \<open>Verdicts\<close>

definition hash_admits :: "string option \<Rightarrow> string \<Rightarrow> bool" where
  "hash_admits h s \<longleftrightarrow> h = None \<or> h = Some (content_hash (utf8 s))"

lemma validate_text_run:
  "ea_anchor_kind a = ''text'' \<Longrightarrow> validate_text_anchor a t =
     (case (if ea_anchor_unavailable_reason a = None then t else None) of
        None \<Rightarrow> Inr unvalidated
      | Some x \<Rightarrow>
          if \<not> hash_admits (ea_snapshot_hash a) (lt_full_text x) then Inr unvalidated
          else if \<exists>f. located_fragment (ea_locator a) x = Some f \<and> hash_admits (ea_quoted_fragment_hash a) f
               then Inr (inspected ''validated'') else Inr (inspected ''invalid''))"
  unfolding validate_text_anchor_def hash_admits_def by (auto split: option.split)

lemma verdict_simps [simp]:
  "sv_anchor_validation_status unvalidated = ''unvalidated''" "sv_anchor_validation_status (inspected s) = s"
  by (simp_all add: unvalidated_def inspected_def)

lemma text_pass:
  assumes k: "ea_anchor_kind a = ''text''" and p: "source_recommendation a t c = Inr ''pass''"
  shows "ea_anchor_unavailable_reason a = None \<and> (\<exists>x f. t = Some x \<and> located_fragment (ea_locator a) x = Some f \<and>
    hash_admits (ea_snapshot_hash a) (lt_full_text x) \<and> hash_admits (ea_quoted_fragment_hash a) f)"
  using p k
  by (auto simp: source_recommendation_def validate_evidence_anchor_def validate_text_run recommendation_for_anchor_status_def
      split: option.splits if_splits)

lemma text_verdict:
  "ea_anchor_kind a = ''text'' \<Longrightarrow> source_recommendation a t c =
     (case (if ea_anchor_unavailable_reason a = None then t else None) of
        None \<Rightarrow> Inr ''inconclusive''
      | Some x \<Rightarrow>
          if \<not> hash_admits (ea_snapshot_hash a) (lt_full_text x) then Inr ''inconclusive''
          else if \<exists>f. located_fragment (ea_locator a) x = Some f \<and> hash_admits (ea_quoted_fragment_hash a) f
               then Inr ''pass'' else Inr ''fail'')"
  by (auto simp: source_recommendation_def validate_evidence_anchor_def validate_text_run
      recommendation_for_anchor_status_def split: option.split)

lemma computational_verdict:
  "ea_anchor_kind a \<noteq> ''text'' \<Longrightarrow> source_recommendation a t c =
     (if ea_anchor_kind a \<noteq> ''computational'' then Inl ValueError
      else case (if ea_anchor_unavailable_reason a = None then c else None) of
        None \<Rightarrow> Inr ''inconclusive''
      | Some x \<Rightarrow>
          if \<exists>v. selected_value (ea_selector a) x = Some v \<and> v \<noteq> JNull then Inr ''pass'' else Inr ''fail'')"
  by (simp add: source_recommendation_def validate_evidence_anchor_def validate_computational_anchor_def
      recommendation_for_anchor_status_def split: option.split json.split)

text \<open>
  C33. A recommendation to pass is exactly as good as what was inspected. An anchor passes if and
  only if it declares no reason for being unavailable and, where it is a text anchor, the local text
  has the hash the anchor states and a contiguous part of it, at the offsets or lines of the
  locator (or, where the locator has none, the part the caller resolved), has the hash of the
  quotation where one is stated; where it is a computational anchor, the document holds a value
  that is not null at a path its pointer spells, or, without a pointer, a value equal to the one the
  caller resolved. The recommendation is inconclusive exactly where nothing is at hand, the anchor
  is declared unavailable, or the text is not the version that was anchored. The keys of a document
  are distinct, as those of a Python dictionary are.
\<close>

theorem passing_anchor_is_backed:
  assumes wf: "pred_option (\<lambda>x. wf_json (lc_document x)) c"
  shows "(source_recommendation a t c = Inr ''pass'' \<longleftrightarrow> ea_anchor_unavailable_reason a = None \<and>
      (ea_anchor_kind a = ''text'' \<and>
         (\<exists>x f. t = Some x \<and> part_of f (lt_full_text x) \<and> fragment_at (ea_locator a) x f \<and>
            hash_admits (ea_snapshot_hash a) (lt_full_text x) \<and> hash_admits (ea_quoted_fragment_hash a) f) \<or>
       ea_anchor_kind a = ''computational'' \<and> (\<exists>x v. c = Some x \<and> selects (ea_selector a) x v))) \<and>
    (source_recommendation a t c = Inr ''inconclusive'' \<longleftrightarrow>
       ea_anchor_kind a = ''text'' \<and> (ea_anchor_unavailable_reason a \<noteq> None \<or> t = None \<or>
          (\<exists>x. t = Some x \<and> \<not> hash_admits (ea_snapshot_hash a) (lt_full_text x))) \<or>
       ea_anchor_kind a = ''computational'' \<and> (ea_anchor_unavailable_reason a \<noteq> None \<or> c = None))"
proof (cases "ea_anchor_kind a = ''text''")
  case True
  then have nc: "ea_anchor_kind a \<noteq> ''computational''" by simp
  have part: "part_of f (lt_full_text x) \<and> fragment_at (ea_locator a) x f \<longleftrightarrow> located_fragment (ea_locator a) x = Some f"
    for x f using located_iff located_part by blast
  show ?thesis
    unfolding text_verdict [OF True] using True nc part by (auto split: option.splits)
next
  case False
  have sel: "(\<exists>v. selected_value (ea_selector a) x = Some v \<and> v \<noteq> JNull) \<longleftrightarrow> (\<exists>v. selects (ea_selector a) x v)"
    if "c = Some x" for x using wf that by (intro selected_iff) simp
  show ?thesis
    unfolding computational_verdict [OF False] using False sel by (auto split: option.splits)
qed

section \<open>Pinned texts\<close>

lemma utf8_char_inj: "utf8_char c @ s = utf8_char d @ t \<Longrightarrow> c = d \<and> s = t"
proof -
  assume e: "utf8_char c @ s = utf8_char d @ t"
  let ?c = "of_char c :: nat" and ?d = "of_char d :: nat"
  have b: "?c < 256" "?d < 256" by simp_all
  have h: "hd (utf8_char c) = hd (utf8_char d)" using e by (auto simp: utf8_char_def Let_def split: if_splits)
  have x: "(of_char (char_of (192 + n div 64)) :: nat) = 192 + n div 64" "(of_char (char_of (128 + n mod 64)) :: nat) = 128 + n mod 64"
    if "n < 256" for n :: nat using that by simp_all
  consider "?c < 128" "?d < 128" | "?c < 128" "\<not> ?d < 128" | "\<not> ?c < 128" "?d < 128" | "\<not> ?c < 128" "\<not> ?d < 128" by blast
  then show ?thesis
  proof cases
    case 1
    with e show ?thesis by (simp add: utf8_char_def Let_def)
  next
    case 2
    with h have "?c = 192 + ?d div 64" using x(1) [OF b(2)] by (simp add: utf8_char_def Let_def)
    with 2 show ?thesis by simp
  next
    case 3
    with h have "?d = 192 + ?c div 64" using x(1) [OF b(1)] by (auto simp: utf8_char_def Let_def)
    with 3 show ?thesis by simp
  next
    case 4
    with e have e': "char_of (192 + ?c div 64) = (char_of (192 + ?d div 64) :: char)"
      "char_of (128 + ?c mod 64) = (char_of (128 + ?d mod 64) :: char)" and st: "s = t"
      by (simp_all add: utf8_char_def Let_def del: char_of_eq_iff)
    have "192 + ?c div 64 = 192 + ?d div 64" using arg_cong [OF e'(1), of "of_char :: char \<Rightarrow> nat"] x(1) b by simp
    moreover have "128 + ?c mod 64 = 128 + ?d mod 64" using arg_cong [OF e'(2), of "of_char :: char \<Rightarrow> nat"] x(2) b by simp
    ultimately have "?c = ?d" by (metis add_left_cancel div_mult_mod_eq)
    with st show ?thesis by simp
  qed
qed

lemma utf8_char_ne: "utf8_char c \<noteq> []"
  by (simp add: utf8_char_def Let_def)

lemma utf8_inj: "utf8 s = utf8 t \<Longrightarrow> s = t"
proof (induction s arbitrary: t)
  case Nil
  then show ?case by (cases t) (auto simp: utf8_def utf8_char_ne)
next
  case (Cons c s)
  then obtain d t' where t: "t = d # t'" by (cases t) (auto simp: utf8_def utf8_char_ne)
  with Cons.prems have "utf8_char c @ utf8 s = utf8_char d @ utf8 t'" by (simp add: utf8_def)
  from utf8_char_inj [OF this] Cons.IH t show ?case by blast
qed

lemma hex_digit_inj: "m < 16 \<Longrightarrow> n < 16 \<Longrightarrow> hex_digit m = hex_digit n \<Longrightarrow> m = n"
proof -
  assume b: "m < 16" "n < 16" and e: "hex_digit m = hex_digit n"
  have v: "(of_char (hex_digit k) :: nat) = (if k < 10 then 48 + k else 87 + k)" if "k < 16" for k
    using that by (simp add: hex_digit_def)
  from arg_cong [OF e, of "of_char :: char \<Rightarrow> nat"] v [OF b(1)] v [OF b(2)] b show "m = n" by (simp split: if_splits)
qed

lemma hexdigest_inj: "hexdigest a = hexdigest b \<Longrightarrow> a = b"
proof (induction a arbitrary: b)
  case Nil
  then show ?case by (cases b) (auto simp: hexdigest_def)
next
  case (Cons c a)
  then obtain d b' where b: "b = d # b'" by (cases b) (auto simp: hexdigest_def)
  let ?c = "of_char c :: nat" and ?d = "of_char d :: nat"
  have l: "?c < 256" "?d < 256" by simp_all
  from Cons.prems b have h: "hex_digit (?c div 16) = hex_digit (?d div 16)" "hex_digit (?c mod 16) = hex_digit (?d mod 16)"
    and r: "hexdigest a = hexdigest b'" by (simp_all add: hexdigest_def)
  have "?c div 16 < 16" "?d div 16 < 16" using less_mult_imp_div_less [of _ 16 16] l by simp_all
  from hex_digit_inj [OF this h(1)] have "?c div 16 = ?d div 16" .
  moreover have "?c mod 16 = ?d mod 16" by (rule hex_digit_inj [OF _ _ h(2)]) simp_all
  ultimately have "?c = ?d" by (metis div_mult_mod_eq)
  with Cons.IH [OF r] b show ?case by simp
qed

definition sha256_collision :: "bytes \<Rightarrow> bytes \<Rightarrow> bool" where
  "sha256_collision p q \<longleftrightarrow> p \<noteq> q \<and> sha256 p = sha256 q"

lemma same_hash: "h \<noteq> None \<Longrightarrow> hash_admits h s \<Longrightarrow> hash_admits h t \<Longrightarrow> s = t \<or> sha256_collision (utf8 s) (utf8 t)"
proof -
  assume "h \<noteq> None" "hash_admits h s" "hash_admits h t"
  then have "content_hash (utf8 s) = content_hash (utf8 t)" by (auto simp: hash_admits_def)
  then have "sha256 (utf8 s) = sha256 (utf8 t)" by (auto simp: content_hash_def dest: hexdigest_inj)
  then show ?thesis using utf8_inj unfolding sha256_collision_def by blast
qed

text \<open>A locator that the text alone resolves: none, or one with offsets or lines.\<close>

definition mechanical :: "text_locator option \<Rightarrow> bool" where
  "mechanical locator \<longleftrightarrow>
     (case locator of
        None \<Rightarrow> True
      | Some l \<Rightarrow> (tl_char_start l \<noteq> None \<and> tl_char_end l \<noteq> None) \<or> (tl_line_start l \<noteq> None \<and> tl_line_end l \<noteq> None))"

lemma located_mechanical:
  "mechanical l \<Longrightarrow> lt_full_text x = lt_full_text y \<Longrightarrow> located_fragment l x = located_fragment l y"
  by (auto simp: mechanical_def located_fragment_def split: option.splits)

text \<open>
  C34. An anchor pins what it anchors. Two local texts that pass under one text anchor with a
  snapshot hash are the same text, and so are their fragments where there is no locator or it gives
  offsets or lines; the fragments that pass under one anchor with a hash of the quotation are the
  same fragment, whatever the locator. All this holds unless the two are a collision of SHA-256. A
  locator with neither offsets nor lines leaves the fragment to the caller, and only a hash of the
  quotation pins it.
\<close>

theorem anchors_pin_their_text:
  assumes k: "ea_anchor_kind a = ''text''" and x: "source_recommendation a (Some x) c = Inr ''pass''"
    and y: "source_recommendation a (Some y) d = Inr ''pass''"
  shows "(ea_snapshot_hash a \<noteq> None \<longrightarrow>
      lt_full_text x = lt_full_text y \<or> sha256_collision (utf8 (lt_full_text x)) (utf8 (lt_full_text y))) \<and>
    (ea_snapshot_hash a \<noteq> None \<and> mechanical (ea_locator a) \<longrightarrow>
      (\<exists>f. located_fragment (ea_locator a) x = Some f \<and> located_fragment (ea_locator a) y = Some f) \<or>
      sha256_collision (utf8 (lt_full_text x)) (utf8 (lt_full_text y))) \<and>
    (ea_quoted_fragment_hash a \<noteq> None \<longrightarrow> (\<exists>f g. located_fragment (ea_locator a) x = Some f \<and>
      located_fragment (ea_locator a) y = Some g \<and> (f = g \<or> sha256_collision (utf8 f) (utf8 g))))"
proof -
  from text_pass [OF k x] obtain f where f: "located_fragment (ea_locator a) x = Some f"
    "hash_admits (ea_snapshot_hash a) (lt_full_text x)" "hash_admits (ea_quoted_fragment_hash a) f" by blast
  from text_pass [OF k y] obtain g where g: "located_fragment (ea_locator a) y = Some g"
    "hash_admits (ea_snapshot_hash a) (lt_full_text y)" "hash_admits (ea_quoted_fragment_hash a) g" by blast
  have t: "lt_full_text x = lt_full_text y \<or> sha256_collision (utf8 (lt_full_text x)) (utf8 (lt_full_text y))"
    if "ea_snapshot_hash a \<noteq> None" by (rule same_hash [OF that f(2) g(2)])
  moreover have "f = g \<or> sha256_collision (utf8 (lt_full_text x)) (utf8 (lt_full_text y))"
    if "ea_snapshot_hash a \<noteq> None" "mechanical (ea_locator a)"
    using t [OF that(1)]
  proof
    assume "lt_full_text x = lt_full_text y"
    from located_mechanical [OF that(2) this] show ?thesis unfolding f(1) g(1) by simp
  qed (rule disjI2)
  moreover have "f = g \<or> sha256_collision (utf8 f) (utf8 g)" if "ea_quoted_fragment_hash a \<noteq> None"
    by (rule same_hash [OF that f(3) g(3)])
  ultimately show ?thesis unfolding f(1) g(1) option.inject by metis
qed

section \<open>A sample anchor\<close>

definition sample_anchor :: evidence_anchor where
  "sample_anchor = \<lparr>bo_id = ''anchor'', bo_api_version = ''mrr/v1alpha1'', bo_kind = ''EvidenceAnchor'', bo_practice_id = ''p'',
     bo_revision = 1, bo_created_at = 0, bo_created_by = ''h'', bo_content_hash = [], bo_supersedes = None, bo_labels = None,
     bo_dump = [], ea_relation = ''supports'', ea_anchor_kind = ''text'', ea_anchor_validation_status = ''unvalidated'',
     ea_anchor_unavailable_reason = None, ea_snapshot_hash = Some (content_hash (utf8 ''first line'')),
     ea_locator = Some \<lparr>tl_char_start = Some 6, tl_char_end = Some 10, tl_line_start = None, tl_line_end = None\<rparr>,
     ea_quoted_fragment_hash = Some (content_hash (utf8 ''line'')), ea_run_id = None, ea_selector = None,
     ea_recomputation_status = None\<rparr>"

definition sample_artifact :: "string option \<Rightarrow> local_text_artifact" where
  "sample_artifact f = \<lparr>lt_full_text = ''first line'', lt_resolved_fragment = f\<rparr>"

lemma sample_located: "located_fragment (ea_locator sample_anchor) (sample_artifact f) = Some ''line''"
  by (simp add: located_fragment_def sample_anchor_def sample_artifact_def slice_by_char_offset_def)

lemma sample_admitted:
  "hash_admits (ea_snapshot_hash sample_anchor) (lt_full_text (sample_artifact f))"
  "hash_admits (ea_quoted_fragment_hash sample_anchor) ''line''"
  by (simp_all add: hash_admits_def sample_anchor_def sample_artifact_def)

lemma sample_passes: "source_recommendation sample_anchor (Some (sample_artifact f)) None = Inr ''pass''"
proof -
  have k: "ea_anchor_kind sample_anchor = ''text''" "ea_anchor_unavailable_reason sample_anchor = None"
    by (simp_all add: sample_anchor_def)
  have "\<exists>g. located_fragment (ea_locator sample_anchor) (sample_artifact f) = Some g \<and>
      hash_admits (ea_quoted_fragment_hash sample_anchor) g" using sample_located sample_admitted(2) by blast
  with k sample_admitted(1) have "validate_text_anchor sample_anchor (Some (sample_artifact f)) = Inr (inspected ''validated'')"
    unfolding validate_text_run [OF k(1)] by simp
  with k(1) show ?thesis
    by (simp add: source_recommendation_def validate_evidence_anchor_def recommendation_for_anchor_status_def)
qed

definition sample_result_anchor :: evidence_anchor where
  "sample_result_anchor = sample_anchor
     \<lparr>ea_anchor_kind := ''computational'', ea_snapshot_hash := None, ea_locator := None,
      ea_quoted_fragment_hash := None, ea_selector := Some \<lparr>cs_json_pointer = Some ''/mean''\<rparr>\<rparr>"

definition sample_output :: local_computational_artifact where
  "sample_output = \<lparr>lc_document = JObj [(''n'', JInt 3), (''mean'', JInt 7)], lc_resolved_value = None\<rparr>"

lemma sample_selects: "selects (ea_selector sample_result_anchor) sample_output (JInt 7)"
proof -
  have v: "value_at (lc_document sample_output) [Member ''mean''] = Some (JInt 7)" by (simp add: sample_output_def)
  have p: "pointer_path ''/mean'' [Member ''mean'']" by (simp add: pointer_path_def pointer_token_def)
  have n: "JInt 7 \<noteq> JNull" by simp
  have s: "(case ea_selector sample_result_anchor of None \<Rightarrow> None | Some s \<Rightarrow> cs_json_pointer s) = Some ''/mean''"
    by (simp add: sample_result_anchor_def)
  show ?thesis unfolding selects_def s option.case using v p by blast
qed

theorem passing_anchor_is_backed_witness:
  "(\<exists>x f. Some (sample_artifact None) = Some x \<and> part_of f (lt_full_text x) \<and> fragment_at (ea_locator sample_anchor) x f) \<and>
   source_recommendation sample_result_anchor None (Some sample_output) = Inr ''pass'' \<and>
   source_recommendation sample_result_anchor None None = Inr ''inconclusive''"
proof (intro conjI)
  have k: "ea_anchor_kind sample_anchor = ''text''" "ea_anchor_kind sample_anchor \<noteq> ''computational''"
    by (simp_all add: sample_anchor_def)
  have wf: "pred_option (\<lambda>x. wf_json (lc_document x)) (None :: local_computational_artifact option)" by simp
  from passing_anchor_is_backed [OF wf, of sample_anchor "Some (sample_artifact None)", THEN conjunct1, THEN iffD1,
      OF sample_passes, THEN conjunct2]
  show "\<exists>x f. Some (sample_artifact None) = Some x \<and> part_of f (lt_full_text x) \<and> fragment_at (ea_locator sample_anchor) x f"
  proof (elim disjE conjE exE)
    fix x f
    assume "Some (sample_artifact None) = Some x" "part_of f (lt_full_text x)" "fragment_at (ea_locator sample_anchor) x f"
    then show ?thesis by (intro exI conjI)
  qed (use k(2) in \<open>rule notE\<close>)
  have wf': "pred_option (\<lambda>x. wf_json (lc_document x)) (Some sample_output)" by (simp add: sample_output_def)
  have c: "ea_anchor_unavailable_reason sample_result_anchor = None" "ea_anchor_kind sample_result_anchor = ''computational''"
    by (simp_all add: sample_result_anchor_def sample_anchor_def)
  show "source_recommendation sample_result_anchor None (Some sample_output) = Inr ''pass''"
    by (rule passing_anchor_is_backed [OF wf', of sample_result_anchor None, THEN conjunct1, THEN iffD2])
      (rule conjI [OF c(1)], rule disjI2, rule conjI [OF c(2)], rule exI, rule exI, rule conjI [OF refl sample_selects])
  show "source_recommendation sample_result_anchor None None = Inr ''inconclusive''"
    by (rule passing_anchor_is_backed [OF wf, of sample_result_anchor None, THEN conjunct2, THEN iffD2])
      (rule disjI2 [OF conjI [OF c(2) disjI2 [OF refl]]])
qed

theorem anchors_pin_their_text_witness:
  "located_fragment (ea_locator sample_anchor) (sample_artifact None) =
     located_fragment (ea_locator sample_anchor) (sample_artifact (Some ''x'')) \<or>
   sha256_collision (utf8 (lt_full_text (sample_artifact None))) (utf8 (lt_full_text (sample_artifact (Some ''x''))))"
proof -
  have k: "ea_anchor_kind sample_anchor = ''text''"
    and s: "ea_snapshot_hash sample_anchor \<noteq> None \<and> mechanical (ea_locator sample_anchor)"
    by (simp_all add: sample_anchor_def mechanical_def)
  from anchors_pin_their_text [OF k sample_passes [of None] sample_passes [of "Some ''x''"],
      THEN conjunct2, THEN conjunct1, rule_format, OF s]
  show ?thesis by (elim disjE exE conjE) simp_all
qed

end
