(* ===== verification/Numeric_Verifier.thy ===== *)
theory Numeric_Verifier
  imports Source_Verifier
begin

text \<open>
  The recomputation of a claimed number,
  \<^verbatim>\<open>services/control_plane/mrr/services/verifier/numeric.py\<close>, with the recommendation that
  \<^verbatim>\<open>verifier/orchestrator.py\<close> draws from it. The arithmetic is that of Python's
  \<^verbatim>\<open>decimal\<close> in a context of 50 digits: finite decimals are a sign, a coefficient and an exponent, and every
  operation rounds its exact result to 50 digits, half to even, within the exponents of the
  default context. The text of a reason and of the method is not modelled.
\<close>

section \<open>Decimals\<close>

record dec =
  dc_sign :: bool
  dc_coeff :: nat
  dc_exp :: int

text \<open>An input that \<^verbatim>\<open>_NumericInputError\<close> reports, or \<^verbatim>\<open>decimal.Overflow\<close>, which the default context traps.\<close>

datatype numeric_error = NumericInputError | DecimalOverflow

type_synonym 'a numeric = "numeric_error + 'a"

definition PRECISION :: nat where "PRECISION = 50"
definition EMAX :: int where "EMAX = 999999"
definition ETINY :: int where "ETINY = - 1000048"
definition ETOP :: int where "ETOP = 999950"

definition ndigits :: "nat \<Rightarrow> nat" where
  "ndigits c = length (digits10 c)"

definition half_even :: "nat \<Rightarrow> nat \<Rightarrow> nat" where
  "half_even c k =
     (let q = c div 10 ^ k; r = c mod 10 ^ k
      in if 2 * r > 10 ^ k \<or> (2 * r = 10 ^ k \<and> odd q) then q + 1 else q)"

text \<open>\<^verbatim>\<open>Decimal._fix\<close>: what the context makes of an exact result.\<close>

definition dec_fix :: "dec \<Rightarrow> dec numeric" where
  "dec_fix d =
     (let c = dc_coeff d; e = dc_exp d in
      if c = 0 then Inr (d\<lparr>dc_exp := min (max e ETINY) EMAX\<rparr>)
      else (let top = int (ndigits c) + e - int PRECISION in
        if top > ETOP then Inl DecimalOverflow
        else (let m = max top ETINY in
          if e < m then
            (let q = half_even c (nat (m - e));
                 (q', m') = (if ndigits q > PRECISION then (q div 10, m + 1) else (q, m))
             in if m' > ETOP then Inl DecimalOverflow else Inr (d\<lparr>dc_coeff := q', dc_exp := m'\<rparr>))
          else Inr d)))"

definition signed_at :: "int \<Rightarrow> dec \<Rightarrow> int" where
  "signed_at e d = (if dc_sign d then -1 else 1) * int (dc_coeff d * 10 ^ nat (dc_exp d - e))"

definition dec_neg :: "dec \<Rightarrow> dec" where
  "dec_neg d = d\<lparr>dc_sign := \<not> dc_sign d\<rparr>"

definition dec_add :: "dec \<Rightarrow> dec \<Rightarrow> dec numeric" where
  "dec_add a b =
     (let e = min (dc_exp a) (dc_exp b); s = signed_at e a + signed_at e b
      in dec_fix \<lparr>dc_sign = (if s = 0 then dc_sign a \<and> dc_sign b else s < 0), dc_coeff = nat \<bar>s\<bar>, dc_exp = e\<rparr>)"

definition dec_sub :: "dec \<Rightarrow> dec \<Rightarrow> dec numeric" where
  "dec_sub a b = dec_add a (dec_neg b)"

definition dec_mul :: "dec \<Rightarrow> dec \<Rightarrow> dec numeric" where
  "dec_mul a b =
     dec_fix \<lparr>dc_sign = (dc_sign a \<noteq> dc_sign b), dc_coeff = dc_coeff a * dc_coeff b, dc_exp = dc_exp a + dc_exp b\<rparr>"

text \<open>Trailing zeros are dropped up to the ideal exponent; \<open>n\<close> is the distance to it.\<close>

fun drop_zeros :: "nat \<Rightarrow> nat \<Rightarrow> int \<Rightarrow> nat \<times> int" where
  "drop_zeros 0 c e = (c, e)"
| "drop_zeros (Suc n) c e = (if c mod 10 = 0 then drop_zeros n (c div 10) (e + 1) else (c, e))"

text \<open>\<^verbatim>\<open>a / b\<close> for a nonzero \<open>b\<close>: one digit more than the precision, and a last digit that shows a remainder.\<close>

definition dec_div :: "dec \<Rightarrow> dec \<Rightarrow> dec numeric" where
  "dec_div a b =
     (let sign = (dc_sign a \<noteq> dc_sign b); ideal = dc_exp a - dc_exp b in
      if dc_coeff a = 0 then dec_fix \<lparr>dc_sign = sign, dc_coeff = 0, dc_exp = ideal\<rparr>
      else (let shift = int (ndigits (dc_coeff b)) - int (ndigits (dc_coeff a)) + int PRECISION + 1;
                num = dc_coeff a * 10 ^ nat shift; den = dc_coeff b * 10 ^ nat (- shift);
                q = num div den; r = num mod den
            in if r \<noteq> 0
               then dec_fix \<lparr>dc_sign = sign, dc_coeff = (if q mod 5 = 0 then q + 1 else q), dc_exp = ideal - shift\<rparr>
               else (let (c, e) = drop_zeros (nat shift) q (ideal - shift)
                     in dec_fix \<lparr>dc_sign = sign, dc_coeff = c, dc_exp = e\<rparr>)))"

section \<open>Parsing\<close>

text \<open>A number as a caller supplies it; \<open>NDec None\<close> is a Decimal that is not finite.\<close>

datatype number_like = NStr string | NInt int | NDec "dec option" | NBool bool | NFloat | NOther

definition dec_of_int :: "int \<Rightarrow> dec" where
  "dec_of_int i = \<lparr>dc_sign = (i < 0), dc_coeff = nat \<bar>i\<bar>, dc_exp = 0\<rparr>"

definition is_digit_char :: "char \<Rightarrow> bool" where
  "is_digit_char c \<longleftrightarrow> digit_value c \<noteq> None"

definition take_sign :: "string \<Rightarrow> bool \<times> string" where
  "take_sign s =
     (case s of
        c # t \<Rightarrow> if c = CHR ''-'' then (True, t) else if c = CHR ''+'' then (False, t) else (False, s)
      | [] \<Rightarrow> (False, s))"

definition read_exponent :: "string \<Rightarrow> int option" where
  "read_exponent s =
     (case s of
        [] \<Rightarrow> Some 0
      | c # t \<Rightarrow>
          if c \<noteq> CHR ''e'' \<and> c \<noteq> CHR ''E'' then None
          else (let (neg, ds) = take_sign t
                in if ds = [] then None
                   else map_option (\<lambda>n. if neg then - int n else int n) (digits_value 0 ds)))"

text \<open>The exact conversion fails where the exponent does not fit the widest context.\<close>

definition fits_decimal :: "dec \<Rightarrow> bool" where
  "fits_decimal d \<longleftrightarrow> - 1999999999999999997 \<le> dc_exp d \<and>
     (if dc_coeff d = 0 then dc_exp d else dc_exp d + int (ndigits (dc_coeff d)) - 1) \<le> 999999999999999999"

definition decimal_of_text :: "string \<Rightarrow> dec option" where
  "decimal_of_text s =
     (let (neg, u) = take_sign (filter (\<lambda>c. c \<noteq> CHR ''_'') (strip s));
          ip = takeWhile is_digit_char u; rest = dropWhile is_digit_char u;
          (fp, rest') = (case rest of
             c # t \<Rightarrow> if c = CHR ''.'' then (takeWhile is_digit_char t, dropWhile is_digit_char t) else ([], rest)
           | [] \<Rightarrow> ([], []))
      in if ip @ fp = [] then None
         else (case (digits_value 0 (ip @ fp), read_exponent rest') of
                 (Some c, Some x) \<Rightarrow>
                   (let d = \<lparr>dc_sign = neg, dc_coeff = c, dc_exp = x - int (length fp)\<rparr>
                    in if fits_decimal d then Some d else None)
               | _ \<Rightarrow> None))"

definition parse_decimal :: "number_like \<Rightarrow> dec numeric" where
  "parse_decimal v =
     (case v of
        NDec (Some d) \<Rightarrow> Inr d
      | NInt i \<Rightarrow> Inr (dec_of_int i)
      | NStr s \<Rightarrow> (case decimal_of_text s of Some d \<Rightarrow> Inr d | None \<Rightarrow> Inl NumericInputError)
      | _ \<Rightarrow> Inl NumericInputError)"

section \<open>The operations\<close>

type_synonym inputs = "(string \<times> number_like) list"

definition numeric_bind :: "'a numeric \<Rightarrow> ('a \<Rightarrow> 'b numeric) \<Rightarrow> 'b numeric" where
  "numeric_bind x f = (case x of Inl e \<Rightarrow> Inl e | Inr a \<Rightarrow> f a)"

definition required :: "inputs \<Rightarrow> string \<Rightarrow> dec numeric" where
  "required inputs name =
     (case map_of inputs name of None \<Rightarrow> Inl NumericInputError | Some v \<Rightarrow> parse_decimal v)"

fun total_of :: "(dec \<Rightarrow> dec \<Rightarrow> dec numeric) \<Rightarrow> inputs \<Rightarrow> dec \<Rightarrow> dec numeric" where
  "total_of f [] acc = Inr acc"
| "total_of f ((name, v) # inputs) acc =
     numeric_bind (parse_decimal v) (\<lambda>d. numeric_bind (f acc d) (\<lambda>t. total_of f inputs t))"

definition op_sum :: "inputs \<Rightarrow> dec numeric" where
  "op_sum inputs = (if inputs = [] then Inl NumericInputError else total_of dec_add inputs (dec_of_int 0))"

definition op_product :: "inputs \<Rightarrow> dec numeric" where
  "op_product inputs = (if inputs = [] then Inl NumericInputError else total_of dec_mul inputs (dec_of_int 1))"

definition op_minus :: "string \<Rightarrow> string \<Rightarrow> inputs \<Rightarrow> dec numeric" where
  "op_minus a b inputs = numeric_bind (required inputs a) (\<lambda>x. numeric_bind (required inputs b) (\<lambda>y. dec_sub x y))"

definition op_over :: "string \<Rightarrow> string \<Rightarrow> inputs \<Rightarrow> dec numeric" where
  "op_over a b inputs =
     numeric_bind (required inputs a) (\<lambda>x. numeric_bind (required inputs b) (\<lambda>y.
     if dc_coeff y = 0 then Inl NumericInputError else dec_div x y))"

definition op_difference :: "inputs \<Rightarrow> dec numeric" where
  "op_difference = op_minus ''minuend'' ''subtrahend''"

definition op_percentage_point :: "inputs \<Rightarrow> dec numeric" where
  "op_percentage_point = op_minus ''value_a'' ''value_b''"

definition op_quotient :: "inputs \<Rightarrow> dec numeric" where
  "op_quotient = op_over ''dividend'' ''divisor''"

definition op_ratio :: "inputs \<Rightarrow> dec numeric" where
  "op_ratio = op_over ''numerator'' ''denominator''"

definition op_percentage :: "inputs \<Rightarrow> dec numeric" where
  "op_percentage inputs = numeric_bind (op_over ''part'' ''whole'' inputs) (\<lambda>q. dec_mul q (dec_of_int 100))"

definition op_unit_conversion :: "inputs \<Rightarrow> dec numeric" where
  "op_unit_conversion inputs =
     numeric_bind (required inputs ''value'') (\<lambda>v. numeric_bind (required inputs ''factor'') (\<lambda>f.
     numeric_bind (parse_decimal (case map_of inputs ''offset'' of None \<Rightarrow> NInt 0 | Some x \<Rightarrow> x)) (\<lambda>offset.
     numeric_bind (dec_mul v f) (\<lambda>p. dec_add p offset))))"

definition numeric_operations :: "(string \<times> (inputs \<Rightarrow> dec numeric)) list" where
  "numeric_operations =
     [(''sum'', op_sum), (''difference'', op_difference), (''product'', op_product), (''quotient'', op_quotient),
      (''ratio'', op_ratio), (''percentage'', op_percentage), (''percentage_point'', op_percentage_point),
      (''unit_conversion'', op_unit_conversion)]"

section \<open>The recomputation\<close>

datatype numeric_recomputation = Impossible | Recomputed dec bool

definition dec_le :: "dec \<Rightarrow> dec \<Rightarrow> bool" where
  "dec_le a b = (let e = min (dc_exp a) (dc_exp b) in signed_at e a \<le> signed_at e b)"

definition dec_abs :: "dec \<Rightarrow> dec numeric" where
  "dec_abs d = dec_fix (d\<lparr>dc_sign := False\<rparr>)"

definition recompute_numeric_claim ::
  "string \<Rightarrow> number_like \<Rightarrow> inputs \<Rightarrow> number_like option \<Rightarrow> numeric_recomputation numeric" where
  "recompute_numeric_claim operation claimed_value inputs tolerance =
     (case map_of numeric_operations operation of
        None \<Rightarrow> Inr Impossible
      | Some op_fn \<Rightarrow>
          (case numeric_bind (parse_decimal claimed_value) (\<lambda>claimed.
                numeric_bind (op_fn inputs) (\<lambda>recomputed.
                numeric_bind (case tolerance of None \<Rightarrow> Inr (dec_of_int 0) | Some t \<Rightarrow> parse_decimal t) (\<lambda>tol.
                Inr (claimed, recomputed, tol)))) of
             Inl NumericInputError \<Rightarrow> Inr Impossible
           | Inl DecimalOverflow \<Rightarrow> Inl DecimalOverflow
           | Inr (claimed, recomputed, tol) \<Rightarrow>
               if dc_sign tol \<and> dc_coeff tol \<noteq> 0 then Inr Impossible
               else numeric_bind (dec_sub recomputed claimed) (\<lambda>d. numeric_bind (dec_abs d) (\<lambda>distance.
                    Inr (Recomputed recomputed (dec_le distance tol))))))"

definition recommendation_for_numeric_outcome :: "numeric_recomputation \<Rightarrow> string" where
  "recommendation_for_numeric_outcome r =
     (case r of Impossible \<Rightarrow> ''inconclusive'' | Recomputed _ agrees \<Rightarrow> if agrees then ''pass'' else ''fail'')"

end
