(* ===== verification/Numeric_Properties.thy ===== *)
theory Numeric_Properties
  imports Numeric_Verifier Source_Properties
begin

text \<open>
  How far the recomputation of a number can be off: the error of one rounding, of the operations
  that round once, and of the comparison with the claimed value.
\<close>

section \<open>Digits and rounding\<close>

lemma digits10_length_pos: "0 < ndigits c"
  using digits10_ne by (simp add: ndigits_def)

lemma ndigits_rec: "ndigits n = (if n < 10 then 1 else Suc (ndigits (n div 10)))"
  unfolding ndigits_def by (subst digits10.simps) simp

lemma ndigits_bounds: "0 < c \<Longrightarrow> 10 ^ (ndigits c - 1) \<le> c \<and> c < 10 ^ ndigits c"
proof (induction c rule: less_induct)
  case (less c)
  show ?case
  proof (cases "c < 10")
    case True
    with less.prems show ?thesis by (simp add: ndigits_rec [of c])
  next
    case False
    then have p: "0 < c div 10" "c div 10 < c" by simp_all
    from less.IH [OF p(2,1)] have b: "10 ^ (ndigits (c div 10) - 1) \<le> c div 10" "c div 10 < 10 ^ ndigits (c div 10)" by blast+
    have n: "ndigits c = Suc (ndigits (c div 10))" using False by (simp add: ndigits_rec [of c])
    have "(10::nat) ^ ndigits (c div 10) = 10 * 10 ^ (ndigits (c div 10) - 1)"
      using digits10_length_pos [of "c div 10"] by (simp add: power_eq_if)
    with b have "10 ^ ndigits (c div 10) \<le> c" by linarith
    moreover have "c < 10 * 10 ^ ndigits (c div 10)" using b(2) by linarith
    ultimately show ?thesis by (simp add: n)
  qed
qed

lemma ndigits_le: "c < 10 ^ n \<Longrightarrow> 0 < n \<Longrightarrow> ndigits c \<le> n"
proof (rule ccontr)
  assume c: "c < 10 ^ n" "0 < n" and l: "\<not> ndigits c \<le> n"
  then have "0 < c" by (cases c) (simp_all add: ndigits_rec [of 0])
  then have "10 ^ (ndigits c - 1) \<le> c" using ndigits_bounds by blast
  moreover have "(10::nat) ^ n \<le> 10 ^ (ndigits c - 1)" using l by (intro power_increasing) simp_all
  ultimately show False using c(1) by linarith
qed

lemma half_abs: "p \<le> 2 * r \<Longrightarrow> r < p \<Longrightarrow> 2 * \<bar>p - r\<bar> \<le> (p :: int)"
  by (simp add: abs_if)

lemma half_even_error: "2 * \<bar>int (half_even c k) * 10 ^ k - int c\<bar> \<le> 10 ^ k"
proof -
  let ?p = "10 ^ k :: nat" and ?q = "c div 10 ^ k" and ?r = "c mod 10 ^ k"
  have c: "int c = int ?q * int ?p + int ?r" by (metis div_mult_mod_eq of_nat_add of_nat_mult)
  have r: "?r < ?p" by simp
  show ?thesis
  proof (cases "2 * ?r > ?p \<or> (2 * ?r = ?p \<and> odd ?q)")
    case True
    then have h: "half_even c k = ?q + 1" by (simp add: half_even_def Let_def)
    have d: "int (half_even c k) * 10 ^ k - int c = int ?p - int ?r" by (simp add: h c algebra_simps)
    have "?p \<le> 2 * ?r" using True by linarith
    then have "int ?p \<le> 2 * int ?r" by linarith
    moreover have "int ?r < int ?p" using r by linarith
    ultimately have "2 * \<bar>int ?p - int ?r\<bar> \<le> int ?p" by (rule half_abs)
    then show ?thesis unfolding d by simp
  next
    case False
    then have h: "half_even c k = ?q" by (auto simp: half_even_def Let_def)
    have d: "int (half_even c k) * 10 ^ k - int c = - int ?r" by (simp add: h c algebra_simps)
    have "2 * ?r \<le> ?p" using False by linarith
    then have "2 * \<bar>- int ?r\<bar> \<le> int ?p" by (simp flip: of_nat_le_iff [where 'a = int])
    then show ?thesis unfolding d by simp
  qed
qed

lemma half_even_bound: "half_even c k \<le> c div 10 ^ k + 1"
  by (simp add: half_even_def Let_def)

lemma half_even_ge: "c div 10 ^ k \<le> half_even c k"
  by (simp add: half_even_def Let_def)

section \<open>Values\<close>

definition dval :: "dec \<Rightarrow> rat" where
  "dval d = (if dc_sign d then -1 else 1) * of_nat (dc_coeff d) * 10 powi dc_exp d"

lemma dval_zero [simp]: "dval d = 0 \<longleftrightarrow> dc_coeff d = 0"
  by (simp add: dval_def)

lemma abs_dval: "\<bar>dval d\<bar> = of_nat (dc_coeff d) * 10 powi dc_exp d"
  by (simp add: dval_def abs_mult)

lemma powi_split: "e \<le> f \<Longrightarrow> (10::rat) powi f = 10 ^ nat (f - e) * 10 powi e"
proof -
  assume "e \<le> f"
  then have "f = int (nat (f - e)) + e" by simp
  then show ?thesis by (metis power_int_add power_int_of_nat zero_neq_numeral)
qed

lemma signed_at_dval: "e \<le> dc_exp d \<Longrightarrow> of_int (signed_at e d) * 10 powi e = dval d"
  by (simp add: signed_at_def dval_def powi_split [of e "dc_exp d"] mult.assoc)

text \<open>One rounding: the sign stays, nothing becomes zero, and the error is half a unit of digit 50.\<close>

lemma fix_rounds:
  assumes c: "0 < dc_coeff d" and k: "ndigits (dc_coeff d) = 50 + k" "0 < k"
    and q: "q = half_even (dc_coeff d) k" and e: "m = dc_exp d + int k"
    and qm: "(q', m') = (if ndigits q > PRECISION then (q div 10, m + 1) else (q, m))"
  shows "0 < q' \<and> \<bar>of_nat q' * 10 powi m' - \<bar>dval d\<bar>\<bar> \<le> \<bar>dval d\<bar> / (2 * 10 ^ 49)"
proof -
  let ?c = "dc_coeff d"
  have b: "10 ^ (49 + k) \<le> ?c" "?c < 10 ^ (50 + k)" using ndigits_bounds [OF c] by (simp_all add: k)
  have lo: "10 ^ 49 \<le> ?c div 10 ^ k" using div_le_mono [OF b(1), of "10 ^ k"] by (simp add: power_add)
  have hi: "?c div 10 ^ k < 10 ^ 50" using b(2) by (simp add: power_add less_mult_imp_div_less)
  have qb: "10 ^ 49 \<le> q" "q \<le> 10 ^ 50" using half_even_ge [of ?c k] half_even_bound [of ?c k] lo hi q by linarith+
  have same: "of_nat q' * 10 powi m' = (of_nat q * 10 powi m :: rat)" and pos: "0 < q'"
  proof -
    show "of_nat q' * 10 powi m' = (of_nat q * 10 powi m :: rat)"
    proof (cases "ndigits q > PRECISION")
      case True
      have "\<not> q < 10 ^ 50" using True ndigits_le [of q 50] by (auto simp: PRECISION_def)
      with qb have "q = 10 ^ 50" by linarith
      then have q10: "q = 10 * (q div 10)" by simp
      have "q' = q div 10" "m' = m + 1" using qm True by simp_all
      then have "of_nat q' * 10 powi m' = (of_nat (10 * (q div 10)) * 10 powi m :: rat)"
        by (simp add: power_int_add)
      with q10 show ?thesis by simp
    next
      case False
      with qm show ?thesis by simp
    qed
    show "0 < q'" using qm qb by (auto split: if_splits)
  qed
  have "2 * \<bar>int q * 10 ^ k - int ?c\<bar> \<le> 10 ^ k" unfolding q by (rule half_even_error)
  then have "of_int (2 * \<bar>int q * 10 ^ k - int ?c\<bar>) \<le> (of_int (10 ^ k) :: rat)" by (rule of_int_le_iff [THEN iffD2])
  then have er: "\<bar>of_nat q * 10 ^ k - of_nat ?c\<bar> \<le> (10 ^ k / 2 :: rat)" by simp
  have "(of_nat (10 ^ (49 + k)) :: rat) \<le> of_nat ?c" using b(1) by (rule of_nat_le_iff [THEN iffD2])
  then have "(10 ^ k / 2 :: rat) \<le> of_nat ?c / (2 * 10 ^ 49)" by (simp add: power_add field_simps)
  with er have er2: "\<bar>of_nat q * 10 ^ k - of_nat ?c\<bar> \<le> (of_nat ?c / (2 * 10 ^ 49) :: rat)" by linarith
  have m: "(10::rat) powi m = 10 ^ k * 10 powi dc_exp d" by (simp add: e powi_split [of "dc_exp d" "dc_exp d + int k"])
  have "\<bar>of_nat q' * 10 powi m' - \<bar>dval d\<bar>\<bar> = \<bar>of_nat q * 10 ^ k - of_nat ?c\<bar> * 10 powi dc_exp d"
    by (simp add: same m abs_dval left_diff_distrib [symmetric] abs_mult flip: mult.assoc)
  also have "\<dots> \<le> of_nat ?c / (2 * 10 ^ 49) * 10 powi dc_exp d" using er2 by (rule mult_right_mono) simp
  finally show ?thesis using pos by (simp add: abs_dval)
qed

lemma fix_cases:
  assumes f: "dec_fix d = Inr d'" and c: "dc_coeff d \<noteq> 0"
  obtains (same) "d' = d" "ETINY \<le> dc_exp d"
  | (rounded) k q m q' m' where "0 < k" "m = dc_exp d + int k" "q = half_even (dc_coeff d) k"
      "(q', m') = (if ndigits q > PRECISION then (q div 10, m + 1) else (q, m))"
      "d' = d\<lparr>dc_coeff := q', dc_exp := m'\<rparr>" "m = max (int (ndigits (dc_coeff d)) + dc_exp d - int PRECISION) ETINY"
proof -
  let ?m = "max (int (ndigits (dc_coeff d)) + dc_exp d - int PRECISION) ETINY"
  show thesis
  proof (cases "dc_exp d < ?m")
    case False
    with f c have "d' = d" by (simp add: dec_fix_def Let_def split: if_splits)
    with False same show thesis by simp
  next
    case True
    let ?q = "half_even (dc_coeff d) (nat (?m - dc_exp d))"
    obtain q' m' where qm: "(q', m') = (if ndigits ?q > PRECISION then (?q div 10, ?m + 1) else (?q, ?m))" by (metis surj_pair)
    have "d' = d\<lparr>dc_coeff := q', dc_exp := m'\<rparr>"
      using f c True qm [symmetric] by (auto simp: dec_fix_def Let_def split: if_splits)
    with True rounded [of "nat (?m - dc_exp d)" ?m ?q q' m'] qm show thesis by simp
  qed
qed

lemma fix_zero: "dec_fix d = Inr d' \<Longrightarrow> dc_coeff d = 0 \<Longrightarrow> dc_coeff d' = 0 \<and> ETINY \<le> dc_exp d'"
  by (auto simp: dec_fix_def Let_def ETINY_def EMAX_def)

lemma fix_exp: "dec_fix d = Inr d' \<Longrightarrow> ETINY \<le> dc_exp d'"
proof (cases "dc_coeff d = 0")
  case False
  assume f: "dec_fix d = Inr d'"
  from f False show ?thesis by (cases rule: fix_cases) (auto split: if_splits)
qed (simp add: fix_zero)

lemma fix_nonzero: "dec_fix d = Inr d' \<Longrightarrow> ETINY \<le> dc_exp d \<Longrightarrow> dc_coeff d' = 0 \<longleftrightarrow> dc_coeff d = 0"
proof (cases "dc_coeff d = 0")
  case False
  assume f: "dec_fix d = Inr d'" and e: "ETINY \<le> dc_exp d"
  from f False show ?thesis
  proof (cases rule: fix_cases)
    case (rounded k q m q' m')
    then have "ndigits (dc_coeff d) = 50 + k" using e by (simp add: PRECISION_def)
    from fix_rounds [OF _ this rounded(1,3,2,4)] False rounded(5) show ?thesis by simp
  qed simp
qed (simp add: fix_zero)

text \<open>The least magnitude that is not subnormal.\<close>

definition EMIN :: int where "EMIN = - 999999"
definition TINY :: rat where "TINY = 10 powi EMIN"

lemma powi_less: "(10::rat) powi a < 10 powi b \<Longrightarrow> a < b"
  by (rule ccontr) (use power_int_increasing [of b a "10::rat"] in simp)

lemma TINY_pos: "0 < TINY"
  by (simp add: TINY_def)

lemma normal_digits: "TINY \<le> \<bar>dval d\<bar> \<Longrightarrow> ETINY \<le> int (ndigits (dc_coeff d)) + dc_exp d - int PRECISION"
proof -
  assume n: "TINY \<le> \<bar>dval d\<bar>"
  then have c: "0 < dc_coeff d" using TINY_pos by (auto simp: abs_dval intro!: gr0I)
  have "(of_nat (dc_coeff d) :: rat) < of_nat (10 ^ ndigits (dc_coeff d))" using ndigits_bounds [OF c] by (intro of_nat_less_iff [THEN iffD2]) blast
  then have "\<bar>dval d\<bar> < 10 ^ ndigits (dc_coeff d) * 10 powi dc_exp d" unfolding abs_dval by (intro mult_strict_right_mono) simp_all
  also have "\<dots> = 10 powi (int (ndigits (dc_coeff d)) + dc_exp d)" by (simp add: power_int_add)
  finally have "(10::rat) powi EMIN < 10 powi (int (ndigits (dc_coeff d)) + dc_exp d)"
    using n unfolding TINY_def by (rule order_le_less_trans [rotated])
  then have "EMIN < int (ndigits (dc_coeff d)) + dc_exp d" by (rule powi_less)
  then show ?thesis by (simp add: ETINY_def EMIN_def PRECISION_def)
qed

lemma dval_update: "dval (d\<lparr>dc_coeff := q, dc_exp := m\<rparr>) = (if dc_sign d then -1 else 1) * (of_nat q * 10 powi m)"
  by (simp add: dval_def)

lemma fix_error:
  assumes f: "dec_fix d = Inr d'" and n: "dval d = 0 \<or> TINY \<le> \<bar>dval d\<bar>"
  shows "\<bar>dval d' - dval d\<bar> \<le> \<bar>dval d\<bar> / (2 * 10 ^ 49)"
proof (cases "dc_coeff d = 0")
  case True
  with fix_zero [OF f] show ?thesis by (simp add: dval_def)
next
  case False
  then have c: "0 < dc_coeff d" by simp
  from n False have n': "TINY \<le> \<bar>dval d\<bar>" by simp
  from f False show ?thesis
  proof (cases rule: fix_cases)
    case same
    then show ?thesis by simp
  next
    case (rounded k q m q' m')
    with normal_digits [OF n'] have "ndigits (dc_coeff d) = 50 + k" by (simp add: PRECISION_def)
    note r = fix_rounds [OF c this rounded(1,3,2,4)]
    have "\<bar>dval d' - dval d\<bar> = \<bar>of_nat q' * 10 powi m' - \<bar>dval d\<bar>\<bar>"
      by (cases "dc_sign d") (simp_all add: rounded(5) dval_update abs_dval dval_def)
    with r show ?thesis by simp
  qed
qed

section \<open>The operations\<close>

lemma dec_add_exact:
  "dec_add a b = Inr r \<Longrightarrow> \<exists>d. dec_fix d = Inr r \<and> dval d = dval a + dval b \<and> dc_exp d = min (dc_exp a) (dc_exp b)"
proof -
  assume run: "dec_add a b = Inr r"
  let ?e = "min (dc_exp a) (dc_exp b)"
  let ?s = "signed_at ?e a + signed_at ?e b"
  let ?d = "\<lparr>dc_sign = (if ?s = 0 then dc_sign a \<and> dc_sign b else ?s < 0), dc_coeff = nat \<bar>?s\<bar>, dc_exp = ?e\<rparr>"
  have "dval ?d = of_int ?s * 10 powi ?e" by (auto simp: dval_def)
  also have "\<dots> = dval a + dval b"
    using signed_at_dval [of ?e a] signed_at_dval [of ?e b] by (simp add: distrib_right)
  finally show ?thesis using run by (intro exI [of _ ?d]) (simp add: dec_add_def Let_def)
qed

lemma dval_neg: "dval (dec_neg b) = - dval b"
  by (simp add: dval_def dec_neg_def)

lemma dec_sub_exact:
  "dec_sub a b = Inr r \<Longrightarrow> \<exists>d. dec_fix d = Inr r \<and> dval d = dval a - dval b \<and> dc_exp d = min (dc_exp a) (dc_exp b)"
  using dec_add_exact [of a "dec_neg b" r] by (simp add: dec_sub_def dval_neg) (simp add: dec_neg_def)

lemma drop_zeros_value: "drop_zeros n c e = (c', e') \<Longrightarrow> of_nat c' * 10 powi e' = (of_nat c * 10 powi e :: rat)"
proof (induction n c e rule: drop_zeros.induct)
  case (2 n c e)
  show ?case
  proof (cases "c mod 10 = 0")
    case True
    then have c: "c = 10 * (c div 10)" by presburger
    from 2 True have "of_nat c' * 10 powi e' = (of_nat (c div 10) * 10 powi (e + 1) :: rat)" by simp
    also have "\<dots> = of_nat (10 * (c div 10)) * 10 powi e" by (simp add: power_int_add)
    finally show ?thesis using c by simp
  next
    case False
    with 2 show ?thesis by simp
  qed
qed simp

text \<open>The quotient before its rounding: 50 digits and more, and less than one unit away.\<close>

lemma quotient_digits:
  assumes a: "0 < x" and b: "0 < y"
    and s: "shift = int (ndigits y) - int (ndigits x) + int PRECISION + 1"
  shows "10 ^ 50 * (y * 10 ^ nat (- shift)) \<le> x * 10 ^ nat shift"
proof -
  have x: "10 ^ (ndigits x - 1) \<le> x" using ndigits_bounds [OF a] by blast
  have y: "y \<le> 10 ^ ndigits y" using ndigits_bounds [OF b] by linarith
  have "10 ^ 50 * (y * 10 ^ nat (- shift)) \<le> 10 ^ 50 * (10 ^ ndigits y * 10 ^ nat (- shift))"
    using y by (intro mult_le_mono mult_le_mono1) simp_all
  also have "\<dots> = 10 ^ (50 + ndigits y + nat (- shift))" by (simp only: power_add mult.assoc)
  also have "50 + ndigits y + nat (- shift) = ndigits x - 1 + nat shift"
    using s digits10_length_pos [of x] by (simp add: PRECISION_def)
  also have "(10::nat) ^ (ndigits x - 1 + nat shift) = 10 ^ (ndigits x - 1) * 10 ^ nat shift" by (rule power_add)
  also have "\<dots> \<le> x * 10 ^ nat shift" using x by (rule mult_le_mono1)
  finally show ?thesis .
qed

lemma dec_div_near:
  assumes run: "dec_div a b = Inr r" and b: "dc_coeff b \<noteq> 0"
  shows "\<exists>d. dec_fix d = Inr r \<and> \<bar>dval d - dval a / dval b\<bar> \<le> \<bar>dval a / dval b\<bar> / 10 ^ 50"
proof (cases "dc_coeff a = 0")
  case True
  with run show ?thesis
    by (intro exI [of _ "\<lparr>dc_sign = (dc_sign a \<noteq> dc_sign b), dc_coeff = 0, dc_exp = dc_exp a - dc_exp b\<rparr>"])
      (simp add: dec_div_def Let_def dval_def)
next
  case False
  define shift where "shift = int (ndigits (dc_coeff b)) - int (ndigits (dc_coeff a)) + int PRECISION + 1"
  define num where "num = dc_coeff a * 10 ^ nat shift"
  define den where "den = dc_coeff b * 10 ^ nat (- shift)"
  define q where "q = num div den"
  define e where "e = dc_exp a - dc_exp b - shift"
  let ?sign = "dc_sign a \<noteq> dc_sign b"
  let ?x = "of_nat num / of_nat den :: rat"
  have den: "0 < den" using b by (simp add: den_def)
  have big: "10 ^ 50 \<le> ?x"
  proof -
    have "10 ^ 50 * den \<le> num"
      unfolding num_def den_def by (rule quotient_digits [OF _ _ shift_def]) (use False b in simp_all)
    then have "(of_nat (10 ^ 50 * den) :: rat) \<le> of_nat num" by (rule of_nat_le_iff [THEN iffD2])
    with den show ?thesis by (simp add: field_simps)
  qed
  have ten: "(10::rat) ^ nat shift / 10 ^ nat (- shift) = 10 powi shift"
    by (cases "0 \<le> shift") (simp_all add: power_int_def field_simps)
  have x: "\<bar>dval a / dval b\<bar> = ?x * 10 powi e"
  proof -
    have "?x * 10 powi e = of_nat (dc_coeff a) / of_nat (dc_coeff b) * (10 ^ nat shift / 10 ^ nat (- shift)) * 10 powi e"
      by (simp add: num_def den_def)
    also have "\<dots> = of_nat (dc_coeff a) / of_nat (dc_coeff b) * (10 powi shift * 10 powi e)" by (simp add: ten)
    also have "10 powi shift * 10 powi e = (10 powi (shift + e) :: rat)" by (simp add: power_int_add)
    also have "shift + e = dc_exp a - dc_exp b" by (simp add: e_def)
    also have "10 powi (dc_exp a - dc_exp b) = (10 powi dc_exp a / 10 powi dc_exp b :: rat)" by (simp add: power_int_diff)
    finally show ?thesis by (simp add: abs_divide abs_dval)
  qed
  define X where "X = \<bar>dval a / dval b\<bar>"
  have xX: "X = ?x * 10 powi e" using x by (simp only: X_def)
  have sign: "dval a / dval b = (if ?sign then -1 else 1) * X"
    by (cases "dc_sign a"; cases "dc_sign b") (simp_all add: X_def dval_def abs_mult)
  have key: "\<bar>(if ?sign then -1 else 1) * (of_nat c * 10 powi f) - dval a / dval b\<bar> \<le> \<bar>dval a / dval b\<bar> / 10 ^ 50"
    if v: "of_nat c * 10 powi f = of_nat c' * (10 powi e :: rat)" and c': "\<bar>of_nat c' - ?x\<bar> \<le> 1" for c c' f
  proof -
    have "\<bar>(if ?sign then -1 else 1) * (of_nat c * 10 powi f) - dval a / dval b\<bar> = \<bar>of_nat c * 10 powi f - X\<bar>"
      unfolding sign by (cases ?sign) (simp_all add: abs_minus_commute)
    also have "\<dots> = \<bar>(of_nat c' - ?x) * 10 powi e\<bar>" unfolding xX v by (simp only: left_diff_distrib)
    also have "\<dots> = \<bar>of_nat c' - ?x\<bar> * 10 powi e" by (simp add: abs_mult)
    also have "\<dots> \<le> 1 * 10 powi e" using c' by (rule mult_right_mono) simp
    also have "\<dots> \<le> ?x / 10 ^ 50 * 10 powi e" using big by (intro mult_right_mono) simp_all
    also have "\<dots> = X / 10 ^ 50" by (simp add: xX)
    finally show ?thesis by (simp only: X_def)
  qed
  have qx: "of_nat q \<le> ?x" "?x < of_nat q + 1"
  proof -
    have n: "num = q * den + num mod den" by (simp add: q_def)
    have m: "num mod den < den" using den by simp
    have "(of_nat num :: rat) = of_nat q * of_nat den + of_nat (num mod den)" by (metis n of_nat_add of_nat_mult)
    moreover have "(of_nat (num mod den) :: rat) < of_nat den" using m by (rule of_nat_less_iff [THEN iffD2])
    moreover have "(0 :: rat) < of_nat den" using den by simp
    ultimately show "of_nat q \<le> ?x" "?x < of_nat q + 1" by (simp_all add: field_simps)
  qed
  have dv: "dval \<lparr>dc_sign = ?sign, dc_coeff = c, dc_exp = f\<rparr> = (if ?sign then -1 else 1) * (of_nat c * 10 powi f)" for c f
    by (simp add: dval_def)
  show ?thesis
  proof (cases "num mod den = 0")
    case True
    obtain c f where z: "drop_zeros (nat shift) q e = (c, f)" by fastforce
    from True have "dec_fix \<lparr>dc_sign = ?sign, dc_coeff = c, dc_exp = f\<rparr> = Inr r"
      using run False z unfolding dec_div_def Let_def num_def den_def q_def e_def shift_def by simp
    moreover have "\<bar>of_nat q - ?x\<bar> \<le> 1" using qx by (simp add: abs_le_iff)
    from key [OF drop_zeros_value [OF z] this] have "\<bar>dval \<lparr>dc_sign = ?sign, dc_coeff = c, dc_exp = f\<rparr> - dval a / dval b\<bar> \<le>
        \<bar>dval a / dval b\<bar> / 10 ^ 50" unfolding dv .
    ultimately show ?thesis by blast
  next
    case rem: False
    let ?c = "if q mod 5 = 0 then q + 1 else q"
    from rem have "dec_fix \<lparr>dc_sign = ?sign, dc_coeff = ?c, dc_exp = e\<rparr> = Inr r"
      using run False unfolding dec_div_def Let_def num_def den_def q_def e_def shift_def by simp
    moreover have "\<bar>of_nat ?c - ?x\<bar> \<le> 1" using qx by (cases "q mod 5 = 0") (simp_all add: abs_le_iff)
    from key [OF refl this] have "\<bar>dval \<lparr>dc_sign = ?sign, dc_coeff = ?c, dc_exp = e\<rparr> - dval a / dval b\<bar> \<le>
        \<bar>dval a / dval b\<bar> / 10 ^ 50" unfolding dv .
    ultimately show ?thesis by blast
  qed
qed

section \<open>What a recomputation says\<close>

definition named :: "inputs \<Rightarrow> string \<Rightarrow> rat option" where
  "named inputs k = (case required inputs k of Inl _ \<Rightarrow> None | Inr d \<Rightarrow> Some (dval d))"

text \<open>The exact value of the operations that round once.\<close>

definition exact_value :: "string \<Rightarrow> inputs \<Rightarrow> rat option" where
  "exact_value operation inputs =
     (let both = (\<lambda>f a b. case (named inputs a, named inputs b) of (Some x, Some y) \<Rightarrow> Some (f x y) | _ \<Rightarrow> None)
      in if operation = ''difference'' then both (-) ''minuend'' ''subtrahend''
         else if operation = ''percentage_point'' then both (-) ''value_a'' ''value_b''
         else if operation = ''quotient'' then both (/) ''dividend'' ''divisor''
         else if operation = ''ratio'' then both (/) ''numerator'' ''denominator''
         else None)"

lemma numeric_bind_Inr: "numeric_bind x f = Inr r \<longleftrightarrow> (\<exists>a. x = Inr a \<and> f a = Inr r)"
  by (cases x) (simp_all add: numeric_bind_def)

lemma numeric_bind_Inl: "numeric_bind x f = Inl e \<longleftrightarrow> x = Inl e \<or> (\<exists>a. x = Inr a \<and> f a = Inl e)"
  by (cases x) (simp_all add: numeric_bind_def)

lemma near_fix:
  assumes f: "dec_fix d = Inr r" and d: "\<bar>dval d - x\<bar> \<le> \<bar>x\<bar> / 10 ^ 50" and x: "x = 0 \<or> 2 * TINY \<le> \<bar>x\<bar>"
  shows "\<bar>dval r - x\<bar> \<le> \<bar>x\<bar> / 10 ^ 49"
proof -
  have "\<bar>dval d\<bar> \<le> \<bar>x\<bar> + \<bar>x\<bar> / 10 ^ 50" and lo: "\<bar>x\<bar> - \<bar>x\<bar> / 10 ^ 50 \<le> \<bar>dval d\<bar>" using d by linarith+
  moreover have "dval d = 0 \<or> TINY \<le> \<bar>dval d\<bar>"
  proof (cases "x = 0")
    case True
    with d show ?thesis by simp
  next
    case False
    with x have "2 * TINY \<le> \<bar>x\<bar>" by simp
    moreover have "\<bar>x\<bar> / 10 ^ 50 \<le> \<bar>x\<bar> / 2" by (intro divide_left_mono) simp_all
    ultimately have "TINY \<le> \<bar>dval d\<bar>" using lo by linarith
    then show ?thesis ..
  qed
  from fix_error [OF f this] have "\<bar>dval r - dval d\<bar> \<le> \<bar>dval d\<bar> / (2 * 10 ^ 49)" .
  moreover have "\<bar>dval r - x\<bar> \<le> \<bar>dval r - dval d\<bar> + \<bar>dval d - x\<bar>" "0 \<le> \<bar>x\<bar>" by linarith+
  ultimately show ?thesis using d by (simp add: field_simps)
qed

lemma minus_near:
  assumes r: "op_minus a b inputs = Inr r" and x: "named inputs a = Some u" "named inputs b = Some v"
    and n: "u - v = 0 \<or> 2 * TINY \<le> \<bar>u - v\<bar>"
  shows "\<bar>dval r - (u - v)\<bar> \<le> \<bar>u - v\<bar> / 10 ^ 49"
proof -
  from r obtain p q where p: "required inputs a = Inr p" "required inputs b = Inr q" "dec_sub p q = Inr r"
    by (auto simp: op_minus_def numeric_bind_Inr)
  with x have uv: "u = dval p" "v = dval q" by (simp_all add: named_def)
  from dec_sub_exact [OF p(3)] obtain d where d: "dec_fix d = Inr r" "dval d = u - v" by (auto simp: uv)
  show ?thesis by (rule near_fix [OF d(1) _ n]) (simp add: d(2))
qed

lemma over_near:
  assumes r: "op_over a b inputs = Inr r" and x: "named inputs a = Some u" "named inputs b = Some v"
    and n: "u / v = 0 \<or> 2 * TINY \<le> \<bar>u / v\<bar>"
  shows "\<bar>dval r - u / v\<bar> \<le> \<bar>u / v\<bar> / 10 ^ 49"
proof -
  from r obtain p q where p: "required inputs a = Inr p" "required inputs b = Inr q" "dc_coeff q \<noteq> 0" "dec_div p q = Inr r"
    by (auto simp: op_over_def numeric_bind_Inr split: if_splits)
  with x have uv: "u = dval p" "v = dval q" by (simp_all add: named_def)
  from dec_div_near [OF p(4,3)] obtain d where d: "dec_fix d = Inr r" "\<bar>dval d - u / v\<bar> \<le> \<bar>u / v\<bar> / 10 ^ 50" by (auto simp: uv)
  show ?thesis by (rule near_fix [OF d n])
qed

lemma recompute_Recomputed:
  assumes "recompute_numeric_claim operation claimed inputs tolerance = Inr (Recomputed r agrees)"
  obtains op_fn c tol d distance where "map_of numeric_operations operation = Some op_fn" "parse_decimal claimed = Inr c"
    "op_fn inputs = Inr r" "(case tolerance of None \<Rightarrow> Inr (dec_of_int 0) | Some t \<Rightarrow> parse_decimal t) = Inr tol"
    "\<not> (dc_sign tol \<and> dc_coeff tol \<noteq> 0)" "dec_sub r c = Inr d" "dec_abs d = Inr distance" "agrees = dec_le distance tol"
proof -
  from assms obtain op_fn where o: "map_of numeric_operations operation = Some op_fn"
    by (auto simp: recompute_numeric_claim_def split: option.splits)
  let ?m = "numeric_bind (parse_decimal claimed) (\<lambda>claimed. numeric_bind (op_fn inputs) (\<lambda>recomputed.
      numeric_bind (case tolerance of None \<Rightarrow> Inr (dec_of_int 0) | Some t \<Rightarrow> parse_decimal t) (\<lambda>tol.
      Inr (claimed, recomputed, tol))))"
  show thesis
  proof (cases ?m)
    case (Inl e)
    with assms o show ?thesis by (cases e) (simp_all add: recompute_numeric_claim_def)
  next
    case (Inr z)
    obtain c r' tol where z: "z = (c, r', tol)" by (cases z) simp
    from assms o Inr have neg: "\<not> (dc_sign tol \<and> dc_coeff tol \<noteq> 0)"
      by (auto simp: recompute_numeric_claim_def z split: if_splits)
    from assms o Inr have "(if dc_sign tol \<and> dc_coeff tol \<noteq> 0 then Inr Impossible
        else numeric_bind (dec_sub r' c) (\<lambda>d. numeric_bind (dec_abs d) (\<lambda>distance.
          Inr (Recomputed r' (dec_le distance tol))))) = Inr (Recomputed r agrees)"
      by (simp add: recompute_numeric_claim_def z)
    then have "numeric_bind (dec_sub r' c) (\<lambda>d. numeric_bind (dec_abs d) (\<lambda>distance.
        Inr (Recomputed r' (dec_le distance tol)))) = Inr (Recomputed r agrees)" unfolding if_not_P [OF neg] .
    then obtain d distance where "r' = r" "dec_sub r c = Inr d" "dec_abs d = Inr distance" "agrees = dec_le distance tol"
      by (auto simp: numeric_bind_Inr)
    moreover from Inr z have "parse_decimal claimed = Inr c" "op_fn inputs = Inr r'"
      "(case tolerance of None \<Rightarrow> Inr (dec_of_int 0) | Some t \<Rightarrow> parse_decimal t) = Inr tol"
      by (auto simp: numeric_bind_Inr)
    ultimately show ?thesis using that [OF o] neg by blast
  qed
qed

lemma scaled_le_zero: "int c * 10 ^ n \<le> 0 \<longleftrightarrow> c = 0"
proof (cases "c = 0")
  case False
  then have "0 < int c * 10 ^ n" by simp
  with False show ?thesis by (metis linorder_not_le)
qed simp

lemma fix_sign: "dec_fix d = Inr d' \<Longrightarrow> dc_sign d' = dc_sign d"
  by (auto simp: dec_fix_def Let_def split: if_splits)

lemma total_exp:
  assumes f: "\<And>a b r. f a b = Inr r \<Longrightarrow> ETINY \<le> dc_exp r"
  shows "total_of f inputs acc = Inr r \<Longrightarrow> ETINY \<le> dc_exp acc \<Longrightarrow> ETINY \<le> dc_exp r"
proof (induction inputs arbitrary: acc)
  case (Cons p inputs)
  then obtain a b where "f acc a = Inr b" "total_of f inputs b = Inr r" by (cases p) (auto simp: numeric_bind_Inr)
  from Cons.IH [OF this(2) f [OF this(1)]] show ?case .
qed simp

lemma arith_exp:
  "dec_add a b = Inr r \<Longrightarrow> ETINY \<le> dc_exp r" "dec_sub a b = Inr r \<Longrightarrow> ETINY \<le> dc_exp r"
  "dec_mul a b = Inr r \<Longrightarrow> ETINY \<le> dc_exp r" "dec_div a b = Inr r \<Longrightarrow> ETINY \<le> dc_exp r"
  by (auto simp: dec_add_def dec_sub_def dec_mul_def dec_div_def Let_def dest!: fix_exp split: if_splits prod.splits)

lemma operation_exp:
  assumes "map_of numeric_operations operation = Some op_fn" and "op_fn inputs = Inr r"
  shows "ETINY \<le> dc_exp r"
proof -
  have z: "ETINY \<le> dc_exp (dec_of_int i)" for i by (simp add: dec_of_int_def ETINY_def)
  have t1: "total_of dec_add inputs (dec_of_int i) = Inr r \<Longrightarrow> ETINY \<le> dc_exp r" for i
    by (rule total_exp [OF arith_exp(1) _ z])
  have t2: "total_of dec_mul inputs (dec_of_int i) = Inr r \<Longrightarrow> ETINY \<le> dc_exp r" for i
    by (rule total_exp [OF arith_exp(3) _ z])
  have "op_fn \<in> set (map snd numeric_operations)" using map_of_SomeD [OF assms(1)] by force
  then show ?thesis using assms(2)
    unfolding numeric_operations_def
    by (auto simp: op_sum_def op_product_def op_difference_def op_percentage_point_def op_quotient_def op_ratio_def
        op_percentage_def op_unit_conversion_def op_minus_def op_over_def numeric_bind_Inr split: if_splits dest: t1 t2 arith_exp)
qed

text \<open>
  C35. A recomputation is as exact as 50 digits allow. When a difference, a percentage point, a
  quotient or a ratio is recomputed, the value is within one unit of the 49th digit of the exact
  one (which is zero or not subnormal). Without a tolerance, the claim agrees exactly when the
  claimed decimal is the recomputed one, for claimed exponents within the context.
\<close>

theorem recomputation_is_accurate:
  assumes run: "recompute_numeric_claim operation claimed inputs tolerance = Inr (Recomputed r agrees)"
  shows "(exact_value operation inputs = Some x \<and> (x = 0 \<or> 2 * TINY \<le> \<bar>x\<bar>) \<longrightarrow> \<bar>dval r - x\<bar> \<le> \<bar>x\<bar> / 10 ^ 49) \<and>
    (\<exists>c. parse_decimal claimed = Inr c \<and> (tolerance = None \<and> ETINY \<le> dc_exp c \<longrightarrow> agrees = (dval r = dval c)))"
proof -
  obtain op_fn c tol d distance where o: "map_of numeric_operations operation = Some op_fn" "parse_decimal claimed = Inr c"
    "op_fn inputs = Inr r" "(case tolerance of None \<Rightarrow> Inr (dec_of_int 0) | Some t \<Rightarrow> parse_decimal t) = Inr tol"
    "dec_sub r c = Inr d" "dec_abs d = Inr distance" "agrees = dec_le distance tol"
    using run by (rule recompute_Recomputed) (rule that, assumption+)
  show ?thesis
  proof (intro conjI impI exI [of _ c])
    show "parse_decimal claimed = Inr c" by (rule o(2))
    assume x: "exact_value operation inputs = Some x \<and> (x = 0 \<or> 2 * TINY \<le> \<bar>x\<bar>)"
    then have n: "x = 0 \<or> 2 * TINY \<le> \<bar>x\<bar>" by blast
    from x consider (minus) a b u v where "op_fn = op_minus a b" "named inputs a = Some u" "named inputs b = Some v" "x = u - v"
      | (over) a b u v where "op_fn = op_over a b" "named inputs a = Some u" "named inputs b = Some v" "x = u / v"
      using o(1)
      by (auto simp: exact_value_def Let_def numeric_operations_def op_difference_def op_percentage_point_def op_quotient_def op_ratio_def
          split: if_splits option.splits)
    then show "\<bar>dval r - x\<bar> \<le> \<bar>x\<bar> / 10 ^ 49"
    proof cases
      case minus
      show ?thesis unfolding minus(4) by (rule minus_near [OF o(3) [unfolded minus(1)] minus(2,3) n [unfolded minus(4)]])
    next
      case over
      show ?thesis unfolding over(4) by (rule over_near [OF o(3) [unfolded over(1)] over(2,3) n [unfolded over(4)]])
    qed
  next
    assume t: "tolerance = None \<and> ETINY \<le> dc_exp c"
    have tol: "tol = dec_of_int 0" using o(4) t by simp
    have "\<not> dc_sign distance" using o(6) fix_sign [of "d\<lparr>dc_sign := False\<rparr>"] by (simp add: dec_abs_def)
    then have le: "agrees \<longleftrightarrow> dc_coeff distance = 0"
      using o(7) tol by (simp add: dec_le_def Let_def signed_at_def dec_of_int_def scaled_le_zero)
    from dec_sub_exact [OF o(5)] obtain z where z: "dec_fix z = Inr d" "dval z = dval r - dval c" "dc_exp z = min (dc_exp r) (dc_exp c)" by blast
    have er: "ETINY \<le> dc_exp z" using operation_exp [OF o(1,3)] t by (simp add: z(3))
    have "dc_coeff d = 0 \<longleftrightarrow> dc_coeff z = 0" by (rule fix_nonzero [OF z(1) er])
    moreover have "dc_coeff distance = 0 \<longleftrightarrow> dc_coeff d = 0"
      using fix_nonzero [of "d\<lparr>dc_sign := False\<rparr>" distance] o(6) fix_exp [OF z(1)] by (simp add: dec_abs_def)
    moreover have "dc_coeff z = 0 \<longleftrightarrow> dval r = dval c" using dval_zero [of z] z(2) by simp
    ultimately show "agrees = (dval r = dval c)" using le by simp
  qed
qed

text \<open>
  What cannot be recomputed is said to be impossible: an operation that is not in the table, an
  input that is missing or no number, a divisor of zero. The one exception that escapes is an overflow.
\<close>

lemma parse_no_overflow: "parse_decimal v \<noteq> Inl DecimalOverflow"
  by (auto simp: parse_decimal_def split: number_like.split option.split)

lemma impossible_is_reported:
  "recompute_numeric_claim operation claimed inputs tolerance \<noteq> Inl NumericInputError"
  "map_of numeric_operations operation = None \<Longrightarrow> recompute_numeric_claim operation claimed inputs tolerance = Inr Impossible"
  "map_of numeric_operations operation = Some op_fn \<Longrightarrow> op_fn inputs = Inl NumericInputError \<Longrightarrow>
     recompute_numeric_claim operation claimed inputs tolerance = Inr Impossible"
proof -
  have no: "dec_fix d \<noteq> Inl NumericInputError" for d by (auto simp: dec_fix_def Let_def split: if_splits)
  then have no2: "dec_sub a b \<noteq> Inl NumericInputError" "dec_abs a \<noteq> Inl NumericInputError" for a b
    by (simp_all add: dec_sub_def dec_add_def dec_abs_def Let_def)
  show "recompute_numeric_claim operation claimed inputs tolerance \<noteq> Inl NumericInputError"
    by (auto simp: recompute_numeric_claim_def numeric_bind_def no2 split: option.split sum.split numeric_error.split prod.split)
  show "recompute_numeric_claim operation claimed inputs tolerance = Inr Impossible" if "map_of numeric_operations operation = None"
    using that by (simp add: recompute_numeric_claim_def)
  show "recompute_numeric_claim operation claimed inputs tolerance = Inr Impossible"
    if "map_of numeric_operations operation = Some op_fn" "op_fn inputs = Inl NumericInputError"
    using that parse_no_overflow [of claimed]
    by (cases "parse_decimal claimed"; cases "projl (parse_decimal claimed)") (simp_all add: recompute_numeric_claim_def numeric_bind_def)
qed

lemma zero_divisor: "named inputs b = Some 0 \<Longrightarrow> op_over a b inputs = Inl NumericInputError"
proof -
  assume z: "named inputs b = Some 0"
  then obtain y where y: "required inputs b = Inr y" "dc_coeff y = 0" by (auto simp: named_def split: sum.splits)
  have "required inputs a \<noteq> Inl DecimalOverflow" using parse_no_overflow by (auto simp: required_def split: option.split)
  with y show ?thesis by (cases "required inputs a"; cases "projl (required inputs a)") (simp_all add: op_over_def numeric_bind_def)
qed

lemma TINY_le: "TINY \<le> 1"
proof -
  have "EMIN \<le> 0" by (simp add: EMIN_def)
  from power_int_increasing [OF this, of "10::rat"] show ?thesis by (simp add: TINY_def)
qed

lemma fix_digit:
  assumes "0 < c" "c < 10"
  shows "dec_fix \<lparr>dc_sign = s, dc_coeff = c, dc_exp = 0\<rparr> = Inr \<lparr>dc_sign = s, dc_coeff = c, dc_exp = 0\<rparr>"
proof -
  have "ndigits c = 1" using assms(2) by (simp add: ndigits_rec [of c])
  with assms(1) show ?thesis by (simp add: dec_fix_def Let_def PRECISION_def ETINY_def ETOP_def)
qed

lemma fix_nil: "dec_fix \<lparr>dc_sign = s, dc_coeff = 0, dc_exp = 0\<rparr> = Inr \<lparr>dc_sign = s, dc_coeff = 0, dc_exp = 0\<rparr>"
  by (simp add: dec_fix_def Let_def ETINY_def EMAX_def)

lemma sample_difference:
  "recompute_numeric_claim ''difference'' (NInt 3) [(''minuend'', NInt 5), (''subtrahend'', NInt 2)] None =
     Inr (Recomputed (dec_of_int 3) True)"
  by (simp add: recompute_numeric_claim_def numeric_operations_def op_difference_def op_minus_def required_def parse_decimal_def
      dec_of_int_def numeric_bind_def dec_add_def dec_sub_def dec_neg_def dec_abs_def Let_def signed_at_def fix_digit fix_nil dec_le_def)

theorem recomputation_is_accurate_witness:
  "\<exists>r. recompute_numeric_claim ''difference'' (NInt 3) [(''minuend'', NInt 5), (''subtrahend'', NInt 2)] None = Inr (Recomputed r True) \<and>
     \<bar>dval r - 3\<bar> \<le> \<bar>3\<bar> / 10 ^ 49 \<and> dval r = dval (dec_of_int 3)"
proof -
  let ?i = "[(''minuend'', NInt 5), (''subtrahend'', NInt 2)]"
  have x: "exact_value ''difference'' ?i = Some 3"
    by (simp add: exact_value_def Let_def named_def required_def parse_decimal_def dec_of_int_def dval_def)
  have n: "(3 :: rat) = 0 \<or> 2 * TINY \<le> \<bar>3\<bar>" using TINY_le by simp
  note acc = recomputation_is_accurate [OF sample_difference]
  have "\<bar>dval (dec_of_int 3) - 3\<bar> \<le> \<bar>3\<bar> / 10 ^ 49" by (rule acc [THEN conjunct1, rule_format, OF conjI [OF x n]])
  moreover obtain c where c: "parse_decimal (NInt 3) = Inr c"
    "(None :: number_like option) = None \<and> ETINY \<le> dc_exp c \<longrightarrow> True = (dval (dec_of_int 3) = dval c)" using acc [THEN conjunct2] by blast
  moreover have "c = dec_of_int 3" using c(1) by (simp add: parse_decimal_def)
  moreover have "ETINY \<le> dc_exp (dec_of_int 3)" by (simp add: dec_of_int_def ETINY_def)
  ultimately show ?thesis using sample_difference by blast
qed

end
