(* ===== verification/Archive_Dump.thy ===== *)
theory Archive_Dump
  imports Source_Verifier
begin

text \<open>
  The reader of committed archive dumps, \<^verbatim>\<open>packages/domain/mrr/domain/archive_dump.py\<close>: it finds
  the COPY block of the table \<open>objects\<close> in the text that \<^verbatim>\<open>pg_dump\<close> wrote and reads its rows. The
  two regular expressions are written out as the scans they are; where backtracking matters,
  in the \<^verbatim>\<open>\s*$\<close> that ends the header, the scan tries the same lengths in the same order.
  Texts are strings over the code points 0 to 255; \<^verbatim>\<open>json.loads\<close> is the argument \<open>loads\<close>.
\<close>

section \<open>Errors and rows\<close>

text \<open>\<^verbatim>\<open>ArchiveDumpParseError\<close>, with what its message names; rows are numbered from 1.\<close>

datatype archive_dump_parse_error =
    NoCopyBlock
  | MissingColumns "string list"
  | NoTerminator
  | FieldCount nat nat
  | NullColumn nat string
  | BodyNotJson nat string
  | BodyNotObject nat string
  | BadField string string string

record archived_object =
  ao_object_id :: string
  ao_kind :: string
  ao_body :: dict

record source_record_row =
  sr_source_record_id :: string
  sr_title :: string

record evidence_anchor_row =
  er_anchor_id :: string
  er_source_record_id :: string

record claim_row =
  cr_claim_id :: string
  cr_evidence_relations :: "string list"
  cr_counterevidence_relations :: "string list"

definition REQUIRED_COLUMNS :: "string list" where
  "REQUIRED_COLUMNS = [''id'', ''kind'', ''body'']"

definition NULL_MARKER :: string where
  "NULL_MARKER = [CHR 0x5C, CHR ''N'']"

section \<open>The header and the terminator\<close>

abbreviation line_feed :: char where "line_feed \<equiv> CHR 0x0A"
abbreviation carriage_return :: char where "carriage_return \<equiv> CHR 0x0D"
abbreviation tab :: char where "tab \<equiv> CHR 0x09"
abbreviation backslash :: char where "backslash \<equiv> CHR 0x5C"

definition ident_start :: "char \<Rightarrow> bool" where
  "ident_start c = (let n = of_char c :: nat in (65 \<le> n \<and> n \<le> 90) \<or> (97 \<le> n \<and> n \<le> 122) \<or> n = 95)"

definition ident_char :: "char \<Rightarrow> bool" where
  "ident_char c = (ident_start c \<or> is_digit c)"

text \<open>One piece of a pattern each: it gives the text after the piece, or \<open>None\<close>.\<close>

definition expect :: "string \<Rightarrow> string \<Rightarrow> string option" where
  "expect p s = (if take (length p) s = p then Some (drop (length p) s) else None)"

definition spaces :: "string \<Rightarrow> string" where
  "spaces s = dropWhile is_space s"

definition spaces1 :: "string \<Rightarrow> string option" where
  "spaces1 s = (if s \<noteq> [] \<and> is_space (hd s) then Some (spaces s) else None)"

definition schema_name :: "string \<Rightarrow> string option" where
  "schema_name s = (if s \<noteq> [] \<and> ident_start (hd s) then Some (dropWhile ident_char s) else None)"

text \<open>In multi-line mode \<^verbatim>\<open>$\<close> stands before a newline and at the end of the text.\<close>

definition at_line_end :: "string \<Rightarrow> bool" where
  "at_line_end s = (s = [] \<or> hd s = line_feed)"

text \<open>\<^verbatim>\<open>\s*$\<close>: the longest run of space that ends at the end of a line.\<close>

definition line_end :: "string \<Rightarrow> string option" where
  "line_end s =
     map_option (\<lambda>k. drop k s)
       (find (\<lambda>k. at_line_end (drop k s)) (rev [0..<Suc (length (takeWhile is_space s))]))"

text \<open>The header at one position: the text between the parentheses, and the text after the match.\<close>

definition header_at :: "string \<Rightarrow> (string \<times> string) option" where
  "header_at s =
     Option.bind (expect ''COPY'' s) (\<lambda>s. Option.bind (spaces1 s) (\<lambda>s. Option.bind (schema_name s) (\<lambda>s.
     Option.bind (expect ''.objects'' s) (\<lambda>s. Option.bind (expect ''('' (spaces s)) (\<lambda>s.
     let columns = takeWhile (\<lambda>c. c \<noteq> CHR '')'') s in
     Option.bind (expect '')'' (drop (length columns) s)) (\<lambda>s.
     Option.bind (expect ''FROM'' (spaces s)) (\<lambda>s. Option.bind (spaces1 s) (\<lambda>s.
     Option.bind (expect ''stdin;'' s) (\<lambda>s. map_option (Pair columns) (line_end s))))))))))"

text \<open>\<open>bol\<close> is whether the position is the begin of a line, where \<^verbatim>\<open>^\<close> stands.\<close>

fun find_header :: "bool \<Rightarrow> string \<Rightarrow> (string \<times> string) option" where
  "find_header bol [] = (if bol then header_at [] else None)"
| "find_header bol (c # s) =
     (case (if bol then header_at (c # s) else None) of
        Some m \<Rightarrow> Some m
      | None \<Rightarrow> find_header (c = line_feed) s)"

definition terminator_at :: "string \<Rightarrow> bool" where
  "terminator_at s = (case expect [backslash, CHR ''.''] s of None \<Rightarrow> False | Some t \<Rightarrow> at_line_end t)"

text \<open>The text before the first terminator line.\<close>

fun before_terminator :: "bool \<Rightarrow> string \<Rightarrow> string option" where
  "before_terminator bol [] = None"
| "before_terminator bol (c # s) =
     (if bol \<and> terminator_at (c # s) then Some []
      else map_option (\<lambda>t. c # t) (before_terminator (c = line_feed) s))"

section \<open>Fields\<close>

fun unescape_copy_text :: "string \<Rightarrow> string" where
  "unescape_copy_text (c # d # s) =
     (if c = backslash \<and> d = CHR ''t'' then tab # unescape_copy_text s
      else if c = backslash \<and> d = CHR ''n'' then line_feed # unescape_copy_text s
      else if c = backslash \<and> d = CHR ''r'' then carriage_return # unescape_copy_text s
      else if c = backslash \<and> d = backslash then backslash # unescape_copy_text s
      else c # unescape_copy_text (d # s))"
| "unescape_copy_text s = s"

definition decode_field :: "string \<Rightarrow> string option" where
  "decode_field raw = (if raw = NULL_MARKER then None else Some (unescape_copy_text raw))"

section \<open>The block\<close>

text \<open>\<^verbatim>\<open>columns.index(name)\<close>, for a name that is there.\<close>

fun column_index :: "string \<Rightarrow> string list \<Rightarrow> nat" where
  "column_index name [] = 0"
| "column_index name (c # cs) = (if c = name then 0 else Suc (column_index name cs))"

definition parse_row ::
  "(string \<Rightarrow> json option) \<Rightarrow> string list \<Rightarrow> nat \<Rightarrow> string \<Rightarrow> archive_dump_parse_error + archived_object" where
  "parse_row loads columns row_number line =
     (let raw_fields = split_on tab line in
      if length raw_fields \<noteq> length columns then Inl (FieldCount row_number (length raw_fields))
      else
        (let fields = map decode_field raw_fields in
         case fields ! column_index ''id'' columns of
           None \<Rightarrow> Inl (NullColumn row_number ''id'')
         | Some object_id \<Rightarrow>
             (case fields ! column_index ''kind'' columns of
                None \<Rightarrow> Inl (NullColumn row_number ''kind'')
              | Some kind \<Rightarrow>
                  (case fields ! column_index ''body'' columns of
                     None \<Rightarrow> Inl (NullColumn row_number ''body'')
                   | Some raw_body \<Rightarrow>
                       (case loads raw_body of
                          None \<Rightarrow> Inl (BodyNotJson row_number object_id)
                        | Some (JObj body) \<Rightarrow>
                            Inr \<lparr>ao_object_id = object_id, ao_kind = kind, ao_body = body\<rparr>
                        | Some _ \<Rightarrow> Inl (BodyNotObject row_number object_id))))))"

fun parse_rows ::
  "(string \<Rightarrow> json option) \<Rightarrow> string list \<Rightarrow> nat \<Rightarrow> string list \<Rightarrow>
   archive_dump_parse_error + archived_object list" where
  "parse_rows loads columns row_number [] = Inr []"
| "parse_rows loads columns row_number (line # lines) =
     (case parse_row loads columns row_number line of
        Inl e \<Rightarrow> Inl e
      | Inr ob \<Rightarrow>
          (case parse_rows loads columns (row_number + 1) lines of
             Inl e \<Rightarrow> Inl e
           | Inr obs \<Rightarrow> Inr (ob # obs)))"

text \<open>
  The text of the block begins after one line end behind the header. A match of the header ends
  before a newline or at the end of the text, so where neither branch is taken the text is
  empty, and the search for the terminator may take its start for the begin of a line.
\<close>

definition after_line_end :: "string \<Rightarrow> string" where
  "after_line_end s =
     (if take 2 s = [carriage_return, line_feed] then drop 2 s
      else if take 1 s = [line_feed] then drop 1 s
      else s)"

definition before_line_end :: "string \<Rightarrow> string" where
  "before_line_end s =
     (if s \<noteq> [] \<and> butlast s \<noteq> [] \<and> last (butlast s) = carriage_return \<and> last s = line_feed then butlast (butlast s)
      else if s \<noteq> [] \<and> last s = line_feed then butlast s
      else s)"

definition parse_objects_copy_block ::
  "(string \<Rightarrow> json option) \<Rightarrow> string \<Rightarrow> archive_dump_parse_error + archived_object list" where
  "parse_objects_copy_block loads dump_text =
     (case find_header True dump_text of
        None \<Rightarrow> Inl NoCopyBlock
      | Some (group_text, rest) \<Rightarrow>
          (let columns = map strip (split_on (CHR '','') group_text);
               missing_columns = filter (\<lambda>c. c \<notin> set columns) REQUIRED_COLUMNS in
           if missing_columns \<noteq> [] then Inl (MissingColumns missing_columns)
           else
             (case before_terminator True (after_line_end rest) of
                None \<Rightarrow> Inl NoTerminator
              | Some raw_block \<Rightarrow>
                  (let block_text = before_line_end raw_block;
                       data_lines = (if block_text \<noteq> [] then split_on line_feed block_text else []) in
                   parse_rows loads columns 1 data_lines))))"

section \<open>Typed views\<close>

text \<open>\<^verbatim>\<open>body.get(key)\<close>: a missing key and JSON null give the same value.\<close>

definition require_string_field :: "archived_object \<Rightarrow> string \<Rightarrow> archive_dump_parse_error + string" where
  "require_string_field ob key =
     (case map_of (ao_body ob) key of
        Some (JStr s) \<Rightarrow> Inr s
      | _ \<Rightarrow> Inl (BadField (ao_kind ob) (ao_object_id ob) key))"

fun all_strings :: "json list \<Rightarrow> string list option" where
  "all_strings [] = Some []"
| "all_strings (JStr s # js) = map_option (\<lambda>ss. s # ss) (all_strings js)"
| "all_strings _ = None"

definition require_string_list_field ::
  "archived_object \<Rightarrow> string \<Rightarrow> archive_dump_parse_error + string list" where
  "require_string_list_field ob key =
     (case map_of (ao_body ob) key of
        None \<Rightarrow> Inr []
      | Some JNull \<Rightarrow> Inr []
      | Some (JArr items) \<Rightarrow>
          (case all_strings items of
             None \<Rightarrow> Inl (BadField (ao_kind ob) (ao_object_id ob) key)
           | Some ss \<Rightarrow> Inr ss)
      | Some _ \<Rightarrow> Inl (BadField (ao_kind ob) (ao_object_id ob) key))"

fun collect :: "('a \<Rightarrow> 'e + 'b) \<Rightarrow> 'a list \<Rightarrow> 'e + 'b list" where
  "collect f [] = Inr []"
| "collect f (x # xs) =
     (case f x of
        Inl e \<Rightarrow> Inl e
      | Inr y \<Rightarrow> (case collect f xs of Inl e \<Rightarrow> Inl e | Inr ys \<Rightarrow> Inr (y # ys)))"

definition of_kind :: "string \<Rightarrow> archived_object list \<Rightarrow> archived_object list" where
  "of_kind kind obs = filter (\<lambda>ob. ao_kind ob = kind) obs"

definition source_record_row_of :: "archived_object \<Rightarrow> archive_dump_parse_error + source_record_row" where
  "source_record_row_of ob =
     (case require_string_field ob ''title'' of
        Inl e \<Rightarrow> Inl e
      | Inr title \<Rightarrow> Inr \<lparr>sr_source_record_id = ao_object_id ob, sr_title = title\<rparr>)"

definition extract_source_records ::
  "archived_object list \<Rightarrow> archive_dump_parse_error + source_record_row list" where
  "extract_source_records obs = collect source_record_row_of (of_kind ''SourceRecord'' obs)"

definition evidence_anchor_row_of :: "archived_object \<Rightarrow> archive_dump_parse_error + evidence_anchor_row" where
  "evidence_anchor_row_of ob =
     (case require_string_field ob ''source_record_id'' of
        Inl e \<Rightarrow> Inl e
      | Inr source \<Rightarrow> Inr \<lparr>er_anchor_id = ao_object_id ob, er_source_record_id = source\<rparr>)"

definition extract_evidence_anchors ::
  "archived_object list \<Rightarrow> archive_dump_parse_error + evidence_anchor_row list" where
  "extract_evidence_anchors obs = collect evidence_anchor_row_of (of_kind ''EvidenceAnchor'' obs)"

definition claim_row_of :: "archived_object \<Rightarrow> archive_dump_parse_error + claim_row" where
  "claim_row_of ob =
     (case require_string_list_field ob ''evidence_relations'' of
        Inl e \<Rightarrow> Inl e
      | Inr evidence \<Rightarrow>
          (case require_string_list_field ob ''counterevidence_relations'' of
             Inl e \<Rightarrow> Inl e
           | Inr counterevidence \<Rightarrow>
               Inr \<lparr>cr_claim_id = ao_object_id ob, cr_evidence_relations = evidence,
                    cr_counterevidence_relations = counterevidence\<rparr>))"

definition extract_claims :: "archived_object list \<Rightarrow> archive_dump_parse_error + claim_row list" where
  "extract_claims obs = collect claim_row_of (of_kind ''Claim'' obs)"

end
