(* ===== verification/Archive_Text.thy ===== *)
theory Archive_Text
  imports Archive_Dump
begin

text \<open>
  What the reader of \<open>Archive_Dump\<close> is for: the text form of PostgreSQL's COPY, as its manual
  documents it, and the theorem that reading what COPY wrote gives back the rows.
\<close>

section \<open>What COPY writes\<close>

definition escape_char :: "char \<Rightarrow> string" where
  "escape_char c =
     (if c = tab then [backslash, CHR ''t'']
      else if c = line_feed then [backslash, CHR ''n'']
      else if c = carriage_return then [backslash, CHR ''r'']
      else if c = backslash then [backslash, backslash]
      else [c])"

definition copy_escape :: "string \<Rightarrow> string" where
  "copy_escape s = concat (map escape_char s)"

definition copy_field :: "string option \<Rightarrow> string" where
  "copy_field f = (case f of None \<Rightarrow> NULL_MARKER | Some s \<Rightarrow> copy_escape s)"

fun join_with :: "string \<Rightarrow> string list \<Rightarrow> string" where
  "join_with sep [] = []"
| "join_with sep [x] = x"
| "join_with sep (x # y # zs) = x @ sep @ join_with sep (y # zs)"

definition copy_line :: "string option list \<Rightarrow> string" where
  "copy_line row = join_with [tab] (map copy_field row)"

definition copy_rows :: "string option list list \<Rightarrow> string" where
  "copy_rows rows = concat (map (\<lambda>r. copy_line r @ [line_feed]) rows)"

definition copy_header :: "string \<Rightarrow> string list \<Rightarrow> string" where
  "copy_header schema columns =
     ''COPY'' @ '' '' @ schema @ ''.objects'' @ '' '' @ ''('' @ join_with '', '' columns @ '')'' @ '' '' @
     ''FROM'' @ '' '' @ ''stdin;''"

definition copy_block :: "string \<Rightarrow> string list \<Rightarrow> string option list list \<Rightarrow> string" where
  "copy_block schema columns rows =
     copy_header schema columns @ line_feed # copy_rows rows @ [backslash, CHR ''.'', line_feed]"

definition is_identifier :: "string \<Rightarrow> bool" where
  "is_identifier s = (s \<noteq> [] \<and> ident_start (hd s) \<and> list_all ident_char s)"

text \<open>No header of the table begins in \<open>pre\<close> where the text \<open>post\<close> follows.\<close>

fun quiet :: "bool \<Rightarrow> string \<Rightarrow> string \<Rightarrow> bool" where
  "quiet bol [] post = bol"
| "quiet bol (c # pre) post =
     ((bol \<longrightarrow> header_at (c # pre @ post) = None) \<and> quiet (c = line_feed) pre post)"

text \<open>The row that the table holds for an object.\<close>

definition row_holds ::
  "(string \<Rightarrow> json option) \<Rightarrow> string list \<Rightarrow> string option list \<Rightarrow> archived_object \<Rightarrow> bool" where
  "row_holds loads columns row ob =
     (length row = length columns \<and>
      row ! column_index ''id'' columns = Some (ao_object_id ob) \<and>
      row ! column_index ''kind'' columns = Some (ao_kind ob) \<and>
      (case row ! column_index ''body'' columns of
         None \<Rightarrow> False
       | Some raw \<Rightarrow> loads raw = Some (JObj (ao_body ob))))"

section \<open>Fields\<close>

lemma unescape_other: "c \<noteq> backslash \<Longrightarrow> unescape_copy_text (c # s) = c # unescape_copy_text s"
  by (cases s) auto

lemma copy_escape_Nil [simp]: "copy_escape [] = []"
  by (simp add: copy_escape_def)

lemma copy_escape_Cons: "copy_escape (c # s) = escape_char c @ copy_escape s"
  by (simp add: copy_escape_def)

lemma unescape_escape [simp]: "unescape_copy_text (copy_escape s) = s"
proof (induction s)
  case (Cons c s)
  consider "c = tab" | "c = line_feed" | "c = carriage_return" | "c = backslash"
    | "c \<noteq> tab" "c \<noteq> line_feed" "c \<noteq> carriage_return" "c \<noteq> backslash" by blast
  then show ?case
    by cases (simp_all add: copy_escape_Cons escape_char_def unescape_other Cons.IH)
qed simp

lemma escape_char_clean: "set (escape_char c) \<inter> {tab, line_feed, carriage_return} = {}"
  by (auto simp: escape_char_def)

lemma copy_escape_clean: "set (copy_escape s) \<inter> {tab, line_feed, carriage_return} = {}"
  using escape_char_clean by (fastforce simp: copy_escape_def)

lemma copy_field_clean: "set (copy_field f) \<inter> {tab, line_feed, carriage_return} = {}"
  using copy_escape_clean by (cases f) (auto simp: copy_field_def NULL_MARKER_def)

lemma copy_escape_head:
  "take 2 (copy_escape s) \<notin> {[backslash, CHR ''N''], [backslash, CHR ''.'']}"
proof (cases s)
  case (Cons c s')
  then show ?thesis by (cases "copy_escape s'") (auto simp: copy_escape_Cons escape_char_def)
qed simp

lemma decode_copy_field [simp]: "decode_field (copy_field f) = f"
proof (cases f)
  case (Some s)
  then show ?thesis
    using copy_escape_head [of s] by (auto simp: decode_field_def copy_field_def NULL_MARKER_def)
qed (simp add: decode_field_def copy_field_def)

section \<open>Lines\<close>

lemma split_on_clean: "c \<notin> set x \<Longrightarrow> split_on c x = [x]"
  by (induction x) auto

lemma split_on_sep: "c \<notin> set x \<Longrightarrow> split_on c (x @ c # y) = x # split_on c y"
  by (induction x) auto

lemma split_join: "xs \<noteq> [] \<Longrightarrow> \<forall>x \<in> set xs. c \<notin> set x \<Longrightarrow> split_on c (join_with [c] xs) = xs"
  by (induction "[c]" xs rule: join_with.induct) (auto simp: split_on_clean split_on_sep)

lemma set_join_with: "set (join_with sep xs) \<subseteq> set sep \<union> (\<Union>x \<in> set xs. set x)"
  by (induction sep xs rule: join_with.induct) auto

lemma copy_line_clean: "line_feed \<notin> set (copy_line row)" "carriage_return \<notin> set (copy_line row)"
proof -
  have "set (copy_line row) \<subseteq> {tab} \<union> (\<Union>f \<in> set row. set (copy_field f))"
    using set_join_with [of "[tab]" "map copy_field row"] by (simp add: copy_line_def)
  with copy_field_clean show "line_feed \<notin> set (copy_line row)" "carriage_return \<notin> set (copy_line row)"
    by fastforce+
qed

lemma split_copy_line: "row \<noteq> [] \<Longrightarrow> split_on tab (copy_line row) = map copy_field row"
  using copy_field_clean unfolding copy_line_def by (intro split_join) auto

lemma take2_not_dot: "take 2 f \<noteq> [backslash, CHR ''.''] \<Longrightarrow> x \<in> {tab, line_feed} \<Longrightarrow>
    take 2 (f @ x # s) \<noteq> [backslash, CHR ''.'']"
  by (cases f; cases "tl f") auto

lemma copy_field_head: "take 2 (copy_field f) \<noteq> [backslash, CHR ''.'']"
  using copy_escape_head by (cases f) (auto simp: copy_field_def NULL_MARKER_def)

lemma copy_line_head: "take 2 (copy_line row @ line_feed # s) \<noteq> [backslash, CHR ''.'']"
proof (cases row)
  case (Cons f fs)
  then obtain x t where "copy_line row @ line_feed # s = copy_field f @ x # t" "x \<in> {tab, line_feed}"
    by (cases fs) (auto simp: copy_line_def)
  then show ?thesis using take2_not_dot [OF copy_field_head, of x f t] by argo
qed (simp add: copy_line_def)

lemma terminator_take: "terminator_at s \<Longrightarrow> take 2 s = [backslash, CHR ''.'']"
  by (auto simp: terminator_at_def expect_def numeral_2_eq_2 split: if_splits)

lemma not_terminator: "\<not> terminator_at (copy_line row @ line_feed # s)"
  using terminator_take copy_line_head [of row s] by blast

lemma before_terminator_line:
  "line_feed \<notin> set l \<Longrightarrow> \<not> (b \<and> terminator_at (l @ line_feed # s)) \<Longrightarrow>
   before_terminator b (l @ line_feed # s) = map_option (\<lambda>t. l @ line_feed # t) (before_terminator True s)"
proof (induction l arbitrary: b)
  case Nil
  then show ?case by (cases "before_terminator True s") auto
next
  case (Cons c l)
  have ne: "c \<noteq> line_feed" and nl: "line_feed \<notin> set l" using Cons.prems(1) by auto
  have "before_terminator b ((c # l) @ line_feed # s) =
        map_option (\<lambda>t. c # t) (before_terminator (c = line_feed) (l @ line_feed # s))"
    using Cons.prems(2) by auto
  also have "\<dots> = map_option (\<lambda>t. (c # l) @ line_feed # t) (before_terminator True s)"
    using Cons.IH [OF nl, of False] ne by (cases "before_terminator True s") auto
  finally show ?case .
qed

lemma before_terminator_rows:
  "before_terminator True (copy_rows rows @ [backslash, CHR ''.'', line_feed] @ post) = Some (copy_rows rows)"
proof (induction rows)
  case Nil
  then show ?case by (simp add: copy_rows_def terminator_at_def expect_def at_line_end_def)
next
  case (Cons r rows)
  have "copy_rows (r # rows) @ [backslash, CHR ''.'', line_feed] @ post =
        copy_line r @ line_feed # copy_rows rows @ [backslash, CHR ''.'', line_feed] @ post"
    by (simp add: copy_rows_def)
  then show ?case
    using before_terminator_line [OF copy_line_clean(1), of True r] not_terminator [of r] Cons.IH
    by (simp add: copy_rows_def)
qed

text \<open>The block without its last line end is the lines, with a newline between them.\<close>

lemma copy_rows_join:
  "rows \<noteq> [] \<Longrightarrow> copy_rows rows = join_with [line_feed] (map copy_line rows) @ [line_feed]"
  by (induction rows rule: induct_list012) (auto simp: copy_rows_def)

lemma last_join: "xs \<noteq> [] \<Longrightarrow> c \<notin> set sep \<Longrightarrow> \<forall>x \<in> set xs. c \<notin> set x \<Longrightarrow> c \<notin> set (join_with sep xs)"
  using set_join_with [of sep xs] by auto

lemma before_line_end_rows:
  "rows \<noteq> [] \<Longrightarrow> before_line_end (copy_rows rows) = join_with [line_feed] (map copy_line rows)"
proof -
  assume ne: "rows \<noteq> []"
  let ?b = "join_with [line_feed] (map copy_line rows)"
  have "carriage_return \<notin> set ?b"
    using ne copy_line_clean(2) by (intro last_join) auto
  then have "?b = [] \<or> last ?b \<noteq> carriage_return" by (metis last_in_set)
  then show ?thesis by (auto simp: copy_rows_join [OF ne] before_line_end_def butlast_append)
qed

lemma split_lines:
  "rows \<noteq> [] \<Longrightarrow> split_on line_feed (join_with [line_feed] (map copy_line rows)) = map copy_line rows"
  using copy_line_clean(1) by (intro split_join) auto

section \<open>The header\<close>

lemma space_not_ident: "is_space c \<Longrightarrow> \<not> ident_char c"
  by (auto simp: is_space_def ident_char_def ident_start_def is_digit_def Let_def)

lemma expect_append [simp]: "expect p (p @ s) = Some s"
  by (simp add: expect_def)

lemma spaces_stop: "s \<noteq> [] \<Longrightarrow> \<not> is_space (hd s) \<Longrightarrow> spaces s = s"
  by (cases s) (auto simp: spaces_def)

lemma spaces_blank: "spaces ('' '' @ s) = spaces s"
  by (simp add: spaces_def is_space_def)

lemma spaces1_blank: "spaces1 ('' '' @ s) = Some (spaces s)"
  by (simp add: spaces1_def spaces_def is_space_def)

lemma dropWhile_all: "list_all P x \<Longrightarrow> dropWhile P (x @ s) = dropWhile P s"
  by (induction x) auto

lemma schema_name_ident:
  "is_identifier x \<Longrightarrow> s \<noteq> [] \<Longrightarrow> \<not> ident_char (hd s) \<Longrightarrow> schema_name (x @ s) = Some s"
  by (cases s) (auto simp: schema_name_def is_identifier_def dropWhile_all)

lemma find_after: "find P xs = None \<Longrightarrow> find P (xs @ ys) = find P ys"
  by (induction xs) (auto split: if_splits)

text \<open>A line that is not blank keeps the greedy \<^verbatim>\<open>\s*\<close> of the header on the header's line.\<close>

lemma line_end_here:
  assumes nl: "line_feed \<notin> set l" and nb: "\<exists>c \<in> set l. \<not> is_space c"
  shows "line_end (line_feed # l @ line_feed # s) = Some (line_feed # l @ line_feed # s)"
proof -
  let ?t = "line_feed # l @ line_feed # s"
  let ?n = "length (takeWhile is_space ?t)"
  have far: "\<not> at_line_end (drop k ?t)" if k: "0 < k" "k \<le> ?n" for k
  proof -
    obtain j where j: "k = Suc j" using k(1) by (cases k) auto
    have "takeWhile is_space (l @ line_feed # s) = takeWhile is_space l"
      using nb by (metis takeWhile_append1)
    then have "j \<le> length (takeWhile is_space l)" using k(2) j by (simp split: if_splits)
    moreover have "length (takeWhile is_space l) < length l"
      using nb by (metis length_takeWhile_le linorder_le_less_linear nat_less_le set_takeWhileD takeWhile_eq_all_conv
          takeWhile_eq_take take_all_iff)
    ultimately have "j < length l" by simp
    then have "drop k ?t = drop j l @ line_feed # s" "drop j l \<noteq> []" "hd (drop j l) \<in> set l"
      using j by (auto simp: hd_drop_conv_nth)
    then show ?thesis using nl by (cases "drop j l") (auto simp: at_line_end_def)
  qed
  have "find (\<lambda>k. at_line_end (drop k ?t)) (rev [1..<Suc ?n]) = None"
    unfolding find_None_iff
  proof
    assume "\<exists>k. k \<in> set (rev [1..<Suc ?n]) \<and> at_line_end (drop k ?t)"
    then obtain k where "k \<in> set (rev [1..<Suc ?n])" "at_line_end (drop k ?t)" by blast
    moreover from this(1) have "0 < k" "k \<le> ?n" by (simp_all del: takeWhile.simps upt_Suc)
    ultimately show False using far by blast
  qed
  moreover have "rev [0..<Suc ?n] = rev [1..<Suc ?n] @ [0]"
    by (simp add: upt_conv_Cons del: upt_Suc)
  ultimately have "find (\<lambda>k. at_line_end (drop k ?t)) (rev [0..<Suc ?n]) = Some 0"
    by (simp add: find_after at_line_end_def del: upt_Suc)
  then show ?thesis by (simp only: line_end_def) simp
qed

text \<open>What follows the header's line: a line that is not blank, a row or the terminator.\<close>

definition solid :: "string \<Rightarrow> bool" where
  "solid s = (\<exists>l t. s = l @ line_feed # t \<and> line_feed \<notin> set l \<and> (\<exists>c \<in> set l. \<not> is_space c))"

lemma line_end_solid: "solid s \<Longrightarrow> line_end (line_feed # s) = Some (line_feed # s)"
  unfolding solid_def using line_end_here by blast

lemma join_with_clean: "list_all is_identifier columns \<Longrightarrow> c \<notin> {CHR '','', CHR '' ''} \<Longrightarrow> \<not> ident_char c \<Longrightarrow>
    c \<notin> set (join_with '', '' columns)"
  using set_join_with [of "'', ''" columns]
  by (fastforce simp: list_all_iff is_identifier_def)

lemma header_at_block:
  assumes schema: "is_identifier schema" and columns: "list_all is_identifier columns" and solid: "solid s"
  shows "header_at (copy_header schema columns @ line_feed # s) = Some (join_with '', '' columns, line_feed # s)"
proof -
  let ?j = "join_with '', '' columns"
  have dot: "schema_name (schema @ ''.objects'' @ r) = Some (''.objects'' @ r)" for r
    by (rule schema_name_ident [OF schema]) (simp_all add: ident_char_def ident_start_def is_digit_def)
  have sp: "spaces (schema @ r) = schema @ r" for r
    using schema space_not_ident by (intro spaces_stop) (auto simp: is_identifier_def ident_char_def hd_append)
  have paren: "spaces (''('' @ r) = ''('' @ r" "spaces (''FROM'' @ r) = ''FROM'' @ r"
      "spaces (''stdin;'' @ r) = ''stdin;'' @ r" for r
    by (simp_all add: spaces_def is_space_def)
  have "CHR '')'' \<notin> set ?j"
    using columns by (rule join_with_clean) (simp_all add: ident_char_def ident_start_def is_digit_def)
  then have tw: "takeWhile (\<lambda>c. c \<noteq> CHR '')'') (?j @ '')'' @ r) = ?j" for r
    by (simp add: takeWhile_tail takeWhile_append)
  have dl: "drop (length ?j) (?j @ r) = r" for r by simp
  show ?thesis
    unfolding header_at_def copy_header_def append_assoc expect_append Option.bind.bind_lunit spaces1_blank
      sp dot spaces_blank paren Let_def tw dl line_end_solid [OF solid]
    by simp
qed

lemma strip_ident: "is_identifier x \<Longrightarrow> strip x = x \<and> strip (CHR '' '' # x) = x"
proof -
  assume x: "is_identifier x"
  then have "x \<noteq> []" "\<not> is_space (hd x)" "\<not> is_space (last x)"
    using space_not_ident by (auto simp: is_identifier_def ident_char_def list_all_iff dest: last_in_set)
  then have "dropWhile is_space x = x" "dropWhile is_space (rev x) = rev x"
    by (simp_all add: dropWhile_eq_self_iff hd_rev)
  then show ?thesis by (simp add: strip_def is_space_def)
qed

lemma header_columns:
  "columns \<noteq> [] \<Longrightarrow> list_all is_identifier columns \<Longrightarrow>
   map strip (split_on (CHR '','') (join_with '', '' columns)) = columns"
proof (induction columns rule: induct_list012)
  case (2 x)
  then have "CHR '','' \<notin> set x"
    by (auto simp: is_identifier_def list_all_iff ident_char_def ident_start_def is_digit_def)
  then show ?case using 2 strip_ident by (simp add: split_on_clean)
next
  case (3 x y zs)
  then have c: "CHR '','' \<notin> set x"
    by (auto simp: is_identifier_def list_all_iff ident_char_def ident_start_def is_digit_def)
  obtain z ws where w: "split_on (CHR '','') (join_with '', '' (y # zs)) = z # ws"
    by (cases "split_on (CHR '','') (join_with '', '' (y # zs))") (use 3 in auto)
  have "strip z = y" "map strip ws = zs" using 3 w by auto
  moreover have "strip (CHR '' '' # z) = strip z" by (simp add: strip_def is_space_def)
  ultimately show ?case using 3 c w strip_ident by (simp add: split_on_sep)
qed simp

text \<open>The search passes over a quiet text and finds the header behind it.\<close>

lemma find_header_quiet:
  "quiet bol pre post \<Longrightarrow> header_at post = Some m \<Longrightarrow> find_header bol (pre @ post) = Some m"
proof (induction bol pre post rule: quiet.induct)
  case (1 bol post)
  then show ?case by (cases post) simp_all
qed simp

section \<open>Rows\<close>

lemma index_in: "x \<in> set xs \<Longrightarrow> column_index x xs < length xs"
  by (induction xs) auto

lemma parse_row_copy:
  assumes req: "set REQUIRED_COLUMNS \<subseteq> set columns" and row: "row_holds loads columns row ob"
  shows "parse_row loads columns n (copy_line row) = Inr ob"
proof -
  have len: "length row = length columns" and ne: "row \<noteq> []"
    using req row by (auto simp: row_holds_def REQUIRED_COLUMNS_def)
  have ix: "column_index k columns < length row" if "k \<in> set REQUIRED_COLUMNS" for k
    using that req index_in len by fastforce
  have "map decode_field (map copy_field row) = row" by (simp add: map_idI)
  then show ?thesis
    using row len unfolding parse_row_def split_copy_line [OF ne] row_holds_def Let_def
    by (auto split: option.splits)
qed

lemma parse_rows_copy:
  assumes req: "set REQUIRED_COLUMNS \<subseteq> set columns"
  shows "list_all2 (row_holds loads columns) rows obs \<Longrightarrow>
         parse_rows loads columns n (map copy_line rows) = Inr obs"
proof (induction rows obs arbitrary: n rule: list_all2_induct)
  case (Cons row rows ob obs)
  then show ?case using parse_row_copy [OF req] by simp
qed simp

text \<open>A row of the table is never blank, because blank text is not JSON.\<close>

lemma copy_escape_blank: "list_all is_space (copy_escape s) \<Longrightarrow> list_all is_space s"
proof (induction s)
  case (Cons c s)
  then show ?case
    by (auto simp: copy_escape_Cons escape_char_def is_space_def split: if_splits)
qed simp

lemma join_with_member: "x \<in> set xs \<Longrightarrow> set x \<subseteq> set (join_with sep xs)"
  by (induction sep xs rule: join_with.induct) auto

lemma row_not_blank:
  assumes req: "set REQUIRED_COLUMNS \<subseteq> set columns" and row: "row_holds loads columns row ob"
    and blank: "\<And>s. list_all is_space s \<Longrightarrow> loads s = None"
  shows "\<exists>c \<in> set (copy_line row). \<not> is_space c"
proof (rule ccontr)
  assume a: "\<not> ?thesis"
  let ?i = "column_index ''body'' columns"
  obtain raw where raw: "row ! ?i = Some raw" and l: "loads raw = Some (JObj (ao_body ob))"
    using row by (auto simp: row_holds_def split: option.splits)
  have "?i < length row" using req row index_in by (auto simp: row_holds_def REQUIRED_COLUMNS_def)
  then have "Some raw \<in> set row" using raw nth_mem by metis
  then have "copy_escape raw \<in> set (map copy_field row)" by (force simp: copy_field_def)
  then have "set (copy_escape raw) \<subseteq> set (copy_line row)"
    unfolding copy_line_def by (rule join_with_member)
  with a have "list_all is_space (copy_escape raw)" by (auto simp: list_all_iff)
  with blank copy_escape_blank l show False by fastforce
qed

lemma rows_solid:
  assumes req: "set REQUIRED_COLUMNS \<subseteq> set columns"
    and rows: "list_all2 (row_holds loads columns) rows obs"
    and blank: "\<And>s. list_all is_space s \<Longrightarrow> loads s = None"
  shows "solid (copy_rows rows @ [backslash, CHR ''.'', line_feed] @ post)"
proof (cases rows)
  case Nil
  have "copy_rows rows @ [backslash, CHR ''.'', line_feed] @ post = [backslash, CHR ''.''] @ line_feed # post"
    by (simp add: Nil copy_rows_def)
  moreover have "line_feed \<notin> set [backslash, CHR ''.'']" "\<not> is_space backslash" by (simp_all add: is_space_def)
  ultimately show ?thesis unfolding solid_def by (metis list.set_intros(1))
next
  case (Cons r rs)
  then obtain ob where "row_holds loads columns r ob" using rows by (auto simp: list_all2_Cons1)
  note nb = row_not_blank [OF req this blank]
  have "copy_rows rows @ [backslash, CHR ''.'', line_feed] @ post =
        copy_line r @ line_feed # copy_rows rs @ [backslash, CHR ''.'', line_feed] @ post"
    by (simp add: Cons copy_rows_def)
  then show ?thesis unfolding solid_def using nb copy_line_clean(1) by blast
qed

lemma parse_copy_block:
  assumes schema: "is_identifier schema" and columns: "list_all is_identifier columns"
    and req: "set REQUIRED_COLUMNS \<subseteq> set columns"
    and rows: "list_all2 (row_holds loads columns) rows obs"
    and blank: "\<And>s. list_all is_space s \<Longrightarrow> loads s = None"
    and pre: "quiet True pre (copy_block schema columns rows @ post)"
  shows "parse_objects_copy_block loads (pre @ copy_block schema columns rows @ post) = Inr obs"
proof -
  let ?s = "copy_rows rows @ [backslash, CHR ''.'', line_feed] @ post"
  have b: "copy_block schema columns rows @ post = copy_header schema columns @ line_feed # ?s"
    by (simp add: copy_block_def)
  have h: "find_header True (pre @ copy_block schema columns rows @ post) =
           Some (join_with '', '' columns, line_feed # ?s)"
    using pre unfolding b
    by (rule find_header_quiet) (rule header_at_block [OF schema columns rows_solid [OF req rows blank]])
  have ne: "columns \<noteq> []" using req by (auto simp: REQUIRED_COLUMNS_def)
  have none: "filter (\<lambda>c. c \<notin> set columns) REQUIRED_COLUMNS = []"
    using req by (simp add: filter_empty_conv subset_iff)
  have after: "after_line_end (line_feed # ?s) = ?s" by (simp add: after_line_end_def)
  have lines: "(if before_line_end (copy_rows rows) \<noteq> [] then split_on line_feed (before_line_end (copy_rows rows)) else [])
      = map copy_line rows"
  proof (cases "rows = []")
    case False
    then obtain r rs ob where r: "rows = r # rs" "row_holds loads columns r ob"
      using rows by (cases rows) (auto simp: list_all2_Cons1)
    have "copy_line r \<noteq> []" using row_not_blank [OF req r(2) blank] by auto
    then have "join_with [line_feed] (map copy_line rows) \<noteq> []" unfolding r by (cases rs) auto
    then show ?thesis using False by (simp add: before_line_end_rows split_lines)
  qed (simp add: copy_rows_def before_line_end_def)
  show ?thesis
    unfolding parse_objects_copy_block_def h option.case prod.case header_columns [OF ne columns] Let_def none after
      before_terminator_rows lines
    using parse_rows_copy [OF req rows] by simp
qed

text \<open>
  The bound of the theorem is sharp: where the first row is blank, the \<^verbatim>\<open>\s*\<close> of the header takes
  it, and a row that no JSON reader would accept is passed over.
\<close>

lemma blank_first_row_is_skipped:
  "parse_objects_copy_block (\<lambda>_. None)
     (copy_header ''s'' [''id'', ''kind'', ''body''] @ [line_feed, tab, tab, line_feed, backslash, CHR ''.'', line_feed]) = Inr []"
  by code_simp

end
