(* ===== verification/Archive_Audits.thy ===== *)
theory Archive_Audits
  imports Archive_Dump "HOL-Library.Product_Lexorder"
begin

text \<open>
  The two audits of committed archive dumps. The anchoring audit,
  \<^verbatim>\<open>domain/anchoring_integrity.py\<close> with the reports of \<^verbatim>\<open>anchoring_integrity_report.py\<close> and
  the service \<^verbatim>\<open>services/anchoring_integrity/service.py\<close>, checks the declared hash of every
  dump and then the references between the objects of each. The presence audit,
  \<^verbatim>\<open>domain/artifact_presence.py\<close> with its report and service, looks for the bytes that the
  anchors of one dump were taken from.

  Files are the argument \<open>files\<close>, which gives the bytes of a path or \<open>None\<close>; \<open>decode\<close> is the
  decoding of UTF-8, \<open>loads\<close> is \<^verbatim>\<open>json.loads\<close>. The batch is the descriptor as parsed; \<open>locate\<close>
  gives the path a declared path stands for, and \<open>normal\<close> is the normal form \<^verbatim>\<open>pathlib\<close> keeps
  paths in.
\<close>

section \<open>The integrity gate\<close>

datatype archive_audit_error =
    ArchiveDumpParse archive_dump_parse_error
  | DumpIntegrityGate string string string string
  | ArchiveInput string
  | AmbiguousArtifactStoreReference "string list" "string list"

datatype dump_anchor_status = DumpAnchorOk | DumpAnchorMismatch

record dump_declaration =
  dd_schema_name :: string
  dd_path :: string
  dd_declared_sha256 :: string

record dump_anchor_check_result =
  dc_schema_name :: string
  dc_path :: string
  dc_declared_sha256 :: string
  dc_actual_sha256 :: string
  dc_status :: dump_anchor_status

definition check_dump_anchor :: "string \<Rightarrow> string \<Rightarrow> string \<Rightarrow> string \<Rightarrow> dump_anchor_check_result" where
  "check_dump_anchor schema path declared_sha256 actual_sha256 =
     \<lparr>dc_schema_name = schema, dc_path = path, dc_declared_sha256 = declared_sha256,
      dc_actual_sha256 = actual_sha256,
      dc_status = (if declared_sha256 = actual_sha256 then DumpAnchorOk else DumpAnchorMismatch)\<rparr>"

fun first_dump_mismatch :: "dump_anchor_check_result list \<Rightarrow> archive_audit_error + unit" where
  "first_dump_mismatch [] = Inr ()"
| "first_dump_mismatch (r # rs) =
     (if dc_status r = DumpAnchorMismatch
      then Inl (DumpIntegrityGate (dc_schema_name r) (dc_path r) (dc_declared_sha256 r) (dc_actual_sha256 r))
      else first_dump_mismatch rs)"

definition check_and_gate_dumps :: "dump_anchor_check_result list \<Rightarrow> archive_audit_error + unit" where
  "check_and_gate_dumps results = first_dump_mismatch (sort_key dc_schema_name results)"

section \<open>References and coverage\<close>

datatype anchor_link_status = AnchorResolved | AnchorDangling

datatype claim_reference_status = ClaimReferenceResolved | ClaimReferenceDangling

datatype source_coverage_status = SourceAnchored | SourceUnanchored

datatype anchor_coverage_status = AnchorReferenced | AnchorUnreferenced

record anchor_link_verdict =
  al_anchor_id :: string
  al_source_record_id :: string
  al_status :: anchor_link_status

text \<open>The kind of a relation is \<open>''evidence''\<close> or \<open>''counterevidence''\<close>.\<close>

record claim_reference_verdict =
  rv_claim_id :: string
  rv_anchor_id :: string
  rv_relation_kind :: string
  rv_status :: claim_reference_status

record source_coverage_verdict =
  cs_source_record_id :: string
  cs_title :: string
  cs_status :: source_coverage_status

record anchor_coverage_verdict =
  ca_anchor_id :: string
  ca_status :: anchor_coverage_status

definition check_anchor_links :: "evidence_anchor_row list \<Rightarrow> string list \<Rightarrow> anchor_link_verdict list" where
  "check_anchor_links anchors source_record_ids =
     sort_key al_anchor_id
       (map (\<lambda>a. \<lparr>al_anchor_id = er_anchor_id a, al_source_record_id = er_source_record_id a,
                  al_status = (if er_source_record_id a \<in> set source_record_ids then AnchorResolved else AnchorDangling)\<rparr>)
         anchors)"

definition reference_verdict :: "string list \<Rightarrow> string \<Rightarrow> string \<Rightarrow> string \<Rightarrow> claim_reference_verdict" where
  "reference_verdict anchor_ids claim_id relation_kind anchor_id =
     \<lparr>rv_claim_id = claim_id, rv_anchor_id = anchor_id, rv_relation_kind = relation_kind,
      rv_status = (if anchor_id \<in> set anchor_ids then ClaimReferenceResolved else ClaimReferenceDangling)\<rparr>"

definition reference_key :: "claim_reference_verdict \<Rightarrow> string \<times> string \<times> string" where
  "reference_key v = (rv_claim_id v, rv_anchor_id v, rv_relation_kind v)"

definition check_claim_references :: "claim_row list \<Rightarrow> string list \<Rightarrow> claim_reference_verdict list" where
  "check_claim_references claims anchor_ids =
     sort_key reference_key
       (concat (map (\<lambda>c. map (reference_verdict anchor_ids (cr_claim_id c) ''evidence'') (cr_evidence_relations c) @
                         map (reference_verdict anchor_ids (cr_claim_id c) ''counterevidence'')
                           (cr_counterevidence_relations c)) claims))"

definition source_coverage ::
  "source_record_row list \<Rightarrow> evidence_anchor_row list \<Rightarrow> source_coverage_verdict list" where
  "source_coverage sources anchors =
     sort_key cs_source_record_id
       (map (\<lambda>s. \<lparr>cs_source_record_id = sr_source_record_id s, cs_title = sr_title s,
                  cs_status = (if sr_source_record_id s \<in> set (map er_source_record_id anchors)
                               then SourceAnchored else SourceUnanchored)\<rparr>)
         sources)"

definition anchor_coverage :: "evidence_anchor_row list \<Rightarrow> claim_row list \<Rightarrow> anchor_coverage_verdict list" where
  "anchor_coverage anchors claims =
     (let referenced = concat (map (\<lambda>c. cr_evidence_relations c @ cr_counterevidence_relations c) claims) in
      sort_key ca_anchor_id
        (map (\<lambda>a. \<lparr>ca_anchor_id = er_anchor_id a,
                   ca_status = (if er_anchor_id a \<in> set referenced then AnchorReferenced else AnchorUnreferenced)\<rparr>)
          anchors))"

section \<open>The anchoring report\<close>

record dump_file_anchor =
  fa_schema_name :: string
  fa_path :: string
  fa_declared_sha256 :: string
  fa_actual_sha256 :: string
  fa_matched :: bool

text \<open>
  One dump's report; \<open>da_anchor_dangling\<close> and \<open>da_claim_reference_dangling\<close> are its violations,
  \<open>da_source_unanchored\<close> and \<open>da_anchor_unreferenced\<close> its observations.
\<close>

record dump_anchoring_report =
  da_schema_name :: string
  da_file_anchor :: dump_file_anchor
  da_total_objects :: nat
  da_counts_by_kind :: "(string \<times> nat) list"
  da_anchor_links :: "anchor_link_verdict list"
  da_claim_references :: "claim_reference_verdict list"
  da_source_coverage :: "source_coverage_verdict list"
  da_anchor_coverage :: "anchor_coverage_verdict list"
  da_anchor_dangling :: nat
  da_claim_reference_dangling :: nat
  da_source_unanchored :: nat
  da_anchor_unreferenced :: nat

record anchoring_integrity_report =
  ir_batch_id :: string
  ir_observation_kind :: string
  ir_audit_target :: string
  ir_dumps :: "dump_anchoring_report list"

text \<open>\<^verbatim>\<open>dict(sorted(Counter(obj.kind for obj in objects).items()))\<close>.\<close>

definition object_counts_by_kind :: "archived_object list \<Rightarrow> (string \<times> nat) list" where
  "object_counts_by_kind obs =
     map (\<lambda>k. (k, count_of (\<lambda>ob. ao_kind ob = k) obs)) (sorted_set (map ao_kind obs))"

definition build_dump_anchoring_report ::
  "string \<Rightarrow> dump_anchor_check_result \<Rightarrow> archived_object list \<Rightarrow> anchor_link_verdict list \<Rightarrow>
   claim_reference_verdict list \<Rightarrow> source_coverage_verdict list \<Rightarrow> anchor_coverage_verdict list \<Rightarrow>
   dump_anchoring_report" where
  "build_dump_anchoring_report schema file_anchor obs links references sources anchors =
     (let ordered_links = sort_key al_anchor_id links;
          ordered_references = sort_key reference_key references;
          ordered_sources = sort_key cs_source_record_id sources;
          ordered_anchors = sort_key ca_anchor_id anchors in
      \<lparr>da_schema_name = schema,
       da_file_anchor =
         \<lparr>fa_schema_name = dc_schema_name file_anchor, fa_path = dc_path file_anchor,
          fa_declared_sha256 = dc_declared_sha256 file_anchor, fa_actual_sha256 = dc_actual_sha256 file_anchor,
          fa_matched = (dc_status file_anchor = DumpAnchorOk)\<rparr>,
       da_total_objects = length obs,
       da_counts_by_kind = object_counts_by_kind obs,
       da_anchor_links = ordered_links,
       da_claim_references = ordered_references,
       da_source_coverage = ordered_sources,
       da_anchor_coverage = ordered_anchors,
       da_anchor_dangling = count_of (\<lambda>v. al_status v = AnchorDangling) ordered_links,
       da_claim_reference_dangling = count_of (\<lambda>v. rv_status v = ClaimReferenceDangling) ordered_references,
       da_source_unanchored = count_of (\<lambda>v. cs_status v = SourceUnanchored) ordered_sources,
       da_anchor_unreferenced = count_of (\<lambda>v. ca_status v = AnchorUnreferenced) ordered_anchors\<rparr>)"

section \<open>The anchoring service\<close>

record anchoring_batch =
  ab_batch_id :: string
  ab_observation_kind :: string
  ab_audit_target :: string
  ab_dumps :: "dump_declaration list"

definition ordered_dumps :: "anchoring_batch \<Rightarrow> dump_declaration list" where
  "ordered_dumps batch = sort_key dd_schema_name (ab_dumps batch)"

text \<open>The dictionaries of the service: a later entry with the same key replaces an earlier one.\<close>

definition dict_of :: "(string \<times> 'a) list \<Rightarrow> (string \<rightharpoonup> 'a)" where
  "dict_of kvs = map_of (rev kvs)"

definition resolved_paths :: "(string \<Rightarrow> string) \<Rightarrow> dump_declaration list \<Rightarrow> (string \<rightharpoonup> string)" where
  "resolved_paths locate ds = dict_of (map (\<lambda>d. (dd_schema_name d, locate (dd_path d))) ds)"

text \<open>The loop that reads the dumps: the text of each, and the result of its check.\<close>

fun read_dumps ::
  "(string \<rightharpoonup> bytes) \<Rightarrow> (bytes \<Rightarrow> string option) \<Rightarrow> (string \<rightharpoonup> string) \<Rightarrow> dump_declaration list \<Rightarrow>
   archive_audit_error + (string \<times> dump_anchor_check_result) list" where
  "read_dumps files decode paths [] = Inr []"
| "read_dumps files decode paths (d # ds) =
     (let path = the (paths (dd_schema_name d)) in
      case files path of
        None \<Rightarrow> Inl (ArchiveInput path)
      | Some raw \<Rightarrow>
          (case decode raw of
             None \<Rightarrow> Inl (ArchiveInput path)
           | Some dump_text \<Rightarrow>
               (case read_dumps files decode paths ds of
                  Inl e \<Rightarrow> Inl e
                | Inr rest \<Rightarrow>
                    Inr ((dump_text,
                          check_dump_anchor (dd_schema_name d) path (dd_declared_sha256 d) (hash_bytes raw)) # rest))))"

definition parsed_views ::
  "archived_object list \<Rightarrow> archive_dump_parse_error + source_record_row list \<times> evidence_anchor_row list \<times> claim_row list" where
  "parsed_views obs =
     (case extract_source_records obs of
        Inl e \<Rightarrow> Inl e
      | Inr sources \<Rightarrow>
          (case extract_evidence_anchors obs of
             Inl e \<Rightarrow> Inl e
           | Inr anchors \<Rightarrow>
               (case extract_claims obs of
                  Inl e \<Rightarrow> Inl e
                | Inr claims \<Rightarrow> Inr (sources, anchors, claims))))"

definition report_dump ::
  "(string \<Rightarrow> json option) \<Rightarrow> (string \<rightharpoonup> string) \<Rightarrow> (string \<rightharpoonup> dump_anchor_check_result) \<Rightarrow> dump_declaration \<Rightarrow>
   archive_audit_error + dump_anchoring_report" where
  "report_dump loads dump_text_by_schema gate_results_by_schema d =
     (case parse_objects_copy_block loads (the (dump_text_by_schema (dd_schema_name d))) of
        Inl e \<Rightarrow> Inl (ArchiveDumpParse e)
      | Inr obs \<Rightarrow>
          (case parsed_views obs of
             Inl e \<Rightarrow> Inl (ArchiveDumpParse e)
           | Inr (sources, anchors, claims) \<Rightarrow>
               Inr (build_dump_anchoring_report (dd_schema_name d)
                      (the (gate_results_by_schema (dd_schema_name d))) obs
                      (check_anchor_links anchors (map sr_source_record_id sources))
                      (check_claim_references claims (map er_anchor_id anchors))
                      (source_coverage sources anchors)
                      (anchor_coverage anchors claims))))"

definition build_anchoring_report ::
  "(string \<Rightarrow> json option) \<Rightarrow> (string \<rightharpoonup> bytes) \<Rightarrow> (bytes \<Rightarrow> string option) \<Rightarrow> (string \<Rightarrow> string) \<Rightarrow>
   anchoring_batch \<Rightarrow> archive_audit_error + anchoring_integrity_report" where
  "build_anchoring_report loads files decode locate batch =
     (let ordered = ordered_dumps batch in
      case read_dumps files decode (resolved_paths locate ordered) ordered of
        Inl e \<Rightarrow> Inl e
      | Inr reads \<Rightarrow>
          (case check_and_gate_dumps (map snd reads) of
             Inl e \<Rightarrow> Inl e
           | Inr _ \<Rightarrow>
               (case collect
                       (report_dump loads
                          (dict_of (map (\<lambda>(t, r). (dc_schema_name r, t)) reads))
                          (dict_of (map (\<lambda>(t, r). (dc_schema_name r, r)) reads))) ordered of
                  Inl e \<Rightarrow> Inl e
                | Inr dumps \<Rightarrow>
                    Inr \<lparr>ir_batch_id = ab_batch_id batch, ir_observation_kind = ab_observation_kind batch,
                         ir_audit_target = ab_audit_target batch,
                         ir_dumps = sort_key da_schema_name dumps\<rparr>)))"

section \<open>The presence audit\<close>

record run_manifest_store_reference_row =
  ms_run_id :: string
  ms_status :: string
  ms_root :: "string option"

record artifact_anchor_row =
  aa_anchor_id :: string
  aa_snapshot_hash :: string

datatype artifact_presence_status =
    ArtifactPresent
  | ArtifactMissing
  | ArtifactHashMismatch
  | StoreReferenceNotRecorded

record artifact_presence_verdict =
  av_anchor_id :: string
  av_expected_hash :: string
  av_blob_path :: "string option"
  av_status :: artifact_presence_status

definition store_reference_row ::
  "archived_object \<Rightarrow> archive_dump_parse_error + run_manifest_store_reference_row" where
  "store_reference_row ob =
     (let bad = (\<lambda>key. Inl (BadField ''RunManifest'' (ao_object_id ob) key)) in
      case map_of (ao_body ob) ''artifact_store_reference'' of
        None \<Rightarrow> Inr \<lparr>ms_run_id = ao_object_id ob, ms_status = ''not_recorded'', ms_root = None\<rparr>
      | Some JNull \<Rightarrow> Inr \<lparr>ms_run_id = ao_object_id ob, ms_status = ''not_recorded'', ms_root = None\<rparr>
      | Some (JObj raw_reference) \<Rightarrow>
          (case map_of raw_reference ''status'' of
             Some (JStr status) \<Rightarrow>
               (if status \<notin> {''recorded'', ''not_recorded''} then bad ''artifact_store_reference.status''
                else
                  (case map_of raw_reference ''root'' of
                     Some (JStr path) \<Rightarrow>
                       (if status = ''recorded''
                        then Inr \<lparr>ms_run_id = ao_object_id ob, ms_status = status, ms_root = Some path\<rparr>
                        else bad ''artifact_store_reference'')
                   | r \<Rightarrow>
                       (if r \<notin> {None, Some JNull} then bad ''artifact_store_reference.root''
                        else if status = ''recorded'' then bad ''artifact_store_reference''
                        else Inr \<lparr>ms_run_id = ao_object_id ob, ms_status = status, ms_root = None\<rparr>)))
           | _ \<Rightarrow> bad ''artifact_store_reference.status'')
      | Some _ \<Rightarrow> bad ''artifact_store_reference'')"

definition extract_run_manifest_store_references ::
  "archived_object list \<Rightarrow> archive_dump_parse_error + run_manifest_store_reference_row list" where
  "extract_run_manifest_store_references obs = collect store_reference_row (of_kind ''RunManifest'' obs)"

text \<open>The anchors with a hash, and the ids of those without one.\<close>

fun split_anchors ::
  "archived_object list \<Rightarrow> archive_dump_parse_error + artifact_anchor_row list \<times> string list" where
  "split_anchors [] = Inr ([], [])"
| "split_anchors (ob # obs) =
     (case map_of (ao_body ob) ''snapshot_hash'' of
        Some (JStr snapshot_hash) \<Rightarrow>
          (case split_anchors obs of
             Inl e \<Rightarrow> Inl e
           | Inr (with_hash, without_hash) \<Rightarrow>
               Inr (\<lparr>aa_anchor_id = ao_object_id ob, aa_snapshot_hash = snapshot_hash\<rparr> # with_hash, without_hash))
      | h \<Rightarrow>
          (if h \<notin> {None, Some JNull} then Inl (BadField ''EvidenceAnchor'' (ao_object_id ob) ''snapshot_hash'')
           else
             (case split_anchors obs of
                Inl e \<Rightarrow> Inl e
              | Inr (with_hash, without_hash) \<Rightarrow> Inr (with_hash, ao_object_id ob # without_hash))))"

definition extract_artifact_anchors ::
  "archived_object list \<Rightarrow> archive_dump_parse_error + artifact_anchor_row list \<times> string list" where
  "extract_artifact_anchors obs = split_anchors (of_kind ''EvidenceAnchor'' obs)"

fun somes :: "'a option list \<Rightarrow> 'a list" where
  "somes [] = []"
| "somes (None # xs) = somes xs"
| "somes (Some x # xs) = x # somes xs"

definition resolve_dump_store_root ::
  "run_manifest_store_reference_row list \<Rightarrow> archive_audit_error + string option" where
  "resolve_dump_store_root manifests =
     (if manifests = [] then Inr None
      else
        (let statuses = sorted_set (map ms_status manifests) in
         if length statuses > 1 then Inl (AmbiguousArtifactStoreReference statuses [])
         else if hd statuses = ''not_recorded'' then Inr None
         else
           (let recorded_roots = sorted_set (somes (map ms_root manifests)) in
            if length recorded_roots = 1 then Inr (Some (hd recorded_roots))
            else Inl (AmbiguousArtifactStoreReference [] recorded_roots))))"

text \<open>\<^verbatim>\<open>p / q\<close> for texts of paths, before the normal form is taken.\<close>

definition path_join :: "string \<Rightarrow> string \<Rightarrow> string" where
  "path_join p q = (if q \<noteq> [] \<and> hd q = CHR ''/'' then q else p @ CHR ''/'' # q)"

definition derive_blob_path :: "(string \<Rightarrow> string) \<Rightarrow> string \<Rightarrow> string \<Rightarrow> string" where
  "derive_blob_path normal store hash =
     (let hex_digest = drop (length ''sha256:'') hash in
      normal (path_join (path_join (path_join store (take 2 hex_digest)) (take 2 (drop 2 hex_digest))) hex_digest))"

definition check_artifact_presence ::
  "artifact_anchor_row \<Rightarrow> string option \<Rightarrow> string option \<Rightarrow> bool \<Rightarrow> string option \<Rightarrow> artifact_presence_verdict" where
  "check_artifact_presence anchor store_root blob_path blob_exists actual_hash =
     (let verdict = (\<lambda>path status. \<lparr>av_anchor_id = aa_anchor_id anchor, av_expected_hash = aa_snapshot_hash anchor,
                                    av_blob_path = path, av_status = status\<rparr>) in
      if store_root = None then verdict None StoreReferenceNotRecorded
      else if \<not> blob_exists then verdict blob_path ArtifactMissing
      else if actual_hash \<noteq> Some (aa_snapshot_hash anchor) then verdict blob_path ArtifactHashMismatch
      else verdict blob_path ArtifactPresent)"

record artifact_presence_report =
  ap_dump_path :: string
  ap_store_root :: "string option"
  ap_run_manifest_ids :: "string list"
  ap_anchors :: "artifact_presence_verdict list"
  ap_anchors_without_snapshot_hash :: "string list"
  ap_artifact_missing :: nat
  ap_artifact_hash_mismatch :: nat
  ap_store_reference_not_recorded :: nat

definition build_artifact_presence_report ::
  "string \<Rightarrow> string option \<Rightarrow> string list \<Rightarrow> artifact_presence_verdict list \<Rightarrow> string list \<Rightarrow>
   artifact_presence_report" where
  "build_artifact_presence_report dump_path store_root run_manifest_ids verdicts without_hash =
     (let ordered_verdicts = sort_key av_anchor_id verdicts in
      \<lparr>ap_dump_path = dump_path, ap_store_root = store_root,
       ap_run_manifest_ids = sort run_manifest_ids,
       ap_anchors = ordered_verdicts,
       ap_anchors_without_snapshot_hash = sort without_hash,
       ap_artifact_missing = count_of (\<lambda>v. av_status v = ArtifactMissing) ordered_verdicts,
       ap_artifact_hash_mismatch = count_of (\<lambda>v. av_status v = ArtifactHashMismatch) ordered_verdicts,
       ap_store_reference_not_recorded =
         count_of (\<lambda>v. av_status v = StoreReferenceNotRecorded) ordered_verdicts\<rparr>)"

definition look_for_artifact ::
  "(string \<rightharpoonup> bytes) \<Rightarrow> (string \<Rightarrow> string) \<Rightarrow> string option \<Rightarrow> artifact_anchor_row \<Rightarrow> artifact_presence_verdict" where
  "look_for_artifact files normal store_root anchor =
     (case store_root of
        None \<Rightarrow> check_artifact_presence anchor None None False None
      | Some store \<Rightarrow>
          (let blob_path = derive_blob_path normal store (aa_snapshot_hash anchor) in
           check_artifact_presence anchor (Some store) (Some blob_path) (files blob_path \<noteq> None)
             (map_option hash_bytes (files blob_path))))"

definition build_presence_report ::
  "(string \<Rightarrow> json option) \<Rightarrow> (string \<rightharpoonup> bytes) \<Rightarrow> (bytes \<Rightarrow> string option) \<Rightarrow> (string \<Rightarrow> string) \<Rightarrow> string \<Rightarrow>
   archive_audit_error + artifact_presence_report" where
  "build_presence_report loads files decode normal dump_path =
     (case files dump_path of
        None \<Rightarrow> Inl (ArchiveInput dump_path)
      | Some raw \<Rightarrow>
      (case decode raw of
         None \<Rightarrow> Inl (ArchiveInput dump_path)
       | Some dump_text \<Rightarrow>
      (case parse_objects_copy_block loads dump_text of
         Inl e \<Rightarrow> Inl (ArchiveDumpParse e)
       | Inr obs \<Rightarrow>
      (case extract_run_manifest_store_references obs of
         Inl e \<Rightarrow> Inl (ArchiveDumpParse e)
       | Inr manifests \<Rightarrow>
      (case extract_artifact_anchors obs of
         Inl e \<Rightarrow> Inl (ArchiveDumpParse e)
       | Inr (with_hash, without_hash) \<Rightarrow>
      (case resolve_dump_store_root manifests of
         Inl e \<Rightarrow> Inl e
       | Inr store_root \<Rightarrow>
           Inr (build_artifact_presence_report dump_path store_root (map ms_run_id manifests)
                  (map (look_for_artifact files normal store_root) with_hash) without_hash)))))))"

end
