(* ===== verification/Archive_Properties.thy ===== *)
theory Archive_Properties
  imports Archive_Text Archive_Audits
begin

text \<open>
  What the reader of archive dumps and the two audits over it guarantee: a dump that COPY wrote
  reads back as the objects of its rows; an anchoring report exists only where every dump has
  its declared hash, and counts exactly the references that lead nowhere; a presence report
  calls a blob present exactly where a file with the anchor's hash is at the derived path.
\<close>

section \<open>Lists of results\<close>

lemma collect_Inr: "collect f xs = Inr ys \<longleftrightarrow> list_all2 (\<lambda>x y. f x = Inr y) xs ys"
proof (induction xs arbitrary: ys)
  case (Cons x xs)
  show ?case
  proof (cases "f x")
    case (Inr y)
    then show ?thesis by (cases "collect f xs") (auto simp: list_all2_Cons1 Cons.IH [symmetric])
  qed (simp add: list_all2_Cons1)
qed auto

lemma list_all2_map_eq: "list_all2 (\<lambda>x y. P x y) xs ys \<Longrightarrow> (\<And>x y. P x y \<Longrightarrow> g y = h x) \<Longrightarrow> map g ys = map h xs"
  by (induction rule: list_all2_induct) auto

lemma count_of_sorted [simp]: "count_of P (sort_key f xs) = count_of P xs"
  by (simp add: count_of_def filter_sort)

lemma count_of_map: "count_of P (map f xs) = length (filter (\<lambda>x. P (f x)) xs)"
  by (simp add: count_of_def filter_map o_def)

lemma dict_of_in: "distinct (map fst kvs) \<Longrightarrow> (k, v) \<in> set kvs \<Longrightarrow> dict_of kvs k = Some v"
  using map_of_is_SomeI [of "rev kvs" k v] by (simp add: dict_of_def rev_map [symmetric])

section \<open>What a dump's objects say\<close>

definition archived :: "archived_object list \<Rightarrow> string \<Rightarrow> string \<Rightarrow> bool" where
  "archived obs kind i = (\<exists>ob \<in> set obs. ao_kind ob = kind \<and> ao_object_id ob = i)"

definition text_at :: "archived_object \<Rightarrow> string \<Rightarrow> string" where
  "text_at ob key = (case map_of (ao_body ob) key of Some (JStr s) \<Rightarrow> s | _ \<Rightarrow> [])"

definition texts_at :: "archived_object \<Rightarrow> string \<Rightarrow> string list" where
  "texts_at ob key =
     (case map_of (ao_body ob) key of
        Some (JArr js) \<Rightarrow> (case all_strings js of Some ss \<Rightarrow> ss | None \<Rightarrow> [])
      | _ \<Rightarrow> [])"

definition cited_anchors :: "archived_object list \<Rightarrow> string list" where
  "cited_anchors obs =
     concat (map (\<lambda>ob. texts_at ob ''evidence_relations'' @ texts_at ob ''counterevidence_relations'')
       (of_kind ''Claim'' obs))"

text \<open>The four counts of a report, read off the objects.\<close>

definition counts_match :: "archived_object list \<Rightarrow> dump_anchoring_report \<Rightarrow> bool" where
  "counts_match obs r =
     (da_total_objects r = length obs \<and>
      da_anchor_dangling r =
        length (filter (\<lambda>ob. \<not> archived obs ''SourceRecord'' (text_at ob ''source_record_id''))
          (of_kind ''EvidenceAnchor'' obs)) \<and>
      da_claim_reference_dangling r =
        length (filter (\<lambda>i. \<not> archived obs ''EvidenceAnchor'' i) (cited_anchors obs)) \<and>
      da_source_unanchored r =
        length (filter (\<lambda>ob. ao_object_id ob \<notin>
            set (map (\<lambda>a. text_at a ''source_record_id'') (of_kind ''EvidenceAnchor'' obs)))
          (of_kind ''SourceRecord'' obs)) \<and>
      da_anchor_unreferenced r =
        length (filter (\<lambda>ob. ao_object_id ob \<notin> set (cited_anchors obs)) (of_kind ''EvidenceAnchor'' obs)))"

text \<open>A dump whose bytes have the declared hash, and the report of its objects.\<close>

definition audited ::
  "(string \<Rightarrow> json option) \<Rightarrow> (string \<rightharpoonup> bytes) \<Rightarrow> (bytes \<Rightarrow> string option) \<Rightarrow> (string \<Rightarrow> string) \<Rightarrow>
   dump_declaration \<Rightarrow> dump_anchoring_report \<Rightarrow> bool" where
  "audited loads files decode locate d r =
     (\<exists>raw dump_text obs.
        files (locate (dd_path d)) = Some raw \<and> hash_bytes raw = dd_declared_sha256 d \<and>
        decode raw = Some dump_text \<and> parse_objects_copy_block loads dump_text = Inr obs \<and>
        da_schema_name r = dd_schema_name d \<and> fa_matched (da_file_anchor r) \<and> counts_match obs r)"

lemma require_string_Inr: "require_string_field ob key = Inr s \<Longrightarrow> s = text_at ob key"
  by (auto simp: require_string_field_def text_at_def split: option.splits json.splits)

lemma require_strings_Inr: "require_string_list_field ob key = Inr ss \<Longrightarrow> ss = texts_at ob key"
  by (auto simp: require_string_list_field_def texts_at_def split: option.splits json.splits)

lemma source_records_ids:
  "extract_source_records obs = Inr rs \<Longrightarrow> map sr_source_record_id rs = map ao_object_id (of_kind ''SourceRecord'' obs)"
  unfolding extract_source_records_def collect_Inr
  by (erule list_all2_map_eq) (auto simp: source_record_row_of_def split: sum.splits)

lemma evidence_anchors_ids:
  "extract_evidence_anchors obs = Inr rs \<Longrightarrow> map er_anchor_id rs = map ao_object_id (of_kind ''EvidenceAnchor'' obs)"
  unfolding extract_evidence_anchors_def collect_Inr
  by (erule list_all2_map_eq) (auto simp: evidence_anchor_row_of_def split: sum.splits)

lemma evidence_anchors_sources:
  "extract_evidence_anchors obs = Inr rs \<Longrightarrow>
   map er_source_record_id rs = map (\<lambda>ob. text_at ob ''source_record_id'') (of_kind ''EvidenceAnchor'' obs)"
  unfolding extract_evidence_anchors_def collect_Inr
  by (erule list_all2_map_eq) (auto simp: evidence_anchor_row_of_def dest: require_string_Inr split: sum.splits)

lemma claims_relations:
  "extract_claims obs = Inr rs \<Longrightarrow>
   map (\<lambda>c. cr_evidence_relations c @ cr_counterevidence_relations c) rs =
   map (\<lambda>ob. texts_at ob ''evidence_relations'' @ texts_at ob ''counterevidence_relations'') (of_kind ''Claim'' obs)"
  unfolding extract_claims_def collect_Inr
  by (erule list_all2_map_eq) (auto simp: claim_row_of_def split: sum.splits; metis require_strings_Inr)

section \<open>Counting verdicts\<close>

lemma filter_map_length: "map f xs = map g ys \<Longrightarrow>
    length (filter (\<lambda>x. P (f x)) xs) = length (filter (\<lambda>y. P (g y)) ys)"
proof -
  assume "map f xs = map g ys"
  then have "length (filter P (map f xs)) = length (filter P (map g ys))" by simp
  then show ?thesis by (simp add: filter_map o_def)
qed

lemma dangling_links:
  "count_of (\<lambda>v. al_status v = AnchorDangling) (check_anchor_links anchors ids) =
   length (filter (\<lambda>a. er_source_record_id a \<notin> set ids) anchors)"
  by (simp add: check_anchor_links_def count_of_map)

lemma dangling_references:
  "count_of (\<lambda>v. rv_status v = ClaimReferenceDangling) (check_claim_references claims ids) =
   length (filter (\<lambda>i. i \<notin> set ids)
     (concat (map (\<lambda>c. cr_evidence_relations c @ cr_counterevidence_relations c) claims)))"
  unfolding check_claim_references_def count_of_sorted
  by (induction claims) (auto simp: count_of_def filter_map o_def reference_verdict_def)

lemma unanchored_sources:
  "count_of (\<lambda>v. cs_status v = SourceUnanchored) (source_coverage sources anchors) =
   length (filter (\<lambda>s. sr_source_record_id s \<notin> set (map er_source_record_id anchors)) sources)"
  by (simp add: source_coverage_def count_of_map)

lemma unreferenced_anchors:
  "count_of (\<lambda>v. ca_status v = AnchorUnreferenced) (anchor_coverage anchors claims) =
   length (filter (\<lambda>a. er_anchor_id a \<notin>
     set (concat (map (\<lambda>c. cr_evidence_relations c @ cr_counterevidence_relations c) claims))) anchors)"
  by (simp add: anchor_coverage_def count_of_map Let_def)

lemma archived_ids: "archived obs kind i \<longleftrightarrow> i \<in> set (map ao_object_id (of_kind kind obs))"
  by (auto simp: archived_def of_kind_def)

lemma report_counts:
  assumes "extract_source_records obs = Inr sources"
    and "extract_evidence_anchors obs = Inr anchors"
    and "extract_claims obs = Inr claims"
  shows "counts_match obs
     (build_dump_anchoring_report schema fa obs
        (check_anchor_links anchors (map sr_source_record_id sources))
        (check_claim_references claims (map er_anchor_id anchors))
        (source_coverage sources anchors) (anchor_coverage anchors claims))"
  unfolding counts_match_def cited_anchors_def build_dump_anchoring_report_def Let_def
    dump_anchoring_report.simps count_of_sorted dangling_links dangling_references unanchored_sources
    unreferenced_anchors archived_ids source_records_ids [OF assms(1)] evidence_anchors_ids [OF assms(2)]
    evidence_anchors_sources [OF assms(2)] claims_relations [OF assms(3)]
  by (intro conjI refl filter_map_length [OF evidence_anchors_sources [OF assms(2)]]
      filter_map_length [OF source_records_ids [OF assms(1)]]
      filter_map_length [OF evidence_anchors_ids [OF assms(2)]])

section \<open>The anchoring service\<close>

lemma gate_passes: "check_and_gate_dumps rs = Inr u \<longleftrightarrow> (\<forall>r \<in> set rs. dc_status r = DumpAnchorOk)"
proof -
  have "first_dump_mismatch xs = Inr u \<longleftrightarrow> (\<forall>r \<in> set xs. dc_status r = DumpAnchorOk)" for xs
  proof (induction xs)
    case (Cons x xs)
    then show ?case by (cases "dc_status x") simp_all
  qed simp
  then show ?thesis by (simp add: check_and_gate_dumps_def)
qed

definition read_ok ::
  "(string \<rightharpoonup> bytes) \<Rightarrow> (bytes \<Rightarrow> string option) \<Rightarrow> (string \<rightharpoonup> string) \<Rightarrow> dump_declaration \<Rightarrow>
   string \<times> dump_anchor_check_result \<Rightarrow> bool" where
  "read_ok files decode paths d tr =
     (\<exists>raw. files (the (paths (dd_schema_name d))) = Some raw \<and> decode raw = Some (fst tr) \<and>
        snd tr = check_dump_anchor (dd_schema_name d) (the (paths (dd_schema_name d)))
                   (dd_declared_sha256 d) (hash_bytes raw))"

lemma read_dumps_Inr:
  "read_dumps files decode paths ds = Inr reads \<Longrightarrow> list_all2 (read_ok files decode paths) ds reads"
proof (induction ds arbitrary: reads)
  case (Cons d ds)
  then obtain raw t rest where
    "files (the (paths (dd_schema_name d))) = Some raw" "decode raw = Some t"
    "read_dumps files decode paths ds = Inr rest"
    "reads = (t, check_dump_anchor (dd_schema_name d) (the (paths (dd_schema_name d)))
                (dd_declared_sha256 d) (hash_bytes raw)) # rest"
    by (auto simp: Let_def split: option.splits sum.splits)
  then show ?case using Cons.IH by (simp add: read_ok_def)
qed simp

lemma report_dump_Inr:
  assumes "report_dump loads texts gates d = Inr r"
  obtains obs where "parse_objects_copy_block loads (the (texts (dd_schema_name d))) = Inr obs"
    "da_schema_name r = dd_schema_name d"
    "fa_matched (da_file_anchor r) = (dc_status (the (gates (dd_schema_name d))) = DumpAnchorOk)"
    "counts_match obs r"
proof -
  from assms obtain obs sources anchors claims where
    p: "parse_objects_copy_block loads (the (texts (dd_schema_name d))) = Inr obs"
    and v: "parsed_views obs = Inr (sources, anchors, claims)"
    and r: "r = build_dump_anchoring_report (dd_schema_name d) (the (gates (dd_schema_name d))) obs
                  (check_anchor_links anchors (map sr_source_record_id sources))
                  (check_claim_references claims (map er_anchor_id anchors))
                  (source_coverage sources anchors) (anchor_coverage anchors claims)"
    by (auto simp: report_dump_def split: sum.splits prod.splits)
  have e: "extract_source_records obs = Inr sources" "extract_evidence_anchors obs = Inr anchors"
    "extract_claims obs = Inr claims"
    using v by (auto simp: parsed_views_def split: sum.splits)
  show ?thesis
    by (rule that [OF p]) (use report_counts [OF e] in \<open>simp_all add: r build_dump_anchoring_report_def Let_def\<close>)
qed

lemma reads_keys:
  "list_all2 (read_ok files decode paths) ds reads \<Longrightarrow>
   map (\<lambda>tr. dc_schema_name (snd tr)) reads = map dd_schema_name ds"
  by (erule list_all2_map_eq) (auto simp: read_ok_def check_dump_anchor_def)

lemma build_anchoring_report_Inr:
  assumes "build_anchoring_report loads files decode locate batch = Inr rep"
  obtains reads dumps where
    "list_all2 (read_ok files decode (resolved_paths locate (ordered_dumps batch))) (ordered_dumps batch) reads"
    "\<forall>tr \<in> set reads. dc_status (snd tr) = DumpAnchorOk"
    "list_all2 (\<lambda>d r. report_dump loads (dict_of (map (\<lambda>(t, r). (dc_schema_name r, t)) reads))
                       (dict_of (map (\<lambda>(t, r). (dc_schema_name r, r)) reads)) d = Inr r)
       (ordered_dumps batch) dumps"
    "ir_dumps rep = sort_key da_schema_name dumps"
  using assms
  by (auto simp: build_anchoring_report_def Let_def collect_Inr gate_passes split: sum.splits
      intro: that read_dumps_Inr)

lemma audited_one:
  assumes dist: "distinct (map dd_schema_name ds)"
    and reads: "list_all2 (read_ok files decode (resolved_paths locate ds)) ds reads"
    and ok: "\<forall>tr \<in> set reads. dc_status (snd tr) = DumpAnchorOk"
    and i: "i < length ds"
    and r: "report_dump loads (dict_of (map (\<lambda>(t, r). (dc_schema_name r, t)) reads))
              (dict_of (map (\<lambda>(t, r). (dc_schema_name r, r)) reads)) (ds ! i) = Inr r"
  shows "audited loads files decode locate (ds ! i) r"
proof -
  let ?d = "ds ! i" and ?tr = "reads ! i"
  have len: "i < length reads" using reads i by (simp add: list_all2_lengthD)
  have keys: "distinct (map (\<lambda>tr. dc_schema_name (snd tr)) reads)"
    using reads_keys [OF reads] dist by simp
  have path: "resolved_paths locate ds (dd_schema_name ?d) = Some (locate (dd_path ?d))"
    unfolding resolved_paths_def using dist i by (intro dict_of_in) (auto simp: o_def)
  have rd: "read_ok files decode (resolved_paths locate ds) ?d ?tr" using reads i by (rule list_all2_nthD)
  obtain raw where raw: "files (locate (dd_path ?d)) = Some raw" and dec: "decode raw = Some (fst ?tr)"
    and res: "snd ?tr = check_dump_anchor (dd_schema_name ?d) (locate (dd_path ?d)) (dd_declared_sha256 ?d) (hash_bytes raw)"
    using rd path by (auto simp: read_ok_def)
  have st: "dc_status (snd ?tr) = DumpAnchorOk" using ok len by simp
  have name: "dc_schema_name (snd ?tr) = dd_schema_name ?d" by (simp add: res check_dump_anchor_def)
  have h: "hash_bytes raw = dd_declared_sha256 ?d"
    using st by (simp add: res check_dump_anchor_def split: if_splits)
  have t: "dict_of (map (\<lambda>(t, r). (dc_schema_name r, t)) reads) (dd_schema_name ?d) = Some (fst ?tr)"
    using keys len name by (intro dict_of_in) (auto simp: o_def case_prod_beta intro!: image_eqI [of _ _ ?tr])
  have g: "dict_of (map (\<lambda>(t, r). (dc_schema_name r, r)) reads) (dd_schema_name ?d) = Some (snd ?tr)"
    using keys len name by (intro dict_of_in) (auto simp: o_def case_prod_beta intro!: image_eqI [of _ _ ?tr])
  from report_dump_Inr [OF r] obtain obs where
    "parse_objects_copy_block loads (fst ?tr) = Inr obs" "da_schema_name r = dd_schema_name ?d"
    "fa_matched (da_file_anchor r)" "counts_match obs r"
    unfolding t g using st by (metis option.sel)
  then show ?thesis unfolding audited_def using raw h dec by blast
qed

lemma distinct_sort_key: "distinct (map f (sort_key f xs)) = distinct (map f xs)"
  by (rule mset_eq_imp_distinct_iff) simp

text \<open>
  A report of the anchoring audit is exact: where the declared schema names are distinct, it has one
  entry per declared dump, in the order of the names; the bytes of each dump have the declared
  hash, and its counts are those of the objects in its text. So a dump that was tampered with is
  never reported on.
\<close>

lemma anchoring_report_is_exact:
  assumes run: "build_anchoring_report loads files decode locate batch = Inr rep"
    and dist: "distinct (map dd_schema_name (ab_dumps batch))"
  shows "list_all2 (audited loads files decode locate) (ordered_dumps batch) (ir_dumps rep)"
proof -
  let ?ds = "ordered_dumps batch"
  obtain reads dumps where
    rd: "list_all2 (read_ok files decode (resolved_paths locate ?ds)) ?ds reads"
    and ok: "\<forall>tr \<in> set reads. dc_status (snd tr) = DumpAnchorOk"
    and du: "list_all2 (\<lambda>d r. report_dump loads (dict_of (map (\<lambda>(t, r). (dc_schema_name r, t)) reads))
                       (dict_of (map (\<lambda>(t, r). (dc_schema_name r, r)) reads)) d = Inr r) ?ds dumps"
    and ir: "ir_dumps rep = sort_key da_schema_name dumps"
    by (rule build_anchoring_report_Inr [OF run])
  have di: "distinct (map dd_schema_name ?ds)" using dist by (simp add: ordered_dumps_def distinct_sort_key)
  have a: "list_all2 (audited loads files decode locate) ?ds dumps"
  proof (rule list_all2_all_nthI)
    show "length ?ds = length dumps" using du by (rule list_all2_lengthD)
    show "audited loads files decode locate (?ds ! i) (dumps ! i)" if "i < length ?ds" for i
      by (rule audited_one [OF di rd ok that list_all2_nthD [OF du that]])
  qed
  have "map da_schema_name dumps = map dd_schema_name ?ds"
    using a by (rule list_all2_map_eq) (auto simp: audited_def)
  then have "sorted (map da_schema_name dumps)" by (simp add: ordered_dumps_def)
  then have "ir_dumps rep = dumps" unfolding ir by (rule sort_key_id_if_sorted)
  with a show ?thesis by simp
qed

text \<open>Where two dumps declare one schema name, the file of the first is never read.\<close>

lemma same_schema_reads_the_later_path:
  "dd_schema_name d = dd_schema_name d' \<Longrightarrow>
   resolved_paths locate [d, d'] (dd_schema_name d) = Some (locate (dd_path d'))"
  by (simp add: resolved_paths_def dict_of_def)

section \<open>The presence audit\<close>

lemma present_iff:
  "av_status (look_for_artifact files normal store_root a) = ArtifactPresent \<longleftrightarrow>
   (\<exists>store raw. store_root = Some store \<and> files (derive_blob_path normal store (aa_snapshot_hash a)) = Some raw \<and>
      hash_bytes raw = aa_snapshot_hash a)"
  by (auto simp: look_for_artifact_def check_artifact_presence_def Let_def split: option.splits)

lemma missing_iff:
  "av_status (look_for_artifact files normal store_root a) = ArtifactMissing \<longleftrightarrow>
   (\<exists>store. store_root = Some store \<and> files (derive_blob_path normal store (aa_snapshot_hash a)) = None)"
  by (auto simp: look_for_artifact_def check_artifact_presence_def Let_def split: option.splits)

lemma unknown_iff:
  "av_status (look_for_artifact files normal store_root a) = StoreReferenceNotRecorded \<longleftrightarrow> store_root = None"
  by (auto simp: look_for_artifact_def check_artifact_presence_def Let_def split: option.splits)

lemma resolved_root:
  assumes "resolve_dump_store_root manifests = Inr (Some store)"
  shows "manifests \<noteq> [] \<and> (\<forall>m \<in> set manifests. ms_root m \<in> {None, Some store}) \<and> (\<exists>m \<in> set manifests. ms_root m = Some store)"
proof -
  have so: "set (somes xs) = {x. Some x \<in> set xs}" for xs :: "string option list"
    by (induction xs rule: somes.induct) auto
  let ?R = "sorted_set (somes (map ms_root manifests))"
  have r: "manifests \<noteq> []" "length ?R = 1" "store = hd ?R"
    using assms by (auto simp: resolve_dump_store_root_def Let_def split: if_splits)
  from r(2,3) have "?R = [store]" by (cases ?R) auto
  then have "set ?R = {store}" by simp
  then have "{x. Some x \<in> ms_root ` set manifests} = {store}" by (simp add: sorted_set_def so)
  then have e: "Some x \<in> ms_root ` set manifests \<longleftrightarrow> x = store" for x by blast
  have "ms_root m \<in> {None, Some store}" if "m \<in> set manifests" for m
  proof (cases "ms_root m")
    case (Some x)
    then have "Some x \<in> ms_root ` set manifests" using that by (metis image_eqI)
    with Some show ?thesis using e by simp
  qed simp
  moreover from e [of store] have "\<exists>m \<in> set manifests. ms_root m = Some store" by (auto simp: image_iff)
  ultimately show ?thesis using r(1) by blast
qed

text \<open>
  A presence report says exactly what the files show: an anchor is present where a file with its
  hash is at the path its hash gives below the recorded root, missing where no file is there, and
  where no root is recorded every anchor is an observation and none a violation.
\<close>

lemma presence_report_is_exact:
  assumes "build_presence_report loads files decode normal dump_path = Inr rep"
  shows "\<exists>anchors. mset (ap_anchors rep) = mset (map (look_for_artifact files normal (ap_store_root rep)) anchors) \<and>
    ap_artifact_missing rep = length (filter (\<lambda>a. \<exists>store. ap_store_root rep = Some store \<and>
       files (derive_blob_path normal store (aa_snapshot_hash a)) = None) anchors) \<and>
    ap_artifact_hash_mismatch rep = length (filter (\<lambda>a. \<exists>store raw. ap_store_root rep = Some store \<and>
       files (derive_blob_path normal store (aa_snapshot_hash a)) = Some raw \<and> hash_bytes raw \<noteq> aa_snapshot_hash a) anchors) \<and>
    ap_store_reference_not_recorded rep = (if ap_store_root rep = None then length anchors else 0)"
proof -
  obtain obs anchors manifests root without where "extract_run_manifest_store_references obs = Inr manifests"
    "extract_artifact_anchors obs = Inr (anchors, without)" "resolve_dump_store_root manifests = Inr root"
    and rep: "rep = build_artifact_presence_report dump_path root (map ms_run_id manifests)
            (map (look_for_artifact files normal root) anchors) without"
    using assms by (auto simp: build_presence_report_def split: option.splits sum.splits prod.splits)
  have mis: "av_status (look_for_artifact files normal root a) = ArtifactHashMismatch \<longleftrightarrow>
      (\<exists>store raw. root = Some store \<and> files (derive_blob_path normal store (aa_snapshot_hash a)) = Some raw \<and>
         hash_bytes raw \<noteq> aa_snapshot_hash a)" for a
    by (auto simp: look_for_artifact_def check_artifact_presence_def Let_def split: option.splits)
  have root: "ap_store_root rep = root" by (simp add: rep build_artifact_presence_report_def Let_def)
  show ?thesis
    unfolding root
    by (intro exI [of _ anchors])
      (simp add: rep build_artifact_presence_report_def Let_def count_of_map mis missing_iff unknown_iff)
qed

end
