(* ===== verification/Spec2Isabelle.thy ===== *)
theory Spec2Isabelle
  imports MRR_Prelude Lifecycles Stdlib Identity Hashing Repositories Database Durable_Stores Key_Ring Federation Event_Log Object_Store
    Unit_Of_Work Claim_Ceiling Independence Impact_Graph Service_Base Claim_Service Claim_Properties
    Governed_Objects Governance_Services Governance_Properties Addressing
    Obligation_Service Obligation_Properties Agreement Support_Audit
    Iso_Time Release_Service Release_Properties Event_Sourcing Journaled_Calls Stored_Types
    Signed_Contracts Contract_Samples Capability_Registry Task_Bundle_Service Task_Bundle_Properties
    Transfer_Service Transfer_Properties Correction_Service Correction_Properties Correction_Notifications
    Notification_Properties Notification_Sending Projection_Service Projection_Properties
    Evidence_Services Evidence_Properties Source_Verifier Source_Properties
    Numeric_Verifier Numeric_Properties
    Archive_Dump Archive_Text Archive_Audits Archive_Properties
begin

text \<open>
  A verification of the control plane of the Meridian Research Runtime.

  The runtime keeps research objects (claims, protocols, task bundles, corrections and so on)
  as numbered revisions in an append-only table, connects them by typed edges, and journals
  every change as an event in a hash chain; services change the objects through lifecycles
  whose gates the program enforces. Practices exchange signed messages through a federation
  boundary. The theories follow the code.

  Foundations:

  \<^item> \<open>MRR_Prelude\<close>: JSON values and dictionaries, the exceptions, and programs as
    functions from a state to an exception or a result and a state. \<open>Stdlib\<close>: SHA-256 and
    base64, which the code takes from Python's library; \<open>Iso_Time\<close>: the dates of the bodies.
  \<^item> \<open>Lifecycles\<close> (\<^verbatim>\<open>packages/domain/mrr/domain/lifecycles.py\<close>): the \<^verbatim>\<open>StateMachine\<close>
    class and all fifteen machines; what every enforced history of some of them satisfies.
  \<^item> \<open>Identity\<close> (\<^verbatim>\<open>identity.py\<close>), \<open>Hashing\<close> (\<^verbatim>\<open>packages/crypto\<close>,
    \<^verbatim>\<open>hashing_policy.py\<close>), \<open>Repositories\<close> (\<^verbatim>\<open>domain/repositories.py\<close>,
    \<^verbatim>\<open>packages/provenance\<close>): URNs, content hashes and signatures, stored objects, edges,
    events and the hash of an event.

  Storage:

  \<^item> \<open>Database\<close> (\<^verbatim>\<open>packages/persistence/mrr/persistence/tables.py\<close>): the tables as lists of
    rows, transactions, the clock and the identifier generator. \<open>Event_Log\<close>,
    \<open>Object_Store\<close> (\<^verbatim>\<open>persistence/repositories.py\<close>) and \<open>Unit_Of_Work\<close>
    (\<^verbatim>\<open>unit_of_work.py\<close>): the operations on them, each with a locale for the contract that
    its clients use and an interpretation of it on the model of the code. Shown: the chain
    verifies after every sequence of operations, a head hash determines the history, no
    concurrent insert is lost, a unit of work writes all of its rows or none, the outbox is
    dispatched in order.
  \<^item> \<open>Durable_Stores\<close> (\<^verbatim>\<open>persistence/federation_*.py\<close>): processed message ids, key
    revocations and pending deliveries, which live in tables of their own.

  Federation:

  \<^item> \<open>Key_Ring\<close> (\<^verbatim>\<open>domain/keys.py\<close> and its neighbours): key descriptors, rings, rotation,
    revocation and the trust of signed objects. \<open>Federation\<close>: envelopes, inbox and outbox of
    the node messages; a signed envelope is accepted once, and never after its key is revoked.

  Services:

  \<^item> \<open>Claim_Ceiling\<close>, \<open>Independence\<close>, \<open>Impact_Graph\<close>: the pure domain rules for claim
    ceilings, kill conditions, independent reviews and sources, and impact over edges.
  \<^item> \<open>Service_Base\<close>, \<open>Claim_Service\<close>, \<open>Claim_Properties\<close>
    (\<^verbatim>\<open>services/control_plane/mrr/services/claim/service.py\<close>): the Claim service with its
    invariant over every reachable world.
  \<^item> \<open>Governed_Objects\<close>: what the services over one kind of object share: the operations that
    create and transition, the relation \<open>writes\<close> of what a call may write, the invariant
    \<open>service_ok\<close> over revisions and events, and the locale \<open>governed_service\<close> that keeps it.
    \<open>Governance_Services\<close>, \<open>Governance_Properties\<close>: research scores, method profiles, question
    models, concept charters and method protocols as interpretations of it. The lifecycle theorems
    speak of calls that address an object of the service's own kind; \<open>Addressing\<close> shows what the
    code does on another: an accept moves a draft of any kind, a Claim included.
  \<^item> \<open>Obligation_Service\<close>, \<open>Obligation_Properties\<close>: obligations, from the caveats of a
    transfer to the closure of the objects that rest on it.
  \<^item> \<open>Release_Service\<close>, \<open>Release_Properties\<close>: approval of a bundle of files by a person,
    supersession, verification of a directory, and the status banner.
  \<^item> \<open>Event_Sourcing\<close>, \<open>Journaled_Calls\<close>: objects whose status is in the event log, what a call
    on them may write (\<open>journals\<close>), and the locale \<open>journaling_service\<close> of services all of whose
    calls write that way. \<open>Stored_Types\<close>: any sequence of units of work keeps the tables
    well-typed and readable.
  \<^item> \<open>Signed_Contracts\<close>: stored contracts with a signature and the practice that must have made
    it. \<open>Capability_Registry\<close> (\<^verbatim>\<open>services/capability_registry\<close>): manifests of nodes, registered
    or refused. \<open>Task_Bundle_Service\<close>, \<open>Task_Bundle_Properties\<close> (\<^verbatim>\<open>services/task_bundle\<close>) and
    \<open>Transfer_Service\<close>, \<open>Transfer_Properties\<close> (\<^verbatim>\<open>services/transfer\<close>): interpretations of
    \<open>journaling_service\<close>; decisions and answers are given once, by whom they are due, over
    content that was signed. \<open>Contract_Samples\<close> builds the worlds their witnesses run in.
  \<^item> \<open>Correction_Service\<close>, \<open>Correction_Properties\<close>, \<open>Correction_Notifications\<close>,
    \<open>Notification_Properties\<close>, \<open>Notification_Sending\<close> (\<^verbatim>\<open>services/correction\<close>): corrections, the
    claims they send back to review, responses to them, their deliveries, and the signed
    notifications by which one practice tells another. Shown: propagation reaches exactly the
    impact, and only the canonicalizer or the contract can refuse it; what one node sends its peer
    admits; one call sends each due entry of its recipients one message, and a practice the log shows
    as told is not told again.
  \<^item> \<open>Projection_Service\<close>, \<open>Projection_Properties\<close> (\<^verbatim>\<open>services/projection\<close>): the table
    of claims, the provenance of a claim and the public views of claims and corrections. Shown:
    nothing the store implies is left out, and nothing is disclosed that was not attested.
  \<^item> \<open>Evidence_Services\<close>, \<open>Evidence_Properties\<close> (\<^verbatim>\<open>services/evidence\<close>,
    \<^verbatim>\<open>source_family\<close>, \<^verbatim>\<open>verification\<close>): sources, anchors, families and verifications, which are
    written once; a failed verification sends its claim back. \<open>Source_Verifier\<close>,
    \<open>Source_Properties\<close> (\<^verbatim>\<open>services/verifier\<close>): the check of an anchor against a local text or
    document; when exactly an anchor passes, and what a pass pins. \<open>Numeric_Verifier\<close>,
    \<open>Numeric_Properties\<close>: recomputation of a claimed number in the decimal arithmetic of Python, and
    how far it can be off.

  Measurement:

  \<^item> \<open>Agreement\<close> (\<^verbatim>\<open>domain/agreement.py\<close>): aligned ratings, the confusion matrix and the
    coefficients over it, as exact fractions. \<open>Support_Audit\<close> (\<^verbatim>\<open>domain/support_audit*.py\<close> and
    the service): figures, numerals and quotations checked against frozen sources.

  \<^item> \<open>Archive_Dump\<close>, \<open>Archive_Text\<close> (\<^verbatim>\<open>domain/archive_dump.py\<close>): the reader of committed database
    dumps, and that it reads back what PostgreSQL's COPY writes. \<open>Archive_Audits\<close>,
    \<open>Archive_Properties\<close> (\<^verbatim>\<open>domain/anchoring_integrity.py\<close>, \<^verbatim>\<open>domain/artifact_presence.py\<close>,
    their reports and services): the two audits over such dumps, whose counts are exactly those of
    the objects and files they read.

  Parameters. Code outside the repository is an argument: the record \<open>env\<close> holds the clock,
  the ULID generator, the RFC 8785 canonicalizer (which may fail), the derived checks of the
  Pydantic models, and Ed25519 verification. What a property needs of them is among its
  hypotheses, and each such property has a witness that runs it on \<open>sample_env\<close>.

  State. A world is the tables, the number of the next event row and a counter of environment
  readings. A service method is a program on the world; a transaction restores the tables when
  it raises, and concurrent transactions between two statements of a program are a parameter of
  the insert (the \<open>pause\<close> of \<open>insert_revision_core\<close>). The services are proved for calls that run
  one after the other, with arbitrary writes of the other services in between.

  Loops. The recursions are structural except the breadth-first searches of
  \<open>Impact_Graph\<close> and \<open>Projection_Service\<close> and a few scans over texts, whose termination is proved by a measure. No fuel
  is used anywhere.

  Not modelled: the command lines and the HTTP surface, which parse arguments and print; the
  executors of the node runtime and the scripts, which call language models, the network or the
  file system; renderings to Markdown, HTML and RO-Crate; and the contracts whose classes only
  declare fields. Concurrency of whole service calls is not modelled.
\<close>

end
